(* ===== verification/Prelude.thy ===== *)
theory Prelude
  imports Main "HOL-Library.AList" "HOL-Library.Multiset" "HOL-Library.Char_ord"
    "HOL-Library.List_Lexorder"
begin

section \<open>The JavaScript run-time values the components share\<close>

text \<open>
  This theory models the part of the JavaScript language and library that every component
  of the protocol uses: \<open>Map\<close> (insertion-ordered, \<open>set\<close> on a present key keeps the
  position), \<open>Set\<close> used to remove duplicates, \<open>Array.prototype.sort\<close> with a comparison
  function, string comparison and the decimal rendering of numbers. It also holds the locales that
  state the contracts several components rely on: \<open>keyed_store\<close> (lookup after insert and
  delete), \<open>comparator\<close> (a consistent comparison function), \<open>machine\<close> (operations that
  keep an invariant) and \<open>merge_join\<close> (a merge that converges).
  Time is passed in: where the code reads \<open>Date.now()\<close> an operation has an argument \<open>now\<close>.
\<close>

named_theorems js_map "lookup laws of the JavaScript Map model"
named_theorems store_defs "definitions of the operations of a component's state"

text \<open>Strings are lists of code units; a JavaScript result or exception is a sum.\<close>

type_synonym time = int
type_synonym 'a result = "string + 'a"

text \<open>\<open>s ? { key: s } : {}\<close> and other conditions take an empty string for an absent one.\<close>

definition truthy_string :: "string option \<Rightarrow> string option" where
  "truthy_string s = (if s = Some [] then None else s)"

subsection \<open>Map\<close>

type_synonym ('k, 'v) jsmap = "('k \<times> 'v) list"

definition jm_get :: "('k, 'v) jsmap \<Rightarrow> 'k \<Rightarrow> 'v option" where
  "jm_get m k = map_of m k"

definition jm_set :: "'k \<Rightarrow> 'v \<Rightarrow> ('k, 'v) jsmap \<Rightarrow> ('k, 'v) jsmap" where
  "jm_set k v m = AList.update k v m"

definition jm_delete :: "'k \<Rightarrow> ('k, 'v) jsmap \<Rightarrow> ('k, 'v) jsmap" where
  "jm_delete k m = AList.delete k m"

definition jm_has :: "('k, 'v) jsmap \<Rightarrow> 'k \<Rightarrow> bool" where
  "jm_has m k \<longleftrightarrow> jm_get m k \<noteq> None"

definition jm_keys :: "('k, 'v) jsmap \<Rightarrow> 'k list" where
  "jm_keys m = map fst m"

definition jm_values :: "('k, 'v) jsmap \<Rightarrow> 'v list" where
  "jm_values m = map snd m"

definition jm_get_or :: "'v \<Rightarrow> ('k, 'v) jsmap \<Rightarrow> 'k \<Rightarrow> 'v" where
  "jm_get_or d m k = (case jm_get m k of None \<Rightarrow> d | Some v \<Rightarrow> v)"

text \<open>A \<open>Map\<close> holds each key once.\<close>

definition wf_map :: "('k, 'v) jsmap \<Rightarrow> bool" where
  "wf_map m \<longleftrightarrow> distinct (jm_keys m)"

lemma jm_get_Nil [simp, js_map]: "jm_get [] k = None"
  by (simp add: jm_get_def)

lemma jm_get_Cons [simp]: "jm_get ((a, v) # m) k = (if k = a then Some v else jm_get m k)"
  by (simp add: jm_get_def)

lemma jm_get_set [js_map]: "jm_get (jm_set k v m) k' = (if k' = k then Some v else jm_get m k')"
  by (simp add: jm_get_def jm_set_def update_conv')

lemma jm_get_delete [js_map]: "jm_get (jm_delete k m) k' = (if k' = k then None else jm_get m k')"
  by (simp add: jm_get_def jm_delete_def delete_conv')

lemma jm_has_set [js_map]: "jm_has (jm_set k v m) k' \<longleftrightarrow> k' = k \<or> jm_has m k'"
  by (simp add: jm_has_def jm_get_set)

lemma jm_has_delete [js_map]: "jm_has (jm_delete k m) k' \<longleftrightarrow> k' \<noteq> k \<and> jm_has m k'"
  by (simp add: jm_has_def jm_get_delete)

lemma jm_has_Nil [simp]: "\<not> jm_has [] k"
  by (simp add: jm_has_def)

lemma jm_has_Cons: "jm_has ((a, v) # m) k \<longleftrightarrow> k = a \<or> jm_has m k"
  by (simp add: jm_has_def)

lemma wf_map_Nil [simp]: "wf_map []"
  by (simp add: wf_map_def jm_keys_def)

lemma wf_map_set [simp]: "wf_map m \<Longrightarrow> wf_map (jm_set k v m)"
  by (simp add: wf_map_def jm_keys_def jm_set_def distinct_update)

lemma wf_map_delete [simp]: "wf_map m \<Longrightarrow> wf_map (jm_delete k m)"
  by (simp add: wf_map_def jm_keys_def jm_delete_def distinct_delete)

lemma jm_keys_set: "set (jm_keys (jm_set k v m)) = insert k (set (jm_keys m))"
  by (simp add: jm_keys_def jm_set_def dom_update)

lemma jm_keys_delete: "set (jm_keys (jm_delete k m)) = set (jm_keys m) - {k}"
  by (simp add: jm_keys_def jm_delete_def delete_keys)

lemma jm_get_keys: "jm_get m k \<noteq> None \<longleftrightarrow> k \<in> set (jm_keys m)"
  by (metis jm_get_def jm_keys_def map_of_eq_None_iff set_map)

lemma jm_has_keys: "jm_has m k \<longleftrightarrow> k \<in> set (jm_keys m)"
  unfolding jm_has_def by (rule jm_get_keys)

lemma jm_get_Some_in: "jm_get m k = Some v \<Longrightarrow> (k, v) \<in> set m"
  by (simp add: jm_get_def map_of_SomeD)

lemma jm_get_iff: "wf_map m \<Longrightarrow> jm_get m k = Some v \<longleftrightarrow> (k, v) \<in> set m"
  by (simp add: jm_get_def wf_map_def jm_keys_def)

lemma jm_set_new: "\<not> jm_has m k \<Longrightarrow> jm_set k v m = m @ [(k, v)]"
  by (induction m) (auto simp: jm_set_def jm_has_def split: if_splits)

lemma set_jm_values: "wf_map m \<Longrightarrow> set (jm_values m) = {v. \<exists>k. jm_get m k = Some v}"
  by (force simp: jm_values_def jm_get_iff)

subsection \<open>The contract of a keyed store\<close>

text \<open>
  What every component assumes of the containers it keeps its state in. \<open>every P m\<close> says that
  all bindings satisfy \<open>P\<close>: component invariants are stated with it, and the lemmas proved
  here once carry them over updates and deletions.
\<close>

locale keyed_store =
  fixes get :: "'m \<Rightarrow> 'k \<Rightarrow> 'v option"
    and put :: "'k \<Rightarrow> 'v \<Rightarrow> 'm \<Rightarrow> 'm"
    and del :: "'k \<Rightarrow> 'm \<Rightarrow> 'm"
    and empty :: "'m"
  assumes get_put: "get (put k v m) k' = (if k' = k then Some v else get m k')"
    and get_del: "get (del k m) k' = (if k' = k then None else get m k')"
    and get_empty: "get empty k = None"
begin

definition every :: "('k \<Rightarrow> 'v \<Rightarrow> bool) \<Rightarrow> 'm \<Rightarrow> bool" where
  "every P m \<longleftrightarrow> (\<forall>k v. get m k = Some v \<longrightarrow> P k v)"

lemma every_empty: "every P empty"
  by (simp add: every_def get_empty)

lemma every_put: "every P m \<Longrightarrow> P k v \<Longrightarrow> every P (put k v m)"
  by (simp add: every_def get_put)

lemma every_del: "every P m \<Longrightarrow> every P (del k m)"
  by (auto simp: every_def get_del)

lemma every_get: "every P m \<Longrightarrow> get m k = Some v \<Longrightarrow> P k v"
  by (simp add: every_def)

lemma put_put_same: "get (put k v (put k w m)) = get (put k v m)"
  by (rule ext) (simp add: get_put)

lemma put_put_other: "j \<noteq> k \<Longrightarrow> get (put j v (put k w m)) = get (put k w (put j v m))"
  by (rule ext) (auto simp: get_put)

lemma get_put_other: "j \<noteq> k \<Longrightarrow> get (put k v m) j = get m j"
  by (simp add: get_put)

lemma get_del_put: "get (del k (put k v m)) = get (del k m)"
  by (rule ext) (simp add: get_put get_del)

end

interpretation jm: keyed_store jm_get jm_set jm_delete "[]"
  by unfold_locales (auto simp: js_map)

lemmas jm_every = jm.every_empty jm.every_put jm.every_del

subsection \<open>Set used to drop duplicates\<close>

text \<open>\<open>Array.from(new Set(xs))\<close>: the first occurrence of each element, in order.\<close>

fun js_uniq :: "'a list \<Rightarrow> 'a list" where
  "js_uniq [] = []"
| "js_uniq (x # xs) = x # filter (\<lambda>y. y \<noteq> x) (js_uniq xs)"

lemma set_js_uniq [simp]: "set (js_uniq xs) = set xs"
  by (induction xs) auto

lemma distinct_js_uniq [simp]: "distinct (js_uniq xs)"
  by (induction xs) auto

lemma js_uniq_distinct: "distinct xs \<Longrightarrow> js_uniq xs = xs"
proof (induction xs)
  case (Cons x xs)
  then show ?case by (simp, intro filter_True) auto
qed simp

lemma js_uniq_idem [simp]: "js_uniq (js_uniq xs) = js_uniq xs"
  by (simp add: js_uniq_distinct)

lemma length_js_uniq: "length (js_uniq xs) = card (set xs)"
  by (metis distinct_card distinct_js_uniq set_js_uniq)

text \<open>A \<open>Set\<close> of strings is the list of its elements in insertion order.\<close>

definition js_add :: "'a \<Rightarrow> 'a list \<Rightarrow> 'a list" where
  "js_add x s = (if x \<in> set s then s else s @ [x])"

definition js_remove :: "'a \<Rightarrow> 'a list \<Rightarrow> 'a list" where
  "js_remove x s = filter (\<lambda>y. y \<noteq> x) s"

lemma set_js_add [simp]: "set (js_add x s) = insert x (set s)"
  by (auto simp: js_add_def)

lemma distinct_js_add [simp]: "distinct (js_add x s) \<longleftrightarrow> distinct s"
  by (auto simp: js_add_def)

lemma set_js_remove [simp]: "set (js_remove x s) = set s - {x}"
  by (auto simp: js_remove_def)

lemma distinct_js_remove [simp]: "distinct s \<Longrightarrow> distinct (js_remove x s)"
  by (simp add: js_remove_def)

lemma set_fold_js_add [simp]: "set (fold js_add xs s) = set xs \<union> set s"
  by (induction xs arbitrary: s) auto

lemma distinct_fold_js_add [simp]: "distinct (fold js_add xs s) \<longleftrightarrow> distinct s"
  by (induction xs arbitrary: s) auto

lemma set_fold_js_remove [simp]: "set (fold js_remove xs s) = set s - set xs"
  by (induction xs arbitrary: s) auto

lemma distinct_fold_js_remove: "distinct s \<Longrightarrow> distinct (fold js_remove xs s)"
  by (induction xs arbitrary: s) auto

subsection \<open>Array.prototype.sort\<close>

text \<open>
  The library's sort is stable. For a consistent comparison function every stable sort gives the
  same list (\<open>comparator.js_sort_unique\<close> below), so an insertion sort stands for it.
  For an inconsistent comparison function the language leaves the order open, and only the
  permutation property \<open>mset_js_sort\<close> says anything about the code.
\<close>

fun js_insert :: "('a \<Rightarrow> 'a \<Rightarrow> int) \<Rightarrow> 'a \<Rightarrow> 'a list \<Rightarrow> 'a list" where
  "js_insert cmp x [] = [x]"
| "js_insert cmp x (y # ys) = (if cmp x y \<le> 0 then x # y # ys else y # js_insert cmp x ys)"

fun js_sort :: "('a \<Rightarrow> 'a \<Rightarrow> int) \<Rightarrow> 'a list \<Rightarrow> 'a list" where
  "js_sort cmp [] = []"
| "js_sort cmp (x # xs) = js_insert cmp x (js_sort cmp xs)"

abbreviation in_order :: "('a \<Rightarrow> 'a \<Rightarrow> int) \<Rightarrow> 'a list \<Rightarrow> bool" where
  "in_order cmp \<equiv> sorted_wrt (\<lambda>x y. cmp x y \<le> 0)"

lemma mset_js_insert [simp]: "mset (js_insert cmp x xs) = add_mset x (mset xs)"
  by (induction xs) auto

lemma mset_js_sort [simp]: "mset (js_sort cmp xs) = mset xs"
  by (induction xs) auto

lemma set_js_sort [simp]: "set (js_sort cmp xs) = set xs"
  by (metis mset_js_sort set_mset_mset)

lemma set_js_insert [simp]: "set (js_insert cmp x xs) = insert x (set xs)"
  by (induction xs) auto

lemma length_js_sort [simp]: "length (js_sort cmp xs) = length xs"
  by (metis mset_js_sort size_mset)

lemma distinct_map_js_sort [simp]: "distinct (map f (js_sort cmp xs)) \<longleftrightarrow> distinct (map f xs)"
  by (metis mset_js_sort mset_map mset_eq_imp_distinct_iff)

lemma distinct_js_sort [simp]: "distinct (js_sort cmp xs) \<longleftrightarrow> distinct xs"
  using distinct_map_js_sort [of id] by simp

lemma js_sort_in_order: "in_order cmp xs \<Longrightarrow> js_sort cmp xs = xs"
proof (induction xs)
  case (Cons x xs)
  then show ?case by (cases xs) auto
qed simp

text \<open>A consistent comparison function on a set \<open>A\<close> of values.\<close>

locale comparator =
  fixes A :: "'a set"
    and cmp :: "'a \<Rightarrow> 'a \<Rightarrow> int"
  assumes cmp_sgn: "x \<in> A \<Longrightarrow> y \<in> A \<Longrightarrow> sgn (cmp y x) = - sgn (cmp x y)"
    and cmp_trans: "x \<in> A \<Longrightarrow> y \<in> A \<Longrightarrow> z \<in> A \<Longrightarrow> cmp x y \<le> 0 \<Longrightarrow> cmp y z \<le> 0 \<Longrightarrow> cmp x z \<le> 0"
begin

lemma cmp_total: "x \<in> A \<Longrightarrow> y \<in> A \<Longrightarrow> \<not> cmp x y \<le> 0 \<Longrightarrow> cmp y x \<le> 0"
  using cmp_sgn [of x y] by (auto simp: sgn_if split: if_splits)

lemma cmp_zero: "x \<in> A \<Longrightarrow> y \<in> A \<Longrightarrow> cmp x y \<le> 0 \<Longrightarrow> cmp y x \<le> 0 \<Longrightarrow> cmp x y = 0"
  using cmp_sgn [of x y] by (auto simp: sgn_if split: if_splits)

lemma cmp_squeeze:
  assumes "x \<in> A" "y \<in> A" "z \<in> A" "cmp x y \<le> 0" "cmp y z \<le> 0" "cmp x z = 0"
  shows "cmp x y = 0 \<and> cmp y z = 0"
proof -
  have zx: "cmp z x \<le> 0" using assms cmp_sgn [of x z] by (simp add: sgn_0_0)
  have "cmp y x \<le> 0" "cmp z y \<le> 0"
    using assms zx by (auto intro: cmp_trans)
  with assms show ?thesis by (auto intro: cmp_zero)
qed

lemma in_order_insert:
  "x \<in> A \<Longrightarrow> set xs \<subseteq> A \<Longrightarrow> in_order cmp xs \<Longrightarrow> in_order cmp (js_insert cmp x xs)"
proof (induction xs)
  case (Cons y ys)
  then show ?case by (auto intro: cmp_trans [of x y] cmp_total)
qed simp

lemma in_order_sort: "set xs \<subseteq> A \<Longrightarrow> in_order cmp (js_sort cmp xs)"
  by (induction xs) (simp_all add: in_order_insert)

lemma in_order_unique:
  assumes "mset xs = mset ys" "set xs \<subseteq> A" "in_order cmp xs" "in_order cmp ys"
    and strict: "\<And>x y. x \<in> set xs \<Longrightarrow> y \<in> set xs \<Longrightarrow> cmp x y = 0 \<Longrightarrow> x = y"
  shows "xs = ys"
  using assms
proof (induction xs arbitrary: ys)
  case (Cons x xs)
  then obtain y zs where ys: "ys = y # zs" by (cases ys) auto
  have sets: "set (x # xs) = set ys" using Cons.prems(1) by (metis set_mset_mset)
  have "x = y"
  proof (rule ccontr)
    assume "x \<noteq> y"
    with sets ys have "y \<in> set xs" "x \<in> set zs" by auto
    then have "cmp x y \<le> 0" "cmp y x \<le> 0" using Cons.prems(3,4) ys by auto
    with sets ys Cons.prems(2) have "cmp x y = 0" by (intro cmp_zero) auto
    with Cons.prems(5) sets ys \<open>x \<noteq> y\<close> show False by auto
  qed
  with Cons ys show ?case by auto
qed simp

text \<open>Where equal keys mean equal values, the sorted list is determined by the elements alone.\<close>

lemma js_sort_unique:
  assumes "mset ys = mset xs" "set xs \<subseteq> A" "in_order cmp ys"
    and "\<And>x y. x \<in> set xs \<Longrightarrow> y \<in> set xs \<Longrightarrow> cmp x y = 0 \<Longrightarrow> x = y"
  shows "js_sort cmp xs = ys"
  by (rule in_order_unique) (use assms in \<open>auto intro: in_order_sort\<close>)

lemma js_sort_perm:
  assumes "mset xs = mset ys" "set xs \<subseteq> A"
    and "\<And>x y. x \<in> set xs \<Longrightarrow> y \<in> set xs \<Longrightarrow> cmp x y = 0 \<Longrightarrow> x = y"
  shows "js_sort cmp xs = js_sort cmp ys"
proof (rule js_sort_unique)
  have "set ys \<subseteq> A" using assms(1,2) by (metis set_mset_mset)
  then show "in_order cmp (js_sort cmp ys)" by (rule in_order_sort)
qed (use assms in auto)

end

text \<open>
  How the code builds comparison functions: by a numeric difference, by string comparison, on a
  field, and one after the other with \<open>||\<close>.
\<close>

definition num_cmp :: "int \<Rightarrow> int \<Rightarrow> int" where
  "num_cmp a b = a - b"

definition str_cmp :: "string \<Rightarrow> string \<Rightarrow> int" where
  "str_cmp a b = (if a = b then 0 else if a < b then - 1 else 1)"

definition cmp_by :: "('a \<Rightarrow> 'b) \<Rightarrow> ('b \<Rightarrow> 'b \<Rightarrow> int) \<Rightarrow> 'a \<Rightarrow> 'a \<Rightarrow> int" where
  "cmp_by f c x y = c (f x) (f y)"

definition cmp_then :: "('a \<Rightarrow> 'a \<Rightarrow> int) \<Rightarrow> ('a \<Rightarrow> 'a \<Rightarrow> int) \<Rightarrow> 'a \<Rightarrow> 'a \<Rightarrow> int" where
  "cmp_then c d x y = (if c x y \<noteq> 0 then c x y else d x y)"

interpretation num: comparator UNIV num_cmp
  by unfold_locales (auto simp: num_cmp_def sgn_if)

lemma str_cmp_le: "str_cmp a b \<le> 0 \<longleftrightarrow> a \<le> b"
  by (auto simp: str_cmp_def)

interpretation code_unit: comparator UNIV str_cmp
proof (unfold_locales)
  fix x y :: string
  show "sgn (str_cmp y x) = - sgn (str_cmp x y)" by (auto simp: str_cmp_def)
next
  fix x y z :: string
  assume "str_cmp x y \<le> 0" "str_cmp y z \<le> 0"
  then show "str_cmp x z \<le> 0" unfolding str_cmp_le by (rule order_trans)
qed

lemma str_cmp_zero [simp]: "str_cmp a b = 0 \<longleftrightarrow> a = b"
  by (simp add: str_cmp_def)

lemma num_cmp_zero [simp]: "num_cmp a b = 0 \<longleftrightarrow> a = b"
  by (simp add: num_cmp_def)

lemma comparator_by: "comparator UNIV c \<Longrightarrow> comparator UNIV (cmp_by f c)"
  unfolding comparator_def cmp_by_def by blast

lemma comparator_flip: "comparator UNIV c \<Longrightarrow> comparator UNIV (\<lambda>x y. c y x)"
  unfolding comparator_def by (metis minus_minus)

lemma cmp_then_zero [simp]: "cmp_then c d x y = 0 \<longleftrightarrow> c x y = 0 \<and> d x y = 0"
  by (simp add: cmp_then_def)

lemma comparator_then:
  assumes c: "comparator UNIV c" and d: "comparator UNIV d"
  shows "comparator UNIV (cmp_then c d)"
proof (unfold_locales)
  fix x y
  show "sgn (cmp_then c d y x) = - sgn (cmp_then c d x y)"
    using comparator.cmp_sgn [OF c, of x y] comparator.cmp_sgn [OF d, of x y]
    by (auto simp: cmp_then_def sgn_if split: if_splits)
next
  fix x y z
  assume xy: "cmp_then c d x y \<le> 0" and yz: "cmp_then c d y z \<le> 0"
  then have le: "c x y \<le> 0" "c y z \<le> 0" by (auto simp: cmp_then_def split: if_splits)
  then have xz: "c x z \<le> 0" by (rule comparator.cmp_trans [OF c UNIV_I UNIV_I UNIV_I])
  show "cmp_then c d x z \<le> 0"
  proof (cases "c x z = 0")
    case True
    with le have "c x y = 0 \<and> c y z = 0"
      using comparator.cmp_squeeze [OF c, of x y z] by simp
    with True xy yz show ?thesis
      by (auto simp: cmp_then_def intro: comparator.cmp_trans [OF d UNIV_I UNIV_I UNIV_I])
  qed (use xz in \<open>simp add: cmp_then_def\<close>)
qed

text \<open>What the code relies on of \<open>localeCompare\<close>: a comparison function that tells
  different strings apart.\<close>

locale string_order =
  fixes lc :: "string \<Rightarrow> string \<Rightarrow> int"
  assumes lc_comparator: "comparator UNIV lc"
    and lc_zero: "lc a b = 0 \<Longrightarrow> a = b"
begin

lemma lc_same [simp]: "lc a a = 0"
  using comparator.cmp_sgn [OF lc_comparator, of a a] by (simp add: sgn_if split: if_splits)

lemma lc_zero_iff: "lc a b = 0 \<longleftrightarrow> a = b"
  using lc_zero by auto

end

interpretation js_order: string_order str_cmp
  by (rule string_order.intro, rule code_unit.comparator_axioms) simp

lemmas comparators = comparator_then comparator_by num.comparator_axioms code_unit.comparator_axioms

subsection \<open>Rendering of numbers\<close>

definition digit_char :: "nat \<Rightarrow> char" where
  "digit_char d = char_of (48 + d)"

definition hex_digit :: "nat \<Rightarrow> char" where
  "hex_digit d = (if d < 10 then char_of (48 + d) else char_of (87 + d))"

function show_nat :: "nat \<Rightarrow> string" where
  "show_nat n = (if n < 10 then [digit_char n] else show_nat (n div 10) @ [digit_char (n mod 10)])"
  by pat_completeness auto
termination
  by (relation "measure id") auto

declare show_nat.simps [simp del]

text \<open>\<open>String(n)\<close> of an integer in the safe range.\<close>

definition show_int :: "int \<Rightarrow> string" where
  "show_int i = (if i < 0 then CHR ''-'' # show_nat (nat (- i)) else show_nat (nat i))"

definition read_digits :: "string \<Rightarrow> nat" where
  "read_digits s = foldl (\<lambda>n c. 10 * n + (of_char c - 48)) 0 s"

lemma of_char_digit: "d < 10 \<Longrightarrow> of_char (digit_char d) = 48 + d"
  by (simp add: digit_char_def)

lemma read_show_nat: "read_digits (show_nat n) = n"
proof (induction n rule: show_nat.induct)
  case (1 n)
  then show ?case
    by (cases "n < 10")
      (simp_all add: show_nat.simps [of n] read_digits_def of_char_digit)
qed

lemma show_nat_inject [simp]: "show_nat m = show_nat n \<longleftrightarrow> m = n"
  by (metis read_show_nat)

lemma show_nat_digits: "c \<in> set (show_nat n) \<Longrightarrow> (48 :: nat) \<le> of_char c \<and> (of_char c :: nat) \<le> 57"
proof (induction n rule: show_nat.induct)
  case (1 n)
  then show ?case
    by (cases "n < 10") (auto simp: show_nat.simps [of n] of_char_digit)
qed

lemma show_nat_not_Nil [simp]: "show_nat n \<noteq> []"
  by (subst show_nat.simps) simp

lemma show_nat_no_dash: "CHR ''-'' \<notin> set (show_nat n)"
  using show_nat_digits [of "CHR ''-''" n] by auto

lemma separator_inject:
  "x \<notin> set a \<Longrightarrow> x \<notin> set b \<Longrightarrow> a @ x # u = b @ x # v \<Longrightarrow> a = b \<and> u = v"
proof (induction a arbitrary: b)
  case Nil
  then show ?case by (cases b) auto
next
  case (Cons y a)
  then show ?case by (cases b) auto
qed

text \<open>A name, a dash and a number: the last dash splits it.\<close>

lemma dash_number_inject:
  assumes "a @ CHR ''-'' # show_nat m = b @ CHR ''-'' # show_nat n"
  shows "a = b \<and> m = n"
proof -
  have split: "takeWhile (\<lambda>c. c \<noteq> CHR ''-'') (rev (x @ CHR ''-'' # show_nat k)) = rev (show_nat k)"
    for x k
    using show_nat_no_dash [of k] by (subst rev.simps(2) rev_append)+ (auto simp: takeWhile_append)
  have "rev (show_nat m) = rev (show_nat n)"
    using split [of a m] split [of b n] by (simp only: assms)
  with assms show ?thesis by simp
qed

lemma show_int_inject [simp]: "show_int i = show_int j \<longleftrightarrow> i = j"
proof -
  have "CHR ''-'' # xs \<noteq> show_nat n" for xs n
    using show_nat_no_dash [of n] by (metis list.set_intros(1))
  then show ?thesis
    by (auto simp: show_int_def dest: sym)
qed

subsection \<open>Operations that keep an invariant\<close>

text \<open>
  The contract of a stateful component: \<open>ok\<close> says which calls are covered in which state, and
  every covered call keeps \<open>inv\<close>. A component interprets it once; a run of any length whose
  calls are all covered then keeps it too.
\<close>

fun covered_run :: "('o \<Rightarrow> 's \<Rightarrow> 's) \<Rightarrow> ('o \<Rightarrow> 's \<Rightarrow> bool) \<Rightarrow> 'o list \<Rightarrow> 's \<Rightarrow> bool" where
  "covered_run step ok [] s \<longleftrightarrow> True"
| "covered_run step ok (op # ops) s \<longleftrightarrow> ok op s \<and> covered_run step ok ops (step op s)"

lemma covered_run_static [simp]: "covered_run step (\<lambda>op s. P op) ops s \<longleftrightarrow> list_all P ops"
  by (induction ops arbitrary: s) auto

lemma covered_run_always [simp]: "covered_run step (\<lambda>op s. True) ops s"
  by (induction ops arbitrary: s) auto

locale machine =
  fixes step :: "'o \<Rightarrow> 's \<Rightarrow> 's"
    and ok :: "'o \<Rightarrow> 's \<Rightarrow> bool"
    and inv :: "'s \<Rightarrow> bool"
  assumes step_inv: "inv s \<Longrightarrow> ok op s \<Longrightarrow> inv (step op s)"
begin

lemma run_inv: "inv s \<Longrightarrow> covered_run step ok ops s \<Longrightarrow> inv (fold step ops s)"
  by (induction ops arbitrary: s) (auto intro: step_inv)

end

text \<open>A component with a quantity that no call decreases.\<close>

locale monotone_machine = machine +
  fixes level :: "'b \<Rightarrow> 'c :: order"
  assumes step_level: "inv s \<Longrightarrow> ok op s \<Longrightarrow> level s \<le> level (step op s)"
begin

lemma run_level: "inv s \<Longrightarrow> covered_run step ok ops s \<Longrightarrow> level s \<le> level (fold step ops s)"
proof (induction ops arbitrary: s)
  case (Cons op ops)
  then have "level s \<le> level (step op s)" "level (step op s) \<le> level (fold step ops (step op s))"
    by (auto intro: step_level step_inv)
  then show ?case by simp
qed simp

end

subsection \<open>Merges that converge\<close>

text \<open>
  A state-based replicated data type: on the states \<open>W\<close>, what a replica shows after a merge is
  the least upper bound of what the two replicas showed. Any sequence of merges with the same
  states then shows the same, whatever the order and however often a state arrives.
\<close>

locale merge_join =
  fixes W :: "'s set"
    and merge :: "'s \<Rightarrow> 's \<Rightarrow> 's"
    and obs :: "'s \<Rightarrow> 'o"
    and join :: "'o \<Rightarrow> 'o \<Rightarrow> 'o"
  assumes merge_W: "a \<in> W \<Longrightarrow> b \<in> W \<Longrightarrow> merge a b \<in> W"
    and obs_merge: "a \<in> W \<Longrightarrow> b \<in> W \<Longrightarrow> obs (merge a b) = join (obs a) (obs b)"
    and join_comm: "join x y = join y x"
    and join_assoc: "join (join x y) z = join x (join y z)"
    and join_idem: "join x x = x"
begin

lemma merge_comm: "a \<in> W \<Longrightarrow> b \<in> W \<Longrightarrow> obs (merge a b) = obs (merge b a)"
  by (simp add: obs_merge join_comm)

lemma merge_assoc:
  "a \<in> W \<Longrightarrow> b \<in> W \<Longrightarrow> c \<in> W \<Longrightarrow> obs (merge (merge a b) c) = obs (merge a (merge b c))"
  by (simp add: obs_merge merge_W join_assoc)

lemma merge_idem: "a \<in> W \<Longrightarrow> obs (merge a a) = obs a"
  by (simp add: obs_merge join_idem)

lemma foldl_merge_W: "s \<in> W \<Longrightarrow> set xs \<subseteq> W \<Longrightarrow> foldl merge s xs \<in> W"
  by (induction xs arbitrary: s) (auto intro: merge_W)

lemma obs_foldl_merge:
  "s \<in> W \<Longrightarrow> set xs \<subseteq> W \<Longrightarrow> obs (foldl merge s xs) = fold join (map obs xs) (obs s)"
  by (induction xs arbitrary: s) (auto simp: merge_W obs_merge join_comm)

lemma join_left_idem: "join x (join x y) = join x y"
  by (metis join_assoc join_idem)

lemma join_left_comm: "join x (join y z) = join y (join x z)"
  by (metis join_assoc join_comm)

lemma converge:
  assumes "s \<in> W" "set xs \<subseteq> W" "set xs = set ys"
  shows "obs (foldl merge s xs) = obs (foldl merge s ys)"
proof -
  have cfi: "comp_fun_idem join"
    by unfold_locales (auto simp: fun_eq_iff join_left_comm join_left_idem)
  have "fold join (map obs xs) (obs s) = fold join (map obs ys) (obs s)"
    using assms(3) by (simp flip: comp_fun_idem_on.fold_set_fold [OF cfi [unfolded comp_fun_idem_def']])
  with assms show ?thesis by (simp add: obs_foldl_merge)
qed

end

end
