(* ===== verification/VectorClock.thy ===== *)
theory VectorClock
  imports Prelude
begin

section \<open>Vector clocks\<close>

text \<open>
  Models \<open>decent-protocol/src/crdt/VectorClock.ts\<close>. A clock is the private \<open>Map\<close> from
  peer to counter; counters are integers (a remote clock may hold any number the peer sent).
  \<open>clone\<close>, \<open>toJSON\<close> and \<open>fromJSON\<close> pass the entries through a plain object, which may
  move integer-like keys to the front: only the counters are observed by the code, so a copy is the
  clock itself. The lemmas show that \<open>compare\<close> decides the component-wise order and that
  \<open>merge\<close> is its least upper bound, which gives the contract \<open>merge_join\<close>.
\<close>

type_synonym clock = "(string, int) jsmap"

definition vc_get :: "clock \<Rightarrow> string \<Rightarrow> int" where
  "vc_get c p = jm_get_or 0 c p"

definition vc_increment :: "string \<Rightarrow> clock \<Rightarrow> clock" where
  "vc_increment p c = jm_set p (vc_get c p + 1) c"

fun vc_merge_entry :: "string \<times> int \<Rightarrow> clock \<Rightarrow> clock" where
  "vc_merge_entry (p, n) merged = jm_set p (max (vc_get merged p) n) merged"

definition vc_merge :: "clock \<Rightarrow> clock \<Rightarrow> clock" where
  "vc_merge this other = fold vc_merge_entry other this"

datatype relation = Before | After | Concurrent | Equal

text \<open>The loop of \<open>compare\<close>: the two flags after looking at one peer.\<close>

definition vc_flag :: "clock \<Rightarrow> clock \<Rightarrow> string \<Rightarrow> bool \<times> bool \<Rightarrow> bool \<times> bool" where
  "vc_flag this other p fl =
     (fst fl \<or> vc_get this p < vc_get other p, snd fl \<or> vc_get this p > vc_get other p)"

definition vc_compare :: "clock \<Rightarrow> clock \<Rightarrow> relation" where
  "vc_compare this other =
     (let (thisBefore, otherBefore) =
        fold (vc_flag this other) (js_uniq (jm_keys this @ jm_keys other)) (False, False)
      in if \<not> thisBefore \<and> \<not> otherBefore then Equal
         else if thisBefore \<and> \<not> otherBefore then Before
         else if \<not> thisBefore \<and> otherBefore then After
         else Concurrent)"

definition vc_happenedBefore :: "clock \<Rightarrow> clock \<Rightarrow> bool" where
  "vc_happenedBefore this other \<longleftrightarrow>
     (let rel = vc_compare this other in rel = Before \<or> rel = Equal)"

definition vc_size :: "clock \<Rightarrow> nat" where
  "vc_size c = length c"

text \<open>Clocks the program builds: every peer once, no negative counter.\<close>

definition wf_clock :: "clock \<Rightarrow> bool" where
  "wf_clock c \<longleftrightarrow> wf_map c \<and> jm.every (\<lambda>_ n. 0 \<le> n) c"

subsection \<open>Counters\<close>

lemma vc_get_Nil [simp]: "vc_get [] p = 0"
  by (simp add: vc_get_def jm_get_or_def)

lemma vc_get_Cons: "vc_get ((q, n) # c) p = (if p = q then n else vc_get c p)"
  by (simp add: vc_get_def jm_get_or_def)

lemma vc_get_set: "vc_get (jm_set p n c) q = (if q = p then n else vc_get c q)"
  by (simp add: vc_get_def jm_get_or_def js_map)

lemma vc_get_missing: "p \<notin> set (jm_keys c) \<Longrightarrow> vc_get c p = 0"
  using jm_get_keys [of c p] by (auto simp: vc_get_def jm_get_or_def)

lemma vc_get_increment: "vc_get (vc_increment p c) q = vc_get c q + (if q = p then 1 else 0)"
  by (simp add: vc_increment_def vc_get_set)

lemma wf_clock_Nil [simp]: "wf_clock []"
  by (simp add: wf_clock_def jm_every)

lemma wf_clock_get: "wf_clock c \<Longrightarrow> 0 \<le> vc_get c p"
  by (auto simp: wf_clock_def vc_get_def jm_get_or_def dest: jm.every_get split: option.splits)

lemma wf_clock_set: "wf_clock c \<Longrightarrow> 0 \<le> n \<Longrightarrow> wf_clock (jm_set p n c)"
  by (simp add: wf_clock_def jm_every)

lemma wf_clock_increment: "wf_clock c \<Longrightarrow> wf_clock (vc_increment p c)"
  by (simp add: vc_increment_def wf_clock_set wf_clock_get add_increasing2)

lemma wf_clock_merge: "wf_clock a \<Longrightarrow> wf_clock (vc_merge a b)"
  unfolding vc_merge_def
  by (induction b arbitrary: a) (auto simp: wf_clock_set wf_clock_get max.coboundedI1)

lemma vc_get_merge:
  "wf_map b \<Longrightarrow> vc_get (vc_merge a b) p = (if jm_has b p then max (vc_get a p) (vc_get b p) else vc_get a p)"
proof (induction b arbitrary: a)
  case Nil
  then show ?case by (simp add: vc_merge_def jm_has_def)
next
  case (Cons e b)
  obtain q n where e: "e = (q, n)" by (cases e)
  have "vc_merge a (e # b) = vc_merge (jm_set q (max (vc_get a q) n) a) b"
    by (simp add: vc_merge_def e)
  moreover have "wf_map b" "\<not> jm_has b q"
    using Cons.prems by (auto simp: e wf_map_def jm_has_keys jm_keys_def)
  ultimately show ?case
    using Cons.IH [of "jm_set q (max (vc_get a q) n) a"]
    by (auto simp: e vc_get_set vc_get_Cons jm_has_Cons)
qed

lemma vc_get_merge_max:
  assumes "wf_clock a" "wf_clock b"
  shows "vc_get (vc_merge a b) p = max (vc_get a p) (vc_get b p)"
proof (cases "jm_has b p")
  case False
  then have "vc_get b p = 0" by (simp add: jm_has_keys vc_get_missing)
  with assms False show ?thesis
    by (simp add: vc_get_merge wf_clock_def [of b] max_absorb1 wf_clock_get)
qed (use assms in \<open>simp add: vc_get_merge wf_clock_def\<close>)

interpretation vc: merge_join "{c. wf_clock c}" vc_merge vc_get "\<lambda>f g p. max (f p) (g p)"
  by unfold_locales (auto simp: wf_clock_merge vc_get_merge_max max.commute max.assoc)

subsection \<open>The causal order\<close>

lemma fold_vc_flag:
  "fold (vc_flag a b) ps fl =
     (fst fl \<or> (\<exists>p\<in>set ps. vc_get a p < vc_get b p), snd fl \<or> (\<exists>p\<in>set ps. vc_get b p < vc_get a p))"
  by (induction ps arbitrary: fl) (auto simp: vc_flag_def)

lemma ex_key_iff:
  "(\<exists>p\<in>set (jm_keys a @ jm_keys b). vc_get a p < vc_get b p) \<longleftrightarrow> (\<exists>p. vc_get a p < vc_get b p)"
  "(\<exists>p\<in>set (jm_keys a @ jm_keys b). vc_get b p < vc_get a p) \<longleftrightarrow> (\<exists>p. vc_get b p < vc_get a p)"
  by (metis Un_iff less_irrefl set_append vc_get_missing)+

lemma vc_compare_alt:
  "vc_compare a b =
     (let lt = (\<exists>p. vc_get a p < vc_get b p); gt = (\<exists>p. vc_get b p < vc_get a p)
      in if \<not> lt then (if gt then After else Equal) else if gt then Concurrent else Before)"
  by (simp add: vc_compare_def fold_vc_flag ex_key_iff del: set_append)

definition clock_le :: "clock \<Rightarrow> clock \<Rightarrow> bool" where
  "clock_le a b \<longleftrightarrow> (\<forall>p. vc_get a p \<le> vc_get b p)"

lemma not_ex_less: "(\<not> (\<exists>p. vc_get b p < vc_get a p)) = clock_le a b"
  by (auto simp: clock_le_def not_less)

lemma vc_compare_cases:
  "vc_compare a b = Equal \<longleftrightarrow> clock_le a b \<and> clock_le b a"
  "vc_compare a b = Before \<longleftrightarrow> clock_le a b \<and> \<not> clock_le b a"
  "vc_compare a b = After \<longleftrightarrow> clock_le b a \<and> \<not> clock_le a b"
  "vc_compare a b = Concurrent \<longleftrightarrow> \<not> clock_le a b \<and> \<not> clock_le b a"
  unfolding not_ex_less [symmetric] by (auto simp: vc_compare_alt Let_def)

lemma happenedBefore_iff: "vc_happenedBefore a b \<longleftrightarrow> clock_le a b"
  by (auto simp: vc_happenedBefore_def Let_def vc_compare_cases)

lemma clock_le_refl [simp]: "clock_le a a"
  by (simp add: clock_le_def)

lemma clock_le_trans: "clock_le a b \<Longrightarrow> clock_le b c \<Longrightarrow> clock_le a c"
  by (meson clock_le_def order_trans)

lemma vc_compare_swap:
  "vc_compare b a = (case vc_compare a b of Before \<Rightarrow> After | After \<Rightarrow> Before | r \<Rightarrow> r)"
  by (simp add: vc_compare_alt Let_def)

lemma vc_compare_trans: "vc_compare a b = Before \<Longrightarrow> vc_compare b c = Before \<Longrightarrow> vc_compare a c = Before"
  by (auto simp: vc_compare_cases dest: clock_le_trans)

lemma clock_le_increment: "clock_le c (vc_increment p c) \<and> \<not> clock_le (vc_increment p c) c"
  by (force simp: clock_le_def vc_get_increment)

lemma clock_le_merge:
  assumes "wf_clock a" "wf_clock b"
  shows "clock_le a (vc_merge a b)" "clock_le b (vc_merge a b)"
    "clock_le a c \<Longrightarrow> clock_le b c \<Longrightarrow> clock_le (vc_merge a b) c"
  using assms by (auto simp: clock_le_def vc_get_merge_max)

subsection \<open>Properties\<close>

text \<open>
  \<open>compare\<close> decides the causal order of two clocks: it answers \<open>before\<close> exactly
  when no counter is larger and some counter is smaller, \<open>after\<close> for the converse, \<open>equal\<close> when all
  counters agree (a missing peer counts as 0) and \<open>concurrent\<close> in the remaining case; sending
  always moves a clock strictly forward.
\<close>

theorem vc_compare_decides:
  "(vc_compare a b = Equal) = (\<forall>p. vc_get a p = vc_get b p) \<and>
   (vc_compare a b = Before) = ((\<forall>p. vc_get a p \<le> vc_get b p) \<and> (\<exists>p. vc_get a p < vc_get b p)) \<and>
   (vc_compare a b = After) = ((\<forall>p. vc_get b p \<le> vc_get a p) \<and> (\<exists>p. vc_get b p < vc_get a p)) \<and>
   (vc_compare a b = Concurrent) = ((\<exists>p. vc_get a p < vc_get b p) \<and> (\<exists>p. vc_get b p < vc_get a p)) \<and>
   vc_compare a (vc_increment q a) = Before"
proof -
  have lt: "(\<not> clock_le x y) = (\<exists>p. vc_get y p < vc_get x p)" for x y
    using not_ex_less [of y x] by blast
  have eq: "(clock_le a b \<and> clock_le b a) = (\<forall>p. vc_get a p = vc_get b p)"
    unfolding clock_le_def by (metis order_antisym order_refl)
  show ?thesis
    unfolding vc_compare_cases(1-3) eq lt [of b a] lt [of a b]
    using clock_le_increment [of a q] vc_compare_cases(4) [of a b, unfolded lt] unfolding clock_le_def by blast
qed

text \<open>
  Merging is a least upper bound on the clocks peers build, so replicas that received
  the same clocks agree on every counter, in whatever order and however often the clocks arrived,
  and no merged clock is later than necessary.
\<close>

theorem vc_merge_converges:
  assumes "wf_clock c" "\<And>x. x \<in> set xs \<Longrightarrow> wf_clock x" "set xs = set ys"
  shows "vc_get (foldl vc_merge c xs) = vc_get (foldl vc_merge c ys) \<and>
    (\<forall>p. vc_get (foldl vc_merge c xs) p = Max (insert (vc_get c p) ((\<lambda>x. vc_get x p) ` set xs)))"
proof -
  have W: "c \<in> {c. wf_clock c}" "set xs \<subseteq> {c. wf_clock c}" using assms by auto
  have "fold (\<lambda>f g p. max (f p) (g p)) (map vc_get xs) f p = Max (insert (f p) ((\<lambda>x. vc_get x p) ` set xs))"
    for f p
  proof (induction xs arbitrary: f)
    case (Cons x xs)
    then show ?case by (simp add: insert_commute) (cases "xs = []", auto simp: max.assoc max.commute)
  qed simp
  with vc.obs_foldl_merge [OF W] vc.converge [OF W assms(3)] show ?thesis by simp
qed

lemma vc_merge_converges_witness:
  "vc_get (foldl vc_merge [(''a'', 1)] [ [(''b'', 2)], [(''a'', 3)] ]) =
   vc_get (foldl vc_merge [(''a'', 1)] [ [(''a'', 3)], [(''b'', 2)], [(''a'', 3)] ])"
proof -
  have wf: "wf_clock [(p, n)]" if "0 \<le> n" for p n
    using that by (simp add: wf_clock_def wf_map_def jm_keys_def jm.every_def)
  show ?thesis
    by (rule vc_merge_converges [THEN conjunct1]) (auto simp: wf)
qed

end
