(* ===== verification/MessageTypes.thy ===== *)
theory MessageTypes
  imports Prelude
begin

section \<open>Message records and limits\<close>

text \<open>
  Models \<open>decent-protocol/src/messages/types.ts\<close> (\<open>PlaintextMessage\<close>, without the UI
  fields of \<open>metadata\<close>, which no modelled operation reads) and \<open>messageLimits.ts\<close>.
  An optional field is an \<open>option\<close>.
\<close>

datatype message_type = TextMsg | FileMsg | SystemMsg

fun message_type_string :: "message_type \<Rightarrow> string" where
  "message_type_string TextMsg = ''text''"
| "message_type_string FileMsg = ''file''"
| "message_type_string SystemMsg = ''system''"

lemma message_type_string_inject [simp]:
  "message_type_string a = message_type_string b \<longleftrightarrow> a = b"
  by (cases a; cases b) auto

datatype status = Pending | Sent | Delivered | ReadStatus

record message =
  m_id :: string
  m_channelId :: string
  m_senderId :: string
  m_senderIdentityId :: "string option"
  m_timestamp :: time
  m_content :: string
  m_type :: message_type
  m_threadId :: "string option"
  m_prevHash :: string
  m_status :: status
  m_recipientPeerIds :: "string list option"
  m_ackedBy :: "string list option"
  m_ackedAt :: "(string, time) jsmap option"
  m_readBy :: "string list option"
  m_readAt :: "(string, time) jsmap option"
  m_vectorClock :: "(string, int) jsmap option"

definition MAX_MESSAGE_CHARS :: nat where
  "MAX_MESSAGE_CHARS = 16000"

text \<open>\<open>Inl\<close> is the thrown error's message.\<close>

definition validateMessageContentLength :: "string \<Rightarrow> unit result" where
  "validateMessageContentLength content =
     (if length content > MAX_MESSAGE_CHARS
      then Inl (''Message too long ('' @ show_nat (length content) @ ''/'' @
             show_nat MAX_MESSAGE_CHARS @ '' chars)'')
      else Inr ())"

lemma validate_ok: "validateMessageContentLength c = Inr u \<longleftrightarrow> length c \<le> MAX_MESSAGE_CHARS"
  by (auto simp: validateMessageContentLength_def)

text \<open>\<open>xs.slice(0, k)\<close>: a negative end counts from the back.\<close>

definition js_slice_to :: "int \<Rightarrow> 'a list \<Rightarrow> 'a list" where
  "js_slice_to k xs = (if 0 \<le> k then take (nat k) xs else take (nat (int (length xs) + k)) xs)"

lemma set_js_slice_to: "set (js_slice_to k xs) \<subseteq> set xs"
  by (auto simp: js_slice_to_def dest: in_set_takeD)

end
