(* ===== verification/MessageCRDT.thy ===== *)
theory MessageCRDT
  imports VectorClock MessageTypes
begin

section \<open>The grow-only message set\<close>

text \<open>
  Models \<open>decent-protocol/src/crdt/MessageCRDT.ts\<close>: the record \<open>crdt\<close> holds the three
  private fields of the class, and each method is a function from the state to its result and the
  new state. \<open>lc\<close> is \<open>String.prototype.localeCompare\<close>, which depends on the
  engine's locale data: the definitions take it as an argument and the theorems ask that it be a
  comparison function.
\<close>

record crdt_message =
  cm_id :: string
  cm_channelId :: string
  cm_senderId :: string
  cm_content :: string
  cm_type :: message_type
  cm_threadId :: "string option"
  cm_vectorClock :: clock
  cm_wallTime :: time
  cm_prevHash :: string

record crdt =
  cr_messages :: "(string, crdt_message) jsmap"
  cr_clock :: clock
  cr_peerId :: string

definition new_crdt :: "string \<Rightarrow> crdt" where
  "new_crdt p = \<lparr>cr_messages = [], cr_clock = [], cr_peerId = p\<rparr>"

definition hasMessage :: "string \<Rightarrow> crdt \<Rightarrow> bool" where
  "hasMessage i s = jm_has (cr_messages s) i"

definition createMessage ::
  "time \<Rightarrow> string \<Rightarrow> string \<Rightarrow> message_type \<Rightarrow> string option \<Rightarrow> crdt \<Rightarrow> (crdt_message \<times> crdt) result" where
  "createMessage now channelId content ty threadId s =
     (case validateMessageContentLength content of
        Inl e \<Rightarrow> Inl e
      | Inr _ \<Rightarrow>
        let c = vc_increment (cr_peerId s) (cr_clock s);
            msg = \<lparr>cm_id = cr_peerId s @ ''-'' @ show_int (vc_get c (cr_peerId s)),
                   cm_channelId = channelId, cm_senderId = cr_peerId s, cm_content = content,
                   cm_type = ty, cm_threadId = threadId, cm_vectorClock = c,
                   cm_wallTime = now, cm_prevHash = []\<rparr>
        in Inr (msg, s\<lparr>cr_clock := c, cr_messages := jm_set (cm_id msg) msg (cr_messages s)\<rparr>))"

record add_result =
  ar_added :: bool
  ar_duplicate :: bool

definition addMessage :: "crdt_message \<Rightarrow> crdt \<Rightarrow> (add_result \<times> crdt) result" where
  "addMessage msg s =
     (case validateMessageContentLength (cm_content msg) of
        Inl e \<Rightarrow> Inl e
      | Inr _ \<Rightarrow>
        if jm_has (cr_messages s) (cm_id msg) then Inr (\<lparr>ar_added = False, ar_duplicate = True\<rparr>, s)
        else Inr (\<lparr>ar_added = True, ar_duplicate = False\<rparr>,
               s\<lparr>cr_clock := vc_increment (cr_peerId s) (vc_merge (cr_clock s) (cm_vectorClock msg)),
                 cr_messages := jm_set (cm_id msg) msg (cr_messages s)\<rparr>))"

fun merge_loop :: "crdt_message list \<Rightarrow> crdt_message list \<Rightarrow> crdt \<Rightarrow> crdt_message list \<times> crdt" where
  "merge_loop [] new s = (new, s)"
| "merge_loop (msg # ms) new s =
     (if \<not> jm_has (cr_messages s) (cm_id msg)
      then merge_loop ms (new @ [msg])
             (s\<lparr>cr_messages := jm_set (cm_id msg) msg (cr_messages s),
                cr_clock := vc_merge (cr_clock s) (cm_vectorClock msg)\<rparr>)
      else merge_loop ms new s)"

definition merge_crdt :: "crdt_message list \<Rightarrow> crdt \<Rightarrow> crdt_message list \<times> crdt" where
  "merge_crdt remote s = merge_loop remote [] s"

definition trim_cmp :: "(string \<Rightarrow> string \<Rightarrow> int) \<Rightarrow> crdt_message \<Rightarrow> crdt_message \<Rightarrow> int" where
  "trim_cmp lc a b =
     (if cm_wallTime b - cm_wallTime a \<noteq> 0 then cm_wallTime b - cm_wallTime a
      else lc (cm_id b) (cm_id a))"

definition channel_msgs :: "string \<Rightarrow> crdt \<Rightarrow> crdt_message list" where
  "channel_msgs ch s = filter (\<lambda>m. cm_channelId m = ch) (jm_values (cr_messages s))"

text \<open>The deletion loop of \<open>trimChannel\<close>.\<close>

fun trim_loop :: "string set \<Rightarrow> crdt_message list \<Rightarrow> nat \<Rightarrow> (string, crdt_message) jsmap
    \<Rightarrow> nat \<times> (string, crdt_message) jsmap" where
  "trim_loop keepIds [] removed m = (removed, m)"
| "trim_loop keepIds (msg # ms) removed m =
     (if cm_id msg \<notin> keepIds then trim_loop keepIds ms (Suc removed) (jm_delete (cm_id msg) m)
      else trim_loop keepIds ms removed m)"

definition trimChannel :: "(string \<Rightarrow> string \<Rightarrow> int) \<Rightarrow> string \<Rightarrow> int \<Rightarrow> crdt \<Rightarrow> nat \<times> crdt" where
  "trimChannel lc ch keepCount s =
     (let channelMsgs = channel_msgs ch s in
      if int (length channelMsgs) \<le> keepCount then (0, s)
      else
        let sorted = js_sort (trim_cmp lc) channelMsgs;
            keepIds = set (map cm_id (js_slice_to keepCount sorted));
            (removed, m) = trim_loop keepIds sorted 0 (cr_messages s)
        in (removed, s\<lparr>cr_messages := m\<rparr>))"

definition causal_cmp :: "(string \<Rightarrow> string \<Rightarrow> int) \<Rightarrow> crdt_message \<Rightarrow> crdt_message \<Rightarrow> int" where
  "causal_cmp lc a b =
     (let relation = vc_compare (cm_vectorClock a) (cm_vectorClock b) in
      if relation = Before then - 1
      else if relation = After then 1
      else if cm_wallTime a \<noteq> cm_wallTime b then cm_wallTime a - cm_wallTime b
      else if cm_senderId a \<noteq> cm_senderId b then lc (cm_senderId a) (cm_senderId b)
      else lc (cm_id a) (cm_id b))"

definition sortCausal :: "(string \<Rightarrow> string \<Rightarrow> int) \<Rightarrow> crdt_message list \<Rightarrow> crdt_message list" where
  "sortCausal lc ms = js_sort (causal_cmp lc) ms"

definition getMessages :: "(string \<Rightarrow> string \<Rightarrow> int) \<Rightarrow> string \<Rightarrow> crdt \<Rightarrow> crdt_message list" where
  "getMessages lc ch s = sortCausal lc (channel_msgs ch s)"

definition getThread :: "(string \<Rightarrow> string \<Rightarrow> int) \<Rightarrow> string \<Rightarrow> string \<Rightarrow> crdt \<Rightarrow> crdt_message list" where
  "getThread lc ch threadId s = filter (\<lambda>m. cm_threadId m = Some threadId) (getMessages lc ch s)"

definition getAllMessages :: "crdt \<Rightarrow> crdt_message list" where
  "getAllMessages s = jm_values (cr_messages s)"

subsection \<open>The invariant of a replica\<close>

text \<open>
  Every message is stored under its own id, and the replica's clock is at least the clock of every
  message it holds.
\<close>

definition crdt_inv :: "crdt \<Rightarrow> bool" where
  "crdt_inv s \<longleftrightarrow> wf_map (cr_messages s) \<and> wf_clock (cr_clock s) \<and>
     jm.every (\<lambda>k m. cm_id m = k \<and> wf_clock (cm_vectorClock m) \<and>
        clock_le (cm_vectorClock m) (cr_clock s)) (cr_messages s)"

datatype crdt_op =
    CreateOp time string string message_type "string option"
  | AddOp crdt_message
  | MergeOp "crdt_message list"
  | TrimOp "string \<Rightarrow> string \<Rightarrow> int" string int

text \<open>A call that throws leaves the replica as it was.\<close>

fun crdt_step :: "crdt_op \<Rightarrow> crdt \<Rightarrow> crdt" where
  "crdt_step (CreateOp now ch c ty th) s =
     (case createMessage now ch c ty th s of Inl _ \<Rightarrow> s | Inr (_, s') \<Rightarrow> s')"
| "crdt_step (AddOp m) s = (case addMessage m s of Inl _ \<Rightarrow> s | Inr (_, s') \<Rightarrow> s')"
| "crdt_step (MergeOp ms) s = snd (merge_crdt ms s)"
| "crdt_step (TrimOp lc ch k) s = snd (trimChannel lc ch k s)"

fun crdt_op_ok :: "crdt_op \<Rightarrow> bool" where
  "crdt_op_ok (AddOp m) \<longleftrightarrow> wf_clock (cm_vectorClock m)"
| "crdt_op_ok (MergeOp ms) \<longleftrightarrow> list_all (\<lambda>m. wf_clock (cm_vectorClock m)) ms"
| "crdt_op_ok _ \<longleftrightarrow> True"

lemma crdt_inv_new: "crdt_inv (new_crdt p)"
  by (simp add: crdt_inv_def new_crdt_def jm_every)

lemma every_clock_mono:
  "jm.every (\<lambda>k m. P k m \<and> clock_le (cm_vectorClock m) c) ms \<Longrightarrow> clock_le c d \<Longrightarrow>
   jm.every (\<lambda>k m. P k m \<and> clock_le (cm_vectorClock m) d) ms"
  by (auto simp: jm.every_def dest: clock_le_trans)

text \<open>Storing one message, with the clock raised above it.\<close>

lemma crdt_inv_store:
  assumes "crdt_inv s" "wf_clock (cm_vectorClock m)" "wf_clock c"
    and "clock_le (cr_clock s) c" "clock_le (cm_vectorClock m) c"
  shows "crdt_inv (s\<lparr>cr_clock := c, cr_messages := jm_set (cm_id m) m (cr_messages s)\<rparr>)"
    "crdt_inv (s\<lparr>cr_messages := jm_set (cm_id m) m (cr_messages s), cr_clock := c\<rparr>)"
proof -
  have "clock_le d c" if "clock_le d (cr_clock s)" for d
    using that assms(4) by (rule clock_le_trans)
  with assms show "crdt_inv (s\<lparr>cr_clock := c, cr_messages := jm_set (cm_id m) m (cr_messages s)\<rparr>)"
    "crdt_inv (s\<lparr>cr_messages := jm_set (cm_id m) m (cr_messages s), cr_clock := c\<rparr>)"
    by (auto simp: crdt_inv_def jm.every_def js_map)
qed

lemma crdt_inv_create:
  assumes "crdt_inv s" "createMessage now ch c ty th s = Inr (m, s')"
  shows "crdt_inv s'"
proof -
  have "wf_clock (vc_increment (cr_peerId s) (cr_clock s))"
    using assms(1) by (simp add: crdt_inv_def wf_clock_increment)
  moreover have "clock_le (cr_clock s) (vc_increment (cr_peerId s) (cr_clock s))"
    using clock_le_increment by blast
  ultimately show ?thesis
    using assms crdt_inv_store [of s m "vc_increment (cr_peerId s) (cr_clock s)"]
    by (auto simp: createMessage_def Let_def split: sum.splits)
qed

lemma merged_clock_le:
  assumes "wf_clock c" "wf_clock d"
  shows "clock_le c (vc_increment p (vc_merge c d))" "clock_le d (vc_increment p (vc_merge c d))"
  using assms clock_le_increment clock_le_merge clock_le_trans by blast+

lemma crdt_inv_add:
  assumes "crdt_inv s" "wf_clock (cm_vectorClock m)" "addMessage m s = Inr (r, s')"
  shows "crdt_inv s' \<and> clock_le (cr_clock s) (cr_clock s')"
proof -
  have wf: "wf_clock (cr_clock s)" using assms(1) by (simp add: crdt_inv_def)
  show ?thesis
  proof (cases "jm_has (cr_messages s) (cm_id m)")
    case True
    with assms show ?thesis by (auto simp: addMessage_def split: sum.splits)
  next
    case False
    with assms wf show ?thesis
      using crdt_inv_store [OF assms(1,2), of "vc_increment (cr_peerId s) (vc_merge (cr_clock s) (cm_vectorClock m))"]
      by (auto simp: addMessage_def wf_clock_increment wf_clock_merge merged_clock_le split: sum.splits)
  qed
qed

lemma crdt_inv_merge_loop:
  assumes "crdt_inv s" "list_all (\<lambda>m. wf_clock (cm_vectorClock m)) ms"
  shows "crdt_inv (snd (merge_loop ms new s)) \<and> clock_le (cr_clock s) (cr_clock (snd (merge_loop ms new s)))"
  using assms
proof (induction ms arbitrary: new s)
  case (Cons m ms)
  show ?case
  proof (cases "jm_has (cr_messages s) (cm_id m)")
    case False
    let ?c = "vc_merge (cr_clock s) (cm_vectorClock m)"
    let ?s = "s\<lparr>cr_messages := jm_set (cm_id m) m (cr_messages s), cr_clock := ?c\<rparr>"
    have wf: "wf_clock (cr_clock s)" "wf_clock (cm_vectorClock m)"
      using Cons.prems by (auto simp: crdt_inv_def)
    then have "crdt_inv ?s"
      by (intro crdt_inv_store Cons.prems(1)) (auto simp: wf_clock_merge clock_le_merge)
    with Cons.IH [of ?s "new @ [m]"] Cons.prems(2)
    have "crdt_inv (snd (merge_loop ms (new @ [m]) ?s))"
      "clock_le ?c (cr_clock (snd (merge_loop ms (new @ [m]) ?s)))" by auto
    moreover have "clock_le (cr_clock s) ?c" using wf by (rule clock_le_merge)
    ultimately show ?thesis using False by (auto dest: clock_le_trans)
  qed (use Cons in auto)
qed simp

lemma trim_loop_deletes:
  "jm_get (snd (trim_loop keep ms n m)) k =
     (if k \<in> cm_id ` set ms \<and> k \<notin> keep then None else jm_get m k)"
  by (induction ms arbitrary: n m) (auto simp: js_map)

lemma wf_map_trim_loop: "wf_map m \<Longrightarrow> wf_map (snd (trim_loop keep ms n m))"
  by (induction ms arbitrary: n m) auto

lemma trim_loop_count:
  "fst (trim_loop keep ms n m) = n + length (filter (\<lambda>x. cm_id x \<notin> keep) ms)"
  by (induction ms arbitrary: n m) auto

lemma trimChannel_state:
  "snd (trimChannel lc ch k s) =
     (if int (length (channel_msgs ch s)) \<le> k then s
      else let sorted = js_sort (trim_cmp lc) (channel_msgs ch s);
               keepIds = set (map cm_id (js_slice_to k sorted))
           in s\<lparr>cr_messages := snd (trim_loop keepIds sorted 0 (cr_messages s))\<rparr>)"
  by (simp add: trimChannel_def Let_def case_prod_beta)

lemma crdt_inv_restrict:
  assumes "crdt_inv s" "wf_map ms" "\<And>k m. jm_get ms k = Some m \<Longrightarrow> jm_get (cr_messages s) k = Some m"
  shows "crdt_inv (s\<lparr>cr_messages := ms\<rparr>)"
  using assms unfolding crdt_inv_def jm.every_def by (simp, blast)

lemma crdt_inv_trim: "crdt_inv s \<Longrightarrow> crdt_inv (snd (trimChannel lc ch k s))"
  unfolding trimChannel_state
  by (auto simp: Let_def crdt_inv_def [of s] wf_map_trim_loop trim_loop_deletes
      intro!: crdt_inv_restrict split: if_splits)

lemma trimChannel_clock: "cr_clock (snd (trimChannel lc ch k s)) = cr_clock s"
  by (simp add: trimChannel_state Let_def)

lemma crdt_step_keeps:
  assumes "crdt_inv s" "crdt_op_ok op"
  shows "crdt_inv (crdt_step op s) \<and> clock_le (cr_clock s) (cr_clock (crdt_step op s))"
proof (cases op)
  case (CreateOp now ch c ty th)
  show ?thesis
  proof (cases "createMessage now ch c ty th s")
    case (Inr r)
    then obtain m s' where r: "createMessage now ch c ty th s = Inr (m, s')" by (cases r) auto
    then have "cr_clock s' = vc_increment (cr_peerId s) (cr_clock s)"
      by (auto simp: createMessage_def Let_def split: sum.splits)
    with r CreateOp crdt_inv_create [OF assms(1) r] show ?thesis by (simp add: clock_le_increment)
  qed (use assms CreateOp in simp)
next
  case (AddOp m)
  with assms crdt_inv_add [OF assms(1), of m] show ?thesis by (auto split: sum.splits)
next
  case (MergeOp ms)
  with assms crdt_inv_merge_loop [OF assms(1), of ms] show ?thesis by (simp add: merge_crdt_def)
next
  case (TrimOp lc ch k)
  with assms show ?thesis by (simp add: crdt_inv_trim trimChannel_clock)
qed

interpretation crdt_run: monotone_machine crdt_step "\<lambda>op s. crdt_op_ok op" crdt_inv "\<lambda>s. vc_get (cr_clock s)"
  by unfold_locales (use crdt_step_keeps in \<open>auto simp: clock_le_def le_fun_def\<close>)

subsection \<open>Convergence\<close>

text \<open>
  \<open>crdt_join s t\<close> is replica \<open>s\<close> after it merged everything \<open>t\<close> has. Replicas agree on the
  content of an id when all their messages come from one assignment \<open>U\<close> of messages to ids.
\<close>

definition crdt_join :: "crdt \<Rightarrow> crdt \<Rightarrow> crdt" where
  "crdt_join s t = snd (merge_crdt (getAllMessages t) s)"

definition consistent :: "(string \<Rightarrow> crdt_message) \<Rightarrow> crdt set" where
  "consistent U = {s. wf_map (cr_messages s) \<and>
     jm.every (\<lambda>k m. cm_id m = k \<and> U k = m) (cr_messages s)}"

lemma getAllMessages_iff:
  "wf_map (cr_messages s) \<Longrightarrow> m \<in> set (getAllMessages s) \<longleftrightarrow> (\<exists>k. jm_get (cr_messages s) k = Some m)"
  by (simp add: getAllMessages_def set_jm_values)

lemma merge_loop_consistent:
  assumes "s \<in> consistent U" "\<forall>m\<in>set ms. U (cm_id m) = m"
  shows "snd (merge_loop ms new s) \<in> consistent U \<and>
    set (getAllMessages (snd (merge_loop ms new s))) = set (getAllMessages s) \<union> set ms"
  using assms
proof (induction ms arbitrary: new s)
  case (Cons m ms)
  have U: "U (cm_id m) = m" using Cons.prems(2) by simp
  show ?case
  proof (cases "jm_has (cr_messages s) (cm_id m)")
    case True
    then obtain m' where "jm_get (cr_messages s) (cm_id m) = Some m'" by (auto simp: jm_has_def)
    moreover from this Cons.prems(1) have "U (cm_id m) = m'"
      by (simp add: consistent_def jm.every_def)
    ultimately have "m \<in> set (getAllMessages s)"
      using Cons.prems(1) U getAllMessages_iff [of s m] unfolding consistent_def by auto
    with Cons.IH [of s new] Cons.prems True show ?thesis by auto
  next
    case False
    let ?s = "s\<lparr>cr_messages := jm_set (cm_id m) m (cr_messages s),
      cr_clock := vc_merge (cr_clock s) (cm_vectorClock m)\<rparr>"
    have "?s \<in> consistent U"
      using Cons.prems(1) U by (auto simp: consistent_def jm_every)
    moreover have "set (getAllMessages ?s) = insert m (set (getAllMessages s))"
      using False by (simp add: getAllMessages_def jm_values_def jm_set_new)
    ultimately show ?thesis using Cons.IH [of ?s "new @ [m]"] Cons.prems(2) False by simp
  qed
qed simp

interpretation replicas: merge_join "consistent U" crdt_join "\<lambda>s. set (getAllMessages s)" "(\<union>)"
  for U :: "string \<Rightarrow> crdt_message"
proof (unfold_locales)
  fix s t
  assume st: "s \<in> consistent U" "t \<in> consistent U"
  then have "\<forall>m\<in>set (getAllMessages t). U (cm_id m) = m"
    by (auto simp: consistent_def getAllMessages_iff jm.every_def)
  with st show "crdt_join s t \<in> consistent U"
    "set (getAllMessages (crdt_join s t)) = set (getAllMessages s) \<union> set (getAllMessages t)"
    using merge_loop_consistent [of s U "getAllMessages t"] by (auto simp: crdt_join_def merge_crdt_def)
qed auto

subsection \<open>The displayed order\<close>

text \<open>
  Wall clocks respect causality on \<open>S\<close> when a message that causally precedes another also
  has the smaller wall time.
\<close>

definition wall_monotone :: "crdt_message set \<Rightarrow> bool" where
  "wall_monotone S \<longleftrightarrow>
     (\<forall>a\<in>S. \<forall>b\<in>S. vc_compare (cm_vectorClock a) (cm_vectorClock b) = Before \<longrightarrow> cm_wallTime a < cm_wallTime b)"

lemma wall_monotoneD:
  "wall_monotone S \<Longrightarrow> a \<in> S \<Longrightarrow> b \<in> S \<Longrightarrow>
   vc_compare (cm_vectorClock a) (cm_vectorClock b) = Before \<Longrightarrow> cm_wallTime a < cm_wallTime b"
  unfolding wall_monotone_def by blast

definition display_cmp :: "(string \<Rightarrow> string \<Rightarrow> int) \<Rightarrow> crdt_message \<Rightarrow> crdt_message \<Rightarrow> int" where
  "display_cmp lc = cmp_then (cmp_by cm_wallTime num_cmp)
     (cmp_then (cmp_by cm_senderId lc) (cmp_by cm_id lc))"

context string_order
begin

lemma display_comparator: "comparator UNIV (display_cmp lc)"
  unfolding display_cmp_def by (intro comparators lc_comparator)

lemma causal_display:
  assumes "wall_monotone S" "a \<in> S" "b \<in> S"
  shows "sgn (causal_cmp lc a b) = sgn (display_cmp lc a b)"
proof (cases "vc_compare (cm_vectorClock a) (cm_vectorClock b)")
  case Before
  with assms have "cm_wallTime a < cm_wallTime b" by (blast intro: wall_monotoneD)
  with Before show ?thesis
    by (auto simp: causal_cmp_def display_cmp_def cmp_then_def cmp_by_def num_cmp_def sgn_if)
next
  case After
  then have "vc_compare (cm_vectorClock b) (cm_vectorClock a) = Before"
    using vc_compare_swap [of "cm_vectorClock b" "cm_vectorClock a"] by simp
  with assms have "cm_wallTime b < cm_wallTime a" by (blast intro: wall_monotoneD)
  with After show ?thesis
    by (auto simp: causal_cmp_def display_cmp_def cmp_then_def cmp_by_def num_cmp_def sgn_if)
qed (auto simp: causal_cmp_def display_cmp_def cmp_then_def cmp_by_def num_cmp_def lc_zero_iff)

lemma causal_comparator: "wall_monotone S \<Longrightarrow> comparator S (causal_cmp lc)"
proof (unfold_locales)
  fix x y assume S: "wall_monotone S" "x \<in> S" "y \<in> S"
  then show "sgn (causal_cmp lc y x) = - sgn (causal_cmp lc x y)"
    by (simp add: causal_display comparator.cmp_sgn [OF display_comparator, of x y])
next
  fix x y z
  assume S: "wall_monotone S" "x \<in> S" "y \<in> S" "z \<in> S"
    and le: "causal_cmp lc x y \<le> 0" "causal_cmp lc y z \<le> 0"
  have iff: "causal_cmp lc u v \<le> 0 \<longleftrightarrow> display_cmp lc u v \<le> 0" if "u \<in> S" "v \<in> S" for u v
    using causal_display [OF S(1) that] by (auto simp: sgn_if split: if_splits)
  from le S have "display_cmp lc x y \<le> 0" "display_cmp lc y z \<le> 0" by (simp_all add: iff)
  then have "display_cmp lc x z \<le> 0"
    by (rule comparator.cmp_trans [OF display_comparator UNIV_I UNIV_I UNIV_I])
  with S show "causal_cmp lc x z \<le> 0" by (simp add: iff)
qed

lemma causal_zero:
  "wall_monotone S \<Longrightarrow> a \<in> S \<Longrightarrow> b \<in> S \<Longrightarrow> causal_cmp lc a b = 0 \<Longrightarrow> cm_id a = cm_id b"
  using causal_display [of S a b] by (auto simp: sgn_0_0 display_cmp_def cmp_by_def lc_zero_iff)

end

lemma distinct_ids:
  assumes "s \<in> consistent U"
  shows "distinct (map cm_id (getAllMessages s))"
proof -
  have "map cm_id (getAllMessages s) = jm_keys (cr_messages s)"
    using assms by (auto simp: consistent_def getAllMessages_def jm_values_def jm_keys_def
        jm.every_def jm_get_iff)
  then show ?thesis using assms by (simp add: consistent_def wf_map_def)
qed

lemma getMessages_determined:
  assumes lc: "string_order lc" and s: "s \<in> consistent U" and t: "t \<in> consistent U"
    and same: "set (getAllMessages s) = set (getAllMessages t)"
    and wall: "wall_monotone (set (channel_msgs ch s))"
  shows "getMessages lc ch s = getMessages lc ch t"
proof -
  let ?S = "set (channel_msgs ch s)"
  have msgs: "channel_msgs ch x = filter (\<lambda>m. cm_channelId m = ch) (getAllMessages x)" for x
    by (simp add: channel_msgs_def getAllMessages_def)
  have "distinct (getAllMessages x)" if "x \<in> consistent U" for x
    using distinct_ids [OF that] by (simp add: distinct_map)
  then have "mset (getAllMessages s) = mset (getAllMessages t)"
    using s t same by (simp add: set_eq_iff_mset_eq_distinct)
  then have "mset (channel_msgs ch s) = mset (channel_msgs ch t)" by (simp add: msgs)
  moreover have "x = y" if "x \<in> ?S" "y \<in> ?S" "causal_cmp lc x y = 0" for x y
  proof -
    have "cm_id x = cm_id y" using string_order.causal_zero [OF lc wall that] .
    with that distinct_ids [OF s] show ?thesis by (auto simp: msgs distinct_map inj_on_def)
  qed
  ultimately show ?thesis
    unfolding getMessages_def sortCausal_def
    by (intro comparator.js_sort_perm [OF string_order.causal_comparator [OF lc wall]]) auto
qed

subsection \<open>Eviction\<close>

lemma trim_cmp_alt:
  "trim_cmp lc = cmp_then (\<lambda>a b. cmp_by cm_wallTime num_cmp b a) (\<lambda>a b. cmp_by cm_id lc b a)"
  by (simp add: fun_eq_iff trim_cmp_def cmp_then_def cmp_by_def num_cmp_def)

context string_order
begin

lemma trim_comparator: "comparator UNIV (trim_cmp lc)"
  unfolding trim_cmp_alt by (rule comparator_then; rule comparator_flip; intro comparators lc_comparator)

lemma trim_order:
  assumes "a \<in> set (take n (js_sort (trim_cmp lc) ms))" "b \<in> set (drop n (js_sort (trim_cmp lc) ms))"
  shows "cm_wallTime b \<le> cm_wallTime a"
proof -
  have "in_order (trim_cmp lc) (take n (js_sort (trim_cmp lc) ms) @ drop n (js_sort (trim_cmp lc) ms))"
    by (simp add: comparator.in_order_sort [OF trim_comparator])
  with assms have "trim_cmp lc a b \<le> 0"
    unfolding sorted_wrt_append by blast
  then show ?thesis by (auto simp: trim_cmp_def split: if_splits)
qed

end

lemma trim_loop_filter:
  "snd (trim_loop keep ms n m) = filter (\<lambda>(k, _). k \<notin> cm_id ` set (filter (\<lambda>x. cm_id x \<notin> keep) ms)) m"
  by (induction ms arbitrary: n m) (auto simp: jm_delete_def AList.delete_eq intro!: filter_cong)

lemma trimmed_values:
  assumes "crdt_inv s" "set ms \<subseteq> set (getAllMessages s)"
  shows "jm_values (snd (trim_loop keep ms n (cr_messages s))) =
    filter (\<lambda>m. m \<in> set ms \<longrightarrow> cm_id m \<in> keep) (getAllMessages s)"
proof -
  have key: "cm_id m = k" if "(k, m) \<in> set (cr_messages s)" for k m
    using that assms(1) by (auto simp: crdt_inv_def jm.every_def jm_get_iff)
  have same: "a = b" if "a \<in> set (getAllMessages s)" "b \<in> set (getAllMessages s)" "cm_id a = cm_id b" for a b
    using that key assms(1)
    by (auto simp: getAllMessages_def jm_values_def crdt_inv_def wf_map_def jm_keys_def
        dest: eq_key_imp_eq_value)
  have mem: "k \<in> cm_id ` set (filter (\<lambda>x. cm_id x \<notin> keep) ms) \<longleftrightarrow> \<not> (m \<in> set ms \<longrightarrow> cm_id m \<in> keep)"
    if "(k, m) \<in> set (cr_messages s)" for k m
  proof -
    have "m \<in> set (getAllMessages s)" using that by (force simp: getAllMessages_def jm_values_def)
    with same assms(2) key [OF that] show ?thesis by (auto simp: image_iff)
  qed
  have "snd (trim_loop keep ms n (cr_messages s)) =
      filter (\<lambda>e. snd e \<in> set ms \<longrightarrow> cm_id (snd e) \<in> keep) (cr_messages s)"
    unfolding trim_loop_filter
  proof (rule filter_cong [OF refl])
    fix e
    assume "e \<in> set (cr_messages s)"
    with mem [of "fst e" "snd e"]
    show "(case e of (k, _) \<Rightarrow> k \<notin> cm_id ` set (filter (\<lambda>x. cm_id x \<notin> keep) ms)) =
        (snd e \<in> set ms \<longrightarrow> cm_id (snd e) \<in> keep)"
      by (cases e) simp
  qed
  then show ?thesis by (simp add: getAllMessages_def jm_values_def filter_map o_def)
qed

lemma getAllMessages_ids: "crdt_inv s \<Longrightarrow> distinct (map cm_id (getAllMessages s))"
  by (rule distinct_ids [of s "\<lambda>k. the (jm_get (cr_messages s) k)"])
    (auto simp: consistent_def crdt_inv_def jm.every_def)

lemma channel_msgs_alt: "channel_msgs ch s = filter (\<lambda>m. cm_channelId m = ch) (getAllMessages s)"
  by (simp add: channel_msgs_def getAllMessages_def)

lemma filter_by_id:
  assumes "distinct (map f xs)"
  shows "filter (\<lambda>x. f x \<in> f ` set (take n xs)) xs = take n xs"
    "filter (\<lambda>x. f x \<notin> f ` set (take n xs)) xs = drop n xs"
proof -
  have app: "distinct (map f (take n xs) @ map f (drop n xs))"
    using assms by (metis append_take_drop_id map_append)
  have t: "filter P xs = filter P (take n xs) @ filter P (drop n xs)" for P
    by (metis append_take_drop_id filter_append)
  show "filter (\<lambda>x. f x \<in> f ` set (take n xs)) xs = take n xs"
    "filter (\<lambda>x. f x \<notin> f ` set (take n xs)) xs = drop n xs"
    using app by (subst t, force simp: filter_empty_conv filter_id_conv)+
qed

text \<open>
  Evicting a channel removes exactly the messages beyond the \<open>keepCount\<close> newest ones:
  the count is right, the kept messages are at least as new as every evicted one, and the other
  channels are untouched.
\<close>

theorem trimChannel_keeps_newest:
  assumes lc: "string_order lc" and inv: "crdt_inv s" and k: "0 \<le> k"
    and "trimChannel lc ch k s = (removed, s')"
  shows "removed = length (channel_msgs ch s) - nat k \<and>
    length (channel_msgs ch s') = min (nat k) (length (channel_msgs ch s)) \<and>
    set (channel_msgs ch s') \<subseteq> set (channel_msgs ch s) \<and>
    (\<forall>kept\<in>set (channel_msgs ch s'). \<forall>gone\<in>set (channel_msgs ch s) - set (channel_msgs ch s').
       cm_wallTime gone \<le> cm_wallTime kept) \<and>
    (\<forall>other. other \<noteq> ch \<longrightarrow> channel_msgs other s' = channel_msgs other s)"
proof (cases "int (length (channel_msgs ch s)) \<le> k")
  case True
  with assms show ?thesis by (auto simp: trimChannel_def Let_def)
next
  case False
  let ?sorted = "js_sort (trim_cmp lc) (channel_msgs ch s)"
  let ?n = "nat k"
  let ?keep = "cm_id ` set (take ?n ?sorted)"
  have ids: "distinct (map cm_id ?sorted)"
    using getAllMessages_ids [OF inv] by (auto simp: channel_msgs_alt distinct_map intro: inj_on_subset)
  have s': "s' = s\<lparr>cr_messages := snd (trim_loop ?keep ?sorted 0 (cr_messages s))\<rparr>"
    and removed: "removed = fst (trim_loop ?keep ?sorted 0 (cr_messages s))"
    using assms(4) False k by (auto simp: trimChannel_def Let_def js_slice_to_def split: prod.splits)
  have all: "getAllMessages s' = filter (\<lambda>m. cm_channelId m = ch \<longrightarrow> cm_id m \<in> ?keep) (getAllMessages s)"
    using trimmed_values [OF inv, of ?sorted ?keep 0]
    by (auto simp: s' getAllMessages_def [of "s\<lparr>cr_messages := m\<rparr>" for m] channel_msgs_alt
        intro!: filter_cong)
  then have kept: "channel_msgs ch s' = filter (\<lambda>m. cm_id m \<in> ?keep) (channel_msgs ch s)"
    by (auto simp: channel_msgs_alt intro!: filter_cong)
  have "mset (channel_msgs ch s') = mset (filter (\<lambda>m. cm_id m \<in> ?keep) ?sorted)"
    by (simp add: kept)
  then have perm: "mset (channel_msgs ch s') = mset (take ?n ?sorted)"
    by (simp only: filter_by_id(1) [OF ids])
  then have setk: "set (channel_msgs ch s') = set (take ?n ?sorted)" by (metis set_mset_mset)
  moreover have "set (channel_msgs ch s) - set (take ?n ?sorted) \<subseteq> set (drop ?n ?sorted)"
    by (metis append_take_drop_id set_append set_js_sort Diff_subset_conv order_refl)
  ultimately have order: "\<forall>kept\<in>set (channel_msgs ch s'). \<forall>gone\<in>set (channel_msgs ch s) - set (channel_msgs ch s').
       cm_wallTime gone \<le> cm_wallTime kept"
    using string_order.trim_order [OF lc] by blast
  have "removed = length (drop ?n ?sorted)"
    by (simp add: removed trim_loop_count filter_by_id(2) [OF ids])
  moreover have "length (channel_msgs ch s') = length (take ?n ?sorted)"
    using perm by (metis size_mset)
  moreover have "channel_msgs other s' = channel_msgs other s" if "other \<noteq> ch" for other
    using that by (auto simp: channel_msgs_alt all intro!: filter_cong)
  ultimately show ?thesis using order kept by auto
qed


definition demo_message :: "string \<Rightarrow> string \<Rightarrow> time \<Rightarrow> crdt_message" where
  "demo_message i ch t = \<lparr>cm_id = i, cm_channelId = ch, cm_senderId = ''p'', cm_content = ''x'',
     cm_type = TextMsg, cm_threadId = None, cm_vectorClock = [(''p'', 1)], cm_wallTime = t,
     cm_prevHash = []\<rparr>"

lemma trimChannel_keeps_newest_witness:
  "length (channel_msgs ''c'' (snd (trimChannel str_cmp ''c'' 1
     (snd (merge_crdt [demo_message ''m1'' ''c'' 5, demo_message ''m2'' ''c'' 9] (new_crdt ''q'')))))) = 1"
proof -
  let ?s = "snd (merge_crdt [demo_message ''m1'' ''c'' 5, demo_message ''m2'' ''c'' 9] (new_crdt ''q''))"
  have "wf_clock [(''p'', 1 :: int)]"
    by (simp add: wf_clock_def wf_map_def jm_keys_def jm.every_def)
  then have "crdt_inv ?s"
    unfolding merge_crdt_def
    by (intro crdt_inv_merge_loop [OF crdt_inv_new, THEN conjunct1]) (simp add: demo_message_def)
  moreover have "length (channel_msgs ''c'' ?s) = 2" by code_simp
  ultimately show ?thesis
    using trimChannel_keeps_newest [OF js_order.string_order_axioms, of ?s 1 "''c''"]
    by (cases "trimChannel str_cmp ''c'' 1 ?s") auto
qed

text \<open>
  Whatever sequence of sends, receptions, merges and evictions a replica goes
  through, every message stays stored under its own id with its vector clock below the replica's
  clock, and running further operations never lowers a counter of the clock.
\<close>

theorem replica_invariant:
  assumes "list_all crdt_op_ok ops" "list_all crdt_op_ok later"
  shows "crdt_inv (fold crdt_step ops (new_crdt p)) \<and>
    (\<forall>q. vc_get (cr_clock (fold crdt_step ops (new_crdt p))) q
       \<le> vc_get (cr_clock (fold crdt_step (ops @ later) (new_crdt p))) q)"
  using crdt_run.run_inv [OF crdt_inv_new, of ops p] crdt_run.run_level [of _ later] assms
  by (simp add: le_fun_def)

lemma replica_invariant_witness:
  "crdt_inv (fold crdt_step [CreateOp 5 ''c'' ''hi'' TextMsg None, AddOp (demo_message ''m'' ''c'' 9)] (new_crdt ''q''))"
proof -
  have "wf_clock [(''p'', 1 :: int)]"
    by (simp add: wf_clock_def wf_map_def jm_keys_def jm.every_def)
  then show ?thesis
    by (intro replica_invariant [where later = "[]", THEN conjunct1]) (simp_all add: demo_message_def)
qed

text \<open>The id an honest sender gives a message.\<close>

definition honest_id :: "crdt_message \<Rightarrow> bool" where
  "honest_id m \<longleftrightarrow>
     cm_id m = cm_senderId m @ ''-'' @ show_int (vc_get (cm_vectorClock m) (cm_senderId m))"

text \<open>
  A sent message never reuses the id of a message the replica holds, is stored, and is
  causally after every message the replica had seen.
\<close>

theorem createMessage_fresh:
  assumes inv: "crdt_inv s" and honest: "\<And>m. m \<in> set (getAllMessages s) \<Longrightarrow> honest_id m"
    and create: "createMessage now ch c ty th s = Inr (new, s')"
  shows "\<not> hasMessage (cm_id new) s \<and> getAllMessages s' = getAllMessages s @ [new] \<and>
    honest_id new \<and>
    (\<forall>m\<in>set (getAllMessages s). vc_compare (cm_vectorClock m) (cm_vectorClock new) = Before)"
proof -
  let ?c = "vc_increment (cr_peerId s) (cr_clock s)"
  have new: "cm_vectorClock new = ?c" "cm_senderId new = cr_peerId s" "honest_id new"
    and s': "s' = s\<lparr>cr_clock := ?c, cr_messages := jm_set (cm_id new) new (cr_messages s)\<rparr>"
    using create by (auto simp: createMessage_def Let_def honest_id_def split: sum.splits)
  have below: "clock_le (cm_vectorClock m) (cr_clock s)" "wf_clock (cm_vectorClock m)"
    "cm_id m = k" if "jm_get (cr_messages s) k = Some m" for k m
    using inv that by (auto simp: crdt_inv_def jm.every_def)
  have wf: "wf_clock (cr_clock s)" "wf_map (cr_messages s)" using inv by (auto simp: crdt_inv_def)
  have fresh: "\<not> jm_has (cr_messages s) (cm_id new)"
  proof
    assume "jm_has (cr_messages s) (cm_id new)"
    then obtain m where m: "jm_get (cr_messages s) (cm_id new) = Some m" by (auto simp: jm_has_def)
    let ?i = "vc_get (cm_vectorClock m) (cm_senderId m)" and ?j = "vc_get ?c (cr_peerId s)"
    have "honest_id m" using honest m wf by (auto simp: getAllMessages_iff)
    with new below(3) [OF m]
    have "cm_senderId m @ ''-'' @ show_int ?i = cr_peerId s @ ''-'' @ show_int ?j"
      by (simp add: honest_id_def)
    moreover have "0 \<le> ?i" "0 \<le> ?j" using below [OF m] wf by (auto simp: wf_clock_get wf_clock_increment)
    ultimately have same: "cm_senderId m = cr_peerId s \<and> nat ?i = nat ?j"
      using dash_number_inject [of "cm_senderId m" "nat ?i" "cr_peerId s" "nat ?j"]
      by (simp add: show_int_def)
    with \<open>0 \<le> ?i\<close> \<open>0 \<le> ?j\<close> have "?i = ?j" by (metis eq_nat_nat_iff)
    moreover have "?i \<le> vc_get (cr_clock s) (cm_senderId m)"
      using below(1) [OF m] by (simp add: clock_le_def)
    ultimately show False using same by (simp add: vc_get_increment)
  qed
  have after: "vc_compare (cm_vectorClock m) ?c = Before" if "m \<in> set (getAllMessages s)" for m
    using that below(1) wf clock_le_increment [of "cr_clock s" "cr_peerId s"]
    unfolding getAllMessages_iff [OF wf(2)] vc_compare_cases by (meson clock_le_trans)
  with fresh new show ?thesis
    by (auto simp: hasMessage_def s' getAllMessages_def jm_values_def jm_set_new)
qed

lemma createMessage_fresh_witness:
  "\<exists>new s'. createMessage 7 ''c'' ''hi'' TextMsg None (new_crdt ''q'') = Inr (new, s') \<and>
     \<not> hasMessage (cm_id new) (new_crdt ''q'')"
proof -
  obtain new s' where create: "createMessage 7 ''c'' ''hi'' TextMsg None (new_crdt ''q'') = Inr (new, s')"
    by (simp add: createMessage_def validateMessageContentLength_def MAX_MESSAGE_CHARS_def Let_def)
  then show ?thesis
    using createMessage_fresh [OF crdt_inv_new _ create]
    by (auto simp: getAllMessages_def jm_values_def new_crdt_def)
qed

text \<open>\<open>c'\<close> is the least clock above \<open>c\<close> and above the clocks of the messages \<open>M\<close>.\<close>

definition clock_lub :: "clock \<Rightarrow> crdt_message set \<Rightarrow> clock \<Rightarrow> bool" where
  "clock_lub c M c' \<longleftrightarrow> clock_le c c' \<and> (\<forall>m \<in> M. clock_le (cm_vectorClock m) c') \<and>
     (\<forall>d. clock_le c d \<and> (\<forall>m \<in> M. clock_le (cm_vectorClock m) d) \<longrightarrow> clock_le c' d)"

lemma clock_lub_unique: "clock_lub c M a \<Longrightarrow> clock_lub c M b \<Longrightarrow> vc_get a = vc_get b"
  unfolding clock_lub_def clock_le_def by (intro ext order_antisym) blast+

lemma clock_lub_trans: "clock_lub a M b \<Longrightarrow> clock_lub b N c \<Longrightarrow> clock_lub a (M \<union> N) c"
  unfolding clock_lub_def by (meson Un_iff clock_le_trans)

lemma crdt_inv_held:
  "crdt_inv s \<Longrightarrow> jm_get (cr_messages s) k = Some m \<Longrightarrow>
     wf_clock (cm_vectorClock m) \<and> clock_le (cm_vectorClock m) (cr_clock s)"
  unfolding crdt_inv_def jm.every_def by blast

lemma consistent_held:
  "s \<in> consistent U \<Longrightarrow> jm_get (cr_messages s) k = Some m \<Longrightarrow> cm_id m = k \<and> U k = m"
  unfolding consistent_def jm.every_def by blast

lemma merge_loop_clock:
  assumes "crdt_inv s" "s \<in> consistent U" "\<forall>m \<in> set ms. U (cm_id m) = m \<and> wf_clock (cm_vectorClock m)"
  shows "clock_lub (cr_clock s) (set ms) (cr_clock (snd (merge_loop ms new s)))"
  using assms
proof (induction ms arbitrary: new s)
  case (Cons m ms)
  show ?case
  proof (cases "jm_has (cr_messages s) (cm_id m)")
    case True
    then obtain m' where "jm_get (cr_messages s) (cm_id m) = Some m'" by (auto simp: jm_has_def)
    moreover have "U (cm_id m) = m" using Cons.prems(3) by simp
    ultimately have "clock_le (cm_vectorClock m) (cr_clock s)"
      using crdt_inv_held [OF Cons.prems(1)] consistent_held [OF Cons.prems(2)] by metis
    then have "clock_lub (cr_clock s) {m} (cr_clock s)" by (auto simp: clock_lub_def)
    from clock_lub_trans [OF this Cons.IH [of s new]] show ?thesis using Cons.prems True by simp
  next
    case False
    let ?c = "vc_merge (cr_clock s) (cm_vectorClock m)"
    let ?s = "s\<lparr>cr_messages := jm_set (cm_id m) m (cr_messages s), cr_clock := ?c\<rparr>"
    have wf: "wf_clock (cr_clock s)" "wf_clock (cm_vectorClock m)" using Cons.prems by (simp_all add: crdt_inv_def)
    note le = clock_le_merge [OF wf]
    have "crdt_inv ?s" by (rule crdt_inv_store(2) [OF Cons.prems(1) wf(2) wf_clock_merge [OF wf(1)] le(1,2)])
    moreover have "?s \<in> consistent U" using Cons.prems by (auto simp: consistent_def jm_every)
    moreover have "clock_lub (cr_clock s) {m} ?c" using le by (auto simp: clock_lub_def)
    ultimately show ?thesis
      using clock_lub_trans [of "cr_clock s" "{m}" ?c, OF _ Cons.IH [of ?s "new @ [m]", simplified]] Cons.prems(3) False by simp
  qed
qed (simp add: clock_lub_def)

lemma held_ok:
  assumes "crdt_inv t" "t \<in> consistent U"
  shows "\<forall>m \<in> set (getAllMessages t). U (cm_id m) = m \<and> wf_clock (cm_vectorClock m)"
proof
  fix m assume "m \<in> set (getAllMessages t)"
  moreover have "wf_map (cr_messages t)" using assms(1) by (simp add: crdt_inv_def)
  ultimately obtain k where "jm_get (cr_messages t) k = Some m" using getAllMessages_iff by blast
  then show "U (cm_id m) = m \<and> wf_clock (cm_vectorClock m)"
    using crdt_inv_held [OF assms(1)] consistent_held [OF assms(2)] by metis
qed

lemma joins_clock:
  assumes "crdt_inv s" "s \<in> consistent U" "\<forall>t \<in> set xs. crdt_inv t \<and> t \<in> consistent U"
  shows "clock_lub (cr_clock s) (\<Union>t \<in> set xs. set (getAllMessages t)) (cr_clock (foldl crdt_join s xs))"
  using assms
proof (induction xs arbitrary: s)
  case (Cons t xs)
  have t: "\<forall>m \<in> set (getAllMessages t). U (cm_id m) = m \<and> wf_clock (cm_vectorClock m)"
    using Cons.prems(3) by (intro held_ok) simp_all
  then have "crdt_inv (crdt_join s t)"
    using crdt_inv_merge_loop [OF Cons.prems(1), of "getAllMessages t" "[]"]
    by (simp add: crdt_join_def merge_crdt_def list_all_iff)
  moreover have "crdt_join s t \<in> consistent U" using replicas.merge_W Cons.prems by auto
  moreover have "clock_lub (cr_clock s) (set (getAllMessages t)) (cr_clock (crdt_join s t))"
    unfolding crdt_join_def merge_crdt_def by (rule merge_loop_clock [OF Cons.prems(1,2) t])
  ultimately show ?case using clock_lub_trans Cons by simp
qed (simp add: clock_lub_def)

text \<open>
  Property C7. Strong convergence: replicas that started alike and merged the same states, in whatever order and however often, hold
  the same messages and their clocks have the same counters. They also display the messages of a channel in the same
  order, if the wall clocks in it respect causality. All the states must agree on which message an id stands for and
  satisfy the replica's invariant, which every operation keeps.
\<close>

theorem replicas_converge:
  assumes "s \<in> consistent U" "set xs \<subseteq> consistent U" "set xs = set ys" "string_order lc"
    and "crdt_inv s" "\<forall>t \<in> set xs. crdt_inv t"
  shows "set (getAllMessages (foldl crdt_join s xs)) = set (getAllMessages (foldl crdt_join s ys)) \<and>
    vc_get (cr_clock (foldl crdt_join s xs)) = vc_get (cr_clock (foldl crdt_join s ys)) \<and>
    (wall_monotone (set (channel_msgs ch (foldl crdt_join s xs))) \<longrightarrow>
       getMessages lc ch (foldl crdt_join s xs) = getMessages lc ch (foldl crdt_join s ys))"
proof (intro conjI)
  show "set (getAllMessages (foldl crdt_join s xs)) = set (getAllMessages (foldl crdt_join s ys))"
    by (rule replicas.converge [OF assms(1-3)])
  show "vc_get (cr_clock (foldl crdt_join s xs)) = vc_get (cr_clock (foldl crdt_join s ys))"
    by (rule clock_lub_unique [OF joins_clock [OF assms(5,1)] joins_clock [OF assms(5,1), of ys, folded assms(3)]])
      (use assms(2,3,6) in auto)
  show "wall_monotone (set (channel_msgs ch (foldl crdt_join s xs))) \<longrightarrow>
      getMessages lc ch (foldl crdt_join s xs) = getMessages lc ch (foldl crdt_join s ys)"
    using replicas.converge [OF assms(1-3)] replicas.foldl_merge_W [OF assms(1,2)]
      replicas.foldl_merge_W [of s U ys] assms(1-4) getMessages_determined by metis
qed

lemma replicas_converge_witness:
  "getMessages str_cmp ''c'' (foldl crdt_join (new_crdt ''q'')
      [snd (merge_crdt [demo_message ''m1'' ''c'' 5] (new_crdt ''r'')),
       snd (merge_crdt [demo_message ''m2'' ''c'' 3] (new_crdt ''t''))]) =
   getMessages str_cmp ''c'' (foldl crdt_join (new_crdt ''q'')
      [snd (merge_crdt [demo_message ''m2'' ''c'' 3] (new_crdt ''t'')),
       snd (merge_crdt [demo_message ''m1'' ''c'' 5] (new_crdt ''r''))])"
proof -
  let ?U = "\<lambda>i. demo_message i ''c'' (if i = ''m1'' then 5 else 3)"
  let ?a = "snd (merge_crdt [demo_message ''m1'' ''c'' 5] (new_crdt ''r''))"
  let ?b = "snd (merge_crdt [demo_message ''m2'' ''c'' 3] (new_crdt ''t''))"
  have "new_crdt x \<in> consistent ?U" for x by (simp add: consistent_def new_crdt_def jm_every)
  then have cons: "new_crdt ''q'' \<in> consistent ?U" "?a \<in> consistent ?U" "?b \<in> consistent ?U"
    using merge_loop_consistent [of "new_crdt ''r''" ?U "[demo_message ''m1'' ''c'' 5]" "[]"]
      merge_loop_consistent [of "new_crdt ''t''" ?U "[demo_message ''m2'' ''c'' 3]" "[]"]
    unfolding merge_crdt_def by (simp_all add: demo_message_def)
  have "wf_clock [(''p'', 1 :: int)]"
    by (simp add: wf_clock_def wf_map_def jm_keys_def jm.every_def)
  then have inv: "crdt_inv (snd (merge_crdt [demo_message i ''c'' w] (new_crdt q)))" for i w q
    unfolding merge_crdt_def
    by (intro crdt_inv_merge_loop [OF crdt_inv_new, THEN conjunct1]) (simp add: demo_message_def)
  have chan: "set (channel_msgs ''c'' (foldl crdt_join (new_crdt ''q'') [?a, ?b])) =
      {demo_message ''m1'' ''c'' 5, demo_message ''m2'' ''c'' 3}"
    by code_simp
  have "wall_monotone (set (channel_msgs ''c'' (foldl crdt_join (new_crdt ''q'') [?a, ?b])))"
    unfolding chan by (auto simp: wall_monotone_def demo_message_def vc_compare_cases)
  then show ?thesis
    using replicas_converge [where U = ?U and ch = "''c''", OF cons(1) _ _ js_order.string_order_axioms, of "[?a, ?b]" "[?b, ?a]"]
      cons inv crdt_inv_new by auto
qed

lemma cycle_not_in_order:
  fixes cmp :: "'a \<Rightarrow> 'a \<Rightarrow> int"
  assumes "cmp a b > 0" "cmp b c > 0" "cmp c a > 0" "mset ms = {#a, b, c#}"
  shows "\<not> in_order cmp ms"
proof (cases ms)
  case (Cons x xs)
  have eq: "add_mset x (mset xs) = {#a, b, c#}" using assms(4) Cons by simp
  have "x \<in> {a, b, c}" using arg_cong [OF eq, of set_mset] by auto
  moreover have "set xs = {b, c}" if "x = a" using eq that by (simp flip: set_mset_mset)
  moreover have "set xs = {a, c}" if "x = b"
    using eq that by (simp add: add_mset_commute flip: set_mset_mset)
  moreover have "set xs = {a, b}" if "x = c"
    using eq that by (simp add: add_mset_commute flip: set_mset_mset)
  ultimately have "\<exists>y\<in>set xs. cmp x y > 0" using assms(1-3) by blast
  then show ?thesis using Cons by (fastforce simp: not_le [symmetric])
qed (use assms in simp)

text \<open>
  The comparison function \<open>sortCausal\<close> hands to \<open>sort\<close> is not a consistent one when a
  peer's wall clock steps back: of three messages that two honest peers create, each comes before
  the next one around a circle, whatever the string order, so no arrangement of them is sorted.
\<close>

theorem causal_order_has_a_cycle:
  "\<exists>a1 a2 b s1 s2 t.
     createMessage 10 ''c'' ''x'' TextMsg None (new_crdt ''A'') = Inr (a1, s1) \<and>
     createMessage 5 ''c'' ''y'' TextMsg None s1 = Inr (a2, s2) \<and>
     createMessage 7 ''c'' ''z'' TextMsg None (new_crdt ''B'') = Inr (b, t) \<and>
     causal_cmp lc a1 a2 < 0 \<and> causal_cmp lc a2 b < 0 \<and> causal_cmp lc b a1 < 0 \<and>
     \<not> (\<exists>ms. mset ms = {#a1, a2, b#} \<and> in_order (causal_cmp lc) ms)"
proof -
  define msg where "msg p n t c = \<lparr>cm_id = p @ ''-'' @ show_int n, cm_channelId = ''c'', cm_senderId = p,
    cm_content = c, cm_type = TextMsg, cm_threadId = None, cm_vectorClock = [(p, n)], cm_wallTime = t,
    cm_prevHash = []\<rparr>" for p n t c
  let ?a1 = "msg ''A'' 1 10 ''x''" and ?a2 = "msg ''A'' 2 5 ''y''" and ?b = "msg ''B'' 1 7 ''z''"
  let ?s1 = "\<lparr>cr_messages = [(cm_id ?a1, ?a1)], cr_clock = [(''A'', 1)], cr_peerId = ''A''\<rparr>"
  have create: "createMessage 10 ''c'' ''x'' TextMsg None (new_crdt ''A'') = Inr (?a1, ?s1)"
    "\<exists>s2. createMessage 5 ''c'' ''y'' TextMsg None ?s1 = Inr (?a2, s2)"
    "\<exists>t. createMessage 7 ''c'' ''z'' TextMsg None (new_crdt ''B'') = Inr (?b, t)"
    by (simp_all add: createMessage_def validateMessageContentLength_def MAX_MESSAGE_CHARS_def
        Let_def new_crdt_def vc_increment_def vc_get_def jm_get_or_def jm_set_def msg_def)
  have "vc_compare [(''A'', 1)] [(''A'', 2)] = Before" "vc_compare [(''A'', 2)] [(''A'', 1)] = After"
    "vc_compare [(''A'', 2)] [(''B'', 1)] = Concurrent" "vc_compare [(''B'', 1)] [(''A'', 2)] = Concurrent"
    "vc_compare [(''B'', 1)] [(''A'', 1)] = Concurrent" "vc_compare [(''A'', 1)] [(''B'', 1)] = Concurrent"
    by code_simp+
  then have lt: "causal_cmp lc ?a1 ?a2 < 0" "causal_cmp lc ?a2 ?b < 0" "causal_cmp lc ?b ?a1 < 0"
    and gt: "causal_cmp lc ?a1 ?b > 0" "causal_cmp lc ?b ?a2 > 0" "causal_cmp lc ?a2 ?a1 > 0"
    by (simp_all add: causal_cmp_def msg_def)
  have "\<not> in_order (causal_cmp lc) ms" if "mset ms = {#?a1, ?a2, ?b#}" for ms
    using cycle_not_in_order [of "causal_cmp lc", OF gt] that by (simp add: add_mset_commute)
  with create lt show ?thesis by blast
qed

end
