(* ===== verification/HashChain.thy ===== *)
theory HashChain
  imports MessageTypes
begin

section \<open>The hash chain\<close>

text \<open>
  Models \<open>decent-protocol/src/crypto/HashChain.ts\<close>. SHA-256 is the platform's
  (\<open>crypto.subtle.digest\<close>), so \<open>sha\<close>, the hexadecimal digest of a string, is an argument of
  the definitions; the theorems ask only that it has no collision among the records compared. The
  serialisation \<open>JSON.stringify\<close> of the six hashed fields is modelled character by character, and
  proved unambiguous: different records never serialise to the same text.
\<close>

record hashable =
  h_id :: string
  h_channelId :: string
  h_senderId :: string
  h_timestamp :: time
  h_content :: string
  h_type :: string
  h_prevHash :: string

subsection \<open>JSON.stringify\<close>

text \<open>The escape of one code unit in a JSON string.\<close>

definition json_escape :: "char \<Rightarrow> string" where
  "json_escape c =
     (let n = of_char c :: nat in
      if n = 34 then [CHR 0x5C, CHR 0x22]
      else if n = 92 then [CHR 0x5C, CHR 0x5C]
      else if n = 8 then CHR 0x5C # ''b''
      else if n = 9 then CHR 0x5C # ''t''
      else if n = 10 then CHR 0x5C # ''n''
      else if n = 12 then CHR 0x5C # ''f''
      else if n = 13 then CHR 0x5C # ''r''
      else if n < 32 then CHR 0x5C # ''u00'' @ [hex_digit (n div 16), hex_digit (n mod 16)]
      else [c])"

definition quote :: char where
  "quote = CHR 0x22"

definition json_string :: "string \<Rightarrow> string" where
  "json_string s = quote # concat (map json_escape s) @ [quote]"

definition json_field :: "string \<Rightarrow> string \<Rightarrow> string" where
  "json_field name v = json_string name @ '':'' @ v"

definition canonicalize :: "hashable \<Rightarrow> string" where
  "canonicalize m = ''{'' @
     json_field ''id'' (json_string (h_id m)) @ '','' @
     json_field ''senderId'' (json_string (h_senderId m)) @ '','' @
     json_field ''timestamp'' (show_int (h_timestamp m)) @ '','' @
     json_field ''content'' (json_string (h_content m)) @ '','' @
     json_field ''type'' (json_string (h_type m)) @ '','' @
     json_field ''prevHash'' (json_string (h_prevHash m)) @ ''}''"

subsection \<open>Chains\<close>

definition GENESIS_HASH :: string where
  "GENESIS_HASH = replicate 64 (CHR ''0'')"

definition hashMessage :: "(string \<Rightarrow> string) \<Rightarrow> hashable \<Rightarrow> string" where
  "hashMessage sha m = sha (canonicalize m)"

definition verifyChain :: "(string \<Rightarrow> string) \<Rightarrow> hashable \<Rightarrow> string \<Rightarrow> bool" where
  "verifyChain sha prev current_prevHash \<longleftrightarrow> current_prevHash = hashMessage sha prev"

datatype verification =
    Valid
  | Broken (brokenAt: nat) (reason: string)

text \<open>The loop over the messages after the first: \<open>i\<close> is the index of \<open>m\<close>.\<close>

fun verify_links :: "(string \<Rightarrow> string) \<Rightarrow> nat \<Rightarrow> hashable \<Rightarrow> hashable list \<Rightarrow> verification" where
  "verify_links sha i prev [] = Valid"
| "verify_links sha i prev (m # ms) =
     (let expectedHash = hashMessage sha prev in
      if h_prevHash m \<noteq> expectedHash
      then Broken i (''Hash chain broken at message '' @ show_nat i @ ''. Expected prevHash '' @
             expectedHash @ '', got '' @ h_prevHash m)
      else verify_links sha (Suc i) m ms)"

definition verifyFullChain :: "(string \<Rightarrow> string) \<Rightarrow> hashable list \<Rightarrow> verification" where
  "verifyFullChain sha ms =
     (case ms of
        [] \<Rightarrow> Valid
      | m # rest \<Rightarrow>
        if h_prevHash m \<noteq> GENESIS_HASH
        then Broken 0 (''First message has invalid genesis hash. Expected '' @ GENESIS_HASH @
               '', got '' @ h_prevHash m)
        else verify_links sha 1 m rest)"

subsection \<open>The serialisation is unambiguous\<close>

text \<open>Reading one escaped code unit back.\<close>

definition hex_value :: "char \<Rightarrow> nat" where
  "hex_value c = (if of_char c < (58 :: nat) then of_char c - 48 else of_char c - 87)"

fun json_unescape :: "string \<Rightarrow> (char \<times> string) option" where
  "json_unescape [] = None"
| "json_unescape (c # s) =
     (if of_char c \<noteq> (92 :: nat) then Some (c, s)
      else case s of
        [] \<Rightarrow> None
      | x # r \<Rightarrow>
        if x = CHR ''b'' then Some (CHR 0x08, r)
        else if x = CHR ''t'' then Some (CHR 0x09, r)
        else if x = CHR ''n'' then Some (CHR 0x0A, r)
        else if x = CHR ''f'' then Some (CHR 0x0C, r)
        else if x = CHR ''r'' then Some (CHR 0x0D, r)
        else if x = CHR ''u''
        then Some (char_of (16 * hex_value (r ! 2) + hex_value (r ! 3)), drop 4 r)
        else Some (x, r))"

lemma hex_value_digit: "d < 16 \<Longrightarrow> hex_value (hex_digit d) = d"
  by (auto simp: hex_value_def hex_digit_def)

lemma char_literals:
  "char_of (34 :: nat) = CHR 0x22" "char_of (92 :: nat) = CHR 0x5C" "char_of (8 :: nat) = CHR 0x08"
  "char_of (9 :: nat) = CHR 0x09" "char_of (10 :: nat) = CHR 0x0A" "char_of (12 :: nat) = CHR 0x0C"
  "char_of (13 :: nat) = CHR 0x0D"
  by code_simp+

lemma json_unescape_escape: "json_unescape (json_escape c @ u) = Some (c, u)"
proof -
  let ?n = "of_char c :: nat"
  have c: "c = char_of ?n" by simp
  consider "?n = 34" | "?n = 92" | "?n = 8" | "?n = 9" | "?n = 10" | "?n = 12" | "?n = 13"
    | "?n < 32" "?n \<notin> {34, 92, 8, 9, 10, 12, 13}" | "\<not> ?n < 32" "?n \<notin> {34, 92, 8, 9, 10, 12, 13}"
    by blast
  then show ?thesis
  proof cases
    case 8
    then have "json_escape c = CHR 0x5C # ''u00'' @ [hex_digit (?n div 16), hex_digit (?n mod 16)]"
      by (simp add: json_escape_def Let_def)
    moreover have "?n div 16 < 16" "?n mod 16 < 16" using 8(1) by auto
    ultimately show ?thesis using c by (simp add: hex_value_digit)
  next
    case 9
    then show ?thesis by (simp add: json_escape_def)
  qed (use c in \<open>simp_all add: json_escape_def char_literals\<close>)
qed

lemma json_escape_inject: "json_escape c @ u = json_escape d @ v \<Longrightarrow> c = d \<and> u = v"
  by (metis json_unescape_escape option.inject prod.inject)

lemma json_escape_not_quote: "json_escape c @ u \<noteq> quote # v"
proof
  assume "json_escape c @ u = quote # v"
  then have "json_unescape (json_escape c @ u) = Some (quote, v)" by (simp add: quote_def)
  then have "c = quote" by (simp add: json_unescape_escape)
  with \<open>json_escape c @ u = quote # v\<close> show False by (simp add: json_escape_def quote_def)
qed

lemma json_chars_inject:
  "concat (map json_escape s) @ quote # u = concat (map json_escape t) @ quote # v \<Longrightarrow> s = t \<and> u = v"
proof (induction s arbitrary: t)
  case Nil
  then show ?case using json_escape_not_quote by (cases t) (auto, metis)
next
  case (Cons c s)
  show ?case
  proof (cases t)
    case Nil
    with Cons.prems show ?thesis using json_escape_not_quote [of c] by simp
  next
    case t: (Cons d t')
    with Cons.prems have "json_escape c @ concat (map json_escape s) @ quote # u =
      json_escape d @ concat (map json_escape t') @ quote # v" by simp
    then have "c = d" "concat (map json_escape s) @ quote # u = concat (map json_escape t') @ quote # v"
      using json_escape_inject by blast+
    with Cons.IH t show ?thesis by simp
  qed
qed

lemma json_string_iff: "json_string s @ u = json_string t @ v \<longleftrightarrow> s = t \<and> u = v"
  using json_chars_inject [of s u t v] by (auto simp: json_string_def)

lemma json_field_string_iff:
  "json_field n (json_string s) @ u = json_field n (json_string t) @ v \<longleftrightarrow> s = t \<and> u = v"
  by (simp add: json_field_def json_string_iff)

lemma show_int_no_comma: "CHR '','' \<notin> set (show_int i)"
  using show_nat_digits [of "CHR '',''"] by (auto simp: show_int_def)

definition same_hashed :: "hashable \<Rightarrow> hashable \<Rightarrow> bool" where
  "same_hashed a b \<longleftrightarrow> h_id a = h_id b \<and> h_senderId a = h_senderId b \<and> h_timestamp a = h_timestamp b \<and>
     h_content a = h_content b \<and> h_type a = h_type b \<and> h_prevHash a = h_prevHash b"

lemma json_field_number_iff:
  "json_field n (show_int i) @ '','' @ u = json_field n (show_int j) @ '','' @ v \<longleftrightarrow> i = j \<and> u = v"
proof
  assume "json_field n (show_int i) @ '','' @ u = json_field n (show_int j) @ '','' @ v"
  then have "show_int i @ CHR '','' # u = show_int j @ CHR '','' # v" by (simp add: json_field_def)
  then show "i = j \<and> u = v" using separator_inject [OF show_int_no_comma show_int_no_comma] by fastforce
qed simp

lemma canonicalize_inject: "canonicalize a = canonicalize b \<longleftrightarrow> same_hashed a b"
  unfolding canonicalize_def same_hashed_def same_append_eq json_field_string_iff json_field_number_iff
  by blast

subsection \<open>What verification decides\<close>

definition expected_prev :: "(string \<Rightarrow> string) \<Rightarrow> hashable list \<Rightarrow> nat \<Rightarrow> string" where
  "expected_prev sha ms i = (case i of 0 \<Rightarrow> GENESIS_HASH | Suc j \<Rightarrow> hashMessage sha (ms ! j))"

definition linked :: "(string \<Rightarrow> string) \<Rightarrow> hashable list \<Rightarrow> bool" where
  "linked sha ms \<longleftrightarrow> (\<forall>i < length ms. h_prevHash (ms ! i) = expected_prev sha ms i)"

lemma verify_links_Valid:
  "verify_links sha i prev ms = Valid \<longleftrightarrow>
     (\<forall>k < length ms. h_prevHash (ms ! k) = hashMessage sha ((prev # ms) ! k))"
  by (induction ms arbitrary: i prev) (auto simp: Let_def nth_Cons split: nat.split)

lemma verify_links_Broken:
  "verify_links sha i prev ms = Broken n r \<Longrightarrow>
     i \<le> n \<and> n < i + length ms \<and> h_prevHash (ms ! (n - i)) \<noteq> hashMessage sha ((prev # ms) ! (n - i)) \<and>
     (\<forall>k < n - i. h_prevHash (ms ! k) = hashMessage sha ((prev # ms) ! k))"
proof (induction ms arbitrary: i prev)
  case (Cons m ms)
  show ?case
  proof (cases "h_prevHash m = hashMessage sha prev")
    case True
    with Cons.IH [of "Suc i" m] Cons.prems have IH: "Suc i \<le> n" "n < Suc i + length ms"
      "h_prevHash (ms ! (n - Suc i)) \<noteq> hashMessage sha ((m # ms) ! (n - Suc i))"
      "\<forall>k < n - Suc i. h_prevHash (ms ! k) = hashMessage sha ((m # ms) ! k)"
      by (auto simp: Let_def)
    then have "n - i = Suc (n - Suc i)" by simp
    with IH True show ?thesis by (auto simp: nth_Cons split: nat.split)
  qed (use Cons in \<open>auto simp: Let_def\<close>)
qed simp

lemma expected_prev_Cons: "expected_prev sha (m # ms) (Suc k) = hashMessage sha ((m # ms) ! k)"
  by (simp add: expected_prev_def)

lemma all_less_Suc: "(\<forall>i < Suc n. P i) \<longleftrightarrow> P 0 \<and> (\<forall>i < n. P (Suc i))"
  by (metis less_Suc_eq_0_disj)

lemma verifyFullChain_Valid: "verifyFullChain sha ms = Valid \<longleftrightarrow> linked sha ms"
  by (cases ms)
    (auto simp: verifyFullChain_def linked_def verify_links_Valid all_less_Suc expected_prev_Cons
      expected_prev_def [of _ _ 0])

lemma verifyFullChain_Broken:
  assumes "verifyFullChain sha ms = Broken n r"
  shows "n < length ms \<and> h_prevHash (ms ! n) \<noteq> expected_prev sha ms n \<and>
    (\<forall>k < n. h_prevHash (ms ! k) = expected_prev sha ms k)"
proof (cases ms)
  case (Cons m rest)
  show ?thesis
  proof (cases "h_prevHash m = GENESIS_HASH")
    case True
    with assms Cons have "verify_links sha 1 m rest = Broken n r" by (simp add: verifyFullChain_def)
    from verify_links_Broken [OF this] obtain k where "n = Suc k" "k < length rest"
      "h_prevHash (rest ! k) \<noteq> hashMessage sha ((m # rest) ! k)"
      "\<forall>j < k. h_prevHash (rest ! j) = hashMessage sha ((m # rest) ! j)"
      by (cases n) auto
    with True Cons show ?thesis
      by (simp add: all_less_Suc expected_prev_Cons) (simp add: expected_prev_def)
  qed (use assms Cons in \<open>auto simp: verifyFullChain_def expected_prev_def\<close>)
qed (use assms in \<open>simp add: verifyFullChain_def\<close>)

lemma linked_snoc:
  "linked sha (ms @ [m]) \<longleftrightarrow> linked sha ms \<and>
     h_prevHash m = (if ms = [] then GENESIS_HASH else hashMessage sha (last ms))"
proof -
  have e: "expected_prev sha (ms @ [m]) i = expected_prev sha ms i" if "i \<le> length ms" for i
    using that by (auto simp: expected_prev_def nth_append split: nat.split)
  have l: "expected_prev sha ms (length ms) = (if ms = [] then GENESIS_HASH else hashMessage sha (last ms))"
    by (cases "length ms") (auto simp: expected_prev_def last_conv_nth)
  show ?thesis
    by (auto simp: linked_def less_Suc_eq nth_append e l)
qed

text \<open>Verification reads only the hashed fields.\<close>

lemma same_hashed_hash: "same_hashed a b \<Longrightarrow> hashMessage sha a = hashMessage sha b"
  by (simp add: hashMessage_def flip: canonicalize_inject)

lemma verify_links_same_hashed:
  "list_all2 same_hashed xs ys \<Longrightarrow> same_hashed p q \<Longrightarrow> verify_links sha i p xs = verify_links sha i q ys"
proof (induction xs arbitrary: ys i p q)
  case (Cons x xs)
  then obtain y zs where ys: "ys = y # zs" "same_hashed x y" "list_all2 same_hashed xs zs"
    by (auto simp: list_all2_Cons1)
  then have "h_prevHash x = h_prevHash y" by (simp add: same_hashed_def)
  with Cons ys same_hashed_hash [OF Cons.prems(2)] show ?case by (simp add: Let_def)
qed simp

lemma verifyFullChain_same_hashed:
  assumes "list_all2 same_hashed xs ys" shows "verifyFullChain sha xs = verifyFullChain sha ys"
proof (cases xs)
  case (Cons x rest)
  with assms obtain y zs where ys: "ys = y # zs" "same_hashed x y" "list_all2 same_hashed rest zs"
    by (auto simp: list_all2_Cons1)
  then have "h_prevHash x = h_prevHash y" by (simp add: same_hashed_def)
  with Cons ys verify_links_same_hashed [OF ys(3,2)] show ?thesis by (simp add: verifyFullChain_def)
qed (use assms in simp)

subsection \<open>Properties\<close>

text \<open>
  The hashed text is unambiguous: two records have the same canonical form exactly when
  id, sender, timestamp, content, type and previous hash all agree (and whatever their channel).
\<close>

theorem canonicalize_unambiguous:
  "canonicalize a = canonicalize b \<longleftrightarrow>
     h_id a = h_id b \<and> h_senderId a = h_senderId b \<and> h_timestamp a = h_timestamp b \<and>
     h_content a = h_content b \<and> h_type a = h_type b \<and> h_prevHash a = h_prevHash b"
  by (simp add: canonicalize_inject same_hashed_def)

text \<open>
  Property C8. \<open>verifyFullChain\<close> accepts exactly the lists in which the first message carries the
  genesis hash and each later one the hash of its predecessor, and when it refuses a list the
  reported index is the first broken link.
\<close>

theorem verifyFullChain_correct:
  "(verifyFullChain sha ms = Valid \<longleftrightarrow>
      (\<forall>i < length ms. h_prevHash (ms ! i) = expected_prev sha ms i)) \<and>
   (verifyFullChain sha ms = Broken n r \<longrightarrow>
      n < length ms \<and> h_prevHash (ms ! n) \<noteq> expected_prev sha ms n \<and>
      (\<forall>k < n. h_prevHash (ms ! k) = expected_prev sha ms k))"
  using verifyFullChain_Valid verifyFullChain_Broken by (auto simp: linked_def)

definition demo_hashable :: "string \<Rightarrow> string \<Rightarrow> hashable" where
  "demo_hashable i p = \<lparr>h_id = i, h_channelId = ''c'', h_senderId = ''s'', h_timestamp = 1,
     h_content = ''hi'', h_type = ''text'', h_prevHash = p\<rparr>"

lemma verifyFullChain_correct_witness:
  "\<exists>n r. verifyFullChain id [demo_hashable ''a'' GENESIS_HASH, demo_hashable ''b'' ''bad''] = Broken n r \<and>
     n = 1 \<and> h_prevHash (demo_hashable ''b'' ''bad'') \<noteq>
       expected_prev id [demo_hashable ''a'' GENESIS_HASH, demo_hashable ''b'' ''bad''] 1"
proof -
  let ?ms = "[demo_hashable ''a'' GENESIS_HASH, demo_hashable ''b'' ''bad'']"
  obtain r where "verifyFullChain id ?ms = Broken 1 r"
    by (simp add: verifyFullChain_def demo_hashable_def hashMessage_def canonicalize_def)
  with verifyFullChain_correct [of id ?ms 1 r] show ?thesis by auto
qed

text \<open>
  The hash of the last message commits to the whole history: two valid chains whose last
  messages hash alike agree at every position on everything that is hashed, provided the digest has
  no collision among their messages and none of them hashes to the genesis value.
\<close>

theorem head_commits_to_history:
  assumes "verifyFullChain sha xs = Valid" "verifyFullChain sha ys = Valid" "xs \<noteq> []" "ys \<noteq> []"
    and "hashMessage sha (last xs) = hashMessage sha (last ys)"
    and "inj_on sha (canonicalize ` (set xs \<union> set ys))"
    and "\<And>m. m \<in> set xs \<union> set ys \<Longrightarrow> hashMessage sha m \<noteq> GENESIS_HASH"
  shows "list_all2 same_hashed xs ys"
  using assms unfolding verifyFullChain_Valid
proof (induction xs arbitrary: ys rule: rev_induct)
  case (snoc x xs)
  then obtain zs y where ys: "ys = zs @ [y]" by (metis rev_exhaust)
  have "canonicalize x = canonicalize y"
    using snoc.prems(6)
  proof (rule inj_onD)
    show "sha (canonicalize x) = sha (canonicalize y)"
      using snoc.prems(5) by (simp add: hashMessage_def ys)
  qed (simp_all add: ys)
  then have xy: "same_hashed x y" by (simp add: canonicalize_inject)
  then have prev: "h_prevHash x = h_prevHash y" by (simp add: same_hashed_def)
  have px: "h_prevHash x = (if xs = [] then GENESIS_HASH else hashMessage sha (last xs))"
    and py: "h_prevHash y = (if zs = [] then GENESIS_HASH else hashMessage sha (last zs))"
    using snoc.prems(1,2) by (simp_all add: ys linked_snoc)
  show ?case
  proof (cases "xs = [] \<or> zs = []")
    case True
    have "hashMessage sha (last ws) \<noteq> GENESIS_HASH" if "ws = xs \<or> ws = zs" "ws \<noteq> []" for ws
    proof -
      have "last ws \<in> set (xs @ [x]) \<union> set ys" using that last_in_set [of ws] by (elim disjE) (simp_all add: ys)
      then show ?thesis by (rule snoc.prems(7))
    qed
    with True prev px py have "xs = [] \<and> zs = []" by (metis (full_types))
    with xy show ?thesis by (simp add: ys)
  next
    case False
    have "list_all2 same_hashed xs zs"
    proof (rule snoc.IH)
      show "hashMessage sha (last xs) = hashMessage sha (last zs)" using False prev px py by simp
      show "inj_on sha (canonicalize ` (set xs \<union> set zs))"
        using snoc.prems(6) by (rule inj_on_subset) (auto simp: ys)
    qed (use False snoc.prems in \<open>auto simp: ys linked_snoc\<close>)
    with xy show ?thesis by (simp add: ys list_all2_appendI)
  qed
qed simp

lemma canonicalize_not_genesis: "canonicalize m \<noteq> GENESIS_HASH"
proof -
  have "hd (canonicalize m) = CHR ''{''" by (simp only: canonicalize_def append.simps list.sel)
  moreover have "hd GENESIS_HASH = CHR ''0''" unfolding GENESIS_HASH_def by (rule hd_replicate) simp
  ultimately show ?thesis by auto
qed

lemma head_commits_to_history_witness:
  "list_all2 same_hashed [demo_hashable ''a'' GENESIS_HASH]
     [demo_hashable ''a'' GENESIS_HASH\<lparr>h_channelId := ''renamed''\<rparr>]"
proof -
  have same: "canonicalize (demo_hashable ''a'' GENESIS_HASH) =
      canonicalize (demo_hashable ''a'' GENESIS_HASH\<lparr>h_channelId := ''renamed''\<rparr>)"
    unfolding canonicalize_inject by (simp add: same_hashed_def)
  have genesis: "h_prevHash (demo_hashable ''a'' GENESIS_HASH) = GENESIS_HASH"
    by (simp add: demo_hashable_def)
  show ?thesis
    by (rule head_commits_to_history [of id])
      (simp_all only: hashMessage_def verifyFullChain_def list.case genesis same last.simps if_True
        verify_links.simps if_False not_True_eq_False inj_on_id2 id_apply list.distinct
        canonicalize_not_genesis hashable.simps, simp_all add: canonicalize_not_genesis genesis same)
qed

text \<open>
  Tampering is detected and located: replacing a message of a valid chain, other than
  its last one, by one with different hashed content is reported at the very next message.
\<close>

theorem tampering_is_located:
  assumes "verifyFullChain sha (xs @ m # n # ys) = Valid" "\<not> same_hashed m m'"
    and "h_prevHash m' = h_prevHash m" "inj_on sha {canonicalize m, canonicalize m'}"
  shows "\<exists>r. verifyFullChain sha (xs @ m' # n # ys) = Broken (length xs + 1) r"
proof -
  let ?old = "xs @ m # n # ys" and ?new = "xs @ m' # n # ys"
  let ?k = "length xs"
  have old: "h_prevHash (?old ! i) = expected_prev sha ?old i" if "i < length ?old" for i
    using assms(1) that by (simp only: verifyFullChain_Valid linked_def)
  have same: "expected_prev sha ?new i = expected_prev sha ?old i" if "i \<le> ?k" for i
    using that by (auto simp: expected_prev_def nth_append split: nat.split)
  have prefix: "h_prevHash (?new ! i) = expected_prev sha ?new i" if "i \<le> ?k" for i
    using old [of i] that assms(3) same [OF that] by (cases "i = ?k") (auto simp: nth_append)
  have "hashMessage sha m' \<noteq> hashMessage sha m"
    using assms(2,4) by (auto simp: hashMessage_def canonicalize_inject dest: inj_onD)
  then have broken: "h_prevHash (?new ! Suc ?k) \<noteq> expected_prev sha ?new (Suc ?k)"
    using old [of "Suc ?k"] by (simp add: nth_append expected_prev_def)
  then have "\<not> linked sha ?new" by (auto simp: linked_def intro!: exI [of _ "Suc ?k"])
  then obtain i r where r: "verifyFullChain sha ?new = Broken i r"
    unfolding verifyFullChain_Valid [symmetric] by (cases "verifyFullChain sha ?new") auto
  from verifyFullChain_Broken [OF this] broken prefix have "i = Suc ?k"
    by (metis le_less_linear less_Suc_eq_le linorder_neqE_nat)
  with r show ?thesis by auto
qed

lemma tampering_is_located_witness:
  "\<exists>r. verifyFullChain id [demo_hashable ''evil'' GENESIS_HASH,
     demo_hashable ''b'' (canonicalize (demo_hashable ''a'' GENESIS_HASH))] = Broken 1 r"
proof -
  have "verifyFullChain id ([] @ demo_hashable ''a'' GENESIS_HASH #
      demo_hashable ''b'' (canonicalize (demo_hashable ''a'' GENESIS_HASH)) # []) = Valid"
    by (simp add: verifyFullChain_def demo_hashable_def hashMessage_def)
  from tampering_is_located [OF this, of "demo_hashable ''evil'' GENESIS_HASH"] show ?thesis
    by (simp add: demo_hashable_def same_hashed_def)
qed

end
