(* ===== verification/MessageStore.thy ===== *)
theory MessageStore
  imports MessageTypes HashChain
begin

section \<open>The message store\<close>

text \<open>
  Models \<open>decent-protocol/src/messages/MessageStore.ts\<close>. The record \<open>store\<close> holds the
  three private maps; a method that changes them returns the new record beside its result, and a
  method that reports \<open>{success, error}\<close> returns a sum. \<open>sha\<close> is the digest of
  \<open>HashChain\<close>, \<open>uuid\<close> the value of \<open>crypto.randomUUID()\<close>. The asynchronous
  \<open>addMessage\<close> is split where it awaits the digest, so that overlapping calls can be composed.
\<close>

record store =
  st_channels :: "(string, message list) jsmap"
  st_ids :: "(string, string list) jsmap"
  st_threadRoots :: "(string, message) jsmap"

definition new_store :: store where
  "new_store = \<lparr>st_channels = [], st_ids = [], st_threadRoots = []\<rparr>"

definition channel_of :: "string \<Rightarrow> store \<Rightarrow> message list" where
  "channel_of ch s = jm_get_or [] (st_channels s) ch"

definition ids_of :: "string \<Rightarrow> store \<Rightarrow> string list" where
  "ids_of ch s = jm_get_or [] (st_ids s) ch"

definition put_channel :: "string \<Rightarrow> message list \<Rightarrow> string list \<Rightarrow> store \<Rightarrow> store" where
  "put_channel ch ms ids s =
     s\<lparr>st_channels := jm_set ch ms (st_channels s), st_ids := jm_set ch ids (st_ids s)\<rparr>"

definition ensureChannel :: "string \<Rightarrow> store \<Rightarrow> store" where
  "ensureChannel ch s = (if jm_has (st_channels s) ch then s else put_channel ch [] [] s)"

function upper_bound_loop :: "message list \<Rightarrow> time \<Rightarrow> nat \<Rightarrow> nat \<Rightarrow> nat" where
  "upper_bound_loop msgs target lo hi =
     (if lo < hi then
        let mid = (lo + hi) div 2 in
        if m_timestamp (msgs ! mid) \<le> target then upper_bound_loop msgs target (mid + 1) hi
        else upper_bound_loop msgs target lo mid
      else lo)"
  by pat_completeness auto
termination
  by (relation "measure (\<lambda>(_, _, lo, hi). hi - lo)") auto

declare upper_bound_loop.simps [simp del]

definition upperBoundTimestamp :: "message list \<Rightarrow> time \<Rightarrow> nat" where
  "upperBoundTimestamp msgs target = upper_bound_loop msgs target 0 (length msgs)"

definition toHashable :: "message \<Rightarrow> hashable" where
  "toHashable m = \<lparr>h_id = m_id m, h_channelId = m_channelId m, h_senderId = m_senderId m,
     h_timestamp = m_timestamp m, h_content = m_content m,
     h_type = message_type_string (m_type m), h_prevHash = m_prevHash m\<rparr>"

definition getLastHash :: "(string \<Rightarrow> string) \<Rightarrow> string \<Rightarrow> store \<Rightarrow> string" where
  "getLastHash sha ch s =
     (let messages = channel_of ch s in
      if messages = [] then GENESIS_HASH else hashMessage sha (toHashable (last messages)))"

definition createMessage_store ::
  "(string \<Rightarrow> string) \<Rightarrow> string \<Rightarrow> time \<Rightarrow> string \<Rightarrow> string \<Rightarrow> string \<Rightarrow> message_type \<Rightarrow> string option
     \<Rightarrow> store \<Rightarrow> message result" where
  "createMessage_store sha uuid now channelId senderId content ty threadId s =
     (case validateMessageContentLength content of
        Inl e \<Rightarrow> Inl e
      | Inr _ \<Rightarrow>
        let channelMessages = channel_of channelId s;
            prevHash = (if channelMessages = [] then GENESIS_HASH
                        else hashMessage sha (toHashable (last channelMessages)))
        in Inr \<lparr>m_id = uuid, m_channelId = channelId, m_senderId = senderId,
             m_senderIdentityId = None, m_timestamp = now, m_content = content, m_type = ty,
             m_threadId = threadId, m_prevHash = prevHash, m_status = Pending,
             m_recipientPeerIds = None, m_ackedBy = None, m_ackedAt = None, m_readBy = None,
             m_readAt = None, m_vectorClock = None\<rparr>)"

subsection \<open>addMessage\<close>

text \<open>
  \<open>add_begin\<close> is the synchronous part before the \<open>await\<close>: on success it has captured the
  channel's last message (\<open>None\<close> for an empty channel, where nothing is awaited).
  \<open>add_finish\<close> is the part after it, on the state it then finds.
\<close>

definition add_begin :: "message \<Rightarrow> store \<Rightarrow> message option result \<times> store" where
  "add_begin m s =
     (let s1 = ensureChannel (m_channelId m) s;
          msgs = channel_of (m_channelId m) s1
      in if m_id m \<in> set (ids_of (m_channelId m) s1)
         then (Inl (''Duplicate message ID: '' @ m_id m), s1)
         else case validateMessageContentLength (m_content m) of
             Inl e \<Rightarrow> (Inl e, s1)
           | Inr _ \<Rightarrow> (Inr (if msgs = [] then None else Some (last msgs)), s1))"

definition add_push :: "message \<Rightarrow> store \<Rightarrow> store" where
  "add_push m s = put_channel (m_channelId m) (channel_of (m_channelId m) s @ [m])
     (js_add (m_id m) (ids_of (m_channelId m) s)) s"

definition add_finish ::
  "(string \<Rightarrow> string) \<Rightarrow> message \<Rightarrow> message option \<Rightarrow> store \<Rightarrow> unit result \<times> store" where
  "add_finish sha m captured s =
     (case captured of
        None \<Rightarrow>
          if m_prevHash m \<noteq> GENESIS_HASH
          then (Inl (''First message in channel must have genesis prevHash. Got: '' @ m_prevHash m), s)
          else (Inr (), add_push m s)
      | Some lastMessage \<Rightarrow>
          let expectedHash = hashMessage sha (toHashable lastMessage) in
          if m_prevHash m \<noteq> expectedHash
          then (Inl (''Hash chain broken! Expected prevHash '' @ expectedHash @ '', got '' @
                  m_prevHash m), s)
          else if m_timestamp m \<le> m_timestamp lastMessage
          then (Inl (''Message timestamp '' @ show_int (m_timestamp m) @
                  '' is not after previous message '' @ show_int (m_timestamp lastMessage)), s)
          else (Inr (), add_push m s))"

definition addMessage_store :: "(string \<Rightarrow> string) \<Rightarrow> message \<Rightarrow> store \<Rightarrow> unit result \<times> store" where
  "addMessage_store sha m s =
     (case add_begin m s of
        (Inl e, s1) \<Rightarrow> (Inl e, s1)
      | (Inr captured, s1) \<Rightarrow> add_finish sha m captured s1)"

subsection \<open>The other ways in\<close>

definition forceAdd :: "message \<Rightarrow> store \<Rightarrow> store" where
  "forceAdd m s =
     (let s1 = ensureChannel (m_channelId m) s;
          msgs = channel_of (m_channelId m) s1;
          ids = ids_of (m_channelId m) s1
      in if m_id m \<in> set ids then s1
         else let insertIdx = upperBoundTimestamp msgs (m_timestamp m) in
           put_channel (m_channelId m)
             (if insertIdx = length msgs then msgs @ [m]
              else take insertIdx msgs @ m # drop insertIdx msgs)
             (js_add (m_id m) ids) s1)"

definition time_cmp :: "message \<Rightarrow> message \<Rightarrow> int" where
  "time_cmp = cmp_by m_timestamp num_cmp"

definition group_step :: "message \<Rightarrow> (string, message list) jsmap \<Rightarrow> (string, message list) jsmap" where
  "group_step m g = jm_set (m_channelId m) (jm_get_or [] g (m_channelId m) @ [m]) g"

definition bulk_channel :: "string \<times> message list \<Rightarrow> nat \<times> store \<Rightarrow> nat \<times> store" where
  "bulk_channel entry acc =
     (let (ch, newMsgs) = entry; (added, s) = acc;
          s1 = ensureChannel ch s; existing = channel_of ch s1; existingIds = ids_of ch s1;
          deduped = filter (\<lambda>m. m_id m \<notin> set existingIds) newMsgs
      in if deduped = [] then (added, s1)
         else (added + length deduped,
           put_channel ch (js_sort time_cmp (existing @ deduped))
             (fold js_add (map m_id deduped) existingIds) s1))"

definition bulkAdd :: "message list \<Rightarrow> store \<Rightarrow> nat \<times> store" where
  "bulkAdd ms s = (if ms = [] then (0, s) else fold bulk_channel (fold group_step ms []) (0, s))"

text \<open>An imported message: its record, and its content when the peer sent one.\<close>

type_synonym imported = "message \<times> string option"

definition normalize_imported :: "imported \<Rightarrow> message" where
  "normalize_imported im = (fst im)\<lparr>m_content := (case snd im of Some c \<Rightarrow> c | None \<Rightarrow> [])\<rparr>"

fun validate_contents :: "message list \<Rightarrow> unit result" where
  "validate_contents [] = Inr ()"
| "validate_contents (m # ms) =
     (case validateMessageContentLength (m_content m) of
        Inl e \<Rightarrow> Inl e
      | Inr _ \<Rightarrow> validate_contents ms)"

definition importMessages ::
  "(string \<Rightarrow> string) \<Rightarrow> string \<Rightarrow> imported list \<Rightarrow> store \<Rightarrow> unit result \<times> store" where
  "importMessages sha ch messages s =
     (let normalized = map normalize_imported messages;
          hasOmittedContent = list_ex (\<lambda>im. snd im = None) messages;
          accept = (Inr (), put_channel ch normalized (js_uniq (map m_id normalized)) s)
      in case validate_contents normalized of
          Inl e \<Rightarrow> (Inl e, s)
        | Inr _ \<Rightarrow>
          if hasOmittedContent then accept
          else case verifyFullChain sha (map toHashable normalized) of
              Valid \<Rightarrow> accept
            | Broken i r \<Rightarrow> (Inl (''Tampered message history detected: '' @ r), s))"

definition remapChannel :: "string \<Rightarrow> string \<Rightarrow> store \<Rightarrow> message list \<times> store" where
  "remapChannel oldId newId s =
     (if oldId = newId then (channel_of oldId s, s)
      else if channel_of oldId s = [] then ([], s)
      else
        let messages = map (\<lambda>m. m\<lparr>m_channelId := newId\<rparr>) (channel_of oldId s);
            s1 = ensureChannel newId s;
            deduped = filter (\<lambda>m. m_id m \<notin> set (ids_of newId s1)) messages;
            merged = js_sort time_cmp (channel_of newId s1 @ deduped);
            s2 = put_channel newId merged (js_uniq (map m_id merged)) s1
        in (merged, s2\<lparr>st_channels := jm_delete oldId (st_channels s2),
                       st_ids := jm_delete oldId (st_ids s2)\<rparr>))"

definition trimChannel_store :: "string \<Rightarrow> int \<Rightarrow> store \<Rightarrow> int \<times> store" where
  "trimChannel_store ch maxSize s =
     (let msgs = channel_of ch s in
      if \<not> jm_has (st_channels s) ch \<or> int (length msgs) \<le> maxSize then (0, s)
      else
        let evictCount = int (length msgs) - maxSize;
            evicted = take (nat evictCount) msgs
        in (evictCount, s\<lparr>st_channels := jm_set ch (drop (nat evictCount) msgs) (st_channels s),
             st_ids := (if jm_has (st_ids s) ch
               then jm_set ch (fold js_remove (map m_id evicted) (ids_of ch s)) (st_ids s)
               else st_ids s)\<rparr>))"

definition prependMessages :: "string \<Rightarrow> message list \<Rightarrow> store \<Rightarrow> nat \<times> store" where
  "prependMessages ch older s =
     (if older = [] then (0, s)
      else
        let s1 = ensureChannel ch s;
            deduped = filter (\<lambda>m. m_id m \<notin> set (ids_of ch s1)) older
        in if deduped = [] then (0, s1)
           else (length deduped, put_channel ch (deduped @ channel_of ch s1)
                   (fold js_add (map m_id deduped) (ids_of ch s1)) s1))"

definition clearChannel :: "string \<Rightarrow> store \<Rightarrow> store" where
  "clearChannel ch s = s\<lparr>st_channels := jm_delete ch (st_channels s), st_ids := jm_delete ch (st_ids s)\<rparr>"

definition setThreadRoot :: "string \<Rightarrow> message \<Rightarrow> store \<Rightarrow> store" where
  "setThreadRoot threadId snapshot s =
     (if jm_has (st_threadRoots s) threadId then s
      else s\<lparr>st_threadRoots := jm_set threadId snapshot (st_threadRoots s)\<rparr>)"

subsection \<open>Readers\<close>

definition getMessages_store :: "string \<Rightarrow> store \<Rightarrow> message list" where
  "getMessages_store ch s = channel_of ch s"

definition getAllChannelIds :: "store \<Rightarrow> string list" where
  "getAllChannelIds s = jm_keys (st_channels s)"

definition getThread_store :: "string \<Rightarrow> string \<Rightarrow> store \<Rightarrow> message list" where
  "getThread_store ch threadId s = filter (\<lambda>m. m_threadId m = Some threadId) (channel_of ch s)"

definition verifyChannel :: "(string \<Rightarrow> string) \<Rightarrow> string \<Rightarrow> store \<Rightarrow> verification" where
  "verifyChannel sha ch s = verifyFullChain sha (map toHashable (channel_of ch s))"

definition getThreadRoot :: "string \<Rightarrow> store \<Rightarrow> message option" where
  "getThreadRoot threadId s = jm_get (st_threadRoots s) threadId"

definition getAllThreadRoots :: "store \<Rightarrow> (string, message) jsmap" where
  "getAllThreadRoots s = st_threadRoots s"

subsection \<open>validateInvariants\<close>

text \<open>The loop over one channel's messages; the result is the set \<open>seen\<close>.\<close>

definition in_store :: "string \<Rightarrow> string" where
  "in_store detail = ''[MessageStore] '' @ detail"

fun scan_messages :: "string \<Rightarrow> string list \<Rightarrow> nat \<Rightarrow> message option \<Rightarrow> string list \<Rightarrow> message list
    \<Rightarrow> string list result" where
  "scan_messages ch ids i prev seen [] = Inr seen"
| "scan_messages ch ids i prev seen (m # ms) =
     (if m_id m \<in> set seen
      then Inl (in_store (''Duplicate IDs violated for '' @ ch @ '': duplicate id='' @ m_id m))
      else if m_id m \<notin> set ids
      then Inl (in_store (''Array to Set violated for '' @ ch @ '': msgs['' @ show_nat i @ ''].id='' @ m_id m))
      else if m_channelId m \<noteq> ch
      then Inl (in_store (''ChannelId mismatch for '' @ ch @ '': msgs['' @ show_nat i @ ''].channelId='' @
             m_channelId m))
      else if (case prev of None \<Rightarrow> False | Some p \<Rightarrow> m_timestamp m < m_timestamp p)
      then Inl (in_store (''Timestamp order violated for '' @ ch @ '': msgs['' @ show_nat i @ '']''))
      else scan_messages ch ids (Suc i) (Some m) (js_add (m_id m) seen) ms)"

definition validate_channel :: "string \<Rightarrow> message list \<Rightarrow> string list \<Rightarrow> unit result" where
  "validate_channel ch msgs ids =
     (if length msgs \<noteq> length ids
      then Inl (in_store (''Size parity violated for '' @ ch))
      else case scan_messages ch ids 0 None [] msgs of
          Inl e \<Rightarrow> Inl e
        | Inr seen \<Rightarrow>
          (case find (\<lambda>i. i \<notin> set seen) ids of
             Some i \<Rightarrow> Inl (in_store (''Set to Array violated for '' @ ch @ '': id='' @ i))
           | None \<Rightarrow> Inr ()))"

fun validate_channels :: "store \<Rightarrow> (string, message list) jsmap \<Rightarrow> unit result" where
  "validate_channels s [] = Inr ()"
| "validate_channels s ((ch, msgs) # rest) =
     (case validate_channel ch msgs (ids_of ch s) of
        Inl e \<Rightarrow> Inl e
      | Inr _ \<Rightarrow> validate_channels s rest)"

definition validateInvariants :: "bool \<Rightarrow> store \<Rightarrow> unit result" where
  "validateInvariants dev s =
     (if \<not> dev then Inr ()
      else if length (st_channels s) \<noteq> length (st_ids s) then Inl (in_store ''Key parity violated'')
      else case find (\<lambda>ch. \<not> jm_has (st_ids s) ch) (jm_keys (st_channels s)) of
          Some ch \<Rightarrow> Inl (in_store (''Key parity violated: '' @ ch))
        | None \<Rightarrow>
          (case find (\<lambda>ch. \<not> jm_has (st_channels s) ch) (jm_keys (st_ids s)) of
             Some ch \<Rightarrow> Inl (in_store (''Key parity violated: '' @ ch))
           | None \<Rightarrow> validate_channels s (st_channels s)))"

subsection \<open>The invariant\<close>

definition chan_ok :: "string \<Rightarrow> message list \<Rightarrow> string list \<Rightarrow> bool" where
  "chan_ok ch msgs ids \<longleftrightarrow> distinct ids \<and> set ids = m_id ` set msgs \<and> distinct (map m_id msgs) \<and>
     (\<forall>m \<in> set msgs. m_channelId m = ch) \<and> sorted (map m_timestamp msgs)"

text \<open>What holds of the two entries of one channel.\<close>

fun entry_ok :: "string \<Rightarrow> message list option \<Rightarrow> string list option \<Rightarrow> bool" where
  "entry_ok ch None None \<longleftrightarrow> True"
| "entry_ok ch (Some msgs) (Some ids) \<longleftrightarrow> chan_ok ch msgs ids"
| "entry_ok ch _ _ \<longleftrightarrow> False"

definition store_inv :: "store \<Rightarrow> bool" where
  "store_inv s \<longleftrightarrow> wf_map (st_channels s) \<and> wf_map (st_ids s) \<and>
     (\<forall>ch. entry_ok ch (jm_get (st_channels s) ch) (jm_get (st_ids s) ch))"

lemma chan_ok_Nil [simp]: "chan_ok ch [] []"
  by (simp add: chan_ok_def)

lemma store_inv_new: "store_inv new_store"
  by (simp add: store_inv_def new_store_def)

lemma store_inv_put: "store_inv s \<Longrightarrow> chan_ok ch ms ids \<Longrightarrow> store_inv (put_channel ch ms ids s)"
  by (simp add: store_inv_def put_channel_def js_map)

lemma store_inv_ensure: "store_inv s \<Longrightarrow> store_inv (ensureChannel ch s)"
  by (simp add: ensureChannel_def store_inv_put)

lemma entry_ok_cases:
  assumes "entry_ok ch a b"
  obtains "a = None" "b = None" | ms ids where "a = Some ms" "b = Some ids" "chan_ok ch ms ids"
  using assms by (cases a; cases b) auto

lemma store_inv_channel: "store_inv s \<Longrightarrow> chan_ok ch (channel_of ch s) (ids_of ch s)"
  unfolding store_inv_def channel_of_def ids_of_def jm_get_or_def
  by (elim conjE allE [of _ ch] entry_ok_cases) auto

lemma channel_of_new [simp]: "channel_of ch new_store = []"
  by (simp add: channel_of_def new_store_def jm_get_or_def)

lemma channel_put [simp]:
  "channel_of c (put_channel ch ms ids s) = (if c = ch then ms else channel_of c s)"
  "ids_of c (put_channel ch ms ids s) = (if c = ch then ids else ids_of c s)"
  by (auto simp: channel_of_def ids_of_def put_channel_def jm_get_or_def js_map)

lemma channel_ensure [simp]: "channel_of c (ensureChannel ch s) = channel_of c s"
  by (auto simp: ensureChannel_def) (simp add: channel_of_def jm_get_or_def jm_has_def)

lemma ids_ensure: "store_inv s \<Longrightarrow> ids_of c (ensureChannel ch s) = ids_of c s"
proof -
  assume "store_inv s"
  then have "entry_ok ch (jm_get (st_channels s) ch) (jm_get (st_ids s) ch)" by (simp add: store_inv_def)
  then show ?thesis
    by (rule entry_ok_cases) (auto simp: ensureChannel_def jm_has_def ids_of_def jm_get_or_def put_channel_def js_map)
qed

lemma ids_ensure_set: "store_inv s \<Longrightarrow> set (ids_of c (ensureChannel ch s)) = m_id ` set (channel_of c s)"
  using store_inv_channel [of s c] by (simp add: ids_ensure chan_ok_def)

lemma sorted_time: "in_order time_cmp msgs \<longleftrightarrow> sorted (map m_timestamp msgs)"
  by (simp add: time_cmp_def cmp_by_def num_cmp_def sorted_map)

lemma comparator_time: "comparator UNIV time_cmp"
  unfolding time_cmp_def by (intro comparators)

lemma sorted_time_sort: "sorted (map m_timestamp (js_sort time_cmp msgs))"
  unfolding sorted_time [symmetric] by (rule comparator.in_order_sort [OF comparator_time]) simp

subsection \<open>Binary search\<close>

lemma upper_bound_loop_correct:
  assumes "sorted (map m_timestamp msgs)" "lo \<le> hi" "hi \<le> length msgs"
    and "\<forall>i < lo. m_timestamp (msgs ! i) \<le> t" "\<forall>i. hi \<le> i \<and> i < length msgs \<longrightarrow> t < m_timestamp (msgs ! i)"
  shows "upper_bound_loop msgs t lo hi \<le> length msgs \<and>
    (\<forall>i < length msgs. m_timestamp (msgs ! i) \<le> t \<longleftrightarrow> i < upper_bound_loop msgs t lo hi)"
  using assms
proof (induction msgs t lo hi rule: upper_bound_loop.induct)
  case (1 msgs t lo hi)
  have mono: "m_timestamp (msgs ! i) \<le> m_timestamp (msgs ! j)" if "i \<le> j" "j < length msgs" for i j
    using sorted_nth_mono [OF 1(3), of i j] that by simp
  show ?case
  proof (cases "lo < hi")
    case True
    let ?mid = "(lo + hi) div 2"
    have mid: "lo \<le> ?mid" "?mid < hi" using True by auto
    show ?thesis
    proof (cases "m_timestamp (msgs ! ?mid) \<le> t")
      case le: True
      have "\<forall>i < ?mid + 1. m_timestamp (msgs ! i) \<le> t"
      proof (intro allI impI)
        fix i assume "i < ?mid + 1"
        then have "i \<le> ?mid" by simp
        then show "m_timestamp (msgs ! i) \<le> t" using mono [of i ?mid] le mid 1(5) by simp
      qed
      moreover have "?mid + 1 \<le> hi" using mid(2) by simp
      ultimately have "upper_bound_loop msgs t (?mid + 1) hi \<le> length msgs \<and>
        (\<forall>i < length msgs. m_timestamp (msgs ! i) \<le> t \<longleftrightarrow> i < upper_bound_loop msgs t (?mid + 1) hi)"
        using 1(1) [OF True refl le 1(3) _ 1(5) _ 1(7)] by blast
      with True le show ?thesis by (simp add: upper_bound_loop.simps [of _ _ lo hi] Let_def)
    next
      case gt: False
      have "\<forall>i. ?mid \<le> i \<and> i < length msgs \<longrightarrow> t < m_timestamp (msgs ! i)"
        using mono [of ?mid] gt by (meson less_le_trans not_le_imp_less)
      moreover have "?mid \<le> length msgs" using mid(2) 1(5) by simp
      ultimately have "upper_bound_loop msgs t lo ?mid \<le> length msgs \<and>
        (\<forall>i < length msgs. m_timestamp (msgs ! i) \<le> t \<longleftrightarrow> i < upper_bound_loop msgs t lo ?mid)"
        using 1(2) [OF True refl gt 1(3) mid(1) _ 1(6)] by blast
      with True gt show ?thesis by (simp add: upper_bound_loop.simps [of _ _ lo hi] Let_def)
    qed
  next
    case False
    with 1(4-7) have "\<forall>i < length msgs. m_timestamp (msgs ! i) \<le> t \<longleftrightarrow> i < lo"
      by (metis le_antisym linorder_not_le not_less)
    moreover have "upper_bound_loop msgs t lo hi = lo" using False by (simp add: upper_bound_loop.simps [of _ _ lo])
    ultimately show ?thesis using 1(4,5) by simp
  qed
qed

lemma upperBoundTimestamp_correct:
  assumes "sorted (map m_timestamp msgs)"
  shows "upperBoundTimestamp msgs t \<le> length msgs"
    "i < length msgs \<Longrightarrow> m_timestamp (msgs ! i) \<le> t \<longleftrightarrow> i < upperBoundTimestamp msgs t"
  using upper_bound_loop_correct [OF assms, of 0 "length msgs" t] by (auto simp: upperBoundTimestamp_def)

lemma splice_is_append_or_insert:
  "(if i = length msgs then msgs @ [m] else take i msgs @ m # drop i msgs) = take i msgs @ m # drop i msgs"
  by simp

lemma sorted_insert_at_bound:
  assumes "sorted (map m_timestamp msgs)"
  shows "sorted (map m_timestamp (take (upperBoundTimestamp msgs (m_timestamp m)) msgs @ m #
    drop (upperBoundTimestamp msgs (m_timestamp m)) msgs))"
proof -
  let ?b = "upperBoundTimestamp msgs (m_timestamp m)"
  have before: "m_timestamp x \<le> m_timestamp m" if "x \<in> set (take ?b msgs)" for x
    using that upperBoundTimestamp_correct(2) [OF assms, of _ "m_timestamp m"] by (auto simp: in_set_conv_nth)
  have after: "m_timestamp m \<le> m_timestamp x" if "x \<in> set (drop ?b msgs)" for x
  proof -
    from that obtain i where "i < length msgs - ?b" "x = msgs ! (?b + i)"
      by (auto simp: in_set_conv_nth)
    moreover from this have "?b + i < length msgs" by simp
    ultimately show ?thesis using upperBoundTimestamp_correct(2) [OF assms, of "?b + i" "m_timestamp m"] by simp
  qed
  have parts: "sorted (map m_timestamp (take ?b msgs))" "sorted (map m_timestamp (drop ?b msgs))"
    using assms by (simp_all add: sorted_wrt_take sorted_wrt_drop flip: take_map drop_map)
  have "m_timestamp x \<le> m_timestamp y" if "x \<in> set (take ?b msgs)" "y \<in> set (drop ?b msgs)" for x y
    using before [OF that(1)] after [OF that(2)] by simp
  with parts before after show ?thesis by (auto simp: sorted_append)
qed

subsection \<open>What every operation does to a channel\<close>

lemma ensure_wf: "store_inv s \<Longrightarrow> chan_ok ch (channel_of ch s) (ids_of ch (ensureChannel ch s))"
  using store_inv_channel [of s ch] by (simp add: ids_ensure)

definition add_accepts :: "(string \<Rightarrow> string) \<Rightarrow> message \<Rightarrow> store \<Rightarrow> bool" where
  "add_accepts sha m s \<longleftrightarrow>
     (let old = channel_of (m_channelId m) s in
      m_id m \<notin> m_id ` set old \<and> length (m_content m) \<le> MAX_MESSAGE_CHARS \<and>
      m_prevHash m = getLastHash sha (m_channelId m) s \<and>
      (old \<noteq> [] \<longrightarrow> m_timestamp (last old) < m_timestamp m))"

lemma addMessage_store_result:
  assumes "store_inv s"
  shows "if add_accepts sha m s
    then addMessage_store sha m s = (Inr (), add_push m (ensureChannel (m_channelId m) s))
    else \<exists>e. addMessage_store sha m s = (Inl e, ensureChannel (m_channelId m) s)"
  using ids_ensure_set [OF assms, of "m_channelId m" "m_channelId m"]
    validate_ok [of "m_content m" "()"]
  by (auto simp: addMessage_store_def add_begin_def add_finish_def add_accepts_def getLastHash_def
      Let_def split: sum.splits)

lemma chan_ok_snoc:
  assumes "chan_ok ch ms ids" "m_id m \<notin> m_id ` set ms" "m_channelId m = ch"
    and "ms \<noteq> [] \<longrightarrow> m_timestamp (last ms) \<le> m_timestamp m"
  shows "chan_ok ch (ms @ [m]) (js_add (m_id m) ids)"
proof -
  have "m_timestamp x \<le> m_timestamp m" if "x \<in> set ms" for x
  proof -
    have "ms \<noteq> []" using that by auto
    then have split: "butlast ms @ [last ms] = ms" by simp
    with assms(1) have "sorted (map m_timestamp (butlast ms @ [last ms]))" by (simp only: chan_ok_def)
    moreover have "x \<in> set (butlast ms @ [last ms])" using that by (simp only: split)
    ultimately have "m_timestamp x \<le> m_timestamp (last ms)"
      unfolding map_append sorted_append by auto
    with assms(4) \<open>ms \<noteq> []\<close> show ?thesis by simp
  qed
  with assms show ?thesis by (auto simp: chan_ok_def sorted_append)
qed

lemma chan_ok_merge_sorted:
  assumes "chan_ok ch ms ids" "distinct (map m_id new)" "\<forall>m \<in> set new. m_channelId m = ch"
    and "m_id ` set new \<inter> m_id ` set ms = {}"
    and "distinct ids'" "set ids' = m_id ` (set ms \<union> set new)"
  shows "chan_ok ch (js_sort time_cmp (ms @ new)) ids'"
proof -
  have "distinct (map m_id (ms @ new))" using assms by (auto simp: chan_ok_def)
  with assms show ?thesis
    by (auto simp: chan_ok_def sorted_time_sort image_Un simp del: map_append)
qed

lemma store_inv_add_push:
  assumes "store_inv s" "add_accepts sha m s"
  shows "store_inv (add_push m (ensureChannel (m_channelId m) s))"
  unfolding add_push_def using assms
  by (intro store_inv_put store_inv_ensure chan_ok_snoc)
    (auto simp: ensure_wf add_accepts_def Let_def)

lemma store_inv_addMessage: "store_inv s \<Longrightarrow> store_inv (snd (addMessage_store sha m s))"
  using addMessage_store_result [of s sha m] store_inv_add_push [of s sha m]
  by (auto simp: store_inv_ensure split: if_splits)

lemma store_inv_forceAdd:
  assumes "store_inv s" shows "store_inv (forceAdd m s)"
proof (cases "m_id m \<in> m_id ` set (channel_of (m_channelId m) s)")
  case True
  with assms show ?thesis by (simp add: forceAdd_def Let_def ids_ensure_set store_inv_ensure)
next
  case False
  let ?ch = "m_channelId m"
  let ?msgs = "channel_of ?ch s" and ?ids = "ids_of ?ch (ensureChannel ?ch s)"
  let ?b = "upperBoundTimestamp ?msgs (m_timestamp m)"
  have ok: "chan_ok ?ch ?msgs ?ids" using assms by (rule ensure_wf)
  have perm: "mset (take ?b ?msgs @ m # drop ?b ?msgs) = mset (m # ?msgs)"
  proof -
    have "mset (take ?b ?msgs) + mset (drop ?b ?msgs) = mset ?msgs"
      by (metis append_take_drop_id mset_append)
    then show ?thesis by simp
  qed
  then have set: "set (take ?b ?msgs @ m # drop ?b ?msgs) = set (m # ?msgs)"
    by (metis set_mset_mset)
  have "distinct (map m_id (take ?b ?msgs @ m # drop ?b ?msgs)) \<longleftrightarrow> distinct (map m_id (m # ?msgs))"
    using perm by (metis mset_eq_imp_distinct_iff mset_map)
  with False ok set sorted_insert_at_bound [of ?msgs m]
  have "chan_ok ?ch (take ?b ?msgs @ m # drop ?b ?msgs) (js_add (m_id m) ?ids)"
    unfolding chan_ok_def by (simp del: set_append map_append)
  with False assms show ?thesis
    by (simp only: forceAdd_def Let_def splice_is_append_or_insert channel_ensure ids_ensure_set if_False
        store_inv_put store_inv_ensure)
qed

subsubsection \<open>bulkAdd\<close>

lemma group_fold_get:
  "jm_get (fold group_step ms g) ch =
     (if filter (\<lambda>m. m_channelId m = ch) ms = [] then jm_get g ch
      else Some (jm_get_or [] g ch @ filter (\<lambda>m. m_channelId m = ch) ms))"
  by (induction ms arbitrary: g) (auto simp: group_step_def jm_get_or_def js_map)

lemma group_fold_wf: "wf_map g \<Longrightarrow> wf_map (fold group_step ms g)"
  by (induction ms arbitrary: g) (auto simp: group_step_def)

lemma group_entry:
  assumes "(ch, new) \<in> set (fold group_step ms [])"
  shows "new = filter (\<lambda>m. m_channelId m = ch) ms"
proof -
  have "jm_get (fold group_step ms []) ch = Some new"
    using assms by (simp add: jm_get_iff group_fold_wf)
  then show ?thesis by (auto simp: group_fold_get jm_get_or_def split: if_splits)
qed

definition batch_ok :: "string \<times> message list \<Rightarrow> bool" where
  "batch_ok e \<longleftrightarrow> distinct (map m_id (snd e)) \<and> (\<forall>m \<in> set (snd e). m_channelId m = fst e)"

lemma distinct_map_filter_id: "distinct (map f xs) \<Longrightarrow> distinct (map f (filter P xs))"
  by (induction xs) auto

lemma store_inv_bulk_channel:
  assumes "store_inv (snd acc)" "batch_ok e"
  shows "store_inv (snd (bulk_channel e acc))"
proof -
  obtain ch new added s where e: "e = (ch, new)" "acc = (added, s)" by (cases e; cases acc) auto
  let ?d = "filter (\<lambda>m. m_id m \<notin> m_id ` set (channel_of ch s)) new"
  have "chan_ok ch (js_sort time_cmp (channel_of ch s @ ?d))
      (fold js_add (map m_id ?d) (ids_of ch (ensureChannel ch s)))"
    using assms e ensure_wf [of s ch]
    by (intro chan_ok_merge_sorted [where ids = "ids_of ch (ensureChannel ch s)"]) (auto simp: batch_ok_def chan_ok_def distinct_map_filter_id image_Un)
  then show ?thesis
    using assms e by (auto simp: bulk_channel_def Let_def ids_ensure_set intro!: store_inv_put store_inv_ensure)
qed

lemma store_inv_bulkAdd:
  assumes "store_inv s" "distinct (map (\<lambda>m. (m_channelId m, m_id m)) ms)"
  shows "store_inv (snd (bulkAdd ms s))"
proof -
  have ok: "batch_ok e" if "e \<in> set (fold group_step ms [])" for e
  proof -
    obtain ch new where e: "e = (ch, new)" by (cases e)
    with that have new: "new = filter (\<lambda>m. m_channelId m = ch) ms" by (auto dest: group_entry)
    have "distinct (map (\<lambda>m. (m_channelId m, m_id m)) new)"
      unfolding new by (rule distinct_map_filter_id [OF assms(2)])
    then have "distinct (map m_id new)"
      by (auto simp: new distinct_map inj_on_def)
    with e new show ?thesis by (auto simp: batch_ok_def)
  qed
  have "store_inv (snd (fold bulk_channel es acc))"
    if "\<forall>e \<in> set es. batch_ok e" "store_inv (snd acc)" for es acc
    using that by (induction es arbitrary: acc) (simp_all add: store_inv_bulk_channel)
  with ok assms(1) show ?thesis by (simp add: bulkAdd_def)
qed

subsubsection \<open>Import, remap, trim and prepend\<close>

lemma store_inv_del:
  "store_inv s \<Longrightarrow> store_inv (s\<lparr>st_channels := jm_delete ch (st_channels s), st_ids := jm_delete ch (st_ids s)\<rparr>)"
  by (simp add: store_inv_def js_map)

lemma store_inv_import:
  assumes "store_inv s" "distinct (map (m_id \<circ> fst) ims)" "\<forall>im \<in> set ims. m_channelId (fst im) = ch"
    and "sorted (map (m_timestamp \<circ> fst) ims)"
  shows "store_inv (snd (importMessages sha ch ims s))"
proof -
  let ?ms = "map normalize_imported ims"
  have "map m_id ?ms = map (m_id \<circ> fst) ims" "map m_timestamp ?ms = map (m_timestamp \<circ> fst) ims"
    by (auto simp: normalize_imported_def)
  moreover have "\<forall>m \<in> set ?ms. m_channelId m = ch" using assms(3) by (simp add: normalize_imported_def)
  moreover have "set (js_uniq (map m_id ?ms)) = m_id ` set ?ms" by (simp only: set_js_uniq set_map)
  ultimately have "chan_ok ch ?ms (js_uniq (map m_id ?ms))"
    using assms(2,4) unfolding chan_ok_def by (simp only: distinct_js_uniq simp_thms)
  then have "store_inv (put_channel ch (map normalize_imported ims)
      (js_uniq (map m_id (map normalize_imported ims))) s)"
    by (rule store_inv_put [OF assms(1)])
  then show ?thesis using assms(1)
    by (auto simp: importMessages_def Let_def split: sum.splits verification.splits)
qed

lemma store_inv_remap:
  assumes "store_inv s" shows "store_inv (snd (remapChannel a b s))"
proof (cases "a = b \<or> channel_of a s = []")
  case False
  let ?ms = "map (\<lambda>m. m\<lparr>m_channelId := b\<rparr>) (channel_of a s)"
  let ?d = "filter (\<lambda>m. m_id m \<notin> set (ids_of b (ensureChannel b s))) ?ms"
  let ?merged = "js_sort time_cmp (channel_of b s @ ?d)"
  have ids: "set (ids_of b (ensureChannel b s)) = m_id ` set (channel_of b s)"
    using assms by (rule ids_ensure_set)
  have "distinct (map m_id ?ms)"
    using store_inv_channel [OF assms, of a] by (simp add: chan_ok_def comp_def)
  then have "distinct (map m_id ?d)" by (rule distinct_map_filter_id)
  then have "chan_ok b ?merged (js_uniq (map m_id ?merged))"
    using store_inv_channel [OF assms, of b]
    by (intro chan_ok_merge_sorted [where ids = "ids_of b s"]) (auto simp: ids image_Un)
  then have "store_inv (put_channel b ?merged (js_uniq (map m_id ?merged)) (ensureChannel b s))"
    by (intro store_inv_put store_inv_ensure assms)
  with False show ?thesis
    by (simp add: remapChannel_def Let_def store_inv_del)
qed (use assms in \<open>auto simp: remapChannel_def\<close>)

lemma chan_ok_drop:
  assumes "chan_ok ch ms ids"
  shows "chan_ok ch (drop n ms) (fold js_remove (map m_id (take n ms)) ids)"
proof -
  have "distinct (map m_id (take n ms @ drop n ms))" using assms by (simp add: chan_ok_def)
  then have "m_id ` set (take n ms) \<inter> m_id ` set (drop n ms) = {}" "distinct (map m_id (drop n ms))"
    unfolding map_append distinct_append by auto
  moreover have "set ms = set (take n ms) \<union> set (drop n ms)"
    by (metis append_take_drop_id set_append)
  ultimately show ?thesis
    using assms unfolding chan_ok_def
    by (auto simp: distinct_fold_js_remove sorted_wrt_drop drop_map [symmetric])
qed

lemma store_inv_trim:
  assumes "store_inv s" shows "store_inv (snd (trimChannel_store ch k s))"
proof (cases "jm_has (st_channels s) ch")
  case True
  have "entry_ok ch (jm_get (st_channels s) ch) (jm_get (st_ids s) ch)" using assms by (simp add: store_inv_def)
  with True have "jm_has (st_ids s) ch" by (auto simp: jm_has_def elim: entry_ok_cases)
  then show ?thesis
    using store_inv_put [OF assms chan_ok_drop [OF store_inv_channel [OF assms, of ch]], of "nat (int (length (channel_of ch s)) - k)"] assms
    by (simp add: trimChannel_store_def Let_def put_channel_def)
qed (use assms in \<open>simp add: trimChannel_store_def\<close>)

definition prepend_ok :: "string \<Rightarrow> message list \<Rightarrow> store \<Rightarrow> bool" where
  "prepend_ok ch older s \<longleftrightarrow> distinct (map m_id older) \<and> (\<forall>m \<in> set older. m_channelId m = ch) \<and>
     sorted (map m_timestamp older) \<and>
     (\<forall>m \<in> set older. \<forall>x \<in> set (channel_of ch s). m_timestamp m \<le> m_timestamp x)"

lemma sorted_map_filter: "sorted (map f xs) \<Longrightarrow> sorted (map f (filter P xs))"
  by (induction xs) auto

lemma store_inv_prepend:
  assumes "store_inv s" "prepend_ok ch older s"
  shows "store_inv (snd (prependMessages ch older s))"
proof -
  let ?d = "filter (\<lambda>m. m_id m \<notin> set (ids_of ch (ensureChannel ch s))) older"
  have "chan_ok ch (?d @ channel_of ch s) (fold js_add (map m_id ?d) (ids_of ch (ensureChannel ch s)))"
    using assms(2) ensure_wf [OF assms(1), of ch] ids_ensure_set [OF assms(1), of ch ch]
    by (auto simp: chan_ok_def prepend_ok_def distinct_map_filter_id sorted_append sorted_map_filter image_Un)
  then have "store_inv (put_channel ch (?d @ channel_of ch s)
      (fold js_add (map m_id ?d) (ids_of ch (ensureChannel ch s))) (ensureChannel ch s))"
    by (intro store_inv_put store_inv_ensure assms(1))
  with assms(1) show ?thesis by (simp add: prependMessages_def Let_def store_inv_ensure)
qed

subsection \<open>Runs of operations\<close>

datatype store_op =
    AddMessage message
  | ForceAdd message
  | BulkAdd "message list"
  | ImportMessages string "imported list"
  | RemapChannel string string
  | TrimChannel string int
  | PrependMessages string "message list"
  | ClearChannel string
  | SetThreadRoot string message

fun store_step :: "(string \<Rightarrow> string) \<Rightarrow> store_op \<Rightarrow> store \<Rightarrow> store" where
  "store_step sha (AddMessage m) s = snd (addMessage_store sha m s)"
| "store_step sha (ForceAdd m) s = forceAdd m s"
| "store_step sha (BulkAdd ms) s = snd (bulkAdd ms s)"
| "store_step sha (ImportMessages ch ims) s = snd (importMessages sha ch ims s)"
| "store_step sha (RemapChannel a b) s = snd (remapChannel a b s)"
| "store_step sha (TrimChannel ch k) s = snd (trimChannel_store ch k s)"
| "store_step sha (PrependMessages ch ms) s = snd (prependMessages ch ms s)"
| "store_step sha (ClearChannel ch) s = clearChannel ch s"
| "store_step sha (SetThreadRoot t m) s = setThreadRoot t m s"

text \<open>
  What the callers of the three bulk operations owe: no id twice in one batch; an imported list of
  the channel it is imported into and in time order; prepended messages older than what is there.
\<close>

fun store_op_ok :: "store_op \<Rightarrow> store \<Rightarrow> bool" where
  "store_op_ok (BulkAdd ms) s \<longleftrightarrow> distinct (map (\<lambda>m. (m_channelId m, m_id m)) ms)"
| "store_op_ok (ImportMessages ch ims) s \<longleftrightarrow> distinct (map (m_id \<circ> fst) ims) \<and>
     list_all (\<lambda>im. m_channelId (fst im) = ch) ims \<and> sorted (map (m_timestamp \<circ> fst) ims)"
| "store_op_ok (PrependMessages ch ms) s \<longleftrightarrow> prepend_ok ch ms s"
| "store_op_ok _ s \<longleftrightarrow> True"

lemma store_inv_clear: "store_inv s \<Longrightarrow> store_inv (clearChannel ch s)"
  by (simp add: clearChannel_def store_inv_del)

lemma store_inv_root: "store_inv s \<Longrightarrow> store_inv (setThreadRoot t m s)"
  by (simp add: setThreadRoot_def store_inv_def)

lemma store_step_inv: "store_inv s \<Longrightarrow> store_op_ok op s \<Longrightarrow> store_inv (store_step sha op s)"
  by (cases op)
    (auto simp: list_all_iff intro!: store_inv_addMessage store_inv_forceAdd store_inv_bulkAdd
      store_inv_import store_inv_remap store_inv_trim store_inv_prepend store_inv_clear store_inv_root)

interpretation store_run: machine "store_step sha" store_op_ok store_inv for sha
  by unfold_locales (rule store_step_inv)

subsection \<open>validateInvariants decides the invariant\<close>

lemma scan_messages_ok:
  "(\<exists>seen'. scan_messages ch ids i prev seen ms = Inr seen') \<longleftrightarrow>
     distinct (map m_id ms) \<and> m_id ` set ms \<inter> set seen = {} \<and> m_id ` set ms \<subseteq> set ids \<and>
     (\<forall>m \<in> set ms. m_channelId m = ch) \<and> sorted (map m_timestamp ms) \<and>
     (case prev of None \<Rightarrow> True | Some p \<Rightarrow> ms \<noteq> [] \<longrightarrow> m_timestamp p \<le> m_timestamp (hd ms))"
proof (induction ms arbitrary: i prev seen)
  case (Cons m ms)
  have hd: "sorted (map m_timestamp (m # ms)) \<longleftrightarrow>
      sorted (map m_timestamp ms) \<and> (ms \<noteq> [] \<longrightarrow> m_timestamp m \<le> m_timestamp (hd ms))"
    by (cases ms) auto
  show ?case
    unfolding hd by (auto simp: Cons.IH not_less split: option.splits)
qed (auto split: option.splits)

lemma scan_messages_seen:
  "scan_messages ch ids i prev seen ms = Inr seen' \<Longrightarrow> set seen' = set seen \<union> m_id ` set ms"
  by (induction ms arbitrary: i prev seen) (auto split: if_splits)

lemma find_None_iff_all: "find P xs = None \<longleftrightarrow> (\<forall>x \<in> set xs. \<not> P x)"
  by (auto simp: find_None_iff)

lemma validate_channel_ok:
  assumes "distinct ids"
  shows "validate_channel ch msgs ids = Inr () \<longleftrightarrow> chan_ok ch msgs ids"
proof -
  have v: "validate_channel ch msgs ids = Inr () \<longleftrightarrow> length msgs = length ids \<and>
      (\<exists>seen. scan_messages ch ids 0 None [] msgs = Inr seen) \<and> set ids \<subseteq> m_id ` set msgs"
    using scan_messages_seen [of ch ids 0 None "[]" msgs]
    by (auto simp: validate_channel_def find_None_iff_all split: sum.splits option.splits)
      (auto simp: find_Some_iff subset_iff dest: nth_mem)
  have "length msgs = length ids" if "set ids = m_id ` set msgs" "distinct (map m_id msgs)"
    using that assms by (metis distinct_card length_map list.set_map)
  then show ?thesis
    unfolding v scan_messages_ok chan_ok_def using assms by auto
qed

lemma validate_channels_ok:
  "validate_channels s cs = Inr () \<longleftrightarrow>
     (\<forall>(ch, msgs) \<in> set cs. validate_channel ch msgs (ids_of ch s) = Inr ())"
  by (induction cs) (auto split: sum.splits)

lemma parity:
  assumes "wf_map a" "wf_map b" "\<forall>k \<in> set (jm_keys a). jm_has b k" "\<forall>k \<in> set (jm_keys b). jm_has a k"
  shows "length a = length b"
proof -
  have "set (jm_keys a) = set (jm_keys b)" using assms(3,4) by (auto simp: jm_has_keys)
  then have "length (jm_keys a) = length (jm_keys b)"
    using assms(1,2) unfolding wf_map_def by (metis distinct_card)
  then show ?thesis by (simp add: jm_keys_def)
qed

lemma validateInvariants_iff:
  assumes wf: "wf_map (st_channels s)" "wf_map (st_ids s)"
    and ids: "jm.every (\<lambda>ch ids. distinct ids) (st_ids s)"
  shows "validateInvariants True s = Inr () \<longleftrightarrow> store_inv s"
proof -
  let ?c = "st_channels s" and ?i = "st_ids s"
  have ids_of_distinct: "distinct (ids_of ch s)" for ch
    using ids by (auto simp: ids_of_def jm_get_or_def jm.every_def split: option.splits)
  have "validateInvariants True s = Inr () \<longleftrightarrow> length ?c = length ?i \<and>
      (\<forall>ch \<in> set (jm_keys ?c). jm_has ?i ch) \<and> (\<forall>ch \<in> set (jm_keys ?i). jm_has ?c ch) \<and>
      (\<forall>(ch, msgs) \<in> set ?c. chan_ok ch msgs (ids_of ch s))"
    by (auto simp: validateInvariants_def find_None_iff_all validate_channels_ok
        validate_channel_ok [OF ids_of_distinct] split: option.splits)
      (auto simp: find_Some_iff dest: nth_mem)
  also have "\<dots> \<longleftrightarrow> (\<forall>ch. jm_has ?c ch \<longleftrightarrow> jm_has ?i ch) \<and>
      (\<forall>ch msgs. jm_get ?c ch = Some msgs \<longrightarrow> chan_ok ch msgs (ids_of ch s))"
    using parity [OF wf] by (auto simp: jm_get_iff [OF wf(1)] jm_has_keys)
  also have "\<dots> \<longleftrightarrow> (\<forall>ch. entry_ok ch (jm_get ?c ch) (jm_get ?i ch))"
  proof -
    have "(jm_has ?c ch \<longleftrightarrow> jm_has ?i ch) \<and>
        (\<forall>msgs. jm_get ?c ch = Some msgs \<longrightarrow> chan_ok ch msgs (ids_of ch s)) \<longleftrightarrow>
      entry_ok ch (jm_get ?c ch) (jm_get ?i ch)" for ch
      by (cases "jm_get ?c ch"; cases "jm_get ?i ch") (auto simp: jm_has_def ids_of_def jm_get_or_def)
    then show ?thesis by blast
  qed
  finally show ?thesis using wf by (simp add: store_inv_def)
qed

lemma ids_distinct: "store_inv s \<Longrightarrow> jm.every (\<lambda>ch ids. distinct ids) (st_ids s)"
  unfolding jm.every_def
proof (intro allI impI)
  fix ch ids assume inv: "store_inv s" and "jm_get (st_ids s) ch = Some ids"
  moreover have "entry_ok ch (jm_get (st_channels s) ch) (jm_get (st_ids s) ch)"
    using inv by (simp add: store_inv_def)
  ultimately show "distinct ids" by (auto elim!: entry_ok_cases simp: chan_ok_def)
qed

lemma store_inv_validates: "store_inv s \<Longrightarrow> validateInvariants dev s = Inr ()"
proof (cases dev)
  case True
  assume inv: "store_inv s"
  with inv True show ?thesis by (simp add: validateInvariants_iff ids_distinct store_inv_def)
qed (simp add: validateInvariants_def)

lemma forceAdd_new:
  "store_inv (forceAdd m new_store)"
  "channel_of ch (forceAdd m new_store) = (if ch = m_channelId m then [m] else [])"
proof -
  show "store_inv (forceAdd m new_store)" by (intro store_inv_forceAdd store_inv_new)
  have "set (ids_of (m_channelId m) (ensureChannel (m_channelId m) new_store)) = {}"
    by (simp add: ids_ensure_set [OF store_inv_new])
  moreover have "upperBoundTimestamp [] t = 0" for t
    using upperBoundTimestamp_correct(1) [of "[]" t] by simp
  ultimately show "channel_of ch (forceAdd m new_store) = (if ch = m_channelId m then [m] else [])"
    by (simp add: forceAdd_def Let_def)
qed

subsection \<open>Histories built by addMessage\<close>

definition chained :: "(string \<Rightarrow> string) \<Rightarrow> message list \<Rightarrow> bool" where
  "chained sha ms \<longleftrightarrow> linked sha (map toHashable ms) \<and> sorted_wrt (<) (map m_timestamp ms)"

definition chain_inv :: "(string \<Rightarrow> string) \<Rightarrow> store \<Rightarrow> bool" where
  "chain_inv sha s \<longleftrightarrow> store_inv s \<and> (\<forall>ch. chained sha (channel_of ch s))"

lemma toHashable_prevHash [simp]: "h_prevHash (toHashable m) = m_prevHash m"
  by (simp add: toHashable_def)

lemma chained_snoc:
  assumes "chained sha (channel_of (m_channelId m) s)" "add_accepts sha m s"
  shows "chained sha (channel_of (m_channelId m) s @ [m])"
proof -
  let ?old = "channel_of (m_channelId m) s"
  have "m_timestamp x < m_timestamp m" if "x \<in> set ?old" for x
  proof -
    have ne: "?old \<noteq> []" using that by auto
    then have split: "butlast ?old @ [last ?old] = ?old" by simp
    have "sorted_wrt (<) (map m_timestamp (butlast ?old @ [last ?old]))"
      using assms(1) by (simp only: split chained_def)
    moreover have "x \<in> set (butlast ?old @ [last ?old])" using that by (simp only: split)
    ultimately have "m_timestamp x \<le> m_timestamp (last ?old)"
      unfolding map_append sorted_wrt_append by auto
    with assms(2) ne show ?thesis by (simp add: add_accepts_def Let_def)
  qed
  moreover have "linked sha (map toHashable ?old @ [toHashable m])"
    using assms unfolding linked_snoc
    by (simp add: chained_def add_accepts_def Let_def getLastHash_def last_map split: if_splits)
  ultimately show ?thesis
    using assms(1) by (simp add: chained_def sorted_wrt_append)
qed

lemma chain_inv_add: "chain_inv sha s \<Longrightarrow> chain_inv sha (snd (addMessage_store sha m s))"
proof -
  assume inv: "chain_inv sha s"
  have "chained sha (channel_of ch (snd (addMessage_store sha m s)))" for ch
    using addMessage_store_result [of s sha m] inv chained_snoc [of sha m s]
    by (auto simp: chain_inv_def add_push_def split: if_splits)
  with inv show ?thesis by (simp add: chain_inv_def store_inv_addMessage)
qed

interpretation chain_run: machine "\<lambda>m s. snd (addMessage_store sha m s)" "\<lambda>m s. True" "chain_inv sha" for sha
  by unfold_locales (rule chain_inv_add)

lemma chain_inv_new: "chain_inv sha new_store"
  by (simp add: chain_inv_def store_inv_new chained_def)
    (simp add: new_store_def channel_of_def jm_get_or_def linked_def)

text \<open>What an \<open>addMessage\<close> call does to every channel.\<close>

lemma addMessage_store_change:
  assumes "store_inv s" "addMessage_store sha m s = (r, s')"
  shows "(r = Inr () \<longleftrightarrow> add_accepts sha m s) \<and>
    getMessages_store ch s' =
      (if r = Inr () \<and> ch = m_channelId m then getMessages_store ch s @ [m] else getMessages_store ch s)"
  using addMessage_store_result [OF assms(1), of sha m] assms(2)
  by (auto simp: getMessages_store_def add_push_def split: if_splits)

subsection \<open>Properties\<close>

definition demo_msg :: "string \<Rightarrow> time \<Rightarrow> string \<Rightarrow> message" where
  "demo_msg i t p = \<lparr>m_id = i, m_channelId = ''c'', m_senderId = ''s'', m_senderIdentityId = None,
     m_timestamp = t, m_content = ''hi'', m_type = TextMsg, m_threadId = None, m_prevHash = p,
     m_status = Sent, m_recipientPeerIds = None, m_ackedBy = None, m_ackedAt = None,
     m_readBy = None, m_readAt = None, m_vectorClock = None\<rparr>"



text \<open>
  \<open>addMessage\<close> accepts a message exactly when its id is new in the channel, its content is
  within the limit, its previous hash is the hash of the channel's last message (the genesis hash in an
  empty channel) and it is later than that message. An accepted message is appended; a refused one
  changes no channel.
\<close>

theorem addMessage_store_correct:
  assumes "store_inv s" "addMessage_store sha m s = (r, s')"
  shows "(r = Inr () \<longleftrightarrow>
      m_id m \<notin> m_id ` set (getMessages_store (m_channelId m) s) \<and>
      length (m_content m) \<le> MAX_MESSAGE_CHARS \<and>
      m_prevHash m = getLastHash sha (m_channelId m) s \<and>
      (getMessages_store (m_channelId m) s \<noteq> [] \<longrightarrow>
         m_timestamp (last (getMessages_store (m_channelId m) s)) < m_timestamp m)) \<and>
    getMessages_store ch s' =
      (if r = Inr () \<and> ch = m_channelId m then getMessages_store ch s @ [m] else getMessages_store ch s)"
  using addMessage_store_change [OF assms, of ch]
  by (simp add: getMessages_store_def add_accepts_def Let_def)

lemma addMessage_store_correct_witness:
  "\<exists>s'. addMessage_store id (demo_msg ''a'' 1 GENESIS_HASH) new_store = (Inr (), s') \<and>
     getMessages_store ''c'' s' = [demo_msg ''a'' 1 GENESIS_HASH]"
proof -
  obtain r s' where r: "addMessage_store id (demo_msg ''a'' 1 GENESIS_HASH) new_store = (r, s')" by fastforce
  from addMessage_store_correct [OF store_inv_new r, of "''c''"] r show ?thesis
    by (auto simp: getMessages_store_def getLastHash_def demo_msg_def MAX_MESSAGE_CHARS_def)
qed

text \<open>
  Whatever messages a store is offered through \<open>addMessage\<close>, in whatever order, the
  history it keeps in every channel passes \<open>verifyChannel\<close>, is strictly increasing in time and has no
  id twice.
\<close>

theorem added_history_verifies:
  fixes ms :: "message list" and sha :: "string \<Rightarrow> string"
  defines "s \<equiv> fold (\<lambda>m s. snd (addMessage_store sha m s)) ms new_store"
  shows "verifyChannel sha ch s = Valid \<and>
    sorted_wrt (<) (map m_timestamp (getMessages_store ch s)) \<and>
    distinct (map m_id (getMessages_store ch s))"
proof -
  have "chain_inv sha s" unfolding s_def by (rule chain_run.run_inv [OF chain_inv_new]) (simp add: list.pred_True)
  then have "chained sha (channel_of ch s)" "chan_ok ch (channel_of ch s) (ids_of ch s)"
    by (simp_all add: chain_inv_def store_inv_channel)
  then show ?thesis
    by (simp add: verifyChannel_def verifyFullChain_Valid chained_def chan_ok_def getMessages_store_def)
qed

text \<open>
  \<open>createMessage\<close> and \<open>addMessage\<close> agree: a message created for a channel is accepted by
  \<open>addMessage\<close> as long as its id is fresh and the clock has moved past the last message.
\<close>

theorem created_message_is_accepted:
  assumes "store_inv s" "createMessage_store sha uuid now ch sender content ty th s = Inr m"
    and "uuid \<notin> m_id ` set (channel_of ch s)"
    and "\<forall>x \<in> set (channel_of ch s). m_timestamp x < now"
  shows "fst (addMessage_store sha m s) = Inr () \<and>
    channel_of ch (snd (addMessage_store sha m s)) = channel_of ch s @ [m]"
proof -
  have "add_accepts sha m s" "m_channelId m = ch"
    using assms(2-4)
    by (auto simp: createMessage_store_def add_accepts_def getLastHash_def validate_ok Let_def
        split: sum.splits)
  with addMessage_store_result [OF assms(1), of sha m] show ?thesis by (simp add: add_push_def)
qed

lemma created_message_is_accepted_witness:
  "\<exists>m. createMessage_store id ''u'' 5 ''c'' ''me'' ''hi'' TextMsg None new_store = Inr m \<and>
     fst (addMessage_store id m new_store) = Inr ()"
proof -
  obtain m where m: "createMessage_store id ''u'' 5 ''c'' ''me'' ''hi'' TextMsg None new_store = Inr m"
    by (simp add: createMessage_store_def validateMessageContentLength_def MAX_MESSAGE_CHARS_def Let_def)
  from created_message_is_accepted [OF store_inv_new this] m show ?thesis by simp
qed

text \<open>
  \<open>forceAdd\<close> of a new message puts it after every message that is not later and before
  every later one, and changes nothing else; the binary search returns that position.
\<close>

theorem forceAdd_inserts_in_order:
  assumes "store_inv s" "m_id m \<notin> m_id ` set (channel_of (m_channelId m) s)"
  shows "channel_of ch (forceAdd m s) =
    (if ch = m_channelId m
     then filter (\<lambda>x. m_timestamp x \<le> m_timestamp m) (channel_of ch s) @ m #
       filter (\<lambda>x. m_timestamp m < m_timestamp x) (channel_of ch s)
     else channel_of ch s)"
proof -
  let ?ms = "channel_of (m_channelId m) s"
  let ?b = "upperBoundTimestamp ?ms (m_timestamp m)"
  have sorted: "sorted (map m_timestamp ?ms)"
    using store_inv_channel [OF assms(1), of "m_channelId m"] by (simp add: chan_ok_def)
  have b: "m_timestamp (?ms ! i) \<le> m_timestamp m \<longleftrightarrow> i < ?b" if "i < length ?ms" for i
    using upperBoundTimestamp_correct(2) [OF sorted that] .
  have "\<forall>x \<in> set (take ?b ?ms). m_timestamp x \<le> m_timestamp m"
    using b by (auto simp: in_set_conv_nth)
  moreover have "\<forall>x \<in> set (drop ?b ?ms). m_timestamp m < m_timestamp x"
  proof
    fix x assume "x \<in> set (drop ?b ?ms)"
    then obtain i where "i < length ?ms - ?b" "x = ?ms ! (?b + i)" by (auto simp: in_set_conv_nth)
    moreover from this have "?b + i < length ?ms" by simp
    ultimately show "m_timestamp m < m_timestamp x" using b [of "?b + i"] by simp
  qed
  ultimately have "filter (\<lambda>x. m_timestamp x \<le> m_timestamp m) (take ?b ?ms @ drop ?b ?ms) = take ?b ?ms"
    "filter (\<lambda>x. m_timestamp m < m_timestamp x) (take ?b ?ms @ drop ?b ?ms) = drop ?b ?ms"
    unfolding filter_append by (auto simp: filter_empty_conv filter_id_conv)
  then show ?thesis
    using assms by (auto simp: forceAdd_def Let_def ids_ensure_set)
qed

lemma forceAdd_inserts_in_order_witness:
  "channel_of ''c'' (forceAdd (demo_msg ''b'' 2 []) (forceAdd (demo_msg ''c'' 3 []) new_store)) =
     [demo_msg ''b'' 2 [], demo_msg ''c'' 3 []]"
proof -
  show ?thesis
    using forceAdd_inserts_in_order [OF forceAdd_new(1), of "demo_msg ''b'' 2 []"
        "demo_msg ''c'' 3 []" "''c''"]
    by (simp add: forceAdd_new demo_msg_def)
qed

text \<open>
  Renaming a channel does not disturb its history: \<open>remapChannel\<close> into a channel that
  holds nothing moves every message in order, the verification verdict is the one the old channel
  had, and the old channel is gone.
\<close>

theorem remapChannel_keeps_chain:
  assumes "store_inv s" "a \<noteq> b" "channel_of a s \<noteq> []" "channel_of b s = []"
  shows "verifyChannel sha b (snd (remapChannel a b s)) = verifyChannel sha a s \<and>
    map m_id (channel_of b (snd (remapChannel a b s))) = map m_id (channel_of a s) \<and>
    channel_of a (snd (remapChannel a b s)) = []"
proof -
  let ?ms = "map (\<lambda>m. m\<lparr>m_channelId := b\<rparr>) (channel_of a s)"
  have ids: "set (ids_of b (ensureChannel b s)) = {}"
    using ids_ensure_set [OF assms(1), of b b] assms(4) by simp
  have "sorted (map m_timestamp ?ms)"
    using store_inv_channel [OF assms(1), of a] by (simp add: chan_ok_def comp_def)
  then have "js_sort time_cmp ?ms = ?ms" by (intro js_sort_in_order) (simp only: sorted_time)
  then have b: "channel_of b (snd (remapChannel a b s)) = ?ms"
    and a: "channel_of a (snd (remapChannel a b s)) = []"
    using assms(2-4)
    by (simp_all add: remapChannel_def Let_def ids)
      (simp_all add: channel_of_def jm_get_or_def put_channel_def js_map)
  have "verifyFullChain sha (map toHashable ?ms) = verifyFullChain sha (map toHashable (channel_of a s))"
    by (rule verifyFullChain_same_hashed) (simp add: same_hashed_def list_all2_map1 list_all2_map2 list.rel_refl toHashable_def)
  with a b show ?thesis by (simp add: verifyChannel_def comp_def)
qed

lemma remapChannel_keeps_chain_witness:
  "verifyChannel id ''d'' (snd (remapChannel ''c'' ''d'' (forceAdd (demo_msg ''a'' 1 GENESIS_HASH) new_store))) =
     verifyChannel id ''c'' (forceAdd (demo_msg ''a'' 1 GENESIS_HASH) new_store)"
  by (rule remapChannel_keeps_chain [THEN conjunct1]) (simp_all add: forceAdd_new demo_msg_def)

text \<open>
  An import is accepted exactly when every content is within the limit and, unless some
  content was left out, the whole chain verifies; one message without content switches the
  verification of all the others off. An accepted import replaces the channel by the messages sent,
  with missing contents blank, and a refused one changes nothing.
\<close>

theorem importMessages_decides:
  assumes "importMessages sha ch ims s = (r, s')"
  shows "(r = Inr () \<longleftrightarrow>
      (\<forall>im \<in> set ims. length (m_content (normalize_imported im)) \<le> MAX_MESSAGE_CHARS) \<and>
      ((\<exists>im \<in> set ims. snd im = None) \<or>
        verifyFullChain sha (map (toHashable \<circ> normalize_imported) ims) = Valid)) \<and>
    (if r = Inr () then channel_of ch s' = map normalize_imported ims else s' = s)"
proof -
  have "validate_contents ms = Inr () \<longleftrightarrow> (\<forall>m \<in> set ms. length (m_content m) \<le> MAX_MESSAGE_CHARS)" for ms
    by (induction ms) (auto simp: validateMessageContentLength_def)
  then have "validate_contents (map normalize_imported ims) = Inr () \<longleftrightarrow>
      (\<forall>im \<in> set ims. length (m_content (normalize_imported im)) \<le> MAX_MESSAGE_CHARS)" by simp
  with assms show ?thesis
    by (cases "validate_contents (map normalize_imported ims)";
        cases "verifyFullChain sha (map toHashable (map normalize_imported ims))")
      (auto simp: importMessages_def Let_def list_ex_iff split: if_splits)
qed

lemma importMessages_decides_witness:
  "fst (importMessages id ''c'' [(demo_msg ''a'' 1 ''forged'', Some ''x''), (demo_msg ''b'' 1 ''forged'', None)]
     new_store) = Inr ()"
proof -
  let ?ims = "[(demo_msg ''a'' 1 ''forged'', Some ''x''), (demo_msg ''b'' 1 ''forged'', None)]"
  obtain r s' where r: "importMessages id ''c'' ?ims new_store = (r, s')" by fastforce
  from importMessages_decides [OF this] r show ?thesis
    by (auto simp: normalize_imported_def MAX_MESSAGE_CHARS_def)
qed

text \<open>
  Two overlapping calls of \<open>addMessage\<close> with the same message both succeed: each passes
  the duplicate check before the other, resumed after the digest, appends. The channel then holds the
  message twice, its chain no longer verifies the way it did and the store's own consistency check
  throws. Sequential calls are safe (see \<open>addMessage_store_correct\<close>).
\<close>

theorem overlapping_adds_duplicate:
  assumes "store_inv s" "channel_of (m_channelId m) s \<noteq> []" "fst (addMessage_store sha m s) = Inr ()"
    and "add_begin m s = (Inr c1, s1)" "add_begin m s1 = (Inr c2, s2)"
    and "add_finish sha m c1 s2 = (r3, s3)" "add_finish sha m c2 s3 = (r4, s4)"
  shows "r3 = Inr () \<and> r4 = Inr () \<and>
    channel_of (m_channelId m) s4 = channel_of (m_channelId m) s @ [m, m] \<and>
    validateInvariants True s4 \<noteq> Inr ()"
proof -
  let ?ch = "m_channelId m"
  let ?l = "Some (last (channel_of ?ch s))"
  have acc: "add_accepts sha m s" using addMessage_store_result [OF assms(1), of sha m] assms(3)
    by (auto split: if_splits)
  have c1: "c1 = ?l" "s1 = ensureChannel ?ch s"
    using assms(2,4) by (auto simp: add_begin_def Let_def split: if_splits sum.splits)
  have c2: "c2 = ?l" "s2 = ensureChannel ?ch s1"
    using assms(2,5) c1 by (auto simp: add_begin_def Let_def split: if_splits sum.splits)
  have inv2: "store_inv s2" unfolding c1 c2 by (intro store_inv_ensure assms(1))
  have fin: "add_finish sha m ?l t = (Inr (), add_push m t)" for t
    using acc assms(2) by (auto simp: add_finish_def add_accepts_def getLastHash_def Let_def)
  have s3: "r3 = Inr ()" "s3 = add_push m s2" and s4: "r4 = Inr ()" "s4 = add_push m s3"
    using assms(6,7) fin c1 c2 by auto
  have ch4: "channel_of ?ch s4 = channel_of ?ch s @ [m, m]"
    by (simp add: s3 s4 c1 c2 add_push_def)
  have wf: "wf_map (st_channels s4)" "wf_map (st_ids s4)"
    using inv2 by (auto simp: s3 s4 add_push_def put_channel_def store_inv_def)
  have ids: "jm.every (\<lambda>ch ids. distinct ids) (st_ids s4)"
  proof -
    have e2: "jm.every (\<lambda>ch ids. distinct ids) (st_ids s2)"
      using inv2 by (rule ids_distinct)
    have "distinct (ids_of ?ch s2)" using store_inv_channel [OF inv2, of ?ch] by (simp add: chan_ok_def)
    with e2 show ?thesis
      by (simp add: s3 s4 add_push_def put_channel_def ids_of_def jm_get_or_def js_map jm.every_put)
  qed
  have "\<not> store_inv s4"
  proof
    assume "store_inv s4"
    from store_inv_channel [OF this, of ?ch] show False by (simp add: ch4 chan_ok_def)
  qed
  with validateInvariants_iff [OF wf ids] ch4 s3 s4 show ?thesis by simp
qed

lemma overlapping_adds_duplicate_witness:
  "\<exists>s3 s4. add_finish id (demo_msg ''b'' 2 (canonicalize (toHashable (demo_msg ''a'' 1 []))))
      (Some (demo_msg ''a'' 1 [])) s3 = (Inr (), s4) \<and>
     channel_of ''c'' s4 = [demo_msg ''a'' 1 [],
       demo_msg ''b'' 2 (canonicalize (toHashable (demo_msg ''a'' 1 []))),
       demo_msg ''b'' 2 (canonicalize (toHashable (demo_msg ''a'' 1 [])))]"
proof -
  let ?m = "demo_msg ''b'' 2 (canonicalize (toHashable (demo_msg ''a'' 1 [])))"
  let ?s = "forceAdd (demo_msg ''a'' 1 []) new_store"
  note inv = forceAdd_new(1) [of "demo_msg ''a'' 1 []"]
  have id_m: "m_channelId ?m = ''c''" "m_id ?m = ''b''" "m_content ?m = ''hi''" "m_timestamp ?m = 2"
    "m_prevHash ?m = canonicalize (toHashable (demo_msg ''a'' 1 []))" by (simp_all add: demo_msg_def)
  have ch: "channel_of ''c'' ?s = [demo_msg ''a'' 1 []]"
    by (simp add: forceAdd_new) (simp add: demo_msg_def)
  have a: "m_id (demo_msg ''a'' 1 []) = ''a''" "m_timestamp (demo_msg ''a'' 1 []) = 1" by (simp_all add: demo_msg_def)
  have acc: "add_accepts id ?m ?s"
    by (simp add: add_accepts_def getLastHash_def hashMessage_def ch id_m a MAX_MESSAGE_CHARS_def)
  have ok: "fst (addMessage_store id ?m ?s) = Inr ()"
    using addMessage_store_result [OF inv, of id ?m] acc by simp
  obtain c1 s1 where b1: "add_begin ?m ?s = (Inr c1, s1)"
    using ok by (auto simp: addMessage_store_def split: prod.splits sum.splits)
  have s1: "s1 = ensureChannel ''c'' ?s" "c1 = Some (demo_msg ''a'' 1 [])"
    using b1 by (auto simp: add_begin_def Let_def ch id_m split: if_splits sum.splits)
  have e: "ensureChannel ''c'' ?s = ?s"
    using ch by (auto simp: ensureChannel_def jm_has_def channel_of_def jm_get_or_def)
  obtain r3 s3 where f3: "add_finish id ?m c1 s1 = (r3, s3)" by fastforce
  obtain r4 s4 where f4: "add_finish id ?m c1 s3 = (r4, s4)" by fastforce
  have "s1 = ?s" using s1 e by simp
  with b1 have b2: "add_begin ?m s1 = (Inr c1, s1)" by simp
  from overlapping_adds_duplicate [OF inv _ ok b1 b2 f3 f4] f4 s1(2) show ?thesis
    by (auto simp: ch id_m)
qed

text \<open>
  \<open>bulkAdd\<close> and \<open>prependMessages\<close> check a batch against what the channel holds but not
  against itself: a batch that repeats a new id stores it twice, and the consistency check throws.
\<close>

theorem batch_with_repeated_id:
  assumes "store_inv s" "m_id m \<notin> m_id ` set (channel_of (m_channelId m) s)"
  shows "fst (bulkAdd [m, m] s) = 2 \<and> fst (prependMessages (m_channelId m) [m, m] s) = 2 \<and>
    \<not> store_inv (snd (bulkAdd [m, m] s)) \<and> \<not> store_inv (snd (prependMessages (m_channelId m) [m, m] s))"
proof -
  let ?ch = "m_channelId m"
  have ids: "set (ids_of ?ch (ensureChannel ?ch s)) = m_id ` set (channel_of ?ch s)"
    using assms(1) by (rule ids_ensure_set)
  have group: "fold group_step [m, m] [] = [(?ch, [m, m])]"
    by (simp add: group_step_def jm_set_def jm_get_or_def)
  have bulk: "fst (bulkAdd [m, m] s) = 2"
    "channel_of ?ch (snd (bulkAdd [m, m] s)) = js_sort time_cmp (channel_of ?ch s @ [m, m])"
    using assms(2) unfolding bulkAdd_def group by (simp_all add: bulk_channel_def Let_def ids)
  have pre: "fst (prependMessages ?ch [m, m] s) = 2"
    "channel_of ?ch (snd (prependMessages ?ch [m, m] s)) = [m, m] @ channel_of ?ch s"
    using assms(2) by (simp_all add: prependMessages_def Let_def ids)
  have no: "\<not> chan_ok ?ch (js_sort time_cmp (channel_of ?ch s @ [m, m])) I" "\<not> chan_ok ?ch (m # m # x) I" for I x
    by (simp_all add: chan_ok_def)
  have "\<not> store_inv (snd (bulkAdd [m, m] s))"
    using store_inv_channel [of "snd (bulkAdd [m, m] s)" ?ch] no(1) unfolding bulk(2) by blast
  moreover have "\<not> store_inv (snd (prependMessages ?ch [m, m] s))"
    using store_inv_channel [of "snd (prependMessages ?ch [m, m] s)" ?ch] no(2) unfolding pre(2) by auto
  ultimately show ?thesis using bulk(1) pre(1) by simp
qed

lemma batch_with_repeated_id_witness:
  "\<not> store_inv (snd (bulkAdd [demo_msg ''a'' 1 [], demo_msg ''a'' 1 []] new_store))"
  using batch_with_repeated_id [OF store_inv_new, of "demo_msg ''a'' 1 []"]
  by simp

end
