(* ===== verification/Receipts.thy ===== *)
theory Receipts
  imports MessageTypes
begin

section \<open>Delivery and read receipts\<close>

text \<open>
  Models \<open>decent-protocol/src/messages/ReceiptProtocol.ts\<close>: one pure function that folds a
  receipt of a peer into a message. The sets \<open>ackedBy\<close> and \<open>readBy\<close> are lists in insertion order.
\<close>

datatype receipt_type = AckReceipt | ReadReceipt

record receipt_options =
  ro_peerId :: string
  ro_type :: receipt_type
  ro_at :: "time option"
  ro_allowedRecipients :: "string list option"
  ro_statusRecipients :: "string list option"

record receipt_result =
  rr_accepted :: bool
  rr_changed :: bool
  rr_message :: message
  rr_acked :: nat
  rr_read :: nat
  rr_total :: nat
  rr_status :: status

definition normalizeRecipients :: "string list option \<Rightarrow> string \<Rightarrow> string list" where
  "normalizeRecipients recipients sender =
     (case recipients of
        None \<Rightarrow> []
      | Some rs \<Rightarrow> js_uniq (filter (\<lambda>i. i \<noteq> [] \<and> i \<noteq> sender) rs))"

fun statusRank :: "status \<Rightarrow> nat" where
  "statusRank ReadStatus = 3"
| "statusRank Delivered = 2"
| "statusRank Sent = 1"
| "statusRank Pending = 0"

text \<open>\<open>if (!m[peer]) m[peer] = at\<close>: a missing entry and the entry 0 are both false.\<close>

definition set_if_falsy :: "string \<Rightarrow> time \<Rightarrow> (string, time) jsmap \<Rightarrow> (string, time) jsmap" where
  "set_if_falsy p t m = (if jm_get_or 0 m p = 0 then jm_set p t m else m)"

definition computed_status :: "string list \<Rightarrow> string list \<Rightarrow> string list \<Rightarrow> status" where
  "computed_status recipients ackedBy readBy =
     (let deliveredToAll = recipients \<noteq> [] \<and> list_all (\<lambda>i. i \<in> set ackedBy) recipients;
          readByAll = recipients \<noteq> [] \<and> list_all (\<lambda>i. i \<in> set readBy) recipients
      in if readByAll then ReadStatus else if deliveredToAll then Delivered else Sent)"

definition or_else :: "'a option \<Rightarrow> 'a option \<Rightarrow> 'a option" where
  "or_else a b = (case a of None \<Rightarrow> b | Some x \<Rightarrow> Some x)"

definition applyMessageReceipt :: "time \<Rightarrow> message \<Rightarrow> receipt_options \<Rightarrow> receipt_result" where
  "applyMessageReceipt now m opts =
     (let sender = m_senderId m; peer = ro_peerId opts;
          allowed = normalizeRecipients (or_else (ro_allowedRecipients opts) (m_recipientPeerIds m)) sender;
          statusRecipients = normalizeRecipients (or_else (ro_statusRecipients opts) (Some allowed)) sender;
          acked0 = normalizeRecipients (m_ackedBy m) sender;
          read0 = normalizeRecipients (m_readBy m) sender
      in if allowed \<noteq> [] \<and> peer \<notin> set allowed
         then \<lparr>rr_accepted = False, rr_changed = False, rr_message = m, rr_acked = length acked0,
                rr_read = length read0, rr_total = length statusRecipients, rr_status = m_status m\<rparr>
         else
           let at = (case ro_at opts of Some t \<Rightarrow> t | None \<Rightarrow> now);
               ackedBy = js_add peer acked0;
               readBy = (if ro_type opts = ReadReceipt then js_add peer read0 else read0);
               ackedAt = set_if_falsy peer at (case m_ackedAt m of Some a \<Rightarrow> a | None \<Rightarrow> []);
               readAt0 = (case m_readAt m of Some a \<Rightarrow> a | None \<Rightarrow> []);
               readAt = (if ro_type opts = ReadReceipt then set_if_falsy peer at readAt0 else readAt0);
               computed = computed_status statusRecipients ackedBy readBy;
               nextStatus = (if statusRank (m_status m) > statusRank computed then m_status m else computed)
           in \<lparr>rr_accepted = True,
               rr_changed = (peer \<notin> set acked0 \<or> (ro_type opts = ReadReceipt \<and> peer \<notin> set read0) \<or>
                 nextStatus \<noteq> m_status m),
               rr_message = m\<lparr>m_ackedBy := Some ackedBy, m_ackedAt := Some ackedAt,
                 m_readBy := Some readBy, m_readAt := Some readAt, m_status := nextStatus\<rparr>,
               rr_acked = length (filter (\<lambda>i. i \<in> set ackedBy) statusRecipients),
               rr_read = length (filter (\<lambda>i. i \<in> set readBy) statusRecipients),
               rr_total = length statusRecipients, rr_status = nextStatus\<rparr>)"

subsection \<open>Reading a message's receipts\<close>

definition acked :: "message \<Rightarrow> string set" where
  "acked m = set (normalizeRecipients (m_ackedBy m) (m_senderId m))"

definition readers :: "message \<Rightarrow> string set" where
  "readers m = set (normalizeRecipients (m_readBy m) (m_senderId m))"

definition allowed_of :: "message \<Rightarrow> receipt_options \<Rightarrow> string set" where
  "allowed_of m opts =
     set (normalizeRecipients (or_else (ro_allowedRecipients opts) (m_recipientPeerIds m)) (m_senderId m))"

definition awaited :: "message \<Rightarrow> receipt_options \<Rightarrow> string set" where
  "awaited m opts = (case ro_statusRecipients opts of
     None \<Rightarrow> allowed_of m opts
   | Some rs \<Rightarrow> set (normalizeRecipients (Some rs) (m_senderId m)))"

text \<open>The status the receipts alone call for.\<close>

definition due_status :: "string set \<Rightarrow> string set \<Rightarrow> string set \<Rightarrow> status" where
  "due_status W A R = (if W \<noteq> {} \<and> W \<subseteq> R then ReadStatus else if W \<noteq> {} \<and> W \<subseteq> A then Delivered else Sent)"

definition higher :: "status \<Rightarrow> status \<Rightarrow> status" where
  "higher a b = (if statusRank a > statusRank b then a else b)"

lemma set_normalizeRecipients:
  "set (normalizeRecipients rs s) = (case rs of None \<Rightarrow> {} | Some xs \<Rightarrow> set xs - {[], s})"
  by (auto simp: normalizeRecipients_def split: option.splits)

lemma normalizeRecipients_idem [simp]:
  "normalizeRecipients (Some (normalizeRecipients rs s)) s = normalizeRecipients rs s"
proof -
  have "filter (\<lambda>i. i \<noteq> [] \<and> i \<noteq> s) (normalizeRecipients rs s) = normalizeRecipients rs s"
    by (intro filter_True) (auto simp: set_normalizeRecipients split: option.splits)
  then show ?thesis
    by (auto simp: normalizeRecipients_def split: option.splits)
qed

lemma computed_status_due:
  "computed_status ws as rs = due_status (set ws) (set as) (set rs)"
  by (auto simp: computed_status_def due_status_def list_all_iff Let_def)

lemma statusRank_inject: "statusRank a = statusRank b \<longleftrightarrow> a = b"
  by (cases a; cases b) auto

lemma due_status_mono:
  "A \<subseteq> A' \<Longrightarrow> R \<subseteq> R' \<Longrightarrow> statusRank (due_status W A R) \<le> statusRank (due_status W A' R')"
  by (auto simp: due_status_def)

lemma receipt_refused:
  "allowed_of m opts \<noteq> {} \<Longrightarrow> ro_peerId opts \<notin> allowed_of m opts \<Longrightarrow>
   \<not> rr_accepted (applyMessageReceipt now m opts) \<and> rr_message (applyMessageReceipt now m opts) = m"
  by (simp add: applyMessageReceipt_def allowed_of_def Let_def)

definition allows :: "message \<Rightarrow> receipt_options \<Rightarrow> bool" where
  "allows m opts \<longleftrightarrow> allowed_of m opts = {} \<or> ro_peerId opts \<in> allowed_of m opts"

definition real_peer :: "message \<Rightarrow> receipt_options \<Rightarrow> bool" where
  "real_peer m opts \<longleftrightarrow> ro_peerId opts \<noteq> [] \<and> ro_peerId opts \<noteq> m_senderId m"

lemma receipt_accepted:
  fixes now :: time
  assumes "allows m opts" "real_peer m opts"
  defines "m' \<equiv> rr_message (applyMessageReceipt now m opts)"
  shows "rr_accepted (applyMessageReceipt now m opts)"
    and "acked m' = insert (ro_peerId opts) (acked m)"
    and "readers m' = (if ro_type opts = ReadReceipt then insert (ro_peerId opts) (readers m) else readers m)"
    and "m_status m' = higher (m_status m) (due_status (awaited m opts) (acked m') (readers m'))"
    and "m_senderId m' = m_senderId m" "m_recipientPeerIds m' = m_recipientPeerIds m"
proof -
  note defs = assms(1,2) [unfolded allows_def real_peer_def]
  have go: "\<not> (normalizeRecipients (or_else (ro_allowedRecipients opts) (m_recipientPeerIds m)) (m_senderId m) \<noteq> [] \<and>
    ro_peerId opts \<notin> set (normalizeRecipients (or_else (ro_allowedRecipients opts) (m_recipientPeerIds m)) (m_senderId m)))"
    using defs by (auto simp: allowed_of_def)
  show "rr_accepted (applyMessageReceipt now m opts)"
    by (simp only: applyMessageReceipt_def Let_def if_not_P [OF go]) simp
  show a: "acked m' = insert (ro_peerId opts) (acked m)"
    by (simp only: m'_def applyMessageReceipt_def Let_def if_not_P [OF go])
      (use defs in \<open>auto simp: acked_def set_normalizeRecipients split: option.splits\<close>)
  show r: "readers m' = (if ro_type opts = ReadReceipt then insert (ro_peerId opts) (readers m) else readers m)"
    by (simp only: m'_def applyMessageReceipt_def Let_def if_not_P [OF go])
      (use defs in \<open>auto simp: readers_def set_normalizeRecipients split: option.splits\<close>)
  have w: "set (normalizeRecipients (or_else (ro_statusRecipients opts)
      (Some (normalizeRecipients (or_else (ro_allowedRecipients opts) (m_recipientPeerIds m)) (m_senderId m)))) (m_senderId m)) =
    awaited m opts"
    by (cases "ro_statusRecipients opts") (simp_all add: awaited_def allowed_of_def or_else_def [of None] or_else_def [of "Some _"])
  show "m_status m' = higher (m_status m) (due_status (awaited m opts) (acked m') (readers m'))"
    unfolding a r
    by (simp only: m'_def applyMessageReceipt_def Let_def if_not_P [OF go] computed_status_due w)
      (auto simp: acked_def readers_def higher_def)
  show "m_senderId m' = m_senderId m" "m_recipientPeerIds m' = m_recipientPeerIds m"
    by (simp_all only: m'_def applyMessageReceipt_def Let_def if_not_P [OF go]) simp_all
qed

subsection \<open>Sequences of receipts\<close>

definition apply_receipts :: "(time \<times> receipt_options) list \<Rightarrow> message \<Rightarrow> message" where
  "apply_receipts rs m = fold (\<lambda>(now, opts) m. rr_message (applyMessageReceipt now m opts)) rs m"

definition peers_in :: "(time \<times> receipt_options) list \<Rightarrow> string set" where
  "peers_in rs = ro_peerId ` snd ` set rs"

definition read_peers_in :: "(time \<times> receipt_options) list \<Rightarrow> string set" where
  "read_peers_in rs = ro_peerId ` {opts \<in> snd ` set rs. ro_type opts = ReadReceipt}"

definition same_recipients :: "message \<Rightarrow> receipt_options \<Rightarrow> receipt_options \<Rightarrow> bool" where
  "same_recipients m a b \<longleftrightarrow> ro_allowedRecipients a = ro_allowedRecipients b \<and>
     ro_statusRecipients a = ro_statusRecipients b"

lemma higher_due:
  "A \<subseteq> A' \<Longrightarrow> R \<subseteq> R' \<Longrightarrow>
   higher (higher s (due_status W A R)) (due_status W A' R') = higher s (due_status W A' R')"
  using due_status_mono [of A A' R R' W] by (auto simp: higher_def statusRank_inject intro: antisym)

lemma apply_receipts_state:
  assumes "rs \<noteq> []" "o0 \<in> snd ` set rs"
    and "\<forall>opts \<in> snd ` set rs. same_recipients m opts o0 \<and> allows m opts \<and> real_peer m opts"
  shows "acked (apply_receipts rs m) = acked m \<union> peers_in rs \<and>
    readers (apply_receipts rs m) = readers m \<union> read_peers_in rs \<and>
    m_status (apply_receipts rs m) = higher (m_status m)
      (due_status (awaited m o0) (acked m \<union> peers_in rs) (readers m \<union> read_peers_in rs)) \<and>
    m_senderId (apply_receipts rs m) = m_senderId m \<and>
    m_recipientPeerIds (apply_receipts rs m) = m_recipientPeerIds m"
  using assms
proof (induction rs arbitrary: o0 rule: rev_induct)
  case (snoc r rs)
  obtain now opts where r: "r = (now, opts)" by (cases r)
  let ?m = "apply_receipts rs m"
  have same: "same_recipients m opts o0" "allows m opts" "real_peer m opts" using snoc.prems(3) r by auto
  have "acked ?m = acked m \<union> peers_in rs \<and> readers ?m = readers m \<union> read_peers_in rs \<and>
      m_senderId ?m = m_senderId m \<and> m_recipientPeerIds ?m = m_recipientPeerIds m \<and>
      (m_status ?m = m_status m \<or> m_status ?m = higher (m_status m)
        (due_status (awaited m o0) (acked m \<union> peers_in rs) (readers m \<union> read_peers_in rs)))"
  proof (cases "rs = []")
    case False
    then obtain o1 where o1: "o1 \<in> snd ` set rs" by (cases rs) auto
    then have "same_recipients m o1 o0" using snoc.prems(3) by auto
    then have "awaited m o1 = awaited m o0"
      by (auto simp: awaited_def allowed_of_def same_recipients_def split: option.splits)
    moreover have "\<forall>opts \<in> snd ` set rs. same_recipients m opts o1 \<and> allows m opts \<and> real_peer m opts"
      using snoc.prems(3) \<open>same_recipients m o1 o0\<close> by (auto simp: same_recipients_def)
    ultimately show ?thesis using snoc.IH [OF False o1] by simp
  qed (simp add: apply_receipts_def peers_in_def read_peers_in_def)
  then have IH: "acked ?m = acked m \<union> peers_in rs" "readers ?m = readers m \<union> read_peers_in rs"
    "m_senderId ?m = m_senderId m" "m_recipientPeerIds ?m = m_recipientPeerIds m"
    "m_status ?m = m_status m \<or> m_status ?m = higher (m_status m)
        (due_status (awaited m o0) (acked m \<union> peers_in rs) (readers m \<union> read_peers_in rs))" by auto
  have carry: "allows ?m opts" "real_peer ?m opts" "awaited ?m opts = awaited m o0"
    using same IH(3,4)
    by (auto simp: allows_def real_peer_def awaited_def allowed_of_def same_recipients_def split: option.splits)
  note step = receipt_accepted [OF carry(1,2), of now]
  have snoc_eq: "apply_receipts (rs @ [r]) m = rr_message (applyMessageReceipt now ?m opts)"
    by (simp add: apply_receipts_def r)
  have peers: "peers_in (rs @ [r]) = insert (ro_peerId opts) (peers_in rs)"
    "read_peers_in (rs @ [r]) = (if ro_type opts = ReadReceipt then insert (ro_peerId opts) (read_peers_in rs)
       else read_peers_in rs)"
    by (auto simp: peers_in_def read_peers_in_def r)
  have a: "acked (apply_receipts (rs @ [r]) m) = acked m \<union> peers_in (rs @ [r])"
    and rd: "readers (apply_receipts (rs @ [r]) m) = readers m \<union> read_peers_in (rs @ [r])"
    unfolding snoc_eq step(2,3) peers IH(1,2) by auto
  have "m_status (apply_receipts (rs @ [r]) m) =
      higher (m_status ?m) (due_status (awaited m o0) (acked m \<union> peers_in (rs @ [r]))
        (readers m \<union> read_peers_in (rs @ [r])))"
    using step(4) unfolding snoc_eq [symmetric] a rd carry(3) .
  also have "\<dots> = higher (m_status m) (due_status (awaited m o0) (acked m \<union> peers_in (rs @ [r]))
        (readers m \<union> read_peers_in (rs @ [r])))"
  proof -
    have "acked m \<union> peers_in rs \<subseteq> acked m \<union> peers_in (rs @ [r])"
      "readers m \<union> read_peers_in rs \<subseteq> readers m \<union> read_peers_in (rs @ [r])"
      by (auto simp: peers)
    with IH(5) show ?thesis by (elim disjE) (simp_all only: higher_due)
  qed
  finally show ?case using a rd step(5,6) IH(3,4) by (simp add: snoc_eq)
qed simp

subsection \<open>Properties\<close>

definition demo_sent :: "string list \<Rightarrow> message" where
  "demo_sent recipients = \<lparr>m_id = ''m'', m_channelId = ''c'', m_senderId = ''me'', m_senderIdentityId = None,
     m_timestamp = 1, m_content = ''hi'', m_type = TextMsg, m_threadId = None, m_prevHash = [],
     m_status = Sent, m_recipientPeerIds = Some recipients, m_ackedBy = None, m_ackedAt = None,
     m_readBy = None, m_readAt = None, m_vectorClock = None\<rparr>"

definition demo_receipt :: "string \<Rightarrow> receipt_type \<Rightarrow> receipt_options" where
  "demo_receipt p ty = \<lparr>ro_peerId = p, ro_type = ty, ro_at = Some 9, ro_allowedRecipients = None,
     ro_statusRecipients = None\<rparr>"



text \<open>
  A receipt from a peer outside a non-empty list of recipients is refused and changes
  nothing; an accepted one never lowers the status and never forgets an acknowledgement or a read.
\<close>

theorem receipt_monotone:
  "if allows m opts
   then real_peer m opts \<longrightarrow> rr_accepted (applyMessageReceipt now m opts) \<and>
     acked m \<subseteq> acked (rr_message (applyMessageReceipt now m opts)) \<and>
     readers m \<subseteq> readers (rr_message (applyMessageReceipt now m opts)) \<and>
     statusRank (m_status m) \<le> statusRank (m_status (rr_message (applyMessageReceipt now m opts)))
   else \<not> rr_accepted (applyMessageReceipt now m opts) \<and> rr_message (applyMessageReceipt now m opts) = m"
  using receipt_accepted [of m opts now] receipt_refused [of m opts now]
  by (auto simp: allows_def higher_def)

lemma receipt_monotone_witness:
  "rr_accepted (applyMessageReceipt 5 (demo_sent [''a'']) (demo_receipt ''a'' AckReceipt)) \<and>
   \<not> rr_accepted (applyMessageReceipt 5 (demo_sent [''a'']) (demo_receipt ''z'' AckReceipt))"
  using receipt_monotone [of "demo_sent [''a'']" "demo_receipt ''a'' AckReceipt" 5]
    receipt_monotone [of "demo_sent [''a'']" "demo_receipt ''z'' AckReceipt" 5]
  by (simp add: allows_def real_peer_def demo_receipt_def demo_sent_def allowed_of_def or_else_def
      set_normalizeRecipients)

text \<open>
  A receipt delivered twice counts once: applying the same receipt again, at any later
  time, reports no change and leaves the message exactly as it is.
\<close>

theorem receipt_idempotent:
  assumes "allows m opts" "real_peer m opts" "ro_at opts = Some t" "t \<noteq> 0"
  shows "let m' = rr_message (applyMessageReceipt now m opts) in
    rr_message (applyMessageReceipt later m' opts) = m' \<and> \<not> rr_changed (applyMessageReceipt later m' opts)"
proof -
  let ?p = "ro_peerId opts" and ?s = "m_senderId m"
  have go: "\<not> (normalizeRecipients (or_else (ro_allowedRecipients opts) (m_recipientPeerIds m)) ?s \<noteq> [] \<and>
    ?p \<notin> set (normalizeRecipients (or_else (ro_allowedRecipients opts) (m_recipientPeerIds m)) ?s))"
    using assms(1) by (auto simp: allows_def allowed_of_def)
  have p: "?p \<noteq> []" "?p \<noteq> ?s" using assms(2) by (auto simp: real_peer_def)
  have n1: "normalizeRecipients (Some (js_add ?p (normalizeRecipients rs ?s))) ?s =
      js_add ?p (normalizeRecipients rs ?s)" for rs
  proof -
    have d: "distinct (js_add ?p (normalizeRecipients rs ?s))"
      by (auto simp: normalizeRecipients_def split: option.splits)
    have "filter (\<lambda>i. i \<noteq> [] \<and> i \<noteq> ?s) (js_add ?p (normalizeRecipients rs ?s)) = js_add ?p (normalizeRecipients rs ?s)"
      using p by (intro filter_True) (auto simp: set_normalizeRecipients split: option.splits)
    with d show ?thesis by (simp add: normalizeRecipients_def js_uniq_distinct)
  qed
  have add2: "js_add ?p (js_add ?p xs) = js_add ?p xs" for xs by (simp add: js_add_def)
  have f2: "set_if_falsy ?p t (set_if_falsy ?p t a) = set_if_falsy ?p t a" for a
    using assms(4) by (auto simp: set_if_falsy_def jm_get_or_def js_map)
  have h2: "(if statusRank (if statusRank x > statusRank c then x else c) > statusRank c
      then (if statusRank x > statusRank c then x else c) else c) = (if statusRank x > statusRank c then x else c)" for x c
    by simp
  show ?thesis
    by (simp only: applyMessageReceipt_def Let_def if_not_P [OF go] message.simps receipt_result.simps)
      (use go in \<open>simp add: n1 add2 f2 h2 assms(3)\<close>)
qed

lemma receipt_idempotent_witness:
  "\<not> rr_changed (applyMessageReceipt 7 (rr_message (applyMessageReceipt 5 (demo_sent [''a''])
     (demo_receipt ''a'' ReadReceipt))) (demo_receipt ''a'' ReadReceipt))"
  using receipt_idempotent [of "demo_sent [''a'']" "demo_receipt ''a'' ReadReceipt" 9 5 7]
  by (simp add: allows_def real_peer_def demo_receipt_def demo_sent_def allowed_of_def or_else_def
      set_normalizeRecipients Let_def)

end
