(* ===== verification/WorkspaceTypes.thy ===== *)
theory WorkspaceTypes
  imports Prelude
begin

section \<open>Workspace, channel and member records\<close>

text \<open>
  Models \<open>decent-protocol/src/workspace/types.ts\<close> and \<open>DirectoryTypes.ts\<close>. An optional
  field is an \<open>option\<close>. The fields \<open>companySim\<close> and \<open>presenceAggregate\<close>, which the
  modelled operations only copy, are left out. A role outside the
  three of the type, which data of older versions may carry, is \<open>OtherRole\<close>.
\<close>

datatype role = Owner | Admin | Member | OtherRole string

fun role_string :: "role \<Rightarrow> string" where
  "role_string Owner = ''owner''"
| "role_string Admin = ''admin''"
| "role_string Member = ''member''"
| "role_string (OtherRole r) = r"

datatype audience = Everyone | AdminsOnly

record permissions =
  whoCanCreateChannels :: audience
  whoCanInviteMembers :: audience
  revokedInviteIds :: "string list option"

definition DEFAULT_WORKSPACE_PERMISSIONS :: permissions where
  "DEFAULT_WORKSPACE_PERMISSIONS =
     \<lparr>whoCanCreateChannels = Everyone, whoCanInviteMembers = Everyone, revokedInviteIds = Some []\<rparr>"

record ban =
  b_peerId :: string
  b_bannedBy :: string
  b_bannedAt :: time
  b_expiresAt :: "time option"
  b_reason :: "string option"

record device_info =
  di_deviceId :: string
  di_peerId :: string
  di_deviceLabel :: string
  di_lastSeen :: time

record member =
  wm_peerId :: string
  wm_alias :: string
  wm_publicKey :: string
  wm_signingPublicKey :: "string option"
  wm_identityId :: "string option"
  wm_devices :: "device_info list option"
  wm_joinedAt :: time
  wm_role :: role
  wm_isBot :: "bool option"
  wm_allowWorkspaceDMs :: "bool option"
  wm_addedBy :: "string option"

datatype policy_mode = DmPolicy | PublicWorkspace | GroupPolicy | RoleGated | Explicit

record access_policy =
  ap_mode :: policy_mode
  ap_groupIds :: "string list option"
  ap_roles :: "role list option"
  ap_explicitMemberPeerIds :: "string list option"

datatype tier = Recent | Archive

datatype selection_policy =
  RecentPrimary | ArchivePrimary | FallbackToRecent | FallbackToArchive | NoReplicas

record page_ref =
  pr_workspaceId :: string
  pr_channelId :: string
  pr_pageId :: string
  pr_tier :: "tier option"
  pr_startCursor :: "string option"
  pr_endCursor :: "string option"
  pr_replicaPeerIds :: "string list option"
  pr_recentReplicaPeerIds :: "string list option"
  pr_archiveReplicaPeerIds :: "string list option"
  pr_selectedReplicaPeerIds :: "string list option"
  pr_selectionPolicy :: "selection_policy option"

record replica_hint =
  rh_workspaceId :: string
  rh_channelId :: string
  rh_recentReplicaPeerIds :: "string list"
  rh_archiveReplicaPeerIds :: "string list option"
  rh_updatedAt :: time

datatype channel_type = RegularChannel | DirectMessage

record channel =
  ch_id :: string
  ch_workspaceId :: string
  ch_name :: string
  ch_type :: channel_type
  ch_members :: "string list"
  ch_accessPolicy :: "access_policy option"
  ch_historyPages :: "page_ref list option"
  ch_historyReplicaHint :: "replica_hint option"
  ch_createdBy :: string
  ch_createdAt :: time

record shell =
  sh_id :: string
  sh_name :: string
  sh_description :: "string option"
  sh_createdBy :: string
  sh_createdAt :: time
  sh_version :: int
  sh_memberCount :: nat
  sh_channelCount :: nat
  sh_capabilityFlags :: "string list option"

record shard_ref =
  sr_workspaceId :: string
  sr_shardId :: string
  sr_shardPrefix :: string
  sr_replicaPeerIds :: "string list"
  sr_version :: "int option"

text \<open>\<open>pc_relay = Some cs\<close> is a relay object with \<open>channels\<close> \<open>cs\<close>, \<open>pc_archive = Some d\<close> an
  archive object with \<open>retentionDays\<close> \<open>d\<close>.\<close>

record capabilities =
  pc_shardPrefixes :: "string list option"
  pc_relay :: "string list option option"
  pc_archive :: "int option option"
  pc_presenceAggregator :: "bool option"

record workspace =
  ws_id :: string
  ws_name :: string
  ws_inviteCode :: string
  ws_version :: "int option"
  ws_createdBy :: string
  ws_createdAt :: time
  ws_members :: "member list"
  ws_channels :: "channel list"
  ws_permissions :: "permissions option"
  ws_description :: "string option"
  ws_shell :: "shell option"
  ws_directoryShards :: "shard_ref list option"
  ws_peerCapabilities :: "(string, capabilities) jsmap option"
  ws_bans :: "ban list option"

text \<open>\<open>x ?? d\<close> and \<open>x ?? y\<close>.\<close>

definition get_or :: "'a \<Rightarrow> 'a option \<Rightarrow> 'a" where
  "get_or d x = (case x of None \<Rightarrow> d | Some y \<Rightarrow> y)"

lemma get_or_simps [simp]: "get_or d None = d" "get_or d (Some y) = y"
  by (simp_all add: get_or_def)

text \<open>Replacing the first element that satisfies \<open>P\<close>, which the code does through the object
  \<open>find\<close> returns or the index \<open>findIndex\<close> returns.\<close>

fun update_first :: "('a \<Rightarrow> bool) \<Rightarrow> ('a \<Rightarrow> 'a) \<Rightarrow> 'a list \<Rightarrow> 'a list" where
  "update_first P f [] = []"
| "update_first P f (x # xs) = (if P x then f x # xs else x # update_first P f xs)"

lemma update_first_none: "\<forall>x \<in> set xs. \<not> P x \<Longrightarrow> update_first P f xs = xs"
  by (induction xs) auto

lemma map_update_first: "(\<And>x. P x \<Longrightarrow> g (f x) = g x) \<Longrightarrow> map g (update_first P f xs) = map g xs"
  by (induction xs) auto

lemma find_update_first:
  "(\<And>x. P x \<Longrightarrow> P (f x)) \<Longrightarrow> find P (update_first P f xs) = map_option f (find P xs)"
  by (induction xs) auto

lemma find_update_first_other:
  "(\<And>x. P x \<Longrightarrow> \<not> Q x) \<Longrightarrow> (\<And>x. P x \<Longrightarrow> \<not> Q (f x)) \<Longrightarrow> find Q (update_first P f xs) = find Q xs"
  by (induction xs) auto

lemma in_update_first: "y \<in> set (update_first P f xs) \<Longrightarrow> y \<in> set xs \<or> (\<exists>x \<in> set xs. P x \<and> y = f x)"
  by (induction xs) (auto split: if_splits)

lemma find_append: "find P (xs @ ys) = (case find P xs of None \<Rightarrow> find P ys | Some x \<Rightarrow> Some x)"
  by (induction xs) auto

lemma find_filter_keep: "(\<And>x. P x \<Longrightarrow> Q x) \<Longrightarrow> find P (filter Q xs) = find P xs"
  by (induction xs) auto

lemma find_None_all: "find P xs = None \<longleftrightarrow> (\<forall>x \<in> set xs. \<not> P x)"
  by (auto simp: find_None_iff)

lemma find_Some_in: "find P xs = Some x \<Longrightarrow> x \<in> set xs \<and> P x"
  by (auto simp: find_Some_iff dest: nth_mem)

end
