(* ===== verification/JsText.thy ===== *)
theory JsText
  imports Prelude
begin

section \<open>String methods of JavaScript\<close>

text \<open>
  The methods of \<open>String\<close> the components share: \<open>trim\<close>, \<open>toLowerCase\<close>, \<open>split\<close> on white space
  or on a character, \<open>join\<close>, \<open>startsWith\<close>. A string is a list of code units below 256; white space
  and case are those of this range.
\<close>

definition js_space :: "char \<Rightarrow> bool" where
  "js_space c \<longleftrightarrow> of_char c \<in> {9, 10, 11, 12, 13, 32, 160 :: nat}"

definition js_trim :: "string \<Rightarrow> string" where
  "js_trim s = rev (dropWhile js_space (rev (dropWhile js_space s)))"

definition lower_unit :: "char \<Rightarrow> char" where
  "lower_unit c =
     (let n = of_char c :: nat
      in if 65 \<le> n \<and> n \<le> 90 \<or> 192 \<le> n \<and> n \<le> 222 \<and> n \<noteq> 215 then char_of (n + 32) else c)"

definition js_lower :: "string \<Rightarrow> string" where
  "js_lower s = map lower_unit s"

text \<open>\<open>s.split(/\s+/)\<close>; the first argument is the piece read so far, backwards.\<close>

function split_blanks_from :: "string \<Rightarrow> string \<Rightarrow> string list" where
  "split_blanks_from cur [] = [rev cur]"
| "split_blanks_from cur (c # cs) =
     (if js_space c then rev cur # split_blanks_from [] (dropWhile js_space cs) else split_blanks_from (c # cur) cs)"
  by pat_completeness auto
termination by (relation "measure (length \<circ> snd)") (auto simp: le_imp_less_Suc length_dropWhile_le)

definition split_blanks :: "string \<Rightarrow> string list" where
  "split_blanks s = split_blanks_from [] s"

text \<open>\<open>s.split(c)\<close> for one character; these three are used on strings and on lists of code units.\<close>

fun split_on :: "'a \<Rightarrow> 'a list \<Rightarrow> 'a list list" where
  "split_on c [] = [[]]"
| "split_on c (x # xs) = (if x = c then [] # split_on c xs else (x # hd (split_on c xs)) # tl (split_on c xs))"

fun join_with :: "'a list \<Rightarrow> 'a list list \<Rightarrow> 'a list" where
  "join_with sep [] = []"
| "join_with sep [w] = w"
| "join_with sep (v # w # ws) = v @ sep @ join_with sep (w # ws)"

definition starts_with :: "'a list \<Rightarrow> 'a list \<Rightarrow> bool" where
  "starts_with p s \<longleftrightarrow> take (length p) s = p"

subsection \<open>Laws\<close>

definition no_space :: "string \<Rightarrow> bool" where
  "no_space w \<longleftrightarrow> list_all (\<lambda>c. \<not> js_space c) w"

lemma starts_with_append [simp]: "starts_with p (p @ s)"
  by (simp add: starts_with_def)

lemma split_on_not_Nil [simp]: "split_on c s \<noteq> []"
  by (cases s) simp_all

lemma split_on_plain: "c \<notin> set w \<Longrightarrow> split_on c w = [w]"
  by (induction w) auto

lemma split_on_append: "c \<notin> set w \<Longrightarrow> split_on c (w @ c # s) = w # split_on c s"
  by (induction w) auto

lemma split_on_join:
  "ws \<noteq> [] \<Longrightarrow> list_all (\<lambda>w. c \<notin> set w) ws \<Longrightarrow> split_on c (join_with [c] ws) = ws"
  by (induction "[c]" ws rule: join_with.induct) (simp_all add: split_on_plain split_on_append)

lemma set_join: "set (join_with sep ws) \<subseteq> set sep \<union> \<Union> (set ` set ws)"
  by (induction sep ws rule: join_with.induct) auto

lemma split_blanks_word: "no_space w \<Longrightarrow> split_blanks_from cur w = [rev cur @ w]"
  by (induction w arbitrary: cur) (simp_all add: no_space_def)

lemma split_blanks_more:
  "no_space w \<Longrightarrow> split_blanks_from cur (w @ CHR '' '' # s) = (rev cur @ w) # split_blanks_from [] (dropWhile js_space s)"
  by (induction w arbitrary: cur) (simp_all add: no_space_def js_space_def)

lemma dropWhile_word: "w \<noteq> [] \<Longrightarrow> no_space w \<Longrightarrow> dropWhile js_space (w @ s) = w @ s"
  by (cases w) (simp_all add: no_space_def)

text \<open>Words joined by one space are read back, and have no blanks around them.\<close>

lemma join_first:
  "ws \<noteq> [] \<Longrightarrow> list_all (\<lambda>w. w \<noteq> [] \<and> no_space w) ws \<Longrightarrow> dropWhile js_space (join_with '' '' ws) = join_with '' '' ws"
proof (induction "'' ''" ws rule: join_with.induct)
  case (2 w)
  then show ?case using dropWhile_word [of w "[]"] by simp
next
  case (3 v w ws)
  then show ?case using dropWhile_word [of v "'' '' @ join_with '' '' (w # ws)"] by simp
qed simp

lemma split_join_blanks:
  "ws \<noteq> [] \<Longrightarrow> list_all (\<lambda>w. w \<noteq> [] \<and> no_space w) ws \<Longrightarrow> split_blanks (join_with '' '' ws) = ws"
proof (induction "'' ''" ws rule: join_with.induct)
  case (3 v w ws)
  then show ?case using join_first [of "w # ws"] by (simp add: split_blanks_def split_blanks_more)
qed (simp_all add: split_blanks_def split_blanks_word)

lemma join_last:
  "ws \<noteq> [] \<Longrightarrow> list_all (\<lambda>w. w \<noteq> [] \<and> no_space w) ws \<Longrightarrow> \<exists>u c. join_with '' '' ws = u @ [c] \<and> \<not> js_space c"
proof (induction "'' ''" ws rule: join_with.induct)
  case (2 w)
  then show ?case by (cases w rule: rev_cases) (auto simp: no_space_def)
next
  case (3 v w ws)
  then obtain u c where "join_with '' '' (w # ws) = u @ [c]" "\<not> js_space c" by auto
  then show ?case by (intro exI [of _ "v @ '' '' @ u"]) simp
qed simp

lemma trim_join:
  "ws \<noteq> [] \<Longrightarrow> list_all (\<lambda>w. w \<noteq> [] \<and> no_space w) ws \<Longrightarrow> js_trim (join_with '' '' ws) = join_with '' '' ws"
  using join_last [of ws] join_first [of ws] by (auto simp: js_trim_def)

lemma lower_join: "js_lower (join_with sep ws) = join_with (js_lower sep) (map js_lower ws)"
  by (induction sep ws rule: join_with.induct) (simp_all add: js_lower_def)

end
