(* ===== verification/Workspace.thy ===== *)
theory Workspace
  imports WorkspaceTypes JsText
begin

section \<open>The workspace manager\<close>

text \<open>
  Models \<open>decent-protocol/src/workspace/WorkspaceManager.ts\<close>. The state is its one private map
  from workspace id to workspace; a method that changes a workspace object in place stores the
  changed record under the same key. Results \<open>{success, error}\<close> are sums. \<open>now\<close> stands for
  \<open>Date.now()\<close>, \<open>uuid\<close> for \<open>crypto.randomUUID()\<close>, and \<open>draw i\<close> for the \<open>i\<close>-th index
  drawn from \<open>Math.random()\<close>.
\<close>

type_synonym manager = "(string, workspace) jsmap"

definition update_ws :: "string \<Rightarrow> (workspace \<Rightarrow> workspace) \<Rightarrow> manager \<Rightarrow> manager" where
  "update_ws wid f s = (case jm_get s wid of None \<Rightarrow> s | Some w \<Rightarrow> jm_set wid (f w) s)"

definition find_member :: "string \<Rightarrow> workspace \<Rightarrow> member option" where
  "find_member p w = find (\<lambda>m. wm_peerId m = p) (ws_members w)"

definition invite_chars :: string where
  "invite_chars = ''ABCDEFGHJKLMNPQRSTUVWXYZ23456789''"

definition generateInviteCode :: "(nat \<Rightarrow> nat) \<Rightarrow> string" where
  "generateInviteCode draw = map (\<lambda>i. invite_chars ! draw i) [0..<8]"

text \<open>\<open>a || b\<close> on optional strings: absent and empty are both false.\<close>

definition string_or :: "string option \<Rightarrow> string \<Rightarrow> string" where
  "string_or a b = (case a of None \<Rightarrow> b | Some s \<Rightarrow> if s = [] then b else s)"

definition createWorkspace ::
  "time \<Rightarrow> string \<Rightarrow> string \<Rightarrow> (nat \<Rightarrow> nat) \<Rightarrow> string \<Rightarrow> string \<Rightarrow> string \<Rightarrow> string
     \<Rightarrow> string option \<Rightarrow> string option \<Rightarrow> manager \<Rightarrow> workspace \<times> manager" where
  "createWorkspace now uuid1 uuid2 draw name me alias pk wid code s =
     (let workspaceId = string_or wid uuid1;
          general = \<lparr>ch_id = uuid2, ch_workspaceId = workspaceId, ch_name = ''general'',
            ch_type = RegularChannel, ch_members = [me],
            ch_accessPolicy = Some \<lparr>ap_mode = PublicWorkspace, ap_groupIds = None, ap_roles = None,
              ap_explicitMemberPeerIds = None\<rparr>,
            ch_historyPages = None, ch_historyReplicaHint = None, ch_createdBy = me, ch_createdAt = now\<rparr>;
          w = \<lparr>ws_id = workspaceId, ws_name = name, ws_inviteCode = string_or code (generateInviteCode draw),
            ws_version = None, ws_createdBy = me, ws_createdAt = now,
            ws_members = [\<lparr>wm_peerId = me, wm_alias = alias, wm_publicKey = pk, wm_signingPublicKey = None,
              wm_identityId = None, wm_devices = None, wm_joinedAt = now, wm_role = Owner, wm_isBot = None,
              wm_allowWorkspaceDMs = Some True, wm_addedBy = None\<rparr>],
            ws_channels = [general], ws_permissions = Some DEFAULT_WORKSPACE_PERMISSIONS,
            ws_description = None, ws_shell = None, ws_directoryShards = None, ws_peerCapabilities = None, ws_bans = Some []\<rparr>
      in (w, jm_set workspaceId w s))"

definition getWorkspace :: "string \<Rightarrow> manager \<Rightarrow> workspace option" where
  "getWorkspace wid s = jm_get s wid"

definition getAllWorkspaces :: "manager \<Rightarrow> workspace list" where
  "getAllWorkspaces s = jm_values s"

definition getMember :: "string \<Rightarrow> string \<Rightarrow> manager \<Rightarrow> member option" where
  "getMember wid p s = (case jm_get s wid of None \<Rightarrow> None | Some w \<Rightarrow> find_member p w)"

definition getMemberByIdentity :: "string \<Rightarrow> string \<Rightarrow> manager \<Rightarrow> member option" where
  "getMemberByIdentity wid i s =
     (case jm_get s wid of
        None \<Rightarrow> None
      | Some w \<Rightarrow> find (\<lambda>m. wm_identityId m = Some i) (ws_members w))"

definition isOwner :: "string \<Rightarrow> string \<Rightarrow> manager \<Rightarrow> bool" where
  "isOwner wid p s \<longleftrightarrow> (case getMember wid p s of None \<Rightarrow> False | Some m \<Rightarrow> wm_role m = Owner)"

definition isAdmin :: "string \<Rightarrow> string \<Rightarrow> manager \<Rightarrow> bool" where
  "isAdmin wid p s \<longleftrightarrow>
     (case getMember wid p s of None \<Rightarrow> False | Some m \<Rightarrow> wm_role m = Owner \<or> wm_role m = Admin)"

definition deleteWorkspace :: "string \<Rightarrow> string \<Rightarrow> manager \<Rightarrow> bool \<times> manager" where
  "deleteWorkspace wid requester s =
     (if \<not> jm_has s wid then (False, s)
      else if \<not> isOwner wid requester s then (False, s)
      else (True, jm_delete wid s))"

definition removeWorkspace :: "string \<Rightarrow> manager \<Rightarrow> manager" where
  "removeWorkspace wid s = jm_delete wid s"

subsection \<open>Permissions\<close>

definition clean_revoked :: "permissions \<Rightarrow> permissions" where
  "clean_revoked p =
     p\<lparr>revokedInviteIds := Some (case revokedInviteIds p of None \<Rightarrow> [] | Some ids \<Rightarrow> js_uniq ids)\<rparr>"

definition getPermissions :: "string \<Rightarrow> manager \<Rightarrow> permissions" where
  "getPermissions wid s =
     clean_revoked (case jm_get s wid of
        None \<Rightarrow> DEFAULT_WORKSPACE_PERMISSIONS
      | Some w \<Rightarrow> get_or DEFAULT_WORKSPACE_PERMISSIONS (ws_permissions w))"

record permission_update =
  pu_create :: "audience option"
  pu_invite :: "audience option"
  pu_revoked :: "string list option"

definition updatePermissions :: "string \<Rightarrow> string \<Rightarrow> permission_update \<Rightarrow> manager \<Rightarrow> unit result \<times> manager" where
  "updatePermissions wid actor u s =
     (case jm_get s wid of
        None \<Rightarrow> (Inl ''Workspace not found'', s)
      | Some w \<Rightarrow>
        if \<not> isAdmin wid actor s
        then (Inl ''Only admins and owners can change workspace settings'', s)
        else
          let old = get_or DEFAULT_WORKSPACE_PERMISSIONS (ws_permissions w);
              upd = old\<lparr>whoCanCreateChannels := get_or (whoCanCreateChannels old) (pu_create u),
                        whoCanInviteMembers := get_or (whoCanInviteMembers old) (pu_invite u)\<rparr>;
              upd2 = (case pu_revoked u of
                  Some ids \<Rightarrow> upd\<lparr>revokedInviteIds := Some (js_uniq (filter (\<lambda>i. i \<noteq> []) (map js_trim ids)))\<rparr>
                | None \<Rightarrow> clean_revoked upd)
          in (Inr (), jm_set wid (w\<lparr>ws_permissions := Some upd2\<rparr>) s))"

definition updateWorkspaceInfo ::
  "string \<Rightarrow> string \<Rightarrow> string option \<Rightarrow> string option \<Rightarrow> manager \<Rightarrow> unit result \<times> manager" where
  "updateWorkspaceInfo wid actor name description s =
     (case jm_get s wid of
        None \<Rightarrow> (Inl ''Workspace not found'', s)
      | Some w \<Rightarrow>
        if \<not> isAdmin wid actor s then (Inl ''Only admins and owners can change workspace info'', s)
        else (Inr (), jm_set wid
               (w\<lparr>ws_name := get_or (ws_name w) name,
                  ws_description := (case description of None \<Rightarrow> ws_description w | Some d \<Rightarrow> Some d)\<rparr>) s))"

definition canCreateChannel :: "string \<Rightarrow> string \<Rightarrow> manager \<Rightarrow> bool" where
  "canCreateChannel wid p s \<longleftrightarrow>
     (case jm_get s wid of
        None \<Rightarrow> False
      | Some w \<Rightarrow> (case find_member p w of None \<Rightarrow> False | Some m \<Rightarrow> isAdmin wid p s))"

definition canRemoveChannel :: "string \<Rightarrow> string \<Rightarrow> manager \<Rightarrow> bool" where
  "canRemoveChannel wid p s \<longleftrightarrow>
     (case jm_get s wid of
        None \<Rightarrow> False
      | Some w \<Rightarrow> (case find_member p w of None \<Rightarrow> False | Some m \<Rightarrow> isAdmin wid p s))"

definition canInviteMembers :: "string \<Rightarrow> string \<Rightarrow> manager \<Rightarrow> bool" where
  "canInviteMembers wid p s \<longleftrightarrow>
     (case jm_get s wid of
        None \<Rightarrow> False
      | Some w \<Rightarrow>
        (case find_member p w of
           None \<Rightarrow> False
         | Some m \<Rightarrow>
           if whoCanInviteMembers (get_or DEFAULT_WORKSPACE_PERMISSIONS (ws_permissions w)) = Everyone
           then True else isAdmin wid p s))"

definition isInviteRevoked :: "string \<Rightarrow> string option \<Rightarrow> manager \<Rightarrow> bool" where
  "isInviteRevoked wid inviteId s \<longleftrightarrow>
     (case inviteId of
        None \<Rightarrow> False
      | Some i \<Rightarrow> i \<noteq> [] \<and> i \<in> set (get_or [] (revokedInviteIds (getPermissions wid s))))"

definition canRemoveMember :: "string \<Rightarrow> string \<Rightarrow> string \<Rightarrow> manager \<Rightarrow> bool" where
  "canRemoveMember wid actorId targetId s \<longleftrightarrow>
     (case jm_get s wid of
        None \<Rightarrow> False
      | Some w \<Rightarrow>
        (case (find_member actorId w, find_member targetId w) of
           (Some actor, Some target) \<Rightarrow>
             if wm_role target = Owner then False
             else wm_role actor = Owner \<or> wm_role actor = Admin
         | _ \<Rightarrow> False))"

definition canPromoteMember :: "string \<Rightarrow> string \<Rightarrow> manager \<Rightarrow> bool" where
  "canPromoteMember wid actor s \<longleftrightarrow> isOwner wid actor s"

subsection \<open>Roles\<close>

definition set_role :: "string \<Rightarrow> role \<Rightarrow> workspace \<Rightarrow> workspace" where
  "set_role p r w = w\<lparr>ws_members := update_first (\<lambda>m. wm_peerId m = p) (\<lambda>m. m\<lparr>wm_role := r\<rparr>) (ws_members w)\<rparr>"

definition promoteMember :: "string \<Rightarrow> string \<Rightarrow> string \<Rightarrow> role \<Rightarrow> manager \<Rightarrow> unit result \<times> manager" where
  "promoteMember wid actorId targetId newRole s =
     (case jm_get s wid of
        None \<Rightarrow> (Inl ''Workspace not found'', s)
      | Some w \<Rightarrow>
        (case (find_member actorId w, find_member targetId w) of
           (Some actor, Some target) \<Rightarrow>
             if wm_role actor \<noteq> Owner then (Inl ''Only the owner can promote members'', s)
             else if newRole = Owner
             then (Inl ''Cannot promote to owner - use ownership transfer instead'', s)
             else if wm_role target = Owner \<or> wm_role target = Admin
             then (Inl (''Member is already '' @ role_string (wm_role target)), s)
             else (Inr (), jm_set wid (set_role targetId newRole w) s)
         | _ \<Rightarrow> (Inl ''Member not found'', s)))"

definition demoteMember :: "string \<Rightarrow> string \<Rightarrow> string \<Rightarrow> manager \<Rightarrow> unit result \<times> manager" where
  "demoteMember wid actorId targetId s =
     (case jm_get s wid of
        None \<Rightarrow> (Inl ''Workspace not found'', s)
      | Some w \<Rightarrow>
        (case (find_member actorId w, find_member targetId w) of
           (Some actor, Some target) \<Rightarrow>
             if wm_role actor \<noteq> Owner then (Inl ''Only the owner can demote members'', s)
             else if wm_role target = Owner then (Inl ''Cannot demote the owner'', s)
             else if wm_role target = Member then (Inl ''Member is already a regular member'', s)
             else (Inr (), jm_set wid (set_role targetId Member w) s)
         | _ \<Rightarrow> (Inl ''Member not found'', s)))"

subsection \<open>Members and bans\<close>

definition isPublicWorkspaceChannel :: "channel \<Rightarrow> bool" where
  "isPublicWorkspaceChannel c \<longleftrightarrow>
     ch_type c = RegularChannel \<and>
     (case ch_accessPolicy c of None \<Rightarrow> False | Some p \<Rightarrow> ap_mode p = PublicWorkspace)"

definition ban_expired :: "time \<Rightarrow> ban \<Rightarrow> bool" where
  "ban_expired now b \<longleftrightarrow> (case b_expiresAt b of None \<Rightarrow> False | Some t \<Rightarrow> t \<le> now)"

definition isBanned :: "time \<Rightarrow> string \<Rightarrow> string \<Rightarrow> manager \<Rightarrow> bool \<times> manager" where
  "isBanned now wid p s =
     (case jm_get s wid of
        None \<Rightarrow> (False, s)
      | Some w \<Rightarrow>
        let active = filter (\<lambda>b. \<not> ban_expired now b) (get_or [] (ws_bans w))
        in (list_ex (\<lambda>b. b_peerId b = p) active, jm_set wid (w\<lparr>ws_bans := Some active\<rparr>) s))"

definition join_channels :: "string \<Rightarrow> channel \<Rightarrow> channel" where
  "join_channels p c =
     (if ch_type c = RegularChannel \<and> \<not> isPublicWorkspaceChannel c \<and> p \<notin> set (ch_members c)
      then c\<lparr>ch_members := ch_members c @ [p]\<rparr> else c)"

definition leave_channels :: "string \<Rightarrow> channel \<Rightarrow> channel" where
  "leave_channels p c =
     (if isPublicWorkspaceChannel c then c
      else c\<lparr>ch_members := filter (\<lambda>i. i \<noteq> p) (ch_members c)\<rparr>)"

definition addMember :: "time \<Rightarrow> string \<Rightarrow> member \<Rightarrow> manager \<Rightarrow> unit result \<times> manager" where
  "addMember now wid m s =
     (case jm_get s wid of
        None \<Rightarrow> (Inl ''Workspace not found'', s)
      | Some w \<Rightarrow>
        if find_member (wm_peerId m) w \<noteq> None then (Inl ''Member already exists'', s)
        else
          let (banned, s1) = isBanned now wid (wm_peerId m) s in
          if banned then (Inl ''Peer is banned from this workspace'', s1)
          else
            let normalized = m\<lparr>wm_allowWorkspaceDMs := Some (wm_allowWorkspaceDMs m \<noteq> Some False)\<rparr>
            in (Inr (), update_ws wid
                 (\<lambda>w. w\<lparr>ws_members := ws_members w @ [normalized],
                        ws_channels := map (join_channels (wm_peerId m)) (ws_channels w)\<rparr>) s1))"

definition drop_member :: "string \<Rightarrow> workspace \<Rightarrow> workspace" where
  "drop_member p w = w\<lparr>ws_members := filter (\<lambda>m. wm_peerId m \<noteq> p) (ws_members w),
     ws_channels := map (leave_channels p) (ws_channels w)\<rparr>"

definition removeMember :: "string \<Rightarrow> string \<Rightarrow> string \<Rightarrow> manager \<Rightarrow> unit result \<times> manager" where
  "removeMember wid p requester s =
     (case jm_get s wid of
        None \<Rightarrow> (Inl ''Workspace not found'', s)
      | Some w \<Rightarrow>
        if \<not> canRemoveMember wid requester p s
        then (Inl (case find_member p w of
                 Some t \<Rightarrow> if wm_role t = Owner then ''Cannot remove owner''
                           else ''Only owner or admin can remove members''
               | None \<Rightarrow> ''Only owner or admin can remove members''), s)
        else (Inr (), jm_set wid (drop_member p w) s))"

definition new_ban :: "time \<Rightarrow> string \<Rightarrow> string \<Rightarrow> time option \<Rightarrow> string option \<Rightarrow> ban" where
  "new_ban now p requester durationMs reason =
     \<lparr>b_peerId = p, b_bannedBy = requester, b_bannedAt = now,
      b_expiresAt = (case durationMs of None \<Rightarrow> None | Some d \<Rightarrow> if 0 < d then Some (now + d) else None),
      b_reason = (case reason of None \<Rightarrow> None | Some r \<Rightarrow> if r = [] then None else Some r)\<rparr>"

definition record_ban :: "ban \<Rightarrow> workspace \<Rightarrow> workspace" where
  "record_ban b w =
     w\<lparr>ws_bans := Some (filter (\<lambda>c. b_peerId c \<noteq> b_peerId b) (get_or [] (ws_bans w)) @ [b])\<rparr>"

definition banMember ::
  "time \<Rightarrow> string \<Rightarrow> string \<Rightarrow> string \<Rightarrow> time option \<Rightarrow> string option \<Rightarrow> manager \<Rightarrow> ban result \<times> manager" where
  "banMember now wid p requester durationMs reason s =
     (case jm_get s wid of
        None \<Rightarrow> (Inl ''Workspace not found'', s)
      | Some w \<Rightarrow>
        if \<not> canRemoveMember wid requester p s
        then (Inl (case find_member p w of
                 Some t \<Rightarrow> if wm_role t = Owner then ''Cannot ban owner''
                           else ''Only owner or admin can ban members''
               | None \<Rightarrow> ''Only owner or admin can ban members''), s)
        else
          let b = new_ban now p requester durationMs reason
          in (Inr b, jm_set wid (drop_member p (record_ban b w)) s))"

definition unbanMember :: "string \<Rightarrow> string \<Rightarrow> string \<Rightarrow> manager \<Rightarrow> unit result \<times> manager" where
  "unbanMember wid p requester s =
     (case jm_get s wid of
        None \<Rightarrow> (Inl ''Workspace not found'', s)
      | Some w \<Rightarrow>
        if \<not> isAdmin wid requester s then (Inl ''Only owner or admin can unban members'', s)
        else (Inr (), jm_set wid
               (w\<lparr>ws_bans := Some (filter (\<lambda>b. b_peerId b \<noteq> p) (get_or [] (ws_bans w)))\<rparr>) s))"

subsection \<open>Channels\<close>

definition createChannel ::
  "time \<Rightarrow> string \<Rightarrow> string \<Rightarrow> string \<Rightarrow> string \<Rightarrow> channel_type \<Rightarrow> string list option
     \<Rightarrow> manager \<Rightarrow> channel result \<times> manager" where
  "createChannel now uuid wid name createdBy ty members s =
     (case jm_get s wid of
        None \<Rightarrow> (Inl ''Workspace not found'', s)
      | Some w \<Rightarrow>
        if find_member createdBy w = None then (Inl ''Not a workspace member'', s)
        else if ty = RegularChannel \<and> \<not> canCreateChannel wid createdBy s
        then (Inl ''Only admins can create channels'', s)
        else if ty = RegularChannel \<and>
          list_ex (\<lambda>c. ch_name c = name \<and> ch_type c = RegularChannel) (ws_channels w)
        then (Inl (''Channel #'' @ name @ '' already exists''), s)
        else
          let policy = (\<lambda>m e. \<lparr>ap_mode = m, ap_groupIds = None, ap_roles = None, ap_explicitMemberPeerIds = e\<rparr>);
              accessPolicy = (case ty of
                  DirectMessage \<Rightarrow> policy DmPolicy (Some (get_or [createdBy] members))
                | RegularChannel \<Rightarrow>
                  (case members of
                     Some ms \<Rightarrow> policy Explicit (Some ms)
                   | None \<Rightarrow> policy PublicWorkspace None));
              c = \<lparr>ch_id = uuid, ch_workspaceId = wid, ch_name = name, ch_type = ty,
                ch_members = get_or (map wm_peerId (ws_members w)) members,
                ch_accessPolicy = Some accessPolicy, ch_historyPages = None,
                ch_historyReplicaHint = None, ch_createdBy = createdBy, ch_createdAt = now\<rparr>
          in (Inr c, jm_set wid (w\<lparr>ws_channels := ws_channels w @ [c]\<rparr>) s))"

definition getChannel :: "string \<Rightarrow> string \<Rightarrow> manager \<Rightarrow> channel option" where
  "getChannel wid cid s =
     (case jm_get s wid of None \<Rightarrow> None | Some w \<Rightarrow> find (\<lambda>c. ch_id c = cid) (ws_channels w))"

definition getChannels :: "string \<Rightarrow> manager \<Rightarrow> channel list" where
  "getChannels wid s =
     (case jm_get s wid of None \<Rightarrow> [] | Some w \<Rightarrow> filter (\<lambda>c. ch_type c = RegularChannel) (ws_channels w))"

definition removeChannel :: "string \<Rightarrow> string \<Rightarrow> string \<Rightarrow> manager \<Rightarrow> unit result \<times> manager" where
  "removeChannel wid cid removedBy s =
     (case jm_get s wid of
        None \<Rightarrow> (Inl ''Workspace not found'', s)
      | Some w \<Rightarrow>
        if \<not> canRemoveChannel wid removedBy s then (Inl ''Only admins can remove channels'', s)
        else
          (case find (\<lambda>c. ch_id c = cid) (ws_channels w) of
             None \<Rightarrow> (Inl ''Channel not found'', s)
           | Some c \<Rightarrow>
             if ch_type c \<noteq> RegularChannel then (Inl ''Only regular channels can be removed'', s)
             else if ch_name c = ''general'' then (Inl ''Cannot remove #general channel'', s)
             else (Inr (), jm_set wid (w\<lparr>ws_channels := filter (\<lambda>c. ch_id c \<noteq> cid) (ws_channels w)\<rparr>) s)))"

definition createDM ::
  "time \<Rightarrow> string \<Rightarrow> string \<Rightarrow> string \<Rightarrow> string \<Rightarrow> manager \<Rightarrow> channel result \<times> manager" where
  "createDM now uuid wid p1 p2 s =
     (case jm_get s wid of
        None \<Rightarrow> (Inl ''Workspace not found'', s)
      | Some w \<Rightarrow>
        (case find (\<lambda>c. ch_type c = DirectMessage \<and> length (ch_members c) = 2 \<and>
              p1 \<in> set (ch_members c) \<and> p2 \<in> set (ch_members c)) (ws_channels w) of
           Some c \<Rightarrow> (Inr c, s)
         | None \<Rightarrow>
           (case (find_member p1 w, find_member p2 w) of
              (Some m1, Some m2) \<Rightarrow>
                createChannel now uuid wid (wm_alias m1 @ '', '' @ wm_alias m2) p1 DirectMessage (Some [p1, p2]) s
            | _ \<Rightarrow> (Inl ''Members not found in workspace'', s))))"

definition getDMs :: "string \<Rightarrow> string \<Rightarrow> manager \<Rightarrow> channel list" where
  "getDMs wid p s =
     (case jm_get s wid of
        None \<Rightarrow> []
      | Some w \<Rightarrow> filter (\<lambda>c. ch_type c = DirectMessage \<and> p \<in> set (ch_members c)) (ws_channels w))"

definition isMemberAllowedInChannel :: "string \<Rightarrow> string \<Rightarrow> string \<Rightarrow> manager \<Rightarrow> bool" where
  "isMemberAllowedInChannel wid cid p s \<longleftrightarrow>
     (case jm_get s wid of
        None \<Rightarrow> False
      | Some w \<Rightarrow>
        (case find_member p w of
           None \<Rightarrow> False
         | Some m \<Rightarrow>
           (case find (\<lambda>c. ch_id c = cid) (ws_channels w) of
              None \<Rightarrow> False
            | Some c \<Rightarrow>
              if ch_type c = DirectMessage then p \<in> set (ch_members c)
              else
                (case ch_accessPolicy c of
                   None \<Rightarrow> p \<in> set (ch_members c)
                 | Some ap \<Rightarrow>
                   (case ap_mode ap of
                      PublicWorkspace \<Rightarrow> True
                    | RoleGated \<Rightarrow> (case ap_roles ap of None \<Rightarrow> False | Some rs \<Rightarrow> wm_role m \<in> set rs)
                    | Explicit \<Rightarrow> (case ap_explicitMemberPeerIds ap of
                        None \<Rightarrow> p \<in> set (ch_members c) | Some ps \<Rightarrow> p \<in> set ps)
                    | GroupPolicy \<Rightarrow> (case ap_explicitMemberPeerIds ap of
                        None \<Rightarrow> p \<in> set (ch_members c) | Some ps \<Rightarrow> p \<in> set ps)
                    | DmPolicy \<Rightarrow> p \<in> set (ch_members c))))))"

subsection \<open>Invite and sync\<close>

definition validateInviteCode :: "string \<Rightarrow> manager \<Rightarrow> workspace option" where
  "validateInviteCode code s = find (\<lambda>w. ws_inviteCode w = code) (jm_values s)"

definition normalize_member :: "member \<Rightarrow> member" where
  "normalize_member m =
     (let m1 = (if wm_role m \<noteq> Owner \<and> wm_role m \<noteq> Admin \<and> wm_role m \<noteq> Member then m\<lparr>wm_role := Member\<rparr> else m)
      in if wm_allowWorkspaceDMs m1 = None then m1\<lparr>wm_allowWorkspaceDMs := Some True\<rparr> else m1)"

definition normalize_workspace :: "workspace \<Rightarrow> workspace" where
  "normalize_workspace w =
     w\<lparr>ws_permissions := Some (case ws_permissions w of
          None \<Rightarrow> DEFAULT_WORKSPACE_PERMISSIONS
        | Some p \<Rightarrow> clean_revoked p),
       ws_members := map normalize_member (ws_members w),
       ws_bans := Some (get_or [] (ws_bans w))\<rparr>"

definition importWorkspace :: "workspace \<Rightarrow> manager \<Rightarrow> manager" where
  "importWorkspace w s = jm_set (ws_id w) (normalize_workspace w) s"

definition exportWorkspace :: "string \<Rightarrow> manager \<Rightarrow> workspace option" where
  "exportWorkspace wid s = jm_get s wid"

subsection \<open>Runs of operations\<close>

datatype ws_op =
    CreateWs time string string "nat \<Rightarrow> nat" string string string string "string option" "string option"
  | DeleteWs string string
  | RemoveWs string
  | UpdatePerms string string permission_update
  | UpdateInfo string string "string option" "string option"
  | Promote string string string role
  | Demote string string string
  | AddMem time string member
  | RemoveMem string string string
  | Ban time string string string "time option" "string option"
  | Unban string string string
  | CheckBan time string string
  | CreateCh time string string string string channel_type "string list option"
  | RemoveCh string string string
  | CreateDm time string string string string
  | ImportWs workspace

fun ws_step :: "ws_op \<Rightarrow> manager \<Rightarrow> manager" where
  "ws_step (CreateWs now u1 u2 draw name me alias pk wid code) s =
     snd (createWorkspace now u1 u2 draw name me alias pk wid code s)"
| "ws_step (DeleteWs wid r) s = snd (deleteWorkspace wid r s)"
| "ws_step (RemoveWs wid) s = removeWorkspace wid s"
| "ws_step (UpdatePerms wid a u) s = snd (updatePermissions wid a u s)"
| "ws_step (UpdateInfo wid a n d) s = snd (updateWorkspaceInfo wid a n d s)"
| "ws_step (Promote wid a p r) s = snd (promoteMember wid a p r s)"
| "ws_step (Demote wid a p) s = snd (demoteMember wid a p s)"
| "ws_step (AddMem now wid m) s = snd (addMember now wid m s)"
| "ws_step (RemoveMem wid p r) s = snd (removeMember wid p r s)"
| "ws_step (Ban now wid p r d reason) s = snd (banMember now wid p r d reason s)"
| "ws_step (Unban wid p r) s = snd (unbanMember wid p r s)"
| "ws_step (CheckBan now wid p) s = snd (isBanned now wid p s)"
| "ws_step (CreateCh now u wid name by ty ms) s = snd (createChannel now u wid name by ty ms s)"
| "ws_step (RemoveCh wid cid by) s = snd (removeChannel wid cid by s)"
| "ws_step (CreateDm now u wid p1 p2) s = snd (createDM now u wid p1 p2 s)"
| "ws_step (ImportWs w) s = importWorkspace w s"

definition regular_names :: "workspace \<Rightarrow> string list" where
  "regular_names w = map ch_name (filter (\<lambda>c. ch_type c = RegularChannel) (ws_channels w))"

definition ws_ok :: "string \<Rightarrow> workspace \<Rightarrow> bool" where
  "ws_ok wid w \<longleftrightarrow> ws_id w = wid \<and> distinct (map wm_peerId (ws_members w)) \<and>
     (\<forall>b \<in> set (get_or [] (ws_bans w)). b_peerId b \<notin> wm_peerId ` set (ws_members w)) \<and>
     distinct (map ch_id (ws_channels w)) \<and> distinct (regular_names w) \<and>
     ''general'' \<in> set (regular_names w)"

definition mgr_inv :: "manager \<Rightarrow> bool" where
  "mgr_inv s \<longleftrightarrow> wf_map s \<and> jm.every ws_ok s"

definition fresh_channel :: "string \<Rightarrow> string \<Rightarrow> manager \<Rightarrow> bool" where
  "fresh_channel u wid s \<longleftrightarrow>
     (case jm_get s wid of None \<Rightarrow> True | Some w \<Rightarrow> u \<notin> ch_id ` set (ws_channels w))"

fun ws_op_ok :: "ws_op \<Rightarrow> manager \<Rightarrow> bool" where
  "ws_op_ok (CreateCh now u wid name by ty ms) s \<longleftrightarrow> fresh_channel u wid s"
| "ws_op_ok (CreateDm now u wid p1 p2) s \<longleftrightarrow> fresh_channel u wid s"
| "ws_op_ok (ImportWs w) s \<longleftrightarrow> ws_ok (ws_id w) w"
| "ws_op_ok _ s \<longleftrightarrow> True"

lemma mgr_inv_set: "mgr_inv s \<Longrightarrow> ws_ok wid w \<Longrightarrow> mgr_inv (jm_set wid w s)"
  by (simp add: mgr_inv_def jm_every)

lemma mgr_inv_del: "mgr_inv s \<Longrightarrow> mgr_inv (jm_delete wid s)"
  by (simp add: mgr_inv_def jm_every)

lemma mgr_inv_get: "mgr_inv s \<Longrightarrow> jm_get s wid = Some w \<Longrightarrow> ws_ok wid w"
  by (auto simp: mgr_inv_def dest: jm.every_get)

lemma channels_kept:
  assumes "\<And>c. ch_id (f c) = ch_id c" "\<And>c. ch_name (f c) = ch_name c" "\<And>c. ch_type (f c) = ch_type c"
  shows "map ch_id (map f cs) = map ch_id cs"
    "map ch_name (filter (\<lambda>c. ch_type c = RegularChannel) (map f cs)) =
     map ch_name (filter (\<lambda>c. ch_type c = RegularChannel) cs)"
  using assms by (simp_all add: filter_map comp_def)

lemma join_channels_kept [simp]:
  "ch_id (join_channels p c) = ch_id c" "ch_name (join_channels p c) = ch_name c" "ch_type (join_channels p c) = ch_type c"
  by (simp_all add: join_channels_def)

lemma leave_channels_kept [simp]:
  "ch_id (leave_channels p c) = ch_id c" "ch_name (leave_channels p c) = ch_name c" "ch_type (leave_channels p c) = ch_type c"
  by (simp_all add: leave_channels_def)

lemma ws_ok_drop:
  assumes "ws_ok wid w" shows "ws_ok wid (drop_member p w)"
  using assms by (auto simp: ws_ok_def drop_member_def regular_names_def filter_map comp_def distinct_map
      intro: inj_on_subset)

lemma find_member_None: "find_member p w = None \<longleftrightarrow> p \<notin> wm_peerId ` set (ws_members w)"
  by (auto simp: find_member_def find_None_all)

lemma ws_ok_add:
  assumes "ws_ok wid w" "find_member (wm_peerId m) w = None"
    and "\<forall>b \<in> set (get_or [] (ws_bans w)). b_peerId b \<noteq> wm_peerId m"
  shows "ws_ok wid (w\<lparr>ws_members := ws_members w @ [m],
    ws_channels := map (join_channels (wm_peerId m)) (ws_channels w)\<rparr>)"
  using assms by (auto simp: ws_ok_def regular_names_def filter_map comp_def find_member_None)

lemma ws_ok_set_role: "ws_ok wid w \<Longrightarrow> ws_ok wid (set_role p r w)"
  unfolding ws_ok_def set_role_def regular_names_def
  by (simp add: map_update_first flip: set_map)

lemma ws_ok_bans:
  "ws_ok wid w \<Longrightarrow> set bs \<subseteq> set (get_or [] (ws_bans w)) \<Longrightarrow> ws_ok wid (w\<lparr>ws_bans := Some bs\<rparr>)"
  by (auto simp: ws_ok_def regular_names_def)

lemma ws_ok_ban: "ws_ok wid w \<Longrightarrow> ws_ok wid (drop_member (b_peerId b) (record_ban b w))"
  by (auto simp: ws_ok_def drop_member_def record_ban_def regular_names_def filter_map comp_def distinct_map
      intro: inj_on_subset)

lemma ws_ok_create_channel:
  "ws_ok wid w \<Longrightarrow> ch_id c \<notin> ch_id ` set (ws_channels w) \<Longrightarrow>
   (ch_type c = RegularChannel \<Longrightarrow> \<not> list_ex (\<lambda>d. ch_name d = ch_name c \<and> ch_type d = RegularChannel) (ws_channels w)) \<Longrightarrow>
   ws_ok wid (w\<lparr>ws_channels := ws_channels w @ [c]\<rparr>)"
  by (auto simp: ws_ok_def regular_names_def list_ex_iff)

lemma ws_ok_remove_channel:
  assumes "ws_ok wid w" "find (\<lambda>c. ch_id c = cid) (ws_channels w) = Some c" "ch_name c \<noteq> ''general''"
  shows "ws_ok wid (w\<lparr>ws_channels := filter (\<lambda>c. ch_id c \<noteq> cid) (ws_channels w)\<rparr>)"
proof -
  have c: "c \<in> set (ws_channels w)" "ch_id c = cid" using find_Some_in [OF assms(2)] by auto
  have ids: "distinct (map ch_id (ws_channels w))" using assms(1) by (simp add: ws_ok_def)
  obtain g where g: "g \<in> set (ws_channels w)" "ch_type g = RegularChannel" "ch_name g = ''general''"
    using assms(1) by (auto simp: ws_ok_def regular_names_def)
  with c ids assms(3) have "ch_id g \<noteq> cid" by (auto simp: distinct_map dest: inj_onD)
  with g have "''general'' \<in> set (regular_names (w\<lparr>ws_channels := filter (\<lambda>c. ch_id c \<noteq> cid) (ws_channels w)\<rparr>))"
    by (force simp: regular_names_def)
  moreover have "distinct (map ch_name (filter P (filter Q cs)))" if "distinct (map ch_name (filter P cs))" for P Q cs
    using that by (induction cs) auto
  ultimately show ?thesis
    using assms(1) ids by (auto simp: ws_ok_def regular_names_def distinct_map intro: inj_on_subset)
qed

lemma ws_ok_normalize: "ws_ok wid w \<Longrightarrow> ws_ok wid (normalize_workspace w)"
proof -
  have "wm_peerId (normalize_member m) = wm_peerId m" for m
    by (simp add: normalize_member_def Let_def)
  then show "ws_ok wid w \<Longrightarrow> ws_ok wid (normalize_workspace w)"
    by (simp add: ws_ok_def normalize_workspace_def regular_names_def comp_def image_image)
qed

lemma mgr_inv_isBanned:
  assumes "mgr_inv s" shows "mgr_inv (snd (isBanned now wid p s))"
  using assms
  by (auto simp: isBanned_def Let_def intro!: mgr_inv_set ws_ok_bans dest: mgr_inv_get split: option.splits)

lemma isBanned_get:
  "jm_get s wid = Some w \<Longrightarrow> isBanned now wid p s =
     (list_ex (\<lambda>b. b_peerId b = p) (filter (\<lambda>b. \<not> ban_expired now b) (get_or [] (ws_bans w))),
      jm_set wid (w\<lparr>ws_bans := Some (filter (\<lambda>b. \<not> ban_expired now b) (get_or [] (ws_bans w)))\<rparr>) s)"
  by (simp add: isBanned_def Let_def)

text \<open>What an accepted new member leads to.\<close>

definition admit :: "time \<Rightarrow> member \<Rightarrow> workspace \<Rightarrow> workspace" where
  "admit now m w =
     w\<lparr>ws_bans := Some (filter (\<lambda>b. \<not> ban_expired now b) (get_or [] (ws_bans w))),
       ws_members := ws_members w @ [m\<lparr>wm_allowWorkspaceDMs := Some (wm_allowWorkspaceDMs m \<noteq> Some False)\<rparr>],
       ws_channels := map (join_channels (wm_peerId m)) (ws_channels w)\<rparr>"

definition banned_now :: "time \<Rightarrow> string \<Rightarrow> workspace \<Rightarrow> bool" where
  "banned_now now p w \<longleftrightarrow> (\<exists>b \<in> set (get_or [] (ws_bans w)). b_peerId b = p \<and> \<not> ban_expired now b)"

lemma jm_set_set: "jm_set k v (jm_set k w m) = jm_set k v m"
  by (induction m) (auto simp: jm_set_def)

lemma addMember_cases:
  assumes "jm_get s wid = Some w"
  shows "addMember now wid m s =
    (if find_member (wm_peerId m) w \<noteq> None then (Inl ''Member already exists'', s)
     else if banned_now now (wm_peerId m) w
     then (Inl ''Peer is banned from this workspace'', snd (isBanned now wid (wm_peerId m) s))
     else (Inr (), jm_set wid (admit now m w) s))"
  using assms
  by (simp add: addMember_def isBanned_get update_ws_def js_map admit_def jm_set_set banned_now_def
      list_ex_iff case_prod_beta) blast

lemma mgr_inv_addMember:
  assumes "mgr_inv s" shows "mgr_inv (snd (addMember now wid m s))"
proof (cases "jm_get s wid")
  case (Some w)
  have ok: "ws_ok wid w" using assms Some by (rule mgr_inv_get)
  show ?thesis
  proof (cases "find_member (wm_peerId m) w \<noteq> None \<or> banned_now now (wm_peerId m) w")
    case False
    let ?w = "w\<lparr>ws_bans := Some (filter (\<lambda>b. \<not> ban_expired now b) (get_or [] (ws_bans w)))\<rparr>"
    let ?m = "m\<lparr>wm_allowWorkspaceDMs := Some (wm_allowWorkspaceDMs m \<noteq> Some False)\<rparr>"
    have "ws_ok wid ?w" by (rule ws_ok_bans [OF ok]) auto
    then have "ws_ok wid (?w\<lparr>ws_members := ws_members ?w @ [?m],
        ws_channels := map (join_channels (wm_peerId ?m)) (ws_channels ?w)\<rparr>)"
      by (rule ws_ok_add) (use False in \<open>auto simp: find_member_None banned_now_def\<close>)
    then have "ws_ok wid (admit now m w)" by (simp add: admit_def)
    with False Some assms show ?thesis by (simp add: addMember_cases mgr_inv_set)
  qed (use assms Some in \<open>auto simp: addMember_cases mgr_inv_isBanned\<close>)
qed (use assms in \<open>simp add: addMember_def\<close>)

lemma mgr_inv_createChannel:
  assumes "mgr_inv s" "fresh_channel u wid s"
  shows "mgr_inv (snd (createChannel now u wid name p ty ms s))"
proof (cases "jm_get s wid")
  case (Some w)
  have ok: "ws_ok wid w" using assms(1) Some by (rule mgr_inv_get)
  have "u \<notin> ch_id ` set (ws_channels w)" using assms(2) Some by (simp add: fresh_channel_def)
  then show ?thesis
    using assms(1) Some by (auto simp: createChannel_def Let_def intro!: mgr_inv_set ws_ok_create_channel ok)
qed (use assms in \<open>simp add: createChannel_def\<close>)

lemma new_ban_peer [simp]: "b_peerId (new_ban now p r d reason) = p"
  by (simp add: new_ban_def)

lemma banMember_state:
  "snd (banMember now wid p r d reason s) =
     (case jm_get s wid of
        None \<Rightarrow> s
      | Some w \<Rightarrow> if canRemoveMember wid r p s
                 then jm_set wid (drop_member p (record_ban (new_ban now p r d reason) w)) s else s)"
  by (simp add: banMember_def Let_def split: option.split)

lemma mgr_inv_banMember: "mgr_inv s \<Longrightarrow> mgr_inv (snd (banMember now wid p r d reason s))"
  using ws_ok_ban [of wid _ "new_ban now p r d reason"]
  by (auto simp: banMember_state split: option.split intro!: mgr_inv_set dest: mgr_inv_get)

lemma ws_ok_create:
  "ws_ok (string_or wid u1) (fst (createWorkspace now u1 u2 draw name me alias pk wid code s))"
  by (simp add: createWorkspace_def Let_def ws_ok_def regular_names_def)

lemma createWorkspace_state:
  "snd (createWorkspace now u1 u2 draw name me alias pk wid code s) =
   jm_set (string_or wid u1) (fst (createWorkspace now u1 u2 draw name me alias pk wid code s)) s"
  by (simp add: createWorkspace_def Let_def)

lemma ws_ok_same_core:
  "ws_ok wid w \<Longrightarrow> ws_id w' = ws_id w \<Longrightarrow> ws_members w' = ws_members w \<Longrightarrow> ws_channels w' = ws_channels w \<Longrightarrow>
   ws_bans w' = ws_bans w \<Longrightarrow> ws_ok wid w'"
  by (simp add: ws_ok_def regular_names_def)

lemma ws_step_inv: "mgr_inv s \<Longrightarrow> ws_op_ok op s \<Longrightarrow> mgr_inv (ws_step op s)"
proof (cases op)
  case (CreateDm now u wid p1 p2)
  assume "mgr_inv s" "ws_op_ok op s"
  with CreateDm show ?thesis
    by (auto simp: createDM_def mgr_inv_createChannel split: option.splits)
qed (auto simp: createWorkspace_state deleteWorkspace_def removeWorkspace_def updatePermissions_def
    updateWorkspaceInfo_def promoteMember_def demoteMember_def removeMember_def mgr_inv_banMember unbanMember_def
    removeChannel_def importWorkspace_def Let_def mgr_inv_isBanned mgr_inv_addMember mgr_inv_createChannel
    split: option.splits
    intro!: mgr_inv_set mgr_inv_del ws_ok_create ws_ok_set_role ws_ok_drop ws_ok_bans
      ws_ok_normalize
    intro: ws_ok_remove_channel ws_ok_same_core dest: mgr_inv_get)

interpretation manager_run: machine ws_step ws_op_ok mgr_inv
  by unfold_locales (rule ws_step_inv)

subsection \<open>Who may change a role\<close>

definition role_of :: "string \<Rightarrow> string \<Rightarrow> manager \<Rightarrow> role option" where
  "role_of wid p s = map_option wm_role (getMember wid p s)"

text \<open>The calls that may change the role of \<open>p\<close> in workspace \<open>wid\<close>, and what they need.\<close>

fun may_change_role :: "ws_op \<Rightarrow> string \<Rightarrow> string \<Rightarrow> manager \<Rightarrow> bool" where
  "may_change_role (CreateWs now u1 u2 draw name me alias pk w code) wid p s \<longleftrightarrow> string_or w u1 = wid"
| "may_change_role (DeleteWs w r) wid p s \<longleftrightarrow> w = wid \<and> role_of wid r s = Some Owner"
| "may_change_role (RemoveWs w) wid p s \<longleftrightarrow> w = wid"
| "may_change_role (ImportWs w) wid p s \<longleftrightarrow> ws_id w = wid"
| "may_change_role (Promote w a q r) wid p s \<longleftrightarrow> w = wid \<and> q = p \<and> r \<noteq> Owner \<and>
     role_of wid a s = Some Owner \<and> role_of wid p s \<notin> {None, Some Owner, Some Admin}"
| "may_change_role (Demote w a q) wid p s \<longleftrightarrow> w = wid \<and> q = p \<and>
     role_of wid a s = Some Owner \<and> role_of wid p s \<noteq> Some Owner"
| "may_change_role (AddMem now w m) wid p s \<longleftrightarrow> w = wid \<and> wm_peerId m = p \<and> role_of wid p s = None"
| "may_change_role (RemoveMem w q r) wid p s \<longleftrightarrow> w = wid \<and> q = p \<and>
     role_of wid r s \<in> {Some Owner, Some Admin} \<and> role_of wid p s \<noteq> Some Owner"
| "may_change_role (Ban now w q r d reason) wid p s \<longleftrightarrow> w = wid \<and> q = p \<and>
     role_of wid r s \<in> {Some Owner, Some Admin} \<and> role_of wid p s \<noteq> Some Owner"
| "may_change_role _ wid p s \<longleftrightarrow> False"

lemma role_of_set [simp]:
  "role_of wid p (jm_set w ws s) = (if wid = w then map_option wm_role (find_member p ws) else role_of wid p s)"
  by (simp add: role_of_def getMember_def js_map)

lemma role_of_delete [simp]: "role_of wid p (jm_delete w s) = (if wid = w then None else role_of wid p s)"
  by (simp add: role_of_def getMember_def js_map)

lemma role_of_get: "jm_get s wid = Some w \<Longrightarrow> role_of wid p s = map_option wm_role (find_member p w)"
  by (simp add: role_of_def getMember_def)

lemma find_member_set_role:
  "map_option wm_role (find_member p (set_role q r w)) =
     (if p = q then map_option (\<lambda>_. r) (find_member p w) else map_option wm_role (find_member p w))"
proof (cases "p = q")
  case True
  have "find (\<lambda>m. wm_peerId m = q) (update_first (\<lambda>m. wm_peerId m = q) (\<lambda>m. m\<lparr>wm_role := r\<rparr>) (ws_members w)) =
      map_option (\<lambda>m. m\<lparr>wm_role := r\<rparr>) (find (\<lambda>m. wm_peerId m = q) (ws_members w))"
    by (rule find_update_first) simp
  with True show ?thesis by (simp add: find_member_def set_role_def option.map_comp comp_def)
next
  case False
  then have "find (\<lambda>m. wm_peerId m = p) (update_first (\<lambda>m. wm_peerId m = q) (\<lambda>m. m\<lparr>wm_role := r\<rparr>) (ws_members w)) =
      find (\<lambda>m. wm_peerId m = p) (ws_members w)"
    by (intro find_update_first_other) auto
  with False show ?thesis by (simp add: find_member_def set_role_def)
qed

lemma find_member_drop [simp]:
  "find_member p (drop_member q w) = (if p = q then None else find_member p w)"
  by (auto simp: find_member_def drop_member_def find_None_all intro: find_filter_keep)

lemma find_member_cong [simp]:
  "find_member p (w\<lparr>ws_bans := b\<rparr>) = find_member p w"
  "find_member p (w\<lparr>ws_channels := c\<rparr>) = find_member p w"
  "find_member p (w\<lparr>ws_permissions := q\<rparr>) = find_member p w"
  "find_member p (w\<lparr>ws_name := n\<rparr>) = find_member p w"
  "find_member p (w\<lparr>ws_name := n, ws_description := d\<rparr>) = find_member p w"
  by (simp_all add: find_member_def)

lemma find_member_record_ban [simp]: "find_member p (record_ban b w) = find_member p w"
  by (simp add: record_ban_def)

lemma find_member_admit:
  "wm_peerId m \<noteq> p \<Longrightarrow> find_member p (admit now m w) = find_member p w"
  by (simp add: find_member_def admit_def find_append split: option.split)

lemma isOwner_role: "isOwner wid p s \<longleftrightarrow> role_of wid p s = Some Owner"
  by (auto simp: isOwner_def role_of_def split: option.split)

lemma canRemoveMember_role:
  "canRemoveMember wid r p s \<Longrightarrow> role_of wid r s \<in> {Some Owner, Some Admin} \<and> role_of wid p s \<noteq> Some Owner"
  by (auto simp: canRemoveMember_def role_of_get split: option.splits if_splits)

lemma createChannel_role: "role_of wid p (snd (createChannel now u w name by ty ms s)) = role_of wid p s"
  by (auto simp: createChannel_def Let_def role_of_get split: option.splits)

lemma isBanned_role: "role_of wid p (snd (isBanned now w q s)) = role_of wid p s"
  by (auto simp: isBanned_def Let_def role_of_get split: option.splits)

lemma addMember_role:
  "role_of wid p (snd (addMember now w m s)) \<noteq> role_of wid p s \<Longrightarrow>
   w = wid \<and> wm_peerId m = p \<and> role_of wid p s = None"
proof (cases "jm_get s w")
  case (Some ws)
  assume change: "role_of wid p (snd (addMember now w m s)) \<noteq> role_of wid p s"
  then have "find_member (wm_peerId m) ws = None" "w = wid" "wm_peerId m = p"
    using Some
    by (cases "wm_peerId m = p"; auto simp: addMember_cases isBanned_role find_member_admit role_of_get split: if_splits)+
  with Some show ?thesis by (simp add: role_of_get)
qed (simp add: addMember_def)

lemma ws_step_role:
  "role_of wid p (ws_step op s) \<noteq> role_of wid p s \<Longrightarrow> may_change_role op wid p s"
proof (cases op)
  case (AddMem now w m)
  assume "role_of wid p (ws_step op s) \<noteq> role_of wid p s"
  with AddMem show ?thesis using addMember_role by simp
next
  case (CreateDm now u w p1 p2)
  assume "role_of wid p (ws_step op s) \<noteq> role_of wid p s"
  with CreateDm show ?thesis by (auto simp: createDM_def createChannel_role split: option.splits)
next
  case (Promote w a q r)
  assume "role_of wid p (ws_step op s) \<noteq> role_of wid p s"
  with Promote show ?thesis
    by (auto simp: promoteMember_def role_of_get find_member_set_role split: option.splits if_splits)
next
  case (Demote w a q)
  assume "role_of wid p (ws_step op s) \<noteq> role_of wid p s"
  with Demote show ?thesis
    by (auto simp: demoteMember_def role_of_get find_member_set_role split: option.splits if_splits)
next
  case (RemoveMem w q r)
  assume "role_of wid p (ws_step op s) \<noteq> role_of wid p s"
  with RemoveMem show ?thesis using canRemoveMember_role [of w r q s]
    by (auto simp: removeMember_def role_of_get split: option.splits if_splits)
next
  case (Ban now w q r d reason)
  assume "role_of wid p (ws_step op s) \<noteq> role_of wid p s"
  with Ban show ?thesis using canRemoveMember_role [of w r q s]
    by (auto simp: banMember_state role_of_get split: option.splits if_splits)
qed (auto simp: createWorkspace_state deleteWorkspace_def removeWorkspace_def updatePermissions_def
    updateWorkspaceInfo_def unbanMember_def removeChannel_def importWorkspace_def Let_def isBanned_role
    createChannel_role isOwner_role role_of_get split: option.splits if_splits)

subsection \<open>Bans\<close>

definition bans_of :: "workspace \<Rightarrow> ban list" where
  "bans_of w = get_or [] (ws_bans w)"

text \<open>
  \<open>shut_out wid p e s\<close>: \<open>p\<close> is not a member of \<open>wid\<close> and there is a ban that ends at \<open>e\<close>
  (\<open>None\<close> for never).
\<close>

definition shut_out :: "string \<Rightarrow> string \<Rightarrow> time option \<Rightarrow> manager \<Rightarrow> bool" where
  "shut_out wid p e s \<longleftrightarrow> (case jm_get s wid of
     None \<Rightarrow> False
   | Some w \<Rightarrow> find_member p w = None \<and> (\<exists>b \<in> set (bans_of w). b_peerId b = p \<and> b_expiresAt b = e))"

definition before :: "time \<Rightarrow> time option \<Rightarrow> bool" where
  "before now e \<longleftrightarrow> (case e of None \<Rightarrow> True | Some t \<Rightarrow> now < t)"

text \<open>The calls that leave a ban in force: everything but unbanning the peer, replacing the
  workspace, and calls made after the ban has run out.\<close>

fun keeps_ban :: "string \<Rightarrow> string \<Rightarrow> time option \<Rightarrow> ws_op \<Rightarrow> bool" where
  "keeps_ban wid p e (CreateWs now u1 u2 draw name me alias pk w code) \<longleftrightarrow> string_or w u1 \<noteq> wid"
| "keeps_ban wid p e (DeleteWs w r) \<longleftrightarrow> w \<noteq> wid"
| "keeps_ban wid p e (RemoveWs w) \<longleftrightarrow> w \<noteq> wid"
| "keeps_ban wid p e (ImportWs w) \<longleftrightarrow> ws_id w \<noteq> wid"
| "keeps_ban wid p e (Unban w q r) \<longleftrightarrow> w \<noteq> wid \<or> q \<noteq> p"
| "keeps_ban wid p e (AddMem now w m) \<longleftrightarrow> w \<noteq> wid \<or> before now e"
| "keeps_ban wid p e (CheckBan now w q) \<longleftrightarrow> w \<noteq> wid \<or> before now e"
| "keeps_ban wid p e _ \<longleftrightarrow> True"

lemma shut_out_other: "w \<noteq> wid \<Longrightarrow> shut_out wid p e (jm_set w ws s) = shut_out wid p e s"
  by (simp add: shut_out_def js_map)

lemma shut_out_set:
  "shut_out wid p e (jm_set wid w s) \<longleftrightarrow>
     find_member p w = None \<and> (\<exists>b \<in> set (bans_of w). b_peerId b = p \<and> b_expiresAt b = e)"
  by (simp add: shut_out_def js_map)

lemma shut_out_del: "w \<noteq> wid \<Longrightarrow> shut_out wid p e (jm_delete w s) = shut_out wid p e s"
  by (simp add: shut_out_def js_map)

lemma shut_out_getD:
  "shut_out wid p e s \<Longrightarrow> jm_get s wid = Some w \<Longrightarrow>
     find_member p w = None \<and> (\<exists>b \<in> set (bans_of w). b_peerId b = p \<and> b_expiresAt b = e)"
  by (simp add: shut_out_def)

text \<open>An operation on \<open>wid\<close> that keeps \<open>p\<close> out and the ban in the list keeps the property.\<close>

lemma shut_out_put:
  assumes "shut_out wid p e s" "jm_get s v = Some w"
    and "v = wid \<Longrightarrow> find_member p w = None \<Longrightarrow> find_member p w' = None"
    and "\<And>b. v = wid \<Longrightarrow> b \<in> set (bans_of w) \<Longrightarrow> b_peerId b = p \<Longrightarrow> b_expiresAt b = e \<Longrightarrow> b \<in> set (bans_of w')"
  shows "shut_out wid p e (jm_set v w' s)"
proof (cases "v = wid")
  case True
  with assms show ?thesis using shut_out_getD [OF assms(1), of w] by (auto simp: shut_out_set)
qed (use assms in \<open>simp add: shut_out_other\<close>)

lemma shut_out_refuses:
  assumes "shut_out wid p e s" "before now e" "wm_peerId m = p"
  shows "\<exists>err. fst (addMember now wid m s) = Inl err"
proof -
  obtain w b where w: "jm_get s wid = Some w" "find_member p w = None"
    "b \<in> set (bans_of w)" "b_peerId b = p" "b_expiresAt b = e"
    using assms(1) by (auto simp: shut_out_def split: option.splits)
  moreover have "\<not> ban_expired now b"
    using w(5) assms(2) by (auto simp: ban_expired_def before_def split: option.splits)
  ultimately have "banned_now now (wm_peerId m) w" using assms(3) by (auto simp: banned_now_def bans_of_def)
  with w assms(3) show ?thesis by (simp add: addMember_cases)
qed

lemma not_expired_before: "before now (b_expiresAt b) \<Longrightarrow> \<not> ban_expired now b"
  by (auto simp: ban_expired_def before_def split: option.splits)

lemma shut_out_isBanned:
  assumes "shut_out wid p e s" "w = wid \<longrightarrow> before now e"
  shows "shut_out wid p e (snd (isBanned now w q s))"
proof (cases "jm_get s w")
  case (Some ws)
  show ?thesis
    unfolding isBanned_get [OF Some] snd_conv
    by (rule shut_out_put [OF assms(1) Some])
      (use assms(2) in \<open>auto simp: bans_of_def dest: not_expired_before\<close>)
qed (use assms in \<open>simp add: isBanned_def\<close>)

lemma shut_out_addMember:
  assumes "shut_out wid p e s" "w = wid \<longrightarrow> before now e"
  shows "shut_out wid p e (snd (addMember now w m s))"
proof (cases "jm_get s w")
  case (Some ws)
  show ?thesis
  proof (cases "find_member (wm_peerId m) ws \<noteq> None \<or> banned_now now (wm_peerId m) ws")
    case False
    then have admitted: "snd (addMember now w m s) = jm_set w (admit now m ws) s"
      using Some by (simp add: addMember_cases)
    have "w = wid \<Longrightarrow> wm_peerId m \<noteq> p"
      using shut_out_refuses [of wid p e s now m] assms False Some by (auto simp: addMember_cases)
    then show ?thesis
      unfolding admitted
      by (intro shut_out_put [OF assms(1) Some])
        (use assms(2) in \<open>auto simp: bans_of_def admit_def find_member_def find_append
           dest: not_expired_before\<close>)
  qed (use assms Some in \<open>auto simp: addMember_cases shut_out_isBanned\<close>)
qed (use assms in \<open>simp add: addMember_def\<close>)

lemma shut_out_createChannel:
  "shut_out wid p e s \<Longrightarrow> shut_out wid p e (snd (createChannel now u w name by ty ms s))"
  by (auto simp: createChannel_def Let_def bans_of_def split: option.splits intro!: shut_out_put)

lemma canRemove_member: "canRemoveMember wid r p s \<Longrightarrow> jm_get s wid = Some w \<Longrightarrow> find_member p w \<noteq> None"
  by (auto simp: canRemoveMember_def split: option.splits)

lemma shut_out_step:
  assumes "shut_out wid p e s" "keeps_ban wid p e op"
  shows "shut_out wid p e (ws_step op s)"
proof (cases op)
  case (CreateDm now u w p1 p2)
  with assms show ?thesis by (auto simp: createDM_def shut_out_createChannel split: option.splits)
next
  case (Ban now w q r d reason)
  show ?thesis
  proof (cases "jm_get s w")
    case (Some ws)
    have "q \<noteq> p" if "canRemoveMember w r q s" "w = wid"
      using canRemove_member [OF that(1) Some] shut_out_getD [OF assms(1), of ws] that(2) Some by auto
    then show ?thesis
      using assms(1) Some Ban
      by (auto simp: banMember_state bans_of_def drop_member_def record_ban_def find_member_def find_None_all
          intro!: shut_out_put)
  qed (use assms Ban in \<open>simp add: banMember_state\<close>)
next
  case (RemoveMem w q r)
  with assms(1) show ?thesis
    by (auto simp: removeMember_def bans_of_def split: option.splits intro!: shut_out_put)
      (simp_all add: drop_member_def)
next
  case (Promote w a q r)
  have "find_member p (set_role q r ws) = None" if "find_member p ws = None" for ws
    using find_member_set_role [of p q r ws] that by (auto split: if_splits)
  with Promote assms(1) show ?thesis
    by (auto simp: promoteMember_def bans_of_def set_role_def split: option.splits intro!: shut_out_put)
next
  case (Demote w a q)
  have "find_member p (set_role q Member ws) = None" if "find_member p ws = None" for ws
    using find_member_set_role [of p q Member ws] that by (auto split: if_splits)
  with Demote assms(1) show ?thesis
    by (auto simp: demoteMember_def bans_of_def set_role_def split: option.splits intro!: shut_out_put)
next
  case (UpdateInfo w a n d)
  with assms(1) show ?thesis
    by (auto simp: updateWorkspaceInfo_def bans_of_def find_member_def split: option.splits intro!: shut_out_put)
next
  case (UpdatePerms w a u)
  with assms(1) show ?thesis
    by (auto simp: updatePermissions_def Let_def bans_of_def split: option.splits intro!: shut_out_put)
qed (use assms in \<open>auto simp: createWorkspace_state shut_out_other shut_out_del deleteWorkspace_def removeWorkspace_def
    unbanMember_def removeChannel_def importWorkspace_def bans_of_def shut_out_createChannel
    shut_out_addMember shut_out_isBanned split: option.splits intro!: shut_out_put\<close>)

interpretation ban_run: machine ws_step "\<lambda>op s. keeps_ban wid p e op" "shut_out wid p e" for wid p e
  by unfold_locales (rule shut_out_step)

subsection \<open>Properties\<close>

definition demo_member :: "string \<Rightarrow> role \<Rightarrow> member" where
  "demo_member p r = \<lparr>wm_peerId = p, wm_alias = p, wm_publicKey = [], wm_signingPublicKey = None,
     wm_identityId = None, wm_devices = None, wm_joinedAt = 1, wm_role = r, wm_isBot = None,
     wm_allowWorkspaceDMs = Some True, wm_addedBy = None\<rparr>"

definition demo_channel :: "string \<Rightarrow> string \<Rightarrow> channel" where
  "demo_channel i n = \<lparr>ch_id = i, ch_workspaceId = ''w'', ch_name = n, ch_type = RegularChannel,
     ch_members = [], ch_accessPolicy = Some \<lparr>ap_mode = PublicWorkspace, ap_groupIds = None,
       ap_roles = None, ap_explicitMemberPeerIds = None\<rparr>, ch_historyPages = None,
     ch_historyReplicaHint = None, ch_createdBy = ''boss'', ch_createdAt = 1\<rparr>"

definition demo_workspace :: "member list \<Rightarrow> ban list \<Rightarrow> workspace" where
  "demo_workspace ms bs = \<lparr>ws_id = ''w'', ws_name = ''demo'', ws_inviteCode = ''CODE'', ws_version = None,
     ws_createdBy = ''boss'', ws_createdAt = 1, ws_members = ms, ws_channels = [demo_channel ''g'' ''general''],
     ws_permissions = None, ws_description = None, ws_shell = None, ws_directoryShards = None, ws_peerCapabilities = None,
     ws_bans = Some bs\<rparr>"

text \<open>
  Property C20. Whatever calls of its own operations the manager receives, in every workspace it holds each peer is a
  member at most once, no member is on the ban list, channel ids and channel names are unique, and there is
  always a \<open>general\<close> channel. New channels need a fresh id, and imported workspaces must have these
  properties themselves. Deltas and announced channels of other peers are not among the calls.
\<close>

theorem workspaces_stay_consistent:
  assumes "covered_run ws_step ws_op_ok ops []" "getWorkspace wid (fold ws_step ops []) = Some w"
  shows "ws_id w = wid \<and> distinct (map wm_peerId (ws_members w)) \<and>
    (\<forall>b \<in> set (bans_of w). b_peerId b \<notin> wm_peerId ` set (ws_members w)) \<and>
    distinct (map ch_id (ws_channels w)) \<and> distinct (regular_names w) \<and> ''general'' \<in> set (regular_names w)"
proof -
  have "mgr_inv []" by (simp add: mgr_inv_def jm_every)
  then have "mgr_inv (fold ws_step ops [])" by (rule manager_run.run_inv [OF _ assms(1)])
  then show ?thesis using mgr_inv_get [of _ wid w] assms(2) by (simp add: getWorkspace_def ws_ok_def bans_of_def)
qed

text \<open>A team with a second channel, whose promoted member is banned and refused when it is added again.\<close>

definition demo_run :: "ws_op list" where
  "demo_run =
     [CreateWs 1 ''u'' ''c1'' (\<lambda>n. n) ''Team'' ''boss'' ''Boss'' ''key'' (Some ''w'') None,
      AddMem 2 ''w'' (demo_member ''eve'' Member), CreateCh 3 ''c2'' ''w'' ''random'' ''boss'' RegularChannel None,
      Promote ''w'' ''boss'' ''eve'' Admin, Ban 4 ''w'' ''eve'' ''boss'' None None, AddMem 5 ''w'' (demo_member ''eve'' Member)]"

lemma workspaces_stay_consistent_witness:
  "\<exists>w. getWorkspace ''w'' (fold ws_step demo_run []) = Some w \<and> length (bans_of w) = 1 \<and> length (ws_channels w) = 2 \<and>
     distinct (map wm_peerId (ws_members w)) \<and> distinct (map ch_id (ws_channels w)) \<and> ''general'' \<in> set (regular_names w)"
proof -
  have ok: "covered_run ws_step ws_op_ok demo_run []" by code_simp
  have "map_option (\<lambda>w. (length (bans_of w), length (ws_channels w))) (getWorkspace ''w'' (fold ws_step demo_run [])) = Some (1, 2)"
    by code_simp
  then obtain w where w: "getWorkspace ''w'' (fold ws_step demo_run []) = Some w"
    and len: "length (bans_of w) = 1" "length (ws_channels w) = 2" by auto
  show ?thesis
    by (rule exI [of _ w], insert workspaces_stay_consistent [OF ok w] w len) simp
qed

text \<open>
  Property C11. What can change a role: if a call of the manager changes the role of a peer in a workspace
  (gaining, losing or changing it), it is a promotion or demotion requested by an owner, a removal or
  ban requested by an owner or admin of someone who is not an owner, the deletion of the workspace by an owner,
  or one of the calls that check no requester: the addition of a peer that was not a member, and the creation,
  import or local removal of the workspace. Deltas are not calls of the manager.
\<close>

theorem role_changes_are_authorised:
  assumes "role_of wid p (ws_step op s) \<noteq> role_of wid p s"
  shows "may_change_role op wid p s"
  using assms by (rule ws_step_role)

lemma role_changes_are_authorised_witness:
  "may_change_role (Promote ''w'' ''boss'' ''bob'' Admin) ''w'' ''bob''
     [(''w'', demo_workspace [demo_member ''boss'' Owner, demo_member ''bob'' Member] [])]"
  by (rule role_changes_are_authorised)
    (simp add: promoteMember_def demo_workspace_def find_member_def demo_member_def set_role_def role_of_def
      getMember_def jm_set_def)

text \<open>
  An owner stays an owner: no sequence of calls removes, bans or demotes an owner of a
  workspace, unless the whole workspace is created anew, imported over, removed or deleted.
\<close>

theorem owner_is_permanent:
  assumes "role_of wid p s = Some Owner"
    and "list_all (\<lambda>op. case op of
        CreateWs now u1 u2 draw name me alias pk w code \<Rightarrow> string_or w u1 \<noteq> wid
      | DeleteWs w r \<Rightarrow> w \<noteq> wid | RemoveWs w \<Rightarrow> w \<noteq> wid | ImportWs w \<Rightarrow> ws_id w \<noteq> wid
      | _ \<Rightarrow> True) ops"
  shows "role_of wid p (fold ws_step ops s) = Some Owner"
  using assms
proof (induction ops arbitrary: s)
  case (Cons op ops)
  have "\<not> may_change_role op wid p s"
    using Cons.prems by (cases op) auto
  then have "role_of wid p (ws_step op s) = Some Owner"
    using ws_step_role [of wid p op s] Cons.prems(1) by auto
  with Cons show ?case by simp
qed simp

lemma owner_is_permanent_witness:
  "role_of ''w'' ''boss'' (fold ws_step [Ban 5 ''w'' ''boss'' ''bob'' None None, Demote ''w'' ''bob'' ''boss'']
     [(''w'', demo_workspace [demo_member ''boss'' Owner, demo_member ''bob'' Admin] [])]) = Some Owner"
  by (rule owner_is_permanent)
    (simp_all add: role_of_def getMember_def find_member_def demo_workspace_def demo_member_def)

text \<open>
  Property C13. A ban holds until it runs out: after a successful ban, through any further calls of the manager except
  unbanning that peer, creating, importing, removing or deleting that workspace, and adding members or asking for the
  ban after its end, the peer is not a member, is allowed in no channel, and every attempt to add it before the end is
  refused. Deltas from other peers, which do not look at bans, are not calls of the manager.
\<close>

theorem ban_keeps_out:
  assumes "mgr_inv s" "banMember now wid p r d reason s = (Inr b, s')"
    and "list_all (keeps_ban wid p (b_expiresAt b)) ops" "before later (b_expiresAt b)" "wm_peerId m = p"
  defines "s2 \<equiv> fold ws_step ops s'"
  shows "getMember wid p s2 = None \<and> \<not> isMemberAllowedInChannel wid cid p s2 \<and>
    (\<exists>err. fst (addMember later wid m s2) = Inl err)"
proof -
  obtain w where w: "jm_get s wid = Some w" "canRemoveMember wid r p s" "b = new_ban now p r d reason"
    "s' = jm_set wid (drop_member p (record_ban b w)) s"
    using assms(2) by (auto simp: banMember_def Let_def split: option.splits if_splits)
  have "shut_out wid p (b_expiresAt b) s'"
    by (simp add: w(4) shut_out_set) (simp add: bans_of_def drop_member_def record_ban_def w(3))
  then have out: "shut_out wid p (b_expiresAt b) s2"
    unfolding s2_def by (rule ban_run.run_inv) (use assms(3) in simp)
  then obtain w2 where "jm_get s2 wid = Some w2" "find_member p w2 = None"
    by (auto simp: shut_out_def split: option.splits)
  moreover have "\<exists>err. fst (addMember later wid m s2) = Inl err"
    using shut_out_refuses [OF out assms(4,5)] .
  ultimately show ?thesis by (simp add: getMember_def isMemberAllowedInChannel_def)
qed

lemma ban_keeps_out_witness:
  "\<exists>b s'. banMember 10 ''w'' ''bob'' ''boss'' (Some 100) None
      [(''w'', demo_workspace [demo_member ''boss'' Owner, demo_member ''bob'' Member] [])] = (Inr b, s') \<and>
     (\<exists>err. fst (addMember 50 ''w'' (demo_member ''bob'' Member)
        (fold ws_step [AddMem 20 ''w'' (demo_member ''bob'' Member)] s')) = Inl err)"
proof -
  let ?s = "[(''w'', demo_workspace [demo_member ''boss'' Owner, demo_member ''bob'' Member] [])]"
  have inv: "mgr_inv ?s"
  proof -
    have "regular_names (demo_workspace ms bs) = [''general'']" for ms bs
      by (simp add: regular_names_def demo_workspace_def demo_channel_def)
    then show ?thesis
      by (simp add: mgr_inv_def wf_map_def jm_keys_def jm.every_def ws_ok_def)
        (simp add: demo_workspace_def demo_member_def)
  qed
  obtain b s' where b: "banMember 10 ''w'' ''bob'' ''boss'' (Some 100) None ?s = (Inr b, s')" "b_expiresAt b = Some 110"
    by (simp add: banMember_def canRemoveMember_def demo_workspace_def find_member_def demo_member_def new_ban_def
        Let_def)
  have peer: "wm_peerId (demo_member ''bob'' Member) = ''bob''" by (simp add: demo_member_def)
  from ban_keeps_out [OF inv b(1) _ _ peer, of "[AddMem 20 ''w'' (demo_member ''bob'' Member)]" 50] b
  show ?thesis by (auto simp: before_def)
qed

end
