(* ===== verification/WorkspaceDelta.thy ===== *)
theory WorkspaceDelta
  imports Workspace
begin

section \<open>Workspace deltas\<close>

text \<open>
  Models \<open>decent-protocol/src/workspace/WorkspaceDeltaProtocol.ts\<close>. The state is the manager's map
  and the protocol's own map \<open>buffered\<close> of deltas that arrived before their base version.
  \<open>structuredClone\<close> of the workspace is the identity on values. \<open>applyDelta\<close> and
  \<open>flushBuffered\<close> call each other in the code; the delta taken from the buffer always has the
  current version as its base, so the nested call goes straight to the application of its
  operations (\<open>apply_ops\<close>) and then flushes the same list: \<open>flush_loop\<close> is that sequence.
\<close>

record shell_patch =
  sp_name :: "string option"
  sp_description :: "string option"
  sp_createdBy :: "string option"
  sp_createdAt :: "time option"
  sp_capabilityFlags :: "string list option"

datatype delta_op =
    UpsertChannel "channel option"
  | RemoveChannelOp "string option"
  | UpsertMember "member option"
  | RemoveMemberOp "string option" "member option"
  | UpdateShell "shell_patch option"

record delta =
  de_workspaceId :: string
  de_baseVersion :: int
  de_version :: int
  de_checkpointId :: "string option"
  de_ops :: "delta_op list"

record delta_result =
  dr_applied :: bool
  dr_buffered :: bool
  dr_reason :: "string option"

type_synonym buffers = "(string, delta list) jsmap"

text \<open>\<open>shell?.version ?? version ?? d\<close>\<close>

definition version_or :: "int \<Rightarrow> workspace \<Rightarrow> int" where
  "version_or d w = (case ws_shell w of Some sh \<Rightarrow> sh_version sh | None \<Rightarrow> get_or d (ws_version w))"

definition shell_of :: "workspace \<Rightarrow> shell" where
  "shell_of w =
     \<lparr>sh_id = ws_id w, sh_name = ws_name w, sh_description = ws_description w, sh_createdBy = ws_createdBy w,
      sh_createdAt = ws_createdAt w, sh_version = version_or 1 w, sh_memberCount = length (ws_members w),
      sh_channelCount = length (ws_channels w),
      sh_capabilityFlags = (case ws_shell w of None \<Rightarrow> None | Some sh \<Rightarrow> sh_capabilityFlags sh)\<rparr>"

definition buildWorkspaceShell :: "string \<Rightarrow> manager \<Rightarrow> shell option" where
  "buildWorkspaceShell wid s = map_option shell_of (jm_get s wid)"

definition applyWorkspaceShell :: "shell \<Rightarrow> string option \<Rightarrow> manager \<Rightarrow> manager" where
  "applyWorkspaceShell sh inviteCode s =
     (let w = (case jm_get s (sh_id sh) of
                 Some w \<Rightarrow> w
               | None \<Rightarrow> \<lparr>ws_id = sh_id sh, ws_name = sh_name sh,
                   ws_inviteCode = string_or inviteCode ''PAGED000'', ws_version = Some (sh_version sh),
                   ws_createdBy = sh_createdBy sh, ws_createdAt = sh_createdAt sh, ws_members = [],
                   ws_channels = [], ws_permissions = None, ws_description = sh_description sh,
                   ws_shell = Some sh, ws_directoryShards = None, ws_peerCapabilities = None, ws_bans = Some []\<rparr>)
      in importWorkspace (w\<lparr>ws_name := sh_name sh, ws_description := sh_description sh,
           ws_version := Some (sh_version sh), ws_shell := Some sh\<rparr>) s)"

text \<open>\<open>xs[idx] = x\<close> at the first element with the same key, or \<open>push\<close>.\<close>

definition upsert :: "('a \<Rightarrow> string) \<Rightarrow> 'a \<Rightarrow> 'a list \<Rightarrow> 'a list" where
  "upsert key x xs =
     (if list_ex (\<lambda>y. key y = key x) xs then update_first (\<lambda>y. key y = key x) (\<lambda>_. x) xs else xs @ [x])"

definition patch_shell :: "shell_patch option \<Rightarrow> int \<Rightarrow> workspace \<Rightarrow> workspace" where
  "patch_shell patch version w =
     (let name = (case patch of None \<Rightarrow> ws_name w | Some p \<Rightarrow> get_or (ws_name w) (sp_name p));
          description = (case patch of
              None \<Rightarrow> ws_description w
            | Some p \<Rightarrow> (case sp_description p of None \<Rightarrow> ws_description w | Some d \<Rightarrow> Some d));
          w1 = w\<lparr>ws_name := name, ws_description := description\<rparr>;
          sh = (case ws_shell w1 of Some sh \<Rightarrow> sh | None \<Rightarrow> shell_of w1);
          sh1 = (case patch of
              None \<Rightarrow> sh
            | Some p \<Rightarrow> sh\<lparr>sh_createdBy := get_or (sh_createdBy sh) (sp_createdBy p),
                sh_createdAt := get_or (sh_createdAt sh) (sp_createdAt p),
                sh_capabilityFlags := (case sp_capabilityFlags p of
                    None \<Rightarrow> sh_capabilityFlags sh | Some f \<Rightarrow> Some f)\<rparr>)
      in w1\<lparr>ws_shell := Some (sh1\<lparr>sh_id := ws_id w1, sh_name := name, sh_description := description,
           sh_version := version, sh_memberCount := length (ws_members w1),
           sh_channelCount := length (ws_channels w1)\<rparr>)\<rparr>)"

text \<open>An absent or empty id is false in \<open>if (!op.channelId)\<close>.\<close>

fun apply_op :: "int \<Rightarrow> delta_op \<Rightarrow> workspace \<Rightarrow> workspace" where
  "apply_op v (UpsertChannel None) w = w"
| "apply_op v (UpsertChannel (Some c)) w = w\<lparr>ws_channels := upsert ch_id c (ws_channels w)\<rparr>"
| "apply_op v (RemoveChannelOp cid) w =
     (let i = string_or cid [] in
      if i = [] then w else w\<lparr>ws_channels := filter (\<lambda>c. ch_id c \<noteq> i) (ws_channels w)\<rparr>)"
| "apply_op v (UpsertMember None) w = w"
| "apply_op v (UpsertMember (Some m)) w = w\<lparr>ws_members := upsert wm_peerId m (ws_members w)\<rparr>"
| "apply_op v (RemoveMemberOp p m) w =
     (let i = string_or p (case m of None \<Rightarrow> [] | Some m \<Rightarrow> wm_peerId m) in
      if i = [] then w else w\<lparr>ws_members := filter (\<lambda>m. wm_peerId m \<noteq> i) (ws_members w)\<rparr>)"
| "apply_op v (UpdateShell patch) w = patch_shell patch v w"

definition finish_delta :: "int \<Rightarrow> workspace \<Rightarrow> workspace" where
  "finish_delta version w =
     (let w1 = w\<lparr>ws_version := Some version\<rparr>;
          sh = (case ws_shell w1 of Some sh \<Rightarrow> sh | None \<Rightarrow> shell_of w1)
      in w1\<lparr>ws_shell := Some (sh\<lparr>sh_id := ws_id w1, sh_name := ws_name w1, sh_description := ws_description w1,
           sh_version := version, sh_memberCount := length (ws_members w1),
           sh_channelCount := length (ws_channels w1)\<rparr>)\<rparr>)"

definition apply_ops :: "delta \<Rightarrow> manager \<Rightarrow> manager" where
  "apply_ops d s =
     (case jm_get s (de_workspaceId d) of
        None \<Rightarrow> s
      | Some w \<Rightarrow>
        let w' = finish_delta (de_version d) (fold (apply_op (de_version d)) (de_ops d) w)
        in importWorkspace w' (jm_set (de_workspaceId d) w' s))"

definition current_version :: "string \<Rightarrow> manager \<Rightarrow> int" where
  "current_version wid s = (case jm_get s wid of None \<Rightarrow> 0 | Some w \<Rightarrow> version_or 0 w)"

text \<open>\<open>findIndex\<close> and \<open>splice\<close>: the first element that satisfies \<open>P\<close> and the others.\<close>

fun take_first :: "('a \<Rightarrow> bool) \<Rightarrow> 'a list \<Rightarrow> ('a \<times> 'a list) option" where
  "take_first P [] = None"
| "take_first P (x # xs) = (if P x then Some (x, xs) else map_option (\<lambda>(y, ys). (y, x # ys)) (take_first P xs))"

lemma take_first_mset: "take_first P xs = Some (x, ys) \<Longrightarrow> P x \<and> mset xs = add_mset x (mset ys)"
  by (induction xs arbitrary: ys) (auto split: if_splits)

lemma take_first_length: "take_first P xs = Some (x, ys) \<Longrightarrow> length ys < length xs"
  by (induction xs arbitrary: ys) (auto split: if_splits)

lemma take_first_None: "take_first P xs = None \<longleftrightarrow> (\<forall>x \<in> set xs. \<not> P x)"
  by (induction xs) auto

function flush_loop :: "string \<Rightarrow> delta list \<Rightarrow> manager \<Rightarrow> delta list \<times> manager" where
  "flush_loop wid list s =
     (case take_first (\<lambda>d. de_baseVersion d = current_version wid s) list of
        None \<Rightarrow> (list, s)
      | Some (next, rest) \<Rightarrow> flush_loop wid rest (apply_ops next s))"
  by pat_completeness auto
termination
  by (relation "measure (\<lambda>(_, list, _). length list)") (auto dest: take_first_length)

declare flush_loop.simps [simp del]

definition flushBuffered :: "string \<Rightarrow> manager \<times> buffers \<Rightarrow> manager \<times> buffers" where
  "flushBuffered wid st =
     (let (s, buf) = st; list = jm_get_or [] buf wid in
      if list = [] then (s, buf)
      else
        let (list', s') = flush_loop wid list s
        in (s', if list' = [] then jm_delete wid buf else jm_set wid list' buf))"

definition delta_cmp :: "delta \<Rightarrow> delta \<Rightarrow> int" where
  "delta_cmp = cmp_then (cmp_by de_baseVersion num_cmp) (cmp_by de_version num_cmp)"

definition bufferDelta :: "delta \<Rightarrow> buffers \<Rightarrow> buffers" where
  "bufferDelta d buf =
     jm_set (de_workspaceId d) (js_sort delta_cmp (jm_get_or [] buf (de_workspaceId d) @ [d])) buf"

definition applyDelta :: "delta \<Rightarrow> manager \<times> buffers \<Rightarrow> delta_result \<times> (manager \<times> buffers)" where
  "applyDelta d st =
     (let (s, buf) = st in
      case jm_get s (de_workspaceId d) of
        None \<Rightarrow> (\<lparr>dr_applied = False, dr_buffered = False, dr_reason = Some ''workspace not found''\<rparr>, st)
      | Some w \<Rightarrow>
        let currentVersion = version_or 0 w in
        if de_baseVersion d < currentVersion
        then (\<lparr>dr_applied = False, dr_buffered = False,
                dr_reason = Some (''stale delta: base '' @ show_int (de_baseVersion d) @ '' < current '' @
                  show_int currentVersion)\<rparr>, st)
        else if de_baseVersion d > currentVersion
        then (\<lparr>dr_applied = False, dr_buffered = True,
                dr_reason = Some (''missing base version '' @ show_int (de_baseVersion d))\<rparr>,
              (s, bufferDelta d buf))
        else (\<lparr>dr_applied = True, dr_buffered = False, dr_reason = None\<rparr>,
              flushBuffered (de_workspaceId d) (apply_ops d s, buf)))"

subsection \<open>Versions\<close>

lemma fold_ops_id [simp]: "ws_id (fold (apply_op v) ops w) = ws_id w"
proof (induction ops arbitrary: w)
  case (Cons op ops)
  have "ws_id (apply_op v op w) = ws_id w"
    by (cases "(v, op, w)" rule: apply_op.cases) (simp_all add: patch_shell_def Let_def)
  with Cons show ?case by simp
qed simp

lemma finish_delta_version [simp]: "version_or n (finish_delta v w) = v" "ws_id (finish_delta v w) = ws_id w"
  by (simp_all add: finish_delta_def version_or_def Let_def)

lemma normalize_version [simp]: "version_or n (normalize_workspace w) = version_or n w"
  by (simp add: version_or_def normalize_workspace_def split: option.split)

text \<open>A workspace is stored under its own id.\<close>

definition stored :: "string \<Rightarrow> manager \<Rightarrow> bool" where
  "stored wid s \<longleftrightarrow> (case jm_get s wid of None \<Rightarrow> False | Some w \<Rightarrow> ws_id w = wid)"

lemma apply_ops_get:
  assumes "stored (de_workspaceId d) s" "jm_get s (de_workspaceId d) = Some w"
  shows "jm_get (apply_ops d s) k =
    (if k = de_workspaceId d
     then Some (normalize_workspace (finish_delta (de_version d) (fold (apply_op (de_version d)) (de_ops d) w)))
     else jm_get s k)"
  using assms by (simp add: apply_ops_def importWorkspace_def Let_def js_map stored_def)

lemma apply_ops_stored:
  assumes "stored (de_workspaceId d) s"
  shows "stored (de_workspaceId d) (apply_ops d s)"
    "current_version (de_workspaceId d) (apply_ops d s) = de_version d"
proof -
  obtain w where w: "jm_get s (de_workspaceId d) = Some w" "ws_id w = de_workspaceId d"
    using assms by (auto simp: stored_def split: option.splits)
  show "stored (de_workspaceId d) (apply_ops d s)"
    unfolding stored_def apply_ops_get [OF assms w(1)] by (simp add: w normalize_workspace_def)
  show "current_version (de_workspaceId d) (apply_ops d s) = de_version d"
    unfolding current_version_def apply_ops_get [OF assms w(1)] by simp
qed

subsection \<open>Deltas out of order\<close>

text \<open>A chain of deltas of one workspace: each starts at the version the previous one leads to.\<close>

fun delta_chain :: "string \<Rightarrow> int \<Rightarrow> delta list \<Rightarrow> bool" where
  "delta_chain wid v [] \<longleftrightarrow> True"
| "delta_chain wid v (d # ds) \<longleftrightarrow> de_workspaceId d = wid \<and> de_baseVersion d = v \<and> v < de_version d \<and>
     delta_chain wid (de_version d) ds"

definition end_version :: "int \<Rightarrow> delta list \<Rightarrow> int" where
  "end_version v ds = (if ds = [] then v else de_version (last ds))"

lemma end_version_simps [simp]:
  "end_version v [] = v" "end_version v (d # ds) = end_version (de_version d) ds"
  by (simp_all add: end_version_def)

lemma delta_chain_append:
  "delta_chain wid v (xs @ ys) \<longleftrightarrow> delta_chain wid v xs \<and> delta_chain wid (end_version v xs) ys"
  by (induction xs arbitrary: v) auto

lemma delta_chain_bounds:
  "delta_chain wid v ds \<Longrightarrow> v \<le> end_version v ds \<and>
     (\<forall>d \<in> set ds. de_workspaceId d = wid \<and> v \<le> de_baseVersion d \<and> de_baseVersion d < end_version v ds)"
  by (induction ds arbitrary: v) force+

lemma delta_chain_state:
  "delta_chain wid v ds \<Longrightarrow> stored wid s \<Longrightarrow> current_version wid s = v \<Longrightarrow>
   stored wid (fold apply_ops ds s) \<and> current_version wid (fold apply_ops ds s) = end_version v ds"
proof (induction ds arbitrary: v s)
  case (Cons d ds)
  then have "stored wid (apply_ops d s)" "current_version wid (apply_ops d s) = de_version d"
    using apply_ops_stored [of d s] by auto
  with Cons.IH [of "de_version d" "apply_ops d s"] Cons.prems show ?case by simp
qed simp

text \<open>
  The protocol has received the set \<open>D\<close> of a chain's deltas: it has applied the longest prefix of
  the chain that is in \<open>D\<close>, and everything else of \<open>D\<close> is in the buffer \<open>L\<close>.
\<close>

definition caught_up :: "delta list \<Rightarrow> manager \<Rightarrow> delta set \<Rightarrow> delta list \<Rightarrow> manager \<Rightarrow> bool" where
  "caught_up ds s0 D L s \<longleftrightarrow>
     (\<exists>done rem. ds = done @ rem \<and> s = fold apply_ops done s0 \<and> set done \<subseteq> D \<and>
        (rem \<noteq> [] \<longrightarrow> hd rem \<notin> D) \<and> set L \<subseteq> D \<and> D - set done \<subseteq> set L)"

lemma next_in_chain:
  assumes "delta_chain wid v (xs @ ys)" "d \<in> set (xs @ ys)" "de_baseVersion d = end_version v xs"
  shows "\<exists>zs. ys = d # zs"
proof -
  have "d \<notin> set xs" using delta_chain_bounds [of wid v xs] assms(1,3) by (auto simp: delta_chain_append)
  with assms(2) obtain y zs where ys: "ys = y # zs" by (cases ys) auto
  have "d \<notin> set zs"
    using assms(1,3) delta_chain_bounds [of wid "de_version y" zs] by (force simp: ys delta_chain_append)
  with \<open>d \<notin> set xs\<close> assms(2) ys show ?thesis by auto
qed

lemma flush_loop_catches_up:
  assumes "delta_chain wid (current_version wid s0) ds" "stored wid s0"
    and "ds = done @ rem" "s = fold apply_ops done s0" "set done \<subseteq> D" "D \<subseteq> set ds"
    and "set L \<subseteq> D" "D - set done \<subseteq> set L"
  shows "caught_up ds s0 D (fst (flush_loop wid L s)) (snd (flush_loop wid L s))"
  using assms
proof (induction wid L s arbitrary: "done" rem rule: flush_loop.induct)
  case (1 wid L s)
  let ?v = "current_version wid s0"
  have now: "current_version wid s = end_version ?v done"
    using delta_chain_state [of wid ?v "done" s0] 1(2-5) by (simp add: delta_chain_append)
  show ?case
  proof (cases "take_first (\<lambda>d. de_baseVersion d = current_version wid s) L")
    case None
    have "hd rem \<notin> D" if ne: "rem \<noteq> []"
    proof
      assume "hd rem \<in> D"
      obtain r rs where rem: "rem = r # rs" using ne by (cases rem) auto
      have base: "de_baseVersion r = end_version ?v done"
        using 1(2,4) by (simp add: rem delta_chain_append)
      then have "r \<notin> set done" using delta_chain_bounds [of wid ?v "done"] 1(2,4) by (auto simp: delta_chain_append)
      with \<open>hd rem \<in> D\<close> rem 1(9) have "r \<in> set L" by auto
      with None base now show False by (simp add: take_first_None)
    qed
    then show ?thesis
      unfolding caught_up_def flush_loop.simps [of wid L s] None
      using 1(4-9) by (simp, intro exI [of _ "done"] exI [of _ rem]) simp
  next
    case (Some p)
    obtain d rest where p: "p = (d, rest)" by (cases p)
    from take_first_mset [OF Some [unfolded p]] have d: "de_baseVersion d = current_version wid s"
      and L: "mset L = add_mset d (mset rest)" by auto
    then have setL: "set L = insert d (set rest)" by (metis set_mset_add_mset_insert set_mset_mset)
    have "d \<in> set (done @ rem)" using setL 1(4,7,8) by auto
    with 1(2,4) d now obtain zs where rem: "rem = d # zs" using next_in_chain by metis
    have "caught_up ds s0 D (fst (flush_loop wid rest (apply_ops d s))) (snd (flush_loop wid rest (apply_ops d s)))"
    proof (rule 1(1) [OF Some p [symmetric] 1(2,3), of "done @ [d]" zs])
      show "set (done @ [d]) \<subseteq> D" "set rest \<subseteq> D" "D - set (done @ [d]) \<subseteq> set rest"
        using 1(6,8,9) setL by auto
    qed (use 1(4,5,7) rem in auto)
    then show ?thesis by (simp add: flush_loop.simps [of wid L s] Some p)
  qed
qed

lemma flushBuffered_split:
  "flushBuffered wid (s, buf) = (s', buf') \<Longrightarrow>
   s' = snd (flush_loop wid (jm_get_or [] buf wid) s) \<and>
   jm_get_or [] buf' wid = fst (flush_loop wid (jm_get_or [] buf wid) s)"
  by (auto simp: flushBuffered_def Let_def case_prod_beta jm_get_or_def js_map flush_loop.simps [of wid "[]"]
      split: if_splits)

lemma applyDelta_catches_up:
  assumes chain: "delta_chain wid (current_version wid s0) ds" "stored wid s0"
    and d: "d \<in> set ds" and D: "D \<subseteq> set ds"
    and inv: "caught_up ds s0 D (jm_get_or [] buf wid) s"
    and step: "snd (applyDelta d (s, buf)) = (s', buf')"
  shows "caught_up ds s0 (insert d D) (jm_get_or [] buf' wid) s'"
proof -
  let ?v = "current_version wid s0" and ?L = "jm_get_or [] buf wid"
  obtain dn rem where inv': "ds = dn @ rem" "s = fold apply_ops dn s0" "set dn \<subseteq> D"
    "rem \<noteq> [] \<longrightarrow> hd rem \<notin> D" "set ?L \<subseteq> D" "D - set dn \<subseteq> set ?L"
    using inv by (auto simp: caught_up_def)
  have state: "stored wid s" "current_version wid s = end_version ?v dn"
    using delta_chain_state [of wid ?v dn s0] chain inv'(1,2) by (simp_all add: delta_chain_append)
  then obtain w where w: "jm_get s wid = Some w" "version_or 0 w = end_version ?v dn"
    by (auto simp: stored_def current_version_def split: option.splits)
  have dw: "de_workspaceId d = wid" using delta_chain_bounds [OF chain(1)] d by auto
  consider "de_baseVersion d < end_version ?v dn" | "de_baseVersion d > end_version ?v dn"
    | "de_baseVersion d = end_version ?v dn" by linarith
  then show ?thesis
  proof cases
    case 1
    have "d \<notin> set rem"
      using 1 delta_chain_bounds [of wid "end_version ?v dn" rem] chain(1) by (auto simp: inv'(1) delta_chain_append)
    then have "d \<in> D" using d inv'(1,3) by auto
    moreover have "s' = s" "buf' = buf" using step 1 w dw by (auto simp: applyDelta_def Let_def)
    ultimately show ?thesis using inv by (simp add: insert_absorb)
  next
    case 2
    then have "s' = s" "buf' = bufferDelta d buf" using step w dw by (auto simp: applyDelta_def Let_def)
    moreover have "hd rem \<noteq> d" if "rem \<noteq> []"
      using that 2 chain(1) inv'(1) by (cases rem) (auto simp: delta_chain_append)
    ultimately show ?thesis
      using inv' dw unfolding caught_up_def
      by (intro exI [of _ dn] exI [of _ rem]) (auto simp: bufferDelta_def jm_get_or_def js_map)
  next
    case 3
    obtain zs where rem: "rem = d # zs" using next_in_chain [of wid ?v dn rem d] chain(1) d 3 inv'(1) by auto
    have "flushBuffered wid (apply_ops d s, buf) = (s', buf')"
      using step 3 w dw by (simp add: applyDelta_def Let_def)
    note fl = flushBuffered_split [OF this]
    have "caught_up ds s0 (insert d D) (fst (flush_loop wid ?L (apply_ops d s))) (snd (flush_loop wid ?L (apply_ops d s)))"
      by (rule flush_loop_catches_up [OF chain, of "dn @ [d]" zs])
        (use inv' rem d D in auto)
    with fl show ?thesis by simp
  qed
qed

lemma deltas_catch_up:
  assumes "delta_chain wid (current_version wid s0) ds" "stored wid s0" "set es \<subseteq> set ds" "D \<subseteq> set ds"
    and "caught_up ds s0 D (jm_get_or [] buf wid) s"
  shows "case fold (\<lambda>d st. snd (applyDelta d st)) es (s, buf) of
    (s', buf') \<Rightarrow> caught_up ds s0 (D \<union> set es) (jm_get_or [] buf' wid) s'"
  using assms(3-)
proof (induction es arbitrary: D s buf)
  case (Cons e es)
  obtain s1 buf1 where step: "snd (applyDelta e (s, buf)) = (s1, buf1)" by fastforce
  have "caught_up ds s0 (insert e D) (jm_get_or [] buf1 wid) s1"
    by (rule applyDelta_catches_up [OF assms(1,2) _ _ _ step]) (use Cons.prems in auto)
  with Cons.IH [of "insert e D" buf1 s1] Cons.prems step show ?case by simp
qed simp

subsection \<open>Properties\<close>

definition demo_delta :: "int \<Rightarrow> delta_op list \<Rightarrow> delta" where
  "demo_delta v ops = \<lparr>de_workspaceId = ''w'', de_baseVersion = v, de_version = v + 1, de_checkpointId = None,
     de_ops = ops\<rparr>"



end
