(* ===== verification/Paging.thy ===== *)
theory Paging
  imports Prelude
begin

section \<open>Reading a list page by page\<close>

text \<open>
  The contract of cursor paging that the member directory and the message history share: a page holds
  the first \<open>n\<close> elements after the cursor, and names the key of its last element as the next cursor
  when more follow. For a list that is strictly sorted by its keys, following the cursors visits
  every element once and in order.
\<close>

text \<open>\<open>fetch\<close> returns a page and its next cursor; the client asks at most \<open>fuel\<close> times.\<close>

fun walk_pages :: "(string option \<Rightarrow> 'a list \<times> string option) \<Rightarrow> nat \<Rightarrow> string option \<Rightarrow> 'a list" where
  "walk_pages fetch 0 c = []"
| "walk_pages fetch (Suc fuel) c =
     (let (page, next) = fetch c in
      case next of None \<Rightarrow> page | Some c' \<Rightarrow> page @ walk_pages fetch fuel (Some c'))"

locale pager =
  fixes key :: "'a \<Rightarrow> string"
    and less :: "string \<Rightarrow> string \<Rightarrow> bool"
  assumes less_asym: "less a b \<Longrightarrow> \<not> less b a"
begin

definition after :: "'a list \<Rightarrow> string option \<Rightarrow> 'a list" where
  "after xs c = (case c of None \<Rightarrow> xs | Some k \<Rightarrow> filter (\<lambda>x. less k (key x)) xs)"

definition serves :: "(string option \<Rightarrow> 'a list \<times> string option) \<Rightarrow> nat \<Rightarrow> 'a list \<Rightarrow> bool" where
  "serves fetch n xs \<longleftrightarrow> (\<forall>c. (c = None \<or> (\<exists>x \<in> set xs. c = Some (key x))) \<longrightarrow>
     fetch c = (take n (after xs c),
       if length (after xs c) > n then Some (key (last (take n (after xs c)))) else None))"

lemma less_irrefl: "\<not> less a a"
  using less_asym by blast

lemma after_element:
  assumes "sorted_wrt (\<lambda>x y. less (key x) (key y)) (xs @ x # ys)"
  shows "after (xs @ x # ys) (Some (key x)) = ys"
proof -
  have "filter (\<lambda>y. less (key x) (key y)) xs = []" "filter (\<lambda>y. less (key x) (key y)) ys = ys"
    using assms less_asym by (auto simp: sorted_wrt_append filter_empty_conv filter_id_conv)
  then show ?thesis by (simp add: after_def less_irrefl)
qed

lemma walk_from:
  assumes "serves fetch n xs" "sorted_wrt (\<lambda>x y. less (key x) (key y)) xs" "0 < n"
    and "c = None \<or> (\<exists>x \<in> set xs. c = Some (key x))" "after xs c = ys" "xs = zs @ ys" "length ys < fuel"
  shows "walk_pages fetch fuel c = ys"
  using assms(4-)
proof (induction fuel arbitrary: c ys zs)
  case (Suc fuel)
  have f: "fetch c = (take n ys, if length ys > n then Some (key (last (take n ys))) else None)"
    using assms(1) [unfolded serves_def, rule_format, OF Suc.prems(1)] Suc.prems(2) by simp
  show ?case
  proof (cases "length ys > n")
    case True
    then have ne: "take n ys \<noteq> []" using assms(3) by auto
    let ?x = "last (take n ys)"
    have split: "xs = (zs @ butlast (take n ys)) @ ?x # drop n ys"
    proof -
      have "take n ys = butlast (take n ys) @ [?x]" using ne by simp
      then have "ys = butlast (take n ys) @ ?x # drop n ys"
        by (metis append_Cons append_Nil append_assoc append_take_drop_id)
      with Suc.prems(3) show ?thesis by simp
    qed
    have rest: "after xs (Some (key ?x)) = drop n ys"
      using after_element [of "zs @ butlast (take n ys)" ?x "drop n ys"] assms(2) split by simp
    have "?x \<in> set xs" by (subst split) simp
    then have "walk_pages fetch fuel (Some (key ?x)) = drop n ys"
      using Suc.prems(4) True rest split assms(3)
      by (intro Suc.IH [of _ _ "(zs @ butlast (take n ys)) @ [?x]"]) auto
    with f True show ?thesis by simp
  qed (use f in simp)
qed simp

lemma walk_all:
  "serves fetch n xs \<Longrightarrow> sorted_wrt (\<lambda>x y. less (key x) (key y)) xs \<Longrightarrow> 0 < n \<Longrightarrow> length xs < fuel \<Longrightarrow>
   walk_pages fetch fuel None = xs"
  by (rule walk_from [of fetch n xs None xs "[]"]) (auto simp: after_def)

end

end
