(* ===== verification/Directory.thy ===== *)
theory Directory
  imports Workspace Paging HashChain "HOL-Library.Word"
begin

unbundle bit_operations_syntax

section \<open>The member directory\<close>

text \<open>
  Models \<open>decent-protocol/src/workspace/DirectoryShardPlanner.ts\<close> and \<open>DirectoryProtocol.ts\<close>.
  The hash is FNV-1a on 32-bit words: \<open>Math.imul\<close> and \<open>>>> 0\<close> are word multiplication. \<open>lc\<close>
  is \<open>localeCompare\<close>, as in the other theories.
\<close>

subsection \<open>Shards\<close>

definition fnv_step :: "char \<Rightarrow> 32 word \<Rightarrow> 32 word" where
  "fnv_step c hash = (hash XOR of_nat (of_char c)) * 0x01000193"

definition fnv_hash :: "string \<Rightarrow> 32 word" where
  "fnv_hash input = fold fnv_step input 0x811c9dc5"

text \<open>\<open>n.toString(16)\<close> and \<open>s.padStart(k, '0')\<close>.\<close>

function show_hex :: "nat \<Rightarrow> string" where
  "show_hex n = (if n < 16 then [hex_digit n] else show_hex (n div 16) @ [hex_digit (n mod 16)])"
  by pat_completeness auto
termination
  by (relation "measure id") auto

declare show_hex.simps [simp del]

definition pad_start :: "nat \<Rightarrow> string \<Rightarrow> string" where
  "pad_start k s = replicate (k - length s) (CHR ''0'') @ s"

definition hashToHex :: "string \<Rightarrow> string" where
  "hashToHex input = pad_start 8 (show_hex (unat (fnv_hash input)))"

definition getShardPrefixForMember :: "string option \<Rightarrow> string \<Rightarrow> string" where
  "getShardPrefixForMember identityId peerId = take 2 (hashToHex (js_trim (string_or identityId peerId)))"

definition member_prefix :: "member \<Rightarrow> string" where
  "member_prefix m = getShardPrefixForMember (wm_identityId m) (wm_peerId m)"

definition sorted_unique :: "string list \<Rightarrow> string list" where
  "sorted_unique xs = js_sort str_cmp (js_uniq xs)"

definition shard_of :: "string \<Rightarrow> string list \<Rightarrow> int \<Rightarrow> string \<Rightarrow> shard_ref" where
  "shard_of wid replicas version prefix =
     \<lparr>sr_workspaceId = wid, sr_shardId = wid @ '':'' @ prefix, sr_shardPrefix = prefix,
      sr_replicaPeerIds = replicas, sr_version = Some version\<rparr>"

definition planShardRefs :: "string \<Rightarrow> member list \<Rightarrow> string list \<Rightarrow> int \<Rightarrow> shard_ref list" where
  "planShardRefs wid members replicaPeerIds version =
     map (shard_of wid (sorted_unique (filter (\<lambda>p. p \<noteq> []) replicaPeerIds)) version)
       (sorted_unique (map member_prefix members))"

subsection \<open>Pages of members\<close>

record summary =
  su_peerId :: string
  su_alias :: string
  su_role :: role
  su_joinedAt :: time
  su_identityId :: "string option"
  su_isBot :: "bool option"
  su_allowWorkspaceDMs :: "bool option"

record member_page =
  mp_workspaceId :: string
  mp_pageSize :: nat
  mp_members :: "summary list"
  mp_cursor :: "string option"
  mp_nextCursor :: "string option"
  mp_shardRef :: "shard_ref option"

definition toMemberSummary :: "member \<Rightarrow> summary" where
  "toMemberSummary m = \<lparr>su_peerId = wm_peerId m, su_alias = wm_alias m, su_role = wm_role m,
     su_joinedAt = wm_joinedAt m, su_identityId = wm_identityId m, su_isBot = wm_isBot m,
     su_allowWorkspaceDMs = wm_allowWorkspaceDMs m\<rparr>"

definition memberCursor :: "summary \<Rightarrow> string" where
  "memberCursor m = string_or (su_identityId m) (su_peerId m)"

definition clampPageSize :: "int option \<Rightarrow> nat" where
  "clampPageSize pageSize = (case pageSize of
     None \<Rightarrow> 100 | Some n \<Rightarrow> if n \<le> 0 then 100 else min (nat n) 200)"

definition getShardRef :: "string \<Rightarrow> string \<Rightarrow> member list \<Rightarrow> shard_ref" where
  "getShardRef wid prefix members =
     (case find (\<lambda>r. sr_shardPrefix r = prefix) (planShardRefs wid members [] 1) of
        Some r \<Rightarrow> r
      | None \<Rightarrow> shard_of wid [] 1 prefix)"

definition truthy :: "string option \<Rightarrow> bool" where
  "truthy s \<longleftrightarrow> s \<noteq> None \<and> s \<noteq> Some []"

definition directory_members ::
  "(string \<Rightarrow> string \<Rightarrow> int) \<Rightarrow> string option \<Rightarrow> member list \<Rightarrow> summary list" where
  "directory_members lc shardPrefix members =
     js_sort (cmp_by memberCursor lc)
       (map toMemberSummary (filter (\<lambda>m. \<not> truthy shardPrefix \<or> Some (member_prefix m) = shardPrefix) members))"

text \<open>\<open>members.findIndex(m => cursor(m) > c)\<close>, and the length when there is none.\<close>

fun first_after :: "string \<Rightarrow> summary list \<Rightarrow> nat" where
  "first_after c [] = 0"
| "first_after c (m # ms) = (if c < memberCursor m then 0 else Suc (first_after c ms))"

definition getMemberPage :: "(string \<Rightarrow> string \<Rightarrow> int) \<Rightarrow> string \<Rightarrow> string option \<Rightarrow> int option \<Rightarrow> string option
    \<Rightarrow> manager \<Rightarrow> member_page" where
  "getMemberPage lc wid cursor pageSizeOpt shardPrefix s =
     (let pageSize = clampPageSize pageSizeOpt in
      case jm_get s wid of
        None \<Rightarrow> \<lparr>mp_workspaceId = wid, mp_pageSize = pageSize, mp_members = [], mp_cursor = None,
                 mp_nextCursor = None, mp_shardRef = None\<rparr>
      | Some w \<Rightarrow>
        let members = directory_members lc shardPrefix (ws_members w);
            startIndex = (if truthy cursor then first_after (get_or [] cursor) members else 0);
            pageMembers = take pageSize (drop startIndex members);
            hasMore = startIndex + pageSize < length members
        in \<lparr>mp_workspaceId = wid, mp_pageSize = pageSize, mp_members = pageMembers, mp_cursor = cursor,
            mp_nextCursor = (if hasMore \<and> pageMembers \<noteq> [] then Some (memberCursor (last pageMembers)) else None),
            mp_shardRef = (if truthy shardPrefix
              then Some (getShardRef wid (get_or [] shardPrefix) (ws_members w)) else None)\<rparr>)"

subsection \<open>Replicas of a shard\<close>

definition normalizeReplicaPeerIds :: "string list \<Rightarrow> nat \<Rightarrow> string list" where
  "normalizeReplicaPeerIds replicas memberCount =
     (let unique = sorted_unique (filter (\<lambda>p. p \<noteq> []) replicas) in
      if memberCount < 100 then unique
      else if length unique \<le> 2 then unique
      else take (min 3 (max 2 (length unique))) unique)"

definition buildShardAdvertisement :: "string \<Rightarrow> member list \<Rightarrow> string list \<Rightarrow> int \<Rightarrow> shard_ref list" where
  "buildShardAdvertisement wid members replicas version =
     planShardRefs wid members (normalizeReplicaPeerIds replicas (length members)) version"

subsection \<open>Shards partition the members\<close>

lemma length_show_hex: "n < 16 ^ k \<Longrightarrow> 0 < k \<Longrightarrow> length (show_hex n) \<le> k"
proof (induction n arbitrary: k rule: show_hex.induct)
  case (1 n)
  show ?case
  proof (cases "n < 16")
    case False
    have k: "k = Suc (k - 1)" "0 < k - 1"
      using 1(2,3) False by (cases k; cases "k - 1"; simp)+
    then have "(16 :: nat) ^ k = 16 * 16 ^ (k - 1)" by (metis power_Suc)
    with 1(2) have "n div 16 < 16 ^ (k - 1)" by (simp add: div_less_iff_less_mult mult.commute)
    with 1(1) [OF False _ k(2)] False k show ?thesis by (simp add: show_hex.simps [of n])
  qed (use 1(3) in \<open>simp add: show_hex.simps [of n]\<close>)
qed

lemma length_hashToHex: "length (hashToHex s) = 8"
proof -
  have "unat (fnv_hash s) < 16 ^ 8" using unsigned_less [of "fnv_hash s"] by simp
  then have "length (show_hex (unat (fnv_hash s))) \<le> 8" by (rule length_show_hex) simp
  then show ?thesis by (simp add: hashToHex_def pad_start_def)
qed

lemma set_sorted_unique [simp]: "set (sorted_unique xs) = set xs"
  by (simp add: sorted_unique_def)

lemma distinct_sorted_unique [simp]: "distinct (sorted_unique xs)"
  by (simp add: sorted_unique_def)

lemma sorted_unique_sorted: "sorted (sorted_unique xs)"
  using code_unit.in_order_sort [of "js_uniq xs"] by (simp add: sorted_unique_def str_cmp_le)

subsection \<open>Walking the directory\<close>

interpretation directory: pager memberCursor "(<)"
  by unfold_locales (rule less_not_sym)

text \<open>The answers to page requests that carry the last answer's cursor.\<close>

definition fetch_members ::
  "(string \<Rightarrow> string \<Rightarrow> int) \<Rightarrow> string \<Rightarrow> int option \<Rightarrow> string option \<Rightarrow> manager
     \<Rightarrow> string option \<Rightarrow> summary list \<times> string option" where
  "fetch_members lc wid pageSize shardPrefix s cursor =
     (let p = getMemberPage lc wid cursor pageSize shardPrefix s in (mp_members p, mp_nextCursor p))"

lemma drop_first_after:
  "sorted (map memberCursor ms) \<Longrightarrow> drop (first_after c ms) ms = filter (\<lambda>m. c < memberCursor m) ms"
proof (induction ms)
  case (Cons m ms)
  then have "c < memberCursor m \<Longrightarrow> filter (\<lambda>m. c < memberCursor m) ms = ms"
    by (intro filter_True) (auto intro: less_le_trans)
  with Cons show ?case by simp
qed simp

lemma first_after_le: "first_after c ms \<le> length ms"
  by (induction ms) auto

lemma clampPageSize_pos: "0 < clampPageSize n"
  by (auto simp: clampPageSize_def split: option.split)

lemma fetch_serves:
  assumes "jm_get s wid = Some w" "sorted (map memberCursor (directory_members lc sp (ws_members w)))"
    and "[] \<notin> memberCursor ` set (directory_members lc sp (ws_members w))"
  shows "directory.serves (fetch_members lc wid n sp s) (clampPageSize n) (directory_members lc sp (ws_members w))"
  unfolding directory.serves_def
proof (intro allI impI)
  fix c
  let ?ms = "directory_members lc sp (ws_members w)" and ?n = "clampPageSize n"
  assume c: "c = None \<or> (\<exists>x \<in> set ?ms. c = Some (memberCursor x))"
  let ?i = "if truthy c then first_after (get_or [] c) ?ms else 0"
  have "drop ?i ?ms = directory.after ?ms c"
  proof (cases c)
    case (Some k)
    with c obtain x where "x \<in> set ?ms" "k = memberCursor x" by auto
    with assms(3) have "k \<noteq> []" by (metis image_eqI)
    with Some show ?thesis using drop_first_after [OF assms(2), of k] by (simp add: truthy_def directory.after_def)
  qed (simp add: truthy_def directory.after_def)
  moreover have "?i + ?n < length ?ms \<longleftrightarrow> ?n < length (drop ?i ?ms)" by auto
  moreover have "take ?n (drop ?i ?ms) \<noteq> []" if "?n < length (drop ?i ?ms)"
    using that clampPageSize_pos [of n] by (cases "drop ?i ?ms") (auto simp: gr0_conv_Suc)
  ultimately show "fetch_members lc wid n sp s c = (take ?n (directory.after ?ms c),
      if ?n < length (directory.after ?ms c) then Some (memberCursor (last (take ?n (directory.after ?ms c)))) else None)"
    using assms(1) by (simp only: fetch_members_def getMemberPage_def Let_def option.case member_page.simps) auto
qed

subsection \<open>Properties\<close>

text \<open>
  The planned shards partition the directory: every member's prefix has two characters and
  names exactly one planned shard, every shard holds at least one member, and shard ids are distinct.
\<close>

theorem shards_partition_members:
  "(\<forall>m \<in> set members. length (member_prefix m) = 2 \<and>
      (\<exists>!r. r \<in> set (planShardRefs wid members replicas version) \<and> sr_shardPrefix r = member_prefix m)) \<and>
   (\<forall>r \<in> set (planShardRefs wid members replicas version). \<exists>m \<in> set members. member_prefix m = sr_shardPrefix r) \<and>
   distinct (map sr_shardId (planShardRefs wid members replicas version))"
proof -
  have "inj_on (\<lambda>p. wid @ '':'' @ p) A" for A by (auto simp: inj_on_def)
  then have "distinct (map (\<lambda>p. wid @ '':'' @ p) (sorted_unique (map member_prefix members)))"
    by (simp add: distinct_map)
  moreover have "map sr_shardId (planShardRefs wid members replicas version) =
      map (\<lambda>p. wid @ '':'' @ p) (sorted_unique (map member_prefix members))"
    by (simp add: planShardRefs_def shard_of_def)
  moreover have "length (member_prefix m) = 2" for m
    by (simp add: member_prefix_def getShardPrefixForMember_def length_hashToHex)
  ultimately show ?thesis by (auto simp: planShardRefs_def shard_of_def comp_def)
qed

lemma shards_partition_members_witness:
  "length (member_prefix (demo_member ''bob'' Member)) = 2"
  using shards_partition_members [of "[demo_member ''bob'' Member]" "''w''" "[]" 1] by simp

text \<open>
  Following \<open>nextCursor\<close> from the first page visits every member of the workspace exactly once
  and in order, when no two members share a cursor, no cursor is empty, and the string comparison that
  sorts the directory agrees with the one that finds the cursor.
\<close>

theorem member_pages_are_complete:
  assumes "jm_get s wid = Some w" "comparator UNIV lc"
    and "\<And>a b. a \<in> C \<Longrightarrow> b \<in> C \<Longrightarrow> lc a b \<le> 0 \<longleftrightarrow> a \<le> b" "memberCursor ` toMemberSummary ` set (ws_members w) = C"
    and "distinct (map (memberCursor \<circ> toMemberSummary) (ws_members w))" "[] \<notin> C" "length (ws_members w) < fuel"
  shows "mset (walk_pages (fetch_members lc wid n None s) fuel None) = mset (map toMemberSummary (ws_members w)) \<and>
    sorted (map memberCursor (walk_pages (fetch_members lc wid n None s) fuel None))"
proof -
  let ?ms = "directory_members lc None (ws_members w)"
  have ms: "?ms = js_sort (cmp_by memberCursor lc) (map toMemberSummary (ws_members w))"
    by (simp add: directory_members_def truthy_def)
  have "in_order (cmp_by memberCursor lc) ?ms"
    unfolding ms by (rule comparator.in_order_sort [OF comparator_by [OF assms(2)]]) simp
  then have "sorted_wrt (\<lambda>x y. memberCursor x \<le> memberCursor y) ?ms"
    by (rule sorted_wrt_mono_rel [rotated]) (use assms(3,4) in \<open>auto simp: cmp_by_def ms\<close>)
  then have sorted: "sorted (map memberCursor ?ms)" by (simp add: sorted_wrt_map)
  have "distinct (map memberCursor ?ms)" using assms(5) by (simp add: ms)
  with sorted have strict: "sorted_wrt (\<lambda>x y. memberCursor x < memberCursor y) ?ms"
    by (simp add: strict_sorted_iff flip: sorted_wrt_map [of _ memberCursor])
  have "directory.serves (fetch_members lc wid n None s) (clampPageSize n) ?ms"
    by (rule fetch_serves [OF assms(1) sorted]) (use assms(4,6) in \<open>auto simp: ms\<close>)
  from directory.walk_all [OF this strict clampPageSize_pos] assms(7)
  have "walk_pages (fetch_members lc wid n None s) fuel None = ?ms" by (simp add: ms)
  with sorted show ?thesis by (simp add: ms)
qed

lemma member_pages_are_complete_witness:
  "mset (walk_pages (fetch_members str_cmp ''w'' (Some 1) None
      [(''w'', demo_workspace [demo_member ''b'' Owner, demo_member ''a'' Member] [])]) 9 None) =
   mset [toMemberSummary (demo_member ''b'' Owner), toMemberSummary (demo_member ''a'' Member)]"
proof -
  have ms: "ws_members (demo_workspace ms bs) = ms" for ms bs by (simp add: demo_workspace_def)
  have "mset (walk_pages (fetch_members str_cmp ''w'' (Some 1) None
      [(''w'', demo_workspace [demo_member ''b'' Owner, demo_member ''a'' Member] [])]) 9 None) =
    mset (map toMemberSummary (ws_members (demo_workspace [demo_member ''b'' Owner, demo_member ''a'' Member] [])))"
    by (rule member_pages_are_complete [where C = "{''a'', ''b''}", THEN conjunct1])
      (auto simp: ms str_cmp_le code_unit.comparator_axioms memberCursor_def toMemberSummary_def demo_member_def
        string_or_def)
  then show ?thesis by (simp add: ms)
qed

text \<open>A locale order, as \<open>localeCompare\<close> has it for letters: alphabetical, and by code units only
  between strings that differ in case alone.\<close>

definition lower_char :: "char \<Rightarrow> char" where
  "lower_char c = (let n = of_char c :: nat in if 65 \<le> n \<and> n \<le> 90 then char_of (n + 32) else c)"

definition alphabetical :: "string \<Rightarrow> string \<Rightarrow> int" where
  "alphabetical = cmp_then (cmp_by (map lower_char) str_cmp) str_cmp"

lemma alphabetical_order: "string_order alphabetical"
  by (rule string_order.intro) (auto simp: alphabetical_def intro: comparators)

lemma alphabetical_aB: "alphabetical ''a'' ''B'' = - 1" "\<not> ''a'' < ''B''"
  by code_simp+

text \<open>
  That agreement is needed: under a locale order that puts \<open>a\<close> before \<open>B\<close>, as
  \<open>localeCompare\<close> does, the page after \<open>a\<close> is looked up by code units, where \<open>B\<close> comes before \<open>a\<close>,
  and the member \<open>B\<close> is on no page at all.
\<close>

theorem member_pages_skip_under_locale_order:
  "string_order alphabetical \<and>
   walk_pages (fetch_members alphabetical ''w'' (Some 1) None
     [(''w'', demo_workspace [demo_member ''a'' Owner, demo_member ''B'' Member] [])]) (Suc (Suc n)) None =
   [toMemberSummary (demo_member ''a'' Owner)]"
proof -
  let ?s = "[(''w'', demo_workspace [demo_member ''a'' Owner, demo_member ''B'' Member] [])]"
  let ?a = "toMemberSummary (demo_member ''a'' Owner)" and ?B = "toMemberSummary (demo_member ''B'' Member)"
  have cursor: "memberCursor ?a = ''a''" "memberCursor ?B = ''B''"
    by (simp_all add: memberCursor_def toMemberSummary_def demo_member_def string_or_def)
  have ms: "directory_members alphabetical None (ws_members (demo_workspace [demo_member ''a'' Owner, demo_member ''B'' Member] []))
      = [?a, ?B]"
    by (simp add: directory_members_def truthy_def demo_workspace_def cmp_by_def cursor alphabetical_aB)
  have one: "clampPageSize (Some 1) = 1" by (simp add: clampPageSize_def)
  have "fetch_members alphabetical ''w'' (Some 1) None ?s None = ([?a], Some ''a'')"
    "fetch_members alphabetical ''w'' (Some 1) None ?s (Some ''a'') = ([], None)"
    by (simp_all add: fetch_members_def getMemberPage_def Let_def ms one truthy_def cursor alphabetical_aB)
  then show ?thesis using alphabetical_order by simp
qed

end
