(* ===== verification/HistoryPages.thy ===== *)
theory HistoryPages
  imports MessageStore Directory
begin

section \<open>Pages of message history\<close>

text \<open>
  Models \<open>decent-protocol/src/history/HistoryPageProtocol.ts\<close>. A message of a page is an
  \<open>imported\<close> message whose content was taken out. \<open>now\<close> is the clock the class is given.
\<close>

datatype direction = Older | Newer

record history_page =
  hp_workspaceId :: string
  hp_channelId :: string
  hp_pageId :: string
  hp_pageSize :: nat
  hp_direction :: direction
  hp_tier :: tier
  hp_cursor :: "string option"
  hp_nextCursor :: "string option"
  hp_startCursor :: "string option"
  hp_endCursor :: "string option"
  hp_hasMore :: bool
  hp_generatedAt :: time
  hp_replicaPeerIds :: "string list option"
  hp_recentReplicaPeerIds :: "string list option"
  hp_archiveReplicaPeerIds :: "string list option"
  hp_selectedReplicaPeerIds :: "string list option"
  hp_selectionPolicy :: "selection_policy option"
  hp_messages :: "imported list"

subsection \<open>Replicas\<close>

definition sortedUniquePeers :: "string list \<Rightarrow> string list" where
  "sortedUniquePeers ps = sorted_unique (filter (\<lambda>p. p \<noteq> []) ps)"

definition isRelayForChannel :: "capabilities \<Rightarrow> string \<Rightarrow> bool" where
  "isRelayForChannel c channelId \<longleftrightarrow>
     (case pc_relay c of
        None \<Rightarrow> False
      | Some None \<Rightarrow> True
      | Some (Some channels) \<Rightarrow> channels = [] \<or> channelId \<in> set channels)"

text \<open>\<open>(retentionDays ?? Infinity) >= 30\<close>\<close>

definition deep_retention :: "int option \<Rightarrow> bool" where
  "deep_retention days \<longleftrightarrow> (case days of None \<Rightarrow> True | Some d \<Rightarrow> 30 \<le> d)"

definition archive_entries :: "workspace \<Rightarrow> (string \<times> int option) list" where
  "archive_entries w = concat (map (\<lambda>(p, c). case pc_archive c of None \<Rightarrow> [] | Some days \<Rightarrow> [(p, days)])
     (get_or [] (ws_peerCapabilities w)))"

definition channel_hint :: "time \<Rightarrow> string \<Rightarrow> workspace \<Rightarrow> channel \<Rightarrow> replica_hint" where
  "channel_hint now wid w c =
     (let entries = get_or [] (ws_peerCapabilities w);
          archivePeers = sortedUniquePeers (map fst (archive_entries w));
          deepArchivePeers = sortedUniquePeers (map fst (filter (\<lambda>e. deep_retention (snd e)) (archive_entries w)));
          shortArchivePeers = sortedUniquePeers (map fst (filter (\<lambda>e. \<not> deep_retention (snd e)) (archive_entries w)));
          recentRelayPeers = sortedUniquePeers (map fst (filter (\<lambda>e. isRelayForChannel (snd e) (ch_id c)) entries));
          reservedPeers = set (ws_createdBy w # recentRelayPeers @ archivePeers);
          fallbackMembers = take 3 (js_sort str_cmp
            (filter (\<lambda>p. p \<notin> reservedPeers) (map wm_peerId (ws_members w))));
          archivePrimaryPeers = (if deepArchivePeers \<noteq> [] then deepArchivePeers else archivePeers)
      in \<lparr>rh_workspaceId = wid, rh_channelId = ch_id c,
          rh_recentReplicaPeerIds = sortedUniquePeers (ws_createdBy w # recentRelayPeers @ shortArchivePeers @
            deepArchivePeers @ fallbackMembers),
          rh_archiveReplicaPeerIds = Some (sortedUniquePeers (archivePrimaryPeers @
            filter (\<lambda>p. p \<in> set archivePeers) recentRelayPeers)),
          rh_updatedAt = now\<rparr>)"

definition buildReplicaHints :: "time \<Rightarrow> string \<Rightarrow> manager \<Rightarrow> replica_hint list" where
  "buildReplicaHints now wid s =
     (case jm_get s wid of
        None \<Rightarrow> []
      | Some w \<Rightarrow> map (channel_hint now wid w) (filter (\<lambda>c. ch_type c = RegularChannel) (ws_channels w)))"

record selection =
  se_recent :: "string list"
  se_archive :: "string list"
  se_selected :: "string list option"
  se_policy :: selection_policy

definition selectReplicaPeers :: "replica_hint option \<Rightarrow> tier \<Rightarrow> selection" where
  "selectReplicaPeers hint tr =
     (let recent = sortedUniquePeers (case hint of None \<Rightarrow> [] | Some h \<Rightarrow> rh_recentReplicaPeerIds h);
          archive = sortedUniquePeers (case hint of None \<Rightarrow> [] | Some h \<Rightarrow> get_or [] (rh_archiveReplicaPeerIds h));
          pick = (\<lambda>sel pol. \<lparr>se_recent = recent, se_archive = archive, se_selected = sel, se_policy = pol\<rparr>)
      in case tr of
           Archive \<Rightarrow>
             if archive \<noteq> [] then pick (Some archive) ArchivePrimary
             else if recent \<noteq> [] then pick (Some recent) FallbackToRecent
             else pick None NoReplicas
         | Recent \<Rightarrow>
             if recent \<noteq> [] then pick (Some recent) RecentPrimary
             else if archive \<noteq> [] then pick (Some archive) FallbackToArchive
             else pick None NoReplicas)"

subsection \<open>Pages\<close>

definition clampHistoryPageSize :: "int option \<Rightarrow> nat" where
  "clampHistoryPageSize pageSize = (case pageSize of
     None \<Rightarrow> 50 | Some n \<Rightarrow> if n \<le> 0 then 50 else min (nat n) 200)"

definition toSyncedMessage :: "message \<Rightarrow> imported" where
  "toSyncedMessage m = (m\<lparr>m_content := []\<rparr>, None)"

definition messageCursor :: "imported \<Rightarrow> string" where
  "messageCursor im = pad_start 16 (show_int (m_timestamp (fst im))) @ '':'' @ m_id (fst im)"

text \<open>\<open>encodeURIComponent\<close>: letters, digits and a few marks stay, every other code point is
  percent-encoded in UTF-8.\<close>

definition unreserved :: "char \<Rightarrow> bool" where
  "unreserved c \<longleftrightarrow> (let n = of_char c :: nat in
     48 \<le> n \<and> n \<le> 57 \<or> 65 \<le> n \<and> n \<le> 90 \<or> 97 \<le> n \<and> n \<le> 122) \<or>
     c \<in> set ''-_.!~*()'' \<or> c = CHR 0x27"

definition upper_hex :: "nat \<Rightarrow> char" where
  "upper_hex d = (if d < 10 then char_of (48 + d) else char_of (55 + d))"

definition percent :: "nat \<Rightarrow> string" where
  "percent n = [CHR ''%'', upper_hex (n div 16), upper_hex (n mod 16)]"

definition encodeURIComponent :: "string \<Rightarrow> string" where
  "encodeURIComponent s = concat (map (\<lambda>c. let n = of_char c :: nat in
     if unreserved c then [c]
     else if n < 128 then percent n
     else percent (192 + n div 64) @ percent (128 + n mod 64)) s)"

definition direction_string :: "direction \<Rightarrow> string" where
  "direction_string d = (case d of Older \<Rightarrow> ''older'' | Newer \<Rightarrow> ''newer'')"

definition toPageId :: "direction \<Rightarrow> string option \<Rightarrow> string option \<Rightarrow> string" where
  "toPageId d start stop = direction_string d @ '':'' @ encodeURIComponent (get_or ''start'' start) @ '':'' @
     encodeURIComponent (get_or ''end'' stop)"

definition normalized_history :: "string \<Rightarrow> store \<Rightarrow> imported list" where
  "normalized_history ch s =
     js_sort (cmp_by messageCursor str_cmp) (map toSyncedMessage (getMessages_store ch s))"

definition past_cursor :: "direction \<Rightarrow> string option \<Rightarrow> imported list \<Rightarrow> imported list" where
  "past_cursor dir cursor ms =
     (if truthy cursor
      then filter (\<lambda>m. if dir = Older then messageCursor m < get_or [] cursor
                       else get_or [] cursor < messageCursor m) ms
      else ms)"

definition getHistoryPage :: "time \<Rightarrow> string \<Rightarrow> string \<Rightarrow> string option \<Rightarrow> int option \<Rightarrow> direction option \<Rightarrow> tier option
    \<Rightarrow> manager \<Rightarrow> store \<Rightarrow> history_page" where
  "getHistoryPage now wid ch cursor pageSizeOpt directionOpt tierOpt mgr s =
     (let pageSize = clampHistoryPageSize pageSizeOpt;
          dir = get_or Older directionOpt;
          tr = get_or Recent tierOpt;
          normalized = normalized_history ch s;
          filtered = past_cursor dir cursor normalized;
          startIndex = length filtered - pageSize;
          pageMessages = (if dir = Older then drop startIndex filtered else take pageSize filtered);
          hasMore = (if dir = Older then 0 < startIndex else pageSize < length filtered);
          startCursor = (if pageMessages = [] then None else Some (messageCursor (hd pageMessages)));
          endCursor = (if pageMessages = [] then None else Some (messageCursor (last pageMessages)));
          nextCursor = (if hasMore then (if dir = Older then startCursor else endCursor) else None);
          sel = selectReplicaPeers (find (\<lambda>h. rh_channelId h = ch) (buildReplicaHints now wid mgr)) tr
      in \<lparr>hp_workspaceId = wid, hp_channelId = ch, hp_pageId = toPageId dir startCursor endCursor,
          hp_pageSize = pageSize, hp_direction = dir, hp_tier = tr, hp_cursor = cursor,
          hp_nextCursor = nextCursor, hp_startCursor = startCursor, hp_endCursor = endCursor,
          hp_hasMore = hasMore, hp_generatedAt = now, hp_replicaPeerIds = se_selected sel,
          hp_recentReplicaPeerIds = Some (se_recent sel), hp_archiveReplicaPeerIds = Some (se_archive sel),
          hp_selectedReplicaPeerIds = se_selected sel, hp_selectionPolicy = Some (se_policy sel),
          hp_messages = pageMessages\<rparr>)"

subsection \<open>Walking the history\<close>

interpretation newer: pager messageCursor "(<)"
  by unfold_locales (rule less_not_sym)

interpretation older: pager messageCursor "\<lambda>a b. b < a"
  by unfold_locales (rule less_not_sym)

text \<open>
  The answers to requests that follow the cursors. Going back, each page is read from its newest
  message to its oldest.
\<close>

definition fetch_history :: "direction \<Rightarrow> time \<Rightarrow> string \<Rightarrow> string \<Rightarrow> int option \<Rightarrow> tier option \<Rightarrow> manager \<Rightarrow> store
    \<Rightarrow> string option \<Rightarrow> imported list \<times> string option" where
  "fetch_history dir now wid ch pageSize tr mgr s cursor =
     (let p = getHistoryPage now wid ch cursor pageSize (Some dir) tr mgr s
      in (if dir = Older then rev (hp_messages p) else hp_messages p, hp_nextCursor p))"

lemma messageCursor_id: "messageCursor a = messageCursor b \<Longrightarrow> m_id (fst a) = m_id (fst b)"
proof -
  have no: "CHR '':'' \<notin> set (pad_start 16 (show_int t))" for t
    using show_nat_digits [of "CHR '':''"] by (auto simp: pad_start_def show_int_def)
  assume "messageCursor a = messageCursor b"
  then show ?thesis
    using separator_inject [OF no no, of "m_timestamp (fst a)" "m_id (fst a)" "m_timestamp (fst b)" "m_id (fst b)"]
    by (simp add: messageCursor_def)
qed

lemma distinct_cursors: "distinct (map (m_id \<circ> fst) ims) \<Longrightarrow> distinct (map messageCursor ims)"
proof (induction ims)
  case (Cons im ims)
  have "messageCursor im \<noteq> messageCursor x" if "x \<in> set ims" for x
    using messageCursor_id [of im x] Cons.prems that by auto
  with Cons show ?case by auto
qed simp

lemma messageCursor_not_Nil [simp]: "messageCursor im \<noteq> []"
  by (simp add: messageCursor_def)

lemma history_strict:
  assumes "distinct (map m_id (getMessages_store ch s))"
  shows "sorted_wrt (\<lambda>x y. messageCursor x < messageCursor y) (normalized_history ch s)"
proof -
  let ?ms = "normalized_history ch s"
  have "in_order (cmp_by messageCursor str_cmp) ?ms"
    unfolding normalized_history_def
    by (rule comparator.in_order_sort [OF comparator_by [OF code_unit.comparator_axioms]]) simp
  then have "sorted (map messageCursor ?ms)" by (simp add: cmp_by_def str_cmp_le sorted_wrt_map)
  moreover have "distinct (map messageCursor ?ms)"
  proof -
    have "distinct (map (m_id \<circ> fst) (map toSyncedMessage (getMessages_store ch s)))"
      using assms by (simp add: toSyncedMessage_def comp_def)
    then have "distinct (map messageCursor (map toSyncedMessage (getMessages_store ch s)))"
      by (rule distinct_cursors)
    then show ?thesis unfolding normalized_history_def distinct_map_js_sort .
  qed
  ultimately show ?thesis by (simp add: strict_sorted_iff flip: sorted_wrt_map [of _ messageCursor])
qed

lemma clampHistoryPageSize_pos: "0 < clampHistoryPageSize n"
  by (auto simp: clampHistoryPageSize_def split: option.split)

lemma newer_serves:
  "newer.serves (fetch_history Newer now wid ch n tr mgr s) (clampHistoryPageSize n) (normalized_history ch s)"
  unfolding newer.serves_def
proof (intro allI impI)
  fix c
  let ?ms = "normalized_history ch s" and ?n = "clampHistoryPageSize n"
  assume c: "c = None \<or> (\<exists>x \<in> set ?ms. c = Some (messageCursor x))"
  let ?f = "past_cursor Newer c ?ms"
  have f: "?f = newer.after ?ms c" using c by (auto simp: past_cursor_def newer.after_def truthy_def)
  have "take ?n ?f \<noteq> []" if "?n < length ?f" using that clampHistoryPageSize_pos [of n] by auto
  then show "fetch_history Newer now wid ch n tr mgr s c = (take ?n (newer.after ?ms c),
      if ?n < length (newer.after ?ms c) then Some (messageCursor (last (take ?n (newer.after ?ms c)))) else None)"
    unfolding f [symmetric] using clampHistoryPageSize_pos [of n]
    by (auto simp: fetch_history_def getHistoryPage_def Let_def)
qed

lemma older_serves:
  "older.serves (fetch_history Older now wid ch n tr mgr s) (clampHistoryPageSize n) (rev (normalized_history ch s))"
  unfolding older.serves_def
proof (intro allI impI)
  fix c
  let ?ms = "normalized_history ch s" and ?n = "clampHistoryPageSize n"
  assume c: "c = None \<or> (\<exists>x \<in> set (rev ?ms). c = Some (messageCursor x))"
  let ?f = "past_cursor Older c ?ms"
  have f: "rev ?f = older.after (rev ?ms) c" using c by (auto simp: past_cursor_def older.after_def truthy_def rev_filter)
  have page: "take ?n (rev ?f) = rev (drop (length ?f - ?n) ?f)" by (rule take_rev)
  have "drop (length ?f - ?n) ?f \<noteq> []" if "?n < length ?f"
    using that clampHistoryPageSize_pos [of n] by auto
  then show "fetch_history Older now wid ch n tr mgr s c = (take ?n (older.after (rev ?ms) c),
      if ?n < length (older.after (rev ?ms) c)
      then Some (messageCursor (last (take ?n (older.after (rev ?ms) c)))) else None)"
    unfolding f [symmetric] page length_rev
    by (simp add: fetch_history_def getHistoryPage_def Let_def last_rev)
qed

subsection \<open>Properties\<close>

text \<open>
  Property C18. Paging through a channel's history in either direction, with any page size, returns every
  message of the channel exactly once, ordered by timestamp and id: the walk towards newer messages
  gives the ordered history and the walk towards older ones its reverse. A client needs at most one
  request per message and one more.
\<close>

theorem history_pages_are_complete:
  assumes "store_inv s" "length (getMessages_store ch s) < fuel"
  shows "mset (walk_pages (fetch_history Newer now wid ch n tr mgr s) fuel None) =
      mset (map toSyncedMessage (getMessages_store ch s)) \<and>
    sorted_wrt (\<lambda>a b. messageCursor a < messageCursor b)
      (walk_pages (fetch_history Newer now wid ch n tr mgr s) fuel None) \<and>
    walk_pages (fetch_history Older now wid ch n tr mgr s) fuel None =
      rev (walk_pages (fetch_history Newer now wid ch n tr mgr s) fuel None)"
proof -
  let ?ms = "normalized_history ch s"
  have strict: "sorted_wrt (\<lambda>x y. messageCursor x < messageCursor y) ?ms"
    using store_inv_channel [OF assms(1), of ch]
    by (intro history_strict) (simp add: getMessages_store_def chan_ok_def)
  have len: "length ?ms < fuel" using assms(2) by (simp add: normalized_history_def)
  have newer: "walk_pages (fetch_history Newer now wid ch n tr mgr s) fuel None = ?ms"
    by (rule newer.walk_all [OF newer_serves strict clampHistoryPageSize_pos len])
  have "sorted_wrt (\<lambda>x y. messageCursor y < messageCursor x) (rev ?ms)"
    using strict by (simp add: sorted_wrt_rev)
  then have "walk_pages (fetch_history Older now wid ch n tr mgr s) fuel None = rev ?ms"
    by (rule older.walk_all [OF older_serves _ clampHistoryPageSize_pos]) (simp add: len)
  with newer strict show ?thesis by (simp add: normalized_history_def)
qed

lemma history_pages_are_complete_witness:
  "mset (walk_pages (fetch_history Newer 0 ''w'' ''c'' (Some 1) None []
      (forceAdd (demo_msg ''a'' 1 []) new_store)) 5 None) = mset [toSyncedMessage (demo_msg ''a'' 1 [])]"
proof -
  have ch: "getMessages_store ''c'' (forceAdd (demo_msg ''a'' 1 []) new_store) = [demo_msg ''a'' 1 []]"
    by (simp add: getMessages_store_def forceAdd_new) (simp add: demo_msg_def)
  show ?thesis
    using history_pages_are_complete [OF forceAdd_new(1) [of "demo_msg ''a'' 1 []"], of "''c''" 5 0 "''w''" "Some 1" None "[]"]
    by (simp add: ch)
qed

end
