(* ===== verification/Negentropy.thy ===== *)
theory Negentropy
  imports Directory
begin

unbundle bit_operations_syntax

section \<open>Set reconciliation (crdt/Negentropy.ts)\<close>

text \<open>
  The class \<open>Negentropy\<close>: two peers find out which messages the other has by comparing fingerprints
  of key ranges and splitting the ranges that differ. The digest of an item (SHA-256 of its id and
  timestamp) and \<open>localeCompare\<close> are arguments; what a remote peer answers is an argument of
  \<open>reconcile\<close>, which the main theorem instantiates with the other peer's \<open>processQuery\<close>. The number of
  rounds is the code's own bound. A JavaScript \<open>Set\<close> is the list of its elements.
\<close>

subsection \<open>State and keys\<close>

type_synonym digest = "8 word list"

record neg_item =
  ni_id :: string
  ni_timestamp :: time

record neg_entry =
  ne_key :: string
  ne_item :: neg_item
  ne_hash :: digest

record neg_range =
  ng_start :: "string option"
  ng_end :: "string option"
  ng_fingerprint :: string
  ng_count :: nat

record neg_response =
  nr_have :: "string list"
  nr_need :: "string list"
  nr_continueWith :: "neg_range list option"
  nr_enumeratedRanges :: "(string option \<times> string option) list option"

record negentropy =
  neg_items :: "neg_item list"
  neg_entries :: "neg_entry list"
  neg_itemMap :: "(string, neg_item) jsmap"

definition EMPTY_FINGERPRINT :: string where
  "EMPTY_FINGERPRINT = replicate 64 (CHR ''0'')"

definition DEFAULT_MAX_ROUNDS :: nat where
  "DEFAULT_MAX_ROUNDS = 24"

definition ENUMERATE_THRESHOLD :: nat where
  "ENUMERATE_THRESHOLD = 256"

definition SPLIT_BUCKETS :: nat where
  "SPLIT_BUCKETS = 16"

definition makeKey :: "neg_item \<Rightarrow> string" where
  "makeKey i = pad_start 16 (show_int (ni_timestamp i)) @ '':'' @ ni_id i"

definition item_cmp :: "(string \<Rightarrow> string \<Rightarrow> int) \<Rightarrow> neg_item \<Rightarrow> neg_item \<Rightarrow> int" where
  "item_cmp lc = cmp_then (cmp_by ni_timestamp num_cmp) (cmp_by ni_id lc)"

definition hashItem :: "(string \<Rightarrow> digest) \<Rightarrow> neg_item \<Rightarrow> digest" where
  "hashItem h i = h (ni_id i @ '':'' @ show_int (ni_timestamp i))"

definition neg_entry_of :: "(string \<Rightarrow> digest) \<Rightarrow> neg_item \<Rightarrow> neg_entry" where
  "neg_entry_of h i = \<lparr>ne_key = makeKey i, ne_item = i, ne_hash = hashItem h i\<rparr>"

definition build_neg :: "(string \<Rightarrow> string \<Rightarrow> int) \<Rightarrow> (string \<Rightarrow> digest) \<Rightarrow> neg_item list \<Rightarrow> negentropy" where
  "build_neg lc h items =
     (let sorted = js_sort (item_cmp lc) items in
      \<lparr>neg_items = sorted, neg_entries = map (neg_entry_of h) sorted,
       neg_itemMap = fold (\<lambda>i. jm_set (ni_id i) i) sorted []\<rparr>)"

definition getItem :: "string \<Rightarrow> negentropy \<Rightarrow> neg_item option" where
  "getItem k n = jm_get (neg_itemMap n) k"

definition neg_size :: "negentropy \<Rightarrow> nat" where
  "neg_size n = length (neg_items n)"

subsection \<open>Ranges\<close>

text \<open>The binary search for the first entry whose key is not below \<open>key\<close>.\<close>

function lower_loop :: "neg_entry list \<Rightarrow> string \<Rightarrow> nat \<Rightarrow> nat \<Rightarrow> nat" where
  "lower_loop es key lo hi =
     (if lo < hi then
        let mid = (lo + hi) div 2
        in if ne_key (es ! mid) < key then lower_loop es key (mid + 1) hi else lower_loop es key lo mid
      else lo)"
  by pat_completeness auto
termination
  by (relation "measure (\<lambda>(es, key, lo, hi). hi - lo)") auto

declare lower_loop.simps [simp del]

definition lowerBound :: "neg_entry list \<Rightarrow> string \<Rightarrow> nat" where
  "lowerBound es key = lower_loop es key 0 (length es)"

definition getEntriesInRange :: "neg_entry list \<Rightarrow> string option \<Rightarrow> string option \<Rightarrow> neg_entry list" where
  "getEntriesInRange es s e =
     (if es = [] then []
      else
        let startIdx = (case s of None \<Rightarrow> 0 | Some k \<Rightarrow> lowerBound es k);
            endIdx = (case e of None \<Rightarrow> length es | Some k \<Rightarrow> lowerBound es k)
        in if startIdx \<ge> endIdx then [] else take (endIdx - startIdx) (drop startIdx es))"

definition xor_bytes :: "digest \<Rightarrow> digest \<Rightarrow> digest" where
  "xor_bytes a b = map (\<lambda>(x, y). x XOR y) (zip a b)"

definition fingerprintEntries :: "neg_entry list \<Rightarrow> string" where
  "fingerprintEntries es =
     (if es = [] then EMPTY_FINGERPRINT
      else concat (map (\<lambda>b. pad_start 2 (show_hex (unat b)))
        (fold (\<lambda>e x. xor_bytes x (ne_hash e)) es (replicate 32 0))))"

text \<open>The part of \<open>partitionRange\<close> after the boundaries are chosen: consecutive pairs, empty ones skipped.\<close>

fun boundary_pairs :: "string option list \<Rightarrow> (string option \<times> string option) list" where
  "boundary_pairs (s # e # bs) =
     (if s \<noteq> None \<and> e \<noteq> None \<and> the s \<ge> the e then boundary_pairs (e # bs)
      else (s, e) # boundary_pairs (e # bs))"
| "boundary_pairs bs = []"

definition boundaries :: "string option \<Rightarrow> string option \<Rightarrow> neg_entry list \<Rightarrow> nat \<Rightarrow> string option list" where
  "boundaries s e es segments =
     s # map (\<lambda>i. Some (ne_key (es ! (i * length es div segments)))) [1..<segments] @ [e]"

definition partitionRange :: "neg_range \<Rightarrow> neg_entry list \<Rightarrow> (string option \<times> string option) list" where
  "partitionRange r es =
     (if es = [] then [(ng_start r, ng_end r)]
      else
        let segments = min SPLIT_BUCKETS (length es)
        in if segments \<le> 1 then [(ng_start r, ng_end r)]
           else
             let ranges = boundary_pairs (boundaries (ng_start r) (ng_end r) es segments)
             in if ranges \<noteq> [] then ranges else [(ng_start r, ng_end r)])"

definition range_of :: "neg_entry list \<Rightarrow> string option \<times> string option \<Rightarrow> neg_range" where
  "range_of es se =
     (let part = getEntriesInRange es (fst se) (snd se)
      in \<lparr>ng_start = fst se, ng_end = snd se, ng_fingerprint = fingerprintEntries part, ng_count = length part\<rparr>)"

subsection \<open>Queries and answers\<close>

definition createQuery :: "negentropy \<Rightarrow> neg_range list" where
  "createQuery n =
     (if neg_entries n = [] then []
      else [\<lparr>ng_start = None, ng_end = None, ng_fingerprint = fingerprintEntries (neg_entries n),
             ng_count = length (neg_entries n)\<rparr>])"

text \<open>The loop of \<open>processQuery\<close> over the ranges: what is enumerated, and the ranges to go on with.\<close>

definition matches :: "neg_entry list \<Rightarrow> neg_range \<Rightarrow> bool" where
  "matches es r \<longleftrightarrow> (let part = getEntriesInRange es (ng_start r) (ng_end r)
     in ng_count r = length part \<and> ng_fingerprint r = fingerprintEntries part)"

definition enumerates :: "neg_entry list \<Rightarrow> neg_range \<Rightarrow> bool" where
  "enumerates es r \<longleftrightarrow> (let n = length (getEntriesInRange es (ng_start r) (ng_end r))
     in min (ng_count r) n \<le> ENUMERATE_THRESHOLD \<or> n \<le> 1 \<or> ng_count r \<le> 1)"

fun answer_ranges :: "neg_entry list \<Rightarrow> neg_range list
    \<Rightarrow> string list \<times> neg_range list \<times> (string option \<times> string option) list
    \<Rightarrow> string list \<times> neg_range list \<times> (string option \<times> string option) list" where
  "answer_ranges es [] acc = acc"
| "answer_ranges es (r # rs) (have, cont, enum) =
     (let part = getEntriesInRange es (ng_start r) (ng_end r) in
      if matches es r then answer_ranges es rs (have, cont, enum)
      else if enumerates es r then
        answer_ranges es rs (fold (\<lambda>e. js_add (ni_id (ne_item e))) part have, cont, enum @ [(ng_start r, ng_end r)])
      else answer_ranges es rs (have, cont @ map (range_of es) (partitionRange r part), enum))"

definition processQuery :: "negentropy \<Rightarrow> neg_range list \<Rightarrow> neg_response" where
  "processQuery n query =
     (if query = [] then
        \<lparr>nr_have = fold (\<lambda>e. js_add (ni_id (ne_item e))) (neg_entries n) [], nr_need = [],
         nr_continueWith = None, nr_enumeratedRanges = Some [(None, None)]\<rparr>
      else
        (case answer_ranges (neg_entries n) query ([], [], []) of (have, cont, enum) \<Rightarrow>
           \<lparr>nr_have = have, nr_need = [],
            nr_continueWith = (if cont \<noteq> [] then Some cont else None),
            nr_enumeratedRanges = (if enum \<noteq> [] then Some enum else None)\<rparr>))"

definition list_or :: "'a list option \<Rightarrow> 'a list" where
  "list_or x = (case x of None \<Rightarrow> [] | Some xs \<Rightarrow> xs)"

definition absorb_have :: "string list \<Rightarrow> string list \<Rightarrow> string list \<times> string list \<Rightarrow> string list \<times> string list" where
  "absorb_have localIds ids acc =
     fold (\<lambda>k (need, remoteHave). (if k \<notin> set localIds then js_add k need else need, js_add k remoteHave)) ids acc"

definition absorb_excess :: "neg_entry list \<Rightarrow> (string option \<times> string option) list \<Rightarrow> string list \<Rightarrow> string list \<Rightarrow> string list" where
  "absorb_excess es ranges remoteHave excess =
     fold (\<lambda>e x. if ni_id (ne_item e) \<notin> set remoteHave then js_add (ni_id (ne_item e)) x else x)
       (concat (map (\<lambda>se. getEntriesInRange es (fst se) (snd se)) ranges)) excess"

fun reconcile_rounds :: "negentropy \<Rightarrow> (neg_range list \<Rightarrow> neg_response) \<Rightarrow> nat \<Rightarrow> neg_range list
    \<Rightarrow> string list \<times> string list \<times> string list \<Rightarrow> string list \<times> string list" where
  "reconcile_rounds n remote 0 query (need, remoteHave, excess) = (need, excess)"
| "reconcile_rounds n remote (Suc rounds) query (need, remoteHave, excess) =
     (let response = remote query;
          (need1, have1) = absorb_have (map ni_id (neg_items n)) (nr_have response) (need, remoteHave);
          excess1 = absorb_excess (neg_entries n) (list_or (nr_enumeratedRanges response)) have1 excess;
          cont = list_or (nr_continueWith response)
      in if cont = [] then (need1, excess1)
         else reconcile_rounds n remote rounds
           (map (\<lambda>r. range_of (neg_entries n) (ng_start r, ng_end r)) cont) (need1, have1, excess1))"

definition reconcile :: "negentropy \<Rightarrow> (neg_range list \<Rightarrow> neg_response) \<Rightarrow> nat \<Rightarrow> string list \<times> string list" where
  "reconcile n remote maxRounds = reconcile_rounds n remote maxRounds (createQuery n) ([], [], [])"


subsection \<open>Ranges are filters on sorted entries\<close>

abbreviation keys_strict :: "neg_entry list \<Rightarrow> bool" where
  "keys_strict \<equiv> sorted_wrt (\<lambda>x y. ne_key x < ne_key y)"

definition in_range :: "string option \<times> string option \<Rightarrow> neg_entry \<Rightarrow> bool" where
  "in_range se x \<longleftrightarrow> (case fst se of None \<Rightarrow> True | Some k \<Rightarrow> k \<le> ne_key x) \<and>
     (case snd se of None \<Rightarrow> True | Some k \<Rightarrow> ne_key x < k)"

lemma keys_strict_nth: "keys_strict es \<Longrightarrow> i < length es \<Longrightarrow> j < length es \<Longrightarrow>
    ne_key (es ! i) < ne_key (es ! j) \<longleftrightarrow> i < j"
  by (metis less_asym linorder_neqE_nat order_less_irrefl sorted_wrt_nth_less)

lemma lower_loop_spec:
  assumes "keys_strict es" "lo \<le> hi" "hi \<le> length es"
    and "\<forall>j < lo. ne_key (es ! j) < key" "\<forall>j. hi \<le> j \<and> j < length es \<longrightarrow> key \<le> ne_key (es ! j)"
  shows "lower_loop es key lo hi \<le> length es \<and>
    (\<forall>j < length es. ne_key (es ! j) < key \<longleftrightarrow> j < lower_loop es key lo hi)"
  using assms
proof (induction es key lo hi rule: lower_loop.induct)
  case (1 es key lo hi)
  show ?case
  proof (cases "lo < hi")
    case False
    with "1.prems" show ?thesis by (subst (1 2) lower_loop.simps) (auto simp: not_less)
  next
    case True
    let ?mid = "(lo + hi) div 2"
    have mid: "lo \<le> ?mid" "?mid < hi" "?mid < length es" using True "1.prems" by auto
    have step: "lower_loop es key lo hi =
        (if ne_key (es ! ?mid) < key then lower_loop es key (?mid + 1) hi else lower_loop es key lo ?mid)"
      using True by (subst lower_loop.simps) (simp add: Let_def)
    show ?thesis
    proof (cases "ne_key (es ! ?mid) < key")
      case low: True
      have "ne_key (es ! j) < key" if "j < ?mid + 1" for j
        using low keys_strict_nth [OF "1.prems"(1), of j ?mid] that mid by (cases "j = ?mid") auto
      with "1.IH"(1) [OF True refl low] "1.prems" mid show ?thesis by (simp add: step low)
    next
      case high: False
      have "key \<le> ne_key (es ! j)" if "?mid \<le> j" "j < length es" for j
        using high keys_strict_nth [OF "1.prems"(1), of ?mid j] that mid by (cases "j = ?mid") auto
      with "1.IH"(2) [OF True refl high] "1.prems" mid show ?thesis by (simp add: step high)
    qed
  qed
qed

lemma lowerBound_spec: "keys_strict es \<Longrightarrow> lowerBound es key \<le> length es \<and>
    (\<forall>j < length es. ne_key (es ! j) < key \<longleftrightarrow> j < lowerBound es key)"
  unfolding lowerBound_def by (rule lower_loop_spec) auto

lemma slice_filter:
  assumes "\<And>i. i < length xs \<Longrightarrow> P (xs ! i) \<longleftrightarrow> a \<le> i \<and> i < b"
  shows "take (b - a) (drop a xs) = filter P xs"
  using assms
proof (induction xs arbitrary: a b)
  case (Cons x xs)
  have IH: "take (b - 1 - (a - 1)) (drop (a - 1) xs) = filter P xs" if "0 < b"
    by (rule Cons.IH) (use Cons.prems [of "Suc _"] that in auto)
  have x: "P x \<longleftrightarrow> a = 0 \<and> 0 < b" using Cons.prems [of 0] by simp
  have none: "filter P xs = []" if "b = 0"
    using Cons.prems [of "Suc _"] that by (auto simp: filter_empty_conv in_set_conv_nth)
  show ?case
    using x IH none by (cases a; cases b) auto
qed simp

lemma getEntriesInRange_filter: "keys_strict es \<Longrightarrow> getEntriesInRange es s e = filter (in_range (s, e)) es"
proof -
  assume es: "keys_strict es"
  let ?a = "case s of None \<Rightarrow> 0 | Some k \<Rightarrow> lowerBound es k"
  let ?b = "case e of None \<Rightarrow> length es | Some k \<Rightarrow> lowerBound es k"
  have "in_range (s, e) (es ! i) \<longleftrightarrow> ?a \<le> i \<and> i < ?b" if "i < length es" for i
    using that lowerBound_spec [OF es] by (auto simp: in_range_def not_less [symmetric] split: option.split)
  then have "take (?b - ?a) (drop ?a es) = filter (in_range (s, e)) es" by (rule slice_filter)
  then show ?thesis by (auto simp: getEntriesInRange_def Let_def)
qed


subsection \<open>Partitions cover their range and are small\<close>

abbreviation part_of :: "neg_entry list \<Rightarrow> string option \<times> string option \<Rightarrow> neg_entry list" where
  "part_of es se \<equiv> filter (in_range se) es"

lemma boundary_pairs_cover:
  "(case s of None \<Rightarrow> True | Some k \<Rightarrow> k \<le> ne_key x) \<Longrightarrow> (case last (s # bs) of None \<Rightarrow> True | Some k \<Rightarrow> ne_key x < k) \<Longrightarrow>
    bs \<noteq> [] \<Longrightarrow> None \<notin> set (butlast bs) \<Longrightarrow> \<exists>se \<in> set (boundary_pairs (s # bs)). in_range se x"
proof (induction bs arbitrary: s)
  case (Cons e bs)
  show ?case
  proof (cases "case e of None \<Rightarrow> True | Some k \<Rightarrow> ne_key x < k")
    case True
    with Cons.prems(1) have "in_range (s, e) x" "\<not> (s \<noteq> None \<and> e \<noteq> None \<and> the s \<ge> the e)"
      by (auto simp: in_range_def)
    then show ?thesis by auto
  next
    case False
    then obtain k where e: "e = Some k" "k \<le> ne_key x" by (auto split: option.splits)
    with False Cons.prems(2) have "bs \<noteq> []" by (auto split: if_splits)
    with Cons.IH [of e] Cons.prems e have "\<exists>se \<in> set (boundary_pairs (e # bs)). in_range se x" by auto
    then show ?thesis by auto
  qed
qed simp

lemma boundary_pairs_consecutive:
  "se \<in> set (boundary_pairs bs) \<Longrightarrow> \<exists>i. Suc i < length bs \<and> se = (bs ! i, bs ! Suc i)"
proof (induction bs rule: boundary_pairs.induct)
  case (1 s e bs)
  then have "se = (s, e) \<or> se \<in> set (boundary_pairs (e # bs))" by (auto split: if_splits)
  then show ?case
  proof
    assume "se \<in> set (boundary_pairs (e # bs))"
    with "1.IH" obtain i where "Suc i < length (e # bs)" "se = ((e # bs) ! i, (e # bs) ! Suc i)"
      by (cases "s \<noteq> None \<and> e \<noteq> None \<and> the s \<ge> the e") auto
    then show ?thesis by (intro exI [of _ "Suc i"]) simp
  qed auto
qed auto

lemma boundaries_nth:
  assumes "0 < m" "i \<le> m"
  shows "boundaries s e es m ! i =
    (if i = 0 then s else if i = m then e else Some (ne_key (es ! (i * length es div m))))"
  using assms by (cases i) (auto simp: boundaries_def nth_append)

lemma div_step: "n \<le> m * (M :: nat) \<Longrightarrow> 0 < m \<Longrightarrow> Suc i * n div m \<le> i * n div m + M"
proof -
  assume n: "n \<le> m * M" "0 < m"
  then have "Suc i * n \<le> i * n + m * M" by simp
  then have "Suc i * n div m \<le> (i * n + m * M) div m" by (rule div_le_mono)
  with n(2) show ?thesis by simp
qed

text \<open>The entries between two consecutive boundaries lie between the two indexes.\<close>

lemma consecutive_part:
  assumes es: "keys_strict es" and m: "0 < m" "m \<le> length es" and M: "length es \<le> m * M" and i: "i < m"
  shows "length (part_of es (boundaries s e es m ! i, boundaries s e es m ! Suc i)) \<le> M"
proof -
  let ?n = "length es"
  have idx: "j * ?n div m < ?n" if "j < m" for j
    using that m by (auto simp: div_less_iff_less_mult mult.commute)
  have "j \<in> {i * ?n div m ..< Suc i * ?n div m}"
    if j: "j < ?n" "in_range (boundaries s e es m ! i, boundaries s e es m ! Suc i) (es ! j)" for j
  proof -
    have "i * ?n div m \<le> j"
      using j(2) i idx [OF i] j(1) keys_strict_nth [OF es j(1) idx [OF i]]
      by (cases "i = 0") (auto simp: in_range_def boundaries_nth m not_less [symmetric])
    moreover have "j < Suc i * ?n div m"
    proof (cases "Suc i = m")
      case True
      then show ?thesis using j(1) m by simp
    next
      case False
      with i have i': "Suc i < m" by simp
      with j(2) False keys_strict_nth [OF es j(1) idx [OF i']] show ?thesis
        by (simp add: in_range_def boundaries_nth m)
    qed
    ultimately show ?thesis by simp
  qed
  then have "{j. j < ?n \<and> in_range (boundaries s e es m ! i, boundaries s e es m ! Suc i) (es ! j)}
      \<subseteq> {i * ?n div m ..< Suc i * ?n div m}" by blast
  from card_mono [OF _ this] div_step [OF M m(1), of i] show ?thesis
    by (simp add: length_filter_conv_card)
qed

lemma part_of_part:
  assumes "\<And>x. x \<in> set es \<Longrightarrow> in_range q x \<Longrightarrow> in_range r x"
  shows "part_of es q = part_of (part_of es r) q"
  using assms by (auto intro: filter_cong)


abbreviation bounds_of :: "neg_range \<Rightarrow> string option \<times> string option" where
  "bounds_of r \<equiv> (ng_start r, ng_end r)"

lemma boundary_in_range:
  assumes "0 < m" "m \<le> length es" "\<forall>x \<in> set es. in_range (s, e) x" "i < m"
    and "in_range (boundaries s e es m ! i, boundaries s e es m ! Suc i) x"
  shows "in_range (s, e) x"
proof -
  have inside: "in_range (s, e) (es ! (j * length es div m))" if "j < m" for j
  proof -
    have "j * length es div m < length es"
      using that assms(1,2) by (auto simp: div_less_iff_less_mult mult.commute)
    then show ?thesis using assms(3) by simp
  qed
  have "case s of None \<Rightarrow> True | Some k \<Rightarrow> k \<le> ne_key x"
    using assms(1,4,5) inside [OF assms(4)]
    by (cases "i = 0") (auto simp: in_range_def boundaries_nth split: option.splits)
  moreover have "case e of None \<Rightarrow> True | Some k \<Rightarrow> ne_key x < k"
    using assms(1,4,5) inside [of "Suc i"]
    by (cases "Suc i = m") (auto simp: in_range_def boundaries_nth split: option.splits)
  ultimately show ?thesis by (simp add: in_range_def)
qed

lemma partitionRange_spec:
  assumes R: "keys_strict R" and big: "ENUMERATE_THRESHOLD < length (part_of R (bounds_of r))"
  defines "ps \<equiv> partitionRange r (part_of R (bounds_of r))"
  shows "in_range (bounds_of r) x \<Longrightarrow> \<exists>se \<in> set ps. in_range se x"
    and "se \<in> set ps \<Longrightarrow> in_range se x \<Longrightarrow> in_range (bounds_of r) x"
    and "se \<in> set ps \<Longrightarrow> length (part_of R (bounds_of r)) \<le> 16 * M \<Longrightarrow> length (part_of R se) \<le> M"
proof -
  let ?es = "part_of R (bounds_of r)"
  let ?bs = "boundaries (ng_start r) (ng_end r) ?es 16"
  have n: "16 \<le> length ?es" "?es \<noteq> []" using big by (auto simp: ENUMERATE_THRESHOLD_def)
  have es: "keys_strict ?es" using R by (rule sorted_wrt_filter)
  have cover: "\<exists>se \<in> set (boundary_pairs ?bs). in_range se x" if "in_range (bounds_of r) x" for x
    using that unfolding boundaries_def
    by (intro boundary_pairs_cover) (auto simp: in_range_def butlast_append)
  from n obtain y where y: "y \<in> set ?es" by (cases ?es) auto
  then have "in_range (bounds_of r) y" by simp
  from cover [OF this] have "boundary_pairs ?bs \<noteq> []" by auto
  then have ps: "ps = boundary_pairs ?bs"
    using n by (auto simp: ps_def partitionRange_def SPLIT_BUCKETS_def Let_def min_def)
  have len: "length ?bs = 17" by (simp add: boundaries_def)
  have pair: "\<exists>i < 16. se = (?bs ! i, ?bs ! Suc i)" if "se \<in> set ps" for se
    using boundary_pairs_consecutive that len unfolding ps by fastforce
  show "in_range (bounds_of r) x \<Longrightarrow> \<exists>se \<in> set ps. in_range se x" using cover ps by simp
  show sub: "in_range (bounds_of r) x" if "se \<in> set ps" "in_range se x" for se x
  proof -
    from pair [OF that(1)] obtain i where i: "i < 16" "se = (?bs ! i, ?bs ! Suc i)" by blast
    show ?thesis by (rule boundary_in_range [OF _ n(1) _ i(1) that(2) [unfolded i(2)]]) simp_all
  qed
  show "length (part_of R se) \<le> M" if "se \<in> set ps" "length ?es \<le> 16 * M"
  proof -
    from pair [OF that(1)] obtain i where i: "i < 16" "se = (?bs ! i, ?bs ! Suc i)" by blast
    have "part_of R se = part_of ?es se" by (rule part_of_part) (rule sub [OF that(1)])
    with consecutive_part [OF es _ n(1) that(2) i(1)] i(2) show ?thesis by simp
  qed
qed

text \<open>What the answer to a list of ranges holds.\<close>

definition listed :: "neg_entry list \<Rightarrow> neg_range \<Rightarrow> bool" where
  "listed es r \<longleftrightarrow> \<not> matches es r \<and> enumerates es r"

definition split_up :: "neg_entry list \<Rightarrow> neg_range \<Rightarrow> bool" where
  "split_up es r \<longleftrightarrow> \<not> matches es r \<and> \<not> enumerates es r"

abbreviation entry_ids :: "neg_entry list \<Rightarrow> string set" where
  "entry_ids es \<equiv> (\<lambda>x. ni_id (ne_item x)) ` set es"

lemma set_fold_ids: "set (fold (\<lambda>e. js_add (ni_id (ne_item e))) es have0) = entry_ids es \<union> set have0"
  by (induction es arbitrary: have0) auto

lemma answer_ranges_spec:
  "answer_ranges es rs (h, c, e) = (h', c', e') \<Longrightarrow>
    set h' = set h \<union> (\<Union>r \<in> {r \<in> set rs. listed es r}. entry_ids (getEntriesInRange es (ng_start r) (ng_end r))) \<and>
    set c' = set c \<union> (\<Union>r \<in> {r \<in> set rs. split_up es r}.
      range_of es ` set (partitionRange r (getEntriesInRange es (ng_start r) (ng_end r)))) \<and>
    set e' = set e \<union> bounds_of ` {r \<in> set rs. listed es r}"
proof (induction rs arbitrary: h c e)
  case (Cons r rs)
  consider "matches es r" | "listed es r" | "split_up es r" by (auto simp: listed_def split_up_def)
  then show ?case
  proof cases
    case 1
    then have "{x \<in> set (r # rs). listed es x} = {x \<in> set rs. listed es x}"
      "{x \<in> set (r # rs). split_up es x} = {x \<in> set rs. split_up es x}"
      by (auto simp: listed_def split_up_def)
    with 1 Cons show ?thesis by (simp add: Let_def)
  next
    case 2
    then have "{x \<in> set (r # rs). listed es x} = insert r {x \<in> set rs. listed es x}"
      "{x \<in> set (r # rs). split_up es x} = {x \<in> set rs. split_up es x}"
      by (auto simp: listed_def split_up_def)
    with Cons.IH [OF Cons.prems [simplified Let_def answer_ranges.simps, simplified 2 [unfolded listed_def], simplified]]
    show ?thesis by (auto simp: set_fold_ids)
  next
    case 3
    then have "{x \<in> set (r # rs). listed es x} = {x \<in> set rs. listed es x}"
      "{x \<in> set (r # rs). split_up es x} = insert r {x \<in> set rs. split_up es x}"
      by (auto simp: listed_def split_up_def)
    with Cons.IH [OF Cons.prems [simplified Let_def answer_ranges.simps, simplified 3 [unfolded split_up_def], simplified]]
    show ?thesis by auto
  qed
qed simp


subsection \<open>Reconciliation\<close>

lemma absorb_have_spec:
  "absorb_have localIds ids (need, remoteHave) = (need', remoteHave') \<Longrightarrow>
    set need' = set need \<union> (set ids - set localIds) \<and> set remoteHave' = set remoteHave \<union> set ids"
  unfolding absorb_have_def
  by (induction ids arbitrary: need remoteHave) (auto split: if_splits)

lemma absorb_excess_spec: "set (absorb_excess es ranges remoteHave excess) =
    set excess \<union> ((\<Union>se \<in> set ranges. entry_ids (getEntriesInRange es (fst se) (snd se))) - set remoteHave)"
proof -
  have "set (fold (\<lambda>e x. if ni_id (ne_item e) \<notin> set remoteHave then js_add (ni_id (ne_item e)) x else x) xs excess) =
      set excess \<union> (entry_ids xs - set remoteHave)" for xs
    by (induction xs arbitrary: excess) auto
  then show ?thesis by (auto simp: absorb_excess_def)
qed

text \<open>
  Two lists of entries that reconciliation tells apart: sorted by key, an id has one key, and the
  fingerprints and sizes of a range agree only where the two hold the same ids in it (SHA-256 digests
  combined with exclusive or do not collide on these ranges).
\<close>

definition comparable :: "neg_entry list \<Rightarrow> neg_entry list \<Rightarrow> bool" where
  "comparable L R \<longleftrightarrow> keys_strict L \<and> keys_strict R \<and>
     (\<forall>x \<in> set L. \<forall>y \<in> set R. ni_id (ne_item x) = ni_id (ne_item y) \<longrightarrow> ne_key x = ne_key y) \<and>
     (\<forall>se. length (part_of L se) = length (part_of R se) \<and>
        fingerprintEntries (part_of L se) = fingerprintEntries (part_of R se) \<longrightarrow>
        entry_ids (part_of L se) = entry_ids (part_of R se))"

lemma comparableD:
  assumes "comparable L R"
  shows "keys_strict L" "keys_strict R"
    "x \<in> set L \<Longrightarrow> y \<in> set R \<Longrightarrow> ni_id (ne_item x) = ni_id (ne_item y) \<Longrightarrow> in_range se x \<longleftrightarrow> in_range se y"
    "length (part_of L se) = length (part_of R se) \<Longrightarrow>
      fingerprintEntries (part_of L se) = fingerprintEntries (part_of R se) \<Longrightarrow> entry_ids (part_of L se) = entry_ids (part_of R se)"
proof -
  assume xy: "x \<in> set L" "y \<in> set R" "ni_id (ne_item x) = ni_id (ne_item y)"
  with assms have "ne_key x = ne_key y" unfolding comparable_def by blast
  then show "in_range se x \<longleftrightarrow> in_range se y" by (simp add: in_range_def split: option.split)
qed (use assms [unfolded comparable_def] in blast)+

definition ids_within :: "neg_entry list \<Rightarrow> neg_range set \<Rightarrow> string set" where
  "ids_within es Q = (\<Union>r \<in> Q. entry_ids (part_of es (bounds_of r)))"

lemma ids_within_simps: "ids_within es (Q \<union> Q') = ids_within es Q \<union> ids_within es Q'" "ids_within es {} = {}"
  by (auto simp: ids_within_def)

lemma ids_within_subset: "ids_within es Q \<subseteq> entry_ids es"
  by (auto simp: ids_within_def)

lemma ids_within_iff:
  "k \<in> ids_within es Q \<longleftrightarrow> (\<exists>r \<in> Q. \<exists>x \<in> set es. in_range (bounds_of r) x \<and> k = ni_id (ne_item x))"
  by (auto simp: ids_within_def)

lemma ids_within_other:
  assumes "comparable L R"
  shows "k \<in> ids_within L Q \<Longrightarrow> k \<in> entry_ids R \<Longrightarrow> k \<in> ids_within R Q"
    and "k \<in> ids_within R Q \<Longrightarrow> k \<in> entry_ids L \<Longrightarrow> k \<in> ids_within L Q"
proof -
  show "k \<in> ids_within R Q" if "k \<in> ids_within L Q" "k \<in> entry_ids R"
  proof -
    from that obtain r x y where "r \<in> Q" "x \<in> set L" "in_range (bounds_of r) x" "k = ni_id (ne_item x)"
      "y \<in> set R" "k = ni_id (ne_item y)" unfolding ids_within_iff by blast
    moreover from this have "in_range (bounds_of r) y" using comparableD(3) [OF assms] by metis
    ultimately show ?thesis unfolding ids_within_iff by blast
  qed
  show "k \<in> ids_within L Q" if "k \<in> ids_within R Q" "k \<in> entry_ids L"
  proof -
    from that obtain r x y where "r \<in> Q" "x \<in> set L" "in_range (bounds_of r) y" "k = ni_id (ne_item x)"
      "y \<in> set R" "k = ni_id (ne_item y)" unfolding ids_within_iff by blast
    moreover from this have "in_range (bounds_of r) x" using comparableD(3) [OF assms] by metis
    ultimately show ?thesis unfolding ids_within_iff by blast
  qed
qed

lemma ids_within_agree:
  assumes "comparable L R"
  shows "ids_within L Q - ids_within R Q = ids_within L Q - entry_ids R"
    and "ids_within R Q - ids_within L Q = ids_within R Q - entry_ids L"
  using ids_within_other [OF assms, where Q = Q] subsetD [OF ids_within_subset [of L Q]] subsetD [OF ids_within_subset [of R Q]]
  by blast+

lemma matched_within:
  assumes "comparable L R" "\<forall>r \<in> Q. matches R r \<and> r = range_of L (bounds_of r)"
  shows "ids_within L Q = ids_within R Q"
proof -
  have "entry_ids (part_of L (bounds_of r)) = entry_ids (part_of R (bounds_of r))" if "r \<in> Q" for r
  proof (rule comparableD(4) [OF assms(1)])
    have "r = range_of L (bounds_of r)" "matches R r" using assms(2) that by auto
    then have "matches R (range_of L (bounds_of r))" by metis
    then show "length (part_of L (bounds_of r)) = length (part_of R (bounds_of r))"
      "fingerprintEntries (part_of L (bounds_of r)) = fingerprintEntries (part_of R (bounds_of r))"
      using comparableD(1,2) [OF assms(1)]
      by (simp_all add: matches_def range_of_def Let_def getEntriesInRange_filter)
  qed
  then show ?thesis unfolding ids_within_def by blast
qed

text \<open>The ranges to go on with cover the same entries as the ranges that were split.\<close>

definition refined :: "neg_entry list \<Rightarrow> neg_range set \<Rightarrow> (string option \<times> string option) set" where
  "refined R Q = (\<Union>r \<in> Q. set (partitionRange r (part_of R (bounds_of r))))"

lemma split_up_big:
  "keys_strict R \<Longrightarrow> split_up R r \<Longrightarrow> ENUMERATE_THRESHOLD < length (part_of R (bounds_of r))"
  by (simp add: split_up_def enumerates_def getEntriesInRange_filter Let_def min_le_iff_disj not_le)

lemma refined_within:
  assumes "keys_strict R" "\<forall>r \<in> Q. split_up R r"
  shows "(\<Union>se \<in> refined R Q. entry_ids (part_of es se)) = ids_within es Q"
proof -
  have "(\<Union>se \<in> set (partitionRange r (part_of R (bounds_of r))). entry_ids (part_of es se)) = entry_ids (part_of es (bounds_of r))"
    if "r \<in> Q" for r
  proof -
    have big: "ENUMERATE_THRESHOLD < length (part_of R (bounds_of r))"
      using split_up_big [OF assms(1)] assms(2) that by blast
    have "(\<exists>se \<in> set (partitionRange r (part_of R (bounds_of r))). in_range se x) \<longleftrightarrow> in_range (bounds_of r) x" for x
      using partitionRange_spec(1,2) [OF assms(1) big] by blast
    then show ?thesis by auto
  qed
  then show ?thesis by (simp add: refined_def ids_within_def)
qed


text \<open>
  One round: the answer to a query whose ranges describe \<open>L\<close> is exact on the ranges that are not split,
  and the next query covers the ones that are, with at most a sixteenth of the entries in each range.
\<close>

lemma answer_to_query:
  assumes LR: "comparable L R" and Q: "Q \<noteq> []" "\<forall>r \<in> set Q. r = range_of L (bounds_of r)"
    and m: "neg_entries m = R"
  defines "a \<equiv> processQuery m Q"
    and "settled \<equiv> {r \<in> set Q. \<not> split_up R r}" and "still \<equiv> {r \<in> set Q. split_up R r}"
  shows "set (nr_have a) \<subseteq> entry_ids R"
    and "set (nr_have a) - entry_ids L = ids_within R settled - entry_ids L"
    and "(\<Union>se \<in> set (list_or (nr_enumeratedRanges a)). entry_ids (getEntriesInRange L (fst se) (snd se))) - (entry_ids R \<inter> set (nr_have a))
      = ids_within L settled - entry_ids R"
    and "set (list_or (nr_continueWith a)) = range_of R ` refined R still"
proof -
  let ?listed = "{r \<in> set Q. listed R r}" and ?same = "{r \<in> set Q. matches R r}"
  have strict: "keys_strict L" "keys_strict R" using comparableD(1,2) [OF LR] by simp_all
  obtain h c e where ans: "answer_ranges R Q ([], [], []) = (h, c, e)" by (cases "answer_ranges R Q ([], [], [])")
  have a: "nr_have a = h" "list_or (nr_continueWith a) = c" "list_or (nr_enumeratedRanges a) = e"
    using Q(1) by (simp_all add: a_def processQuery_def m ans list_or_def)
  note spec = answer_ranges_spec [OF ans]
  have h: "set h = ids_within R ?listed"
    using spec strict by (simp add: ids_within_def getEntriesInRange_filter)
  have "settled = ?listed \<union> ?same" by (auto simp: settled_def listed_def split_up_def)
  then have within: "ids_within es settled = ids_within es ?listed \<union> ids_within es ?same" for es
    by (simp add: ids_within_simps)
  have same: "ids_within L ?same = ids_within R ?same"
    using Q(2) by (intro matched_within [OF LR]) auto
  show "set (nr_have a) \<subseteq> entry_ids R" using h ids_within_subset a(1) by blast
  show "set (nr_have a) - entry_ids L = ids_within R settled - entry_ids L"
    using a(1) h within [of R] same ids_within_subset [of L ?same] by auto
  have "(\<Union>se \<in> set e. entry_ids (getEntriesInRange L (fst se) (snd se))) = ids_within L ?listed"
    using spec strict by (simp add: ids_within_def getEntriesInRange_filter)
  moreover have "ids_within L ?listed - (entry_ids R \<inter> set h) = ids_within L ?listed - entry_ids R"
    using h ids_within_agree(1) [OF LR, of ?listed] ids_within_subset [of R ?listed] by blast
  moreover have "ids_within L settled - entry_ids R = ids_within L ?listed - entry_ids R"
    using within [of L] same ids_within_subset [of R ?same] by auto
  ultimately show "(\<Union>se \<in> set (list_or (nr_enumeratedRanges a)). entry_ids (getEntriesInRange L (fst se) (snd se))) -
      (entry_ids R \<inter> set (nr_have a)) = ids_within L settled - entry_ids R"
    using a(1,3) by simp
  show "set (list_or (nr_continueWith a)) = range_of R ` refined R still"
    using spec strict a(2) by (auto simp: refined_def still_def getEntriesInRange_filter)
qed

lemma bounds_of_range_of [simp]: "bounds_of (range_of es se) = se" "ng_start (range_of es se) = fst se"
    "ng_end (range_of es se) = snd se"
  by (simp_all add: range_of_def Let_def)

lemma rounds_correct:
  assumes LR: "comparable L R" and n: "neg_entries n = L" "set (map ni_id (neg_items n)) = entry_ids L" and m: "neg_entries m = R"
  shows "Q \<noteq> [] \<Longrightarrow> \<forall>r \<in> set Q. r = range_of L (bounds_of r) \<Longrightarrow>
    \<forall>r \<in> set Q. length (part_of R (bounds_of r)) \<le> 256 * 16 ^ k \<Longrightarrow> k < rounds \<Longrightarrow> set remoteHave \<subseteq> entry_ids R \<Longrightarrow>
    reconcile_rounds n (processQuery m) rounds Q (need, remoteHave, excess) = (need', excess') \<Longrightarrow>
    set need' = set need \<union> (ids_within R (set Q) - entry_ids L) \<and>
    set excess' = set excess \<union> (ids_within L (set Q) - entry_ids R)"
proof (induction rounds arbitrary: Q k need remoteHave excess)
  case (Suc rounds)
  let ?a = "processQuery m Q" and ?open = "{r \<in> set Q. split_up R r}" and ?done = "{r \<in> set Q. \<not> split_up R r}"
  note answer = answer_to_query [OF LR Suc.prems(1,2) m]
  obtain need1 have1 where absorb: "absorb_have (map ni_id (neg_items n)) (nr_have ?a) (need, remoteHave) = (need1, have1)"
    by fastforce
  define excess1 where "excess1 = absorb_excess L (list_or (nr_enumeratedRanges ?a)) have1 excess"
  let ?cont = "list_or (nr_continueWith ?a)" and ?next = "\<lambda>r. range_of L (bounds_of r)"
  have need1: "set need1 = set need \<union> (ids_within R ?done - entry_ids L)" "set have1 \<subseteq> entry_ids R"
      "set (nr_have ?a) \<subseteq> set have1"
    using absorb_have_spec [OF absorb] n(2) answer(1,2) Suc.prems(5) by auto
  have excess1: "set excess1 = set excess \<union> (ids_within L ?done - entry_ids R)"
  proof -
    let ?U = "\<Union>se \<in> set (list_or (nr_enumeratedRanges ?a)). entry_ids (getEntriesInRange L (fst se) (snd se))"
    have "?U - set have1 = (?U - (entry_ids R \<inter> set (nr_have ?a))) - entry_ids R \<union> (?U \<inter> entry_ids R - set have1)"
      using need1(2,3) by blast
    moreover have "?U \<inter> entry_ids R - set have1 = {}" using answer(3) need1(3) by blast
    ultimately have "?U - set have1 = ids_within L ?done - entry_ids R" unfolding answer(3) by blast
    then show ?thesis unfolding excess1_def absorb_excess_spec by simp
  qed
  have Q: "ids_within es (set Q) = ids_within es ?done \<union> ids_within es ?open" for es
    unfolding ids_within_def by blast
  have strict: "keys_strict R" using comparableD(2) [OF LR] .
  have refined: "(\<Union>se \<in> refined R ?open. entry_ids (part_of es se)) = ids_within es ?open" for es
    by (rule refined_within [OF strict]) simp
  have step: "(if ?cont = [] then (need1, excess1)
      else reconcile_rounds n (processQuery m) rounds (map ?next ?cont) (need1, have1, excess1)) = (need', excess')"
    using Suc.prems(6) unfolding excess1_def by (simp add: absorb n(1) Let_def cong: if_cong)
  show ?case
  proof (cases "?cont = []")
    case True
    with answer(4) have "refined R ?open = {}" by simp
    with refined have "ids_within es ?open = {}" for es by simp
    moreover have "need' = need1" "excess' = excess1" using step True by simp_all
    ultimately show ?thesis using need1(1) excess1 Q by simp
  next
    case False
    have small: "length (part_of R se) \<le> 256 * 16 ^ (k - 1) \<and> 0 < k" if se: "se \<in> refined R ?open" for se
    proof -
      from se obtain r where r: "r \<in> set Q" "split_up R r" "se \<in> set (partitionRange r (part_of R (bounds_of r)))"
        by (auto simp: refined_def)
      have big: "ENUMERATE_THRESHOLD < length (part_of R (bounds_of r))" by (rule split_up_big [OF strict r(2)])
      have "length (part_of R (bounds_of r)) \<le> 256 * 16 ^ k" using Suc.prems(3) r(1) by blast
      moreover from this big have "0 < k" by (cases k) (auto simp: ENUMERATE_THRESHOLD_def)
      ultimately show ?thesis
        using partitionRange_spec(3) [OF strict big r(3), of "256 * 16 ^ (k - 1)"] by (cases k) auto
    qed
    have after: "set (map ?next ?cont) = range_of L ` refined R ?open"
      by (simp only: set_map answer(4) image_image bounds_of_range_of prod.collapse)
    have within: "ids_within es (set (map ?next ?cont)) = ids_within es ?open" for es
      unfolding after using refined [of es] by (simp add: ids_within_def image_image)
    have pos: "0 < k" "k - 1 < rounds"
    proof -
      have "refined R ?open \<noteq> {}" using False answer(4) by (metis image_empty set_empty)
      then obtain se where "se \<in> refined R ?open" by blast
      with small have "0 < k" by blast
      with Suc.prems(4) show "0 < k" "k - 1 < rounds" by simp_all
    qed
    have "set need' = set need1 \<union> (ids_within R (set (map ?next ?cont)) - entry_ids L) \<and>
        set excess' = set excess1 \<union> (ids_within L (set (map ?next ?cont)) - entry_ids R)"
    proof (rule Suc.IH [OF _ _ _ pos(2) need1(2)])
      show "reconcile_rounds n (processQuery m) rounds (map ?next ?cont) (need1, have1, excess1) = (need', excess')"
        using step False by simp
      show "\<forall>r \<in> set (map ?next ?cont). length (part_of R (bounds_of r)) \<le> 256 * 16 ^ (k - 1)"
        unfolding after using small by auto
    qed (use False after in auto)
    then show ?thesis unfolding need1(1) excess1 within Q by blast
  qed
qed simp


subsection \<open>Fixed-width keys are ordered like the items\<close>

lemma prefix_less: "length a = length b \<Longrightarrow> (a :: string) < b \<Longrightarrow> a @ u < b @ v"
  by (induction a b rule: list_induct2) auto

lemma same_prefix_less: "(a :: string) @ u < a @ v \<longleftrightarrow> u < v"
  by (induction a) auto

lemma digit_less: "m < n \<Longrightarrow> n < 10 \<Longrightarrow> digit_char m < digit_char n"
  by (simp add: less_char_def of_char_digit)

lemma digit_zero: "digit_char 0 = CHR ''0''"
  by code_simp

lemma show_nat_digit: "n < 10 \<Longrightarrow> show_nat n = [digit_char n]"
  by (subst show_nat.simps) simp

lemma pad_show_nat_Suc:
  "0 < k \<Longrightarrow> pad_start (Suc k) (show_nat n) = pad_start k (show_nat (n div 10)) @ [digit_char (n mod 10)]"
proof (cases "n < 10")
  case True
  assume "0 < k"
  then obtain j where "k = Suc j" by (cases k) auto
  with True show ?thesis by (simp add: pad_start_def show_nat_digit digit_zero replicate_append_same)
qed (simp add: pad_start_def show_nat.simps [of n])

lemma length_pad_show_nat: "n < 10 ^ Suc k \<Longrightarrow> length (pad_start (Suc k) (show_nat n)) = Suc k"
proof (induction k arbitrary: n)
  case 0
  then show ?case by (simp add: pad_start_def show_nat_digit)
next
  case (Suc k)
  then have "n div 10 < 10 ^ Suc k" by (simp add: div_less_iff_less_mult mult.commute)
  from Suc.IH [OF this] show ?case by (subst pad_show_nat_Suc) simp_all
qed

lemma pad_show_nat_less: "m < n \<Longrightarrow> n < 10 ^ Suc k \<Longrightarrow> pad_start (Suc k) (show_nat m) < pad_start (Suc k) (show_nat n)"
proof (induction k arbitrary: m n)
  case 0
  then show ?case by (simp add: pad_start_def show_nat_digit digit_less)
next
  case (Suc k)
  let ?p = "\<lambda>n. pad_start (Suc k) (show_nat n)"
  have bound: "n div 10 < 10 ^ Suc k" "m div 10 < 10 ^ Suc k"
    using Suc.prems by (simp_all add: div_less_iff_less_mult mult.commute)
  have split: "pad_start (Suc (Suc k)) (show_nat i) = ?p (i div 10) @ [digit_char (i mod 10)]" for i
    by (rule pad_show_nat_Suc) simp
  show ?case
  proof (cases "m div 10 = n div 10")
    case True
    have "m = 10 * (m div 10) + m mod 10" "n = 10 * (n div 10) + n mod 10" by simp_all
    with True Suc.prems(1) have "m mod 10 < n mod 10" by linarith
    then have "digit_char (m mod 10) < digit_char (n mod 10)" by (rule digit_less) simp
    with True show ?thesis unfolding split by (simp add: same_prefix_less)
  next
    case False
    with Suc.prems(1) have "m div 10 < n div 10" by (simp add: div_le_mono le_neq_implies_less)
    from Suc.IH [OF this bound(1)] length_pad_show_nat [OF bound(1)] length_pad_show_nat [OF bound(2)]
    show ?thesis unfolding split by (intro prefix_less) simp_all
  qed
qed

definition timestamp_ok :: "neg_item \<Rightarrow> bool" where
  "timestamp_ok i \<longleftrightarrow> 0 \<le> ni_timestamp i \<and> ni_timestamp i < 10 ^ 16"

lemma makeKey_less:
  assumes "timestamp_ok i" "timestamp_ok j"
    and "ni_timestamp i < ni_timestamp j \<or> ni_timestamp i = ni_timestamp j \<and> ni_id i < ni_id j"
  shows "makeKey i < makeKey j"
proof -
  let ?p = "\<lambda>i. pad_start 16 (show_int (ni_timestamp i))"
  have p: "?p i = pad_start (Suc 15) (show_nat (nat (ni_timestamp i)))" "nat (ni_timestamp i) < 10 ^ Suc 15"
    if "timestamp_ok i" for i
    using that by (auto simp: timestamp_ok_def show_int_def)
  show ?thesis
  proof (cases "ni_timestamp i = ni_timestamp j")
    case True
    with assms(3) show ?thesis by (simp add: makeKey_def same_prefix_less)
  next
    case False
    with assms(1,3) have "nat (ni_timestamp i) < nat (ni_timestamp j)" by (auto simp: timestamp_ok_def)
    from pad_show_nat_less [OF this p(2) [OF assms(2)]] have "?p i < ?p j" by (simp only: p(1) assms(1,2))
    moreover have "length (?p i) = length (?p j)"
      using length_pad_show_nat [OF p(2)] p(1) assms(1,2) by metis
    ultimately show ?thesis unfolding makeKey_def by (intro prefix_less)
  qed
qed


text \<open>\<open>localeCompare\<close> orders these ids as code units do (it does for lower-case UUIDs).\<close>

definition code_unit_order :: "(string \<Rightarrow> string \<Rightarrow> int) \<Rightarrow> string set \<Rightarrow> bool" where
  "code_unit_order lc A \<longleftrightarrow> (\<forall>a \<in> A. \<forall>b \<in> A. lc a b \<le> 0 \<longleftrightarrow> a \<le> b)"

definition items_ok :: "(string \<Rightarrow> string \<Rightarrow> int) \<Rightarrow> neg_item list \<Rightarrow> bool" where
  "items_ok lc xs \<longleftrightarrow> distinct (map ni_id xs) \<and> (\<forall>i \<in> set xs. timestamp_ok i) \<and> code_unit_order lc (ni_id ` set xs)"

definition no_collision :: "neg_entry list \<Rightarrow> neg_entry list \<Rightarrow> bool" where
  "no_collision L R \<longleftrightarrow> (\<forall>se. length (part_of L se) = length (part_of R se) \<and>
     fingerprintEntries (part_of L se) = fingerprintEntries (part_of R se) \<longrightarrow> entry_ids (part_of L se) = entry_ids (part_of R se))"

definition same_times :: "neg_item list \<Rightarrow> neg_item list \<Rightarrow> bool" where
  "same_times xs ys \<longleftrightarrow> (\<forall>i \<in> set xs. \<forall>j \<in> set ys. ni_id i = ni_id j \<longrightarrow> ni_timestamp i = ni_timestamp j)"

lemma js_insert_cong: "(\<And>y. y \<in> set xs \<Longrightarrow> c x y \<le> 0 \<longleftrightarrow> d x y \<le> 0) \<Longrightarrow> js_insert c x xs = js_insert d x xs"
  by (induction xs) auto

lemma js_sort_cong:
  "(\<And>x y. x \<in> set xs \<Longrightarrow> y \<in> set xs \<Longrightarrow> c x y \<le> 0 \<longleftrightarrow> d x y \<le> 0) \<Longrightarrow> js_sort c xs = js_sort d xs"
  by (induction xs) (auto intro!: js_insert_cong)

lemma build_neg_strict:
  assumes "items_ok lc xs"
  shows "keys_strict (neg_entries (build_neg lc h xs))"
proof -
  let ?s = "js_sort (item_cmp str_cmp) xs"
  have "js_sort (item_cmp lc) xs = ?s"
    using assms by (intro js_sort_cong)
      (auto simp: items_ok_def code_unit_order_def item_cmp_def cmp_then_def cmp_by_def str_cmp_le)
  moreover have "keys_strict (map (neg_entry_of h) ?s)"
  proof -
    have "comparator UNIV (item_cmp str_cmp)" unfolding item_cmp_def by (intro comparators)
    then have "in_order (item_cmp str_cmp) ?s" by (rule comparator.in_order_sort) simp
    moreover have "distinct (map ni_id ?s)" using assms by (simp add: items_ok_def)
    then have "sorted_wrt (\<lambda>i j. ni_id i \<noteq> ni_id j) ?s"
      unfolding distinct_conv_nth sorted_wrt_iff_nth_less by auto
    ultimately have "sorted_wrt (\<lambda>i j. item_cmp str_cmp i j \<le> 0 \<and> ni_id i \<noteq> ni_id j) ?s"
      by (simp add: sorted_wrt_iff_nth_less)
    then have "sorted_wrt (\<lambda>i j. makeKey i < makeKey j) ?s"
    proof (rule sorted_wrt_mono_rel [rotated])
      fix i j
      assume ij: "i \<in> set ?s" "j \<in> set ?s" "item_cmp str_cmp i j \<le> 0 \<and> ni_id i \<noteq> ni_id j"
      have "ni_timestamp i < ni_timestamp j \<or> ni_timestamp i = ni_timestamp j \<and> ni_id i < ni_id j"
        using ij(3) by (auto simp: item_cmp_def cmp_then_def cmp_by_def num_cmp_def str_cmp_le split: if_splits)
      with assms ij(1,2) show "makeKey i < makeKey j" by (intro makeKey_less) (auto simp: items_ok_def)
    qed
    then show ?thesis by (simp add: sorted_wrt_map neg_entry_of_def)
  qed
  ultimately show ?thesis by (simp add: build_neg_def Let_def)
qed

lemma build_neg_ids: "entry_ids (neg_entries (build_neg lc h xs)) = ni_id ` set xs"
    "ni_id ` set (neg_items (build_neg lc h xs)) = ni_id ` set xs" "length (neg_entries (build_neg lc h xs)) = length xs"
  by (simp_all add: build_neg_def neg_entry_of_def Let_def image_image)

lemma build_neg_comparable:
  assumes "items_ok lc xs" "items_ok lc ys"
    and "same_times xs ys"
    and "no_collision (neg_entries (build_neg lc h xs)) (neg_entries (build_neg lc h ys))"
  shows "comparable (neg_entries (build_neg lc h xs)) (neg_entries (build_neg lc h ys))"
  using assms(3,4) build_neg_strict [OF assms(1)] build_neg_strict [OF assms(2)]
  unfolding comparable_def no_collision_def same_times_def
  by (auto simp: build_neg_def neg_entry_of_def makeKey_def Let_def)

lemma in_range_all [simp]: "in_range (None, None) x"
  by (simp add: in_range_def)

subsection \<open>Properties\<close>

text \<open>
  Property C5. Reconciliation finds exactly which items the initiator lacks and which the other peer lacks, for two peers each of
  whose items have distinct ids, timestamps of at most 16 digits, and ids that \<open>localeCompare\<close> orders as their code
  units do (the code sorts by the one and searches by the other); shared ids must have the same timestamp on both sides,
  and no two ranges of equal size that hold different items may have the same fingerprint. The code's bound of 24 rounds
  is enough for any set of up to \<open>256 * 16 ^ 23\<close> items.
\<close>

theorem reconcile_exact:
  assumes "items_ok lc xs" "items_ok lc ys"
    and "same_times xs ys"
    and "no_collision (neg_entries (build_neg lc h xs)) (neg_entries (build_neg lc h ys))"
    and "length ys \<le> 256 * 16 ^ 23"
    and "reconcile (build_neg lc h xs) (processQuery (build_neg lc h ys)) DEFAULT_MAX_ROUNDS = (need, excess)"
  shows "set need = ni_id ` set ys - ni_id ` set xs \<and> set excess = ni_id ` set xs - ni_id ` set ys"
proof -
  let ?n = "build_neg lc h xs" and ?m = "build_neg lc h ys"
  let ?L = "neg_entries ?n" and ?R = "neg_entries ?m"
  have LR: "comparable ?L ?R" by (rule build_neg_comparable [OF assms(1-4)])
  show ?thesis
  proof (cases "?L = []")
    case True
    then have "xs = []" by (metis build_neg_ids(3) length_0_conv)
    moreover from this have "neg_items ?n = []" by (simp add: build_neg_def)
    ultimately show ?thesis using True assms(6)
      by (auto simp: reconcile_def createQuery_def DEFAULT_MAX_ROUNDS_def numeral_eq_Suc processQuery_def list_or_def
          absorb_excess_def getEntriesInRange_def build_neg_ids set_fold_ids Let_def split: prod.splits
          dest!: absorb_have_spec)
  next
    case False
    let ?q = "range_of ?L (None, None)"
    have q: "createQuery ?n = [?q]"
      using False comparableD(1) [OF LR] by (simp add: createQuery_def range_of_def getEntriesInRange_filter Let_def)
    have "set need = set [] \<union> (ids_within ?R (set [?q]) - entry_ids ?L) \<and>
        set excess = set [] \<union> (ids_within ?L (set [?q]) - entry_ids ?R)"
    proof (rule rounds_correct [OF LR refl _ refl])
      show "reconcile_rounds ?n (processQuery ?m) 24 [?q] ([], [], []) = (need, excess)"
        using assms(6) q by (simp add: reconcile_def DEFAULT_MAX_ROUNDS_def)
      show "\<forall>r \<in> set [?q]. length (part_of ?R (bounds_of r)) \<le> 256 * 16 ^ 23"
        using assms(5) length_filter_le [of _ ?R] by (auto simp: build_neg_ids intro: order_trans)
    qed (simp_all add: build_neg_ids)
    then show ?thesis by (simp add: ids_within_def build_neg_ids)
  qed
qed


lemma no_collision_subset:
  assumes "distinct L" "distinct R" "set L \<subseteq> set R"
  shows "no_collision L R"
  unfolding no_collision_def
proof (intro allI impI)
  fix se
  assume "length (part_of L se) = length (part_of R se) \<and> fingerprintEntries (part_of L se) = fingerprintEntries (part_of R se)"
  then have "card (set (part_of L se)) = card (set (part_of R se))"
    using assms(1,2) by (simp only: distinct_card distinct_filter)
  moreover have "set (part_of L se) \<subseteq> set (part_of R se)" using assms(3) by auto
  ultimately have "set (part_of L se) = set (part_of R se)" by (simp add: card_subset_eq)
  then show "entry_ids (part_of L se) = entry_ids (part_of R se)" by simp
qed

lemma reconcile_exact_witness:
  "case reconcile (build_neg str_cmp (\<lambda>_. replicate 32 1) [\<lparr>ni_id = ''a'', ni_timestamp = 5\<rparr>])
       (processQuery (build_neg str_cmp (\<lambda>_. replicate 32 1)
          [\<lparr>ni_id = ''b'', ni_timestamp = 2\<rparr>, \<lparr>ni_id = ''a'', ni_timestamp = 5\<rparr>])) DEFAULT_MAX_ROUNDS
   of (need, excess) \<Rightarrow> set need = {''b''} \<and> set excess = {}"
proof -
  let ?a = "\<lparr>ni_id = ''a'', ni_timestamp = 5\<rparr>" and ?b = "\<lparr>ni_id = ''b'', ni_timestamp = 2\<rparr>" and ?h = "\<lambda>_. replicate 32 1"
  let ?m = "build_neg str_cmp ?h [?b, ?a]" and ?n = "build_neg str_cmp ?h [?a]"
  have ok: "items_ok str_cmp [?a]" "items_ok str_cmp [?b, ?a]"
    by (simp_all add: items_ok_def timestamp_ok_def code_unit_order_def str_cmp_le)
  have same: "same_times [?a] [?b, ?a]" by (simp add: same_times_def)
  have "no_collision (neg_entries ?n) (neg_entries ?m)"
    by (rule no_collision_subset)
      (simp_all add: build_neg_def neg_entry_of_def item_cmp_def cmp_then_def cmp_by_def num_cmp_def Let_def)
  note exact = reconcile_exact [OF ok same this _]
  obtain need excess where r: "reconcile ?n (processQuery ?m) DEFAULT_MAX_ROUNDS = (need, excess)" by fastforce
  from exact [OF _ r] show ?thesis by (simp add: r insert_Diff_if)
qed

end
