(* ===== verification/ServerDiscovery.thy ===== *)
theory ServerDiscovery
  imports Prelude Complex_Main
begin

section \<open>Signaling servers\<close>

text \<open>
  \<open>workspace/ServerDiscovery.ts\<close>: the signaling servers a workspace knows, their ranking, the merge of a peer's list and
  the limit of fifty. Rates and latencies are rationals where the code has doubles; \<open>Math.exp\<close> and \<open>Date.now()\<close>
  are arguments.
\<close>

record pex_server =
  px_url :: string
  px_lastSeen :: time
  px_successRate :: rat
  px_latency :: "rat option"

record server_stats =
  sv_url :: string
  sv_addedAt :: time
  sv_lastSeen :: time
  sv_successRate :: rat
  sv_totalAttempts :: int
  sv_successfulAttempts :: int
  sv_avgLatency :: rat

record discovery =
  sd_workspaceId :: string
  sd_primaryServer :: string
  sd_knownServers :: "(string, server_stats) jsmap"

definition maxServers :: nat where
  "maxServers = 50"

definition maxAge :: int where
  "maxAge = 30 * 24 * 3600 * 1000"

definition topServersCount :: nat where
  "topServersCount = 5"

definition new_discovery :: "time \<Rightarrow> string \<Rightarrow> string \<Rightarrow> discovery" where
  "new_discovery now ws primary =
     \<lparr>sd_workspaceId = ws, sd_primaryServer = primary,
      sd_knownServers = [(primary, \<lparr>sv_url = primary, sv_addedAt = now, sv_lastSeen = now, sv_successRate = 1,
        sv_totalAttempts = 0, sv_successfulAttempts = 0, sv_avgLatency = 0\<rparr>)]\<rparr>"

subsection \<open>Ranking\<close>

definition rankServer :: "(rat \<Rightarrow> rat) \<Rightarrow> time \<Rightarrow> server_stats \<Rightarrow> rat" where
  "rankServer mexp now s =
     (let age = now - sv_lastSeen s;
          recency = mexp (- of_int age / of_int (7 * 24 * 3600 * 1000));
          reliability = sv_successRate s;
          speed = (if sv_avgLatency s > 0 then 1 / (1 + sv_avgLatency s / 1000) else 1 / 2)
      in recency * (3 / 10) + reliability * (1 / 2) + speed * (2 / 10))"

text \<open>The sign of a difference is all a comparison function needs.\<close>

definition rat_cmp :: "rat \<Rightarrow> rat \<Rightarrow> int" where
  "rat_cmp a b = (if a < b then - 1 else if a = b then 0 else 1)"

definition getRankedServers :: "(rat \<Rightarrow> rat) \<Rightarrow> time \<Rightarrow> discovery \<Rightarrow> server_stats list" where
  "getRankedServers mexp now d =
     js_sort (\<lambda>a b. cmp_by (rankServer mexp now) rat_cmp b a) (jm_values (sd_knownServers d))"

definition getHandshakeServers :: "(rat \<Rightarrow> rat) \<Rightarrow> time \<Rightarrow> discovery \<Rightarrow> pex_server list" where
  "getHandshakeServers mexp now d =
     map (\<lambda>s. \<lparr>px_url = sv_url s, px_lastSeen = sv_lastSeen s, px_successRate = sv_successRate s,
                px_latency = (if sv_avgLatency s = 0 then None else Some (sv_avgLatency s))\<rparr>)
       (take topServersCount (getRankedServers mexp now d))"

subsection \<open>Merging a peer's list\<close>

definition merge_server :: "time \<Rightarrow> pex_server \<Rightarrow> (string, server_stats) jsmap \<Rightarrow> (string, server_stats) jsmap" where
  "merge_server now p m =
     (let latency = (case px_latency p of None \<Rightarrow> 0 | Some l \<Rightarrow> l)
      in case jm_get m (px_url p) of
           None \<Rightarrow>
             jm_set (px_url p)
               \<lparr>sv_url = px_url p, sv_addedAt = now, sv_lastSeen = px_lastSeen p, sv_successRate = px_successRate p,
                sv_totalAttempts = 0, sv_successfulAttempts = 0, sv_avgLatency = latency\<rparr> m
         | Some e \<Rightarrow>
             (if px_lastSeen p > sv_lastSeen e
              then jm_set (px_url p)
                     (e\<lparr>sv_lastSeen := px_lastSeen p, sv_successRate := (sv_successRate e + px_successRate p) / 2,
                        sv_avgLatency := (if latency = 0 then sv_avgLatency e
                                          else if sv_avgLatency e \<noteq> 0 then (sv_avgLatency e + latency) / 2 else latency)\<rparr>) m
              else m))"

definition pruneOldServers :: "time \<Rightarrow> discovery \<Rightarrow> discovery" where
  "pruneOldServers now d =
     d\<lparr>sd_knownServers := filter (\<lambda>(u, s). \<not> (now - sv_lastSeen s > maxAge \<and> u \<noteq> sd_primaryServer d)) (sd_knownServers d)\<rparr>"

definition enforceLimit :: "(rat \<Rightarrow> rat) \<Rightarrow> time \<Rightarrow> discovery \<Rightarrow> discovery" where
  "enforceLimit mexp now d =
     (if length (sd_knownServers d) \<le> maxServers then d
      else
        (let toKeep = sd_primaryServer d # map sv_url (take maxServers (getRankedServers mexp now d))
         in d\<lparr>sd_knownServers := filter (\<lambda>(u, s). u \<in> set toKeep) (sd_knownServers d)\<rparr>))"

definition mergeReceivedServers :: "(rat \<Rightarrow> rat) \<Rightarrow> time \<Rightarrow> pex_server list \<Rightarrow> discovery \<Rightarrow> discovery" where
  "mergeReceivedServers mexp now ps d =
     enforceLimit mexp now (pruneOldServers now (d\<lparr>sd_knownServers := fold (merge_server now) ps (sd_knownServers d)\<rparr>))"

subsection \<open>Recording connections\<close>

definition recordSuccess :: "time \<Rightarrow> string \<Rightarrow> rat \<Rightarrow> discovery \<Rightarrow> discovery" where
  "recordSuccess now url latency d =
     (case jm_get (sd_knownServers d) url of
        None \<Rightarrow> d
      | Some s \<Rightarrow>
          (let t = sv_totalAttempts s + 1; k = sv_successfulAttempts s + 1
           in d\<lparr>sd_knownServers := jm_set url
                (s\<lparr>sv_totalAttempts := t, sv_successfulAttempts := k, sv_lastSeen := now, sv_successRate := of_int k / of_int t,
                   sv_avgLatency := (if sv_avgLatency s = 0 then latency else sv_avgLatency s * (7 / 10) + latency * (3 / 10))\<rparr>)
                (sd_knownServers d)\<rparr>))"

definition recordFailure :: "string \<Rightarrow> discovery \<Rightarrow> discovery" where
  "recordFailure url d =
     (case jm_get (sd_knownServers d) url of
        None \<Rightarrow> d
      | Some s \<Rightarrow>
          (let t = sv_totalAttempts s + 1
           in d\<lparr>sd_knownServers := jm_set url
                (s\<lparr>sv_totalAttempts := t, sv_successRate := of_int (sv_successfulAttempts s) / of_int t\<rparr>) (sd_knownServers d)\<rparr>))"

subsection \<open>Persistence\<close>

definition discovery_toJSON :: "discovery \<Rightarrow> string \<times> server_stats list" where
  "discovery_toJSON d = (sd_workspaceId d, jm_values (sd_knownServers d))"

definition discovery_fromJSON :: "time \<Rightarrow> string \<times> server_stats list \<Rightarrow> string \<Rightarrow> discovery" where
  "discovery_fromJSON now data primary =
     (let d = new_discovery now (fst data) primary
      in d\<lparr>sd_knownServers := fold (\<lambda>s. jm_set (sv_url s) s) (snd data) (sd_knownServers d)\<rparr>)"

subsection \<open>The limit\<close>

definition known_ok :: "(string, server_stats) jsmap \<Rightarrow> bool" where
  "known_ok m \<longleftrightarrow> wf_map m \<and> (\<forall>u s. jm_get m u = Some s \<longrightarrow> sv_url s = u)"

definition discovery_ok :: "discovery \<Rightarrow> bool" where
  "discovery_ok d \<longleftrightarrow> known_ok (sd_knownServers d) \<and> jm_has (sd_knownServers d) (sd_primaryServer d)"

lemma wf_map_filter: "wf_map m \<Longrightarrow> wf_map (filter P m)"
  by (simp add: wf_map_def jm_keys_def distinct_map_filter)

lemma jm_get_filter: "wf_map m \<Longrightarrow> jm_get (filter P m) k = Some v \<longleftrightarrow> jm_get m k = Some v \<and> P (k, v)"
  using jm_get_iff [of m k v] jm_get_iff [OF wf_map_filter, of m P k v] by auto

lemma merge_server_ok:
  "known_ok m \<Longrightarrow> known_ok (merge_server now p m)" "jm_has m k \<Longrightarrow> jm_has (merge_server now p m) k"
  by (auto simp: known_ok_def merge_server_def Let_def jm_get_set jm_has_set split: option.split)

lemma merge_all_ok:
  "known_ok m \<Longrightarrow> known_ok (fold (merge_server now) ps m)" "jm_has m k \<Longrightarrow> jm_has (fold (merge_server now) ps m) k"
  by (induction ps arbitrary: m) (simp_all add: merge_server_ok)

lemma known_ok_filter: "known_ok m \<Longrightarrow> known_ok (filter P m)"
  by (simp add: known_ok_def wf_map_filter jm_get_filter)

lemma prune_old_ok: "discovery_ok d \<Longrightarrow> discovery_ok (pruneOldServers now d)"
  by (auto simp: discovery_ok_def pruneOldServers_def wf_map_filter known_ok_def jm_get_filter jm_has_def)

lemma limit_ok:
  assumes "discovery_ok d"
  shows "discovery_ok (enforceLimit mexp now d)" "length (sd_knownServers (enforceLimit mexp now d)) \<le> maxServers + 1"
    "sd_primaryServer (enforceLimit mexp now d) = sd_primaryServer d"
proof -
  let ?keep = "sd_primaryServer d # map sv_url (take maxServers (getRankedServers mexp now d))"
  let ?m = "filter (\<lambda>(u, s). u \<in> set ?keep) (sd_knownServers d)"
  have wf: "wf_map (sd_knownServers d)" using assms by (simp add: discovery_ok_def known_ok_def)
  have "set (jm_keys ?m) \<subseteq> set ?keep" by (auto simp: jm_keys_def)
  then have "card (set (jm_keys ?m)) \<le> card (set ?keep)" by (intro card_mono) simp_all
  also have "\<dots> \<le> length ?keep" by (rule card_length)
  also have "\<dots> \<le> maxServers + 1" by simp
  finally have "length ?m \<le> maxServers + 1"
    using wf_map_filter [OF wf] distinct_card [of "jm_keys ?m"] by (simp add: wf_map_def jm_keys_def)
  then show "length (sd_knownServers (enforceLimit mexp now d)) \<le> maxServers + 1"
    by (simp add: enforceLimit_def Let_def)
  show "discovery_ok (enforceLimit mexp now d)"
    using assms by (auto simp: enforceLimit_def Let_def discovery_ok_def known_ok_filter jm_get_filter [OF wf] jm_has_def)
qed (simp add: enforceLimit_def Let_def)

text \<open>
  Property C33. However many servers a peer sends, a workspace keeps at most fifty and its primary server, which is
  never dropped.
\<close>

theorem servers_are_bounded:
  assumes "discovery_ok d"
  shows "discovery_ok (mergeReceivedServers mexp now ps d) \<and>
    length (sd_knownServers (mergeReceivedServers mexp now ps d)) \<le> maxServers + 1 \<and>
    jm_has (sd_knownServers (mergeReceivedServers mexp now ps d)) (sd_primaryServer d)"
proof (intro conjI)
  let ?d = "pruneOldServers now (d\<lparr>sd_knownServers := fold (merge_server now) ps (sd_knownServers d)\<rparr>)"
  have "discovery_ok (d\<lparr>sd_knownServers := fold (merge_server now) ps (sd_knownServers d)\<rparr>)"
    using assms by (simp add: discovery_ok_def merge_all_ok)
  then have ok: "discovery_ok ?d" by (rule prune_old_ok)
  show "discovery_ok (mergeReceivedServers mexp now ps d)"
    "length (sd_knownServers (mergeReceivedServers mexp now ps d)) \<le> maxServers + 1"
    using limit_ok [OF ok] by (simp_all add: mergeReceivedServers_def)
  have "sd_primaryServer ?d = sd_primaryServer d" by (simp add: pruneOldServers_def)
  then show "jm_has (sd_knownServers (mergeReceivedServers mexp now ps d)) (sd_primaryServer d)"
    using limit_ok(1,3) [OF ok, of mexp now] by (simp add: mergeReceivedServers_def discovery_ok_def)
qed

lemma servers_are_bounded_witness:
  "length (sd_knownServers (mergeReceivedServers (\<lambda>x. 1) 0 [] (new_discovery 0 ''w'' ''p''))) \<le> maxServers + 1"
  by (rule conjunct1 [OF conjunct2 [OF servers_are_bounded]]) (simp add: discovery_ok_def known_ok_def new_discovery_def wf_map_def jm_keys_def jm_has_def)

subsection \<open>Forged servers\<close>

interpretation rates: comparator UNIV rat_cmp
  by unfold_locales (auto simp: rat_cmp_def split: if_splits)

lemma ranked_order:
  assumes "i < j" "j < length (getRankedServers mexp now d)"
  shows "rankServer mexp now (getRankedServers mexp now d ! j) \<le> rankServer mexp now (getRankedServers mexp now d ! i)"
proof -
  have "comparator UNIV (\<lambda>a b. cmp_by (rankServer mexp now) rat_cmp b a)"
    by (rule comparator_flip [OF comparator_by [OF rates.comparator_axioms]])
  then have "sorted_wrt (\<lambda>a b. cmp_by (rankServer mexp now) rat_cmp b a \<le> 0) (getRankedServers mexp now d)"
    unfolding getRankedServers_def by (rule comparator.in_order_sort) simp
  then have "cmp_by (rankServer mexp now) rat_cmp (getRankedServers mexp now d ! j) (getRankedServers mexp now d ! i) \<le> 0"
    using assms by (simp add: sorted_wrt_iff_nth_less)
  then show ?thesis by (auto simp: cmp_by_def rat_cmp_def split: if_splits)
qed

text \<open>The first \<open>n\<close> of a list in descending order, when \<open>n\<close> of its elements beat all others.\<close>

lemma best_come_first:
  fixes r :: "'a \<Rightarrow> 'b::linorder"
  assumes "distinct xs" "\<And>i j. i < j \<Longrightarrow> j < length xs \<Longrightarrow> r (xs ! j) \<le> r (xs ! i)"
    and "B \<subseteq> set xs" "n \<le> card B" "\<And>x y. x \<in> set xs - B \<Longrightarrow> y \<in> B \<Longrightarrow> r x < r y"
  shows "set (take n xs) \<subseteq> B"
proof
  fix x
  assume "x \<in> set (take n xs)"
  then obtain i where "i < length (take n xs)" "take n xs ! i = x" by (meson in_set_conv_nth)
  then have i: "i < n" "i < length xs" "xs ! i = x" by simp_all
  show "x \<in> B"
  proof (rule ccontr)
    assume "x \<notin> B"
    then have xs: "x \<in> set xs - B" using i by auto
    have "y \<in> set (take i xs)" if h: "y \<in> B" for y
    proof -
      obtain j where j: "j < length xs" "xs ! j = y" using h assms(3) by (meson in_set_conv_nth subsetD)
      have "r x < r y" using assms(5) [OF xs h] .
      then have "\<not> i < j" "i \<noteq> j" using assms(2) [of i j] i j \<open>x \<notin> B\<close> h by auto
      then show ?thesis using j by (metis in_set_conv_nth length_take linorder_neqE_nat min_less_iff_conj nth_take)
    qed
    then have "card B \<le> card (set (take i xs))" by (intro card_mono) auto
    also have "\<dots> \<le> i" using card_length [of "take i xs"] i by simp
    finally show False using assms(4) i(1) by simp
  qed
qed

definition fresh_stats :: "time \<Rightarrow> pex_server \<Rightarrow> server_stats" where
  "fresh_stats now p =
     \<lparr>sv_url = px_url p, sv_addedAt = now, sv_lastSeen = px_lastSeen p, sv_successRate = px_successRate p,
      sv_totalAttempts = 0, sv_successfulAttempts = 0, sv_avgLatency = (case px_latency p of None \<Rightarrow> 0 | Some l \<Rightarrow> l)\<rparr>"

lemma merge_unknown:
  "distinct (map px_url ps) \<Longrightarrow> list_all (\<lambda>p. \<not> jm_has m (px_url p)) ps \<Longrightarrow>
   fold (merge_server now) ps m = m @ map (\<lambda>p. (px_url p, fresh_stats now p)) ps"
proof (induction ps arbitrary: m)
  case (Cons p ps)
  have m: "merge_server now p m = m @ [(px_url p, fresh_stats now p)]"
    using Cons.prems(2) by (simp add: merge_server_def jm_has_def jm_set_new Let_def fresh_stats_def)
  have "list_all (\<lambda>q. \<not> jm_has (merge_server now p m) (px_url q)) ps"
    using Cons.prems by (auto simp: m list_all_iff jm_has_keys jm_keys_def image_iff)
  then show ?case using Cons.IH [of "merge_server now p m"] Cons.prems(1) by (simp add: m)
qed simp

text \<open>
  Success rates in a peer's list are neither limited nor tested: fifty made-up servers that claim a rate better
  than any known rank displace, in one message, every server a workspace knew except its primary one, and all the
  servers it then recommends to others are made up.
\<close>

theorem forged_servers_take_over:
  assumes "discovery_ok d" "distinct (map px_url ps)" "length ps = maxServers"
    and "list_all (\<lambda>p. \<not> jm_has (sd_knownServers d) (px_url p) \<and> now - px_lastSeen p \<le> maxAge) ps"
    and "\<And>s p. s \<in> set (jm_values (sd_knownServers d)) \<Longrightarrow> p \<in> set ps \<Longrightarrow>
      rankServer mexp now s < rankServer mexp now (fresh_stats now p)"
  shows "set (jm_keys (sd_knownServers (mergeReceivedServers mexp now ps d))) \<subseteq> insert (sd_primaryServer d) (set (map px_url ps))"
proof -
  let ?new = "map (\<lambda>p. (px_url p, fresh_stats now p)) ps"
  define e where "e = pruneOldServers now (d\<lparr>sd_knownServers := sd_knownServers d @ ?new\<rparr>)"
  define old where "old = filter (\<lambda>(u, s). \<not> (now - sv_lastSeen s > maxAge \<and> u \<noteq> sd_primaryServer d)) (sd_knownServers d)"
  have "list_all (\<lambda>p. \<not> jm_has (sd_knownServers d) (px_url p)) ps" using assms(4) by (simp add: list_all_iff)
  then have merged: "fold (merge_server now) ps (sd_knownServers d) = sd_knownServers d @ ?new"
    by (rule merge_unknown [OF assms(2)])
  have "filter (\<lambda>(u, s). \<not> (now - sv_lastSeen s > maxAge \<and> u \<noteq> sd_primaryServer d)) ?new = ?new"
    by (rule filter_True) (use assms(4) in \<open>force simp: list_all_iff fresh_stats_def\<close>)
  then have e: "sd_knownServers e = old @ ?new" "sd_primaryServer e = sd_primaryServer d"
    by (simp_all add: e_def pruneOldServers_def old_def)
  have result: "mergeReceivedServers mexp now ps d = enforceLimit mexp now e"
    by (simp add: mergeReceivedServers_def merged e_def)
  have ok: "known_ok (sd_knownServers e)"
    using prune_old_ok [of "d\<lparr>sd_knownServers := sd_knownServers d @ ?new\<rparr>" now] assms(1) merge_all_ok(1) [of "sd_knownServers d" now ps] merge_all_ok(2) [of "sd_knownServers d" "sd_primaryServer d" now ps]
    by (simp add: e_def discovery_ok_def merged)
  have url: "sv_url s = u" if "(u, s) \<in> set (old @ ?new)" for u s
    using that ok jm_get_iff [of "old @ ?new" u s] by (simp add: known_ok_def e)
  show ?thesis
  proof (cases "length (sd_knownServers e) \<le> maxServers")
    case True
    then have "old = []" using assms(3) by (simp add: e)
    then show ?thesis using True by (auto simp: result enforceLimit_def e jm_keys_def)
  next
    case False
    let ?r = "getRankedServers mexp now e"
    let ?B = "fresh_stats now ` set ps"
    have r: "set ?r = snd ` set (old @ ?new)" by (simp add: getRankedServers_def jm_values_def e image_Un image_image)
    have "distinct (map sv_url (jm_values (sd_knownServers e)))"
    proof -
      have "map sv_url (jm_values (sd_knownServers e)) = jm_keys (sd_knownServers e)"
        unfolding jm_values_def jm_keys_def e(1) map_map
      proof (rule map_cong [OF refl])
        show "(sv_url \<circ> snd) x = fst x" if "x \<in> set (old @ ?new)" for x
          using that url [of "fst x" "snd x"] by (simp del: set_append)
      qed
      then show ?thesis using ok by (simp add: known_ok_def wf_map_def)
    qed
    then have dist: "distinct ?r" by (simp add: getRankedServers_def distinct_map)
    have inj: "inj_on (fresh_stats now) (set ps)"
      using assms(2) by (auto simp: inj_on_def fresh_stats_def distinct_map)
    have "set (take maxServers ?r) \<subseteq> ?B"
    proof (rule best_come_first [where r = "rankServer mexp now", OF dist])
      show "rankServer mexp now (?r ! j) \<le> rankServer mexp now (?r ! i)" if "i < j" "j < length ?r" for i j
        by (rule ranked_order [OF that])
      show "?B \<subseteq> set ?r" by (simp add: r image_Un image_image)
      show "maxServers \<le> card ?B"
        using assms(2,3) by (simp add: card_image [OF inj] distinct_card distinct_map)
      show "rankServer mexp now x < rankServer mexp now y" if "x \<in> set ?r - ?B" "y \<in> ?B" for x y
      proof -
        have "x \<in> snd ` set old" using that(1) by (auto simp: r image_Un image_image)
        then have "x \<in> set (jm_values (sd_knownServers d))" by (auto simp: old_def jm_values_def)
        then show ?thesis using assms(5) that(2) by auto
      qed
    qed
    then have "set (map sv_url (take maxServers ?r)) \<subseteq> set (map px_url ps)" by (auto simp: fresh_stats_def)
    then show ?thesis using False by (auto simp: result enforceLimit_def Let_def jm_keys_def e(2))
  qed
qed

lemma forged_servers_take_over_witness:
  "set (jm_keys (sd_knownServers (mergeReceivedServers (\<lambda>x. 0) 0
      (map (\<lambda>n. \<lparr>px_url = show_nat n, px_lastSeen = 0, px_successRate = 10, px_latency = None\<rparr>) [0..<50]) (new_discovery 0 ''w'' ''p'')))) \<subseteq>
   insert ''p'' (set (map px_url (map (\<lambda>n. \<lparr>px_url = show_nat n, px_lastSeen = 0, px_successRate = 10, px_latency = None\<rparr>) [0..<50])))"
proof -
  have no: "show_nat n \<noteq> ''p''" for n using show_nat_digits [of "CHR ''p''" n] by auto
  let ?d = "new_discovery 0 ''w'' ''p''"
  let ?ps = "map (\<lambda>n. \<lparr>px_url = show_nat n, px_lastSeen = 0, px_successRate = 10, px_latency = None\<rparr>) [0..<50]"
  have "discovery_ok ?d" by (simp add: discovery_ok_def known_ok_def new_discovery_def wf_map_def jm_keys_def jm_has_def)
  moreover have "distinct (map px_url ?ps)" by (simp add: distinct_map inj_on_def comp_def)
  moreover have "length ?ps = maxServers" by (simp add: maxServers_def)
  moreover have "list_all (\<lambda>p. \<not> jm_has (sd_knownServers ?d) (px_url p) \<and> 0 - px_lastSeen p \<le> maxAge) ?ps"
    by (simp add: list_all_iff new_discovery_def jm_has_def no maxAge_def)
  moreover have "rankServer (\<lambda>x. 0) 0 s < rankServer (\<lambda>x. 0) 0 (fresh_stats 0 p)"
    if "s \<in> set (jm_values (sd_knownServers ?d))" "p \<in> set ?ps" for s p
    using that by (auto simp: new_discovery_def jm_values_def rankServer_def fresh_stats_def)
  ultimately have "set (jm_keys (sd_knownServers (mergeReceivedServers (\<lambda>x. 0) 0 ?ps ?d))) \<subseteq>
      insert (sd_primaryServer ?d) (set (map px_url ?ps))"
    by (rule forged_servers_take_over)
  moreover have "sd_primaryServer ?d = ''p''" by (simp add: new_discovery_def)
  ultimately show ?thesis by (simp only:)
qed

end
