(* ===== verification/SyncProtocol.thy ===== *)
theory SyncProtocol
  imports Complex_Main WorkspaceDelta HistoryPages Negentropy ServerDiscovery
begin

section \<open>The workspace sync protocol\<close>

text \<open>
  Models \<open>decent-protocol/src/workspace/SyncProtocol.ts\<close>. The state joins the workspace manager, the
  message store, the delta buffers and the map of pending history requests; what a handler does to
  the outside is appended to \<open>sy_effects\<close> in order: messages sent, local events, and server lists
  handed to the peer-exchange component. Parameters: \<open>me\<close> is \<open>myPeerId\<close>, \<open>pex\<close> the answer of
  \<open>serverDiscovery.getHandshakeServers()\<close> (\<open>None\<close> when there is no server discovery), \<open>fp\<close> the
  Negentropy fingerprint of the messages of a channel (instantiated in \<open>handleMessage\<close>), \<open>sha\<close> the digest of the hash chain and \<open>lc\<close>
  \<open>localeCompare\<close>. The field \<open>workspaceId\<close> that the transport merges into a message is a
  component of the constructors that read it.
\<close>

subsection \<open>Messages, events and state\<close>

datatype history_mode = LegacyMode | PagedMode

record history_capabilities =
  hc_supportsPaged :: "bool option"
  hc_supportedTiers :: "tier list option"

record channel_summary =
  cs_id :: string
  cs_name :: string
  cs_type :: channel_type
  cs_messageCount :: nat
  cs_headHash :: string
  cs_fingerprint :: string
  cs_lastMessageAt :: time

record workspace_snapshot =
  sn_workspaceId :: string
  sn_channels :: "channel_summary list"
  sn_members :: "member list"
  sn_snapshotAt :: time

type_synonym history = "(string, imported list) jsmap"

datatype sync_msg =
    JoinRequest string member "string option" "pex_server list option" "history_mode option"
      "history_capabilities option"
  | JoinAccepted workspace "workspace_snapshot option" "history option" "pex_server list option"
      "replica_hint list option" "history_capabilities option"
  | JoinRejected string
  | MemberJoined "string option" member
  | MemberLeft "string option" string
  | ChannelCreated "string option" channel
  | ChannelRemoved "string option" string
  | WorkspaceDeleted "string option" string
  | ChannelMessage "string option" string message
  | SyncRequest string "history_mode option" "history_capabilities option"
  | SyncResponse workspace "history option" "replica_hint list option" "history_capabilities option"
  | ShellRequest string
  | ShellResponse shell "string option"
  | DeltaMsg delta
  | DeltaAck string int "string option"
  | MemberPageRequest string "string option" "int option" "string option"
  | MemberPageResponse member_page
  | HistoryPageRequest string string "string option" "int option" "direction option" "tier option"
  | HistoryPageResponse string string history_page "replica_hint list option"
  | HintsMsg string "replica_hint list"
  | ShardAdvertisement shard_ref
  | ShardRepair string string string "string list option"
  | PeerExchange "pex_server list option"

datatype sync_event =
    EvMemberJoined string member
  | EvMemberLeft string string
  | EvChannelCreated string channel
  | EvChannelRemoved string string
  | EvWorkspaceDeleted string string
  | EvMemberPage string member_page
  | EvHistoryPage string string history_page
  | EvHints string "replica_hint list"
  | EvShards string "shard_ref list"
  | EvWorkspaceJoined workspace history "workspace_snapshot option" "replica_hint list option"
  | EvJoinRejected string
  | EvMessageReceived string message
  | EvSyncComplete string

datatype effect =
    Send string sync_msg "string option"
  | Event sync_event
  | MergeServers "pex_server list"

record sync_state =
  sy_mgr :: manager
  sy_store :: store
  sy_buffers :: buffers
  sy_pending :: "(string, time) jsmap"
  sy_effects :: "effect list"

definition HISTORY_PAGING_CAPABILITY :: string where
  "HISTORY_PAGING_CAPABILITY = ''history-pages-v1''"

definition HISTORY_BOOTSTRAP_PAGE_SIZE :: int where
  "HISTORY_BOOTSTRAP_PAGE_SIZE = 25"

definition HISTORY_BOOTSTRAP_CHANNEL_LIMIT :: nat where
  "HISTORY_BOOTSTRAP_CHANNEL_LIMIT = 6"

definition HISTORY_BOOTSTRAP_TTL_MS :: time where
  "HISTORY_BOOTSTRAP_TTL_MS = 15000"

definition emit :: "effect list \<Rightarrow> sync_state \<Rightarrow> sync_state" where
  "emit es s = s\<lparr>sy_effects := sy_effects s @ es\<rparr>"

lemma emit_fields [simp]:
  "sy_mgr (emit es s) = sy_mgr s" "sy_store (emit es s) = sy_store s" "sy_buffers (emit es s) = sy_buffers s"
  "sy_pending (emit es s) = sy_pending s" "sy_effects (emit es s) = sy_effects s @ es"
  by (simp_all add: emit_def)

definition defaultHistoryCapabilities :: history_capabilities where
  "defaultHistoryCapabilities = \<lparr>hc_supportsPaged = Some True, hc_supportedTiers = Some [Recent, Archive]\<rparr>"

definition merge_servers :: "pex_server list option \<Rightarrow> pex_server list option \<Rightarrow> sync_state \<Rightarrow> sync_state" where
  "merge_servers pex received s =
     (case (received, pex) of (Some servers, Some _) \<Rightarrow> emit [MergeServers servers] s | _ \<Rightarrow> s)"

subsection \<open>Outgoing actions\<close>

definition requestJoin ::
  "pex_server list option \<Rightarrow> string \<Rightarrow> string \<Rightarrow> member \<Rightarrow> string option \<Rightarrow> history_mode option
     \<Rightarrow> history_capabilities option \<Rightarrow> sync_state \<Rightarrow> sync_state" where
  "requestJoin pex target code m inviteId mode caps s =
     emit [Send target (JoinRequest code m inviteId pex mode
       (Some (get_or defaultHistoryCapabilities caps))) None] s"

definition broadcastMemberJoined :: "string \<Rightarrow> string \<Rightarrow> member \<Rightarrow> string list \<Rightarrow> sync_state \<Rightarrow> sync_state" where
  "broadcastMemberJoined me wid m peers s =
     emit (map (\<lambda>p. Send p (MemberJoined None m) (Some wid))
       (filter (\<lambda>p. p \<noteq> wm_peerId m \<and> p \<noteq> me) peers)) s"

definition broadcast :: "string \<Rightarrow> sync_msg \<Rightarrow> string option \<Rightarrow> string list \<Rightarrow> sync_state \<Rightarrow> sync_state" where
  "broadcast me msg wid peers s = emit (map (\<lambda>p. Send p msg wid) (filter (\<lambda>p. p \<noteq> me) peers)) s"

definition broadcastChannelCreated :: "string \<Rightarrow> string \<Rightarrow> channel \<Rightarrow> string list \<Rightarrow> sync_state \<Rightarrow> sync_state" where
  "broadcastChannelCreated me wid c peers s = broadcast me (ChannelCreated None c) (Some wid) peers s"

definition broadcastWorkspaceDeleted :: "string \<Rightarrow> string \<Rightarrow> string \<Rightarrow> string list \<Rightarrow> sync_state \<Rightarrow> sync_state" where
  "broadcastWorkspaceDeleted me wid deletedBy peers s =
     broadcast me (WorkspaceDeleted (Some wid) deletedBy) (Some wid) peers s"

definition broadcastMessage :: "string \<Rightarrow> string \<Rightarrow> string \<Rightarrow> message \<Rightarrow> string list \<Rightarrow> sync_state \<Rightarrow> sync_state" where
  "broadcastMessage me wid ch m peers s = broadcast me (ChannelMessage (Some wid) ch m) (Some wid) peers s"

definition requestSync ::
  "string \<Rightarrow> string \<Rightarrow> history_mode option \<Rightarrow> history_capabilities option \<Rightarrow> sync_state \<Rightarrow> sync_state" where
  "requestSync target wid mode caps s =
     emit [Send target (SyncRequest wid mode (Some (get_or defaultHistoryCapabilities caps))) None] s"

definition requestWorkspaceShell :: "string \<Rightarrow> string \<Rightarrow> sync_state \<Rightarrow> sync_state" where
  "requestWorkspaceShell target wid s = emit [Send target (ShellRequest wid) None] s"

definition requestMemberPage ::
  "string \<Rightarrow> string \<Rightarrow> string option \<Rightarrow> int option \<Rightarrow> string option \<Rightarrow> sync_state \<Rightarrow> sync_state" where
  "requestMemberPage target wid cursor pageSize prefix s =
     emit [Send target (MemberPageRequest wid cursor pageSize prefix) None] s"

definition requestHistoryPage ::
  "string \<Rightarrow> string \<Rightarrow> string \<Rightarrow> string option \<Rightarrow> int option \<Rightarrow> direction option \<Rightarrow> tier option
     \<Rightarrow> sync_state \<Rightarrow> sync_state" where
  "requestHistoryPage target wid ch cursor pageSize dir tr s =
     emit [Send target (HistoryPageRequest wid ch cursor pageSize dir tr) None] s"

definition broadcastPeerExchange ::
  "string \<Rightarrow> pex_server list option \<Rightarrow> string list \<Rightarrow> sync_state \<Rightarrow> sync_state" where
  "broadcastPeerExchange me pex peers s =
     (case pex of None \<Rightarrow> s | Some servers \<Rightarrow> broadcast me (PeerExchange (Some servers)) None peers s)"

subsection \<open>Choosing whom to ask for history\<close>

definition uniqueOrderedPeers :: "string list \<Rightarrow> string list" where
  "uniqueOrderedPeers ps = js_uniq (filter (\<lambda>p. p \<noteq> []) ps)"

definition history_candidates :: "channel \<Rightarrow> tier \<Rightarrow> string list" where
  "history_candidates c tr =
     (let ref = find (\<lambda>r. pr_tier r = Some tr \<or> pr_tier r = None) (rev (get_or [] (ch_historyPages c)));
          of_ref = (\<lambda>f. case ref of None \<Rightarrow> [] | Some r \<Rightarrow> get_or [] (f r));
          selected = of_ref pr_selectedReplicaPeerIds;
          policy = (case ref of None \<Rightarrow> None | Some r \<Rightarrow> pr_selectionPolicy r);
          hint = ch_historyReplicaHint c;
          recentCandidates = uniqueOrderedPeers (of_ref pr_recentReplicaPeerIds @
            (if policy = Some FallbackToRecent then selected else []) @
            (case hint of None \<Rightarrow> [] | Some h \<Rightarrow> rh_recentReplicaPeerIds h));
          archiveCandidates = uniqueOrderedPeers (of_ref pr_archiveReplicaPeerIds @
            (if policy = Some FallbackToArchive then selected else []) @
            (case hint of None \<Rightarrow> [] | Some h \<Rightarrow> get_or [] (rh_archiveReplicaPeerIds h)))
      in if tr = Archive then uniqueOrderedPeers (selected @ archiveCandidates @ recentCandidates)
         else uniqueOrderedPeers (selected @ recentCandidates @ archiveCandidates))"

definition selectHistoryPageSource ::
  "string \<Rightarrow> string \<Rightarrow> string \<Rightarrow> tier \<Rightarrow> string list \<Rightarrow> sync_state \<Rightarrow> string option" where
  "selectHistoryPageSource me wid ch tr available s =
     (case jm_get (sy_mgr s) wid of
        None \<Rightarrow> None
      | Some w \<Rightarrow>
        (case find (\<lambda>c. ch_id c = ch) (ws_channels w) of
           None \<Rightarrow> None
         | Some c \<Rightarrow>
           find (\<lambda>p. p \<noteq> me \<and> (available = [] \<or> p \<in> set available)) (history_candidates c tr)))"

subsection \<open>Building answers\<close>

definition buildLegacyMessageHistory :: "string \<Rightarrow> sync_state \<Rightarrow> history" where
  "buildLegacyMessageHistory wid s =
     (case jm_get (sy_mgr s) wid of
        None \<Rightarrow> []
      | Some w \<Rightarrow>
        fold (\<lambda>c h. let messages = getMessages_store (ch_id c) (sy_store s) in
            if messages \<noteq> [] then jm_set (ch_id c) (map toSyncedMessage messages) h else h)
          (ws_channels w) [])"

definition summarize_channel ::
  "(string \<Rightarrow> string) \<Rightarrow> ((string \<times> time) list \<Rightarrow> string option) \<Rightarrow> store \<Rightarrow> channel \<Rightarrow> channel_summary" where
  "summarize_channel sha fp st c =
     (let messages = getMessages_store (ch_id c) st in
      \<lparr>cs_id = ch_id c, cs_name = ch_name c, cs_type = ch_type c, cs_messageCount = length messages,
       cs_headHash = getLastHash sha (ch_id c) st,
       cs_fingerprint = get_or (replicate 64 (CHR ''0'')) (fp (map (\<lambda>m. (m_id m, m_timestamp m)) messages)),
       cs_lastMessageAt = (if messages = [] then 0 else m_timestamp (last messages))\<rparr>)"

definition buildWorkspaceSnapshot ::
  "(string \<Rightarrow> string) \<Rightarrow> ((string \<times> time) list \<Rightarrow> string option) \<Rightarrow> time \<Rightarrow> workspace \<Rightarrow> store
     \<Rightarrow> workspace_snapshot" where
  "buildWorkspaceSnapshot sha fp now w st =
     \<lparr>sn_workspaceId = ws_id w, sn_channels = map (summarize_channel sha fp st) (ws_channels w),
      sn_members = ws_members w, sn_snapshotAt = now\<rparr>"

definition workspaceSupportsPagedHistory :: "workspace \<Rightarrow> bool" where
  "workspaceSupportsPagedHistory w \<longleftrightarrow>
     (case ws_shell w of
        None \<Rightarrow> False
      | Some sh \<Rightarrow> HISTORY_PAGING_CAPABILITY \<in> set (get_or [] (sh_capabilityFlags sh)))"

definition supports_paged :: "history_capabilities option \<Rightarrow> bool option" where
  "supports_paged caps = (case caps of None \<Rightarrow> None | Some c \<Rightarrow> hc_supportsPaged c)"

definition resolveHistorySyncMode ::
  "history_mode option \<Rightarrow> history_capabilities option \<Rightarrow> workspace \<Rightarrow> history_mode" where
  "resolveHistorySyncMode mode caps w =
     (case mode of
        Some m \<Rightarrow> m
      | None \<Rightarrow> if supports_paged caps = Some True \<and> workspaceSupportsPagedHistory w then PagedMode else LegacyMode)"

subsection \<open>Replica hints and page references\<close>

definition merge_hint :: "replica_hint option \<Rightarrow> replica_hint \<Rightarrow> replica_hint" where
  "merge_hint prev hint =
     \<lparr>rh_workspaceId = rh_workspaceId hint, rh_channelId = rh_channelId hint,
      rh_recentReplicaPeerIds = uniqueOrderedPeers (rh_recentReplicaPeerIds hint @
        (case prev of None \<Rightarrow> [] | Some p \<Rightarrow> rh_recentReplicaPeerIds p)),
      rh_archiveReplicaPeerIds = Some (uniqueOrderedPeers (get_or [] (rh_archiveReplicaPeerIds hint) @
        (case prev of None \<Rightarrow> [] | Some p \<Rightarrow> get_or [] (rh_archiveReplicaPeerIds p)))),
      rh_updatedAt = max (case prev of None \<Rightarrow> 0 | Some p \<Rightarrow> rh_updatedAt p) (rh_updatedAt hint)\<rparr>"

definition hint_channel :: "replica_hint \<Rightarrow> channel \<Rightarrow> channel" where
  "hint_channel hint c = c\<lparr>ch_historyReplicaHint := Some (merge_hint (ch_historyReplicaHint c) hint)\<rparr>"

text \<open>One iteration of the loop over the hints; the flag is \<open>changed\<close>.\<close>

definition hint_step :: "replica_hint \<Rightarrow> workspace \<times> bool \<Rightarrow> workspace \<times> bool" where
  "hint_step hint acc =
     (let (w, changed) = acc in
      if list_ex (\<lambda>c. ch_id c = rh_channelId hint) (ws_channels w)
      then (w\<lparr>ws_channels := update_first (\<lambda>c. ch_id c = rh_channelId hint) (hint_channel hint) (ws_channels w)\<rparr>,
            True)
      else (w, changed))"

definition applyHistoryReplicaHints :: "string \<Rightarrow> replica_hint list \<Rightarrow> manager \<Rightarrow> manager" where
  "applyHistoryReplicaHints wid hints s =
     (case jm_get s wid of
        None \<Rightarrow> s
      | Some w \<Rightarrow>
        if hints = [] then s
        else
          let (w', changed) = fold hint_step hints (w, False);
              s1 = jm_set wid w' s
          in if changed then importWorkspace w' s1 else s1)"

definition mergeHistoryPageRefs :: "page_ref \<Rightarrow> page_ref \<Rightarrow> page_ref" where
  "mergeHistoryPageRefs current incoming =
     \<lparr>pr_workspaceId = pr_workspaceId incoming, pr_channelId = pr_channelId incoming, pr_pageId = pr_pageId incoming,
      pr_tier = (case pr_tier incoming of None \<Rightarrow> pr_tier current | Some t \<Rightarrow> Some t),
      pr_startCursor = (case pr_startCursor incoming of None \<Rightarrow> pr_startCursor current | Some c \<Rightarrow> Some c),
      pr_endCursor = (case pr_endCursor incoming of None \<Rightarrow> pr_endCursor current | Some c \<Rightarrow> Some c),
      pr_replicaPeerIds = Some (uniqueOrderedPeers
        (get_or [] (pr_replicaPeerIds incoming) @ get_or [] (pr_replicaPeerIds current))),
      pr_recentReplicaPeerIds = Some (uniqueOrderedPeers
        (get_or [] (pr_recentReplicaPeerIds incoming) @ get_or [] (pr_recentReplicaPeerIds current))),
      pr_archiveReplicaPeerIds = Some (uniqueOrderedPeers
        (get_or [] (pr_archiveReplicaPeerIds incoming) @ get_or [] (pr_archiveReplicaPeerIds current))),
      pr_selectedReplicaPeerIds = Some (uniqueOrderedPeers
        (get_or (get_or [] (pr_replicaPeerIds incoming)) (pr_selectedReplicaPeerIds incoming) @
         get_or (get_or [] (pr_replicaPeerIds current)) (pr_selectedReplicaPeerIds current))),
      pr_selectionPolicy = (case pr_selectionPolicy incoming of None \<Rightarrow> pr_selectionPolicy current | Some p \<Rightarrow> Some p)\<rparr>"

definition page_ref_of :: "string \<Rightarrow> string \<Rightarrow> history_page \<Rightarrow> page_ref" where
  "page_ref_of wid ch page =
     \<lparr>pr_workspaceId = wid, pr_channelId = ch, pr_pageId = hp_pageId page, pr_tier = Some (hp_tier page),
      pr_startCursor = hp_startCursor page, pr_endCursor = hp_endCursor page,
      pr_replicaPeerIds = Some (uniqueOrderedPeers
        (get_or (get_or [] (hp_selectedReplicaPeerIds page)) (hp_replicaPeerIds page))),
      pr_recentReplicaPeerIds = Some (uniqueOrderedPeers (get_or [] (hp_recentReplicaPeerIds page))),
      pr_archiveReplicaPeerIds = Some (uniqueOrderedPeers (get_or [] (hp_archiveReplicaPeerIds page))),
      pr_selectedReplicaPeerIds = Some (uniqueOrderedPeers
        (get_or (get_or [] (hp_replicaPeerIds page)) (hp_selectedReplicaPeerIds page))),
      pr_selectionPolicy = hp_selectionPolicy page\<rparr>"

definition upsertHistoryPageRef :: "string \<Rightarrow> string \<Rightarrow> history_page \<Rightarrow> manager \<Rightarrow> manager" where
  "upsertHistoryPageRef wid ch page s =
     (case jm_get s wid of
        None \<Rightarrow> s
      | Some w \<Rightarrow>
        if \<not> list_ex (\<lambda>c. ch_id c = ch) (ws_channels w) then s
        else
          let nextRef = page_ref_of wid ch page;
              put = (\<lambda>c. let refs = get_or [] (ch_historyPages c) in
                c\<lparr>ch_historyPages := Some
                  (if list_ex (\<lambda>r. pr_pageId r = hp_pageId page) refs
                   then update_first (\<lambda>r. pr_pageId r = hp_pageId page) (\<lambda>r. mergeHistoryPageRefs r nextRef) refs
                   else refs @ [nextRef])\<rparr>);
              w' = w\<lparr>ws_channels := update_first (\<lambda>c. ch_id c = ch) put (ws_channels w)\<rparr>
          in importWorkspace w' (jm_set wid w' s))"

subsection \<open>Bootstrapping recent history\<close>

definition pending_key :: "string \<Rightarrow> string \<Rightarrow> string" where
  "pending_key wid ch = wid @ '':'' @ ch"

definition markPendingHistoryBootstrap :: "time \<Rightarrow> string \<Rightarrow> string \<Rightarrow> sync_state \<Rightarrow> bool \<times> sync_state" where
  "markPendingHistoryBootstrap now wid ch s =
     (let key = pending_key wid ch in
      if jm_get_or 0 (sy_pending s) key > now then (False, s)
      else (True, s\<lparr>sy_pending := jm_set key (now + HISTORY_BOOTSTRAP_TTL_MS) (sy_pending s)\<rparr>))"

definition clearPendingHistoryBootstrap :: "string \<Rightarrow> string \<Rightarrow> sync_state \<Rightarrow> sync_state" where
  "clearPendingHistoryBootstrap wid ch s = s\<lparr>sy_pending := jm_delete (pending_key wid ch) (sy_pending s)\<rparr>"

definition shouldAutoBootstrapRecentHistory ::
  "workspace \<Rightarrow> history \<Rightarrow> history_capabilities option \<Rightarrow> bool" where
  "shouldAutoBootstrapRecentHistory w h caps \<longleftrightarrow>
     (if h \<noteq> [] then False
      else if supports_paged caps = Some False then False
      else if (case caps of None \<Rightarrow> False | Some c \<Rightarrow>
                 (case hc_supportedTiers c of None \<Rightarrow> False | Some ts \<Rightarrow> Recent \<notin> set ts)) then False
      else
        let hasReplicaHints = list_ex (\<lambda>c. case ch_historyReplicaHint c of
                None \<Rightarrow> False | Some r \<Rightarrow> rh_recentReplicaPeerIds r \<noteq> []) (ws_channels w)
        in workspaceSupportsPagedHistory w \<or> supports_paged caps = Some True \<or> hasReplicaHints)"

definition bootstrap_channel :: "string \<Rightarrow> time \<Rightarrow> string \<Rightarrow> string \<Rightarrow> channel \<Rightarrow> sync_state \<Rightarrow> sync_state" where
  "bootstrap_channel me now from wid c s =
     (let (marked, s1) = markPendingHistoryBootstrap now wid (ch_id c) s in
      if \<not> marked then s1
      else
        let target = (case selectHistoryPageSource me wid (ch_id c) Recent [from] s1 of
                Some p \<Rightarrow> if p \<noteq> [] \<and> p \<noteq> me then Some p else if from \<noteq> me then Some from else None
              | None \<Rightarrow> if from \<noteq> me then Some from else None)
        in case target of
             None \<Rightarrow> clearPendingHistoryBootstrap wid (ch_id c) s1
           | Some p \<Rightarrow> if p = [] then clearPendingHistoryBootstrap wid (ch_id c) s1
                      else requestHistoryPage p wid (ch_id c) None (Some HISTORY_BOOTSTRAP_PAGE_SIZE)
                             (Some Older) (Some Recent) s1)"

definition maybeBootstrapRecentHistory ::
  "string \<Rightarrow> time \<Rightarrow> string \<Rightarrow> string \<Rightarrow> history \<Rightarrow> history_capabilities option \<Rightarrow> sync_state \<Rightarrow> sync_state" where
  "maybeBootstrapRecentHistory me now from wid h caps s =
     (case jm_get (sy_mgr s) wid of
        None \<Rightarrow> s
      | Some w \<Rightarrow>
        if \<not> shouldAutoBootstrapRecentHistory w h caps then s
        else fold (bootstrap_channel me now from (ws_id w))
          (take HISTORY_BOOTSTRAP_CHANNEL_LIMIT
            (filter (\<lambda>c. getMessages_store (ch_id c) (sy_store s) = [])
              (filter (\<lambda>c. ch_type c = RegularChannel) (ws_channels w)))) s)"

subsection \<open>Incoming messages\<close>

definition handleJoinRequest ::
  "(string \<Rightarrow> string) \<Rightarrow> ((string \<times> time) list \<Rightarrow> string option) \<Rightarrow> time \<Rightarrow> pex_server list option \<Rightarrow> string
     \<Rightarrow> string \<Rightarrow> member \<Rightarrow> string option \<Rightarrow> pex_server list option \<Rightarrow> history_mode option
     \<Rightarrow> history_capabilities option \<Rightarrow> sync_state \<Rightarrow> sync_state" where
  "handleJoinRequest sha fp now pex from code m inviteId servers mode caps s0 =
     (let s = merge_servers pex servers s0;
          reject = (\<lambda>why t. emit [Send from (JoinRejected why) None] t)
      in case validateInviteCode code (sy_mgr s) of
           None \<Rightarrow> reject ''Invalid invite code'' s
         | Some w \<Rightarrow>
           if isInviteRevoked (ws_id w) inviteId (sy_mgr s)
           then reject ''This invite link has been revoked by an admin'' s
           else
             (case addMember now (ws_id w) m (sy_mgr s) of
                (Inl e, mgr) \<Rightarrow> reject e (s\<lparr>sy_mgr := mgr\<rparr>)
              | (Inr _, mgr) \<Rightarrow>
                let s1 = s\<lparr>sy_mgr := mgr\<rparr>;
                    paged = (case mode of
                        Some LegacyMode \<Rightarrow> False
                      | Some PagedMode \<Rightarrow> True
                      | None \<Rightarrow> supports_paged caps = Some True)
                in case exportWorkspace (ws_id w) mgr of
                     None \<Rightarrow> s1
                   | Some exported \<Rightarrow>
                     emit [Send from (JoinAccepted exported
                              (Some (buildWorkspaceSnapshot sha fp now exported (sy_store s1)))
                              (Some (if paged then [] else buildLegacyMessageHistory (ws_id w) s1)) pex
                              (if paged then Some (buildReplicaHints now (ws_id w) mgr) else None)
                              (if paged then Some defaultHistoryCapabilities else None)) None,
                           Event (EvMemberJoined (ws_id w) m)] s1))"

definition import_histories :: "(string \<Rightarrow> string) \<Rightarrow> history \<Rightarrow> sync_state \<Rightarrow> sync_state" where
  "import_histories sha h s =
     s\<lparr>sy_store := fold (\<lambda>(ch, ims) st. snd (importMessages sha ch ims st)) h (sy_store s)\<rparr>"

definition handleJoinAccepted ::
  "(string \<Rightarrow> string) \<Rightarrow> string \<Rightarrow> time \<Rightarrow> pex_server list option \<Rightarrow> string \<Rightarrow> workspace
     \<Rightarrow> workspace_snapshot option \<Rightarrow> history option \<Rightarrow> pex_server list option \<Rightarrow> replica_hint list option
     \<Rightarrow> history_capabilities option \<Rightarrow> sync_state \<Rightarrow> sync_state" where
  "handleJoinAccepted sha me now pex from w snapshot h servers hints caps s0 =
     (let s = merge_servers pex servers s0; hist = get_or [] h; hs = get_or [] hints in
      if \<not> list_ex (\<lambda>m. wm_peerId m = from) (ws_members w) then s
      else
        let s1 = s\<lparr>sy_mgr := importWorkspace w (sy_mgr s)\<rparr>;
            s2 = import_histories sha hist s1;
            s3 = (if hs \<noteq> [] then s2\<lparr>sy_mgr := applyHistoryReplicaHints (ws_id w) hs (sy_mgr s2)\<rparr> else s2);
            s4 = emit [Event (EvWorkspaceJoined (normalize_workspace w) hist snapshot hints)] s3;
            s5 = (if hs \<noteq> [] then emit [Event (EvHints (ws_id w) hs)] s4 else s4)
        in maybeBootstrapRecentHistory me now from (ws_id w) hist caps s5)"

definition handleShellRequest :: "string \<Rightarrow> string \<Rightarrow> sync_state \<Rightarrow> sync_state" where
  "handleShellRequest from wid s =
     (case (buildWorkspaceShell wid (sy_mgr s), jm_get (sy_mgr s) wid) of
        (Some sh, Some w) \<Rightarrow> emit [Send from (ShellResponse sh (Some (ws_inviteCode w))) None] s
      | _ \<Rightarrow> s)"

definition handleShellResponse :: "shell \<Rightarrow> string option \<Rightarrow> sync_state \<Rightarrow> sync_state" where
  "handleShellResponse sh code s =
     emit [Event (EvSyncComplete (sh_id sh))] (s\<lparr>sy_mgr := applyWorkspaceShell sh code (sy_mgr s)\<rparr>)"

definition handleWorkspaceDelta :: "string \<Rightarrow> delta \<Rightarrow> sync_state \<Rightarrow> sync_state" where
  "handleWorkspaceDelta from d s =
     (let (r, mgr, buf) = applyDelta d (sy_mgr s, sy_buffers s);
          s1 = s\<lparr>sy_mgr := mgr, sy_buffers := buf\<rparr>
      in if dr_applied r
         then emit [Send from (DeltaAck (de_workspaceId d) (de_version d) (de_checkpointId d)) (Some (de_workspaceId d)),
                    Event (EvSyncComplete (de_workspaceId d))] s1
         else s1)"

definition handleMemberPageRequest ::
  "(string \<Rightarrow> string \<Rightarrow> int) \<Rightarrow> string \<Rightarrow> string \<Rightarrow> string option \<Rightarrow> int option \<Rightarrow> string option
     \<Rightarrow> sync_state \<Rightarrow> sync_state" where
  "handleMemberPageRequest lc from wid cursor pageSize prefix s =
     emit [Send from (MemberPageResponse (getMemberPage lc wid cursor pageSize prefix (sy_mgr s))) (Some wid)] s"

definition handleHistoryPageRequest ::
  "time \<Rightarrow> string \<Rightarrow> string \<Rightarrow> string \<Rightarrow> string option \<Rightarrow> int option \<Rightarrow> direction option \<Rightarrow> tier option
     \<Rightarrow> sync_state \<Rightarrow> sync_state" where
  "handleHistoryPageRequest now from wid ch cursor pageSize dir tr s =
     emit [Send from (HistoryPageResponse wid ch
       (getHistoryPage now wid ch cursor pageSize dir tr (sy_mgr s) (sy_store s))
       (Some (buildReplicaHints now wid (sy_mgr s)))) (Some wid)] s"

definition handleHistoryPageResponse ::
  "string \<Rightarrow> string \<Rightarrow> history_page \<Rightarrow> replica_hint list option \<Rightarrow> sync_state \<Rightarrow> sync_state" where
  "handleHistoryPageResponse wid ch page hints s =
     (let normalized = map normalize_imported (hp_messages page);
          hs = get_or [] hints;
          s1 = s\<lparr>sy_store := snd (bulkAdd normalized (sy_store s)),
                 sy_mgr := upsertHistoryPageRef wid ch page (sy_mgr s)\<rparr>;
          s2 = clearPendingHistoryBootstrap wid ch s1;
          s3 = (if hs \<noteq> [] then s2\<lparr>sy_mgr := applyHistoryReplicaHints wid hs (sy_mgr s2)\<rparr> else s2);
          s4 = emit [Event (EvHistoryPage wid ch page)] s3
      in if hs \<noteq> [] then emit [Event (EvHints wid hs)] s4 else s4)"

definition handleHistoryReplicaHints :: "string \<Rightarrow> replica_hint list \<Rightarrow> sync_state \<Rightarrow> sync_state" where
  "handleHistoryReplicaHints wid hints s =
     emit [Event (EvHints wid hints)] (s\<lparr>sy_mgr := applyHistoryReplicaHints wid hints (sy_mgr s)\<rparr>)"

text \<open>The shard list after an advertisement; \<open>None\<close> when it is older than the known shard.\<close>

definition merge_shard :: "shard_ref \<Rightarrow> shard_ref \<Rightarrow> shard_ref" where
  "merge_shard existing incoming =
     incoming\<lparr>sr_replicaPeerIds := sorted_unique (sr_replicaPeerIds existing @ sr_replicaPeerIds incoming),
       sr_version := (case sr_version incoming of None \<Rightarrow> sr_version existing | Some v \<Rightarrow> Some v)\<rparr>"

definition advertise_shard :: "shard_ref \<Rightarrow> shard_ref list \<Rightarrow> shard_ref list option" where
  "advertise_shard sh shards =
     (case find (\<lambda>x. sr_shardId x = sr_shardId sh) shards of
        Some existing \<Rightarrow>
          if get_or 0 (sr_version sh) < get_or 0 (sr_version existing) then None
          else Some (update_first (\<lambda>x. sr_shardId x = sr_shardId sh) (\<lambda>x. merge_shard x sh) shards)
      | None \<Rightarrow> Some (shards @ [sh\<lparr>sr_replicaPeerIds := sorted_unique (sr_replicaPeerIds sh)\<rparr>]))"

definition handleDirectoryShardAdvertisement ::
  "(string \<Rightarrow> string \<Rightarrow> int) \<Rightarrow> shard_ref \<Rightarrow> sync_state \<Rightarrow> sync_state" where
  "handleDirectoryShardAdvertisement lc sh s =
     (case jm_get (sy_mgr s) (sr_workspaceId sh) of
        None \<Rightarrow> s
      | Some w \<Rightarrow>
        (case advertise_shard sh (get_or [] (ws_directoryShards w)) of
           None \<Rightarrow> s
         | Some shards \<Rightarrow>
           let sorted = js_sort (cmp_by sr_shardId lc) shards
           in emit [Event (EvShards (ws_id w) sorted)]
                (s\<lparr>sy_mgr := jm_set (sr_workspaceId sh) (w\<lparr>ws_directoryShards := Some sorted\<rparr>) (sy_mgr s)\<rparr>)))"

definition handleDirectoryShardRepair ::
  "string \<Rightarrow> string \<Rightarrow> string \<Rightarrow> string \<Rightarrow> string list option \<Rightarrow> sync_state \<Rightarrow> sync_state" where
  "handleDirectoryShardRepair me from wid shardId targets s =
     (if \<not> (get_or [] targets = [] \<or> me \<in> set (get_or [] targets)) then s
      else case jm_get (sy_mgr s) wid of
          None \<Rightarrow> s
        | Some w \<Rightarrow>
          (case find (\<lambda>x. sr_shardId x = shardId) (get_or [] (ws_directoryShards w)) of
             None \<Rightarrow> s
           | Some sh \<Rightarrow> emit [Send from (ShardAdvertisement sh) (Some wid)] s))"

definition handleMemberJoined :: "time \<Rightarrow> string option \<Rightarrow> member \<Rightarrow> sync_state \<Rightarrow> sync_state" where
  "handleMemberJoined now wid m s =
     (if \<not> truthy wid then s
      else
        let w = get_or [] wid; (r, mgr) = addMember now w m (sy_mgr s); s1 = s\<lparr>sy_mgr := mgr\<rparr>
        in case r of Inl _ \<Rightarrow> s1 | Inr _ \<Rightarrow> emit [Event (EvMemberJoined w m)] s1)"

definition handleMemberLeft :: "string option \<Rightarrow> string \<Rightarrow> sync_state \<Rightarrow> sync_state" where
  "handleMemberLeft wid p s = (if \<not> truthy wid then s else emit [Event (EvMemberLeft (get_or [] wid) p)] s)"

definition handleChannelCreated :: "string option \<Rightarrow> channel \<Rightarrow> sync_state \<Rightarrow> sync_state" where
  "handleChannelCreated wid c s =
     (let target = string_or wid (ch_workspaceId c) in
      if target = [] then s
      else case jm_get (sy_mgr s) target of
          None \<Rightarrow> s
        | Some w \<Rightarrow>
          if list_ex (\<lambda>d. ch_id d = ch_id c) (ws_channels w) then s
          else emit [Event (EvChannelCreated (ws_id w) c)]
                 (s\<lparr>sy_mgr := jm_set target (w\<lparr>ws_channels := ws_channels w @ [c]\<rparr>) (sy_mgr s)\<rparr>))"

definition handleChannelRemoved :: "string option \<Rightarrow> string \<Rightarrow> sync_state \<Rightarrow> sync_state" where
  "handleChannelRemoved wid cid s =
     (if \<not> truthy wid then s
      else case jm_get (sy_mgr s) (get_or [] wid) of
          None \<Rightarrow> s
        | Some w \<Rightarrow>
          (case take_first (\<lambda>c. ch_id c = cid \<and> ch_type c = RegularChannel) (ws_channels w) of
             None \<Rightarrow> s
           | Some (c, rest) \<Rightarrow>
             emit [Event (EvChannelRemoved (ws_id w) cid)]
               (s\<lparr>sy_mgr := jm_set (get_or [] wid) (w\<lparr>ws_channels := rest\<rparr>) (sy_mgr s)\<rparr>)))"

definition handleWorkspaceDeleted :: "string option \<Rightarrow> string \<Rightarrow> sync_state \<Rightarrow> sync_state" where
  "handleWorkspaceDeleted wid deletedBy s =
     (if \<not> truthy wid then s
      else emit [Event (EvWorkspaceDeleted (get_or [] wid) deletedBy)]
             (s\<lparr>sy_mgr := removeWorkspace (get_or [] wid) (sy_mgr s)\<rparr>))"

definition has_channel :: "string \<Rightarrow> workspace \<Rightarrow> bool" where
  "has_channel ch w \<longleftrightarrow> list_ex (\<lambda>c. ch_id c = ch) (ws_channels w)"

definition resolveChannelMessageWorkspace :: "string option \<Rightarrow> string \<Rightarrow> manager \<Rightarrow> workspace option" where
  "resolveChannelMessageWorkspace wid ch s =
     (if truthy wid
      then (case jm_get s (get_or [] wid) of
              None \<Rightarrow> None
            | Some w \<Rightarrow> if has_channel ch w then Some w else None)
      else find (has_channel ch) (jm_values s))"

definition handleChannelMessage ::
  "(string \<Rightarrow> string) \<Rightarrow> string \<Rightarrow> string option \<Rightarrow> string \<Rightarrow> message \<Rightarrow> sync_state \<Rightarrow> sync_state" where
  "handleChannelMessage sha from wid ch m s =
     (case resolveChannelMessageWorkspace wid ch (sy_mgr s) of
        None \<Rightarrow> s
      | Some w \<Rightarrow>
        if \<not> list_ex (\<lambda>x. wm_peerId x = from) (ws_members w) then s
        else
          (case find (\<lambda>c. ch_id c = ch) (ws_channels w) of
             None \<Rightarrow> s
           | Some c \<Rightarrow>
             if \<not> isMemberAllowedInChannel (ws_id w) (ch_id c) from (sy_mgr s) then s
             else
               let normalized = m\<lparr>m_channelId := ch\<rparr>;
                   (r, st) = addMessage_store sha normalized (sy_store s);
                   s1 = s\<lparr>sy_store := st\<rparr>
               in case r of Inl _ \<Rightarrow> s1 | Inr _ \<Rightarrow> emit [Event (EvMessageReceived ch normalized)] s1))"

definition handleSyncRequest ::
  "time \<Rightarrow> string \<Rightarrow> string \<Rightarrow> history_mode option \<Rightarrow> history_capabilities option \<Rightarrow> sync_state \<Rightarrow> sync_state" where
  "handleSyncRequest now from wid mode caps s =
     (case jm_get (sy_mgr s) wid of
        None \<Rightarrow> s
      | Some w \<Rightarrow>
        if \<not> list_ex (\<lambda>m. wm_peerId m = from) (ws_members w) then s
        else
          let paged = (resolveHistorySyncMode mode caps w = PagedMode)
          in emit [Send from (SyncResponse w
               (Some (if paged then [] else buildLegacyMessageHistory wid s))
               (if paged then Some (buildReplicaHints now wid (sy_mgr s)) else None)
               (if paged then Some defaultHistoryCapabilities else None)) None] s)"

definition handleSyncResponse ::
  "(string \<Rightarrow> string) \<Rightarrow> string \<Rightarrow> time \<Rightarrow> string \<Rightarrow> workspace \<Rightarrow> history option \<Rightarrow> replica_hint list option
     \<Rightarrow> history_capabilities option \<Rightarrow> sync_state \<Rightarrow> sync_state" where
  "handleSyncResponse sha me now from w h hints caps s =
     (let hist = get_or [] h; hs = get_or [] hints;
          s1 = import_histories sha hist (s\<lparr>sy_mgr := importWorkspace w (sy_mgr s)\<rparr>);
          s2 = (if hs \<noteq> []
            then emit [Event (EvHints (ws_id w) hs)]
                   (s1\<lparr>sy_mgr := applyHistoryReplicaHints (ws_id w) hs (sy_mgr s1)\<rparr>)
            else s1);
          s3 = maybeBootstrapRecentHistory me now from (ws_id w) hist caps s2
      in emit [Event (EvSyncComplete (ws_id w))] s3)"

text \<open>What stays fixed while messages are handled.\<close>

record sync_env =
  se_sha :: "string \<Rightarrow> string"
  se_digest :: "string \<Rightarrow> digest"
  se_lc :: "string \<Rightarrow> string \<Rightarrow> int"
  se_me :: string
  se_pex :: "pex_server list option"

text \<open>The fingerprint of a channel in a snapshot is the one its negentropy query starts with.\<close>

definition channel_fingerprint :: "sync_env \<Rightarrow> (string \<times> time) list \<Rightarrow> string option" where
  "channel_fingerprint v ms =
     (case createQuery (build_neg (se_lc v) (se_digest v) (map (\<lambda>(k, t). \<lparr>ni_id = k, ni_timestamp = t\<rparr>) ms)) of
        [] \<Rightarrow> None
      | r # rs \<Rightarrow> Some (ng_fingerprint r))"

fun handleMessage :: "sync_env \<Rightarrow> time \<Rightarrow> string \<Rightarrow> sync_msg \<Rightarrow> sync_state \<Rightarrow> sync_state" where
  "handleMessage v now from (JoinRequest code m iid servers mode caps) s =
     handleJoinRequest (se_sha v) (channel_fingerprint v) now (se_pex v) from code m iid servers mode caps s"
| "handleMessage v now from (JoinAccepted w sn h servers hints caps) s =
     handleJoinAccepted (se_sha v) (se_me v) now (se_pex v) from w sn h servers hints caps s"
| "handleMessage v now from (JoinRejected why) s = emit [Event (EvJoinRejected why)] s"
| "handleMessage v now from (MemberJoined wid m) s = handleMemberJoined now wid m s"
| "handleMessage v now from (MemberLeft wid p) s = handleMemberLeft wid p s"
| "handleMessage v now from (ChannelCreated wid c) s = handleChannelCreated wid c s"
| "handleMessage v now from (ChannelRemoved wid c) s = handleChannelRemoved wid c s"
| "handleMessage v now from (WorkspaceDeleted wid p) s = handleWorkspaceDeleted wid p s"
| "handleMessage v now from (ChannelMessage wid ch m) s = handleChannelMessage (se_sha v) from wid ch m s"
| "handleMessage v now from (SyncRequest wid mode caps) s = handleSyncRequest now from wid mode caps s"
| "handleMessage v now from (SyncResponse w h hints caps) s =
     handleSyncResponse (se_sha v) (se_me v) now from w h hints caps s"
| "handleMessage v now from (ShellRequest wid) s = handleShellRequest from wid s"
| "handleMessage v now from (ShellResponse sh code) s = handleShellResponse sh code s"
| "handleMessage v now from (DeltaMsg d) s = handleWorkspaceDelta from d s"
| "handleMessage v now from (DeltaAck wid n c) s = s"
| "handleMessage v now from (MemberPageRequest wid cursor n prefix) s =
     handleMemberPageRequest (se_lc v) from wid cursor n prefix s"
| "handleMessage v now from (MemberPageResponse p) s = emit [Event (EvMemberPage (mp_workspaceId p) p)] s"
| "handleMessage v now from (HistoryPageRequest wid ch cursor n dir tr) s =
     handleHistoryPageRequest now from wid ch cursor n dir tr s"
| "handleMessage v now from (HistoryPageResponse wid ch p hints) s = handleHistoryPageResponse wid ch p hints s"
| "handleMessage v now from (HintsMsg wid hints) s = handleHistoryReplicaHints wid hints s"
| "handleMessage v now from (ShardAdvertisement sh) s = handleDirectoryShardAdvertisement (se_lc v) sh s"
| "handleMessage v now from (ShardRepair wid shard by targets) s =
     handleDirectoryShardRepair (se_me v) from wid shard targets s"
| "handleMessage v now from (PeerExchange servers) s = merge_servers (se_pex v) servers s"

subsection \<open>Replica hints form a join\<close>

definition hint_view :: "replica_hint \<Rightarrow> string set \<times> string set \<times> time" where
  "hint_view h = (set (rh_recentReplicaPeerIds h) - {[]}, set (get_or [] (rh_archiveReplicaPeerIds h)) - {[]},
     rh_updatedAt h)"

definition join_views ::
  "string set \<times> string set \<times> time \<Rightarrow> string set \<times> string set \<times> time \<Rightarrow> string set \<times> string set \<times> time" where
  "join_views a b = (fst a \<union> fst b, fst (snd a) \<union> fst (snd b), max (snd (snd a)) (snd (snd b)))"

interpretation hints: merge_join UNIV "\<lambda>prev hint. merge_hint (Some prev) hint" hint_view join_views
  by unfold_locales
    (auto simp: hint_view_def join_views_def merge_hint_def uniqueOrderedPeers_def max.commute max.assoc)

subsection \<open>Lemmas on the handlers\<close>

lemma find_upsert: "find (\<lambda>y. key y = key x) (upsert key x xs) = Some x"
proof (cases "list_ex (\<lambda>y. key y = key x) xs")
  case True
  then obtain y where "find (\<lambda>y. key y = key x) xs = Some y"
    by (cases "find (\<lambda>y. key y = key x) xs") (auto simp: find_None_all list_ex_iff)
  moreover have "find (\<lambda>y. key y = key x) (update_first (\<lambda>y. key y = key x) (\<lambda>_. x) xs) =
      map_option (\<lambda>_. x) (find (\<lambda>y. key y = key x) xs)"
    by (rule find_update_first) simp
  ultimately show ?thesis using True by (simp add: upsert_def)
next
  case False
  then have "find (\<lambda>y. key y = key x) xs = None" by (auto simp: find_None_all list_ex_iff)
  with False show ?thesis by (simp add: upsert_def find_append)
qed

lemma find_normalized:
  "find (\<lambda>m. wm_peerId m = p) (map normalize_member ms) = map_option normalize_member (find (\<lambda>m. wm_peerId m = p) ms)"
  by (induction ms) (auto simp: normalize_member_def Let_def)

lemma normalize_owner: "wm_role m = Owner \<Longrightarrow> wm_role (normalize_member m) = Owner"
  by (simp add: normalize_member_def Let_def)

lemma finish_delta_members [simp]: "ws_members (finish_delta v w) = ws_members w"
  by (simp add: finish_delta_def Let_def)

definition seizing_delta :: "string \<Rightarrow> member \<Rightarrow> manager \<Rightarrow> delta" where
  "seizing_delta wid m s = \<lparr>de_workspaceId = wid, de_baseVersion = current_version wid s,
     de_version = current_version wid s + 1, de_checkpointId = None, de_ops = [UpsertMember (Some m)]\<rparr>"

lemma seizing_delta_owner:
  assumes "stored wid s" "wm_role m = Owner"
  shows "role_of wid (wm_peerId m) (apply_ops (seizing_delta wid m s) s) = Some Owner"
proof -
  obtain w where w: "jm_get s wid = Some w" using assms(1) by (auto simp: stored_def split: option.splits)
  have "stored (de_workspaceId (seizing_delta wid m s)) s" "jm_get s (de_workspaceId (seizing_delta wid m s)) = Some w"
    using assms(1) w by (simp_all add: seizing_delta_def)
  from apply_ops_get [OF this, of wid]
  have "jm_get (apply_ops (seizing_delta wid m s) s) wid =
      Some (normalize_workspace (finish_delta (current_version wid s + 1)
        (w\<lparr>ws_members := upsert wm_peerId m (ws_members w)\<rparr>)))"
    by (simp add: seizing_delta_def)
  then show ?thesis
    using assms(2) find_upsert [of wm_peerId m "ws_members w"]
    by (simp add: role_of_get find_member_def normalize_workspace_def find_normalized normalize_owner)
qed

subsection \<open>Properties\<close>

definition demo_state :: "member list \<Rightarrow> sync_state" where
  "demo_state ms = \<lparr>sy_mgr = [(''w'', demo_workspace ms [])], sy_store = new_store, sy_buffers = [],
     sy_pending = [], sy_effects = []\<rparr>"

text \<open>
  Property C12. A channel message reaches the message store only with authority: if handling it changes
  what the store holds for a channel, then it is the message's channel, the sender is a member who is
  allowed in that channel of a workspace that has it, and the change is that this one message, which
  links to the channel's last hash, was appended.
\<close>

theorem channel_messages_are_authorised:
  assumes "store_inv (sy_store s)" "s' = handleMessage v now from (ChannelMessage wid ch m) s"
    and "getMessages_store c (sy_store s') \<noteq> getMessages_store c (sy_store s)"
  shows "c = ch \<and> (\<exists>w. resolveChannelMessageWorkspace wid ch (sy_mgr s) = Some w \<and>
      (\<exists>x \<in> set (ws_members w). wm_peerId x = from) \<and> isMemberAllowedInChannel (ws_id w) ch from (sy_mgr s)) \<and>
    m_prevHash m = getLastHash (se_sha v) ch (sy_store s) \<and>
    getMessages_store ch (sy_store s') = getMessages_store ch (sy_store s) @ [m\<lparr>m_channelId := ch\<rparr>] \<and>
    sy_mgr s' = sy_mgr s"
proof -
  let ?m = "m\<lparr>m_channelId := ch\<rparr>"
  obtain r st where add: "addMessage_store (se_sha v) ?m (sy_store s) = (r, st)" by fastforce
  from assms(2,3) obtain w ch' where w: "resolveChannelMessageWorkspace wid ch (sy_mgr s) = Some w"
    "\<exists>x \<in> set (ws_members w). wm_peerId x = from" "find (\<lambda>c. ch_id c = ch) (ws_channels w) = Some ch'"
    "isMemberAllowedInChannel (ws_id w) (ch_id ch') from (sy_mgr s)"
    by (auto simp: handleChannelMessage_def list_ex_iff split: option.splits if_splits)
  then have s': "sy_store s' = st" "sy_mgr s' = sy_mgr s"
    using assms(2) add by (auto simp: handleChannelMessage_def list_ex_iff Let_def split: sum.splits)
  have "ch_id ch' = ch" using find_Some_in [OF w(3)] by simp
  with w s' assms(3) addMessage_store_change [OF assms(1) add, of c] addMessage_store_change [OF assms(1) add, of ch]
  show ?thesis by (auto simp: add_accepts_def Let_def split: if_splits)
qed

definition demo_env :: sync_env where
  "demo_env = \<lparr>se_sha = id, se_digest = (\<lambda>_. replicate 32 0), se_lc = str_cmp, se_me = ''me'', se_pex = None\<rparr>"

lemma channel_messages_are_authorised_witness:
  "getMessages_store ''g'' (sy_store (handleMessage demo_env 5 ''bob''
     (ChannelMessage (Some ''w'') ''g'' (demo_msg ''a'' 1 GENESIS_HASH)) (demo_state [demo_member ''bob'' Member]))) =
   [(demo_msg ''a'' 1 GENESIS_HASH)\<lparr>m_channelId := ''g''\<rparr>]"
proof -
  let ?s = "demo_state [demo_member ''bob'' Member]" and ?m = "(demo_msg ''a'' 1 GENESIS_HASH)\<lparr>m_channelId := ''g''\<rparr>"
  let ?s' = "handleMessage demo_env 5 ''bob'' (ChannelMessage (Some ''w'') ''g'' (demo_msg ''a'' 1 GENESIS_HASH)) ?s"
  have e: "getMessages_store ''g'' (sy_store ?s) = []" by (simp add: demo_state_def getMessages_store_def)
  have acc: "add_accepts id ?m new_store"
    by (simp add: add_accepts_def getLastHash_def demo_msg_def MAX_MESSAGE_CHARS_def)
  then have add: "addMessage_store id ?m new_store = (Inr (), add_push ?m (ensureChannel ''g'' new_store))"
    using addMessage_store_result [OF store_inv_new, of id ?m] by (simp add: demo_msg_def)
  have gate: "resolveChannelMessageWorkspace (Some ''w'') ''g'' (sy_mgr ?s) = Some (demo_workspace [demo_member ''bob'' Member] [])"
    "isMemberAllowedInChannel ''w'' ''g'' ''bob'' (sy_mgr ?s)"
    by (simp_all add: resolveChannelMessageWorkspace_def truthy_def has_channel_def isMemberAllowedInChannel_def
        find_member_def demo_state_def demo_workspace_def demo_channel_def demo_member_def)
  have parts: "sy_store ?s = new_store" "ws_id (demo_workspace [demo_member ''bob'' Member] []) = ''w''"
    "find (\<lambda>c. ch_id c = ''g'') (ws_channels (demo_workspace [demo_member ''bob'' Member] [])) =
       Some (demo_channel ''g'' ''general'')" "ch_id (demo_channel ''g'' ''general'') = ''g''"
    "list_ex (\<lambda>x. wm_peerId x = ''bob'') (ws_members (demo_workspace [demo_member ''bob'' Member] []))"
    by (simp_all add: demo_state_def demo_workspace_def demo_channel_def demo_member_def)
  have "sy_store ?s' = add_push ?m (ensureChannel ''g'' new_store)"
    using gate add parts by (simp add: handleChannelMessage_def demo_env_def Let_def)
  then have "getMessages_store ''g'' (sy_store ?s') \<noteq> getMessages_store ''g'' (sy_store ?s)"
    by (simp add: e) (simp add: getMessages_store_def add_push_def demo_msg_def)
  from channel_messages_are_authorised [OF _ refl this] e show ?thesis
    by (simp add: demo_state_def store_inv_new)
qed

text \<open>
  Deltas and deletions are not checked for authority: any peer \<open>p\<close>, member or not, banned
  or not, makes itself an owner of a stored workspace with one \<open>workspace-delta\<close> message, and removes
  the workspace from the receiver with one \<open>workspace-deleted\<close> message.
\<close>

theorem any_peer_seizes_or_deletes:
  assumes "stored wid (sy_mgr s)" "jm_get_or [] (sy_buffers s) wid = []" "wid \<noteq> []"
    and "wm_peerId m = p" "wm_role m = Owner"
  shows "isOwner wid p (sy_mgr (handleMessage v now p (DeltaMsg (seizing_delta wid m (sy_mgr s))) s)) \<and>
    getWorkspace wid (sy_mgr (handleMessage v now p (WorkspaceDeleted (Some wid) p) s)) = None"
proof -
  obtain w where w: "jm_get (sy_mgr s) wid = Some w" using assms(1) by (auto simp: stored_def split: option.splits)
  have "sy_mgr (handleMessage v now p (DeltaMsg (seizing_delta wid m (sy_mgr s))) s) =
      apply_ops (seizing_delta wid m (sy_mgr s)) (sy_mgr s)"
    using w assms(2)
    by (simp add: handleWorkspaceDelta_def applyDelta_def flushBuffered_def Let_def seizing_delta_def
        current_version_def)
  then show ?thesis
    using seizing_delta_owner [OF assms(1,5)] assms(3,4)
    by (simp add: isOwner_role handleWorkspaceDeleted_def truthy_def removeWorkspace_def getWorkspace_def js_map)
qed

lemma any_peer_seizes_or_deletes_witness:
  "isOwner ''w'' ''eve'' (sy_mgr (handleMessage demo_env 5 ''eve''
     (DeltaMsg (seizing_delta ''w'' (demo_member ''eve'' Owner) (sy_mgr (demo_state [demo_member ''boss'' Owner]))))
     (demo_state [demo_member ''boss'' Owner])))"
  by (rule any_peer_seizes_or_deletes [THEN conjunct1])
    (simp_all add: demo_state_def stored_def demo_workspace_def demo_member_def jm_get_or_def)

text \<open>
  A stranger can let itself in: whoever asks for a workspace's shell is sent its invite
  code, and a join request with that code is granted with the role the requester claims. So a peer that
  is neither a member nor banned becomes an owner with two messages.
\<close>

theorem stranger_joins_as_owner:
  fixes v :: sync_env and now :: time and p :: string and s :: sync_state
  assumes "jm_get (sy_mgr s) (ws_id w) = Some w" "validateInviteCode (ws_inviteCode w) (sy_mgr s) = Some w"
    and "find_member p w = None" "\<not> banned_now now p w" "wm_peerId m = p" "wm_role m = Owner"
  defines "s1 \<equiv> handleMessage v now p (ShellRequest (ws_id w)) s"
  shows "Send p (ShellResponse (shell_of w) (Some (ws_inviteCode w))) None \<in> set (sy_effects s1) \<and>
    isOwner (ws_id w) p (sy_mgr (handleMessage v now p (JoinRequest (ws_inviteCode w) m None None mode caps) s1))"
proof -
  have s1: "s1 = emit [Send p (ShellResponse (shell_of w) (Some (ws_inviteCode w))) None] s"
    using assms(1) by (simp add: s1_def handleShellRequest_def buildWorkspaceShell_def)
  have "addMember now (ws_id w) m (sy_mgr s) = (Inr (), jm_set (ws_id w) (admit now m w) (sy_mgr s))"
    using assms(1,3-5) by (simp add: addMember_cases)
  moreover have "find_member p (admit now m w) \<noteq> None \<and>
      map_option wm_role (find_member p (admit now m w)) = Some Owner"
    using assms(3,5,6) by (auto simp: find_member_def admit_def find_append split: option.splits)
  ultimately show ?thesis
    using assms(2)
    by (simp add: s1 handleJoinRequest_def merge_servers_def isInviteRevoked_def exportWorkspace_def js_map
        isOwner_role Let_def)
qed

lemma stranger_joins_as_owner_witness:
  "isOwner ''w'' ''eve'' (sy_mgr (handleMessage demo_env 5 ''eve''
     (JoinRequest ''CODE'' (demo_member ''eve'' Owner) None None None None)
     (handleMessage demo_env 5 ''eve'' (ShellRequest ''w'') (demo_state [demo_member ''boss'' Owner]))))"
proof -
  let ?w = "demo_workspace [demo_member ''boss'' Owner] []"
  have w: "ws_id ?w = ''w''" "ws_inviteCode ?w = ''CODE''" by (simp_all add: demo_workspace_def)
  have "jm_get (sy_mgr (demo_state [demo_member ''boss'' Owner])) (ws_id ?w) = Some ?w"
    "validateInviteCode (ws_inviteCode ?w) (sy_mgr (demo_state [demo_member ''boss'' Owner])) = Some ?w"
    "find_member ''eve'' ?w = None" "\<not> banned_now 5 ''eve'' ?w"
    by (simp_all add: w demo_state_def validateInviteCode_def jm_values_def)
      (simp_all add: demo_workspace_def find_member_def banned_now_def demo_member_def)
  from stranger_joins_as_owner [OF this, of "demo_member ''eve'' Owner" demo_env None None] w show ?thesis
    by (simp add: demo_member_def)
qed

text \<open>
  Replica hints converge: merging the same hints into a channel's hint, in any order and
  however often, leads to the same known replicas of each tier and the same time of update.
\<close>

theorem replica_hints_converge:
  assumes "set hs = set hs'"
  shows "hint_view (foldl (\<lambda>prev h. merge_hint (Some prev) h) h0 hs) =
    hint_view (foldl (\<lambda>prev h. merge_hint (Some prev) h) h0 hs')"
  by (rule hints.converge) (use assms in simp_all)

lemma replica_hints_converge_witness:
  "let h = \<lparr>rh_workspaceId = ''w'', rh_channelId = ''g'', rh_recentReplicaPeerIds = [''a''],
       rh_archiveReplicaPeerIds = None, rh_updatedAt = 1\<rparr>
   in hint_view (foldl (\<lambda>prev x. merge_hint (Some prev) x) h [h, h]) =
      hint_view (foldl (\<lambda>prev x. merge_hint (Some prev) x) h [h])"
  unfolding Let_def by (rule replica_hints_converge) simp

text \<open>
  \<open>selectHistoryPageSource\<close> never asks the peer itself, nobody outside the available peers
  (when a list of them is given) and nobody who is not a known replica of the channel, and it finds a
  source whenever there is such a peer.
\<close>

theorem history_source_is_sound_and_complete:
  fixes available :: "string list" and me :: string and tr :: tier
  assumes "jm_get (sy_mgr s) wid = Some w" "find (\<lambda>c. ch_id c = ch) (ws_channels w) = Some c"
  defines "good \<equiv> {p \<in> set (history_candidates c tr). p \<noteq> me \<and> (available = [] \<or> p \<in> set available)}"
  shows "case selectHistoryPageSource me wid ch tr available s of None \<Rightarrow> good = {} | Some p \<Rightarrow> p \<in> good"
  using assms
  by (auto simp: selectHistoryPageSource_def find_None_all split: option.split dest!: find_Some_in)

lemma history_source_is_sound_and_complete_witness:
  "selectHistoryPageSource ''me'' ''w'' ''g'' Recent [] (demo_state []) = None"
proof -
  have "jm_get (sy_mgr (demo_state [])) ''w'' = Some (demo_workspace [] [])"
    "find (\<lambda>c. ch_id c = ''g'') (ws_channels (demo_workspace [] [])) = Some (demo_channel ''g'' ''general'')"
    by (simp_all add: demo_state_def demo_workspace_def demo_channel_def)
  note correct = history_source_is_sound_and_complete [OF this, where me = "''me''" and tr = Recent and available = "[]"]
  have "history_candidates (demo_channel ''g'' ''general'') Recent = []"
    by code_simp
  with correct show ?thesis
    by (cases "selectHistoryPageSource ''me'' ''w'' ''g'' Recent [] (demo_state [])") simp_all
qed

end
