(* ===== verification/RateLimiter.thy ===== *)
theory RateLimiter
  imports Prelude Complex_Main
begin

section \<open>Token buckets and bans (security/RateLimiter.ts)\<close>

text \<open>
  The class \<open>RateLimiter\<close>: per peer and action a token bucket, per peer a reputation that
  escalates to temporary bans. Token counts are rational numbers (the code computes with doubles),
  times are milliseconds. Every call reads the clock once, as its argument \<open>now\<close>; \<open>Infinity\<close> as a
  deadline is \<open>Never\<close>. What the callback \<open>onViolation\<close> is called with is collected in the state.
  The locale \<open>metered\<close> holds the amortised argument behind the rate bounds.
\<close>

subsection \<open>State\<close>

datatype rl_action = MessageAction | BytesAction | ConnectionAction | SyncAction | MediaAction | HandshakeAction

record bucket_config =
  bc_max :: rat
  bc_refillRate :: rat
  bc_costPerAction :: "rat option"

definition DEFAULT_LIMITS :: "rl_action \<Rightarrow> bucket_config" where
  "DEFAULT_LIMITS a = (case a of
     MessageAction \<Rightarrow> \<lparr>bc_max = 30, bc_refillRate = 10, bc_costPerAction = None\<rparr>
   | BytesAction \<Rightarrow> \<lparr>bc_max = 5242880, bc_refillRate = 102400, bc_costPerAction = None\<rparr>
   | ConnectionAction \<Rightarrow> \<lparr>bc_max = 5, bc_refillRate = 1 / 60, bc_costPerAction = None\<rparr>
   | SyncAction \<Rightarrow> \<lparr>bc_max = 120, bc_refillRate = 20, bc_costPerAction = None\<rparr>
   | MediaAction \<Rightarrow> \<lparr>bc_max = 100, bc_refillRate = 20, bc_costPerAction = None\<rparr>
   | HandshakeAction \<Rightarrow> \<lparr>bc_max = 3, bc_refillRate = 1 / 10, bc_costPerAction = None\<rparr>)"

record bucket =
  bk_tokens :: rat
  bk_lastRefill :: time
  bk_config :: bucket_config

datatype severity = Warning | Soft | Hard | Ban

datatype deadline = At time | Never

fun passed :: "time \<Rightarrow> deadline \<Rightarrow> bool" where
  "passed now (At t) \<longleftrightarrow> t \<le> now"
| "passed now Never \<longleftrightarrow> False"

fun time_left :: "time \<Rightarrow> deadline \<Rightarrow> deadline" where
  "time_left now (At t) = At (t - now)"
| "time_left now Never = Never"

fun time_after :: "time \<Rightarrow> deadline \<Rightarrow> deadline" where
  "time_after now (At d) = At (now + d)"
| "time_after now Never = Never"

record violation =
  vi_peerId :: string
  vi_action :: rl_action
  vi_severity :: severity
  vi_timestamp :: time
  vi_tokensRequested :: rat
  vi_tokensAvailable :: rat

record reputation =
  rp_peerId :: string
  rp_violations :: nat
  rp_lastViolation :: time
  rp_banned :: bool
  rp_bannedUntil :: deadline
  rp_level :: nat

record rl_result =
  rr_allowed :: bool
  rr_tokensRemaining :: rat
  rr_retryAfterMs :: "deadline option"
  rr_violation :: "violation option"

record limiter =
  rl_limits :: "rl_action \<Rightarrow> bucket_config"
  rl_buckets :: "(string, (rl_action, bucket) jsmap) jsmap"
  rl_reputations :: "(string, reputation) jsmap"
  rl_reported :: "violation list"

definition banDurations :: "deadline list" where
  "banDurations = [At 60000, At 300000, At 1800000, At 7200000, Never]"

text \<open>The configuration passed to the constructor overrides the defaults field by field.\<close>

record config_patch =
  cp_max :: "rat option"
  cp_refillRate :: "rat option"
  cp_costPerAction :: "rat option"

definition get_default :: "'a \<Rightarrow> 'a option \<Rightarrow> 'a" where
  "get_default d v = (case v of None \<Rightarrow> d | Some x \<Rightarrow> x)"

definition patch_config :: "config_patch \<Rightarrow> bucket_config \<Rightarrow> bucket_config" where
  "patch_config p c = \<lparr>bc_max = get_default (bc_max c) (cp_max p),
     bc_refillRate = get_default (bc_refillRate c) (cp_refillRate p),
     bc_costPerAction = (case cp_costPerAction p of None \<Rightarrow> bc_costPerAction c | Some x \<Rightarrow> Some x)\<rparr>"

definition new_limiter :: "(rl_action, config_patch) jsmap \<Rightarrow> limiter" where
  "new_limiter limits =
     \<lparr>rl_limits = (\<lambda>a. case jm_get limits a of None \<Rightarrow> DEFAULT_LIMITS a | Some p \<Rightarrow> patch_config p (DEFAULT_LIMITS a)),
      rl_buckets = [], rl_reputations = [], rl_reported = []\<rparr>"

subsection \<open>Operations\<close>

definition fresh_reputation :: "string \<Rightarrow> reputation" where
  "fresh_reputation p = \<lparr>rp_peerId = p, rp_violations = 0, rp_lastViolation = 0, rp_banned = False,
     rp_bannedUntil = At 0, rp_level = 0\<rparr>"

definition rep_of :: "string \<Rightarrow> limiter \<Rightarrow> reputation" where
  "rep_of p l = jm_get_or (fresh_reputation p) (rl_reputations l) p"

definition put_rep :: "string \<Rightarrow> reputation \<Rightarrow> limiter \<Rightarrow> limiter" where
  "put_rep p r l = l\<lparr>rl_reputations := jm_set p r (rl_reputations l)\<rparr>"

definition getReputation :: "string \<Rightarrow> limiter \<Rightarrow> reputation \<times> limiter" where
  "getReputation p l = (rep_of p l, if jm_has (rl_reputations l) p then l else put_rep p (rep_of p l) l)"

definition find_bucket :: "string \<Rightarrow> rl_action \<Rightarrow> limiter \<Rightarrow> bucket option" where
  "find_bucket p a l = (case jm_get (rl_buckets l) p of None \<Rightarrow> None | Some bs \<Rightarrow> jm_get bs a)"

definition getBucket :: "time \<Rightarrow> string \<Rightarrow> rl_action \<Rightarrow> limiter \<Rightarrow> bucket" where
  "getBucket now p a l = (case find_bucket p a l of
     None \<Rightarrow> \<lparr>bk_tokens = bc_max (rl_limits l a), bk_lastRefill = now, bk_config = rl_limits l a\<rparr>
   | Some b \<Rightarrow> b)"

definition put_bucket :: "string \<Rightarrow> rl_action \<Rightarrow> bucket \<Rightarrow> limiter \<Rightarrow> limiter" where
  "put_bucket p a b l = l\<lparr>rl_buckets := jm_set p (jm_set a b (jm_get_or [] (rl_buckets l) p)) (rl_buckets l)\<rparr>"

definition refill :: "time \<Rightarrow> bucket \<Rightarrow> bucket" where
  "refill now b =
     (let elapsed = of_int (now - bk_lastRefill b) / 1000; amount = elapsed * bc_refillRate (bk_config b)
      in if amount > 0 then b\<lparr>bk_tokens := min (bc_max (bk_config b)) (bk_tokens b + amount), bk_lastRefill := now\<rparr>
         else b)"

definition cost_of :: "rat option \<Rightarrow> bucket_config \<Rightarrow> rat" where
  "cost_of cost c = get_default (get_default 1 (bc_costPerAction c)) cost"

definition retry_after :: "rat \<Rightarrow> bucket \<Rightarrow> deadline" where
  "retry_after cost b =
     (if bc_refillRate (bk_config b) = 0 then Never
      else At \<lceil>(cost - bk_tokens b) / bc_refillRate (bk_config b) * 1000\<rceil>)"

definition calculateSeverity :: "reputation \<Rightarrow> severity" where
  "calculateSeverity r = (if rp_level r \<ge> 3 then Ban else if rp_level r \<ge> 2 then Hard
     else if rp_level r \<ge> 1 then Soft else Warning)"

definition recordViolation :: "time \<Rightarrow> violation \<Rightarrow> reputation \<Rightarrow> reputation" where
  "recordViolation now v r =
     (let r1 = r\<lparr>rp_violations := rp_violations r + 1, rp_lastViolation := now\<rparr>;
          r2 = (if now - rp_lastViolation r1 < 3600000 \<or> rp_violations r1 > 1
                then r1\<lparr>rp_level := min (rp_level r1 + 1) (length banDurations)\<rparr> else r1)
      in if vi_severity v = Ban \<or> rp_level r2 \<ge> 3
         then r2\<lparr>rp_banned := True,
                 rp_bannedUntil := time_after now (banDurations ! min (rp_level r2 - 3) (length banDurations - 1))\<rparr>
         else r2)"

definition throttle_only :: "rl_action \<Rightarrow> bool" where
  "throttle_only a \<longleftrightarrow> a = MediaAction \<or> a = SyncAction"

text \<open>\<open>check\<close>: a ban in force refuses; an expired ban is lifted; then the bucket is refilled and pays.\<close>

definition refused_by_ban :: "time \<Rightarrow> string \<Rightarrow> rl_action \<Rightarrow> rat option \<Rightarrow> reputation \<Rightarrow> rl_result" where
  "refused_by_ban now p a cost r = \<lparr>rr_allowed = False, rr_tokensRemaining = 0,
     rr_retryAfterMs = Some (time_left now (rp_bannedUntil r)),
     rr_violation = Some \<lparr>vi_peerId = p, vi_action = a, vi_severity = Ban, vi_timestamp = now,
       vi_tokensRequested = get_default 1 cost, vi_tokensAvailable = 0\<rparr>\<rparr>"

definition lift_expired :: "reputation \<Rightarrow> reputation" where
  "lift_expired r = (if rp_banned r then r\<lparr>rp_banned := False, rp_bannedUntil := At 0\<rparr> else r)"

definition check :: "time \<Rightarrow> string \<Rightarrow> rl_action \<Rightarrow> rat option \<Rightarrow> limiter \<Rightarrow> rl_result \<times> limiter" where
  "check now p a cost l =
     (let r = rep_of p l in
      if rp_banned r \<and> \<not> passed now (rp_bannedUntil r) then (refused_by_ban now p a cost r, put_rep p r l)
      else
        let r1 = lift_expired r;
            b = refill now (getBucket now p a l);
            tokenCost = cost_of cost (bk_config b)
        in if bk_tokens b \<ge> tokenCost then
             let b1 = b\<lparr>bk_tokens := bk_tokens b - tokenCost\<rparr>
             in (\<lparr>rr_allowed = True, rr_tokensRemaining = bk_tokens b1, rr_retryAfterMs = None, rr_violation = None\<rparr>,
                 put_bucket p a b1 (put_rep p r1 l))
           else
             let v = \<lparr>vi_peerId = p, vi_action = a,
                      vi_severity = (if throttle_only a then Warning else calculateSeverity r1),
                      vi_timestamp = now, vi_tokensRequested = tokenCost, vi_tokensAvailable = bk_tokens b\<rparr>;
                 r2 = (if throttle_only a then r1 else recordViolation now v r1)
             in (\<lparr>rr_allowed = False, rr_tokensRemaining = bk_tokens b,
                  rr_retryAfterMs = Some (retry_after tokenCost b), rr_violation = Some v\<rparr>,
                 put_bucket p a b (put_rep p r2 l)\<lparr>rl_reported := rl_reported l @ [v]\<rparr>))"

definition peek :: "time \<Rightarrow> string \<Rightarrow> rl_action \<Rightarrow> rat option \<Rightarrow> limiter \<Rightarrow> bool \<times> limiter" where
  "peek now p a cost l =
     (let (r, l1) = getReputation p l in
      if rp_banned r \<and> \<not> passed now (rp_bannedUntil r) then (False, l1)
      else let b = refill now (getBucket now p a l)
           in (bk_tokens b \<ge> cost_of cost (bk_config b), put_bucket p a b l1))"

definition ban_peer :: "time \<Rightarrow> string \<Rightarrow> deadline \<Rightarrow> limiter \<Rightarrow> limiter" where
  "ban_peer now p duration l =
     (let r = rep_of p l
      in put_rep p (r\<lparr>rp_banned := True, rp_bannedUntil := time_after now duration, rp_level := max (rp_level r) 4\<rparr>) l)"

definition unban_peer :: "string \<Rightarrow> limiter \<Rightarrow> limiter" where
  "unban_peer p l = put_rep p ((rep_of p l)\<lparr>rp_banned := False, rp_bannedUntil := At 0, rp_level := 0, rp_violations := 0\<rparr>) l"

definition is_banned :: "time \<Rightarrow> string \<Rightarrow> limiter \<Rightarrow> bool \<times> limiter" where
  "is_banned now p l =
     (case jm_get (rl_reputations l) p of
        None \<Rightarrow> (False, l)
      | Some r \<Rightarrow>
          if \<not> rp_banned r then (False, l)
          else if passed now (rp_bannedUntil r) then (False, put_rep p (r\<lparr>rp_banned := False\<rparr>) l)
          else (True, l))"

definition removePeer :: "string \<Rightarrow> limiter \<Rightarrow> limiter" where
  "removePeer p l = l\<lparr>rl_buckets := jm_delete p (rl_buckets l)\<rparr>"

definition reset_limiter :: "limiter \<Rightarrow> limiter" where
  "reset_limiter l = l\<lparr>rl_buckets := [], rl_reputations := []\<rparr>"

definition getBannedPeers :: "time \<Rightarrow> limiter \<Rightarrow> reputation list" where
  "getBannedPeers now l = filter (\<lambda>r. rp_banned r \<and> \<not> passed now (rp_bannedUntil r)) (jm_values (rl_reputations l))"

text \<open>A call at a time.\<close>

datatype rl_call = Check string rl_action "rat option" | Peek string rl_action "rat option" | Reputation string
  | BanPeer string deadline | UnbanPeer string | IsBanned string | RemovePeer string | Reset

fun rl_step :: "time \<times> rl_call \<Rightarrow> limiter \<Rightarrow> limiter" where
  "rl_step (now, Check p a cost) l = snd (check now p a cost l)"
| "rl_step (now, Peek p a cost) l = snd (peek now p a cost l)"
| "rl_step (now, Reputation p) l = snd (getReputation p l)"
| "rl_step (now, BanPeer p d) l = ban_peer now p d l"
| "rl_step (now, UnbanPeer p) l = unban_peer p l"
| "rl_step (now, IsBanned p) l = snd (is_banned now p l)"
| "rl_step (now, RemovePeer p) l = removePeer p l"
| "rl_step (now, Reset) l = reset_limiter l"


subsection \<open>Amortised budgets\<close>

text \<open>
  A meter on a component: each call may be charged, the budget is \<open>level\<close>, and a call at time
  \<open>now\<close> pays its charge from what the budget was plus what flowed in since. What a whole run is
  charged is then bounded by the first budget and the inflow.
\<close>

fun charged :: "(time \<times> 'o \<Rightarrow> 's \<Rightarrow> 's) \<Rightarrow> (time \<times> 'o \<Rightarrow> 's \<Rightarrow> rat) \<Rightarrow> (time \<times> 'o) list \<Rightarrow> 's \<Rightarrow> rat" where
  "charged step charge [] s = 0"
| "charged step charge (op # ops) s = charge op s + charged step charge ops (step op s)"

fun timed :: "time \<Rightarrow> time \<Rightarrow> (time \<times> 'o) list \<Rightarrow> bool" where
  "timed t t1 [] \<longleftrightarrow> t \<le> t1"
| "timed t t1 (op # ops) \<longleftrightarrow> t \<le> fst op \<and> timed (fst op) t1 ops"

definition inflow :: "rat \<Rightarrow> time \<Rightarrow> time \<Rightarrow> rat" where
  "inflow r t t1 = of_int (t1 - t) / 1000 * r"

lemma inflow_nonneg [simp]: "0 \<le> r \<Longrightarrow> t \<le> t1 \<Longrightarrow> 0 \<le> inflow r t t1"
  by (simp add: inflow_def)

lemma inflow_add: "inflow r t u + inflow r u v = inflow r t v"
  by (simp add: inflow_def field_simps)

lemma inflow_same [simp]: "inflow r t t = 0"
  by (simp add: inflow_def)

locale metered =
  fixes step :: "time \<times> 'o \<Rightarrow> 's \<Rightarrow> 's"
    and charge :: "time \<times> 'o \<Rightarrow> 's \<Rightarrow> rat"
    and ok :: "'o \<Rightarrow> bool"
    and inv :: "'s \<Rightarrow> time \<Rightarrow> bool"
    and rate :: "'s \<Rightarrow> rat"
    and level :: "'s \<Rightarrow> time \<Rightarrow> rat"
  assumes step_inv: "inv s t \<Longrightarrow> t \<le> now \<Longrightarrow> ok op \<Longrightarrow> inv (step (now, op) s) now"
    and step_level: "inv s t \<Longrightarrow> t \<le> now \<Longrightarrow> ok op \<Longrightarrow>
      level (step (now, op) s) now + charge (now, op) s \<le> level s t + inflow (rate s) t now"
    and step_rate: "inv s t \<Longrightarrow> t \<le> now \<Longrightarrow> ok op \<Longrightarrow> rate (step (now, op) s) = rate s"
    and level_nonneg: "inv s t \<Longrightarrow> 0 \<le> level s t"
    and rate_nonneg: "inv s t \<Longrightarrow> 0 \<le> rate s"
begin

lemma run_charge:
  "inv s t \<Longrightarrow> timed t t1 ops \<Longrightarrow> list_all (\<lambda>op. ok (snd op)) ops \<Longrightarrow>
    charged step charge ops s \<le> level s t + inflow (rate s) t t1"
proof (induction ops arbitrary: s t)
  case Nil
  then show ?case using level_nonneg [of s t] rate_nonneg [of s t] by (simp add: add_nonneg_nonneg)
next
  case (Cons op ops)
  obtain now c where op: "op = (now, c)" by fastforce
  with Cons.prems have ok: "inv s t" "t \<le> now" "ok c" by auto
  have "charged step charge ops (step op s) \<le>
      level (step op s) now + inflow (rate (step op s)) now t1"
    using Cons.prems op by (intro Cons.IH) (auto intro: step_inv)
  with step_level [OF ok] step_rate [OF ok] inflow_add [of "rate s" t now t1] show ?case
    by (simp add: op)
qed

end

text \<open>The meter on one bucket of the limiter.\<close>

definition sane_config :: "bucket_config \<Rightarrow> bool" where
  "sane_config c \<longleftrightarrow> 0 \<le> bc_max c \<and> 0 \<le> bc_refillRate c \<and> 0 \<le> get_default 1 (bc_costPerAction c)"

definition bucket_ok :: "bucket_config \<Rightarrow> time \<Rightarrow> bucket \<Rightarrow> bool" where
  "bucket_ok c t b \<longleftrightarrow> bk_config b = c \<and> 0 \<le> bk_tokens b \<and> bk_tokens b \<le> bc_max c \<and> bk_lastRefill b \<le> t"

definition meter_inv :: "string \<Rightarrow> rl_action \<Rightarrow> limiter \<Rightarrow> time \<Rightarrow> bool" where
  "meter_inv p a l t \<longleftrightarrow> sane_config (rl_limits l a) \<and>
     (case find_bucket p a l of None \<Rightarrow> True | Some b \<Rightarrow> bucket_ok (rl_limits l a) t b)"

definition bucket_level :: "bucket \<Rightarrow> time \<Rightarrow> rat" where
  "bucket_level b t = bk_tokens b + inflow (bc_refillRate (bk_config b)) (bk_lastRefill b) t"

definition meter_level :: "string \<Rightarrow> rl_action \<Rightarrow> limiter \<Rightarrow> time \<Rightarrow> rat" where
  "meter_level p a l t = (case find_bucket p a l of None \<Rightarrow> bc_max (rl_limits l a) | Some b \<Rightarrow> bucket_level b t)"

fun check_charge :: "string \<Rightarrow> rl_action \<Rightarrow> time \<times> rl_call \<Rightarrow> limiter \<Rightarrow> rat" where
  "check_charge p a (now, Check q b cost) l =
     (if q = p \<and> b = a \<and> rr_allowed (fst (check now q b cost l))
      then cost_of cost (bk_config (getBucket now q b l)) else 0)"
| "check_charge p a (now, c) l = 0"

fun keeps_bucket :: "string \<Rightarrow> rl_call \<Rightarrow> bool" where
  "keeps_bucket p (Check q b cost) \<longleftrightarrow> 0 \<le> get_default 0 cost"
| "keeps_bucket p (RemovePeer q) \<longleftrightarrow> q \<noteq> p"
| "keeps_bucket p Reset \<longleftrightarrow> False"
| "keeps_bucket p c \<longleftrightarrow> True"

lemma find_bucket_put [simp]:
  "find_bucket p a (put_bucket q b x l) = (if p = q \<and> a = b then Some x else find_bucket p a l)"
  by (auto simp: find_bucket_def put_bucket_def jm_get_or_def js_map split: option.splits)

lemma find_bucket_rep [simp]: "find_bucket p a (put_rep q r l) = find_bucket p a l"
  by (simp add: find_bucket_def put_rep_def)

lemma find_bucket_reported [simp]: "find_bucket p a (l\<lparr>rl_reported := v\<rparr>) = find_bucket p a l"
  by (simp add: find_bucket_def)

lemma limits_put [simp]: "rl_limits (put_bucket p a b l) = rl_limits l" "rl_limits (put_rep p r l) = rl_limits l"
  by (simp_all add: put_bucket_def put_rep_def)

lemma step_limits [simp]: "rl_limits (rl_step op l) = rl_limits l"
  by (cases "(op, l)" rule: rl_step.cases)
    (simp_all add: check_def peek_def getReputation_def ban_peer_def unban_peer_def is_banned_def removePeer_def
      reset_limiter_def Let_def split: option.splits)

lemma bk_config_refill [simp]: "bk_config (refill now b) = bk_config b"
  by (simp add: refill_def Let_def)

lemma refill_ok: "sane_config c \<Longrightarrow> bucket_ok c t b \<Longrightarrow> t \<le> now \<Longrightarrow> bucket_ok c now (refill now b)"
  by (auto simp: bucket_ok_def refill_def sane_config_def Let_def min_def)

lemma refill_level: "bucket_ok c t b \<Longrightarrow> sane_config c \<Longrightarrow> t \<le> now \<Longrightarrow>
    bucket_level (refill now b) now \<le> bucket_level b t + inflow (bc_refillRate c) t now"
proof -
  assume b: "bucket_ok c t b" "sane_config c" "t \<le> now"
  have "bucket_level b t + inflow (bc_refillRate c) t now = bk_tokens b + inflow (bc_refillRate c) (bk_lastRefill b) now"
    using b(1) inflow_add [of "bc_refillRate c" "bk_lastRefill b" t now] by (simp add: bucket_level_def bucket_ok_def)
  moreover have "bk_config b = c" using b(1) by (simp add: bucket_ok_def)
  ultimately show ?thesis
    by (simp add: bucket_level_def refill_def Let_def) (simp add: inflow_def min_def)
qed


lemma bucket_ok_mono: "bucket_ok c t b \<Longrightarrow> t \<le> now \<Longrightarrow> bucket_ok c now b"
  by (simp add: bucket_ok_def)

lemma getBucket_config: "meter_inv p a l t \<Longrightarrow> bk_config (getBucket now p a l) = rl_limits l a"
  by (auto simp: meter_inv_def getBucket_def bucket_ok_def split: option.splits)

lemma refilled_bucket:
  assumes "meter_inv p a l t" "t \<le> now"
  defines "b \<equiv> refill now (getBucket now p a l)"
  shows "bucket_ok (rl_limits l a) now b"
    and "bucket_level b now \<le> meter_level p a l t + inflow (bc_refillRate (rl_limits l a)) t now"
proof -
  let ?c = "rl_limits l a"
  have sane: "sane_config ?c" using assms(1) by (simp add: meter_inv_def)
  have "bucket_ok ?c now b \<and> bucket_level b now \<le> meter_level p a l t + inflow (bc_refillRate ?c) t now"
  proof (cases "find_bucket p a l")
    case None
    then have "b = \<lparr>bk_tokens = bc_max ?c, bk_lastRefill = now, bk_config = ?c\<rparr>"
      by (simp add: b_def getBucket_def refill_def)
    with None sane assms(2) show ?thesis
      by (simp add: bucket_ok_def bucket_level_def meter_level_def sane_config_def)
  next
    case (Some x)
    then have x: "getBucket now p a l = x" "bucket_ok ?c t x"
      using assms(1) by (simp_all add: getBucket_def meter_inv_def)
    from refill_ok [OF sane x(2) assms(2)] refill_level [OF x(2) sane assms(2)] Some show ?thesis
      by (simp add: b_def x(1) meter_level_def)
  qed
  then show "bucket_ok ?c now b"
    "bucket_level b now \<le> meter_level p a l t + inflow (bc_refillRate ?c) t now" by auto
qed

text \<open>A call that leaves the bucket alone, and a call that stores a bucket that is no richer.\<close>

lemma meter_untouched:
  assumes "meter_inv p a l t" "t \<le> now" "find_bucket p a l' = find_bucket p a l" "rl_limits l' = rl_limits l"
  shows "meter_inv p a l' now"
    and "meter_level p a l' now \<le> meter_level p a l t + inflow (bc_refillRate (rl_limits l a)) t now"
proof -
  show "meter_inv p a l' now"
    using assms by (auto simp: meter_inv_def intro: bucket_ok_mono split: option.splits)
  show "meter_level p a l' now \<le> meter_level p a l t + inflow (bc_refillRate (rl_limits l a)) t now"
  proof (cases "find_bucket p a l")
    case (Some b)
    then have "bk_config b = rl_limits l a" using assms(1) by (simp add: meter_inv_def bucket_ok_def)
    with assms(3,4) Some show ?thesis by (simp add: meter_level_def bucket_level_def inflow_add add.assoc)
  qed (use assms in \<open>simp add: meter_level_def meter_inv_def sane_config_def\<close>)
qed

lemma meter_stored:
  assumes "meter_inv p a l t" "t \<le> now" "0 \<le> k" "k \<le> bk_tokens b" "b = refill now (getBucket now p a l)"
    and "find_bucket p a l' = Some (b\<lparr>bk_tokens := bk_tokens b - k\<rparr>)" "rl_limits l' = rl_limits l"
  shows "meter_inv p a l' now"
    and "meter_level p a l' now + k \<le> meter_level p a l t + inflow (bc_refillRate (rl_limits l a)) t now"
proof -
  note b = refilled_bucket [OF assms(1,2), folded assms(5)]
  show "meter_inv p a l' now"
    using b(1) assms(1,3,4,6,7) by (auto simp: meter_inv_def bucket_ok_def)
  from b(2) assms(6) show "meter_level p a l' now + k \<le>
      meter_level p a l t + inflow (bc_refillRate (rl_limits l a)) t now"
    by (simp add: meter_level_def bucket_level_def)
qed


lemma cost_nonneg: "sane_config c \<Longrightarrow> 0 \<le> get_default 0 cost \<Longrightarrow> 0 \<le> cost_of cost c"
  by (cases cost) (simp_all add: cost_of_def get_default_def sane_config_def)

lemma step_untouched:
  "keeps_bucket p op \<Longrightarrow> \<forall>cost. op \<noteq> Check p a cost \<and> op \<noteq> Peek p a cost \<Longrightarrow>
    find_bucket p a (rl_step (now, op) l) = find_bucket p a l"
  by (cases op)
    (auto simp: check_def peek_def getReputation_def ban_peer_def unban_peer_def is_banned_def removePeer_def
      find_bucket_def js_map put_rep_def put_bucket_def jm_get_or_def Let_def split: option.splits)

lemma check_cases:
  fixes now :: time and cost :: "rat option"
  assumes "meter_inv p a l t"
  defines "b \<equiv> refill now (getBucket now p a l)"
  shows "find_bucket p a (snd (check now p a cost l)) = find_bucket p a l \<and> \<not> rr_allowed (fst (check now p a cost l)) \<or>
    find_bucket p a (snd (check now p a cost l)) = Some b \<and> \<not> rr_allowed (fst (check now p a cost l)) \<or>
    (find_bucket p a (snd (check now p a cost l)) =
        Some (b\<lparr>bk_tokens := bk_tokens b - cost_of cost (rl_limits l a)\<rparr>) \<and>
     rr_allowed (fst (check now p a cost l)) \<and> cost_of cost (rl_limits l a) \<le> bk_tokens b)"
  using getBucket_config [OF assms(1), of now]
  by (auto simp: check_def Let_def b_def refused_by_ban_def)

lemma meter_step:
  assumes "meter_inv p a l t" "t \<le> now" "keeps_bucket p op"
  shows "meter_inv p a (rl_step (now, op) l) now \<and>
    meter_level p a (rl_step (now, op) l) now + check_charge p a (now, op) l \<le>
      meter_level p a l t + inflow (bc_refillRate (rl_limits l a)) t now"
proof (cases "\<exists>cost. op = Check p a cost \<or> op = Peek p a cost")
  case False
  then have "find_bucket p a (rl_step (now, op) l) = find_bucket p a l" "check_charge p a (now, op) l = 0"
    using assms(3) by (auto intro!: step_untouched) (cases op, auto)
  with meter_untouched [OF assms(1,2)] show ?thesis by simp
next
  case True
  then obtain cost where op: "op = Check p a cost \<or> op = Peek p a cost" by blast
  let ?b = "refill now (getBucket now p a l)" and ?l = "rl_step (now, op) l"
  have sane: "sane_config (rl_limits l a)" using assms(1) by (simp add: meter_inv_def)
  have cfg: "bk_config (getBucket now p a l) = rl_limits l a" by (rule getBucket_config [OF assms(1)])
  have tok: "0 \<le> bk_tokens ?b" using refilled_bucket(1) [OF assms(1,2)] by (simp add: bucket_ok_def)
  have keep: "?b = ?b\<lparr>bk_tokens := bk_tokens ?b - 0\<rparr>" by simp
  from op have "check_charge p a (now, op) l = 0 \<and> find_bucket p a ?l = find_bucket p a l \<or>
      (\<exists>k. check_charge p a (now, op) l = k \<and> 0 \<le> k \<and> k \<le> bk_tokens ?b \<and>
        find_bucket p a ?l = Some (?b\<lparr>bk_tokens := bk_tokens ?b - k\<rparr>))"
  proof
    assume op: "op = Check p a cost"
    then have "0 \<le> cost_of cost (rl_limits l a)" using assms(3) sane by (simp add: cost_nonneg)
    with check_cases [OF assms(1), of now cost] tok keep show ?thesis
      by (auto simp: op cfg)
  next
    assume "op = Peek p a cost"
    with tok show ?thesis
      by (auto simp: peek_def getReputation_def Let_def)
  qed
  then show ?thesis
    using meter_untouched [OF assms(1,2)] meter_stored [OF assms(1,2) _ _ refl] by (elim disjE exE conjE) auto
qed

lemma meter_level_nonneg: "meter_inv p a l t \<Longrightarrow> 0 \<le> meter_level p a l t"
  by (auto simp: meter_inv_def meter_level_def bucket_level_def bucket_ok_def sane_config_def
      intro: add_nonneg_nonneg split: option.splits)

interpretation limiter_meter: metered rl_step "check_charge p a" "keeps_bucket p" "meter_inv p a"
    "\<lambda>l. bc_refillRate (rl_limits l a)" "meter_level p a" for p a
  by unfold_locales (simp_all add: meter_step meter_level_nonneg, simp add: meter_inv_def sane_config_def)


subsection \<open>Properties\<close>

lemma sane_defaults: "sane_config (DEFAULT_LIMITS a)"
  by (cases a) (simp_all add: sane_config_def DEFAULT_LIMITS_def get_default_def)

lemma fresh_reputation_simps [simp]: "\<not> rp_banned (fresh_reputation p)" "rp_level (fresh_reputation p) = 0"
  by (simp_all add: fresh_reputation_def)

lemma new_limiter_simps [simp]: "rl_limits (new_limiter []) = DEFAULT_LIMITS" "find_bucket p a (new_limiter m) = None"
  "rep_of p (new_limiter m) = fresh_reputation p"
  by (auto simp: new_limiter_def find_bucket_def rep_of_def jm_get_or_def)

text \<open>
  Property C17. The rate limit holds while the bucket is kept: from a state without a bucket for peer \<open>p\<close> and action \<open>a\<close>, over any
  run of calls between the times \<open>t0\<close> and \<open>t1\<close>, about any peers and actions, in which \<open>p\<close> is not removed, the
  limiter is not reset and no cost is negative, what \<open>check\<close> grants to \<open>p\<close> for \<open>a\<close> costs no more than one full
  bucket and what flows in between \<open>t0\<close> and \<open>t1\<close>. Removing the peer, as a lost connection does, starts a new bucket.
\<close>

theorem rate_is_bounded:
  assumes "sane_config (rl_limits l a)" "find_bucket p a l = None" "timed t0 t1 ops"
    and "list_all (\<lambda>op. keeps_bucket p (snd op)) ops"
  shows "charged rl_step (check_charge p a) ops l \<le>
    bc_max (rl_limits l a) + of_int (t1 - t0) / 1000 * bc_refillRate (rl_limits l a)"
proof -
  have "meter_inv p a l t0" "meter_level p a l t0 = bc_max (rl_limits l a)"
    using assms(1,2) by (simp_all add: meter_inv_def meter_level_def)
  from limiter_meter.run_charge [OF this(1) assms(3,4)] this(2) show ?thesis by (simp add: inflow_def)
qed

lemma rate_is_bounded_witness:
  "charged rl_step (check_charge ''p'' HandshakeAction)
     [(0, Check ''p'' HandshakeAction (Some 3)), (5000, Check ''p'' HandshakeAction None)] (new_limiter []) \<le> 3 + 1 / 2"
proof -
  let ?ops = "[(0, Check ''p'' HandshakeAction (Some 3)), (5000, Check ''p'' HandshakeAction None)]"
  have "sane_config (rl_limits (new_limiter []) HandshakeAction)" "timed 0 5000 ?ops"
    "list_all (\<lambda>op. keeps_bucket ''p'' (snd op)) ?ops"
    by (simp_all add: sane_defaults get_default_def)
  from rate_is_bounded [OF this(1) new_limiter_simps(2) this(2,3)]
  have "charged rl_step (check_charge ''p'' HandshakeAction) ?ops (new_limiter []) \<le>
      bc_max (DEFAULT_LIMITS HandshakeAction) + of_int (5000 - 0) / 1000 * bc_refillRate (DEFAULT_LIMITS HandshakeAction)"
    by (simp only: new_limiter_simps)
  also have "\<dots> = 3 + 1 / 2" by (simp add: DEFAULT_LIMITS_def)
  finally show ?thesis .
qed

text \<open>
  The budget does not survive a reconnection: \<open>removePeer\<close>, called when a peer
  disconnects, forgets its buckets, so a peer that spends its whole burst, disconnects and connects again
  \<open>n\<close> times is granted \<open>n\<close> bursts in the same millisecond, without a violation being recorded.
\<close>

theorem reconnect_resets_budget:
  fixes now :: time
  assumes "find_bucket p a l = None" "\<not> rp_banned (rep_of p l)"
  defines "calls \<equiv> [(now, Check p a (Some (bc_max (rl_limits l a)))), (now, RemovePeer p)]"
  shows "charged rl_step (check_charge p a) (concat (replicate n calls)) l = of_nat n * bc_max (rl_limits l a) \<and>
    rl_reported (fold rl_step (concat (replicate n calls)) l) = rl_reported l"
proof -
  have "find_bucket p a l' = None \<Longrightarrow> \<not> rp_banned (rep_of p l') \<Longrightarrow> rl_limits l' = rl_limits l \<Longrightarrow>
      charged rl_step (check_charge p a) (concat (replicate n calls)) l' = of_nat n * bc_max (rl_limits l a) \<and>
      rl_reported (fold rl_step (concat (replicate n calls)) l') = rl_reported l'" for l'
  proof (induction n arbitrary: l')
    case (Suc n)
    let ?b = "\<lparr>bk_tokens = bc_max (rl_limits l a), bk_lastRefill = now, bk_config = rl_limits l a\<rparr>"
    let ?l = "removePeer p (put_bucket p a (?b\<lparr>bk_tokens := 0\<rparr>) (put_rep p (rep_of p l') l'))"
    have refilled: "refill now (getBucket now p a l') = ?b"
      using Suc.prems by (simp add: refill_def getBucket_def)
    then have granted: "rr_allowed (fst (check now p a (Some (bc_max (rl_limits l a))) l'))"
      and after: "rl_step (now, RemovePeer p) (rl_step (now, Check p a (Some (bc_max (rl_limits l a)))) l') = ?l"
      using Suc.prems(2) by (simp_all add: check_def lift_expired_def cost_of_def get_default_def Let_def)
    have "find_bucket p a ?l = None" "\<not> rp_banned (rep_of p ?l)" "rl_limits ?l = rl_limits l"
        "rl_reported ?l = rl_reported l'"
      using Suc.prems
      by (simp_all add: removePeer_def find_bucket_def js_map rep_of_def jm_get_or_def put_rep_def put_bucket_def)
    from Suc.IH [OF this(1-3)] this(4) granted after show ?case
      by (simp add: calls_def cost_of_def get_default_def algebra_simps)
  qed simp
  with assms show ?thesis by simp
qed

lemma reconnect_resets_budget_witness:
  "charged rl_step (check_charge ''p'' MessageAction)
     (concat (replicate 4 [(7, Check ''p'' MessageAction (Some 30)), (7, RemovePeer ''p'')])) (new_limiter []) = 120"
proof -
  have "find_bucket ''p'' MessageAction (new_limiter []) = None" "\<not> rp_banned (rep_of ''p'' (new_limiter []))"
    by (simp_all add: fresh_reputation_def)
  from reconnect_resets_budget [OF this, where now = 7 and n = 4] show ?thesis by (simp add: DEFAULT_LIMITS_def)
qed


text \<open>
  Escalation: a check that is refused for lack of tokens, of an action that is not throttled
  only, raises the peer's level by one up to 5; reaching level 3 bans for 1 minute, level 4 for 5 minutes
  and level 5 for 30 minutes. So an automatic ban never exceeds 30 minutes: the two hours and the permanent
  ban that the table of durations ends with are never used, whatever the peer does.
\<close>

theorem automatic_bans:
  assumes "\<not> (rp_banned (rep_of p l) \<and> \<not> passed now (rp_bannedUntil (rep_of p l)))"
    and "\<not> rr_allowed (fst (check now p a cost l))" "\<not> throttle_only a"
  defines "r \<equiv> rep_of p (snd (check now p a cost l))"
  shows "rp_level r = min 5 (rp_level (rep_of p l) + 1) \<and> rp_violations r = rp_violations (rep_of p l) + 1 \<and>
    rp_banned r = (rp_level r \<ge> 3) \<and>
    (rp_level r \<ge> 3 \<longrightarrow> rp_bannedUntil r =
       At (now + (if rp_level r = 3 then 60000 else if rp_level r = 4 then 300000 else 1800000)))"
proof -
  let ?r = "lift_expired (rep_of p l)"
  have same: "rp_level ?r = rp_level (rep_of p l)" "rp_violations ?r = rp_violations (rep_of p l)" "\<not> rp_banned ?r"
    by (simp_all add: lift_expired_def)
  obtain v where v: "r = recordViolation now v ?r" "vi_severity v = calculateSeverity ?r"
    using assms(1-3)
    by (auto simp: r_def check_def Let_def rep_of_def put_rep_def put_bucket_def jm_get_or_def js_map split: if_splits)
  consider "rp_level ?r = 0" | "rp_level ?r = 1" | "rp_level ?r = 2" | "rp_level ?r = 3" | "rp_level ?r = 4" | "rp_level ?r \<ge> 5"
    by linarith
  then show ?thesis
    by cases (simp_all add: v recordViolation_def banDurations_def Let_def same calculateSeverity_def flip: same(1))
qed


lemma automatic_bans_witness:
  "let l = (new_limiter [])\<lparr>rl_reputations := [(''p'', (fresh_reputation ''p'')\<lparr>rp_level := 2\<rparr>)]\<rparr>;
       r = rep_of ''p'' (snd (check 9 ''p'' HandshakeAction (Some 4) l))
   in rp_level r = 3 \<and> rp_bannedUntil r = At 60009"
proof -
  define l where "l = (new_limiter [])\<lparr>rl_reputations := [(''p'', (fresh_reputation ''p'')\<lparr>rp_level := 2\<rparr>)]\<rparr>"
  have l: "rep_of ''p'' l = (fresh_reputation ''p'')\<lparr>rp_level := 2\<rparr>" "rl_limits l = DEFAULT_LIMITS"
    "find_bucket ''p'' HandshakeAction l = None"
    by (simp_all add: l_def rep_of_def jm_get_or_def new_limiter_def find_bucket_def)
  then have "\<not> rr_allowed (fst (check 9 ''p'' HandshakeAction (Some 4) l))"
    by (simp add: check_def Let_def getBucket_def refill_def cost_of_def get_default_def DEFAULT_LIMITS_def)
  moreover have "\<not> (rp_banned (rep_of ''p'' l) \<and> \<not> passed 9 (rp_bannedUntil (rep_of ''p'' l)))"
    "\<not> throttle_only HandshakeAction" by (simp_all add: l throttle_only_def)
  ultimately show ?thesis
    using automatic_bans [of "''p''" l 9 HandshakeAction "Some 4"] by (simp add: l Let_def flip: l_def)
qed

fun keeps_ban :: "string \<Rightarrow> time \<times> rl_call \<Rightarrow> bool" where
  "keeps_ban p (now, BanPeer q d) \<longleftrightarrow> q \<noteq> p"
| "keeps_ban p (now, UnbanPeer q) \<longleftrightarrow> q \<noteq> p"
| "keeps_ban p (now, Reset) \<longleftrightarrow> False"
| "keeps_ban p (now, c) \<longleftrightarrow> True"

definition banned_until :: "string \<Rightarrow> deadline \<Rightarrow> limiter \<Rightarrow> bool" where
  "banned_until p d l \<longleftrightarrow> (case jm_get (rl_reputations l) p of None \<Rightarrow> False
     | Some r \<Rightarrow> rp_banned r \<and> rp_bannedUntil r = d)"

lemma banned_until_step:
  assumes "banned_until p d l" "keeps_ban p op" "\<not> passed (fst op) d"
  shows "banned_until p d (rl_step op l)"
proof -
  obtain r where r: "jm_get (rl_reputations l) p = Some r" "rp_banned r" "rp_bannedUntil r = d"
    using assms(1) by (auto simp: banned_until_def split: option.splits)
  show ?thesis
    using assms(2,3) r
    by (cases "(op, l)" rule: rl_step.cases)
      (auto simp: banned_until_def check_def peek_def getReputation_def ban_peer_def unban_peer_def is_banned_def
        removePeer_def put_rep_def put_bucket_def rep_of_def jm_get_or_def jm_has_def js_map Let_def split: option.splits)
qed

interpretation limiter_ban: machine rl_step "\<lambda>op l. keeps_ban p op \<and> \<not> passed (fst op) d" "banned_until p d" for p d
  by unfold_locales (simp add: banned_until_step)

text \<open>
  A ban holds: after \<open>ban_peer\<close>, whatever else is called before the ban ends, apart from
  another ban, an unban of the peer or a reset, every check and peek of the peer is refused and
  \<open>is_banned\<close> answers true.
\<close>

theorem ban_holds:
  fixes l :: limiter
  assumes "list_all (\<lambda>op. keeps_ban p op \<and> \<not> passed (fst op) (time_after t d)) ops"
    and "\<not> passed now (time_after t d)"
  defines "l' \<equiv> fold rl_step ops (ban_peer t p d l)"
  shows "\<not> rr_allowed (fst (check now p a cost l')) \<and> \<not> fst (peek now p a cost l') \<and> fst (is_banned now p l')"
proof -
  have "banned_until p (time_after t d) (ban_peer t p d l)"
    by (simp add: banned_until_def ban_peer_def put_rep_def Let_def js_map)
  from limiter_ban.run_inv [OF this] assms(1) have "banned_until p (time_after t d) l'"
    by (simp add: l'_def)
  with assms(2) show ?thesis
    by (auto simp: banned_until_def check_def peek_def is_banned_def getReputation_def rep_of_def jm_get_or_def
        refused_by_ban_def split: option.splits)
qed


lemma ban_holds_witness:
  "fst (is_banned 59999 ''p'' (fold rl_step [(2, Check ''p'' MediaAction None), (50, RemovePeer ''p'')]
     (ban_peer 0 ''p'' (At 60000) (new_limiter []))))"
  by (rule ban_holds [THEN conjunct2, THEN conjunct2]) simp_all

text \<open>
  The advice to a throttled peer is right: when a check of an action that is throttled only is
  refused with \<open>retryAfterMs\<close>, then the same check at that time or later, with nothing in between, is
  granted, unless its cost exceeds the bucket.
\<close>

theorem retry_after_suffices:
  assumes "meter_inv p a l now" "throttle_only a" "0 < bc_refillRate (rl_limits l a)"
    and "cost_of cost (rl_limits l a) \<le> bc_max (rl_limits l a)" "\<not> rp_banned (rep_of p l)"
    and "check now p a cost l = (r, l')" "\<not> rr_allowed r" "rr_retryAfterMs r = Some (At ms)" "now + ms \<le> now'"
  shows "rr_allowed (fst (check now' p a cost l'))"
proof -
  let ?b = "refill now (getBucket now p a l)" and ?k = "cost_of cost (rl_limits l a)" and ?c = "rl_limits l a"
  have ok: "bucket_ok ?c now ?b" by (rule refilled_bucket(1) [OF assms(1)]) simp
  then have cfg: "bk_config ?b = ?c" by (simp add: bucket_ok_def)
  have last: "bk_lastRefill ?b = now"
    using assms(1,3) ok
    by (auto simp: refill_def getBucket_def bucket_ok_def meter_inv_def zero_less_mult_iff Let_def split: option.splits if_splits)
  have short: "bk_tokens ?b < ?k" and ms: "ms = \<lceil>(?k - bk_tokens ?b) / bc_refillRate ?c * 1000\<rceil>"
    and l': "find_bucket p a l' = Some ?b" "\<not> rp_banned (rep_of p l')"
    using assms(2,3,5-8) cfg
    by (auto simp: check_def Let_def retry_after_def lift_expired_def rep_of_def jm_get_or_def put_rep_def put_bucket_def
        find_bucket_def js_map split: if_splits)
  have "(?k - bk_tokens ?b) / bc_refillRate ?c * 1000 \<le> of_int ms" unfolding ms by (rule le_of_int_ceiling)
  also have "\<dots> \<le> of_int (now' - now)" using assms(9) by simp
  finally have enough: "?k - bk_tokens ?b \<le> of_int (now' - now) / 1000 * bc_refillRate ?c"
    using assms(3) by (simp add: field_simps)
  with short have "0 < of_int (now' - now) / 1000 * bc_refillRate ?c" by linarith
  with enough last cfg assms(4) have "?k \<le> bk_tokens (refill now' ?b)"
    by (simp add: refill_def Let_def)
  moreover have "getBucket now' p a l' = ?b" using l'(1) by (simp add: getBucket_def)
  ultimately show ?thesis using l'(2) cfg by (simp add: check_def Let_def)
qed

lemma retry_after_suffices_witness:
  "rr_allowed (fst (check 50 ''p'' SyncAction (Some 1)
     (snd (check 0 ''p'' SyncAction (Some 1) (put_bucket ''p'' SyncAction
        \<lparr>bk_tokens = 0, bk_lastRefill = 0, bk_config = DEFAULT_LIMITS SyncAction\<rparr> (new_limiter []))))))"
proof -
  let ?b = "\<lparr>bk_tokens = 0, bk_lastRefill = 0, bk_config = DEFAULT_LIMITS SyncAction\<rparr>"
  let ?l = "put_bucket ''p'' SyncAction ?b (new_limiter [])"
  have rep: "rep_of ''p'' ?l = fresh_reputation ''p''"
    by (simp add: rep_of_def put_bucket_def new_limiter_def jm_get_or_def)
  have inv: "meter_inv ''p'' SyncAction ?l 0"
    using sane_defaults [of SyncAction] by (simp add: meter_inv_def bucket_ok_def sane_config_def)
  have refused: "\<not> rr_allowed (fst (check 0 ''p'' SyncAction (Some 1) ?l))"
      "rr_retryAfterMs (fst (check 0 ''p'' SyncAction (Some 1) ?l)) = Some (At 50)"
    by (simp_all add: check_def rep getBucket_def refill_def cost_of_def get_default_def retry_after_def
        lift_expired_def throttle_only_def Let_def)
      (simp_all add: DEFAULT_LIMITS_def)
  have limits: "throttle_only SyncAction" "0 < bc_refillRate (rl_limits ?l SyncAction)"
      "cost_of (Some 1) (rl_limits ?l SyncAction) \<le> bc_max (rl_limits ?l SyncAction)" "\<not> rp_banned (rep_of ''p'' ?l)"
    by (simp_all add: throttle_only_def rep cost_of_def get_default_def) (simp_all add: DEFAULT_LIMITS_def)
  from retry_after_suffices [OF inv limits prod.collapse [symmetric] refused] show ?thesis by simp
qed

end
