(* ===== verification/Json.thy ===== *)
theory Json
  imports Prelude
begin

section \<open>JSON values\<close>

text \<open>
  What \<open>JSON.parse\<close> and the structured clone of the database hand to the code: values of unknown
  shape. Numbers are integers; an object is the list of its fields.
\<close>

datatype json = JNull | JBool bool | JNum int | JStr string | JArr "json list" | JObj "(string \<times> json) list"

text \<open>Reading a field of a value that may be no object.\<close>

fun json_field_of :: "json \<Rightarrow> string \<Rightarrow> json option" where
  "json_field_of (JObj fs) k = jm_get fs k"
| "json_field_of v k = None"

text \<open>\<open>typeof v === 'string'\<close> and \<open>typeof v === 'number'\<close> narrow a field.\<close>

definition str_field :: "json \<Rightarrow> string \<Rightarrow> string option" where
  "str_field v k = (case json_field_of v k of Some (JStr s) \<Rightarrow> Some s | _ \<Rightarrow> None)"

definition num_field :: "json \<Rightarrow> string \<Rightarrow> int option" where
  "num_field v k = (case json_field_of v k of Some (JNum n) \<Rightarrow> Some n | _ \<Rightarrow> None)"

definition arr_field :: "json \<Rightarrow> string \<Rightarrow> json list option" where
  "arr_field v k = (case json_field_of v k of Some (JArr xs) \<Rightarrow> Some xs | _ \<Rightarrow> None)"

definition obj_field :: "json \<Rightarrow> string \<Rightarrow> (string \<times> json) list option" where
  "obj_field v k = (case json_field_of v k of Some (JObj fs) \<Rightarrow> Some fs | _ \<Rightarrow> None)"

text \<open>An optional field of an object that is written only when present.\<close>

definition opt_field :: "string \<Rightarrow> ('a \<Rightarrow> json) \<Rightarrow> 'a option \<Rightarrow> (string \<times> json) list" where
  "opt_field k f v = (case v of None \<Rightarrow> [] | Some x \<Rightarrow> [(k, f x)])"

lemma jm_get_append [simp]: "jm_get (xs @ ys) k = (case jm_get xs k of None \<Rightarrow> jm_get ys k | Some v \<Rightarrow> Some v)"
  by (simp add: jm_get_def map_add_def split: option.split)

lemma jm_get_opt_field [simp]: "jm_get (opt_field k f v) k' = (if k' = k then map_option f v else None)"
  by (simp add: opt_field_def split: option.split)

end
