(* ===== verification/MessageGuard.thy ===== *)
theory MessageGuard
  imports RateLimiter HashChain Json
begin

section \<open>The guard in front of the message pipeline (security/MessageGuard.ts)\<close>

text \<open>
  The class \<open>MessageGuard\<close>: size limits, shape of the message and the rate limits of
  \<^theory_text>\<open>RateLimiter\<close>. What arrives is a JSON value, or undefined; \<open>JSON.stringify\<close>
  is written out for values whose numbers are integers. The budget of chat messages is proved by
  interpreting the meter of the limiter for the guard's own calls.
\<close>

fun commas :: "string list \<Rightarrow> string" where
  "commas [] = []"
| "commas [x] = x"
| "commas (x # y # xs) = x @ '','' @ commas (y # xs)"

function stringify :: "json \<Rightarrow> string" where
  "stringify JNull = ''null''"
| "stringify (JBool b) = (if b then ''true'' else ''false'')"
| "stringify (JNum n) = show_int n"
| "stringify (JStr s) = json_string s"
| "stringify (JArr xs) = ''['' @ commas (map stringify xs) @ '']''"
| "stringify (JObj fs) = ''{'' @ commas (map (\<lambda>f. json_string (fst f) @ '':'' @ stringify (snd f)) fs) @ ''}''"
  by pat_completeness auto
termination
proof (relation "measure size")
  fix x and xs :: "json list"
  assume "x \<in> set xs"
  then show "(x, JArr xs) \<in> measure size" by (simp add: less_Suc_eq_le size_list_estimation')
next
  fix f :: "string \<times> json" and fs
  assume "f \<in> set fs"
  then have "size (snd f) \<le> size_list (size_prod (\<lambda>x. 0) size) fs"
    by (rule size_list_estimation') (simp add: size_prod_simp)
  then show "(snd f, JObj fs) \<in> measure size" by simp
qed simp

record size_limits =
  sl_maxTextBytes :: nat
  sl_maxAttachmentMetaBytes :: nat
  sl_maxMediaBytes :: nat
  sl_maxSyncPayloadBytes :: nat
  sl_maxAttachmentsPerMessage :: nat
  sl_maxMessageFields :: nat

definition DEFAULT_SIZE_LIMITS :: size_limits where
  "DEFAULT_SIZE_LIMITS = \<lparr>sl_maxTextBytes = 64 * 1024, sl_maxAttachmentMetaBytes = 4 * 1024,
     sl_maxMediaBytes = 50 * 1024 * 1024, sl_maxSyncPayloadBytes = 10 * 1024 * 1024,
     sl_maxAttachmentsPerMessage = 10, sl_maxMessageFields = 50\<rparr>"

definition patch_limit :: "nat option \<Rightarrow> nat \<Rightarrow> nat" where
  "patch_limit v d = (case v of None \<Rightarrow> d | Some x \<Rightarrow> x)"

record limits_patch =
  lp_maxTextBytes :: "nat option"
  lp_maxAttachmentMetaBytes :: "nat option"
  lp_maxMediaBytes :: "nat option"
  lp_maxSyncPayloadBytes :: "nat option"
  lp_maxAttachmentsPerMessage :: "nat option"
  lp_maxMessageFields :: "nat option"

definition patch_limits :: "limits_patch \<Rightarrow> size_limits \<Rightarrow> size_limits" where
  "patch_limits p s = \<lparr>sl_maxTextBytes = patch_limit (lp_maxTextBytes p) (sl_maxTextBytes s),
     sl_maxAttachmentMetaBytes = patch_limit (lp_maxAttachmentMetaBytes p) (sl_maxAttachmentMetaBytes s),
     sl_maxMediaBytes = patch_limit (lp_maxMediaBytes p) (sl_maxMediaBytes s),
     sl_maxSyncPayloadBytes = patch_limit (lp_maxSyncPayloadBytes p) (sl_maxSyncPayloadBytes s),
     sl_maxAttachmentsPerMessage = patch_limit (lp_maxAttachmentsPerMessage p) (sl_maxAttachmentsPerMessage s),
     sl_maxMessageFields = patch_limit (lp_maxMessageFields p) (sl_maxMessageFields s)\<rparr>"

record guard =
  g_rateLimiter :: limiter
  g_sizeLimits :: size_limits

record guard_result =
  gr_allowed :: bool
  gr_reason :: "string option"
  gr_rateLimit :: "rl_result option"

definition new_guard :: "(rl_action, config_patch) jsmap \<Rightarrow> limits_patch option \<Rightarrow> guard" where
  "new_guard rates sizes = \<lparr>g_rateLimiter = new_limiter rates,
     g_sizeLimits = (case sizes of None \<Rightarrow> DEFAULT_SIZE_LIMITS | Some p \<Rightarrow> patch_limits p DEFAULT_SIZE_LIMITS)\<rparr>"

definition refuse :: "string \<Rightarrow> guard_result" where
  "refuse why = \<lparr>gr_allowed = False, gr_reason = Some why, gr_rateLimit = None\<rparr>"

definition action_name :: "rl_action \<Rightarrow> string" where
  "action_name a = (case a of MessageAction \<Rightarrow> ''message'' | BytesAction \<Rightarrow> ''bytes'' | ConnectionAction \<Rightarrow> ''connection''
     | SyncAction \<Rightarrow> ''sync'' | MediaAction \<Rightarrow> ''media'' | HandshakeAction \<Rightarrow> ''handshake'')"

definition checkRateLimit :: "time \<Rightarrow> string \<Rightarrow> rl_action \<Rightarrow> guard \<Rightarrow> guard_result \<times> guard" where
  "checkRateLimit now p a g =
     (let (r, l) = check now p a None (g_rateLimiter g); g1 = g\<lparr>g_rateLimiter := l\<rparr>
      in if \<not> rr_allowed r
         then (\<lparr>gr_allowed = False, gr_reason = Some (action_name a @ '' rate limit exceeded''), gr_rateLimit = Some r\<rparr>, g1)
         else (\<lparr>gr_allowed = True, gr_reason = None, gr_rateLimit = Some r\<rparr>, g1))"

text \<open>\<open>Object.keys(data).length\<close> and the fields that the guard reads.\<close>

fun field_count :: "json \<Rightarrow> nat" where
  "field_count (JObj fs) = length fs"
| "field_count (JArr xs) = length xs"
| "field_count v = 0"

fun is_object :: "json \<Rightarrow> bool" where
  "is_object (JObj fs) \<longleftrightarrow> True"
| "is_object (JArr xs) \<longleftrightarrow> True"
| "is_object v \<longleftrightarrow> False"

definition message_kind :: "json \<Rightarrow> string option" where
  "message_kind data = (case json_field_of data ''type'' of Some (JStr s) \<Rightarrow> Some s | v \<Rightarrow> None)"

definition string_length :: "json \<Rightarrow> string \<Rightarrow> nat" where
  "string_length data k = (case json_field_of data k of Some (JStr s) \<Rightarrow> length s | v \<Rightarrow> 0)"

definition attachment_count :: "json \<Rightarrow> nat" where
  "attachment_count data = (case json_field_of data ''attachments'' of Some (JArr xs) \<Rightarrow> length xs | v \<Rightarrow> 0)"

definition checkPayloadSize :: "json \<Rightarrow> nat \<Rightarrow> guard_result" where
  "checkPayloadSize data maxBytes =
     (let size = length (stringify data)
      in if size > maxBytes
         then refuse (''payload too large: '' @ show_nat size @ '' bytes (max '' @ show_nat maxBytes @ '')'')
         else \<lparr>gr_allowed = True, gr_reason = None, gr_rateLimit = None\<rparr>)"

text \<open>An encrypted chat message: the message rate, the byte budget, then the sizes.\<close>

definition check_chat :: "time \<Rightarrow> string \<Rightarrow> json \<Rightarrow> guard \<Rightarrow> guard_result \<times> guard" where
  "check_chat now p data g =
     (let (r, g1) = checkRateLimit now p MessageAction g in
      if \<not> gr_allowed r then (r, g1)
      else
        let (b, l) = check now p BytesAction (Some (of_nat (length (stringify data)))) (g_rateLimiter g1);
            g2 = g1\<lparr>g_rateLimiter := l\<rparr>
        in if \<not> rr_allowed b
           then (\<lparr>gr_allowed = False, gr_reason = Some ''byte rate limit exceeded'', gr_rateLimit = Some b\<rparr>, g2)
           else if string_length data ''content'' > sl_maxTextBytes (g_sizeLimits g)
           then (refuse (''text too large: '' @ show_nat (string_length data ''content'') @ '' bytes''), g2)
           else if attachment_count data > sl_maxAttachmentsPerMessage (g_sizeLimits g)
           then (refuse (''too many attachments: '' @ show_nat (attachment_count data)), g2)
           else (\<lparr>gr_allowed = True, gr_reason = None, gr_rateLimit = None\<rparr>, g2))"

definition dispatch :: "time \<Rightarrow> string \<Rightarrow> json \<Rightarrow> guard \<Rightarrow> guard_result \<times> guard" where
  "dispatch now p data g =
     (let limits = g_sizeLimits g; kind = message_kind data in
      if kind = Some ''handshake'' then checkRateLimit now p HandshakeAction g
      else if kind = Some ''workspace-sync'' then
        (let size = checkPayloadSize data (sl_maxSyncPayloadBytes limits)
         in if \<not> gr_allowed size then (size, g) else checkRateLimit now p SyncAction g)
      else if kind = Some ''time-sync-request'' \<or> kind = Some ''time-sync-response'' then checkRateLimit now p MessageAction g
      else if kind = Some ''media-request'' \<or> kind = Some ''media-response'' then checkRateLimit now p MediaAction g
      else if kind = Some ''media-chunk'' then
        (if string_length data ''data'' > sl_maxMediaBytes limits then (refuse ''media chunk too large'', g)
         else checkRateLimit now p MediaAction g)
      else if kind = Some ''stream-start'' \<or> kind = Some ''stream-delta'' \<or> kind = Some ''stream-done'' then
        (if kind = Some ''stream-delta'' \<and> string_length data ''content'' > sl_maxTextBytes limits
         then (refuse (''stream delta too large: '' @ show_nat (string_length data ''content'') @ '' bytes''), g)
         else checkRateLimit now p MediaAction g)
      else check_chat now p data g)"

definition guard_check :: "time \<Rightarrow> string \<Rightarrow> json option \<Rightarrow> guard \<Rightarrow> guard_result \<times> guard" where
  "guard_check now p raw g =
     (let (banned, l) = is_banned now p (g_rateLimiter g); g1 = g\<lparr>g_rateLimiter := l\<rparr> in
      if banned then (refuse ''peer is banned'', g1)
      else (case raw of
          None \<Rightarrow> (refuse ''null message'', g1)
        | Some data \<Rightarrow>
            if data = JNull then (refuse ''null message'', g1)
            else if \<not> is_object data then (refuse ''message is not an object'', g1)
            else if field_count data > sl_maxMessageFields (g_sizeLimits g)
            then (refuse (''too many fields: '' @ show_nat (field_count data)), g1)
            else dispatch now p data g1))"

definition checkConnection :: "time \<Rightarrow> string \<Rightarrow> guard \<Rightarrow> guard_result \<times> guard" where
  "checkConnection now p g =
     (let (banned, l) = is_banned now p (g_rateLimiter g); g1 = g\<lparr>g_rateLimiter := l\<rparr> in
      if banned then (refuse ''peer is banned'', g1) else checkRateLimit now p ConnectionAction g1)"

definition updateLimits :: "limits_patch \<Rightarrow> guard \<Rightarrow> guard" where
  "updateLimits p g = g\<lparr>g_sizeLimits := patch_limits p (g_sizeLimits g)\<rparr>"

datatype guard_call = GuardCheck string "json option" | GuardConnection string | GuardReputation string
  | GuardBan string deadline | GuardUnban string | GuardLimits limits_patch

fun guard_step :: "time \<times> guard_call \<Rightarrow> guard \<Rightarrow> guard" where
  "guard_step (now, GuardCheck p raw) g = snd (guard_check now p raw g)"
| "guard_step (now, GuardConnection p) g = snd (checkConnection now p g)"
| "guard_step (now, GuardReputation p) g = g\<lparr>g_rateLimiter := snd (getReputation p (g_rateLimiter g))\<rparr>"
| "guard_step (now, GuardBan p d) g = g\<lparr>g_rateLimiter := ban_peer now p d (g_rateLimiter g)\<rparr>"
| "guard_step (now, GuardUnban p) g = g\<lparr>g_rateLimiter := unban_peer p (g_rateLimiter g)\<rparr>"
| "guard_step (now, GuardLimits p) g = updateLimits p g"


subsection \<open>The meter of the guard\<close>

text \<open>
  \<open>spends p a l t l' now k\<close>: between the states \<open>l\<close> at time \<open>t\<close> and \<open>l'\<close> at time \<open>now\<close> the bucket of \<open>p\<close>
  and \<open>a\<close> paid at least \<open>k\<close>. Limiter calls compose.
\<close>

definition spends :: "string \<Rightarrow> rl_action \<Rightarrow> limiter \<Rightarrow> time \<Rightarrow> limiter \<Rightarrow> time \<Rightarrow> rat \<Rightarrow> bool" where
  "spends p a l t l' now k \<longleftrightarrow> meter_inv p a l' now \<and> rl_limits l' = rl_limits l \<and>
     meter_level p a l' now + k \<le> meter_level p a l t + inflow (bc_refillRate (rl_limits l a)) t now"

lemma spends_step:
  "meter_inv p a l t \<Longrightarrow> t \<le> now \<Longrightarrow> keeps_bucket p op \<Longrightarrow>
    spends p a l t (rl_step (now, op) l) now (check_charge p a (now, op) l)"
  by (simp add: spends_def meter_step)

lemma spends_trans: "spends p a l t l1 t1 k1 \<Longrightarrow> spends p a l1 t1 l2 t2 k2 \<Longrightarrow> spends p a l t l2 t2 (k1 + k2)"
  using inflow_add [of "bc_refillRate (rl_limits l a)" t t1 t2] by (simp add: spends_def)

lemma spends_less: "spends p a l t l' now k \<Longrightarrow> k' \<le> k \<Longrightarrow> spends p a l t l' now k'"
  by (simp add: spends_def)

lemma spends_inv: "spends p a l t l' now k \<Longrightarrow> meter_inv p a l' now"
  by (simp add: spends_def)

lemma charge_nonneg:
  "meter_inv p a l t \<Longrightarrow> keeps_bucket p op \<Longrightarrow> 0 \<le> check_charge p a (now, op) l"
  using getBucket_config [of p a l t now]
  by (cases op) (auto simp: meter_inv_def intro: cost_nonneg)

lemma spends_call:
  assumes "meter_inv p a l t" "t \<le> now" "keeps_bucket p op" "l' = rl_step (now, op) l"
  shows "spends p a l t l' now 0"
  using spends_step [OF assms(1-3)] charge_nonneg [OF assms(1,3)] assms(4) by (auto intro: spends_less)

lemma spends_granted:
  assumes "meter_inv p a l t" "t \<le> now" "rr_allowed (fst (check now p a None l))"
  shows "spends p a l t (snd (check now p a None l)) now (cost_of None (rl_limits l a))"
  using spends_step [OF assms(1,2), of "Check p a None"] assms(3) getBucket_config [OF assms(1)]
  by (simp add: get_default_def)

definition is_chat :: "json option \<Rightarrow> bool" where
  "is_chat raw \<longleftrightarrow> (case raw of None \<Rightarrow> False | Some data \<Rightarrow>
     message_kind data \<notin> Some ` {''handshake'', ''workspace-sync'', ''time-sync-request'', ''time-sync-response'',
       ''media-request'', ''media-response'', ''media-chunk'', ''stream-start'', ''stream-delta'', ''stream-done''})"

text \<open>An admitted chat message of peer \<open>p\<close> is charged the cost of a message.\<close>

fun chat_charge :: "string \<Rightarrow> time \<times> guard_call \<Rightarrow> guard \<Rightarrow> rat" where
  "chat_charge p (now, GuardCheck q raw) g =
     (if q = p \<and> is_chat raw \<and> gr_allowed (fst (guard_check now q raw g))
      then cost_of None (rl_limits (g_rateLimiter g) MessageAction) else 0)"
| "chat_charge p (now, c) g = 0"

lemma checkRateLimit_simps [simp]:
  "g_rateLimiter (snd (checkRateLimit now p a g)) = snd (check now p a None (g_rateLimiter g))"
  "gr_allowed (fst (checkRateLimit now p a g)) = rr_allowed (fst (check now p a None (g_rateLimiter g)))"
  "g_sizeLimits (snd (checkRateLimit now p a g)) = g_sizeLimits g"
  by (simp_all add: checkRateLimit_def Let_def split: prod.split)

lemma spends_check:
  "meter_inv p a l t \<Longrightarrow> t \<le> now \<Longrightarrow> 0 \<le> get_default 0 cost \<Longrightarrow> spends p a l t (snd (check now q b cost l)) now 0"
  by (rule spends_call [where op = "Check q b cost"]) simp_all

lemma spends_check_chat:
  assumes inv: "meter_inv p MessageAction (g_rateLimiter g) t" "t \<le> now"
  shows "spends p MessageAction (g_rateLimiter g) t (g_rateLimiter (snd (check_chat now q data g))) now
    (if q = p \<and> gr_allowed (fst (check_chat now q data g))
     then cost_of None (rl_limits (g_rateLimiter g) MessageAction) else 0)"
proof -
  let ?c = "checkRateLimit now q MessageAction g" and ?k = "cost_of None (rl_limits (g_rateLimiter g) MessageAction)"
  let ?b = "check now q BytesAction (Some (of_nat (length (stringify data)))) (g_rateLimiter (snd ?c))"
  have first: "spends p MessageAction (g_rateLimiter g) t (g_rateLimiter (snd ?c)) now
      (if q = p \<and> gr_allowed (fst ?c) then ?k else 0)"
    using inv by (auto simp: get_default_def intro: spends_granted spends_check)
  then have inv1: "meter_inv p MessageAction (g_rateLimiter (snd ?c)) now" by (rule spends_inv)
  have second: "spends p MessageAction (g_rateLimiter (snd ?c)) now (snd ?b) now 0"
    using inv1 by (rule spends_check) (simp_all add: get_default_def)
  show ?thesis
  proof (cases "gr_allowed (fst ?c)")
    case True
    then have "g_rateLimiter (snd (check_chat now q data g)) = snd ?b"
      by (auto simp: check_chat_def Let_def split_beta)
    with spends_trans [OF first second] True inv(1) show ?thesis
      by (auto elim!: spends_less split: if_splits simp: meter_inv_def get_default_def intro!: cost_nonneg)
  qed (use first in \<open>simp add: check_chat_def Let_def split_beta\<close>)
qed


lemma spends_refl: "meter_inv p a l now \<Longrightarrow> spends p a l now l now 0"
  by (simp add: spends_def)

lemma check_chat_of_dispatch: "is_chat (Some data) \<Longrightarrow> dispatch now q data g = check_chat now q data g"
  by (auto simp: is_chat_def dispatch_def Let_def)

lemma spends_dispatch:
  assumes inv: "meter_inv p MessageAction (g_rateLimiter g) now"
  shows "spends p MessageAction (g_rateLimiter g) now (g_rateLimiter (snd (dispatch now q data g))) now 0"
proof -
  have chat: "spends p MessageAction (g_rateLimiter g) now (g_rateLimiter (snd (check_chat now q data g))) now 0"
    using spends_check_chat [OF inv order_refl, of q data] inv
    by (auto elim!: spends_less split: if_splits simp: meter_inv_def get_default_def intro!: cost_nonneg)
  show ?thesis
    by (auto simp: dispatch_def Let_def get_default_def inv intro: chat spends_refl spends_check)
qed

lemma spends_guard_check:
  assumes inv: "meter_inv p MessageAction (g_rateLimiter g) t" "t \<le> now"
  shows "spends p MessageAction (g_rateLimiter g) t (g_rateLimiter (snd (guard_check now q raw g))) now
    (chat_charge p (now, GuardCheck q raw) g)"
proof -
  let ?l = "g_rateLimiter g" and ?b = "is_banned now q (g_rateLimiter g)"
  let ?g = "g\<lparr>g_rateLimiter := snd ?b\<rparr>" and ?k = "cost_of None (rl_limits (g_rateLimiter g) MessageAction)"
  have first: "spends p MessageAction ?l t (snd ?b) now 0"
    by (rule spends_call [where op = "IsBanned q"]) (use inv in simp_all)
  then have l1: "meter_inv p MessageAction (g_rateLimiter ?g) now" "rl_limits (snd ?b) = rl_limits ?l"
    by (simp_all add: spends_def)
  show ?thesis
  proof (cases "\<not> fst ?b \<and> (\<exists>data. raw = Some data \<and> data \<noteq> JNull \<and> is_object data \<and>
      field_count data \<le> sl_maxMessageFields (g_sizeLimits g))")
    case False
    then have "snd (guard_check now q raw g) = ?g \<and> \<not> gr_allowed (fst (guard_check now q raw g))"
      by (auto simp: guard_check_def refuse_def Let_def not_le split_beta split: option.split)
    with first show ?thesis by simp
  next
    case True
    then obtain data where raw: "raw = Some data" "guard_check now q (Some data) g = dispatch now q data ?g"
      by (auto simp: guard_check_def Let_def split_beta)
    show ?thesis
    proof (cases "is_chat raw")
      case True
      with spends_trans [OF first spends_check_chat [OF l1(1) order_refl, of q data, simplified]] raw l1(2) show ?thesis
        by (cases "q = p") (simp_all add: check_chat_of_dispatch split: if_split_asm)
    next
      case False
      with spends_trans [OF first spends_dispatch [OF l1(1), of q data, simplified]] raw show ?thesis by simp
    qed
  qed
qed

lemma guard_meter_step:
  assumes inv: "meter_inv p MessageAction (g_rateLimiter g) t" "t \<le> now"
  shows "spends p MessageAction (g_rateLimiter g) t (g_rateLimiter (guard_step (now, op) g)) now (chat_charge p (now, op) g)"
proof (cases op)
  case (GuardCheck q raw)
  with spends_guard_check [OF inv, of q raw] show ?thesis by simp
next
  case (GuardConnection q)
  let ?l = "g_rateLimiter g" and ?b = "is_banned now q (g_rateLimiter g)"
  have first: "spends p MessageAction ?l t (snd ?b) now 0"
    by (rule spends_call [where op = "IsBanned q"]) (use inv in simp_all)
  then have "spends p MessageAction (snd ?b) now (snd (check now q ConnectionAction None (snd ?b))) now 0"
    by (intro spends_check) (auto simp: get_default_def dest: spends_inv)
  with spends_trans [OF first this] first show ?thesis
    by (auto simp: GuardConnection checkConnection_def Let_def split_beta)
next
  case (GuardLimits lims)
  with spends_call [OF inv, of "IsBanned p"] inv show ?thesis
    by (simp add: updateLimits_def spends_def meter_untouched)
qed (auto intro: spends_call [OF inv, where op = "Reputation _"] spends_call [OF inv, where op = "BanPeer _ _"]
    spends_call [OF inv, where op = "UnbanPeer _"])

interpretation guard_meter: metered guard_step "chat_charge p" "\<lambda>op. True" "\<lambda>g. meter_inv p MessageAction (g_rateLimiter g)"
    "\<lambda>g. bc_refillRate (rl_limits (g_rateLimiter g) MessageAction)" "\<lambda>g. meter_level p MessageAction (g_rateLimiter g)" for p
  by unfold_locales
    (use guard_meter_step in \<open>auto simp: spends_def meter_level_nonneg\<close>, simp add: meter_inv_def sane_config_def)


subsection \<open>Properties\<close>

text \<open>
  Chat messages are rate limited end to end: with the default limits, whatever calls the
  guard gets between the times \<open>t0\<close> and \<open>t1\<close>, from any peers, it admits at most 30 chat messages of a peer,
  plus ten for each second between \<open>t0\<close> and \<open>t1\<close> (each admitted message is charged one token).
\<close>

theorem chat_messages_are_limited:
  assumes "rl_limits (g_rateLimiter g) = DEFAULT_LIMITS" "find_bucket p MessageAction (g_rateLimiter g) = None"
    and "timed t0 t1 ops"
  shows "charged guard_step (chat_charge p) ops g \<le> 30 + of_int (t1 - t0) / 100"
proof -
  have "meter_inv p MessageAction (g_rateLimiter g) t0" "meter_level p MessageAction (g_rateLimiter g) t0 = 30"
    using assms(1,2) sane_defaults [of MessageAction] by (simp_all add: meter_inv_def meter_level_def DEFAULT_LIMITS_def)
  from guard_meter.run_charge [OF this(1) assms(3)] this(2) assms(1) show ?thesis
    by (simp add: inflow_def DEFAULT_LIMITS_def list_all_iff) (simp add: field_simps)
qed

lemma chat_messages_are_limited_witness:
  "charged guard_step (chat_charge ''p'') (replicate 60 (4, GuardCheck ''p'' (Some (JObj [(''content'', JStr ''hi'')]))))
     (new_guard [] None) \<le> 30"
proof -
  have "timed 4 4 (replicate n (4, GuardCheck ''p'' (Some (JObj [(''content'', JStr ''hi'')]))))" for n
    by (induction n) simp_all
  from chat_messages_are_limited [OF _ _ this] show ?thesis by (simp add: new_guard_def)
qed

text \<open>
  What the guard admits is an object with at most the allowed number of fields, from a peer
  that is not banned; a chat message within the text and attachment limits, a sync message within the
  payload limit, a media chunk and a stream delta within theirs.
\<close>

theorem admitted_messages_fit:
  assumes "gr_allowed (fst (guard_check now p raw g))"
  defines "lims \<equiv> g_sizeLimits g"
  shows "\<exists>data. raw = Some data \<and> is_object data \<and> field_count data \<le> sl_maxMessageFields lims \<and>
    \<not> fst (is_banned now p (g_rateLimiter g)) \<and>
    (is_chat raw \<longrightarrow> string_length data ''content'' \<le> sl_maxTextBytes lims \<and>
      attachment_count data \<le> sl_maxAttachmentsPerMessage lims) \<and>
    (message_kind data = Some ''workspace-sync'' \<longrightarrow> length (stringify data) \<le> sl_maxSyncPayloadBytes lims) \<and>
    (message_kind data = Some ''media-chunk'' \<longrightarrow> string_length data ''data'' \<le> sl_maxMediaBytes lims) \<and>
    (message_kind data = Some ''stream-delta'' \<longrightarrow> string_length data ''content'' \<le> sl_maxTextBytes lims)"
proof -
  let ?g = "g\<lparr>g_rateLimiter := snd (is_banned now p (g_rateLimiter g))\<rparr>"
  obtain data where data: "raw = Some data" "is_object data" "field_count data \<le> sl_maxMessageFields lims"
    "\<not> fst (is_banned now p (g_rateLimiter g))" "gr_allowed (fst (dispatch now p data ?g))"
    using assms by (auto simp: guard_check_def refuse_def Let_def split_beta not_less split: if_splits option.splits)
  have "is_chat raw \<Longrightarrow> gr_allowed (fst (check_chat now p data ?g))"
    using data check_chat_of_dispatch by simp
  then have chat: "is_chat raw \<Longrightarrow> string_length data ''content'' \<le> sl_maxTextBytes lims \<and>
      attachment_count data \<le> sl_maxAttachmentsPerMessage lims"
    by (auto simp: check_chat_def refuse_def Let_def split_beta lims_def split: if_splits)
  from data(5) have "message_kind data = Some ''workspace-sync'' \<Longrightarrow> length (stringify data) \<le> sl_maxSyncPayloadBytes lims"
    "message_kind data = Some ''media-chunk'' \<Longrightarrow> string_length data ''data'' \<le> sl_maxMediaBytes lims"
    "message_kind data = Some ''stream-delta'' \<Longrightarrow> string_length data ''content'' \<le> sl_maxTextBytes lims"
    by (simp_all add: dispatch_def checkPayloadSize_def refuse_def lims_def Let_def split: if_splits)
  with data chat show ?thesis by blast
qed

lemma admitted_messages_fit_witness:
  "field_count (JObj [(''type'', JStr ''media-request'')]) \<le> 50"
proof -
  let ?raw = "Some (JObj [(''type'', JStr ''media-request'')])" and ?g = "new_guard [] None"
  have "gr_allowed (fst (guard_check 0 ''p'' ?raw ?g))"
    by (simp add: guard_check_def is_banned_def new_guard_def new_limiter_def DEFAULT_SIZE_LIMITS_def dispatch_def
        message_kind_def Let_def)
      (simp add: checkRateLimit_def check_def rep_of_def jm_get_or_def getBucket_def find_bucket_def refill_def
        cost_of_def get_default_def DEFAULT_LIMITS_def Let_def)
  from admitted_messages_fit [OF this] show ?thesis by (simp add: new_guard_def DEFAULT_SIZE_LIMITS_def)
qed

end
