(* ===== verification/Outbox.thy ===== *)
theory Outbox
  imports WorkspaceTypes
begin

section \<open>Queued messages and the persistent outbox\<close>

text \<open>
  The types of \<open>messages/CustodyTypes.ts\<close>, the queued message of \<open>messages/OfflineQueue.ts\<close> and the
  outbox part of \<open>storage/PersistentStore.ts\<close>. An IndexedDB object store with an auto-incremented key
  is the list of its rows in key order and the next key; rows of an index come in key order. A metadata
  object maps names to strings. A payload is an envelope, a message object of which the queue reads two
  fields, or anything else. The locale \<open>mailbox_store\<close> states what the queue relies on.
\<close>

subsection \<open>Envelopes and receipts\<close>

datatype replication_class = Critical | Standard | Bulk

datatype delivery_state = Stored | Replicated | Delivered | Acknowledged | Expired | GarbageCollected

datatype sync_domain = WorkspaceManifest | Membership | ChannelManifest | ChannelMessageDomain | ThreadDomain
  | ReceiptDomain | AttachmentDomain | PreKeyBundleDomain

type_synonym metadata = "(string, string) jsmap"

datatype receipt_kind = StoredKind | DeliveredKind | ReadKind | AcknowledgedKind

record delivery_receipt =
  dv_receiptId :: string
  dv_kind :: receipt_kind
  dv_opId :: string
  dv_envelopeId :: "string option"
  dv_recipientPeerId :: string
  dv_timestamp :: time
  dv_signature :: "string option"
  dv_metadata :: "metadata option"

record envelope =
  en_envelopeId :: string
  en_opId :: string
  en_recipientPeerIds :: "string list"
  en_workspaceId :: string
  en_channelId :: "string option"
  en_threadId :: "string option"
  en_domain :: sync_domain
  en_ciphertext :: string
  en_contentHash :: "string option"
  en_createdAt :: time
  en_expiresAt :: time
  en_custodyOwnerPeerId :: "string option"
  en_replicationClass :: replication_class
  en_deliveryState :: delivery_state
  en_metadata :: "metadata option"

datatype payload = EnvelopeData envelope | MessageData "string option" "string option" string | OtherData string

record queued =
  q_id :: "nat option"
  q_targetPeerId :: string
  q_data :: payload
  q_createdAt :: time
  q_attempts :: nat
  q_lastAttempt :: "time option"
  q_envelopeId :: "string option"
  q_opId :: "string option"
  q_workspaceId :: "string option"
  q_channelId :: "string option"
  q_threadId :: "string option"
  q_domain :: "sync_domain option"
  q_recipientPeerIds :: "string list option"
  q_replicationClass :: "replication_class option"
  q_custodyOwnerPeerId :: "string option"
  q_contentHash :: "string option"
  q_deliveryState :: "delivery_state option"
  q_expiresAt :: "time option"
  q_deliveredAt :: "time option"
  q_acknowledgedAt :: "time option"
  q_receipt :: "delivery_receipt option"
  q_metadata :: "metadata option"

subsection \<open>The object store\<close>

record outbox =
  ob_next :: nat
  ob_rows :: "queued list"

definition new_outbox :: outbox where
  "new_outbox = \<lparr>ob_next = 1, ob_rows = []\<rparr>"

definition has_id :: "nat \<Rightarrow> queued \<Rightarrow> bool" where
  "has_id i m \<longleftrightarrow> q_id m = Some i"

text \<open>\<open>put\<close>: a row without key is appended under the next key, a row with a stored key replaces it.\<close>

definition outbox_put :: "queued \<Rightarrow> outbox \<Rightarrow> outbox" where
  "outbox_put m db =
     (case q_id m of
        None \<Rightarrow> \<lparr>ob_next = ob_next db + 1, ob_rows = ob_rows db @ [m\<lparr>q_id := Some (ob_next db)\<rparr>]\<rparr>
      | Some i \<Rightarrow> db\<lparr>ob_rows := update_first (has_id i) (\<lambda>_. m) (ob_rows db)\<rparr>)"

definition outbox_delete :: "nat \<Rightarrow> outbox \<Rightarrow> outbox" where
  "outbox_delete i db = db\<lparr>ob_rows := filter (\<lambda>m. \<not> has_id i m) (ob_rows db)\<rparr>"

definition enqueueMessage :: "queued \<Rightarrow> outbox \<Rightarrow> outbox" where
  "enqueueMessage m db = outbox_put (m\<lparr>q_lastAttempt := Some (get_or 0 (q_lastAttempt m))\<rparr>) db"

definition getQueuedMessages :: "string \<Rightarrow> outbox \<Rightarrow> queued list" where
  "getQueuedMessages p db = filter (\<lambda>m. q_targetPeerId m = p) (ob_rows db)"

definition dequeueMessage :: "nat \<Rightarrow> outbox \<Rightarrow> outbox" where
  "dequeueMessage i db = outbox_delete i db"

definition dequeueMessages :: "nat list \<Rightarrow> outbox \<Rightarrow> outbox" where
  "dequeueMessages ids db =
     (if ids = [] then db
      else if length ids = 1 then outbox_delete (ids ! 0) db
      else fold outbox_delete ids db)"

definition updateQueuedMessage :: "nat \<Rightarrow> (queued \<Rightarrow> queued) \<Rightarrow> outbox \<Rightarrow> outbox" where
  "updateQueuedMessage i patch db =
     (case find (has_id i) (ob_rows db) of
        None \<Rightarrow> db
      | Some m \<Rightarrow> outbox_put (patch m) db)"

definition dequeueAllForPeer :: "string \<Rightarrow> outbox \<Rightarrow> queued list \<times> outbox" where
  "dequeueAllForPeer p db =
     (let messages = getQueuedMessages p db
      in (messages, fold (\<lambda>m. case q_id m of None \<Rightarrow> id | Some i \<Rightarrow> outbox_delete i) messages db))"

text \<open>Rows have distinct keys below the next one.\<close>

definition outbox_inv :: "outbox \<Rightarrow> bool" where
  "outbox_inv db \<longleftrightarrow> distinct (map q_id (ob_rows db)) \<and> (\<forall>m \<in> set (ob_rows db). \<exists>i. q_id m = Some i \<and> i < ob_next db)"

subsection \<open>What the queue relies on\<close>

text \<open>\<open>splice\<close> at the index that \<open>findIndex\<close> gave.\<close>

fun remove_first :: "('a \<Rightarrow> bool) \<Rightarrow> 'a list \<Rightarrow> 'a list" where
  "remove_first P [] = []"
| "remove_first P (x # xs) = (if P x then xs else x # remove_first P xs)"

lemma filter_found:
  "distinct (map q_id xs) \<Longrightarrow> find P xs = Some m \<Longrightarrow> q_id m = Some i \<Longrightarrow>
    filter (\<lambda>m. \<not> has_id i m) xs = remove_first P xs"
proof (induction xs)
  case (Cons x xs)
  show ?case
  proof (cases "P x")
    case True
    with Cons.prems have "\<forall>y \<in> set xs. \<not> has_id i y" "has_id i x" by (auto simp: has_id_def image_iff)
    with True show ?thesis by (simp add: filter_id_conv)
  next
    case False
    with Cons.prems(2) have "m \<in> set xs" by (auto dest: find_Some_in)
    with False Cons show ?thesis by (auto simp: has_id_def image_iff)
  qed
qed simp

lemma update_found_first:
  "distinct (map q_id xs) \<Longrightarrow> find P xs = Some m \<Longrightarrow> q_id m = Some i \<Longrightarrow>
    update_first (has_id i) f xs = update_first P f xs"
proof (induction xs)
  case (Cons x xs)
  show ?case
  proof (cases "P x")
    case True
    with Cons.prems show ?thesis by (simp add: has_id_def)
  next
    case False
    with Cons.prems(2) have "m \<in> set xs" by (auto dest: find_Some_in)
    with False Cons show ?thesis by (auto simp: has_id_def image_iff)
  qed
qed simp

locale mailbox_store =
  fixes inv :: "'s \<Rightarrow> bool"
    and load :: "string \<Rightarrow> 's \<Rightarrow> queued list"
    and save :: "queued \<Rightarrow> 's \<Rightarrow> 's"
    and remove :: "nat \<Rightarrow> 's \<Rightarrow> 's"
    and update :: "nat \<Rightarrow> (queued \<Rightarrow> queued) \<Rightarrow> 's \<Rightarrow> 's"
    and removeAll :: "string \<Rightarrow> 's \<Rightarrow> queued list \<times> 's"
  assumes load_ids: "inv s \<Longrightarrow> distinct (map q_id (load p s)) \<and> (\<forall>m \<in> set (load p s). q_id m \<noteq> None)"
    and load_peer: "inv s \<Longrightarrow> m \<in> set (load p s) \<Longrightarrow> q_targetPeerId m = p"
    and load_disjoint: "inv s \<Longrightarrow> m \<in> set (load p s) \<Longrightarrow> n \<in> set (load q s) \<Longrightarrow> q_id m = q_id n \<Longrightarrow> p = q"
    and save_inv: "inv s \<Longrightarrow> q_id m = None \<Longrightarrow> inv (save m s)"
    and save_load: "inv s \<Longrightarrow> q_id m = None \<Longrightarrow>
      \<exists>i. load p (save m s) = (if q_targetPeerId m = p
        then load p s @ [m\<lparr>q_id := Some i, q_lastAttempt := Some (get_or 0 (q_lastAttempt m))\<rparr>] else load p s)"
    and remove_inv: "inv s \<Longrightarrow> inv (remove i s)"
    and remove_load: "inv s \<Longrightarrow> load p (remove i s) = filter (\<lambda>m. \<not> has_id i m) (load p s)"
    and update_inv: "inv s \<Longrightarrow> (\<And>m. q_id (f m) = q_id m \<and> q_targetPeerId (f m) = q_targetPeerId m) \<Longrightarrow> inv (update i f s)"
    and update_load: "inv s \<Longrightarrow> (\<And>m. q_id (f m) = q_id m \<and> q_targetPeerId (f m) = q_targetPeerId m) \<Longrightarrow>
      load p (update i f s) = update_first (has_id i) f (load p s)"
    and removeAll_inv: "inv s \<Longrightarrow> inv (snd (removeAll p s))"
    and removeAll_load: "inv s \<Longrightarrow> fst (removeAll p s) = load p s \<and>
      load q (snd (removeAll p s)) = (if q = p then [] else load q s)"
begin

lemma other_row:
  assumes "inv s" "m \<in> set (load p s)" "q_id m = Some i" "q \<noteq> p"
  shows "\<forall>n \<in> set (load q s). \<not> has_id i n"
proof (intro ballI notI)
  fix n
  assume "n \<in> set (load q s)" "has_id i n"
  with load_disjoint [OF assms(1,2), of n q] assms(3,4) show False by (simp add: has_id_def)
qed

text \<open>Removing or updating the row that a search found is removing or updating the first row it accepts.\<close>

lemma remove_found:
  assumes "inv s" "find P (load p s) = Some m" "q_id m = Some i"
  shows "load q (remove i s) = (if q = p then remove_first P (load p s) else load q s)"
proof (cases "q = p")
  case True
  with filter_found [OF _ assms(2,3)] load_ids [OF assms(1), of p] show ?thesis by (simp add: remove_load [OF assms(1)])
next
  case False
  with other_row [OF assms(1) _ assms(3) False] find_Some_in [OF assms(2)] show ?thesis
    by (simp add: remove_load [OF assms(1)] filter_id_conv)
qed

lemma update_found:
  assumes "inv s" "find P (load p s) = Some m" "q_id m = Some i"
    and "\<And>m. q_id (f m) = q_id m \<and> q_targetPeerId (f m) = q_targetPeerId m"
  shows "load q (update i f s) = (if q = p then update_first P f (load p s) else load q s)"
proof (cases "q = p")
  case True
  with update_found_first [OF _ assms(2,3)] load_ids [OF assms(1), of p] show ?thesis
    by (simp add: update_load [OF assms(1,4)])
next
  case False
  with other_row [OF assms(1) _ assms(3) False] find_Some_in [OF assms(2)] show ?thesis
    by (simp add: update_load [OF assms(1,4)] update_first_none)
qed

lemma find_has_id: "inv s \<Longrightarrow> find P (load p s) = Some m \<Longrightarrow> \<exists>i. q_id m = Some i"
  using load_ids [of s p] find_Some_in [of P "load p s" m] by auto

end

subsection \<open>The persistent store provides it\<close>

lemma update_first_rows:
  assumes "\<And>x. has_id i x \<Longrightarrow> q_id (f x) = q_id x"
  shows "map q_id (update_first (has_id i) f xs) = map q_id xs"
  by (rule map_update_first) (rule assms)

lemma updateQueuedMessage_rows:
  assumes "outbox_inv db" "\<And>m. q_id (f m) = q_id m"
  shows "ob_rows (updateQueuedMessage i f db) = update_first (has_id i) f (ob_rows db)"
    and "ob_next (updateQueuedMessage i f db) = ob_next db"
proof -
  have rows: "find (has_id i) xs = Some m \<Longrightarrow> update_first (has_id i) (\<lambda>_. f m) xs = update_first (has_id i) f xs" for xs m
    by (induction xs) (auto split: if_splits)
  have none: "find (has_id i) xs = None \<Longrightarrow> update_first (has_id i) f xs = xs" for xs
    by (induction xs) (auto split: if_splits)
  show "ob_rows (updateQueuedMessage i f db) = update_first (has_id i) f (ob_rows db)"
    using assms(2) find_Some_in [of "has_id i" "ob_rows db"]
    by (auto simp: updateQueuedMessage_def outbox_put_def rows none has_id_def split: option.split)
  show "ob_next (updateQueuedMessage i f db) = ob_next db"
    using assms(2) find_Some_in [of "has_id i" "ob_rows db"]
    by (auto simp: updateQueuedMessage_def outbox_put_def has_id_def split: option.split)
qed

lemma filter_update_first:
  "(\<And>x. Q (f x) = Q x) \<Longrightarrow> distinct (map q_id xs) \<Longrightarrow>
    filter Q (update_first (has_id i) f xs) = update_first (has_id i) f (filter Q xs)"
proof (induction xs)
  case (Cons x xs)
  have "update_first (has_id i) f (filter Q xs) = filter Q xs" if "has_id i x"
    using Cons.prems(2) that by (intro update_first_none) (auto simp: has_id_def image_iff)
  with Cons show ?case by auto
qed simp

lemma fold_outbox_delete:
  "ob_rows (fold (\<lambda>m. case q_id m of None \<Rightarrow> id | Some i \<Rightarrow> outbox_delete i) ms db) =
     filter (\<lambda>m. \<forall>n \<in> set ms. q_id n = None \<or> q_id n \<noteq> q_id m) (ob_rows db) \<and>
   ob_next (fold (\<lambda>m. case q_id m of None \<Rightarrow> id | Some i \<Rightarrow> outbox_delete i) ms db) = ob_next db"
proof (induction ms arbitrary: db)
  case (Cons n ms)
  then show ?case
    by (cases "q_id n") (auto simp: outbox_delete_def has_id_def intro!: filter_cong)
qed simp

lemma outbox_inv_keys: "outbox_inv db \<longleftrightarrow> distinct (map q_id (ob_rows db)) \<and>
    (\<forall>k \<in> set (map q_id (ob_rows db)). \<exists>i. k = Some i \<and> i < ob_next db)"
  by (simp add: outbox_inv_def)

lemma outbox_inv_subset:
  assumes "outbox_inv db" "ob_rows db' = filter P (ob_rows db)" "ob_next db' = ob_next db"
  shows "outbox_inv db'"
  using assms by (auto simp: outbox_inv_def distinct_map_filter)

interpretation outbox: mailbox_store outbox_inv getQueuedMessages enqueueMessage dequeueMessage updateQueuedMessage
  dequeueAllForPeer
proof (unfold_locales, goal_cases)
  case (1 s p)
  then show ?case by (auto simp: outbox_inv_def getQueuedMessages_def distinct_map_filter)
next
  case (2 s m p)
  then show ?case by (simp add: getQueuedMessages_def)
next
  case (3 s m p n q)
  then have "m = n" by (auto simp: outbox_inv_def getQueuedMessages_def distinct_map inj_on_def)
  with 3 show ?case by (simp add: getQueuedMessages_def)
next
  case (4 s m)
  then show ?case by (fastforce simp: outbox_inv_def enqueueMessage_def outbox_put_def)
next
  case (5 s m p)
  then show ?case
    by (intro exI [of _ "ob_next s"]) (simp add: getQueuedMessages_def enqueueMessage_def outbox_put_def)
next
  case (6 s i)
  then show ?case by (rule outbox_inv_subset) (simp_all add: dequeueMessage_def outbox_delete_def)
next
  case (7 s p i)
  then show ?case by (auto simp: getQueuedMessages_def dequeueMessage_def outbox_delete_def conj_commute)
next
  case (8 s f i)
  then have f: "\<And>m. q_id (f m) = q_id m" by blast
  have "map q_id (ob_rows (updateQueuedMessage i f s)) = map q_id (ob_rows s)"
    using 8(1) f by (simp add: updateQueuedMessage_rows update_first_rows)
  moreover have "ob_next (updateQueuedMessage i f s) = ob_next s"
    by (rule updateQueuedMessage_rows(2)) (use 8(1) f in auto)
  ultimately show ?case using 8(1) unfolding outbox_inv_keys by (elim conjE) (simp only: simp_thms)
next
  case (9 s f p i)
  then have "\<And>m. q_id (f m) = q_id m" by blast
  with 9 show ?case
    by (simp add: getQueuedMessages_def updateQueuedMessage_rows filter_update_first outbox_inv_def)
next
  case (10 s p)
  have "snd (dequeueAllForPeer p s) =
      fold (\<lambda>m. case q_id m of None \<Rightarrow> id | Some i \<Rightarrow> outbox_delete i) (getQueuedMessages p s) s"
    by (simp add: dequeueAllForPeer_def Let_def)
  with fold_outbox_delete [of "getQueuedMessages p s" s] show ?case
    by (simp only:) (rule outbox_inv_subset [OF 10 conjunct1 conjunct2])
next
  case (11 s p q)
  then have same: "m = n" if "m \<in> set (ob_rows s)" "n \<in> set (ob_rows s)" "q_id m = q_id n" for m n
    using that by (auto simp: outbox_inv_def distinct_map inj_on_def)
  have key: "q_id m \<noteq> None" if "m \<in> set (ob_rows s)" for m
    using that 11 by (auto simp: outbox_inv_def)
  have "(\<forall>n \<in> set (getQueuedMessages p s). q_id n = None \<or> q_id n \<noteq> q_id m) \<longleftrightarrow> q_targetPeerId m \<noteq> p"
    if "m \<in> set (ob_rows s)" for m
  proof
    assume "\<forall>n \<in> set (getQueuedMessages p s). q_id n = None \<or> q_id n \<noteq> q_id m"
    then have "m \<notin> set (getQueuedMessages p s)" using key [OF that] by metis
    with that show "q_targetPeerId m \<noteq> p" by (simp add: getQueuedMessages_def)
  next
    assume m: "q_targetPeerId m \<noteq> p"
    show "\<forall>n \<in> set (getQueuedMessages p s). q_id n = None \<or> q_id n \<noteq> q_id m"
    proof
      fix n
      assume n: "n \<in> set (getQueuedMessages p s)"
      then have "n \<in> set (ob_rows s)" "q_targetPeerId n = p" by (simp_all add: getQueuedMessages_def)
      with same [OF this(1) that] m show "q_id n = None \<or> q_id n \<noteq> q_id m" by blast
    qed
  qed
  then have "ob_rows (snd (dequeueAllForPeer p s)) = filter (\<lambda>m. q_targetPeerId m \<noteq> p) (ob_rows s)"
    by (simp add: dequeueAllForPeer_def fold_outbox_delete Let_def cong: filter_cong)
  then show ?case
    by (auto simp: dequeueAllForPeer_def Let_def getQueuedMessages_def filter_empty_conv intro: filter_cong)
qed

end
