(* ===== verification/Refinement.thy ===== *)
theory Refinement
  imports Prelude
begin

section \<open>Refinement of an abstract specification\<close>

text \<open>
  The contract between the operations of a component and its specification: every call keeps the
  invariant, gives the answer that the specification gives on the abstraction of the state, and leads
  to the abstraction of the new state. Runs of any length then give the same answers.
\<close>

fun run_calls :: "('o \<Rightarrow> 's \<Rightarrow> 'r \<times> 's) \<Rightarrow> 'o list \<Rightarrow> 's \<Rightarrow> 'r list \<times> 's" where
  "run_calls step [] s = ([], s)"
| "run_calls step (op # ops) s =
     (let (r, s1) = step op s; (rs, s2) = run_calls step ops s1 in (r # rs, s2))"

definition answers :: "('o \<Rightarrow> 's \<Rightarrow> 'r \<times> 's) \<Rightarrow> 'o list \<Rightarrow> 's \<Rightarrow> 'r list" where
  "answers step ops s = fst (run_calls step ops s)"

definition final_state :: "('o \<Rightarrow> 's \<Rightarrow> 'r \<times> 's) \<Rightarrow> 'o list \<Rightarrow> 's \<Rightarrow> 's" where
  "final_state step ops s = snd (run_calls step ops s)"

lemma answers_simps [simp]:
  "answers step [] s = []"
  "answers step (op # ops) s = fst (step op s) # answers step ops (snd (step op s))"
  by (simp_all add: answers_def split_beta)

lemma final_state_simps [simp]:
  "final_state step [] s = s"
  "final_state step (op # ops) s = final_state step ops (snd (step op s))"
  by (simp_all add: final_state_def split_beta)

locale refinement =
  fixes step :: "'o \<Rightarrow> 's \<Rightarrow> 'r \<times> 's"
    and spec :: "'o \<Rightarrow> 'a \<Rightarrow> 'r \<times> 'a"
    and abs :: "'s \<Rightarrow> 'a"
    and inv :: "'s \<Rightarrow> bool"
  assumes step_inv: "inv s \<Longrightarrow> inv (snd (step op s))"
    and step_answer: "inv s \<Longrightarrow> fst (spec op (abs s)) = fst (step op s)"
    and step_abs: "inv s \<Longrightarrow> snd (spec op (abs s)) = abs (snd (step op s))"
begin

lemma run_inv: "inv s \<Longrightarrow> inv (final_state step ops s)"
  by (induction ops arbitrary: s) (simp_all add: step_inv)

lemma run_answers: "inv s \<Longrightarrow> answers step ops s = answers spec ops (abs s)"
  by (induction ops arbitrary: s) (simp_all add: step_inv step_answer step_abs)

lemma run_abs: "inv s \<Longrightarrow> abs (final_state step ops s) = final_state spec ops (abs s)"
  by (induction ops arbitrary: s) (simp_all add: step_inv step_abs)

text \<open>Two states with the same abstraction cannot be told apart.\<close>

lemma same_answers:
  assumes "inv s" "inv t" "abs s = abs t"
  shows "answers step ops s = answers step ops t"
  using assms by (simp add: run_answers)

end

end
