(* ===== verification/OfflineQueue.thy ===== *)
theory OfflineQueue
  imports Outbox Refinement
begin

section \<open>The queue for peers that are offline (messages/OfflineQueue.ts)\<close>

text \<open>
  The class \<open>OfflineQueue\<close>: messages for a peer wait in memory or, when persistence is wired up, in the
  outbox of \<^theory_text>\<open>Outbox\<close> (all six callbacks, as the web client does). Every call reads the clock
  once; removals that the code starts without awaiting them happen in the same step. The abstract
  specification is a mailbox per peer, and both modes refine it.
\<close>

subsection \<open>State\<close>

record offline_queue =
  oq_memory :: "(string, queued list) jsmap"
  oq_maxRetries :: nat
  oq_retryDelayMs :: int
  oq_maxAgeMs :: int
  oq_db :: "outbox option"

definition new_queue :: "nat option \<Rightarrow> int option \<Rightarrow> int option \<Rightarrow> offline_queue" where
  "new_queue maxRetries retryDelayMs maxAgeMs =
     \<lparr>oq_memory = [], oq_maxRetries = get_or 10 maxRetries, oq_retryDelayMs = get_or 5000 retryDelayMs,
      oq_maxAgeMs = get_or (7 * 24 * 60 * 60 * 1000) maxAgeMs, oq_db = None\<rparr>"

definition setPersistence :: "outbox \<Rightarrow> offline_queue \<Rightarrow> offline_queue" where
  "setPersistence db q = q\<lparr>oq_db := Some db\<rparr>"

record queue_meta =
  qm_createdAt :: "time option"
  qm_attempts :: "nat option"
  qm_lastAttempt :: "time option"
  qm_envelopeId :: "string option"
  qm_opId :: "string option"
  qm_workspaceId :: "string option"
  qm_channelId :: "string option"
  qm_threadId :: "string option"
  qm_domain :: "sync_domain option"
  qm_recipientPeerIds :: "string list option"
  qm_replicationClass :: "replication_class option"
  qm_custodyOwnerPeerId :: "string option"
  qm_contentHash :: "string option"
  qm_deliveryState :: "delivery_state option"
  qm_expiresAt :: "time option"
  qm_deliveredAt :: "time option"
  qm_acknowledgedAt :: "time option"
  qm_receipt :: "delivery_receipt option"
  qm_metadata :: "metadata option"

definition no_meta :: queue_meta where
  "no_meta = \<lparr>qm_createdAt = None, qm_attempts = None, qm_lastAttempt = None, qm_envelopeId = None,
     qm_opId = None, qm_workspaceId = None, qm_channelId = None, qm_threadId = None,
     qm_domain = None, qm_recipientPeerIds = None, qm_replicationClass = None, qm_custodyOwnerPeerId = None,
     qm_contentHash = None, qm_deliveryState = None, qm_expiresAt = None, qm_deliveredAt = None,
     qm_acknowledgedAt = None, qm_receipt = None, qm_metadata = None\<rparr>"

definition make_queued :: "time \<Rightarrow> string \<Rightarrow> payload \<Rightarrow> queue_meta \<Rightarrow> queued" where
  "make_queued now p data meta =
    \<lparr>q_id = None, q_targetPeerId = p, q_data = data,
     q_createdAt = get_or now (qm_createdAt meta), q_attempts = get_or 0 (qm_attempts meta),
     q_lastAttempt = qm_lastAttempt meta, q_envelopeId = truthy_string (qm_envelopeId meta),
     q_opId = truthy_string (qm_opId meta), q_workspaceId = truthy_string (qm_workspaceId meta),
     q_channelId = truthy_string (qm_channelId meta), q_threadId = truthy_string (qm_threadId meta),
     q_domain = qm_domain meta, q_recipientPeerIds = qm_recipientPeerIds meta,
     q_replicationClass = qm_replicationClass meta, q_custodyOwnerPeerId = truthy_string (qm_custodyOwnerPeerId meta),
     q_contentHash = truthy_string (qm_contentHash meta), q_deliveryState = qm_deliveryState meta,
     q_expiresAt = qm_expiresAt meta, q_deliveredAt = qm_deliveredAt meta,
     q_acknowledgedAt = qm_acknowledgedAt meta, q_receipt = qm_receipt meta,
     q_metadata = qm_metadata meta\<rparr>"

subsection \<open>Operations\<close>

definition memory_of :: "string \<Rightarrow> offline_queue \<Rightarrow> queued list" where
  "memory_of p q = jm_get_or [] (oq_memory q) p"

definition map_db :: "(outbox \<Rightarrow> outbox) \<Rightarrow> offline_queue \<Rightarrow> offline_queue" where
  "map_db f q = q\<lparr>oq_db := map_option f (oq_db q)\<rparr>"

text \<open>A change of the list that the memory holds for a peer, if it holds one.\<close>

definition map_memory :: "string \<Rightarrow> (queued list \<Rightarrow> queued list) \<Rightarrow> offline_queue \<Rightarrow> offline_queue" where
  "map_memory p f q = (case jm_get (oq_memory q) p of None \<Rightarrow> q
     | Some ms \<Rightarrow> q\<lparr>oq_memory := jm_set p (f ms) (oq_memory q)\<rparr>)"

definition enqueue :: "time \<Rightarrow> string \<Rightarrow> payload \<Rightarrow> queue_meta \<Rightarrow> offline_queue \<Rightarrow> offline_queue" where
  "enqueue now p data meta q =
     (let msg = make_queued now p data meta in
      if oq_db q \<noteq> None then map_db (enqueueMessage msg) q
      else q\<lparr>oq_memory := jm_set p (memory_of p q @ [msg]) (oq_memory q)\<rparr>)"

definition envelope_meta :: "envelope \<Rightarrow> queue_meta" where
  "envelope_meta e = no_meta\<lparr>qm_envelopeId := Some (en_envelopeId e), qm_opId := Some (en_opId e),
     qm_workspaceId := Some (en_workspaceId e), qm_channelId := en_channelId e, qm_threadId := en_threadId e,
     qm_domain := Some (en_domain e), qm_recipientPeerIds := Some (en_recipientPeerIds e),
     qm_replicationClass := Some (en_replicationClass e), qm_custodyOwnerPeerId := en_custodyOwnerPeerId e,
     qm_contentHash := en_contentHash e, qm_deliveryState := Some (en_deliveryState e),
     qm_createdAt := Some (en_createdAt e), qm_expiresAt := Some (en_expiresAt e), qm_metadata := en_metadata e\<rparr>"

definition enqueueEnvelope :: "time \<Rightarrow> string \<Rightarrow> envelope \<Rightarrow> offline_queue \<Rightarrow> offline_queue" where
  "enqueueEnvelope now p e q = enqueue now p (EnvelopeData e) (envelope_meta e) q"

definition listQueued :: "string \<Rightarrow> offline_queue \<Rightarrow> queued list" where
  "listQueued p q = (case oq_db q of Some db \<Rightarrow> getQueuedMessages p db | None \<Rightarrow> memory_of p q)"

definition isExpired :: "time \<Rightarrow> queued \<Rightarrow> offline_queue \<Rightarrow> bool" where
  "isExpired now m q \<longleftrightarrow> now - q_createdAt m \<ge> oq_maxAgeMs q \<or>
     (case q_expiresAt m of None \<Rightarrow> False | Some t \<Rightarrow> now \<ge> t)"

definition getDueAt :: "queued \<Rightarrow> offline_queue \<Rightarrow> time" where
  "getDueAt m q = get_or 0 (q_lastAttempt m) + min (oq_retryDelayMs q * 2 ^ q_attempts m) 60000"

definition remove_by_id :: "string \<Rightarrow> nat \<Rightarrow> offline_queue \<Rightarrow> offline_queue" where
  "remove_by_id p i q = map_memory p (remove_first (has_id i)) (map_db (dequeueMessage i) q)"

definition removeBatch :: "string \<Rightarrow> nat list \<Rightarrow> offline_queue \<Rightarrow> offline_queue" where
  "removeBatch p ids q =
     (if ids = [] then q
      else if length ids = 1 then remove_by_id p (ids ! 0) q
      else map_memory p (filter (\<lambda>m. case q_id m of None \<Rightarrow> True | Some i \<Rightarrow> i \<notin> set ids))
        (map_db (dequeueMessages ids) q))"

definition dead :: "time \<Rightarrow> offline_queue \<Rightarrow> queued \<Rightarrow> bool" where
  "dead now q m \<longleftrightarrow> isExpired now m q \<or> q_attempts m \<ge> oq_maxRetries q"

definition filterDeliverable :: "time \<Rightarrow> string \<Rightarrow> queued list \<Rightarrow> offline_queue \<Rightarrow> queued list \<times> offline_queue" where
  "filterDeliverable now p ms q =
     (filter (\<lambda>m. \<not> dead now q m \<and> now \<ge> getDueAt m q) ms,
      fold (\<lambda>m s. case q_id m of None \<Rightarrow> s | Some i \<Rightarrow> if dead now q m then remove_by_id p i s else s) ms q)"

definition getQueued :: "time \<Rightarrow> string \<Rightarrow> offline_queue \<Rightarrow> queued list \<times> offline_queue" where
  "getQueued now p q =
     (let persisted = (case oq_db q of None \<Rightarrow> [] | Some db \<Rightarrow> getQueuedMessages p db)
      in filterDeliverable now p (if persisted \<noteq> [] then persisted else memory_of p q) q)"

definition flush :: "time \<Rightarrow> string \<Rightarrow> offline_queue \<Rightarrow> payload list \<times> offline_queue" where
  "flush now p q =
     (let (messages, q1) = (case oq_db q of
          Some db \<Rightarrow> (fst (dequeueAllForPeer p db), q\<lparr>oq_db := Some (snd (dequeueAllForPeer p db))\<rparr>)
        | None \<Rightarrow> (memory_of p q, q\<lparr>oq_memory := jm_delete p (oq_memory q)\<rparr>))
      in (map q_data (filter (\<lambda>m. \<not> isExpired now m q) messages), q1))"

definition receipt_time :: "time \<Rightarrow> delivery_receipt option \<Rightarrow> time" where
  "receipt_time now r = (case r of None \<Rightarrow> now | Some r \<Rightarrow> dv_timestamp r)"

definition delivered_patch :: "time \<Rightarrow> delivery_receipt option \<Rightarrow> queued \<Rightarrow> queued" where
  "delivered_patch now r m = m\<lparr>q_deliveryState := Some Delivered, q_deliveredAt := Some (receipt_time now r),
     q_receipt := (if r = None then q_receipt m else r)\<rparr>"

definition acknowledged_patch :: "time \<Rightarrow> delivery_receipt option \<Rightarrow> queued \<Rightarrow> queued" where
  "acknowledged_patch now r m = m\<lparr>q_deliveryState := Some Acknowledged, q_acknowledgedAt := Some (receipt_time now r),
     q_receipt := (if r = None then q_receipt m else r)\<rparr>"

definition is_envelope :: "string \<Rightarrow> queued \<Rightarrow> bool" where
  "is_envelope e m \<longleftrightarrow> q_envelopeId m = Some e"

definition matchesMessageId :: "string \<Rightarrow> queued \<Rightarrow> bool" where
  "matchesMessageId i m \<longleftrightarrow> q_opId m = Some i \<or> q_envelopeId m = Some i \<or>
     (case q_data m of MessageData mid k body \<Rightarrow> mid = Some i \<or> k = Some i | _ \<Rightarrow> False)"

definition markDeliveredEnvelope :: "time \<Rightarrow> string \<Rightarrow> string \<Rightarrow> delivery_receipt option \<Rightarrow> offline_queue \<Rightarrow> bool \<times> offline_queue" where
  "markDeliveredEnvelope now p e r q =
     (case find (is_envelope e) (listQueued p q) of
        Some m \<Rightarrow>
          (case q_id m of
             Some i \<Rightarrow> (True, map_db (updateQueuedMessage i (delivered_patch now r)) q)
           | None \<Rightarrow> (find (is_envelope e) (memory_of p q) \<noteq> None, map_memory p (update_first (is_envelope e) (delivered_patch now r)) q))
      | None \<Rightarrow> (find (is_envelope e) (memory_of p q) \<noteq> None, map_memory p (update_first (is_envelope e) (delivered_patch now r)) q))"

text \<open>An item with a key is acknowledged in the outbox, if there is one, and removed.\<close>

definition acknowledge_row :: "time \<Rightarrow> string \<Rightarrow> nat \<Rightarrow> delivery_receipt option \<Rightarrow> offline_queue \<Rightarrow> offline_queue" where
  "acknowledge_row now p i r q =
     remove_by_id p i (map_db (updateQueuedMessage i (acknowledged_patch now r)) q)"

definition acknowledgeEnvelope :: "time \<Rightarrow> string \<Rightarrow> string \<Rightarrow> delivery_receipt option \<Rightarrow> offline_queue \<Rightarrow> bool \<times> offline_queue" where
  "acknowledgeEnvelope now p e r q =
     (case find (is_envelope e) (listQueued p q) of
        None \<Rightarrow> (False, q)
      | Some m \<Rightarrow>
          (case q_id m of
             Some i \<Rightarrow> (True, acknowledge_row now p i r q)
           | None \<Rightarrow> (find (is_envelope e) (memory_of p q) \<noteq> None, map_memory p (remove_first (is_envelope e)) q)))"

definition acknowledgeByMessageId :: "time \<Rightarrow> string \<Rightarrow> string \<Rightarrow> delivery_receipt option \<Rightarrow> offline_queue \<Rightarrow> bool \<times> offline_queue" where
  "acknowledgeByMessageId now p i r q =
     (case find (matchesMessageId i) (listQueued p q) of
        None \<Rightarrow> (False, q)
      | Some m \<Rightarrow>
          if truthy_string (q_envelopeId m) \<noteq> None then acknowledgeEnvelope now p (the (q_envelopeId m)) r q
          else (case q_id m of
             Some k \<Rightarrow> (True, acknowledge_row now p k r q)
           | None \<Rightarrow> (find (matchesMessageId i) (memory_of p q) \<noteq> None, map_memory p (remove_first (matchesMessageId i)) q)))"

definition markDeliveredByMessageId :: "time \<Rightarrow> string \<Rightarrow> string \<Rightarrow> delivery_receipt option \<Rightarrow> offline_queue \<Rightarrow> bool \<times> offline_queue" where
  "markDeliveredByMessageId now p i r q =
     (case find (matchesMessageId i) (listQueued p q) of
        None \<Rightarrow> (False, q)
      | Some m \<Rightarrow>
          if truthy_string (q_envelopeId m) \<noteq> None then markDeliveredEnvelope now p (the (q_envelopeId m)) r q
          else if q_id m \<noteq> None \<and> oq_db q \<noteq> None
          then (True, map_db (updateQueuedMessage (the (q_id m)) (delivered_patch now r)) q)
          else (find (matchesMessageId i) (memory_of p q) \<noteq> None,
                map_memory p (update_first (matchesMessageId i) (delivered_patch now r)) q))"

definition applyReceipt :: "time \<Rightarrow> string \<Rightarrow> delivery_receipt \<Rightarrow> offline_queue \<Rightarrow> bool \<times> offline_queue" where
  "applyReceipt now p r q =
     (if dv_kind r = StoredKind \<or> dv_kind r = DeliveredKind then
        (if truthy_string (dv_envelopeId r) \<noteq> None then markDeliveredEnvelope now p (the (dv_envelopeId r)) (Some r) q
         else markDeliveredByMessageId now p (dv_opId r) (Some r) q)
      else if truthy_string (dv_envelopeId r) \<noteq> None then acknowledgeEnvelope now p (the (dv_envelopeId r)) (Some r) q
      else acknowledgeByMessageId now p (dv_opId r) (Some r) q)"

definition getQueuedCount :: "string \<Rightarrow> offline_queue \<Rightarrow> nat" where
  "getQueuedCount p q = length (memory_of p q)"

definition getTotalQueued :: "offline_queue \<Rightarrow> nat" where
  "getTotalQueued q = foldl (\<lambda>total ms. total + length ms) 0 (jm_values (oq_memory q))"

definition getPeersWithQueue :: "offline_queue \<Rightarrow> string list" where
  "getPeersWithQueue q = map fst (filter (\<lambda>(p, ms). ms \<noteq> []) (oq_memory q))"

definition markAttempt :: "time \<Rightarrow> string \<Rightarrow> nat \<Rightarrow> offline_queue \<Rightarrow> offline_queue" where
  "markAttempt now p i q =
     (case oq_db q of
        Some db \<Rightarrow>
          let attempts = (case find (has_id i) (getQueuedMessages p db) of None \<Rightarrow> 0 | Some m \<Rightarrow> q_attempts m) + 1;
              q1 = map_db (updateQueuedMessage i (\<lambda>m. m\<lparr>q_attempts := attempts, q_lastAttempt := Some now\<rparr>)) q
          in if attempts \<ge> oq_maxRetries q then map_db (dequeueMessage i) q1 else q1
      | None \<Rightarrow>
          (case find (has_id i) (memory_of p q) of
             None \<Rightarrow> q
           | Some m \<Rightarrow>
               let q1 = map_memory p (update_first (has_id i) (\<lambda>m. m\<lparr>q_attempts := q_attempts m + 1, q_lastAttempt := Some now\<rparr>)) q
               in if q_attempts m + 1 \<ge> oq_maxRetries q then map_memory p (remove_first (has_id i)) q1 else q1))"

definition clear_queue :: "offline_queue \<Rightarrow> offline_queue" where
  "clear_queue q = q\<lparr>oq_memory := []\<rparr>"


subsection \<open>The summary for reconciliation\<close>

record sync_summary =
  su_recipientPeerId :: string
  su_totalEnvelopes :: nat
  su_deliverableCount :: nat
  su_backingOffCount :: nat
  su_exhaustedCount :: nat
  su_expiredCount :: nat
  su_acknowledgedCount :: nat
  su_byDomain :: "(sync_domain, nat) jsmap"
  su_byReplicationClass :: "(replication_class, nat) jsmap"
  su_pendingReceiptCount :: nat
  su_minCreatedAt :: "time option"
  su_maxCreatedAt :: "time option"
  su_latestEnvelopeId :: "string option"
  su_nextRetryAt :: "time option"
  su_lastReceiptAt :: "time option"

definition empty_summary :: "string \<Rightarrow> nat \<Rightarrow> sync_summary" where
  "empty_summary p n = \<lparr>su_recipientPeerId = p, su_totalEnvelopes = n, su_deliverableCount = 0, su_backingOffCount = 0,
     su_exhaustedCount = 0, su_expiredCount = 0, su_acknowledgedCount = 0, su_byDomain = [], su_byReplicationClass = [],
     su_pendingReceiptCount = 0, su_minCreatedAt = None, su_maxCreatedAt = None, su_latestEnvelopeId = None,
     su_nextRetryAt = None, su_lastReceiptAt = None\<rparr>"

definition count_key :: "'k option \<Rightarrow> ('k, nat) jsmap \<Rightarrow> ('k, nat) jsmap" where
  "count_key k m = (case k of None \<Rightarrow> m | Some x \<Rightarrow> jm_set x (jm_get_or 0 m x + 1) m)"

definition extreme :: "(time \<Rightarrow> time \<Rightarrow> time) \<Rightarrow> time option \<Rightarrow> time \<Rightarrow> time option" where
  "extreme f old t = (case old of None \<Rightarrow> Some t | Some u \<Rightarrow> Some (f u t))"

text \<open>What every message contributes, and then the one class it is counted in.\<close>

definition summarize_seen :: "queued \<Rightarrow> sync_summary \<Rightarrow> sync_summary" where
  "summarize_seen m a =
     (let a1 = a\<lparr>su_byDomain := count_key (q_domain m) (su_byDomain a),
                su_byReplicationClass := count_key (q_replicationClass m) (su_byReplicationClass a),
                su_minCreatedAt := extreme min (su_minCreatedAt a) (q_createdAt m),
                su_maxCreatedAt := extreme max (su_maxCreatedAt a) (q_createdAt m)\<rparr>;
          a2 = (if truthy_string (q_envelopeId m) \<noteq> None \<and>
                   (truthy_string (su_latestEnvelopeId a1) = None \<or> q_createdAt m \<ge> get_or 0 (su_maxCreatedAt a1))
                then a1\<lparr>su_latestEnvelopeId := q_envelopeId m\<rparr> else a1)
      in (case q_receipt m of None \<Rightarrow> a2
          | Some r \<Rightarrow> a2\<lparr>su_lastReceiptAt := extreme max (su_lastReceiptAt a2) (dv_timestamp r)\<rparr>))"

definition summarize_class :: "time \<Rightarrow> offline_queue \<Rightarrow> queued \<Rightarrow> sync_summary \<Rightarrow> sync_summary" where
  "summarize_class now q m a =
     (if q_deliveryState m = Some Acknowledged then a\<lparr>su_acknowledgedCount := su_acknowledgedCount a + 1\<rparr>
      else
        let a1 = (if q_deliveryState m = Some Delivered \<and> q_receipt m = None
                  then a\<lparr>su_pendingReceiptCount := su_pendingReceiptCount a + 1\<rparr> else a)
        in if isExpired now m q then a1\<lparr>su_expiredCount := su_expiredCount a1 + 1\<rparr>
           else if q_attempts m \<ge> oq_maxRetries q then a1\<lparr>su_exhaustedCount := su_exhaustedCount a1 + 1\<rparr>
           else if now \<ge> getDueAt m q then a1\<lparr>su_deliverableCount := su_deliverableCount a1 + 1\<rparr>
           else a1\<lparr>su_backingOffCount := su_backingOffCount a1 + 1,
                   su_nextRetryAt := extreme min (su_nextRetryAt a1) (getDueAt m q)\<rparr>)"

definition getSyncSummary :: "time \<Rightarrow> string \<Rightarrow> offline_queue \<Rightarrow> sync_summary" where
  "getSyncSummary now p q =
     fold (\<lambda>m a. summarize_class now q m (summarize_seen m a)) (listQueued p q)
       (empty_summary p (length (listQueued p q)))"

subsection \<open>The mailbox that both modes implement\<close>

text \<open>
  The specification: a list of messages for each peer. Keys of the outbox and the default of
  \<open>lastAttempt\<close> that it fills in are not part of it.
\<close>

type_synonym mailbox = "string \<Rightarrow> queued list"

definition strip :: "queued \<Rightarrow> queued" where
  "strip m = m\<lparr>q_id := None, q_lastAttempt := Some (get_or 0 (q_lastAttempt m))\<rparr>"

definition mailbox_of :: "offline_queue \<Rightarrow> mailbox" where
  "mailbox_of q p = map strip (listQueued p q)"

definition queue_wf :: "offline_queue \<Rightarrow> bool" where
  "queue_wf q \<longleftrightarrow> (case oq_db q of
     Some db \<Rightarrow> outbox_inv db \<and> oq_memory q = []
   | None \<Rightarrow> \<forall>p. \<forall>m \<in> set (memory_of p q). q_id m = None)"

datatype mail_call = Enqueue string payload queue_meta | EnqueueEnvelope string envelope | Flush string
  | MarkDelivered string string "delivery_receipt option" | AckEnvelope string string "delivery_receipt option"
  | AckMessage string string "delivery_receipt option" | ApplyReceipt string delivery_receipt | ListQueued string

datatype mail_out = Nothing | Answer bool | Payloads "payload list" | Messages "queued list"

fun queue_step :: "time \<times> mail_call \<Rightarrow> offline_queue \<Rightarrow> mail_out \<times> offline_queue" where
  "queue_step (now, Enqueue p data meta) q = (Nothing, enqueue now p data meta q)"
| "queue_step (now, EnqueueEnvelope p e) q = (Nothing, enqueueEnvelope now p e q)"
| "queue_step (now, Flush p) q = map_prod Payloads id (flush now p q)"
| "queue_step (now, MarkDelivered p e r) q = map_prod Answer id (markDeliveredEnvelope now p e r q)"
| "queue_step (now, AckEnvelope p e r) q = map_prod Answer id (acknowledgeEnvelope now p e r q)"
| "queue_step (now, AckMessage p i r) q = map_prod Answer id (acknowledgeByMessageId now p i r q)"
| "queue_step (now, ApplyReceipt p r) q = map_prod Answer id (applyReceipt now p r q)"
| "queue_step (now, ListQueued p) q = (Messages (map strip (listQueued p q)), q)"

definition box_mark :: "(queued \<Rightarrow> bool) \<Rightarrow> time \<Rightarrow> string \<Rightarrow> delivery_receipt option \<Rightarrow> mailbox \<Rightarrow> mail_out \<times> mailbox" where
  "box_mark P now p r b =
     (Answer (find P (b p) \<noteq> None), b(p := update_first P (delivered_patch now r) (b p)))"

definition box_take :: "(queued \<Rightarrow> bool) \<Rightarrow> string \<Rightarrow> mailbox \<Rightarrow> mail_out \<times> mailbox" where
  "box_take P p b = (Answer (find P (b p) \<noteq> None), b(p := remove_first P (b p)))"

text \<open>A search by message id that finds an envelope goes on with the id of the envelope.\<close>

definition by_message :: "string \<Rightarrow> queued list \<Rightarrow> queued \<Rightarrow> bool" where
  "by_message i ms = (case find (matchesMessageId i) ms of
     None \<Rightarrow> matchesMessageId i
   | Some m \<Rightarrow> if truthy_string (q_envelopeId m) \<noteq> None then is_envelope (the (q_envelopeId m)) else matchesMessageId i)"

fun box_step :: "int \<Rightarrow> time \<times> mail_call \<Rightarrow> mailbox \<Rightarrow> mail_out \<times> mailbox" where
  "box_step age (now, Enqueue p data meta) b = (Nothing, b(p := b p @ [strip (make_queued now p data meta)]))"
| "box_step age (now, EnqueueEnvelope p e) b =
     (Nothing, b(p := b p @ [strip (make_queued now p (EnvelopeData e) (envelope_meta e))]))"
| "box_step age (now, Flush p) b =
     (Payloads (map q_data (filter (\<lambda>m. \<not> (now - q_createdAt m \<ge> age \<or>
        (case q_expiresAt m of None \<Rightarrow> False | Some t \<Rightarrow> now \<ge> t))) (b p))), b(p := []))"
| "box_step age (now, MarkDelivered p e r) b = box_mark (is_envelope e) now p r b"
| "box_step age (now, AckEnvelope p e r) b = box_take (is_envelope e) p b"
| "box_step age (now, AckMessage p i r) b = box_take (by_message i (b p)) p b"
| "box_step age (now, ApplyReceipt p r) b =
     (let marks = (dv_kind r = StoredKind \<or> dv_kind r = DeliveredKind);
          P = (if truthy_string (dv_envelopeId r) \<noteq> None then is_envelope (the (dv_envelopeId r)) else by_message (dv_opId r) (b p))
      in if marks then box_mark P now p (Some r) b else box_take P p b)"
| "box_step age (now, ListQueued p) b = (Messages (b p), b)"


subsection \<open>Both modes refine it\<close>

definition blind :: "(queued \<Rightarrow> bool) \<Rightarrow> bool" where
  "blind P \<longleftrightarrow> (\<forall>m. P (strip m) = P m)"

lemma find_strip: "blind P \<Longrightarrow> find P (map strip ms) = map_option strip (find P ms)"
  by (induction ms) (auto simp: blind_def)

lemma remove_first_strip: "blind P \<Longrightarrow> remove_first P (map strip ms) = map strip (remove_first P ms)"
  by (induction ms) (auto simp: blind_def)

lemma update_first_strip:
  "blind P \<Longrightarrow> (\<And>m. f (strip m) = strip (f m)) \<Longrightarrow> update_first P f (map strip ms) = map strip (update_first P f ms)"
  by (induction ms) (auto simp: blind_def)

lemma remove_first_none: "find P ms = None \<Longrightarrow> remove_first P ms = ms"
  by (induction ms) (auto split: if_splits)

lemma update_first_unfound: "find P ms = None \<Longrightarrow> update_first P f ms = ms"
  by (induction ms) (auto split: if_splits)

lemma set_remove_first: "set (remove_first P ms) \<subseteq> set ms"
  by (induction ms) auto

lemma delivered_strip: "delivered_patch now r (strip m) = strip (delivered_patch now r m)"
  by (simp add: delivered_patch_def strip_def)

lemma blind_is_envelope: "blind (is_envelope e)"
  by (simp add: blind_def is_envelope_def strip_def)

lemma blind_matches: "blind (matchesMessageId i)"
  by (simp add: blind_def matchesMessageId_def strip_def)

lemmas patch_keys = delivered_patch_def acknowledged_patch_def

lemma queue_wf_db: "queue_wf q \<Longrightarrow> oq_db q = Some db \<Longrightarrow> outbox_inv db \<and> oq_memory q = []"
  by (simp add: queue_wf_def)

lemma queue_wf_memory: "queue_wf q \<Longrightarrow> oq_db q = None \<Longrightarrow> m \<in> set (memory_of p q) \<Longrightarrow> q_id m = None"
  by (auto simp: queue_wf_def)

lemma mailbox_upd:
  assumes "listQueued p q' = g (listQueued p q)" "map strip (g (listQueued p q)) = h (mailbox_of q p)"
    and "\<And>p'. p' \<noteq> p \<Longrightarrow> listQueued p' q' = listQueued p' q"
  shows "mailbox_of q' = (mailbox_of q)(p := h (mailbox_of q p))"
  using assms by (auto simp: mailbox_of_def fun_eq_iff)

text \<open>The two ways in which an operation changes the messages of one peer.\<close>

lemma memory_map: "g [] = [] \<Longrightarrow> memory_of p' (map_memory p g q) = (if p' = p then g (memory_of p q) else memory_of p' q)"
  by (auto simp: map_memory_def memory_of_def jm_get_or_def js_map split: option.split)

lemma map_memory_other [simp]:
  "oq_db (map_memory p g q) = oq_db q" "oq_maxAgeMs (map_memory p g q) = oq_maxAgeMs q"
  by (simp_all add: map_memory_def split: option.split)

lemma map_memory_empty [simp]: "oq_memory q = [] \<Longrightarrow> map_memory p g q = q"
  by (simp add: map_memory_def)

lemma change_memory:
  assumes "queue_wf q" "oq_db q = None" "g [] = []"
    and "\<And>ms. (\<And>m. m \<in> set ms \<Longrightarrow> q_id m = None) \<Longrightarrow> \<forall>m \<in> set (g ms). q_id m = None"
    and "\<And>ms. map strip (g ms) = h (map strip ms)"
  shows "queue_wf (map_memory p g q) \<and> mailbox_of (map_memory p g q) = (mailbox_of q)(p := h (mailbox_of q p))"
proof
  show "queue_wf (map_memory p g q)"
    using assms(2) queue_wf_memory [OF assms(1,2)] assms(4) [where ms = "memory_of p q"]
    by (simp add: queue_wf_def memory_map assms(3))
  show "mailbox_of (map_memory p g q) = (mailbox_of q)(p := h (mailbox_of q p))"
    using assms(2,5) by (auto simp: mailbox_of_def listQueued_def memory_map assms(3) fun_eq_iff)
qed

lemma set_update_first: "m \<in> set (update_first P f ms) \<Longrightarrow> m \<in> set ms \<or> (\<exists>n \<in> set ms. m = f n)"
  by (induction ms) (auto split: if_splits)

lemma mark_memory:
  assumes "queue_wf q" "oq_db q = None" "blind P"
  shows "queue_wf (map_memory p (update_first P (delivered_patch now r)) q) \<and>
    mailbox_of (map_memory p (update_first P (delivered_patch now r)) q) =
      (mailbox_of q)(p := update_first P (delivered_patch now r) (mailbox_of q p))"
proof (rule change_memory [where h = "update_first P (delivered_patch now r)", OF assms(1,2)])
  fix ms :: "queued list"
  assume "\<And>m. m \<in> set ms \<Longrightarrow> q_id m = None"
  then show "\<forall>m \<in> set (update_first P (delivered_patch now r) ms). q_id m = None"
    using set_update_first [of _ P "delivered_patch now r" ms] by (force simp: delivered_patch_def)
qed (simp_all add: update_first_strip [OF assms(3)] delivered_strip)

lemma take_memory:
  assumes "queue_wf q" "oq_db q = None" "blind P"
  shows "queue_wf (map_memory p (remove_first P) q) \<and>
    mailbox_of (map_memory p (remove_first P) q) = (mailbox_of q)(p := remove_first P (mailbox_of q p))"
proof (rule change_memory [where h = "remove_first P", OF assms(1,2)])
  fix ms :: "queued list"
  assume "\<And>m. m \<in> set ms \<Longrightarrow> q_id m = None"
  then show "\<forall>m \<in> set (remove_first P ms). q_id m = None" using set_remove_first [of P ms] by auto
qed (simp_all add: remove_first_strip [OF assms(3)])

lemma mark_db:
  assumes "queue_wf q" "oq_db q = Some db" "blind P" "find P (getQueuedMessages p db) = Some m" "q_id m = Some i"
  shows "queue_wf (map_db (updateQueuedMessage i (delivered_patch now r)) q) \<and>
    mailbox_of (map_db (updateQueuedMessage i (delivered_patch now r)) q) =
      (mailbox_of q)(p := update_first P (delivered_patch now r) (mailbox_of q p))"
proof -
  note db = queue_wf_db [OF assms(1,2)]
  have f: "q_id (delivered_patch now r m) = q_id m \<and> q_targetPeerId (delivered_patch now r m) = q_targetPeerId m" for m
    by (simp add: delivered_patch_def)
  have "outbox_inv (updateQueuedMessage i (delivered_patch now r) db)"
    using db outbox.update_inv [OF _ f] by blast
  moreover have "getQueuedMessages p' (updateQueuedMessage i (delivered_patch now r) db) =
      (if p' = p then update_first P (delivered_patch now r) (getQueuedMessages p db) else getQueuedMessages p' db)" for p'
    using db by (simp add: outbox.update_found [OF _ assms(4,5) f])
  ultimately show ?thesis
    using db by (auto simp: queue_wf_def mailbox_of_def listQueued_def map_db_def assms(2) fun_eq_iff
        update_first_strip [OF assms(3)] delivered_strip)
qed

lemma filter_update_has_id:
  "(\<And>m. q_id (f m) = q_id m) \<Longrightarrow> filter (\<lambda>m. \<not> has_id i m) (update_first (has_id i) f xs) = filter (\<lambda>m. \<not> has_id i m) xs"
  by (induction xs) (auto simp: has_id_def)

lemma take_db:
  assumes "queue_wf q" "oq_db q = Some db" "blind P" "find P (getQueuedMessages p db) = Some m" "q_id m = Some i"
  shows "queue_wf (acknowledge_row now p i r q) \<and>
    mailbox_of (acknowledge_row now p i r q) = (mailbox_of q)(p := remove_first P (mailbox_of q p))"
proof -
  note db = queue_wf_db [OF assms(1,2)]
  define f where "f = acknowledged_patch now r"
  have f: "q_id (f m) = q_id m \<and> q_targetPeerId (f m) = q_targetPeerId m" for m
    by (simp add: acknowledged_patch_def f_def)
  have inv: "outbox_inv (updateQueuedMessage i f db)" using db outbox.update_inv [OF _ f] by blast
  have "getQueuedMessages p' (dequeueMessage i (updateQueuedMessage i f db)) = getQueuedMessages p' (dequeueMessage i db)" for p'
    using db f by (simp add: outbox.remove_load [OF inv] outbox.remove_load outbox.update_load [OF _ f] filter_update_has_id)
  with outbox.remove_found [OF _ assms(4,5)] db
  have load: "getQueuedMessages p' (dequeueMessage i (updateQueuedMessage i f db)) =
      (if p' = p then remove_first P (getQueuedMessages p db) else getQueuedMessages p' db)" for p'
    by simp
  have row: "acknowledge_row now p i r q = q\<lparr>oq_db := Some (dequeueMessage i (updateQueuedMessage i f db))\<rparr>"
    using db assms(2) by (simp add: acknowledge_row_def remove_by_id_def map_db_def f_def)
  show ?thesis
    unfolding row using db load outbox.remove_inv [OF inv]
    by (auto simp: queue_wf_def mailbox_of_def listQueued_def assms(2) remove_first_strip [OF assms(3)])
qed

text \<open>Each marking call marks and each acknowledging call takes the first message it looks for.\<close>

definition marks :: "(queued \<Rightarrow> bool) \<Rightarrow> time \<Rightarrow> string \<Rightarrow> delivery_receipt option \<Rightarrow> offline_queue \<Rightarrow> bool \<times> offline_queue \<Rightarrow> bool" where
  "marks P now p r q out \<longleftrightarrow> queue_wf (snd out) \<and> oq_maxAgeMs (snd out) = oq_maxAgeMs q \<and>
     box_mark P now p r (mailbox_of q) = (Answer (fst out), mailbox_of (snd out))"

definition takes :: "(queued \<Rightarrow> bool) \<Rightarrow> string \<Rightarrow> offline_queue \<Rightarrow> bool \<times> offline_queue \<Rightarrow> bool" where
  "takes P p q out \<longleftrightarrow> queue_wf (snd out) \<and> oq_maxAgeMs (snd out) = oq_maxAgeMs q \<and>
     box_take P p (mailbox_of q) = (Answer (fst out), mailbox_of (snd out))"

lemma listed: "mailbox_of q p = map strip (listQueued p q)"
  by (simp add: mailbox_of_def)

lemma box_find: "blind P \<Longrightarrow> find P (mailbox_of q p) = map_option strip (find P (listQueued p q))"
  by (simp add: listed find_strip)

lemma marks_unfound: "queue_wf q \<Longrightarrow> blind P \<Longrightarrow> find P (listQueued p q) = None \<Longrightarrow> marks P now p r q (False, q)"
  by (simp add: marks_def box_mark_def box_find update_first_unfound)

lemma takes_unfound: "queue_wf q \<Longrightarrow> blind P \<Longrightarrow> find P (listQueued p q) = None \<Longrightarrow> takes P p q (False, q)"
  by (simp add: takes_def box_take_def box_find remove_first_none)

lemma map_db_other [simp]: "oq_maxAgeMs (map_db f q) = oq_maxAgeMs q" "oq_memory (map_db f q) = oq_memory q"
  by (simp_all add: map_db_def)

lemma marks_memory:
  "queue_wf q \<Longrightarrow> oq_db q = None \<Longrightarrow> blind P \<Longrightarrow>
    marks P now p r q (find P (memory_of p q) \<noteq> None, map_memory p (update_first P (delivered_patch now r)) q)"
  using mark_memory [of q P p now r] by (simp add: marks_def box_mark_def box_find listQueued_def)

lemma takes_memory:
  "queue_wf q \<Longrightarrow> oq_db q = None \<Longrightarrow> blind P \<Longrightarrow>
    takes P p q (find P (memory_of p q) \<noteq> None, map_memory p (remove_first P) q)"
  using take_memory [of q P p] by (simp add: takes_def box_take_def box_find listQueued_def)

lemma marks_db:
  "queue_wf q \<Longrightarrow> oq_db q = Some db \<Longrightarrow> blind P \<Longrightarrow> find P (getQueuedMessages p db) = Some m \<Longrightarrow> q_id m = Some i \<Longrightarrow>
    marks P now p r q (True, map_db (updateQueuedMessage i (delivered_patch now r)) q)"
  using mark_db [of q db P p m i now r] by (simp add: marks_def box_mark_def box_find listQueued_def)

lemma acknowledge_row_age: "oq_maxAgeMs (acknowledge_row now p i r q) = oq_maxAgeMs q"
  by (simp add: acknowledge_row_def remove_by_id_def)

lemma takes_db:
  "queue_wf q \<Longrightarrow> oq_db q = Some db \<Longrightarrow> blind P \<Longrightarrow> find P (getQueuedMessages p db) = Some m \<Longrightarrow> q_id m = Some i \<Longrightarrow>
    takes P p q (True, acknowledge_row now p i r q)"
  using take_db [of q db P p m i now r]
  by (simp add: takes_def box_take_def box_find listQueued_def acknowledge_row_age)


text \<open>In memory no message has a key, in the outbox every message has one.\<close>

lemma found_key:
  assumes "queue_wf q" "find P (listQueued p q) = Some m"
  obtains (mem) "oq_db q = None" "q_id m = None"
    | (db) db i where "oq_db q = Some db" "find P (getQueuedMessages p db) = Some m" "q_id m = Some i"
proof (cases "oq_db q")
  case None
  with assms(2) find_Some_in [of P "memory_of p q" m] queue_wf_memory [OF assms(1) None, of m p] mem show ?thesis
    by (simp add: listQueued_def)
next
  case (Some x)
  then have "find P (getQueuedMessages p x) = Some m" using assms(2) by (simp add: listQueued_def)
  moreover from this obtain i where "q_id m = Some i"
    using outbox.find_has_id queue_wf_db [OF assms(1) Some] by blast
  ultimately show ?thesis using db Some by blast
qed

lemma unfound_memory:
  assumes "queue_wf q" "find P (listQueued p q) = None"
  shows "find P (memory_of p q) = None" "map_memory p (update_first P f) q = q" "map_memory p (remove_first P) q = q"
proof -
  show none: "find P (memory_of p q) = None"
  proof (cases "oq_db q")
    case (Some db)
    with queue_wf_db [OF assms(1)] show ?thesis by (simp add: memory_of_def jm_get_or_def)
  qed (use assms(2) in \<open>simp add: listQueued_def\<close>)
  have set_same: "jm_get m p = Some ms \<Longrightarrow> jm_set p ms m = m" for m :: "(string, queued list) jsmap" and ms
    by (induction m) (auto simp: jm_set_def split: if_splits)
  show "map_memory p (update_first P f) q = q" "map_memory p (remove_first P) q = q"
    using none by (auto simp: map_memory_def memory_of_def jm_get_or_def update_first_unfound remove_first_none set_same
        split: option.splits)
qed

lemma markDeliveredEnvelope_marks:
  assumes "queue_wf q"
  shows "marks (is_envelope e) now p r q (markDeliveredEnvelope now p e r q)"
proof (cases "find (is_envelope e) (listQueued p q)")
  case None
  with unfound_memory [OF assms None] show ?thesis
    by (simp add: markDeliveredEnvelope_def marks_unfound assms blind_is_envelope)
next
  case (Some m)
  from assms Some show ?thesis
  proof (cases rule: found_key)
    case mem
    with marks_memory [OF assms mem(1) blind_is_envelope] Some show ?thesis by (simp add: markDeliveredEnvelope_def)
  next
    case (db db i)
    with marks_db [OF assms db(1) blind_is_envelope db(2,3)] Some show ?thesis by (simp add: markDeliveredEnvelope_def)
  qed
qed

lemma acknowledgeEnvelope_takes:
  assumes "queue_wf q"
  shows "takes (is_envelope e) p q (acknowledgeEnvelope now p e r q)"
proof (cases "find (is_envelope e) (listQueued p q)")
  case None
  with unfound_memory [OF assms None] show ?thesis
    by (simp add: acknowledgeEnvelope_def takes_unfound assms blind_is_envelope)
next
  case (Some m)
  from assms Some show ?thesis
  proof (cases rule: found_key)
    case mem
    with takes_memory [OF assms mem(1) blind_is_envelope] Some show ?thesis by (simp add: acknowledgeEnvelope_def)
  next
    case (db db i)
    with takes_db [OF assms db(1) blind_is_envelope db(2,3)] Some show ?thesis by (simp add: acknowledgeEnvelope_def)
  qed
qed

lemma by_message_box:
  "by_message i (mailbox_of q p) = by_message i (listQueued p q)"
  by (simp add: by_message_def box_find blind_matches strip_def split: option.split)

lemma by_message_found:
  "find (matchesMessageId i) ms = Some m \<Longrightarrow> by_message i ms =
    (if truthy_string (q_envelopeId m) \<noteq> None then is_envelope (the (q_envelopeId m)) else matchesMessageId i)"
  by (simp add: by_message_def)

lemma acknowledgeByMessageId_takes:
  assumes "queue_wf q"
  shows "takes (by_message i (listQueued p q)) p q (acknowledgeByMessageId now p i r q)"
proof (cases "find (matchesMessageId i) (listQueued p q)")
  case None
  with unfound_memory [OF assms None] show ?thesis
    by (simp add: acknowledgeByMessageId_def by_message_def takes_unfound assms blind_matches)
next
  case (Some m)
  show ?thesis
  proof (cases "truthy_string (q_envelopeId m) \<noteq> None")
    case True
    with Some acknowledgeEnvelope_takes [OF assms] show ?thesis by (simp add: acknowledgeByMessageId_def by_message_def)
  next
    case False
    from assms Some show ?thesis
    proof (cases rule: found_key)
      case mem
      with takes_memory [OF assms mem(1) blind_matches] Some False show ?thesis
        by (simp add: acknowledgeByMessageId_def by_message_def)
    next
      case (db db i)
      with takes_db [OF assms db(1) blind_matches db(2,3)] Some False show ?thesis
        by (simp add: acknowledgeByMessageId_def by_message_def)
    qed
  qed
qed

lemma markDeliveredByMessageId_marks:
  assumes "queue_wf q"
  shows "marks (by_message i (listQueued p q)) now p r q (markDeliveredByMessageId now p i r q)"
proof (cases "find (matchesMessageId i) (listQueued p q)")
  case None
  with unfound_memory [OF assms None] show ?thesis
    by (simp add: markDeliveredByMessageId_def by_message_def marks_unfound assms blind_matches)
next
  case (Some m)
  show ?thesis
  proof (cases "truthy_string (q_envelopeId m) \<noteq> None")
    case True
    with Some markDeliveredEnvelope_marks [OF assms] show ?thesis by (simp add: markDeliveredByMessageId_def by_message_def)
  next
    case False
    from assms Some show ?thesis
    proof (cases rule: found_key)
      case mem
      with marks_memory [OF assms mem(1) blind_matches] Some False show ?thesis
        by (simp add: markDeliveredByMessageId_def by_message_def)
    next
      case (db db i)
      with marks_db [OF assms db(1) blind_matches db(2,3)] Some False show ?thesis
        by (simp add: markDeliveredByMessageId_def by_message_def)
    qed
  qed
qed

lemma applyReceipt_box:
  assumes "queue_wf q"
  shows "queue_wf (snd (applyReceipt now p r q)) \<and> oq_maxAgeMs (snd (applyReceipt now p r q)) = oq_maxAgeMs q \<and>
    box_step age (now, ApplyReceipt p r) (mailbox_of q) =
      (Answer (fst (applyReceipt now p r q)), mailbox_of (snd (applyReceipt now p r q)))"
proof -
  note rules = markDeliveredEnvelope_marks [OF assms, of "the (dv_envelopeId r)" now p "Some r"]
    acknowledgeEnvelope_takes [OF assms, of "the (dv_envelopeId r)" p now "Some r"]
    markDeliveredByMessageId_marks [OF assms, of "dv_opId r" p now "Some r"]
    acknowledgeByMessageId_takes [OF assms, of "dv_opId r" p now "Some r"]
  consider "dv_kind r = StoredKind \<or> dv_kind r = DeliveredKind" "truthy_string (dv_envelopeId r) \<noteq> None"
    | "dv_kind r = StoredKind \<or> dv_kind r = DeliveredKind" "truthy_string (dv_envelopeId r) = None"
    | "\<not> (dv_kind r = StoredKind \<or> dv_kind r = DeliveredKind)" "truthy_string (dv_envelopeId r) \<noteq> None"
    | "\<not> (dv_kind r = StoredKind \<or> dv_kind r = DeliveredKind)" "truthy_string (dv_envelopeId r) = None" by blast
  then show ?thesis
    by cases (use rules in \<open>simp_all add: applyReceipt_def Let_def by_message_box marks_def takes_def\<close>)
qed


lemma enqueue_box:
  assumes "queue_wf q"
  shows "queue_wf (enqueue now p data meta q) \<and> oq_maxAgeMs (enqueue now p data meta q) = oq_maxAgeMs q \<and>
    mailbox_of (enqueue now p data meta q) = (mailbox_of q)(p := mailbox_of q p @ [strip (make_queued now p data meta)])"
proof -
  define msg where "msg = make_queued now p data meta"
  have msg: "q_id msg = None" "q_targetPeerId msg = p" by (simp_all add: msg_def make_queued_def)
  show ?thesis
  proof (cases "oq_db q")
    case None
    then have e: "enqueue now p data meta q = q\<lparr>oq_memory := jm_set p (memory_of p q @ [msg]) (oq_memory q)\<rparr>"
      by (simp add: enqueue_def msg_def)
    have mem: "memory_of p' (enqueue now p data meta q) = (if p' = p then memory_of p q @ [msg] else memory_of p' q)" for p'
      by (simp add: e memory_of_def jm_get_or_def js_map)
    with None queue_wf_memory [OF assms None] msg have "queue_wf (enqueue now p data meta q)"
      by (auto simp: queue_wf_def e)
    moreover have "mailbox_of (enqueue now p data meta q) = (mailbox_of q)(p := mailbox_of q p @ [strip msg])"
      using None mem by (auto simp: mailbox_of_def listQueued_def e fun_eq_iff)
    ultimately show ?thesis by (simp add: e msg_def)
  next
    case (Some db)
    note db = queue_wf_db [OF assms Some]
    have e: "enqueue now p data meta q = q\<lparr>oq_db := Some (enqueueMessage msg db)\<rparr>"
      using Some by (simp add: enqueue_def map_db_def msg_def)
    have "map strip (getQueuedMessages p' (enqueueMessage msg db)) =
        (if p' = p then map strip (getQueuedMessages p db) @ [strip msg] else map strip (getQueuedMessages p' db))" for p'
      using outbox.save_load [of db msg p'] db msg by (auto simp: strip_def)
    with Some db outbox.save_inv [of db msg] msg show ?thesis
      by (auto simp: e queue_wf_def mailbox_of_def listQueued_def fun_eq_iff msg_def [symmetric])
  qed
qed

lemma flush_box:
  assumes "queue_wf q"
  shows "queue_wf (snd (flush now p q)) \<and> oq_maxAgeMs (snd (flush now p q)) = oq_maxAgeMs q \<and>
    mailbox_of (snd (flush now p q)) = (mailbox_of q)(p := []) \<and>
    fst (flush now p q) = map q_data (filter (\<lambda>m. \<not> isExpired now m q) (mailbox_of q p))"
proof -
  have expired: "isExpired now (strip m) q = isExpired now m q" "q_data (strip m) = q_data m" for m
    by (simp_all add: isExpired_def strip_def)
  show ?thesis
  proof (cases "oq_db q")
    case None
    then have f: "flush now p q = (map q_data (filter (\<lambda>m. \<not> isExpired now m q) (memory_of p q)),
        q\<lparr>oq_memory := jm_delete p (oq_memory q)\<rparr>)" by (simp add: flush_def)
    have mem: "memory_of p' (snd (flush now p q)) = (if p' = p then [] else memory_of p' q)" for p'
      by (simp add: f memory_of_def jm_get_or_def js_map)
    with None queue_wf_memory [OF assms None] have "queue_wf (snd (flush now p q))" by (auto simp: queue_wf_def f)
    moreover have "mailbox_of (snd (flush now p q)) = (mailbox_of q)(p := [])"
      using None mem by (auto simp: mailbox_of_def listQueued_def f fun_eq_iff)
    moreover have "fst (flush now p q) = map q_data (filter (\<lambda>m. \<not> isExpired now m q) (mailbox_of q p))"
      using None by (simp add: f mailbox_of_def listQueued_def filter_map comp_def expired)
    ultimately show ?thesis by (simp add: f)
  next
    case (Some db)
    note db = queue_wf_db [OF assms Some]
    with Some outbox.removeAll_inv [of db p] outbox.removeAll_load [of db p] show ?thesis
      by (auto simp: flush_def queue_wf_def mailbox_of_def listQueued_def fun_eq_iff filter_map comp_def expired)
  qed
qed

lemma queue_step_box:
  assumes "queue_wf q" "oq_maxAgeMs q = age"
  shows "queue_wf (snd (queue_step c q)) \<and> oq_maxAgeMs (snd (queue_step c q)) = age \<and>
    box_step age c (mailbox_of q) = map_prod id mailbox_of (queue_step c q)"
proof -
  obtain now op where c: "c = (now, op)" by (cases c)
  show ?thesis
  proof (cases op)
    case (Flush p)
    with flush_box [OF assms(1), of now p] assms(2) show ?thesis
      by (simp add: c map_prod_def split_beta isExpired_def)
  next
    case (ApplyReceipt p r)
    with applyReceipt_box [OF assms(1), of now p r age] assms(2) show ?thesis
      by (simp add: c map_prod_def split_beta del: box_step.simps)
  next
    case (MarkDelivered p e r)
    with markDeliveredEnvelope_marks [OF assms(1), of e now p r] assms(2) show ?thesis
      by (simp add: c map_prod_def split_beta marks_def)
  next
    case (AckEnvelope p e r)
    with acknowledgeEnvelope_takes [OF assms(1), of e p now r] assms(2) show ?thesis
      by (simp add: c map_prod_def split_beta takes_def)
  next
    case (AckMessage p i r)
    with acknowledgeByMessageId_takes [OF assms(1), of i p now r] assms(2) show ?thesis
      by (simp add: c map_prod_def split_beta takes_def by_message_box)
  qed (use assms enqueue_box [OF assms(1)] in \<open>simp_all add: c enqueueEnvelope_def listed\<close>)
qed

interpretation queue: refinement queue_step "box_step age" mailbox_of "\<lambda>q. queue_wf q \<and> oq_maxAgeMs q = age" for age
  by unfold_locales (simp_all add: queue_step_box)

text \<open>
  Property C6. The offline queue is a mailbox per peer for the calls that enqueue, flush, mark delivered, acknowledge, apply receipts
  and list: however these are ordered, and whether the messages are kept in memory or in the persistent outbox,
  the queue answers every one of them as the mailbox does and ends with the mailbox's messages. The remaining calls
  (\<open>getQueued\<close>, \<open>remove\<close>, \<open>removeBatch\<close>, \<open>markAttempt\<close>, \<open>clear\<close>, \<open>getSyncSummary\<close>), in which
  the two modes differ or which look inside, are not among them.
\<close>

theorem queue_refines_mailbox:
  assumes "queue_wf q"
  shows "answers queue_step calls q = answers (box_step (oq_maxAgeMs q)) calls (mailbox_of q) \<and>
    mailbox_of (final_state queue_step calls q) = final_state (box_step (oq_maxAgeMs q)) calls (mailbox_of q)"
  using queue.run_answers [where age = "oq_maxAgeMs q" and s = q] queue.run_abs [where age = "oq_maxAgeMs q" and s = q] assms
  by simp_all

text \<open>
  Wiring up persistence changes no answer: a fresh queue in memory and a fresh queue over an empty
  persistent outbox, with the same configuration, answer every sequence of these calls alike.
\<close>

theorem persistence_is_transparent:
  "answers queue_step calls (new_queue maxRetries retryDelayMs maxAgeMs) =
   answers queue_step calls (setPersistence new_outbox (new_queue maxRetries retryDelayMs maxAgeMs))"
  by (rule queue.same_answers [where age = "get_or (7 * 24 * 60 * 60 * 1000) maxAgeMs"])
    (simp_all add: queue_wf_def new_queue_def setPersistence_def new_outbox_def outbox_inv_def memory_of_def
      jm_get_or_def mailbox_of_def listQueued_def getQueuedMessages_def fun_eq_iff)


subsection \<open>Delivery and retries\<close>

lemma remove_by_id_list:
  assumes "queue_wf q" "oq_db q = Some db"
  shows "queue_wf (remove_by_id p i q)" "oq_db (remove_by_id p i q) \<noteq> None"
    and "listQueued p' (remove_by_id p i q) = filter (\<lambda>m. \<not> has_id i m) (listQueued p' q)"
proof -
  note db = queue_wf_db [OF assms]
  have "remove_by_id p i q = q\<lparr>oq_db := Some (dequeueMessage i db)\<rparr>"
    using db assms(2) by (simp add: remove_by_id_def map_db_def)
  with db outbox.remove_inv [of db i] show "queue_wf (remove_by_id p i q)" "oq_db (remove_by_id p i q) \<noteq> None"
    "listQueued p' (remove_by_id p i q) = filter (\<lambda>m. \<not> has_id i m) (listQueued p' q)"
    by (simp_all add: queue_wf_def listQueued_def assms(2) outbox.remove_load)
qed

lemma fold_remove_dead:
  assumes "queue_wf q" "oq_db q \<noteq> None"
  shows "listQueued p' (fold (\<lambda>m s. case q_id m of None \<Rightarrow> s | Some i \<Rightarrow> if D m then remove_by_id p i s else s) ms q) =
    filter (\<lambda>m. \<forall>n \<in> set ms. \<not> (D n \<and> q_id n \<noteq> None \<and> q_id n = q_id m)) (listQueued p' q)"
  using assms
proof (induction ms arbitrary: q)
  case (Cons n ms)
  then obtain db where db: "oq_db q = Some db" by auto
  show ?case
  proof (cases "\<exists>i. q_id n = Some i \<and> D n")
    case True
    then obtain i where "q_id n = Some i" "D n" by blast
    with Cons remove_by_id_list [OF Cons.prems(1) db] show ?thesis
      by (auto simp: has_id_def intro!: filter_cong)
  next
    case False
    then have "(case q_id n of None \<Rightarrow> q | Some i \<Rightarrow> if D n then remove_by_id p i q else q) = q"
      by (auto split: option.split)
    with Cons False show ?thesis by (auto intro!: filter_cong)
  qed
qed simp

lemma getQueued_list: "queue_wf q \<Longrightarrow> getQueued now p q = filterDeliverable now p (listQueued p q) q"
  by (auto simp: getQueued_def listQueued_def Let_def memory_of_def jm_get_or_def dest: queue_wf_db split: option.split)

lemma getQueued_filters:
  assumes "queue_wf q"
  shows "fst (getQueued now p q) =
      filter (\<lambda>m. \<not> isExpired now m q \<and> q_attempts m < oq_maxRetries q \<and> getDueAt m q \<le> now) (listQueued p q) \<and>
    listQueued p' (snd (getQueued now p q)) =
      (if p' = p \<and> oq_db q \<noteq> None then filter (\<lambda>m. \<not> isExpired now m q \<and> q_attempts m < oq_maxRetries q) (listQueued p q)
       else listQueued p' q)"
proof
  show "fst (getQueued now p q) =
      filter (\<lambda>m. \<not> isExpired now m q \<and> q_attempts m < oq_maxRetries q \<and> getDueAt m q \<le> now) (listQueued p q)"
    by (auto simp: getQueued_list [OF assms] filterDeliverable_def dead_def intro!: filter_cong)
  show "listQueued p' (snd (getQueued now p q)) =
      (if p' = p \<and> oq_db q \<noteq> None then filter (\<lambda>m. \<not> isExpired now m q \<and> q_attempts m < oq_maxRetries q) (listQueued p q)
       else listQueued p' q)"
  proof (cases "oq_db q")
    case None
    then have "snd (getQueued now p q) = q"
      using queue_wf_memory [OF assms None]
      by (simp add: getQueued_list [OF assms] filterDeliverable_def listQueued_def) (rule fold_invariant [where P = "\<lambda>s. s = q" and Q = "\<lambda>m. q_id m = None"], auto)
    with None show ?thesis by simp
  next
    case (Some db)
    note db = queue_wf_db [OF assms Some]
    have "n = m" if "m \<in> set (listQueued p q)" "n \<in> set (listQueued p q)" "q_id n = q_id m" for m n
      using outbox.load_ids [of db p] db that Some by (auto simp: listQueued_def distinct_map inj_on_def)
    moreover have "q_id n \<noteq> q_id m"
      if "p' \<noteq> p" "m \<in> set (listQueued p' q)" "n \<in> set (listQueued p q)" for m n
      using outbox.load_disjoint [of db m p' n p] db that Some by (auto simp: listQueued_def)
    moreover have "q_id m \<noteq> None" if "m \<in> set (listQueued p q)" for m
      using outbox.load_ids [of db p] db that Some by (auto simp: listQueued_def)
    ultimately show ?thesis
      using fold_remove_dead [OF assms, where D = "dead now q" and p = p and p' = p' and ms = "listQueued p q"] Some
      by (auto simp: getQueued_list [OF assms] filterDeliverable_def dead_def not_le intro!: filter_cong filter_True)
  qed
qed


text \<open>
  \<open>getQueued\<close> answers with exactly the queued messages that are neither expired nor out of attempts and
  whose backoff is over, in queue order; in the outbox it leaves exactly the peer's messages that are still alive
  and every other peer's messages, in memory it removes nothing.
\<close>

theorem getQueued_correct:
  assumes "queue_wf q"
  shows "fst (getQueued now p q) =
      filter (\<lambda>m. \<not> isExpired now m q \<and> q_attempts m < oq_maxRetries q \<and> getDueAt m q \<le> now) (listQueued p q) \<and>
    listQueued p' (snd (getQueued now p q)) =
      (if p' = p \<and> oq_db q \<noteq> None then filter (\<lambda>m. \<not> isExpired now m q \<and> q_attempts m < oq_maxRetries q) (listQueued p q)
       else listQueued p' q)"
  by (rule getQueued_filters [OF assms])

lemma find_update_has_id:
  "(\<And>m. q_id (f m) = q_id m) \<Longrightarrow> find (has_id i) (update_first (has_id i) f xs) = map_option f (find (has_id i) xs)"
  by (induction xs) (auto simp: has_id_def)

lemma find_filtered_id: "find (has_id i) (filter (\<lambda>m. \<not> has_id i m) xs) = None"
  by (induction xs) auto

definition tried :: "nat \<Rightarrow> time \<Rightarrow> queued \<Rightarrow> queued" where
  "tried attempts now m = m\<lparr>q_attempts := attempts, q_lastAttempt := Some now\<rparr>"

text \<open>One attempt counts, and the last one removes the row.\<close>

lemma markAttempt_row:
  assumes "queue_wf q" "oq_db q = Some db"
  shows "queue_wf (markAttempt now p i q)" "oq_db (markAttempt now p i q) \<noteq> None"
    "oq_maxRetries (markAttempt now p i q) = oq_maxRetries q"
    "oq_retryDelayMs (markAttempt now p i q) = oq_retryDelayMs q"
    "find (has_id i) (listQueued p (markAttempt now p i q)) =
      (case find (has_id i) (listQueued p q) of None \<Rightarrow> None
       | Some m \<Rightarrow> if q_attempts m + 1 \<ge> oq_maxRetries q then None else Some (tried (q_attempts m + 1) now m))"
proof -
  note db = queue_wf_db [OF assms]
  define a where "a = (case find (has_id i) (getQueuedMessages p db) of None \<Rightarrow> 0 | Some m \<Rightarrow> q_attempts m) + 1"
  have f: "q_id (tried a now m) = q_id m \<and> q_targetPeerId (tried a now m) = q_targetPeerId m" for m
    by (simp add: tried_def)
  define db' where "db' = (if a \<ge> oq_maxRetries q then dequeueMessage i (updateQueuedMessage i (tried a now) db)
    else updateQueuedMessage i (tried a now) db)"
  have q': "markAttempt now p i q = q\<lparr>oq_db := Some db'\<rparr>"
    using assms(2) by (simp add: markAttempt_def Let_def a_def db'_def map_db_def tried_def [abs_def])
  have inv: "outbox_inv (updateQueuedMessage i (tried a now) db)" using db outbox.update_inv [OF _ f] by blast
  then have "outbox_inv db'" using outbox.remove_inv by (simp add: db'_def)
  with db q' show "queue_wf (markAttempt now p i q)" "oq_db (markAttempt now p i q) \<noteq> None"
    "oq_maxRetries (markAttempt now p i q) = oq_maxRetries q"
    "oq_retryDelayMs (markAttempt now p i q) = oq_retryDelayMs q"
    by (simp_all add: queue_wf_def)
  have "getQueuedMessages p db' = (if a \<ge> oq_maxRetries q
      then filter (\<lambda>m. \<not> has_id i m) (update_first (has_id i) (tried a now) (getQueuedMessages p db))
      else update_first (has_id i) (tried a now) (getQueuedMessages p db))"
    using db inv by (simp add: db'_def outbox.remove_load outbox.update_load [OF _ f])
  then show "find (has_id i) (listQueued p (markAttempt now p i q)) =
      (case find (has_id i) (listQueued p q) of None \<Rightarrow> None
       | Some m \<Rightarrow> if q_attempts m + 1 \<ge> oq_maxRetries q then None else Some (tried (q_attempts m + 1) now m))"
    using f by (auto simp: q' listQueued_def assms(2) find_filtered_id find_update_has_id a_def split: option.split)
qed

lemma attempts_run_out:
  assumes "queue_wf q" "oq_db q \<noteq> None" "nows \<noteq> []"
    and "\<And>m. find (has_id i) (listQueued p q) = Some m \<Longrightarrow> oq_maxRetries q \<le> q_attempts m + length nows"
  shows "find (has_id i) (listQueued p (fold (\<lambda>now. markAttempt now p i) nows q)) = None"
  using assms
proof (induction nows arbitrary: q)
  case (Cons now nows)
  then obtain db where db: "oq_db q = Some db" by auto
  note row = markAttempt_row [OF Cons.prems(1) db, where now = now and p = p and i = i]
  show ?case
  proof (cases "nows = []")
    case True
    with row(5) Cons.prems(4) show ?thesis by (auto split: option.split)
  next
    case False
    have "oq_maxRetries (markAttempt now p i q) \<le> q_attempts m + length nows"
      if "find (has_id i) (listQueued p (markAttempt now p i q)) = Some m" for m
      using that row(3,5) Cons.prems(4) by (auto simp: tried_def split: option.splits if_splits)
    with Cons.IH [OF row(1,2) False] show ?thesis by simp
  qed
qed simp

text \<open>
  Property C21. Delivery attempts end: with persistence, after as many failed attempts of a message as the retry limit,
  whenever they happen and whatever attempts were counted before, the message is in the peer's queue no more.
\<close>

theorem retries_end:
  assumes "queue_wf q" "oq_db q \<noteq> None" "nows \<noteq> []" "oq_maxRetries q \<le> length nows"
  shows "\<forall>m \<in> set (listQueued p (fold (\<lambda>now. markAttempt now p i) nows q)). q_id m \<noteq> Some i"
proof -
  have "find (has_id i) (listQueued p (fold (\<lambda>now. markAttempt now p i) nows q)) = None"
    using assms by (intro attempts_run_out) auto
  then show ?thesis by (auto simp: find_None_iff has_id_def)
qed

text \<open>
  Backoff: a message that \<open>getQueued\<close> hands out after a failed attempt has attempts left, and the attempt
  lies at least the exponentially grown delay, or a minute if that is less, in the past.
\<close>

theorem backoff_holds:
  assumes "queue_wf q" "oq_db q \<noteq> None"
    and "m \<in> set (fst (getQueued later p (markAttempt now p i q)))" "q_id m = Some i"
  shows "now + min (oq_retryDelayMs q * 2 ^ q_attempts m) 60000 \<le> later \<and> 1 \<le> q_attempts m \<and> q_attempts m < oq_maxRetries q"
proof -
  obtain db where db: "oq_db q = Some db" using assms(2) by auto
  note row = markAttempt_row [OF assms(1) db, where now = now and p = p and i = i]
  define s where "s = markAttempt now p i q"
  have m: "m \<in> set (listQueued p s)" "q_attempts m < oq_maxRetries q" "getDueAt m s \<le> later"
    using assms(3) row(1,3) by (auto simp: s_def getQueued_list filterDeliverable_def dead_def)
  obtain db' where db': "oq_db s = Some db'" using row(2) by (auto simp: s_def)
  have "outbox_inv db'" using queue_wf_db [OF row(1)] db' by (simp add: s_def)
  then have unique: "distinct (map q_id (listQueued p s))" using outbox.load_ids [of db' p] by (simp add: listQueued_def db')
  have "find (has_id i) (listQueued p s) = Some m"
  proof (cases "find (has_id i) (listQueued p s)")
    case None
    with m(1) assms(4) show ?thesis by (auto simp: find_None_iff has_id_def)
  next
    case (Some n)
    with find_Some_in [OF Some] m(1) assms(4) unique show ?thesis by (auto simp: has_id_def distinct_map inj_on_def)
  qed
  with row(5) obtain k where "m = tried (q_attempts k + 1) now k"
    by (auto simp: s_def split: option.splits if_splits)
  with m(2,3) row(4) show ?thesis by (simp add: getDueAt_def tried_def s_def)
qed

text \<open>
  Without persistence the queue forgets attempts: a queued message never has a key there, so counting an
  attempt or removing delivered messages by key changes nothing, and a message stays due until it expires.
\<close>

theorem memory_ignores_attempts:
  assumes "queue_wf q" "oq_db q = None"
  shows "markAttempt now p i q = q \<and> listQueued p' (removeBatch p ids q) = listQueued p' q"
proof -
  have none: "find (has_id j) (memory_of p q) = None" for j
    using queue_wf_memory [OF assms] by (auto simp: find_None_iff has_id_def)
  have "memory_of p' (map_memory p (remove_first (has_id j)) q) = memory_of p' q" for j
    by (simp add: memory_map remove_first_none [OF none])
  moreover have "filter (\<lambda>m. case q_id m of None \<Rightarrow> True | Some i \<Rightarrow> i \<notin> set ids) (memory_of p q) = memory_of p q"
    using queue_wf_memory [OF assms] by (auto simp: filter_id_conv)
  moreover have "map_db f q = q" for f using assms(2) by (simp add: map_db_def)
  ultimately show ?thesis
    using assms(2) none by (simp add: markAttempt_def listQueued_def removeBatch_def remove_by_id_def memory_map)
qed

subsection \<open>The summary\<close>

lemma summary_counts:
  defines "parts \<equiv> \<lambda>a. su_deliverableCount a + su_backingOffCount a + su_exhaustedCount a + su_expiredCount a + su_acknowledgedCount a"
  shows "parts (fold (\<lambda>m a. summarize_class now q m (summarize_seen m a)) ms a) = parts a + length ms \<and>
    su_totalEnvelopes (fold (\<lambda>m a. summarize_class now q m (summarize_seen m a)) ms a) = su_totalEnvelopes a \<and>
    su_deliverableCount (fold (\<lambda>m a. summarize_class now q m (summarize_seen m a)) ms a) = su_deliverableCount a +
      length (filter (\<lambda>m. q_deliveryState m \<noteq> Some Acknowledged \<and> \<not> dead now q m \<and> getDueAt m q \<le> now) ms)"
proof (induction ms arbitrary: a)
  case (Cons m ms)
  have seen: "parts (summarize_seen m a) = parts a" "su_totalEnvelopes (summarize_seen m a) = su_totalEnvelopes a"
    "su_deliverableCount (summarize_seen m a) = su_deliverableCount a"
    by (simp_all add: summarize_seen_def parts_def Let_def split: option.split)
  have counted: "parts (summarize_class now q m b) = parts b + 1 \<and> su_totalEnvelopes (summarize_class now q m b) = su_totalEnvelopes b \<and>
    su_deliverableCount (summarize_class now q m b) = su_deliverableCount b +
      (if q_deliveryState m \<noteq> Some Acknowledged \<and> \<not> dead now q m \<and> getDueAt m q \<le> now then 1 else 0)" for b
    by (simp add: summarize_class_def parts_def Let_def dead_def)
  show ?case using Cons.IH [of "summarize_class now q m (summarize_seen m a)"] by (simp add: seen counted)
qed simp

text \<open>
  The summary sent to other peers is consistent: its five classes add up to the total, and, where no
  message is kept in the acknowledged state, the deliverable count is the number of messages \<open>getQueued\<close> returns.
\<close>

theorem summary_adds_up:
  fixes now p q
  defines "s \<equiv> getSyncSummary now p q"
  assumes "queue_wf q" "\<forall>m \<in> set (listQueued p q). q_deliveryState m \<noteq> Some Acknowledged"
  shows "su_totalEnvelopes s = length (listQueued p q) \<and>
    su_deliverableCount s + su_backingOffCount s + su_exhaustedCount s + su_expiredCount s + su_acknowledgedCount s = su_totalEnvelopes s \<and>
    su_deliverableCount s = length (fst (getQueued now p q))"
  using assms(3) summary_counts [of now q "listQueued p q" "empty_summary p (length (listQueued p q))"]
  by (simp add: s_def getSyncSummary_def empty_summary_def getQueued_list [OF assms(2)] filterDeliverable_def cong: filter_cong)


subsection \<open>A concrete queue\<close>

definition demo_queue :: offline_queue where
  "demo_queue = enqueue 2000 ''bob'' (MessageData (Some ''m2'') None ''there'') (no_meta\<lparr>qm_opId := Some ''m2''\<rparr>)
     (enqueue 1000 ''bob'' (OtherData ''hi'') no_meta
       (setPersistence new_outbox (new_queue (Some 3) (Some 5000) (Some 100000))))"

definition memory_queue :: offline_queue where
  "memory_queue = enqueue 1000 ''bob'' (OtherData ''hi'') no_meta (new_queue (Some 3) None None)"

lemma fresh_wf: "queue_wf (setPersistence new_outbox (new_queue n d a))" "queue_wf (new_queue n d a)"
  by (simp_all add: queue_wf_def new_queue_def setPersistence_def new_outbox_def outbox_inv_def memory_of_def jm_get_or_def)

lemma demo_wf: "queue_wf demo_queue" "queue_wf memory_queue"
  using enqueue_box fresh_wf by (auto simp: demo_queue_def memory_queue_def)

lemmas queue_eval = demo_queue_def memory_queue_def enqueue_def new_queue_def setPersistence_def new_outbox_def make_queued_def
  no_meta_def truthy_string_def map_db_def enqueueMessage_def outbox_put_def listQueued_def getQueuedMessages_def
  memory_of_def jm_get_or_def jm_set_def has_id_def

lemma demo_db: "oq_db demo_queue \<noteq> None" "oq_maxRetries demo_queue = 3" "oq_retryDelayMs demo_queue = 5000"
  "oq_db memory_queue = None" "oq_maxAgeMs demo_queue = 100000"
  by (simp_all add: queue_eval)

lemma queue_refines_mailbox_witness:
  "answers queue_step [(3000, AckMessage ''bob'' ''m2'' None), (200000, Flush ''bob'')] demo_queue = [Answer True, Payloads []] \<and>
   answers queue_step [(3000, AckMessage ''bob'' ''m2'' None), (200000, Flush ''bob'')] demo_queue =
     answers (box_step 100000) [(3000, AckMessage ''bob'' ''m2'' None), (200000, Flush ''bob'')] (mailbox_of demo_queue)"
proof
  show "answers queue_step [(3000, AckMessage ''bob'' ''m2'' None), (200000, Flush ''bob'')] demo_queue =
     answers (box_step 100000) [(3000, AckMessage ''bob'' ''m2'' None), (200000, Flush ''bob'')] (mailbox_of demo_queue)"
    using queue_refines_mailbox [OF demo_wf(1)] by (simp only: demo_db)
  show "answers queue_step [(3000, AckMessage ''bob'' ''m2'' None), (200000, Flush ''bob'')] demo_queue = [Answer True, Payloads []]"
    by code_simp
qed

lemma getQueued_correct_witness:
  "map q_data (fst (getQueued 100000 ''bob'' demo_queue)) = [OtherData ''hi'', MessageData (Some ''m2'') None ''there''] \<and>
   listQueued ''bob'' (snd (getQueued 101500 ''bob'' demo_queue)) = tl (listQueued ''bob'' demo_queue)"
  using getQueued_correct [OF demo_wf(1), of 100000 "''bob''" "''bob''"] getQueued_correct [OF demo_wf(1), of 101500 "''bob''" "''bob''"]
  by (simp add: demo_db) (simp add: queue_eval isExpired_def getDueAt_def)

lemma retries_end_witness:
  "listQueued ''bob'' (fold (\<lambda>now. markAttempt now ''bob'' 1) [3000, 4000, 5000] demo_queue) = tl (listQueued ''bob'' demo_queue) \<and>
   list_all (\<lambda>m. q_id m \<noteq> Some 1) (listQueued ''bob'' (fold (\<lambda>now. markAttempt now ''bob'' 1) [3000, 4000, 5000] demo_queue))"
proof
  show "list_all (\<lambda>m. q_id m \<noteq> Some 1) (listQueued ''bob'' (fold (\<lambda>now. markAttempt now ''bob'' 1) [3000, 4000, 5000] demo_queue))"
    unfolding list_all_iff by (rule retries_end) (simp_all add: demo_wf demo_db)
qed code_simp

lemma backoff_holds_witness:
  "\<exists>m. m \<in> set (fst (getQueued 13000 ''bob'' (markAttempt 3000 ''bob'' 1 demo_queue))) \<and> q_id m = Some 1 \<and>
     3000 + min (5000 * 2 ^ q_attempts m) 60000 \<le> (13000 :: int)"
proof -
  have "find (has_id 1) (fst (getQueued 13000 ''bob'' (markAttempt 3000 ''bob'' 1 demo_queue))) \<noteq> None" by code_simp
  then obtain m where "find (has_id 1) (fst (getQueued 13000 ''bob'' (markAttempt 3000 ''bob'' 1 demo_queue))) = Some m" by auto
  then have m: "m \<in> set (fst (getQueued 13000 ''bob'' (markAttempt 3000 ''bob'' 1 demo_queue)))" "q_id m = Some 1"
    using find_Some_in [of "has_id 1" _ m] by (simp_all add: has_id_def)
  show ?thesis using backoff_holds [OF demo_wf(1) demo_db(1) m] m by (auto simp: demo_db)
qed

lemma memory_ignores_attempts_witness:
  "markAttempt 5000 ''bob'' 1 memory_queue = memory_queue \<and> length (listQueued ''bob'' (removeBatch ''bob'' [1] memory_queue)) = 1"
proof -
  have "length (listQueued ''bob'' memory_queue) = 1" by code_simp
  with memory_ignores_attempts [OF demo_wf(2) demo_db(4)] show ?thesis by simp
qed

lemma summary_adds_up_witness:
  "su_deliverableCount (getSyncSummary 101500 ''bob'' demo_queue) = 1 \<and> su_expiredCount (getSyncSummary 101500 ''bob'' demo_queue) = 1 \<and>
   su_deliverableCount (getSyncSummary 101500 ''bob'' demo_queue) = length (fst (getQueued 101500 ''bob'' demo_queue))"
proof -
  have "su_deliverableCount (getSyncSummary 101500 ''bob'' demo_queue) = 1" "su_expiredCount (getSyncSummary 101500 ''bob'' demo_queue) = 1"
    "\<forall>m \<in> set (listQueued ''bob'' demo_queue). q_deliveryState m \<noteq> Some Acknowledged"
    by code_simp+
  with summary_adds_up [OF demo_wf(1), of "''bob''" 101500] show ?thesis by simp
qed

end
