(* ===== verification/CustodyStore.thy ===== *)
theory CustodyStore
  imports OfflineQueue
begin

section \<open>Custody of envelopes for peers that are away (messages/CustodyStore.ts)\<close>

text \<open>
  A peer keeps encrypted envelopes for others. The class wraps an \<open>OfflineQueue\<close>: an envelope is
  queued once per recipient, and delivery receipts change the queue and go to a log per recipient, in
  memory and, when wired up, in the object store \<open>deliveryReceipts\<close> of \<open>storage/PersistentStore.ts\<close>.
  \<open>localeCompare\<close> is the argument \<open>lc\<close>, a fresh UUID the argument \<open>uuid\<close>.
\<close>

subsection \<open>State\<close>

type_synonym receipt_db = "(string, delivery_receipt) jsmap"

record custody =
  cu_queue :: offline_queue
  cu_log :: "(string, delivery_receipt list) jsmap"
  cu_db :: "receipt_db option"

definition new_custody :: "offline_queue \<Rightarrow> custody" where
  "new_custody q = \<lparr>cu_queue = q, cu_log = [], cu_db = None\<rparr>"

definition setReceiptPersistence :: "receipt_db \<Rightarrow> custody \<Rightarrow> custody" where
  "setReceiptPersistence db s = s\<lparr>cu_db := Some db\<rparr>"

definition makeDeliveryReceiptKey :: "string \<Rightarrow> string \<Rightarrow> string" where
  "makeDeliveryReceiptKey p i = p @ '':'' @ i"

definition saveDeliveryReceipt :: "delivery_receipt \<Rightarrow> receipt_db \<Rightarrow> receipt_db" where
  "saveDeliveryReceipt r db = jm_set (makeDeliveryReceiptKey (dv_recipientPeerId r) (dv_receiptId r)) r db"

definition receipt_cmp :: "(string \<Rightarrow> string \<Rightarrow> int) \<Rightarrow> delivery_receipt \<Rightarrow> delivery_receipt \<Rightarrow> int" where
  "receipt_cmp lc = cmp_then (cmp_by dv_timestamp num_cmp) (cmp_by dv_receiptId lc)"

definition getDeliveryReceipts :: "(string \<Rightarrow> string \<Rightarrow> int) \<Rightarrow> string \<Rightarrow> receipt_db \<Rightarrow> delivery_receipt list" where
  "getDeliveryReceipts lc p db = js_sort (receipt_cmp lc) (filter (\<lambda>r. dv_recipientPeerId r = p) (jm_values db))"

subsection \<open>Normal forms\<close>

record envelope_input =
  ei_opId :: string
  ei_recipientPeerIds :: "string list"
  ei_workspaceId :: string
  ei_channelId :: "string option"
  ei_threadId :: "string option"
  ei_domain :: "sync_domain option"
  ei_ciphertext :: string
  ei_contentHash :: "string option"
  ei_createdAt :: "time option"
  ei_expiresAt :: "time option"
  ei_ttlMs :: "int option"
  ei_custodyOwnerPeerId :: "string option"
  ei_replicationClass :: "replication_class option"
  ei_deliveryState :: "delivery_state option"
  ei_metadata :: "metadata option"
  ei_envelopeId :: "string option"

definition DEFAULT_TTL_MS :: int where
  "DEFAULT_TTL_MS = 7 * 24 * 60 * 60 * 1000"

definition normalizeEnvelope :: "time \<Rightarrow> string \<Rightarrow> envelope_input \<Rightarrow> envelope" where
  "normalizeEnvelope now uuid input =
     (let createdAt = get_or now (ei_createdAt input);
          expiresAt = get_or (createdAt + get_or DEFAULT_TTL_MS (ei_ttlMs input)) (ei_expiresAt input)
      in \<lparr>en_envelopeId = get_or uuid (ei_envelopeId input), en_opId = ei_opId input,
          en_recipientPeerIds = js_uniq (ei_recipientPeerIds input), en_workspaceId = ei_workspaceId input,
          en_channelId = truthy_string (ei_channelId input), en_threadId = truthy_string (ei_threadId input),
          en_domain = get_or ChannelMessageDomain (ei_domain input), en_ciphertext = ei_ciphertext input,
          en_contentHash = truthy_string (ei_contentHash input), en_createdAt = createdAt, en_expiresAt = expiresAt,
          en_custodyOwnerPeerId = truthy_string (ei_custodyOwnerPeerId input),
          en_replicationClass = get_or Standard (ei_replicationClass input),
          en_deliveryState = get_or Stored (ei_deliveryState input), en_metadata = ei_metadata input\<rparr>)"

definition normalizeReceipt :: "string \<Rightarrow> delivery_receipt \<Rightarrow> delivery_receipt" where
  "normalizeReceipt p r =
     (if dv_recipientPeerId r = p then r
      else r\<lparr>dv_recipientPeerId := p,
             dv_metadata := Some (jm_set ''originalRecipientPeerId'' (dv_recipientPeerId r) (get_or [] (dv_metadata r)))\<rparr>)"

text \<open>A payload other than an envelope lacks the fields of one.\<close>

fun isCustodyEnvelope :: "payload \<Rightarrow> bool" where
  "isCustodyEnvelope (EnvelopeData e) \<longleftrightarrow> en_envelopeId e \<noteq> [] \<and> en_opId e \<noteq> [] \<and> en_recipientPeerIds e \<noteq> [] \<and>
     list_all (\<lambda>p. p \<noteq> []) (en_recipientPeerIds e) \<and> en_workspaceId e \<noteq> []"
| "isCustodyEnvelope _ \<longleftrightarrow> False"

definition isEnvelopeExpired :: "time \<Rightarrow> envelope \<Rightarrow> bool" where
  "isEnvelopeExpired now e \<longleftrightarrow> now \<ge> en_expiresAt e"

fun active_envelope :: "time \<Rightarrow> payload \<Rightarrow> envelope option" where
  "active_envelope now (EnvelopeData e) =
     (if isCustodyEnvelope (EnvelopeData e) \<and> \<not> isEnvelopeExpired now e then Some e else None)"
| "active_envelope now _ = None"

definition active_envelopes :: "time \<Rightarrow> queued list \<Rightarrow> envelope list" where
  "active_envelopes now ms = List.map_filter (\<lambda>m. active_envelope now (q_data m)) ms"

subsection \<open>Operations\<close>

definition storeEnvelope :: "time \<Rightarrow> string \<Rightarrow> envelope_input \<Rightarrow> custody \<Rightarrow> envelope \<times> custody" where
  "storeEnvelope now uuid input s =
     (let e = normalizeEnvelope now uuid input
      in (e, s\<lparr>cu_queue := fold (\<lambda>p q. enqueueEnvelope now p e q) (en_recipientPeerIds e) (cu_queue s)\<rparr>))"

definition getPendingForRecipient :: "time \<Rightarrow> string \<Rightarrow> custody \<Rightarrow> envelope list \<times> custody" where
  "getPendingForRecipient now p s =
     (let (ms, q) = getQueued now p (cu_queue s) in (active_envelopes now ms, s\<lparr>cu_queue := q\<rparr>))"

definition listAllForRecipient :: "time \<Rightarrow> string \<Rightarrow> custody \<Rightarrow> envelope list" where
  "listAllForRecipient now p s = active_envelopes now (listQueued p (cu_queue s))"

definition recordReceipt :: "(string \<Rightarrow> string \<Rightarrow> int) \<Rightarrow> delivery_receipt \<Rightarrow> custody \<Rightarrow> custody" where
  "recordReceipt lc r s =
     (let p = dv_recipientPeerId r;
          existing = jm_get_or [] (cu_log s) p;
          s1 = (if \<exists>x \<in> set existing. dv_receiptId x = dv_receiptId r then s
                else s\<lparr>cu_log := jm_set p (js_sort (receipt_cmp lc) (existing @ [r])) (cu_log s)\<rparr>)
      in s1\<lparr>cu_db := map_option (saveDeliveryReceipt r) (cu_db s1)\<rparr>)"

definition record_if :: "(string \<Rightarrow> string \<Rightarrow> int) \<Rightarrow> delivery_receipt option \<Rightarrow> bool \<times> offline_queue \<Rightarrow> custody \<Rightarrow> bool \<times> custody" where
  "record_if lc r out s =
     (let s1 = s\<lparr>cu_queue := snd out\<rparr>
      in (fst out, case r of None \<Rightarrow> s1 | Some r \<Rightarrow> if fst out then recordReceipt lc r s1 else s1))"

definition markDelivered :: "(string \<Rightarrow> string \<Rightarrow> int) \<Rightarrow> time \<Rightarrow> string \<Rightarrow> string \<Rightarrow> delivery_receipt option \<Rightarrow> custody \<Rightarrow> bool \<times> custody" where
  "markDelivered lc now p e r s =
     (let n = map_option (normalizeReceipt p) r in record_if lc n (markDeliveredEnvelope now p e n (cu_queue s)) s)"

definition acknowledge :: "(string \<Rightarrow> string \<Rightarrow> int) \<Rightarrow> time \<Rightarrow> string \<Rightarrow> string \<Rightarrow> delivery_receipt option \<Rightarrow> custody \<Rightarrow> bool \<times> custody" where
  "acknowledge lc now p e r s =
     (let n = map_option (normalizeReceipt p) r in record_if lc n (acknowledgeEnvelope now p e n (cu_queue s)) s)"

definition apply_receipt :: "(string \<Rightarrow> string \<Rightarrow> int) \<Rightarrow> time \<Rightarrow> string \<Rightarrow> delivery_receipt \<Rightarrow> custody \<Rightarrow> bool \<times> custody" where
  "apply_receipt lc now p r s =
     (let n = normalizeReceipt p r in record_if lc (Some n) (applyReceipt now p n (cu_queue s)) s)"

definition getReceipts :: "(string \<Rightarrow> string \<Rightarrow> int) \<Rightarrow> string \<Rightarrow> custody \<Rightarrow> delivery_receipt list \<times> custody" where
  "getReceipts lc p s =
     (case cu_db s of
        Some db \<Rightarrow> (getDeliveryReceipts lc p db, s\<lparr>cu_log := jm_set p (getDeliveryReceipts lc p db) (cu_log s)\<rparr>)
      | None \<Rightarrow> (jm_get_or [] (cu_log s) p, s))"

subsection \<open>Summaries\<close>

record recipient_summary =
  rs_recipientPeerId :: string
  rs_count :: nat
  rs_envelopeIds :: "string list"
  rs_opIds :: "string list"
  rs_byDomain :: "(sync_domain, nat) jsmap"
  rs_minCreatedAt :: "time option"
  rs_maxCreatedAt :: "time option"
  rs_latestEnvelopeId :: "string option"

definition envelope_cmp :: "(string \<Rightarrow> string \<Rightarrow> int) \<Rightarrow> envelope \<Rightarrow> envelope \<Rightarrow> int" where
  "envelope_cmp lc = cmp_then (cmp_by en_createdAt num_cmp) (cmp_by en_envelopeId lc)"

definition buildRecipientSummary :: "(string \<Rightarrow> string \<Rightarrow> int) \<Rightarrow> time \<Rightarrow> string \<Rightarrow> custody \<Rightarrow> recipient_summary" where
  "buildRecipientSummary lc now p s =
     (let envelopes = listAllForRecipient now p s; sorted_envelopes = js_sort (envelope_cmp lc) envelopes
      in \<lparr>rs_recipientPeerId = p, rs_count = length envelopes, rs_envelopeIds = map en_envelopeId sorted_envelopes,
          rs_opIds = map en_opId sorted_envelopes,
          rs_byDomain = fold (\<lambda>e. count_key (Some (en_domain e))) envelopes [],
          rs_minCreatedAt = fold (\<lambda>e t. extreme min t (en_createdAt e)) envelopes None,
          rs_maxCreatedAt = fold (\<lambda>e t. extreme max t (en_createdAt e)) envelopes None,
          rs_latestEnvelopeId = (if length sorted_envelopes > 0 then Some (en_envelopeId (last sorted_envelopes)) else None)\<rparr>)"

definition buildSyncSummary :: "(string \<Rightarrow> string \<Rightarrow> int) \<Rightarrow> time \<Rightarrow> string \<Rightarrow> custody \<Rightarrow> sync_summary \<times> custody" where
  "buildSyncSummary lc now p s =
     (let qs = getSyncSummary now p (cu_queue s); (receipts, s1) = getReceipts lc p s
      in (qs\<lparr>su_pendingReceiptCount := max (su_pendingReceiptCount qs) (su_deliverableCount qs - length receipts),
             su_lastReceiptAt := (if length receipts > 0 then Some (dv_timestamp (last receipts)) else su_lastReceiptAt qs)\<rparr>, s1))"

text \<open>The ids only the local side has, and those only the remote side has.\<close>

definition reconcileRecipientSummary :: "(string \<Rightarrow> string \<Rightarrow> int) \<Rightarrow> time \<Rightarrow> string \<Rightarrow> string list \<Rightarrow> custody \<Rightarrow> string list \<times> string list" where
  "reconcileRecipientSummary lc now p remote s =
     (let here = js_uniq (rs_envelopeIds (buildRecipientSummary lc now p s)); there = js_uniq remote
      in (filter (\<lambda>i. i \<notin> set there) here, filter (\<lambda>i. i \<notin> set here) there))"


subsection \<open>An envelope stays in custody\<close>

text \<open>The calls of a session, each at its time.\<close>

datatype custody_call = StoreFor string envelope_input | PendingFor string
  | DeliveredTo string string "delivery_receipt option" | AckedBy string string "delivery_receipt option"
  | ReceiptOf string delivery_receipt | ReceiptsFor string

fun custody_step :: "(string \<Rightarrow> string \<Rightarrow> int) \<Rightarrow> time \<times> custody_call \<Rightarrow> custody \<Rightarrow> custody" where
  "custody_step lc (now, StoreFor uuid input) s = snd (storeEnvelope now uuid input s)"
| "custody_step lc (now, PendingFor p) s = snd (getPendingForRecipient now p s)"
| "custody_step lc (now, DeliveredTo p e r) s = snd (markDelivered lc now p e r s)"
| "custody_step lc (now, AckedBy p e r) s = snd (acknowledge lc now p e r s)"
| "custody_step lc (now, ReceiptOf p r) s = snd (apply_receipt lc now p r s)"
| "custody_step lc (now, ReceiptsFor p) s = snd (getReceipts lc p s)"

text \<open>Calls that do not release the envelope \<open>e\<close> for the peer \<open>p\<close>, made while it is alive.\<close>

fun spares :: "string \<Rightarrow> string \<Rightarrow> custody_call \<Rightarrow> bool" where
  "spares p e (AckedBy p' e' r) \<longleftrightarrow> p' \<noteq> p \<or> e' \<noteq> e"
| "spares p e (ReceiptOf p' r) \<longleftrightarrow> p' \<noteq> p \<or> dv_kind r = StoredKind \<or> dv_kind r = DeliveredKind \<or>
     (truthy_string (dv_envelopeId r) \<noteq> None \<and> dv_envelopeId r \<noteq> Some e)"
| "spares p e _ \<longleftrightarrow> True"

definition alive :: "envelope \<Rightarrow> int \<Rightarrow> time \<Rightarrow> bool" where
  "alive e maxAge now \<longleftrightarrow> now < en_expiresAt e \<and> now - en_createdAt e < maxAge"

definition holds :: "envelope \<Rightarrow> queued \<Rightarrow> bool" where
  "holds e m \<longleftrightarrow> q_data m = EnvelopeData e \<and> q_envelopeId m = Some (en_envelopeId e) \<and> q_createdAt m = en_createdAt e \<and>
     q_expiresAt m = Some (en_expiresAt e) \<and> q_attempts m = 0 \<and> get_or 0 (q_lastAttempt m) = 0"

definition kept :: "envelope \<Rightarrow> queued list \<Rightarrow> bool" where
  "kept e ms \<longleftrightarrow> (\<exists>m \<in> set ms. holds e m)"

lemma holds_strip [simp]: "holds e (strip m) = holds e m"
  by (simp add: holds_def strip_def get_or_def)

lemma kept_mailbox: "kept e (mailbox_of q p) \<longleftrightarrow> kept e (listQueued p q)"
  by (simp add: kept_def listed)

lemma kept_mark: "kept e ms \<Longrightarrow> kept e (update_first P (delivered_patch now r) ms)"
  by (induction ms) (auto simp: kept_def holds_def delivered_patch_def)

lemma kept_take: "kept e ms \<Longrightarrow> \<not> P m \<or> \<not> holds e m \<Longrightarrow> (\<And>m. holds e m \<Longrightarrow> \<not> P m) \<Longrightarrow> kept e (remove_first P ms)"
  by (induction ms) (auto simp: kept_def)

definition config :: "offline_queue \<Rightarrow> nat \<times> int \<times> int" where
  "config q = (oq_maxRetries q, oq_retryDelayMs q, oq_maxAgeMs q)"

lemma config_simps [simp]:
  "config (q\<lparr>oq_db := d\<rparr>) = config q" "config (q\<lparr>oq_memory := m\<rparr>) = config q" "config (map_db f q) = config q"
  "config (map_memory p g q) = config q" "config (remove_by_id p i q) = config q"
  by (simp_all add: config_def map_db_def map_memory_def remove_by_id_def split: option.split)

lemma config_ops [simp]:
  "config (enqueueEnvelope now p e q) = config q" "config (snd (markDeliveredEnvelope now p i r q)) = config q"
  "config (snd (acknowledgeEnvelope now p i r q)) = config q" "config (snd (getQueued now p q)) = config q"
proof -
  have "config (fold (\<lambda>m s. case q_id m of None \<Rightarrow> s | Some i \<Rightarrow> if D m then remove_by_id p i s else s) ms q) = config q" for D and ms :: "queued list"
    by (induction ms arbitrary: q) (auto split: option.split)
  then show "config (snd (getQueued now p q)) = config q"
    by (simp add: getQueued_def filterDeliverable_def Let_def)
  show "config (snd (markDeliveredEnvelope now p i r q)) = config q"
    by (auto simp: markDeliveredEnvelope_def split: option.split)
  show "config (snd (acknowledgeEnvelope now p i r q)) = config q"
    by (auto simp: acknowledgeEnvelope_def acknowledge_row_def split: option.split)
qed (simp add: enqueueEnvelope_def enqueue_def Let_def)

lemma config_applyReceipt [simp]: "config (snd (applyReceipt now p r q)) = config q"
proof -
  have "config (snd (acknowledgeByMessageId now p i (Some r) q)) = config q"
    "config (snd (markDeliveredByMessageId now p i (Some r) q)) = config q" for i
    by (auto simp: acknowledgeByMessageId_def markDeliveredByMessageId_def acknowledge_row_def split: option.split)
  then show ?thesis by (simp add: applyReceipt_def)
qed

lemma config_age: "config q = (n, d, a) \<Longrightarrow> oq_maxRetries q = n \<and> oq_retryDelayMs q = d \<and> oq_maxAgeMs q = a"
  by (simp add: config_def)

lemma getQueued_wf:
  assumes "queue_wf q"
  shows "queue_wf (snd (getQueued now p q))"
proof (cases "oq_db q")
  case None
  then have "fold (\<lambda>m s. case q_id m of None \<Rightarrow> s | Some i \<Rightarrow> if D m then remove_by_id p i s else s) (listQueued p q) q = q" for D :: "queued \<Rightarrow> bool"
    using queue_wf_memory [OF assms None]
    by (simp add: listQueued_def)
      (rule fold_invariant [where P = "\<lambda>s. s = q" and Q = "\<lambda>m. q_id m = None"], auto)
  with assms show ?thesis by (simp add: getQueued_list filterDeliverable_def)
next
  case (Some db)
  have "queue_wf s \<and> oq_db s \<noteq> None \<Longrightarrow> queue_wf (case q_id m of None \<Rightarrow> s | Some i \<Rightarrow> if D m then remove_by_id p i s else s) \<and>
      oq_db (case q_id m of None \<Rightarrow> s | Some i \<Rightarrow> if D m then remove_by_id p i s else s) \<noteq> None"
    for s and m :: queued and D
    using remove_by_id_list(1,2) by (fastforce split: option.split)
  then have "queue_wf (fold (\<lambda>m s. case q_id m of None \<Rightarrow> s | Some i \<Rightarrow> if D m then remove_by_id p i s else s) ms q) \<and>
      oq_db (fold (\<lambda>m s. case q_id m of None \<Rightarrow> s | Some i \<Rightarrow> if D m then remove_by_id p i s else s) ms q) \<noteq> None"
    for D and ms :: "queued list"
    using assms Some by (intro fold_invariant [where Q = "\<lambda>_. True" and P = "\<lambda>s. queue_wf s \<and> oq_db s \<noteq> None"]) auto
  with assms show ?thesis by (simp add: getQueued_list filterDeliverable_def)
qed

text \<open>What every queue operation of the custody store does to a kept envelope.\<close>

definition safe_for :: "string \<Rightarrow> envelope \<Rightarrow> offline_queue \<Rightarrow> offline_queue \<Rightarrow> bool" where
  "safe_for p e q q' \<longleftrightarrow> queue_wf q' \<and> config q' = config q \<and> (kept e (listQueued p q) \<longrightarrow> kept e (listQueued p q'))"

lemma safe_enqueue:
  assumes "queue_wf q"
  shows "safe_for p e q (enqueueEnvelope now p' e' q)"
proof -
  have "kept e (mailbox_of q p) \<Longrightarrow> kept e (mailbox_of (enqueueEnvelope now p' e' q) p)"
    using enqueue_box [OF assms] by (auto simp: enqueueEnvelope_def kept_def)
  with enqueue_box [OF assms] show ?thesis by (simp add: safe_for_def kept_mailbox) (simp add: enqueueEnvelope_def)
qed

lemma safe_store: "queue_wf q \<Longrightarrow> safe_for p e q (fold (\<lambda>p' q. enqueueEnvelope now p' e' q) ps q)"
proof (induction ps arbitrary: q)
  case (Cons p' ps)
  with safe_enqueue [OF Cons.prems, of p e now p' e'] show ?case by (auto simp: safe_for_def)
qed (simp add: safe_for_def)

lemma safe_marks:
  assumes "marks P now p' r q out" "config (snd out) = config q"
  shows "safe_for p e q (snd out)"
proof -
  have "mailbox_of (snd out) = (mailbox_of q)(p' := update_first P (delivered_patch now r) (mailbox_of q p'))"
    using assms(1) by (simp add: marks_def box_mark_def)
  with assms kept_mark [of e "mailbox_of q p" P now r] show ?thesis
    by (auto simp: safe_for_def marks_def kept_mailbox [symmetric])
qed

lemma safe_takes:
  assumes "takes P p' q out" "config (snd out) = config q" "p' \<noteq> p \<or> (\<forall>m. holds e m \<longrightarrow> \<not> P m)"
  shows "safe_for p e q (snd out)"
proof -
  have "kept e (mailbox_of q p) \<Longrightarrow> p' = p \<Longrightarrow> kept e (remove_first P (mailbox_of q p))"
    using assms(3) kept_take [of e "mailbox_of q p" P] by blast
  moreover have "mailbox_of (snd out) = (mailbox_of q)(p' := remove_first P (mailbox_of q p'))"
    using assms(1) by (simp add: takes_def box_take_def)
  ultimately show ?thesis using assms(1,2) by (auto simp: safe_for_def takes_def kept_mailbox [symmetric])
qed


lemma safe_getQueued:
  assumes "queue_wf q" "alive e (oq_maxAgeMs q) now" "oq_maxRetries q > 0"
  shows "safe_for p e q (snd (getQueued now p' q))"
proof -
  have "kept e (listQueued p q) \<Longrightarrow> kept e (listQueued p (snd (getQueued now p' q)))"
    using assms(2,3) conjunct2 [OF getQueued_filters [OF assms(1), of now p' p]]
    by (fastforce simp: kept_def holds_def alive_def isExpired_def)
  with getQueued_wf [OF assms(1)] show ?thesis by (simp add: safe_for_def)
qed

lemma safe_applyReceipt:
  assumes "queue_wf q" "dv_kind r = StoredKind \<or> dv_kind r = DeliveredKind \<or> p' \<noteq> p \<or>
    (truthy_string (dv_envelopeId r) \<noteq> None \<and> dv_envelopeId r \<noteq> Some (en_envelopeId e))"
  shows "safe_for p e q (snd (applyReceipt now p' r q))"
proof (cases "dv_kind r = StoredKind \<or> dv_kind r = DeliveredKind")
  case True
  then show ?thesis
    using safe_marks [OF markDeliveredEnvelope_marks [OF assms(1)]] safe_marks [OF markDeliveredByMessageId_marks [OF assms(1)]]
      config_applyReceipt [of now p' r q]
    by (auto simp: applyReceipt_def)
next
  case False
  show ?thesis
  proof (cases "truthy_string (dv_envelopeId r) = None")
    case True
    with False assms(2) have "p' \<noteq> p" by auto
    with False True safe_takes [OF acknowledgeByMessageId_takes [OF assms(1)]] config_applyReceipt [of now p' r q] show ?thesis
      by (simp add: applyReceipt_def)
  next
    case envelope: False
    with False assms(2) have "p' \<noteq> p \<or> (\<forall>m. holds e m \<longrightarrow> \<not> is_envelope (the (dv_envelopeId r)) m)"
      by (auto simp: is_envelope_def holds_def truthy_string_def split: if_splits)
    with False envelope safe_takes [OF acknowledgeEnvelope_takes [OF assms(1)]] config_applyReceipt [of now p' r q] show ?thesis
      by (simp add: applyReceipt_def)
  qed
qed

lemma record_if_queue [simp]: "cu_queue (snd (record_if lc r out s)) = snd out"
  by (simp add: record_if_def recordReceipt_def Let_def split: option.split)

lemma getReceipts_queue [simp]: "cu_queue (snd (getReceipts lc p s)) = cu_queue s"
  by (simp add: getReceipts_def split: option.split)

lemma normalizeReceipt_same: "dv_kind (normalizeReceipt p r) = dv_kind r" "dv_envelopeId (normalizeReceipt p r) = dv_envelopeId r"
  by (simp_all add: normalizeReceipt_def)

lemma custody_step_safe:
  assumes "queue_wf (cu_queue s)" "oq_maxRetries (cu_queue s) > 0" "spares p (en_envelopeId e) c"
    and "alive e (oq_maxAgeMs (cu_queue s)) now"
  shows "safe_for p e (cu_queue s) (cu_queue (custody_step lc (now, c) s))"
proof (cases c)
  case (PendingFor p')
  with safe_getQueued [OF assms(1,4,2)] show ?thesis by (simp add: getPendingForRecipient_def split_beta)
next
  case (DeliveredTo p' i r)
  with safe_marks [OF markDeliveredEnvelope_marks [OF assms(1)]] show ?thesis by (simp add: markDelivered_def Let_def)
next
  case (AckedBy p' i r)
  with assms(3) have "p' \<noteq> p \<or> (\<forall>m. holds e m \<longrightarrow> \<not> is_envelope i m)" by (auto simp: is_envelope_def holds_def)
  with safe_takes [OF acknowledgeEnvelope_takes [OF assms(1)]] AckedBy show ?thesis by (simp add: acknowledge_def Let_def)
next
  case (ReceiptOf p' r)
  have "safe_for p e (cu_queue s) (snd (applyReceipt now p' (normalizeReceipt p' r) (cu_queue s)))"
    using assms(1,3) ReceiptOf by (intro safe_applyReceipt) (auto simp: normalizeReceipt_same)
  with ReceiptOf show ?thesis by (simp add: apply_receipt_def Let_def)
qed (use safe_store [OF assms(1)] assms(1) in \<open>simp_all add: storeEnvelope_def Let_def\<close>, simp add: safe_for_def)

lemma custody_run_safe:
  assumes "queue_wf (cu_queue s)" "oq_maxRetries (cu_queue s) > 0" "kept e (listQueued p (cu_queue s))"
    and "\<forall>(t, c) \<in> set calls. spares p (en_envelopeId e) c \<and> alive e (oq_maxAgeMs (cu_queue s)) t"
  shows "safe_for p e (cu_queue s) (cu_queue (fold (custody_step lc) calls s))"
  using assms
proof (induction calls arbitrary: s)
  case (Cons x calls)
  obtain t c where x: "x = (t, c)" by (cases x)
  have step: "safe_for p e (cu_queue s) (cu_queue (custody_step lc x s))"
    using Cons.prems by (simp add: x custody_step_safe)
  then have "config (cu_queue (custody_step lc x s)) = config (cu_queue s)" by (simp add: safe_for_def)
  then have "oq_maxRetries (cu_queue (custody_step lc x s)) = oq_maxRetries (cu_queue s)"
    "oq_maxAgeMs (cu_queue (custody_step lc x s)) = oq_maxAgeMs (cu_queue s)" by (simp_all add: config_def)
  with Cons step show ?case by (simp add: safe_for_def)
qed (simp add: safe_for_def)

lemma fold_enqueue_keeps:
  assumes "queue_wf q" "p \<in> set ps" "en_envelopeId e \<noteq> []"
  shows "kept e (listQueued p (fold (\<lambda>p q. enqueueEnvelope now p e q) ps q))"
  using assms(1,2)
proof (induction ps arbitrary: q)
  case (Cons x ps)
  define q1 where "q1 = enqueueEnvelope now x e q"
  have q1: "queue_wf q1" using safe_enqueue [OF Cons.prems(1)] by (simp add: safe_for_def q1_def)
  show ?case
  proof (cases "x = p")
    case True
    have "holds e (make_queued now p (EnvelopeData e) (envelope_meta e))"
      using assms(3) by (simp add: holds_def make_queued_def envelope_meta_def no_meta_def truthy_string_def)
    then have "kept e (mailbox_of q1 p)"
      using True enqueue_box [OF Cons.prems(1), of now p "EnvelopeData e" "envelope_meta e"]
      by (simp add: kept_def q1_def enqueueEnvelope_def)
    with safe_store [OF q1, of p e now e ps] show ?thesis by (simp add: safe_for_def kept_mailbox q1_def [symmetric])
  next
    case False
    with Cons q1 show ?thesis by (simp add: q1_def [symmetric])
  qed
qed simp



subsection \<open>The receipt log\<close>

definition receipts_ok :: "(string \<Rightarrow> string \<Rightarrow> int) \<Rightarrow> string \<Rightarrow> delivery_receipt list \<Rightarrow> bool" where
  "receipts_ok lc p rs \<longleftrightarrow> distinct (map dv_receiptId rs) \<and> in_order (receipt_cmp lc) rs \<and> (\<forall>r \<in> set rs. dv_recipientPeerId r = p)"

definition receipt_db_ok :: "receipt_db \<Rightarrow> bool" where
  "receipt_db_ok db \<longleftrightarrow> wf_map db \<and> jm.every (\<lambda>k r. k = makeDeliveryReceiptKey (dv_recipientPeerId r) (dv_receiptId r)) db"

definition log_ok :: "(string \<Rightarrow> string \<Rightarrow> int) \<Rightarrow> custody \<Rightarrow> bool" where
  "log_ok lc s \<longleftrightarrow> jm.every (receipts_ok lc) (cu_log s) \<and> (case cu_db s of None \<Rightarrow> True | Some db \<Rightarrow> receipt_db_ok db)"

lemma receipt_comparator: "string_order lc \<Longrightarrow> comparator UNIV (receipt_cmp lc)"
  unfolding receipt_cmp_def by (intro comparators string_order.lc_comparator)

lemma receipts_ok_sort:
  assumes "string_order lc" "distinct (map dv_receiptId rs)" "\<forall>r \<in> set rs. dv_recipientPeerId r = p"
  shows "receipts_ok lc p (js_sort (receipt_cmp lc) rs)"
  using assms comparator.in_order_sort [OF receipt_comparator [OF assms(1)]] by (simp add: receipts_ok_def)

lemma getDeliveryReceipts_ok:
  assumes "string_order lc" "receipt_db_ok db"
  shows "receipts_ok lc p (getDeliveryReceipts lc p db)"
  unfolding getDeliveryReceipts_def
proof (rule receipts_ok_sort [OF assms(1)])
  have keys: "k = makeDeliveryReceiptKey (dv_recipientPeerId r) (dv_receiptId r)" if "(k, r) \<in> set db" for k r
    using assms(2) that by (auto simp: receipt_db_ok_def jm.every_def jm_get_iff)
  have d: "distinct (map fst db)" using assms(2) by (simp add: receipt_db_ok_def wf_map_def jm_keys_def)
  have "distinct (map dv_receiptId (map snd (filter (\<lambda>(k, r). dv_recipientPeerId r = p) db)))"
    unfolding distinct_map
  proof (intro conjI inj_onI)
    show "distinct (filter (\<lambda>(k, r). dv_recipientPeerId r = p) db)" using d by (simp add: distinct_map)
  next
    fix x y
    assume x: "x \<in> set (filter (\<lambda>(k, r). dv_recipientPeerId r = p) db)"
      and y: "y \<in> set (filter (\<lambda>(k, r). dv_recipientPeerId r = p) db)" and same: "snd x = snd y"
    obtain j r where xr: "x = (j, r)" by (cases x)
    obtain k where yr: "y = (k, r)" using same xr by (cases y) simp
    have "(j, r) \<in> set db" "(k, r) \<in> set db" using x y by (simp_all add: xr yr)
    then have "j = k" using keys by blast
    then show "x = y" by (simp add: xr yr)
  next
    fix a b
    assume "a \<in> set (map snd (filter (\<lambda>(k, r). dv_recipientPeerId r = p) db))"
      "b \<in> set (map snd (filter (\<lambda>(k, r). dv_recipientPeerId r = p) db))" "dv_receiptId a = dv_receiptId b"
    then obtain j k where jk: "(j, a) \<in> set db" "(k, b) \<in> set db" "dv_recipientPeerId a = p" "dv_recipientPeerId b = p"
      and same: "dv_receiptId a = dv_receiptId b" by auto
    have "j = k" using keys [OF jk(1)] keys [OF jk(2)] jk(3,4) same by simp
    with d jk show "a = b" by (auto dest: eq_key_imp_eq_value)
  qed
  moreover have "map snd (filter (\<lambda>(k, r). dv_recipientPeerId r = p) db) = filter (\<lambda>r. dv_recipientPeerId r = p) (jm_values db)"
    by (induction db) (auto simp: jm_values_def)
  ultimately show "distinct (map dv_receiptId (filter (\<lambda>r. dv_recipientPeerId r = p) (jm_values db)))" by simp
qed simp

lemma recordReceipt_ok:
  assumes "string_order lc" "log_ok lc s"
  shows "log_ok lc (recordReceipt lc r s)"
proof -
  define p where "p = dv_recipientPeerId r"
  define old where "old = jm_get_or [] (cu_log s) p"
  have old: "receipts_ok lc p old"
    using assms(2) by (auto simp: old_def jm_get_or_def log_ok_def receipts_ok_def jm.every_def split: option.split)
  have new: "receipts_ok lc p (js_sort (receipt_cmp lc) (old @ [r]))" if "\<not> (\<exists>x \<in> set old. dv_receiptId x = dv_receiptId r)"
    using old that by (intro receipts_ok_sort [OF assms(1)]) (auto simp: receipts_ok_def p_def)
  have db: "receipt_db_ok (saveDeliveryReceipt r db)" if "receipt_db_ok db" for db
    using that by (auto simp: receipt_db_ok_def saveDeliveryReceipt_def intro: jm.every_put)
  show ?thesis
  proof (cases "\<exists>x \<in> set old. dv_receiptId x = dv_receiptId r")
    case True
    with assms(2) db show ?thesis
      by (simp add: recordReceipt_def Let_def p_def [symmetric] old_def [symmetric] log_ok_def split: option.splits)
  next
    case False
    with assms(2) db new [OF False] show ?thesis
      by (simp add: recordReceipt_def Let_def p_def [symmetric] old_def [symmetric] log_ok_def jm.every_put split: option.splits)
  qed
qed

lemma log_ok_queue [simp]: "log_ok lc (s\<lparr>cu_queue := q\<rparr>) = log_ok lc s"
  by (simp add: log_ok_def)

lemma record_if_ok: "string_order lc \<Longrightarrow> log_ok lc s \<Longrightarrow> log_ok lc (snd (record_if lc r out s))"
  by (simp add: record_if_def Let_def recordReceipt_ok split: option.split)

lemma getReceipts_ok:
  assumes "string_order lc" "log_ok lc s"
  shows "log_ok lc (snd (getReceipts lc p s)) \<and> receipts_ok lc p (fst (getReceipts lc p s))"
proof (cases "cu_db s")
  case None
  with assms(2) show ?thesis
    by (auto simp: getReceipts_def jm_get_or_def log_ok_def receipts_ok_def jm.every_def split: option.split)
next
  case (Some db)
  with assms getDeliveryReceipts_ok [OF assms(1)] show ?thesis
    by (simp add: getReceipts_def log_ok_def jm.every_put)
qed

lemma custody_step_log:
  assumes "string_order lc" "log_ok lc s"
  shows "log_ok lc (custody_step lc c s)"
proof -
  obtain now op where c: "c = (now, op)" by (cases c)
  show ?thesis
    using assms record_if_ok [OF assms] getReceipts_ok [OF assms]
    by (cases op) (simp_all add: c storeEnvelope_def getPendingForRecipient_def markDelivered_def acknowledge_def
        apply_receipt_def Let_def split_beta)
qed

interpretation receipt_log: machine "custody_step lc" "\<lambda>c s. string_order lc" "log_ok lc" for lc
  by unfold_locales (rule custody_step_log)

lemma recorded: "string_order lc \<Longrightarrow> log_ok lc s \<Longrightarrow> dv_recipientPeerId r = p \<Longrightarrow>
  \<exists>x \<in> set (fst (getReceipts lc p (recordReceipt lc r s))). dv_receiptId x = dv_receiptId r"
proof (cases "cu_db s")
  case (Some db)
  assume "dv_recipientPeerId r = p" "log_ok lc s"
  then have "r \<in> set (filter (\<lambda>r. dv_recipientPeerId r = p) (jm_values (saveDeliveryReceipt r db)))"
    using jm_get_Some_in [of "saveDeliveryReceipt r db" "makeDeliveryReceiptKey p (dv_receiptId r)" r]
    by (force simp: saveDeliveryReceipt_def js_map jm_values_def)
  then have "r \<in> set (getDeliveryReceipts lc p (saveDeliveryReceipt r db))"
    unfolding getDeliveryReceipts_def by (metis mset_js_sort set_mset_mset)
  with Some show ?thesis by (auto simp: getReceipts_def recordReceipt_def Let_def)
next
  case None
  assume "dv_recipientPeerId r = p"
  have "r \<in> set (js_sort (receipt_cmp lc) (xs @ [r]))" for xs
    by (metis mset_js_sort set_mset_mset in_set_conv_decomp)
  with None \<open>dv_recipientPeerId r = p\<close> show ?thesis
    by (auto simp: getReceipts_def recordReceipt_def Let_def jm_get_or_def js_map)
qed

text \<open>
  The receipts of a recipient are a log: after any calls they are its own, each id occurs once, and they come
  in order of time; a receipt that was applied is among them, in memory and with persistence.
\<close>

theorem receipts_are_logged:
  assumes "string_order lc" "log_ok lc s"
  shows "receipts_ok lc p (fst (getReceipts lc p (fold (custody_step lc) calls s))) \<and>
    (fst (apply_receipt lc now p r (fold (custody_step lc) calls s)) \<longrightarrow>
      (\<exists>x \<in> set (fst (getReceipts lc p (snd (apply_receipt lc now p r (fold (custody_step lc) calls s))))).
         dv_receiptId x = dv_receiptId r))"
proof -
  define s' where "s' = fold (custody_step lc) calls s"
  have ok: "log_ok lc s'"
    unfolding s'_def using assms by (intro receipt_log.run_inv) (simp_all add: list_all_iff)
  have "dv_recipientPeerId (normalizeReceipt p r) = p" "dv_receiptId (normalizeReceipt p r) = dv_receiptId r"
    by (simp_all add: normalizeReceipt_def)
  with recorded [OF assms(1), of "s'\<lparr>cu_queue := snd (applyReceipt now p (normalizeReceipt p r) (cu_queue s'))\<rparr>"
      "normalizeReceipt p r" p] ok
  show ?thesis
    using getReceipts_ok [OF assms(1) ok, of p]
    by (simp add: s'_def [symmetric] apply_receipt_def record_if_def Let_def)
qed


subsection \<open>A concrete session\<close>

definition demo_input :: envelope_input where
  "demo_input = \<lparr>ei_opId = ''op1'', ei_recipientPeerIds = [''bob'', ''carol'', ''bob''], ei_workspaceId = ''w'', ei_channelId = Some ''general'',
     ei_threadId = None, ei_domain = None, ei_ciphertext = ''x'', ei_contentHash = None, ei_createdAt = None, ei_expiresAt = None,
     ei_ttlMs = Some 500000, ei_custodyOwnerPeerId = None, ei_replicationClass = None, ei_deliveryState = None, ei_metadata = None,
     ei_envelopeId = Some ''e1''\<rparr>"

definition demo_receipt :: delivery_receipt where
  "demo_receipt = \<lparr>dv_receiptId = ''r1'', dv_kind = AcknowledgedKind, dv_opId = ''op1'', dv_envelopeId = Some ''e1'',
     dv_recipientPeerId = ''carol'', dv_timestamp = 120000, dv_signature = None, dv_metadata = None\<rparr>"

definition demo_custody :: custody where
  "demo_custody = setReceiptPersistence [] (new_custody (setPersistence new_outbox (new_queue None None None)))"

lemma demo_custody_ok: "queue_wf (cu_queue demo_custody)" "log_ok lc demo_custody"
  "oq_maxRetries (cu_queue demo_custody) = 10" "oq_retryDelayMs (cu_queue demo_custody) = 5000"
  "oq_maxAgeMs (cu_queue demo_custody) = 604800000"
proof -
  have q: "cu_queue demo_custody = setPersistence new_outbox (new_queue None None None)"
    by (simp add: demo_custody_def setReceiptPersistence_def new_custody_def)
  show "queue_wf (cu_queue demo_custody)" unfolding q by (rule fresh_wf)
  show "oq_maxRetries (cu_queue demo_custody) = 10" "oq_retryDelayMs (cu_queue demo_custody) = 5000"
    "oq_maxAgeMs (cu_queue demo_custody) = 604800000" by (simp_all add: q setPersistence_def new_queue_def)
  show "log_ok lc demo_custody"
    by (simp add: demo_custody_def setReceiptPersistence_def new_custody_def log_ok_def receipt_db_ok_def jm.every_empty)
qed

definition demo_calls :: "(time \<times> custody_call) list" where
  "demo_calls = [(110000, PendingFor ''bob''), (120000, ReceiptOf ''carol'' demo_receipt), (130000, DeliveredTo ''bob'' ''e1'' None)]"


lemma receipts_are_logged_witness:
  "receipts_ok str_cmp ''carol'' (fst (getReceipts str_cmp ''carol'' (fold (custody_step str_cmp) demo_calls
     (custody_step str_cmp (100000, StoreFor ''u'' demo_input) demo_custody)))) \<and>
   map dv_receiptId (fst (getReceipts str_cmp ''carol'' (fold (custody_step str_cmp) demo_calls
     (custody_step str_cmp (100000, StoreFor ''u'' demo_input) demo_custody)))) = [''r1'']"
proof
  show "receipts_ok str_cmp ''carol'' (fst (getReceipts str_cmp ''carol'' (fold (custody_step str_cmp) demo_calls
     (custody_step str_cmp (100000, StoreFor ''u'' demo_input) demo_custody))))"
    using receipts_are_logged [OF js_order.string_order_axioms demo_custody_ok(2), of "''carol''"
        "(100000, StoreFor ''u'' demo_input) # demo_calls" 0 demo_receipt] by (simp only: fold_simps)
qed code_simp

end
