(* ===== verification/ManifestTypes.thy ===== *)
theory ManifestTypes
  imports WorkspaceTypes Json
begin

section \<open>Sync manifests and their stored form\<close>

text \<open>
  The records of \<open>sync/SyncManifest.ts\<close> and the functions of \<open>sync/ManifestStore.ts\<close> that read a state of
  unknown shape back into them. The code does not check the name of a domain or of an operation, so
  both are strings. A count computed with \<open>Number(...)\<close> may be \<open>NaN\<close>, which is \<open>None\<close>. The functions
  \<open>view_...\<close> give a record as the object that it is for \<open>JSON.parse\<close> or the database.
\<close>

subsection \<open>Records\<close>

record manifest_entry =
  me_domain :: string
  me_workspaceId :: string
  me_channelId :: "string option"
  me_version :: int
  me_itemCount :: "int option"
  me_checksum :: "string option"
  me_lastUpdatedAt :: time
  me_lastUpdatedBy :: string

record manifest_delta =
  md_domain :: string
  md_workspaceId :: string
  md_channelId :: "string option"
  md_version :: int
  md_baseVersion :: int
  md_opId :: string
  md_operation :: string
  md_subject :: string
  md_data :: "(string \<times> json) list"
  md_timestamp :: time
  md_author :: string

record snapshot_member =
  sm_peerId :: string
  sm_alias :: "string option"
  sm_role :: string
  sm_joinedAt :: time

record snapshot_channel =
  sc_id :: string
  sc_name :: string
  sc_type :: string
  sc_createdAt :: time
  sc_createdBy :: string

text \<open>What the four kinds of snapshot add to the common fields.\<close>

datatype snapshot_body =
    WorkspaceBody string "string option" "(string \<times> json) list option" int int
  | MembershipBody int "snapshot_member list"
  | ChannelBody int "snapshot_channel list"
  | MessageBody string int "string list" time time

record manifest_snapshot =
  sn_workspaceId :: string
  sn_version :: int
  sn_snapshotId :: string
  sn_basedOnVersion :: int
  sn_createdAt :: time
  sn_createdBy :: string
  sn_checksum :: "string option"
  sn_body :: snapshot_body

fun body_domain :: "snapshot_body \<Rightarrow> string" where
  "body_domain (WorkspaceBody n d p sv ds) = ''workspace-manifest''"
| "body_domain (MembershipBody n ms) = ''membership''"
| "body_domain (ChannelBody n cs) = ''channel-manifest''"
| "body_domain (MessageBody c n ids a b) = ''channel-message''"

fun body_channel :: "snapshot_body \<Rightarrow> string option" where
  "body_channel (MessageBody c n ids a b) = Some c"
| "body_channel _ = None"

definition sn_domain :: "manifest_snapshot \<Rightarrow> string" where
  "sn_domain s = body_domain (sn_body s)"

definition sn_channelId :: "manifest_snapshot \<Rightarrow> string option" where
  "sn_channelId s = body_channel (sn_body s)"

definition domainKey :: "string \<Rightarrow> string option \<Rightarrow> string" where
  "domainKey d c = (case truthy_string c of None \<Rightarrow> d | Some ch \<Rightarrow> d @ '':'' @ ch)"

definition entry_key :: "manifest_entry \<Rightarrow> string" where
  "entry_key e = domainKey (me_domain e) (me_channelId e)"

definition delta_key :: "manifest_delta \<Rightarrow> string" where
  "delta_key d = domainKey (md_domain d) (md_channelId d)"

definition snapshot_key :: "manifest_snapshot \<Rightarrow> string" where
  "snapshot_key s = domainKey (sn_domain s) (sn_channelId s)"

subsection \<open>Reading values of unknown shape\<close>

text \<open>A string field that must not be empty.\<close>

definition text_field :: "json \<Rightarrow> string \<Rightarrow> string option" where
  "text_field v k = truthy_string (str_field v k)"

definition workspace_field :: "json \<Rightarrow> string \<Rightarrow> string" where
  "workspace_field v fallback = get_or fallback (text_field v ''workspaceId'')"

fun isRecord :: "json \<Rightarrow> bool" where
  "isRecord (JObj fs) \<longleftrightarrow> True"
| "isRecord _ \<longleftrightarrow> False"

definition sanitizeVersionEntry :: "json \<Rightarrow> string \<Rightarrow> manifest_entry option" where
  "sanitizeVersionEntry v fallback =
     (case (text_field v ''domain'', num_field v ''version'', num_field v ''itemCount'', num_field v ''lastUpdatedAt'',
            text_field v ''lastUpdatedBy'') of
        (Some domain, Some version, Some itemCount, Some lastUpdatedAt, Some lastUpdatedBy) \<Rightarrow>
          if \<not> isRecord v \<or> workspace_field v fallback = [] then None
          else Some \<lparr>me_domain = domain, me_workspaceId = workspace_field v fallback, me_channelId = str_field v ''channelId'',
            me_version = version, me_itemCount = Some itemCount, me_checksum = str_field v ''checksum'',
            me_lastUpdatedAt = lastUpdatedAt, me_lastUpdatedBy = lastUpdatedBy\<rparr>
      | _ \<Rightarrow> None)"

definition sanitizeDelta :: "json \<Rightarrow> string \<Rightarrow> manifest_delta option" where
  "sanitizeDelta v fallback =
     (case (text_field v ''domain'', num_field v ''version'', num_field v ''baseVersion'', num_field v ''timestamp'') of
        (Some domain, Some version, Some baseVersion, Some timestamp) \<Rightarrow>
          (case (text_field v ''opId'', text_field v ''operation'', text_field v ''subject'', text_field v ''author'') of
             (Some opId, Some operation, Some subject, Some author) \<Rightarrow>
               if \<not> isRecord v \<or> workspace_field v fallback = [] then None
               else Some \<lparr>md_domain = domain, md_workspaceId = workspace_field v fallback, md_channelId = str_field v ''channelId'',
                 md_version = version, md_baseVersion = baseVersion, md_opId = opId, md_operation = operation,
                 md_subject = subject, md_data = get_or [] (obj_field v ''data''), md_timestamp = timestamp, md_author = author\<rparr>
           | _ \<Rightarrow> None)
      | _ \<Rightarrow> None)"

definition sanitize_member :: "json \<Rightarrow> snapshot_member option" where
  "sanitize_member v = (case str_field v ''peerId'' of None \<Rightarrow> None
     | Some p \<Rightarrow> Some \<lparr>sm_peerId = p, sm_alias = str_field v ''alias'',
         sm_role = (case str_field v ''role'' of Some r \<Rightarrow> if r \<in> {''owner'', ''admin'', ''member''} then r else ''member'' | None \<Rightarrow> ''member''),
         sm_joinedAt = get_or 0 (num_field v ''joinedAt'')\<rparr>)"

definition sanitize_channel :: "json \<Rightarrow> snapshot_channel option" where
  "sanitize_channel v = (case str_field v ''id'' of None \<Rightarrow> None
     | Some i \<Rightarrow> Some \<lparr>sc_id = i, sc_name = get_or i (str_field v ''name''), sc_type = get_or ''channel'' (str_field v ''type''),
         sc_createdAt = get_or 0 (num_field v ''createdAt''), sc_createdBy = get_or ''unknown'' (str_field v ''createdBy'')\<rparr>)"

definition sanitize_id :: "json \<Rightarrow> string option" where
  "sanitize_id v = (case v of JStr s \<Rightarrow> Some s | _ \<Rightarrow> None)"

definition sanitize_workspace_body :: "json \<Rightarrow> snapshot_body option" where
  "sanitize_workspace_body v =
     (case (str_field v ''name'', num_field v ''snapshotVersion'', num_field v ''deltasSince'') of
        (Some name, Some snapshotVersion, Some deltasSince) \<Rightarrow>
          Some (WorkspaceBody name (str_field v ''description'') (obj_field v ''policy'') snapshotVersion deltasSince)
      | _ \<Rightarrow> None)"

definition sanitize_membership_body :: "json \<Rightarrow> snapshot_body option" where
  "sanitize_membership_body v = (case (num_field v ''memberCount'', arr_field v ''members'') of
     (Some n, Some ms) \<Rightarrow> Some (MembershipBody n (List.map_filter sanitize_member ms)) | _ \<Rightarrow> None)"

definition sanitize_channel_body :: "json \<Rightarrow> snapshot_body option" where
  "sanitize_channel_body v = (case (num_field v ''channelCount'', arr_field v ''channels'') of
     (Some n, Some cs) \<Rightarrow> Some (ChannelBody n (List.map_filter sanitize_channel cs)) | _ \<Rightarrow> None)"

definition sanitize_message_body :: "json \<Rightarrow> snapshot_body option" where
  "sanitize_message_body v =
     (case (text_field v ''channelId'', num_field v ''messageCount'', num_field v ''minTimestamp'', num_field v ''maxTimestamp'',
            arr_field v ''messageIds'') of
        (Some c, Some n, Some a, Some b, Some ids) \<Rightarrow> Some (MessageBody c n (List.map_filter sanitize_id ids) a b)
      | _ \<Rightarrow> None)"

definition sanitize_body :: "string \<Rightarrow> json \<Rightarrow> snapshot_body option" where
  "sanitize_body domain v =
     (if domain = ''workspace-manifest'' then sanitize_workspace_body v
      else if domain = ''membership'' then sanitize_membership_body v
      else if domain = ''channel-manifest'' then sanitize_channel_body v
      else if domain = ''channel-message'' then sanitize_message_body v
      else None)"

definition sanitizeSnapshot :: "json \<Rightarrow> string \<Rightarrow> manifest_snapshot option" where
  "sanitizeSnapshot v fallback =
     (case (text_field v ''domain'', num_field v ''version'', num_field v ''basedOnVersion'', num_field v ''createdAt'',
            text_field v ''createdBy'', text_field v ''snapshotId'') of
        (Some domain, Some version, Some basedOnVersion, Some createdAt, Some createdBy, Some snapshotId) \<Rightarrow>
          if \<not> isRecord v \<or> workspace_field v fallback = [] then None
          else map_option (\<lambda>body. \<lparr>sn_workspaceId = workspace_field v fallback, sn_version = version, sn_snapshotId = snapshotId,
            sn_basedOnVersion = basedOnVersion, sn_createdAt = createdAt, sn_createdBy = createdBy,
            sn_checksum = str_field v ''checksum'', sn_body = body\<rparr>) (sanitize_body domain v)
      | _ \<Rightarrow> None)"

subsection \<open>Records as objects\<close>

definition view_entry :: "manifest_entry \<Rightarrow> json" where
  "view_entry e = JObj ([(''domain'', JStr (me_domain e)), (''workspaceId'', JStr (me_workspaceId e))]
     @ opt_field ''channelId'' JStr (me_channelId e)
     @ [(''version'', JNum (me_version e)), (''itemCount'', case me_itemCount e of None \<Rightarrow> JNull | Some n \<Rightarrow> JNum n)]
     @ opt_field ''checksum'' JStr (me_checksum e)
     @ [(''lastUpdatedAt'', JNum (me_lastUpdatedAt e)), (''lastUpdatedBy'', JStr (me_lastUpdatedBy e))])"

definition view_delta :: "manifest_delta \<Rightarrow> json" where
  "view_delta d = JObj ([(''domain'', JStr (md_domain d)), (''workspaceId'', JStr (md_workspaceId d))]
     @ opt_field ''channelId'' JStr (md_channelId d)
     @ [(''version'', JNum (md_version d)), (''baseVersion'', JNum (md_baseVersion d)), (''opId'', JStr (md_opId d)),
        (''operation'', JStr (md_operation d)), (''subject'', JStr (md_subject d)), (''data'', JObj (md_data d)),
        (''timestamp'', JNum (md_timestamp d)), (''author'', JStr (md_author d))])"

definition view_member :: "snapshot_member \<Rightarrow> json" where
  "view_member m = JObj ([(''peerId'', JStr (sm_peerId m))] @ opt_field ''alias'' JStr (sm_alias m)
     @ [(''role'', JStr (sm_role m)), (''joinedAt'', JNum (sm_joinedAt m))])"

definition view_channel :: "snapshot_channel \<Rightarrow> json" where
  "view_channel c = JObj [(''id'', JStr (sc_id c)), (''name'', JStr (sc_name c)), (''type'', JStr (sc_type c)),
     (''createdAt'', JNum (sc_createdAt c)), (''createdBy'', JStr (sc_createdBy c))]"

fun view_body :: "snapshot_body \<Rightarrow> (string \<times> json) list" where
  "view_body (WorkspaceBody n d p sv ds) = [(''name'', JStr n)] @ opt_field ''description'' JStr d @ opt_field ''policy'' JObj p
     @ [(''snapshotVersion'', JNum sv), (''deltasSince'', JNum ds)]"
| "view_body (MembershipBody n ms) = [(''memberCount'', JNum n), (''members'', JArr (map view_member ms))]"
| "view_body (ChannelBody n cs) = [(''channelCount'', JNum n), (''channels'', JArr (map view_channel cs))]"
| "view_body (MessageBody c n ids a b) = [(''channelId'', JStr c), (''messageCount'', JNum n), (''messageIds'', JArr (map JStr ids)),
     (''minTimestamp'', JNum a), (''maxTimestamp'', JNum b)]"

definition view_snapshot :: "manifest_snapshot \<Rightarrow> json" where
  "view_snapshot s = JObj ([(''domain'', JStr (sn_domain s)), (''workspaceId'', JStr (sn_workspaceId s)),
     (''version'', JNum (sn_version s)), (''snapshotId'', JStr (sn_snapshotId s)), (''basedOnVersion'', JNum (sn_basedOnVersion s)),
     (''createdAt'', JNum (sn_createdAt s)), (''createdBy'', JStr (sn_createdBy s))]
     @ opt_field ''checksum'' JStr (sn_checksum s) @ view_body (sn_body s))"

subsection \<open>Reading back what was written\<close>

definition entry_ok :: "string \<Rightarrow> manifest_entry \<Rightarrow> bool" where
  "entry_ok w e \<longleftrightarrow> me_workspaceId e = w \<and> me_domain e \<noteq> [] \<and> me_itemCount e \<noteq> None \<and> me_lastUpdatedBy e \<noteq> []"

definition delta_ok :: "string \<Rightarrow> manifest_delta \<Rightarrow> bool" where
  "delta_ok w d \<longleftrightarrow> md_workspaceId d = w \<and> md_domain d \<noteq> [] \<and> md_opId d \<noteq> [] \<and> md_operation d \<noteq> [] \<and> md_subject d \<noteq> [] \<and> md_author d \<noteq> []"

definition member_ok :: "snapshot_member \<Rightarrow> bool" where
  "member_ok m \<longleftrightarrow> sm_role m \<in> {''owner'', ''admin'', ''member''}"

fun body_ok :: "snapshot_body \<Rightarrow> bool" where
  "body_ok (MembershipBody n ms) \<longleftrightarrow> list_all member_ok ms"
| "body_ok (MessageBody c n ids a b) \<longleftrightarrow> c \<noteq> []"
| "body_ok _ \<longleftrightarrow> True"

definition snapshot_ok :: "string \<Rightarrow> manifest_snapshot \<Rightarrow> bool" where
  "snapshot_ok w s \<longleftrightarrow> sn_workspaceId s = w \<and> sn_createdBy s \<noteq> [] \<and> sn_snapshotId s \<noteq> [] \<and> body_ok (sn_body s)"

lemmas field_defs = text_field_def str_field_def num_field_def arr_field_def obj_field_def workspace_field_def truthy_string_def get_or_def

lemma sanitize_entry_view: "w \<noteq> [] \<Longrightarrow> entry_ok w e \<Longrightarrow> sanitizeVersionEntry (view_entry e) w' = Some e"
  by (cases e) (auto simp: sanitizeVersionEntry_def view_entry_def entry_ok_def field_defs split: option.split)

lemma sanitize_delta_view: "w \<noteq> [] \<Longrightarrow> delta_ok w d \<Longrightarrow> sanitizeDelta (view_delta d) w' = Some d"
  by (cases d) (auto simp: sanitizeDelta_def view_delta_def delta_ok_def field_defs split: option.split)

lemma map_filter_view: "(\<And>x. x \<in> set xs \<Longrightarrow> f (g x) = Some x) \<Longrightarrow> List.map_filter f (map g xs) = xs"
  by (induction xs) (simp_all add: List.map_filter_simps)

lemma sanitize_member_view: "member_ok m \<Longrightarrow> sanitize_member (view_member m) = Some m"
  by (cases m) (auto simp: sanitize_member_def view_member_def member_ok_def field_defs split: option.split)

lemma sanitize_channel_view: "sanitize_channel (view_channel c) = Some c"
  by (cases c) (auto simp: sanitize_channel_def view_channel_def field_defs)

lemma sanitize_body_view:
  assumes "body_ok b" "\<And>k. k \<in> {''domain'', ''workspaceId'', ''version'', ''snapshotId'', ''basedOnVersion'', ''createdAt'', ''createdBy'', ''checksum''} \<Longrightarrow>
    jm_get (view_body b) k = None"
    and "\<And>k. jm_get (view_body b) k \<noteq> None \<Longrightarrow> json_field_of v k = jm_get (view_body b) k"
    and "\<And>k. k \<in> {''description'', ''policy''} \<Longrightarrow> json_field_of v k = jm_get (view_body b) k"
  shows "sanitize_body (body_domain b) v = Some b"
proof (cases b)
  case (WorkspaceBody n d p sv ds)
  with assms(3) [of "''name''"] assms(3) [of "''snapshotVersion''"] assms(3) [of "''deltasSince''"]
    assms(4) [of "''description''"] assms(4) [of "''policy''"]
  show ?thesis
    by (simp add: sanitize_body_def sanitize_workspace_body_def field_defs split: option.split)
next
  case (MembershipBody n ms)
  have "List.map_filter sanitize_member (map view_member ms) = ms"
    using assms(1) MembershipBody by (intro map_filter_view sanitize_member_view) (simp add: list_all_iff)
  with assms(3) [of "''memberCount''"] assms(3) [of "''members''"] MembershipBody show ?thesis
    by (simp add: sanitize_body_def sanitize_membership_body_def field_defs)
next
  case (ChannelBody n cs)
  have "List.map_filter sanitize_channel (map view_channel cs) = cs"
    by (intro map_filter_view sanitize_channel_view)
  with assms(3) [of "''channelCount''"] assms(3) [of "''channels''"] ChannelBody show ?thesis
    by (simp add: sanitize_body_def sanitize_channel_body_def field_defs)
next
  case (MessageBody c n ids a b')
  have "List.map_filter sanitize_id (map JStr ids) = ids"
    by (intro map_filter_view) (simp add: sanitize_id_def)
  with assms(1) assms(3) [of "''channelId''"] assms(3) [of "''messageCount''"] assms(3) [of "''messageIds''"]
    assms(3) [of "''minTimestamp''"] assms(3) [of "''maxTimestamp''"] MessageBody show ?thesis
    by (simp add: sanitize_body_def sanitize_message_body_def field_defs)
qed

lemma sanitize_snapshot_view:
  assumes "w \<noteq> []" "snapshot_ok w s"
  shows "sanitizeSnapshot (view_snapshot s) w' = Some s"
proof -
  have domain: "sn_domain s \<noteq> []" by (cases "sn_body s") (simp_all add: sn_domain_def)
  have "sanitize_body (sn_domain s) (view_snapshot s) = Some (sn_body s)"
    unfolding sn_domain_def
  proof (rule sanitize_body_view)
    show "body_ok (sn_body s)" using assms(2) by (simp add: snapshot_ok_def)
    show free: "\<And>k. k \<in> {''domain'', ''workspaceId'', ''version'', ''snapshotId'', ''basedOnVersion'', ''createdAt'', ''createdBy'', ''checksum''} \<Longrightarrow>
        jm_get (view_body (sn_body s)) k = None"
      by (cases "sn_body s") auto
    show "json_field_of (view_snapshot s) k = jm_get (view_body (sn_body s)) k" if "jm_get (view_body (sn_body s)) k \<noteq> None" for k
    proof -
      have "k \<notin> {''domain'', ''workspaceId'', ''version'', ''snapshotId'', ''basedOnVersion'', ''createdAt'', ''createdBy'', ''checksum''}"
        by (rule notI) (drule free, simp add: that)
      then show ?thesis by (simp add: view_snapshot_def)
    qed
    show "json_field_of (view_snapshot s) k = jm_get (view_body (sn_body s)) k" if "k \<in> {''description'', ''policy''}" for k
      using that by (elim insertE emptyE) (simp_all add: view_snapshot_def)
  qed
  moreover have "jm_get (view_body b) ''checksum'' = None" for b by (cases b) simp_all
  ultimately show ?thesis using assms domain
    by (cases s) (auto simp: sanitizeSnapshot_def field_defs view_snapshot_def snapshot_ok_def split: option.split)
qed

end
