(* ===== verification/ManifestStore.thy ===== *)
theory ManifestStore
  imports ManifestTypes JsText
begin

section \<open>The manifest store (sync/ManifestStore.ts)\<close>

text \<open>
  For every workspace and every domain key the class keeps a version, the deltas and a snapshot.
  Persistence is the object store \<open>manifests\<close> of \<open>storage/PersistentStore.ts\<close>, to which the web client
  wires all three callbacks; a save that the code starts without awaiting it happens in the same step.
  The change listener is told of every change and does nothing to the store. \<open>lc\<close> is
  \<open>localeCompare\<close>, \<open>uuid\<close> a fresh id.
\<close>

subsection \<open>State\<close>

record manifest_workspace =
  mw_versions :: "(string, manifest_entry) jsmap"
  mw_deltas :: "(string, manifest_delta list) jsmap"
  mw_snapshots :: "(string, manifest_snapshot) jsmap"

record manifest_export =
  mx_workspaceId :: string
  mx_versions :: "manifest_entry list"
  mx_deltas :: "manifest_delta list"
  mx_snapshots :: "manifest_snapshot list"

record manifest_store =
  mf_workspaces :: "(string, manifest_workspace) jsmap"
  mf_hydrated :: "string list"
  mf_db :: "(string, manifest_export) jsmap option"

definition empty_manifest :: manifest_workspace where
  "empty_manifest = \<lparr>mw_versions = [], mw_deltas = [], mw_snapshots = []\<rparr>"

definition new_manifest_store :: manifest_store where
  "new_manifest_store = \<lparr>mf_workspaces = [], mf_hydrated = [], mf_db = None\<rparr>"

definition set_manifest_db :: "(string, manifest_export) jsmap \<Rightarrow> manifest_store \<Rightarrow> manifest_store" where
  "set_manifest_db db s = s\<lparr>mf_db := Some db\<rparr>"

definition saveManifest :: "string \<Rightarrow> manifest_export \<Rightarrow> (string, manifest_export) jsmap \<Rightarrow> (string, manifest_export) jsmap" where
  "saveManifest w x db = (if w = [] then db else jm_set w x db)"

definition getManifest :: "string \<Rightarrow> (string, manifest_export) jsmap \<Rightarrow> manifest_export option" where
  "getManifest w db = (if w = [] then None else jm_get db w)"

definition deleteManifest :: "string \<Rightarrow> (string, manifest_export) jsmap \<Rightarrow> (string, manifest_export) jsmap" where
  "deleteManifest w db = (if w = [] then db else jm_delete w db)"

subsection \<open>Orders\<close>

definition manifest_delta_cmp :: "(string \<Rightarrow> string \<Rightarrow> int) \<Rightarrow> manifest_delta \<Rightarrow> manifest_delta \<Rightarrow> int" where
  "manifest_delta_cmp lc = cmp_then (cmp_by md_version num_cmp) (cmp_then (cmp_by md_timestamp num_cmp) (cmp_by md_opId lc))"

definition channel_text :: "string option \<Rightarrow> string" where
  "channel_text c = get_or [] c"

definition entry_cmp :: "(string \<Rightarrow> string \<Rightarrow> int) \<Rightarrow> manifest_entry \<Rightarrow> manifest_entry \<Rightarrow> int" where
  "entry_cmp lc = cmp_then (cmp_by me_domain lc) (cmp_by (\<lambda>e. channel_text (me_channelId e)) lc)"

definition export_cmp :: "(string \<Rightarrow> string \<Rightarrow> int) \<Rightarrow> manifest_delta \<Rightarrow> manifest_delta \<Rightarrow> int" where
  "export_cmp lc = cmp_then (cmp_by md_domain lc) (cmp_then (cmp_by (\<lambda>d. channel_text (md_channelId d)) lc) (manifest_delta_cmp lc))"

definition snapshot_cmp :: "(string \<Rightarrow> string \<Rightarrow> int) \<Rightarrow> manifest_snapshot \<Rightarrow> manifest_snapshot \<Rightarrow> int" where
  "snapshot_cmp lc = cmp_then (cmp_by sn_domain lc) (cmp_by (\<lambda>s. channel_text (sn_channelId s)) lc)"

subsection \<open>Export\<close>

definition MAX_DELTAS_PER_DOMAIN :: nat where
  "MAX_DELTAS_PER_DOMAIN = 500"

definition newest_deltas :: "(string \<Rightarrow> string \<Rightarrow> int) \<Rightarrow> manifest_delta list \<Rightarrow> manifest_delta list" where
  "newest_deltas lc ds =
     (let ordered = js_sort (manifest_delta_cmp lc) ds
      in if length ordered > MAX_DELTAS_PER_DOMAIN then drop (length ordered - MAX_DELTAS_PER_DOMAIN) ordered else ordered)"

definition export_workspace :: "(string \<Rightarrow> string \<Rightarrow> int) \<Rightarrow> string \<Rightarrow> manifest_workspace \<Rightarrow> manifest_export" where
  "export_workspace lc w ws =
     \<lparr>mx_workspaceId = w, mx_versions = js_sort (entry_cmp lc) (jm_values (mw_versions ws)),
      mx_deltas = js_sort (export_cmp lc) (concat (map (\<lambda>(k, ds). newest_deltas lc ds) (mw_deltas ws))),
      mx_snapshots = js_sort (snapshot_cmp lc) (jm_values (mw_snapshots ws))\<rparr>"

definition exportWorkspaceState :: "(string \<Rightarrow> string \<Rightarrow> int) \<Rightarrow> string \<Rightarrow> manifest_store \<Rightarrow> manifest_export option" where
  "exportWorkspaceState lc w s = map_option (export_workspace lc w) (jm_get (mf_workspaces s) w)"

definition exportState :: "(string \<Rightarrow> string \<Rightarrow> int) \<Rightarrow> manifest_store \<Rightarrow> manifest_export list" where
  "exportState lc s = map (\<lambda>(w, ws). export_workspace lc w ws) (js_sort (cmp_by fst lc) (mf_workspaces s))"

definition view_export :: "manifest_export \<Rightarrow> json" where
  "view_export x = JObj [(''workspaceId'', JStr (mx_workspaceId x)), (''versions'', JArr (map view_entry (mx_versions x))),
     (''deltas'', JArr (map view_delta (mx_deltas x))), (''snapshots'', JArr (map view_snapshot (mx_snapshots x)))]"

definition view_state :: "manifest_export list \<Rightarrow> json" where
  "view_state xs = JObj [(''schemaVersion'', JNum 1), (''workspaces'', JArr (map view_export xs))]"

subsection \<open>Import\<close>

definition import_versions :: "string \<Rightarrow> json list \<Rightarrow> (string, manifest_entry) jsmap" where
  "import_versions w raws = fold (\<lambda>raw m. case sanitizeVersionEntry raw w of
       Some e \<Rightarrow> if me_workspaceId e \<noteq> w then m else jm_set (entry_key e) e m | None \<Rightarrow> m) raws []"

text \<open>The ids seen per key, and the deltas per key; the lists are sorted at the end.\<close>

definition collect_delta :: "string \<Rightarrow> json \<Rightarrow> (string, string list) jsmap \<times> (string, manifest_delta list) jsmap \<Rightarrow>
    (string, string list) jsmap \<times> (string, manifest_delta list) jsmap" where
  "collect_delta w raw acc =
     (case sanitizeDelta raw w of
        None \<Rightarrow> acc
      | Some d \<Rightarrow>
          if md_workspaceId d \<noteq> w then acc
          else
            let k = delta_key d; (seen, m) = acc; ids = jm_get_or [] seen k
            in if md_opId d \<in> set ids then (jm_set k ids seen, m)
               else (jm_set k (js_add (md_opId d) ids) seen, jm_set k (jm_get_or [] m k @ [d]) m))"

definition import_deltas :: "(string \<Rightarrow> string \<Rightarrow> int) \<Rightarrow> string \<Rightarrow> json list \<Rightarrow> (string, manifest_delta list) jsmap" where
  "import_deltas lc w raws =
     map (\<lambda>(k, ds). (k, js_sort (manifest_delta_cmp lc) ds)) (snd (fold (collect_delta w) raws ([], [])))"

definition import_snapshots :: "string \<Rightarrow> json list \<Rightarrow> (string, manifest_snapshot) jsmap" where
  "import_snapshots w raws = fold (\<lambda>raw m. case sanitizeSnapshot raw w of
       None \<Rightarrow> m
     | Some x \<Rightarrow> if sn_workspaceId x \<noteq> w then m
         else case jm_get m (snapshot_key x) of
           None \<Rightarrow> jm_set (snapshot_key x) x m
         | Some old \<Rightarrow> if sn_version old \<le> sn_version x then jm_set (snapshot_key x) x m else m) raws []"

definition sanitizeWorkspaceState :: "(string \<Rightarrow> string \<Rightarrow> int) \<Rightarrow> json \<Rightarrow> (string \<times> manifest_workspace) option" where
  "sanitizeWorkspaceState lc raw =
     (case text_field raw ''workspaceId'' of
        None \<Rightarrow> None
      | Some w \<Rightarrow>
          let ws = \<lparr>mw_versions = import_versions w (get_or [] (arr_field raw ''versions'')),
                    mw_deltas = import_deltas lc w (get_or [] (arr_field raw ''deltas'')),
                    mw_snapshots = import_snapshots w (get_or [] (arr_field raw ''snapshots''))\<rparr>
          in if mw_versions ws = [] \<and> mw_deltas ws = [] \<and> mw_snapshots ws = [] then None else Some (w, ws))"

definition importWorkspaceState :: "(string \<Rightarrow> string \<Rightarrow> int) \<Rightarrow> json \<Rightarrow> manifest_store \<Rightarrow> bool \<times> manifest_store" where
  "importWorkspaceState lc raw s =
     (case sanitizeWorkspaceState lc raw of
        None \<Rightarrow> (False, s)
      | Some (w, ws) \<Rightarrow> (True, s\<lparr>mf_workspaces := jm_set w ws (mf_workspaces s), mf_hydrated := js_add w (mf_hydrated s)\<rparr>))"

text \<open>The older path, which sorts on every insertion.\<close>

definition insert_delta :: "(string \<Rightarrow> string \<Rightarrow> int) \<Rightarrow> string \<Rightarrow> json \<Rightarrow> (string, manifest_delta list) jsmap \<Rightarrow> (string, manifest_delta list) jsmap" where
  "insert_delta lc w raw m =
     (case sanitizeDelta raw w of
        None \<Rightarrow> m
      | Some d \<Rightarrow>
          if md_workspaceId d \<noteq> w then m
          else
            let existing = jm_get_or [] m (delta_key d)
            in if \<exists>x \<in> set existing. md_opId x = md_opId d then m
               else jm_set (delta_key d) (js_sort (manifest_delta_cmp lc) (existing @ [d])) m)"

definition import_one :: "(string \<Rightarrow> string \<Rightarrow> int) \<Rightarrow> json \<Rightarrow> (string, manifest_workspace) jsmap \<Rightarrow> (string, manifest_workspace) jsmap" where
  "import_one lc raw next_map =
     (case text_field raw ''workspaceId'' of
        None \<Rightarrow> next_map
      | Some w \<Rightarrow>
          let ws = \<lparr>mw_versions = import_versions w (get_or [] (arr_field raw ''versions'')),
                    mw_deltas = fold (insert_delta lc w) (get_or [] (arr_field raw ''deltas'')) [],
                    mw_snapshots = import_snapshots w (get_or [] (arr_field raw ''snapshots''))\<rparr>
          in if mw_versions ws = [] \<and> mw_deltas ws = [] \<and> mw_snapshots ws = [] then next_map else jm_set w ws next_map)"

definition importState :: "(string \<Rightarrow> string \<Rightarrow> int) \<Rightarrow> json \<Rightarrow> manifest_store \<Rightarrow> manifest_store" where
  "importState lc raw s =
     (case (num_field raw ''schemaVersion'', arr_field raw ''workspaces'') of
        (Some v, Some raws) \<Rightarrow>
          let next_map = fold (import_one lc) raws []
          in if v < 1 \<or> (raws \<noteq> [] \<and> next_map = []) then s
             else s\<lparr>mf_workspaces := next_map, mf_hydrated := jm_keys next_map\<rparr>
      | _ \<Rightarrow> s)"

definition restoreWorkspace :: "(string \<Rightarrow> string \<Rightarrow> int) \<Rightarrow> string \<Rightarrow> manifest_store \<Rightarrow> bool \<times> manifest_store" where
  "restoreWorkspace lc w s =
     (case mf_db s of
        None \<Rightarrow> (False, s)
      | Some db \<Rightarrow>
          if w = [] \<or> w \<in> set (mf_hydrated s) then (False, s)
          else
            let s1 = s\<lparr>mf_hydrated := js_add w (mf_hydrated s)\<rparr>
            in case getManifest w db of
                 None \<Rightarrow> (False, s1)
               | Some x \<Rightarrow> importWorkspaceState lc (view_export x) s1)"

definition removeManifestWorkspace :: "string \<Rightarrow> manifest_store \<Rightarrow> manifest_store" where
  "removeManifestWorkspace w s = s\<lparr>mf_workspaces := jm_delete w (mf_workspaces s), mf_hydrated := js_remove w (mf_hydrated s),
     mf_db := map_option (deleteManifest w) (mf_db s)\<rparr>"

subsection \<open>Changes\<close>

text \<open>An empty workspace id stands for every workspace.\<close>

definition persist_one :: "(string \<Rightarrow> string \<Rightarrow> int) \<Rightarrow> string \<Rightarrow> manifest_store \<Rightarrow> manifest_store" where
  "persist_one lc w s = (case exportWorkspaceState lc w s of
     None \<Rightarrow> s | Some x \<Rightarrow> s\<lparr>mf_db := map_option (saveManifest w x) (mf_db s)\<rparr>)"

definition notifyChange :: "(string \<Rightarrow> string \<Rightarrow> int) \<Rightarrow> string \<Rightarrow> manifest_store \<Rightarrow> manifest_store" where
  "notifyChange lc w s = fold (persist_one lc) (if w \<noteq> [] then [w] else jm_keys (mf_workspaces s)) s"

definition workspace_of :: "string \<Rightarrow> manifest_store \<Rightarrow> manifest_workspace" where
  "workspace_of w s = jm_get_or empty_manifest (mf_workspaces s) w"

definition put_workspace :: "string \<Rightarrow> manifest_workspace \<Rightarrow> manifest_store \<Rightarrow> manifest_store" where
  "put_workspace w ws s = s\<lparr>mf_workspaces := jm_set w ws (mf_workspaces s)\<rparr>"

record domain_update =
  du_domain :: string
  du_workspaceId :: string
  du_channelId :: "string option"
  du_author :: string
  du_itemCount :: "int option"
  du_checksum :: "string option"
  du_timestamp :: "time option"
  du_opId :: "string option"
  du_operation :: "string option"
  du_subject :: "string option"
  du_data :: "(string \<times> json) list option"

definition old_version :: "manifest_entry option \<Rightarrow> int" where
  "old_version e = (case e of None \<Rightarrow> 0 | Some x \<Rightarrow> me_version x)"

definition old_checksum :: "string option \<Rightarrow> manifest_entry option \<Rightarrow> string option" where
  "old_checksum c e = (if truthy_string c \<noteq> None then c else case e of None \<Rightarrow> None | Some x \<Rightarrow> truthy_string (me_checksum x))"

definition old_count :: "int option option \<Rightarrow> manifest_entry option \<Rightarrow> int option" where
  "old_count n e = (case n of Some x \<Rightarrow> x | None \<Rightarrow> (case e of None \<Rightarrow> Some 0 | Some x \<Rightarrow> me_itemCount x))"

definition updated_entry :: "time \<Rightarrow> domain_update \<Rightarrow> manifest_entry option \<Rightarrow> manifest_entry" where
  "updated_entry now u old =
     \<lparr>me_domain = du_domain u, me_workspaceId = du_workspaceId u, me_channelId = truthy_string (du_channelId u),
      me_version = old_version old + 1, me_itemCount = old_count (map_option Some (du_itemCount u)) old,
      me_checksum = old_checksum (du_checksum u) old, me_lastUpdatedAt = now, me_lastUpdatedBy = du_author u\<rparr>"

definition update_delta :: "time \<Rightarrow> string \<Rightarrow> domain_update \<Rightarrow> manifest_entry option \<Rightarrow> manifest_delta" where
  "update_delta now uuid u old =
     \<lparr>md_domain = du_domain u, md_workspaceId = du_workspaceId u, md_channelId = truthy_string (du_channelId u),
      md_version = old_version old + 1, md_baseVersion = old_version old, md_opId = get_or uuid (du_opId u),
      md_operation = get_or ''update'' (du_operation u), md_subject = get_or (domainKey (du_domain u) (du_channelId u)) (du_subject u),
      md_data = get_or [] (du_data u), md_timestamp = now, md_author = du_author u\<rparr>"

definition updateDomain :: "(string \<Rightarrow> string \<Rightarrow> int) \<Rightarrow> time \<Rightarrow> string \<Rightarrow> domain_update \<Rightarrow> manifest_store \<Rightarrow> manifest_delta \<times> manifest_store" where
  "updateDomain lc clock uuid u s =
     (let now = get_or clock (du_timestamp u);
          w = du_workspaceId u;
          ws = workspace_of w s;
          k = domainKey (du_domain u) (du_channelId u);
          old = jm_get (mw_versions ws) k;
          d = update_delta now uuid u old;
          ws1 = ws\<lparr>mw_versions := jm_set k (updated_entry now u old) (mw_versions ws),
                   mw_deltas := jm_set k (jm_get_or [] (mw_deltas ws) k @ [d]) (mw_deltas ws)\<rparr>
      in (d, notifyChange lc w (put_workspace w ws1 s)))"

text \<open>
  \<open>Number(v)\<close> for decimal integers, signed or not, with white space around them; an array is read as the text of its one
  element. Numerals with a fraction, an exponent or another base are no integers of the model.
\<close>

definition unsigned_number :: "string \<Rightarrow> int option" where
  "unsigned_number s =
     (if s \<noteq> [] \<and> list_all (\<lambda>c. (48 :: nat) \<le> of_char c \<and> (of_char c :: nat) \<le> 57) s then Some (int (read_digits s)) else None)"

definition text_number :: "string \<Rightarrow> int option" where
  "text_number s =
     (case js_trim s of
        [] \<Rightarrow> Some 0
      | c # cs \<Rightarrow>
          (if c = CHR ''-'' then map_option uminus (unsigned_number cs)
           else if c = CHR ''+'' then unsigned_number cs
           else unsigned_number (c # cs)))"

fun json_number :: "json \<Rightarrow> int option" where
  "json_number JNull = Some 0"
| "json_number (JBool b) = Some (if b then 1 else 0)"
| "json_number (JNum n) = Some n"
| "json_number (JStr s) = text_number s"
| "json_number (JArr []) = Some 0"
| "json_number (JArr [x]) = (case x of JBool b \<Rightarrow> None | _ \<Rightarrow> json_number x)"
| "json_number (JArr (x # y # xs)) = None"
| "json_number (JObj fs) = None"

definition data_count :: "(string \<times> json) list \<Rightarrow> int option option" where
  "data_count data = (case jm_get data ''itemCount'' of None \<Rightarrow> None | Some JNull \<Rightarrow> None | Some v \<Rightarrow> Some (json_number v))"

definition data_checksum :: "(string \<times> json) list \<Rightarrow> string option" where
  "data_checksum data = (case jm_get data ''checksum'' of Some (JStr c) \<Rightarrow> Some c | _ \<Rightarrow> None)"

definition applied_entry :: "manifest_delta \<Rightarrow> manifest_entry option \<Rightarrow> manifest_entry" where
  "applied_entry d old =
     \<lparr>me_domain = md_domain d, me_workspaceId = md_workspaceId d, me_channelId = truthy_string (md_channelId d),
      me_version = md_version d, me_itemCount = old_count (data_count (md_data d)) old,
      me_checksum = (case data_checksum (md_data d) of Some c \<Rightarrow> Some c | None \<Rightarrow> old_checksum None old),
      me_lastUpdatedAt = md_timestamp d, me_lastUpdatedBy = md_author d\<rparr>"

text \<open>The new state, and whether the delta changed anything.\<close>

definition apply_to_workspace :: "(string \<Rightarrow> string \<Rightarrow> int) \<Rightarrow> manifest_delta \<Rightarrow> manifest_workspace \<Rightarrow> bool \<times> manifest_workspace" where
  "apply_to_workspace lc d ws =
     (let k = delta_key d;
          existing = jm_get_or [] (mw_deltas ws) k;
          fresh = (\<forall>x \<in> set existing. md_opId x \<noteq> md_opId d);
          ws1 = (if fresh then ws\<lparr>mw_deltas := jm_set k (js_sort (manifest_delta_cmp lc) (existing @ [d])) (mw_deltas ws)\<rparr> else ws);
          old = jm_get (mw_versions ws) k;
          newer = md_version d \<ge> old_version old
      in (fresh \<or> newer, if newer then ws1\<lparr>mw_versions := jm_set k (applied_entry d old) (mw_versions ws1)\<rparr> else ws1))"

definition applyDeltaInternal :: "(string \<Rightarrow> string \<Rightarrow> int) \<Rightarrow> manifest_delta \<Rightarrow> manifest_store \<Rightarrow> bool \<times> manifest_store" where
  "applyDeltaInternal lc d s =
     (let (changed, ws) = apply_to_workspace lc d (workspace_of (md_workspaceId d) s)
      in (changed, put_workspace (md_workspaceId d) ws s))"

definition apply_manifest_delta :: "(string \<Rightarrow> string \<Rightarrow> int) \<Rightarrow> manifest_delta \<Rightarrow> manifest_store \<Rightarrow> manifest_store" where
  "apply_manifest_delta lc d s =
     (let (changed, s1) = applyDeltaInternal lc d s in if changed then notifyChange lc (md_workspaceId d) s1 else s1)"

definition applyDeltaBatch :: "(string \<Rightarrow> string \<Rightarrow> int) \<Rightarrow> manifest_delta list \<Rightarrow> manifest_store \<Rightarrow> manifest_store" where
  "applyDeltaBatch lc ds s =
     (let (s1, touched) = fold (\<lambda>d (s, touched). let (changed, s') = applyDeltaInternal lc d s
            in (s', if changed then js_add (md_workspaceId d) touched else touched)) ds (s, [])
      in fold (notifyChange lc) touched s1)"

fun snapshotItemCount :: "snapshot_body \<Rightarrow> int" where
  "snapshotItemCount (WorkspaceBody n d p sv ds) = 1"
| "snapshotItemCount (MembershipBody n ms) = n"
| "snapshotItemCount (ChannelBody n cs) = n"
| "snapshotItemCount (MessageBody c n ids a b) = n"

definition snapshot_entry :: "manifest_snapshot \<Rightarrow> manifest_entry option \<Rightarrow> manifest_entry" where
  "snapshot_entry x old =
     \<lparr>me_domain = sn_domain x, me_workspaceId = sn_workspaceId x, me_channelId = truthy_string (sn_channelId x),
      me_version = sn_version x, me_itemCount = Some (snapshotItemCount (sn_body x)),
      me_checksum = old_checksum (sn_checksum x) old, me_lastUpdatedAt = sn_createdAt x, me_lastUpdatedBy = sn_createdBy x\<rparr>"

definition saveSnapshot :: "(string \<Rightarrow> string \<Rightarrow> int) \<Rightarrow> manifest_snapshot \<Rightarrow> manifest_store \<Rightarrow> manifest_store" where
  "saveSnapshot lc x s =
     (let w = sn_workspaceId x;
          ws = workspace_of w s;
          k = snapshot_key x;
          ws1 = ws\<lparr>mw_snapshots := jm_set k x (mw_snapshots ws),
                   mw_versions := jm_set k (snapshot_entry x (jm_get (mw_versions ws) k)) (mw_versions ws)\<rparr>
      in notifyChange lc w (put_workspace w ws1 s))"

definition restoreSnapshot :: "(string \<Rightarrow> string \<Rightarrow> int) \<Rightarrow> time \<Rightarrow> string \<Rightarrow> manifest_snapshot \<Rightarrow> string \<Rightarrow> manifest_store \<Rightarrow> manifest_delta \<times> manifest_store" where
  "restoreSnapshot lc clock uuid x restoredBy s =
     updateDomain lc clock uuid
       \<lparr>du_domain = sn_domain x, du_workspaceId = sn_workspaceId x, du_channelId = truthy_string (sn_channelId x), du_author = restoredBy,
        du_itemCount = Some (snapshotItemCount (sn_body x)), du_checksum = sn_checksum x, du_timestamp = None, du_opId = None,
        du_operation = Some ''update'', du_subject = Some (''snapshot:'' @ sn_snapshotId x),
        du_data = Some [(''snapshotId'', JStr (sn_snapshotId x)), (''restored'', JBool True),
          (''itemCount'', JNum (snapshotItemCount (sn_body x)))]\<rparr>
       (saveSnapshot lc x s)"

subsection \<open>Queries\<close>

definition getVersion :: "string \<Rightarrow> string \<Rightarrow> string option \<Rightarrow> manifest_store \<Rightarrow> int" where
  "getVersion w d c s = (case jm_get (mf_workspaces s) w of None \<Rightarrow> 0
     | Some ws \<Rightarrow> old_version (jm_get (mw_versions ws) (domainKey d c)))"

record manifest_pointer =
  mp_domain :: string
  mp_workspaceId :: string
  mp_channelId :: "string option"
  mp_snapshotId :: string
  mp_version :: int
  mp_basedOnVersion :: int
  mp_createdAt :: time
  mp_createdBy :: string

record manifest_summary =
  mu_workspaceId :: string
  mu_generatedAt :: time
  mu_versions :: "manifest_entry list"
  mu_snapshots :: "manifest_pointer list"

definition summary_entry :: "manifest_entry \<Rightarrow> manifest_entry" where
  "summary_entry e = e\<lparr>me_channelId := truthy_string (me_channelId e), me_checksum := truthy_string (me_checksum e)\<rparr>"

definition snapshot_pointer :: "manifest_snapshot \<Rightarrow> manifest_pointer" where
  "snapshot_pointer x = \<lparr>mp_domain = sn_domain x, mp_workspaceId = sn_workspaceId x, mp_channelId = truthy_string (sn_channelId x),
     mp_snapshotId = sn_snapshotId x, mp_version = sn_version x, mp_basedOnVersion = sn_basedOnVersion x,
     mp_createdAt = sn_createdAt x, mp_createdBy = sn_createdBy x\<rparr>"

definition getSummary :: "(string \<Rightarrow> string \<Rightarrow> int) \<Rightarrow> time \<Rightarrow> string \<Rightarrow> manifest_store \<Rightarrow> manifest_summary" where
  "getSummary lc now w s = (case jm_get (mf_workspaces s) w of
     None \<Rightarrow> \<lparr>mu_workspaceId = w, mu_generatedAt = now, mu_versions = [], mu_snapshots = []\<rparr>
   | Some ws \<Rightarrow> \<lparr>mu_workspaceId = w, mu_generatedAt = now,
       mu_versions = js_sort (entry_cmp lc) (map summary_entry (jm_values (mw_versions ws))),
       mu_snapshots = map snapshot_pointer (jm_values (mw_snapshots ws))\<rparr>)"

record diff_request =
  dr_domain :: string
  dr_workspaceId :: string
  dr_channelId :: "string option"
  dr_fromVersion :: int
  dr_toVersion :: "int option"

definition buildDiffRequest :: "(string \<Rightarrow> string \<Rightarrow> int) \<Rightarrow> time \<Rightarrow> string \<Rightarrow> manifest_summary \<Rightarrow> manifest_store \<Rightarrow> diff_request list" where
  "buildDiffRequest lc now w remote s =
     (let localByKey = fold (\<lambda>e m. jm_set (entry_key e) e m) (mu_versions (getSummary lc now w s)) []
      in List.map_filter (\<lambda>r. let here = old_version (jm_get localByKey (entry_key r))
           in if me_version r \<le> here then None
              else Some \<lparr>dr_domain = me_domain r, dr_workspaceId = w, dr_channelId = truthy_string (me_channelId r),
                     dr_fromVersion = here, dr_toVersion = Some (me_version r)\<rparr>) (mu_versions remote))"

definition MAX_SAFE_INTEGER :: int where
  "MAX_SAFE_INTEGER = 2 ^ 53 - 1"

definition getDeltasSince :: "diff_request \<Rightarrow> nat option \<Rightarrow> manifest_store \<Rightarrow> manifest_delta list" where
  "getDeltasSince r limit s = (case jm_get (mf_workspaces s) (dr_workspaceId r) of
     None \<Rightarrow> []
   | Some ws \<Rightarrow>
       let wanted = js_sort (cmp_by md_version num_cmp)
         (filter (\<lambda>d. md_version d > dr_fromVersion r \<and> md_version d \<le> get_or MAX_SAFE_INTEGER (dr_toVersion r))
           (jm_get_or [] (mw_deltas ws) (domainKey (dr_domain r) (dr_channelId r))))
       in case limit of None \<Rightarrow> take (nat MAX_SAFE_INTEGER) wanted | Some n \<Rightarrow> take n wanted)"

definition getSnapshot :: "string \<Rightarrow> string \<Rightarrow> string option \<Rightarrow> manifest_store \<Rightarrow> manifest_snapshot option" where
  "getSnapshot w d c s = (case jm_get (mf_workspaces s) w of None \<Rightarrow> None | Some ws \<Rightarrow> jm_get (mw_snapshots ws) (domainKey d c))"

end
