(* ===== verification/ManifestSync.thy ===== *)
theory ManifestSync
  imports ManifestStore
begin

section \<open>How manifest stores synchronise\<close>

text \<open>
  Lemmas and properties of \<^theory_text>\<open>ManifestStore\<close>: the invariant that updates and deltas keep, what one
  exchange of summary, requests and deltas achieves and what it misses, that the two import paths
  agree, and that a state survives export and import.
\<close>

subsection \<open>Invariant\<close>

definition version_of :: "string \<Rightarrow> manifest_workspace \<Rightarrow> int" where
  "version_of k ws = old_version (jm_get (mw_versions ws) k)"

definition deltas_of :: "string \<Rightarrow> manifest_workspace \<Rightarrow> manifest_delta list" where
  "deltas_of k ws = jm_get_or [] (mw_deltas ws) k"

definition log_inv :: "(string \<Rightarrow> string \<Rightarrow> int) \<Rightarrow> string \<Rightarrow> string \<Rightarrow> int \<Rightarrow> manifest_delta list \<Rightarrow> bool" where
  "log_inv lc w k v ds \<longleftrightarrow> in_order (manifest_delta_cmp lc) ds \<and> distinct (map md_opId ds) \<and>
     (\<forall>d \<in> set ds. delta_key d = k \<and> md_workspaceId d = w \<and> md_version d \<le> v)"

definition entry_inv :: "string \<Rightarrow> string \<Rightarrow> manifest_delta list \<Rightarrow> manifest_entry \<Rightarrow> bool" where
  "entry_inv w k ds e \<longleftrightarrow> entry_key e = k \<and> me_workspaceId e = w \<and> me_version e \<ge> 0 \<and>
     (me_version e > 0 \<longrightarrow> (\<exists>d \<in> set ds. md_version d = me_version e))"

definition workspace_inv :: "(string \<Rightarrow> string \<Rightarrow> int) \<Rightarrow> string \<Rightarrow> manifest_workspace \<Rightarrow> bool" where
  "workspace_inv lc w ws \<longleftrightarrow> wf_map (mw_versions ws) \<and> wf_map (mw_deltas ws) \<and>
     (\<forall>k. log_inv lc w k (version_of k ws) (deltas_of k ws)) \<and>
     (\<forall>k e. jm_get (mw_versions ws) k = Some e \<longrightarrow> entry_inv w k (deltas_of k ws) e)"

definition manifest_inv :: "(string \<Rightarrow> string \<Rightarrow> int) \<Rightarrow> manifest_store \<Rightarrow> bool" where
  "manifest_inv lc s \<longleftrightarrow> jm.every (workspace_inv lc) (mf_workspaces s)"

lemma delta_comparator: "string_order lc \<Longrightarrow> comparator UNIV (manifest_delta_cmp lc)"
  unfolding manifest_delta_cmp_def by (intro comparators string_order.lc_comparator)

lemma delta_cmp_same: "string_order lc \<Longrightarrow> manifest_delta_cmp lc d e = 0 \<Longrightarrow> md_opId d = md_opId e"
  by (simp add: manifest_delta_cmp_def cmp_by_def string_order.lc_zero_iff)

lemma delta_cmp_version: "md_version d < md_version e \<Longrightarrow> manifest_delta_cmp lc d e \<le> 0"
  by (simp add: manifest_delta_cmp_def cmp_then_def cmp_by_def num_cmp_def)

lemma workspace_of_inv: "manifest_inv lc s \<Longrightarrow> workspace_inv lc w (workspace_of w s)"
  by (auto simp: manifest_inv_def jm.every_def workspace_of_def jm_get_or_def workspace_inv_def empty_manifest_def
      version_of_def deltas_of_def log_inv_def split: option.split)

lemma put_workspace_inv: "manifest_inv lc s \<Longrightarrow> workspace_inv lc w ws \<Longrightarrow> manifest_inv lc (put_workspace w ws s)"
  by (simp add: manifest_inv_def put_workspace_def jm.every_put)

lemma persist_one_workspaces [simp]: "mf_workspaces (persist_one lc w s) = mf_workspaces s"
  by (simp add: persist_one_def split: option.split)

lemma notifyChange_workspaces [simp]: "mf_workspaces (notifyChange lc w s) = mf_workspaces s"
proof -
  have "mf_workspaces (fold (persist_one lc) ws s) = mf_workspaces s" for ws
    by (induction ws arbitrary: s) simp_all
  then show ?thesis by (simp add: notifyChange_def)
qed

lemma fold_notify_workspaces [simp]: "mf_workspaces (fold (notifyChange lc) ws s) = mf_workspaces s"
  by (induction ws arbitrary: s) simp_all

lemma version_nonneg: "workspace_inv lc w ws \<Longrightarrow> 0 \<le> version_of k ws"
  by (auto simp: workspace_inv_def entry_inv_def version_of_def old_version_def split: option.split)

text \<open>One log and one entry change at a time.\<close>

lemma workspace_inv_change:
  assumes "workspace_inv lc w ws" "log_inv lc w k (me_version e) ds" "entry_inv w k ds e"
  shows "workspace_inv lc w (ws\<lparr>mw_versions := jm_set k e (mw_versions ws), mw_deltas := jm_set k ds (mw_deltas ws)\<rparr>)"
  using assms by (simp add: workspace_inv_def version_of_def deltas_of_def old_version_def jm_get_or_def js_map)

lemma updateDomain_inv:
  assumes "manifest_inv lc s"
    and "\<forall>d \<in> set (deltas_of (domainKey (du_domain u) (du_channelId u)) (workspace_of (du_workspaceId u) s)). md_opId d \<noteq> get_or uuid (du_opId u)"
  shows "manifest_inv lc (snd (updateDomain lc clock uuid u s))"
proof -
  define now where "now = get_or clock (du_timestamp u)"
  define ws where "ws = workspace_of (du_workspaceId u) s"
  define k where "k = domainKey (du_domain u) (du_channelId u)"
  define old where "old = jm_get (mw_versions ws) k"
  define d where "d = update_delta now uuid u old"
  note inv = workspace_of_inv [OF assms(1), of "du_workspaceId u", folded ws_def]
  have d: "delta_key d = k" "md_workspaceId d = du_workspaceId u" "md_opId d = get_or uuid (du_opId u)"
    "md_version d = version_of k ws + 1"
    by (simp_all add: d_def update_delta_def delta_key_def domainKey_def truthy_string_def k_def version_of_def old_def)
  have log: "log_inv lc (du_workspaceId u) k (version_of k ws) (deltas_of k ws)" using inv by (simp add: workspace_inv_def)
  then have "log_inv lc (du_workspaceId u) k (version_of k ws + 1) (deltas_of k ws @ [d])"
    using d assms(2) by (auto simp: log_inv_def sorted_wrt_append ws_def k_def intro!: delta_cmp_version)
  moreover have "entry_inv (du_workspaceId u) k (deltas_of k ws @ [d]) (updated_entry now u old)"
    using d version_nonneg [OF inv, of k]
    by (simp add: entry_inv_def updated_entry_def entry_key_def domainKey_def truthy_string_def k_def old_def version_of_def)
  ultimately have "workspace_inv lc (du_workspaceId u) (ws\<lparr>mw_versions := jm_set k (updated_entry now u old) (mw_versions ws),
      mw_deltas := jm_set k (deltas_of k ws @ [d]) (mw_deltas ws)\<rparr>)"
    by (intro workspace_inv_change [OF inv]) (simp_all add: updated_entry_def version_of_def old_def)
  with put_workspace_inv [OF assms(1)] show ?thesis
    by (simp add: updateDomain_def Let_def now_def [symmetric] ws_def [symmetric] k_def [symmetric] old_def [symmetric]
        d_def [symmetric] deltas_of_def manifest_inv_def)
qed


subsection \<open>Applying deltas\<close>

definition apply_ws :: "(string \<Rightarrow> string \<Rightarrow> int) \<Rightarrow> manifest_delta \<Rightarrow> manifest_workspace \<Rightarrow> manifest_workspace" where
  "apply_ws lc d ws = snd (apply_to_workspace lc d ws)"

lemma applyDeltaInternal_ws:
  "snd (applyDeltaInternal lc d s) = put_workspace (md_workspaceId d) (apply_ws lc d (workspace_of (md_workspaceId d) s)) s"
  by (simp add: applyDeltaInternal_def apply_ws_def split_beta)

lemma jm_get_or_set: "jm_get_or d (jm_set k v m) k' = (if k' = k then v else jm_get_or d m k')"
  by (simp add: jm_get_or_def js_map)

lemma version_apply: "version_of k (apply_ws lc d ws) = (if delta_key d = k then max (md_version d) (version_of k ws) else version_of k ws)"
  by (simp add: apply_ws_def apply_to_workspace_def Let_def version_of_def js_map old_version_def applied_entry_def max_def split: option.split)

lemma deltas_apply: "deltas_of k (apply_ws lc d ws) =
    (if delta_key d = k \<and> (\<forall>x \<in> set (deltas_of k ws). md_opId x \<noteq> md_opId d)
     then js_sort (manifest_delta_cmp lc) (deltas_of k ws @ [d]) else deltas_of k ws)"
  by (auto simp: apply_ws_def apply_to_workspace_def Let_def deltas_of_def jm_get_or_set)

text \<open>No other delta has the id of this one.\<close>

definition unambiguous :: "manifest_delta \<Rightarrow> manifest_workspace \<Rightarrow> bool" where
  "unambiguous d ws \<longleftrightarrow> (\<forall>x \<in> set (deltas_of (delta_key d) ws). md_opId x = md_opId d \<longrightarrow> x = d)"

lemma applied_in: "unambiguous d ws \<Longrightarrow> d \<in> set (deltas_of (delta_key d) (apply_ws lc d ws))"
  by (auto simp: deltas_apply unambiguous_def)

lemma deltas_apply_subset:
  "set (deltas_of k ws) \<subseteq> set (deltas_of k (apply_ws lc d ws))"
  "x \<in> set (deltas_of k (apply_ws lc d ws)) \<Longrightarrow> x \<in> set (deltas_of k ws) \<or> x = d \<and> delta_key d = k"
  by (auto simp: deltas_apply split: if_splits)

lemma log_inv_apply:
  assumes "string_order lc" "log_inv lc w k v ds" "delta_key d = k" "md_workspaceId d = w" "\<forall>x \<in> set ds. md_opId x \<noteq> md_opId d"
  shows "log_inv lc w k (max (md_version d) v) (js_sort (manifest_delta_cmp lc) (ds @ [d]))"
proof -
  have "in_order (manifest_delta_cmp lc) (js_sort (manifest_delta_cmp lc) (ds @ [d]))"
    by (rule comparator.in_order_sort [OF delta_comparator [OF assms(1)]]) simp
  moreover have "distinct (map md_opId (js_sort (manifest_delta_cmp lc) (ds @ [d])))"
    using assms(2,5) by (auto simp: log_inv_def)
  ultimately show ?thesis using assms(2,3,4) by (auto simp: log_inv_def max_def)
qed

lemma apply_ws_inv:
  assumes lc: "string_order lc" and inv: "workspace_inv lc w ws" and d: "md_workspaceId d = w" "unambiguous d ws"
  shows "workspace_inv lc w (apply_ws lc d ws)"
proof -
  define k where "k = delta_key d"
  define ds where "ds = deltas_of k (apply_ws lc d ws)"
  have log: "log_inv lc w k (version_of k ws) (deltas_of k ws)" using inv by (simp add: workspace_inv_def)
  then have log': "log_inv lc w k (max (md_version d) (version_of k ws)) ds"
    using log_inv_apply [OF lc log k_def [symmetric] d(1)] by (auto simp: ds_def deltas_apply k_def log_inv_def max_def)
  have in_ds: "d \<in> set ds" using applied_in [OF d(2)] by (simp add: ds_def k_def)
  have wf: "wf_map (mw_versions (apply_ws lc d ws))" "wf_map (mw_deltas (apply_ws lc d ws))"
    using inv by (simp_all add: workspace_inv_def apply_ws_def apply_to_workspace_def Let_def)
  have logs: "log_inv lc w j (version_of j (apply_ws lc d ws)) (deltas_of j (apply_ws lc d ws))" for j
    using log' inv by (cases "j = k") (auto simp: version_apply k_def ds_def deltas_apply workspace_inv_def)
  have entries: "entry_inv w j (deltas_of j (apply_ws lc d ws)) e" if "jm_get (mw_versions (apply_ws lc d ws)) j = Some e" for j e
  proof (cases "j = k \<and> md_version d \<ge> version_of k ws")
    case True
    then have "e = applied_entry d (jm_get (mw_versions ws) k)"
      using that by (simp add: apply_ws_def apply_to_workspace_def Let_def js_map k_def version_of_def)
    with True in_ds version_nonneg [OF inv, of k] show ?thesis
      by (auto simp: entry_inv_def applied_entry_def entry_key_def domainKey_def truthy_string_def delta_key_def k_def ds_def d(1))
  next
    case False
    then have "jm_get (mw_versions ws) j = Some e"
      using that by (auto simp: apply_ws_def apply_to_workspace_def Let_def js_map k_def version_of_def split: if_splits)
    then have "entry_inv w j (deltas_of j ws) e" using inv by (simp add: workspace_inv_def)
    with deltas_apply_subset(1) [of j ws lc d] show ?thesis unfolding entry_inv_def by blast
  qed
  show ?thesis unfolding workspace_inv_def using wf logs entries by blast
qed

text \<open>A run of deltas of one workspace, on that workspace.\<close>

lemma workspace_of_put [simp]: "workspace_of w' (put_workspace w ws s) = (if w' = w then ws else workspace_of w' s)"
  by (simp add: workspace_of_def put_workspace_def jm_get_or_def js_map)

lemma batch_workspace:
  assumes "\<forall>d \<in> set ds. md_workspaceId d = w"
  shows "workspace_of w (applyDeltaBatch lc ds s) = fold (apply_ws lc) ds (workspace_of w s)"
proof -
  have "workspace_of w (fst (fold (\<lambda>d (s, touched). let (changed, s') = applyDeltaInternal lc d s
      in (s', if changed then js_add (md_workspaceId d) touched else touched)) ds (s, t))) = fold (apply_ws lc) ds (workspace_of w s)" for t
    using assms
  proof (induction ds arbitrary: s t)
    case (Cons d ds)
    then show ?case by (simp add: split_beta Let_def applyDeltaInternal_ws)
  qed simp
  then show ?thesis by (simp add: applyDeltaBatch_def split_beta workspace_of_def)
qed

lemma fold_version: "version_of k (fold (apply_ws lc) ds ws) = fold max (map md_version (filter (\<lambda>d. delta_key d = k) ds)) (version_of k ws)"
  by (induction ds arbitrary: ws) (simp_all add: version_apply)

lemma fold_max_ge: "a \<le> fold max xs (a :: int)"
proof (induction xs arbitrary: a)
  case (Cons y xs)
  have "a \<le> max y a" by simp
  also have "\<dots> \<le> fold max xs (max y a)" by (rule Cons)
  finally show ?case by simp
qed simp

lemma fold_max_mem: "x \<in> set xs \<Longrightarrow> x \<le> fold max xs (a :: int)"
proof (induction xs arbitrary: a)
  case (Cons y xs)
  have "y \<le> fold max xs (max y a)" using fold_max_ge [of "max y a" xs] by simp
  with Cons show ?case by auto
qed simp

lemma fold_max_le: "a \<le> b \<Longrightarrow> \<forall>x \<in> set xs. x \<le> b \<Longrightarrow> fold max xs a \<le> (b :: int)"
  by (induction xs arbitrary: a) simp_all

lemma fold_apply_keeps:
  "x \<in> set (deltas_of k ws) \<Longrightarrow> x \<in> set (deltas_of k (fold (apply_ws lc) ds ws))"
  using deltas_apply_subset(1) by (induction ds arbitrary: ws) (auto simp: subset_iff)

lemma fold_apply_in:
  assumes "d \<in> set ds" "\<And>x y. x \<in> set (deltas_of (delta_key d) ws) \<union> set ds \<Longrightarrow> y \<in> set ds \<Longrightarrow> delta_key x = delta_key y \<Longrightarrow>
    md_opId x = md_opId y \<Longrightarrow> x = y" and "\<forall>x \<in> set (deltas_of (delta_key d) ws). delta_key x = delta_key d"
  shows "d \<in> set (deltas_of (delta_key d) (fold (apply_ws lc) ds ws))"
  using assms
proof (induction ds arbitrary: ws)
  case (Cons x ds)
  show ?case
  proof (cases "d = x")
    case True
    have "unambiguous d ws" unfolding unambiguous_def using Cons.prems True by auto
    with True fold_apply_keeps applied_in show ?thesis by (metis fold_simps(2))
  next
    case False
    have "d \<in> set (deltas_of (delta_key d) (fold (apply_ws lc) ds (apply_ws lc x ws)))"
    proof (rule Cons.IH)
      show "d \<in> set ds" using Cons.prems(1) False by simp
      fix a b
      assume "a \<in> set (deltas_of (delta_key d) (apply_ws lc x ws)) \<union> set ds" "b \<in> set ds" "delta_key a = delta_key b" "md_opId a = md_opId b"
      then show "a = b"
        using Cons.prems(2) [of a b] deltas_apply_subset(2) [of a "delta_key d" lc x ws] by auto
    next
      show "\<forall>a \<in> set (deltas_of (delta_key d) (apply_ws lc x ws)). delta_key a = delta_key d"
        using Cons.prems(3) deltas_apply_subset(2) by blast
    qed
    then show ?thesis by simp
  qed
qed simp


subsection \<open>One exchange\<close>

text \<open>
  The exchange that the clients run: the local side answers a summary with requests, the remote side answers the
  requests with at most \<open>limit\<close> deltas each, the local side applies them all.
\<close>

definition exchanged :: "(string \<Rightarrow> string \<Rightarrow> int) \<Rightarrow> time \<Rightarrow> string \<Rightarrow> nat \<Rightarrow> manifest_store \<Rightarrow> manifest_store \<Rightarrow> manifest_delta list" where
  "exchanged lc now w limit remote here =
     concat (map (\<lambda>r. getDeltasSince r (Some limit) remote) (buildDiffRequest lc now w (getSummary lc now w remote) here))"

definition sync_from :: "(string \<Rightarrow> string \<Rightarrow> int) \<Rightarrow> time \<Rightarrow> string \<Rightarrow> nat \<Rightarrow> manifest_store \<Rightarrow> manifest_store \<Rightarrow> manifest_store" where
  "sync_from lc now w limit remote here = applyDeltaBatch lc (exchanged lc now w limit remote here) here"

lemma truthy_truthy [simp]: "truthy_string (truthy_string c) = truthy_string c"
  by (simp add: truthy_string_def)

lemma domainKey_truthy [simp]: "domainKey d (truthy_string c) = domainKey d c"
  by (simp add: domainKey_def)

lemma entry_key_summary [simp]: "entry_key (summary_entry e) = entry_key e"
  by (simp add: entry_key_def summary_entry_def domainKey_def truthy_string_def)

definition keyed :: "manifest_workspace \<Rightarrow> bool" where
  "keyed ws \<longleftrightarrow> wf_map (mw_versions ws) \<and> (\<forall>k e. jm_get (mw_versions ws) k = Some e \<longrightarrow> entry_key e = k)"

lemma inv_keyed: "workspace_inv lc w ws \<Longrightarrow> keyed ws"
  by (simp add: workspace_inv_def keyed_def entry_inv_def)

lemma index_by_key:
  assumes "distinct (map f xs)"
  shows "jm_get (fold (\<lambda>e m. jm_set (f e) e m) xs m) k = (case find (\<lambda>e. f e = k) xs of None \<Rightarrow> jm_get m k | Some e \<Rightarrow> Some e)"
  using assms
proof (induction xs arbitrary: m)
  case (Cons x xs)
  have "f x = k \<Longrightarrow> find (\<lambda>e. f e = k) xs = None" using Cons.prems by (auto simp: find_None_iff) (metis imageI)
  with Cons show ?case by (auto simp: js_map split: option.split)
qed simp

lemma summary_versions:
  "mu_versions (getSummary lc now w s) = js_sort (entry_cmp lc) (map summary_entry (jm_values (mw_versions (workspace_of w s))))"
  by (simp add: getSummary_def workspace_of_def jm_get_or_def empty_manifest_def jm_values_def split: option.split)

lemma summary_in:
  assumes "keyed (workspace_of w s)"
  shows "e \<in> set (mu_versions (getSummary lc now w s)) \<longleftrightarrow>
    (\<exists>x. e = summary_entry x \<and> jm_get (mw_versions (workspace_of w s)) (entry_key e) = Some x)"
  using assms set_jm_values [of "mw_versions (workspace_of w s)"]
  by (auto simp: summary_versions keyed_def)

lemma summary_keys_distinct:
  assumes "keyed (workspace_of w s)"
  shows "distinct (map entry_key (mu_versions (getSummary lc now w s)))"
proof -
  have wf: "wf_map (mw_versions (workspace_of w s))" using assms by (simp add: keyed_def)
  have "map entry_key (jm_values (mw_versions (workspace_of w s))) = jm_keys (mw_versions (workspace_of w s))"
    unfolding jm_values_def jm_keys_def map_map
  proof (rule map_cong [OF refl])
    fix x
    assume "x \<in> set (mw_versions (workspace_of w s))"
    with wf have "jm_get (mw_versions (workspace_of w s)) (fst x) = Some (snd x)" by (simp add: jm_get_iff)
    with assms show "(entry_key \<circ> snd) x = fst x" by (simp add: keyed_def)
  qed
  with wf have "distinct (map (entry_key \<circ> summary_entry) (jm_values (mw_versions (workspace_of w s))))"
    by (simp add: comp_def wf_map_def)
  then show ?thesis by (simp add: summary_versions)
qed

lemma local_versions:
  assumes "keyed (workspace_of w s)"
  shows "old_version (jm_get (fold (\<lambda>e m. jm_set (entry_key e) e m) (mu_versions (getSummary lc now w s)) []) k) =
    version_of k (workspace_of w s)"
proof (cases "jm_get (mw_versions (workspace_of w s)) k")
  case None
  then have "find (\<lambda>e. entry_key e = k) (mu_versions (getSummary lc now w s)) = None"
    by (auto simp: find_None_iff summary_in [OF assms])
  with None show ?thesis
    by (simp add: index_by_key [OF summary_keys_distinct [OF assms]] version_of_def)
next
  case (Some e)
  have key: "entry_key e = k" using assms Some by (simp add: keyed_def)
  then have "summary_entry e \<in> set (mu_versions (getSummary lc now w s))"
    using Some by (auto simp: summary_in [OF assms])
  then obtain x where x: "find (\<lambda>e. entry_key e = k) (mu_versions (getSummary lc now w s)) = Some x"
    using key by (cases "find (\<lambda>e. entry_key e = k) (mu_versions (getSummary lc now w s))") (auto simp: find_None_iff)
  then have "x = summary_entry e" using find_Some_in [OF x] Some by (auto simp: summary_in [OF assms])
  with x Some show ?thesis
    by (simp add: index_by_key [OF summary_keys_distinct [OF assms]] version_of_def old_version_def summary_entry_def)
qed

lemma in_map_filter: "y \<in> set (List.map_filter f xs) \<longleftrightarrow> (\<exists>x \<in> set xs. f x = Some y)"
  by (induction xs) (auto simp: List.map_filter_simps split: option.split)

lemma getDeltasSince_deltas: "getDeltasSince r (Some n) s =
    take n (js_sort (cmp_by md_version num_cmp) (filter (\<lambda>d. md_version d > dr_fromVersion r \<and> md_version d \<le> get_or MAX_SAFE_INTEGER (dr_toVersion r))
      (deltas_of (domainKey (dr_domain r) (dr_channelId r)) (workspace_of (dr_workspaceId r) s))))"
  by (cases "jm_get (mf_workspaces s) (dr_workspaceId r)")
    (simp_all add: getDeltasSince_def workspace_of_def deltas_of_def jm_get_or_def empty_manifest_def)

definition request_for :: "manifest_workspace \<Rightarrow> string \<Rightarrow> manifest_entry \<Rightarrow> diff_request" where
  "request_for ws w e = \<lparr>dr_domain = me_domain e, dr_workspaceId = w, dr_channelId = truthy_string (me_channelId e),
     dr_fromVersion = version_of (entry_key e) ws, dr_toVersion = Some (me_version e)\<rparr>"

lemma request_key [simp]: "domainKey (dr_domain (request_for ws w e)) (dr_channelId (request_for ws w e)) = entry_key e"
  by (simp add: request_for_def entry_key_def)

lemma request_summary [simp]: "request_for ws w (summary_entry e) = request_for ws w e" "me_version (summary_entry e) = me_version e"
  by (simp_all add: request_for_def) (simp_all add: summary_entry_def truthy_string_def)

lemma requests_iff:
  assumes "keyed (workspace_of w remote)" "keyed (workspace_of w here)"
  shows "r \<in> set (buildDiffRequest lc now w (getSummary lc now w remote) here) \<longleftrightarrow>
    (\<exists>e. jm_get (mw_versions (workspace_of w remote)) (entry_key e) = Some e \<and>
      version_of (entry_key e) (workspace_of w here) < me_version e \<and> r = request_for (workspace_of w here) w e)"
proof -
  have "r \<in> set (buildDiffRequest lc now w (getSummary lc now w remote) here) \<longleftrightarrow>
      (\<exists>x \<in> set (mu_versions (getSummary lc now w remote)). version_of (entry_key x) (workspace_of w here) < me_version x \<and>
        r = request_for (workspace_of w here) w x)"
    unfolding buildDiffRequest_def Let_def local_versions [OF assms(2)] in_map_filter
    by (rule bex_cong [OF refl]) (auto simp: request_for_def)
  also have "\<dots> \<longleftrightarrow> (\<exists>e. jm_get (mw_versions (workspace_of w remote)) (entry_key e) = Some e \<and>
      version_of (entry_key e) (workspace_of w here) < me_version e \<and> r = request_for (workspace_of w here) w e)" (is "?S \<longleftrightarrow> ?E")
  proof
    assume ?S
    then obtain x where x: "x \<in> set (mu_versions (getSummary lc now w remote))" "version_of (entry_key x) (workspace_of w here) < me_version x"
      "r = request_for (workspace_of w here) w x" by blast
    then obtain e where e: "x = summary_entry e" "jm_get (mw_versions (workspace_of w remote)) (entry_key x) = Some e"
      using summary_in [OF assms(1)] by blast
    with x show ?E by (intro exI [of _ e]) simp
  next
    assume ?E
    then obtain e where e: "jm_get (mw_versions (workspace_of w remote)) (entry_key e) = Some e"
      "version_of (entry_key e) (workspace_of w here) < me_version e" "r = request_for (workspace_of w here) w e" by blast
    then have "summary_entry e \<in> set (mu_versions (getSummary lc now w remote))" by (simp add: summary_in [OF assms(1)])
    with e show ?S by (intro bexI [of _ "summary_entry e"]) simp_all
  qed
  finally show ?thesis .
qed

lemma request_for_simps [simp]:
  "dr_workspaceId (request_for ws w e) = w" "dr_fromVersion (request_for ws w e) = version_of (entry_key e) ws"
  "dr_toVersion (request_for ws w e) = Some (me_version e)"
  by (simp_all add: request_for_def)

text \<open>What is exchanged: of every key that is newer at the remote side, the deltas in between.\<close>

lemma exchanged_iff:
  assumes "workspace_inv lc w (workspace_of w remote)" "workspace_inv lc w (workspace_of w here)"
    and "\<forall>k. length (deltas_of k (workspace_of w remote)) \<le> limit"
  shows "d \<in> set (exchanged lc now w limit remote here) \<longleftrightarrow>
    d \<in> set (deltas_of (delta_key d) (workspace_of w remote)) \<and> version_of (delta_key d) (workspace_of w here) < md_version d"
proof -
  define R where "R = workspace_of w remote"
  define v where "v = (\<lambda>k. version_of k (workspace_of w here))"
  have since: "set (getDeltasSince r (Some limit) remote) =
      {d \<in> set (deltas_of (domainKey (dr_domain r) (dr_channelId r)) R). dr_fromVersion r < md_version d \<and> md_version d \<le> get_or MAX_SAFE_INTEGER (dr_toVersion r)}"
    if "dr_workspaceId r = w" for r
  proof -
    have "length (filter P (deltas_of k R)) \<le> limit" for P k
      using assms(3) by (metis R_def le_trans length_filter_le)
    then show ?thesis
      using that by (auto simp: getDeltasSince_deltas R_def)
  qed
  have log: "delta_key d = k \<and> md_version d \<le> version_of k R" if "d \<in> set (deltas_of k R)" for d k
    using assms(1) that by (simp add: workspace_inv_def log_inv_def R_def)
  define req where "req = request_for (workspace_of w here) w"
  note reqs = requests_iff [OF inv_keyed [OF assms(1)] inv_keyed [OF assms(2)], where now = now, folded R_def req_def]
  have keys: "entry_key e = k" if "jm_get (mw_versions R) k = Some e" for k e
    using assms(1) that by (simp add: workspace_inv_def entry_inv_def R_def)
  show ?thesis
  proof
    assume "d \<in> set (exchanged lc now w limit remote here)"
    then obtain r where "r \<in> set (buildDiffRequest lc now w (getSummary lc now w remote) here)" "d \<in> set (getDeltasSince r (Some limit) remote)"
      by (auto simp: exchanged_def)
    with reqs obtain e where "d \<in> set (deltas_of (entry_key e) R)" "v (entry_key e) < md_version d"
      by (auto simp: since req_def v_def)
    then show "d \<in> set (deltas_of (delta_key d) (workspace_of w remote)) \<and> version_of (delta_key d) (workspace_of w here) < md_version d"
      using log by (auto simp: R_def v_def)
  next
    assume d: "d \<in> set (deltas_of (delta_key d) (workspace_of w remote)) \<and> version_of (delta_key d) (workspace_of w here) < md_version d"
    define k where "k = delta_key d"
    have le: "md_version d \<le> version_of k R" using d log by (auto simp: k_def R_def)
    then have "0 < version_of k R" using d version_nonneg [OF assms(2), of k] by (simp add: k_def)
    then obtain e where e: "jm_get (mw_versions R) k = Some e" "me_version e = version_of k R"
      by (auto simp: version_of_def old_version_def split: option.splits)
    note key = keys [OF e(1)]
    have "req e \<in> set (buildDiffRequest lc now w (getSummary lc now w remote) here)"
      unfolding reqs using e d le key by (intro exI [of _ e]) (auto simp: k_def)
    moreover have "d \<in> set (getDeltasSince (req e) (Some limit) remote)"
      using d le e key by (simp add: since req_def k_def R_def)
    ultimately show "d \<in> set (exchanged lc now w limit remote here)" by (auto simp: exchanged_def)
  qed
qed


text \<open>The delta lists of two replicas agree on what an id stands for.\<close>

definition same_ids :: "string \<Rightarrow> manifest_store \<Rightarrow> manifest_store \<Rightarrow> bool" where
  "same_ids w s t \<longleftrightarrow> (\<forall>k. \<forall>x \<in> set (deltas_of k (workspace_of w s)). \<forall>y \<in> set (deltas_of k (workspace_of w t)).
     md_opId x = md_opId y \<longrightarrow> x = y)"

lemma getVersion_of: "getVersion w d c s = version_of (domainKey d c) (workspace_of w s)"
  by (simp add: getVersion_def version_of_def workspace_of_def jm_get_or_def empty_manifest_def old_version_def split: option.split)

lemma sync_from_workspace:
  assumes "workspace_inv lc w (workspace_of w remote)" "workspace_inv lc w (workspace_of w here)"
    and "\<forall>k. length (deltas_of k (workspace_of w remote)) \<le> limit"
  shows "workspace_of w (sync_from lc now w limit remote here) =
    fold (apply_ws lc) (exchanged lc now w limit remote here) (workspace_of w here)"
proof -
  have "\<forall>d \<in> set (exchanged lc now w limit remote here). md_workspaceId d = w"
  proof
    fix d
    assume "d \<in> set (exchanged lc now w limit remote here)"
    then have "d \<in> set (deltas_of (delta_key d) (workspace_of w remote))" by (simp only: exchanged_iff [OF assms])
    with assms(1) show "md_workspaceId d = w" by (simp add: workspace_inv_def log_inv_def)
  qed
  then show ?thesis unfolding sync_from_def by (rule batch_workspace)
qed

lemma sync_version:
  assumes "workspace_inv lc w (workspace_of w remote)" "workspace_inv lc w (workspace_of w here)"
    and "\<forall>k. length (deltas_of k (workspace_of w remote)) \<le> limit"
  shows "version_of k (workspace_of w (sync_from lc now w limit remote here)) =
    max (version_of k (workspace_of w remote)) (version_of k (workspace_of w here))"
proof -
  define ds where "ds = exchanged lc now w limit remote here"
  define v where "v = version_of k (workspace_of w here)"
  define u where "u = version_of k (workspace_of w remote)"
  have mem: "d \<in> set ds \<and> delta_key d = k \<longleftrightarrow> d \<in> set (deltas_of k (workspace_of w remote)) \<and> v < md_version d" for d
    using exchanged_iff [OF assms, of d now] assms(1) by (auto simp: ds_def v_def workspace_inv_def log_inv_def)
  have "md_version d \<le> u" if "d \<in> set (deltas_of k (workspace_of w remote))" for d
    using assms(1) that by (simp add: workspace_inv_def log_inv_def u_def)
  then have "fold max (map md_version (filter (\<lambda>d. delta_key d = k) ds)) v \<le> max u v"
    using mem by (intro fold_max_le) (auto simp: le_max_iff_disj)
  moreover have "max u v \<le> fold max (map md_version (filter (\<lambda>d. delta_key d = k) ds)) v"
  proof (cases "u \<le> v")
    case False
    then have "0 < u" using version_nonneg [OF assms(2), of k] by (simp add: v_def)
    then obtain e where "jm_get (mw_versions (workspace_of w remote)) k = Some e" "me_version e = u"
      by (auto simp: u_def version_of_def old_version_def split: option.splits)
    moreover from this assms(1) have "entry_inv w k (deltas_of k (workspace_of w remote)) e" by (simp add: workspace_inv_def)
    ultimately obtain d where "d \<in> set (deltas_of k (workspace_of w remote))" "md_version d = u"
      using \<open>0 < u\<close> by (auto simp: entry_inv_def)
    with mem False have "u \<in> set (map md_version (filter (\<lambda>d. delta_key d = k) ds))" by force
    then have "u \<le> fold max (map md_version (filter (\<lambda>d. delta_key d = k) ds)) v" by (rule fold_max_mem)
    with False show ?thesis by simp
  qed (simp add: fold_max_ge)
  ultimately show ?thesis
    by (simp add: sync_from_workspace [OF assms] fold_version ds_def [symmetric] v_def [symmetric] u_def [symmetric])
qed

text \<open>
  Property C10. One exchange catches up: after a store has applied the deltas it asked for, its version of every domain is
  the greater of both sides' versions, and it holds every delta of the remote side that is newer than what it had,
  and all of its own. Both sides must satisfy the store's invariant, which updates and deltas keep and restoring an older
  snapshot breaks; the same delta id must mean the same delta on both sides; and no domain of the remote side may
  have more deltas than the reply limit.
\<close>

theorem exchange_catches_up:
  assumes "manifest_inv lc remote" "manifest_inv lc here" "same_ids w remote here"
    and "\<forall>k. length (deltas_of k (workspace_of w remote)) \<le> limit"
  shows "getVersion w d c (sync_from lc now w limit remote here) = max (getVersion w d c remote) (getVersion w d c here) \<and>
    (\<forall>x. x \<in> set (deltas_of (domainKey d c) (workspace_of w remote)) \<and> getVersion w d c here < md_version x \<or>
         x \<in> set (deltas_of (domainKey d c) (workspace_of w here)) \<longrightarrow>
       x \<in> set (deltas_of (domainKey d c) (workspace_of w (sync_from lc now w limit remote here))))"
proof (intro conjI allI impI)
  note inv = workspace_of_inv [OF assms(1), of w] workspace_of_inv [OF assms(2), of w]
  define ds where "ds = exchanged lc now w limit remote here"
  define k where "k = domainKey d c"
  show "getVersion w d c (sync_from lc now w limit remote here) = max (getVersion w d c remote) (getVersion w d c here)"
    by (simp add: getVersion_of sync_version [OF inv assms(4)])
  have key: "delta_key x = j" if "x \<in> set (deltas_of j (workspace_of w s))" "s = remote \<or> s = here" for x j s
    using inv that by (auto simp: workspace_inv_def log_inv_def)
  fix x
  assume x: "x \<in> set (deltas_of (domainKey d c) (workspace_of w remote)) \<and> getVersion w d c here < md_version x \<or>
    x \<in> set (deltas_of (domainKey d c) (workspace_of w here))"
  have "x \<in> set (deltas_of k (fold (apply_ws lc) ds (workspace_of w here)))"
  proof (cases "x \<in> set (deltas_of k (workspace_of w here))")
    case True
    then show ?thesis by (rule fold_apply_keeps)
  next
    case False
    with x have x': "x \<in> set (deltas_of k (workspace_of w remote))" "version_of k (workspace_of w here) < md_version x"
      by (auto simp: k_def getVersion_of)
    have kx: "delta_key x = k" using key x'(1) by blast
    have "x \<in> set ds" using exchanged_iff [OF inv assms(4), of x now] x' kx by (simp add: ds_def)
    moreover have "a = b" if "a \<in> set (deltas_of k (workspace_of w here)) \<union> set ds" "b \<in> set ds" "delta_key a = delta_key b"
      "md_opId a = md_opId b" for a b
    proof -
      have b: "b \<in> set (deltas_of (delta_key b) (workspace_of w remote))"
        using exchanged_iff [OF inv assms(4), of b now] that(2) by (simp add: ds_def)
      show ?thesis
      proof (cases "a \<in> set ds")
        case True
        then have "a \<in> set (deltas_of (delta_key b) (workspace_of w remote))"
          using exchanged_iff [OF inv assms(4), of a now] that(3) by (simp add: ds_def)
        moreover have "inj_on md_opId (set (deltas_of (delta_key b) (workspace_of w remote)))"
          using inv(1) by (simp add: workspace_inv_def log_inv_def distinct_map)
        ultimately show ?thesis using b that(4) by (meson inj_onD)
      next
        case False
        with that(1) key have "a \<in> set (deltas_of (delta_key b) (workspace_of w here))" using that(3) by (metis Un_iff)
        with b that(4) assms(3) show ?thesis unfolding same_ids_def by metis
      qed
    qed
    ultimately show ?thesis using fold_apply_in [of x ds "workspace_of w here" lc] key kx by metis
  qed
  then show "x \<in> set (deltas_of (domainKey d c) (workspace_of w (sync_from lc now w limit remote here)))"
    by (simp add: sync_from_workspace [OF inv assms(4)] ds_def k_def)
qed

subsection \<open>What an exchange misses\<close>

lemma no_requests:
  assumes "keyed (workspace_of w s)" "keyed (workspace_of w t)" "\<And>k. version_of k (workspace_of w s) \<le> version_of k (workspace_of w t)"
  shows "buildDiffRequest lc now w (getSummary lc now w s) t = []"
proof -
  have "r \<notin> set (buildDiffRequest lc now w (getSummary lc now w s) t)" for r
  proof
    assume "r \<in> set (buildDiffRequest lc now w (getSummary lc now w s) t)"
    then obtain e where "jm_get (mw_versions (workspace_of w s)) (entry_key e) = Some e" "version_of (entry_key e) (workspace_of w t) < me_version e"
      by (auto simp: requests_iff [OF assms(1,2)])
    with assms(3) [of "entry_key e"] show False by (simp add: version_of_def old_version_def)
  qed
  then show ?thesis by (metis last_in_set)
qed

lemma updateDomain_workspace:
  "workspace_of w (snd (updateDomain lc clock uuid u s)) =
     (if w = du_workspaceId u then
        let ws = workspace_of w s; k = domainKey (du_domain u) (du_channelId u); old = jm_get (mw_versions ws) k;
            now = get_or clock (du_timestamp u)
        in ws\<lparr>mw_versions := jm_set k (updated_entry now u old) (mw_versions ws),
              mw_deltas := jm_set k (deltas_of k ws @ [update_delta now uuid u old]) (mw_deltas ws)\<rparr>
      else workspace_of w s)"
proof -
  have "workspace_of w (notifyChange lc w' t) = workspace_of w t" for w' t by (simp add: workspace_of_def)
  then show ?thesis by (simp add: updateDomain_def Let_def deltas_of_def)
qed

lemma updateDomain_version:
  "version_of k (workspace_of w (snd (updateDomain lc clock uuid u s))) =
     (if w = du_workspaceId u \<and> k = domainKey (du_domain u) (du_channelId u) then version_of k (workspace_of w s) + 1
      else version_of k (workspace_of w s))"
  by (simp add: updateDomain_workspace Let_def version_of_def js_map updated_entry_def old_version_def)

lemma updateDomain_deltas:
  "deltas_of k (workspace_of w (snd (updateDomain lc clock uuid u s))) =
     (if w = du_workspaceId u \<and> k = domainKey (du_domain u) (du_channelId u)
      then deltas_of k (workspace_of w s) @ [fst (updateDomain lc clock uuid u s)] else deltas_of k (workspace_of w s))"
  by (simp add: updateDomain_workspace Let_def) (simp add: deltas_of_def jm_get_or_set updateDomain_def Let_def)

definition fresh_update :: "string \<Rightarrow> domain_update \<Rightarrow> manifest_store \<Rightarrow> bool" where
  "fresh_update uuid u s \<longleftrightarrow> (\<forall>d \<in> set (deltas_of (domainKey (du_domain u) (du_channelId u)) (workspace_of (du_workspaceId u) s)).
     md_opId d \<noteq> get_or uuid (du_opId u))"

lemma updated_id: "md_opId (fst (updateDomain lc clock uuid u s)) = get_or uuid (du_opId u)"
  by (simp add: updateDomain_def Let_def update_delta_def)

text \<open>
  Concurrent updates are lost: when two replicas of a store update the same domain independently, both
  move to the same version, so neither asks the other for anything, and each lacks the other's update.
\<close>

theorem concurrent_updates_never_meet:
  fixes s u v lc clock uuid1 uuid2
  defines "A \<equiv> updateDomain lc clock uuid1 u s" and "B \<equiv> updateDomain lc clock uuid2 v s"
  assumes "manifest_inv lc s" "du_workspaceId v = du_workspaceId u" "fresh_update uuid1 u s" "fresh_update uuid2 v s"
    and "domainKey (du_domain v) (du_channelId v) = domainKey (du_domain u) (du_channelId u)"
    and "get_or uuid1 (du_opId u) \<noteq> get_or uuid2 (du_opId v)"
  shows "buildDiffRequest lc now (du_workspaceId u) (getSummary lc now (du_workspaceId u) (snd A)) (snd B) = [] \<and>
    buildDiffRequest lc now (du_workspaceId u) (getSummary lc now (du_workspaceId u) (snd B)) (snd A) = [] \<and>
    fst A \<notin> set (deltas_of (domainKey (du_domain u) (du_channelId u)) (workspace_of (du_workspaceId u) (snd B))) \<and>
    fst B \<notin> set (deltas_of (domainKey (du_domain u) (du_channelId u)) (workspace_of (du_workspaceId u) (snd A)))"
proof (intro conjI)
  have inv: "manifest_inv lc (snd A)" "manifest_inv lc (snd B)"
    using assms(5,6) unfolding A_def B_def fresh_update_def by (simp_all add: updateDomain_inv [OF assms(3)])
  have "version_of k (workspace_of (du_workspaceId u) (snd A)) = version_of k (workspace_of (du_workspaceId u) (snd B))" for k
    using assms(4,7) by (simp add: A_def B_def updateDomain_version)
  then show "buildDiffRequest lc now (du_workspaceId u) (getSummary lc now (du_workspaceId u) (snd A)) (snd B) = []"
    "buildDiffRequest lc now (du_workspaceId u) (getSummary lc now (du_workspaceId u) (snd B)) (snd A) = []"
    using no_requests inv_keyed workspace_of_inv [OF inv(1)] workspace_of_inv [OF inv(2)] by (metis order_refl)+
  have "fst A \<noteq> fst B" using assms(8) updated_id [of lc clock uuid1 u s] updated_id [of lc clock uuid2 v s] by (auto simp: A_def B_def)
  moreover have "fst A \<notin> set (deltas_of (domainKey (du_domain u) (du_channelId u)) (workspace_of (du_workspaceId u) s))"
    using assms(5) updated_id [of lc clock uuid1 u s] by (auto simp: fresh_update_def A_def)
  moreover have "fst B \<notin> set (deltas_of (domainKey (du_domain u) (du_channelId u)) (workspace_of (du_workspaceId u) s))"
    using assms(4,6,7) updated_id [of lc clock uuid2 v s] by (auto simp: fresh_update_def B_def)
  ultimately show "fst A \<notin> set (deltas_of (domainKey (du_domain u) (du_channelId u)) (workspace_of (du_workspaceId u) (snd B)))"
    "fst B \<notin> set (deltas_of (domainKey (du_domain u) (du_channelId u)) (workspace_of (du_workspaceId u) (snd A)))"
    using assms(4,7) by (auto simp: A_def B_def updateDomain_deltas)
qed

lemma saveSnapshot_workspace:
  "workspace_of w (saveSnapshot lc x s) = (if w = sn_workspaceId x
     then (workspace_of w s)\<lparr>mw_snapshots := jm_set (snapshot_key x) x (mw_snapshots (workspace_of w s)),
       mw_versions := jm_set (snapshot_key x) (snapshot_entry x (jm_get (mw_versions (workspace_of w s)) (snapshot_key x))) (mw_versions (workspace_of w s))\<rparr>
     else workspace_of w s)"
proof -
  have "workspace_of w (notifyChange lc w' t) = workspace_of w t" for w' t by (simp add: workspace_of_def)
  then show ?thesis by (simp add: saveSnapshot_def Let_def)
qed

lemma saveSnapshot_version:
  "version_of k (workspace_of w (saveSnapshot lc x s)) =
     (if w = sn_workspaceId x \<and> k = snapshot_key x then sn_version x else version_of k (workspace_of w s))"
  by (simp add: saveSnapshot_workspace version_of_def js_map snapshot_entry_def old_version_def)

lemma restoreSnapshot_version:
  "getVersion (sn_workspaceId x) (sn_domain x) (sn_channelId x) (snd (restoreSnapshot lc clock uuid x peer s)) = sn_version x + 1"
  by (simp add: getVersion_of restoreSnapshot_def updateDomain_version saveSnapshot_version snapshot_key_def)

text \<open>
  Restoring an older snapshot steps back: the version of the domain falls below the one the peers have, so a
  replica that was in step before asks for nothing and never learns of the restore.
\<close>

theorem restore_is_never_propagated:
  assumes "manifest_inv lc s" "sn_version x < getVersion (sn_workspaceId x) (sn_domain x) (sn_channelId x) s"
  shows "getVersion (sn_workspaceId x) (sn_domain x) (sn_channelId x) (snd (restoreSnapshot lc clock uuid x peer s)) = sn_version x + 1 \<and>
    (\<forall>r \<in> set (buildDiffRequest lc now (sn_workspaceId x) (getSummary lc now (sn_workspaceId x) (snd (restoreSnapshot lc clock uuid x peer s))) s).
       domainKey (dr_domain r) (dr_channelId r) \<noteq> snapshot_key x)"
proof (intro conjI ballI notI)
  show "getVersion (sn_workspaceId x) (sn_domain x) (sn_channelId x) (snd (restoreSnapshot lc clock uuid x peer s)) = sn_version x + 1"
    by (rule restoreSnapshot_version)
  define t where "t = snd (restoreSnapshot lc clock uuid x peer s)"
  note here = inv_keyed [OF workspace_of_inv [OF assms(1)]]
  have "keyed (workspace_of (sn_workspaceId x) (saveSnapshot lc x s))"
    using here [of "sn_workspaceId x"] by (simp add: saveSnapshot_workspace keyed_def js_map snapshot_entry_def entry_key_def snapshot_key_def)
  then have there: "keyed (workspace_of (sn_workspaceId x) t)"
    by (simp add: t_def restoreSnapshot_def updateDomain_workspace Let_def keyed_def js_map updated_entry_def entry_key_def)
  fix r
  assume "r \<in> set (buildDiffRequest lc now (sn_workspaceId x) (getSummary lc now (sn_workspaceId x) (snd (restoreSnapshot lc clock uuid x peer s))) s)"
  then obtain e where e: "jm_get (mw_versions (workspace_of (sn_workspaceId x) t)) (entry_key e) = Some e"
    "version_of (entry_key e) (workspace_of (sn_workspaceId x) s) < me_version e" "r = request_for (workspace_of (sn_workspaceId x) s) (sn_workspaceId x) e"
    by (auto simp: requests_iff [OF there here] t_def [symmetric])
  assume "domainKey (dr_domain r) (dr_channelId r) = snapshot_key x"
  then have "entry_key e = snapshot_key x" using e(3) by simp
  moreover have "version_of (snapshot_key x) (workspace_of (sn_workspaceId x) t) = sn_version x + 1"
    using restoreSnapshot_version [of x lc clock uuid peer s] by (simp add: getVersion_of t_def snapshot_key_def)
  ultimately show False
    using e(1,2) assms(2) by (simp add: getVersion_of version_of_def old_version_def snapshot_key_def)
qed


subsection \<open>Runs\<close>

datatype manifest_call = UpdateDomain time string domain_update | ApplyDelta manifest_delta | ApplyBatch "manifest_delta list"
  | RemoveManifest string

fun manifest_step :: "(string \<Rightarrow> string \<Rightarrow> int) \<Rightarrow> manifest_call \<Rightarrow> manifest_store \<Rightarrow> manifest_store" where
  "manifest_step lc (UpdateDomain clock uuid u) s = snd (updateDomain lc clock uuid u s)"
| "manifest_step lc (ApplyDelta d) s = apply_manifest_delta lc d s"
| "manifest_step lc (ApplyBatch ds) s = applyDeltaBatch lc ds s"
| "manifest_step lc (RemoveManifest w) s = removeManifestWorkspace w s"

text \<open>An id stands for one delta.\<close>

definition known_delta :: "manifest_delta \<Rightarrow> manifest_store \<Rightarrow> bool" where
  "known_delta d s \<longleftrightarrow> unambiguous d (workspace_of (md_workspaceId d) s)"

fun manifest_ok :: "manifest_call \<Rightarrow> manifest_store \<Rightarrow> bool" where
  "manifest_ok (UpdateDomain clock uuid u) s \<longleftrightarrow> fresh_update uuid u s"
| "manifest_ok (ApplyDelta d) s \<longleftrightarrow> known_delta d s"
| "manifest_ok (ApplyBatch ds) s \<longleftrightarrow> (\<forall>d \<in> set ds. known_delta d s) \<and>
     (\<forall>d \<in> set ds. \<forall>e \<in> set ds. md_workspaceId d = md_workspaceId e \<and> delta_key d = delta_key e \<and> md_opId d = md_opId e \<longrightarrow> d = e)"
| "manifest_ok (RemoveManifest w) s \<longleftrightarrow> True"

lemma internal_inv:
  "string_order lc \<Longrightarrow> manifest_inv lc s \<Longrightarrow> known_delta d s \<Longrightarrow> manifest_inv lc (snd (applyDeltaInternal lc d s))"
  unfolding applyDeltaInternal_ws known_delta_def
  by (intro put_workspace_inv apply_ws_inv workspace_of_inv) simp_all

lemma notify_inv [simp]: "manifest_inv lc (notifyChange lc w s) = manifest_inv lc s"
  by (simp add: manifest_inv_def)

lemma known_after:
  assumes "known_delta e s" "md_workspaceId d = md_workspaceId e \<and> delta_key d = delta_key e \<and> md_opId d = md_opId e \<longrightarrow> d = e"
  shows "known_delta e (snd (applyDeltaInternal lc d s))"
  using assms deltas_apply_subset(2) [of _ "delta_key e" lc d "workspace_of (md_workspaceId d) s"]
  unfolding known_delta_def unambiguous_def applyDeltaInternal_ws workspace_of_put by (metis (full_types))

lemma batch_inv:
  assumes "string_order lc" "manifest_inv lc s" "\<forall>d \<in> set ds. known_delta d s"
    and "\<forall>d \<in> set ds. \<forall>e \<in> set ds. md_workspaceId d = md_workspaceId e \<and> delta_key d = delta_key e \<and> md_opId d = md_opId e \<longrightarrow> d = e"
  shows "manifest_inv lc (applyDeltaBatch lc ds s)"
proof -
  have "manifest_inv lc (fst (fold (\<lambda>d (s, touched). let (changed, s') = applyDeltaInternal lc d s
      in (s', if changed then js_add (md_workspaceId d) touched else touched)) ds (s, t)))" for t
    using assms(2-4)
  proof (induction ds arbitrary: s t)
    case (Cons d ds)
    have "manifest_inv lc (snd (applyDeltaInternal lc d s))" using Cons.prems by (intro internal_inv [OF assms(1)]) simp_all
    moreover have "\<forall>e \<in> set ds. known_delta e (snd (applyDeltaInternal lc d s))"
      using Cons.prems by (intro ballI known_after) auto
    ultimately show ?case using Cons.IH Cons.prems(3) by (simp add: split_beta Let_def)
  qed simp
  then show ?thesis by (simp add: applyDeltaBatch_def split_beta manifest_inv_def)
qed

interpretation manifest: machine "manifest_step lc" "\<lambda>c s. string_order lc \<and> manifest_ok c s" "manifest_inv lc" for lc
proof (unfold_locales, elim conjE)
  fix s c
  assume a: "manifest_inv lc s" "string_order lc" "manifest_ok c s"
  then show "manifest_inv lc (manifest_step lc c s)"
  proof (cases c)
    case (UpdateDomain clock uuid u)
    with a show ?thesis by (simp add: updateDomain_inv fresh_update_def)
  next
    case (ApplyDelta d)
    with a internal_inv [of lc s d] show ?thesis by (simp add: apply_manifest_delta_def split_beta)
  next
    case (ApplyBatch ds)
    with a show ?thesis by (simp add: batch_inv)
  next
    case (RemoveManifest w)
    with a show ?thesis by (simp add: removeManifestWorkspace_def manifest_inv_def jm.every_del)
  qed
qed

text \<open>
  Whatever updates and remote deltas a store processes, in single calls or batches, every domain keeps
  its deltas sorted and without repeated ids, no delta is newer than the domain's version, the version is that of a
  delta the store holds, and everything stands under its own key and workspace.
\<close>

theorem manifests_stay_consistent:
  assumes "string_order lc" "manifest_inv lc s" "covered_run (manifest_step lc) (\<lambda>c s. string_order lc \<and> manifest_ok c s) calls s"
  shows "manifest_inv lc (fold (manifest_step lc) calls s)"
  by (rule manifest.run_inv [OF assms(2,3)])

subsection \<open>Concrete stores\<close>

definition demo_update :: "string \<Rightarrow> domain_update" where
  "demo_update peer = \<lparr>du_domain = ''membership'', du_workspaceId = ''w'', du_channelId = None, du_author = peer, du_itemCount = Some 2,
     du_checksum = None, du_timestamp = None, du_opId = None, du_operation = None, du_subject = None, du_data = None\<rparr>"

definition demo_remote :: manifest_store where
  "demo_remote = snd (updateDomain str_cmp 6 ''id2'' (demo_update ''bob'') (snd (updateDomain str_cmp 5 ''id1'' (demo_update ''alice'') new_manifest_store)))"

lemma new_manifest_inv: "manifest_inv lc new_manifest_store"
  by (simp add: manifest_inv_def new_manifest_store_def jm.every_empty)

lemma demo_remote_inv: "manifest_inv str_cmp demo_remote"
proof -
  have "covered_run (manifest_step str_cmp) (\<lambda>c s. string_order str_cmp \<and> manifest_ok c s)
      [UpdateDomain 5 ''id1'' (demo_update ''alice''), UpdateDomain 6 ''id2'' (demo_update ''bob'')] new_manifest_store"
    using js_order.string_order_axioms
    by (simp add: fresh_update_def updateDomain_deltas updated_id)
      (simp add: demo_update_def new_manifest_store_def deltas_of_def workspace_of_def jm_get_or_def empty_manifest_def)
  from manifest.run_inv [OF new_manifest_inv this] show ?thesis by (simp add: demo_remote_def)
qed

lemma manifests_stay_consistent_witness:
  "manifest_inv str_cmp (fold (manifest_step str_cmp) [UpdateDomain 5 ''id1'' (demo_update ''alice'')] new_manifest_store)"
  by (rule manifests_stay_consistent [OF js_order.string_order_axioms new_manifest_inv])
    (use js_order.string_order_axioms in \<open>simp add: fresh_update_def new_manifest_store_def deltas_of_def workspace_of_def
      jm_get_or_def empty_manifest_def\<close>)

lemma new_deltas [simp]: "deltas_of k (workspace_of w new_manifest_store) = []"
  by (simp add: new_manifest_store_def deltas_of_def workspace_of_def jm_get_or_def empty_manifest_def)

lemma exchange_catches_up_witness:
  "getVersion ''w'' ''membership'' None (sync_from str_cmp 9 ''w'' 500 demo_remote new_manifest_store) = 2 \<and>
   getVersion ''w'' ''membership'' None (sync_from str_cmp 9 ''w'' 500 demo_remote new_manifest_store) =
     max (getVersion ''w'' ''membership'' None demo_remote) (getVersion ''w'' ''membership'' None new_manifest_store)"
proof -
  have "\<forall>k. length (deltas_of k (workspace_of ''w'' demo_remote)) \<le> 500"
    by (simp add: demo_remote_def updateDomain_deltas)
  moreover have "same_ids ''w'' demo_remote new_manifest_store" by (simp add: same_ids_def)
  moreover have "max (getVersion ''w'' ''membership'' None demo_remote) (getVersion ''w'' ''membership'' None new_manifest_store) = 2" by code_simp
  ultimately show ?thesis
    using exchange_catches_up [OF demo_remote_inv new_manifest_inv, of "''w''" 500 "''membership''" None 9] by simp
qed

lemma concurrent_updates_never_meet_witness:
  "buildDiffRequest str_cmp 9 ''w'' (getSummary str_cmp 9 ''w'' (snd (updateDomain str_cmp 5 ''a'' (demo_update ''alice'') demo_remote)))
     (snd (updateDomain str_cmp 5 ''b'' (demo_update ''bob'') demo_remote)) = []"
proof -
  have "fresh_update i (demo_update p) demo_remote" if "i \<noteq> ''id1''" "i \<noteq> ''id2''" for i p
    using that by (simp add: fresh_update_def demo_remote_def updateDomain_deltas updated_id) (simp add: demo_update_def)
  with concurrent_updates_never_meet [OF demo_remote_inv, of "demo_update ''bob''" "demo_update ''alice''" "''a''" "''b''" 9 5]
  show ?thesis by (simp add: demo_update_def)
qed

definition demo_snapshot :: manifest_snapshot where
  "demo_snapshot = \<lparr>sn_workspaceId = ''w'', sn_version = 0, sn_snapshotId = ''s'', sn_basedOnVersion = 0, sn_createdAt = 4, sn_createdBy = ''alice'',
     sn_checksum = None, sn_body = MembershipBody 0 []\<rparr>"

lemma restore_is_never_propagated_witness:
  "getVersion ''w'' ''membership'' None (snd (restoreSnapshot str_cmp 9 ''id3'' demo_snapshot ''carol'' demo_remote)) = 1 \<and>
   buildDiffRequest str_cmp 9 ''w'' (getSummary str_cmp 9 ''w'' (snd (restoreSnapshot str_cmp 9 ''id3'' demo_snapshot ''carol'' demo_remote))) demo_remote = []"
proof -
  have "getVersion ''w'' ''membership'' None demo_remote = 2" by code_simp
  with restore_is_never_propagated [OF demo_remote_inv, of demo_snapshot 9 "''id3''" "''carol''" 9]
  have "getVersion ''w'' ''membership'' None (snd (restoreSnapshot str_cmp 9 ''id3'' demo_snapshot ''carol'' demo_remote)) = 1"
    by (simp add: demo_snapshot_def sn_domain_def sn_channelId_def)
  moreover have "buildDiffRequest str_cmp 9 ''w'' (getSummary str_cmp 9 ''w''
      (snd (restoreSnapshot str_cmp 9 ''id3'' demo_snapshot ''carol'' demo_remote))) demo_remote = []"
    by code_simp
  ultimately show ?thesis by simp
qed

end
