(* ===== verification/ManifestImport.thy ===== *)
theory ManifestImport
  imports ManifestSync
begin

section \<open>Export and import of manifests\<close>

text \<open>
  The two import paths of \<open>sync/ManifestStore.ts\<close>, one that collects and sorts once and one that sorts on
  every insertion, are the same function, and importing an exported workspace gives its content back,
  cut to the newest 500 deltas of each domain.
\<close>

subsection \<open>The two import paths\<close>

definition sort_lists :: "(string \<Rightarrow> string \<Rightarrow> int) \<Rightarrow> (string, manifest_delta list) jsmap \<Rightarrow> (string, manifest_delta list) jsmap" where
  "sort_lists lc m = map (\<lambda>(k, ds). (k, js_sort (manifest_delta_cmp lc) ds)) m"

lemma sort_lists_get: "jm_get (sort_lists lc m) k = map_option (js_sort (manifest_delta_cmp lc)) (jm_get m k)"
  by (induction m) (auto simp: sort_lists_def)

lemma sort_lists_set: "sort_lists lc (jm_set k ds m) = jm_set k (js_sort (manifest_delta_cmp lc) ds) (sort_lists lc m)"
  by (induction m) (auto simp: sort_lists_def jm_set_def)

lemma sort_lists_get_or: "jm_get_or [] (sort_lists lc m) k = js_sort (manifest_delta_cmp lc) (jm_get_or [] m k)"
  by (simp add: jm_get_or_def sort_lists_get split: option.split)

lemma sort_again:
  assumes "string_order lc" "distinct (map md_opId (ds @ [d]))"
  shows "js_sort (manifest_delta_cmp lc) (js_sort (manifest_delta_cmp lc) ds @ [d]) = js_sort (manifest_delta_cmp lc) (ds @ [d])"
proof (rule comparator.js_sort_perm [OF delta_comparator [OF assms(1)]])
  fix x y
  assume "x \<in> set (js_sort (manifest_delta_cmp lc) ds @ [d])" "y \<in> set (js_sort (manifest_delta_cmp lc) ds @ [d])" "manifest_delta_cmp lc x y = 0"
  then have "x \<in> set (ds @ [d])" "y \<in> set (ds @ [d])" "md_opId x = md_opId y"
    using delta_cmp_same [OF assms(1)] by auto
  with assms(2) show "x = y" by (meson distinct_map inj_onD)
qed simp_all

definition collected :: "(string, string list) jsmap \<times> (string, manifest_delta list) jsmap \<Rightarrow> bool" where
  "collected acc \<longleftrightarrow> (\<forall>k. set (jm_get_or [] (fst acc) k) = md_opId ` set (jm_get_or [] (snd acc) k) \<and>
     distinct (map md_opId (jm_get_or [] (snd acc) k)))"

lemma collect_step:
  assumes "string_order lc" "collected acc"
  shows "collected (collect_delta w raw acc) \<and>
    sort_lists lc (snd (collect_delta w raw acc)) = insert_delta lc w raw (sort_lists lc (snd acc))"
proof (cases "sanitizeDelta raw w")
  case None
  with assms(2) show ?thesis by (simp add: collect_delta_def insert_delta_def)
next
  case (Some d)
  obtain seen m where acc: "acc = (seen, m)" by (cases acc)
  have ids: "set (jm_get_or [] seen k) = md_opId ` set (jm_get_or [] m k)" "distinct (map md_opId (jm_get_or [] m k))" for k
    using assms(2) by (simp_all add: collected_def acc)
  consider "md_workspaceId d \<noteq> w" | "md_workspaceId d = w" "md_opId d \<in> set (jm_get_or [] seen (delta_key d))"
    | "md_workspaceId d = w" "md_opId d \<notin> set (jm_get_or [] seen (delta_key d))" by blast
  then show ?thesis
  proof cases
    case 3
    then have new: "\<not> (\<exists>x \<in> set (jm_get_or [] m (delta_key d)). md_opId x = md_opId d)" by (auto simp: ids) (metis imageI)
    with 3 Some show ?thesis
      using sort_again [OF assms(1), of "jm_get_or [] m (delta_key d)" d] ids [of "delta_key d"] ids
      by (auto simp: collect_delta_def insert_delta_def acc Let_def collected_def jm_get_or_set sort_lists_set sort_lists_get_or)
  next
    case 2
    then have "\<exists>x \<in> set (jm_get_or [] m (delta_key d)). md_opId x = md_opId d" by (auto simp: ids)
    with 2 Some ids show ?thesis
      by (simp add: collect_delta_def insert_delta_def acc Let_def collected_def jm_get_or_set sort_lists_get_or)
  qed (use Some assms(2) in \<open>simp add: collect_delta_def insert_delta_def\<close>)
qed

lemma import_paths:
  assumes "string_order lc"
  shows "import_deltas lc w raws = fold (insert_delta lc w) raws []"
proof -
  have "sort_lists lc (snd (fold (collect_delta w) raws acc)) = fold (insert_delta lc w) raws (sort_lists lc (snd acc)) \<and>
      collected (fold (collect_delta w) raws acc)" if "collected acc" for acc
    using that
  proof (induction raws arbitrary: acc)
    case (Cons raw raws)
    with collect_step [OF assms Cons.prems, of w raw] show ?case by simp
  qed simp
  from this [of "([], [])"] show ?thesis
    by (simp add: import_deltas_def sort_lists_def collected_def jm_get_or_def)
qed

text \<open>
  The optimised import of a workspace, which looks ids up in a set and sorts every list once at the end,
  does exactly what the older import of a whole state does with it, for every value, well-formed or not.
\<close>

theorem import_paths_agree:
  assumes "string_order lc"
  shows "import_one lc raw m = (case sanitizeWorkspaceState lc raw of None \<Rightarrow> m | Some (w, ws) \<Rightarrow> jm_set w ws m)"
  by (simp add: import_one_def sanitizeWorkspaceState_def import_paths [OF assms] Let_def split: option.split)

lemma import_paths_agree_witness:
  "import_one str_cmp (JObj [(''workspaceId'', JStr ''w''), (''deltas'', JNull)]) [] = [] \<and>
   import_one str_cmp (JObj [(''workspaceId'', JStr ''w''), (''deltas'', JNull)]) [] =
     (case sanitizeWorkspaceState str_cmp (JObj [(''workspaceId'', JStr ''w''), (''deltas'', JNull)]) of
        None \<Rightarrow> [] | Some (w, ws) \<Rightarrow> jm_set w ws [])"
proof
  show "import_one str_cmp (JObj [(''workspaceId'', JStr ''w''), (''deltas'', JNull)]) [] =
     (case sanitizeWorkspaceState str_cmp (JObj [(''workspaceId'', JStr ''w''), (''deltas'', JNull)]) of
        None \<Rightarrow> [] | Some (w, ws) \<Rightarrow> jm_set w ws [])"
    by (rule import_paths_agree [OF js_order.string_order_axioms])
qed code_simp

subsection \<open>The round trip\<close>

lemma import_versions_view:
  assumes "w \<noteq> []" "\<forall>e \<in> set es. entry_ok w e"
  shows "import_versions w (map view_entry es) = fold (\<lambda>e m. jm_set (entry_key e) e m) es []"
proof -
  have "fold (\<lambda>raw m. case sanitizeVersionEntry raw w of Some e \<Rightarrow> if me_workspaceId e \<noteq> w then m else jm_set (entry_key e) e m | None \<Rightarrow> m)
      (map view_entry es) m = fold (\<lambda>e m. jm_set (entry_key e) e m) es m" for m
    using assms(2) by (induction es arbitrary: m) (simp_all add: sanitize_entry_view [OF assms(1)] entry_ok_def)
  then show ?thesis by (simp add: import_versions_def)
qed

lemma find_key:
  assumes "wf_map m" "\<And>k x. jm_get m k = Some x \<Longrightarrow> f x = k" "mset xs = mset (jm_values m)"
  shows "find (\<lambda>x. f x = k) xs = jm_get m k" "distinct (map f xs)"
proof -
  have set: "set xs = {x. \<exists>k. jm_get m k = Some x}" using assms(1,3) by (metis set_jm_values set_mset_mset)
  show "find (\<lambda>x. f x = k) xs = jm_get m k"
  proof (cases "find (\<lambda>x. f x = k) xs")
    case None
    with set assms(2) show ?thesis by (cases "jm_get m k") (auto simp: find_None_iff)
  next
    case (Some x)
    with find_Some_in [OF Some] set assms(2) show ?thesis by auto
  qed
  have "map f (jm_values m) = jm_keys m"
    unfolding jm_values_def jm_keys_def map_map
    by (rule map_cong [OF refl]) (use assms(1,2) in \<open>auto simp: jm_get_iff\<close>)
  with assms(1) have "distinct (map f (jm_values m))" by (simp add: wf_map_def)
  moreover have "mset (map f xs) = mset (map f (jm_values m))" using assms(3) by simp
  ultimately show "distinct (map f xs)" by (metis mset_eq_imp_distinct_iff)
qed

lemma import_snapshots_view:
  assumes "w \<noteq> []" "\<forall>x \<in> set xs. snapshot_ok w x" "distinct (map snapshot_key xs)"
  shows "import_snapshots w (map view_snapshot xs) = fold (\<lambda>x m. jm_set (snapshot_key x) x m) xs []"
proof -
  define f where "f = (\<lambda>raw m. case sanitizeSnapshot raw w of None \<Rightarrow> m
     | Some x \<Rightarrow> if sn_workspaceId x \<noteq> w then m
         else case jm_get m (snapshot_key x) of None \<Rightarrow> jm_set (snapshot_key x) x m
         | Some old \<Rightarrow> if sn_version old \<le> sn_version x then jm_set (snapshot_key x) x m else m)"
  have "fold f (map view_snapshot xs) m = fold (\<lambda>x m. jm_set (snapshot_key x) x m) xs m"
    if "\<forall>x \<in> set xs. jm_get m (snapshot_key x) = None" for m
    using assms(2,3) that
  proof (induction xs arbitrary: m)
    case (Cons x xs)
    have "f (view_snapshot x) m = jm_set (snapshot_key x) x m"
      using Cons.prems by (simp add: f_def sanitize_snapshot_view [OF assms(1)] snapshot_ok_def)
    moreover have "fold f (map view_snapshot xs) (jm_set (snapshot_key x) x m) = fold (\<lambda>x m. jm_set (snapshot_key x) x m) xs (jm_set (snapshot_key x) x m)"
      using Cons.prems by (intro Cons.IH) (auto simp: js_map image_iff)
    ultimately show ?case by simp
  qed simp
  then show ?thesis by (simp add: import_snapshots_def f_def)
qed

lemma insert_deltas_view:
  assumes "string_order lc" "w \<noteq> []" "\<forall>d \<in> set ds. delta_ok w d" "\<And>k. distinct (map md_opId (filter (\<lambda>d. delta_key d = k) ds))"
  shows "jm_get_or [] (import_deltas lc w (map view_delta ds)) k = js_sort (manifest_delta_cmp lc) (filter (\<lambda>d. delta_key d = k) ds)"
proof -
  define group where "group = (\<lambda>m ds k. jm_get_or [] m k @ filter (\<lambda>d. delta_key d = k) ds)"
  have "jm_get_or [] (snd (fold (collect_delta w) (map view_delta ds) acc)) k = group (snd acc) ds k"
    if "collected acc" "\<And>k. distinct (map md_opId (group (snd acc) ds k))" for acc
    using assms(3) that
  proof (induction ds arbitrary: acc)
    case (Cons d ds)
    obtain seen m where acc: "acc = (seen, m)" by (cases acc)
    have new: "md_opId d \<notin> set (jm_get_or [] seen (delta_key d))"
      using Cons.prems(2) Cons.prems(3) [of "delta_key d"] by (auto simp: collected_def acc group_def)
    have step: "collect_delta w (view_delta d) acc =
        (jm_set (delta_key d) (js_add (md_opId d) (jm_get_or [] seen (delta_key d))) seen, jm_set (delta_key d) (jm_get_or [] m (delta_key d) @ [d]) m)"
      using Cons.prems(1) new by (simp add: collect_delta_def sanitize_delta_view [OF assms(2)] delta_ok_def acc Let_def)
    have "group (snd (collect_delta w (view_delta d) acc)) ds k = group (snd acc) (d # ds) k" for k
      unfolding step by (simp add: acc group_def jm_get_or_set)
    moreover have "collected (collect_delta w (view_delta d) acc)" using collect_step [OF assms(1) Cons.prems(2)] by blast
    ultimately show ?case using Cons.IH [of "collect_delta w (view_delta d) acc"] Cons.prems(1,3) by simp
  qed (simp add: group_def)
  from this [of "([], [])"] assms(4)
  have "jm_get_or [] (snd (fold (collect_delta w) (map view_delta ds) ([], []))) k = filter (\<lambda>d. delta_key d = k) ds"
    by (simp add: group_def collected_def jm_get_or_def)
  then show ?thesis by (simp add: import_deltas_def sort_lists_get_or sort_lists_def [symmetric])
qed


definition exportable :: "string \<Rightarrow> manifest_workspace \<Rightarrow> bool" where
  "exportable w ws \<longleftrightarrow> w \<noteq> [] \<and> wf_map (mw_snapshots ws) \<and>
     (\<forall>e \<in> set (jm_values (mw_versions ws)). entry_ok w e) \<and>
     (\<forall>ds \<in> set (jm_values (mw_deltas ws)). \<forall>d \<in> set ds. delta_ok w d) \<and>
     (\<forall>x \<in> set (jm_values (mw_snapshots ws)). snapshot_ok w x) \<and>
     (\<forall>k x. jm_get (mw_snapshots ws) k = Some x \<longrightarrow> snapshot_key x = k) \<and>
     (mw_versions ws \<noteq> [] \<or> mw_snapshots ws \<noteq> [])"

lemma filter_concat_key:
  assumes "wf_map m" "\<And>j ds d. jm_get m j = Some ds \<Longrightarrow> d \<in> set (g ds) \<Longrightarrow> f d = j"
  shows "filter (\<lambda>d. f d = k) (concat (map (\<lambda>(j, ds). g ds) m)) = (case jm_get m k of None \<Rightarrow> [] | Some ds \<Rightarrow> g ds)"
  using assms
proof (induction m)
  case (Cons x m)
  obtain j ds where x: "x = (j, ds)" by (cases x)
  have wf: "wf_map m" "\<not> jm_has m j" using Cons.prems(1) by (auto simp: x wf_map_def jm_keys_def jm_has_keys)
  have "f d = i" if "jm_get m i = Some es" "d \<in> set (g es)" for i es d
  proof -
    have "i \<noteq> j" using that(1) wf(2) by (auto simp: jm_has_def)
    with Cons.prems(2) [of i es d] that show ?thesis by (simp add: x)
  qed
  then have IH: "filter (\<lambda>d. f d = k) (concat (map (\<lambda>(j, ds). g ds) m)) = (case jm_get m k of None \<Rightarrow> [] | Some ds \<Rightarrow> g ds)"
    using Cons.IH wf(1) by blast
  have "filter (\<lambda>d. f d = k) (g ds) = (if j = k then g ds else [])"
    using Cons.prems(2) [of j ds] by (auto simp: x filter_id_conv filter_empty_conv)
  with IH wf(2) show ?case by (auto simp: x jm_has_def)
qed simp

lemma newest_of_log:
  assumes "in_order (manifest_delta_cmp lc) ds"
  shows "newest_deltas lc ds = drop (length ds - MAX_DELTAS_PER_DOMAIN) ds"
  by (simp add: newest_deltas_def Let_def js_sort_in_order [OF assms])

lemma exported_deltas:
  assumes "string_order lc" "workspace_inv lc w ws" "exportable w ws"
  shows "jm_get_or [] (import_deltas lc w (map view_delta (mx_deltas (export_workspace lc w ws)))) k =
    drop (length (deltas_of k ws) - MAX_DELTAS_PER_DOMAIN) (deltas_of k ws)"
proof -
  have log: "log_inv lc w j (version_of j ws) (deltas_of j ws)" for j using assms(2) by (simp add: workspace_inv_def)
  define g where "g = newest_deltas lc"
  define all where "all = concat (map (\<lambda>(j, ds). g ds) (mw_deltas ws))"
  have wf: "wf_map (mw_deltas ws)" using assms(2) by (simp add: workspace_inv_def)
  have g: "g (deltas_of j ws) = drop (length (deltas_of j ws) - MAX_DELTAS_PER_DOMAIN) (deltas_of j ws)" for j
    using log [of j] by (simp add: g_def newest_of_log log_inv_def)
  have get: "jm_get (mw_deltas ws) j = Some ds \<Longrightarrow> deltas_of j ws = ds" for j ds by (simp add: deltas_of_def jm_get_or_def)
  have keys: "delta_key d = j" if "jm_get (mw_deltas ws) j = Some ds" "d \<in> set (g ds)" for j ds d
    using log [of j] g [of j] get [OF that(1)] that(2) by (auto simp: log_inv_def dest: in_set_dropD)
  have all: "filter (\<lambda>d. delta_key d = j) all = g (deltas_of j ws)" for j
  proof -
    have "filter (\<lambda>d. delta_key d = j) all = (case jm_get (mw_deltas ws) j of None \<Rightarrow> [] | Some ds \<Rightarrow> g ds)"
      unfolding all_def by (rule filter_concat_key [OF wf keys])
    then show ?thesis
      by (cases "jm_get (mw_deltas ws) j") (simp_all add: deltas_of_def jm_get_or_def g_def newest_deltas_def)
  qed
  have parts: "in_order (manifest_delta_cmp lc) (g (deltas_of j ws))" "distinct (map md_opId (g (deltas_of j ws)))" for j
    using log [of j] by (simp_all add: g log_inv_def sorted_wrt_drop distinct_drop flip: drop_map)
  define L where "L = js_sort (export_cmp lc) all"
  have L: "mset (filter (\<lambda>d. delta_key d = j) L) = mset (g (deltas_of j ws))" for j
    by (simp add: L_def flip: all [of j])
  have "\<forall>d \<in> set all. delta_ok w d"
  proof
    fix d
    assume "d \<in> set all"
    then obtain j ds where "(j, ds) \<in> set (mw_deltas ws)" "d \<in> set (g ds)" by (auto simp: all_def)
    then have "d \<in> set ds" "ds \<in> set (jm_values (mw_deltas ws))"
      by (auto simp: g_def newest_deltas_def Let_def jm_values_def rev_image_eqI dest: in_set_dropD split: if_splits)
    with assms(3) show "delta_ok w d" by (auto simp: exportable_def)
  qed
  then have "\<forall>d \<in> set L. delta_ok w d" by (simp add: L_def)
  moreover have "distinct (map md_opId (filter (\<lambda>d. delta_key d = j) L))" for j
    using parts(2) [of j] L [of j] by (metis mset_map mset_eq_imp_distinct_iff)
  ultimately have "jm_get_or [] (import_deltas lc w (map view_delta L)) k = js_sort (manifest_delta_cmp lc) (filter (\<lambda>d. delta_key d = k) L)"
    using assms(1,3) by (intro insert_deltas_view) (simp_all add: exportable_def)
  also have "\<dots> = g (deltas_of k ws)"
  proof (rule comparator.js_sort_unique [OF delta_comparator [OF assms(1)]])
    fix x y
    assume "x \<in> set (filter (\<lambda>d. delta_key d = k) L)" "y \<in> set (filter (\<lambda>d. delta_key d = k) L)" "manifest_delta_cmp lc x y = 0"
    moreover have "set (filter (\<lambda>d. delta_key d = k) L) = set (g (deltas_of k ws))" using L [of k] by (metis set_mset_mset)
    ultimately show "x = y" using parts(2) [of k] delta_cmp_same [OF assms(1)] by (metis distinct_map inj_onD)
  qed (use L parts in simp_all)
  finally show ?thesis by (simp add: g L_def all_def export_workspace_def g_def [symmetric])
qed




subsection \<open>What import accepts\<close>

definition well_formed_state :: "(string \<Rightarrow> string \<Rightarrow> int) \<Rightarrow> string \<Rightarrow> manifest_workspace \<Rightarrow> bool" where
  "well_formed_state lc w ws \<longleftrightarrow> w \<noteq> [] \<and>
     jm.every (\<lambda>k e. entry_key e = k \<and> entry_ok w e) (mw_versions ws) \<and>
     jm.every (\<lambda>k ds. in_order (manifest_delta_cmp lc) ds \<and> distinct (map md_opId ds) \<and> (\<forall>d \<in> set ds. delta_key d = k \<and> delta_ok w d)) (mw_deltas ws) \<and>
     jm.every (\<lambda>k x. snapshot_key x = k \<and> snapshot_ok w x) (mw_snapshots ws)"

lemma truthy_Some: "truthy_string s = Some t \<longleftrightarrow> s = Some t \<and> t \<noteq> []"
  by (auto simp: truthy_string_def)

lemma sanitized_entry_ok: "sanitizeVersionEntry raw w' = Some e \<Longrightarrow> me_workspaceId e = w \<Longrightarrow> entry_ok w e"
  by (auto simp: sanitizeVersionEntry_def entry_ok_def text_field_def truthy_Some split: option.splits if_splits)

lemma sanitized_delta_ok: "sanitizeDelta raw w' = Some d \<Longrightarrow> md_workspaceId d = w \<Longrightarrow> delta_ok w d"
  by (auto simp: sanitizeDelta_def delta_ok_def text_field_def truthy_Some split: option.splits if_splits)

lemma sanitized_member_ok: "m \<in> set (List.map_filter sanitize_member vs) \<Longrightarrow> member_ok m"
proof -
  have "sanitize_member v = Some m \<Longrightarrow> member_ok m" for v
    by (auto simp: sanitize_member_def member_ok_def split: option.split_asm if_split_asm)
  then show "m \<in> set (List.map_filter sanitize_member vs) \<Longrightarrow> member_ok m" by (auto simp: in_map_filter)
qed

lemma sanitized_body_ok: "sanitize_body domain raw = Some b \<Longrightarrow> body_ok b"
  using sanitized_member_ok
  by (auto simp: sanitize_body_def sanitize_workspace_body_def sanitize_membership_body_def sanitize_channel_body_def
      sanitize_message_body_def text_field_def truthy_Some list_all_iff split: option.splits if_splits)

lemma sanitized_snapshot_ok: "sanitizeSnapshot raw w' = Some x \<Longrightarrow> sn_workspaceId x = w \<Longrightarrow> snapshot_ok w x"
  using sanitized_body_ok
  by (auto simp: sanitizeSnapshot_def snapshot_ok_def text_field_def truthy_Some split: option.splits if_splits)

lemma every_fold: "jm.every P m \<Longrightarrow> (\<And>x m. jm.every P m \<Longrightarrow> jm.every P (f x m)) \<Longrightarrow> jm.every P (fold f xs m)"
  by (induction xs arbitrary: m) simp_all

lemma every_versions: "jm.every (\<lambda>k e. entry_key e = k \<and> entry_ok w e) (import_versions w raws)"
  unfolding import_versions_def
  by (rule every_fold [OF jm.every_empty]) (auto intro!: jm.every_put dest: sanitized_entry_ok split: option.split)

lemma every_snapshots: "jm.every (\<lambda>k x. snapshot_key x = k \<and> snapshot_ok w x) (import_snapshots w raws)"
  unfolding import_snapshots_def
  by (rule every_fold [OF jm.every_empty]) (auto intro!: jm.every_put dest: sanitized_snapshot_ok split: option.split)

lemma every_deltas:
  assumes "string_order lc"
  shows "jm.every (\<lambda>k ds. in_order (manifest_delta_cmp lc) ds \<and> distinct (map md_opId ds) \<and> (\<forall>d \<in> set ds. delta_key d = k \<and> delta_ok w d))
    (import_deltas lc w raws)"
  unfolding import_paths [OF assms]
proof (rule every_fold [OF jm.every_empty])
  fix raw m
  define P where "P = (\<lambda>k ds. in_order (manifest_delta_cmp lc) ds \<and> distinct (map md_opId ds) \<and> (\<forall>d \<in> set ds. delta_key d = k \<and> delta_ok w d))"
  assume m: "jm.every P m"
  show "jm.every P (insert_delta lc w raw m)"
  proof (cases "sanitizeDelta raw w")
    case (Some d)
    have old: "P k (jm_get_or [] m k)" for k
      using m by (cases "jm_get m k") (simp_all add: jm_get_or_def jm.every_def P_def)
    have sorted: "in_order (manifest_delta_cmp lc) (js_sort (manifest_delta_cmp lc) xs)" for xs
      by (rule comparator.in_order_sort [OF delta_comparator [OF assms]]) simp
    show ?thesis
    proof (cases "md_workspaceId d \<noteq> w \<or> (\<exists>x \<in> set (jm_get_or [] m (delta_key d)). md_opId x = md_opId d)")
      case True
      with Some m show ?thesis by (auto simp: insert_delta_def Let_def)
    next
      case False
      then have fresh: "md_opId d \<notin> md_opId ` set (jm_get_or [] m (delta_key d))" by (metis imageE)
      have "P (delta_key d) (js_sort (manifest_delta_cmp lc) (jm_get_or [] m (delta_key d) @ [d]))"
        using fresh old [of "delta_key d"] sanitized_delta_ok [OF Some] False sorted by (simp add: P_def)
      with Some m False show ?thesis by (simp add: insert_delta_def Let_def jm.every_put)
    qed
  qed (use m in \<open>simp add: insert_delta_def\<close>)
qed

text \<open>
  Property C22. Whatever value arrives, import accepts a workspace only in well-formed shape: required strings are there and
  not empty, counts are numbers, roles are one of the three, everything belongs to the workspace and stands under its
  own key, and every delta list is sorted and without repeated ids.
\<close>

theorem imported_state_is_well_formed:
  assumes "string_order lc" "sanitizeWorkspaceState lc raw = Some (w, ws)"
  shows "well_formed_state lc w ws"
  using assms(2) every_versions every_snapshots every_deltas [OF assms(1)]
  by (auto simp: sanitizeWorkspaceState_def well_formed_state_def text_field_def truthy_Some Let_def split: option.splits if_splits)

definition demo_raw :: json where
  "demo_raw = JObj [(''workspaceId'', JStr ''w''), (''versions'', JArr [JNull, JNum 3,
     JObj [(''domain'', JStr ''membership''), (''version'', JNum 1), (''itemCount'', JNum 2), (''lastUpdatedAt'', JNum 5), (''lastUpdatedBy'', JStr ''a'')],
     JObj [(''domain'', JStr ''membership''), (''version'', JStr ''1'')]])]"

lemma imported_state_is_well_formed_witness:
  "\<exists>ws. sanitizeWorkspaceState str_cmp demo_raw = Some (''w'', ws) \<and> well_formed_state str_cmp ''w'' ws \<and> length (mw_versions ws) = 1"
proof -
  have "map_option (\<lambda>(w, ws). (w, length (mw_versions ws))) (sanitizeWorkspaceState str_cmp demo_raw) = Some (''w'', 1)" by code_simp
  then obtain ws where "sanitizeWorkspaceState str_cmp demo_raw = Some (''w'', ws)" "length (mw_versions ws) = 1" by auto
  with imported_state_is_well_formed [OF js_order.string_order_axioms this(1)] show ?thesis by blast
qed

end
