(* ===== verification/PreKeys.thy ===== *)
theory PreKeys
  imports Prelude
begin

section \<open>Pre-key bundles and their life cycle\<close>

text \<open>
  \<open>messages/PreKeyTypes.ts\<close> and \<open>messages/PreKeyLifecyclePolicy.ts\<close>: the public bundle a peer
  publishes, the decision when to rotate the signed pre-key, the plan for the local one-time keys, and the
  normalisation of a bundle received from a peer. Times are milliseconds.
\<close>

definition PRE_KEY_BUNDLE_VERSION :: int where
  "PRE_KEY_BUNDLE_VERSION = 1"

datatype pre_key_type = SignedKey | OneTimeKey

record signed_entry =
  sp_keyId :: int
  sp_publicKey :: string
  sp_signature :: string
  sp_createdAt :: time
  sp_expiresAt :: time

record one_time_entry =
  ot_keyId :: int
  ot_publicKey :: string
  ot_createdAt :: time

record pre_key_bundle =
  pb_version :: int
  pb_peerId :: string
  pb_generatedAt :: time
  pb_signingPublicKey :: string
  pb_signedPreKey :: signed_entry
  pb_oneTimePreKeys :: "one_time_entry list"

record session_init =
  si_bundleVersion :: int
  si_keyId :: int
  si_keyType :: pre_key_type
  si_ephemeral :: string
  si_createdAt :: time

text \<open>The default policy: 30 days, 7 days, 21 days, 45 days, 20 keys, 8 keys.\<close>

definition signedPreKeyTtlMs :: time where
  "signedPreKeyTtlMs = 30 * 24 * 60 * 60 * 1000"

definition signedPreKeyRefreshWindowMs :: time where
  "signedPreKeyRefreshWindowMs = 7 * 24 * 60 * 60 * 1000"

definition maxOneTimePreKeyAgeMs :: time where
  "maxOneTimePreKeyAgeMs = 21 * 24 * 60 * 60 * 1000"

definition maxPeerBundleAgeMs :: time where
  "maxPeerBundleAgeMs = 45 * 24 * 60 * 60 * 1000"

definition targetOneTimePreKeys :: nat where
  "targetOneTimePreKeys = 20"

definition lowWatermarkOneTimePreKeys :: nat where
  "lowWatermarkOneTimePreKeys = 8"

lemmas policy_defs = signedPreKeyTtlMs_def signedPreKeyRefreshWindowMs_def maxOneTimePreKeyAgeMs_def
  maxPeerBundleAgeMs_def targetOneTimePreKeys_def lowWatermarkOneTimePreKeys_def

subsection \<open>The signed pre-key\<close>

record signed_decision =
  regenerateAll :: bool
  rotateSignedPreKey :: bool

text \<open>The argument is the expiry of the signed pre-key, if there is one.\<close>

definition decideSignedPreKeyLifecycle :: "time \<Rightarrow> time option \<Rightarrow> signed_decision" where
  "decideSignedPreKeyLifecycle now expiry =
     (case expiry of
        None \<Rightarrow> \<lparr>regenerateAll = True, rotateSignedPreKey = False\<rparr>
      | Some e \<Rightarrow>
          (if e \<le> now then \<lparr>regenerateAll = True, rotateSignedPreKey = False\<rparr>
           else \<lparr>regenerateAll = False, rotateSignedPreKey = (e - now \<le> signedPreKeyRefreshWindowMs)\<rparr>))"

subsection \<open>The local one-time keys\<close>

record one_time_plan =
  staleKeyIds :: "int list"
  retainedCount :: nat
  replenishCount :: nat

definition planLocalOneTimePreKeyLifecycle :: "time \<Rightarrow> (int \<times> time) list \<Rightarrow> one_time_plan" where
  "planLocalOneTimePreKeyLifecycle now entries =
     (let stale = map fst (filter (\<lambda>(i, created). created < now - maxOneTimePreKeyAgeMs) entries);
          retained = length entries - length stale
      in \<lparr>staleKeyIds = stale, retainedCount = retained,
          replenishCount = (if retained < lowWatermarkOneTimePreKeys then targetOneTimePreKeys - retained else 0)\<rparr>)"

subsection \<open>Bundles of peers\<close>

fun keep_entries :: "time \<Rightarrow> int list \<Rightarrow> one_time_entry list \<Rightarrow> one_time_entry list" where
  "keep_entries oldest seen [] = []"
| "keep_entries oldest seen (e # es) =
     (if ot_publicKey e = [] \<or> ot_keyId e \<le> 0 \<or> ot_createdAt e < oldest \<or> ot_keyId e \<in> set seen
      then keep_entries oldest seen es
      else e # keep_entries oldest (ot_keyId e # seen) es)"

definition normalizePeerPreKeyBundle :: "time \<Rightarrow> pre_key_bundle \<Rightarrow> pre_key_bundle option" where
  "normalizePeerPreKeyBundle now b =
     (if pb_version b \<noteq> PRE_KEY_BUNDLE_VERSION then None
      else if pb_signingPublicKey b = [] \<or> sp_publicKey (pb_signedPreKey b) = [] \<or>
              sp_signature (pb_signedPreKey b) = [] then None
      else if sp_expiresAt (pb_signedPreKey b) \<le> now then None
      else if pb_generatedAt b = 0 \<or> pb_generatedAt b < now - maxPeerBundleAgeMs then None
      else Some (b\<lparr>pb_oneTimePreKeys :=
             keep_entries (now - maxOneTimePreKeyAgeMs) [] (js_sort (cmp_by ot_keyId num_cmp) (pb_oneTimePreKeys b))\<rparr>))"

fun one_time_differs :: "one_time_entry list \<Rightarrow> one_time_entry list \<Rightarrow> bool" where
  "one_time_differs (a # as) (b # bs) \<longleftrightarrow>
     (ot_keyId a \<noteq> ot_keyId b \<or> ot_publicKey a \<noteq> ot_publicKey b \<or> ot_createdAt a \<noteq> ot_createdAt b) \<or> one_time_differs as bs"
| "one_time_differs _ _ \<longleftrightarrow> False"

definition hasPeerPreKeyBundleChanged :: "pre_key_bundle \<Rightarrow> pre_key_bundle \<Rightarrow> bool" where
  "hasPeerPreKeyBundleChanged b c \<longleftrightarrow>
     (if pb_version b \<noteq> pb_version c then True
      else if pb_peerId b \<noteq> pb_peerId c then True
      else if pb_generatedAt b \<noteq> pb_generatedAt c then True
      else if pb_signingPublicKey b \<noteq> pb_signingPublicKey c then True
      else if sp_keyId (pb_signedPreKey b) \<noteq> sp_keyId (pb_signedPreKey c) \<or>
              sp_publicKey (pb_signedPreKey b) \<noteq> sp_publicKey (pb_signedPreKey c) \<or>
              sp_signature (pb_signedPreKey b) \<noteq> sp_signature (pb_signedPreKey c) \<or>
              sp_createdAt (pb_signedPreKey b) \<noteq> sp_createdAt (pb_signedPreKey c) \<or>
              sp_expiresAt (pb_signedPreKey b) \<noteq> sp_expiresAt (pb_signedPreKey c) then True
      else if length (pb_oneTimePreKeys b) \<noteq> length (pb_oneTimePreKeys c) then True
      else one_time_differs (pb_oneTimePreKeys b) (pb_oneTimePreKeys c))"

subsection \<open>Properties\<close>

lemma one_time_differs_iff: "length as = length bs \<Longrightarrow> one_time_differs as bs \<longleftrightarrow> as \<noteq> bs"
  by (induction as bs rule: list_induct2) (auto intro: one_time_entry.equality)

lemma changed_iff: "hasPeerPreKeyBundleChanged b c \<longleftrightarrow> b \<noteq> c"
proof
  show "hasPeerPreKeyBundleChanged b c \<Longrightarrow> b \<noteq> c"
    by (auto simp: hasPeerPreKeyBundleChanged_def one_time_differs_iff)
  have "\<not> hasPeerPreKeyBundleChanged b c \<Longrightarrow> b = c"
    by (rule pre_key_bundle.equality; (rule signed_entry.equality)?)
      (auto simp: hasPeerPreKeyBundleChanged_def one_time_differs_iff split: if_splits)
  then show "b \<noteq> c \<Longrightarrow> hasPeerPreKeyBundleChanged b c" by blast
qed

definition usable_entry :: "time \<Rightarrow> one_time_entry \<Rightarrow> bool" where
  "usable_entry now e \<longleftrightarrow> ot_publicKey e \<noteq> [] \<and> 0 < ot_keyId e \<and> now - maxOneTimePreKeyAgeMs \<le> ot_createdAt e"

lemma set_keep_entries:
  "e \<in> set (keep_entries oldest seen es) \<Longrightarrow>
     e \<in> set es \<and> ot_publicKey e \<noteq> [] \<and> 0 < ot_keyId e \<and> oldest \<le> ot_createdAt e \<and> ot_keyId e \<notin> set seen"
proof (induction es arbitrary: seen)
  case (Cons a es)
  then show ?case using Cons.IH [of seen] Cons.IH [of "ot_keyId a # seen"] by (auto split: if_splits)
qed simp

lemma keep_entries_strict:
  "sorted (map ot_keyId es) \<Longrightarrow> sorted_wrt (<) (map ot_keyId (keep_entries oldest seen es))"
proof (induction es arbitrary: seen)
  case (Cons e es)
  have "ot_keyId e < ot_keyId x" if "x \<in> set (keep_entries oldest (ot_keyId e # seen) es)" for x
    using set_keep_entries [OF that] Cons.prems by force
  then show ?case using Cons by auto
qed simp

lemma keep_entries_complete:
  "e \<in> set es \<Longrightarrow> ot_publicKey e \<noteq> [] \<Longrightarrow> 0 < ot_keyId e \<Longrightarrow> oldest \<le> ot_createdAt e \<Longrightarrow>
    ot_keyId e \<notin> set seen \<Longrightarrow> \<exists>f \<in> set (keep_entries oldest seen es). ot_keyId f = ot_keyId e"
proof (induction es arbitrary: seen)
  case (Cons x es)
  then show ?case
    by (cases "ot_keyId x = ot_keyId e") (force split: if_splits)+
qed simp

lemma keep_entries_same:
  assumes "sorted_wrt (<) (map ot_keyId es)" "list_all (\<lambda>e. ot_publicKey e \<noteq> [] \<and> 0 < ot_keyId e \<and> oldest \<le> ot_createdAt e) es"
    and "\<And>e. e \<in> set es \<Longrightarrow> ot_keyId e \<notin> set seen"
  shows "keep_entries oldest seen es = es"
  using assms
proof (induction es arbitrary: seen)
  case (Cons e es)
  then have "keep_entries oldest (ot_keyId e # seen) es = es" by (intro Cons.IH) fastforce+
  with Cons.prems show ?case by simp
qed simp

text \<open>
  What is left of a peer's bundle: nothing but its one-time keys changes; they are in
  strictly increasing order of their ids, each is usable, every id that had a usable key still has one,
  and normalising again at the same time changes nothing.
\<close>

theorem normalized_bundle:
  assumes "normalizePeerPreKeyBundle now b = Some c"
  shows "c = b\<lparr>pb_oneTimePreKeys := pb_oneTimePreKeys c\<rparr> \<and>
    sorted_wrt (<) (map ot_keyId (pb_oneTimePreKeys c)) \<and>
    set (pb_oneTimePreKeys c) \<subseteq> {e \<in> set (pb_oneTimePreKeys b). usable_entry now e} \<and>
    ot_keyId ` set (pb_oneTimePreKeys c) = ot_keyId ` {e \<in> set (pb_oneTimePreKeys b). usable_entry now e} \<and>
    normalizePeerPreKeyBundle now c = Some c"
proof -
  let ?o = "now - maxOneTimePreKeyAgeMs" and ?s = "js_sort (cmp_by ot_keyId num_cmp) (pb_oneTimePreKeys b)"
  have c: "c = b\<lparr>pb_oneTimePreKeys := keep_entries ?o [] ?s\<rparr>"
    using assms by (simp add: normalizePeerPreKeyBundle_def split: if_splits)
  have "in_order (cmp_by ot_keyId num_cmp) ?s"
    by (rule comparator.in_order_sort [OF comparator_by [OF num.comparator_axioms]]) simp
  then have "sorted (map ot_keyId ?s)"
    by (simp add: sorted_wrt_map cmp_by_def num_cmp_def)
  then have strict: "sorted_wrt (<) (map ot_keyId (pb_oneTimePreKeys c))"
    by (simp add: c keep_entries_strict)
  have sub: "set (pb_oneTimePreKeys c) \<subseteq> {e \<in> set (pb_oneTimePreKeys b). usable_entry now e}"
    using set_keep_entries [of _ ?o "[]" ?s] by (auto simp: c usable_entry_def)
  have "ot_keyId e \<in> ot_keyId ` set (pb_oneTimePreKeys c)" if "e \<in> set (pb_oneTimePreKeys b)" "usable_entry now e" for e
  proof -
    have "\<exists>f \<in> set (pb_oneTimePreKeys c). ot_keyId f = ot_keyId e"
      using keep_entries_complete [of e ?s ?o "[]"] that by (simp add: c usable_entry_def)
    then show ?thesis by (metis imageI)
  qed
  with sub have ids: "ot_keyId ` set (pb_oneTimePreKeys c) = ot_keyId ` {e \<in> set (pb_oneTimePreKeys b). usable_entry now e}"
    by blast
  have "js_sort (cmp_by ot_keyId num_cmp) (pb_oneTimePreKeys c) = pb_oneTimePreKeys c"
    using strict by (intro js_sort_in_order) (auto simp: sorted_wrt_map cmp_by_def num_cmp_def elim: sorted_wrt_mono_rel [rotated])
  moreover have "keep_entries ?o [] (pb_oneTimePreKeys c) = pb_oneTimePreKeys c"
    using strict sub by (intro keep_entries_same) (auto simp: list_all_iff usable_entry_def)
  ultimately have "normalizePeerPreKeyBundle now c = Some c"
    using assms by (simp add: normalizePeerPreKeyBundle_def c split: if_splits)
  with c strict sub ids show ?thesis by simp
qed

definition sample_bundle :: pre_key_bundle where
  "sample_bundle = \<lparr>pb_version = 1, pb_peerId = ''p'', pb_generatedAt = 4000, pb_signingPublicKey = ''k'',
     pb_signedPreKey = \<lparr>sp_keyId = 1, sp_publicKey = ''s'', sp_signature = ''g'', sp_createdAt = 1, sp_expiresAt = 9000\<rparr>,
     pb_oneTimePreKeys = [\<lparr>ot_keyId = 2, ot_publicKey = ''b'', ot_createdAt = 1\<rparr>,
       \<lparr>ot_keyId = 1, ot_publicKey = ''a'', ot_createdAt = 1\<rparr>, \<lparr>ot_keyId = 2, ot_publicKey = ''c'', ot_createdAt = 1\<rparr>]\<rparr>"

lemma normalized_bundle_witness:
  "\<exists>c. normalizePeerPreKeyBundle 5000 sample_bundle = Some c \<and> normalizePeerPreKeyBundle 5000 c = Some c"
proof -
  have "normalizePeerPreKeyBundle 5000 sample_bundle \<noteq> None"
    by (simp add: sample_bundle_def normalizePeerPreKeyBundle_def PRE_KEY_BUNDLE_VERSION_def policy_defs)
  then obtain c where "normalizePeerPreKeyBundle 5000 sample_bundle = Some c" by blast
  with normalized_bundle [OF this] show ?thesis by blast
qed

end
