(* ===== verification/Base64.thy ===== *)
theory Base64
  imports Prelude "HOL-Library.Word"
begin

section \<open>Bytes and base64\<close>

text \<open>
  The helpers \<open>arrayBufferToBase64\<close> and \<open>base64ToArrayBuffer\<close> that \<open>crypto/DoubleRatchet.ts\<close> and
  \<open>media/ChunkedTransfer.ts\<close> each define on top of \<open>btoa\<close> and \<open>atob\<close>. A buffer is a list of bytes. \<open>atob\<close> follows the
  forgiving decoder of the platform: it drops white space and up to two \<open>=\<close>, and throws
  (\<open>None\<close>) on anything else that is not base64.
\<close>

type_synonym bytes = "8 word list"

definition b64_alphabet :: string where
  "b64_alphabet = ''ABCDEFGHIJKLMNOPQRSTUVWXYZabcdefghijklmnopqrstuvwxyz0123456789+/''"

definition b64_char :: "nat \<Rightarrow> char" where
  "b64_char i = b64_alphabet ! i"

text \<open>The six-bit groups of a buffer, without padding.\<close>

fun sextets :: "nat list \<Rightarrow> nat list" where
  "sextets [] = []"
| "sextets [a] = [a div 4, a mod 4 * 16]"
| "sextets [a, b] = [a div 4, a mod 4 * 16 + b div 16, b mod 16 * 4]"
| "sextets (a # b # c # rest) =
     (a div 4) # (a mod 4 * 16 + b div 16) # (b mod 16 * 4 + c div 64) # (c mod 64) # sextets rest"

definition btoa :: "nat list \<Rightarrow> string" where
  "btoa bs = map b64_char (sextets bs) @ replicate ((3 - length bs mod 3) mod 3) CHR ''=''"

fun unsextets :: "nat list \<Rightarrow> nat list" where
  "unsextets (x # y # z # w # rest) = (x * 4 + y div 16) # (y mod 16 * 16 + z div 4) # (z mod 4 * 64 + w) # unsextets rest"
| "unsextets [x, y, z] = [x * 4 + y div 16, y mod 16 * 16 + z div 4]"
| "unsextets [x, y] = [x * 4 + y div 16]"
| "unsextets _ = []"

fun index_of :: "'a \<Rightarrow> 'a list \<Rightarrow> nat option" where
  "index_of x [] = None"
| "index_of x (y # ys) = (if x = y then Some 0 else map_option Suc (index_of x ys))"

definition is_blank :: "char \<Rightarrow> bool" where
  "is_blank c \<longleftrightarrow> (of_char c :: nat) \<in> {9, 10, 12, 13, 32}"

definition strip_padding :: "string \<Rightarrow> string" where
  "strip_padding s =
     (if length s mod 4 \<noteq> 0 then s
      else if s \<noteq> [] \<and> last s = CHR ''=''
      then (if butlast s \<noteq> [] \<and> last (butlast s) = CHR ''='' then butlast (butlast s) else butlast s)
      else s)"

definition atob :: "string \<Rightarrow> nat list option" where
  "atob s =
     (let t = strip_padding (filter (\<lambda>c. \<not> is_blank c) s)
      in if length t mod 4 = 1 \<or> \<not> list_all (\<lambda>c. index_of c b64_alphabet \<noteq> None) t then None
         else Some (unsextets (map (\<lambda>c. the (index_of c b64_alphabet)) t)))"

definition arrayBufferToBase64 :: "bytes \<Rightarrow> string" where
  "arrayBufferToBase64 bs = btoa (map unat bs)"

definition base64ToArrayBuffer :: "string \<Rightarrow> bytes option" where
  "base64ToArrayBuffer s = map_option (map of_nat) (atob s)"

text \<open>Two hexadecimal digits per byte.\<close>

definition hex_bytes :: "bytes \<Rightarrow> string" where
  "hex_bytes bs = concat (map (\<lambda>b. [hex_digit (unat b div 16), hex_digit (unat b mod 16)]) bs)"

subsection \<open>The round trip\<close>

lemma sextets_lt: "list_all (\<lambda>a. a < 256) bs \<Longrightarrow> i \<in> set (sextets bs) \<Longrightarrow> i < 64"
  by (induction bs rule: sextets.induct) auto

lemma sextets_length: "length (sextets bs) mod 4 + (3 - length bs mod 3) mod 3 = (if length bs mod 3 = 0 then 0 else 4)"
proof (induction bs rule: sextets.induct)
  case (4 a b c rest)
  have "length (sextets (a # b # c # rest)) mod 4 = length (sextets rest) mod 4" by simp
  moreover have "length (a # b # c # rest) mod 3 = length rest mod 3"
    by (metis add.commute list.size(4) mod_add_self2 numeral_3_eq_3 add_Suc_right add_0_right plus_1_eq_Suc)
  ultimately show ?case using 4 by presburger
qed simp_all

lemma digit_div: "y < n \<Longrightarrow> (x * n + y) div n = (x :: nat)"
  by (simp add: add.commute)

lemma digit_mod: "y < n \<Longrightarrow> (x * n + y) mod n = (y :: nat)"
  by (simp add: add.commute)

lemma high_bits:
  "a < 256 \<Longrightarrow> a div 16 < (16 :: nat)" "a < 256 \<Longrightarrow> a div 64 < (4 :: nat)"
  by simp_all

lemma unsextets_sextets: "list_all (\<lambda>a. a < 256) bs \<Longrightarrow> unsextets (sextets bs) = bs"
  by (induction bs rule: sextets.induct) (simp_all add: digit_div digit_mod high_bits)

lemma b64_table: "list_all (\<lambda>i. index_of (b64_char i) b64_alphabet = Some i \<and> \<not> is_blank (b64_char i) \<and>
    b64_char i \<noteq> CHR ''='' \<and> b64_char i \<noteq> CHR '':'') [0..<64]"
  by code_simp

lemma b64_char_props:
  "i < 64 \<Longrightarrow> index_of (b64_char i) b64_alphabet = Some i" "i < 64 \<Longrightarrow> \<not> is_blank (b64_char i)"
  "i < 64 \<Longrightarrow> b64_char i \<noteq> CHR ''=''" "i < 64 \<Longrightarrow> b64_char i \<noteq> CHR '':''"
  using b64_table by (simp_all add: list_all_iff)

lemma strip_padding_btoa:
  assumes "list_all (\<lambda>a. a < 256) bs"
  shows "strip_padding (btoa bs) = map b64_char (sextets bs)"
proof -
  define cs where "cs = map b64_char (sextets bs)"
  define n where "n = (3 - length bs mod 3) mod 3"
  have no_pad: "c \<noteq> CHR ''=''" if "c \<in> set cs" for c
    using that sextets_lt [OF assms] b64_char_props(3) by (auto simp: cs_def)
  have len: "length cs mod 4 + n = (if length bs mod 3 = 0 then 0 else 4)"
    using sextets_length [of bs] by (simp add: cs_def n_def)
  have n: "n = 0 \<or> n = 1 \<or> n = 2" by (auto simp: n_def)
  have "(length cs + n) mod 4 = 0" using len by presburger
  moreover have "n \<noteq> 0 \<Longrightarrow> cs \<noteq> []" using len n by (auto split: if_splits)
  ultimately have "strip_padding (cs @ replicate n CHR ''='') = cs"
    using n no_pad last_in_set [of cs]
    by (elim disjE) (auto simp: strip_padding_def numeral_2_eq_2 butlast_append)
  then show ?thesis by (simp add: btoa_def cs_def n_def)
qed

lemma atob_btoa:
  assumes "list_all (\<lambda>a. a < 256) bs"
  shows "atob (btoa bs) = Some bs"
proof -
  define ss where "ss = sextets bs"
  have lt: "i < 64" if "i \<in> set ss" for i using that sextets_lt [OF assms] by (simp add: ss_def)
  have "filter (\<lambda>c. \<not> is_blank c) (btoa bs) = btoa bs"
    using lt b64_char_props(2) by (auto simp: btoa_def filter_id_conv ss_def is_blank_def)
  moreover have "length ss mod 4 \<noteq> 1"
    using sextets_length [of bs] by (auto simp: ss_def split: if_splits)
  moreover have "map (\<lambda>c. the (index_of c b64_alphabet)) (map b64_char ss) = ss"
    using lt b64_char_props(1) by (simp add: map_idI)
  ultimately show ?thesis
    using lt b64_char_props(1) unsextets_sextets [OF assms]
    by (simp add: atob_def strip_padding_btoa [OF assms] list_all_iff Let_def comp_def flip: ss_def)
qed

lemma bytes_lt: "list_all (\<lambda>a. a < 256) (map unat (bs :: bytes))"
proof -
  have "unat w < 2 ^ LENGTH(8)" for w :: "8 word" by (rule unsigned_less)
  then show ?thesis by (simp add: list_all_iff)
qed

lemma base64_roundtrip: "base64ToArrayBuffer (arrayBufferToBase64 bs) = Some bs"
  by (simp add: base64ToArrayBuffer_def arrayBufferToBase64_def atob_btoa comp_def bytes_lt)

lemma base64_inject [simp]: "arrayBufferToBase64 a = arrayBufferToBase64 b \<longleftrightarrow> a = b"
  by (metis base64_roundtrip option.inject)

lemma base64_no_colon: "CHR '':'' \<notin> set (arrayBufferToBase64 bs)"
  using sextets_lt [OF bytes_lt] b64_char_props(4) by (force simp: arrayBufferToBase64_def btoa_def)

end
