(* ===== verification/TextCoding.thy ===== *)
theory TextCoding
  imports Base64
begin

section \<open>TextEncoder and TextDecoder\<close>

text \<open>
  The part of the platform's encoding API the code uses: \<open>new TextEncoder().encode(s)\<close> and
  \<open>new TextDecoder().decode(bytes)\<close>. A text is the list of its UTF-16 code units, as the language has
  it. The encoder replaces a lone surrogate by U+FFFD; the decoder is the state machine of the
  encoding standard (bytes still needed, code point so far, bounds of the next byte), replaces every
  ill-formed sequence by U+FFFD and drops a leading byte order mark.
\<close>

type_synonym js_text = "nat list"

definition high_surrogate :: "nat \<Rightarrow> bool" where
  "high_surrogate u \<longleftrightarrow> 0xD800 \<le> u \<and> u \<le> 0xDBFF"

definition low_surrogate :: "nat \<Rightarrow> bool" where
  "low_surrogate u \<longleftrightarrow> 0xDC00 \<le> u \<and> u \<le> 0xDFFF"

abbreviation replacement :: nat where
  "replacement \<equiv> 0xFFFD"

fun code_points :: "js_text \<Rightarrow> nat list" where
  "code_points [] = []"
| "code_points [u] = [if high_surrogate u \<or> low_surrogate u then replacement else u]"
| "code_points (u # v # us) =
     (if high_surrogate u \<and> low_surrogate v
      then (0x10000 + (u - 0xD800) * 1024 + (v - 0xDC00)) # code_points us
      else (if high_surrogate u \<or> low_surrogate u then replacement else u) # code_points (v # us))"

definition code_units :: "nat \<Rightarrow> js_text" where
  "code_units c = (if c < 0x10000 then [c] else [0xD800 + (c - 0x10000) div 1024, 0xDC00 + (c - 0x10000) mod 1024])"

definition utf8_point :: "nat \<Rightarrow> nat list" where
  "utf8_point c =
     (if c < 0x80 then [c]
      else if c < 0x800 then [0xC0 + c div 64, 0x80 + c mod 64]
      else if c < 0x10000 then [0xE0 + c div 4096, 0x80 + c div 64 mod 64, 0x80 + c mod 64]
      else [0xF0 + c div 262144, 0x80 + c div 4096 mod 64, 0x80 + c div 64 mod 64, 0x80 + c mod 64])"

definition encode_text :: "js_text \<Rightarrow> bytes" where
  "encode_text t = map of_nat (concat (map utf8_point (code_points t)))"

type_synonym decoder = "nat \<times> nat \<times> nat \<times> nat"

definition idle :: decoder where
  "idle = (0, 0, 0x80, 0xBF)"

definition lead_byte :: "nat \<Rightarrow> nat list \<times> decoder" where
  "lead_byte b =
     (if b \<le> 0x7F then ([b], idle)
      else if 0xC2 \<le> b \<and> b \<le> 0xDF then ([], (1, b - 0xC0, 0x80, 0xBF))
      else if 0xE0 \<le> b \<and> b \<le> 0xEF
      then ([], (2, b - 0xE0, if b = 0xE0 then 0xA0 else 0x80, if b = 0xED then 0x9F else 0xBF))
      else if 0xF0 \<le> b \<and> b \<le> 0xF4
      then ([], (3, b - 0xF0, if b = 0xF0 then 0x90 else 0x80, if b = 0xF4 then 0x8F else 0xBF))
      else ([replacement], idle))"

fun decode_byte :: "decoder \<Rightarrow> nat \<Rightarrow> nat list \<times> decoder" where
  "decode_byte (needed, cp, lo, hi) b =
     (if needed = 0 then lead_byte b
      else if b < lo \<or> hi < b then (case lead_byte b of (out, s) \<Rightarrow> (replacement # out, s))
      else if needed = 1 then ([cp * 64 + (b - 0x80)], idle)
      else ([], (needed - 1, cp * 64 + (b - 0x80), 0x80, 0xBF)))"

fun decode_points :: "decoder \<Rightarrow> nat list \<Rightarrow> nat list" where
  "decode_points s [] = (if fst s = 0 then [] else [replacement])"
| "decode_points s (b # bs) = (case decode_byte s b of (out, s') \<Rightarrow> out @ decode_points s' bs)"

definition skip_bom :: "nat list \<Rightarrow> nat list" where
  "skip_bom cs = (case cs of [] \<Rightarrow> [] | c # cs' \<Rightarrow> if c = 0xFEFF then cs' else cs)"

definition decode_text :: "bytes \<Rightarrow> js_text" where
  "decode_text bs = concat (map code_units (skip_bom (decode_points idle (map unat bs))))"

subsection \<open>The round trip\<close>

text \<open>Texts the encoding keeps: surrogates in pairs, no byte order mark in front.\<close>

fun paired :: "js_text \<Rightarrow> bool" where
  "paired [] \<longleftrightarrow> True"
| "paired [u] \<longleftrightarrow> u < 0x10000 \<and> \<not> high_surrogate u \<and> \<not> low_surrogate u"
| "paired (u # v # us) \<longleftrightarrow>
     (if high_surrogate u then low_surrogate v \<and> paired us
      else u < 0x10000 \<and> \<not> low_surrogate u \<and> paired (v # us))"

definition plain_text :: "js_text \<Rightarrow> bool" where
  "plain_text t \<longleftrightarrow> paired t \<and> (t = [] \<or> hd t \<noteq> 0xFEFF)"

definition scalar :: "nat \<Rightarrow> bool" where
  "scalar c \<longleftrightarrow> c < 0x110000 \<and> \<not> high_surrogate c \<and> \<not> low_surrogate c"

lemmas surrogate_defs = high_surrogate_def low_surrogate_def

lemma utf8_point_bytes: "scalar c \<Longrightarrow> b \<in> set (utf8_point c) \<Longrightarrow> b < 256"
  unfolding utf8_point_def scalar_def by (auto split: if_splits)

lemma scalar_code_points: "paired t \<Longrightarrow> c \<in> set (code_points t) \<Longrightarrow> scalar c"
  by (induction t rule: code_points.induct) (auto simp: scalar_def surrogate_defs split: if_splits)

lemma code_units_pair:
  assumes "high_surrogate u" "low_surrogate v"
  shows "code_units (0x10000 + (u - 0xD800) * 1024 + (v - 0xDC00)) = [u, v]"
proof -
  have "v - 0xDC00 < 1024" "u = 0xD800 + (u - 0xD800)" "v = 0xDC00 + (v - 0xDC00)"
    using assms by (auto simp: surrogate_defs)
  then show ?thesis using digit_div [of "v - 0xDC00" 1024 "u - 0xD800"] digit_mod [of "v - 0xDC00" 1024 "u - 0xD800"]
    by (simp add: code_units_def)
qed

lemma code_units_single: "u < 0x10000 \<Longrightarrow> code_units u = [u]"
  by (simp add: code_units_def)

lemma units_of_points: "paired t \<Longrightarrow> concat (map code_units (code_points t)) = t"
  by (induction t rule: code_points.induct)
    (simp_all add: code_units_pair code_units_single del: One_nat_def split: if_splits)

lemma lead_bytes:
  "c < 0x80 \<Longrightarrow> lead_byte c = ([c], idle)"
  "2 \<le> a \<Longrightarrow> a < 32 \<Longrightarrow> lead_byte (0xC0 + a) = ([], (1, a, 0x80, 0xBF))"
  "a < 16 \<Longrightarrow> lead_byte (0xE0 + a) = ([], (2, a, if a = 0 then 0xA0 else 0x80, if a = 13 then 0x9F else 0xBF))"
  "a < 5 \<Longrightarrow> lead_byte (0xF0 + a) = ([], (3, a, if a = 0 then 0x90 else 0x80, if a = 4 then 0x8F else 0xBF))"
  by (auto simp: lead_byte_def)

lemma decode_lead: "decode_points idle (b # bs) = (case lead_byte b of (out, s) \<Rightarrow> out @ decode_points s bs)"
  by (simp add: idle_def)

lemma decode_more:
  assumes "b < 64" "lo \<le> 0x80 + b" "0x80 + b \<le> hi"
  shows "decode_points (1, cp, lo, hi) ((0x80 + b) # bs) = (cp * 64 + b) # decode_points idle bs"
    and "decode_points (2, cp, lo, hi) ((0x80 + b) # bs) = decode_points (1, cp * 64 + b, 0x80, 0xBF) bs"
    and "decode_points (3, cp, lo, hi) ((0x80 + b) # bs) = decode_points (2, cp * 64 + b, 0x80, 0xBF) bs"
  using assms by simp_all

lemma decode_point_2:
  assumes "2 \<le> a" "a < 32" "b < 64"
  shows "decode_points idle ((0xC0 + a) # (0x80 + b) # bs) = (a * 64 + b) # decode_points idle bs"
  unfolding decode_lead lead_bytes(2) [OF assms(1,2)] using assms
  by (simp del: decode_points.simps One_nat_def add: decode_more)

lemma decode_point_3:
  assumes "a < 16" "b < 64" "d < 64" "a = 0 \<Longrightarrow> 32 \<le> b" "a = 13 \<Longrightarrow> b < 32"
  shows "decode_points idle ((0xE0 + a) # (0x80 + b) # (0x80 + d) # bs)
    = (a * 4096 + b * 64 + d) # decode_points idle bs"
  unfolding decode_lead lead_bytes(3) [OF assms(1)] using assms
  by (cases "a = 0"; cases "a = 13") (simp_all del: decode_points.simps One_nat_def add: decode_more)

lemma decode_point_4:
  assumes "a < 5" "e < 64" "b < 64" "d < 64" "a = 0 \<Longrightarrow> 16 \<le> e" "a = 4 \<Longrightarrow> e < 16"
  shows "decode_points idle ((0xF0 + a) # (0x80 + e) # (0x80 + b) # (0x80 + d) # bs)
    = (a * 262144 + e * 4096 + b * 64 + d) # decode_points idle bs"
  unfolding decode_lead lead_bytes(4) [OF assms(1)] using assms
  by (cases "a = 0"; cases "a = 4") (simp_all del: decode_points.simps One_nat_def add: decode_more)

text \<open>The digits of a code point in base 64.\<close>

lemma digits_64:
  "c div 64 * 64 + c mod 64 = (c :: nat)"
  "c div 4096 * 4096 + c div 64 mod 64 * 64 + c mod 64 = c"
  "c div 262144 * 262144 + c div 4096 mod 64 * 4096 + c div 64 mod 64 * 64 + c mod 64 = c"
proof -
  have two: "c div 4096 = c div 64 div 64" by (simp add: div_mult2_eq [of c 64 64, simplified])
  have three: "c div 262144 = c div 4096 div 64" by (simp add: div_mult2_eq [of c 4096 64, simplified])
  have "c div 64 * 64 + c mod 64 = c" "c div 4096 * 64 + c div 64 mod 64 = c div 64"
    "c div 262144 * 64 + c div 4096 mod 64 = c div 4096"
    unfolding two three by (rule div_mult_mod_eq)+
  then show "c div 64 * 64 + c mod 64 = c" "c div 4096 * 4096 + c div 64 mod 64 * 64 + c mod 64 = c"
    "c div 262144 * 262144 + c div 4096 mod 64 * 4096 + c div 64 mod 64 * 64 + c mod 64 = c"
    by linarith+
qed

lemma low_digit: "c mod 64 < (64 :: nat)"
  by simp

lemma range_3:
  assumes "0x800 \<le> c" "c < 0x10000" "\<not> high_surrogate c" "\<not> low_surrogate c"
  shows "c div 4096 < 16" "c div 4096 = 0 \<Longrightarrow> 32 \<le> c div 64 mod 64" "c div 4096 = 13 \<Longrightarrow> c div 64 mod 64 < 32"
proof -
  have "c < 0xD800 \<or> 0xE000 \<le> c" using assms by (auto simp: surrogate_defs)
  then show "c div 4096 < 16" "c div 4096 = 0 \<Longrightarrow> 32 \<le> c div 64 mod 64" "c div 4096 = 13 \<Longrightarrow> c div 64 mod 64 < 32"
    using assms(1,2) digits_64(2) [of c] low_digit [of c] low_digit [of "c div 64"] by linarith+
qed

lemma range_4:
  assumes "0x10000 \<le> c" "c < (0x110000 :: nat)"
  shows "c div 262144 < 5" "c div 262144 = 0 \<Longrightarrow> 16 \<le> c div 4096 mod 64" "c div 262144 = 4 \<Longrightarrow> c div 4096 mod 64 < 16"
  using assms digits_64(3) [of c] low_digit [of c] low_digit [of "c div 64"] low_digit [of "c div 4096"]
  by linarith+

lemma decode_point:
  assumes "scalar c"
  shows "decode_points idle (utf8_point c @ bs) = c # decode_points idle bs"
proof -
  consider "c < 0x80" | "0x80 \<le> c" "c < 0x800" | "0x800 \<le> c" "c < 0x10000" | "0x10000 \<le> c" by linarith
  then show ?thesis
  proof cases
    case 1
    then show ?thesis unfolding utf8_point_def by (simp del: decode_points.simps add: decode_lead lead_bytes)
  next
    case 2
    then have "2 \<le> c div 64" "c div 64 < 32" by auto
    with 2 show ?thesis
      unfolding utf8_point_def by (simp del: decode_points.simps add: decode_point_2 digits_64)
  next
    case 3
    with assms range_3 [of c] show ?thesis
      unfolding utf8_point_def scalar_def by (simp del: decode_points.simps add: decode_point_3 digits_64)
  next
    case 4
    with assms range_4 [of c] show ?thesis
      unfolding utf8_point_def scalar_def by (simp del: decode_points.simps add: decode_point_4 digits_64)
  qed
qed

lemma decode_all_points:
  "list_all scalar cs \<Longrightarrow> decode_points idle (concat (map utf8_point cs)) = cs"
  by (induction cs) (simp_all add: decode_point, simp add: idle_def)

lemma unat_of_byte: "b < 256 \<Longrightarrow> unat (of_nat b :: 8 word) = b"
  by (simp add: unat_of_nat)

lemma first_point: "paired t \<Longrightarrow> t \<noteq> [] \<Longrightarrow> hd t \<noteq> 0xFEFF \<Longrightarrow> hd (code_points t) \<noteq> 0xFEFF"
  by (cases t rule: code_points.cases) (auto simp: surrogate_defs split: if_splits)

lemma skip_no_bom: "plain_text t \<Longrightarrow> skip_bom (code_points t) = code_points t"
  using first_point [of t] by (cases t rule: code_points.cases)
    (auto simp: plain_text_def skip_bom_def split: list.splits if_splits)

theorem text_roundtrip:
  assumes "plain_text t"
  shows "decode_text (encode_text t) = t"
proof -
  have paired: "paired t" using assms by (simp add: plain_text_def)
  then have scalars: "list_all scalar (code_points t)"
    by (auto simp: list_all_iff intro: scalar_code_points)
  have "map unat (encode_text t) = concat (map utf8_point (code_points t))"
    unfolding encode_text_def map_map
    by (rule map_idI) (use scalars utf8_point_bytes in \<open>force simp: list_all_iff unat_of_byte\<close>)
  then show ?thesis
    using paired by (simp add: decode_text_def decode_all_points scalars skip_no_bom assms units_of_points)
qed

text \<open>A text of characters below 256 is well-formed.\<close>

lemma latin_unit:
  "\<not> high_surrogate (of_char c)" "\<not> low_surrogate (of_char c)" "of_char c < (0x10000 :: nat)" "of_char c \<noteq> (0xFEFF :: nat)"
  using nat_of_char_less_256 [of c] unfolding surrogate_defs by linarith+

lemma latin_paired: "paired (map of_char s)"
  by (induction s rule: induct_list012) (simp_all add: latin_unit)

lemma latin_text: "plain_text (map of_char s)"
  using latin_paired [of s] by (cases s) (simp_all add: plain_text_def latin_unit)

end
