(* ===== verification/DoubleRatchet.thy ===== *)
theory DoubleRatchet
  imports TextCoding
begin

section \<open>The double ratchet\<close>

text \<open>
  \<open>crypto/DoubleRatchet.ts\<close>: the ratchet state of one peer session, its two initial states,
  \<open>encrypt\<close>, \<open>decrypt\<close> with the cache of skipped message keys, and the serialised form kept in
  the database. WebCrypto is not code of the repository: it is the record \<open>webcrypto\<close>, an argument of
  every operation. \<open>sound_crypto\<close> states the documented behaviour the code relies on. A freshly
  generated key pair and a random initialisation vector are arguments too. An operation that can
  throw returns the exception or the result together with the state, because the code changes the
  state before it throws.
\<close>

text \<open>
  Fields: ECDH bits, raw export and import of public keys, JWK export (as its JSON text) and import of
  private keys, HKDF-SHA-256 to 64 bytes (salt, info, key material), HMAC-SHA-256, AES-GCM. \<open>None\<close> is a
  rejected promise.
\<close>

record ('sk, 'pk) webcrypto =
  ecdh_bits :: "'sk \<Rightarrow> 'pk \<Rightarrow> bytes"
  export_raw :: "'pk \<Rightarrow> bytes"
  import_raw :: "bytes \<Rightarrow> 'pk option"
  export_jwk :: "'sk \<Rightarrow> string"
  import_jwk :: "string \<Rightarrow> 'sk option"
  hkdf_bits :: "bytes \<Rightarrow> bytes \<Rightarrow> bytes \<Rightarrow> bytes"
  hmac_sign :: "bytes \<Rightarrow> bytes \<Rightarrow> bytes option"
  gcm_encrypt :: "bytes \<Rightarrow> bytes \<Rightarrow> bytes \<Rightarrow> bytes option"
  gcm_decrypt :: "bytes \<Rightarrow> bytes \<Rightarrow> bytes \<Rightarrow> bytes option"

record ('sk, 'pk) key_pair =
  publicKey :: 'pk
  privateKey :: 'sk

definition MAX_SKIP :: nat where
  "MAX_SKIP = 100"

definition ROOT_KDF_INFO :: string where
  "ROOT_KDF_INFO = ''decent-root-kdf-v1''"

record ('sk, 'pk) ratchet =
  dhKeyPair :: "('sk, 'pk) key_pair"
  peerDHPublicKey :: "'pk option"
  rootKey :: bytes
  sendChainKey :: "bytes option"
  recvChainKey :: "bytes option"
  sendCount :: nat
  recvCount :: nat
  previousSendCount :: nat
  skippedKeys :: "(string, bytes) jsmap"

text \<open>The header comes from the wire: its numbers need not be natural.\<close>

record ratchet_header =
  dhPublicKey :: string
  previousCount :: int
  messageNumber :: int

record ratchet_message =
  header :: ratchet_header
  ciphertext :: string
  iv :: string

subsection \<open>Primitives\<close>

definition deriveSharedSecret :: "('sk, 'pk) webcrypto \<Rightarrow> 'sk \<Rightarrow> 'pk \<Rightarrow> bytes" where
  "deriveSharedSecret cr sk pk = ecdh_bits cr sk pk"

definition exportDHPublicKey :: "('sk, 'pk) webcrypto \<Rightarrow> 'pk \<Rightarrow> string" where
  "exportDHPublicKey cr pk = arrayBufferToBase64 (export_raw cr pk)"

definition importDHPublicKey :: "('sk, 'pk) webcrypto \<Rightarrow> string \<Rightarrow> 'pk option" where
  "importDHPublicKey cr b64 = Option.bind (base64ToArrayBuffer b64) (import_raw cr)"

definition ascii_bytes :: "string \<Rightarrow> bytes" where
  "ascii_bytes s = encode_text (map of_char s)"

definition rootKDF :: "('sk, 'pk) webcrypto \<Rightarrow> bytes \<Rightarrow> bytes \<Rightarrow> bytes \<times> bytes" where
  "rootKDF cr root dh =
     (let derived = hkdf_bits cr root (ascii_bytes ROOT_KDF_INFO) dh
      in (take 32 derived, take 32 (drop 32 derived)))"

text \<open>The chain key may be \<open>null\<close>: importing it as an HMAC key then throws.\<close>

definition chainKDF :: "('sk, 'pk) webcrypto \<Rightarrow> bytes option \<Rightarrow> (bytes \<times> bytes) option" where
  "chainKDF cr chain =
     Option.bind chain (\<lambda>k. Option.bind (hmac_sign cr k [1]) (\<lambda>mk.
       Option.bind (hmac_sign cr k [2]) (\<lambda>nk. Some (mk, nk))))"

definition aesEncrypt :: "('sk, 'pk) webcrypto \<Rightarrow> bytes \<Rightarrow> bytes \<Rightarrow> js_text \<Rightarrow> (string \<times> string) option" where
  "aesEncrypt cr key ivb plain =
     map_option (\<lambda>c. (arrayBufferToBase64 c, arrayBufferToBase64 ivb)) (gcm_encrypt cr key ivb (encode_text plain))"

definition aesDecrypt :: "('sk, 'pk) webcrypto \<Rightarrow> bytes \<Rightarrow> string \<Rightarrow> string \<Rightarrow> js_text result" where
  "aesDecrypt cr key ct ivs =
     (case (base64ToArrayBuffer ivs, base64ToArrayBuffer ct) of
        (Some i, Some c) \<Rightarrow> (case gcm_decrypt cr key i c of None \<Rightarrow> Inl ''OperationError'' | Some p \<Rightarrow> Inr (decode_text p))
      | _ \<Rightarrow> Inl ''InvalidCharacterError'')"

subsection \<open>Initial states\<close>

definition initAlice :: "('sk, 'pk) webcrypto \<Rightarrow> bytes \<Rightarrow> 'pk \<Rightarrow> ('sk, 'pk) key_pair \<Rightarrow> ('sk, 'pk) ratchet" where
  "initAlice cr secret peer kp =
     (let (root, chain) = rootKDF cr secret (deriveSharedSecret cr (privateKey kp) peer)
      in \<lparr>dhKeyPair = kp, peerDHPublicKey = Some peer, rootKey = root, sendChainKey = Some chain,
          recvChainKey = None, sendCount = 0, recvCount = 0, previousSendCount = 0, skippedKeys = []\<rparr>)"

definition initBob :: "bytes \<Rightarrow> ('sk, 'pk) key_pair \<Rightarrow> ('sk, 'pk) ratchet" where
  "initBob secret kp =
     \<lparr>dhKeyPair = kp, peerDHPublicKey = None, rootKey = secret, sendChainKey = None, recvChainKey = None,
      sendCount = 0, recvCount = 0, previousSendCount = 0, skippedKeys = []\<rparr>"

subsection \<open>Operations\<close>

definition encrypt ::
    "('sk, 'pk) webcrypto \<Rightarrow> bytes \<Rightarrow> js_text \<Rightarrow> ('sk, 'pk) ratchet \<Rightarrow> ratchet_message result \<times> ('sk, 'pk) ratchet" where
  "encrypt cr ivb plain s =
     (case chainKDF cr (sendChainKey s) of
        None \<Rightarrow> (Inl ''TypeError'', s)
      | Some (mk, next_key) \<Rightarrow>
          (let s1 = s\<lparr>sendChainKey := Some next_key\<rparr>;
               h = \<lparr>dhPublicKey = exportDHPublicKey cr (publicKey (dhKeyPair s1)),
                    previousCount = int (previousSendCount s1), messageNumber = int (sendCount s1)\<rparr>;
               s2 = s1\<lparr>sendCount := Suc (sendCount s1)\<rparr>
           in (case aesEncrypt cr mk ivb plain of
                 None \<Rightarrow> (Inl ''OperationError'', s2)
               | Some (ct, ivs) \<Rightarrow> (Inr \<lparr>header = h, ciphertext = ct, iv = ivs\<rparr>, s2))))"

definition dhRatchetStep ::
    "('sk, 'pk) webcrypto \<Rightarrow> ('sk, 'pk) key_pair \<Rightarrow> 'pk \<Rightarrow> ('sk, 'pk) ratchet \<Rightarrow> ('sk, 'pk) ratchet" where
  "dhRatchetStep cr kp peer s =
     (let (root1, recv) = rootKDF cr (rootKey s) (deriveSharedSecret cr (privateKey (dhKeyPair s)) peer);
          (root2, send) = rootKDF cr root1 (deriveSharedSecret cr (privateKey kp) peer)
      in s\<lparr>peerDHPublicKey := Some peer, previousSendCount := sendCount s, sendCount := 0, recvCount := 0,
           recvChainKey := Some recv, dhKeyPair := kp, rootKey := root2, sendChainKey := Some send\<rparr>)"

definition skip_key :: "('sk, 'pk) webcrypto \<Rightarrow> 'pk option \<Rightarrow> nat \<Rightarrow> string" where
  "skip_key cr peer n =
     (case peer of None \<Rightarrow> ''init'' | Some pk \<Rightarrow> exportDHPublicKey cr pk) @ CHR '':'' # show_nat n"

definition prune_skipped :: "(string, bytes) jsmap \<Rightarrow> (string, bytes) jsmap" where
  "prune_skipped m =
     (if length m > MAX_SKIP * 2 then fold jm_delete (take (length m - MAX_SKIP) (jm_keys m)) m else m)"

text \<open>The loop of \<open>skipMessageKeys\<close>; \<open>Some e\<close> is the exception it ends with.\<close>

function skip_loop :: "('sk, 'pk) webcrypto \<Rightarrow> int \<Rightarrow> ('sk, 'pk) ratchet \<Rightarrow> string option \<times> ('sk, 'pk) ratchet" where
  "skip_loop cr until s =
     (if int (recvCount s) < until
      then (case chainKDF cr (recvChainKey s) of
              None \<Rightarrow> (Some ''TypeError'', s)
            | Some (mk, next_key) \<Rightarrow>
                skip_loop cr until
                  (s\<lparr>recvChainKey := Some next_key, recvCount := Suc (recvCount s),
                     skippedKeys := prune_skipped (jm_set (skip_key cr (peerDHPublicKey s) (recvCount s)) mk (skippedKeys s))\<rparr>))
      else (None, s))"
  by pat_completeness auto
termination
  by (relation "measure (\<lambda>(cr, until, s). nat (until - int (recvCount s)))") auto

declare skip_loop.simps [simp del]

definition skipMessageKeys :: "('sk, 'pk) webcrypto \<Rightarrow> int \<Rightarrow> ('sk, 'pk) ratchet \<Rightarrow> string option \<times> ('sk, 'pk) ratchet" where
  "skipMessageKeys cr until s =
     (if int (recvCount s + MAX_SKIP) < until then (Some ''Too many skipped messages'', s)
      else skip_loop cr until s)"

definition message_key_name :: "ratchet_message \<Rightarrow> string" where
  "message_key_name m = dhPublicKey (header m) @ CHR '':'' # show_int (messageNumber (header m))"

definition trySkippedKeys ::
    "('sk, 'pk) webcrypto \<Rightarrow> ratchet_message \<Rightarrow> ('sk, 'pk) ratchet \<Rightarrow> js_text result option \<times> ('sk, 'pk) ratchet" where
  "trySkippedKeys cr m s =
     (case jm_get (skippedKeys s) (message_key_name m) of
        None \<Rightarrow> (None, s)
      | Some mk \<Rightarrow> (Some (aesDecrypt cr mk (ciphertext m) (iv m)),
                   s\<lparr>skippedKeys := jm_delete (message_key_name m) (skippedKeys s)\<rparr>))"

text \<open>The last part of \<open>decrypt\<close>: skip ahead, advance the receiving chain, open the message.\<close>

definition open_next ::
    "('sk, 'pk) webcrypto \<Rightarrow> ratchet_message \<Rightarrow> ('sk, 'pk) ratchet \<Rightarrow> js_text result \<times> ('sk, 'pk) ratchet" where
  "open_next cr m s =
     (case skipMessageKeys cr (messageNumber (header m)) s of
        (Some e, s1) \<Rightarrow> (Inl e, s1)
      | (None, s1) \<Rightarrow>
          (case chainKDF cr (recvChainKey s1) of
             None \<Rightarrow> (Inl ''TypeError'', s1)
           | Some (mk, next_key) \<Rightarrow>
               (aesDecrypt cr mk (ciphertext m) (iv m),
                s1\<lparr>recvChainKey := Some next_key, recvCount := Suc (recvCount s1)\<rparr>)))"

definition decrypt ::
    "('sk, 'pk) webcrypto \<Rightarrow> ('sk, 'pk) key_pair \<Rightarrow> ratchet_message \<Rightarrow> ('sk, 'pk) ratchet \<Rightarrow> js_text result \<times> ('sk, 'pk) ratchet" where
  "decrypt cr kp m s =
     (case trySkippedKeys cr m s of
        (Some r, s1) \<Rightarrow> (r, s1)
      | (None, s1) \<Rightarrow>
          (case importDHPublicKey cr (dhPublicKey (header m)) of
             None \<Rightarrow> (Inl ''DataError'', s1)
           | Some peer \<Rightarrow>
               (if map_option (exportDHPublicKey cr) (peerDHPublicKey s1) = Some (dhPublicKey (header m))
                then open_next cr m s1
                else (case (if recvChainKey s1 \<noteq> None then skipMessageKeys cr (previousCount (header m)) s1 else (None, s1)) of
                        (Some e, s2) \<Rightarrow> (Inl e, s2)
                      | (None, s2) \<Rightarrow> open_next cr m (dhRatchetStep cr kp peer s2)))))"

subsection \<open>The serialised state\<close>

record serialized_ratchet =
  ser_publicKey :: string
  ser_privateKey :: string
  ser_peer :: "string option"
  ser_rootKey :: string
  ser_sendChainKey :: "string option"
  ser_recvChainKey :: "string option"
  ser_sendCount :: nat
  ser_recvCount :: nat
  ser_previousSendCount :: nat
  ser_skippedKeys :: "(string \<times> string) list"

definition serializeRatchetState :: "('sk, 'pk) webcrypto \<Rightarrow> ('sk, 'pk) ratchet \<Rightarrow> serialized_ratchet" where
  "serializeRatchetState cr s =
     \<lparr>ser_publicKey = arrayBufferToBase64 (export_raw cr (publicKey (dhKeyPair s))),
      ser_privateKey = export_jwk cr (privateKey (dhKeyPair s)),
      ser_peer = map_option (\<lambda>pk. arrayBufferToBase64 (export_raw cr pk)) (peerDHPublicKey s),
      ser_rootKey = arrayBufferToBase64 (rootKey s),
      ser_sendChainKey = map_option arrayBufferToBase64 (sendChainKey s),
      ser_recvChainKey = map_option arrayBufferToBase64 (recvChainKey s),
      ser_sendCount = sendCount s, ser_recvCount = recvCount s, ser_previousSendCount = previousSendCount s,
      ser_skippedKeys = map (\<lambda>(k, v). (k, arrayBufferToBase64 v)) (skippedKeys s)\<rparr>"

text \<open>An empty string is falsy, so it is read like \<open>null\<close>.\<close>

fun optional_buffer :: "(string \<Rightarrow> 'a option) \<Rightarrow> string option \<Rightarrow> 'a option option" where
  "optional_buffer f None = Some None"
| "optional_buffer f (Some b64) = (if b64 = [] then Some None else map_option Some (f b64))"

fun read_skipped :: "(string \<times> string) list \<Rightarrow> (string, bytes) jsmap \<Rightarrow> (string, bytes) jsmap option" where
  "read_skipped [] m = Some m"
| "read_skipped ((k, v) # kvs) m = Option.bind (base64ToArrayBuffer v) (\<lambda>b. read_skipped kvs (jm_set k b m))"

definition deserializeRatchetState :: "('sk, 'pk) webcrypto \<Rightarrow> serialized_ratchet \<Rightarrow> ('sk, 'pk) ratchet option" where
  "deserializeRatchetState cr d =
     Option.bind (importDHPublicKey cr (ser_publicKey d)) (\<lambda>pub.
     Option.bind (import_jwk cr (ser_privateKey d)) (\<lambda>priv.
     Option.bind (optional_buffer (importDHPublicKey cr) (ser_peer d)) (\<lambda>peer.
     Option.bind (read_skipped (ser_skippedKeys d) []) (\<lambda>skipped.
     Option.bind (base64ToArrayBuffer (ser_rootKey d)) (\<lambda>root.
     Option.bind (optional_buffer base64ToArrayBuffer (ser_sendChainKey d)) (\<lambda>send.
     Option.bind (optional_buffer base64ToArrayBuffer (ser_recvChainKey d)) (\<lambda>recv.
     Some \<lparr>dhKeyPair = \<lparr>publicKey = pub, privateKey = priv\<rparr>, peerDHPublicKey = peer, rootKey = root,
           sendChainKey = send, recvChainKey = recv, sendCount = ser_sendCount d, recvCount = ser_recvCount d,
           previousSendCount = ser_previousSendCount d, skippedKeys = skipped\<rparr>)))))))"

end
