(* ===== verification/PeerCrypto.thy ===== *)
theory PeerCrypto
  imports DoubleRatchet
begin

section \<open>Key agreement and signatures\<close>

text \<open>
  \<open>crypto/CryptoManager.ts\<close> and \<open>crypto/MessageCipher.ts\<close>: export and import of identity and signing
  keys as base64 of a JSON web key, the static AES key two peers derive from their identity keys, AES-GCM with a
  detached tag, and ECDSA signatures. The record \<open>suite\<close> extends \<open>webcrypto\<close> by what these classes use of
  the platform: JWK (as JSON text) and PKCS#8 export and import, ECDSA, SHA-256, HKDF to a 256-bit key, and
  the results of \<open>generateKey\<close> and \<open>getRandomValues\<close> in the order of the calls.
\<close>

record ('sk, 'pk, 'gk, 'vk) suite = "('sk, 'pk) webcrypto" +
  generated_pair :: "nat \<Rightarrow> ('sk, 'pk) key_pair"
  random_iv :: "nat \<Rightarrow> bytes"
  jwk_of_public :: "'pk \<Rightarrow> string"
  public_of_jwk :: "string \<Rightarrow> 'pk option"
  pkcs8_of_private :: "'sk \<Rightarrow> bytes"
  private_of_pkcs8 :: "bytes \<Rightarrow> 'sk option"
  jwk_of_verifier :: "'vk \<Rightarrow> string"
  verifier_of_jwk :: "string \<Rightarrow> 'vk option"
  ecdsa_sign :: "'gk \<Rightarrow> bytes \<Rightarrow> bytes"
  ecdsa_verify :: "'vk \<Rightarrow> bytes \<Rightarrow> bytes \<Rightarrow> bool"
  sha256_digest :: "bytes \<Rightarrow> bytes"
  hkdf_key :: "bytes \<Rightarrow> bytes \<Rightarrow> bytes \<Rightarrow> bytes"

text \<open>The ratchet uses only the first part.\<close>

definition ratchet_part :: "('sk, 'pk, 'gk, 'vk) suite \<Rightarrow> ('sk, 'pk) webcrypto" where
  "ratchet_part cs = webcrypto.truncate cs"

lemma ratchet_part_fields [simp]:
  "ecdh_bits (ratchet_part cs) = ecdh_bits cs" "export_raw (ratchet_part cs) = export_raw cs"
  "import_raw (ratchet_part cs) = import_raw cs" "gcm_encrypt (ratchet_part cs) = gcm_encrypt cs"
  "gcm_decrypt (ratchet_part cs) = gcm_decrypt cs"
  by (simp_all add: ratchet_part_def webcrypto.truncate_def)

subsection \<open>CryptoManager\<close>

definition binary_string :: "string \<Rightarrow> nat list" where
  "binary_string s = map of_char s"

definition atob_string :: "string \<Rightarrow> string option" where
  "atob_string s = map_option (map char_of) (atob s)"

definition exportPublicKey :: "('sk, 'pk, 'gk, 'vk) suite \<Rightarrow> 'pk \<Rightarrow> string" where
  "exportPublicKey cs pk = btoa (binary_string (jwk_of_public cs pk))"

definition importPublicKey :: "('sk, 'pk, 'gk, 'vk) suite \<Rightarrow> string \<Rightarrow> 'pk option" where
  "importPublicKey cs s = Option.bind (atob_string s) (public_of_jwk cs)"

definition exportVerifier :: "('sk, 'pk, 'gk, 'vk) suite \<Rightarrow> 'vk \<Rightarrow> string" where
  "exportVerifier cs vk = btoa (binary_string (jwk_of_verifier cs vk))"

definition importSigningPublicKey :: "('sk, 'pk, 'gk, 'vk) suite \<Rightarrow> string \<Rightarrow> 'vk option" where
  "importSigningPublicKey cs s = Option.bind (atob_string s) (verifier_of_jwk cs)"

text \<open>The salt is the digest of the two peer ids in order, so both sides derive the same key.\<close>

definition pair_salt :: "('sk, 'pk, 'gk, 'vk) suite \<Rightarrow> string \<Rightarrow> string \<Rightarrow> bytes" where
  "pair_salt cs me peer =
     (case js_sort str_cmp [me, peer] of
        [a, b] \<Rightarrow> sha256_digest cs (ascii_bytes (a @ CHR '':'' # b))
      | _ \<Rightarrow> [])"

definition deriveSharedSecretFromRawBytes :: "('sk, 'pk, 'gk, 'vk) suite \<Rightarrow> bytes \<Rightarrow> string \<Rightarrow> string \<Rightarrow> bytes" where
  "deriveSharedSecretFromRawBytes cs raw me peer =
     hkdf_key cs (pair_salt cs me peer) (ascii_bytes ''p2p-chat-aes-gcm'') raw"

definition legacySharedSecret ::
    "('sk, 'pk, 'gk, 'vk) suite \<Rightarrow> 'sk \<Rightarrow> 'pk \<Rightarrow> string \<Rightarrow> string \<Rightarrow> bytes" where
  "legacySharedSecret cs sk pk me peer =
     hkdf_key cs (if me \<noteq> [] \<and> peer \<noteq> [] then pair_salt cs me peer else ascii_bytes ''decent-protocol-v1'')
       (ascii_bytes ''p2p-chat-aes-gcm'') (ecdh_bits cs sk pk)"

subsection \<open>MessageCipher\<close>

record encrypted_data =
  ed_ciphertext :: string
  ed_iv :: string
  ed_tag :: string

text \<open>\<open>slice(0, -16)\<close> and \<open>slice(-16)\<close>.\<close>

definition cipher_encrypt :: "('sk, 'pk, 'gk, 'vk) suite \<Rightarrow> bytes \<Rightarrow> bytes \<Rightarrow> js_text \<Rightarrow> encrypted_data option" where
  "cipher_encrypt cs ivb key plain =
     map_option (\<lambda>c. \<lparr>ed_ciphertext = arrayBufferToBase64 (take (length c - 16) c), ed_iv = arrayBufferToBase64 ivb,
                     ed_tag = arrayBufferToBase64 (drop (length c - 16) c)\<rparr>)
       (gcm_encrypt cs key ivb (encode_text plain))"

definition cipher_decrypt :: "('sk, 'pk, 'gk, 'vk) suite \<Rightarrow> bytes \<Rightarrow> encrypted_data \<Rightarrow> js_text option" where
  "cipher_decrypt cs key e =
     Option.bind (base64ToArrayBuffer (ed_ciphertext e)) (\<lambda>c.
     Option.bind (base64ToArrayBuffer (ed_iv e)) (\<lambda>i.
     Option.bind (base64ToArrayBuffer (ed_tag e)) (\<lambda>t.
     map_option decode_text (gcm_decrypt cs key i (c @ t)))))"

definition cipher_sign :: "('sk, 'pk, 'gk, 'vk) suite \<Rightarrow> js_text \<Rightarrow> 'gk \<Rightarrow> string" where
  "cipher_sign cs plain gk = arrayBufferToBase64 (ecdsa_sign cs gk (encode_text plain))"

text \<open>\<open>None\<close>: the signature is no base64 and \<open>atob\<close> throws.\<close>

definition cipher_verify :: "('sk, 'pk, 'gk, 'vk) suite \<Rightarrow> js_text \<Rightarrow> string \<Rightarrow> 'vk \<Rightarrow> bool option" where
  "cipher_verify cs plain sig vk =
     map_option (\<lambda>b. ecdsa_verify cs vk b (encode_text plain)) (base64ToArrayBuffer sig)"

text \<open>\<open>btoa\<close> throws on a character above 255.\<close>

record signed_message =
  sm_data :: string
  sm_signature :: string

definition createSignedMessage :: "('sk, 'pk, 'gk, 'vk) suite \<Rightarrow> js_text \<Rightarrow> 'gk \<Rightarrow> signed_message option" where
  "createSignedMessage cs plain gk =
     (if list_all (\<lambda>c. c < 256) plain then Some \<lparr>sm_data = btoa plain, sm_signature = cipher_sign cs plain gk\<rparr> else None)"

text \<open>The outer \<open>None\<close> is a throw, the inner one the code's \<open>null\<close>.\<close>

definition verifySignedMessage :: "('sk, 'pk, 'gk, 'vk) suite \<Rightarrow> signed_message \<Rightarrow> 'vk \<Rightarrow> js_text option option" where
  "verifySignedMessage cs m vk =
     Option.bind (atob (sm_data m)) (\<lambda>plain.
       map_option (\<lambda>ok. if ok then Some plain else None) (cipher_verify cs plain (sm_signature m) vk))"

subsection \<open>Properties\<close>

lemma atob_btoa_string: "atob_string (btoa (binary_string s)) = Some s"
proof -
  have "of_char c < (256 :: nat)" for c :: char by (rule nat_of_char_less_256)
  then have "list_all (\<lambda>a. a < 256) (binary_string s)" by (simp add: list_all_iff binary_string_def)
  then show ?thesis by (simp add: atob_string_def atob_btoa binary_string_def comp_def)
qed

definition sound_suite :: "('sk, 'pk, 'gk, 'vk) suite \<Rightarrow> bool" where
  "sound_suite cs \<longleftrightarrow>
     (\<forall>pk. public_of_jwk cs (jwk_of_public cs pk) = Some pk) \<and>
     (\<forall>sk. private_of_pkcs8 cs (pkcs8_of_private cs sk) = Some sk) \<and>
     (\<forall>vk. verifier_of_jwk cs (jwk_of_verifier cs vk) = Some vk) \<and>
     (\<forall>n. length (random_iv cs n) = 12)"

lemma import_public: "sound_suite cs \<Longrightarrow> importPublicKey cs (exportPublicKey cs pk) = Some pk"
  by (simp add: sound_suite_def importPublicKey_def exportPublicKey_def atob_btoa_string)

lemma import_verifier: "sound_suite cs \<Longrightarrow> importSigningPublicKey cs (exportVerifier cs vk) = Some vk"
  by (simp add: sound_suite_def importSigningPublicKey_def exportVerifier_def atob_btoa_string)

lemma pair_salt_commute: "pair_salt cs a b = pair_salt cs b a"
proof -
  have "js_sort str_cmp [a, b] = js_sort str_cmp [b, a]"
    by (rule code_unit.js_sort_perm) auto
  then show ?thesis by (simp only: pair_salt_def)
qed

text \<open>The detached tag is put back before decryption.\<close>

lemma cipher_roundtrip:
  assumes "cipher_encrypt cs ivb key plain = Some e" "plain_text plain"
    and "\<And>c. gcm_encrypt cs key ivb (encode_text plain) = Some c \<Longrightarrow> gcm_decrypt cs key ivb c = Some (encode_text plain)"
  shows "cipher_decrypt cs key e = Some plain"
  using assms by (auto simp: cipher_encrypt_def cipher_decrypt_def base64_roundtrip text_roundtrip)

lemma verify_signed:
  assumes "\<And>m. ecdsa_verify cs vk (ecdsa_sign cs gk m) m"
  shows "cipher_verify cs plain (cipher_sign cs plain gk) vk = Some True"
  using assms by (simp add: cipher_verify_def cipher_sign_def base64_roundtrip)

lemma signed_message_roundtrip:
  assumes "createSignedMessage cs plain gk = Some m" "\<And>t. ecdsa_verify cs vk (ecdsa_sign cs gk t) t"
  shows "verifySignedMessage cs m vk = Some (Some plain)"
  using assms by (auto simp: createSignedMessage_def verifySignedMessage_def atob_btoa verify_signed split: if_splits)

end
