(* ===== verification/MessageProtocol.thy ===== *)
theory MessageProtocol
  imports PreKeys PeerCrypto Json
begin

section \<open>The message protocol of a peer\<close>

text \<open>
  \<open>decent-client-core/src/messages/MessageProtocol.ts\<close>: handshakes, ratchet sessions, the legacy static secret,
  pre-key bundles and the sessions started from them. The state is the fields of the class and the database behind it.
  Key generation and random values are read from \<open>suite\<close> in the order of the calls, counted by \<open>pr_draws\<close>; the
  background tasks (refilling the pool, generating one-time keys) are the steps \<open>refill_step\<close> and
  \<open>background_step\<close>. Each method is one step: calls that overlap at an \<open>await\<close> are not modelled, nor
  a database that fails. The \<open>type\<close> tag of a session request is always the right one, and the message of
  the error for a missing pre-key leaves out the key's type and id.
\<close>

text \<open>
  A session is keyless when \<open>initBob\<close> was given \<open>null\<close> as its key pair: every decryption then throws, and
  it never has a sending chain.
\<close>

datatype ('sk, 'pk) slot = Ready "('sk, 'pk) ratchet" | Keyless

record ('sk, 'pk) local_key =
  lk_pair :: "('sk, 'pk) key_pair"
  lk_createdAt :: time

record ('sk, 'pk) local_signed =
  ls_keyId :: int
  ls_pair :: "('sk, 'pk) key_pair"
  ls_createdAt :: time
  ls_signature :: string
  ls_expiresAt :: time

record stored_key =
  sk_keyId :: int
  sk_publicKey :: string
  sk_privateKey :: string
  sk_createdAt :: time

record local_state =
  lp_signed :: stored_key
  lp_signature :: string
  lp_expiresAt :: time
  lp_oneTime :: "stored_key list"
  lp_nextId :: int

text \<open>The database: ratchets, bundles and local keys. The pre-key methods are optional (\<open>db_prekeys\<close>).\<close>

record key_db =
  db_ratchets :: "(string, serialized_ratchet) jsmap"
  db_prekeys :: bool
  db_bundles :: "(string, pre_key_bundle) jsmap"
  db_local :: "local_state option"

record ('sk, 'pk, 'gk, 'vk) protocol =
  pr_me :: string
  pr_identity :: "('sk, 'pk) key_pair"
  pr_signing :: "('gk \<times> 'vk) option"
  pr_ratchets :: "(string, ('sk, 'pk) slot) jsmap"
  pr_dh :: "('sk, 'pk) key_pair option"
  pr_pool :: "('sk, 'pk) key_pair list"
  pr_refilling :: bool
  pr_secrets :: "(string, bytes) jsmap"
  pr_signers :: "(string, 'vk) jsmap"
  pr_bundles :: "(string, pre_key_bundle) jsmap"
  pr_signed :: "('sk, 'pk) local_signed option"
  pr_oneTime :: "(int, ('sk, 'pk) local_key) jsmap"
  pr_nextId :: int
  pr_db :: "key_db option"
  pr_ready :: "bool option"
  pr_background :: "nat option"
  pr_draws :: nat

record handshake =
  hs_publicKey :: string
  hs_peerId :: string
  hs_ratchetKey :: "string option"
  hs_version :: "int option"
  hs_signingKey :: "string option"
  hs_preKeySupport :: bool

record message_envelope =
  ev_id :: string
  ev_timestamp :: time
  ev_sender :: string
  ev_type :: string
  ev_version :: "int option"
  ev_ratchet :: "ratchet_message option"
  ev_encrypted :: "encrypted_data option"
  ev_init :: "session_init option"
  ev_signature :: string
  ev_metadata :: "json option"

definition INITIAL_PRE_KEY_BATCH_SIZE :: nat where
  "INITIAL_PRE_KEY_BATCH_SIZE = 3"

definition DH_KEY_PAIR_POOL_TARGET :: nat where
  "DH_KEY_PAIR_POOL_TARGET = 4"

definition new_protocol :: "string \<Rightarrow> ('sk, 'pk) key_pair \<Rightarrow> ('sk, 'pk, 'gk, 'vk) protocol" where
  "new_protocol me identity =
     \<lparr>pr_me = me, pr_identity = identity, pr_signing = None, pr_ratchets = [], pr_dh = None, pr_pool = [],
      pr_refilling = False, pr_secrets = [], pr_signers = [], pr_bundles = [], pr_signed = None, pr_oneTime = [],
      pr_nextId = 1, pr_db = None, pr_ready = None, pr_background = None, pr_draws = 0\<rparr>"

subsection \<open>Random values and key pairs\<close>

definition draw_pair :: "('sk, 'pk, 'gk, 'vk) suite \<Rightarrow> ('sk, 'pk, 'gk, 'vk) protocol
    \<Rightarrow> ('sk, 'pk) key_pair \<times> ('sk, 'pk, 'gk, 'vk) protocol" where
  "draw_pair cs s = (generated_pair cs (pr_draws s), s\<lparr>pr_draws := Suc (pr_draws s)\<rparr>)"

definition draw_iv :: "('sk, 'pk, 'gk, 'vk) suite \<Rightarrow> ('sk, 'pk, 'gk, 'vk) protocol \<Rightarrow> bytes \<times> ('sk, 'pk, 'gk, 'vk) protocol" where
  "draw_iv cs s = (random_iv cs (pr_draws s), s\<lparr>pr_draws := Suc (pr_draws s)\<rparr>)"

definition scheduleDHKeyPairPoolRefill :: "('sk, 'pk, 'gk, 'vk) protocol \<Rightarrow> ('sk, 'pk, 'gk, 'vk) protocol" where
  "scheduleDHKeyPairPoolRefill s =
     (if pr_refilling s then s
      else if length (pr_pool s) \<ge> DH_KEY_PAIR_POOL_TARGET then s
      else s\<lparr>pr_refilling := True\<rparr>)"

text \<open>One turn of the background loop of the refill.\<close>

definition refill_step :: "('sk, 'pk, 'gk, 'vk) suite \<Rightarrow> ('sk, 'pk, 'gk, 'vk) protocol \<Rightarrow> ('sk, 'pk, 'gk, 'vk) protocol" where
  "refill_step cs s =
     (if \<not> pr_refilling s then s
      else if length (pr_pool s) < DH_KEY_PAIR_POOL_TARGET
      then (case draw_pair cs s of (kp, s1) \<Rightarrow> s1\<lparr>pr_pool := pr_pool s1 @ [kp]\<rparr>)
      else s\<lparr>pr_refilling := False\<rparr>)"

definition takeDHKeyPair :: "('sk, 'pk, 'gk, 'vk) suite \<Rightarrow> ('sk, 'pk, 'gk, 'vk) protocol
    \<Rightarrow> ('sk, 'pk) key_pair \<times> ('sk, 'pk, 'gk, 'vk) protocol" where
  "takeDHKeyPair cs s =
     (case pr_pool s of
        [] \<Rightarrow> draw_pair cs (scheduleDHKeyPairPoolRefill s)
      | kp # rest \<Rightarrow>
          (let s1 = s\<lparr>pr_pool := rest\<rparr>
           in (kp, if length rest < 2 then scheduleDHKeyPairPoolRefill s1 else s1)))"

subsection \<open>The database\<close>

definition map_key_db :: "(key_db \<Rightarrow> key_db) \<Rightarrow> ('sk, 'pk, 'gk, 'vk) protocol \<Rightarrow> ('sk, 'pk, 'gk, 'vk) protocol" where
  "map_key_db f s = s\<lparr>pr_db := map_option f (pr_db s)\<rparr>"

definition persistState :: "('sk, 'pk, 'gk, 'vk) suite \<Rightarrow> string \<Rightarrow> ('sk, 'pk, 'gk, 'vk) protocol \<Rightarrow> ('sk, 'pk, 'gk, 'vk) protocol" where
  "persistState cs peer s =
     (case jm_get (pr_ratchets s) peer of
        Some (Ready r) \<Rightarrow>
          map_key_db (\<lambda>d. d\<lparr>db_ratchets := jm_set peer (serializeRatchetState (ratchet_part cs) r) (db_ratchets d)\<rparr>) s
      | _ \<Rightarrow> s)"

definition load_ratchet :: "('sk, 'pk, 'gk, 'vk) suite \<Rightarrow> string \<Rightarrow> ('sk, 'pk, 'gk, 'vk) protocol \<Rightarrow> ('sk, 'pk) ratchet option" where
  "load_ratchet cs peer s =
     Option.bind (pr_db s) (\<lambda>d. Option.bind (jm_get (db_ratchets d) peer) (deserializeRatchetState (ratchet_part cs)))"

definition restoreRatchetState :: "('sk, 'pk, 'gk, 'vk) suite \<Rightarrow> string \<Rightarrow> ('sk, 'pk, 'gk, 'vk) protocol
    \<Rightarrow> bool \<times> ('sk, 'pk, 'gk, 'vk) protocol" where
  "restoreRatchetState cs peer s =
     (case load_ratchet cs peer s of
        None \<Rightarrow> (False, s)
      | Some r \<Rightarrow> (True, s\<lparr>pr_ratchets := jm_set peer (Ready r) (pr_ratchets s)\<rparr>))"

definition persistPeerPreKeyBundle :: "string \<Rightarrow> pre_key_bundle \<Rightarrow> ('sk, 'pk, 'gk, 'vk) protocol \<Rightarrow> ('sk, 'pk, 'gk, 'vk) protocol" where
  "persistPeerPreKeyBundle peer b s =
     map_key_db (\<lambda>d. if db_prekeys d then d\<lparr>db_bundles := jm_set peer b (db_bundles d)\<rparr> else d) s"

definition delete_stored_bundle :: "string \<Rightarrow> ('sk, 'pk, 'gk, 'vk) protocol \<Rightarrow> ('sk, 'pk, 'gk, 'vk) protocol" where
  "delete_stored_bundle peer s =
     map_key_db (\<lambda>d. if db_prekeys d then d\<lparr>db_bundles := jm_delete peer (db_bundles d)\<rparr> else d) s"

definition clearPeerPreKeyBundle :: "string \<Rightarrow> ('sk, 'pk, 'gk, 'vk) protocol \<Rightarrow> ('sk, 'pk, 'gk, 'vk) protocol" where
  "clearPeerPreKeyBundle peer s = delete_stored_bundle peer (s\<lparr>pr_bundles := jm_delete peer (pr_bundles s)\<rparr>)"

definition exportEcdhPublicKey :: "('sk, 'pk, 'gk, 'vk) suite \<Rightarrow> 'pk \<Rightarrow> string" where
  "exportEcdhPublicKey cs pk = arrayBufferToBase64 (export_raw cs pk)"

definition importEcdhPublicKey :: "('sk, 'pk, 'gk, 'vk) suite \<Rightarrow> string \<Rightarrow> 'pk option" where
  "importEcdhPublicKey cs b64 = Option.bind (base64ToArrayBuffer b64) (import_raw cs)"

definition exportEcdhPrivateKey :: "('sk, 'pk, 'gk, 'vk) suite \<Rightarrow> 'sk \<Rightarrow> string" where
  "exportEcdhPrivateKey cs sk = arrayBufferToBase64 (pkcs8_of_private cs sk)"

definition importEcdhPrivateKey :: "('sk, 'pk, 'gk, 'vk) suite \<Rightarrow> string \<Rightarrow> 'sk option" where
  "importEcdhPrivateKey cs b64 = Option.bind (base64ToArrayBuffer b64) (private_of_pkcs8 cs)"

definition store_key :: "('sk, 'pk, 'gk, 'vk) suite \<Rightarrow> int \<Rightarrow> ('sk, 'pk) key_pair \<Rightarrow> time \<Rightarrow> stored_key" where
  "store_key cs i kp created =
     \<lparr>sk_keyId = i, sk_publicKey = exportEcdhPublicKey cs (publicKey kp), sk_privateKey = exportEcdhPrivateKey cs (privateKey kp),
      sk_createdAt = created\<rparr>"

definition read_key :: "('sk, 'pk, 'gk, 'vk) suite \<Rightarrow> stored_key \<Rightarrow> ('sk, 'pk) key_pair option" where
  "read_key cs k =
     Option.bind (importEcdhPublicKey cs (sk_publicKey k)) (\<lambda>pub.
     Option.bind (importEcdhPrivateKey cs (sk_privateKey k)) (\<lambda>priv. Some \<lparr>publicKey = pub, privateKey = priv\<rparr>))"

text \<open>The one-time keys in the order of their ids, as the bundle and the stored state list them.\<close>

definition by_key_id :: "(int, ('sk, 'pk) local_key) jsmap \<Rightarrow> (int \<times> ('sk, 'pk) local_key) list" where
  "by_key_id m = js_sort (cmp_by fst num_cmp) m"

definition persistLocalPreKeyState :: "('sk, 'pk, 'gk, 'vk) suite \<Rightarrow> ('sk, 'pk, 'gk, 'vk) protocol \<Rightarrow> ('sk, 'pk, 'gk, 'vk) protocol" where
  "persistLocalPreKeyState cs s =
     (case pr_signed s of
        None \<Rightarrow> s
      | Some k \<Rightarrow>
          map_key_db (\<lambda>d. if db_prekeys d
            then d\<lparr>db_local := Some
              \<lparr>lp_signed = store_key cs (ls_keyId k) (ls_pair k) (ls_createdAt k), lp_signature = ls_signature k,
               lp_expiresAt = ls_expiresAt k,
               lp_oneTime = map (\<lambda>(i, r). store_key cs i (lk_pair r) (lk_createdAt r)) (by_key_id (pr_oneTime s)),
               lp_nextId = pr_nextId s\<rparr>\<rparr>
            else d) s)"

definition setPersistence_keys :: "('sk, 'pk, 'gk, 'vk) suite \<Rightarrow> key_db \<Rightarrow> ('sk, 'pk, 'gk, 'vk) protocol \<Rightarrow> ('sk, 'pk, 'gk, 'vk) protocol" where
  "setPersistence_keys cs d s = persistLocalPreKeyState cs (s\<lparr>pr_db := Some d\<rparr>)"

subsection \<open>Local pre-keys\<close>

definition new_signed_key :: "('sk, 'pk, 'gk, 'vk) suite \<Rightarrow> time \<Rightarrow> int \<Rightarrow> 'gk \<Rightarrow> ('sk, 'pk) key_pair \<Rightarrow> ('sk, 'pk) local_signed" where
  "new_signed_key cs now i gk kp =
     \<lparr>ls_keyId = i, ls_pair = kp, ls_createdAt = now,
      ls_signature = cipher_sign cs (map of_char (exportEcdhPublicKey cs (publicKey kp))) gk,
      ls_expiresAt = now + signedPreKeyTtlMs\<rparr>"

definition add_one_time :: "('sk, 'pk, 'gk, 'vk) suite \<Rightarrow> time \<Rightarrow> ('sk, 'pk, 'gk, 'vk) protocol \<Rightarrow> ('sk, 'pk, 'gk, 'vk) protocol" where
  "add_one_time cs now s =
     (case draw_pair cs s of
        (kp, s1) \<Rightarrow> s1\<lparr>pr_oneTime := jm_set (pr_nextId s1) \<lparr>lk_pair = kp, lk_createdAt = now\<rparr> (pr_oneTime s1),
                      pr_nextId := pr_nextId s1 + 1\<rparr>)"

definition generateMoreOneTimePreKeys :: "('sk, 'pk, 'gk, 'vk) suite \<Rightarrow> time \<Rightarrow> nat \<Rightarrow> ('sk, 'pk, 'gk, 'vk) protocol \<Rightarrow> ('sk, 'pk, 'gk, 'vk) protocol" where
  "generateMoreOneTimePreKeys cs now n s = (add_one_time cs now ^^ n) s"

definition scheduleBackgroundPreKeyGeneration :: "nat \<Rightarrow> ('sk, 'pk, 'gk, 'vk) protocol \<Rightarrow> ('sk, 'pk, 'gk, 'vk) protocol" where
  "scheduleBackgroundPreKeyGeneration n s =
     (case pr_background s of Some _ \<Rightarrow> s | None \<Rightarrow> s\<lparr>pr_background := Some n\<rparr>)"

text \<open>One turn of the background generation; after the last key the state is saved.\<close>

definition background_step :: "('sk, 'pk, 'gk, 'vk) suite \<Rightarrow> time \<Rightarrow> ('sk, 'pk, 'gk, 'vk) protocol \<Rightarrow> ('sk, 'pk, 'gk, 'vk) protocol" where
  "background_step cs now s =
     (case pr_background s of
        None \<Rightarrow> s
      | Some 0 \<Rightarrow> (persistLocalPreKeyState cs s)\<lparr>pr_background := None\<rparr>
      | Some (Suc n) \<Rightarrow> (add_one_time cs now s)\<lparr>pr_background := Some n\<rparr>)"

definition generateFreshLocalPreKeys :: "('sk, 'pk, 'gk, 'vk) suite \<Rightarrow> time \<Rightarrow> ('sk, 'pk, 'gk, 'vk) protocol
    \<Rightarrow> ('sk, 'pk, 'gk, 'vk) protocol result" where
  "generateFreshLocalPreKeys cs now s =
     (case pr_signing s of
        None \<Rightarrow> Inl ''MessageProtocol not initialized with signing keys''
      | Some (gk, vk) \<Rightarrow>
          (case draw_pair cs s of
             (kp, s1) \<Rightarrow>
               (let s2 = s1\<lparr>pr_signed := Some (new_signed_key cs now now gk kp), pr_oneTime := [], pr_nextId := 1\<rparr>;
                    first = min INITIAL_PRE_KEY_BATCH_SIZE targetOneTimePreKeys;
                    s3 = generateMoreOneTimePreKeys cs now first s2;
                    rest = targetOneTimePreKeys - first
                in Inr (if 0 < rest then scheduleBackgroundPreKeyGeneration rest s3 else s3))))"

definition rotateLocalSignedPreKey :: "('sk, 'pk, 'gk, 'vk) suite \<Rightarrow> time \<Rightarrow> ('sk, 'pk, 'gk, 'vk) protocol
    \<Rightarrow> ('sk, 'pk, 'gk, 'vk) protocol result" where
  "rotateLocalSignedPreKey cs now s =
     (case pr_signing s of
        None \<Rightarrow> Inl ''MessageProtocol not initialized with signing keys''
      | Some (gk, vk) \<Rightarrow>
          (case draw_pair cs s of
             (kp, s1) \<Rightarrow>
               Inr (s1\<lparr>pr_signed := Some (new_signed_key cs now
                      (max now ((case pr_signed s1 of None \<Rightarrow> 0 | Some k \<Rightarrow> ls_keyId k) + 1)) gk kp)\<rparr>)))"

definition one_time_step :: "('sk, 'pk, 'gk, 'vk) suite \<Rightarrow> time \<Rightarrow> ('sk, 'pk, 'gk, 'vk) protocol \<Rightarrow> bool \<times> ('sk, 'pk, 'gk, 'vk) protocol" where
  "one_time_step cs now s =
     (let plan = planLocalOneTimePreKeyLifecycle now (map (\<lambda>(i, k). (i, lk_createdAt k)) (pr_oneTime s));
          s1 = s\<lparr>pr_oneTime := fold jm_delete (staleKeyIds plan) (pr_oneTime s)\<rparr>;
          n = replenishCount plan
      in (staleKeyIds plan \<noteq> [] \<or> 0 < n,
          if n = 0 then s1
          else if n \<le> INITIAL_PRE_KEY_BATCH_SIZE then generateMoreOneTimePreKeys cs now n s1
          else scheduleBackgroundPreKeyGeneration (n - INITIAL_PRE_KEY_BATCH_SIZE)
                 (generateMoreOneTimePreKeys cs now INITIAL_PRE_KEY_BATCH_SIZE s1)))"

definition applyLocalPreKeyLifecyclePolicy :: "('sk, 'pk, 'gk, 'vk) suite \<Rightarrow> time \<Rightarrow> ('sk, 'pk, 'gk, 'vk) protocol
    \<Rightarrow> (bool \<times> ('sk, 'pk, 'gk, 'vk) protocol) result" where
  "applyLocalPreKeyLifecyclePolicy cs now s =
     (let dec = decideSignedPreKeyLifecycle now (map_option ls_expiresAt (pr_signed s))
      in if regenerateAll dec
         then (case generateFreshLocalPreKeys cs now s of Inl e \<Rightarrow> Inl e | Inr s1 \<Rightarrow> Inr (True, s1))
         else (case (if rotateSignedPreKey dec then rotateLocalSignedPreKey cs now s else Inr s) of
                 Inl e \<Rightarrow> Inl e
               | Inr s1 \<Rightarrow> (case one_time_step cs now s1 of (changed, s2) \<Rightarrow> Inr (rotateSignedPreKey dec \<or> changed, s2))))"

text \<open>Loading the stored local keys stops at the first key that cannot be imported.\<close>

fun load_one_time :: "('sk, 'pk, 'gk, 'vk) suite \<Rightarrow> stored_key list \<Rightarrow> (int, ('sk, 'pk) local_key) jsmap \<Rightarrow> bool \<times> (int, ('sk, 'pk) local_key) jsmap" where
  "load_one_time cs [] m = (True, m)"
| "load_one_time cs (k # ks) m =
     (case read_key cs k of
        None \<Rightarrow> (False, m)
      | Some kp \<Rightarrow> load_one_time cs ks (jm_set (sk_keyId k) \<lparr>lk_pair = kp, lk_createdAt = sk_createdAt k\<rparr> m))"

definition loadLocalPreKeyState :: "('sk, 'pk, 'gk, 'vk) suite \<Rightarrow> local_state \<Rightarrow> ('sk, 'pk, 'gk, 'vk) protocol
    \<Rightarrow> bool \<times> ('sk, 'pk, 'gk, 'vk) protocol" where
  "loadLocalPreKeyState cs l s =
     (case read_key cs (lp_signed l) of
        None \<Rightarrow> (False, s)
      | Some kp \<Rightarrow>
          (case load_one_time cs (lp_oneTime l) [] of
             (ok, m) \<Rightarrow>
               (let s1 = s\<lparr>pr_signed := Some \<lparr>ls_keyId = sk_keyId (lp_signed l), ls_pair = kp,
                            ls_createdAt = sk_createdAt (lp_signed l), ls_signature = lp_signature l, ls_expiresAt = lp_expiresAt l\<rparr>,
                          pr_oneTime := m\<rparr>
                in (ok, if ok then s1\<lparr>pr_nextId := foldr max (map (\<lambda>i. i + 1) (jm_keys m)) (max (lp_nextId l) 1)\<rparr> else s1))))"

definition stored_local :: "('sk, 'pk, 'gk, 'vk) protocol \<Rightarrow> local_state option" where
  "stored_local s = Option.bind (pr_db s) (\<lambda>d. if db_prekeys d then db_local d else None)"

text \<open>
  \<open>ensureLocalPreKeyMaterial\<close> runs once; \<open>pr_ready\<close> is the outcome of its promise, and a rejected promise rejects
  every later call.
\<close>

definition ensureLocalPreKeyMaterial :: "('sk, 'pk, 'gk, 'vk) suite \<Rightarrow> time \<Rightarrow> ('sk, 'pk, 'gk, 'vk) protocol
    \<Rightarrow> string option \<times> ('sk, 'pk, 'gk, 'vk) protocol" where
  "ensureLocalPreKeyMaterial cs now s =
     (case pr_ready s of
        Some True \<Rightarrow> (None, s)
      | Some False \<Rightarrow> (Some ''MessageProtocol not initialized with signing keys'', s)
      | None \<Rightarrow>
          (case (case stored_local s of None \<Rightarrow> (False, s) | Some l \<Rightarrow> loadLocalPreKeyState cs l s) of
             (restored, s0) \<Rightarrow>
               (case (if restored then Inr s0 else generateFreshLocalPreKeys cs now s0) of
                  Inl e \<Rightarrow> (Some e, s0\<lparr>pr_ready := Some False\<rparr>)
                | Inr s1 \<Rightarrow>
                    (case applyLocalPreKeyLifecyclePolicy cs now s1 of
                       Inl e \<Rightarrow> (Some e, s1\<lparr>pr_ready := Some False\<rparr>)
                     | Inr (changed, s2) \<Rightarrow>
                         (None, (if \<not> restored \<or> changed then persistLocalPreKeyState cs s2 else s2)\<lparr>pr_ready := Some True\<rparr>)))))"

definition init_protocol :: "('sk, 'pk, 'gk, 'vk) suite \<Rightarrow> time \<Rightarrow> 'gk \<times> 'vk \<Rightarrow> ('sk, 'pk, 'gk, 'vk) protocol
    \<Rightarrow> string option \<times> ('sk, 'pk, 'gk, 'vk) protocol" where
  "init_protocol cs now signing s =
     (case draw_pair cs (s\<lparr>pr_signing := Some signing\<rparr>) of
        (kp, s1) \<Rightarrow>
          (case ensureLocalPreKeyMaterial cs now (s1\<lparr>pr_dh := Some kp\<rparr>) of
             (Some e, s2) \<Rightarrow> (Some e, s2)
           | (None, s2) \<Rightarrow> (None, scheduleDHKeyPairPoolRefill s2)))"

subsection \<open>Bundles\<close>

definition snapshotLocalPreKeyBundle :: "('sk, 'pk, 'gk, 'vk) suite \<Rightarrow> time \<Rightarrow> ('sk, 'pk, 'gk, 'vk) protocol \<Rightarrow> pre_key_bundle result" where
  "snapshotLocalPreKeyBundle cs now s =
     (case (pr_signed s, pr_signing s) of
        (Some k, Some (gk, vk)) \<Rightarrow>
          Inr \<lparr>pb_version = PRE_KEY_BUNDLE_VERSION, pb_peerId = pr_me s, pb_generatedAt = now,
               pb_signingPublicKey = exportVerifier cs vk,
               pb_signedPreKey = \<lparr>sp_keyId = ls_keyId k, sp_publicKey = exportEcdhPublicKey cs (publicKey (ls_pair k)),
                 sp_signature = ls_signature k, sp_createdAt = ls_createdAt k, sp_expiresAt = ls_expiresAt k\<rparr>,
               pb_oneTimePreKeys = map (\<lambda>(i, r). \<lparr>ot_keyId = i, ot_publicKey = exportEcdhPublicKey cs (publicKey (lk_pair r)),
                 ot_createdAt = lk_createdAt r\<rparr>) (by_key_id (pr_oneTime s))\<rparr>
      | _ \<Rightarrow> Inl ''Local pre-key state unavailable'')"

definition createPreKeyBundle :: "('sk, 'pk, 'gk, 'vk) suite \<Rightarrow> time \<Rightarrow> ('sk, 'pk, 'gk, 'vk) protocol
    \<Rightarrow> pre_key_bundle result \<times> ('sk, 'pk, 'gk, 'vk) protocol" where
  "createPreKeyBundle cs now s =
     (case ensureLocalPreKeyMaterial cs now s of
        (Some e, s1) \<Rightarrow> (Inl e, s1)
      | (None, s1) \<Rightarrow>
          (case applyLocalPreKeyLifecyclePolicy cs now s1 of
             Inl e \<Rightarrow> (Inl e, s1)
           | Inr (changed, s2) \<Rightarrow>
               (let s3 = (if changed then persistLocalPreKeyState cs s2 else s2)
                in (snapshotLocalPreKeyBundle cs now s3, s3))))"

definition sanitizeAndVerifyPeerPreKeyBundle :: "('sk, 'pk, 'gk, 'vk) suite \<Rightarrow> time \<Rightarrow> string \<Rightarrow> pre_key_bundle \<Rightarrow> pre_key_bundle option" where
  "sanitizeAndVerifyPeerPreKeyBundle cs now peer b =
     Option.bind (normalizePeerPreKeyBundle now b) (\<lambda>n.
       if pb_peerId n \<noteq> peer then None
       else Option.bind (importSigningPublicKey cs (pb_signingPublicKey n)) (\<lambda>vk.
         if cipher_verify cs (map of_char (sp_publicKey (pb_signedPreKey n))) (sp_signature (pb_signedPreKey n)) vk = Some True \<and>
            importEcdhPublicKey cs (sp_publicKey (pb_signedPreKey n)) \<noteq> None \<and>
            list_all (\<lambda>e. importEcdhPublicKey cs (ot_publicKey e) \<noteq> None) (pb_oneTimePreKeys n)
         then Some n else None))"

definition storePeerPreKeyBundle :: "('sk, 'pk, 'gk, 'vk) suite \<Rightarrow> time \<Rightarrow> string \<Rightarrow> pre_key_bundle \<Rightarrow> ('sk, 'pk, 'gk, 'vk) protocol
    \<Rightarrow> bool \<times> ('sk, 'pk, 'gk, 'vk) protocol" where
  "storePeerPreKeyBundle cs now peer b s =
     (case sanitizeAndVerifyPeerPreKeyBundle cs now peer b of
        None \<Rightarrow> (False, s)
      | Some n \<Rightarrow> (True, persistPeerPreKeyBundle peer n (s\<lparr>pr_bundles := jm_set peer n (pr_bundles s)\<rparr>)))"

definition getPeerPreKeyBundle :: "('sk, 'pk, 'gk, 'vk) suite \<Rightarrow> time \<Rightarrow> string \<Rightarrow> ('sk, 'pk, 'gk, 'vk) protocol
    \<Rightarrow> pre_key_bundle option \<times> ('sk, 'pk, 'gk, 'vk) protocol" where
  "getPeerPreKeyBundle cs now peer s =
     (case jm_get (pr_bundles s) peer of
        Some cached \<Rightarrow>
          (case normalizePeerPreKeyBundle now cached of
             None \<Rightarrow> (None, clearPeerPreKeyBundle peer s)
           | Some n \<Rightarrow>
               (Some n, if hasPeerPreKeyBundleChanged cached n
                        then persistPeerPreKeyBundle peer n (s\<lparr>pr_bundles := jm_set peer n (pr_bundles s)\<rparr>) else s))
      | None \<Rightarrow>
          (case Option.bind (pr_db s) (\<lambda>d. if db_prekeys d then jm_get (db_bundles d) peer else None) of
             None \<Rightarrow> (None, s)
           | Some loaded \<Rightarrow>
               (case sanitizeAndVerifyPeerPreKeyBundle cs now peer loaded of
                  None \<Rightarrow> (None, delete_stored_bundle peer s)
                | Some n \<Rightarrow>
                    (let s1 = s\<lparr>pr_bundles := jm_set peer n (pr_bundles s)\<rparr>
                     in (Some n, if hasPeerPreKeyBundleChanged loaded n then persistPeerPreKeyBundle peer n s1 else s1)))))"

subsection \<open>Handshakes\<close>

definition createHandshake :: "('sk, 'pk, 'gk, 'vk) suite \<Rightarrow> ('sk, 'pk, 'gk, 'vk) protocol \<Rightarrow> handshake \<times> ('sk, 'pk, 'gk, 'vk) protocol" where
  "createHandshake cs s =
     (case (case pr_dh s of
              Some kp \<Rightarrow> (kp, s)
            | None \<Rightarrow> (case takeDHKeyPair cs s of (kp, s1) \<Rightarrow> (kp, s1\<lparr>pr_dh := Some kp\<rparr>))) of
        (kp, s1) \<Rightarrow>
          (\<lparr>hs_publicKey = exportPublicKey cs (publicKey (pr_identity s1)), hs_peerId = pr_me s1,
            hs_ratchetKey = Some (arrayBufferToBase64 (export_raw cs (publicKey kp))), hs_version = Some 2,
            hs_signingKey = map_option (\<lambda>(gk, vk). exportVerifier cs vk) (pr_signing s1), hs_preKeySupport = True\<rparr>, s1))"

text \<open>An unreadable or absent signing key leaves the known one in place.\<close>

definition learn_signer :: "('sk, 'pk, 'gk, 'vk) suite \<Rightarrow> string \<Rightarrow> handshake \<Rightarrow> ('sk, 'pk, 'gk, 'vk) protocol \<Rightarrow> ('sk, 'pk, 'gk, 'vk) protocol" where
  "learn_signer cs peer h s =
     (case hs_signingKey h of
        None \<Rightarrow> s
      | Some b64 \<Rightarrow>
          (case if b64 = [] then None else importSigningPublicKey cs b64 of
             None \<Rightarrow> s
           | Some vk \<Rightarrow> s\<lparr>pr_signers := jm_set peer vk (pr_signers s)\<rparr>))"

text \<open>The new session of \<open>processHandshake\<close>: the smaller peer id is the initiator.\<close>

definition start_ratchet :: "('sk, 'pk, 'gk, 'vk) suite \<Rightarrow> string \<Rightarrow> bytes \<Rightarrow> 'pk \<Rightarrow> ('sk, 'pk, 'gk, 'vk) protocol
    \<Rightarrow> ('sk, 'pk) slot \<times> ('sk, 'pk, 'gk, 'vk) protocol" where
  "start_ratchet cs peer secret peer_key s =
     (if pr_me s < peer
      then (case takeDHKeyPair cs s of (kp, s1) \<Rightarrow> (Ready (initAlice (ratchet_part cs) secret peer_key kp), s1))
      else ((case pr_dh s of Some kp \<Rightarrow> Ready (initBob secret kp) | None \<Rightarrow> Keyless), s\<lparr>pr_dh := None\<rparr>))"

definition processHandshake :: "('sk, 'pk, 'gk, 'vk) suite \<Rightarrow> string \<Rightarrow> handshake \<Rightarrow> ('sk, 'pk, 'gk, 'vk) protocol
    \<Rightarrow> string option \<times> ('sk, 'pk, 'gk, 'vk) protocol" where
  "processHandshake cs peer h s =
     (case importPublicKey cs (hs_publicKey h) of
        None \<Rightarrow> (Some ''DataError'', s)
      | Some peer_id_key \<Rightarrow>
          (let s1 = learn_signer cs peer h s
           in if hs_version h = Some 2 \<and> hs_ratchetKey h \<noteq> None \<and> hs_ratchetKey h \<noteq> Some []
              then (if jm_has (pr_ratchets s1) peer then (None, s1)
                    else (case load_ratchet cs peer s1 of
                            Some r \<Rightarrow> (None, s1\<lparr>pr_ratchets := jm_set peer (Ready r) (pr_ratchets s1)\<rparr>)
                          | None \<Rightarrow>
                              (let secret = ecdh_bits cs (privateKey (pr_identity s1)) peer_id_key;
                                   s2 = s1\<lparr>pr_secrets := jm_set peer (deriveSharedSecretFromRawBytes cs secret (pr_me s1) peer) (pr_secrets s1)\<rparr>
                               in case importEcdhPublicKey cs (the (hs_ratchetKey h)) of
                                    None \<Rightarrow> (Some ''DataError'', s2)
                                  | Some peer_key \<Rightarrow>
                                      (case start_ratchet cs peer secret peer_key s2 of
                                         (slot, s3) \<Rightarrow>
                                           (None, persistState cs peer (s3\<lparr>pr_ratchets := jm_set peer slot (pr_ratchets s3)\<rparr>))))))
              else (None, s1\<lparr>pr_secrets := jm_set peer
                     (legacySharedSecret cs (privateKey (pr_identity s1)) peer_id_key (pr_me s1) peer) (pr_secrets s1)\<rparr>)))"

subsection \<open>Sending\<close>

definition base_envelope :: "time \<Rightarrow> string \<Rightarrow> string \<Rightarrow> string \<Rightarrow> json option \<Rightarrow> ('sk, 'pk, 'gk, 'vk) protocol \<Rightarrow> message_envelope" where
  "base_envelope now msgId kind sig meta s =
     \<lparr>ev_id = msgId, ev_timestamp = now, ev_sender = pr_me s, ev_type = kind, ev_version = None, ev_ratchet = None,
      ev_encrypted = None, ev_init = None, ev_signature = sig, ev_metadata = meta\<rparr>"

definition select_pre_key :: "time \<Rightarrow> pre_key_bundle \<Rightarrow> (pre_key_type \<times> int \<times> string) option" where
  "select_pre_key now b =
     (case pb_oneTimePreKeys b of
        e # _ \<Rightarrow> if ot_publicKey e = [] then None else Some (OneTimeKey, ot_keyId e, ot_publicKey e)
      | [] \<Rightarrow>
          if sp_publicKey (pb_signedPreKey b) = [] then None
          else if sp_expiresAt (pb_signedPreKey b) \<le> now then None
          else Some (SignedKey, sp_keyId (pb_signedPreKey b), sp_publicKey (pb_signedPreKey b)))"

definition consume_peer_key :: "time \<Rightarrow> string \<Rightarrow> pre_key_bundle \<Rightarrow> ('sk, 'pk, 'gk, 'vk) protocol \<Rightarrow> ('sk, 'pk, 'gk, 'vk) protocol" where
  "consume_peer_key now peer b s =
     (case normalizePeerPreKeyBundle now (b\<lparr>pb_oneTimePreKeys := tl (pb_oneTimePreKeys b)\<rparr>) of
        None \<Rightarrow> clearPeerPreKeyBundle peer s
      | Some n \<Rightarrow> persistPeerPreKeyBundle peer n (s\<lparr>pr_bundles := jm_set peer n (pr_bundles s)\<rparr>))"

definition encryptWithPreKeyBootstrap ::
    "('sk, 'pk, 'gk, 'vk) suite \<Rightarrow> time \<Rightarrow> string \<Rightarrow> string \<Rightarrow> js_text \<Rightarrow> string \<Rightarrow> string \<Rightarrow> json option \<Rightarrow> ('sk, 'pk, 'gk, 'vk) protocol
     \<Rightarrow> message_envelope option result \<times> ('sk, 'pk, 'gk, 'vk) protocol" where
  "encryptWithPreKeyBootstrap cs now msgId peer plain kind sig meta s =
     (case getPeerPreKeyBundle cs now peer s of
        (None, s1) \<Rightarrow> (Inr None, s1)
      | (Some b, s1) \<Rightarrow>
          (case select_pre_key now b of
             None \<Rightarrow> (Inr None, s1)
           | Some (key_type, key_id, key_b64) \<Rightarrow>
               (case importEcdhPublicKey cs key_b64 of
                  None \<Rightarrow> (Inl ''DataError'', s1)
                | Some key \<Rightarrow>
                    (case draw_pair cs s1 of (ephemeral, s2) \<Rightarrow>
                     case draw_pair cs s2 of (ratchet_key, s3) \<Rightarrow>
                     case draw_iv cs s3 of (ivb, s4) \<Rightarrow>
                     case encrypt (ratchet_part cs) ivb plain
                            (initAlice (ratchet_part cs) (ecdh_bits cs (privateKey ephemeral) key) key ratchet_key) of
                       (Inl e, _) \<Rightarrow> (Inl e, s4)
                     | (Inr rm, r) \<Rightarrow>
                         (let s5 = persistState cs peer (s4\<lparr>pr_ratchets := jm_set peer (Ready r) (pr_ratchets s4)\<rparr>);
                              s6 = (if key_type = OneTimeKey then consume_peer_key now peer b s5 else s5)
                          in (Inr (Some ((base_envelope now msgId kind sig meta s6)
                                \<lparr>ev_version := Some 3, ev_ratchet := Some rm,
                                 ev_init := Some \<lparr>si_bundleVersion = PRE_KEY_BUNDLE_VERSION, si_keyId = key_id, si_keyType = key_type,
                                   si_ephemeral = exportEcdhPublicKey cs (publicKey ephemeral), si_createdAt = now\<rparr>\<rparr>)), s6))))))"

definition sign_content :: "('sk, 'pk, 'gk, 'vk) suite \<Rightarrow> js_text \<Rightarrow> ('sk, 'pk, 'gk, 'vk) protocol \<Rightarrow> string" where
  "sign_content cs plain s = (case pr_signing s of None \<Rightarrow> [] | Some (gk, vk) \<Rightarrow> cipher_sign cs plain gk)"

definition encryptMessage ::
    "('sk, 'pk, 'gk, 'vk) suite \<Rightarrow> time \<Rightarrow> string \<Rightarrow> string \<Rightarrow> js_text \<Rightarrow> string \<Rightarrow> json option \<Rightarrow> ('sk, 'pk, 'gk, 'vk) protocol
     \<Rightarrow> message_envelope result \<times> ('sk, 'pk, 'gk, 'vk) protocol" where
  "encryptMessage cs now msgId peer plain kind meta s =
     (let sig = sign_content cs plain s;
          env = base_envelope now msgId kind sig meta s
      in case (case jm_get (pr_ratchets s) peer of Some (Ready r) \<Rightarrow> if sendChainKey r \<noteq> None then Some r else None | _ \<Rightarrow> None) of
           Some r \<Rightarrow>
             (case draw_iv cs s of (ivb, s1) \<Rightarrow>
              case encrypt (ratchet_part cs) ivb plain r of (res, r') \<Rightarrow>
              let s2 = s1\<lparr>pr_ratchets := jm_set peer (Ready r') (pr_ratchets s1)\<rparr>
              in case res of
                   Inl e \<Rightarrow> (Inl e, s2)
                 | Inr rm \<Rightarrow> (Inr (env\<lparr>ev_version := Some 2, ev_ratchet := Some rm\<rparr>), persistState cs peer s2))
         | None \<Rightarrow>
             (case jm_get (pr_secrets s) peer of
                Some key \<Rightarrow>
                  (case draw_iv cs s of (ivb, s1) \<Rightarrow>
                   case cipher_encrypt cs ivb key plain of
                     None \<Rightarrow> (Inl ''OperationError'', s1)
                   | Some c \<Rightarrow> (Inr (env\<lparr>ev_version := Some 1, ev_encrypted := Some c\<rparr>), s1))
              | None \<Rightarrow>
                  (case encryptWithPreKeyBootstrap cs now msgId peer plain kind sig meta s of
                     (Inl e, s1) \<Rightarrow> (Inl e, s1)
                   | (Inr (Some ev), s1) \<Rightarrow> (Inr ev, s1)
                   | (Inr None, s1) \<Rightarrow> (Inl (''No shared secret with peer '' @ take 8 peer), s1))))"

subsection \<open>Receiving\<close>

text \<open>The result \<open>Inr None\<close> is the code's \<open>null\<close>: the signature does not verify.\<close>

definition check_signature ::
    "('sk, 'pk, 'gk, 'vk) suite \<Rightarrow> string \<Rightarrow> 'vk \<Rightarrow> js_text \<Rightarrow> string \<Rightarrow> ('sk, 'pk, 'gk, 'vk) protocol \<Rightarrow> js_text option result" where
  "check_signature cs peer peerPublicKey plain sig s =
     (case cipher_verify cs plain sig (jm_get_or peerPublicKey (pr_signers s) peer) of
        None \<Rightarrow> Inl ''InvalidCharacterError''
      | Some ok \<Rightarrow> Inr (if ok then Some plain else None))"

definition resolveLocalPreKey :: "pre_key_type \<Rightarrow> int \<Rightarrow> ('sk, 'pk, 'gk, 'vk) protocol \<Rightarrow> ('sk, 'pk) key_pair option" where
  "resolveLocalPreKey kt i s =
     (case kt of
        SignedKey \<Rightarrow> (case pr_signed s of Some k \<Rightarrow> if ls_keyId k \<noteq> i then None else Some (ls_pair k) | None \<Rightarrow> None)
      | OneTimeKey \<Rightarrow> map_option lk_pair (jm_get (pr_oneTime s) i))"

text \<open>After the session is accepted: the used one-time key goes, the policy is applied, the local state is saved.\<close>

definition accept_session_init ::
    "('sk, 'pk, 'gk, 'vk) suite \<Rightarrow> time \<Rightarrow> string \<Rightarrow> session_init \<Rightarrow> ('sk, 'pk) ratchet \<Rightarrow> ('sk, 'pk, 'gk, 'vk) protocol
     \<Rightarrow> string option \<times> ('sk, 'pk, 'gk, 'vk) protocol" where
  "accept_session_init cs now peer si r s =
     (let s1 = persistState cs peer (s\<lparr>pr_ratchets := jm_set peer (Ready r) (pr_ratchets s)\<rparr>);
          s2 = (if si_keyType si = OneTimeKey then s1\<lparr>pr_oneTime := jm_delete (si_keyId si) (pr_oneTime s1)\<rparr> else s1)
      in case applyLocalPreKeyLifecyclePolicy cs now s2 of
           Inl e \<Rightarrow> (Some e, s2)
         | Inr (changed, s3) \<Rightarrow>
             (None, if si_keyType si = OneTimeKey \<or> changed then persistLocalPreKeyState cs s3 else s3))"

definition decryptPreKeySessionInit ::
    "('sk, 'pk, 'gk, 'vk) suite \<Rightarrow> time \<Rightarrow> string \<Rightarrow> message_envelope \<Rightarrow> session_init \<Rightarrow> 'vk \<Rightarrow> ('sk, 'pk, 'gk, 'vk) protocol
     \<Rightarrow> js_text option result \<times> ('sk, 'pk, 'gk, 'vk) protocol" where
  "decryptPreKeySessionInit cs now peer ev si peerPublicKey s =
     (if jm_has (pr_ratchets s) peer then (Inl (''Ratchet already established with peer '' @ take 8 peer), s)
      else (case ensureLocalPreKeyMaterial cs now s of
        (Some e, s1) \<Rightarrow> (Inl e, s1)
      | (None, s1) \<Rightarrow>
          (case resolveLocalPreKey (si_keyType si) (si_keyId si) s1 of
             None \<Rightarrow> (Inl ''Pre-key unavailable'', s1)
           | Some kp \<Rightarrow>
               (case importEcdhPublicKey cs (si_ephemeral si) of
                  None \<Rightarrow> (Inl ''DataError'', s1)
                | Some eph \<Rightarrow>
                    (case ev_ratchet ev of
                       None \<Rightarrow> (Inl ''TypeError'', s1)
                     | Some rm \<Rightarrow>
                         (case draw_pair cs s1 of (fresh, s2) \<Rightarrow>
                          case decrypt (ratchet_part cs) fresh rm (initBob (ecdh_bits cs (privateKey kp) eph) kp) of
                            (Inl e, _) \<Rightarrow> (Inl e, s2)
                          | (Inr plain, r) \<Rightarrow>
                              (case check_signature cs peer peerPublicKey plain (ev_signature ev) s2 of
                                 Inl e \<Rightarrow> (Inl e, s2)
                               | Inr None \<Rightarrow> (Inr None, s2)
                               | Inr (Some _) \<Rightarrow>
                                   (case accept_session_init cs now peer si r s2 of
                                      (Some e, s3) \<Rightarrow> (Inl e, s3)
                                    | (None, s3) \<Rightarrow> (Inr (Some plain), s3)))))))))"

definition decrypt_ratchet_envelope ::
    "('sk, 'pk, 'gk, 'vk) suite \<Rightarrow> string \<Rightarrow> ratchet_message \<Rightarrow> string \<Rightarrow> 'vk \<Rightarrow> ('sk, 'pk, 'gk, 'vk) protocol
     \<Rightarrow> js_text option result \<times> ('sk, 'pk, 'gk, 'vk) protocol" where
  "decrypt_ratchet_envelope cs peer rm sig peerPublicKey s =
     (let s1 = (if jm_has (pr_ratchets s) peer then s else snd (restoreRatchetState cs peer s))
      in case jm_get (pr_ratchets s1) peer of
           None \<Rightarrow> (Inl (''No ratchet state with peer '' @ take 8 peer), s1)
         | Some Keyless \<Rightarrow> (Inl ''TypeError'', s1)
         | Some (Ready r) \<Rightarrow>
             (case draw_pair cs s1 of (fresh, s2) \<Rightarrow>
              case decrypt (ratchet_part cs) fresh rm r of (res, r') \<Rightarrow>
              let s3 = s2\<lparr>pr_ratchets := jm_set peer (Ready r') (pr_ratchets s2)\<rparr>
              in case res of
                   Inl e \<Rightarrow> (Inl e, s3)
                 | Inr plain \<Rightarrow>
                     (let s4 = persistState cs peer s3
                      in (check_signature cs peer peerPublicKey plain sig s4, s4))))"

definition decryptMessage ::
    "('sk, 'pk, 'gk, 'vk) suite \<Rightarrow> time \<Rightarrow> string \<Rightarrow> message_envelope \<Rightarrow> 'vk \<Rightarrow> ('sk, 'pk, 'gk, 'vk) protocol
     \<Rightarrow> js_text option result \<times> ('sk, 'pk, 'gk, 'vk) protocol" where
  "decryptMessage cs now peer ev peerPublicKey s =
     (case (ev_version ev = Some 3, ev_init ev) of
        (True, Some si) \<Rightarrow> decryptPreKeySessionInit cs now peer ev si peerPublicKey s
      | _ \<Rightarrow>
          (case (ev_version ev = Some 2, ev_ratchet ev) of
             (True, Some rm) \<Rightarrow> decrypt_ratchet_envelope cs peer rm (ev_signature ev) peerPublicKey s
           | _ \<Rightarrow>
               (case ev_encrypted ev of
                  None \<Rightarrow> (Inl ''Unsupported envelope format'', s)
                | Some c \<Rightarrow>
                    (case jm_get (pr_secrets s) peer of
                       None \<Rightarrow> (Inl (''No shared secret with peer '' @ take 8 peer), s)
                     | Some key \<Rightarrow>
                         (case cipher_decrypt cs key c of
                            None \<Rightarrow> (Inl ''OperationError'', s)
                          | Some plain \<Rightarrow> (check_signature cs peer peerPublicKey plain (ev_signature ev) s, s))))))"

subsection \<open>The other methods\<close>

definition hasSharedSecret :: "string \<Rightarrow> ('sk, 'pk, 'gk, 'vk) protocol \<Rightarrow> bool" where
  "hasSharedSecret peer s \<longleftrightarrow> jm_has (pr_ratchets s) peer \<or> jm_has (pr_secrets s) peer"

definition hasRatchetState :: "string \<Rightarrow> ('sk, 'pk, 'gk, 'vk) protocol \<Rightarrow> bool" where
  "hasRatchetState peer s \<longleftrightarrow> jm_has (pr_ratchets s) peer"

definition clearSharedSecret :: "string \<Rightarrow> ('sk, 'pk, 'gk, 'vk) protocol \<Rightarrow> ('sk, 'pk, 'gk, 'vk) protocol" where
  "clearSharedSecret peer s = s\<lparr>pr_secrets := jm_delete peer (pr_secrets s)\<rparr>"

definition clearRatchetState :: "string \<Rightarrow> ('sk, 'pk, 'gk, 'vk) protocol \<Rightarrow> ('sk, 'pk, 'gk, 'vk) protocol" where
  "clearRatchetState peer s =
     map_key_db (\<lambda>d. d\<lparr>db_ratchets := jm_delete peer (db_ratchets d)\<rparr>) (s\<lparr>pr_ratchets := jm_delete peer (pr_ratchets s)\<rparr>)"

definition clearAllSecrets :: "('sk, 'pk, 'gk, 'vk) protocol \<Rightarrow> ('sk, 'pk, 'gk, 'vk) protocol" where
  "clearAllSecrets s = s\<lparr>pr_secrets := []\<rparr>"

definition getSigningPublicKey :: "string \<Rightarrow> ('sk, 'pk, 'gk, 'vk) protocol \<Rightarrow> 'vk option" where
  "getSigningPublicKey peer s = jm_get (pr_signers s) peer"

definition signData :: "('sk, 'pk, 'gk, 'vk) suite \<Rightarrow> js_text \<Rightarrow> ('sk, 'pk, 'gk, 'vk) protocol \<Rightarrow> string result" where
  "signData cs plain s =
     (case pr_signing s of
        None \<Rightarrow> Inl ''MessageProtocol not initialized with signing keys''
      | Some (gk, vk) \<Rightarrow> Inr (cipher_sign cs plain gk))"

definition verifyData :: "('sk, 'pk, 'gk, 'vk) suite \<Rightarrow> js_text \<Rightarrow> string \<Rightarrow> string \<Rightarrow> ('sk, 'pk, 'gk, 'vk) protocol \<Rightarrow> bool option" where
  "verifyData cs plain sig peer s =
     (case jm_get (pr_signers s) peer of None \<Rightarrow> Some False | Some vk \<Rightarrow> cipher_verify cs plain sig vk)"

end
