(* ===== verification/RatchetSession.thy ===== *)
theory RatchetSession
  imports DoubleRatchet
begin

section \<open>A session between two ratchets\<close>

text \<open>
  Two parties that ran the handshake, and a network that may delay, reorder and lose messages. The
  steps are the code's operations: a party encrypts, a message in flight is decrypted by its
  addressee, a party is restarted from its serialised state. \<open>session_inv\<close> relates the two
  ratchets: one of them is always ahead by one Diffie-Hellman step, and every message in flight can be
  opened by its addressee, either with a stored key, or with the receiving chain, or after the next
  ratchet step.
\<close>

subsection \<open>What the code relies on of WebCrypto\<close>

text \<open>
  \<open>G\<close> holds the key pairs \<open>generateKey\<close> may return: Diffie-Hellman agrees on them. Exported keys can be
  imported again, a raw P-256 key is 65 bytes long, HKDF is asked for 64 bytes, HMAC-SHA-256 accepts a key of 32 bytes and signs with 32 bytes,
  and AES-GCM opens what it sealed with the same 32-byte key and the same 12-byte vector.
\<close>

definition sound_crypto :: "('sk, 'pk) webcrypto \<Rightarrow> ('sk, 'pk) key_pair set \<Rightarrow> bool" where
  "sound_crypto cr G \<longleftrightarrow>
     (\<forall>p\<in>G. \<forall>q\<in>G. ecdh_bits cr (privateKey p) (publicKey q) = ecdh_bits cr (privateKey q) (publicKey p)) \<and>
     (\<forall>pk. import_raw cr (export_raw cr pk) = Some pk \<and> length (export_raw cr pk) = 65) \<and>
     (\<forall>sk. import_jwk cr (export_jwk cr sk) = Some sk) \<and>
     (\<forall>salt info ikm. length (hkdf_bits cr salt info ikm) = 64) \<and>
     (\<forall>k m. length k = 32 \<longrightarrow> (\<exists>t. hmac_sign cr k m = Some t \<and> length t = 32)) \<and>
     (\<forall>k i p. length k = 32 \<and> length i = 12 \<longrightarrow> (\<exists>c. gcm_encrypt cr k i p = Some c \<and> gcm_decrypt cr k i c = Some p))"

lemma soundD:
  assumes "sound_crypto cr G"
  shows "p \<in> G \<Longrightarrow> q \<in> G \<Longrightarrow> ecdh_bits cr (privateKey p) (publicKey q) = ecdh_bits cr (privateKey q) (publicKey p)"
    and "import_raw cr (export_raw cr pk) = Some pk" "export_raw cr pk \<noteq> []"
    and "import_jwk cr (export_jwk cr sk) = Some sk"
    and "length (hkdf_bits cr salt info ikm) = 64"
  using assms unfolding sound_crypto_def by (auto simp flip: length_0_conv)

lemma hmac_total:
  assumes "sound_crypto cr G" "length k = 32"
  shows "\<exists>t. hmac_sign cr k m = Some t" "length (the (hmac_sign cr k m)) = 32"
  using assms unfolding sound_crypto_def by (metis option.sel)+

lemma gcm_total:
  assumes "sound_crypto cr G" "length k = 32" "length i = 12"
  shows "\<exists>c. gcm_encrypt cr k i p = Some c \<and> gcm_decrypt cr k i c = Some p"
  using assms unfolding sound_crypto_def by blast

lemma import_export: "sound_crypto cr G \<Longrightarrow> importDHPublicKey cr (exportDHPublicKey cr pk) = Some pk"
  by (simp add: importDHPublicKey_def exportDHPublicKey_def base64_roundtrip soundD)

lemma export_inject: "sound_crypto cr G \<Longrightarrow> exportDHPublicKey cr a = exportDHPublicKey cr b \<longleftrightarrow> a = b"
  by (metis import_export option.inject)

lemma rootKDF_length:
  assumes "sound_crypto cr G"
  shows "length (fst (rootKDF cr root dh)) = 32" "length (snd (rootKDF cr root dh)) = 32"
  using soundD(5) [OF assms] by (simp_all add: rootKDF_def Let_def)

subsection \<open>Chains of keys\<close>

definition chain_key :: "('sk, 'pk) webcrypto \<Rightarrow> bytes \<Rightarrow> nat \<Rightarrow> bytes" where
  "chain_key cr c n = ((\<lambda>k. the (hmac_sign cr k [2])) ^^ n) c"

definition msg_key :: "('sk, 'pk) webcrypto \<Rightarrow> bytes \<Rightarrow> nat \<Rightarrow> bytes" where
  "msg_key cr c n = the (hmac_sign cr (chain_key cr c n) [1])"

lemma chain_key_0 [simp]: "chain_key cr c 0 = c"
  by (simp add: chain_key_def)

lemma chain_key_length: "sound_crypto cr G \<Longrightarrow> length c = 32 \<Longrightarrow> length (chain_key cr c n) = 32"
  by (induction n) (simp_all add: chain_key_def hmac_total)

lemma msg_key_length: "sound_crypto cr G \<Longrightarrow> length c = 32 \<Longrightarrow> length (msg_key cr c n) = 32"
  by (simp add: msg_key_def hmac_total chain_key_length)

lemma chainKDF_chain:
  assumes "sound_crypto cr G" "length c = 32"
  shows "chainKDF cr (Some (chain_key cr c n)) = Some (msg_key cr c n, chain_key cr c (Suc n))"
proof -
  have "length (chain_key cr c n) = 32" using assms by (rule chain_key_length)
  with assms(1) obtain a b where "hmac_sign cr (chain_key cr c n) [1] = Some a" "hmac_sign cr (chain_key cr c n) [2] = Some b"
    using hmac_total(1) by blast
  then show ?thesis by (simp add: chainKDF_def msg_key_def chain_key_def)
qed

text \<open>A sealed message: the key of its chain, at its number.\<close>

definition sealed :: "('sk, 'pk) webcrypto \<Rightarrow> bytes \<Rightarrow> js_text \<Rightarrow> ratchet_message \<Rightarrow> bool" where
  "sealed cr key t m \<longleftrightarrow>
     (\<exists>c ivb. gcm_decrypt cr key ivb c = Some (encode_text t) \<and>
              ciphertext m = arrayBufferToBase64 c \<and> iv m = arrayBufferToBase64 ivb)"

lemma sealed_opens: "sealed cr key t m \<Longrightarrow> plain_text t \<Longrightarrow> aesDecrypt cr key (ciphertext m) (iv m) = Inr t"
  by (auto simp: sealed_def aesDecrypt_def base64_roundtrip text_roundtrip)

subsection \<open>Skipping ahead\<close>

definition add_skipped :: "('sk, 'pk) webcrypto \<Rightarrow> 'pk option \<Rightarrow> bytes \<Rightarrow> nat \<Rightarrow> nat \<Rightarrow> (string, bytes) jsmap \<Rightarrow> (string, bytes) jsmap" where
  "add_skipped cr peer c i k m = fold (\<lambda>j. jm_set (skip_key cr peer j) (msg_key cr c j)) [i..<k] m"

lemma length_jm_set: "length (jm_set k v m) \<le> Suc (length m)"
  by (induction m) (auto simp: jm_set_def)

lemma add_skipped_empty: "k \<le> i \<Longrightarrow> add_skipped cr peer c i k m = m"
  by (simp add: add_skipped_def)

lemma add_skipped_step:
  "i < k \<Longrightarrow> add_skipped cr peer c i k m
    = add_skipped cr peer c (Suc i) k (jm_set (skip_key cr peer i) (msg_key cr c i) m)"
  by (simp add: add_skipped_def upt_conv_Cons)

lemma wf_add_skipped: "wf_map m \<Longrightarrow> wf_map (add_skipped cr peer c i k m)"
proof (induction "k - i" arbitrary: i m)
  case (Suc d)
  then show ?case by (simp add: add_skipped_step)
qed (simp add: add_skipped_empty)

lemma skip_key_inject [simp]: "skip_key cr peer i = skip_key cr peer j \<longleftrightarrow> i = j"
  by (simp add: skip_key_def)

lemma get_add_skipped:
  "jm_get (add_skipped cr peer c i k m) x =
     (if \<exists>j. i \<le> j \<and> j < k \<and> x = skip_key cr peer j
      then Some (msg_key cr c (THE j. x = skip_key cr peer j)) else jm_get m x)"
proof (induction "k - i" arbitrary: i m)
  case 0
  then show ?case by (auto simp: add_skipped_empty)
next
  case (Suc d)
  then have step: "i < k" "d = k - Suc i" by auto
  have "(\<exists>j. i \<le> j \<and> j < k \<and> x = skip_key cr peer j) \<longleftrightarrow>
      x = skip_key cr peer i \<or> (\<exists>j. Suc i \<le> j \<and> j < k \<and> x = skip_key cr peer j)"
    using step(1) by (metis Suc_leD Suc_leI le_neq_implies_less order_refl)
  then show ?case
    by (auto simp: add_skipped_step step(1) Suc.hyps(1) [OF step(2)] jm_get_set)
qed

lemma skip_loop_eq:
  assumes "sound_crypto cr G" "length c = 32"
    and "recvChainKey s = Some (chain_key cr c (recvCount s))"
    and "length (skippedKeys s) + (nat until - recvCount s) \<le> 200"
  shows "skip_loop cr until s = (None, s\<lparr>recvChainKey := Some (chain_key cr c (max (recvCount s) (nat until))),
    recvCount := max (recvCount s) (nat until),
    skippedKeys := add_skipped cr (peerDHPublicKey s) c (recvCount s) (nat until) (skippedKeys s)\<rparr>)"
  using assms(3,4)
proof (induction "nat until - recvCount s" arbitrary: s)
  case 0
  then have "\<not> int (recvCount s) < until" "max (recvCount s) (nat until) = recvCount s" by auto
  with 0 show ?case by (subst skip_loop.simps) (simp add: add_skipped_empty)
next
  case (Suc d)
  let ?m = "jm_set (skip_key cr (peerDHPublicKey s) (recvCount s)) (msg_key cr c (recvCount s)) (skippedKeys s)"
  let ?s = "s\<lparr>recvChainKey := Some (chain_key cr c (Suc (recvCount s))), recvCount := Suc (recvCount s), skippedKeys := ?m\<rparr>"
  from Suc.hyps have lt: "int (recvCount s) < until" "recvCount s < nat until" by auto
  have len: "length ?m \<le> Suc (length (skippedKeys s))" by (rule length_jm_set)
  with Suc.prems(2) lt(2) have prune: "prune_skipped ?m = ?m" by (simp add: prune_skipped_def MAX_SKIP_def)
  have "skip_loop cr until ?s = (None, ?s\<lparr>recvChainKey := Some (chain_key cr c (max (recvCount ?s) (nat until))),
    recvCount := max (recvCount ?s) (nat until),
    skippedKeys := add_skipped cr (peerDHPublicKey ?s) c (recvCount ?s) (nat until) (skippedKeys ?s)\<rparr>)"
    using Suc.hyps(2) Suc.prems(2) lt(2) len by (intro Suc.hyps(1)) auto
  then show ?case
    using lt(2) by (subst skip_loop.simps)
      (simp add: lt(1) Suc.prems(1) chainKDF_chain [OF assms(1,2)] prune add_skipped_step max_def)
qed

text \<open>The two ways a receiving chain moves: skipping to a number, and opening the message with that number.\<close>

definition moved :: "('sk, 'pk) webcrypto \<Rightarrow> bytes \<Rightarrow> nat \<Rightarrow> nat \<Rightarrow> ('sk, 'pk) ratchet \<Rightarrow> ('sk, 'pk) ratchet" where
  "moved cr c j k r = r\<lparr>recvChainKey := Some (chain_key cr c k), recvCount := k,
     skippedKeys := add_skipped cr (peerDHPublicKey r) c (recvCount r) j (skippedKeys r)\<rparr>"

lemma skip_moves:
  assumes "sound_crypto cr G" "length c = 32" "recvChainKey r = Some (chain_key cr c (recvCount r))"
    and "until \<le> int (recvCount r) + 100" "length (skippedKeys r) + (nat until - recvCount r) \<le> 200"
  shows "skipMessageKeys cr until r
    = (None, moved cr c (max (recvCount r) (nat until)) (max (recvCount r) (nat until)) r)"
proof -
  have "add_skipped cr (peerDHPublicKey r) c (recvCount r) (max (recvCount r) (nat until)) (skippedKeys r)
      = add_skipped cr (peerDHPublicKey r) c (recvCount r) (nat until) (skippedKeys r)"
    by (cases "nat until \<le> recvCount r") (simp_all add: max_def add_skipped_empty)
  then show ?thesis
    using assms by (simp add: skipMessageKeys_def MAX_SKIP_def skip_loop_eq moved_def)
qed

lemma open_moves:
  assumes "sound_crypto cr G" "length c = 32" "recvChainKey r = Some (chain_key cr c (recvCount r))"
    and "messageNumber (header m) = int n" "recvCount r \<le> n" "n \<le> recvCount r + 100"
    and "length (skippedKeys r) + (n - recvCount r) \<le> 200"
  shows "open_next cr m r = (aesDecrypt cr (msg_key cr c n) (ciphertext m) (iv m), moved cr c n (Suc n) r)"
proof -
  have "skipMessageKeys cr (int n) r = (None, moved cr c n n r)"
    using skip_moves [OF assms(1-3), of "int n"] assms(5-7) by (simp add: max_def)
  then show ?thesis
    by (simp add: open_next_def assms(4) moved_def chainKDF_chain [OF assms(1,2)])
qed

lemma moved_fields [simp]:
  "dhKeyPair (moved cr c j k r) = dhKeyPair r" "peerDHPublicKey (moved cr c j k r) = peerDHPublicKey r"
  "rootKey (moved cr c j k r) = rootKey r" "sendChainKey (moved cr c j k r) = sendChainKey r"
  "recvChainKey (moved cr c j k r) = Some (chain_key cr c k)" "sendCount (moved cr c j k r) = sendCount r"
  "recvCount (moved cr c j k r) = k" "previousSendCount (moved cr c j k r) = previousSendCount r"
  "skippedKeys (moved cr c j k r) = add_skipped cr (peerDHPublicKey r) c (recvCount r) j (skippedKeys r)"
  by (simp_all add: moved_def)

subsection \<open>Well-formed ratchets\<close>

definition key_name :: "('sk, 'pk) webcrypto \<Rightarrow> 'pk \<Rightarrow> nat \<Rightarrow> string" where
  "key_name cr pk n = exportDHPublicKey cr pk @ CHR '':'' # show_nat n"

lemma key_name_inject:
  assumes "sound_crypto cr G"
  shows "key_name cr a m = key_name cr b n \<longleftrightarrow> a = b \<and> m = n"
proof
  have no_colon: "CHR '':'' \<notin> set (exportDHPublicKey cr pk)" for pk
    by (simp add: exportDHPublicKey_def base64_no_colon)
  assume "key_name cr a m = key_name cr b n"
  then have "exportDHPublicKey cr a = exportDHPublicKey cr b \<and> show_nat m = show_nat n"
    unfolding key_name_def by (rule separator_inject [OF no_colon no_colon])
  then show "a = b \<and> m = n" by (simp add: export_inject [OF assms])
qed simp

lemma skip_key_name: "skip_key cr (Some pk) n = key_name cr pk n"
  by (simp add: skip_key_def key_name_def)

text \<open>\<open>E\<close> gives the first key of the chain sent under a public key.\<close>

definition good_ratchet ::
    "('sk, 'pk) webcrypto \<Rightarrow> ('sk, 'pk) key_pair set \<Rightarrow> ('pk \<Rightarrow> bytes) \<Rightarrow> 'pk set \<Rightarrow> ('sk, 'pk) ratchet \<Rightarrow> bool" where
  "good_ratchet cr G E U r \<longleftrightarrow>
     dhKeyPair r \<in> G \<and> publicKey (dhKeyPair r) \<in> U \<and> (\<forall>pk. peerDHPublicKey r = Some pk \<longrightarrow> pk \<in> U) \<and>
     wf_map (skippedKeys r) \<and>
     (\<forall>c. sendChainKey r = Some c \<longrightarrow> c = chain_key cr (E (publicKey (dhKeyPair r))) (sendCount r)) \<and>
     (\<forall>c. recvChainKey r = Some c \<longrightarrow>
        (\<exists>pk. peerDHPublicKey r = Some pk \<and> c = chain_key cr (E pk) (recvCount r))) \<and>
     (\<forall>k v. jm_get (skippedKeys r) k = Some v \<longrightarrow>
        (\<exists>pk\<in>U. \<exists>n. k = key_name cr pk n \<and> v = msg_key cr (E pk) n))"

text \<open>The ratchet can open message \<open>n\<close> under \<open>pk\<close> without a ratchet step.\<close>

definition holds_key :: "('sk, 'pk) webcrypto \<Rightarrow> ('sk, 'pk) ratchet \<Rightarrow> 'pk \<Rightarrow> nat \<Rightarrow> bool" where
  "holds_key cr r pk n \<longleftrightarrow>
     jm_get (skippedKeys r) (key_name cr pk n) \<noteq> None \<or>
     (peerDHPublicKey r = Some pk \<and> recvChainKey r \<noteq> None \<and> recvCount r \<le> n)"

lemma get_add_skipped_name:
  assumes "sound_crypto cr G"
  shows "jm_get (add_skipped cr (Some pk) c i k m) (key_name cr q n) =
    (if q = pk \<and> i \<le> n \<and> n < k then Some (msg_key cr c n) else jm_get m (key_name cr q n))"
  by (auto simp: get_add_skipped skip_key_name key_name_inject [OF assms])

lemma good_moved:
  assumes "sound_crypto cr G" "good_ratchet cr G E U r" "peerDHPublicKey r = Some pk"
  shows "good_ratchet cr G E U (moved cr (E pk) j k r)"
  using assms unfolding good_ratchet_def
  by (auto simp: wf_add_skipped get_add_skipped skip_key_name key_name_inject split: if_splits)

lemma holds_moved:
  assumes "sound_crypto cr G" "holds_key cr r q n" "peerDHPublicKey r = Some pk"
    and "q = pk \<Longrightarrow> recvCount r \<le> n \<Longrightarrow> n < j \<or> k \<le> n"
  shows "holds_key cr (moved cr c j k r) q n"
  using assms unfolding holds_key_def by (auto simp: get_add_skipped_name [OF assms(1)])

lemma good_delete: "good_ratchet cr G E U r \<Longrightarrow> good_ratchet cr G E U (r\<lparr>skippedKeys := jm_delete k (skippedKeys r)\<rparr>)"
  unfolding good_ratchet_def by (auto simp: jm_get_delete split: if_splits)

lemma good_mono:
  assumes "good_ratchet cr G E U r" "U \<subseteq> V" "\<And>pk. pk \<in> U \<Longrightarrow> E' pk = E pk"
  shows "good_ratchet cr G E' V r"
  using assms unfolding good_ratchet_def by (auto, blast?) (metis subsetD)

subsection \<open>Decrypting\<close>

text \<open>The limits of the code: at most 100 messages skipped in a chain, at most 200 stored keys.\<close>

definition within_limits :: "('sk, 'pk) webcrypto \<Rightarrow> ratchet_message \<Rightarrow> ('sk, 'pk) ratchet \<Rightarrow> bool" where
  "within_limits cr m r \<longleftrightarrow>
     jm_has (skippedKeys r) (message_key_name m) \<or>
     (let n = nat (messageNumber (header m)); p = nat (previousCount (header m)) in
      if map_option (exportDHPublicKey cr) (peerDHPublicKey r) = Some (dhPublicKey (header m))
      then n \<le> recvCount r + 100 \<and> length (skippedKeys r) + (n - recvCount r) \<le> 200
      else n \<le> 100 \<and> (if recvChainKey r = None then length (skippedKeys r) + n \<le> 200
           else p \<le> recvCount r + 100 \<and> length (skippedKeys r) + (p - recvCount r) + n \<le> 200))"

lemma length_add_skipped: "length (add_skipped cr peer c i k m) \<le> length m + (k - i)"
proof (induction "k - i" arbitrary: i m)
  case (Suc d)
  have "length (add_skipped cr peer c (Suc i) k (jm_set (skip_key cr peer i) (msg_key cr c i) m))
      \<le> length (jm_set (skip_key cr peer i) (msg_key cr c i) m) + (k - Suc i)"
    using Suc.hyps(2) by (intro Suc.hyps(1)) simp
  also have "\<dots> \<le> Suc (length m) + (k - Suc i)" by (simp add: length_jm_set)
  finally show ?case using Suc.hyps(2) by (simp add: add_skipped_step)
qed (simp add: add_skipped_empty)

text \<open>What decrypting message \<open>n\<close> under \<open>pk\<close> leaves when no ratchet step is due.\<close>

definition same_step :: "('sk, 'pk) webcrypto \<Rightarrow> 'pk \<Rightarrow> nat \<Rightarrow> ('sk, 'pk) ratchet \<Rightarrow> ('sk, 'pk) ratchet \<Rightarrow> bool" where
  "same_step cr pk n r r' \<longleftrightarrow>
     dhKeyPair r' = dhKeyPair r \<and> peerDHPublicKey r' = peerDHPublicKey r \<and> rootKey r' = rootKey r \<and>
     sendChainKey r' = sendChainKey r \<and> sendCount r' = sendCount r \<and>
     previousSendCount r' = previousSendCount r \<and> (recvChainKey r' = None \<longleftrightarrow> recvChainKey r = None) \<and>
     (recvCount r' = recvCount r \<or> peerDHPublicKey r = Some pk \<and> recvCount r' = Suc n) \<and>
     (\<forall>q k. holds_key cr r q k \<and> (q, k) \<noteq> (pk, n) \<longrightarrow> holds_key cr r' q k)"

lemma decrypt_stays:
  assumes cr: "sound_crypto cr G" and good: "good_ratchet cr G E U r" and E: "\<And>q. length (E q) = 32"
    and m: "dhPublicKey (header m) = exportDHPublicKey cr pk" "messageNumber (header m) = int n"
    and seal: "sealed cr (msg_key cr (E pk) n) t m" "plain_text t"
    and key: "holds_key cr r pk n" and lim: "within_limits cr m r"
  shows "\<exists>r'. decrypt cr kp m r = (Inr t, r') \<and> good_ratchet cr G E U r' \<and> same_step cr pk n r r'"
proof (cases "jm_get (skippedKeys r) (key_name cr pk n)")
  case None
  have name: "message_key_name m = key_name cr pk n"
    by (simp add: message_key_name_def key_name_def m show_int_def)
  from key None have peer: "peerDHPublicKey r = Some pk" "recvChainKey r \<noteq> None" "recvCount r \<le> n"
    by (auto simp: holds_key_def)
  with good have chain: "recvChainKey r = Some (chain_key cr (E pk) (recvCount r))"
    by (auto simp: good_ratchet_def)
  let ?r = "moved cr (E pk) n (Suc n) r"
  have "open_next cr m r = (Inr t, ?r)"
    using lim open_moves [OF cr E chain m(2) peer(3)] sealed_opens [OF seal]
    by (simp add: within_limits_def jm_has_def name None peer(1) m Let_def)
  then have "decrypt cr kp m r = (Inr t, ?r)"
    by (simp add: decrypt_def trySkippedKeys_def name None m import_export [OF cr] peer(1))
  moreover have "good_ratchet cr G E U ?r" using cr good peer(1) by (rule good_moved)
  moreover have "same_step cr pk n r ?r"
    using peer by (auto simp: same_step_def intro!: holds_moved [OF cr])
  ultimately show ?thesis by blast
next
  case (Some v)
  let ?r = "r\<lparr>skippedKeys := jm_delete (key_name cr pk n) (skippedKeys r)\<rparr>"
  have name: "message_key_name m = key_name cr pk n"
    by (simp add: message_key_name_def key_name_def m show_int_def)
  from good Some have "v = msg_key cr (E pk) n"
    unfolding good_ratchet_def by (metis key_name_inject [OF cr])
  then have "decrypt cr kp m r = (Inr t, ?r)"
    using sealed_opens [OF seal] by (simp add: decrypt_def trySkippedKeys_def name Some)
  moreover have "good_ratchet cr G E U ?r" using good by (rule good_delete)
  moreover have "same_step cr pk n r ?r"
    by (auto simp: same_step_def holds_key_def jm_get_delete key_name_inject [OF cr])
  ultimately show ?thesis by blast
qed

text \<open>What the first message under a new key of the peer leaves.\<close>

definition new_step ::
    "('sk, 'pk) webcrypto \<Rightarrow> ('sk, 'pk) key_pair \<Rightarrow> 'pk \<Rightarrow> nat \<Rightarrow> nat \<Rightarrow> ('sk, 'pk) ratchet \<Rightarrow> ('sk, 'pk) ratchet \<Rightarrow> bool" where
  "new_step cr kp pk p n r r' \<longleftrightarrow>
     dhKeyPair r' = kp \<and> peerDHPublicKey r' = Some pk \<and>
     (let root1 = fst (rootKDF cr (rootKey r) (ecdh_bits cr (privateKey (dhKeyPair r)) pk)) in
      rootKDF cr root1 (ecdh_bits cr (privateKey kp) pk) = (rootKey r', the (sendChainKey r'))) \<and>
     sendChainKey r' \<noteq> None \<and> sendCount r' = 0 \<and> previousSendCount r' = sendCount r \<and>
     recvChainKey r' \<noteq> None \<and> recvCount r' = Suc n \<and>
     (\<forall>q k. (holds_key cr r q k \<and> (peerDHPublicKey r = Some q \<longrightarrow> k < p) \<or> q = pk) \<and> (q, k) \<noteq> (pk, n)
        \<longrightarrow> holds_key cr r' q k)"

lemma ratchet_step_good:
  assumes good: "good_ratchet cr G E U r" and pk: "pk \<in> U"
    and fresh: "kp \<in> G" "publicKey kp \<notin> U"
    and recv: "snd (rootKDF cr (rootKey r) (ecdh_bits cr (privateKey (dhKeyPair r)) pk)) = E pk"
    and send: "snd (rootKDF cr (fst (rootKDF cr (rootKey r) (ecdh_bits cr (privateKey (dhKeyPair r)) pk)))
                 (ecdh_bits cr (privateKey kp) pk)) = c"
  shows "good_ratchet cr G (E(publicKey kp := c)) (insert (publicKey kp) U) (dhRatchetStep cr kp pk r)"
proof -
  have "pk \<noteq> publicKey kp" using pk fresh by auto
  moreover have "\<exists>q\<in>insert (publicKey kp) U. \<exists>n. k = key_name cr q n \<and> v = msg_key cr ((E(publicKey kp := c)) q) n"
    if "jm_get (skippedKeys r) k = Some v" for k v
    using good that fresh(2) unfolding good_ratchet_def by (metis fun_upd_apply insertCI)
  ultimately show ?thesis
    using good pk fresh recv send unfolding good_ratchet_def dhRatchetStep_def deriveSharedSecret_def
    by (simp add: Let_def split_beta)
qed

lemma holds_ratchet_step:
  "jm_get (skippedKeys r) (key_name cr q k) \<noteq> None \<or> q = pk \<Longrightarrow> holds_key cr (dhRatchetStep cr kp pk r) q k"
  by (auto simp: holds_key_def dhRatchetStep_def Let_def split_beta)

lemma decrypt_ratchets:
  assumes cr: "sound_crypto cr G" and good: "good_ratchet cr G E U r" and E: "\<And>q. length (E q) = 32"
    and m: "dhPublicKey (header m) = exportDHPublicKey cr pk" "messageNumber (header m) = int n" "previousCount (header m) = int p"
    and seal: "sealed cr (msg_key cr (E pk) n) t m" "plain_text t"
    and fresh: "kp \<in> G" "publicKey kp \<notin> U" and pk: "pk \<in> U"
    and no_key: "\<not> holds_key cr r pk n" "peerDHPublicKey r \<noteq> Some pk"
    and recv: "snd (rootKDF cr (rootKey r) (ecdh_bits cr (privateKey (dhKeyPair r)) pk)) = E pk"
    and p: "recvChainKey r \<noteq> None \<Longrightarrow> recvCount r \<le> p" and lim: "within_limits cr m r"
  shows "\<exists>r' c. decrypt cr kp m r = (Inr t, r') \<and> good_ratchet cr G (E(publicKey kp := c)) (insert (publicKey kp) U) r' \<and>
    length c = 32 \<and> sendChainKey r' = Some c \<and> new_step cr kp pk p n r r'"
proof -
  define r1 where "r1 = (case peerDHPublicKey r of Some q \<Rightarrow> if recvChainKey r = None then r else moved cr (E q) p p r | None \<Rightarrow> r)"
  define r2 where "r2 = dhRatchetStep cr kp pk r1"
  define c where "c = snd (rootKDF cr (fst (rootKDF cr (rootKey r) (ecdh_bits cr (privateKey (dhKeyPair r)) pk)))
      (ecdh_bits cr (privateKey kp) pk))"
  define r3 where "r3 = moved cr (E pk) n (Suc n) r2"
  have name: "message_key_name m = key_name cr pk n"
    by (simp add: message_key_name_def key_name_def m show_int_def)
  have none: "jm_get (skippedKeys r) (key_name cr pk n) = None" using no_key(1) by (simp add: holds_key_def)
  have other: "map_option (exportDHPublicKey cr) (peerDHPublicKey r) \<noteq> Some (exportDHPublicKey cr pk)"
    using no_key(2) by (auto simp: export_inject [OF cr])
  have lim': "n \<le> 100" "recvChainKey r = None \<Longrightarrow> length (skippedKeys r) + n \<le> 200"
    "recvChainKey r \<noteq> None \<Longrightarrow> p \<le> recvCount r + 100 \<and> length (skippedKeys r) + (p - recvCount r) + n \<le> 200"
    using lim other by (auto simp: within_limits_def jm_has_def name none m Let_def split: if_splits)
  have chain: "\<exists>q. peerDHPublicKey r = Some q \<and> recvChainKey r = Some (chain_key cr (E q) (recvCount r))"
    if "recvChainKey r \<noteq> None" using good that unfolding good_ratchet_def by blast
  have skip: "(if recvChainKey r \<noteq> None then skipMessageKeys cr (int p) r else (None, r)) = (None, r1)"
  proof (cases "recvChainKey r = None")
    case False
    then show ?thesis using chain lim'(3) p skip_moves [OF cr E, of r _ "int p"]
      by (auto simp: r1_def max_def)
  qed (simp add: r1_def split: option.splits)
  have same: "rootKey r1 = rootKey r" "dhKeyPair r1 = dhKeyPair r" "sendCount r1 = sendCount r"
    by (auto simp: r1_def split: option.splits)
  have good1: "good_ratchet cr G E U r1"
    using good good_moved [OF cr good] by (auto simp: r1_def split: option.splits)
  have kept: "jm_get (skippedKeys r1) (key_name cr q k) \<noteq> None"
    if "holds_key cr r q k" "peerDHPublicKey r = Some q \<Longrightarrow> k < p" for q k
    using that chain
    by (cases "peerDHPublicKey r") (auto simp: r1_def holds_key_def get_add_skipped_name [OF cr])
  have len1: "length (skippedKeys r1) + n \<le> 200"
  proof (cases "recvChainKey r = None")
    case False
    then obtain q where "peerDHPublicKey r = Some q" using chain by auto
    then show ?thesis using lim'(3) False length_add_skipped [of cr "Some q" "E q" "recvCount r" p "skippedKeys r"]
      by (simp add: r1_def)
  qed (use lim'(2) in \<open>simp add: r1_def split: option.splits\<close>)
  have good2: "good_ratchet cr G (E(publicKey kp := c)) (insert (publicKey kp) U) r2"
    unfolding r2_def using good1 pk fresh by (rule ratchet_step_good) (simp_all add: same recv c_def)
  have r2: "peerDHPublicKey r2 = Some pk" "recvChainKey r2 = Some (chain_key cr (E pk) 0)" "recvCount r2 = 0"
    "skippedKeys r2 = skippedKeys r1" "dhKeyPair r2 = kp" "sendCount r2 = 0" "previousSendCount r2 = sendCount r"
    "sendChainKey r2 = Some c"
    "rootKDF cr (fst (rootKDF cr (rootKey r) (ecdh_bits cr (privateKey (dhKeyPair r)) pk)))
       (ecdh_bits cr (privateKey kp) pk) = (rootKey r2, c)"
    using recv by (simp_all add: r2_def dhRatchetStep_def Let_def split_beta deriveSharedSecret_def same c_def)
  have "open_next cr m r2 = (Inr t, r3)"
    using open_moves [OF cr E, of r2 pk m n] lim'(1) len1 sealed_opens [OF seal] by (simp add: r2 m r3_def)
  then have "decrypt cr kp m r = (Inr t, r3)"
    by (simp add: decrypt_def trySkippedKeys_def name none m import_export [OF cr] other skip [folded m(3)] r2_def
        del: not_None_eq map_option_eq_Some split del: if_split)
  moreover have "(E(publicKey kp := c)) pk = E pk" using pk fresh by auto
  then have "good_ratchet cr G (E(publicKey kp := c)) (insert (publicKey kp) U) r3"
    using good_moved [OF cr good2 r2(1), of n "Suc n"] by (simp add: r3_def)
  moreover have "length c = 32" by (simp add: c_def rootKDF_length [OF cr])
  moreover have "holds_key cr r3 q k"
    if "holds_key cr r q k \<and> (peerDHPublicKey r = Some q \<longrightarrow> k < p) \<or> q = pk" "(q, k) \<noteq> (pk, n)" for q k
  proof -
    have "holds_key cr r2 q k" unfolding r2_def using that(1) kept by (blast intro: holds_ratchet_step)
    then show ?thesis unfolding r3_def using r2(1) that(2) by (intro holds_moved [OF cr]) auto
  qed
  then have "new_step cr kp pk p n r r3" by (simp add: new_step_def r3_def r2)
  moreover have "sendChainKey r3 = Some c" by (simp add: r3_def r2)
  ultimately show ?thesis by blast
qed

subsection \<open>Sessions\<close>

datatype side = Initiator | Responder

fun other :: "side \<Rightarrow> side" where
  "other Initiator = Responder"
| "other Responder = Initiator"

lemma other_other [simp]: "other (other x) = x" "other x \<noteq> x" "x \<noteq> other x"
  by (cases x; simp)+

lemma other_cases: "y = x \<or> y = other x"
  by (cases x; cases y) auto

text \<open>Messages in flight carry their addressee and, for the statement only, their plaintext.\<close>

record ('sk, 'pk) session =
  parties :: "side \<Rightarrow> ('sk, 'pk) ratchet"
  used_keys :: "'pk list"
  flight :: "(side \<times> ratchet_message \<times> js_text) list"

definition start_session ::
    "('sk, 'pk) webcrypto \<Rightarrow> bytes \<Rightarrow> ('sk, 'pk) key_pair \<Rightarrow> ('sk, 'pk) key_pair \<Rightarrow> ('sk, 'pk) session" where
  "start_session cr secret ka kb =
     \<lparr>parties = (\<lambda>x. case x of Initiator \<Rightarrow> initAlice cr secret (publicKey kb) ka | Responder \<Rightarrow> initBob secret kb),
      used_keys = [publicKey ka, publicKey kb], flight = []\<rparr>"

inductive session_step ::
    "('sk, 'pk) webcrypto \<Rightarrow> ('sk, 'pk) key_pair set \<Rightarrow> ('sk, 'pk) session \<Rightarrow> ('sk, 'pk) session \<Rightarrow> bool"
  for cr G where
  send: "length ivb = 12 \<Longrightarrow> plain_text t \<Longrightarrow> encrypt cr ivb t (parties S x) = (Inr m, r) \<Longrightarrow>
    session_step cr G S (S\<lparr>parties := (parties S)(x := r), flight := flight S @ [(other x, m, t)]\<rparr>)"
| deliver: "flight S = us @ (y, m, t) # vs \<Longrightarrow> within_limits cr m (parties S y) \<Longrightarrow>
    kp \<in> G \<Longrightarrow> publicKey kp \<notin> set (used_keys S) \<Longrightarrow> decrypt cr kp m (parties S y) = (res, r) \<Longrightarrow>
    session_step cr G S (S\<lparr>parties := (parties S)(y := r), flight := us @ vs, used_keys := publicKey kp # used_keys S\<rparr>)"
| lose: "flight S = us @ f # vs \<Longrightarrow> session_step cr G S (S\<lparr>flight := us @ vs\<rparr>)"
| restart: "deserializeRatchetState cr (serializeRatchetState cr (parties S x)) = Some r \<Longrightarrow>
    session_step cr G S (S\<lparr>parties := (parties S)(x := r)\<rparr>)"

inductive_cases session_stepE: "session_step cr G S S'"

inductive in_session ::
    "('sk, 'pk) webcrypto \<Rightarrow> ('sk, 'pk) key_pair set \<Rightarrow> ('sk, 'pk) session \<Rightarrow> bool"
  for cr G where
  start: "ka \<in> G \<Longrightarrow> kb \<in> G \<Longrightarrow> publicKey ka \<noteq> publicKey kb \<Longrightarrow> in_session cr G (start_session cr secret ka kb)"
| step: "in_session cr G S \<Longrightarrow> session_step cr G S S' \<Longrightarrow> in_session cr G S'"

subsection \<open>The invariant\<close>

abbreviation own_key :: "('sk, 'pk) ratchet \<Rightarrow> 'pk" where
  "own_key r \<equiv> publicKey (dhKeyPair r)"

text \<open>\<open>X\<close> sends under a key that \<open>Y\<close> has not seen; \<open>Y\<close>'s next ratchet step derives \<open>X\<close>'s sending chain.\<close>

definition ahead :: "('sk, 'pk) webcrypto \<Rightarrow> ('pk \<Rightarrow> bytes) \<Rightarrow> ('sk, 'pk) ratchet \<Rightarrow> ('sk, 'pk) ratchet \<Rightarrow> bool" where
  "ahead cr E X Y \<longleftrightarrow>
     peerDHPublicKey X = Some (own_key Y) \<and> peerDHPublicKey Y \<noteq> Some (own_key X) \<and> sendChainKey X \<noteq> None \<and>
     rootKDF cr (rootKey Y) (ecdh_bits cr (privateKey (dhKeyPair Y)) (own_key X)) = (rootKey X, E (own_key X)) \<and>
     recvCount X \<le> sendCount Y \<and> (recvChainKey Y \<noteq> None \<longrightarrow> recvCount Y \<le> previousSendCount X) \<and>
     (sendChainKey Y \<noteq> None \<longrightarrow> recvChainKey X \<noteq> None)"

definition flight_ok ::
    "('sk, 'pk) webcrypto \<Rightarrow> ('pk \<Rightarrow> bytes) \<Rightarrow> 'pk set \<Rightarrow> ('sk, 'pk) ratchet \<Rightarrow> ('sk, 'pk) ratchet \<Rightarrow>
     ratchet_message \<Rightarrow> js_text \<Rightarrow> bool" where
  "flight_ok cr E U s r m t \<longleftrightarrow>
     (\<exists>pk\<in>U. \<exists>n p. dhPublicKey (header m) = exportDHPublicKey cr pk \<and> messageNumber (header m) = int n \<and>
        previousCount (header m) = int p \<and> sealed cr (msg_key cr (E pk) n) t m \<and> plain_text t \<and>
        (pk = own_key s \<longrightarrow> n < sendCount s \<and> p = previousSendCount s) \<and>
        (holds_key cr r pk n \<or> pk = own_key s \<and> peerDHPublicKey r \<noteq> Some pk) \<and>
        (peerDHPublicKey r = Some pk \<and> pk \<noteq> own_key s \<longrightarrow> n < previousSendCount s))"

definition flight_id :: "side \<times> ratchet_message \<times> js_text \<Rightarrow> side \<times> string \<times> int" where
  "flight_id f = (case f of (y, m, t) \<Rightarrow> (y, dhPublicKey (header m), messageNumber (header m)))"

definition session_inv ::
    "('sk, 'pk) webcrypto \<Rightarrow> ('sk, 'pk) key_pair set \<Rightarrow> ('pk \<Rightarrow> bytes) \<Rightarrow> ('sk, 'pk) session \<Rightarrow> bool" where
  "session_inv cr G E S \<longleftrightarrow>
     (\<forall>q. length (E q) = 32) \<and> (\<forall>x. good_ratchet cr G E (set (used_keys S)) (parties S x)) \<and>
     (\<exists>x. ahead cr E (parties S x) (parties S (other x))) \<and>
     (\<forall>(y, m, t) \<in> set (flight S). flight_ok cr E (set (used_keys S)) (parties S (other y)) (parties S y) m t) \<and>
     distinct (map flight_id (flight S))"

subsection \<open>Each step keeps the invariant\<close>

lemma ahead_same_left:
  "ahead cr E X Y \<Longrightarrow> same_step cr pk n X X' \<Longrightarrow> (peerDHPublicKey X = Some pk \<Longrightarrow> n < sendCount Y) \<Longrightarrow> ahead cr E X' Y"
  unfolding ahead_def same_step_def by auto

lemma ahead_same_right:
  "ahead cr E X Y \<Longrightarrow> same_step cr pk n Y Y' \<Longrightarrow> (peerDHPublicKey Y = Some pk \<Longrightarrow> n < previousSendCount X) \<Longrightarrow>
    ahead cr E X Y'"
  unfolding ahead_def same_step_def by (elim conjE disjE) simp_all

lemma ahead_new_step:
  assumes cr: "sound_crypto cr G" and ahead: "ahead cr E X Y" and new: "new_step cr kp (own_key X) p n Y Y'"
    and G: "dhKeyPair X \<in> G" "kp \<in> G" and fresh: "publicKey kp \<noteq> own_key Y" and n: "n < sendCount X"
    and send: "sendChainKey Y' = Some c"
  shows "ahead cr (E(publicKey kp := c)) Y' X"
proof -
  have "ecdh_bits cr (privateKey kp) (own_key X) = ecdh_bits cr (privateKey (dhKeyPair X)) (publicKey kp)"
    using soundD(1) [OF cr G(2) G(1)] .
  with assms(2-) show ?thesis unfolding ahead_def new_step_def by (auto simp: Let_def)
qed

lemma flight_same_receiver:
  assumes "flight_ok cr E U s r m' t'" "same_step cr pk n r r'"
    and "dhPublicKey (header m') = exportDHPublicKey cr pk \<Longrightarrow> messageNumber (header m') \<noteq> int n"
  shows "flight_ok cr E U s r' m' t'"
  using assms unfolding flight_ok_def same_step_def by (elim bexE exE) (rule bexI, auto)

lemma flight_same_sender:
  "flight_ok cr E U s r m t \<Longrightarrow> own_key s' = own_key s \<Longrightarrow> sendCount s \<le> sendCount s' \<Longrightarrow>
    previousSendCount s' = previousSendCount s \<Longrightarrow> flight_ok cr E U s' r m t"
  unfolding flight_ok_def by (elim bexE exE) (rule bexI, auto)

lemma flight_mono:
  assumes "flight_ok cr E U s r m t" "U \<subseteq> V" "\<And>pk. pk \<in> U \<Longrightarrow> E' pk = E pk"
  shows "flight_ok cr E' V s r m t"
  using assms unfolding flight_ok_def by (elim bexE exE) (rule bexI, auto)

lemma flight_new_receiver:
  assumes "flight_ok cr E U s r m' t'" "new_step cr kp (own_key s) p n r r'" "p = previousSendCount s"
    and "dhPublicKey (header m') = exportDHPublicKey cr (own_key s) \<Longrightarrow> messageNumber (header m') \<noteq> int n"
  shows "flight_ok cr E U s r' m' t'"
  using assms unfolding flight_ok_def new_step_def by (elim bexE exE) (rule bexI, auto)

lemma flight_new_sender:
  assumes "flight_ok cr E U s r m' t'" "new_step cr kp pk p n s s'" "publicKey kp \<notin> U"
    and "peerDHPublicKey r = Some (own_key s)"
  shows "flight_ok cr E U s' r m' t'"
  using assms unfolding flight_ok_def new_step_def by (elim bexE exE) (rule bexI, auto)

lemma distinct_middle:
  assumes "distinct (map f (us @ x # vs))"
  shows "distinct (map f (us @ vs))" "y \<in> set (us @ vs) \<Longrightarrow> f y \<noteq> f x"
  using assms by (auto simp: image_iff)

lemma inv_parts:
  assumes "session_inv cr G E S"
  shows "length (E q) = 32" "good_ratchet cr G E (set (used_keys S)) (parties S x)"
    and "(z, m, t) \<in> set (flight S) \<Longrightarrow>
      flight_ok cr E (set (used_keys S)) (parties S (other z)) (parties S z) m t"
    and "distinct (map flight_id (flight S))"
  using assms unfolding session_inv_def by blast+

text \<open>The state after the ratchet of \<open>y\<close> became \<open>r\<close>.\<close>

lemma updated_inv:
  assumes "\<And>q. length (E q) = 32" "good_ratchet cr G E (set us) r" "good_ratchet cr G E (set us) (parties S (other y))"
    and "ahead cr E r (parties S (other y)) \<or> ahead cr E (parties S (other y)) r"
    and "\<And>m t. (y, m, t) \<in> set fl \<Longrightarrow> flight_ok cr E (set us) (parties S (other y)) r m t"
    and "\<And>m t. (other y, m, t) \<in> set fl \<Longrightarrow> flight_ok cr E (set us) r (parties S (other y)) m t"
    and "distinct (map flight_id fl)"
  shows "session_inv cr G E (S\<lparr>parties := (parties S)(y := r), flight := fl, used_keys := us\<rparr>)"
proof -
  have "good_ratchet cr G E (set us) (((parties S)(y := r)) x)" for x
    using assms(2,3) other_cases [of x y] by auto
  moreover have "flight_ok cr E (set us) (((parties S)(y := r)) (other z)) (((parties S)(y := r)) z) m t"
    if "(z, m, t) \<in> set fl" for z m t
    using that assms(5,6) other_cases [of z y] by auto
  moreover have "\<exists>x. ahead cr E (((parties S)(y := r)) x) (((parties S)(y := r)) (other x))"
    using assms(4) by (elim disjE) (rule exI [of _ y], simp, rule exI [of _ "other y"], simp)
  ultimately show ?thesis using assms(1,7) unfolding session_inv_def by auto
qed

abbreviation delivered ::
    "('sk, 'pk) session \<Rightarrow> side \<Rightarrow> ('sk, 'pk) ratchet \<Rightarrow> (side \<times> ratchet_message \<times> js_text) list \<Rightarrow> 'pk \<Rightarrow> ('sk, 'pk) session" where
  "delivered S y r fl pk \<equiv> S\<lparr>parties := (parties S)(y := r), flight := fl, used_keys := pk # used_keys S\<rparr>"

lemmas delivered_inv = updated_inv [where us = "k # us" for k us, unfolded list.set(2)]

lemma ahead_either:
  assumes "session_inv cr G E S"
  shows "ahead cr E (parties S y) (parties S (other y)) \<or> ahead cr E (parties S (other y)) (parties S y)"
proof -
  obtain x where "ahead cr E (parties S x) (parties S (other x))" using assms by (auto simp: session_inv_def)
  then show ?thesis using other_cases [of x y] by auto
qed

lemma deliver_same_inv:
  assumes inv: "session_inv cr G E S" and sub: "set fl \<subseteq> set (flight S)" "distinct (map flight_id fl)"
    and r: "good_ratchet cr G E (set (used_keys S)) r" "same_step cr pk n (parties S y) r"
    and own: "pk = own_key (parties S (other y)) \<Longrightarrow> n < sendCount (parties S (other y))"
    and old: "peerDHPublicKey (parties S y) = Some pk \<Longrightarrow> pk \<noteq> own_key (parties S (other y)) \<Longrightarrow>
      n < previousSendCount (parties S (other y))"
    and ids: "\<And>m t. (y, m, t) \<in> set fl \<Longrightarrow> dhPublicKey (header m) = exportDHPublicKey cr pk \<Longrightarrow>
      messageNumber (header m) \<noteq> int n"
  shows "session_inv cr G E (delivered S y r fl k)"
proof (rule delivered_inv)
  show "ahead cr E r (parties S (other y)) \<or> ahead cr E (parties S (other y)) r"
    using ahead_either [OF inv, of y]
  proof
    assume a: "ahead cr E (parties S y) (parties S (other y))"
    then have "peerDHPublicKey (parties S y) = Some (own_key (parties S (other y)))" by (simp add: ahead_def)
    then show ?thesis using ahead_same_left [OF a r(2)] own by simp
  next
    assume a: "ahead cr E (parties S (other y)) (parties S y)"
    then have "peerDHPublicKey (parties S y) \<noteq> Some (own_key (parties S (other y)))" by (simp add: ahead_def)
    then show ?thesis using ahead_same_right [OF a r(2)] old by auto
  qed
  show "flight_ok cr E (insert k (set (used_keys S))) (parties S (other y)) r m t" if "(y, m, t) \<in> set fl" for m t
  proof (rule flight_mono)
    show "flight_ok cr E (set (used_keys S)) (parties S (other y)) r m t"
      using that sub ids [OF that] by (intro flight_same_receiver [OF inv_parts(3) [OF inv] r(2)]) auto
  qed auto
  show "flight_ok cr E (insert k (set (used_keys S))) r (parties S (other y)) m t" if "(other y, m, t) \<in> set fl" for m t
  proof (rule flight_mono)
    have "flight_ok cr E (set (used_keys S)) (parties S y) (parties S (other y)) m t"
      using inv_parts(3) [OF inv, of "other y" m t] that sub by auto
    then show "flight_ok cr E (set (used_keys S)) r (parties S (other y)) m t"
      by (rule flight_same_sender) (use r(2) in \<open>simp_all add: same_step_def\<close>)
  qed auto
qed (use inv_parts [OF inv] sub r(1) in \<open>auto intro: good_mono\<close>)

lemma deliver_new_inv:
  assumes cr: "sound_crypto cr G" and inv: "session_inv cr G E S"
    and sub: "set fl \<subseteq> set (flight S)" "distinct (map flight_id fl)"
    and kp: "kp \<in> G" "publicKey kp \<notin> set (used_keys S)"
    and ahead: "ahead cr E (parties S (other y)) (parties S y)"
    and r: "good_ratchet cr G (E(publicKey kp := c)) (insert (publicKey kp) (set (used_keys S))) r" "length c = 32"
      "sendChainKey r = Some c"
      "new_step cr kp (own_key (parties S (other y))) (previousSendCount (parties S (other y))) n (parties S y) r"
    and n: "n < sendCount (parties S (other y))"
    and ids: "\<And>m t. (y, m, t) \<in> set fl \<Longrightarrow> dhPublicKey (header m) = exportDHPublicKey cr (own_key (parties S (other y))) \<Longrightarrow>
      messageNumber (header m) \<noteq> int n"
  shows "session_inv cr G (E(publicKey kp := c)) (delivered S y r fl (publicKey kp))"
proof (rule delivered_inv)
  let ?s = "parties S (other y)" and ?r = "parties S y" and ?U = "set (used_keys S)"
  have good: "good_ratchet cr G E ?U (parties S x)" for x by (rule inv_parts(2) [OF inv])
  then have G: "dhKeyPair ?s \<in> G" "own_key ?r \<in> ?U" by (simp_all add: good_ratchet_def)
  have "publicKey kp \<noteq> own_key ?r" using kp(2) G(2) by auto
  then have "ahead cr (E(publicKey kp := c)) r ?s"
    using ahead_new_step [OF cr ahead r(4) G(1) kp(1) _ n r(3)] by blast
  then show "ahead cr (E(publicKey kp := c)) r ?s \<or> ahead cr (E(publicKey kp := c)) ?s r" ..
  have upd: "pk \<in> ?U \<Longrightarrow> (E(publicKey kp := c)) pk = E pk" for pk using kp(2) by auto
  then show "good_ratchet cr G (E(publicKey kp := c)) (insert (publicKey kp) ?U) ?s"
    by (intro good_mono [OF good]) auto
  show "flight_ok cr (E(publicKey kp := c)) (insert (publicKey kp) ?U) ?s r m t" if "(y, m, t) \<in> set fl" for m t
  proof (rule flight_mono [of cr E ?U])
    show "flight_ok cr E ?U ?s r m t"
      using that sub by (intro flight_new_receiver [OF inv_parts(3) [OF inv] r(4) refl ids [OF that]]) auto
  qed (use upd in auto)
  show "flight_ok cr (E(publicKey kp := c)) (insert (publicKey kp) ?U) r ?s m t" if "(other y, m, t) \<in> set fl" for m t
  proof (rule flight_mono [of cr E ?U])
    have "flight_ok cr E ?U ?r ?s m t" using inv_parts(3) [OF inv, of "other y" m t] that sub by auto
    then show "flight_ok cr E ?U r ?s m t" using ahead
      by (intro flight_new_sender [OF _ r(4) kp(2)]) (simp_all add: ahead_def)
  qed (use upd in auto)
qed (use inv_parts [OF inv] sub r in auto)

lemma deliver_inv:
  assumes cr: "sound_crypto cr G" and inv: "session_inv cr G E S" and fl: "flight S = us @ (y, m, t) # vs"
    and lim: "within_limits cr m (parties S y)" and kp: "kp \<in> G" "publicKey kp \<notin> set (used_keys S)"
  shows "\<exists>r E'. decrypt cr kp m (parties S y) = (Inr t, r) \<and> session_inv cr G E' (delivered S y r (us @ vs) (publicKey kp))"
proof -
  let ?r = "parties S y" and ?s = "parties S (other y)"
  have dist: "distinct (map flight_id (us @ (y, m, t) # vs))" using inv_parts(4) [OF inv] by (simp only: fl)
  have sub: "set (us @ vs) \<subseteq> set (flight S)" by (auto simp: fl)
  obtain pk n p where pk: "pk \<in> set (used_keys S)" and m: "dhPublicKey (header m) = exportDHPublicKey cr pk"
      "messageNumber (header m) = int n" "previousCount (header m) = int p"
    and seal: "sealed cr (msg_key cr (E pk) n) t m" "plain_text t"
    and own: "pk = own_key ?s \<Longrightarrow> n < sendCount ?s \<and> p = previousSendCount ?s"
    and key: "holds_key cr ?r pk n \<or> pk = own_key ?s \<and> peerDHPublicKey ?r \<noteq> Some pk"
    and old: "peerDHPublicKey ?r = Some pk \<Longrightarrow> pk \<noteq> own_key ?s \<Longrightarrow> n < previousSendCount ?s"
    using inv_parts(3) [OF inv, of y m t] unfolding flight_ok_def by (auto simp: fl)
  have ids: "messageNumber (header m') \<noteq> int n"
    if "(y, m', t') \<in> set (us @ vs)" "dhPublicKey (header m') = exportDHPublicKey cr pk" for m' t'
    using distinct_middle(2) [OF dist that(1)] that(2) m by (simp add: flight_id_def)
  note good = inv_parts(2) [OF inv, of y] and E = inv_parts(1) [OF inv]
  show ?thesis
  proof (cases "holds_key cr ?r pk n")
    case True
    then obtain r where "decrypt cr kp m ?r = (Inr t, r)" "good_ratchet cr G E (set (used_keys S)) r" "same_step cr pk n ?r r"
      using decrypt_stays [OF cr good E m(1,2) seal _ lim] by blast
    with deliver_same_inv [OF inv sub distinct_middle(1) [OF dist]] own old ids show ?thesis by blast
  next
    case False
    with key have no_key: "pk = own_key ?s" "peerDHPublicKey ?r \<noteq> Some pk" by auto
    with ahead_either [OF inv, of y] have ahead: "ahead cr E ?s ?r" by (auto simp: ahead_def)
    then obtain r c where r: "decrypt cr kp m ?r = (Inr t, r)"
        "good_ratchet cr G (E(publicKey kp := c)) (insert (publicKey kp) (set (used_keys S))) r"
        "length c = 32" "sendChainKey r = Some c" "new_step cr kp pk p n ?r r"
      using decrypt_ratchets [OF cr good E m seal kp pk False no_key(2) _ _ lim] own [OF no_key(1)] no_key(1)
      by (auto simp: ahead_def)
    then have "session_inv cr G (E(publicKey kp := c)) (delivered S y r (us @ vs) (publicKey kp))"
      using own [OF no_key(1)] ids no_key(1)
      by (intro deliver_new_inv [OF cr inv sub distinct_middle(1) [OF dist] kp ahead]) auto
    with r(1) show ?thesis by blast
  qed
qed

lemma encrypt_good:
  assumes cr: "sound_crypto cr G" and good: "good_ratchet cr G E U r" and E: "\<And>q. length (E q) = 32"
    and c: "sendChainKey r = Some c" and ivb: "length ivb = 12"
  shows "\<exists>m. encrypt cr ivb t r = (Inr m, r\<lparr>sendChainKey := Some (chain_key cr (E (own_key r)) (Suc (sendCount r))),
      sendCount := Suc (sendCount r)\<rparr>) \<and>
    header m = \<lparr>dhPublicKey = exportDHPublicKey cr (own_key r), previousCount = int (previousSendCount r),
      messageNumber = int (sendCount r)\<rparr> \<and>
    sealed cr (msg_key cr (E (own_key r)) (sendCount r)) t m"
proof -
  have chain: "c = chain_key cr (E (own_key r)) (sendCount r)" using good c by (simp add: good_ratchet_def)
  obtain ct where ct: "gcm_encrypt cr (msg_key cr (E (own_key r)) (sendCount r)) ivb (encode_text t) = Some ct"
      "gcm_decrypt cr (msg_key cr (E (own_key r)) (sendCount r)) ivb ct = Some (encode_text t)"
    using gcm_total [OF cr msg_key_length [OF cr E] ivb] by blast
  then show ?thesis
    by (auto simp: encrypt_def c chain chainKDF_chain [OF cr E] aesEncrypt_def sealed_def)
qed

lemma send_inv:
  assumes cr: "sound_crypto cr G" and inv: "session_inv cr G E S"
    and ivb: "length ivb = 12" and t: "plain_text t" and enc: "encrypt cr ivb t (parties S x) = (Inr m, r)"
  shows "session_inv cr G E (S\<lparr>parties := (parties S)(x := r), flight := flight S @ [(other x, m, t)]\<rparr>)"
proof -
  let ?r = "parties S x" and ?s = "parties S (other x)" and ?U = "set (used_keys S)"
  note good = inv_parts(2) [OF inv] and E = inv_parts(1) [OF inv]
  obtain c where c: "sendChainKey ?r = Some c" using enc by (cases "sendChainKey ?r") (auto simp: encrypt_def chainKDF_def)
  from encrypt_good [OF cr good E c ivb, of t] enc
  have r: "r = ?r\<lparr>sendChainKey := Some (chain_key cr (E (own_key ?r)) (Suc (sendCount ?r))), sendCount := Suc (sendCount ?r)\<rparr>"
    and m: "header m = \<lparr>dhPublicKey = exportDHPublicKey cr (own_key ?r), previousCount = int (previousSendCount ?r),
      messageNumber = int (sendCount ?r)\<rparr>"
    and seal: "sealed cr (msg_key cr (E (own_key ?r)) (sendCount ?r)) t m" by auto
  have new: "flight_ok cr E ?U r ?s m t"
    unfolding flight_ok_def using good [of x] t seal c ahead_either [OF inv, of x]
    by (intro bexI [of _ "own_key ?r"] exI [of _ "sendCount ?r"] exI [of _ "previousSendCount ?r"])
      (auto simp: r m good_ratchet_def ahead_def holds_key_def)
  have fresh: "flight_id f \<noteq> flight_id (other x, m, t)" if "f \<in> set (flight S)" for f
  proof
    assume same: "flight_id f = flight_id (other x, m, t)"
    obtain m' t' where f: "f = (other x, m', t')" using same by (cases f) (auto simp: flight_id_def)
    have "flight_ok cr E ?U ?r ?s m' t'" using inv_parts(3) [OF inv, of "other x"] that f by auto
    then show False using same f by (auto simp: flight_ok_def flight_id_def m export_inject [OF cr])
  qed
  have "session_inv cr G E (S\<lparr>parties := (parties S)(x := r), flight := flight S @ [(other x, m, t)], used_keys := used_keys S\<rparr>)"
  proof (rule updated_inv)
    show "ahead cr E r ?s \<or> ahead cr E ?s r" using ahead_either [OF inv, of x] c by (auto simp: r ahead_def)
    show "good_ratchet cr G E ?U r" using good [of x] by (simp add: r good_ratchet_def)
    show "distinct (map flight_id (flight S @ [(other x, m, t)]))" 
    proof -
      have "flight_id (other x, m, t) \<notin> flight_id ` set (flight S)" using fresh by (metis imageE)
      then show ?thesis using inv_parts(4) [OF inv] by simp
    qed
    show "flight_ok cr E ?U ?s r m' t'" if "(x, m', t') \<in> set (flight S @ [(other x, m, t)])" for m' t'
    proof -
      have "flight_ok cr E ?U ?s ?r m' t'" using inv_parts(3) [OF inv] that by auto
      then show ?thesis by (simp add: flight_ok_def holds_key_def r)
    qed
    show "flight_ok cr E ?U r ?s m' t'" if "(other x, m', t') \<in> set (flight S @ [(other x, m, t)])" for m' t'
      using that inv_parts(3) [OF inv, of "other x" m' t'] new flight_same_sender [of cr E ?U ?r ?s m' t' r]
      by (auto simp: r)
  qed (use good E in auto)
  then show ?thesis by simp
qed

lemma lose_inv:
  assumes "session_inv cr G E S" "flight S = us @ f # vs"
  shows "session_inv cr G E (S\<lparr>flight := us @ vs\<rparr>)"
  using assms distinct_middle(1) [of flight_id us f vs] unfolding session_inv_def by auto

subsection \<open>Restarting from the serialised state\<close>

lemma read_skipped_map:
  "distinct (map fst (m @ xs)) \<Longrightarrow>
    read_skipped (map (\<lambda>(k, v). (k, arrayBufferToBase64 v)) xs) m = Some (m @ xs)"
proof (induction xs arbitrary: m)
  case (Cons x xs)
  obtain k v where x: "x = (k, v)" by (cases x)
  have "\<not> jm_has m k" using Cons.prems by (auto simp: x jm_has_keys jm_keys_def)
  then show ?case using Cons.prems Cons.IH [of "m @ [(k, v)]"] by (simp add: x base64_roundtrip jm_set_new)
qed simp

lemma base64_not_Nil: "bs \<noteq> [] \<Longrightarrow> arrayBufferToBase64 bs \<noteq> []"
  by (cases "map unat bs" rule: sextets.cases) (auto simp: arrayBufferToBase64_def btoa_def)

text \<open>A ratchet with distinct skipped keys and no empty chain key survives its serialised form.\<close>

lemma serialized_back:
  assumes cr: "sound_crypto cr G" and skipped: "wf_map (skippedKeys r)"
    and chains: "sendChainKey r \<noteq> Some []" "recvChainKey r \<noteq> Some []"
  shows "deserializeRatchetState cr (serializeRatchetState cr r) = Some r"
proof -
  have buf: "optional_buffer base64ToArrayBuffer (map_option arrayBufferToBase64 c) = Some c" if "c \<noteq> Some []" for c
    using that base64_not_Nil by (cases c) (auto simp: base64_roundtrip)
  have peer: "optional_buffer (importDHPublicKey cr) (map_option (\<lambda>pk. arrayBufferToBase64 (export_raw cr pk)) p) = Some p" for p
    using base64_not_Nil soundD(3) [OF cr] import_export [OF cr, unfolded exportDHPublicKey_def]
    by (cases p) auto
  have "read_skipped (map (\<lambda>(k, v). (k, arrayBufferToBase64 v)) (skippedKeys r)) [] = Some (skippedKeys r)"
    using read_skipped_map [of "[]" "skippedKeys r"] skipped by (simp add: wf_map_def jm_keys_def)
  then show ?thesis
    using chains import_export [OF cr, unfolded exportDHPublicKey_def]
    by (simp add: deserializeRatchetState_def serializeRatchetState_def peer buf base64_roundtrip soundD(4) [OF cr])
qed

lemma restart_same:
  assumes cr: "sound_crypto cr G" and good: "good_ratchet cr G E U r" and E: "\<And>q. length (E q) = 32"
  shows "deserializeRatchetState cr (serializeRatchetState cr r) = Some r"
proof -
  have "chain_key cr (E pk) n \<noteq> []" for pk n using chain_key_length [OF cr E, of pk n] by auto
  then have "sendChainKey r \<noteq> Some []" "recvChainKey r \<noteq> Some []"
    using good unfolding good_ratchet_def by (metis option.inject)+
  then show ?thesis using good by (intro serialized_back [OF cr]) (simp_all add: good_ratchet_def)
qed

subsection \<open>Every reachable session\<close>

lemma start_inv:
  assumes cr: "sound_crypto cr G" and kp: "ka \<in> G" "kb \<in> G" "publicKey ka \<noteq> publicKey kb"
  shows "\<exists>E. session_inv cr G E (start_session cr secret ka kb)"
proof -
  define c where "c = snd (rootKDF cr secret (ecdh_bits cr (privateKey ka) (publicKey kb)))"
  define E where "E = (\<lambda>q. if q = publicKey ka then c else replicate 32 0)"
  let ?S = "start_session cr secret ka kb"
  have ini: "parties ?S Initiator = initAlice cr secret (publicKey kb) ka" "parties ?S Responder = initBob secret kb"
    by (simp_all add: start_session_def)
  have "ahead cr E (parties ?S Initiator) (parties ?S (other Initiator))"
    using kp soundD(1) [OF cr kp(1,2)]
    by (auto simp: start_session_def ahead_def initAlice_def initBob_def split_beta Let_def deriveSharedSecret_def
        E_def c_def)
  moreover have "good_ratchet cr G E (set (used_keys ?S)) (parties ?S x)" for x
    using kp by (cases x) (auto simp: start_session_def good_ratchet_def initAlice_def initBob_def split_beta Let_def
        deriveSharedSecret_def E_def c_def)
  moreover have "length (E q) = 32" for q by (simp add: E_def c_def rootKDF_length [OF cr])
  moreover have "flight ?S = []" by (simp add: start_session_def)
  ultimately have "session_inv cr G E ?S"
    unfolding session_inv_def by (intro conjI exI [of _ Initiator]) auto
  then show ?thesis by blast
qed

lemma session_keeps_inv:
  assumes cr: "sound_crypto cr G" and "in_session cr G S"
  shows "\<exists>E. session_inv cr G E S"
  using assms(2)
proof induction
  case (step S S')
  then obtain E where inv: "session_inv cr G E S" by blast
  from step.hyps(2) show ?case
  proof cases
    case (send ivb t x m r)
    then show ?thesis using send_inv [OF cr inv] by blast
  next
    case (deliver us y m t vs kp res r)
    then show ?thesis using deliver_inv [OF cr inv] by (metis prod.inject)
  next
    case (lose us f vs)
    then show ?thesis using lose_inv [OF inv] by blast
  next
    case (restart x r)
    then have "r = parties S x" using restart_same [OF cr inv_parts(2,1) [OF inv]] by simp
    then show ?thesis using inv restart(1) by auto
  qed
qed (use start_inv [OF cr] in blast)

end
