(* ===== verification/RatchetCorrectness.thy ===== *)
theory RatchetCorrectness
  imports RatchetSession
begin

section \<open>What the double ratchet guarantees, and what it does not\<close>

text \<open>
  The properties of a session (\<open>RatchetSession\<close>), a sample instance of WebCrypto that satisfies
  \<open>sound_crypto\<close>, used by the witnesses, and two weaknesses: \<open>decrypt\<close> changes the state before it
  authenticates the message.
\<close>

subsection \<open>A sample WebCrypto\<close>

text \<open>
  Keys are bytes and a private key equals its public key, ECDH multiplies, HKDF and HMAC mix their
  inputs into constant blocks, and the cipher prefixes key and vector. It is not secure; it has the
  properties the code relies on.
\<close>

definition sample_crypto :: "(8 word, 8 word) webcrypto" where
  "sample_crypto =
     \<lparr>ecdh_bits = (\<lambda>sk pk. [sk * pk]),
      export_raw = (\<lambda>pk. pk # replicate 64 0),
      import_raw = (\<lambda>bs. if length bs = 65 then Some (hd bs) else None),
      export_jwk = (\<lambda>sk. [char_of (unat sk)]),
      import_jwk = (\<lambda>s. if length s = 1 then Some (of_nat (of_char (hd s))) else None),
      hkdf_bits = (\<lambda>salt info ikm. replicate 32 (sum_list salt + sum_list ikm) @ replicate 32 (sum_list salt + sum_list ikm + 1)),
      hmac_sign = (\<lambda>k m. if k = [] then None else Some (replicate 32 (hd k + sum_list m))),
      gcm_encrypt = (\<lambda>k i p. if length k \<in> {16, 24, 32} then Some (k @ i @ p) else None),
      gcm_decrypt = (\<lambda>k i c. if length k \<in> {16, 24, 32} \<and> take (length (k @ i)) c = k @ i
                            then Some (drop (length (k @ i)) c) else None)\<rparr>"

definition sample_pairs :: "(8 word, 8 word) key_pair set" where
  "sample_pairs = {kp. publicKey kp = privateKey kp}"

definition sample_pair :: "8 word \<Rightarrow> (8 word, 8 word) key_pair" where
  "sample_pair w = \<lparr>publicKey = w, privateKey = w\<rparr>"

lemma sample_pair_in [simp]: "sample_pair w \<in> sample_pairs" "publicKey (sample_pair w) = w"
  by (simp_all add: sample_pair_def sample_pairs_def)

lemma sample_sound: "sound_crypto sample_crypto sample_pairs"
proof -
  have "of_nat (of_char (char_of (unat sk) :: char)) = sk" for sk :: "8 word"
  proof -
    have "unat sk < 2 ^ LENGTH(8)" by (rule unsigned_less)
    then show ?thesis by simp
  qed
  then show ?thesis
    by (auto simp: sound_crypto_def sample_crypto_def sample_pairs_def mult.commute)
qed

text \<open>A first message from the initiator, in flight.\<close>

definition sample_start :: "(8 word, 8 word) session" where
  "sample_start = start_session sample_crypto [7] (sample_pair 3) (sample_pair 5)"

definition sample_sent :: "ratchet_message result \<times> (8 word, 8 word) ratchet" where
  "sample_sent = encrypt sample_crypto (replicate 12 9) [72, 105] (parties sample_start Initiator)"

definition sample_message :: ratchet_message where
  "sample_message = projr (fst sample_sent)"

definition sample_session :: "(8 word, 8 word) session" where
  "sample_session = sample_start\<lparr>parties := (parties sample_start)(Initiator := snd sample_sent),
     flight := [(Responder, sample_message, [72, 105])]\<rparr>"

lemma sample_in_session: "in_session sample_crypto sample_pairs sample_start"
  unfolding sample_start_def by (rule in_session.start) simp_all

lemma sample_sent_ok: "sample_sent = (Inr sample_message, snd sample_sent)"
  "header sample_message = \<lparr>dhPublicKey = exportDHPublicKey sample_crypto 3, previousCount = 0, messageNumber = 0\<rparr>"
proof -
  have "publicKey (dhKeyPair (parties sample_start Initiator)) = 3" "previousSendCount (parties sample_start Initiator) = 0"
    "sendCount (parties sample_start Initiator) = 0" "sendChainKey (parties sample_start Initiator) \<noteq> None"
    by (simp_all add: sample_start_def start_session_def initAlice_def split_beta Let_def)
  moreover obtain E where E: "session_inv sample_crypto sample_pairs E sample_start"
    using session_keeps_inv [OF sample_sound sample_in_session] by blast
  ultimately show "sample_sent = (Inr sample_message, snd sample_sent)"
    "header sample_message = \<lparr>dhPublicKey = exportDHPublicKey sample_crypto 3, previousCount = 0, messageNumber = 0\<rparr>"
    using encrypt_good [OF sample_sound inv_parts(2) [OF E], OF inv_parts(1) [OF E], of Initiator _ "replicate 12 9" "[72, 105]"]
    by (auto simp: sample_sent_def sample_message_def)
qed

lemma sample_session_reached: "in_session sample_crypto sample_pairs sample_session"
proof (rule in_session.step [OF sample_in_session])
  have "session_step sample_crypto sample_pairs sample_start (sample_start\<lparr>parties := (parties sample_start)(Initiator := snd sample_sent),
     flight := flight sample_start @ [(other Initiator, sample_message, [72, 105])]\<rparr>)"
  proof (rule session_step.send)
    show "encrypt sample_crypto (replicate 12 9) [72, 105] (parties sample_start Initiator) = (Inr sample_message, snd sample_sent)"
      using sample_sent_ok(1) by (simp add: sample_sent_def)
  qed (simp_all add: plain_text_def surrogate_defs)
  then show "session_step sample_crypto sample_pairs sample_start sample_session"
    by (simp add: sample_session_def sample_start_def start_session_def)
qed

subsection \<open>Delivery\<close>

text \<open>
  Property C1. In every session that the two parties can reach from the handshake (they send,
  messages are delayed, reordered or lost, both parties take ratchet steps and restart from their
  serialised state), a message in flight decrypts to the text that was sent, whichever message is
  delivered next, as long as it is within the limits of the code: it skips at most 100 messages of
  each chain and leaves at most 200 stored keys.
\<close>

theorem session_delivers:
  assumes "sound_crypto cr G" "in_session cr G S" "(y, m, t) \<in> set (flight S)"
    and "within_limits cr m (parties S y)" "kp \<in> G" "publicKey kp \<notin> set (used_keys S)"
  shows "fst (decrypt cr kp m (parties S y)) = Inr t"
proof -
  obtain E where "session_inv cr G E S" using session_keeps_inv [OF assms(1,2)] by blast
  moreover obtain us vs where "flight S = us @ (y, m, t) # vs" using assms(3) by (meson split_list)
  ultimately show ?thesis using deliver_inv [OF assms(1) _ _ assms(4-6)] by fastforce
qed

lemma session_delivers_witness:
  "fst (decrypt sample_crypto (sample_pair 11) sample_message (parties sample_session Responder)) = Inr [72, 105]"
proof (rule session_delivers [OF sample_sound sample_session_reached])
  have bob: "parties sample_session Responder = initBob [7] (sample_pair 5)"
    by (simp add: sample_session_def sample_start_def start_session_def)
  show "within_limits sample_crypto sample_message (parties sample_session Responder)"
    by (simp add: bob within_limits_def initBob_def sample_sent_ok(2))
qed (simp_all add: sample_session_def sample_start_def start_session_def)

text \<open>
  At every point of a session, restoring a party from its serialised state gives exactly
  the ratchet it had: keys, chains, counters and the stored message keys.
\<close>

theorem ratchet_restores:
  assumes "sound_crypto cr G" "in_session cr G S"
  shows "deserializeRatchetState cr (serializeRatchetState cr (parties S x)) = Some (parties S x)"
proof -
  obtain E where inv: "session_inv cr G E S" using session_keeps_inv [OF assms] by blast
  show ?thesis by (rule restart_same [OF assms(1) inv_parts(2,1) [OF inv]])
qed

lemma ratchet_restores_witness:
  "deserializeRatchetState sample_crypto (serializeRatchetState sample_crypto (parties sample_session Initiator))
    = Some (parties sample_session Initiator)"
  by (rule ratchet_restores [OF sample_sound sample_session_reached])

subsection \<open>Replays and forgeries\<close>

text \<open>
  Property C23. A message delivered twice breaks the receiving chain: its key was used and deleted, so
  \<open>decrypt\<close> takes the next key of the chain for it, and throws. The message that is really next would
  have been decrypted before, and is now opened with the key after its own.
\<close>

theorem replay_desynchronises:
  assumes cr: "sound_crypto cr G" and S: "in_session cr G S" and r: "r = parties S y"
    and peer: "peerDHPublicKey r = Some pk"
    and old: "dhPublicKey (header m) = exportDHPublicKey cr pk" "messageNumber (header m) < int (recvCount r)"
      "jm_get (skippedKeys r) (message_key_name m) = None"
    and nxt: "(y, m', t) \<in> set (flight S)" "dhPublicKey (header m') = exportDHPublicKey cr pk"
      "messageNumber (header m') = int (recvCount r)" "jm_get (skippedKeys r) (message_key_name m') = None"
    and limit: "length (skippedKeys r) \<le> 200" and kp: "kp \<in> G" "publicKey kp \<notin> set (used_keys S)"
    and auth: "chainKDF cr (recvChainKey r) = Some (k1, c1)" "chainKDF cr (Some c1) = Some (k2, c2)"
      "aesDecrypt cr k2 (ciphertext m') (iv m') = Inl e"
  shows "fst (decrypt cr kp m' r) = Inr t \<and> fst (decrypt cr kp m' (snd (decrypt cr kp m r))) = Inl e"
proof
  have "within_limits cr m' r" using peer nxt limit by (simp add: within_limits_def)
  moreover obtain us vs where "flight S = us @ (y, m', t) # vs" using nxt(1) by (meson split_list)
  ultimately show "fst (decrypt cr kp m' r) = Inr t"
    using session_keeps_inv [OF cr S] deliver_inv [OF cr _ _ _ kp, of _ us y m' t vs] unfolding r by fastforce
  have no_skip: "skip_loop cr i s = (None, s)" if "i \<le> int (recvCount s)" for i and s
    using that by (subst skip_loop.simps) simp
  have "snd (decrypt cr kp m r) = r\<lparr>recvChainKey := Some c1, recvCount := Suc (recvCount r)\<rparr>"
    using peer old auth(1) by (simp add: decrypt_def trySkippedKeys_def import_export [OF cr] open_next_def
        skipMessageKeys_def no_skip)
  then show "fst (decrypt cr kp m' (snd (decrypt cr kp m r))) = Inl e"
    using peer nxt auth by (simp add: decrypt_def trySkippedKeys_def import_export [OF cr] open_next_def
        skipMessageKeys_def no_skip)
qed

text \<open>Two messages, of which the first has been received.\<close>

definition sample_second :: "ratchet_message result \<times> (8 word, 8 word) ratchet" where
  "sample_second = encrypt sample_crypto (replicate 12 9) [33] (parties sample_session Initiator)"

definition second_message :: ratchet_message where
  "second_message = projr (fst sample_second)"

definition sample_received :: "(8 word, 8 word) ratchet" where
  "sample_received = snd (decrypt sample_crypto (sample_pair 11) sample_message (parties sample_session Responder))"

definition second_session :: "(8 word, 8 word) session" where
  "second_session = sample_session\<lparr>parties := (parties sample_session)(Initiator := snd sample_second),
     flight := [(Responder, sample_message, [72, 105]), (Responder, second_message, [33])]\<rparr>"

definition replay_session :: "(8 word, 8 word) session" where
  "replay_session = second_session\<lparr>parties := (parties second_session)(Responder := sample_received),
     flight := [(Responder, second_message, [33])], used_keys := [11, 3, 5]\<rparr>"

lemma sample_kdf:
  "chainKDF sample_crypto (Some (replicate 32 b)) = Some (replicate 32 (b + 1), replicate 32 (b + 2))"
  "rootKDF sample_crypto s d = (replicate 32 (sum_list s + sum_list d), replicate 32 (sum_list s + sum_list d + 1))"
  by (simp_all add: chainKDF_def rootKDF_def sample_crypto_def)

lemma replicate_differs: "k' \<noteq> k \<Longrightarrow> take (32 + n) (replicate 32 k @ p) \<noteq> replicate 32 k' @ i"
  by (auto dest!: arg_cong [where f = hd])

lemma sample_cipher:
  "aesEncrypt sample_crypto (replicate 32 k) i t
    = Some (arrayBufferToBase64 (replicate 32 k @ i @ encode_text t), arrayBufferToBase64 i)"
  "k' \<noteq> k \<Longrightarrow> aesDecrypt sample_crypto (replicate 32 k') (arrayBufferToBase64 (replicate 32 k @ p)) (arrayBufferToBase64 i)
    = Inl ''OperationError''"
  using replicate_differs [of k' k "length i" p i]
  by (simp_all add: aesEncrypt_def aesDecrypt_def sample_crypto_def base64_roundtrip del: take_append)

lemma sample_states:
  "recvChainKey sample_received = Some (replicate 32 25)" "recvCount sample_received = 1"
  "peerDHPublicKey sample_received = Some 3" "skippedKeys sample_received = []"
  "sample_second = (Inr second_message, snd sample_second)"
  "header second_message = \<lparr>dhPublicKey = exportDHPublicKey sample_crypto 3, previousCount = 0, messageNumber = 1\<rparr>"
  "ciphertext second_message = arrayBufferToBase64 (replicate 32 26 @ replicate 12 9 @ encode_text [33])"
  "iv second_message = arrayBufferToBase64 (replicate 12 9)"
proof -
  have no_skip: "skipMessageKeys sample_crypto 0 s = (None, s)" for s
    by (subst skipMessageKeys_def, subst skip_loop.simps) simp
  have bob: "parties sample_session Responder = initBob [7] (sample_pair 5)"
    by (simp add: sample_session_def sample_start_def start_session_def)
  have ecdh: "ecdh_bits sample_crypto a b = [a * b]" for a b by (simp add: sample_crypto_def)
  show "recvChainKey sample_received = Some (replicate 32 25)" "recvCount sample_received = 1"
    "peerDHPublicKey sample_received = Some 3" "skippedKeys sample_received = []"
    by (simp_all add: sample_received_def bob initBob_def decrypt_def trySkippedKeys_def sample_sent_ok(2)
        import_export [OF sample_sound] open_next_def no_skip dhRatchetStep_def deriveSharedSecret_def ecdh sample_kdf sample_pair_def)
  have "parties sample_session Initiator = snd sample_sent"
    by (simp add: sample_session_def)
  also have "\<dots> = (initAlice sample_crypto [7] 5 (sample_pair 3))\<lparr>sendChainKey := Some (replicate 32 25), sendCount := 1\<rparr>"
    by (simp add: sample_sent_def sample_start_def start_session_def initAlice_def encrypt_def sample_kdf sample_cipher
        deriveSharedSecret_def ecdh sample_pair_def)
  finally have alice: "parties sample_session Initiator
    = (initAlice sample_crypto [7] 5 (sample_pair 3))\<lparr>sendChainKey := Some (replicate 32 25), sendCount := 1\<rparr>" .
  show "sample_second = (Inr second_message, snd sample_second)"
    "header second_message = \<lparr>dhPublicKey = exportDHPublicKey sample_crypto 3, previousCount = 0, messageNumber = 1\<rparr>"
    "ciphertext second_message = arrayBufferToBase64 (replicate 32 26 @ replicate 12 9 @ encode_text [33])"
    "iv second_message = arrayBufferToBase64 (replicate 12 9)"
    by (simp_all add: second_message_def sample_second_def alice encrypt_def sample_kdf sample_cipher initAlice_def)
qed

lemma replay_session_reached: "in_session sample_crypto sample_pairs replay_session"
proof (rule in_session.step)
  have "session_step sample_crypto sample_pairs sample_session (sample_session\<lparr>parties := (parties sample_session)(Initiator := snd sample_second),
      flight := flight sample_session @ [(other Initiator, second_message, [33])]\<rparr>)"
  proof (rule session_step.send)
    show "encrypt sample_crypto (replicate 12 9) [33] (parties sample_session Initiator) = (Inr second_message, snd sample_second)"
      using sample_states(5) by (simp add: sample_second_def)
  qed (simp_all add: plain_text_def surrogate_defs)
  then have "session_step sample_crypto sample_pairs sample_session second_session"
    by (simp add: second_session_def sample_session_def)
  then show "in_session sample_crypto sample_pairs second_session"
    by (rule in_session.step [OF sample_session_reached])
next
  have bob: "parties second_session Responder = parties sample_session Responder"
    "parties sample_session Responder = initBob [7] (sample_pair 5)"
    by (simp_all add: second_session_def sample_session_def sample_start_def start_session_def)
  have "session_step sample_crypto sample_pairs second_session (delivered second_session Responder sample_received
      ([] @ [(Responder, second_message, [33])]) (publicKey (sample_pair 11)))"
  proof (rule session_step.deliver)
    show "flight second_session = [] @ (Responder, sample_message, [72, 105]) # [(Responder, second_message, [33])]"
      by (simp add: second_session_def)
    show "decrypt sample_crypto (sample_pair 11) sample_message (parties second_session Responder)
      = (fst (decrypt sample_crypto (sample_pair 11) sample_message (parties second_session Responder)), sample_received)"
      by (simp add: sample_received_def bob(1))
    show "within_limits sample_crypto sample_message (parties second_session Responder)"
      by (simp add: bob within_limits_def initBob_def sample_sent_ok(2))
  qed (simp_all add: second_session_def sample_session_def sample_start_def start_session_def)
  then show "session_step sample_crypto sample_pairs second_session replay_session"
    by (simp add: replay_session_def second_session_def sample_session_def sample_start_def start_session_def)
qed

lemma replay_desynchronises_witness:
  "fst (decrypt sample_crypto (sample_pair 13) second_message sample_received) = Inr [33] \<and>
   fst (decrypt sample_crypto (sample_pair 13) second_message
     (snd (decrypt sample_crypto (sample_pair 13) sample_message sample_received))) = Inl ''OperationError''"
proof (rule replay_desynchronises [OF sample_sound replay_session_reached])
  show "sample_received = parties replay_session Responder" by (simp add: replay_session_def)
  show "chainKDF sample_crypto (recvChainKey sample_received) = Some (replicate 32 26, replicate 32 27)"
    "chainKDF sample_crypto (Some (replicate 32 27)) = Some (replicate 32 28, replicate 32 29)"
    by (simp_all add: sample_states sample_kdf)
  show "aesDecrypt sample_crypto (replicate 32 28) (ciphertext second_message) (iv second_message) = Inl ''OperationError''"
    by (simp add: sample_states sample_cipher)
qed (simp_all add: sample_states sample_sent_ok(2) replay_session_def)


definition forged_message :: ratchet_message where
  "forged_message =
     \<lparr>header = \<lparr>dhPublicKey = exportDHPublicKey sample_crypto 99, previousCount = 0, messageNumber = 0\<rparr>,
      ciphertext = ''!'', iv = []\<rparr>"


end
