(* ===== verification/PeerSessions.thy ===== *)
theory PeerSessions
  imports MessageProtocol RatchetCorrectness
begin

section \<open>Sessions between two peers\<close>

text \<open>
  How two instances of \<open>MessageProtocol\<close> get a common ratchet session: by a handshake, or by a pre-key
  bundle when the receiver was offline. The ratchet sessions they reach are those of \<open>RatchetSession\<close>, so its
  delivery theorem applies to them.
\<close>

subsection \<open>Simple facts on the state\<close>

lemma draw_fields [simp]:
  "fst (draw_pair cs s) = generated_pair cs (pr_draws s)"
  "snd (draw_pair cs s) = s\<lparr>pr_draws := Suc (pr_draws s)\<rparr>"
  "fst (draw_iv cs s) = random_iv cs (pr_draws s)"
  "snd (draw_iv cs s) = s\<lparr>pr_draws := Suc (pr_draws s)\<rparr>"
  by (simp_all add: draw_pair_def draw_iv_def)

lemma refill_fields [simp]:
  "pr_ratchets (scheduleDHKeyPairPoolRefill s) = pr_ratchets s" "pr_db (scheduleDHKeyPairPoolRefill s) = pr_db s"
  "pr_identity (scheduleDHKeyPairPoolRefill s) = pr_identity s" "pr_me (scheduleDHKeyPairPoolRefill s) = pr_me s"
  "pr_dh (scheduleDHKeyPairPoolRefill s) = pr_dh s" "pr_secrets (scheduleDHKeyPairPoolRefill s) = pr_secrets s"
  "pr_oneTime (scheduleDHKeyPairPoolRefill s) = pr_oneTime s" "pr_nextId (scheduleDHKeyPairPoolRefill s) = pr_nextId s"
  "pr_signed (scheduleDHKeyPairPoolRefill s) = pr_signed s" "pr_signers (scheduleDHKeyPairPoolRefill s) = pr_signers s"
  by (simp_all add: scheduleDHKeyPairPoolRefill_def)

lemma take_fields [simp]:
  "pr_ratchets (snd (takeDHKeyPair cs s)) = pr_ratchets s" "pr_db (snd (takeDHKeyPair cs s)) = pr_db s"
  "pr_identity (snd (takeDHKeyPair cs s)) = pr_identity s" "pr_me (snd (takeDHKeyPair cs s)) = pr_me s"
  "pr_dh (snd (takeDHKeyPair cs s)) = pr_dh s" "pr_secrets (snd (takeDHKeyPair cs s)) = pr_secrets s"
  "pr_oneTime (snd (takeDHKeyPair cs s)) = pr_oneTime s" "pr_nextId (snd (takeDHKeyPair cs s)) = pr_nextId s"
  "pr_signed (snd (takeDHKeyPair cs s)) = pr_signed s" "pr_signers (snd (takeDHKeyPair cs s)) = pr_signers s"
  by (simp_all add: takeDHKeyPair_def Let_def split: list.split)

lemma persistState_fields [simp]:
  "pr_ratchets (persistState cs p s) = pr_ratchets s" "pr_identity (persistState cs p s) = pr_identity s"
  "pr_me (persistState cs p s) = pr_me s" "pr_dh (persistState cs p s) = pr_dh s"
  "pr_secrets (persistState cs p s) = pr_secrets s" "pr_oneTime (persistState cs p s) = pr_oneTime s"
  "pr_nextId (persistState cs p s) = pr_nextId s" "pr_signed (persistState cs p s) = pr_signed s"
  "pr_signing (persistState cs p s) = pr_signing s" "pr_ready (persistState cs p s) = pr_ready s"
  "pr_draws (persistState cs p s) = pr_draws s" "pr_bundles (persistState cs p s) = pr_bundles s"
  "pr_signers (persistState cs p s) = pr_signers s" "pr_background (persistState cs p s) = pr_background s"
  by (simp_all add: persistState_def map_key_db_def split: option.splits slot.splits)

lemma persist_stored [simp]:
  "pr_ratchets (persistLocalPreKeyState cs s) = pr_ratchets s" "pr_oneTime (persistLocalPreKeyState cs s) = pr_oneTime s"
  "pr_nextId (persistLocalPreKeyState cs s) = pr_nextId s" "pr_signed (persistLocalPreKeyState cs s) = pr_signed s"
  "pr_ready (persistLocalPreKeyState cs s) = pr_ready s" "pr_signing (persistLocalPreKeyState cs s) = pr_signing s"
  "pr_background (persistLocalPreKeyState cs s) = pr_background s"
  by (simp_all add: persistLocalPreKeyState_def map_key_db_def split: option.splits)

lemma learn_fields [simp]:
  "pr_ratchets (learn_signer cs p h s) = pr_ratchets s" "pr_db (learn_signer cs p h s) = pr_db s"
  "pr_identity (learn_signer cs p h s) = pr_identity s" "pr_me (learn_signer cs p h s) = pr_me s"
  "pr_dh (learn_signer cs p h s) = pr_dh s" "pr_secrets (learn_signer cs p h s) = pr_secrets s"
  "pr_pool (learn_signer cs p h s) = pr_pool s" "pr_draws (learn_signer cs p h s) = pr_draws s"
  "pr_oneTime (learn_signer cs p h s) = pr_oneTime s" "pr_nextId (learn_signer cs p h s) = pr_nextId s"
  "pr_signed (learn_signer cs p h s) = pr_signed s"
  by (simp_all add: learn_signer_def split: option.splits)

lemma load_ratchet_learn [simp]: "load_ratchet cs p (learn_signer cs q h s) = load_ratchet cs p s"
  by (simp add: load_ratchet_def)

subsection \<open>A sample suite\<close>

text \<open>The sample WebCrypto of \<open>RatchetCorrectness\<close> with the rest of the platform.\<close>

definition sample_suite :: "(8 word, 8 word, 8 word, 8 word) suite" where
  "sample_suite = webcrypto.extend sample_crypto
     \<lparr>generated_pair = (\<lambda>n. sample_pair (of_nat n)), random_iv = (\<lambda>n. replicate 12 9),
      jwk_of_public = (\<lambda>pk. [char_of (unat pk)]),
      public_of_jwk = (\<lambda>s. if length s = 1 then Some (of_nat (of_char (hd s))) else None),
      pkcs8_of_private = (\<lambda>sk. [sk]), private_of_pkcs8 = (\<lambda>b. if length b = 1 then Some (hd b) else None),
      jwk_of_verifier = (\<lambda>vk. [char_of (unat vk)]),
      verifier_of_jwk = (\<lambda>s. if length s = 1 then Some (of_nat (of_char (hd s))) else None),
      ecdsa_sign = (\<lambda>gk m. [gk]), ecdsa_verify = (\<lambda>vk sig m. sig = [vk]),
      sha256_digest = (\<lambda>b. b), hkdf_key = (\<lambda>salt info ikm. replicate 32 (sum_list ikm))\<rparr>"

lemma sample_suite_fields [simp]:
  "generated_pair sample_suite n = sample_pair (of_nat n)" "random_iv sample_suite n = replicate 12 9"
  "ecdsa_sign sample_suite gk m = [gk]" "ecdsa_verify sample_suite vk sig m \<longleftrightarrow> sig = [vk]"
  "ratchet_part sample_suite = sample_crypto"
  by (simp_all add: sample_suite_def webcrypto.defs sample_crypto_def ratchet_part_def)

lemma sample_suite_sound: "sound_crypto (ratchet_part sample_suite) sample_pairs" "sound_suite sample_suite"
proof -
  have "of_nat (of_char (char_of (unat k) :: char)) = k" for k :: "8 word"
  proof -
    have "unat k < 2 ^ LENGTH(8)" by (rule unsigned_less)
    then show ?thesis by simp
  qed
  then show "sound_suite sample_suite"
    by (simp add: sound_suite_def) (simp add: sample_suite_def webcrypto.defs sample_crypto_def)
qed (simp add: sample_sound)

definition sample_peer :: "string \<Rightarrow> 8 word \<Rightarrow> (8 word, 8 word, 8 word, 8 word) protocol" where
  "sample_peer me k = (new_protocol me (sample_pair k))\<lparr>pr_signing := Some (k, k)\<rparr>"

lemma sample_peer_fields [simp]:
  "pr_me (sample_peer me k) = me" "pr_identity (sample_peer me k) = sample_pair k" "pr_ratchets (sample_peer me k) = []"
  "pr_secrets (sample_peer me k) = []" "pr_signing (sample_peer me k) = Some (k, k)" "pr_db (sample_peer me k) = None"
  "pr_signers (sample_peer me k) = []" "pr_draws (sample_peer me k) = 0" "pr_bundles (sample_peer me k) = []"
  "load_ratchet cs p (sample_peer me k) = None"
  by (simp_all add: sample_peer_def new_protocol_def load_ratchet_def)

subsection \<open>Handshakes\<close>

text \<open>The ratchet key pair a peer announces in its next handshake.\<close>

definition announced_pair :: "('sk, 'pk, 'gk, 'vk) suite \<Rightarrow> ('sk, 'pk, 'gk, 'vk) protocol \<Rightarrow> ('sk, 'pk) key_pair" where
  "announced_pair cs s = (case pr_dh s of Some kp \<Rightarrow> kp | None \<Rightarrow> fst (takeDHKeyPair cs s))"

lemma createHandshake_fields:
  "createHandshake cs s = (h, s') \<Longrightarrow>
    hs_publicKey h = exportPublicKey cs (publicKey (pr_identity s)) \<and> hs_peerId h = pr_me s \<and>
    hs_ratchetKey h = Some (exportEcdhPublicKey cs (publicKey (announced_pair cs s))) \<and> hs_version h = Some 2 \<and>
    pr_dh s' = Some (announced_pair cs s) \<and> pr_ratchets s' = pr_ratchets s \<and> pr_db s' = pr_db s \<and>
    pr_identity s' = pr_identity s \<and> pr_me s' = pr_me s \<and> pr_secrets s' = pr_secrets s"
  unfolding createHandshake_def announced_pair_def exportEcdhPublicKey_def
  by (cases "pr_dh s"; cases "takeDHKeyPair cs s"; use take_fields [of cs s] in auto)

lemma raw_import: "sound_crypto (ratchet_part cs) G \<Longrightarrow> importEcdhPublicKey cs (exportEcdhPublicKey cs pk) = Some pk"
  using import_export [of "ratchet_part cs" G pk]
  by (simp add: importDHPublicKey_def exportDHPublicKey_def importEcdhPublicKey_def exportEcdhPublicKey_def)

lemma raw_not_Nil: "sound_crypto (ratchet_part cs) G \<Longrightarrow> exportEcdhPublicKey cs pk \<noteq> []"
  using soundD(3) [of "ratchet_part cs" G pk] by (simp add: exportEcdhPublicKey_def base64_not_Nil)

text \<open>Processing the first handshake of a peer.\<close>

lemma processHandshake_new:
  assumes cs: "sound_crypto (ratchet_part cs) G" "sound_suite cs"
    and h: "hs_publicKey h = exportPublicKey cs idk" "hs_version h = Some 2" "hs_ratchetKey h = Some (exportEcdhPublicKey cs rk)"
    and new: "\<not> jm_has (pr_ratchets s) peer" "load_ratchet cs peer s = None"
    and me: "pr_me s < peer \<or> pr_dh s \<noteq> None"
  shows "\<exists>s'. processHandshake cs peer h s = (None, s') \<and>
    jm_get (pr_ratchets s') peer = Some (Ready (if pr_me s < peer
      then initAlice (ratchet_part cs) (ecdh_bits cs (privateKey (pr_identity s)) idk) rk
             (fst (takeDHKeyPair cs (learn_signer cs peer h s\<lparr>pr_secrets := jm_set peer (deriveSharedSecretFromRawBytes cs
                (ecdh_bits cs (privateKey (pr_identity s)) idk) (pr_me s) peer) (pr_secrets s)\<rparr>)))
      else initBob (ecdh_bits cs (privateKey (pr_identity s)) idk) (the (pr_dh s)))) \<and>
    jm_get (pr_secrets s') peer = Some (deriveSharedSecretFromRawBytes cs (ecdh_bits cs (privateKey (pr_identity s)) idk) (pr_me s) peer)"
proof -
  let ?s = "learn_signer cs peer h s\<lparr>pr_secrets := jm_set peer (deriveSharedSecretFromRawBytes cs
                (ecdh_bits cs (privateKey (pr_identity s)) idk) (pr_me s) peer) (pr_secrets s)\<rparr>"
  obtain slot s3 where start: "start_ratchet cs peer (ecdh_bits cs (privateKey (pr_identity s)) idk) rk ?s = (slot, s3)"
    by (cases "start_ratchet cs peer (ecdh_bits cs (privateKey (pr_identity s)) idk) rk ?s")
  have "processHandshake cs peer h s = (None, persistState cs peer (s3\<lparr>pr_ratchets := jm_set peer slot (pr_ratchets s3)\<rparr>))"
    using new raw_not_Nil [OF cs(1)] start by (simp add: processHandshake_def h import_public [OF cs(2)] raw_import [OF cs(1)] Let_def)
  then show ?thesis
    using start me take_fields [of cs ?s]
    by (auto simp: jm_get_set start_ratchet_def split_beta split: if_splits)
qed

text \<open>Two peers create a handshake each and process the other's.\<close>

definition exchange_handshakes ::
    "('sk, 'pk, 'gk, 'vk) suite \<Rightarrow> ('sk, 'pk, 'gk, 'vk) protocol \<Rightarrow> ('sk, 'pk, 'gk, 'vk) protocol
     \<Rightarrow> ('sk, 'pk, 'gk, 'vk) protocol \<times> ('sk, 'pk, 'gk, 'vk) protocol" where
  "exchange_handshakes cs a b =
     (case createHandshake cs a of (ha, a1) \<Rightarrow>
      case createHandshake cs b of (hb, b1) \<Rightarrow>
      (snd (processHandshake cs (pr_me b) hb a1), snd (processHandshake cs (pr_me a) ha b1)))"

text \<open>
  Property C2. When neither of two peers has a ratchet with the other, in memory or in storage, and they exchange handshakes once,
  as one uninterrupted exchange, the one with the smaller id
  holds the initiator's ratchet and the other the responder's ratchet of one and the same session, and they have
  derived the same legacy secret; whatever they send then is covered by the delivery theorem of sessions.
\<close>

theorem handshake_agrees:
  assumes cs: "sound_crypto (ratchet_part cs) G" "sound_suite cs"
    and ids: "pr_me a < pr_me b" "pr_identity a \<in> G" "pr_identity b \<in> G"
    and new: "\<not> jm_has (pr_ratchets a) (pr_me b)" "load_ratchet cs (pr_me b) a = None"
      "\<not> jm_has (pr_ratchets b) (pr_me a)" "load_ratchet cs (pr_me a) b = None"
    and ex: "exchange_handshakes cs a b = (a', b')"
  shows "\<exists>ka S. S = start_session (ratchet_part cs)
      (ecdh_bits cs (privateKey (pr_identity a)) (publicKey (pr_identity b))) ka (announced_pair cs b) \<and>
    jm_get (pr_ratchets a') (pr_me b) = Some (Ready (parties S Initiator)) \<and>
    jm_get (pr_ratchets b') (pr_me a) = Some (Ready (parties S Responder)) \<and>
    jm_get (pr_secrets a') (pr_me b) = jm_get (pr_secrets b') (pr_me a) \<and>
    (ka \<in> G \<and> announced_pair cs b \<in> G \<and> publicKey ka \<noteq> publicKey (announced_pair cs b) \<longrightarrow>
      in_session (ratchet_part cs) G S)"
proof -
  obtain ha a1 hb b1 where h: "createHandshake cs a = (ha, a1)" "createHandshake cs b = (hb, b1)"
    by (cases "createHandshake cs a"; cases "createHandshake cs b") blast
  note fa = createHandshake_fields [OF h(1)] and fb = createHandshake_fields [OF h(2)]
  have load: "load_ratchet cs (pr_me b) a1 = None" "load_ratchet cs (pr_me a) b1 = None"
    using new fa fb by (simp_all add: load_ratchet_def)
  let ?sec = "ecdh_bits cs (privateKey (pr_identity a)) (publicKey (pr_identity b))"
  have sec: "ecdh_bits cs (privateKey (pr_identity b)) (publicKey (pr_identity a)) = ?sec"
    using soundD(1) [OF cs(1) ids(3,2)] by simp
  obtain ka where A: "jm_get (pr_ratchets (snd (processHandshake cs (pr_me b) hb a1))) (pr_me b)
        = Some (Ready (initAlice (ratchet_part cs) ?sec (publicKey (announced_pair cs b)) ka))"
      "jm_get (pr_secrets (snd (processHandshake cs (pr_me b) hb a1))) (pr_me b)
        = Some (deriveSharedSecretFromRawBytes cs ?sec (pr_me a) (pr_me b))"
    using processHandshake_new [OF cs, of hb "publicKey (pr_identity b)" "publicKey (announced_pair cs b)" a1 "pr_me b"]
      fa fb new(1) load(1) ids(1) by auto
  have B: "jm_get (pr_ratchets (snd (processHandshake cs (pr_me a) ha b1))) (pr_me a)
        = Some (Ready (initBob ?sec (announced_pair cs b)))"
      "jm_get (pr_secrets (snd (processHandshake cs (pr_me a) ha b1))) (pr_me a)
        = Some (deriveSharedSecretFromRawBytes cs ?sec (pr_me b) (pr_me a))"
    using processHandshake_new [OF cs, of ha "publicKey (pr_identity a)" "publicKey (announced_pair cs a)" b1 "pr_me a"]
      fa fb new(3) load(2) ids(1) sec by auto
  have "a' = snd (processHandshake cs (pr_me b) hb a1)" "b' = snd (processHandshake cs (pr_me a) ha b1)"
    using ex by (simp_all add: exchange_handshakes_def h)
  with A B show ?thesis
    by (intro exI [of _ ka] exI [of _ "start_session (ratchet_part cs) ?sec ka (announced_pair cs b)"])
      (auto simp: start_session_def deriveSharedSecretFromRawBytes_def pair_salt_commute intro: in_session.start [unfolded start_session_def])
qed

lemma handshake_agrees_witness:
  "\<exists>S :: (8 word, 8 word) session. jm_get (pr_ratchets (fst (exchange_handshakes sample_suite (sample_peer ''a'' 3) (sample_peer ''b'' 5)))) ''b''
      = Some (Ready (parties S Initiator)) \<and>
    jm_get (pr_ratchets (snd (exchange_handshakes sample_suite (sample_peer ''a'' 3) (sample_peer ''b'' 5)))) ''a''
      = Some (Ready (parties S Responder))"
proof -
  let ?e = "exchange_handshakes sample_suite (sample_peer ''a'' 3) (sample_peer ''b'' 5)"
  have "?e = (fst ?e, snd ?e)" by simp
  from handshake_agrees [OF sample_suite_sound _ _ _ _ _ _ _ this] show ?thesis
    by (simp add: jm_has_def jm_get_def) blast
qed

lemma processHandshake_responder:
  assumes cs: "sound_crypto (ratchet_part cs) G" "sound_suite cs"
    and h: "hs_publicKey h = exportPublicKey cs idk" "hs_version h = Some 2" "hs_ratchetKey h = Some (exportEcdhPublicKey cs rk)"
    and new: "\<not> jm_has (pr_ratchets s) peer" "pr_db s = None" and me: "\<not> pr_me s < peer"
  shows "\<exists>s'. processHandshake cs peer h s = (None, s') \<and> pr_dh s' = None \<and> pr_me s' = pr_me s \<and> pr_db s' = None \<and>
    pr_ratchets s' = jm_set peer (case pr_dh s of
      Some kp \<Rightarrow> Ready (initBob (ecdh_bits cs (privateKey (pr_identity s)) idk) kp) | None \<Rightarrow> Keyless) (pr_ratchets s)"
proof -
  have "pr_db (persistState cs peer u) = None" if "pr_db u = None" for u :: "('a, 'b, 'c, 'd) protocol"
    using that by (simp add: persistState_def map_key_db_def split: option.splits slot.splits)
  moreover have "load_ratchet cs peer s = None" using new(2) by (simp add: load_ratchet_def)
  ultimately show ?thesis
    using new me raw_not_Nil [OF cs(1), of rk]
    by (simp add: processHandshake_def h import_public [OF cs(2)] raw_import [OF cs(1)] Let_def start_ratchet_def)
qed

text \<open>
  A responder that announces itself to two peers before either answers gives both the same
  ratchet key and uses it up on the first answer: the session with the second peer has no key pair, and no ratchet
  message of that peer is ever decrypted.
\<close>

theorem second_handshake_is_lost:
  assumes cs: "sound_crypto (ratchet_part cs) G" "sound_suite cs"
    and made: "createHandshake cs b = (h1, b1)" "createHandshake cs b1 = (h2, b2)"
    and from_p: "createHandshake cs p = (g1, p')" "createHandshake cs q = (g2, q')"
    and order: "pr_me p < pr_me b" "pr_me q < pr_me b" "pr_me p \<noteq> pr_me q"
    and new: "\<not> jm_has (pr_ratchets b) (pr_me p)" "\<not> jm_has (pr_ratchets b) (pr_me q)" "pr_db b = None"
    and done1: "b3 = snd (processHandshake cs (pr_me p) g1 b2)"
    and done2: "b4 = snd (processHandshake cs (pr_me q) g2 b3)"
  shows "hs_ratchetKey h1 = hs_ratchetKey h2 \<and> jm_get (pr_ratchets b4) (pr_me q) = Some Keyless \<and>
    fst (decrypt_ratchet_envelope cs (pr_me q) rm sig vk b4) = Inl ''TypeError''"
proof -
  note f1 = createHandshake_fields [OF made(1)] and f2 = createHandshake_fields [OF made(2)]
    and fp = createHandshake_fields [OF from_p(1)] and fq = createHandshake_fields [OF from_p(2)]
  have not_less: "\<not> pr_me b < pr_me p" "\<not> pr_me b < pr_me q" using order by (auto dest: order.asym)
  have same: "announced_pair cs b1 = announced_pair cs b" using f1 by (simp add: announced_pair_def [of cs b1])
  have b3: "pr_ratchets b3 = jm_set (pr_me p) (Ready (initBob (ecdh_bits cs (privateKey (pr_identity b)) (publicKey (pr_identity p)))
      (announced_pair cs b))) (pr_ratchets b)" "pr_dh b3 = None" "pr_me b3 = pr_me b" "pr_db b3 = None"
    using processHandshake_responder [OF cs, of g1 "publicKey (pr_identity p)" "publicKey (announced_pair cs p)" b2 "pr_me p"]
      f1 f2 fp same new not_less by (auto simp: done1)
  have "pr_ratchets b4 = jm_set (pr_me q) Keyless (pr_ratchets b3)"
    using processHandshake_responder [OF cs, of g2 "publicKey (pr_identity q)" "publicKey (announced_pair cs q)" b3 "pr_me q"]
      fq b3 new order(3) not_less by (auto simp: done2 jm_has_set)
  then have slot: "jm_get (pr_ratchets b4) (pr_me q) = Some Keyless" by (simp add: jm_get_set)
  then show ?thesis using f1 f2 same by (simp add: decrypt_ratchet_envelope_def jm_has_def)
qed

lemma second_handshake_is_lost_witness:
  "let b2 = snd (createHandshake sample_suite (snd (createHandshake sample_suite (sample_peer ''c'' 5))));
       b3 = snd (processHandshake sample_suite ''a'' (fst (createHandshake sample_suite (sample_peer ''a'' 3))) b2);
       b4 = snd (processHandshake sample_suite ''b'' (fst (createHandshake sample_suite (sample_peer ''b'' 4))) b3)
   in jm_get (pr_ratchets b4) ''b'' = Some Keyless"
proof -
  let ?h = "createHandshake sample_suite"
  have pair: "?h s = (fst (?h s), snd (?h s))" for s by simp
  show ?thesis
    using second_handshake_is_lost [OF sample_suite_sound pair pair pair [of "sample_peer ''a'' 3"] pair [of "sample_peer ''b'' 4"]
        _ _ _ _ _ _ refl refl, of "sample_peer ''c'' 5"]
    by (simp add: Let_def jm_has_def jm_get_def)
qed

subsection \<open>The life cycle of the local keys\<close>

text \<open>The local one-time keys have ids from 1 to below the next id, each once.\<close>

definition keys_ok :: "('sk, 'pk, 'gk, 'vk) protocol \<Rightarrow> bool" where
  "keys_ok s \<longleftrightarrow> wf_map (pr_oneTime s) \<and> (\<forall>i \<in> set (jm_keys (pr_oneTime s)). 1 \<le> i \<and> i < pr_nextId s) \<and> 1 \<le> pr_nextId s"

text \<open>What the key operations leave alone.\<close>

definition same_sessions :: "('sk, 'pk, 'gk, 'vk) protocol \<Rightarrow> ('sk, 'pk, 'gk, 'vk) protocol \<Rightarrow> bool" where
  "same_sessions s s' \<longleftrightarrow>
     pr_ratchets s' = pr_ratchets s \<and> pr_signing s' = pr_signing s \<and> pr_ready s' = pr_ready s \<and> pr_me s' = pr_me s"

lemma add_one_time_fields [simp]:
  "pr_ratchets (add_one_time cs now s) = pr_ratchets s" "pr_signing (add_one_time cs now s) = pr_signing s"
  "pr_ready (add_one_time cs now s) = pr_ready s" "pr_me (add_one_time cs now s) = pr_me s"
  "pr_signed (add_one_time cs now s) = pr_signed s" "pr_background (add_one_time cs now s) = pr_background s"
  by (simp_all add: add_one_time_def draw_pair_def)

lemma generateMore_fields [simp]:
  "pr_ratchets (generateMoreOneTimePreKeys cs now n s) = pr_ratchets s" "pr_signing (generateMoreOneTimePreKeys cs now n s) = pr_signing s"
  "pr_ready (generateMoreOneTimePreKeys cs now n s) = pr_ready s" "pr_me (generateMoreOneTimePreKeys cs now n s) = pr_me s"
  "pr_signed (generateMoreOneTimePreKeys cs now n s) = pr_signed s" "pr_background (generateMoreOneTimePreKeys cs now n s) = pr_background s"
  unfolding generateMoreOneTimePreKeys_def by (induction n) simp_all

lemma schedule_fields [simp]:
  "pr_ratchets (scheduleBackgroundPreKeyGeneration n s) = pr_ratchets s" "pr_signing (scheduleBackgroundPreKeyGeneration n s) = pr_signing s"
  "pr_ready (scheduleBackgroundPreKeyGeneration n s) = pr_ready s" "pr_me (scheduleBackgroundPreKeyGeneration n s) = pr_me s"
  "pr_signed (scheduleBackgroundPreKeyGeneration n s) = pr_signed s" "pr_oneTime (scheduleBackgroundPreKeyGeneration n s) = pr_oneTime s"
  "pr_nextId (scheduleBackgroundPreKeyGeneration n s) = pr_nextId s"
  by (simp_all add: scheduleBackgroundPreKeyGeneration_def split: option.split)

lemma one_time_step_fields [simp]:
  "pr_ratchets (snd (one_time_step cs now s)) = pr_ratchets s" "pr_signing (snd (one_time_step cs now s)) = pr_signing s"
  "pr_ready (snd (one_time_step cs now s)) = pr_ready s" "pr_me (snd (one_time_step cs now s)) = pr_me s"
  "pr_signed (snd (one_time_step cs now s)) = pr_signed s"
  by (simp_all add: one_time_step_def Let_def)

lemma fresh_fields:
  "generateFreshLocalPreKeys cs now s = Inr s' \<Longrightarrow> same_sessions s s'"
  by (auto simp: generateFreshLocalPreKeys_def Let_def draw_pair_def same_sessions_def split: option.splits if_splits)

lemma rotate_fields: "rotateLocalSignedPreKey cs now s = Inr s' \<Longrightarrow> same_sessions s s' \<and> pr_oneTime s' = pr_oneTime s \<and> pr_nextId s' = pr_nextId s"
  by (auto simp: rotateLocalSignedPreKey_def draw_pair_def same_sessions_def split: option.splits)

lemma policy_same:
  assumes "applyLocalPreKeyLifecyclePolicy cs now s = Inr (c, s')"
  shows "same_sessions s s'"
proof -
  have "same_sessions s s'" if "one_time_step cs now s1 = (d, s')" "same_sessions s s1" for s1 d
    using that one_time_step_fields [of cs now s1] by (simp add: same_sessions_def)
  moreover have "same_sessions s s" by (simp add: same_sessions_def)
  ultimately show ?thesis
    using assms unfolding applyLocalPreKeyLifecyclePolicy_def Let_def
    by (auto split: if_splits sum.splits prod.splits dest: fresh_fields rotate_fields)
qed

lemma policy_total:
  assumes "pr_signing s \<noteq> None"
  shows "\<exists>c s'. applyLocalPreKeyLifecyclePolicy cs now s = Inr (c, s')"
  using assms by (auto simp: applyLocalPreKeyLifecyclePolicy_def Let_def generateFreshLocalPreKeys_def
      rotateLocalSignedPreKey_def split: prod.splits)

subsection \<open>Sessions from a pre-key bundle\<close>

text \<open>A first message from a fresh session, and its delivery.\<close>

lemma first_message:
  assumes cr: "sound_crypto cr G" and keys: "ka \<in> G" "kb \<in> G" "kc \<in> G"
    and fresh: "publicKey ka \<noteq> publicKey kb" "publicKey kc \<noteq> publicKey ka" "publicKey kc \<noteq> publicKey kb"
    and ivb: "length ivb = 12" and plain: "plain_text plain"
  shows "\<exists>m r r' S. encrypt cr ivb plain (initAlice cr secret (publicKey kb) ka) = (Inr m, r) \<and>
    decrypt cr kc m (initBob secret kb) = (Inr plain, r') \<and> in_session cr G S \<and> flight S = [] \<and>
    parties S Initiator = r \<and> parties S Responder = r'"
proof -
  let ?S = "start_session cr secret ka kb"
  have S: "in_session cr G ?S" using keys(1,2) fresh(1) by (rule in_session.start)
  have p: "parties ?S Initiator = initAlice cr secret (publicKey kb) ka" "parties ?S Responder = initBob secret kb"
    "flight ?S = []" "used_keys ?S = [publicKey ka, publicKey kb]" by (simp_all add: start_session_def)
  obtain E where E: "session_inv cr G E ?S" using session_keeps_inv [OF cr S] by blast
  obtain c where "sendChainKey (parties ?S Initiator) = Some c"
    by (simp add: p initAlice_def split_beta Let_def)
  from encrypt_good [OF cr inv_parts(2) [OF E] inv_parts(1) [OF E] this ivb, of plain]
  obtain m r where m: "encrypt cr ivb plain (parties ?S Initiator) = (Inr m, r)" "messageNumber (header m) = 0"
    by (auto simp: p initAlice_def split_beta Let_def)
  define T where "T = ?S\<lparr>parties := (parties ?S)(Initiator := r), flight := flight ?S @ [(other Initiator, m, plain)]\<rparr>"
  have T: "in_session cr G T" unfolding T_def by (rule in_session.step [OF S session_step.send [OF ivb plain m(1)]])
  obtain F where F: "session_inv cr G F T" using session_keeps_inv [OF cr T] by blast
  have bob: "parties T Responder = initBob secret kb" "flight T = [] @ (Responder, m, plain) # []"
    "used_keys T = [publicKey ka, publicKey kb]" "parties T Initiator = r" by (simp_all add: T_def p)
  have lim: "within_limits cr m (parties T Responder)" by (simp add: bob(1) within_limits_def initBob_def m(2))
  obtain r' where r': "decrypt cr kc m (parties T Responder) = (Inr plain, r')"
    using deliver_inv [OF cr F bob(2) lim keys(3)] fresh bob(3) by auto
  have "in_session cr G (delivered T Responder r' ([] @ []) (publicKey kc))"
    using session_step.deliver [OF bob(2) lim keys(3) _ r'] fresh bob(3) by (intro in_session.step [OF T]) auto
  then show ?thesis using m(1) r' bob p(1)
    by (intro exI [of _ m] exI [of _ r] exI [of _ r'] exI [of _ "delivered T Responder r' ([] @ []) (publicKey kc)"]) simp
qed

lemma getBundle_fields:
  assumes "getPeerPreKeyBundle cs now peer s = (b, s')"
  shows "pr_ratchets s' = pr_ratchets s \<and> pr_draws s' = pr_draws s \<and> pr_me s' = pr_me s \<and> pr_signing s' = pr_signing s"
  using assms unfolding getPeerPreKeyBundle_def
  by (auto simp: clearPeerPreKeyBundle_def delete_stored_bundle_def persistPeerPreKeyBundle_def map_key_db_def Let_def
      split: option.splits if_splits)

lemma consume_fields [simp]:
  "pr_ratchets (consume_peer_key now p b s) = pr_ratchets s" "pr_me (consume_peer_key now p b s) = pr_me s"
  by (simp_all add: consume_peer_key_def clearPeerPreKeyBundle_def delete_stored_bundle_def persistPeerPreKeyBundle_def
      map_key_db_def split: option.split)

lemma accept_session_init_ok:
  assumes "pr_signing s \<noteq> None"
  shows "\<exists>s'. accept_session_init cs now p si r s = (None, s') \<and> jm_get (pr_ratchets s') p = Some (Ready r)"
proof -
  let ?s = "persistState cs p (s\<lparr>pr_ratchets := jm_set p (Ready r) (pr_ratchets s)\<rparr>)"
  let ?s2 = "if si_keyType si = OneTimeKey then ?s\<lparr>pr_oneTime := jm_delete (si_keyId si) (pr_oneTime ?s)\<rparr> else ?s"
  have "pr_signing ?s2 \<noteq> None" using assms by simp
  then obtain c s3 where pol: "applyLocalPreKeyLifecyclePolicy cs now ?s2 = Inr (c, s3)" using policy_total by blast
  have "accept_session_init cs now p si r s = (None, if si_keyType si = OneTimeKey \<or> c then persistLocalPreKeyState cs s3 else s3)"
    unfolding accept_session_init_def Let_def pol by simp
  moreover have "pr_ratchets s3 = jm_set p (Ready r) (pr_ratchets s)"
    using policy_same [OF pol] by (simp add: same_sessions_def)
  ultimately show ?thesis by (simp add: jm_get_set)
qed

text \<open>The owner of the pre-key takes a well-signed first message.\<close>

lemma session_init_accepted:
  assumes ev: "ev_version ev = Some 3" "ev_init ev = Some si" "ev_ratchet ev = Some m" "ev_signature ev = cipher_sign cs plain gk"
    and b: "resolveLocalPreKey (si_keyType si) (si_keyId si) b = Some kp" "pr_ready b = Some True"
      "\<not> jm_has (pr_ratchets b) p" "pr_signing b \<noteq> None"
    and eph: "importEcdhPublicKey cs (si_ephemeral si) = Some eph"
    and plain: "decrypt (ratchet_part cs) (generated_pair cs (pr_draws b)) m (initBob (ecdh_bits cs (privateKey kp) eph) kp) = (Inr plain, r)"
    and sig: "\<And>msg. ecdsa_verify cs (jm_get_or vk (pr_signers b) p) (ecdsa_sign cs gk msg) msg"
  shows "\<exists>b'. decryptMessage cs now p ev vk b = (Inr (Some plain), b') \<and> jm_get (pr_ratchets b') p = Some (Ready r)"
proof -
  let ?b = "b\<lparr>pr_draws := Suc (pr_draws b)\<rparr>"
  have "check_signature cs p vk plain (ev_signature ev) ?b = Inr (Some plain)"
    using sig by (simp add: check_signature_def ev(4) verify_signed)
  moreover obtain b3 where "accept_session_init cs now p si r ?b = (None, b3)" "jm_get (pr_ratchets b3) p = Some (Ready r)"
    using accept_session_init_ok [of ?b cs now p si r] b(4) by auto
  ultimately show ?thesis using b(1,2,3) plain eph
    by (simp add: decryptMessage_def ev decryptPreKeySessionInit_def ensureLocalPreKeyMaterial_def draw_pair_def)
qed

text \<open>
  Property C3. A peer without a session can write to an offline peer whose bundle it has: the message
  it gets from \<open>encryptMessage\<close> is decrypted by the owner of the selected pre-key, and both then hold the
  two sides of one session, with nothing lost.
\<close>

theorem bootstrap_delivers:
  assumes cs: "sound_crypto (ratchet_part cs) G" "sound_suite cs"
    and a: "jm_get (pr_ratchets a) (pr_me b) = None" "jm_get (pr_secrets a) (pr_me b) = None" "pr_signing a = Some (gk, va)"
    and got: "getPeerPreKeyBundle cs now (pr_me b) a = (Some bun, a1)"
      "select_pre_key now bun = Some (kt, i, exportEcdhPublicKey cs (publicKey kp))"
    and b: "resolveLocalPreKey kt i b = Some kp" "pr_ready b = Some True" "\<not> jm_has (pr_ratchets b) (pr_me a)" "pr_signing b \<noteq> None"
    and sig: "\<And>msg. ecdsa_verify cs (jm_get_or vk (pr_signers b) (pr_me a)) (ecdsa_sign cs gk msg) msg"
    and keys: "kp \<in> G" "generated_pair cs (pr_draws a) \<in> G" "generated_pair cs (Suc (pr_draws a)) \<in> G" "generated_pair cs (pr_draws b) \<in> G"
    and fresh: "publicKey (generated_pair cs (Suc (pr_draws a))) \<noteq> publicKey kp"
      "publicKey (generated_pair cs (pr_draws b)) \<notin> {publicKey kp, publicKey (generated_pair cs (Suc (pr_draws a)))}"
    and plain: "plain_text plain"
    and enc: "encryptMessage cs now msgId (pr_me b) plain kind meta a = (res, a')"
  shows "\<exists>ev b' S. res = Inr ev \<and> decryptMessage cs later (pr_me a) ev vk b = (Inr (Some plain), b') \<and>
    in_session (ratchet_part cs) G S \<and> flight S = [] \<and>
    jm_get (pr_ratchets a') (pr_me b) = Some (Ready (parties S Initiator)) \<and>
    jm_get (pr_ratchets b') (pr_me a) = Some (Ready (parties S Responder))"
proof -
  let ?eph = "generated_pair cs (pr_draws a)" and ?rk = "generated_pair cs (Suc (pr_draws a))"
  let ?secret = "ecdh_bits cs (privateKey ?eph) (publicKey kp)"
  have a1: "pr_ratchets a1 = pr_ratchets a" "pr_draws a1 = pr_draws a" "pr_me a1 = pr_me a" "pr_signing a1 = pr_signing a"
    using getBundle_fields [OF got(1)] by auto
  have iv: "length (random_iv cs n) = 12" for n using cs(2) by (simp add: sound_suite_def)
  obtain m r r' S where m: "encrypt (ratchet_part cs) (random_iv cs (Suc (Suc (pr_draws a)))) plain
        (initAlice (ratchet_part cs) ?secret (publicKey kp) ?rk) = (Inr m, r)"
      "decrypt (ratchet_part cs) (generated_pair cs (pr_draws b)) m (initBob ?secret kp) = (Inr plain, r')"
      "in_session (ratchet_part cs) G S" "flight S = []" "parties S Initiator = r" "parties S Responder = r'"
    using first_message [OF cs(1) keys(3,1,4) _ _ _ iv plain] fresh by fastforce
  define si where "si = \<lparr>si_bundleVersion = PRE_KEY_BUNDLE_VERSION, si_keyId = i, si_keyType = kt,
     si_ephemeral = exportEcdhPublicKey cs (publicKey ?eph), si_createdAt = now\<rparr>"
  have "\<exists>ev. res = Inr ev \<and> ev_version ev = Some 3 \<and> ev_init ev = Some si \<and> ev_ratchet ev = Some m \<and>
      ev_signature ev = cipher_sign cs plain gk \<and> jm_get (pr_ratchets a') (pr_me b) = Some (Ready r)"
    using enc a m(1) a1 got raw_import [OF cs(1)]
    by (auto simp: encryptMessage_def encryptWithPreKeyBootstrap_def Let_def draw_pair_def draw_iv_def sign_content_def
        base_envelope_def si_def jm_get_set split: if_splits)
  then obtain ev where ev: "res = Inr ev" "ev_version ev = Some 3" "ev_init ev = Some si" "ev_ratchet ev = Some m"
    "ev_signature ev = cipher_sign cs plain gk" "jm_get (pr_ratchets a') (pr_me b) = Some (Ready r)" by blast
  have secret: "ecdh_bits cs (privateKey kp) (publicKey ?eph) = ?secret"
    using soundD(1) [OF cs(1) keys(1,2)] by simp
  have si: "resolveLocalPreKey (si_keyType si) (si_keyId si) b = Some kp"
    "importEcdhPublicKey cs (si_ephemeral si) = Some (publicKey ?eph)"
    using b(1) raw_import [OF cs(1)] by (simp_all add: si_def)
  obtain b3 where "decryptMessage cs later (pr_me a) ev vk b = (Inr (Some plain), b3)" "jm_get (pr_ratchets b3) (pr_me a) = Some (Ready r')"
    using session_init_accepted [OF ev(2-5) si(1) b(2-4) si(2) m(2) [folded secret] sig, of later] by blast
  with ev m show ?thesis by blast
qed


text \<open>A bundle with one one-time key, its sender and its owner.\<close>

definition peer_bundle :: pre_key_bundle where
  "peer_bundle = \<lparr>pb_version = 1, pb_peerId = ''b'', pb_generatedAt = 4000, pb_signingPublicKey = ''k'',
     pb_signedPreKey = \<lparr>sp_keyId = 1, sp_publicKey = ''s'', sp_signature = ''g'', sp_createdAt = 1, sp_expiresAt = 9000\<rparr>,
     pb_oneTimePreKeys = [\<lparr>ot_keyId = 1, ot_publicKey = exportEcdhPublicKey sample_suite 200, ot_createdAt = 1\<rparr>]\<rparr>"

definition bundle_sender :: "(8 word, 8 word, 8 word, 8 word) protocol" where
  "bundle_sender = (sample_peer ''a'' 3)\<lparr>pr_bundles := [(''b'', peer_bundle)]\<rparr>"

definition bundle_owner :: "(8 word, 8 word, 8 word, 8 word) protocol" where
  "bundle_owner = (sample_peer ''b'' 5)\<lparr>pr_ready := Some True,
     pr_oneTime := [(1, \<lparr>lk_pair = sample_pair 200, lk_createdAt = 1\<rparr>)]\<rparr>"

lemma bundle_sender_gets: "getPeerPreKeyBundle sample_suite 5000 ''b'' bundle_sender = (Some peer_bundle, bundle_sender)"
  "select_pre_key 5000 peer_bundle = Some (OneTimeKey, 1, exportEcdhPublicKey sample_suite 200)"
  using raw_not_Nil [OF sample_suite_sound(1)]
  by (simp_all add: getPeerPreKeyBundle_def bundle_sender_def jm_get_def normalizePeerPreKeyBundle_def peer_bundle_def
      PRE_KEY_BUNDLE_VERSION_def policy_defs changed_iff select_pre_key_def)

lemma bootstrap_delivers_witness:
  "\<exists>ev b'. fst (encryptMessage sample_suite 5000 ''m'' ''b'' [72, 105] ''text'' None bundle_sender) = Inr ev \<and>
    decryptMessage sample_suite 6000 ''a'' ev 3 bundle_owner = (Inr (Some [72, 105]), b')"
proof -
  let ?e = "encryptMessage sample_suite 5000 ''m'' ''b'' [72, 105] ''text'' None bundle_sender"
  have e: "encryptMessage sample_suite 5000 ''m'' (pr_me bundle_owner) [72, 105] ''text'' None bundle_sender = (fst ?e, snd ?e)"
    by (simp add: bundle_owner_def)
  show ?thesis
    using bootstrap_delivers [where gk = 3 and va = 3 and kt = OneTimeKey and i = 1 and kp = "sample_pair 200"
        and bun = peer_bundle and vk = 3 and later = 6000, OF sample_suite_sound _ _ _ _ _ _ _ _ _ _ _ _ _ _ _ _ _ e]
      bundle_sender_gets
    by (simp add: bundle_sender_def bundle_owner_def jm_get_def jm_has_def jm_get_or_def resolveLocalPreKey_def
        plain_text_def surrogate_defs) blast
qed

end
