(* ===== verification/LocalPreKeys.thy ===== *)
theory LocalPreKeys
  imports PeerSessions
begin

section \<open>The local pre-keys over the life of a peer\<close>

text \<open>
  Every call of \<open>MessageProtocol\<close> and every turn of its background tasks as one step. The machine
  \<open>local_keys\<close> keeps the ids of the one-time keys distinct and below the next id; on top of it, a
  one-time key that started a session never starts another one.
\<close>

datatype ('gk, 'vk) protocol_call =
    CallInit time 'gk 'vk
  | RefillTurn
  | BackgroundTurn time
  | CallSetPersistence key_db
  | CallCreateHandshake
  | CallProcessHandshake string handshake
  | CallCreateBundle time
  | CallStoreBundle time string pre_key_bundle
  | CallGetBundle time string
  | CallClearBundle string
  | CallEncrypt time string string js_text string "json option"
  | CallDecrypt time string message_envelope 'vk
  | CallClearSecret string
  | CallClearRatchet string
  | CallClearAll
  | CallRestore string

fun protocol_step :: "('sk, 'pk, 'gk, 'vk) suite \<Rightarrow> ('gk, 'vk) protocol_call \<Rightarrow> ('sk, 'pk, 'gk, 'vk) protocol
    \<Rightarrow> ('sk, 'pk, 'gk, 'vk) protocol" where
  "protocol_step cs (CallInit now gk vk) s = snd (init_protocol cs now (gk, vk) s)"
| "protocol_step cs RefillTurn s = refill_step cs s"
| "protocol_step cs (BackgroundTurn now) s = background_step cs now s"
| "protocol_step cs (CallSetPersistence d) s = setPersistence_keys cs d s"
| "protocol_step cs CallCreateHandshake s = snd (createHandshake cs s)"
| "protocol_step cs (CallProcessHandshake p h) s = snd (processHandshake cs p h s)"
| "protocol_step cs (CallCreateBundle now) s = snd (createPreKeyBundle cs now s)"
| "protocol_step cs (CallStoreBundle now p b) s = snd (storePeerPreKeyBundle cs now p b s)"
| "protocol_step cs (CallGetBundle now p) s = snd (getPeerPreKeyBundle cs now p s)"
| "protocol_step cs (CallClearBundle p) s = clearPeerPreKeyBundle p s"
| "protocol_step cs (CallEncrypt now i p t k m) s = snd (encryptMessage cs now i p t k m s)"
| "protocol_step cs (CallDecrypt now p ev vk) s = snd (decryptMessage cs now p ev vk s)"
| "protocol_step cs (CallClearSecret p) s = clearSharedSecret p s"
| "protocol_step cs (CallClearRatchet p) s = clearRatchetState p s"
| "protocol_step cs CallClearAll s = clearAllSecrets s"
| "protocol_step cs (CallRestore p) s = snd (restoreRatchetState cs p s)"

subsection \<open>Calls that do not touch the local keys\<close>

definition same_keys :: "('sk, 'pk, 'gk, 'vk) protocol \<Rightarrow> ('sk, 'pk, 'gk, 'vk) protocol \<Rightarrow> bool" where
  "same_keys s s' \<longleftrightarrow> pr_oneTime s' = pr_oneTime s \<and> pr_nextId s' = pr_nextId s \<and> pr_signed s' = pr_signed s \<and>
     pr_ready s' = pr_ready s"

lemma refill_ready [simp]: "pr_ready (scheduleDHKeyPairPoolRefill s) = pr_ready s" "pr_ready (snd (takeDHKeyPair cs s)) = pr_ready s"
  "pr_ready (learn_signer cs p h s) = pr_ready s"
  by (simp_all add: scheduleDHKeyPairPoolRefill_def takeDHKeyPair_def learn_signer_def Let_def split: list.split option.split)

lemma db_same [simp]: "same_keys s (map_key_db f s)"
  by (simp add: same_keys_def map_key_db_def)

lemma persist_bundle_fields [simp]:
  "pr_oneTime (persistPeerPreKeyBundle p b s) = pr_oneTime s" "pr_nextId (persistPeerPreKeyBundle p b s) = pr_nextId s"
  "pr_signed (persistPeerPreKeyBundle p b s) = pr_signed s" "pr_ready (persistPeerPreKeyBundle p b s) = pr_ready s"
  "pr_oneTime (delete_stored_bundle p s) = pr_oneTime s" "pr_nextId (delete_stored_bundle p s) = pr_nextId s"
  "pr_signed (delete_stored_bundle p s) = pr_signed s" "pr_ready (delete_stored_bundle p s) = pr_ready s"
  by (simp_all add: persistPeerPreKeyBundle_def delete_stored_bundle_def map_key_db_def)

lemma same_keys_trans: "same_keys a b \<Longrightarrow> same_keys b c \<Longrightarrow> same_keys a c"
  by (simp add: same_keys_def)

lemma same_keys_refill: "same_keys s (refill_step cs s)"
  by (auto simp: refill_step_def same_keys_def draw_pair_def)

lemma same_keys_handshake: "same_keys s (snd (createHandshake cs s))"
  by (auto simp: createHandshake_def same_keys_def split_beta split: option.split)

lemma same_keys_start: "same_keys s (snd (start_ratchet cs p sec k s))"
  by (auto simp: start_ratchet_def same_keys_def split_beta)

lemma same_keys_process: "same_keys s (snd (processHandshake cs p h s))"
proof -
  have "same_keys s (persistState cs p (s2\<lparr>pr_ratchets := r\<rparr>))"
    if "start_ratchet cs p sec k (learn_signer cs p h s\<lparr>pr_secrets := m\<rparr>) = (slot, s2)" for sec k m slot s2 r
    using same_keys_start [of "learn_signer cs p h s\<lparr>pr_secrets := m\<rparr>" cs p sec k] that by (simp add: same_keys_def)
  then show ?thesis
    unfolding processHandshake_def Let_def
    by (auto simp: same_keys_def split: option.split prod.split)
qed

lemma same_keys_getBundle: "same_keys s (snd (getPeerPreKeyBundle cs now p s))"
  by (auto simp: getPeerPreKeyBundle_def same_keys_def clearPeerPreKeyBundle_def Let_def split: option.split)

lemma same_keys_consume: "same_keys s (consume_peer_key now p b s)"
  by (auto simp: consume_peer_key_def same_keys_def clearPeerPreKeyBundle_def split: option.split)

lemma same_keys_bootstrap: "same_keys s (snd (encryptWithPreKeyBootstrap cs now i p t k sig m s))"
proof -
  have got: "same_keys s s'" if "getPeerPreKeyBundle cs now p s = (b, s')" for b s'
    using same_keys_getBundle [of s cs now p] that by simp
  have consume: "same_keys s (consume_peer_key now p b s')" if "same_keys s s'" for b s'
    using same_keys_trans [OF that same_keys_consume] .
  show ?thesis
    unfolding encryptWithPreKeyBootstrap_def Let_def draw_pair_def draw_iv_def
    by (auto dest!: got simp: same_keys_def split: option.split prod.split sum.split intro!: consume [unfolded same_keys_def])
qed

lemma same_keys_encrypt: "same_keys s (snd (encryptMessage cs now i p t k m s))"
proof -
  have boot: "same_keys s s'" if "encryptWithPreKeyBootstrap cs now i p t k sig m s = (r, s')" for sig r s'
    using same_keys_bootstrap [of s cs now i p t k sig m] that by simp
  show ?thesis
    unfolding encryptMessage_def Let_def draw_iv_def
    by (auto dest!: boot simp: same_keys_def split: option.split prod.split sum.split slot.split)
qed

lemma same_keys_restore: "same_keys s (snd (restoreRatchetState cs p s))"
  by (auto simp: restoreRatchetState_def same_keys_def split: option.split)

lemma same_keys_ratchet_envelope: "same_keys s (snd (decrypt_ratchet_envelope cs p rm sig vk s))"
proof (cases "jm_has (pr_ratchets s) p")
  case True
  then show ?thesis
    by (simp add: decrypt_ratchet_envelope_def draw_pair_def same_keys_def Let_def split: option.split slot.split prod.split sum.split)
next
  case False
  then show ?thesis
    by (cases "load_ratchet cs p s")
      (simp_all add: decrypt_ratchet_envelope_def restoreRatchetState_def draw_pair_def same_keys_def Let_def jm_has_def jm_get_set
        split: prod.split sum.split)
qed

subsection \<open>Calls that change the local keys\<close>

text \<open>A one-time key id that was handed out and is gone.\<close>

definition spent :: "int \<Rightarrow> ('sk, 'pk, 'gk, 'vk) protocol \<Rightarrow> bool" where
  "spent i s \<longleftrightarrow> \<not> jm_has (pr_oneTime s) i \<and> i < pr_nextId s"

definition ids_ok :: "('sk, 'pk, 'gk, 'vk) protocol \<Rightarrow> bool" where
  "ids_ok s \<longleftrightarrow> wf_map (pr_oneTime s) \<and> (\<forall>i. jm_has (pr_oneTime s) i \<longrightarrow> i < pr_nextId s)"

text \<open>The two facts every key operation keeps, for a set \<open>D\<close> of spent ids.\<close>

definition keys_inv :: "int set \<Rightarrow> ('sk, 'pk, 'gk, 'vk) protocol \<Rightarrow> bool" where
  "keys_inv D s \<longleftrightarrow> ids_ok s \<and> (\<forall>i \<in> D. spent i s)"

lemma keys_inv_same: "same_keys s s' \<Longrightarrow> keys_inv D s \<Longrightarrow> keys_inv D s'"
  by (simp add: same_keys_def keys_inv_def ids_ok_def spent_def)

lemma keys_inv_add: "keys_inv D s \<Longrightarrow> keys_inv D (add_one_time cs now s)"
  by (fastforce simp: keys_inv_def ids_ok_def spent_def add_one_time_def draw_pair_def jm_has_set)

lemma keys_inv_more: "keys_inv D s \<Longrightarrow> keys_inv D (generateMoreOneTimePreKeys cs now n s)"
  unfolding generateMoreOneTimePreKeys_def by (induction n) (auto intro: keys_inv_add)

lemma keys_inv_schedule [simp]: "keys_inv D (scheduleBackgroundPreKeyGeneration n s) \<longleftrightarrow> keys_inv D s"
  by (simp add: keys_inv_def ids_ok_def spent_def)

lemma keys_inv_delete: "keys_inv D s \<Longrightarrow> keys_inv D (s\<lparr>pr_oneTime := jm_delete i (pr_oneTime s)\<rparr>)"
  by (auto simp: keys_inv_def ids_ok_def spent_def jm_has_delete)

lemma keys_inv_delete_all: "keys_inv D s \<Longrightarrow> keys_inv D (s\<lparr>pr_oneTime := fold jm_delete is (pr_oneTime s)\<rparr>)"
proof (induction "is" arbitrary: s)
  case (Cons i js)
  from Cons.IH [OF keys_inv_delete [OF Cons.prems, of i]] show ?case by simp
qed simp

lemma keys_inv_one_time: "keys_inv D s \<Longrightarrow> keys_inv D (snd (one_time_step cs now s))"
  by (simp add: one_time_step_def Let_def keys_inv_more keys_inv_delete_all)

lemma keys_inv_fresh: "generateFreshLocalPreKeys cs now s = Inr s' \<Longrightarrow> keys_inv {} s'"
proof -
  have empty: "keys_inv {} (s\<lparr>pr_draws := d, pr_signed := k, pr_oneTime := [], pr_nextId := 1\<rparr>)" for d k
    by (simp add: keys_inv_def ids_ok_def)
  assume "generateFreshLocalPreKeys cs now s = Inr s'"
  then show ?thesis
    unfolding generateFreshLocalPreKeys_def Let_def draw_pair_def
    by (auto split: option.splits if_splits intro!: keys_inv_more empty)
qed

text \<open>The signed key is there and has not expired: the policy does not start over.\<close>

definition unexpired :: "time \<Rightarrow> ('sk, 'pk, 'gk, 'vk) protocol \<Rightarrow> bool" where
  "unexpired now s \<longleftrightarrow> (case pr_signed s of None \<Rightarrow> False | Some k \<Rightarrow> now < ls_expiresAt k)"

lemma policy_keys:
  assumes "applyLocalPreKeyLifecyclePolicy cs now s = Inr (c, s')" "keys_inv D s" "D = {} \<or> unexpired now s"
  shows "keys_inv D s'"
proof -
  have step: "keys_inv D s'" if "one_time_step cs now s1 = (d, s')" "keys_inv D s1" for s1 d
    using keys_inv_one_time [OF that(2), of cs now] that(1) by simp
  have rotate: "keys_inv D s1" if "rotateLocalSignedPreKey cs now s = Inr s1" for s1
    using rotate_fields [OF that] assms(2) by (auto simp: keys_inv_def ids_ok_def spent_def)
  have regen: "D = {}" if "regenerateAll (decideSignedPreKeyLifecycle now (map_option ls_expiresAt (pr_signed s)))"
    using assms(3) that by (auto simp: unexpired_def decideSignedPreKeyLifecycle_def split: option.splits if_splits)
  show ?thesis
    using assms(1,2) regen unfolding applyLocalPreKeyLifecyclePolicy_def Let_def
    by (auto split: if_splits sum.splits prod.splits dest!: rotate keys_inv_fresh intro: step)
qed

text \<open>Before the local keys are ready, and after their setup failed, no key is ever used.\<close>

definition local_inv :: "('sk, 'pk, 'gk, 'vk) protocol \<Rightarrow> bool" where
  "local_inv s \<longleftrightarrow> (pr_ready s \<noteq> Some False \<longrightarrow> keys_inv {} s)"

lemma wf_load_one_time: "load_one_time cs ks m = (ok, m') \<Longrightarrow> wf_map m \<Longrightarrow> wf_map m'"
  by (induction ks arbitrary: m) (auto split: option.splits)

lemma foldr_max_ge: "x \<in> set xs \<Longrightarrow> x \<le> foldr max xs (b :: int)"
  by (induction xs) (auto simp: le_max_iff_disj)

lemma loaded_keys: "loadLocalPreKeyState cs l s = (True, s') \<Longrightarrow> keys_inv {} s'"
proof -
  assume loaded: "loadLocalPreKeyState cs l s = (True, s')"
  then obtain m where m: "load_one_time cs (lp_oneTime l) [] = (True, m)" "pr_oneTime s' = m"
    "pr_nextId s' = foldr max (map (\<lambda>i. i + 1) (jm_keys m)) (max (lp_nextId l) 1)"
    by (auto simp: loadLocalPreKeyState_def Let_def split: option.splits prod.splits if_splits)
  have "i < pr_nextId s'" if "jm_has m i" for i
  proof -
    have "i + 1 \<in> set (map (\<lambda>i. i + 1) (jm_keys m))" using that by (simp add: jm_has_keys)
    then have "i + 1 \<le> pr_nextId s'" unfolding m(3) by (rule foldr_max_ge)
    then show ?thesis by simp
  qed
  with wf_load_one_time [OF m(1)] show ?thesis by (simp add: keys_inv_def ids_ok_def m(2))
qed

lemma keys_inv_update [simp]:
  "keys_inv D (s\<lparr>pr_ready := r\<rparr>) = keys_inv D s" "keys_inv D (persistLocalPreKeyState cs s) = keys_inv D s"
  "keys_inv D (s\<lparr>pr_background := g\<rparr>) = keys_inv D s" "keys_inv D (s\<lparr>pr_draws := d\<rparr>) = keys_inv D s"
  by (simp_all add: keys_inv_def ids_ok_def spent_def)

lemma ensure_ready: "pr_ready s = Some True \<Longrightarrow> ensureLocalPreKeyMaterial cs now s = (None, s)"
  by (simp add: ensureLocalPreKeyMaterial_def)

lemma ensure_keys:
  assumes "ensureLocalPreKeyMaterial cs now s = (r, s')" "local_inv s"
  shows "local_inv s'" "r = None \<Longrightarrow> keys_inv {} s' \<and> pr_ready s' = Some True"
proof -
  have policy: "keys_inv {} s2" if "applyLocalPreKeyLifecyclePolicy cs now s1 = Inr (c, s2)" "keys_inv {} s1" for s1 c s2
    using policy_keys [OF that] by simp
  have "local_inv s' \<and> (r = None \<longrightarrow> keys_inv {} s' \<and> pr_ready s' = Some True)"
    using assms unfolding ensureLocalPreKeyMaterial_def local_inv_def
    by (auto split: option.splits bool.splits prod.splits sum.splits if_splits
        intro: policy [OF _ keys_inv_fresh] policy [OF _ loaded_keys])
  then show "local_inv s'" "r = None \<Longrightarrow> keys_inv {} s' \<and> pr_ready s' = Some True" by simp_all
qed

lemma createBundle_keys:
  assumes "pr_ready s = Some True" "keys_inv D s" "D = {} \<or> unexpired now s"
  shows "keys_inv D (snd (createPreKeyBundle cs now s)) \<and> pr_ready (snd (createPreKeyBundle cs now s)) = Some True"
proof (cases "applyLocalPreKeyLifecyclePolicy cs now s")
  case (Inl e)
  then show ?thesis using assms by (simp add: createPreKeyBundle_def ensure_ready)
next
  case (Inr y)
  obtain c s2 where y: "y = (c, s2)" by (cases y)
  have "keys_inv D s2" "pr_ready s2 = Some True"
    using policy_keys [OF Inr [unfolded y] assms(2,3)] policy_same [OF Inr [unfolded y]] assms(1)
    by (simp_all add: same_sessions_def)
  then show ?thesis using assms(1) by (simp add: createPreKeyBundle_def ensure_ready Inr y Let_def)
qed

lemma accept_keys:
  assumes "accept_session_init cs now p si r s = (e, s')" "keys_inv D s" "D = {} \<or> unexpired now s"
  shows "keys_inv D s' \<and> pr_ready s' = pr_ready s"
proof -
  let ?s = "persistState cs p (s\<lparr>pr_ratchets := jm_set p (Ready r) (pr_ratchets s)\<rparr>)"
  let ?s2 = "if si_keyType si = OneTimeKey then ?s\<lparr>pr_oneTime := jm_delete (si_keyId si) (pr_oneTime ?s)\<rparr> else ?s"
  have "keys_inv D ?s" using assms(2) by (simp add: keys_inv_def ids_ok_def spent_def)
  then have inv: "keys_inv D ?s2" using keys_inv_delete [of D ?s] by simp
  have un: "D = {} \<or> unexpired now ?s2" using assms(3) by (simp add: unexpired_def)
  have ready: "pr_ready ?s2 = pr_ready s" by simp
  show ?thesis
  proof (cases "applyLocalPreKeyLifecyclePolicy cs now ?s2")
    case (Inl x)
    then show ?thesis using assms(1) inv ready unfolding accept_session_init_def Let_def by simp
  next
    case (Inr y)
    obtain c s3 where y: "y = (c, s3)" by (cases y)
    have "keys_inv D s3" using policy_keys [OF Inr [unfolded y] inv un] .
    moreover have "pr_ready s3 = pr_ready s" using policy_same [OF Inr [unfolded y]] ready by (simp add: same_sessions_def)
    ultimately show ?thesis using assms(1) unfolding accept_session_init_def Let_def Inr y by auto
  qed
qed

lemma session_init_keys:
  assumes "pr_ready s = Some True" "keys_inv D s" "D = {} \<or> unexpired now s"
  shows "keys_inv D (snd (decryptPreKeySessionInit cs now p ev si vk s)) \<and>
    pr_ready (snd (decryptPreKeySessionInit cs now p ev si vk s)) = Some True"
proof -
  have "keys_inv D s' \<and> pr_ready s' = Some True"
    if "accept_session_init cs now p si r (s\<lparr>pr_draws := d\<rparr>) = (e, s')" for r d e s'
    using accept_keys [OF that, of D] assms by (simp add: unexpired_def)
  then show ?thesis
    using assms unfolding decryptPreKeySessionInit_def ensure_ready [OF assms(1)] draw_pair_def
    by (auto split: option.split prod.split sum.split)
qed

lemma decrypt_keys:
  assumes "pr_ready s = Some True" "keys_inv D s" "D = {} \<or> unexpired now s"
  shows "keys_inv D (snd (decryptMessage cs now p ev vk s)) \<and> pr_ready (snd (decryptMessage cs now p ev vk s)) = Some True"
proof -
  have same: "keys_inv D s' \<and> pr_ready s' = Some True" if "same_keys s s'" for s'
    using keys_inv_same [OF that assms(2)] that assms(1) by (simp add: same_keys_def)
  have env: "same_keys s (snd (decrypt_ratchet_envelope cs p rm sig vk s))" for rm sig
    by (rule same_keys_ratchet_envelope)
  have self: "same_keys s s" by (simp add: same_keys_def)
  show ?thesis
    using session_init_keys [OF assms] same [OF env] same [OF self]
    unfolding decryptMessage_def by (simp split: bool.split option.split)
qed

lemma init_ready:
  assumes "pr_ready s = Some True"
  shows "same_keys s (snd (init_protocol cs now k s))"
  using assms by (simp add: init_protocol_def draw_pair_def ensure_ready same_keys_def)

lemma background_keys:
  "keys_inv D s \<Longrightarrow> keys_inv D (background_step cs now s) \<and> pr_ready (background_step cs now s) = pr_ready s"
  by (auto simp: background_step_def keys_inv_add split: option.split nat.split)

fun call_time :: "('gk, 'vk) protocol_call \<Rightarrow> time option" where
  "call_time (CallCreateBundle now) = Some now"
| "call_time (CallDecrypt now p ev vk) = Some now"
| "call_time _ = None"

text \<open>Calls while the keys are ready and the signed key has not expired.\<close>

definition settled :: "('gk, 'vk) protocol_call \<Rightarrow> ('sk, 'pk, 'gk, 'vk) protocol \<Rightarrow> bool" where
  "settled call s \<longleftrightarrow> (case call_time call of None \<Rightarrow> True | Some t \<Rightarrow> unexpired t s)"

lemma step_keys:
  assumes "pr_ready s = Some True" "keys_inv D s" "D = {} \<or> settled call s"
  shows "keys_inv D (protocol_step cs call s) \<and> pr_ready (protocol_step cs call s) = Some True"
proof -
  have same: "keys_inv D s' \<and> pr_ready s' = Some True" if "same_keys s s'" for s'
    using keys_inv_same [OF that assms(2)] that assms(1) by (simp add: same_keys_def)
  note calls = init_ready [OF assms(1)] same_keys_refill same_keys_handshake same_keys_process same_keys_getBundle
    same_keys_encrypt same_keys_restore
  show ?thesis
  proof (cases call)
    case (BackgroundTurn now)
    then show ?thesis using background_keys [OF assms(2)] assms(1) by simp
  next
    case (CallCreateBundle now)
    then show ?thesis using createBundle_keys [OF assms(1,2)] assms(3) by (simp add: settled_def)
  next
    case (CallDecrypt now p ev vk)
    then show ?thesis using decrypt_keys [OF assms(1,2)] assms(3) by (simp add: settled_def)
  next
    case (CallSetPersistence d)
    then show ?thesis using assms by (simp add: setPersistence_keys_def keys_inv_def ids_ok_def spent_def)
  next
    case (CallStoreBundle now p b)
    then show ?thesis by (intro same) (auto simp: storePeerPreKeyBundle_def same_keys_def split: option.split)
  next
    case (CallClearBundle p)
    then show ?thesis by (intro same) (simp add: clearPeerPreKeyBundle_def same_keys_def)
  next
    case (CallClearSecret p)
    then show ?thesis by (intro same) (simp add: clearSharedSecret_def same_keys_def)
  next
    case (CallClearRatchet p)
    then show ?thesis by (intro same) (simp add: clearRatchetState_def map_key_db_def same_keys_def)
  next
    case CallClearAll
    then show ?thesis by (intro same) (simp add: clearAllSecrets_def same_keys_def)
  qed (simp_all add: same calls)
qed

lemma ensure_ratchets:
  assumes "ensureLocalPreKeyMaterial cs now s = (r, s')"
  shows "pr_ratchets s' = pr_ratchets s"
proof -
  have load: "pr_ratchets s1 = pr_ratchets s" if "loadLocalPreKeyState cs l s = (ok, s1)" for l ok s1
    using that by (auto simp: loadLocalPreKeyState_def Let_def split: option.splits prod.splits if_splits)
  have rest: "pr_ratchets s3 = pr_ratchets s1"
    if "generateFreshLocalPreKeys cs now s1 = Inr s2 \<or> s2 = s1" "applyLocalPreKeyLifecyclePolicy cs now s2 = Inr (c, s3)" for s1 s2 s3 c
    using that policy_same [OF that(2)] fresh_fields [of cs now s1 s2] by (auto simp: same_sessions_def)
  have fresh: "pr_ratchets s2 = pr_ratchets s1" if "generateFreshLocalPreKeys cs now s1 = Inr s2" for s1 s2
    using fresh_fields [OF that] by (simp add: same_sessions_def)
  define start where "start = (case stored_local s of None \<Rightarrow> (False, s) | Some l \<Rightarrow> loadLocalPreKeyState cs l s)"
  obtain ok s0 where s0: "start = (ok, s0)" "pr_ratchets s0 = pr_ratchets s"
    using load by (cases start) (auto simp: start_def split: option.splits)
  show ?thesis
    using assms unfolding ensureLocalPreKeyMaterial_def start_def [symmetric] s0(1)
    by (auto simp: s0(2) fresh dest: rest [rotated] fresh split: option.splits bool.splits sum.splits prod.splits if_splits)
qed

lemma createBundle_local: "local_inv s \<Longrightarrow> local_inv (snd (createPreKeyBundle cs now s))"
proof -
  assume inv: "local_inv s"
  obtain r s1 where r: "ensureLocalPreKeyMaterial cs now s = (r, s1)" by (cases "ensureLocalPreKeyMaterial cs now s")
  show ?thesis
  proof (cases r)
    case None
    then have s1: "keys_inv {} s1" "pr_ready s1 = Some True" using ensure_keys(2) [OF r inv] by auto
    have "createPreKeyBundle cs now s = createPreKeyBundle cs now s1"
      by (simp add: createPreKeyBundle_def r None ensure_ready [OF s1(2)])
    then show ?thesis using createBundle_keys [OF s1(2,1), of now cs] by (simp add: local_inv_def)
  qed (use ensure_keys(1) [OF r inv] in \<open>simp add: createPreKeyBundle_def r\<close>)
qed

lemma session_init_local: "local_inv s \<Longrightarrow> local_inv (snd (decryptPreKeySessionInit cs now p ev si vk s))"
proof -
  assume inv: "local_inv s"
  obtain r s1 where r: "ensureLocalPreKeyMaterial cs now s = (r, s1)" by (cases "ensureLocalPreKeyMaterial cs now s")
  show ?thesis
  proof (cases "r = None \<and> \<not> jm_has (pr_ratchets s) p")
    case True
    then have s1: "keys_inv {} s1" "pr_ready s1 = Some True" using ensure_keys(2) [OF r inv] by auto
    have "decryptPreKeySessionInit cs now p ev si vk s = decryptPreKeySessionInit cs now p ev si vk s1"
      using True by (simp add: decryptPreKeySessionInit_def r ensure_ready [OF s1(2)] ensure_ratchets [OF r])
    then show ?thesis using session_init_keys [OF s1(2,1), of now cs p ev si vk] by (simp add: local_inv_def)
  qed (use inv ensure_keys(1) [OF r inv] in \<open>auto simp: decryptPreKeySessionInit_def r\<close>)
qed

lemma local_same: "same_keys s s' \<Longrightarrow> local_inv s \<Longrightarrow> local_inv s'"
  using keys_inv_same [of s s' "{}"] by (auto simp: local_inv_def same_keys_def)

lemma decrypt_local: "local_inv s \<Longrightarrow> local_inv (snd (decryptMessage cs now p ev vk s))"
  using session_init_local [of s cs now p ev] local_same [OF same_keys_ratchet_envelope, of s cs p]
  unfolding decryptMessage_def by (simp split: bool.split option.split)

lemma init_local: "local_inv s \<Longrightarrow> local_inv (snd (init_protocol cs now k s))"
proof -
  assume inv: "local_inv s"
  let ?s = "s\<lparr>pr_signing := Some k, pr_draws := Suc (pr_draws s), pr_dh := Some (generated_pair cs (pr_draws s))\<rparr>"
  have inv': "local_inv ?s" using inv by (intro local_same [of s ?s]) (simp_all add: same_keys_def)
  obtain r s1 where r: "ensureLocalPreKeyMaterial cs now ?s = (r, s1)" by (cases "ensureLocalPreKeyMaterial cs now ?s")
  have "snd (init_protocol cs now k s) = (if r = None then scheduleDHKeyPairPoolRefill s1 else s1)"
    using r by (cases r) (simp_all add: init_protocol_def draw_pair_def)
  moreover have "local_inv (scheduleDHKeyPairPoolRefill s1) \<longleftrightarrow> local_inv s1"
    by (simp add: local_inv_def keys_inv_def ids_ok_def spent_def)
  ultimately show ?thesis using ensure_keys(1) [OF r inv'] by simp
qed

text \<open>Whatever is called, the one-time keys have distinct ids below the next id.\<close>

lemma local_step: "local_inv s \<Longrightarrow> local_inv (protocol_step cs call s)"
proof -
  assume inv: "local_inv s"
  note same = local_same [OF _ inv]
  show ?thesis
  proof (cases call)
    case (CallInit now gk vk)
    then show ?thesis using init_local [OF inv] by simp
  next
    case (BackgroundTurn now)
    then show ?thesis using inv background_keys [of "{}" s cs now]
      by (auto simp: local_inv_def background_step_def split: option.splits nat.splits)
  next
    case (CallCreateBundle now)
    then show ?thesis using createBundle_local [OF inv] by simp
  next
    case (CallDecrypt now p ev vk)
    then show ?thesis using decrypt_local [OF inv] by simp
  next
    case (CallSetPersistence d)
    then show ?thesis using inv by (simp add: setPersistence_keys_def local_inv_def keys_inv_def ids_ok_def spent_def)
  next
    case (CallStoreBundle now p b)
    then show ?thesis by (intro same) (auto simp: storePeerPreKeyBundle_def same_keys_def split: option.split)
  next
    case (CallClearBundle p)
    then show ?thesis by (intro same) (simp add: clearPeerPreKeyBundle_def same_keys_def)
  next
    case (CallClearSecret p)
    then show ?thesis by (intro same) (simp add: clearSharedSecret_def same_keys_def)
  next
    case (CallClearRatchet p)
    then show ?thesis by (intro same) (simp add: clearRatchetState_def map_key_db_def same_keys_def)
  next
    case CallClearAll
    then show ?thesis by (intro same) (simp add: clearAllSecrets_def same_keys_def)
  qed (simp_all add: same same_keys_refill same_keys_handshake same_keys_process same_keys_getBundle
    same_keys_encrypt same_keys_restore)
qed

interpretation local_keys: machine "protocol_step cs" "\<lambda>call s. True" local_inv for cs
  by unfold_locales (rule local_step)

interpretation spent_keys: machine "protocol_step cs" settled "\<lambda>s. pr_ready s = Some True \<and> keys_inv D s" for cs D
  by unfold_locales (use step_keys in blast)


lemma new_protocol_local [simp]: "local_inv (new_protocol me kp)"
  by (simp add: local_inv_def new_protocol_def keys_inv_def ids_ok_def)

lemma accept_spends:
  assumes acc: "accept_session_init cs now p si r s = (None, s')" and inv: "keys_inv {} s"
    and si: "si_keyType si = OneTimeKey" "jm_has (pr_oneTime s) (si_keyId si)" and live: "unexpired now s"
  shows "keys_inv {si_keyId si} s' \<and> pr_ready s' = pr_ready s"
proof -
  let ?s = "persistState cs p (s\<lparr>pr_ratchets := jm_set p (Ready r) (pr_ratchets s)\<rparr>)"
  let ?s2 = "?s\<lparr>pr_oneTime := jm_delete (si_keyId si) (pr_oneTime ?s)\<rparr>"
  have inv2: "keys_inv {si_keyId si} ?s2" using inv si(2)
    by (auto simp: keys_inv_def ids_ok_def spent_def jm_has_delete)
  have un: "unexpired now ?s2" using live by (simp add: unexpired_def)
  obtain c s3 where pol: "applyLocalPreKeyLifecyclePolicy cs now ?s2 = Inr (c, s3)"
    using acc unfolding accept_session_init_def Let_def by (auto simp: si(1) split: sum.splits prod.splits)
  have "keys_inv {si_keyId si} s3" using policy_keys [OF pol inv2] un by simp
  moreover have "pr_ready s3 = pr_ready s" using policy_same [OF pol] by (simp add: same_sessions_def)
  moreover have "accept_session_init cs now p si r s = (None, persistLocalPreKeyState cs s3)"
    unfolding accept_session_init_def Let_def si(1) by (simp only: refl if_True pol sum.case prod.case simp_thms)
  then have "s' = persistLocalPreKeyState cs s3" using acc by simp
  ultimately show ?thesis by simp
qed

lemma accepted_spends:
  assumes ready: "pr_ready s = Some True" and inv: "keys_inv {} s" and si: "si_keyType si = OneTimeKey" and live: "unexpired now s"
    and acc: "decryptPreKeySessionInit cs now p ev si vk s = (Inr (Some plain), s')"
  shows "keys_inv {si_keyId si} s' \<and> pr_ready s' = Some True"
proof -
  obtain kp where kp: "resolveLocalPreKey (si_keyType si) (si_keyId si) s = Some kp"
    using acc by (auto simp: decryptPreKeySessionInit_def ensure_ready [OF ready] split: if_splits option.splits)
  then have has: "jm_has (pr_oneTime s) (si_keyId si)" by (auto simp: resolveLocalPreKey_def si jm_has_def)
  have "\<exists>r d. accept_session_init cs now p si r (s\<lparr>pr_draws := d\<rparr>) = (None, s')"
    using acc by (auto simp: decryptPreKeySessionInit_def ensure_ready [OF ready] draw_pair_def
        split: if_splits option.splits sum.splits prod.splits)
  then obtain r d where "accept_session_init cs now p si r (s\<lparr>pr_draws := d\<rparr>) = (None, s')" by blast
  from accept_spends [OF this] inv si has live ready show ?thesis by (simp add: unexpired_def)
qed

text \<open>
  Property C4. A one-time pre-key starts at most one session: once a session from it was accepted, and
  as long as the signed pre-key has not expired, no later session request that names the same key id is accepted,
  whoever sends it and whatever happened in between.
\<close>

theorem one_time_key_used_once:
  assumes s: "s = fold (protocol_step cs) calls (new_protocol me kp)" and ready: "pr_ready s = Some True"
    and ev: "ev_version ev = Some 3" "ev_init ev = Some si" "si_keyType si = OneTimeKey"
    and accepted: "decryptMessage cs now p ev vk s = (Inr (Some plain), s')" and live: "unexpired now s"
    and later: "covered_run (protocol_step cs) settled calls' s'"
    and again: "ev_version ev' = Some 3" "ev_init ev' = Some si'" "si_keyType si' = OneTimeKey" "si_keyId si' = si_keyId si"
  shows "\<exists>e. fst (decryptMessage cs now' q ev' vk' (fold (protocol_step cs) calls' s')) = Inl e"
proof -
  have "local_inv s" unfolding s by (rule local_keys.run_inv) (simp_all add: list_all_iff)
  then have inv: "keys_inv {} s" using ready by (simp add: local_inv_def)
  have "keys_inv {si_keyId si} s'" "pr_ready s' = Some True"
    using accepted_spends [OF ready inv ev(3) live, of cs p ev vk plain s'] accepted
    by (simp_all add: decryptMessage_def ev)
  then have "pr_ready (fold (protocol_step cs) calls' s') = Some True \<and> keys_inv {si_keyId si} (fold (protocol_step cs) calls' s')"
    by (intro spent_keys.run_inv) (simp_all add: later)
  then show ?thesis
    by (auto simp: decryptMessage_def again decryptPreKeySessionInit_def ensure_ready resolveLocalPreKey_def keys_inv_def
        spent_def jm_has_def)
qed

subsection \<open>A peer after its first \<open>init\<close>\<close>

text \<open>The keys of a peer after its first \<open>init\<close>, computed.\<close>

lemma generate_three: "generateMoreOneTimePreKeys cs now INITIAL_PRE_KEY_BATCH_SIZE s =
    add_one_time cs now (add_one_time cs now (add_one_time cs now s))"
  by (simp add: generateMoreOneTimePreKeys_def INITIAL_PRE_KEY_BATCH_SIZE_def numeral_3_eq_3)

lemma add_one_time_keys:
  "pr_oneTime (add_one_time cs now s) = jm_set (pr_nextId s) \<lparr>lk_pair = generated_pair cs (pr_draws s), lk_createdAt = now\<rparr> (pr_oneTime s)"
  "pr_nextId (add_one_time cs now s) = pr_nextId s + 1" "pr_draws (add_one_time cs now s) = Suc (pr_draws s)"
  "pr_signers (add_one_time cs now s) = pr_signers s"
  by (simp_all add: add_one_time_def draw_pair_def)

lemma schedule_draws [simp]: "pr_draws (scheduleBackgroundPreKeyGeneration n s) = pr_draws s"
  "pr_signers (scheduleBackgroundPreKeyGeneration n s) = pr_signers s"
  by (simp_all add: scheduleBackgroundPreKeyGeneration_def split: option.split)

lemma fresh_owner:
  assumes "pr_signing s = Some (gk, vk)" "generateFreshLocalPreKeys cs now s = Inr s'"
  shows "pr_signed s' = Some (new_signed_key cs now now gk (generated_pair cs (pr_draws s)))" "pr_signers s' = pr_signers s"
    "pr_nextId s' = 4" "pr_draws s' = pr_draws s + 4"
    "pr_oneTime s' = [(1, \<lparr>lk_pair = generated_pair cs (Suc (pr_draws s)), lk_createdAt = now\<rparr>),
       (2, \<lparr>lk_pair = generated_pair cs (Suc (Suc (pr_draws s))), lk_createdAt = now\<rparr>),
       (3, \<lparr>lk_pair = generated_pair cs (Suc (Suc (Suc (pr_draws s)))), lk_createdAt = now\<rparr>)]"
proof -
  have m: "min INITIAL_PRE_KEY_BATCH_SIZE targetOneTimePreKeys = INITIAL_PRE_KEY_BATCH_SIZE"
    "targetOneTimePreKeys - INITIAL_PRE_KEY_BATCH_SIZE = 17" "INITIAL_PRE_KEY_BATCH_SIZE < targetOneTimePreKeys"
    by (simp_all add: INITIAL_PRE_KEY_BATCH_SIZE_def targetOneTimePreKeys_def)
  have s': "s' = scheduleBackgroundPreKeyGeneration 17 (generateMoreOneTimePreKeys cs now INITIAL_PRE_KEY_BATCH_SIZE
      (s\<lparr>pr_draws := Suc (pr_draws s), pr_signed := Some (new_signed_key cs now now gk (generated_pair cs (pr_draws s))),
         pr_oneTime := [], pr_nextId := 1\<rparr>))"
    using assms by (simp add: generateFreshLocalPreKeys_def draw_pair_def Let_def m)
  show "pr_signed s' = Some (new_signed_key cs now now gk (generated_pair cs (pr_draws s)))" "pr_signers s' = pr_signers s"
    "pr_nextId s' = 4" "pr_draws s' = pr_draws s + 4"
    "pr_oneTime s' = [(1, \<lparr>lk_pair = generated_pair cs (Suc (pr_draws s)), lk_createdAt = now\<rparr>),
       (2, \<lparr>lk_pair = generated_pair cs (Suc (Suc (pr_draws s))), lk_createdAt = now\<rparr>),
       (3, \<lparr>lk_pair = generated_pair cs (Suc (Suc (Suc (pr_draws s)))), lk_createdAt = now\<rparr>)]"
    by (simp_all add: s' generate_three add_one_time_keys jm_set_def)
qed

lemma policy_on_fresh:
  assumes "pr_signed s = Some k" "now + signedPreKeyRefreshWindowMs < ls_expiresAt k" "applyLocalPreKeyLifecyclePolicy cs now s = Inr (c, s')"
    and three: "pr_oneTime s = [(1, \<lparr>lk_pair = a, lk_createdAt = now\<rparr>), (2, \<lparr>lk_pair = b', lk_createdAt = now\<rparr>), (3, \<lparr>lk_pair = c', lk_createdAt = now\<rparr>)]"
    and "pr_nextId s = 4"
  shows "pr_signed s' = Some k" "pr_signers s' = pr_signers s" "pr_draws s' = pr_draws s + 3"
    "jm_get (pr_oneTime s') 1 = Some \<lparr>lk_pair = a, lk_createdAt = now\<rparr>"
proof -
  have dec: "decideSignedPreKeyLifecycle now (map_option ls_expiresAt (pr_signed s)) = \<lparr>regenerateAll = False, rotateSignedPreKey = False\<rparr>"
    using assms(1,2) by (simp add: decideSignedPreKeyLifecycle_def policy_defs)
  have plan: "planLocalOneTimePreKeyLifecycle now (map (\<lambda>(i, k). (i, lk_createdAt k)) (pr_oneTime s))
      = \<lparr>staleKeyIds = [], retainedCount = 3, replenishCount = 17\<rparr>"
    by (simp add: three planLocalOneTimePreKeyLifecycle_def policy_defs)
  have "\<not> 17 \<le> INITIAL_PRE_KEY_BATCH_SIZE" by (simp add: INITIAL_PRE_KEY_BATCH_SIZE_def)
  then have s': "s' = scheduleBackgroundPreKeyGeneration (17 - INITIAL_PRE_KEY_BATCH_SIZE) (generateMoreOneTimePreKeys cs now INITIAL_PRE_KEY_BATCH_SIZE s)"
    using assms(3) by (simp add: applyLocalPreKeyLifecyclePolicy_def dec one_time_step_def plan)
  show "pr_signed s' = Some k" "pr_signers s' = pr_signers s" "pr_draws s' = pr_draws s + 3"
    "jm_get (pr_oneTime s') 1 = Some \<lparr>lk_pair = a, lk_createdAt = now\<rparr>"
    by (simp_all add: s' generate_three add_one_time_keys assms(1,5) three jm_set_def jm_get_def)
qed

lemma init_owner_keys:
  assumes s: "s = snd (init_protocol cs now (gk, vk) (new_protocol me idk))"
  shows "pr_ready s = Some True" "pr_ratchets s = []" "pr_signing s = Some (gk, vk)" "pr_signers s = []" "pr_draws s = 8"
    "jm_get (pr_oneTime s) 1 = Some \<lparr>lk_pair = generated_pair cs 2, lk_createdAt = now\<rparr>" "unexpired now s"
proof -
  let ?s0 = "(new_protocol me idk)\<lparr>pr_signing := Some (gk, vk), pr_draws := Suc 0, pr_dh := Some (generated_pair cs 0)\<rparr>"
  have s0: "pr_signing ?s0 = Some (gk, vk)" "pr_draws ?s0 = 1" "pr_ready ?s0 = None" "stored_local ?s0 = None"
    "pr_signers ?s0 = []" "pr_ratchets ?s0 = []"
    by (simp_all add: new_protocol_def stored_local_def)
  obtain s1 where s1: "generateFreshLocalPreKeys cs now ?s0 = Inr s1"
    using s0(1) by (cases "generateFreshLocalPreKeys cs now ?s0") (auto simp: generateFreshLocalPreKeys_def draw_pair_def Let_def split: if_splits)
  note f = fresh_owner [OF s0(1) s1] and g = fresh_fields [OF s1]
  obtain c s2 where s2: "applyLocalPreKeyLifecyclePolicy cs now s1 = Inr (c, s2)"
    using policy_total [of s1 cs now] g s0(1) by (auto simp: same_sessions_def)
  note h = policy_on_fresh [OF f(1) _ s2 f(5,3)] and i = policy_same [OF s2]
  have late: "now + signedPreKeyRefreshWindowMs < ls_expiresAt (new_signed_key cs now now gk (generated_pair cs (pr_draws ?s0)))"
    by (simp add: new_signed_key_def policy_defs)
  have "ensureLocalPreKeyMaterial cs now ?s0 = (None, (persistLocalPreKeyState cs s2)\<lparr>pr_ready := Some True\<rparr>)"
    by (simp add: ensureLocalPreKeyMaterial_def s0 s1 s2)
  then have s: "s = scheduleDHKeyPairPoolRefill ((persistLocalPreKeyState cs s2)\<lparr>pr_ready := Some True\<rparr>)"
    by (simp add: s init_protocol_def draw_pair_def) (simp add: new_protocol_def)
  show "pr_ready s = Some True" "pr_ratchets s = []" "pr_signing s = Some (gk, vk)"
    using g i s0 by (simp_all add: s same_sessions_def scheduleDHKeyPairPoolRefill_def)
  show "pr_signers s = []" "pr_draws s = 8" "jm_get (pr_oneTime s) 1 = Some \<lparr>lk_pair = generated_pair cs 2, lk_createdAt = now\<rparr>"
    "unexpired now s"
    using h [OF late] f s0 by (simp_all add: s scheduleDHKeyPairPoolRefill_def persistLocalPreKeyState_def map_key_db_def unexpired_def new_signed_key_def
        policy_defs numeral_2_eq_2)
qed
text \<open>The owner of the keys, the sender of a first message, and that message.\<close>

definition key_owner :: "(8 word, 8 word, 8 word, 8 word) protocol" where
  "key_owner = fold (protocol_step sample_suite) [CallInit 1000 7 7] (new_protocol ''b'' (sample_pair 200))"

lemma one_time_key_used_once_witness:
  "\<exists>ev s' e. fst (decryptMessage sample_suite 1000 ''a'' ev 3 key_owner) = Inr (Some [72, 105]) \<and>
     s' = snd (decryptMessage sample_suite 1000 ''a'' ev 3 key_owner) \<and>
     fst (decryptMessage sample_suite 2000 ''c'' ev 3 s') = Inl e"
proof -
  let ?cr = sample_crypto and ?kp = "sample_pair 2"
  have ow: "key_owner = snd (init_protocol sample_suite 1000 (7, 7) (new_protocol ''b'' (sample_pair 200)))"
    by (simp add: key_owner_def)
  note k = init_owner_keys [OF ow]
  have eph: "ecdh_bits sample_suite (privateKey ?kp) 100 = [200]"
    by (simp add: sample_suite_def webcrypto.defs sample_crypto_def sample_pair_def)
  obtain m r' where m: "decrypt ?cr (sample_pair 8) m (initBob [200] ?kp) = (Inr [72, 105], r')"
    using first_message [OF sample_sound, of "sample_pair 9" ?kp "sample_pair 8" "replicate 12 9" "[72, 105]" "[200]"]
    by (auto simp: plain_text_def surrogate_defs)
  define si where "si = \<lparr>si_bundleVersion = 1, si_keyId = 1, si_keyType = OneTimeKey,
    si_ephemeral = exportEcdhPublicKey sample_suite 100, si_createdAt = 900\<rparr>"
  define ev where "ev = \<lparr>ev_id = ''m'', ev_timestamp = 900, ev_sender = ''a'', ev_type = ''text'', ev_version = Some 3,
    ev_ratchet = Some m, ev_encrypted = None, ev_init = Some si, ev_signature = cipher_sign sample_suite [72, 105] 3, ev_metadata = None\<rparr>"
  obtain s' where s': "decryptMessage sample_suite 1000 ''a'' ev 3 key_owner = (Inr (Some [72, 105]), s')"
    using session_init_accepted [of ev si m sample_suite "[72, 105]" 3 key_owner ?kp "''a''" 100 r' 3 1000] k m eph raw_import [OF sample_suite_sound(1)]
    by (auto simp: ev_def si_def resolveLocalPreKey_def jm_has_def jm_get_def jm_get_or_def)
  obtain e where "fst (decryptMessage sample_suite 2000 ''c'' ev 3 s') = Inl e"
    using one_time_key_used_once [OF key_owner_def k(1) _ _ _ s' _ _ _ _ _ _, of si "[]" ev si 2000 "''c''" 3] k(7)
    by (auto simp: ev_def si_def)
  with s' show ?thesis by (metis fst_conv snd_conv)
qed

end
