(* ===== verification/Wordlist.thy ===== *)
theory Wordlist
  imports JsText
begin

section \<open>The word list\<close>

text \<open>
  \<open>identity/wordlist.ts\<close>: the 2048 words of a seed phrase, in the parts the file is split into here. That
  they are distinct, lower-case and without blanks is what makes a phrase readable again; it is proved by one
  pass over neighbouring words.
\<close>

definition words_1 :: "string list" where
  "words_1 =
    [''abandon'', ''ability'', ''able'', ''about'', ''above'', ''absent'', ''absorb'', ''abstract'', ''absurd'',
     ''abuse'', ''access'', ''accident'', ''account'', ''accuse'', ''achieve'', ''acid'', ''acoustic'',
     ''acquire'', ''across'', ''act'', ''action'', ''actor'', ''actress'', ''actual'', ''adapt'', ''add'',
     ''addict'', ''address'', ''adjust'', ''admit'', ''adult'', ''advance'', ''advice'', ''aerobic'',
     ''affair'', ''afford'', ''afraid'', ''again'', ''age'', ''agent'', ''agree'', ''ahead'', ''aim'', ''air'',
     ''airport'', ''aisle'', ''alarm'', ''album'', ''alcohol'', ''alert'', ''alien'', ''all'', ''alley'',
     ''allow'', ''almost'', ''alone'', ''alpha'', ''already'', ''also'', ''alter'', ''always'', ''amateur'',
     ''amazing'', ''among'', ''amount'', ''amused'', ''analyst'', ''anchor'', ''ancient'', ''anger'', ''angle'',
     ''angry'', ''animal'', ''ankle'', ''announce'', ''annual'', ''another'', ''answer'', ''antenna'',
     ''antique'', ''anxiety'', ''any'', ''apart'', ''apology'', ''appear'', ''apple'', ''approve'', ''april'',
     ''arch'', ''arctic'', ''area'', ''arena'', ''argue'', ''arm'', ''armed'', ''armor'', ''army'', ''around'',
     ''arrange'', ''arrest'', ''arrive'', ''arrow'', ''art'', ''artefact'', ''artist'', ''artwork'', ''ask'',
     ''aspect'', ''assault'', ''asset'', ''assist'', ''assume'', ''asthma'', ''athlete'', ''atom'', ''attack'',
     ''attend'', ''attitude'', ''attract'', ''auction'', ''audit'', ''august'', ''aunt'', ''author'', ''auto'',
     ''autumn'', ''average'', ''avocado'', ''avoid'', ''awake'', ''aware'', ''away'', ''awesome'', ''awful'',
     ''awkward'', ''axis'', ''baby'', ''bachelor'', ''bacon'', ''badge'', ''bag'', ''balance'', ''balcony'',
     ''ball'', ''bamboo'', ''banana'', ''banner'']"

definition words_2 :: "string list" where
  "words_2 =
    [''bar'', ''barely'', ''bargain'', ''barrel'', ''base'', ''basic'', ''basket'', ''battle'', ''beach'',
     ''bean'', ''beauty'', ''because'', ''become'', ''beef'', ''before'', ''begin'', ''behave'', ''behind'',
     ''believe'', ''below'', ''belt'', ''bench'', ''benefit'', ''best'', ''betray'', ''better'', ''between'',
     ''beyond'', ''bicycle'', ''bid'', ''bike'', ''bind'', ''biology'', ''bird'', ''birth'', ''bitter'',
     ''black'', ''blade'', ''blame'', ''blanket'', ''blast'', ''bleak'', ''bless'', ''blind'', ''blood'',
     ''blossom'', ''blouse'', ''blue'', ''blur'', ''blush'', ''board'', ''boat'', ''body'', ''boil'', ''bomb'',
     ''bone'', ''bonus'', ''book'', ''boost'', ''border'', ''boring'', ''borrow'', ''boss'', ''bottom'',
     ''bounce'', ''box'', ''boy'', ''bracket'', ''brain'', ''brand'', ''brass'', ''brave'', ''bread'',
     ''breeze'', ''brick'', ''bridge'', ''brief'', ''bright'', ''bring'', ''brisk'', ''broccoli'', ''broken'',
     ''bronze'', ''broom'', ''brother'', ''brown'', ''brush'', ''bubble'', ''buddy'', ''budget'', ''buffalo'',
     ''build'', ''bulb'', ''bulk'', ''bullet'', ''bundle'', ''bunker'', ''burden'', ''burger'', ''burst'',
     ''bus'', ''business'', ''busy'', ''butter'', ''buyer'', ''buzz'', ''cabbage'', ''cabin'', ''cable'',
     ''cactus'', ''cage'', ''cake'', ''call'', ''calm'', ''camera'', ''camp'', ''can'', ''canal'', ''cancel'',
     ''candy'', ''cannon'', ''canoe'', ''canvas'', ''canyon'', ''capable'', ''capital'', ''captain'', ''car'',
     ''carbon'', ''card'', ''cargo'', ''carpet'', ''carry'', ''cart'', ''case'', ''cash'', ''casino'',
     ''castle'', ''casual'', ''cat'', ''catalog'', ''catch'', ''category'', ''cattle'', ''caught'', ''cause'',
     ''caution'']"

definition words_3 :: "string list" where
  "words_3 =
    [''cave'', ''ceiling'', ''celery'', ''cement'', ''census'', ''century'', ''cereal'', ''certain'', ''chair'',
     ''chalk'', ''champion'', ''change'', ''chaos'', ''chapter'', ''charge'', ''chase'', ''chat'', ''cheap'',
     ''check'', ''cheese'', ''chef'', ''cherry'', ''chest'', ''chicken'', ''chief'', ''child'', ''chimney'',
     ''choice'', ''choose'', ''chronic'', ''chuckle'', ''chunk'', ''churn'', ''cigar'', ''cinnamon'',
     ''circle'', ''citizen'', ''city'', ''civil'', ''claim'', ''clap'', ''clarify'', ''claw'', ''clay'',
     ''clean'', ''clerk'', ''clever'', ''click'', ''client'', ''cliff'', ''climb'', ''clinic'', ''clip'',
     ''clock'', ''clog'', ''close'', ''cloth'', ''cloud'', ''clown'', ''club'', ''clump'', ''cluster'',
     ''clutch'', ''coach'', ''coast'', ''coconut'', ''code'', ''coffee'', ''coil'', ''coin'', ''collect'',
     ''color'', ''column'', ''combine'', ''come'', ''comfort'', ''comic'', ''common'', ''company'', ''concert'',
     ''conduct'', ''confirm'', ''congress'', ''connect'', ''consider'', ''control'', ''convince'', ''cook'',
     ''cool'', ''copper'', ''copy'', ''coral'', ''core'', ''corn'', ''correct'', ''cost'', ''cotton'',
     ''couch'', ''country'', ''couple'', ''course'', ''cousin'', ''cover'', ''coyote'', ''crack'', ''cradle'',
     ''craft'', ''cram'', ''crane'', ''crash'', ''crater'', ''crawl'', ''crazy'', ''cream'', ''credit'',
     ''creek'', ''crew'', ''cricket'', ''crime'', ''crisp'', ''critic'', ''crop'', ''cross'', ''crouch'',
     ''crowd'', ''crucial'', ''cruel'', ''cruise'', ''crumble'', ''crunch'', ''crush'', ''cry'', ''crystal'',
     ''cube'', ''culture'', ''cup'', ''cupboard'', ''curious'', ''current'', ''curtain'', ''curve'',
     ''cushion'', ''custom'', ''cute'', ''cycle'', ''dad'', ''damage'']"

definition words_4 :: "string list" where
  "words_4 =
    [''damp'', ''dance'', ''danger'', ''daring'', ''dash'', ''daughter'', ''dawn'', ''day'', ''deal'',
     ''debate'', ''debris'', ''decade'', ''december'', ''decide'', ''decline'', ''decorate'', ''decrease'',
     ''deer'', ''defense'', ''define'', ''defy'', ''degree'', ''delay'', ''deliver'', ''demand'', ''demise'',
     ''denial'', ''dentist'', ''deny'', ''depart'', ''depend'', ''deposit'', ''depth'', ''deputy'', ''derive'',
     ''describe'', ''desert'', ''design'', ''desk'', ''despair'', ''destroy'', ''detail'', ''detect'',
     ''develop'', ''device'', ''devote'', ''diagram'', ''dial'', ''diamond'', ''diary'', ''dice'', ''diesel'',
     ''diet'', ''differ'', ''digital'', ''dignity'', ''dilemma'', ''dinner'', ''dinosaur'', ''direct'',
     ''dirt'', ''disagree'', ''discover'', ''disease'', ''dish'', ''dismiss'', ''disorder'', ''display'',
     ''distance'', ''divert'', ''divide'', ''divorce'', ''dizzy'', ''doctor'', ''document'', ''dog'', ''doll'',
     ''dolphin'', ''domain'', ''donate'', ''donkey'', ''donor'', ''door'', ''dose'', ''double'', ''dove'',
     ''draft'', ''dragon'', ''drama'', ''drastic'', ''draw'', ''dream'', ''dress'', ''drift'', ''drill'',
     ''drink'', ''drip'', ''drive'', ''drop'', ''drum'', ''dry'', ''duck'', ''dumb'', ''dune'', ''during'',
     ''dust'', ''dutch'', ''duty'', ''dwarf'', ''dynamic'', ''eager'', ''eagle'', ''early'', ''earn'',
     ''earth'', ''easily'', ''east'', ''easy'', ''echo'', ''ecology'', ''economy'', ''edge'', ''edit'',
     ''educate'', ''effort'', ''egg'', ''eight'', ''either'', ''elbow'', ''elder'', ''electric'', ''elegant'',
     ''element'', ''elephant'', ''elevator'', ''elite'', ''else'', ''embark'', ''embody'', ''embrace'',
     ''emerge'', ''emotion'', ''employ'', ''empower'', ''empty'', ''enable'', ''enact'']"

definition words_5 :: "string list" where
  "words_5 =
    [''end'', ''endless'', ''endorse'', ''enemy'', ''energy'', ''enforce'', ''engage'', ''engine'', ''enhance'',
     ''enjoy'', ''enlist'', ''enough'', ''enrich'', ''enroll'', ''ensure'', ''enter'', ''entire'', ''entry'',
     ''envelope'', ''episode'', ''equal'', ''equip'', ''era'', ''erase'', ''erode'', ''erosion'', ''error'',
     ''erupt'', ''escape'', ''essay'', ''essence'', ''estate'', ''eternal'', ''ethics'', ''evidence'', ''evil'',
     ''evoke'', ''evolve'', ''exact'', ''example'', ''excess'', ''exchange'', ''excite'', ''exclude'',
     ''excuse'', ''execute'', ''exercise'', ''exhaust'', ''exhibit'', ''exile'', ''exist'', ''exit'',
     ''exotic'', ''expand'', ''expect'', ''expire'', ''explain'', ''expose'', ''express'', ''extend'',
     ''extra'', ''eye'', ''eyebrow'', ''fabric'', ''face'', ''faculty'', ''fade'', ''faint'', ''faith'',
     ''fall'', ''false'', ''fame'', ''family'', ''famous'', ''fan'', ''fancy'', ''fantasy'', ''farm'',
     ''fashion'', ''fat'', ''fatal'', ''father'', ''fatigue'', ''fault'', ''favorite'', ''feature'',
     ''february'', ''federal'', ''fee'', ''feed'', ''feel'', ''female'', ''fence'', ''festival'', ''fetch'',
     ''fever'', ''few'', ''fiber'', ''fiction'', ''field'', ''figure'', ''file'', ''film'', ''filter'',
     ''final'', ''find'', ''fine'', ''finger'', ''finish'', ''fire'', ''firm'', ''first'', ''fiscal'', ''fish'',
     ''fit'', ''fitness'', ''fix'', ''flag'', ''flame'', ''flash'', ''flat'', ''flavor'', ''flee'', ''flight'',
     ''flip'', ''float'', ''flock'', ''floor'', ''flower'', ''fluid'', ''flush'', ''fly'', ''foam'', ''focus'',
     ''fog'', ''foil'', ''fold'', ''follow'', ''food'', ''foot'', ''force'', ''forest'', ''forget'', ''fork'',
     ''fortune'', ''forum'', ''forward'']"

definition words_6 :: "string list" where
  "words_6 =
    [''fossil'', ''foster'', ''found'', ''fox'', ''fragile'', ''frame'', ''frequent'', ''fresh'', ''friend'',
     ''fringe'', ''frog'', ''front'', ''frost'', ''frown'', ''frozen'', ''fruit'', ''fuel'', ''fun'', ''funny'',
     ''furnace'', ''fury'', ''future'', ''gadget'', ''gain'', ''galaxy'', ''gallery'', ''game'', ''gap'',
     ''garage'', ''garbage'', ''garden'', ''garlic'', ''garment'', ''gas'', ''gasp'', ''gate'', ''gather'',
     ''gauge'', ''gaze'', ''general'', ''genius'', ''genre'', ''gentle'', ''genuine'', ''gesture'', ''ghost'',
     ''giant'', ''gift'', ''giggle'', ''ginger'', ''giraffe'', ''girl'', ''give'', ''glad'', ''glance'',
     ''glare'', ''glass'', ''glide'', ''glimpse'', ''globe'', ''gloom'', ''glory'', ''glove'', ''glow'',
     ''glue'', ''goat'', ''goddess'', ''gold'', ''good'', ''goose'', ''gorilla'', ''gospel'', ''gossip'',
     ''govern'', ''gown'', ''grab'', ''grace'', ''grain'', ''grant'', ''grape'', ''grass'', ''gravity'',
     ''great'', ''green'', ''grid'', ''grief'', ''grit'', ''grocery'', ''group'', ''grow'', ''grunt'',
     ''guard'', ''guess'', ''guide'', ''guilt'', ''guitar'', ''gun'', ''gym'', ''habit'', ''hair'', ''half'',
     ''hammer'', ''hamster'', ''hand'', ''happy'', ''harbor'', ''hard'', ''harsh'', ''harvest'', ''hat'',
     ''have'', ''hawk'', ''hazard'', ''head'', ''health'', ''heart'', ''heavy'', ''hedgehog'', ''height'',
     ''hello'', ''helmet'', ''help'', ''hen'', ''hero'', ''hidden'', ''high'', ''hill'', ''hint'', ''hip'',
     ''hire'', ''history'', ''hobby'', ''hockey'', ''hold'', ''hole'', ''holiday'', ''hollow'', ''home'',
     ''honey'', ''hood'', ''hope'', ''horn'', ''horror'', ''horse'', ''hospital'', ''host'', ''hotel'']"

definition words_7 :: "string list" where
  "words_7 =
    [''hour'', ''hover'', ''hub'', ''huge'', ''human'', ''humble'', ''humor'', ''hundred'', ''hungry'',
     ''hunt'', ''hurdle'', ''hurry'', ''hurt'', ''husband'', ''hybrid'', ''ice'', ''icon'', ''idea'',
     ''identify'', ''idle'', ''ignore'', ''ill'', ''illegal'', ''illness'', ''image'', ''imitate'', ''immense'',
     ''immune'', ''impact'', ''impose'', ''improve'', ''impulse'', ''inch'', ''include'', ''income'',
     ''increase'', ''index'', ''indicate'', ''indoor'', ''industry'', ''infant'', ''inflict'', ''inform'',
     ''inhale'', ''inherit'', ''initial'', ''inject'', ''injury'', ''inmate'', ''inner'', ''innocent'',
     ''input'', ''inquiry'', ''insane'', ''insect'', ''inside'', ''inspire'', ''install'', ''intact'',
     ''interest'', ''into'', ''invest'', ''invite'', ''involve'', ''iron'', ''island'', ''isolate'', ''issue'',
     ''item'', ''ivory'', ''jacket'', ''jaguar'', ''jar'', ''jazz'', ''jealous'', ''jeans'', ''jelly'',
     ''jewel'', ''job'', ''join'', ''joke'', ''journey'', ''joy'', ''judge'', ''juice'', ''jump'', ''jungle'',
     ''junior'', ''junk'', ''just'', ''kangaroo'', ''keen'', ''keep'', ''ketchup'', ''key'', ''kick'', ''kid'',
     ''kidney'', ''kind'', ''kingdom'', ''kiss'', ''kit'', ''kitchen'', ''kite'', ''kitten'', ''kiwi'',
     ''knee'', ''knife'', ''knock'', ''know'', ''lab'', ''label'', ''labor'', ''ladder'', ''lady'', ''lake'',
     ''lamp'', ''language'', ''laptop'', ''large'', ''later'', ''latin'', ''laugh'', ''laundry'', ''lava'',
     ''law'', ''lawn'', ''lawsuit'', ''layer'', ''lazy'', ''leader'', ''leaf'', ''learn'', ''leave'',
     ''lecture'', ''left'', ''leg'', ''legal'', ''legend'', ''leisure'', ''lemon'', ''lend'', ''length'',
     ''lens'', ''leopard'', ''lesson'', ''letter'']"

definition words_8 :: "string list" where
  "words_8 =
    [''level'', ''liar'', ''liberty'', ''library'', ''license'', ''life'', ''lift'', ''light'', ''like'',
     ''limb'', ''limit'', ''link'', ''lion'', ''liquid'', ''list'', ''little'', ''live'', ''lizard'', ''load'',
     ''loan'', ''lobster'', ''local'', ''lock'', ''logic'', ''lonely'', ''long'', ''loop'', ''lottery'',
     ''loud'', ''lounge'', ''love'', ''loyal'', ''lucky'', ''luggage'', ''lumber'', ''lunar'', ''lunch'',
     ''luxury'', ''lyrics'', ''machine'', ''mad'', ''magic'', ''magnet'', ''maid'', ''mail'', ''main'',
     ''major'', ''make'', ''mammal'', ''man'', ''manage'', ''mandate'', ''mango'', ''mansion'', ''manual'',
     ''maple'', ''marble'', ''march'', ''margin'', ''marine'', ''market'', ''marriage'', ''mask'', ''mass'',
     ''master'', ''match'', ''material'', ''math'', ''matrix'', ''matter'', ''maximum'', ''maze'', ''meadow'',
     ''mean'', ''measure'', ''meat'', ''mechanic'', ''medal'', ''media'', ''melody'', ''melt'', ''member'',
     ''memory'', ''mention'', ''menu'', ''mercy'', ''merge'', ''merit'', ''merry'', ''mesh'', ''message'',
     ''metal'', ''method'', ''middle'', ''midnight'', ''milk'', ''million'', ''mimic'', ''mind'', ''minimum'',
     ''minor'', ''minute'', ''miracle'', ''mirror'', ''misery'', ''miss'', ''mistake'', ''mix'', ''mixed'',
     ''mixture'', ''mobile'', ''model'', ''modify'', ''mom'', ''moment'', ''monitor'', ''monkey'', ''monster'',
     ''month'', ''moon'', ''moral'', ''more'', ''morning'', ''mosquito'', ''mother'', ''motion'', ''motor'',
     ''mountain'', ''mouse'', ''move'', ''movie'', ''much'', ''muffin'', ''mule'', ''multiply'', ''muscle'',
     ''museum'', ''mushroom'', ''music'', ''must'', ''mutual'', ''myself'', ''mystery'', ''myth'', ''naive'',
     ''name'', ''napkin'']"

definition words_9 :: "string list" where
  "words_9 =
    [''narrow'', ''nasty'', ''nation'', ''nature'', ''near'', ''neck'', ''need'', ''negative'', ''neglect'',
     ''neither'', ''nephew'', ''nerve'', ''nest'', ''net'', ''network'', ''neutral'', ''never'', ''news'',
     ''next'', ''nice'', ''night'', ''noble'', ''noise'', ''nominee'', ''noodle'', ''normal'', ''north'',
     ''nose'', ''notable'', ''note'', ''nothing'', ''notice'', ''novel'', ''now'', ''nuclear'', ''number'',
     ''nurse'', ''nut'', ''oak'', ''obey'', ''object'', ''oblige'', ''obscure'', ''observe'', ''obtain'',
     ''obvious'', ''occur'', ''ocean'', ''october'', ''odor'', ''off'', ''offer'', ''office'', ''often'',
     ''oil'', ''okay'', ''old'', ''olive'', ''olympic'', ''omit'', ''once'', ''one'', ''onion'', ''online'',
     ''only'', ''open'', ''opera'', ''opinion'', ''oppose'', ''option'', ''orange'', ''orbit'', ''orchard'',
     ''order'', ''ordinary'', ''organ'', ''orient'', ''original'', ''orphan'', ''ostrich'', ''other'',
     ''outdoor'', ''outer'', ''output'', ''outside'', ''oval'', ''oven'', ''over'', ''own'', ''owner'',
     ''oxygen'', ''oyster'', ''ozone'', ''pact'', ''paddle'', ''page'', ''pair'', ''palace'', ''palm'',
     ''panda'', ''panel'', ''panic'', ''panther'', ''paper'', ''parade'', ''parent'', ''park'', ''parrot'',
     ''party'', ''pass'', ''patch'', ''path'', ''patient'', ''patrol'', ''pattern'', ''pause'', ''pave'',
     ''payment'', ''peace'', ''peanut'', ''pear'', ''peasant'', ''pelican'', ''pen'', ''penalty'', ''pencil'',
     ''people'', ''pepper'', ''perfect'', ''permit'', ''person'', ''pet'', ''phone'', ''photo'', ''phrase'',
     ''physical'', ''piano'', ''picnic'', ''picture'', ''piece'', ''pig'', ''pigeon'', ''pill'', ''pilot'',
     ''pink'', ''pioneer'', ''pipe'']"

definition words_10 :: "string list" where
  "words_10 =
    [''pistol'', ''pitch'', ''pizza'', ''place'', ''planet'', ''plastic'', ''plate'', ''play'', ''please'',
     ''pledge'', ''pluck'', ''plug'', ''plunge'', ''poem'', ''poet'', ''point'', ''polar'', ''pole'',
     ''police'', ''pond'', ''pony'', ''pool'', ''popular'', ''portion'', ''position'', ''possible'', ''post'',
     ''potato'', ''pottery'', ''poverty'', ''powder'', ''power'', ''practice'', ''praise'', ''predict'',
     ''prefer'', ''prepare'', ''present'', ''pretty'', ''prevent'', ''price'', ''pride'', ''primary'',
     ''print'', ''priority'', ''prison'', ''private'', ''prize'', ''problem'', ''process'', ''produce'',
     ''profit'', ''program'', ''project'', ''promote'', ''proof'', ''property'', ''prosper'', ''protect'',
     ''proud'', ''provide'', ''public'', ''pudding'', ''pull'', ''pulp'', ''pulse'', ''pumpkin'', ''punch'',
     ''pupil'', ''puppy'', ''purchase'', ''purity'', ''purpose'', ''purse'', ''push'', ''put'', ''puzzle'',
     ''pyramid'', ''quality'', ''quantum'', ''quarter'', ''question'', ''quick'', ''quit'', ''quiz'', ''quote'',
     ''rabbit'', ''raccoon'', ''race'', ''rack'', ''radar'', ''radio'', ''rail'', ''rain'', ''raise'',
     ''rally'', ''ramp'', ''ranch'', ''random'', ''range'', ''rapid'', ''rare'', ''rate'', ''rather'',
     ''raven'', ''raw'', ''razor'', ''ready'', ''real'', ''reason'', ''rebel'', ''rebuild'', ''recall'',
     ''receive'', ''recipe'', ''record'', ''recycle'', ''reduce'', ''reflect'', ''reform'', ''refuse'',
     ''region'', ''regret'', ''regular'', ''reject'', ''relax'', ''release'', ''relief'', ''rely'', ''remain'',
     ''remember'', ''remind'', ''remove'', ''render'', ''renew'', ''rent'', ''reopen'', ''repair'', ''repeat'',
     ''replace'', ''report'', ''require'', ''rescue'', ''resemble'', ''resist'', ''resource'', ''response'']"

definition words_11 :: "string list" where
  "words_11 =
    [''result'', ''retire'', ''retreat'', ''return'', ''reunion'', ''reveal'', ''review'', ''reward'',
     ''rhythm'', ''rib'', ''ribbon'', ''rice'', ''rich'', ''ride'', ''ridge'', ''rifle'', ''right'', ''rigid'',
     ''ring'', ''riot'', ''ripple'', ''risk'', ''ritual'', ''rival'', ''river'', ''road'', ''roast'', ''robot'',
     ''robust'', ''rocket'', ''romance'', ''roof'', ''rookie'', ''room'', ''rose'', ''rotate'', ''rough'',
     ''round'', ''route'', ''royal'', ''rubber'', ''rude'', ''rug'', ''rule'', ''run'', ''runway'', ''rural'',
     ''sad'', ''saddle'', ''sadness'', ''safe'', ''sail'', ''salad'', ''salmon'', ''salon'', ''salt'',
     ''salute'', ''same'', ''sample'', ''sand'', ''satisfy'', ''satoshi'', ''sauce'', ''sausage'', ''save'',
     ''say'', ''scale'', ''scan'', ''scare'', ''scatter'', ''scene'', ''scheme'', ''school'', ''science'',
     ''scissors'', ''scorpion'', ''scout'', ''scrap'', ''screen'', ''script'', ''scrub'', ''sea'', ''search'',
     ''season'', ''seat'', ''second'', ''secret'', ''section'', ''security'', ''seed'', ''seek'', ''segment'',
     ''select'', ''sell'', ''seminar'', ''senior'', ''sense'', ''sentence'', ''series'', ''service'',
     ''session'', ''settle'', ''setup'', ''seven'', ''shadow'', ''shaft'', ''shallow'', ''share'', ''shed'',
     ''shell'', ''sheriff'', ''shield'', ''shift'', ''shine'', ''ship'', ''shiver'', ''shock'', ''shoe'',
     ''shoot'', ''shop'', ''short'', ''shoulder'', ''shove'', ''shrimp'', ''shrug'', ''shuffle'', ''shy'',
     ''sibling'', ''sick'', ''side'', ''siege'', ''sight'', ''sign'', ''silent'', ''silk'', ''silly'',
     ''silver'', ''similar'', ''simple'', ''since'', ''sing'', ''siren'', ''sister'', ''situate'', ''six'',
     ''size'', ''skate'']"

definition words_12 :: "string list" where
  "words_12 =
    [''sketch'', ''ski'', ''skill'', ''skin'', ''skirt'', ''skull'', ''slab'', ''slam'', ''sleep'', ''slender'',
     ''slice'', ''slide'', ''slight'', ''slim'', ''slogan'', ''slot'', ''slow'', ''slush'', ''small'',
     ''smart'', ''smile'', ''smoke'', ''smooth'', ''snack'', ''snake'', ''snap'', ''sniff'', ''snow'', ''soap'',
     ''soccer'', ''social'', ''sock'', ''soda'', ''soft'', ''solar'', ''soldier'', ''solid'', ''solution'',
     ''solve'', ''someone'', ''song'', ''soon'', ''sorry'', ''sort'', ''soul'', ''sound'', ''soup'', ''source'',
     ''south'', ''space'', ''spare'', ''spatial'', ''spawn'', ''speak'', ''special'', ''speed'', ''spell'',
     ''spend'', ''sphere'', ''spice'', ''spider'', ''spike'', ''spin'', ''spirit'', ''split'', ''spoil'',
     ''sponsor'', ''spoon'', ''sport'', ''spot'', ''spray'', ''spread'', ''spring'', ''spy'', ''square'',
     ''squeeze'', ''squirrel'', ''stable'', ''stadium'', ''staff'', ''stage'', ''stairs'', ''stamp'', ''stand'',
     ''start'', ''state'', ''stay'', ''steak'', ''steel'', ''stem'', ''step'', ''stereo'', ''stick'', ''still'',
     ''sting'', ''stock'', ''stomach'', ''stone'', ''stool'', ''story'', ''stove'', ''strategy'', ''street'',
     ''strike'', ''strong'', ''struggle'', ''student'', ''stuff'', ''stumble'', ''style'', ''subject'',
     ''submit'', ''subway'', ''success'', ''such'', ''sudden'', ''suffer'', ''sugar'', ''suggest'', ''suit'',
     ''summer'', ''sun'', ''sunny'', ''sunset'', ''super'', ''supply'', ''supreme'', ''sure'', ''surface'',
     ''surge'', ''surprise'', ''surround'', ''survey'', ''suspect'', ''sustain'', ''swallow'', ''swamp'',
     ''swap'', ''swarm'', ''swear'', ''sweet'', ''swift'', ''swim'', ''swing'', ''switch'', ''sword'',
     ''symbol'']"

definition words_13 :: "string list" where
  "words_13 =
    [''symptom'', ''syrup'', ''system'', ''table'', ''tackle'', ''tag'', ''tail'', ''talent'', ''talk'',
     ''tank'', ''tape'', ''target'', ''task'', ''taste'', ''tattoo'', ''taxi'', ''teach'', ''team'', ''tell'',
     ''ten'', ''tenant'', ''tennis'', ''tent'', ''term'', ''test'', ''text'', ''thank'', ''that'', ''theme'',
     ''then'', ''theory'', ''there'', ''they'', ''thing'', ''this'', ''thought'', ''three'', ''thrive'',
     ''throw'', ''thumb'', ''thunder'', ''ticket'', ''tide'', ''tiger'', ''tilt'', ''timber'', ''time'',
     ''tiny'', ''tip'', ''tired'', ''tissue'', ''title'', ''toast'', ''tobacco'', ''today'', ''toddler'',
     ''toe'', ''together'', ''toilet'', ''token'', ''tomato'', ''tomorrow'', ''tone'', ''tongue'', ''tonight'',
     ''tool'', ''tooth'', ''top'', ''topic'', ''topple'', ''torch'', ''tornado'', ''tortoise'', ''toss'',
     ''total'', ''tourist'', ''toward'', ''tower'', ''town'', ''toy'', ''track'', ''trade'', ''traffic'',
     ''tragic'', ''train'', ''transfer'', ''trap'', ''trash'', ''travel'', ''tray'', ''treat'', ''tree'',
     ''trend'', ''trial'', ''tribe'', ''trick'', ''trigger'', ''trim'', ''trip'', ''trophy'', ''trouble'',
     ''truck'', ''true'', ''truly'', ''trumpet'', ''trust'', ''truth'', ''try'', ''tube'', ''tuition'',
     ''tumble'', ''tuna'', ''tunnel'', ''turkey'', ''turn'', ''turtle'', ''twelve'', ''twenty'', ''twice'',
     ''twin'', ''twist'', ''two'', ''type'', ''typical'', ''ugly'', ''umbrella'', ''unable'', ''unaware'',
     ''uncle'', ''uncover'', ''under'', ''undo'', ''unfair'', ''unfold'', ''unhappy'', ''uniform'', ''unique'',
     ''unit'', ''universe'', ''unknown'', ''unlock'', ''until'', ''unusual'', ''unveil'', ''update'',
     ''upgrade'', ''uphold'']"

definition words_14 :: "string list" where
  "words_14 =
    [''upon'', ''upper'', ''upset'', ''urban'', ''urge'', ''usage'', ''use'', ''used'', ''useful'', ''useless'',
     ''usual'', ''utility'', ''vacant'', ''vacuum'', ''vague'', ''valid'', ''valley'', ''valve'', ''van'',
     ''vanish'', ''vapor'', ''various'', ''vast'', ''vault'', ''vehicle'', ''velvet'', ''vendor'', ''venture'',
     ''venue'', ''verb'', ''verify'', ''version'', ''very'', ''vessel'', ''veteran'', ''viable'', ''vibrant'',
     ''vicious'', ''victory'', ''video'', ''view'', ''village'', ''vintage'', ''violin'', ''virtual'',
     ''virus'', ''visa'', ''visit'', ''visual'', ''vital'', ''vivid'', ''vocal'', ''voice'', ''void'',
     ''volcano'', ''volume'', ''vote'', ''voyage'', ''wage'', ''wagon'', ''wait'', ''walk'', ''wall'',
     ''walnut'', ''want'', ''warfare'', ''warm'', ''warrior'', ''wash'', ''wasp'', ''waste'', ''water'',
     ''wave'', ''way'', ''wealth'', ''weapon'', ''wear'', ''weasel'', ''weather'', ''web'', ''wedding'',
     ''weekend'', ''weird'', ''welcome'', ''west'', ''wet'', ''whale'', ''what'', ''wheat'', ''wheel'',
     ''when'', ''where'', ''whip'', ''whisper'', ''wide'', ''width'', ''wife'', ''wild'', ''will'', ''win'',
     ''window'', ''wine'', ''wing'', ''wink'', ''winner'', ''winter'', ''wire'', ''wisdom'', ''wise'', ''wish'',
     ''witness'', ''wolf'', ''woman'', ''wonder'', ''wood'', ''wool'', ''word'', ''work'', ''world'', ''worry'',
     ''worth'', ''wrap'', ''wreck'', ''wrestle'', ''wrist'', ''write'', ''wrong'', ''yard'', ''year'',
     ''yellow'', ''you'', ''young'', ''youth'', ''zebra'', ''zero'', ''zone'', ''zoo'']"

definition WORDLIST :: "string list" where
  "WORDLIST = words_1 @ words_2 @ words_3 @ words_4 @ words_5 @ words_6 @ words_7 @ words_8 @ words_9 @ words_10 @ words_11 @ words_12 @ words_13 @ words_14"

subsection \<open>The words are distinct\<close>

fun word_less :: "string \<Rightarrow> string \<Rightarrow> bool" where
  "word_less [] (y # ys) = True"
| "word_less (x # xs) (y # ys) = (if x = y then word_less xs ys else (of_char x :: nat) < of_char y)"
| "word_less _ [] = False"

lemma word_less_iff: "word_less v w \<longleftrightarrow> v < w"
  by (induction v w rule: word_less.induct) (auto simp: less_char_def)

fun ascending :: "string list \<Rightarrow> bool" where
  "ascending (v # w # ws) = (word_less v w \<and> ascending (w # ws))"
| "ascending _ = True"

lemma ascending_sorted: "ascending ws \<longleftrightarrow> sorted_wrt (<) ws"
  by (induction ws rule: ascending.induct) (auto simp: word_less_iff intro: less_trans)

lemma ascending_append:
  "ascending vs \<Longrightarrow> ascending ws \<Longrightarrow> vs \<noteq> [] \<Longrightarrow> ws \<noteq> [] \<Longrightarrow> word_less (last vs) (hd ws) \<Longrightarrow> ascending (vs @ ws)"
proof (induction vs)
  case (Cons v vs)
  then show ?case by (cases vs; cases ws) simp_all
qed simp

text \<open>The words are made of characters from 0x60 to 0x7F, where the letters from a to z are.\<close>

fun low_letter :: "char \<Rightarrow> bool" where
  "low_letter (Char b0 b1 b2 b3 b4 b5 b6 b7) \<longleftrightarrow> b5 \<and> b6 \<and> \<not> b7"

definition plain_word :: "string \<Rightarrow> bool" where
  "plain_word w \<longleftrightarrow> w \<noteq> [] \<and> list_all low_letter w"

lemma low_letter_range: "low_letter c \<Longrightarrow> 96 \<le> (of_char c :: nat) \<and> of_char c < (128 :: nat)"
  by (cases c) (auto simp: of_char_Char)

lemma words_1_ok: "ascending words_1" "list_all plain_word words_1"
  by (simp_all add: words_1_def plain_word_def)

lemma words_2_ok: "ascending words_2" "list_all plain_word words_2"
  by (simp_all add: words_2_def plain_word_def)

lemma words_3_ok: "ascending words_3" "list_all plain_word words_3"
  by (simp_all add: words_3_def plain_word_def)

lemma words_4_ok: "ascending words_4" "list_all plain_word words_4"
  by (simp_all add: words_4_def plain_word_def)

lemma words_5_ok: "ascending words_5" "list_all plain_word words_5"
  by (simp_all add: words_5_def plain_word_def)

lemma words_6_ok: "ascending words_6" "list_all plain_word words_6"
  by (simp_all add: words_6_def plain_word_def)

lemma words_7_ok: "ascending words_7" "list_all plain_word words_7"
  by (simp_all add: words_7_def plain_word_def)

lemma words_8_ok: "ascending words_8" "list_all plain_word words_8"
  by (simp_all add: words_8_def plain_word_def)

lemma words_9_ok: "ascending words_9" "list_all plain_word words_9"
  by (simp_all add: words_9_def plain_word_def)

lemma words_10_ok: "ascending words_10" "list_all plain_word words_10"
  by (simp_all add: words_10_def plain_word_def)

lemma words_11_ok: "ascending words_11" "list_all plain_word words_11"
  by (simp_all add: words_11_def plain_word_def)

lemma words_12_ok: "ascending words_12" "list_all plain_word words_12"
  by (simp_all add: words_12_def plain_word_def)

lemma words_13_ok: "ascending words_13" "list_all plain_word words_13"
  by (simp_all add: words_13_def plain_word_def)

lemma words_14_ok: "ascending words_14" "list_all plain_word words_14"
  by (simp_all add: words_14_def plain_word_def)

text \<open>Length, first and last word of each part.\<close>

lemma words_1_ends: "words_1 \<noteq> []" "hd words_1 = ''abandon''" "last words_1 = ''banner''" "length words_1 = 147"
  by (simp_all only: words_1_def list.distinct list.sel last.simps list.size if_False if_True simp_thms)

lemma words_2_ends: "words_2 \<noteq> []" "hd words_2 = ''bar''" "last words_2 = ''caution''" "length words_2 = 147"
  by (simp_all only: words_2_def list.distinct list.sel last.simps list.size if_False if_True simp_thms)

lemma words_3_ends: "words_3 \<noteq> []" "hd words_3 = ''cave''" "last words_3 = ''damage''" "length words_3 = 147"
  by (simp_all only: words_3_def list.distinct list.sel last.simps list.size if_False if_True simp_thms)

lemma words_4_ends: "words_4 \<noteq> []" "hd words_4 = ''damp''" "last words_4 = ''enact''" "length words_4 = 147"
  by (simp_all only: words_4_def list.distinct list.sel last.simps list.size if_False if_True simp_thms)

lemma words_5_ends: "words_5 \<noteq> []" "hd words_5 = ''end''" "last words_5 = ''forward''" "length words_5 = 147"
  by (simp_all only: words_5_def list.distinct list.sel last.simps list.size if_False if_True simp_thms)

lemma words_6_ends: "words_6 \<noteq> []" "hd words_6 = ''fossil''" "last words_6 = ''hotel''" "length words_6 = 147"
  by (simp_all only: words_6_def list.distinct list.sel last.simps list.size if_False if_True simp_thms)

lemma words_7_ends: "words_7 \<noteq> []" "hd words_7 = ''hour''" "last words_7 = ''letter''" "length words_7 = 147"
  by (simp_all only: words_7_def list.distinct list.sel last.simps list.size if_False if_True simp_thms)

lemma words_8_ends: "words_8 \<noteq> []" "hd words_8 = ''level''" "last words_8 = ''napkin''" "length words_8 = 147"
  by (simp_all only: words_8_def list.distinct list.sel last.simps list.size if_False if_True simp_thms)

lemma words_9_ends: "words_9 \<noteq> []" "hd words_9 = ''narrow''" "last words_9 = ''pipe''" "length words_9 = 147"
  by (simp_all only: words_9_def list.distinct list.sel last.simps list.size if_False if_True simp_thms)

lemma words_10_ends: "words_10 \<noteq> []" "hd words_10 = ''pistol''" "last words_10 = ''response''" "length words_10 = 147"
  by (simp_all only: words_10_def list.distinct list.sel last.simps list.size if_False if_True simp_thms)

lemma words_11_ends: "words_11 \<noteq> []" "hd words_11 = ''result''" "last words_11 = ''skate''" "length words_11 = 147"
  by (simp_all only: words_11_def list.distinct list.sel last.simps list.size if_False if_True simp_thms)

lemma words_12_ends: "words_12 \<noteq> []" "hd words_12 = ''sketch''" "last words_12 = ''symbol''" "length words_12 = 147"
  by (simp_all only: words_12_def list.distinct list.sel last.simps list.size if_False if_True simp_thms)

lemma words_13_ends: "words_13 \<noteq> []" "hd words_13 = ''symptom''" "last words_13 = ''uphold''" "length words_13 = 147"
  by (simp_all only: words_13_def list.distinct list.sel last.simps list.size if_False if_True simp_thms)

lemma words_14_ends: "words_14 \<noteq> []" "hd words_14 = ''upon''" "last words_14 = ''zoo''" "length words_14 = 137"
  by (simp_all only: words_14_def list.distinct list.sel last.simps list.size if_False if_True simp_thms)

lemmas words_ends = words_1_ends words_2_ends words_3_ends words_4_ends words_5_ends words_6_ends words_7_ends words_8_ends words_9_ends words_10_ends words_11_ends words_12_ends words_13_ends words_14_ends

lemma WORDLIST_ascending: "ascending WORDLIST"
  unfolding WORDLIST_def by (simp add: ascending_append words_1_ok words_2_ok words_3_ok words_4_ok words_5_ok words_6_ok words_7_ok words_8_ok words_9_ok words_10_ok words_11_ok words_12_ok words_13_ok words_14_ok words_ends)

lemma WORDLIST_distinct: "distinct WORDLIST"
  using WORDLIST_ascending by (simp add: ascending_sorted strict_sorted_iff)

lemma WORDLIST_length: "length WORDLIST = 2048"
  by (simp add: WORDLIST_def words_ends)

lemma WORDLIST_plain: "w \<in> set WORDLIST \<Longrightarrow> plain_word w"
  using words_1_ok words_2_ok words_3_ok words_4_ok words_5_ok words_6_ok words_7_ok words_8_ok words_9_ok words_10_ok words_11_ok words_12_ok words_13_ok words_14_ok unfolding WORDLIST_def by (auto simp: list_all_iff)

end
