(* ===== verification/SeedPhrase.thy ===== *)
theory SeedPhrase
  imports Wordlist PeerCrypto HashChain
begin

section \<open>Seed phrases\<close>

unbundle bit_operations_syntax

text \<open>
  \<open>identity/SeedPhrase.ts\<close> and \<open>identity/HDKeyDerivation.ts\<close>: the twelve words of a 128-bit entropy with a
  4-bit checksum, reading and validating them, and the keys derived from them. PBKDF2, HKDF, HMAC, SHA-256, the
  import of a JSON web key, the export as SPKI and the point multiplication of the library \<open>@noble/curves\<close> are
  fields of \<open>derivation\<close>. Bit strings are lists of booleans.
\<close>

subsection \<open>Bits\<close>

text \<open>\<open>n.toString(2).padStart(k, '0')\<close> for \<open>n < 2 ^ k\<close>, and \<open>parseInt(_, 2)\<close>.\<close>

fun nat_bits :: "nat \<Rightarrow> nat \<Rightarrow> bool list" where
  "nat_bits 0 n = []"
| "nat_bits (Suc k) n = nat_bits k (n div 2) @ [odd n]"

definition bits_nat :: "bool list \<Rightarrow> nat" where
  "bits_nat bs = foldl (\<lambda>n b. 2 * n + of_bool b) 0 bs"

definition slice_bits :: "bool list \<Rightarrow> nat \<Rightarrow> nat \<Rightarrow> bool list" where
  "slice_bits bs start len = take len (drop start bs)"

subsection \<open>Words and entropy\<close>

fun expand_hash :: "nat \<Rightarrow> nat \<Rightarrow> 32 word \<Rightarrow> bytes" where
  "expand_hash 0 i h = []"
| "expand_hash (Suc k) i h = (let h' = (h * 0x01000193) XOR of_nat i in ucast h' # expand_hash k (Suc i) h')"

definition checksumSync :: "bytes \<Rightarrow> bytes" where
  "checksumSync bs = expand_hash 32 0 (foldl (\<lambda>h b. (h XOR ucast b) * 0x01000193) 0x811c9dc5 bs)"

definition entropyToMnemonic :: "bytes \<Rightarrow> string" where
  "entropyToMnemonic e =
     (let checksum = unat (hd (checksumSync e)) div 16;
          bits = concat (map (\<lambda>b. nat_bits 8 (unat b)) e) @ nat_bits 4 checksum
      in join_with '' '' (map (\<lambda>i. WORDLIST ! bits_nat (slice_bits bits (i * 11) 11)) [0..<12]))"

definition phrase_words :: "string \<Rightarrow> string list" where
  "phrase_words m = split_blanks (js_lower (js_trim m))"

fun word_bits :: "string list \<Rightarrow> bool list option" where
  "word_bits [] = Some []"
| "word_bits (w # ws) =
     (case index_of w WORDLIST of
        None \<Rightarrow> None
      | Some i \<Rightarrow> map_option (\<lambda>bs. nat_bits 11 i @ bs) (word_bits ws))"

definition mnemonicToEntropy :: "string \<Rightarrow> bytes option" where
  "mnemonicToEntropy m =
     map_option (\<lambda>bits. map (\<lambda>i. of_nat (bits_nat (slice_bits (take 128 bits) (i * 8) 8))) [0..<16])
       (word_bits (phrase_words m))"

text \<open>\<open>None\<close>: valid. The error is the field \<open>error\<close> of the result.\<close>

definition validate :: "string \<Rightarrow> string option" where
  "validate m =
     (let ws = phrase_words m
      in if length ws \<noteq> 12 then Some (''Expected 12 words, got '' @ show_nat (length ws))
         else case find (\<lambda>i. index_of (ws ! i) WORDLIST = None) [0..<length ws] of
                Some i \<Rightarrow> Some (''Unknown word at position '' @ show_nat (i + 1) @ '': \"'' @ ws ! i @ ''\"'')
              | None \<Rightarrow>
                  (case mnemonicToEntropy m of
                     None \<Rightarrow> Some ''Invalid checksum''
                   | Some e \<Rightarrow> if entropyToMnemonic e \<noteq> join_with '' '' ws then Some ''Invalid checksum'' else None))"

subsection \<open>Keys\<close>

datatype key_use = UseECDH | UseECDSA

text \<open>A JSON web key of the curve P-256; \<open>kty\<close>, \<open>crv\<close> and \<open>ext\<close> are constant.\<close>

record ec_jwk =
  jwk_x :: string
  jwk_y :: string
  jwk_d :: "string option"

record 'key derivation =
  pbkdf2 :: "string \<Rightarrow> bytes \<Rightarrow> nat \<Rightarrow> bytes \<Rightarrow> nat \<Rightarrow> bytes"
  hkdf_sha256 :: "bytes \<Rightarrow> bytes \<Rightarrow> bytes \<Rightarrow> nat \<Rightarrow> bytes"
  hmac_sha512 :: "bytes \<Rightarrow> bytes \<Rightarrow> bytes"
  sha256_bytes :: "bytes \<Rightarrow> bytes"
  p256_point :: "bytes \<Rightarrow> bytes option"
  import_ec :: "key_use \<Rightarrow> ec_jwk \<Rightarrow> 'key option"
  export_spki :: "'key \<Rightarrow> bytes"

record 'key derived_keys =
  ecdhKeyPair :: "('key, 'key) key_pair"
  ecdsaKeyPair :: "('key, 'key) key_pair"
  masterSeed :: bytes

record 'key hd_keys =
  hd_ecdh :: "('key, 'key) key_pair"
  hd_ecdsa :: "('key, 'key) key_pair"
  hd_path :: string

definition utf8 :: "string \<Rightarrow> bytes" where
  "utf8 s = encode_text (map of_char s)"

text \<open>Base64 for URLs, without padding.\<close>

definition url_char :: "char \<Rightarrow> char" where
  "url_char c = (if c = CHR ''+'' then CHR ''-'' else if c = CHR ''/'' then CHR ''_'' else c)"

definition bytesToBase64Url :: "bytes \<Rightarrow> string" where
  "bytesToBase64Url bs = rev (dropWhile (\<lambda>c. c = CHR ''='') (rev (map url_char (arrayBufferToBase64 bs))))"

definition importP256PrivateKey :: "'key derivation \<Rightarrow> bytes \<Rightarrow> key_use \<Rightarrow> ('key, 'key) key_pair option" where
  "importP256PrivateKey d sk use =
     Option.bind (p256_point d sk) (\<lambda>pub.
       let x = bytesToBase64Url (take 32 (drop 1 pub)); y = bytesToBase64Url (take 32 (drop 33 pub))
       in Option.bind (import_ec d use \<lparr>jwk_x = x, jwk_y = y, jwk_d = Some (bytesToBase64Url sk)\<rparr>) (\<lambda>priv.
          Option.bind (import_ec d use \<lparr>jwk_x = x, jwk_y = y, jwk_d = None\<rparr>) (\<lambda>pk.
          Some \<lparr>publicKey = pk, privateKey = priv\<rparr>)))"

definition clampScalar :: "bytes \<Rightarrow> bytes" where
  "clampScalar r =
     (let s = r[0 := r ! 0 AND 0x7F]
      in if list_all (\<lambda>b. b = 0) s then s[31 := 1] else s)"

definition hkdfDerive :: "'key derivation \<Rightarrow> bytes \<Rightarrow> string \<Rightarrow> bytes" where
  "hkdfDerive d ikm info = hkdf_sha256 d (replicate 32 0) (utf8 info) ikm 32"

definition deriveMasterSeed :: "'key derivation \<Rightarrow> string \<Rightarrow> bytes" where
  "deriveMasterSeed d m = pbkdf2 d ''SHA-256'' (utf8 ''decent-protocol-seed-v1'') 100000 (utf8 m) 512"

text \<open>Both pairs from one seed, with the contexts of \<open>deriveKeys\<close> or of a workspace.\<close>

definition keys_for :: "'key derivation \<Rightarrow> string \<Rightarrow> string \<Rightarrow> string \<Rightarrow> 'key derived_keys result" where
  "keys_for d m ecdhContext ecdsaContext =
     (case validate m of
        Some e \<Rightarrow> Inl (''Invalid seed phrase: '' @ e)
      | None \<Rightarrow>
          (let seed = deriveMasterSeed d m
           in case (importP256PrivateKey d (clampScalar (hkdfDerive d seed ecdhContext)) UseECDH,
                    importP256PrivateKey d (clampScalar (hkdfDerive d seed ecdsaContext)) UseECDSA) of
                (Some a, Some b) \<Rightarrow> Inr \<lparr>ecdhKeyPair = a, ecdsaKeyPair = b, masterSeed = seed\<rparr>
              | _ \<Rightarrow> Inl ''DataError''))"

definition deriveKeys :: "'key derivation \<Rightarrow> string \<Rightarrow> 'key derived_keys result" where
  "deriveKeys d m = keys_for d m ''mesh-ecdh-key-v1'' ''mesh-ecdsa-key-v1''"

definition deriveWorkspaceKeys :: "'key derivation \<Rightarrow> string \<Rightarrow> int \<Rightarrow> 'key derived_keys result" where
  "deriveWorkspaceKeys d m i =
     (if i < 0 then Inl ''Workspace index must be a non-negative integer''
      else keys_for d m (if i = 0 then ''mesh-ecdh-key-v1'' else ''decent-ecdh-key-v1/'' @ show_nat (nat i))
             (if i = 0 then ''mesh-ecdsa-key-v1'' else ''decent-ecdsa-key-v1/'' @ show_nat (nat i)))"

fun deriveMultipleWorkspaceKeys :: "'key derivation \<Rightarrow> string \<Rightarrow> int list \<Rightarrow> (int, 'key derived_keys) jsmap \<Rightarrow> (int, 'key derived_keys) jsmap result" where
  "deriveMultipleWorkspaceKeys d m [] r = Inr r"
| "deriveMultipleWorkspaceKeys d m (i # is) r =
     (case deriveWorkspaceKeys d m i of
        Inl e \<Rightarrow> Inl e
      | Inr k \<Rightarrow> deriveMultipleWorkspaceKeys d m is (jm_set i k r))"

text \<open>Identifiers: the first bytes of a digest in hexadecimal.\<close>

definition peer_id_of :: "'key derivation \<Rightarrow> 'key \<Rightarrow> string" where
  "peer_id_of d pk = hex_bytes (take 9 (sha256_bytes d (export_spki d pk)))"

definition identity_id_of :: "'key derivation \<Rightarrow> 'key \<Rightarrow> string" where
  "identity_id_of d pk = hex_bytes (take 8 (sha256_bytes d (utf8 (arrayBufferToBase64 (export_spki d pk)))))"

definition verifyPhrase :: "'key derivation \<Rightarrow> string \<Rightarrow> string \<Rightarrow> bool" where
  "verifyPhrase d m expected =
     (case deriveKeys d m of Inl e \<Rightarrow> False | Inr k \<Rightarrow> identity_id_of d (publicKey (ecdhKeyPair k)) = expected)"

definition deriveAll :: "'key derivation \<Rightarrow> string \<Rightarrow> (string \<times> 'key derived_keys) result" where
  "deriveAll d m = map_sum id (\<lambda>k. (peer_id_of d (publicKey (ecdhKeyPair k)), k)) (deriveKeys d m)"

definition derivePeerId :: "'key derivation \<Rightarrow> string \<Rightarrow> string result" where
  "derivePeerId d m = map_sum id fst (deriveAll d m)"

definition generatePhrase :: "bytes \<Rightarrow> string \<times> string" where
  "generatePhrase entropy = (entropyToMnemonic entropy, hex_bytes entropy)"

subsection \<open>The tree of keys\<close>

datatype hd_purpose = Identity | Workspace | Contact | Device

definition purpose_number :: "hd_purpose \<Rightarrow> nat" where
  "purpose_number p = (case p of Identity \<Rightarrow> 0 | Workspace \<Rightarrow> 1 | Contact \<Rightarrow> 2 | Device \<Rightarrow> 3)"

definition deriveMasterKey :: "'key derivation \<Rightarrow> bytes \<Rightarrow> bytes" where
  "deriveMasterKey d seed = pbkdf2 d ''SHA-512'' (utf8 ''decent-hd-master-v1'') 100000 seed 512"

definition deriveIntermediate :: "'key derivation \<Rightarrow> bytes \<Rightarrow> hd_purpose \<Rightarrow> bytes" where
  "deriveIntermediate d master p = hmac_sha512 d master (utf8 (''decent-hd-purpose/'' @ show_nat (purpose_number p)))"

definition deriveKeyPairAtPath :: "'key derivation \<Rightarrow> bytes \<Rightarrow> hd_purpose \<Rightarrow> nat \<Rightarrow> string \<Rightarrow> 'key hd_keys result" where
  "deriveKeyPairAtPath d master p i path =
     (let k = deriveIntermediate d master p
      in case (importP256PrivateKey d (clampScalar (hkdfDerive d k (''decent-hd-ecdh/'' @ show_nat i))) UseECDH,
               importP256PrivateKey d (clampScalar (hkdfDerive d k (''decent-hd-ecdsa/'' @ show_nat i))) UseECDSA) of
           (Some a, Some b) \<Rightarrow> Inr \<lparr>hd_ecdh = a, hd_ecdsa = b, hd_path = path\<rparr>
         | _ \<Rightarrow> Inl ''DataError'')"

definition hd_key_at :: "'key derivation \<Rightarrow> bytes \<Rightarrow> hd_purpose \<Rightarrow> string \<Rightarrow> int \<Rightarrow> 'key hd_keys result" where
  "hd_key_at d master p prefix i =
     (if i < 0 then Inl ''Derivation index must be a non-negative integer''
      else deriveKeyPairAtPath d master p (nat i) (prefix @ show_nat (nat i)))"

definition deriveIdentityKey :: "'key derivation \<Rightarrow> bytes \<Rightarrow> int \<Rightarrow> 'key hd_keys result" where
  "deriveIdentityKey d master i = hd_key_at d master Identity (''m/0'' @ CHR 0x27 # ''/identity/'') i"

definition deriveWorkspaceKey :: "'key derivation \<Rightarrow> bytes \<Rightarrow> int \<Rightarrow> 'key hd_keys result" where
  "deriveWorkspaceKey d master i = hd_key_at d master Workspace (''m/1'' @ CHR 0x27 # ''/workspace/'') i"

definition deriveContactKey :: "'key derivation \<Rightarrow> bytes \<Rightarrow> int \<Rightarrow> 'key hd_keys result" where
  "deriveContactKey d master i = hd_key_at d master Contact (''m/2'' @ CHR 0x27 # ''/contact/'') i"

definition deriveDeviceKey :: "'key derivation \<Rightarrow> bytes \<Rightarrow> int \<Rightarrow> 'key hd_keys result" where
  "deriveDeviceKey d master i = hd_key_at d master Device (''m/3'' @ CHR 0x27 # ''/device/'') i"

definition deriveHDMasterKey :: "'key derivation \<Rightarrow> string \<Rightarrow> bytes result" where
  "deriveHDMasterKey d m =
     (case validate m of
        Some e \<Rightarrow> Inl (''Invalid seed phrase: '' @ e)
      | None \<Rightarrow>
          (case mnemonicToEntropy m of
             None \<Rightarrow> Inl ''Unknown word''
           | Some e \<Rightarrow> Inr (deriveMasterKey d e)))"

definition with_master :: "'key derivation \<Rightarrow> string \<Rightarrow> (bytes \<Rightarrow> 'a result) \<Rightarrow> 'a result" where
  "with_master d m f = (case deriveHDMasterKey d m of Inl e \<Rightarrow> Inl e | Inr k \<Rightarrow> f k)"

definition deriveHDIdentityKey :: "'key derivation \<Rightarrow> string \<Rightarrow> int \<Rightarrow> 'key hd_keys result" where
  "deriveHDIdentityKey d m i = with_master d m (\<lambda>k. deriveIdentityKey d k i)"

definition deriveHDWorkspaceKey :: "'key derivation \<Rightarrow> string \<Rightarrow> int \<Rightarrow> 'key hd_keys result" where
  "deriveHDWorkspaceKey d m i = with_master d m (\<lambda>k. deriveWorkspaceKey d k i)"

definition deriveHDContactKey :: "'key derivation \<Rightarrow> string \<Rightarrow> int \<Rightarrow> 'key hd_keys result" where
  "deriveHDContactKey d m i = with_master d m (\<lambda>k. deriveContactKey d k i)"

definition deriveHDDeviceKey :: "'key derivation \<Rightarrow> string \<Rightarrow> int \<Rightarrow> 'key hd_keys result" where
  "deriveHDDeviceKey d m i = with_master d m (\<lambda>k. deriveDeviceKey d k i)"

definition deriveIdentityId :: "'key derivation \<Rightarrow> string \<Rightarrow> string result" where
  "deriveIdentityId d m = map_sum id (\<lambda>k. identity_id_of d (publicKey (hd_ecdh k))) (deriveHDIdentityKey d m 0)"

definition deriveDevicePeerId :: "'key derivation \<Rightarrow> string \<Rightarrow> int \<Rightarrow> string result" where
  "deriveDevicePeerId d m i =
     (if i < 0 then Inl ''Device index must be a non-negative integer''
      else map_sum id (\<lambda>k. peer_id_of d (publicKey (hd_ecdh k))) (deriveHDDeviceKey d m i))"

record 'key device_keys =
  dk_peerId :: string
  dk_identityId :: string
  dk_device :: "'key hd_keys"
  dk_identity :: "'key hd_keys"

definition deriveDeviceKeys :: "'key derivation \<Rightarrow> string \<Rightarrow> int \<Rightarrow> 'key device_keys result" where
  "deriveDeviceKeys d m i =
     (if i < 0 then Inl ''Device index must be a non-negative integer''
      else with_master d m (\<lambda>master.
        case deriveIdentityKey d master 0 of
          Inl e \<Rightarrow> Inl e
        | Inr idk \<Rightarrow>
            (case deriveDeviceKey d master i of
               Inl e \<Rightarrow> Inl e
             | Inr dk \<Rightarrow> Inr \<lparr>dk_peerId = peer_id_of d (publicKey (hd_ecdh dk)),
                               dk_identityId = identity_id_of d (publicKey (hd_ecdh idk)), dk_device = dk, dk_identity = idk\<rparr>)))"

subsection \<open>The round trip\<close>

lemma length_nat_bits [simp]: "length (nat_bits k n) = k"
  by (induction k arbitrary: n) simp_all

lemma bits_nat_snoc [simp]: "bits_nat [] = 0" "bits_nat (bs @ [b]) = 2 * bits_nat bs + of_bool b"
  by (simp_all add: bits_nat_def)

lemma bits_of_nat: "bits_nat (nat_bits k n) = n mod 2 ^ k"
proof (induction k arbitrary: n)
  case (Suc k)
  have "n mod 2 ^ Suc k = 2 * (n div 2 mod 2 ^ k) + of_bool (odd n)"
    by (simp add: mod_mult2_eq mod2_eq_if)
  then show ?case using Suc by simp
qed simp

lemma nat_of_bits: "nat_bits (length bs) (bits_nat bs) = bs"
  by (induction bs rule: rev_induct) simp_all

lemma bits_nat_less: "bits_nat bs < 2 ^ length bs"
  by (induction bs rule: rev_induct) auto

lemma concat_slices: "concat (map (\<lambda>i. slice_bits bs (i * k) k) [0..<n]) = take (n * k) bs"
  by (induction n) (simp_all add: slice_bits_def take_add add.commute [of k])

lemma slice_concat:
  "i < length e \<Longrightarrow> slice_bits (concat (map (\<lambda>b. nat_bits k (f b)) e) @ rest) (i * k) k = nat_bits k (f (e ! i))"
proof (induction e arbitrary: i)
  case (Cons b e)
  then show ?case by (cases i) (simp_all add: slice_bits_def)
qed simp

lemma length_concat_bits [simp]: "length (concat (map (\<lambda>b. nat_bits k (f b)) e)) = length e * k"
  by (induction e) simp_all

lemma index_of_nth: "distinct xs \<Longrightarrow> i < length xs \<Longrightarrow> index_of (xs ! i) xs = Some i"
proof (induction xs arbitrary: i)
  case (Cons x xs)
  then show ?case by (cases i) auto
qed simp

lemma index_of_word: "i < 2048 \<Longrightarrow> index_of (WORDLIST ! i) WORDLIST = Some i"
  using index_of_nth [OF WORDLIST_distinct] by (simp add: WORDLIST_length)

lemma word_bits_words:
  "list_all (\<lambda>b. length b = 11) bss \<Longrightarrow> word_bits (map (\<lambda>b. WORDLIST ! bits_nat b) bss) = Some (concat bss)"
proof (induction bss)
  case (Cons b bss)
  have "bits_nat b < 2048" using bits_nat_less [of b] Cons.prems by simp
  then show ?case using Cons nat_of_bits [of b] by (simp add: index_of_word)
qed simp

lemma plain_word_props:
  assumes "plain_word w"
  shows "w \<noteq> []" "no_space w" "js_lower w = w"
proof -
  have "\<not> js_space c \<and> lower_unit c = c" if "low_letter c" for c
    using low_letter_range [OF that] by (auto simp: js_space_def lower_unit_def)
  then show "w \<noteq> []" "no_space w" "js_lower w = w"
    using assms by (auto simp: plain_word_def no_space_def js_lower_def list_all_iff intro: map_idI)
qed

lemma phrase_words_join:
  assumes "ws \<noteq> []" "set ws \<subseteq> set WORDLIST"
  shows "phrase_words (join_with '' '' ws) = ws"
proof -
  have plain: "list_all (\<lambda>w. w \<noteq> [] \<and> no_space w) ws" "map js_lower ws = ws" "js_lower '' '' = '' ''"
    using assms(2) WORDLIST_plain plain_word_props by (auto simp: list_all_iff intro!: map_idI)
      (simp add: js_lower_def lower_unit_def)
  then show ?thesis
    using assms(1) by (simp add: phrase_words_def trim_join lower_join split_join_blanks)
qed

lemma byte_less: "unat (b :: 8 word) < 256"
proof -
  have "unat b < 2 ^ LENGTH(8)" by (rule unsigned_less)
  then show ?thesis by simp
qed

lemma byte_mod: "unat (b :: 8 word) mod 256 = unat b"
  using byte_less [of b] by simp

definition entropy_words :: "bytes \<Rightarrow> string list" where
  "entropy_words e =
     map (\<lambda>i. WORDLIST ! bits_nat (slice_bits (concat (map (\<lambda>b. nat_bits 8 (unat b)) e) @
       nat_bits 4 (unat (hd (checksumSync e)) div 16)) (i * 11) 11)) [0..<12]"

lemma entropy_slices:
  assumes "length e = 16"
  shows "list_all (\<lambda>b. length b = 11) (map (\<lambda>i. slice_bits (concat (map (\<lambda>b. nat_bits 8 (unat b)) e) @
       nat_bits 4 (unat (hd (checksumSync e)) div 16)) (i * 11) 11) [0..<12])"
  using assms by (auto simp: list_all_iff slice_bits_def)

lemma entropy_words_ok:
  assumes "length e = 16"
  shows "length (entropy_words e) = 12" "set (entropy_words e) \<subseteq> set WORDLIST"
    "word_bits (entropy_words e) = Some (concat (map (\<lambda>b. nat_bits 8 (unat b)) e) @ nat_bits 4 (unat (hd (checksumSync e)) div 16))"
proof -
  let ?bits = "concat (map (\<lambda>b. nat_bits 8 (unat b)) e) @ nat_bits 4 (unat (hd (checksumSync e)) div 16)"
  let ?bss = "map (\<lambda>i. slice_bits ?bits (i * 11) 11) [0..<12]"
  have words: "entropy_words e = map (\<lambda>b. WORDLIST ! bits_nat b) ?bss" by (simp add: entropy_words_def)
  show "length (entropy_words e) = 12" by (simp add: entropy_words_def)
  have "WORDLIST ! bits_nat b \<in> set WORDLIST" if "b \<in> set ?bss" for b
  proof -
    have "length b = 11" using entropy_slices [OF assms] that unfolding list_all_iff by blast
    then show ?thesis using bits_nat_less [of b] by (intro nth_mem) (simp add: WORDLIST_length)
  qed
  then show "set (entropy_words e) \<subseteq> set WORDLIST" unfolding words by auto
  show "word_bits (entropy_words e) = Some ?bits"
    unfolding words word_bits_words [OF entropy_slices [OF assms]] concat_slices using assms by simp
qed

lemma mnemonic_words: "entropyToMnemonic e = join_with '' '' (entropy_words e)"
  by (simp add: entropyToMnemonic_def entropy_words_def)

lemma phrase_of_entropy: "length e = 16 \<Longrightarrow> phrase_words (entropyToMnemonic e) = entropy_words e"
  using entropy_words_ok [of e] by (simp add: mnemonic_words phrase_words_join list_eq_iff_nth_eq flip: length_0_conv)

lemma entropy_of_words:
  assumes "length e = 16" "phrase_words m = entropy_words e"
  shows "mnemonicToEntropy m = Some e"
proof -
  let ?bits = "concat (map (\<lambda>b. nat_bits 8 (unat b)) e)"
  have "slice_bits ?bits (i * 8) 8 = nat_bits 8 (unat (e ! i))" if "i < 16" for i
    using slice_concat [of i e 8 unat "[]"] that assms(1) by simp
  then have "map (\<lambda>i. of_nat (bits_nat (slice_bits ?bits (i * 8) 8))) [0..<16] = e"
    using assms(1) byte_mod by (intro nth_equalityI) (simp_all add: bits_of_nat)
  then show ?thesis
    using assms entropy_words_ok(3) [OF assms(1)] by (simp add: mnemonicToEntropy_def)
qed

text \<open>Validation and reading depend on the words only.\<close>

lemma same_words:
  assumes "phrase_words m = phrase_words m'"
  shows "validate m = validate m'" "mnemonicToEntropy m = mnemonicToEntropy m'"
proof -
  show entropy: "mnemonicToEntropy m = mnemonicToEntropy m'" using assms by (simp add: mnemonicToEntropy_def)
  show "validate m = validate m'" unfolding validate_def assms entropy by (rule refl)
qed

lemma index_of_member: "w \<in> set ws \<Longrightarrow> index_of w ws \<noteq> None"
  by (induction ws) auto

lemma valid_words:
  assumes "length e = 16" "phrase_words m = entropy_words e"
  shows "validate m = None"
proof -
  have "index_of (entropy_words e ! i) WORDLIST \<noteq> None" if "i < 12" for i
    using entropy_words_ok(1,2) [OF assms(1)] that by (intro index_of_member) (auto simp: subset_iff in_set_conv_nth)
  then have "find (\<lambda>i. index_of (entropy_words e ! i) WORDLIST = None) [0..<12] = None"
    by (simp add: find_None_iff)
  then show ?thesis
    using entropy_of_words [OF assms] assms entropy_words_ok(1) [OF assms(1)]
    by (simp add: validate_def mnemonic_words)
qed

lemma validated:
  assumes "validate m = None"
  shows "\<exists>e. length e = 16 \<and> mnemonicToEntropy m = Some e \<and> join_with '' '' (phrase_words m) = entropyToMnemonic e"
proof -
  obtain e where e: "mnemonicToEntropy m = Some e" "entropyToMnemonic e = join_with '' '' (phrase_words m)"
    using assms by (auto simp: validate_def Let_def split: if_splits option.splits)
  moreover have "length e = 16" using e(1) by (auto simp: mnemonicToEntropy_def)
  ultimately show ?thesis by metis
qed

lemma word_bits_known: "word_bits ws = Some bs \<Longrightarrow> set ws \<subseteq> set WORDLIST"
proof (induction ws arbitrary: bs)
  case (Cons w ws)
  have "index_of w l = Some i \<Longrightarrow> w \<in> set l" for l i
    by (induction l arbitrary: i) (auto split: if_splits)
  then show ?case using Cons by (auto split: option.splits)
qed simp

text \<open>
  Property C25. The phrase of a 16-byte entropy is valid and reads back as that entropy, and a phrase is
  valid exactly when it has the words of the phrase of some 16-byte entropy.
\<close>

theorem seed_phrase_roundtrip:
  "(length e = 16 \<longrightarrow> validate (entropyToMnemonic e) = None \<and> mnemonicToEntropy (entropyToMnemonic e) = Some e) \<and>
   (validate m = None \<longleftrightarrow> (\<exists>e. length e = 16 \<and> phrase_words m = phrase_words (entropyToMnemonic e)))"
proof (intro conjI impI iffI)
  assume e: "length e = 16"
  show "validate (entropyToMnemonic e) = None" "mnemonicToEntropy (entropyToMnemonic e) = Some e"
    using valid_words [OF e] entropy_of_words [OF e] phrase_of_entropy [OF e] by blast+
next
  assume v: "validate m = None"
  obtain e where e: "length e = 16" "mnemonicToEntropy m = Some e" "join_with '' '' (phrase_words m) = entropyToMnemonic e"
    using validated [OF v] by blast
  then obtain bs where "word_bits (phrase_words m) = Some bs" by (auto simp: mnemonicToEntropy_def)
  moreover have "phrase_words m \<noteq> []" using v by (auto simp: validate_def)
  ultimately have "phrase_words (entropyToMnemonic e) = phrase_words m"
    using phrase_words_join [of "phrase_words m"] word_bits_known by (simp flip: e(3))
  with e(1) show "\<exists>e. length e = 16 \<and> phrase_words m = phrase_words (entropyToMnemonic e)" by metis
next
  assume "\<exists>e. length e = 16 \<and> phrase_words m = phrase_words (entropyToMnemonic e)"
  then show "validate m = None" using valid_words phrase_of_entropy by metis
qed

lemma seed_phrase_roundtrip_witness:
  "mnemonicToEntropy (entropyToMnemonic (replicate 16 7)) = Some (replicate 16 7)"
  using seed_phrase_roundtrip [of "replicate 16 7"] by simp

subsection \<open>Derivation\<close>

text \<open>The value of a scalar, most significant byte first, and the order of the curve P-256.\<close>

definition scalar_value :: "bytes \<Rightarrow> nat" where
  "scalar_value bs = foldl (\<lambda>n b. 256 * n + unat b) 0 bs"

definition p256_order :: nat where
  "p256_order = 0xFFFFFFFF00000000FFFFFFFFFFFFFFFFBCE6FAADA7179E84F3B9CAC2FC632551"

lemma scalar_value_append: "foldl (\<lambda>n b. 256 * n + unat b) k bs = 256 ^ length bs * k + scalar_value bs"
proof (induction bs arbitrary: k)
  case (Cons b bs)
  show ?case using Cons [of "256 * k + unat b"] Cons [of "unat b"] by (simp add: scalar_value_def algebra_simps)
qed (simp add: scalar_value_def)

lemma scalar_value_Cons: "scalar_value (b # bs) = 256 ^ length bs * unat b + scalar_value bs"
  using scalar_value_append [of "unat b" bs] by (simp add: scalar_value_def)

lemma scalar_value_less: "scalar_value bs < 256 ^ length bs"
proof (induction bs)
  case (Cons b bs)
  have "Suc (unat b) \<le> 256" using byte_less [of b] by simp
  then have "256 ^ length bs * Suc (unat b) \<le> 256 ^ length bs * (256 :: nat)" by (rule mult_le_mono2)
  then have "256 ^ length bs + 256 ^ length bs * unat b \<le> 256 * (256 :: nat) ^ length bs"
    by (simp only: mult_Suc_right mult.commute [of _ 256])
  moreover have "scalar_value (b # bs) < 256 ^ length bs + 256 ^ length bs * unat b"
    using Cons unfolding scalar_value_Cons by linarith
  ultimately show ?case by (simp only: list.size add_0_right power_Suc One_nat_def add_Suc_right)
qed (simp add: scalar_value_def)

lemma scalar_value_zero: "scalar_value bs = 0 \<longleftrightarrow> list_all (\<lambda>b. b = 0) bs"
  by (induction bs) (simp_all add: scalar_value_Cons unsigned_eq_0_iff, simp add: scalar_value_def)

text \<open>
  Clamping leaves a valid private key of P-256: between 1 and the order of the curve.
\<close>

theorem clamped_scalar_is_valid:
  assumes "length r = 32"
  shows "0 < scalar_value (clampScalar r) \<and> scalar_value (clampScalar r) < p256_order"
proof -
  obtain b bs where r: "r = b # bs" "length bs = 31" using assms by (cases r) auto
  have top: "unat (b AND 0x7F) < 128"
  proof -
    have "b AND 0x7F \<le> 0x7F" by (rule word_and_le1)
    then show ?thesis by (simp add: word_le_nat_alt)
  qed
  have bound: "scalar_value (c # cs) < p256_order" if "unat c < 128" "length cs = 31" for c cs
  proof -
    have "256 ^ 31 * unat c \<le> 256 ^ 31 * 127" using that(1) by (intro mult_le_mono2) simp
    then show ?thesis using scalar_value_less [of cs] that(2) by (simp add: scalar_value_Cons p256_order_def)
  qed
  have clamp: "clampScalar r = (if list_all (\<lambda>b. b = 0) ((b AND 0x7F) # bs) then ((b AND 0x7F) # bs)[31 := 1] else (b AND 0x7F) # bs)"
    by (simp add: clampScalar_def r Let_def)
  show ?thesis
  proof (cases "list_all (\<lambda>b. b = 0) ((b AND 0x7F) # bs)")
    case True
    have one: "clampScalar r = (b AND 0x7F) # bs[30 := 1]" using True r(2) by (simp add: clamp)
    have "(1 :: 8 word) \<in> set (bs[30 := 1])" using r(2) by (intro set_update_memI) simp
    then have "\<not> list_all (\<lambda>b. b = 0) (bs[30 := 1])" by (auto simp: list_all_iff intro!: bexI [of _ 1])
    then have "0 < scalar_value (bs[30 := 1])" using scalar_value_zero [of "bs[30 := 1]"] by simp
    then show ?thesis using bound [OF top] r(2) by (simp add: one scalar_value_Cons)
  next
    case False
    then have "clampScalar r = (b AND 0x7F) # bs" by (simp only: clamp if_False)
    then show ?thesis using bound [OF top r(2)] scalar_value_zero [of "(b AND 0x7F) # bs"] False by (metis gr0I)
  qed
qed

lemma clamped_scalar_is_valid_witness: "scalar_value (clampScalar (replicate 32 0)) < p256_order"
  using clamped_scalar_is_valid [of "replicate 32 0"] by simp

lemma utf8_inj: "utf8 m = utf8 m' \<Longrightarrow> m = m'"
proof -
  assume eq: "utf8 m = utf8 m'"
  have decode: "decode_text (utf8 s) = map of_char s" for s
    unfolding utf8_def by (rule text_roundtrip [OF latin_text])
  have "map of_char m = (map of_char m' :: nat list)"
    unfolding decode [symmetric] eq by (rule refl)
  then have "map char_of (map of_char m :: nat list) = map char_of (map of_char m' :: nat list)" by simp
  then show "m = m'" by (simp add: comp_def)
qed

text \<open>
  Two spellings of one phrase (other case, other blanks) are both valid and lead to
  the same root of the key tree, but \<open>deriveKeys\<close> stretches the text as typed: unless PBKDF2 collides, the
  identity keys and the peer id come from different master seeds.
\<close>

theorem spelling_changes_identity:
  assumes "validate m = None" "phrase_words m' = phrase_words m" "m' \<noteq> m"
    and "inj_on (\<lambda>p. pbkdf2 d ''SHA-256'' (utf8 ''decent-protocol-seed-v1'') 100000 p 512) {utf8 m, utf8 m'}"
  shows "validate m' = None \<and> deriveHDMasterKey d m' = deriveHDMasterKey d m \<and> deriveMasterSeed d m' \<noteq> deriveMasterSeed d m"
proof -
  have same: "validate m' = None" "mnemonicToEntropy m' = mnemonicToEntropy m"
    using same_words [OF assms(2)] assms(1) by auto
  have "utf8 m' \<noteq> utf8 m" using utf8_inj assms(3) by blast
  then have "deriveMasterSeed d m' \<noteq> deriveMasterSeed d m"
    using assms(4) by (auto simp: deriveMasterSeed_def inj_on_def)
  then show ?thesis using same assms(1) by (simp add: deriveHDMasterKey_def)
qed

text \<open>A platform whose PBKDF2 returns the password.\<close>

definition plain_platform :: "unit derivation" where
  "plain_platform = \<lparr>pbkdf2 = (\<lambda>h s n p k. p), hkdf_sha256 = (\<lambda>s i k n. replicate n 1), hmac_sha512 = (\<lambda>k m. m),
     sha256_bytes = (\<lambda>b. b), p256_point = (\<lambda>b. Some (replicate 65 4)), import_ec = (\<lambda>u j. Some ()), export_spki = (\<lambda>k. [])\<rparr>"

lemma spelling_changes_identity_witness:
  "deriveMasterSeed plain_platform (CHR '' '' # entropyToMnemonic (replicate 16 7))
     \<noteq> deriveMasterSeed plain_platform (entropyToMnemonic (replicate 16 7))"
proof -
  let ?m = "entropyToMnemonic (replicate 16 7)"
  have "validate ?m = None" using valid_words [of "replicate 16 7"] phrase_of_entropy [of "replicate 16 7"] by simp
  moreover have "phrase_words (CHR '' '' # ?m) = phrase_words ?m" by (simp add: phrase_words_def js_trim_def js_space_def)
  ultimately show ?thesis
    using spelling_changes_identity [of ?m "CHR '' '' # ?m" plain_platform] by (simp add: plain_platform_def inj_on_def)
qed

end
