(* ===== verification/UrlParams.thy ===== *)
theory UrlParams
  imports TextCoding JsText
begin

section \<open>URLSearchParams\<close>

text \<open>
  The web platform's \<open>URLSearchParams\<close> as the three URI classes use it: an ordered list of name and value
  pairs with \<open>get\<close>, \<open>getAll\<close>, \<open>set\<close> and \<open>append\<close>, written and read in the form encoding (a space is \<open>+\<close>,
  letters, digits and \<open>*-._\<close> stay, every other byte of the UTF-8 text is a percent escape). Texts are lists
  of UTF-16 code units.
\<close>

type_synonym params = "(js_text \<times> js_text) list"

definition lit :: "string \<Rightarrow> js_text" where
  "lit s = map of_char s"

subsection \<open>The list of parameters\<close>

definition p_get :: "js_text \<Rightarrow> params \<Rightarrow> js_text option" where
  "p_get n ps = map_of ps n"

definition p_getAll :: "js_text \<Rightarrow> params \<Rightarrow> js_text list" where
  "p_getAll n ps = map snd (filter (\<lambda>(m, v). m = n) ps)"

definition p_append :: "js_text \<Rightarrow> js_text \<Rightarrow> params \<Rightarrow> params" where
  "p_append n v ps = ps @ [(n, v)]"

fun p_set :: "js_text \<Rightarrow> js_text \<Rightarrow> params \<Rightarrow> params" where
  "p_set n v [] = [(n, v)]"
| "p_set n v ((m, w) # ps) = (if m = n then (m, v) # filter (\<lambda>(k, u). k \<noteq> n) ps else (m, w) # p_set n v ps)"

lemma getAll_append: "p_getAll m (p_append n v ps) = p_getAll m ps @ (if m = n then [v] else [])"
  by (simp add: p_getAll_def p_append_def)

lemma getAll_set: "p_getAll m (p_set n v ps) = (if m = n then [v] else p_getAll m ps)"
proof (induction ps)
  case (Cons p ps)
  obtain k u where p: "p = (k, u)" by (cases p)
  have "filter (\<lambda>(j, w). j = k) (filter (\<lambda>(j, w). j \<noteq> k) ps) = []" by (induction ps) auto
  moreover have "filter (\<lambda>(j, w). j = m) (filter (\<lambda>(j, w). j \<noteq> n) ps) = filter (\<lambda>(j, w). j = m) ps" if "m \<noteq> n"
    using that by (induction ps) auto
  ultimately show ?case using Cons by (auto simp: p p_getAll_def)
qed (simp add: p_getAll_def)

lemma get_first: "p_get n ps = (case p_getAll n ps of [] \<Rightarrow> None | v # vs \<Rightarrow> Some v)"
  by (induction ps) (auto simp: p_get_def p_getAll_def)

lemma getAll_empty [simp]: "p_getAll n [] = []"
  by (simp add: p_getAll_def)

subsection \<open>The form encoding\<close>

definition hex_upper :: "nat \<Rightarrow> nat" where
  "hex_upper d = (if d < 10 then 48 + d else 55 + d)"

definition hex_code :: "nat \<Rightarrow> nat option" where
  "hex_code u =
     (if 48 \<le> u \<and> u \<le> 57 then Some (u - 48)
      else if 65 \<le> u \<and> u \<le> 70 then Some (u - 55)
      else if 97 \<le> u \<and> u \<le> 102 then Some (u - 87) else None)"

definition form_safe :: "nat \<Rightarrow> bool" where
  "form_safe b \<longleftrightarrow> 48 \<le> b \<and> b \<le> 57 \<or> 65 \<le> b \<and> b \<le> 90 \<or> 97 \<le> b \<and> b \<le> 122 \<or> b \<in> {42, 45, 46, 95}"

definition form_byte :: "nat \<Rightarrow> nat list" where
  "form_byte b = (if b = 32 then [43] else if form_safe b then [b] else [37, hex_upper (b div 16), hex_upper (b mod 16)])"

definition text_bytes :: "js_text \<Rightarrow> nat list" where
  "text_bytes t = concat (map utf8_point (code_points t))"

definition form_encode :: "js_text \<Rightarrow> js_text" where
  "form_encode t = concat (map form_byte (text_bytes t))"

fun pct_decode :: "nat list \<Rightarrow> nat list" where
  "pct_decode (x # a # b # rest) =
     (case (x = 37, hex_code a, hex_code b) of
        (True, Some h, Some l) \<Rightarrow> (16 * h + l) # pct_decode rest
      | _ \<Rightarrow> x # pct_decode (a # b # rest))"
| "pct_decode xs = xs"

definition form_decode :: "js_text \<Rightarrow> js_text" where
  "form_decode t =
     concat (map code_units (decode_points idle (pct_decode (text_bytes (map (\<lambda>u. if u = 43 then 32 else u) t)))))"

definition params_toString :: "params \<Rightarrow> js_text" where
  "params_toString ps = join_with [38] (map (\<lambda>(n, v). form_encode n @ 61 # form_encode v) ps)"

definition parse_pair :: "js_text \<Rightarrow> js_text \<times> js_text" where
  "parse_pair t = (form_decode (takeWhile (\<lambda>u. u \<noteq> 61) t), form_decode (tl (dropWhile (\<lambda>u. u \<noteq> 61) t)))"

definition parse_params :: "js_text \<Rightarrow> params" where
  "parse_params t =
     map parse_pair (filter (\<lambda>p. p \<noteq> []) (split_on 38 (if take 1 t = [63] then tl t else t)))"

subsection \<open>Reading back\<close>

lemma ascii_bytes: "list_all (\<lambda>u. u < 128) t \<Longrightarrow> text_bytes t = t"
  by (induction t rule: code_points.induct) (auto simp: text_bytes_def utf8_point_def surrogate_defs)

lemma hex_upper_code: "d < 16 \<Longrightarrow> hex_code (hex_upper d) = Some d" "d < 16 \<Longrightarrow> hex_upper d < 128"
  "hex_upper d \<noteq> 43" "hex_upper d \<noteq> 38" "hex_upper d \<noteq> 61" "hex_upper d \<noteq> 63"
  by (auto simp: hex_upper_def hex_code_def)

lemma pct_plain: "x \<noteq> 37 \<Longrightarrow> pct_decode (x # xs) = x # pct_decode xs"
  by (cases xs; cases "tl xs") (auto split: bool.split)

lemma pct_form_byte:
  assumes "b < 256"
  shows "pct_decode (map (\<lambda>u. if u = 43 then 32 else u) (form_byte b) @ rest) = b # pct_decode rest"
    and "list_all (\<lambda>u. u < 128 \<and> u \<noteq> 38 \<and> u \<noteq> 61 \<and> u \<noteq> 63) (form_byte b)"
proof -
  have "b div 16 < 16" "b mod 16 < 16" using assms by auto
  then show "pct_decode (map (\<lambda>u. if u = 43 then 32 else u) (form_byte b) @ rest) = b # pct_decode rest"
    "list_all (\<lambda>u. u < 128 \<and> u \<noteq> 38 \<and> u \<noteq> 61 \<and> u \<noteq> 63) (form_byte b)"
    by (auto simp: form_byte_def form_safe_def pct_plain hex_upper_code)
qed

lemma text_bytes_less: "paired t \<Longrightarrow> b \<in> set (text_bytes t) \<Longrightarrow> b < 256"
  using scalar_code_points utf8_point_bytes by (auto simp: text_bytes_def)

lemma form_encode_chars:
  assumes "paired t" "u \<in> set (form_encode t)"
  shows "u < 128" "u \<noteq> 38" "u \<noteq> 61" "u \<noteq> 63"
  using assms pct_form_byte(2) text_bytes_less [OF assms(1)] by (fastforce simp: form_encode_def list_all_iff)+

lemma form_roundtrip:
  assumes "paired t"
  shows "form_decode (form_encode t) = t"
proof -
  let ?plus = "\<lambda>u. if u = 43 then 32 else (u :: nat)"
  have bytes: "list_all (\<lambda>b. b < 256) (text_bytes t)" using text_bytes_less [OF assms] by (simp add: list_all_iff)
  have "list_all (\<lambda>u. u < 128) (map ?plus (form_encode t))"
    using form_encode_chars(1) [OF assms] by (auto simp: list_all_iff)
  then have "text_bytes (map ?plus (form_encode t)) = map ?plus (form_encode t)" by (rule ascii_bytes)
  moreover have "pct_decode (map ?plus (concat (map form_byte bs))) = bs" if "list_all (\<lambda>b. b < 256) bs" for bs
    using that by (induction bs) (simp_all add: pct_form_byte)
  ultimately have "pct_decode (text_bytes (map ?plus (form_encode t))) = text_bytes t"
    using bytes by (simp add: form_encode_def)
  moreover have "decode_points idle (text_bytes t) = code_points t"
    using scalar_code_points [OF assms] by (simp add: text_bytes_def decode_all_points list_all_iff)
  ultimately show ?thesis by (simp add: form_decode_def units_of_points assms)
qed

definition sendable :: "params \<Rightarrow> bool" where
  "sendable ps \<longleftrightarrow> list_all (\<lambda>(n, v). paired n \<and> paired v) ps"

lemma pair_roundtrip: "paired n \<Longrightarrow> paired v \<Longrightarrow> parse_pair (form_encode n @ 61 # form_encode v) = (n, v)"
  using form_encode_chars(3) [of n]
  by (simp add: parse_pair_def form_roundtrip takeWhile_append dropWhile_append)

text \<open>What is written is read back, as long as every text is well-formed UTF-16.\<close>

lemma params_roundtrip:
  assumes "sendable ps"
  shows "parse_params (params_toString ps) = ps"
proof (cases "ps = []")
  case False
  let ?ws = "map (\<lambda>(n, v). form_encode n @ 61 # form_encode v) ps"
  have chars: "list_all (\<lambda>w. 38 \<notin> set w) ?ws"
    using assms form_encode_chars(2) by (fastforce simp: sendable_def list_all_iff)
  have "63 \<notin> set (join_with [38] ?ws)"
    using assms form_encode_chars(4) set_join [of "[38]" ?ws] by (fastforce simp: sendable_def list_all_iff)
  then have first: "take 1 (join_with [38] ?ws) \<noteq> [63]" by (metis in_set_takeD list.set_intros(1))
  have "filter (\<lambda>p. p \<noteq> []) ?ws = ?ws" by (rule filter_True) auto
  moreover have "map parse_pair ?ws = ps"
    using assms by (auto simp: sendable_def list_all_iff pair_roundtrip intro!: map_idI)
  ultimately show ?thesis
    using first split_on_join [OF _ chars] False by (simp add: parse_params_def params_toString_def)
qed (simp add: parse_params_def params_toString_def)

text \<open>The characters of a query: letters, digits, \<open>*-._\<close>, the escapes, \<open>&\<close> and \<open>=\<close>.\<close>

definition query_char :: "nat \<Rightarrow> bool" where
  "query_char u \<longleftrightarrow> form_safe u \<or> u \<in> {37, 38, 43, 61}"

lemma hex_upper_safe: "d < 16 \<Longrightarrow> form_safe (hex_upper d)"
  by (simp add: hex_upper_def form_safe_def)

lemma form_byte_query: "b < 256 \<Longrightarrow> list_all query_char (form_byte b)"
  by (simp add: form_byte_def query_char_def hex_upper_safe)

lemma params_query:
  assumes "sendable ps"
  shows "list_all query_char (params_toString ps)"
proof -
  have one: "list_all query_char (form_encode t)" if "paired t" for t
    using text_bytes_less [OF that] form_byte_query by (fastforce simp: form_encode_def list_all_iff)
  have "list_all query_char (join_with [38] ws)" if "list_all (list_all query_char) ws" for ws
    using that by (induction "[38 :: nat]" ws rule: join_with.induct) (simp_all add: query_char_def)
  moreover have "list_all query_char (form_encode n @ 61 # form_encode v)" if "(n, v) \<in> set ps" for n v
    using that assms one [of n] one [of v] by (auto simp: sendable_def list_all_iff query_char_def [of 61])
  then have "list_all (list_all query_char) (map (\<lambda>(n, v). form_encode n @ 61 # form_encode v) ps)"
    by (auto simp: list_all_iff)
  ultimately show ?thesis by (simp add: params_toString_def)
qed


end
