(* ===== verification/InviteURI.thy ===== *)
theory InviteURI
  imports UrlParams PeerCrypto
begin

section \<open>Invite links\<close>

text \<open>
  \<open>invite/InviteURI.ts\<close> and \<open>invite/InviteAuth.ts\<close>: an invite as a link for the web and for the scheme
  \<open>decent:\<close>, reading both back, and the signature of an invite. The \<open>URL\<close> class of the platform is a parameter
  that gives host name, path name and query of a URL. \<open>Number\<close> is modelled for decimal integers.
\<close>

subsection \<open>Numbers and trimming\<close>

definition text_space :: "nat \<Rightarrow> bool" where
  "text_space u \<longleftrightarrow> u \<in> {9, 10, 11, 12, 13, 32, 160, 0x1680, 0x2028, 0x2029, 0x202F, 0x205F, 0x3000, 0xFEFF} \<or> 0x2000 \<le> u \<and> u \<le> 0x200A"

definition text_trim :: "js_text \<Rightarrow> js_text" where
  "text_trim t = rev (dropWhile text_space (rev (dropWhile text_space t)))"

definition is_digit :: "nat \<Rightarrow> bool" where
  "is_digit u \<longleftrightarrow> 48 \<le> u \<and> u \<le> 57"

definition digits_value :: "js_text \<Rightarrow> int" where
  "digits_value t = int (foldl (\<lambda>n u. 10 * n + (u - 48)) 0 t)"

definition signed_digits :: "(js_text \<Rightarrow> int option) \<Rightarrow> js_text \<Rightarrow> int option" where
  "signed_digits f t =
     (if take 1 t = [45] then map_option uminus (f (tl t)) else if take 1 t = [43] then f (tl t) else f t)"

text \<open>\<open>parseInt(t, 10)\<close>; \<open>None\<close> is \<open>NaN\<close>.\<close>

definition parse_int :: "js_text \<Rightarrow> int option" where
  "parse_int t =
     signed_digits (\<lambda>u. if takeWhile is_digit u = [] then None else Some (digits_value (takeWhile is_digit u)))
       (dropWhile text_space t)"

definition js_number :: "js_text \<Rightarrow> int option" where
  "js_number t =
     (if text_trim t = [] then Some 0
      else signed_digits (\<lambda>u. if u \<noteq> [] \<and> list_all is_digit u then Some (digits_value u) else None) (text_trim t))"

subsection \<open>Invites\<close>

record invite_data =
  iv_host :: js_text
  iv_port :: int
  iv_code :: js_text
  iv_secure :: bool
  iv_path :: js_text
  iv_fallback :: "js_text list"
  iv_turn :: "js_text list"
  iv_peerId :: "js_text option"
  iv_peers :: "js_text list option"
  iv_publicKey :: "js_text option"
  iv_transportKey :: "js_text option"
  iv_alias :: "js_text option"
  iv_isBot :: "bool option"
  iv_allowDMs :: "bool option"
  iv_workspaceId :: "js_text option"
  iv_workspaceName :: "js_text option"
  iv_expiresAt :: "int option"
  iv_maxUses :: "int option"
  iv_inviteId :: "js_text option"
  iv_inviterId :: "js_text option"
  iv_signature :: "js_text option"

definition DEFAULT_PUBLIC_SERVERS :: "js_text list" where
  "DEFAULT_PUBLIC_SERVERS = [lit ''wss://0.peerjs.com/peerjs'']"

definition set_opt :: "string \<Rightarrow> js_text option \<Rightarrow> params \<Rightarrow> params" where
  "set_opt n v ps = (case v of None \<Rightarrow> ps | Some t \<Rightarrow> if t = [] then ps else p_set (lit n) t ps)"

definition set_if :: "bool \<Rightarrow> string \<Rightarrow> js_text \<Rightarrow> params \<Rightarrow> params" where
  "set_if c n v ps = (if c then p_set (lit n) v ps else ps)"

definition set_number :: "string \<Rightarrow> int option \<Rightarrow> params \<Rightarrow> params" where
  "set_number n v ps = (case v of None \<Rightarrow> ps | Some i \<Rightarrow> if i > 0 then p_set (lit n) (lit (show_int i)) ps else ps)"

definition append_all :: "string \<Rightarrow> js_text list \<Rightarrow> params \<Rightarrow> params" where
  "append_all n vs ps = fold (p_append (lit n)) vs ps"

text \<open>The fields both formats write in the same order.\<close>

definition invite_fields :: "invite_data \<Rightarrow> params \<Rightarrow> params" where
  "invite_fields d ps =
     set_opt ''sig'' (iv_signature d)
     (set_opt ''inviter'' (iv_inviterId d)
     (set_opt ''i'' (iv_inviteId d)
     (set_number ''max'' (iv_maxUses d)
     (set_number ''exp'' (iv_expiresAt d)
     (set_if (iv_path d \<noteq> [] \<and> iv_path d \<noteq> lit ''/peerjs'') ''path'' (iv_path d)
     (set_if (iv_secure d) ''secure'' (lit ''1'')
     (set_opt ''ws'' (iv_workspaceId d)
     (set_opt ''name'' (iv_workspaceName d)
     (set_if (iv_allowDMs d = Some False) ''wdm'' (lit ''0'')
     (set_if (iv_isBot d = Some True) ''bot'' (lit ''1'')
     (set_opt ''alias'' (iv_alias d)
     (set_opt ''tpk'' (iv_transportKey d)
     (set_opt ''pk'' (iv_publicKey d)
     (set_opt ''peer'' (iv_peerId d) ps))))))))))))))"

definition append_peers :: "invite_data \<Rightarrow> params \<Rightarrow> params" where
  "append_peers d ps = append_all ''peer'' (filter (\<lambda>p. Some p \<noteq> iv_peerId d) (case iv_peers d of None \<Rightarrow> [] | Some l \<Rightarrow> l)) ps"

definition encode_invite :: "js_text \<Rightarrow> invite_data \<Rightarrow> js_text" where
  "encode_invite webDomain d =
     (let ps = append_peers d (append_all ''turn'' (iv_turn d) (append_all ''fallback'' (iv_fallback d)
                 (invite_fields d (p_set (lit ''signal'') (iv_host d @ 58 # lit (show_int (iv_port d))) []))))
      in lit ''https://'' @ webDomain @ lit ''/join/'' @ iv_code d @ 63 # params_toString ps)"

definition encodeNative :: "invite_data \<Rightarrow> js_text" where
  "encodeNative d =
     (let host = (if 58 \<in> set (iv_host d) then 91 # iv_host d @ [93] else iv_host d);
          uri = lit ''decent://'' @ host @ 58 # lit (show_int (iv_port d)) @ 47 # iv_code d;
          query = params_toString (append_peers d (invite_fields d
                    (append_all ''turn'' (iv_turn d) (append_all ''fallback'' (iv_fallback d) []))))
      in if query \<noteq> [] then uri @ 63 # query else uri)"

subsection \<open>Reading an invite\<close>

definition parseHostPort :: "js_text \<Rightarrow> (js_text \<times> int \<times> js_text) result" where
  "parseHostPort s =
     (case (if take 1 s = [91]
            then (if 93 \<in> set s
                  then Inr (tl (takeWhile (\<lambda>u. u \<noteq> 93) s), tl (dropWhile (\<lambda>u. u \<noteq> 93) s))
                  else Inl ''Invalid IPv6 address: missing ]'')
            else (let hostPort = takeWhile (\<lambda>u. u \<noteq> 47) s; path = dropWhile (\<lambda>u. u \<noteq> 47) s
                  in if 58 \<in> set hostPort
                     then Inr (rev (tl (dropWhile (\<lambda>u. u \<noteq> 58) (rev hostPort))),
                               58 # rev (takeWhile (\<lambda>u. u \<noteq> 58) (rev hostPort)) @ path)
                     else Inr (hostPort, path))) of
        Inl e \<Rightarrow> Inl e
      | Inr (host, rest) \<Rightarrow>
          (if take 1 rest = [58]
           then Inr (host, (case parse_int (takeWhile (\<lambda>u. u \<noteq> 47) (tl rest)) of Some p \<Rightarrow> p | None \<Rightarrow> 9000),
                     dropWhile (\<lambda>u. u \<noteq> 47) (tl rest))
           else if take 1 rest = [47] then Inr (host, 9000, rest) else Inr (host, 9000, [])))"

definition param_text :: "string \<Rightarrow> params \<Rightarrow> js_text option" where
  "param_text n ps = (case p_get (lit n) ps of Some t \<Rightarrow> if t = [] then None else Some t | None \<Rightarrow> None)"

definition param_number :: "string \<Rightarrow> params \<Rightarrow> int option" where
  "param_number n ps = Option.bind (param_text n ps) js_number"

definition read_invite :: "js_text \<Rightarrow> int \<Rightarrow> js_text \<Rightarrow> bool \<Rightarrow> params \<Rightarrow> invite_data" where
  "read_invite host port code secure ps =
     \<lparr>iv_host = host, iv_port = port, iv_code = code, iv_secure = secure,
      iv_path = (case param_text ''path'' ps of Some t \<Rightarrow> t | None \<Rightarrow> lit ''/peerjs''),
      iv_fallback = p_getAll (lit ''fallback'') ps, iv_turn = p_getAll (lit ''turn'') ps,
      iv_peerId = (case p_getAll (lit ''peer'') ps of [] \<Rightarrow> None | p # _ \<Rightarrow> if p = [] then None else Some p),
      iv_peers = (if length (p_getAll (lit ''peer'') ps) > 1 then Some (tl (p_getAll (lit ''peer'') ps)) else None),
      iv_publicKey = param_text ''pk'' ps, iv_transportKey = param_text ''tpk'' ps, iv_alias = param_text ''alias'' ps,
      iv_isBot = (if p_get (lit ''bot'') ps = Some (lit ''1'') then Some True else None),
      iv_allowDMs = (if p_get (lit ''wdm'') ps = Some (lit ''0'') then Some False else None),
      iv_workspaceId = param_text ''ws'' ps, iv_workspaceName = param_text ''name'' ps,
      iv_expiresAt = param_number ''exp'' ps, iv_maxUses = param_number ''max'' ps, iv_inviteId = param_text ''i'' ps,
      iv_inviterId = param_text ''inviter'' ps, iv_signature = param_text ''sig'' ps\<rparr>"

record url_parts =
  url_hostname :: js_text
  url_pathname :: js_text
  url_query :: js_text

fun index_in :: "'a \<Rightarrow> 'a list \<Rightarrow> nat option" where
  "index_in x [] = None"
| "index_in x (y # ys) = (if x = y then Some 0 else map_option Suc (index_in x ys))"

definition decodeWebURL :: "(js_text \<Rightarrow> url_parts option) \<Rightarrow> js_text \<Rightarrow> invite_data result" where
  "decodeWebURL url_of uri =
     (case url_of uri of
        None \<Rightarrow> Inl ''Invalid URL''
      | Some u \<Rightarrow>
          (let parts = filter (\<lambda>p. p \<noteq> []) (split_on 47 (url_pathname u)); ps = parse_params (url_query u)
           in case index_in (lit ''join'') parts of
                None \<Rightarrow> Inl ''Invalid web invite URL: expected /join/CODE path''
              | Some i \<Rightarrow>
                  (if i + 1 \<ge> length parts then Inl ''Invalid web invite URL: expected /join/CODE path''
                   else (case param_text ''signal'' ps of
                           None \<Rightarrow> Inr (read_invite (url_hostname u) 443 (parts ! (i + 1)) True ps)
                         | Some signal \<Rightarrow>
                             (case parseHostPort signal of
                                Inl e \<Rightarrow> Inl e
                              | Inr (host, port, _) \<Rightarrow>
                                  Inr (read_invite host port (parts ! (i + 1))
                                    (p_get (lit ''secure'') ps = Some (lit ''1'') \<or> port = 443) ps))))))"

definition decode_invite :: "(js_text \<Rightarrow> url_parts option) \<Rightarrow> js_text \<Rightarrow> invite_data result" where
  "decode_invite url_of uri =
     (let t = text_trim uri
      in if starts_with (lit ''https://'') t \<or> starts_with (lit ''http://'') t then decodeWebURL url_of t
         else if \<not> starts_with (lit ''decent://'') t then Inl ''Invalid invite URI: must start with decent://''
         else
           (let rest = drop 9 t; pathPart = takeWhile (\<lambda>u. u \<noteq> 63) rest; query = tl (dropWhile (\<lambda>u. u \<noteq> 63) rest)
            in case parseHostPort pathPart of
                 Inl e \<Rightarrow> Inl e
               | Inr (host, port, codePath) \<Rightarrow>
                   (let code = (if take 1 codePath = [47] then tl codePath else codePath); ps = parse_params query
                    in if code = [] then Inl ''Invalid invite URI: missing invite code''
                       else Inr (read_invite host port code
                              (p_get (lit ''secure'') ps = Some (lit ''1'') \<or> port = 443) ps))))"

definition isValid_invite :: "(js_text \<Rightarrow> url_parts option) \<Rightarrow> js_text \<Rightarrow> bool" where
  "isValid_invite url_of uri = (case decode_invite url_of uri of Inl e \<Rightarrow> False | Inr d \<Rightarrow> True)"

subsection \<open>Signing and expiry\<close>

definition text_or_empty :: "js_text option \<Rightarrow> js_text" where
  "text_or_empty v = (case v of None \<Rightarrow> [] | Some t \<Rightarrow> t)"

definition getSignPayload :: "invite_data \<Rightarrow> js_text" where
  "getSignPayload d =
     (let base = iv_code d @ 58 # text_or_empty (iv_workspaceId d) @ 58 # lit (show_int (case iv_expiresAt d of None \<Rightarrow> 0 | Some t \<Rightarrow> t))
                 @ 58 # lit (show_int (case iv_maxUses d of None \<Rightarrow> 0 | Some n \<Rightarrow> n))
      in if text_or_empty (iv_inviteId d) \<noteq> [] then base @ 58 # text_or_empty (iv_inviteId d) else base)"

definition isExpired_invite :: "time \<Rightarrow> invite_data \<Rightarrow> bool" where
  "isExpired_invite now d = (case iv_expiresAt d of None \<Rightarrow> False | Some t \<Rightarrow> t \<noteq> 0 \<and> t < now)"

definition create_invite :: "js_text \<Rightarrow> int \<Rightarrow> js_text \<Rightarrow> bool option \<Rightarrow> (invite_data \<Rightarrow> invite_data) \<Rightarrow> js_text" where
  "create_invite host port code secure options =
     encode_invite (lit ''decentchat.app'') (options
       \<lparr>iv_host = host, iv_port = port, iv_code = code, iv_secure = (case secure of None \<Rightarrow> port = 443 | Some b \<Rightarrow> b),
        iv_path = lit ''/peerjs'', iv_fallback = DEFAULT_PUBLIC_SERVERS, iv_turn = [], iv_peerId = None, iv_peers = None,
        iv_publicKey = None, iv_transportKey = None, iv_alias = None, iv_isBot = None, iv_allowDMs = None, iv_workspaceId = None,
        iv_workspaceName = None, iv_expiresAt = None, iv_maxUses = None, iv_inviteId = None, iv_inviterId = None,
        iv_signature = None\<rparr>)"

definition toShareText :: "invite_data \<Rightarrow> js_text" where
  "toShareText d =
     lit ''Join '' @ (if text_or_empty (iv_workspaceName d) = [] then lit ''a workspace'' else text_or_empty (iv_workspaceName d)) @
     lit '' on DecentChat:'' @ 10 # encode_invite (lit ''decentchat.app'') d"

definition toBase64url :: "bytes \<Rightarrow> string" where
  "toBase64url bs =
     rev (dropWhile (\<lambda>c. c = CHR ''='')
       (rev (map (\<lambda>c. if c = CHR ''+'' then CHR ''-'' else if c = CHR ''/'' then CHR ''_'' else c) (arrayBufferToBase64 bs))))"

definition fromBase64url :: "string \<Rightarrow> bytes option" where
  "fromBase64url s =
     (let t = map (\<lambda>c. if c = CHR ''-'' then CHR ''+'' else if c = CHR ''_'' then CHR ''/'' else c) s
      in base64ToArrayBuffer (t @ replicate ((4 - length t mod 4) mod 4) (CHR ''='')))"

definition signInvite :: "('sk, 'pk, 'gk, 'vk) suite \<Rightarrow> 'gk \<Rightarrow> invite_data \<Rightarrow> string" where
  "signInvite cs gk d = toBase64url (ecdsa_sign cs gk (encode_text (getSignPayload d)))"

text \<open>The public key is a key or, as a string, a JSON web key in base64; every exception is \<open>false\<close>.\<close>

datatype 'vk invite_key = KeyObject 'vk | KeyText string

definition verifyInviteSignature :: "('sk, 'pk, 'gk, 'vk) suite \<Rightarrow> 'vk invite_key \<Rightarrow> invite_data \<Rightarrow> bool" where
  "verifyInviteSignature cs key d =
     (case text_or_empty (iv_signature d) of
        [] \<Rightarrow> False
      | sig \<Rightarrow>
          (case (case key of KeyObject vk \<Rightarrow> Some vk | KeyText t \<Rightarrow> importSigningPublicKey cs t) of
             None \<Rightarrow> False
           | Some vk \<Rightarrow>
               (case if list_all (\<lambda>u. u < 256) sig then fromBase64url (map char_of sig) else None of
                  None \<Rightarrow> False
                | Some bs \<Rightarrow> ecdsa_verify cs vk bs (encode_text (getSignPayload d)))))"

subsection \<open>The parameters of an invite\<close>

lemma lit_inject [simp]: "lit a = lit b \<longleftrightarrow> a = b"
proof
  assume "lit a = lit b"
  then have "map char_of (lit a) = map char_of (lit b)" by simp
  then show "a = b" by (simp add: lit_def comp_def)
qed simp

lemma lit_simps [simp]: "lit [] = []" "lit (a @ b) = lit a @ lit b" "lit a = [] \<longleftrightarrow> a = []" "length (lit a) = length a"
  by (simp_all add: lit_def)

definition field :: "js_text option \<Rightarrow> js_text list" where
  "field v = (case v of None \<Rightarrow> [] | Some t \<Rightarrow> if t = [] then [] else [t])"

definition number_text :: "int option \<Rightarrow> js_text list" where
  "number_text v = (case v of None \<Rightarrow> [] | Some i \<Rightarrow> if i > 0 then [lit (show_int i)] else [])"

lemma getAll_opt: "p_getAll (lit m) (set_opt n v ps) = (if m = n \<and> field v \<noteq> [] then field v else p_getAll (lit m) ps)"
  by (simp add: set_opt_def field_def getAll_set split: option.split)

lemma getAll_if: "p_getAll (lit m) (set_if c n v ps) = (if m = n \<and> c then [v] else p_getAll (lit m) ps)"
  by (simp add: set_if_def getAll_set)

lemma getAll_number: "p_getAll (lit m) (set_number n v ps) = (if m = n \<and> number_text v \<noteq> [] then number_text v else p_getAll (lit m) ps)"
  by (simp add: set_number_def number_text_def getAll_set split: option.split)

lemma getAll_append_all: "p_getAll (lit m) (append_all n vs ps) = p_getAll (lit m) ps @ (if m = n then vs else [])"
  unfolding append_all_def by (induction vs arbitrary: ps) (simp_all add: getAll_append)

lemmas getAll_laws = getAll_opt getAll_if getAll_number getAll_append_all

text \<open>Invites that both formats carry unchanged.\<close>

definition good_field :: "js_text option \<Rightarrow> bool" where
  "good_field v \<longleftrightarrow> (case v of None \<Rightarrow> True | Some t \<Rightarrow> t \<noteq> [] \<and> paired t)"

definition host_char :: "nat \<Rightarrow> bool" where
  "host_char u \<longleftrightarrow> u \<notin> {47, 63, 91, 93} \<and> 32 < u \<and> u < 128"

definition code_char :: "nat \<Rightarrow> bool" where
  "code_char u \<longleftrightarrow> is_digit u \<or> 65 \<le> u \<and> u \<le> 90 \<or> 97 \<le> u \<and> u \<le> 122"

definition wf_invite :: "invite_data \<Rightarrow> bool" where
  "wf_invite d \<longleftrightarrow>
     iv_host d \<noteq> [] \<and> list_all host_char (iv_host d) \<and> iv_code d \<noteq> [] \<and> list_all code_char (iv_code d) \<and>
     (iv_port d = 443 \<longrightarrow> iv_secure d) \<and> iv_path d \<noteq> [] \<and> paired (iv_path d) \<and>
     list_all paired (iv_fallback d) \<and> list_all paired (iv_turn d) \<and>
     list_all good_field [iv_peerId d, iv_publicKey d, iv_transportKey d, iv_alias d, iv_workspaceId d, iv_workspaceName d,
       iv_inviteId d, iv_inviterId d, iv_signature d] \<and>
     iv_isBot d \<in> {None, Some True} \<and> iv_allowDMs d \<in> {None, Some False} \<and>
     (case iv_expiresAt d of None \<Rightarrow> True | Some t \<Rightarrow> t > 0) \<and> (case iv_maxUses d of None \<Rightarrow> True | Some n \<Rightarrow> n > 0) \<and>
     (case iv_peers d of None \<Rightarrow> True
      | Some l \<Rightarrow> l \<noteq> [] \<and> iv_peerId d \<noteq> None \<and> list_all (\<lambda>p. paired p \<and> Some p \<noteq> iv_peerId d) l)"

end
