(* ===== verification/InviteLinks.thy ===== *)
theory InviteLinks
  imports InviteURI
begin

section \<open>Invite links are read back\<close>

text \<open>
  A link written by \<open>encodeNative\<close> or \<open>encode\<close> is decoded to the same invite, and what the signature of an invite
  covers.
\<close>

subsection \<open>Numbers and texts without blanks\<close>

lemma visible_not_space: "32 < u \<Longrightarrow> u < 128 \<Longrightarrow> \<not> text_space u"
  by (auto simp: text_space_def)

lemma digits_of_number: "list_all is_digit (lit (show_nat n))" "digits_value (lit (show_nat n)) = int n"
proof -
  show "list_all is_digit (lit (show_nat n))"
    using show_nat_digits [of _ n] by (auto simp: list_all_iff lit_def is_digit_def)
  have "foldl (\<lambda>n u. 10 * n + (u - 48)) m (lit s) = foldl (\<lambda>n c. 10 * n + (of_char c - 48)) m s" for m s
    by (induction s arbitrary: m) (simp_all add: lit_def)
  then show "digits_value (lit (show_nat n)) = int n"
    using read_show_nat [of n] by (simp add: digits_value_def read_digits_def)
qed

lemma signed_number:
  assumes "\<And>n. f (lit (show_nat n)) = Some (int n)"
  shows "signed_digits f (lit (show_int i)) = Some i"
proof (cases "i < 0")
  case True
  then show ?thesis using assms [of "nat (- i)"] by (simp add: signed_digits_def show_int_def lit_def)
next
  case False
  have "take 1 (lit (show_nat n)) \<notin> {[45], [43]}" for n
    using digits_of_number(1) [of n] by (cases "lit (show_nat n)") (auto simp: is_digit_def)
  then show ?thesis using assms [of "nat i"] False by (auto simp: signed_digits_def show_int_def)
qed

definition visible :: "js_text \<Rightarrow> bool" where
  "visible t \<longleftrightarrow> list_all (\<lambda>u. 32 < u \<and> u < 128) t"

lemma visible_append [simp]: "visible (a @ b) \<longleftrightarrow> visible a \<and> visible b" "visible []"
  "visible (u # a) \<longleftrightarrow> 32 < u \<and> u < 128 \<and> visible a"
  by (simp_all add: visible_def)

lemma visible_trim: "visible t \<Longrightarrow> text_trim t = t"
proof -
  assume "visible t"
  then have *: "dropWhile text_space s = s" if "set s \<subseteq> set t" for s
    using that visible_not_space by (cases s) (auto simp: visible_def list_all_iff)
  show ?thesis by (simp add: text_trim_def *)
qed

lemma number_chars: "u \<in> set (lit (show_int i)) \<Longrightarrow> is_digit u \<or> u = 45"
  using digits_of_number(1) by (auto simp: show_int_def lit_def list_all_iff split: if_splits)

lemma number_plain: "47 \<notin> set (lit (show_int i))" "58 \<notin> set (lit (show_int i))"
  using number_chars [of 47 i] number_chars [of 58 i] by (auto simp: is_digit_def)

lemma visible_number: "visible (lit (show_int i))"
  using number_chars [of _ i] by (fastforce simp: visible_def list_all_iff is_digit_def)

lemma show_int_not_Nil: "show_int i \<noteq> []"
  by (simp add: show_int_def)

lemma parse_int_number: "parse_int (lit (show_int i)) = Some i"
proof -
  have "dropWhile text_space (lit (show_int i)) = lit (show_int i)"
    using visible_number [of i] visible_not_space by (cases "lit (show_int i)") (auto simp: visible_def)
  moreover have all: "takeWhile is_digit (lit (show_nat n)) = lit (show_nat n)" for n
    using digits_of_number(1) [of n] by (simp add: takeWhile_eq_all_conv list_all_iff)
  have "signed_digits (\<lambda>u. if takeWhile is_digit u = [] then None else Some (digits_value (takeWhile is_digit u)))
      (lit (show_int i)) = Some i"
    by (rule signed_number) (simp add: all digits_of_number(2) del: takeWhile_eq_all_conv)
  ultimately show ?thesis by (simp add: parse_int_def)
qed

lemma js_number_number: "js_number (lit (show_int i)) = Some i"
proof -
  show ?thesis
    unfolding js_number_def visible_trim [OF visible_number]
    by (simp add: signed_number digits_of_number show_int_not_Nil)
qed

subsection \<open>Parameters\<close>

lemma ascii_paired: "list_all (\<lambda>u. u < 128) t \<Longrightarrow> paired t"
  by (induction t rule: induct_list012) (auto simp: surrogate_defs)

lemma paired_lit: "paired (lit s)"
  using latin_paired by (simp add: lit_def)

lemma sendable_set: "sendable ps \<Longrightarrow> paired v \<Longrightarrow> sendable (p_set (lit n) v ps)"
  by (induction "lit n" v ps rule: p_set.induct) (auto simp: sendable_def paired_lit list_all_iff)

lemma sendable_opt: "sendable ps \<Longrightarrow> good_field v \<Longrightarrow> sendable (set_opt n v ps)"
  by (auto simp: set_opt_def good_field_def sendable_set split: option.split)

lemma sendable_if: "sendable ps \<Longrightarrow> paired v \<Longrightarrow> sendable (set_if c n v ps)"
  by (simp add: set_if_def sendable_set)

lemma sendable_number: "sendable ps \<Longrightarrow> sendable (set_number n v ps)"
  by (simp add: set_number_def sendable_set paired_lit split: option.split)

lemma sendable_append_all: "sendable ps \<Longrightarrow> list_all paired vs \<Longrightarrow> sendable (append_all n vs ps)"
  unfolding append_all_def by (induction vs arbitrary: ps) (simp_all add: p_append_def sendable_def paired_lit)

lemmas sendable_laws = sendable_opt sendable_if sendable_number sendable_append_all sendable_set paired_lit

lemma param_text_read: "p_getAll (lit n) ps = field v \<Longrightarrow> good_field v \<Longrightarrow> param_text n ps = v"
  by (auto simp: param_text_def get_first field_def good_field_def split: option.splits)

lemma param_number_read:
  "p_getAll (lit n) ps = number_text v \<Longrightarrow> (case v of None \<Rightarrow> True | Some i \<Rightarrow> i > 0) \<Longrightarrow> param_number n ps = v"
  using js_number_number show_int_not_Nil
  by (auto simp: param_number_def param_text_def get_first number_text_def split: option.splits)

text \<open>What has to hold of a list of parameters for the invite to be read from it.\<close>

definition carries :: "invite_data \<Rightarrow> params \<Rightarrow> bool" where
  "carries d ps \<longleftrightarrow>
     p_getAll (lit ''sig'') ps = field (iv_signature d) \<and> p_getAll (lit ''inviter'') ps = field (iv_inviterId d) \<and>
     p_getAll (lit ''i'') ps = field (iv_inviteId d) \<and> p_getAll (lit ''max'') ps = number_text (iv_maxUses d) \<and>
     p_getAll (lit ''exp'') ps = number_text (iv_expiresAt d) \<and>
     p_getAll (lit ''path'') ps = (if iv_path d = [] \<or> iv_path d = lit ''/peerjs'' then [] else [iv_path d]) \<and>
     p_getAll (lit ''secure'') ps = (if iv_secure d then [lit ''1''] else []) \<and>
     p_getAll (lit ''ws'') ps = field (iv_workspaceId d) \<and> p_getAll (lit ''name'') ps = field (iv_workspaceName d) \<and>
     p_getAll (lit ''wdm'') ps = (if iv_allowDMs d = Some False then [lit ''0''] else []) \<and>
     p_getAll (lit ''bot'') ps = (if iv_isBot d = Some True then [lit ''1''] else []) \<and>
     p_getAll (lit ''alias'') ps = field (iv_alias d) \<and> p_getAll (lit ''tpk'') ps = field (iv_transportKey d) \<and>
     p_getAll (lit ''pk'') ps = field (iv_publicKey d) \<and>
     p_getAll (lit ''peer'') ps =
       field (iv_peerId d) @ filter (\<lambda>p. Some p \<noteq> iv_peerId d) (case iv_peers d of None \<Rightarrow> [] | Some l \<Rightarrow> l) \<and>
     p_getAll (lit ''fallback'') ps = iv_fallback d \<and> p_getAll (lit ''turn'') ps = iv_turn d"

definition native_params :: "invite_data \<Rightarrow> params" where
  "native_params d = append_peers d (invite_fields d (append_all ''turn'' (iv_turn d) (append_all ''fallback'' (iv_fallback d) [])))"

definition web_params :: "invite_data \<Rightarrow> params" where
  "web_params d = append_peers d (append_all ''turn'' (iv_turn d) (append_all ''fallback'' (iv_fallback d)
                 (invite_fields d (p_set (lit ''signal'') (iv_host d @ 58 # lit (show_int (iv_port d))) []))))"

lemma carries_native: "carries d (native_params d)"
  unfolding carries_def by (intro conjI; simp add: native_params_def append_peers_def invite_fields_def getAll_laws)

lemma carries_web: "carries d (web_params d)"
  unfolding carries_def by (intro conjI; simp add: web_params_def append_peers_def invite_fields_def getAll_laws getAll_set del: p_set.simps)

lemma signal_web: "p_getAll (lit ''signal'') (web_params d) = [iv_host d @ 58 # lit (show_int (iv_port d))]"
  by (simp add: web_params_def append_peers_def invite_fields_def getAll_laws getAll_set del: p_set.simps)

lemma sendable_invite:
  assumes "wf_invite d"
  shows "sendable (native_params d)" "sendable (web_params d)"
proof -
  have host: "paired (iv_host d @ 58 # lit (show_int (iv_port d)))"
    using assms visible_number [of "iv_port d"]
    by (intro ascii_paired) (auto simp: wf_invite_def host_char_def visible_def list_all_iff)
  have peers: "list_all paired (filter (\<lambda>p. Some p \<noteq> iv_peerId d) (case iv_peers d of None \<Rightarrow> [] | Some l \<Rightarrow> l))"
    using assms by (auto simp: wf_invite_def list_all_iff split: option.splits)
  have "sendable []" by (simp add: sendable_def)
  then show "sendable (native_params d)" "sendable (web_params d)"
    using assms host peers
    by (simp_all add: native_params_def web_params_def append_peers_def invite_fields_def sendable_laws wf_invite_def
        del: p_set.simps)
qed

lemma read_peers:
  assumes "wf_invite d" "carries d ps"
  shows "(case p_getAll (lit ''peer'') ps of [] \<Rightarrow> None | p # _ \<Rightarrow> if p = [] then None else Some p) = iv_peerId d"
    "(if length (p_getAll (lit ''peer'') ps) > 1 then Some (tl (p_getAll (lit ''peer'') ps)) else None) = iv_peers d"
proof -
  let ?l = "case iv_peers d of None \<Rightarrow> [] | Some l \<Rightarrow> l"
  have "filter (\<lambda>p. Some p \<noteq> iv_peerId d) ?l = ?l"
    using assms(1) by (auto simp: wf_invite_def list_all_iff intro!: filter_True split: option.split)
  then have all: "p_getAll (lit ''peer'') ps = field (iv_peerId d) @ ?l"
    using assms(2) unfolding carries_def by simp
  have good: "good_field (iv_peerId d)" using assms(1) by (simp add: wf_invite_def)
  show "(case p_getAll (lit ''peer'') ps of [] \<Rightarrow> None | p # _ \<Rightarrow> if p = [] then None else Some p) = iv_peerId d"
    "(if length (p_getAll (lit ''peer'') ps) > 1 then Some (tl (p_getAll (lit ''peer'') ps)) else None) = iv_peers d"
    using assms(1) good unfolding all wf_invite_def
    by (cases "iv_peerId d"; cases "iv_peers d"; simp add: field_def good_field_def)+
qed

lemma read_back:
  assumes "wf_invite d" "carries d ps"
  shows "read_invite (iv_host d) (iv_port d) (iv_code d) (iv_secure d) ps = d"
    and "p_get (lit ''secure'') ps = Some (lit ''1'') \<or> iv_port d = 443 \<longleftrightarrow> iv_secure d"
proof -
  note texts = param_text_read [of _ ps] and nums = param_number_read [of _ ps]
  have f: "param_text ''sig'' ps = iv_signature d" "param_text ''inviter'' ps = iv_inviterId d"
    "param_text ''i'' ps = iv_inviteId d" "param_text ''ws'' ps = iv_workspaceId d"
    "param_text ''name'' ps = iv_workspaceName d" "param_text ''alias'' ps = iv_alias d"
    "param_text ''tpk'' ps = iv_transportKey d" "param_text ''pk'' ps = iv_publicKey d"
    using assms unfolding carries_def wf_invite_def by (auto intro!: texts)
  have n: "param_number ''max'' ps = iv_maxUses d" "param_number ''exp'' ps = iv_expiresAt d"
    using assms unfolding carries_def wf_invite_def by (auto intro!: nums)
  have path: "(case param_text ''path'' ps of Some t \<Rightarrow> t | None \<Rightarrow> lit ''/peerjs'') = iv_path d"
    using assms by (simp add: carries_def wf_invite_def param_text_def get_first)
  have l: "p_getAll (lit ''fallback'') ps = iv_fallback d" "p_getAll (lit ''turn'') ps = iv_turn d"
    using assms(2) by (simp_all add: carries_def)
  have "iv_isBot d \<in> {None, Some True}" "iv_allowDMs d \<in> {None, Some False}" using assms(1) by (simp_all add: wf_invite_def)
  moreover have "p_get (lit ''bot'') ps = Some (lit ''1'') \<longleftrightarrow> iv_isBot d = Some True"
    "p_get (lit ''wdm'') ps = Some (lit ''0'') \<longleftrightarrow> iv_allowDMs d = Some False"
    using assms by (simp_all add: carries_def get_first)
  ultimately have b: "(if p_get (lit ''bot'') ps = Some (lit ''1'') then Some True else None) = iv_isBot d"
    "(if p_get (lit ''wdm'') ps = Some (lit ''0'') then Some False else None) = iv_allowDMs d"
    by auto
  show "read_invite (iv_host d) (iv_port d) (iv_code d) (iv_secure d) ps = d"
    by (simp only: read_invite_def f n path l b read_peers [OF assms]) simp
  show "p_get (lit ''secure'') ps = Some (lit ''1'') \<or> iv_port d = 443 \<longleftrightarrow> iv_secure d"
    using assms by (auto simp: carries_def wf_invite_def get_first)
qed

subsection \<open>Host and port\<close>

lemma host_port_plain:
  assumes "h \<noteq> []" "list_all host_char h" "take 1 path \<in> {[], [47]}"
  shows "parseHostPort (h @ 58 # lit (show_int p) @ path) = Inr (h, p, path)"
proof -
  let ?n = "lit (show_int p)"
  have h: "47 \<notin> set h" "take 1 h \<noteq> [91]"
    using assms by (cases h; auto simp: host_char_def list_all_iff)+
  note n = number_plain [of p]
  have tw: "takeWhile (\<lambda>u. u \<noteq> 47) (a @ path) = a" "dropWhile (\<lambda>u. u \<noteq> 47) (a @ path) = path" if "47 \<notin> set a" for a
    using that assms(3) by (cases path; auto simp: takeWhile_append dropWhile_append)+
  have cut: "takeWhile (\<lambda>u. u \<noteq> 47) (h @ 58 # ?n @ path) = h @ 58 # ?n" "dropWhile (\<lambda>u. u \<noteq> 47) (h @ 58 # ?n @ path) = path"
    using tw [of "h @ 58 # ?n"] h n by simp_all
  have last: "dropWhile (\<lambda>u. u \<noteq> 58) (rev (h @ 58 # ?n)) = 58 # rev h" "takeWhile (\<lambda>u. u \<noteq> 58) (rev (h @ 58 # ?n)) = rev ?n"
    using n by (simp_all add: takeWhile_append dropWhile_append)
  have "take 1 (h @ 58 # ?n @ path) \<noteq> [91]" using h assms(1) by (cases h) auto
  then show ?thesis
    unfolding parseHostPort_def Let_def cut last using n by (simp add: tw parse_int_number)
qed

lemma host_port_brackets:
  assumes "list_all host_char h" "take 1 path \<in> {[], [47]}"
  shows "parseHostPort (91 # h @ 93 # 58 # lit (show_int p) @ path) = Inr (h, p, path)"
proof -
  let ?n = "lit (show_int p)"
  have h: "93 \<notin> set h" using assms by (auto simp: host_char_def list_all_iff)
  note n = number_plain [of p]
  have "takeWhile (\<lambda>u. u \<noteq> 47) (?n @ path) = ?n" "dropWhile (\<lambda>u. u \<noteq> 47) (?n @ path) = path"
    using n assms(2) by (cases path; auto simp: takeWhile_append dropWhile_append)+
  then show ?thesis
    using h by (simp add: parseHostPort_def takeWhile_append dropWhile_append parse_int_number)
qed


subsection \<open>Both formats\<close>

text \<open>
  The \<open>URL\<close> class splits an ordinary link at the first slash after the host and at the question mark. \<open>plain_url\<close>
  is a function that does this.
\<close>

definition path_char :: "nat \<Rightarrow> bool" where
  "path_char u \<longleftrightarrow> code_char u \<or> u = 47"

definition reads_links :: "(js_text \<Rightarrow> url_parts option) \<Rightarrow> js_text \<Rightarrow> bool" where
  "reads_links url_of host \<longleftrightarrow>
     (\<forall>path query. list_all path_char path \<longrightarrow> list_all query_char query \<longrightarrow>
        url_of (lit ''https://'' @ host @ 47 # path @ 63 # query) =
          Some \<lparr>url_hostname = host, url_pathname = 47 # path, url_query = query\<rparr>)"

definition plain_url :: "js_text \<Rightarrow> url_parts option" where
  "plain_url t =
     (let rest = drop 8 t; tail = dropWhile (\<lambda>u. u \<noteq> 47) rest
      in if starts_with (lit ''https://'') t
         then Some \<lparr>url_hostname = takeWhile (\<lambda>u. u \<noteq> 47) rest, url_pathname = takeWhile (\<lambda>u. u \<noteq> 63) tail,
                    url_query = tl (dropWhile (\<lambda>u. u \<noteq> 63) tail)\<rparr>
         else None)"

lemma plain_url_reads: "list_all host_char host \<Longrightarrow> reads_links plain_url host"
proof -
  assume "list_all host_char host"
  then have h: "takeWhile (\<lambda>u. u \<noteq> 47) (host @ 47 # s) = host" "dropWhile (\<lambda>u. u \<noteq> 47) (host @ 47 # s) = 47 # s" for s
    by (auto simp: takeWhile_append dropWhile_append host_char_def list_all_iff)
  have p: "takeWhile (\<lambda>u. u \<noteq> 63) (47 # path @ 63 # query) = 47 # path" "dropWhile (\<lambda>u. u \<noteq> 63) (47 # path @ 63 # query) = 63 # query"
    if "list_all path_char path" for path query
    using that by (auto simp: takeWhile_append dropWhile_append path_char_def code_char_def is_digit_def list_all_iff)
  have d: "drop 8 (lit ''https://'' @ s) = s" for s by (simp add: lit_def)
  show ?thesis
    unfolding reads_links_def plain_url_def d Let_def h
  proof (intro allI impI)
    fix path query :: js_text
    assume "list_all path_char path"
    from p [OF this] show "(if starts_with (lit ''https://'') (lit ''https://'' @ host @ 47 # path @ 63 # query)
        then Some \<lparr>url_hostname = host, url_pathname = takeWhile (\<lambda>u. u \<noteq> 63) (47 # path @ 63 # query),
          url_query = tl (dropWhile (\<lambda>u. u \<noteq> 63) (47 # path @ 63 # query))\<rparr> else None) =
        Some \<lparr>url_hostname = host, url_pathname = 47 # path, url_query = query\<rparr>" by simp
  qed
qed

lemma visible_parts:
  "list_all host_char h \<Longrightarrow> visible h" "list_all code_char c \<Longrightarrow> visible c"
  "list_all query_char q \<Longrightarrow> visible q"
  by (auto simp: visible_def list_all_iff host_char_def code_char_def query_char_def form_safe_def is_digit_def)

lemma code_plain: "list_all code_char c \<Longrightarrow> u \<in> {47, 63} \<Longrightarrow> u \<notin> set c"
  by (auto simp: list_all_iff code_char_def is_digit_def)

lemma web_path:
  assumes "list_all code_char c" "c \<noteq> []"
  shows "filter (\<lambda>p. p \<noteq> []) (split_on 47 (47 # lit ''join'' @ 47 # c)) = [lit ''join'', c]"
proof -
  have "split_on 47 (lit ''join'' @ 47 # c) = [lit ''join'', c]"
    using split_on_append [of 47 "lit ''join''" c] split_on_plain [of 47 c] code_plain [OF assms(1)] by (simp add: lit_def)
  then show ?thesis using assms by simp
qed

lemma decode_web:
  assumes wf: "wf_invite d" and url: "reads_links url_of site" and site: "visible site"
  shows "decode_invite url_of (encode_invite site d) = Inr d"
proof -
  let ?q = "params_toString (web_params d)" let ?path = "lit ''join'' @ 47 # iv_code d"
  let ?link = "lit ''https://'' @ site @ 47 # ?path @ 63 # ?q"
  have code: "list_all code_char (iv_code d)" "iv_code d \<noteq> []" and host: "list_all host_char (iv_host d)" "iv_host d \<noteq> []"
    using wf by (simp_all add: wf_invite_def)
  have q: "list_all query_char ?q" by (rule params_query [OF sendable_invite(2) [OF wf]])
  have link: "encode_invite site d = ?link" by (simp add: encode_invite_def web_params_def lit_def)
  have vis: "visible (lit ''https://'')" "visible (lit ''join'')" by (simp_all add: visible_def lit_def)
  have "visible ?link" using site visible_parts(2) [OF code(1)] visible_parts(3) [OF q] vis by simp
  then have trim: "text_trim ?link = ?link" by (rule visible_trim)
  have path: "list_all path_char ?path"
    using code by (auto simp: list_all_iff path_char_def code_char_def is_digit_def lit_def)
  have read: "url_of ?link = Some \<lparr>url_hostname = site, url_pathname = 47 # ?path, url_query = ?q\<rparr>"
    using url path q unfolding reads_links_def by blast
  have signal: "param_text ''signal'' (web_params d) = Some (iv_host d @ 58 # lit (show_int (iv_port d)))"
    by (simp add: param_text_def get_first signal_web)
  have at: "parseHostPort (iv_host d @ 58 # lit (show_int (iv_port d))) = Inr (iv_host d, iv_port d, [])"
    using host_port_plain [OF host(2,1), of "[]"] by simp
  have ix: "index_in (lit ''join'') [lit ''join'', iv_code d] = Some 0" by simp
  have "decodeWebURL url_of ?link = Inr d"
    unfolding decodeWebURL_def read
    by (simp add: web_path [OF code] ix params_roundtrip [OF sendable_invite(2) [OF wf]] signal at
        read_back [OF wf carries_web] del: split_on.simps index_in.simps)
  then show ?thesis unfolding link decode_invite_def trim Let_def by simp
qed

lemma decode_native:
  assumes wf: "wf_invite d"
  shows "decode_invite url_of (encodeNative d) = Inr d"
proof -
  let ?h = "if 58 \<in> set (iv_host d) then 91 # iv_host d @ [93] else iv_host d"
  let ?q = "params_toString (native_params d)"
  let ?tail = "if ?q \<noteq> [] then 63 # ?q else []"
  let ?front = "?h @ 58 # lit (show_int (iv_port d)) @ 47 # iv_code d"
  have code: "list_all code_char (iv_code d)" "iv_code d \<noteq> []" and host: "list_all host_char (iv_host d)" "iv_host d \<noteq> []"
    using wf by (simp_all add: wf_invite_def)
  have q: "list_all query_char ?q" by (rule params_query [OF sendable_invite(1) [OF wf]])
  have link: "encodeNative d = lit ''decent://'' @ ?front @ ?tail"
    by (simp add: encodeNative_def native_params_def Let_def)
  have vis: "visible (lit ''decent://'')" by (simp add: visible_def lit_def)
  have "visible (encodeNative d)"
    using vis visible_parts(1) [OF host(1)] visible_parts(2) [OF code(1)] visible_parts(3) [OF q] visible_number
    unfolding link by simp
  then have trim: "text_trim (encodeNative d) = encodeNative d" by (rule visible_trim)
  have no: "63 \<notin> set ?front"
    using host code_plain [OF code(1), of 63] number_chars [of 63 "iv_port d"]
    by (auto simp: host_char_def list_all_iff is_digit_def)
  have cut: "takeWhile (\<lambda>u. u \<noteq> 63) (?front @ ?tail) = ?front" "tl (dropWhile (\<lambda>u. u \<noteq> 63) (?front @ ?tail)) = ?q"
    using no by (auto simp: takeWhile_append dropWhile_append simp del: append_assoc)
  have at: "parseHostPort ?front = Inr (iv_host d, iv_port d, 47 # iv_code d)"
    using host_port_plain [OF host(2,1), of "47 # iv_code d"] host_port_brackets [OF host(1), of "47 # iv_code d"] by simp
  have d: "drop 9 (lit ''decent://'' @ s) = s" "\<not> starts_with (lit ''http://'') (lit ''decent://'' @ s)"
    "\<not> starts_with (lit ''https://'') (lit ''decent://'' @ s)" for s by (simp_all add: lit_def starts_with_def)
  show ?thesis
    unfolding decode_invite_def trim Let_def
    unfolding link d cut at
    using code(2)
    by (simp add: d params_roundtrip [OF sendable_invite(1) [OF wf]] read_back [OF wf carries_native])
qed

text \<open>
  Property C26. Every invite whose host name, code and texts are plain is read back unchanged from the link in either
  format, with its servers, peers, expiry, limits and signature, for every \<open>URL\<close> class that splits ordinary links.
\<close>

theorem invite_roundtrip:
  assumes "wf_invite d" "reads_links url_of site" "visible site"
  shows "decode_invite url_of (encode_invite site d) = Inr d \<and>
    decode_invite url_of (encodeNative d) = Inr d"
  using decode_web [OF assms] decode_native [OF assms(1)] by simp_all

definition sample_invite :: invite_data where
  "sample_invite =
     \<lparr>iv_host = lit ''::1'', iv_port = 9090, iv_code = lit ''ABC123'', iv_secure = True, iv_path = lit ''/peerjs'',
      iv_fallback = DEFAULT_PUBLIC_SERVERS, iv_turn = [], iv_peerId = Some (lit ''alice''), iv_peers = Some [lit ''bob''],
      iv_publicKey = Some (lit ''key''), iv_transportKey = None, iv_alias = Some [0xD83D, 0xDE00], iv_isBot = None,
      iv_allowDMs = Some False, iv_workspaceId = Some (lit ''w1''), iv_workspaceName = Some (lit ''A & B = C''),
      iv_expiresAt = Some 1700000000000, iv_maxUses = Some 5, iv_inviteId = Some (lit ''i1''), iv_inviterId = None,
      iv_signature = Some (lit ''c2ln'')\<rparr>"

lemma sample_invite_ok: "wf_invite sample_invite"
  by (simp add: sample_invite_def wf_invite_def good_field_def host_char_def code_char_def is_digit_def
      lit_def DEFAULT_PUBLIC_SERVERS_def surrogate_defs)

lemma invite_roundtrip_witness:
  "decode_invite plain_url (encode_invite (lit ''decentchat.app'') sample_invite) = Inr sample_invite"
proof -
  have "list_all host_char (lit ''decentchat.app'')" by (simp add: host_char_def lit_def)
  moreover have "visible (lit ''decentchat.app'')" by (simp add: visible_def lit_def)
  ultimately show ?thesis using invite_roundtrip [OF sample_invite_ok plain_url_reads] by blast
qed


end
