(* ===== verification/InviteSignatures.thy ===== *)
theory InviteSignatures
  imports InviteLinks PeerSessions
begin

section \<open>What an invite signature protects\<close>

text \<open>
  The check a joining client makes (\<open>ChatController.ts\<close>), the round trip of \<open>invite/InviteAuth.ts\<close> and how little of an
  invite is bound by its signature.
\<close>

text \<open>A client checks the signature only when signature and key are there, with the key of the invite itself.\<close>

definition invite_signature_ok :: "('sk, 'pk, 'gk, 'vk) suite \<Rightarrow> invite_data \<Rightarrow> bool" where
  "invite_signature_ok cs d =
     (if text_or_empty (iv_signature d) \<noteq> [] \<and> text_or_empty (iv_publicKey d) \<noteq> []
      then list_all (\<lambda>u. u < 256) (text_or_empty (iv_publicKey d)) \<and>
           verifyInviteSignature cs (KeyText (map char_of (text_or_empty (iv_publicKey d)))) d
      else True)"

subsection \<open>base64url\<close>

lemma b64_url_table: "list_all (\<lambda>i. b64_char i \<notin> {CHR ''-'', CHR ''_'', CHR ''=''}) [0..<64]"
  by code_simp

lemma drop_padding:
  assumes "list_all (\<lambda>c. c \<noteq> x) xs"
  shows "rev (dropWhile (\<lambda>c. c = x) (rev (xs @ replicate n x))) = xs"
proof -
  have "dropWhile (\<lambda>c. c = x) (replicate n x @ rev xs) = rev xs"
    using assms by (induction n; cases xs rule: rev_cases) simp_all
  then show ?thesis by simp
qed

lemma base64url_roundtrip: "fromBase64url (toBase64url bs) = Some bs"
proof -
  let ?to = "\<lambda>c. if c = CHR ''+'' then CHR ''-'' else if c = CHR ''/'' then CHR ''_'' else c"
  let ?from = "\<lambda>c. if c = CHR ''-'' then CHR ''+'' else if c = CHR ''_'' then CHR ''/'' else c"
  define cs where "cs = map b64_char (sextets (map unat bs))"
  define n where "n = (3 - length bs mod 3) mod 3"
  have b64: "arrayBufferToBase64 bs = cs @ replicate n CHR ''=''"
    by (simp add: arrayBufferToBase64_def btoa_def cs_def n_def)
  have plain: "list_all (\<lambda>c. c \<notin> {CHR ''-'', CHR ''_'', CHR ''=''}) cs"
    using b64_url_table sextets_lt [OF bytes_lt] by (auto simp: cs_def list_all_iff)
  have "list_all (\<lambda>c. c \<noteq> CHR ''='') (map ?to cs)" using plain by (auto simp: list_all_iff)
  from drop_padding [OF this, of n] have link: "toBase64url bs = map ?to cs"
    unfolding toBase64url_def b64 by simp
  have again: "map ?from (map ?to cs) = cs" using plain by (induction cs) auto
  have "length cs mod 4 + n = (if length bs mod 3 = 0 then 0 else 4)" "n < 4"
    using sextets_length [of "map unat bs"] by (simp_all add: cs_def n_def)
  then have "(4 - length cs mod 4) mod 4 = n" by (auto split: if_splits)
  then have "fromBase64url (toBase64url bs) = base64ToArrayBuffer (arrayBufferToBase64 bs)"
    unfolding fromBase64url_def link Let_def again b64 by simp
  then show ?thesis by (simp add: base64_roundtrip)
qed

subsection \<open>Signing\<close>

definition sound_verifier :: "('sk, 'pk, 'gk, 'vk) suite \<Rightarrow> 'gk \<Rightarrow> 'vk \<Rightarrow> bool" where
  "sound_verifier cs gk vk \<longleftrightarrow> (\<forall>m. ecdsa_sign cs gk m \<noteq> [] \<and> ecdsa_verify cs vk (ecdsa_sign cs gk m) m)"

lemma chars_of_lit: "map char_of (lit s) = s" "list_all (\<lambda>u. u < 256) (lit s)"
  using latin_unit by (simp_all add: lit_def comp_def list_all_iff)

lemma no_empty_signature: "bs \<noteq> [] \<Longrightarrow> toBase64url bs \<noteq> []"
proof
  have empty: "fromBase64url [] = Some []" by code_simp
  assume "toBase64url bs = []" "bs \<noteq> []"
  with base64url_roundtrip [of bs] empty show False by simp
qed

lemma signed_text: "sound_verifier cs gk vk \<Longrightarrow> signInvite cs gk d \<noteq> []"
  by (simp add: signInvite_def sound_verifier_def no_empty_signature)

text \<open>What \<open>verifyInviteSignature\<close> answers for a signature made over the same payload.\<close>

lemma verify_own:
  assumes "sound_verifier cs gk vk" "getSignPayload d = getSignPayload e" "iv_signature e = Some (lit (signInvite cs gk d))"
  shows "verifyInviteSignature cs (KeyObject vk) e"
    and "sound_suite cs \<Longrightarrow> verifyInviteSignature cs (KeyText (exportVerifier cs vk)) e"
proof -
  obtain u us where sig: "lit (signInvite cs gk d) = u # us"
    using signed_text [OF assms(1), of d] by (cases "lit (signInvite cs gk d)") simp_all
  have bytes: "fromBase64url (map char_of (u # us)) = Some (ecdsa_sign cs gk (encode_text (getSignPayload d)))"
    "list_all (\<lambda>u. u < 256) (u # us)"
    unfolding sig [symmetric] chars_of_lit(1) by (simp_all add: chars_of_lit signInvite_def base64url_roundtrip)
  show "verifyInviteSignature cs (KeyObject vk) e"
    "sound_suite cs \<Longrightarrow> verifyInviteSignature cs (KeyText (exportVerifier cs vk)) e"
    using assms bytes unfolding verifyInviteSignature_def
    by (simp_all add: text_or_empty_def sig sound_verifier_def import_verifier)
qed

text \<open>
  Property C27. A signature protects an invite against nobody. The inviter's signature stays valid when host, port, peers,
  servers and names are replaced, because the payload leaves them out; and any invite at all, in particular one with a later
  expiry and more uses, passes the client's check once it carries the key and signature of whoever changed it.
\<close>

theorem altered_invite_accepted:
  assumes "sound_verifier cs gk vk" "sound_suite cs" "sound_verifier cs own_gk own_vk"
  shows "verifyInviteSignature cs (KeyObject vk)
      (d\<lparr>iv_signature := Some (lit (signInvite cs gk d)), iv_host := h, iv_port := p, iv_secure := s, iv_peerId := q, iv_peers := qs,
         iv_fallback := f, iv_turn := t, iv_workspaceName := n, iv_inviterId := i\<rparr>) \<and>
    invite_signature_ok cs
      (e\<lparr>iv_publicKey := Some (lit (exportVerifier cs own_vk)), iv_signature := Some (lit (signInvite cs own_gk e))\<rparr>)"
proof (intro conjI)
  show "verifyInviteSignature cs (KeyObject vk)
      (d\<lparr>iv_signature := Some (lit (signInvite cs gk d)), iv_host := h, iv_port := p, iv_secure := s, iv_peerId := q, iv_peers := qs,
         iv_fallback := f, iv_turn := t, iv_workspaceName := n, iv_inviterId := i\<rparr>)"
    by (rule verify_own(1) [OF assms(1), of d]) (simp_all add: getSignPayload_def Let_def)
  have "verifyInviteSignature cs (KeyText (exportVerifier cs own_vk))
      (e\<lparr>iv_publicKey := Some (lit (exportVerifier cs own_vk)), iv_signature := Some (lit (signInvite cs own_gk e))\<rparr>)"
    by (rule verify_own(2) [OF assms(3), of e, OF _ _ assms(2)]) (simp_all add: getSignPayload_def Let_def)
  then show "invite_signature_ok cs
      (e\<lparr>iv_publicKey := Some (lit (exportVerifier cs own_vk)), iv_signature := Some (lit (signInvite cs own_gk e))\<rparr>)"
    by (simp add: invite_signature_ok_def text_or_empty_def chars_of_lit)
qed

lemma altered_invite_accepted_witness:
  "invite_signature_ok sample_suite
     (sample_invite\<lparr>iv_publicKey := Some (lit (exportVerifier sample_suite 7)), iv_signature := Some (lit (signInvite sample_suite 7 sample_invite))\<rparr>)"
  by (rule conjunct2 [OF altered_invite_accepted [of sample_suite 3 3 7 7]]) (simp_all add: sound_verifier_def sample_suite_sound)

end
