(* ===== verification/MediaTransfer.thy ===== *)
theory MediaTransfer
  imports Complex_Main Base64 JsText
begin

section \<open>Attachments and their transfer in chunks\<close>

text \<open>
  \<open>media/Attachment.ts\<close>, \<open>media/ChunkedTransfer.ts\<close> and the handlers of \<open>ChatController.ts\<close> that serve and
  download an attachment. The argument \<open>sha\<close> is SHA-256. Ratios of the progress report are exact (\<open>rat\<close>) where the
  code computes with doubles; chunk sizes are positive. Long dashes in error texts are written \<open>-\<close>.
\<close>

subsection \<open>Attachments\<close>

datatype attachment_type = Image | Video | Audio | Voice | File

datatype attachment_status = Available | Downloading | Pruned | Unavailable | Pending

record attachment_meta =
  at_id :: string
  at_mimeType :: string
  at_type :: attachment_type
  at_name :: string
  at_size :: int
  at_hash :: string
  at_encryptedHash :: "string option"
  at_thumbnail :: "string option"
  at_width :: "int option"
  at_height :: "int option"
  at_durationSec :: "rat option"
  at_iv :: "string option"
  at_encryptionKey :: "string option"

record media_chunk =
  ck_attachmentId :: string
  ck_index :: int
  ck_total :: int
  ck_data :: string
  ck_chunkHash :: string

definition CHUNK_SIZE :: int where
  "CHUNK_SIZE = 64 * 1024"

definition inferAttachmentType :: "string \<Rightarrow> attachment_type" where
  "inferAttachmentType mime =
     (if starts_with ''image/'' mime then Image
      else if starts_with ''video/'' mime then Video
      else if starts_with ''audio/ogg'' mime \<or> mime = ''audio/webm'' then Voice
      else if starts_with ''audio/'' mime then Audio
      else File)"

definition ceil_div :: "int \<Rightarrow> int \<Rightarrow> int" where
  "ceil_div a b = - ((- a) div b)"

definition calculateChunkCount :: "int \<Rightarrow> int \<Rightarrow> int" where
  "calculateChunkCount fileSize chunkSize = ceil_div fileSize chunkSize"

definition createAttachmentMeta ::
    "string \<Rightarrow> string \<Rightarrow> int \<Rightarrow> string \<Rightarrow> string \<Rightarrow> string option \<Rightarrow> int option \<Rightarrow> int option \<Rightarrow> rat option \<Rightarrow> attachment_meta" where
  "createAttachmentMeta uuid name sz mime hash thumb width height duration =
     \<lparr>at_id = uuid, at_mimeType = (if mime = [] then ''application/octet-stream'' else mime), at_type = inferAttachmentType mime,
      at_name = name, at_size = sz, at_hash = hash, at_encryptedHash = None, at_thumbnail = thumb, at_width = width,
      at_height = height, at_durationSec = duration, at_iv = None, at_encryptionKey = None\<rparr>"

definition hashBlob :: "(bytes \<Rightarrow> bytes) \<Rightarrow> bytes \<Rightarrow> string" where
  "hashBlob sha data = hex_bytes (sha data)"

subsection \<open>The sender\<close>

record sender =
  sd_attachmentId :: string
  sd_data :: bytes
  sd_chunkSize :: int
  sd_totalChunks :: int

definition new_sender :: "string \<Rightarrow> bytes \<Rightarrow> int \<Rightarrow> sender" where
  "new_sender a data sz =
     \<lparr>sd_attachmentId = a, sd_data = data, sd_chunkSize = sz, sd_totalChunks = ceil_div (int (length data)) sz\<rparr>"

definition byte_slice :: "bytes \<Rightarrow> int \<Rightarrow> int \<Rightarrow> bytes" where
  "byte_slice b start stop = take (nat (stop - start)) (drop (nat start) b)"

definition getChunk :: "(bytes \<Rightarrow> bytes) \<Rightarrow> sender \<Rightarrow> int \<Rightarrow> media_chunk result" where
  "getChunk sha s i =
     (if i < 0 \<or> i \<ge> sd_totalChunks s
      then Inl (''Chunk index '' @ show_int i @ '' out of range (0-'' @ show_int (sd_totalChunks s - 1) @ '')'')
      else
        (let start = i * sd_chunkSize s;
             chunkData = byte_slice (sd_data s) start (min (start + sd_chunkSize s) (int (length (sd_data s))))
         in Inr \<lparr>ck_attachmentId = sd_attachmentId s, ck_index = i, ck_total = sd_totalChunks s,
                 ck_data = arrayBufferToBase64 chunkData, ck_chunkHash = hashBlob sha chunkData\<rparr>))"

text \<open>What a consumer of the generator sees: the values up to the first exception, and that exception.\<close>

fun until_error :: "'a result list \<Rightarrow> 'a list \<times> string option" where
  "until_error [] = ([], None)"
| "until_error (Inl e # rs) = ([], Some e)"
| "until_error (Inr x # rs) = (case until_error rs of (xs, e) \<Rightarrow> (x # xs, e))"

definition chunks :: "(bytes \<Rightarrow> bytes) \<Rightarrow> sender \<Rightarrow> int \<Rightarrow> media_chunk list \<times> string option" where
  "chunks sha s fromIndex = until_error (map (getChunk sha s) [fromIndex..sd_totalChunks s - 1])"

subsection \<open>The receiver\<close>

record receiver =
  rv_attachmentId :: string
  rv_totalChunks :: int
  rv_expectedHash :: string
  rv_chunks :: "(int, bytes) jsmap"
  rv_bytesReceived :: int
  rv_lastProgressTime :: time
  rv_lastProgressBytes :: int

record progress =
  pg_attachmentId :: string
  pg_receivedChunks :: int
  pg_totalChunks :: int
  pg_progress :: "rat option"
  pg_bytesReceived :: int
  pg_bytesTotal :: int
  pg_etaMs :: "rat option"
  pg_throughputBps :: "rat option"

definition new_receiver :: "time \<Rightarrow> string \<Rightarrow> int \<Rightarrow> string \<Rightarrow> receiver" where
  "new_receiver now a tot expectedHash =
     \<lparr>rv_attachmentId = a, rv_totalChunks = tot, rv_expectedHash = expectedHash, rv_chunks = [], rv_bytesReceived = 0,
      rv_lastProgressTime = now, rv_lastProgressBytes = 0\<rparr>"

definition chunk_count :: "receiver \<Rightarrow> int" where
  "chunk_count r = int (length (rv_chunks r))"

definition getProgress :: "receiver \<Rightarrow> progress" where
  "getProgress r =
     \<lparr>pg_attachmentId = rv_attachmentId r, pg_receivedChunks = chunk_count r, pg_totalChunks = rv_totalChunks r,
      pg_progress = (if rv_totalChunks r = 0 then None else Some (of_int (chunk_count r) / of_int (rv_totalChunks r))),
      pg_bytesReceived = rv_bytesReceived r, pg_bytesTotal = 0, pg_etaMs = None, pg_throughputBps = None\<rparr>"

text \<open>Throughput and remaining time of a receiver that has just stored a chunk.\<close>

definition throughput :: "time \<Rightarrow> receiver \<Rightarrow> rat option" where
  "throughput now r =
     (let elapsed = now - rv_lastProgressTime r
      in if elapsed > 0 then Some (of_int (rv_bytesReceived r - rv_lastProgressBytes r) / of_int elapsed * 1000) else None)"

definition eta :: "time \<Rightarrow> receiver \<Rightarrow> rat option" where
  "eta now r =
     (let remaining = rv_totalChunks r - chunk_count r
      in case throughput now r of
           None \<Rightarrow> None
         | Some bps \<Rightarrow>
             (if bps > 0 \<and> remaining > 0
              then Some (of_int remaining * (of_int (rv_bytesReceived r) / of_int (chunk_count r)) / bps * 1000)
              else None))"

definition addChunk :: "(bytes \<Rightarrow> bytes) \<Rightarrow> time \<Rightarrow> media_chunk \<Rightarrow> receiver \<Rightarrow> progress result \<times> receiver" where
  "addChunk sha now c r =
     (if ck_attachmentId c \<noteq> rv_attachmentId r
      then (Inl (''Chunk for wrong attachment: '' @ ck_attachmentId c @ '' vs '' @ rv_attachmentId r), r)
      else if ck_index c < 0 \<or> ck_index c \<ge> rv_totalChunks r
      then (Inl (''Chunk index '' @ show_int (ck_index c) @ '' out of range''), r)
      else
        (case base64ToArrayBuffer (ck_data c) of
           None \<Rightarrow> (Inl ''InvalidCharacterError'', r)
         | Some data \<Rightarrow>
             (if hashBlob sha data \<noteq> ck_chunkHash c
              then (Inl (''Chunk '' @ show_int (ck_index c) @ '' hash mismatch - corrupted transfer''), r)
              else
                (let r1 = r\<lparr>rv_chunks := jm_set (ck_index c) data (rv_chunks r),
                           rv_bytesReceived := rv_bytesReceived r + int (length data)\<rparr>;
                     r2 = (if now - rv_lastProgressTime r > 1000
                           then r1\<lparr>rv_lastProgressTime := now, rv_lastProgressBytes := rv_bytesReceived r1\<rparr> else r1)
                 in (Inr ((getProgress r1)\<lparr>pg_etaMs := eta now r1, pg_throughputBps := throughput now r1\<rparr>), r2)))))"

definition isComplete :: "receiver \<Rightarrow> bool" where
  "isComplete r \<longleftrightarrow> chunk_count r = rv_totalChunks r"

definition getMissingChunks :: "receiver \<Rightarrow> int list" where
  "getMissingChunks r = filter (\<lambda>i. \<not> jm_has (rv_chunks r) i) [0..rv_totalChunks r - 1]"

fun join_chunks :: "(int, bytes) jsmap \<Rightarrow> int list \<Rightarrow> bytes option" where
  "join_chunks m [] = Some []"
| "join_chunks m (i # is) = Option.bind (jm_get m i) (\<lambda>c. map_option (\<lambda>rest. c @ rest) (join_chunks m is))"

definition assemble :: "(bytes \<Rightarrow> bytes) \<Rightarrow> receiver \<Rightarrow> bytes result" where
  "assemble sha r =
     (if \<not> isComplete r
      then Inl (''Transfer incomplete: '' @ show_int (chunk_count r) @ ''/'' @ show_int (rv_totalChunks r) @ '' chunks'')
      else
        (case join_chunks (rv_chunks r) [0..rv_totalChunks r - 1] of
           None \<Rightarrow> Inl ''TypeError''
         | Some b \<Rightarrow>
             (if hashBlob sha b \<noteq> rv_expectedHash r
              then Inl (''Assembled blob hash mismatch - expected '' @ take 16 (rv_expectedHash r) @ ''..., got '' @
                        take 16 (hashBlob sha b) @ ''...'')
              else Inr b)))"

subsection \<open>Serving and downloading\<close>

text \<open>The requests and answers on the wire.\<close>

record media_request =
  mq_attachmentId :: string
  mq_fromChunk :: "int option"

datatype media_message = MediaResponse string bool int | MediaChunk media_chunk

text \<open>
  \<open>handleMediaRequest\<close>: the messages sent to the requester and the new table of senders; \<open>blob\<close> is the decrypted
  blob of the store, if it has one. \<open>handleMediaResponse\<close> and \<open>handleMediaChunk\<close>: the table of running downloads;
  a finished download is the second component, which \<open>MediaDownload\<close> encrypts and stores.
\<close>

definition handleMediaRequest ::
    "(bytes \<Rightarrow> bytes) \<Rightarrow> bytes option \<Rightarrow> media_request \<Rightarrow> (string, sender) jsmap \<Rightarrow> media_message list \<times> (string, sender) jsmap" where
  "handleMediaRequest sha blob q senders =
     (let a = mq_attachmentId q;
          start = (case mq_fromChunk q of None \<Rightarrow> 0 | Some n \<Rightarrow> n);
          serve = (\<lambda>s. MediaResponse a True (sd_totalChunks s) # map MediaChunk (fst (chunks sha s start)))
      in case jm_get senders a of
           Some s \<Rightarrow> (serve s, senders)
         | None \<Rightarrow>
             (case blob of
                None \<Rightarrow> ([MediaResponse a False 0], senders)
              | Some b \<Rightarrow> (let s = new_sender a b CHUNK_SIZE in (serve s, jm_set a s senders))))"

definition handleMediaResponse ::
    "(string \<Rightarrow> attachment_meta option) \<Rightarrow> time \<Rightarrow> string \<Rightarrow> bool \<Rightarrow> int \<Rightarrow> (string, receiver) jsmap \<Rightarrow> (string, receiver) jsmap" where
  "handleMediaResponse known now a available tot transfers =
     (if \<not> available then transfers
      else (case known a of
              None \<Rightarrow> transfers
            | Some att \<Rightarrow> jm_set a (new_receiver now a tot (at_hash att)) transfers))"

definition handleMediaChunk ::
    "(bytes \<Rightarrow> bytes) \<Rightarrow> time \<Rightarrow> media_chunk \<Rightarrow> (string, receiver) jsmap \<Rightarrow> (string, receiver) jsmap \<times> bytes option" where
  "handleMediaChunk sha now c transfers =
     (let a = ck_attachmentId c
      in case jm_get transfers a of
           None \<Rightarrow> (transfers, None)
         | Some r \<Rightarrow>
             (case addChunk sha now c r of
                (Inl e, r1) \<Rightarrow> (jm_delete a transfers, None)
              | (Inr p, r1) \<Rightarrow>
                  (if isComplete r1
                   then (case assemble sha r1 of
                           Inl e \<Rightarrow> (jm_delete a transfers, None)
                         | Inr b \<Rightarrow> (jm_delete a transfers, Some b))
                   else (jm_set a r1 transfers, None))))"

subsection \<open>Pieces of a blob\<close>

definition piece :: "nat \<Rightarrow> bytes \<Rightarrow> nat \<Rightarrow> bytes" where
  "piece sz data k = take sz (drop (k * sz) data)"

lemma join_pieces: "concat (map (piece sz data) [0..<n]) = take (n * sz) data"
  by (induction n) (simp_all add: piece_def add.commute flip: take_add)

lemma ceil_div_iff:
  assumes "0 < b"
  shows "i < ceil_div a b \<longleftrightarrow> i * b < a"
proof -
  have le: "j \<le> c div b \<longleftrightarrow> j * b \<le> c" for j c :: int
  proof
    assume "j \<le> c div b"
    then have "j * b \<le> c div b * b" using assms by (simp add: mult_right_mono)
    also have "\<dots> \<le> c" using assms by (simp add: minus_mod_eq_div_mult [symmetric])
    finally show "j * b \<le> c" .
  next
    assume "j * b \<le> c"
    then have "j * b div b \<le> c div b" using assms by (rule zdiv_mono1)
    then show "j \<le> c div b" using assms by simp
  qed
  have "i < ceil_div a b \<longleftrightarrow> \<not> - i \<le> - a div b" by (auto simp: ceil_div_def)
  also have "\<dots> \<longleftrightarrow> i * b < a" unfolding le by auto
  finally show ?thesis .
qed

lemma ceil_div_bounds:
  assumes "0 < b" "0 \<le> a"
  shows "0 \<le> ceil_div a b" "a \<le> ceil_div a b * b"
  using ceil_div_iff [OF assms(1), of "ceil_div a b" a] ceil_div_iff [OF assms(1), of "- 1" a] assms by linarith+

lemma slice_piece:
  assumes "0 < b" "0 \<le> i"
  shows "byte_slice data (i * b) (min (i * b + b) (int (length data))) = piece (nat b) data (nat i)"
proof -
  obtain m k where ik: "i = int m" "b = int k" using assms by (meson nonneg_int_cases less_imp_le)
  have start: "int m * int k = int (m * k)" by simp
  have len: "nat (min (int p + int k) (int n) - int p) = min k (n - p)" for p n by (auto simp: min_def)
  show ?thesis unfolding ik byte_slice_def piece_def start len by (simp add: min_def del: of_nat_mult)
qed

text \<open>The chunks a sender makes.\<close>

definition genuine :: "(bytes \<Rightarrow> bytes) \<Rightarrow> string \<Rightarrow> bytes \<Rightarrow> int \<Rightarrow> int \<Rightarrow> media_chunk" where
  "genuine sha a data sz i =
     \<lparr>ck_attachmentId = a, ck_index = i, ck_total = ceil_div (int (length data)) sz,
      ck_data = arrayBufferToBase64 (piece (nat sz) data (nat i)), ck_chunkHash = hashBlob sha (piece (nat sz) data (nat i))\<rparr>"

lemma getChunk_genuine:
  assumes "0 < sz"
  shows "getChunk sha (new_sender a data sz) i = Inr c \<longleftrightarrow>
    0 \<le> i \<and> i < ceil_div (int (length data)) sz \<and> c = genuine sha a data sz i"
  using slice_piece [OF assms, of i data] by (auto simp: getChunk_def new_sender_def genuine_def Let_def)

lemma chunks_genuine:
  assumes "0 < sz" "0 \<le> lo"
  shows "chunks sha (new_sender a data sz) lo =
    (map (genuine sha a data sz) [lo..ceil_div (int (length data)) sz - 1], None)"
proof -
  have all: "map (getChunk sha (new_sender a data sz)) [lo..ceil_div (int (length data)) sz - 1] =
      map Inr (map (genuine sha a data sz) [lo..ceil_div (int (length data)) sz - 1])"
    using getChunk_genuine [OF assms(1)] assms(2) by auto
  have seen: "until_error (map Inr xs) = (xs, None)" for xs :: "media_chunk list" by (induction xs) simp_all
  have tot: "sd_totalChunks (new_sender a data sz) = ceil_div (int (length data)) sz" by (simp add: new_sender_def)
  show ?thesis by (simp only: chunks_def tot all seen)
qed

subsection \<open>Receiving in any order\<close>

definition refused :: "(bytes \<Rightarrow> bytes) \<Rightarrow> string \<Rightarrow> int \<Rightarrow> media_chunk \<Rightarrow> bool" where
  "refused sha a tot c \<longleftrightarrow> ck_attachmentId c \<noteq> a \<or> ck_index c < 0 \<or> ck_index c \<ge> tot \<or>
     (case base64ToArrayBuffer (ck_data c) of None \<Rightarrow> True | Some d \<Rightarrow> hashBlob sha d \<noteq> ck_chunkHash c)"

lemma addChunk_refused:
  assumes "refused sha (rv_attachmentId r) (rv_totalChunks r) c"
  shows "\<exists>e. addChunk sha now c r = (Inl e, r)"
  using assms by (auto simp: refused_def addChunk_def split: option.splits)

definition receive :: "(bytes \<Rightarrow> bytes) \<Rightarrow> (time \<times> media_chunk) list \<Rightarrow> receiver \<Rightarrow> receiver" where
  "receive sha calls r = fold (\<lambda>(now, c) r. snd (addChunk sha now c r)) calls r"

text \<open>The receiver holds exactly the pieces with an index in \<open>I\<close>.\<close>

definition holds :: "string \<Rightarrow> bytes \<Rightarrow> int \<Rightarrow> string \<Rightarrow> int set \<Rightarrow> receiver \<Rightarrow> bool" where
  "holds a data sz h I r \<longleftrightarrow>
     rv_attachmentId r = a \<and> rv_totalChunks r = ceil_div (int (length data)) sz \<and> rv_expectedHash r = h \<and>
     wf_map (rv_chunks r) \<and> I \<subseteq> {0..<ceil_div (int (length data)) sz} \<and>
     (\<forall>i. jm_get (rv_chunks r) i = (if i \<in> I then Some (piece (nat sz) data (nat i)) else None))"

lemma holds_new: "holds a data sz h {} (new_receiver now a (ceil_div (int (length data)) sz) h)"
  by (simp add: holds_def new_receiver_def)

lemma holds_add:
  assumes "holds a data sz h I r" "0 \<le> i" "i < ceil_div (int (length data)) sz"
  shows "holds a data sz h (insert i I) (snd (addChunk sha now (genuine sha a data sz i) r))"
    and "\<exists>p. fst (addChunk sha now (genuine sha a data sz i) r) = Inr p"
  using assms by (auto simp: holds_def addChunk_def genuine_def base64_roundtrip Let_def jm_get_set)

lemma holds_complete:
  assumes "holds a data sz h I r" "0 < sz"
  shows "isComplete r \<longleftrightarrow> I = {0..<ceil_div (int (length data)) sz}"
proof -
  let ?n = "ceil_div (int (length data)) sz"
  have keys: "set (jm_keys (rv_chunks r)) = I"
    using assms(1) unfolding holds_def set_eq_iff jm_get_keys [symmetric] by simp
  have "length (rv_chunks r) = card I"
    using assms(1) distinct_card [of "jm_keys (rv_chunks r)"] keys by (simp add: holds_def wf_map_def jm_keys_def)
  moreover have "finite I" using keys by (metis List.finite_set)
  moreover have "0 \<le> ?n" using ceil_div_bounds(1) [OF assms(2)] by simp
  moreover have "I \<subseteq> {0..<?n}" using assms(1) by (simp add: holds_def)
  ultimately show ?thesis
    using assms(1) card_subset_eq [of "{0..<?n}" I] by (auto simp: isComplete_def chunk_count_def holds_def)
qed

lemma holds_missing:
  assumes "holds a data sz h I r"
  shows "getMissingChunks r = filter (\<lambda>i. i \<notin> I) [0..ceil_div (int (length data)) sz - 1]"
  using assms by (simp add: getMissingChunks_def holds_def jm_has_def)

lemma join_chunks_map:
  "list_all (\<lambda>i. jm_get m i = Some (f i)) is \<Longrightarrow> join_chunks m is = Some (concat (map f is))"
  by (induction "is") simp_all

lemma holds_assemble:
  assumes "holds a data sz (hashBlob sha data) {0..<ceil_div (int (length data)) sz} r" "0 < sz"
  shows "assemble sha r = Inr data"
proof -
  let ?n = "ceil_div (int (length data)) sz"
  have n: "0 \<le> ?n" "int (length data) \<le> ?n * sz" using ceil_div_bounds [OF assms(2)] by simp_all
  have "int (length data) \<le> int (nat ?n * nat sz)" using n assms(2) by simp
  then have len: "length data \<le> nat ?n * nat sz" by (simp only: of_nat_le_iff)
  have "list_all (\<lambda>i. jm_get (rv_chunks r) i = Some (piece (nat sz) data (nat i))) [0..?n - 1]"
    using assms(1) by (auto simp: holds_def list_all_iff)
  then have "join_chunks (rv_chunks r) [0..?n - 1] = Some (concat (map (\<lambda>i. piece (nat sz) data (nat i)) [0..?n - 1]))"
    by (rule join_chunks_map)
  also have "map (\<lambda>i. piece (nat sz) data (nat i)) [0..?n - 1] = map (piece (nat sz) data) [0..<nat ?n]"
    by (rule nth_equalityI) simp_all
  also have "concat \<dots> = data" using len by (simp add: join_pieces)
  finally show ?thesis
    using assms holds_complete [OF assms] by (simp add: assemble_def holds_def)
qed

definition indices_of :: "(bytes \<Rightarrow> bytes) \<Rightarrow> string \<Rightarrow> bytes \<Rightarrow> int \<Rightarrow> (time \<times> media_chunk) list \<Rightarrow> int set" where
  "indices_of sha a data sz calls =
     {i. 0 \<le> i \<and> i < ceil_div (int (length data)) sz \<and> genuine sha a data sz i \<in> snd ` set calls}"

lemma receive_holds:
  assumes "0 < sz" "holds a data sz h I r"
    and "list_all (\<lambda>(now, c). (\<exists>i. getChunk sha (new_sender a data sz) i = Inr c) \<or>
      refused sha a (ceil_div (int (length data)) sz) c) calls"
  shows "holds a data sz h (I \<union> indices_of sha a data sz calls) (receive sha calls r)"
  using assms(2,3)
proof (induction calls arbitrary: I r)
  case Nil
  then show ?case by (simp add: receive_def indices_of_def)
next
  case (Cons call calls)
  obtain now c where call: "call = (now, c)" by (cases call)
  let ?n = "ceil_div (int (length data)) sz" let ?r = "snd (addChunk sha now c r)"
  let ?new = "{i. 0 \<le> i \<and> i < ?n \<and> genuine sha a data sz i = c}"
  have ids: "rv_attachmentId r = a" "rv_totalChunks r = ?n" using Cons.prems(1) by (simp_all add: holds_def)
  have "holds a data sz h (I \<union> ?new) ?r"
  proof (cases "refused sha a ?n c")
    case True
    have "\<not> refused sha a ?n (genuine sha a data sz i)" if "0 \<le> i" "i < ?n" for i
      using that by (simp add: refused_def genuine_def base64_roundtrip)
    then have "?new = {}" using True by auto
    moreover have "?r = r" using addChunk_refused [of sha r c now] True ids by auto
    ultimately show ?thesis using Cons.prems(1) by (simp only: Un_empty_right)
  next
    case False
    then obtain i where i: "0 \<le> i" "i < ?n" "c = genuine sha a data sz i"
      using Cons.prems(2) getChunk_genuine [OF assms(1)] by (auto simp: call)
    then have "?new = {i}" by (auto simp: genuine_def)
    then show ?thesis using holds_add(1) [OF Cons.prems(1) i(1,2)] i(3) by simp
  qed
  then have "holds a data sz h ((I \<union> ?new) \<union> indices_of sha a data sz calls) (receive sha calls ?r)"
    using Cons.IH Cons.prems(2) by simp
  moreover have "(I \<union> ?new) \<union> indices_of sha a data sz calls = I \<union> indices_of sha a data sz (call # calls)"
    by (auto simp: indices_of_def call)
  ultimately show ?case by (simp add: receive_def call)
qed

text \<open>
  Property C28. Whatever the order in which chunks arrive, with repetitions, gaps and chunks that are refused, the receiver
  asks for exactly the indices it has not seen; while there are any, assembling fails, and once there are none it yields
  the sender's blob.
\<close>

theorem transfer_assembles:
  assumes "0 < sz"
    and "list_all (\<lambda>(now, c). (\<exists>i. getChunk sha (new_sender a data sz) i = Inr c) \<or>
      refused sha a (sd_totalChunks (new_sender a data sz)) c) calls"
    and "r = receive sha calls (new_receiver t a (sd_totalChunks (new_sender a data sz)) (hashBlob sha data))"
  shows "getMissingChunks r =
      filter (\<lambda>i. i \<notin> indices_of sha a data sz calls) [0..sd_totalChunks (new_sender a data sz) - 1] \<and>
    (if getMissingChunks r = [] then isComplete r \<and> assemble sha r = Inr data
     else \<not> isComplete r \<and> (\<exists>err. assemble sha r = Inl err))"
proof (intro conjI)
  let ?n = "ceil_div (int (length data)) sz" let ?I = "indices_of sha a data sz calls"
  have n: "sd_totalChunks (new_sender a data sz) = ?n" by (simp add: new_sender_def)
  have h: "holds a data sz (hashBlob sha data) ?I r"
    using receive_holds [OF assms(1) holds_new] assms(2,3) by (simp add: n)
  show miss: "getMissingChunks r = filter (\<lambda>i. i \<notin> ?I) [0..sd_totalChunks (new_sender a data sz) - 1]"
    using holds_missing [OF h] by (simp add: n)
  have all: "getMissingChunks r = [] \<longleftrightarrow> ?I = {0..<?n}"
    using miss h by (auto simp: n holds_def filter_empty_conv)
  show "if getMissingChunks r = [] then isComplete r \<and> assemble sha r = Inr data
     else \<not> isComplete r \<and> (\<exists>err. assemble sha r = Inl err)"
  proof (cases "getMissingChunks r = []")
    case True
    then have "?I = {0..<?n}" using all by simp
    then show ?thesis using True h holds_complete [OF h assms(1)] holds_assemble [of a data sz sha r] assms(1) by simp
  next
    case False
    then have "\<not> isComplete r" using all holds_complete [OF h assms(1)] by simp
    then show ?thesis using False by (simp add: assemble_def)
  qed
qed

lemma transfer_assembles_witness:
  "getMissingChunks (receive (\<lambda>b. b) [(5, genuine (\<lambda>b. b) ''a'' [1, 2, 3] 2 1), (6, genuine (\<lambda>b. b) ''b'' [9] 2 0)]
     (new_receiver 0 ''a'' 2 (hashBlob (\<lambda>b. b) [1, 2, 3]))) = [0]"
proof -
  have two: "sd_totalChunks (new_sender ''a'' [1, 2, 3 :: 8 word] 2) = 2" by (simp add: new_sender_def ceil_div_def)
  have ok: "list_all (\<lambda>(now, c). (\<exists>i. getChunk (\<lambda>b. b) (new_sender ''a'' [1, 2, 3] 2) i = Inr c) \<or>
      refused (\<lambda>b. b) ''a'' (sd_totalChunks (new_sender ''a'' [1, 2, 3] 2)) c)
     [(5, genuine (\<lambda>b. b) ''a'' [1, 2, 3] 2 1), (6 :: time, genuine (\<lambda>b. b) ''b'' [9] 2 0)]"
    by (simp add: getChunk_genuine ceil_div_def) (simp add: refused_def genuine_def)
  have "indices_of (\<lambda>b. b) ''a'' [1, 2, 3] 2
      [(5, genuine (\<lambda>b. b) ''a'' [1, 2, 3] 2 1), (6 :: time, genuine (\<lambda>b. b) ''b'' [9] 2 0)] = {1}"
    by (auto simp: indices_of_def genuine_def ceil_div_def)
  then show ?thesis
    using conjunct1 [OF transfer_assembles [where t = 0, OF _ ok refl, unfolded two]] by (simp add: upto.simps)
qed


subsection \<open>The chunks of a running download\<close>

definition only_changed :: "'k \<Rightarrow> ('k, 'v) jsmap \<Rightarrow> ('k, 'v) jsmap \<Rightarrow> bool" where
  "only_changed a m m' \<longleftrightarrow> (\<forall>b. b \<noteq> a \<longrightarrow> jm_get m' b = jm_get m b)"

text \<open>The next chunk of the sender is stored; the last one ends the download with the sender's blob.\<close>

lemma next_chunk:
  assumes "0 < sz" "k < ceil_div (int (length data)) sz" "0 \<le> k" "jm_get t a = Some r"
    and "holds a data sz (hashBlob sha data) {0..<k} r"
  obtains r' where "holds a data sz (hashBlob sha data) {0..<k + 1} r'"
    "handleMediaChunk sha now (genuine sha a data sz k) t =
      (if k + 1 = ceil_div (int (length data)) sz then (jm_delete a t, Some data) else (jm_set a r' t, None))"
proof -
  let ?n = "ceil_div (int (length data)) sz" let ?c = "genuine sha a data sz k"
  obtain p r' where add: "addChunk sha now ?c r = (Inr p, r')"
    using holds_add(2) [OF assms(5) assms(3,2)] by (metis prod.collapse)
  have "insert k {0..<k} = {0..<k + 1}" using assms(3) by auto
  then have h: "holds a data sz (hashBlob sha data) {0..<k + 1} r'"
    using holds_add(1) [OF assms(5,3,2), of sha now] by (simp add: add)
  have run: "handleMediaChunk sha now ?c t =
      (if isComplete r' then (case assemble sha r' of Inl e \<Rightarrow> (jm_delete a t, None) | Inr b \<Rightarrow> (jm_delete a t, Some b))
       else (jm_set a r' t, None))"
    using assms(4) by (simp add: handleMediaChunk_def genuine_def add [unfolded genuine_def])
  have "handleMediaChunk sha now ?c t = (if k + 1 = ?n then (jm_delete a t, Some data) else (jm_set a r' t, None))"
  proof (cases "k + 1 = ?n")
    case True
    note full = h [unfolded True]
    show ?thesis using holds_complete [OF full assms(1)] holds_assemble [OF full assms(1)] True by (simp add: run)
  next
    case False
    then have "k + 1 \<in> {0..<?n}" "k + 1 \<notin> {0..<k + 1}" using assms(2,3) by auto
    then have "\<not> isComplete r'" using holds_complete [OF h assms(1)] by metis
    then show ?thesis using False by (simp add: run)
  qed
  then show ?thesis using h that by blast
qed

end
