(* ===== verification/MediaStore.thy ===== *)
theory MediaStore
  imports MediaTransfer
begin

section \<open>The media store\<close>

text \<open>
  \<open>media/MediaStore.ts\<close>: blobs with an index of attachments, per-workspace and total quotas, eviction of the least
  recently used blobs and pruning by age. The blob storage is \<open>MemoryBlobStorage\<close>; \<open>Date.now()\<close> is an argument.
\<close>

record attachment = attachment_meta +
  at_status :: attachment_status
  at_lastAccessedAt :: "time option"
  at_availableFrom :: "string list option"

record tracked =
  tk_attachment :: attachment
  tk_workspaceId :: string
  tk_storedAt :: time
  tk_blobKey :: string

record auto_download =
  ad_images :: int
  ad_voice :: int
  ad_audio :: int
  ad_video :: int
  ad_files :: int

record media_config =
  mc_maxTotalBytes :: int
  mc_maxPerWorkspaceBytes :: int
  mc_autoPruneAgeMs :: int
  mc_autoDownload :: auto_download

definition DEFAULT_CONFIG :: media_config where
  "DEFAULT_CONFIG =
     \<lparr>mc_maxTotalBytes = 1024 * 1024 * 1024, mc_maxPerWorkspaceBytes = 500 * 1024 * 1024,
      mc_autoPruneAgeMs = 30 * 24 * 60 * 60 * 1000,
      mc_autoDownload = \<lparr>ad_images = 5 * 1024 * 1024, ad_voice = 10 * 1024 * 1024, ad_audio = 0, ad_video = 0, ad_files = 0\<rparr>\<rparr>"

record media_store =
  md_config :: media_config
  md_blobs :: "(string, bytes) jsmap"
  md_index :: "(string, tracked) jsmap"

record media_stats =
  mt_totalBytes :: int
  mt_attachmentCount :: int
  mt_prunedCount :: int
  mt_byType :: "(attachment_type, int \<times> int) jsmap"

text \<open>A configuration with gaps, as the constructor and \<open>updateConfig\<close> take it.\<close>

record partial_config =
  pc_maxTotalBytes :: "int option"
  pc_maxPerWorkspaceBytes :: "int option"
  pc_autoPruneAgeMs :: "int option"
  pc_autoDownload :: "(auto_download \<Rightarrow> auto_download) option"

definition updateConfig :: "partial_config \<Rightarrow> media_config \<Rightarrow> media_config" where
  "updateConfig p c =
     \<lparr>mc_maxTotalBytes = (case pc_maxTotalBytes p of None \<Rightarrow> mc_maxTotalBytes c | Some n \<Rightarrow> n),
      mc_maxPerWorkspaceBytes = (case pc_maxPerWorkspaceBytes p of None \<Rightarrow> mc_maxPerWorkspaceBytes c | Some n \<Rightarrow> n),
      mc_autoPruneAgeMs = (case pc_autoPruneAgeMs p of None \<Rightarrow> mc_autoPruneAgeMs c | Some n \<Rightarrow> n),
      mc_autoDownload = (case pc_autoDownload p of None \<Rightarrow> mc_autoDownload c | Some f \<Rightarrow> f (mc_autoDownload c))\<rparr>"

definition new_media_store :: "partial_config \<Rightarrow> media_store" where
  "new_media_store p = \<lparr>md_config = updateConfig p DEFAULT_CONFIG, md_blobs = [], md_index = []\<rparr>"

definition attachment_of :: "attachment_meta \<Rightarrow> attachment_status \<Rightarrow> time option \<Rightarrow> attachment" where
  "attachment_of m st accessed =
     attachment_meta.extend m \<lparr>at_status = st, at_lastAccessedAt = accessed, at_availableFrom = None\<rparr>"

definition blob_key :: "string \<Rightarrow> string \<Rightarrow> string" where
  "blob_key ws a = ''media:'' @ ws @ CHR '':'' # a"

definition is_available :: "tracked \<Rightarrow> bool" where
  "is_available t \<longleftrightarrow> at_status (tk_attachment t) = Available"

definition set_status :: "attachment_status \<Rightarrow> tracked \<Rightarrow> tracked" where
  "set_status st t = t\<lparr>tk_attachment := (tk_attachment t)\<lparr>at_status := st\<rparr>\<rparr>"

subsection \<open>Statistics\<close>

definition add_stats :: "tracked \<Rightarrow> media_stats \<Rightarrow> media_stats" where
  "add_stats t st =
     (let a = tk_attachment t; st1 = st\<lparr>mt_attachmentCount := mt_attachmentCount st + 1\<rparr>
      in if at_status a = Pruned \<or> at_status a = Unavailable then st1\<lparr>mt_prunedCount := mt_prunedCount st + 1\<rparr>
         else
           (let (n, b) = jm_get_or (0, 0) (mt_byType st) (at_type a)
            in st1\<lparr>mt_totalBytes := mt_totalBytes st + at_size a,
                   mt_byType := jm_set (at_type a) (n + 1, b + at_size a) (mt_byType st)\<rparr>))"

definition stats_of :: "tracked list \<Rightarrow> media_stats" where
  "stats_of ts = fold add_stats ts \<lparr>mt_totalBytes = 0, mt_attachmentCount = 0, mt_prunedCount = 0, mt_byType = []\<rparr>"

definition getStats :: "media_store \<Rightarrow> media_stats" where
  "getStats s = stats_of (jm_values (md_index s))"

definition getWorkspaceStats :: "string \<Rightarrow> media_store \<Rightarrow> media_stats" where
  "getWorkspaceStats ws s = stats_of (filter (\<lambda>t. tk_workspaceId t = ws) (jm_values (md_index s)))"

subsection \<open>Pruning and eviction\<close>

definition prune :: "string \<Rightarrow> media_store \<Rightarrow> bool \<times> media_store" where
  "prune a s =
     (case jm_get (md_index s) a of
        None \<Rightarrow> (False, s)
      | Some t \<Rightarrow>
          (True, s\<lparr>md_blobs := jm_delete (tk_blobKey t) (md_blobs s), md_index := jm_set a (set_status Pruned t) (md_index s)\<rparr>))"

text \<open>The loops over the index that prune what meets a condition; the count is their result.\<close>

fun prune_where :: "(tracked \<Rightarrow> bool) \<Rightarrow> string list \<Rightarrow> media_store \<Rightarrow> int \<times> media_store" where
  "prune_where P [] s = (0, s)"
| "prune_where P (a # as) s =
     (if (case jm_get (md_index s) a of None \<Rightarrow> False | Some t \<Rightarrow> P t)
      then (case prune_where P as (snd (prune a s)) of (n, s') \<Rightarrow> (n + 1, s'))
      else prune_where P as s)"

definition pruneWorkspace :: "string \<Rightarrow> media_store \<Rightarrow> int \<times> media_store" where
  "pruneWorkspace ws s = prune_where (\<lambda>t. tk_workspaceId t = ws \<and> is_available t) (jm_keys (md_index s)) s"

definition pruneOlderThan :: "time \<Rightarrow> int \<Rightarrow> media_store \<Rightarrow> int \<times> media_store" where
  "pruneOlderThan now ageMs s = prune_where (\<lambda>t. is_available t \<and> tk_storedAt t < now - ageMs) (jm_keys (md_index s)) s"

definition last_access :: "tracked \<Rightarrow> time" where
  "last_access t = (case at_lastAccessedAt (tk_attachment t) of None \<Rightarrow> 0 | Some u \<Rightarrow> u)"

definition by_access :: "(string \<times> tracked) list \<Rightarrow> (string \<times> tracked) list" where
  "by_access es = js_sort (cmp_by (\<lambda>e. last_access (snd e)) num_cmp) es"

text \<open>The loop both evictions share: bytes freed, blobs evicted, new state.\<close>

fun evict_loop :: "int \<Rightarrow> int \<Rightarrow> (string \<times> tracked) list \<Rightarrow> media_store \<Rightarrow> int \<times> int \<times> media_store" where
  "evict_loop target freed [] s = (freed, 0, s)"
| "evict_loop target freed ((a, t) # es) s =
     (if freed \<ge> target then (freed, 0, s)
      else (case evict_loop target (freed + at_size (tk_attachment t)) es (snd (prune a s)) of
              (f, n, s') \<Rightarrow> (f, n + 1, s')))"

definition evictLRU :: "int \<Rightarrow> media_store \<Rightarrow> int \<times> media_store" where
  "evictLRU target s =
     (case evict_loop target 0 (by_access (filter (\<lambda>(a, t). is_available t) (md_index s))) s of (f, n, s') \<Rightarrow> (n, s'))"

definition autoprune :: "time \<Rightarrow> media_store \<Rightarrow> int \<times> media_store" where
  "autoprune now s =
     (let (n, s1) = (if mc_autoPruneAgeMs (md_config s) > 0 then pruneOlderThan now (mc_autoPruneAgeMs (md_config s)) s else (0, s));
          excess = mt_totalBytes (getStats s1) - mc_maxTotalBytes (md_config s1)
      in if excess > 0 then (case evictLRU excess s1 of (k, s2) \<Rightarrow> (n + k, s2)) else (n, s1))"

subsection \<open>Storing and reading\<close>

definition enforceQuotas :: "string \<Rightarrow> int \<Rightarrow> media_store \<Rightarrow> unit result \<times> media_store" where
  "enforceQuotas ws incoming s =
     (let c = md_config s;
          excess = mt_totalBytes (getWorkspaceStats ws s) + incoming - mc_maxPerWorkspaceBytes c;
          (freed, s1) =
            (if excess > 0
             then (case evict_loop excess 0 (by_access (filter (\<lambda>(a, t). tk_workspaceId t = ws \<and> is_available t) (md_index s))) s of
                     (f, n, s') \<Rightarrow> (f, s'))
             else (0, s))
      in if excess > 0 \<and> freed < excess
         then (Inl (''Workspace storage quota exceeded ('' @ show_int (mc_maxPerWorkspaceBytes c) @ '' bytes)''), s1)
         else
           (let tot_excess = mt_totalBytes (getStats s1) + incoming - mc_maxTotalBytes c
            in (Inr (), if tot_excess > 0 then snd (evictLRU tot_excess s1) else s1)))"

definition store_blob :: "time \<Rightarrow> string \<Rightarrow> attachment_meta \<Rightarrow> bytes \<Rightarrow> media_store \<Rightarrow> attachment result \<times> media_store" where
  "store_blob now ws m blob s =
     (case enforceQuotas ws (int (length blob)) s of
        (Inl e, s1) \<Rightarrow> (Inl e, s1)
      | (Inr _, s1) \<Rightarrow>
          (let a = attachment_of m Available (Some now); key = blob_key ws (at_id m)
           in (Inr a, s1\<lparr>md_blobs := jm_set key blob (md_blobs s1),
                        md_index := jm_set (at_id m)
                          \<lparr>tk_attachment = a, tk_workspaceId = ws, tk_storedAt = now, tk_blobKey = key\<rparr> (md_index s1)\<rparr>)))"

definition getBlob :: "time \<Rightarrow> string \<Rightarrow> media_store \<Rightarrow> bytes option \<times> media_store" where
  "getBlob now a s =
     (case jm_get (md_index s) a of
        None \<Rightarrow> (None, s)
      | Some t \<Rightarrow>
          (case jm_get (md_blobs s) (tk_blobKey t) of
             Some b \<Rightarrow>
               (Some b, s\<lparr>md_index := jm_set a (t\<lparr>tk_attachment := (tk_attachment t)\<lparr>at_lastAccessedAt := Some now\<rparr>\<rparr>) (md_index s)\<rparr>)
           | None \<Rightarrow> (None, s\<lparr>md_index := jm_set a (set_status Pruned t) (md_index s)\<rparr>)))"

definition getAttachment :: "string \<Rightarrow> media_store \<Rightarrow> attachment option" where
  "getAttachment a s = map_option tk_attachment (jm_get (md_index s) a)"

definition registerMeta :: "time \<Rightarrow> string \<Rightarrow> attachment_meta \<Rightarrow> attachment_status \<Rightarrow> media_store \<Rightarrow> attachment \<times> media_store" where
  "registerMeta now ws m st s =
     (let a = attachment_of m st None
      in (a, s\<lparr>md_index := jm_set (at_id m)
                 \<lparr>tk_attachment = a, tk_workspaceId = ws, tk_storedAt = now, tk_blobKey = blob_key ws (at_id m)\<rparr> (md_index s)\<rparr>))"

definition shouldAutoDownload :: "media_store \<Rightarrow> attachment_meta \<Rightarrow> bool" where
  "shouldAutoDownload s m =
     (let d = mc_autoDownload (md_config s)
      in case at_type m of
           Image \<Rightarrow> at_size m \<le> ad_images d
         | Voice \<Rightarrow> at_size m \<le> ad_voice d
         | Audio \<Rightarrow> at_size m \<le> ad_audio d
         | Video \<Rightarrow> at_size m \<le> ad_video d
         | File \<Rightarrow> at_size m \<le> ad_files d)"

subsection \<open>Bytes in use\<close>

definition counted :: "tracked \<Rightarrow> int" where
  "counted t = (if at_status (tk_attachment t) \<in> {Pruned, Unavailable} then 0 else at_size (tk_attachment t))"

definition used :: "(tracked \<Rightarrow> bool) \<Rightarrow> media_store \<Rightarrow> int" where
  "used P s = (\<Sum>t\<leftarrow>jm_values (md_index s). if P t then counted t else 0)"

lemma stats_total: "mt_totalBytes (stats_of ts) = (\<Sum>t\<leftarrow>ts. counted t)"
proof -
  have "mt_totalBytes (fold add_stats ts st) = mt_totalBytes st + (\<Sum>t\<leftarrow>ts. counted t)" for st
    by (induction ts arbitrary: st) (auto simp: add_stats_def counted_def Let_def split: prod.split)
  then show ?thesis by (simp add: stats_of_def)
qed

lemma stats_used:
  "mt_totalBytes (getStats s) = used (\<lambda>t. True) s"
  "mt_totalBytes (getWorkspaceStats ws s) = used (\<lambda>t. tk_workspaceId t = ws) s"
  by (simp_all add: getStats_def getWorkspaceStats_def stats_total used_def sum_list_map_filter')

lemma sum_set:
  fixes f :: "'v \<Rightarrow> int"
  assumes "wf_map m"
  shows "(\<Sum>t\<leftarrow>jm_values (jm_set k v m). f t) =
    (\<Sum>t\<leftarrow>jm_values m. f t) - (case jm_get m k of None \<Rightarrow> 0 | Some t \<Rightarrow> f t) + f v"
  using assms
proof (induction m)
  case Nil
  then show ?case by (simp add: jm_values_def jm_set_def)
next
  case (Cons p m)
  obtain a t where p: "p = (a, t)" by (cases p)
  have "wf_map m" using Cons.prems by (simp add: wf_map_def jm_keys_def)
  moreover have "k = a \<Longrightarrow> jm_get m k = None"
    using Cons.prems by (auto simp: p wf_map_def jm_keys_def jm_get_def map_of_eq_None_iff)
  ultimately show ?case using Cons.IH by (auto simp: p jm_values_def jm_set_def)
qed

definition index_ok :: "media_store \<Rightarrow> bool" where
  "index_ok s \<longleftrightarrow> wf_map (md_index s) \<and> (\<forall>a t. jm_get (md_index s) a = Some t \<longrightarrow> 0 \<le> at_size (tk_attachment t))"

text \<open>Conditions that do not look at the status or at the time of access.\<close>

definition lasting :: "(tracked \<Rightarrow> bool) \<Rightarrow> bool" where
  "lasting P \<longleftrightarrow> (\<forall>t st. P (set_status st t) = P t)"

lemma lasting_simps [simp]: "lasting (\<lambda>t. True)" "lasting (\<lambda>t. tk_workspaceId t = ws)"
  by (simp_all add: lasting_def set_status_def)

lemma set_status_simps [simp]:
  "tk_workspaceId (set_status st t) = tk_workspaceId t" "tk_blobKey (set_status st t) = tk_blobKey t"
  "at_size (tk_attachment (set_status st t)) = at_size (tk_attachment t)"
  "at_status (tk_attachment (set_status st t)) = st" "counted (set_status Pruned t) = 0"
  by (simp_all add: set_status_def counted_def)

lemma prune_index:
  "jm_get (md_index (snd (prune a s))) b =
     (if b = a then map_option (set_status Pruned) (jm_get (md_index s) a) else jm_get (md_index s) b)"
  "md_config (snd (prune a s)) = md_config s"
  by (simp_all add: prune_def jm_get_set split: option.split)

lemma prune_ok: "index_ok s \<Longrightarrow> index_ok (snd (prune a s))"
proof -
  assume "index_ok s"
  moreover have "wf_map (md_index (snd (prune a s)))" if "wf_map (md_index s)"
    using that by (simp add: prune_def split: option.split)
  ultimately show ?thesis by (auto simp: index_ok_def prune_index split: if_splits)
qed

lemma used_prune:
  assumes "index_ok s" "lasting P" "jm_get (md_index s) a = Some t"
  shows "used P (snd (prune a s)) = used P s - (if P t then counted t else 0)"
  using assms sum_set [of "md_index s" "\<lambda>t. if P t then counted t else 0" a "set_status Pruned t"]
  by (simp add: used_def prune_def index_ok_def lasting_def)

text \<open>The entries of an eviction: distinct ids with their current value, all available.\<close>

definition current :: "media_store \<Rightarrow> (string \<times> tracked) list \<Rightarrow> bool" where
  "current s es \<longleftrightarrow> distinct (map fst es) \<and> (\<forall>(a, t) \<in> set es. jm_get (md_index s) a = Some t \<and> is_available t)"

lemma current_rest: "current s ((a, t) # es) \<Longrightarrow> current (snd (prune a s)) es"
  by (force simp: current_def prune_index)

definition sizes :: "(string \<times> tracked) list \<Rightarrow> int" where
  "sizes es = (\<Sum>(a, t)\<leftarrow>es. at_size (tk_attachment t))"

lemma sizes_simps [simp]: "sizes [] = 0" "sizes ((a, t) # es) = at_size (tk_attachment t) + sizes es"
  by (simp_all add: sizes_def)

definition prune_all :: "string list \<Rightarrow> media_store \<Rightarrow> media_store" where
  "prune_all as s = fold (\<lambda>a s. snd (prune a s)) as s"

lemma prune_all_simps [simp]: "prune_all [] s = s" "prune_all (a # as) s = prune_all as (snd (prune a s))"
  by (simp_all add: prune_all_def)

text \<open>Eviction takes a prefix of the entries, as short as it can.\<close>

lemma evict_prefix:
  "\<exists>k \<le> length es. evict_loop target freed es s = (freed + sizes (take k es), int k, prune_all (map fst (take k es)) s) \<and>
     (\<forall>j < k. freed + sizes (take j es) < target) \<and> (k < length es \<longrightarrow> target \<le> freed + sizes (take k es))"
proof (induction es arbitrary: freed s)
  case (Cons e es)
  obtain a t where e: "e = (a, t)" by (cases e)
  show ?case
  proof (cases "target \<le> freed")
    case True
    then show ?thesis by (intro exI [of _ 0]) (simp add: e)
  next
    case False
    let ?z = "at_size (tk_attachment t)"
    obtain k where k: "k \<le> length es" "evict_loop target (freed + ?z) es (snd (prune a s)) =
          (freed + ?z + sizes (take k es), int k, prune_all (map fst (take k es)) (snd (prune a s)))"
      "\<forall>j < k. freed + ?z + sizes (take j es) < target"
      "k < length es \<longrightarrow> target \<le> freed + ?z + sizes (take k es)"
      using Cons.IH [of "freed + ?z" "snd (prune a s)"] by blast
    have "freed + sizes (take j (e # es)) < target" if "j < Suc k" for j
      using that k(3) False by (cases j) (simp_all add: e add.assoc)
    then show ?thesis using k False by (intro exI [of _ "Suc k"]) (simp add: e add.assoc)
  qed
qed simp

lemma prune_all_ok: "index_ok s \<Longrightarrow> index_ok (prune_all as s)"
  by (induction as arbitrary: s) (simp_all add: prune_ok)

lemma prune_all_config [simp]: "md_config (prune_all as s) = md_config s"
  by (induction as arbitrary: s) (simp_all add: prune_index)

lemma prune_all_index:
  "jm_get (md_index (prune_all as s)) b =
     (if b \<in> set as then map_option (set_status Pruned) (jm_get (md_index s) b) else jm_get (md_index s) b)"
proof (induction as arbitrary: s)
  case (Cons a as)
  have "set_status Pruned (set_status Pruned t) = set_status Pruned t" for t by (simp add: set_status_def)
  then show ?case using Cons by (auto simp: prune_index option.map_comp comp_def)
qed simp

lemma used_prune_all:
  assumes "index_ok s" "lasting P" "current s es"
  shows "used P (prune_all (map fst es) s) = used P s - sizes (filter (\<lambda>(a, t). P t) es)"
  using assms(1,3)
proof (induction es arbitrary: s)
  case (Cons e es)
  obtain a t where e: "e = (a, t)" by (cases e)
  have t: "jm_get (md_index s) a = Some t" "is_available t" using Cons.prems(2) by (auto simp: e current_def)
  then have "counted t = at_size (tk_attachment t)" by (simp add: counted_def is_available_def)
  then show ?case
    using Cons.IH [OF prune_ok [OF Cons.prems(1)] current_rest [OF Cons.prems(2) [unfolded e]]]
      used_prune [OF Cons.prems(1) assms(2) t(1)] by (simp add: e)
qed simp

lemma sizes_nonneg: "index_ok s \<Longrightarrow> current s es \<Longrightarrow> 0 \<le> sizes (filter P es)"
  unfolding sizes_def by (rule sum_list_nonneg) (auto simp: index_ok_def current_def)

lemma current_take: "current s es \<Longrightarrow> current s (take k es)"
  by (auto simp: current_def take_map [symmetric] dest: in_set_takeD)

text \<open>The candidates of an eviction, in order of access.\<close>

lemma candidates_current:
  assumes "index_ok s" "\<And>t. Q t \<Longrightarrow> is_available t"
  shows "current s (by_access (filter (\<lambda>(a, t). Q t) (md_index s)))"
proof -
  have "distinct (map fst (filter (\<lambda>(a, t). Q t) (md_index s)))"
    using assms(1) by (simp add: index_ok_def wf_map_def jm_keys_def distinct_map_filter)
  then show ?thesis
    using assms jm_get_iff [of "md_index s"] by (auto simp: current_def by_access_def index_ok_def)
qed

interpretation access: comparator UNIV "cmp_by (\<lambda>e. last_access (snd e)) num_cmp"
  by (intro comparators)

lemma by_access_sorted:
  assumes "i < j" "j < length (by_access es)"
  shows "last_access (snd (by_access es ! i)) \<le> last_access (snd (by_access es ! j))"
proof -
  have "sorted_wrt (\<lambda>x y. cmp_by (\<lambda>e. last_access (snd e)) num_cmp x y \<le> 0) (by_access es)"
    unfolding by_access_def by (rule access.in_order_sort) simp
  then show ?thesis using assms by (auto simp: sorted_wrt_iff_nth_less cmp_by_def num_cmp_def)
qed

subsection \<open>Eviction\<close>

text \<open>The outcome of an eviction among the entries with \<open>Q\<close>, seen from the index.\<close>

lemma evict_outcome:
  assumes "index_ok s" "\<And>t. Q t \<Longrightarrow> is_available t"
    and "evict_loop target 0 (by_access (filter (\<lambda>(a, t). Q t) (md_index s))) s = (freed, n, s')"
  obtains es where "current s es" "s' = prune_all (map fst es) s" "n = int (length es)" "freed = sizes es"
    "\<forall>(a, t) \<in> set es. Q t"
    "target \<le> freed \<or> (\<forall>a t. jm_get (md_index s) a = Some t \<longrightarrow> Q t \<longrightarrow> a \<in> fst ` set es)"
    "\<forall>(a, t) \<in> set es. \<forall>b u. jm_get (md_index s) b = Some u \<longrightarrow> Q u \<longrightarrow> b \<notin> fst ` set es \<longrightarrow> last_access t \<le> last_access u"
proof -
  let ?c = "by_access (filter (\<lambda>(a, t). Q t) (md_index s))"
  obtain k where k: "k \<le> length ?c" "freed = sizes (take k ?c)" "n = int k" "s' = prune_all (map fst (take k ?c)) s"
    "k < length ?c \<Longrightarrow> target \<le> freed"
    using evict_prefix [of ?c target 0 s] assms(3) by auto
  have cur: "current s ?c" using candidates_current assms(1,2) by blast
  have in_c: "(b, u) \<in> set ?c \<longleftrightarrow> jm_get (md_index s) b = Some u \<and> Q u" for b u
    using jm_get_iff [of "md_index s" b u] assms(1) by (auto simp: by_access_def index_ok_def)
  have later: "last_access t \<le> last_access u"
    if h: "(a, t) \<in> set (take k ?c)" "jm_get (md_index s) b = Some u" "Q u" "b \<notin> fst ` set (take k ?c)" for a t b u
  proof -
    obtain i where "i < length (take k ?c)" "take k ?c ! i = (a, t)" using h(1) by (meson in_set_conv_nth)
    then have i: "i < k" "?c ! i = (a, t)" by simp_all
    obtain j where j: "j < length ?c" "?c ! j = (b, u)" using h(2,3) in_c by (metis in_set_conv_nth)
    have "\<not> j < k"
    proof
      assume "j < k"
      then have "take k ?c ! j \<in> set (take k ?c)" using j(1) by (intro nth_mem) simp
      then show False using h(4) j \<open>j < k\<close> by (metis fst_conv image_eqI nth_take)
    qed
    then show ?thesis using by_access_sorted [of i j "filter (\<lambda>(a, t). Q t) (md_index s)"] i j by simp
  qed
  show ?thesis
  proof (rule that)
    show "current s (take k ?c)" by (rule current_take [OF cur])
    show "s' = prune_all (map fst (take k ?c)) s" "n = int (length (take k ?c))" "freed = sizes (take k ?c)"
      using k by simp_all
    show "\<forall>(a, t) \<in> set (take k ?c). Q t" using in_c by (auto dest: in_set_takeD)
    show "\<forall>(a, t) \<in> set (take k ?c). \<forall>b u. jm_get (md_index s) b = Some u \<longrightarrow> Q u \<longrightarrow> b \<notin> fst ` set (take k ?c) \<longrightarrow> last_access t \<le> last_access u"
      using later by blast
    show "target \<le> freed \<or> (\<forall>a t. jm_get (md_index s) a = Some t \<longrightarrow> Q t \<longrightarrow> a \<in> fst ` set (take k ?c))"
    proof (cases "k < length ?c")
      case False
      then have "take k ?c = ?c" by simp
      then show ?thesis using in_c by (metis fst_conv image_eqI)
    qed (use k in simp)
  qed
qed

lemma evict_used:
  assumes "index_ok s" "current s es" "lasting P"
  shows "used P (prune_all (map fst es) s) \<le> used P s"
    and "\<forall>(a, t) \<in> set es. P t \<Longrightarrow> used P (prune_all (map fst es) s) = used P s - sizes es"
proof -
  show "used P (prune_all (map fst es) s) \<le> used P s"
    using used_prune_all [OF assms(1,3,2)] sizes_nonneg [OF assms(1,2), of "\<lambda>(a, t). P t"] by linarith
  assume "\<forall>(a, t) \<in> set es. P t"
  then have "filter (\<lambda>(a, t). P t) es = es" by (auto intro!: filter_True)
  then show "used P (prune_all (map fst es) s) = used P s - sizes es" using used_prune_all [OF assms(1,3,2)] by simp
qed

text \<open>
  An eviction takes the least recently used blobs: whatever it evicts was last accessed no later than whatever
  stays. It frees the bytes asked for unless nothing available is left, and touches nothing else.
\<close>

theorem eviction_is_least_recent:
  assumes "index_ok s" "evictLRU target s = (n, s')"
    and "gone = {a. \<exists>t. jm_get (md_index s) a = Some t \<and> jm_get (md_index s') a \<noteq> Some t}"
  shows "\<And>a. jm_get (md_index s') a = (if a \<in> gone then map_option (set_status Pruned) (jm_get (md_index s) a) else jm_get (md_index s) a)"
    and "\<And>a b t u. a \<in> gone \<Longrightarrow> jm_get (md_index s) a = Some t \<Longrightarrow> b \<notin> gone \<Longrightarrow> jm_get (md_index s) b = Some u \<Longrightarrow>
      is_available u \<Longrightarrow> is_available t \<and> last_access t \<le> last_access u"
    and "used (\<lambda>t. True) s' \<le> used (\<lambda>t. True) s - target \<or> (\<forall>b u. jm_get (md_index s') b = Some u \<longrightarrow> \<not> is_available u)"
    and "n = int (card gone)"
proof -
  obtain freed where loop: "evict_loop target 0 (by_access (filter (\<lambda>(a, t). is_available t) (md_index s))) s = (freed, n, s')"
    using assms(2) by (auto simp: evictLRU_def split: prod.splits)
  obtain es where es: "current s es" "s' = prune_all (map fst es) s" "n = int (length es)" "freed = sizes es"
    "target \<le> freed \<or> (\<forall>a t. jm_get (md_index s) a = Some t \<longrightarrow> is_available t \<longrightarrow> a \<in> fst ` set es)"
    "\<forall>(a, t) \<in> set es. \<forall>b u. jm_get (md_index s) b = Some u \<longrightarrow> is_available u \<longrightarrow> b \<notin> fst ` set es \<longrightarrow> last_access t \<le> last_access u"
    by (rule evict_outcome [OF assms(1) _ loop]) simp_all
  have ne: "set_status Pruned t \<noteq> t" if "is_available t" for t
  proof
    assume eq: "set_status Pruned t = t"
    have "at_status (tk_attachment (set_status Pruned t)) = Pruned" by (rule set_status_simps(4))
    then show False using that by (simp only: eq) (simp add: is_available_def)
  qed
  have gone: "gone = fst ` set es"
    using es(1,2) ne assms(3) by (force simp: prune_all_index current_def)
  show "jm_get (md_index s') a = (if a \<in> gone then map_option (set_status Pruned) (jm_get (md_index s) a) else jm_get (md_index s) a)" for a
    by (simp add: gone es(2) prune_all_index)
  show "is_available t \<and> last_access t \<le> last_access u"
    if "a \<in> gone" "jm_get (md_index s) a = Some t" "b \<notin> gone" "jm_get (md_index s) b = Some u" "is_available u" for a b t u
    using that es(1,6) unfolding gone current_def by fastforce
  show "n = int (card gone)" using es(1,3) distinct_card [of "map fst es"] by (simp add: gone current_def)
  show "used (\<lambda>t. True) s' \<le> used (\<lambda>t. True) s - target \<or> (\<forall>b u. jm_get (md_index s') b = Some u \<longrightarrow> \<not> is_available u)"
  proof (cases "target \<le> freed")
    case True
    then show ?thesis using evict_used(2) [OF assms(1) es(1), of "\<lambda>t. True"] es(2,4) by simp
  next
    case False
    then have all: "\<And>b u. jm_get (md_index s) b = Some u \<Longrightarrow> is_available u \<Longrightarrow> b \<in> fst ` set es" using es(5) by blast
    have "\<not> is_available u" if "jm_get (md_index s') b = Some u" for b u
      using that all [of b] by (auto simp: es(2) prune_all_index is_available_def split: if_splits)
    then show ?thesis by blast
  qed
qed

subsection \<open>Quotas\<close>

text \<open>Bytes that no eviction can free: attachments still uploading or downloading.\<close>

definition pinned :: "media_store \<Rightarrow> int" where
  "pinned s = used (\<lambda>t. \<not> is_available t) s"

lemma pinned_prune_all:
  assumes "index_ok s" "current s es"
  shows "pinned (prune_all (map fst es) s) = pinned s"
  using assms
proof (induction es arbitrary: s)
  case (Cons e es)
  obtain a t where e: "e = (a, t)" by (cases e)
  have t: "jm_get (md_index s) a = Some t" "is_available t" using Cons.prems(2) by (auto simp: e current_def)
  then have "pinned (snd (prune a s)) = pinned s"
    using Cons.prems(1) sum_set [of "md_index s" "\<lambda>t. if \<not> is_available t then counted t else 0" a "set_status Pruned t"]
    by (simp add: pinned_def used_def prune_def index_ok_def is_available_def)
  then show ?case
    using Cons.IH [OF prune_ok [OF Cons.prems(1)] current_rest [OF Cons.prems(2) [unfolded e]]] by (simp add: e)
qed simp

lemma none_available:
  assumes "index_ok s" "\<forall>b u. jm_get (md_index s) b = Some u \<longrightarrow> \<not> is_available u"
  shows "used (\<lambda>t. True) s = pinned s"
proof -
  have "\<not> is_available u" if "u \<in> set (jm_values (md_index s))" for u
    using that assms set_jm_values [of "md_index s"] by (auto simp: index_ok_def)
  then show ?thesis unfolding pinned_def used_def by (intro arg_cong [of _ _ sum_list] map_cong) simp_all
qed

text \<open>The workspace part and the total part of the check.\<close>

lemma workspace_part:
  assumes ok: "index_ok s" and run: "enforceQuotas ws incoming s = (Inr u, s')"
  obtains es where "current s es"
    "used (\<lambda>t. tk_workspaceId t = ws) (prune_all (map fst es) s) + incoming \<le> mc_maxPerWorkspaceBytes (md_config s)"
    "s' = (let s1 = prune_all (map fst es) s; x = used (\<lambda>t. True) s1 + incoming - mc_maxTotalBytes (md_config s)
           in if x > 0 then snd (evictLRU x s1) else s1)"
proof -
  let ?P = "\<lambda>t. tk_workspaceId t = ws" and ?c = "md_config s"
  let ?e = "by_access (filter (\<lambda>(a, t). ?P t \<and> is_available t) (md_index s))"
  define excess where "excess = used ?P s + incoming - mc_maxPerWorkspaceBytes ?c"
  show ?thesis
  proof (cases "excess > 0")
    case False
    then have "s' = (let x = used (\<lambda>t. True) s + incoming - mc_maxTotalBytes ?c in if x > 0 then snd (evictLRU x s) else s)"
      using run by (simp add: enforceQuotas_def stats_used excess_def Let_def)
    then show ?thesis using False by (intro that [of "[]"]) (simp_all add: current_def excess_def Let_def)
  next
    case True
    obtain f n s1 where loop: "evict_loop excess 0 ?e s = (f, n, s1)" by (cases "evict_loop excess 0 ?e s") auto
    have "enforceQuotas ws incoming s =
        (if f < excess then (Inl (''Workspace storage quota exceeded ('' @ show_int (mc_maxPerWorkspaceBytes ?c) @ '' bytes)''), s1)
         else (Inr (), let x = used (\<lambda>t. True) s1 + incoming - mc_maxTotalBytes ?c in if x > 0 then snd (evictLRU x s1) else s1))"
      unfolding enforceQuotas_def stats_used excess_def [symmetric] Let_def using True loop by simp
    then have f: "\<not> f < excess"
      and s': "s' = (let x = used (\<lambda>t. True) s1 + incoming - mc_maxTotalBytes ?c in if x > 0 then snd (evictLRU x s1) else s1)"
      using run by (auto split: if_splits)
    obtain es where es: "current s es" "s1 = prune_all (map fst es) s" "f = sizes es" "\<forall>(a, t) \<in> set es. ?P t \<and> is_available t"
      by (rule evict_outcome [OF ok _ loop]) simp_all
    then have "used ?P (prune_all (map fst es) s) = used ?P s - f" using evict_used(2) [OF ok es(1), of ?P] by auto
    then show ?thesis using f es s' by (intro that [of es]) (simp_all add: excess_def Let_def)
  qed
qed

lemma total_part:
  assumes ok: "index_ok s" and "s' = (if x > 0 then snd (evictLRU x s) else s)"
  obtains es where "current s es" "s' = prune_all (map fst es) s" "used (\<lambda>t. True) s' \<le> max (used (\<lambda>t. True) s - x) (pinned s)"
proof (cases "x > 0")
  case False
  then show ?thesis using assms by (intro that [of "[]"]) (simp_all add: current_def)
next
  case True
  obtain f n where loop: "evict_loop x 0 (by_access (filter (\<lambda>(a, t). is_available t) (md_index s))) s = (f, n, s')"
    using assms(2) True by (cases "evict_loop x 0 (by_access (filter (\<lambda>(a, t). is_available t) (md_index s))) s") (simp add: evictLRU_def)
  obtain es where es: "current s es" "s' = prune_all (map fst es) s" "f = sizes es"
    "x \<le> f \<or> (\<forall>a t. jm_get (md_index s) a = Some t \<longrightarrow> is_available t \<longrightarrow> a \<in> fst ` set es)"
    by (rule evict_outcome [OF ok _ loop]) simp_all
  have "used (\<lambda>t. True) s' \<le> max (used (\<lambda>t. True) s - x) (pinned s)"
  proof (cases "x \<le> f")
    case True
    then show ?thesis using evict_used(2) [OF ok es(1), of "\<lambda>t. True"] es(2,3) by simp
  next
    case False
    then have all: "\<And>b u. jm_get (md_index s) b = Some u \<Longrightarrow> is_available u \<Longrightarrow> b \<in> fst ` set es" using es(4) by blast
    have "\<not> is_available u" if "jm_get (md_index s') b = Some u" for b u
      using that all [of b] by (auto simp: es(2) prune_all_index is_available_def split: if_splits)
    then have "used (\<lambda>t. True) s' = pinned s'" using none_available es(2) prune_all_ok [OF ok] by blast
    then show ?thesis using pinned_prune_all [OF ok es(1)] by (simp add: es(2))
  qed
  then show ?thesis using es by (intro that [of es])
qed

lemma enforced:
  assumes ok: "index_ok s" and run: "enforceQuotas ws incoming s = (Inr u, s')"
  shows "index_ok s'" "md_config s' = md_config s"
    "used (\<lambda>t. tk_workspaceId t = ws) s' + incoming \<le> mc_maxPerWorkspaceBytes (md_config s)"
    "used (\<lambda>t. True) s' + incoming \<le> max (mc_maxTotalBytes (md_config s)) (pinned s + incoming)"
proof -
  obtain es where es: "current s es"
    "used (\<lambda>t. tk_workspaceId t = ws) (prune_all (map fst es) s) + incoming \<le> mc_maxPerWorkspaceBytes (md_config s)"
    "s' = (let s1 = prune_all (map fst es) s; x = used (\<lambda>t. True) s1 + incoming - mc_maxTotalBytes (md_config s)
           in if x > 0 then snd (evictLRU x s1) else s1)"
    by (rule workspace_part [OF ok run])
  let ?s1 = "prune_all (map fst es) s"
  have ok1: "index_ok ?s1" using prune_all_ok [OF ok] .
  obtain gs where gs: "current ?s1 gs" "s' = prune_all (map fst gs) ?s1"
    "used (\<lambda>t. True) s' \<le> max (used (\<lambda>t. True) ?s1 - (used (\<lambda>t. True) ?s1 + incoming - mc_maxTotalBytes (md_config s))) (pinned ?s1)"
    by (rule total_part [OF ok1, of s' "used (\<lambda>t. True) ?s1 + incoming - mc_maxTotalBytes (md_config s)"])
      (use es(3) in \<open>simp add: Let_def\<close>)
  show "index_ok s'" "md_config s' = md_config s" by (simp_all add: gs(2) prune_all_ok ok1)
  show "used (\<lambda>t. tk_workspaceId t = ws) s' + incoming \<le> mc_maxPerWorkspaceBytes (md_config s)"
    using evict_used(1) [OF ok1 gs(1), of "\<lambda>t. tk_workspaceId t = ws"] es(2) by (simp add: gs(2))
  show "used (\<lambda>t. True) s' + incoming \<le> max (mc_maxTotalBytes (md_config s)) (pinned s + incoming)"
    using gs(3) pinned_prune_all [OF ok es(1)] by (simp add: max_def split: if_splits)
qed

text \<open>
  Property C30. A store that succeeds leaves the blob readable and its workspace within its quota, up to the bytes by which
  the size recorded for the attachment exceeds the blob: the check looks at the blob, the index counts the recorded size,
  which for a received attachment is the sender's word. The total quota holds up to that and to what cannot be evicted:
  a blob larger than the total quota is stored all the same.
\<close>

theorem store_within_quota:
  assumes "index_ok s" "0 \<le> at_size m" "store_blob now ws m blob s = (Inr a, s')"
  defines "overstated \<equiv> max 0 (at_size m - int (length blob))"
  shows "mt_totalBytes (getWorkspaceStats ws s') \<le> mc_maxPerWorkspaceBytes (md_config s) + overstated \<and>
    mt_totalBytes (getStats s') \<le> max (mc_maxTotalBytes (md_config s)) (pinned s + int (length blob)) + overstated \<and>
    fst (getBlob later (at_id m) s') = Some blob \<and>
    index_ok s'"
proof (intro conjI)
  let ?new = "\<lparr>tk_attachment = attachment_of m Available (Some now), tk_workspaceId = ws, tk_storedAt = now, tk_blobKey = blob_key ws (at_id m)\<rparr>"
  obtain u s1 where run: "enforceQuotas ws (int (length blob)) s = (Inr u, s1)"
    and s': "s' = s1\<lparr>md_blobs := jm_set (blob_key ws (at_id m)) blob (md_blobs s1), md_index := jm_set (at_id m) ?new (md_index s1)\<rparr>"
    using assms(3) by (auto simp: store_blob_def Let_def split: prod.splits sum.splits)
  note ok = enforced [OF assms(1) run]
  have new: "counted ?new = at_size m" "at_size (tk_attachment ?new) = at_size m"
    by (simp_all add: counted_def attachment_of_def attachment_meta.defs)
  define old where "old P = (case jm_get (md_index s1) (at_id m) of None \<Rightarrow> 0 | Some t \<Rightarrow> if P t then counted t else 0)" for P
  have old: "0 \<le> old P" for P using ok(1) by (auto simp: old_def index_ok_def counted_def split: option.split)
  have upd: "used P s' = used P s1 - old P + (if P ?new then at_size m else 0)" for P
    using ok(1) sum_set [of "md_index s1" "\<lambda>t. if P t then counted t else 0" "at_id m" ?new]
    by (simp add: used_def s' index_ok_def old_def new(1))
  have "0 \<le> overstated" "at_size m \<le> int (length blob) + overstated" by (simp_all add: overstated_def)
  then have grow: "used P s' \<le> used P s1 + int (length blob) + overstated" for P
    using old [of P] unfolding upd [of P] by (simp split: if_split)
  show "mt_totalBytes (getWorkspaceStats ws s') \<le> mc_maxPerWorkspaceBytes (md_config s) + overstated"
    "mt_totalBytes (getStats s') \<le> max (mc_maxTotalBytes (md_config s)) (pinned s + int (length blob)) + overstated"
    using ok(3,4) grow [of "\<lambda>t. tk_workspaceId t = ws"] grow [of "\<lambda>t. True"] by (simp_all add: stats_used)
  show "fst (getBlob later (at_id m) s') = Some blob" by (simp add: getBlob_def s' jm_get_set)
  show "index_ok s'" using ok(1) assms(2) new by (auto simp: index_ok_def s' jm_get_set)
qed

definition sample_attachment :: attachment_meta where
  "sample_attachment =
     createAttachmentMeta ''a'' ''x.txt'' 1 ''text/plain'' (hashBlob (\<lambda>b. b) [7]) None None None None"

definition sample_media :: media_store where
  "sample_media = snd (store_blob 1 ''w'' sample_attachment [7]
     (new_media_store \<lparr>pc_maxTotalBytes = Some 1, pc_maxPerWorkspaceBytes = Some 1, pc_autoPruneAgeMs = None, pc_autoDownload = None\<rparr>))"

definition second_attachment :: attachment_meta where
  "second_attachment = sample_attachment\<lparr>at_id := ''b''\<rparr>"

lemmas sample_attachment_eval = attachment_of_def attachment_meta.defs sample_attachment_def createAttachmentMeta_def

lemma sample_media_value:
  "md_index sample_media = [(''a'', \<lparr>tk_attachment = attachment_of sample_attachment Available (Some 1), tk_workspaceId = ''w'',
     tk_storedAt = 1, tk_blobKey = blob_key ''w'' ''a''\<rparr>)]"
  "md_blobs sample_media = [(blob_key ''w'' ''a'', [7])]"
  "mc_maxTotalBytes (md_config sample_media) = 1" "mc_maxPerWorkspaceBytes (md_config sample_media) = 1"
  by (simp_all add: sample_media_def store_blob_def enforceQuotas_def new_media_store_def updateConfig_def stats_used used_def
      jm_values_def jm_set_def sample_attachment_def createAttachmentMeta_def Let_def)

lemma sample_media_ok: "index_ok sample_media"
  by (simp add: index_ok_def sample_media_value wf_map_def jm_keys_def sample_attachment_eval)

text \<open>A second byte does not fit beside the first, which is evicted for it.\<close>

lemma second_store:
  "\<exists>a. store_blob 2 ''w'' second_attachment [8] sample_media = (Inr a, snd (store_blob 2 ''w'' second_attachment [8] sample_media))"
proof -
  have "mt_totalBytes (getWorkspaceStats ''w'' sample_media) = 1"
    by (simp add: stats_used used_def sample_media_value jm_values_def counted_def sample_attachment_eval)
  then show ?thesis
    by (simp add: store_blob_def enforceQuotas_def sample_media_value is_available_def by_access_def Let_def sample_attachment_eval
        split: prod.split)
qed

lemma store_within_quota_witness:
  "mt_totalBytes (getWorkspaceStats ''w'' (snd (store_blob 2 ''w'' second_attachment [8] sample_media))) \<le> 1"
proof -
  obtain a where "store_blob 2 ''w'' second_attachment [8] sample_media =
      (Inr a, snd (store_blob 2 ''w'' second_attachment [8] sample_media))"
    using second_store by blast
  from conjunct1 [OF store_within_quota [OF sample_media_ok _ this]] show ?thesis
    by (simp add: sample_media_value second_attachment_def sample_attachment_def createAttachmentMeta_def)
qed

lemma eviction_is_least_recent_witness:
  "jm_get (md_index (snd (evictLRU 1 sample_media))) ''a'' =
     (if ''a'' \<in> {a. \<exists>t. jm_get (md_index sample_media) a = Some t \<and> jm_get (md_index (snd (evictLRU 1 sample_media))) a \<noteq> Some t}
      then map_option (set_status Pruned) (jm_get (md_index sample_media) ''a'') else jm_get (md_index sample_media) ''a'')"
  by (rule eviction_is_least_recent(1) [OF sample_media_ok _ refl, of 1 "fst (evictLRU 1 sample_media)"]) simp

subsection \<open>Registering an attachment again\<close>

text \<open>The calls that are meant to free storage.\<close>

datatype reclaim = EvictLRU int | PruneWorkspace string | PruneOlderThan time int | AutoPrune time

definition reclaim_step :: "reclaim \<Rightarrow> media_store \<Rightarrow> media_store" where
  "reclaim_step c s =
     (case c of
        EvictLRU n \<Rightarrow> snd (evictLRU n s)
      | PruneWorkspace ws \<Rightarrow> snd (pruneWorkspace ws s)
      | PruneOlderThan now age \<Rightarrow> snd (pruneOlderThan now age s)
      | AutoPrune now \<Rightarrow> snd (autoprune now s))"

definition orphaned :: "string \<Rightarrow> string \<Rightarrow> bytes \<Rightarrow> media_store \<Rightarrow> bool" where
  "orphaned a k b s \<longleftrightarrow>
     index_ok s \<and> jm_get (md_blobs s) k = Some b \<and> (\<exists>t. jm_get (md_index s) a = Some t \<and> counted t = 0 \<and> \<not> is_available t) \<and>
     (\<forall>c u. jm_get (md_index s) c = Some u \<longrightarrow> tk_blobKey u = k \<longrightarrow> c = a)"

lemma prune_blobs:
  "jm_get (md_blobs (snd (prune c s))) k =
     (case jm_get (md_index s) c of Some t \<Rightarrow> if k = tk_blobKey t then None else jm_get (md_blobs s) k | None \<Rightarrow> jm_get (md_blobs s) k)"
  by (simp add: prune_def jm_get_delete split: option.split)

lemma orphaned_prune:
  assumes "orphaned a k b s" "c \<noteq> a"
  shows "orphaned a k b (snd (prune c s))"
  unfolding orphaned_def
proof (intro conjI allI impI)
  show "index_ok (snd (prune c s))" using assms by (simp add: orphaned_def prune_ok)
  show "jm_get (md_blobs (snd (prune c s))) k = Some b"
    using assms by (auto simp: orphaned_def prune_blobs split: option.split)
  show "\<exists>t. jm_get (md_index (snd (prune c s))) a = Some t \<and> counted t = 0 \<and> \<not> is_available t"
    using assms by (simp add: orphaned_def prune_index)
  fix d u
  assume "jm_get (md_index (snd (prune c s))) d = Some u" "tk_blobKey u = k"
  then obtain v where "jm_get (md_index s) d = Some v" "tk_blobKey v = k" by (auto simp: prune_index split: if_splits)
  then show "d = a" using assms(1) by (simp add: orphaned_def)
qed

lemma orphaned_prune_where:
  "orphaned a k b s \<Longrightarrow> (\<And>t. P t \<Longrightarrow> is_available t) \<Longrightarrow> orphaned a k b (snd (prune_where P as s))"
proof (induction as arbitrary: s)
  case (Cons c as)
  show ?case
  proof (cases "\<exists>t. jm_get (md_index s) c = Some t \<and> P t")
    case True
    then have "c \<noteq> a" using Cons.prems by (auto simp: orphaned_def)
    then have "orphaned a k b (snd (prune_where P as (snd (prune c s))))"
      using Cons.IH [OF orphaned_prune [OF Cons.prems(1)] Cons.prems(2)] by blast
    then show ?thesis using True by (auto simp: case_prod_beta)
  next
    case False
    then show ?thesis using Cons by (auto split: option.splits)
  qed
qed simp

lemma orphaned_evict: "orphaned a k b s \<Longrightarrow> orphaned a k b (snd (evictLRU n s))"
proof -
  assume o: "orphaned a k b s"
  obtain f m s' where loop: "evict_loop n 0 (by_access (filter (\<lambda>(a, t). is_available t) (md_index s))) s = (f, m, s')"
    by (cases "evict_loop n 0 (by_access (filter (\<lambda>(a, t). is_available t) (md_index s))) s") auto
  have ok: "index_ok s" using o by (simp add: orphaned_def)
  obtain es where es: "current s es" "s' = prune_all (map fst es) s" by (rule evict_outcome [OF ok _ loop]) simp_all
  have "a \<notin> set (map fst es)" using o es(1) by (force simp: orphaned_def current_def)
  then have "orphaned a k b (prune_all (map fst es) s)"
    using o by (induction "map fst es" arbitrary: es s) (auto simp: orphaned_prune)
  then show ?thesis using loop es(2) by (simp add: evictLRU_def)
qed

lemma orphaned_step: "orphaned a k b s \<Longrightarrow> orphaned a k b (reclaim_step c s)"
proof -
  assume o: "orphaned a k b s"
  have old: "orphaned a k b (snd (pruneOlderThan now age s))" for now age
    unfolding pruneOlderThan_def by (rule orphaned_prune_where [OF o]) simp
  have ws: "orphaned a k b (snd (pruneWorkspace ws s))" for ws
    unfolding pruneWorkspace_def by (rule orphaned_prune_where [OF o]) simp
  have "orphaned a k b (snd (autoprune now s))" for now
  proof -
    define r where "r = (if mc_autoPruneAgeMs (md_config s) > 0 then pruneOlderThan now (mc_autoPruneAgeMs (md_config s)) s else (0, s))"
    have "orphaned a k b (snd r)" using old o by (simp add: r_def)
    then show ?thesis
      using orphaned_evict [of a k b "snd r"] by (simp add: autoprune_def r_def [symmetric] Let_def case_prod_beta)
  qed
  then show ?thesis using old ws orphaned_evict [OF o] by (simp add: reclaim_step_def split: reclaim.split)
qed

text \<open>
  Registering the metadata of an attachment whose blob is stored, as a received message does, orphans the blob:
  it no longer counts in the statistics and no sequence of evictions and prunings ever deletes it.
\<close>

theorem registered_again_is_orphaned:
  assumes "index_ok s" "0 \<le> at_size m" "jm_get (md_index s) (at_id m) = Some t" "jm_get (md_blobs s) (tk_blobKey t) = Some b"
    and "\<forall>c u. jm_get (md_index s) c = Some u \<longrightarrow> tk_blobKey u = tk_blobKey t \<longrightarrow> c = at_id m"
    and "s' = fold reclaim_step calls (snd (registerMeta now ws m Pruned s))"
  shows "jm_get (md_blobs s') (tk_blobKey t) = Some b \<and>
    (\<exists>u. jm_get (md_index s') (at_id m) = Some u \<and> counted u = 0)"
proof (intro conjI)
  let ?new = "\<lparr>tk_attachment = attachment_of m Pruned None, tk_workspaceId = ws, tk_storedAt = now, tk_blobKey = blob_key ws (at_id m)\<rparr>"
  let ?s = "snd (registerMeta now ws m Pruned s)"
  have r: "md_index ?s = jm_set (at_id m) ?new (md_index s)" "md_blobs ?s = md_blobs s"
    by (simp_all add: registerMeta_def Let_def)
  have new: "counted ?new = 0" "\<not> is_available ?new" "at_size (tk_attachment ?new) = at_size m"
    by (simp_all add: counted_def is_available_def attachment_of_def attachment_meta.defs)
  have "orphaned (at_id m) (tk_blobKey t) b ?s"
    unfolding orphaned_def
  proof (intro conjI allI impI)
    show "index_ok ?s" using assms(1,2) new(3) by (simp add: index_ok_def r jm_get_set)
    show "jm_get (md_blobs ?s) (tk_blobKey t) = Some b" using assms(4) by (simp add: r)
    show "\<exists>u. jm_get (md_index ?s) (at_id m) = Some u \<and> counted u = 0 \<and> \<not> is_available u" using new by (simp add: r jm_get_set)
    show "c = at_id m" if "jm_get (md_index ?s) c = Some u" "tk_blobKey u = tk_blobKey t" for c u
      using that assms(5) by (simp add: r jm_get_set split: if_splits)
  qed
  then have "orphaned (at_id m) (tk_blobKey t) b s'"
    unfolding assms(6) by (induction calls rule: rev_induct) (simp_all add: orphaned_step)
  then show "jm_get (md_blobs s') (tk_blobKey t) = Some b" "\<exists>u. jm_get (md_index s') (at_id m) = Some u \<and> counted u = 0"
    by (auto simp: orphaned_def)
qed

lemma registered_again_is_orphaned_witness:
  "jm_get (md_blobs (fold reclaim_step [EvictLRU 100, PruneWorkspace ''w'', AutoPrune 10]
     (snd (registerMeta 2 ''w'' sample_attachment Pruned sample_media)))) (blob_key ''w'' ''a'') = Some [7]"
proof -
  have id: "at_id sample_attachment = ''a''" "0 \<le> at_size sample_attachment"
    by (simp_all add: sample_attachment_def createAttachmentMeta_def)
  let ?t = "\<lparr>tk_attachment = attachment_of sample_attachment Available (Some 1), tk_workspaceId = ''w'', tk_storedAt = 1,
    tk_blobKey = blob_key ''w'' ''a''\<rparr>"
  have t: "jm_get (md_index sample_media) (at_id sample_attachment) = Some ?t" by (simp add: id sample_media_value)
  have b: "jm_get (md_blobs sample_media) (tk_blobKey ?t) = Some [7]" by (simp add: sample_media_value)
  have one: "\<forall>c u. jm_get (md_index sample_media) c = Some u \<longrightarrow> tk_blobKey u = tk_blobKey ?t \<longrightarrow> c = at_id sample_attachment"
    by (simp add: id sample_media_value)
  show ?thesis
    using conjunct1 [OF registered_again_is_orphaned [OF sample_media_ok id(2) t b one refl,
        of "[EvictLRU 100, PruneWorkspace ''w'', AutoPrune 10]" 2 "''w''"]]
    by (simp only: tracked.select_convs)
qed

end
