(* ===== verification/MediaDownload.thy ===== *)
theory MediaDownload
  imports MediaStore
begin

section \<open>Sharing attachments between clients\<close>

text \<open>
  The media part of the web client (\<open>ChatController.ts\<close>): sending a file, serving a request, taking the messages of a
  download, and reading an attachment back. Attachments are kept encrypted. WebCrypto's AES-GCM is the record
  \<open>attachment_crypto\<close>; a generated key, a random initialisation vector, the time and the active workspace of a call are
  arguments. A call is one step: nothing runs between its awaits.
\<close>

text \<open>Fields: import of a key from the JSON text of its JWK, export to it, encryption and decryption of bytes under
  key and initialisation vector. \<open>Inl\<close> names the exception.\<close>

record 'k attachment_crypto =
  aes_import :: "string \<Rightarrow> 'k result"
  aes_export :: "'k \<Rightarrow> string"
  aes_encrypt :: "'k \<Rightarrow> bytes \<Rightarrow> bytes \<Rightarrow> bytes result"
  aes_decrypt :: "'k \<Rightarrow> bytes \<Rightarrow> bytes \<Rightarrow> bytes result"

text \<open>What a call finds around it.\<close>

record 'k surroundings =
  su_now :: time
  su_workspace :: "string option"
  su_key :: 'k
  su_iv :: bytes

definition exportAesKeyToBase64Jwk :: "'k attachment_crypto \<Rightarrow> 'k \<Rightarrow> string" where
  "exportAesKeyToBase64Jwk cr key = btoa (map of_char (aes_export cr key))"

definition importAesKeyFromBase64Jwk :: "'k attachment_crypto \<Rightarrow> string \<Rightarrow> 'k result" where
  "importAesKeyFromBase64Jwk cr keyBase64 =
     (case atob keyBase64 of None \<Rightarrow> Inl ''InvalidCharacterError'' | Some ns \<Rightarrow> aes_import cr (map char_of ns))"

text \<open>\<open>encryptAttachmentBlob\<close>: the ciphertext, the initialisation vector and the key; the arguments \<open>known_key\<close> and
  \<open>known_iv\<close> are the fields of \<open>existingMeta\<close>.\<close>

definition attachment_key :: "'k attachment_crypto \<Rightarrow> 'k \<Rightarrow> string option \<Rightarrow> ('k \<times> string) result" where
  "attachment_key cr fresh known_key =
     (case truthy_string known_key of
        Some k \<Rightarrow> map_sum id (\<lambda>key. (key, k)) (importAesKeyFromBase64Jwk cr k)
      | None \<Rightarrow> Inr (fresh, exportAesKeyToBase64Jwk cr fresh))"

definition attachment_iv :: "bytes \<Rightarrow> string option \<Rightarrow> bytes result" where
  "attachment_iv random known_iv =
     (case truthy_string known_iv of
        Some i \<Rightarrow> (case base64ToArrayBuffer i of None \<Rightarrow> Inl ''InvalidCharacterError'' | Some b \<Rightarrow> Inr b)
      | None \<Rightarrow> Inr random)"

definition encryptAttachmentBlob ::
    "'k attachment_crypto \<Rightarrow> 'k surroundings \<Rightarrow> bytes \<Rightarrow> string option \<Rightarrow> string option \<Rightarrow> (bytes \<times> string \<times> string) result" where
  "encryptAttachmentBlob cr e data known_key known_iv =
     (case attachment_key cr (su_key e) known_key of
        Inl err \<Rightarrow> Inl err
      | Inr (key, k) \<Rightarrow>
          (case attachment_iv (su_iv e) known_iv of
             Inl err \<Rightarrow> Inl err
           | Inr i \<Rightarrow> map_sum id (\<lambda>c. (c, arrayBufferToBase64 i, k)) (aes_encrypt cr key i data)))"

definition decryptStoredAttachmentBlob :: "'k attachment_crypto \<Rightarrow> string \<Rightarrow> bytes \<Rightarrow> media_store \<Rightarrow> bytes result" where
  "decryptStoredAttachmentBlob cr a encryptedBlob s =
     (case getAttachment a s of
        None \<Rightarrow> Inr encryptedBlob
      | Some att \<Rightarrow>
          (case (truthy_string (at_encryptionKey att), truthy_string (at_iv att)) of
             (Some k, Some i) \<Rightarrow>
               (case importAesKeyFromBase64Jwk cr k of
                  Inl err \<Rightarrow> Inl err
                | Inr key \<Rightarrow>
                    (case base64ToArrayBuffer i of
                       None \<Rightarrow> Inl ''InvalidCharacterError''
                     | Some ivb \<Rightarrow> aes_decrypt cr key ivb encryptedBlob))
           | _ \<Rightarrow> Inr encryptedBlob))"

text \<open>The clear bytes of an attachment that is stored here: \<open>resolveAttachmentImageUrl\<close> before it asks other peers.\<close>

definition readAttachment :: "'k attachment_crypto \<Rightarrow> time \<Rightarrow> string \<Rightarrow> media_store \<Rightarrow> bytes option result \<times> media_store" where
  "readAttachment cr now a s =
     (if getAttachment a s = None then (Inr None, s)
      else (case getBlob now a s of
              (None, s1) \<Rightarrow> (Inr None, s1)
            | (Some b, s1) \<Rightarrow> (map_sum id Some (decryptStoredAttachmentBlob cr a b s1), s1)))"

subsection \<open>The client's state and steps\<close>

record media_client =
  dw_senders :: "(string, sender) jsmap"
  dw_transfers :: "(string, receiver) jsmap"
  dw_store :: media_store

definition workspace_for_media :: "'k surroundings \<Rightarrow> string" where
  "workspace_for_media e = (case truthy_string (su_workspace e) of None \<Rightarrow> ''default'' | Some w \<Rightarrow> w)"

text \<open>Encrypting a blob and storing it under the metadata \<open>m\<close> with the outcome of the encryption filled in.\<close>

definition store_encrypted ::
    "(bytes \<Rightarrow> bytes) \<Rightarrow> 'k attachment_crypto \<Rightarrow> 'k surroundings \<Rightarrow> bytes \<Rightarrow> attachment_meta \<Rightarrow> media_store \<Rightarrow>
     attachment_meta result \<times> media_store" where
  "store_encrypted sha cr e data m s =
     (case encryptAttachmentBlob cr e data (at_encryptionKey m) (at_iv m) of
        Inl err \<Rightarrow> (Inl err, s)
      | Inr (c, i, k) \<Rightarrow>
          (let m' = m\<lparr>at_iv := Some i, at_encryptionKey := Some k, at_encryptedHash := Some (hashBlob sha c)\<rparr>
           in case store_blob (su_now e) (workspace_for_media e) m' c s of (r, s') \<Rightarrow> (map_sum id (\<lambda>_. m') r, s')))"

text \<open>\<open>sendAttachment\<close> up to the message: the metadata to send.\<close>

definition uploadAttachment ::
    "(bytes \<Rightarrow> bytes) \<Rightarrow> 'k attachment_crypto \<Rightarrow> 'k surroundings \<Rightarrow> string \<Rightarrow> string \<Rightarrow> string \<Rightarrow>
     string option \<Rightarrow> int option \<Rightarrow> int option \<Rightarrow> bytes \<Rightarrow> media_client \<Rightarrow> attachment_meta result \<times> media_client" where
  "uploadAttachment sha cr e uuid name mime thumb width height data s =
     (let m = createAttachmentMeta uuid name (int (length data)) mime (hashBlob sha data) thumb width height None
      in case store_encrypted sha cr e data m (dw_store s) of
           (Inl err, ms) \<Rightarrow> (Inl err, s\<lparr>dw_store := ms\<rparr>)
         | (Inr m', ms) \<Rightarrow>
             (Inr m', s\<lparr>dw_store := ms, dw_senders := jm_set (at_id m') (new_sender (at_id m') data CHUNK_SIZE) (dw_senders s)\<rparr>))"

text \<open>\<open>handleMediaRequest\<close> with the reading of the blob: the messages sent, unless it throws.\<close>

definition client_request ::
    "(bytes \<Rightarrow> bytes) \<Rightarrow> 'k attachment_crypto \<Rightarrow> time \<Rightarrow> media_request \<Rightarrow> media_client \<Rightarrow> media_message list result \<times> media_client" where
  "client_request sha cr now q s =
     (let a = mq_attachmentId q;
          serve = (\<lambda>blob st. case handleMediaRequest sha blob q (dw_senders s) of
                     (ms, senders) \<Rightarrow> (Inr ms, s\<lparr>dw_senders := senders, dw_store := st\<rparr>))
      in if jm_has (dw_senders s) a then serve None (dw_store s)
         else
           (case getBlob now a (dw_store s) of
              (None, st) \<Rightarrow> serve None st
            | (Some b, st) \<Rightarrow>
                (case decryptStoredAttachmentBlob cr a b st of
                   Inl err \<Rightarrow> (Inl err, s\<lparr>dw_store := st\<rparr>)
                 | Inr data \<Rightarrow> serve (Some data) st)))"

text \<open>What \<open>handleMediaChunk\<close> does with a download that is complete; an exception only ends in a notice.\<close>

definition storeDownloaded ::
    "(bytes \<Rightarrow> bytes) \<Rightarrow> 'k attachment_crypto \<Rightarrow> 'k surroundings \<Rightarrow> string \<Rightarrow> bytes \<Rightarrow> media_store \<Rightarrow> unit result \<times> media_store" where
  "storeDownloaded sha cr e a data s =
     (case getAttachment a s of
        None \<Rightarrow> (Inr (), s)
      | Some att \<Rightarrow>
          (case store_encrypted sha cr e data (attachment_meta.truncate att) s of (r, s') \<Rightarrow> (map_sum id (\<lambda>_. ()) r, s')))"

text \<open>One message of a media exchange at the downloading client.\<close>

definition client_step ::
    "(bytes \<Rightarrow> bytes) \<Rightarrow> 'k attachment_crypto \<Rightarrow> 'k surroundings \<times> media_message \<Rightarrow> media_client \<Rightarrow> media_client" where
  "client_step sha cr call s =
     (case call of
        (e, MediaResponse a available tot) \<Rightarrow>
          s\<lparr>dw_transfers := handleMediaResponse (\<lambda>a. map_option attachment_meta.truncate (getAttachment a (dw_store s)))
              (su_now e) a available tot (dw_transfers s)\<rparr>
      | (e, MediaChunk c) \<Rightarrow>
          (case handleMediaChunk sha (su_now e) c (dw_transfers s) of
             (t, None) \<Rightarrow> s\<lparr>dw_transfers := t\<rparr>
           | (t, Some data) \<Rightarrow>
               s\<lparr>dw_transfers := t, dw_store := snd (storeDownloaded sha cr e (ck_attachmentId c) data (dw_store s))\<rparr>))"

subsection \<open>Reading back what was stored\<close>

text \<open>The documented behaviour of AES-GCM: an exported key is imported as itself, and what was encrypted decrypts.\<close>

definition sound_aes :: "'k attachment_crypto \<Rightarrow> bool" where
  "sound_aes cr \<longleftrightarrow>
     (\<forall>k. aes_export cr k \<noteq> [] \<and> aes_import cr (aes_export cr k) = Inr k) \<and>
     (\<forall>k i d c. aes_encrypt cr k i d = Inr c \<longrightarrow> aes_decrypt cr k i c = Inr d)"

text \<open>An initialisation vector that comes with the metadata has at least one byte.\<close>

definition usable_iv :: "string option \<Rightarrow> bool" where
  "usable_iv known_iv \<longleftrightarrow> (case known_iv of None \<Rightarrow> True | Some i \<Rightarrow> i = [] \<or> base64ToArrayBuffer i \<noteq> Some [])"

lemma exported_key:
  assumes "sound_aes cr"
  shows "importAesKeyFromBase64Jwk cr (exportAesKeyToBase64Jwk cr key) = Inr key" "exportAesKeyToBase64Jwk cr key \<noteq> []"
proof -
  let ?ns = "map of_char (aes_export cr key) :: nat list"
  have at: "atob (btoa ?ns) = Some ?ns" by (rule atob_btoa) (simp add: list_all_iff)
  then show "importAesKeyFromBase64Jwk cr (exportAesKeyToBase64Jwk cr key) = Inr key"
    using assms by (simp add: importAesKeyFromBase64Jwk_def exportAesKeyToBase64Jwk_def sound_aes_def comp_def)
  have "atob [] = Some []" by code_simp
  then show "exportAesKeyToBase64Jwk cr key \<noteq> []"
    using at assms by (auto simp: exportAesKeyToBase64Jwk_def sound_aes_def)
qed

lemma attachment_key_import:
  assumes "sound_aes cr" "attachment_key cr fresh known = Inr (key, k)"
  shows "importAesKeyFromBase64Jwk cr k = Inr key \<and> k \<noteq> []"
  using assms exported_key [OF assms(1)]
  by (cases "importAesKeyFromBase64Jwk cr (the known)")
    (auto simp: attachment_key_def truthy_string_def split: option.splits if_splits sum.splits)

lemma attachment_iv_nonempty:
  "attachment_iv random known = Inr i \<Longrightarrow> random \<noteq> [] \<Longrightarrow> usable_iv known \<Longrightarrow> i \<noteq> []"
  by (auto simp: attachment_iv_def usable_iv_def truthy_string_def split: option.splits if_splits)

lemma base64_nonempty: "b \<noteq> [] \<Longrightarrow> arrayBufferToBase64 b \<noteq> []"
proof
  assume "b \<noteq> []" "arrayBufferToBase64 b = []"
  moreover have "base64ToArrayBuffer [] = Some []" by code_simp
  ultimately show False using base64_roundtrip [of b] by simp
qed

lemma encrypted_reads_back:
  assumes "sound_aes cr" "encryptAttachmentBlob cr e data known_key known_iv = Inr (c, i, k)"
    and "su_iv e \<noteq> []" "usable_iv known_iv"
  obtains key ivb where "truthy_string (Some k) = Some k" "truthy_string (Some i) = Some i" "importAesKeyFromBase64Jwk cr k = Inr key"
    "base64ToArrayBuffer i = Some ivb" "aes_decrypt cr key ivb c = Inr data"
proof -
  obtain key ivb where enc: "attachment_key cr (su_key e) known_key = Inr (key, k)" "attachment_iv (su_iv e) known_iv = Inr ivb"
      "aes_encrypt cr key ivb data = Inr c" "i = arrayBufferToBase64 ivb"
    using assms(2) by (cases "aes_encrypt cr (fst (projr (attachment_key cr (su_key e) known_key))) (projr (attachment_iv (su_iv e) known_iv)) data")
      (auto simp: encryptAttachmentBlob_def split: sum.splits prod.splits)
  show ?thesis
  proof (rule that)
    show "truthy_string (Some k) = Some k" "importAesKeyFromBase64Jwk cr k = Inr key"
      using attachment_key_import [OF assms(1) enc(1)] by (simp_all add: truthy_string_def)
    show "truthy_string (Some i) = Some i"
      using base64_nonempty attachment_iv_nonempty [OF enc(2) assms(3,4)] by (simp add: truthy_string_def enc(4))
    show "base64ToArrayBuffer i = Some ivb" by (simp add: enc(4) base64_roundtrip)
    show "aes_decrypt cr key ivb c = Inr data" using assms(1) enc(3) by (simp add: sound_aes_def)
  qed
qed

text \<open>What the store accepted can be read, whenever that is tried.\<close>

lemma stored_reads_back:
  assumes "sound_aes cr" "su_iv e \<noteq> []" "usable_iv (at_iv m)" "store_encrypted sha cr e data m s = (Inr m', s')"
  shows "fst (readAttachment cr later (at_id m) s') = Inr (Some data) \<and> at_id m' = at_id m \<and> at_hash m' = at_hash m"
proof -
  obtain c i k where enc: "encryptAttachmentBlob cr e data (at_encryptionKey m) (at_iv m) = Inr (c, i, k)"
    using assms(4) by (auto simp: store_encrypted_def split: sum.splits)
  let ?m = "m\<lparr>at_iv := Some i, at_encryptionKey := Some k, at_encryptedHash := Some (hashBlob sha c)\<rparr>"
  let ?ws = "workspace_for_media e"
  obtain r where st: "store_blob (su_now e) ?ws ?m c s = (r, s')" and r: "map_sum id (\<lambda>_. ?m) r = Inr m'"
    using assms(4) by (auto simp: store_encrypted_def enc Let_def split: prod.splits)
  then obtain a where a: "r = Inr a" and m': "m' = ?m" by (cases r) auto
  obtain s1 where s': "s' = s1\<lparr>md_blobs := jm_set (blob_key ?ws (at_id m)) c (md_blobs s1),
      md_index := jm_set (at_id m) \<lparr>tk_attachment = attachment_of ?m Available (Some (su_now e)), tk_workspaceId = ?ws,
        tk_storedAt = su_now e, tk_blobKey = blob_key ?ws (at_id m)\<rparr> (md_index s1)\<rparr>"
    using st a by (auto simp: store_blob_def Let_def split: prod.splits sum.splits)
  obtain key ivb where read: "truthy_string (Some k) = Some k" "truthy_string (Some i) = Some i" "importAesKeyFromBase64Jwk cr k = Inr key"
    "base64ToArrayBuffer i = Some ivb" "aes_decrypt cr key ivb c = Inr data"
    by (rule encrypted_reads_back [OF assms(1) enc assms(2,3)])
  have att: "at_encryptionKey (attachment_of ?m st t) = Some k" "at_iv (attachment_of ?m st t) = Some i" for st t
    by (simp_all add: attachment_of_def attachment_meta.defs)
  have "fst (readAttachment cr later (at_id m) s') = Inr (Some data)"
    by (simp add: readAttachment_def getAttachment_def getBlob_def s' decryptStoredAttachmentBlob_def jm_get_set att read)
  then show ?thesis by (simp add: m')
qed

subsection \<open>A download between two clients\<close>

text \<open>A client offers a blob while it has a sender for it, or can read it from its store.\<close>

definition offers :: "'k attachment_crypto \<Rightarrow> time \<Rightarrow> string \<Rightarrow> bytes \<Rightarrow> media_client \<Rightarrow> bool" where
  "offers cr now a data s \<longleftrightarrow>
     (case jm_get (dw_senders s) a of
        Some sd \<Rightarrow> sd = new_sender a data CHUNK_SIZE
      | None \<Rightarrow> fst (readAttachment cr now a (dw_store s)) = Inr (Some data))"

lemma uploaded_is_offered:
  assumes "uploadAttachment sha cr e uuid name mime thumb width height data s = (Inr m, s')"
  shows "offers cr now (at_id m) data s' \<and> at_id m = uuid \<and> at_hash m = hashBlob sha data"
proof -
  let ?m = "createAttachmentMeta uuid name (int (length data)) mime (hashBlob sha data) thumb width height None"
  obtain ms where st: "store_encrypted sha cr e data ?m (dw_store s) = (Inr m, ms)"
    and s': "s' = s\<lparr>dw_store := ms, dw_senders := jm_set (at_id m) (new_sender (at_id m) data CHUNK_SIZE) (dw_senders s)\<rparr>"
    using assms by (auto simp: uploadAttachment_def Let_def split: prod.splits sum.splits)
  have "at_id m = at_id ?m \<and> at_hash m = at_hash ?m"
    using st by (auto simp: store_encrypted_def Let_def map_sum_def split: sum.splits prod.splits)
  then show ?thesis by (simp add: offers_def s' jm_get_set createAttachmentMeta_def)
qed

lemma sz_pos: "0 < CHUNK_SIZE"
  by (simp add: CHUNK_SIZE_def)

lemma offered_request:
  assumes "offers cr now a data s"
  shows "fst (client_request sha cr now \<lparr>mq_attachmentId = a, mq_fromChunk = None\<rparr> s) =
    Inr (MediaResponse a True (ceil_div (int (length data)) CHUNK_SIZE) #
      map (\<lambda>i. MediaChunk (genuine sha a data CHUNK_SIZE i)) [0..ceil_div (int (length data)) CHUNK_SIZE - 1])"
proof (cases "jm_get (dw_senders s) a")
  case (Some sd)
  then show ?thesis
    using assms chunks_genuine [OF sz_pos]
    by (simp add: offers_def client_request_def handleMediaRequest_def jm_has_def Let_def) (simp add: new_sender_def)
next
  case None
  then have "fst (readAttachment cr now a (dw_store s)) = Inr (Some data)" using assms by (simp add: offers_def)
  then obtain b st where b: "getBlob now a (dw_store s) = (Some b, st)" and d: "decryptStoredAttachmentBlob cr a b st = Inr data"
    by (auto simp: readAttachment_def map_sum_def split: if_splits prod.splits option.splits sum.splits)
  show ?thesis
    using None chunks_genuine [OF sz_pos]
    by (simp add: client_request_def handleMediaRequest_def jm_has_def b d Let_def) (simp add: new_sender_def)
qed

text \<open>The chunks from \<open>k\<close> on, up to the last, which stores the blob.\<close>

lemma chunks_arrive:
  assumes "calls \<noteq> []" "0 \<le> k" "jm_get (dw_transfers s) a = Some r" "holds a data CHUNK_SIZE (hashBlob sha data) {0..<k} r"
    and "map snd calls = map (\<lambda>i. MediaChunk (genuine sha a data CHUNK_SIZE i)) [k..ceil_div (int (length data)) CHUNK_SIZE - 1]"
  shows "\<exists>t. fold (client_step sha cr) calls s =
      s\<lparr>dw_transfers := t, dw_store := snd (storeDownloaded sha cr (fst (last calls)) a data (dw_store s))\<rparr> \<and>
    jm_get t a = None \<and> only_changed a (dw_transfers s) t"
  using assms
proof (induction calls arbitrary: k s r)
  case Nil
  then show ?case by simp
next
  case (Cons call calls)
  let ?n = "ceil_div (int (length data)) CHUNK_SIZE" let ?c = "genuine sha a data CHUNK_SIZE k"
  have k: "k < ?n" using Cons.prems(5) by (cases "k \<le> ?n - 1") auto
  obtain e where call: "call = (e, MediaChunk ?c)"
    and rest: "map snd calls = map (\<lambda>i. MediaChunk (genuine sha a data CHUNK_SIZE i)) [k + 1..?n - 1]"
    using k Cons.prems(5) by (cases call) (auto simp: upto_rec1 [of k])
  have id: "ck_attachmentId ?c = a" by (simp add: genuine_def)
  obtain r' where r': "holds a data CHUNK_SIZE (hashBlob sha data) {0..<k + 1} r'"
    "handleMediaChunk sha (su_now e) ?c (dw_transfers s) =
      (if k + 1 = ?n then (jm_delete a (dw_transfers s), Some data) else (jm_set a r' (dw_transfers s), None))"
    by (rule next_chunk [OF sz_pos k Cons.prems(2-4)])
  show ?case
  proof (cases "k + 1 = ?n")
    case True
    then have "calls = []" using rest by simp
    then show ?thesis
      using True by (intro exI [of _ "jm_delete a (dw_transfers s)"])
        (simp add: call client_step_def r'(2) id only_changed_def jm_get_delete)
  next
    case False
    let ?s = "s\<lparr>dw_transfers := jm_set a r' (dw_transfers s)\<rparr>"
    have step: "client_step sha cr call s = ?s" using False by (simp add: call client_step_def r'(2))
    have more: "calls \<noteq> []" using rest k False by (auto simp: upto_rec1 [of "k + 1"])
    obtain t where t: "fold (client_step sha cr) calls ?s =
        ?s\<lparr>dw_transfers := t, dw_store := snd (storeDownloaded sha cr (fst (last calls)) a data (dw_store ?s))\<rparr>"
      "jm_get t a = None" "only_changed a (dw_transfers ?s) t"
      using Cons.IH [of "k + 1" ?s r'] more Cons.prems(2) r'(1) rest by (auto simp: jm_get_set)
    show ?thesis
      using t more by (intro exI [of _ t]) (simp add: step only_changed_def jm_get_set)
  qed
qed

text \<open>
  Property C29. A client that asks another one for an attachment of at least one byte whose hash it knows, and takes the messages of the
  answer in their order with no others between, ends with the download over, all others untouched, and its store as one
  attempt to encrypt and store exactly the bytes that were offered leaves it. If that attempt succeeds (the quota or a bad
  key may refuse it), the attachment then reads back as these bytes. What is offered is a file just sent, or an attachment
  the serving client can itself read. Initialisation vectors, generated or received, are not empty.
\<close>

theorem download_delivers:
  assumes "sound_aes cr" "data \<noteq> []" "offers cr now a data sA"
    and "fst (client_request sha cr now \<lparr>mq_attachmentId = a, mq_fromChunk = None\<rparr> sA) = Inr (map snd calls)"
    and "getAttachment a (dw_store sB) = Some att" "at_id att = a" "at_hash att = hashBlob sha data" "usable_iv (at_iv att)"
    and "su_iv (fst (last calls)) \<noteq> []"
    and "storeDownloaded sha cr (fst (last calls)) a data (dw_store sB) = (outcome, store')"
  shows "\<exists>t. fold (client_step sha cr) calls sB = sB\<lparr>dw_transfers := t, dw_store := store'\<rparr> \<and>
    jm_get t a = None \<and> only_changed a (dw_transfers sB) t \<and>
    (outcome = Inr () \<longrightarrow> fst (readAttachment cr later a store') = Inr (Some data))"
proof -
  let ?n = "ceil_div (int (length data)) CHUNK_SIZE"
  have calls: "map snd calls = MediaResponse a True ?n # map (\<lambda>i. MediaChunk (genuine sha a data CHUNK_SIZE i)) [0..?n - 1]"
    using assms(4) unfolding offered_request [OF assms(3)] by simp
  then obtain e rest where c: "calls = (e, MediaResponse a True ?n) # rest"
    and rest: "map snd rest = map (\<lambda>i. MediaChunk (genuine sha a data CHUNK_SIZE i)) [0..?n - 1]"
    by (cases calls) auto
  have "0 < ?n" using ceil_div_iff [OF sz_pos, of 0] assms(2) by simp
  then have more: "rest \<noteq> []" using rest by (auto simp: upto_rec1 [of 0])
  let ?r = "new_receiver (su_now e) a ?n (hashBlob sha data)"
  let ?s = "sB\<lparr>dw_transfers := jm_set a ?r (dw_transfers sB)\<rparr>"
  have "at_hash (attachment_meta.truncate att) = at_hash att" by (simp add: attachment_meta.defs)
  then have first: "client_step sha cr (e, MediaResponse a True ?n) sB = ?s"
    using assms(5,7) by (simp add: client_step_def handleMediaResponse_def)
  have "holds a data CHUNK_SIZE (hashBlob sha data) {0..<0} ?r" using holds_new by simp
  then obtain t where t: "fold (client_step sha cr) rest ?s =
      ?s\<lparr>dw_transfers := t, dw_store := snd (storeDownloaded sha cr (fst (last rest)) a data (dw_store ?s))\<rparr>"
    "jm_get t a = None" "only_changed a (dw_transfers ?s) t"
    using chunks_arrive [of rest 0 ?s a ?r data sha cr] more rest by (auto simp: jm_get_set)
  have reads: "fst (readAttachment cr later a store') = Inr (Some data)" if out: "outcome = Inr ()"
  proof -
    let ?m = "attachment_meta.truncate att"
    obtain m' where "store_encrypted sha cr (fst (last calls)) data ?m (dw_store sB) = (Inr m', store')"
      using assms(5,10) out by (auto simp: storeDownloaded_def map_sum_def split: prod.splits sum.splits)
    moreover have "at_id ?m = a" "at_iv ?m = at_iv att" using assms(6) by (simp_all add: attachment_meta.defs)
    ultimately show ?thesis using stored_reads_back [OF assms(1,9), of ?m] assms(8) by simp
  qed
  show ?thesis
    using t more assms(10) reads by (intro exI [of _ t]) (simp add: c first only_changed_def jm_get_set)
qed

text \<open>Cryptography that encrypts nothing; one client sends a file of one byte, another registers the metadata.\<close>

definition plain_aes :: "unit attachment_crypto" where
  "plain_aes = \<lparr>aes_import = (\<lambda>j. Inr ()), aes_export = (\<lambda>k. ''{}''), aes_encrypt = (\<lambda>k i d. Inr d), aes_decrypt = (\<lambda>k i c. Inr c)\<rparr>"

definition sample_call :: "time \<Rightarrow> unit surroundings" where
  "sample_call t = \<lparr>su_now = t, su_workspace = Some ''w'', su_key = (), su_iv = [5]\<rparr>"

definition fresh_client :: media_client where
  "fresh_client = \<lparr>dw_senders = [], dw_transfers = [], dw_store = new_media_store
     \<lparr>pc_maxTotalBytes = None, pc_maxPerWorkspaceBytes = None, pc_autoPruneAgeMs = None, pc_autoDownload = None\<rparr>\<rparr>"

definition sent_meta :: attachment_meta where
  "sent_meta = (createAttachmentMeta ''a'' ''x.txt'' 1 ''text/plain'' (hashBlob (\<lambda>b. b) [7]) None None None None)
     \<lparr>at_iv := Some (arrayBufferToBase64 [5]), at_encryptionKey := Some (exportAesKeyToBase64Jwk plain_aes ()),
      at_encryptedHash := Some (hashBlob (\<lambda>b. b) [7])\<rparr>"

definition sending_client :: media_client where
  "sending_client = snd (uploadAttachment (\<lambda>b. b) plain_aes (sample_call 1) ''a'' ''x.txt'' ''text/plain'' None None None [7] fresh_client)"

definition receiving_client :: media_client where
  "receiving_client = fresh_client\<lparr>dw_store := snd (registerMeta 2 ''w'' sent_meta Pruned (dw_store fresh_client))\<rparr>"

lemma plain_aes_sound: "sound_aes plain_aes"
  by (simp add: sound_aes_def plain_aes_def)

lemmas media_eval = store_blob_def enforceQuotas_def new_media_store_def updateConfig_def DEFAULT_CONFIG_def stats_used used_def
  jm_values_def jm_set_def counted_def attachment_of_def attachment_meta.defs Let_def

lemma sample_upload:
  "uploadAttachment (\<lambda>b. b) plain_aes (sample_call 1) ''a'' ''x.txt'' ''text/plain'' None None None [7] fresh_client =
     (Inr sent_meta, sending_client)"
proof -
  have "\<exists>s. uploadAttachment (\<lambda>b. b) plain_aes (sample_call 1) ''a'' ''x.txt'' ''text/plain'' None None None [7] fresh_client =
      (Inr sent_meta, s)"
    by (simp add: uploadAttachment_def store_encrypted_def encryptAttachmentBlob_def attachment_key_def attachment_iv_def truthy_string_def
        media_eval fresh_client_def plain_aes_def sample_call_def createAttachmentMeta_def sent_meta_def)
  then show ?thesis by (auto simp: sending_client_def)
qed

lemma sample_registered:
  "getAttachment ''a'' (dw_store receiving_client) = Some (attachment_of sent_meta Pruned None)"
  "attachment_meta.truncate (attachment_of sent_meta Pruned None) = sent_meta"
  by (simp_all add: receiving_client_def registerMeta_def getAttachment_def Let_def attachment_of_def attachment_meta.defs
      sent_meta_def createAttachmentMeta_def jm_get_set)

lemma sample_stored:
  "fst (storeDownloaded (\<lambda>b. b) plain_aes (sample_call 3) ''a'' [7] (dw_store receiving_client)) = Inr ()"
proof -
  have key: "attachment_key plain_aes () (at_encryptionKey sent_meta) = Inr ((), exportAesKeyToBase64Jwk plain_aes ())"
    using exported_key [OF plain_aes_sound] by (simp add: attachment_key_def truthy_string_def sent_meta_def)
  have iv: "attachment_iv [5] (at_iv sent_meta) = Inr [5]"
    using base64_nonempty [of "[5]"] by (simp add: attachment_iv_def truthy_string_def sent_meta_def base64_roundtrip)
  show ?thesis
    unfolding storeDownloaded_def sample_registered store_encrypted_def
    by (simp add: sample_registered encryptAttachmentBlob_def sample_call_def key iv)
      (simp add: plain_aes_def receiving_client_def fresh_client_def registerMeta_def media_eval split: prod.splits)
qed

lemma download_delivers_witness:
  "fst (readAttachment plain_aes 9 ''a'' (dw_store (fold (client_step (\<lambda>b. b) plain_aes)
     [(sample_call 2, MediaResponse ''a'' True 1), (sample_call 3, MediaChunk (genuine (\<lambda>b. b) ''a'' [7] CHUNK_SIZE 0))]
     receiving_client))) = Inr (Some [7])"
proof -
  let ?calls = "[(sample_call 2, MediaResponse ''a'' True 1), (sample_call 3, MediaChunk (genuine (\<lambda>b. b) ''a'' [7] CHUNK_SIZE 0))]"
  let ?stored = "storeDownloaded (\<lambda>b. b) plain_aes (sample_call 3) ''a'' [7] (dw_store receiving_client)"
  let ?att = "attachment_of sent_meta Pruned None"
  have "at_id sent_meta = ''a''" by (simp add: sent_meta_def createAttachmentMeta_def)
  then have offer: "offers plain_aes 2 ''a'' [7] sending_client" using uploaded_is_offered [OF sample_upload, of 2] by metis
  have "ceil_div 1 CHUNK_SIZE = 1" by (simp add: ceil_div_def CHUNK_SIZE_def)
  then have calls: "fst (client_request (\<lambda>b. b) plain_aes 2 \<lparr>mq_attachmentId = ''a'', mq_fromChunk = None\<rparr> sending_client) =
      Inr (map snd ?calls)"
    using offered_request [OF offer, of "\<lambda>b. b"] by (simp add: upto.simps)
  have att: "at_id ?att = ''a''" "at_hash ?att = hashBlob (\<lambda>b. b) [7]" "usable_iv (at_iv ?att)"
    by (simp_all add: attachment_of_def attachment_meta.defs sent_meta_def createAttachmentMeta_def usable_iv_def base64_roundtrip)
  show ?thesis
    using download_delivers [OF plain_aes_sound _ offer calls sample_registered(1) att, of "fst ?stored" "snd ?stored" 9]
      sample_stored by (auto simp: sample_call_def)
qed

text \<open>
  A download does not survive one bad chunk: whoever sends a chunk that is refused, with the id of a running
  download, ends it, and none of the genuine chunks after it is stored.
\<close>

theorem refused_chunk_ends_download:
  assumes "jm_get (dw_transfers s) a = Some r" "rv_attachmentId r = a" "ck_attachmentId c = a" "refused sha a (rv_totalChunks r) c"
    and "list_all (\<lambda>(e, m). \<exists>d. m = MediaChunk d \<and> ck_attachmentId d = a) calls"
  shows "fold (client_step sha cr) ((e, MediaChunk c) # calls) s = s\<lparr>dw_transfers := jm_delete a (dw_transfers s)\<rparr>"
proof -
  let ?s = "s\<lparr>dw_transfers := jm_delete a (dw_transfers s)\<rparr>"
  obtain err where "addChunk sha (su_now e) c r = (Inl err, r)"
    using addChunk_refused [of sha r c "su_now e"] assms by auto
  then have "client_step sha cr (e, MediaChunk c) s = ?s" using assms by (simp add: client_step_def handleMediaChunk_def)
  moreover have "fold (client_step sha cr) calls ?s = ?s"
    using assms(5) by (induction calls) (auto simp: client_step_def handleMediaChunk_def jm_get_delete)
  ultimately show ?thesis by simp
qed

lemma refused_chunk_ends_download_witness:
  "fold (client_step (\<lambda>b. b) plain_aes) [(sample_call 1, MediaChunk ((genuine (\<lambda>b. b) ''a'' [7] 1 0)\<lparr>ck_index := 5\<rparr>)),
     (sample_call 2, MediaChunk (genuine (\<lambda>b. b) ''a'' [7] 1 0))]
     (fresh_client\<lparr>dw_transfers := [(''a'', new_receiver 0 ''a'' 1 (hashBlob (\<lambda>b. b) [7]))]\<rparr>) = fresh_client"
proof -
  let ?s = "fresh_client\<lparr>dw_transfers := [(''a'', new_receiver 0 ''a'' 1 (hashBlob (\<lambda>b. b) [7]))]\<rparr>"
  have "jm_delete ''a'' [(''a'', new_receiver 0 ''a'' 1 (hashBlob (\<lambda>b. b) [7 :: 8 word]))] = []" by (simp add: jm_delete_def)
  then show ?thesis
    using refused_chunk_ends_download [of ?s "''a''" "new_receiver 0 ''a'' 1 (hashBlob (\<lambda>b. b) [7])"
        "(genuine (\<lambda>b. b) ''a'' [7] 1 0)\<lparr>ck_index := 5\<rparr>" "\<lambda>b. b"
        "[(sample_call 2, MediaChunk (genuine (\<lambda>b. b) ''a'' [7] 1 0))]" plain_aes "sample_call 1"]
    by (simp add: new_receiver_def genuine_def refused_def fresh_client_def)
qed

end
