(* ===== verification/PeerTrust.thy ===== *)
theory PeerTrust
  imports PeerSessions
begin

section \<open>Whom a peer is taken for\<close>

text \<open>
  \<open>security/PeerAuth.ts\<close>, \<open>security/IdentityVerifier.ts\<close> and \<open>security/HandshakeVerifier.ts\<close>, and the challenge
  handling of \<open>ChatController.ts\<close>. Random bytes and the clock are arguments; \<open>spki\<close> is the SPKI export of the platform.
  Error texts are written in ASCII and without the text of platform errors.
\<close>

subsection \<open>Challenge and response\<close>

record challenge =
  cl_nonce :: string
  cl_timestamp :: time

definition createChallenge :: "bytes \<Rightarrow> time \<Rightarrow> challenge" where
  "createChallenge random now = \<lparr>cl_nonce = arrayBufferToBase64 random, cl_timestamp = now\<rparr>"

definition isChallengeExpired :: "time \<Rightarrow> challenge \<Rightarrow> int \<Rightarrow> bool" where
  "isChallengeExpired now c maxAgeMs \<longleftrightarrow> now - cl_timestamp c > maxAgeMs"

definition buildPayload :: "string \<Rightarrow> string \<Rightarrow> bytes" where
  "buildPayload nonce peerId = ascii_bytes (nonce @ peerId)"

definition respondToChallenge :: "('sk, 'pk, 'gk, 'vk) suite \<Rightarrow> string \<Rightarrow> string \<Rightarrow> 'gk \<Rightarrow> string" where
  "respondToChallenge cs nonce challengerPeerId gk =
     arrayBufferToBase64 (ecdsa_sign cs gk (buildPayload nonce challengerPeerId))"

definition verifyResponse :: "('sk, 'pk, 'gk, 'vk) suite \<Rightarrow> string \<Rightarrow> string \<Rightarrow> string \<Rightarrow> 'vk \<Rightarrow> bool" where
  "verifyResponse cs nonce ourPeerId signature vk =
     (case base64ToArrayBuffer signature of
        None \<Rightarrow> False
      | Some b \<Rightarrow> ecdsa_verify cs vk b (buildPayload nonce ourPeerId))"

subsection \<open>Peer id and public key\<close>

datatype key_input = KeyBytes bytes | KeyBase64 string

definition dep003_id :: "string \<Rightarrow> bool" where
  "dep003_id p \<longleftrightarrow> length p = 18 \<and> list_all (\<lambda>c. c \<in> set ''0123456789abcdef'') p"

text \<open>\<open>None\<close> is an exception of \<open>atob\<close>, which is called outside the \<open>try\<close>.\<close>

definition verifyPeerIdBinding ::
    "('sk, 'pk, 'gk, 'vk) suite \<Rightarrow> ('pk \<Rightarrow> bytes) \<Rightarrow> string \<Rightarrow> key_input \<Rightarrow> unit result option" where
  "verifyPeerIdBinding cs spki claimed key =
     (if claimed = [] then Some (Inl ''Empty peerId'')
      else if \<not> dep003_id claimed then Some (Inr ())
      else
        (let check = (\<lambda>b. let derived = hex_bytes (take 9 (sha256_digest cs b))
                          in if claimed \<noteq> derived
                             then Inl (''PeerId-PublicKey mismatch. Claimed: '' @ claimed @ '', derived: '' @ derived)
                             else Inr ())
         in case key of
              KeyBytes b \<Rightarrow> Some (check b)
            | KeyBase64 t \<Rightarrow>
                (case atob_string t of
                   None \<Rightarrow> None
                 | Some decoded \<Rightarrow>
                     (if take 1 decoded = ''{''
                      then (case public_of_jwk cs decoded of
                              None \<Rightarrow> Some (Inl ''Failed to import JWK public key'')
                            | Some pk \<Rightarrow> Some (check (spki pk)))
                      else Some (check (map (\<lambda>c. of_nat (of_char c)) decoded))))))"

definition verifyHandshakeKey :: "string option \<Rightarrow> string option \<Rightarrow> unit result" where
  "verifyHandshakeKey preStoredKey handshakeKey =
     (case preStoredKey of
        None \<Rightarrow> Inr ()
      | Some e \<Rightarrow>
          (if e = [] then Inr ()
           else
             (case handshakeKey of
                None \<Rightarrow> Inl ''Peer sent no public key in handshake despite having a pre-stored key.''
              | Some h \<Rightarrow>
                  (if h = [] then Inl ''Peer sent no public key in handshake despite having a pre-stored key.''
                   else if e \<noteq> h
                   then Inl (''Handshake key mismatch - possible impersonation attempt. Expected: '' @ take 16 e @
                             ''... Received: '' @ take 16 h @ ''...'')
                   else Inr ()))))"

definition verifyHandshake ::
    "('sk, 'pk, 'gk, 'vk) suite \<Rightarrow> ('pk \<Rightarrow> bytes) \<Rightarrow> string option \<Rightarrow> string option \<Rightarrow> string option \<Rightarrow> unit result option" where
  "verifyHandshake cs spki preStoredKey handshakeKey peerId =
     (case verifyHandshakeKey preStoredKey handshakeKey of
        Inl e \<Rightarrow> Some (Inl e)
      | Inr _ \<Rightarrow>
          (case (peerId, handshakeKey) of
             (Some p, Some h) \<Rightarrow>
               (if p \<noteq> [] \<and> h \<noteq> []
                then map_option (\<lambda>r. case r of Inl e \<Rightarrow> Inl (''PeerId binding failed: '' @ e) | Inr _ \<Rightarrow> Inr ())
                       (verifyPeerIdBinding cs spki p (KeyBase64 h))
                else Some (Inr ()))
           | _ \<Rightarrow> Some (Inr ())))"

subsection \<open>Challenges of a client\<close>

text \<open>
  \<open>ChatController\<close> keeps the open challenges, the authenticated and the connected peers; the signing keys on record are
  those \<open>processHandshake\<close> stored last. An event is a connection, a stored signing key, a handshake that came through with
  or without a signing key in it, the timer of a challenge, a response, or the loss of the connection.
\<close>

record 'vk auth_state =
  au_pending :: "(string, challenge) jsmap"
  au_authenticated :: "string list"
  au_connected :: "string list"
  au_keys :: "(string, 'vk) jsmap"

datatype 'vk auth_event =
    ConnectedTo string
  | KeyRecorded string 'vk
  | Handshaken string bool bytes time
  | TimedOut string string
  | Response string string
  | LostPeer string

definition initiatePeerAuthChallenge :: "string \<Rightarrow> bool \<Rightarrow> bytes \<Rightarrow> time \<Rightarrow> 'vk auth_state \<Rightarrow> 'vk auth_state" where
  "initiatePeerAuthChallenge p hasSigningPublicKey random now s =
     (if \<not> hasSigningPublicKey then s\<lparr>au_authenticated := List.insert p (au_authenticated s)\<rparr>
      else s\<lparr>au_pending := jm_set p (createChallenge random now) (au_pending s)\<rparr>)"

definition challenge_timeout :: "string \<Rightarrow> string \<Rightarrow> 'vk auth_state \<Rightarrow> 'vk auth_state" where
  "challenge_timeout p nonce s =
     (if map_option cl_nonce (jm_get (au_pending s) p) = Some nonce \<and> p \<notin> set (au_authenticated s) \<and> p \<in> set (au_connected s)
      then s\<lparr>au_authenticated := List.insert p (au_authenticated s), au_pending := jm_delete p (au_pending s)\<rparr>
      else s)"

definition connect_peer :: "string \<Rightarrow> 'vk auth_state \<Rightarrow> 'vk auth_state" where
  "connect_peer p s = s\<lparr>au_connected := List.insert p (au_connected s)\<rparr>"

text \<open>The client's \<open>onDisconnect\<close>, which \<open>transport.disconnect\<close> calls too.\<close>

definition lose_peer :: "string \<Rightarrow> 'vk auth_state \<Rightarrow> 'vk auth_state" where
  "lose_peer p s =
     s\<lparr>au_connected := removeAll p (au_connected s), au_authenticated := removeAll p (au_authenticated s),
       au_pending := jm_delete p (au_pending s)\<rparr>"

definition handlePeerAuthResponse ::
    "('sk, 'pk, 'gk, 'vk) suite \<Rightarrow> string \<Rightarrow> string \<Rightarrow> string \<Rightarrow> 'vk auth_state \<Rightarrow> 'vk auth_state" where
  "handlePeerAuthResponse cs me p signature s =
     (case jm_get (au_pending s) p of
        None \<Rightarrow> s
      | Some c \<Rightarrow>
          (let s1 = s\<lparr>au_pending := jm_delete p (au_pending s)\<rparr>
           in case jm_get (au_keys s1) p of
                None \<Rightarrow> lose_peer p (s1\<lparr>au_authenticated := removeAll p (au_authenticated s1)\<rparr>)
              | Some vk \<Rightarrow>
                  (if verifyResponse cs (cl_nonce c) me signature vk
                   then s1\<lparr>au_authenticated := List.insert p (au_authenticated s1)\<rparr>
                   else lose_peer p (s1\<lparr>au_authenticated := removeAll p (au_authenticated s1)\<rparr>))))"

text \<open>The handlers run to their end before the next event, also where the code awaits the verification.\<close>

definition auth_step :: "('sk, 'pk, 'gk, 'vk) suite \<Rightarrow> string \<Rightarrow> 'vk auth_event \<Rightarrow> 'vk auth_state \<Rightarrow> 'vk auth_state" where
  "auth_step cs me e s =
     (case e of
        ConnectedTo p \<Rightarrow> connect_peer p s
      | KeyRecorded p vk \<Rightarrow> s\<lparr>au_keys := jm_set p vk (au_keys s)\<rparr>
      | Handshaken p hasKey random now \<Rightarrow> connect_peer p (initiatePeerAuthChallenge p hasKey random now s)
      | TimedOut p nonce \<Rightarrow> challenge_timeout p nonce s
      | Response p signature \<Rightarrow> handlePeerAuthResponse cs me p signature s
      | LostPeer p \<Rightarrow> lose_peer p s)"

definition no_auth :: "'vk auth_state" where
  "no_auth = \<lparr>au_pending = [], au_authenticated = [], au_connected = [], au_keys = []\<rparr>"

definition auth_run :: "('sk, 'pk, 'gk, 'vk) suite \<Rightarrow> string \<Rightarrow> 'vk auth_event list \<Rightarrow> 'vk auth_state" where
  "auth_run cs me es = fold (auth_step cs me) es no_auth"

subsection \<open>Why a peer counts as authenticated\<close>

text \<open>An event that closes the challenge of \<open>p\<close> or replaces it.\<close>

definition closes :: "string \<Rightarrow> 'vk auth_event \<Rightarrow> bool" where
  "closes p e \<longleftrightarrow>
     (case e of Handshaken q hasKey random now \<Rightarrow> q = p \<and> hasKey | Response q signature \<Rightarrow> q = p | LostPeer q \<Rightarrow> q = p | _ \<Rightarrow> False)"

text \<open>After \<open>es\<close> the last challenge sent to \<open>p\<close> has the nonce made of \<open>random\<close>, and it is neither answered nor given up.\<close>

definition challenged :: "string \<Rightarrow> bytes \<Rightarrow> 'vk auth_event list \<Rightarrow> bool" where
  "challenged p random es \<longleftrightarrow> (\<exists>xs now ys. es = xs @ Handshaken p True random now # ys \<and> (\<forall>y \<in> set ys. \<not> closes p y))"

definition key_on_record :: "string \<Rightarrow> 'vk \<Rightarrow> 'vk auth_event list \<Rightarrow> bool" where
  "key_on_record p vk es \<longleftrightarrow> (\<exists>xs ys. es = xs @ KeyRecorded p vk # ys \<and> (\<forall>k. KeyRecorded p k \<notin> set ys))"

text \<open>The event \<open>e\<close>, coming after \<open>es\<close>, is a ground to take \<open>p\<close> for authenticated.\<close>

definition grounds :: "('sk, 'pk, 'gk, 'vk) suite \<Rightarrow> string \<Rightarrow> string \<Rightarrow> 'vk auth_event list \<Rightarrow> 'vk auth_event \<Rightarrow> bool" where
  "grounds cs me p es e \<longleftrightarrow>
     (case e of
        Handshaken q hasKey random now \<Rightarrow> q = p \<and> \<not> hasKey
      | TimedOut q nonce \<Rightarrow> q = p \<and> (\<exists>random. nonce = arrayBufferToBase64 random \<and> challenged p random es)
      | Response q signature \<Rightarrow> q = p \<and> (\<exists>random vk. challenged p random es \<and> key_on_record p vk es \<and>
          verifyResponse cs (arrayBufferToBase64 random) me signature vk)
      | _ \<Rightarrow> False)"

lemma auth_run_snoc: "auth_run cs me (es @ [e]) = auth_step cs me e (auth_run cs me es)"
  by (simp add: auth_run_def)

lemmas auth_defs = auth_step_def initiatePeerAuthChallenge_def challenge_timeout_def handlePeerAuthResponse_def lose_peer_def connect_peer_def

lemma challenged_more: "challenged p random es \<Longrightarrow> \<not> closes p e \<Longrightarrow> challenged p random (es @ [e])"
  unfolding challenged_def by force

lemma challenged_now: "challenged p random (es @ [Handshaken p True random now])"
  unfolding challenged_def by force

lemma pending_challenged:
  "jm_get (au_pending (auth_run cs me es)) p = Some c \<Longrightarrow> \<exists>random. challenged p random es \<and> cl_nonce c = arrayBufferToBase64 random"
proof (induction es arbitrary: c rule: rev_induct)
  case Nil
  then show ?case by (simp add: auth_run_def no_auth_def)
next
  case (snoc e es)
  show ?case
  proof (cases "closes p e")
    case False
    then have "jm_get (au_pending (auth_run cs me es)) p = Some c"
      using snoc.prems
      by (cases e) (auto simp: auth_run_snoc auth_defs closes_def jm_get_set jm_get_delete Let_def split: if_splits option.splits)
    then show ?thesis using snoc.IH challenged_more [OF _ False] by blast
  next
    case True
    then obtain random now where "e = Handshaken p True random now" "c = createChallenge random now"
      using snoc.prems
      by (cases e) (auto simp: auth_run_snoc auth_defs closes_def jm_get_set jm_get_delete Let_def split: if_splits option.splits)
    then show ?thesis using challenged_now [of p random es now] by (auto simp: createChallenge_def)
  qed
qed

lemma recorded_key: "jm_get (au_keys (auth_run cs me es)) p = Some vk \<Longrightarrow> key_on_record p vk es"
proof (induction es rule: rev_induct)
  case Nil
  then show ?case by (simp add: auth_run_def no_auth_def)
next
  case (snoc e es)
  show ?case
  proof (cases "\<exists>k. e = KeyRecorded p k")
    case True
    then show ?thesis using snoc.prems by (force simp: auth_run_snoc auth_defs jm_get_set key_on_record_def)
  next
    case False
    then have "jm_get (au_keys (auth_run cs me es)) p = Some vk"
      using snoc.prems by (cases e) (auto simp: auth_run_snoc auth_defs jm_get_set Let_def split: if_splits option.splits)
    then obtain xs ys where "es = xs @ KeyRecorded p vk # ys" "\<forall>k. KeyRecorded p k \<notin> set ys"
      using snoc.IH by (auto simp: key_on_record_def)
    then show ?thesis using False unfolding key_on_record_def by (intro exI [of _ xs] exI [of _ "ys @ [e]"]) auto
  qed
qed

text \<open>The step that makes a peer authenticated has its grounds.\<close>

lemma became_authenticated:
  assumes "p \<in> set (au_authenticated (auth_run cs me (es @ [e])))" "p \<notin> set (au_authenticated (auth_run cs me es))"
  shows "grounds cs me p es e"
proof (cases e)
  case (TimedOut q n)
  then obtain c where "q = p" "jm_get (au_pending (auth_run cs me es)) p = Some c" "cl_nonce c = n"
    using assms by (auto simp: auth_run_snoc auth_defs split: if_splits)
  then show ?thesis using pending_challenged [of cs me es p c] by (auto simp: grounds_def TimedOut)
next
  case (Response q sig)
  then obtain c vk where "q = p" "jm_get (au_pending (auth_run cs me es)) p = Some c"
    "jm_get (au_keys (auth_run cs me es)) p = Some vk" "verifyResponse cs (cl_nonce c) me sig vk"
    using assms by (auto simp: auth_run_snoc auth_defs Let_def split: if_splits option.splits)
  moreover from this obtain random where "challenged p random es" "cl_nonce c = arrayBufferToBase64 random"
    using pending_challenged by blast
  ultimately show ?thesis using recorded_key [of cs me es p vk] unfolding grounds_def Response by auto
qed (use assms in \<open>auto simp: auth_run_snoc auth_defs grounds_def split: if_splits\<close>)


definition sample_auth :: "8 word auth_event list" where
  "sample_auth = [ConnectedTo ''a'', KeyRecorded ''a'' 7, Handshaken ''a'' True [1] 0,
     Response ''a'' (respondToChallenge sample_suite ''AQ=='' ''b'' 7)]"


text \<open>A wrong answer never authenticates: the timer finds no challenge any more.\<close>

lemma wrong_answer_is_shut_out:
  "au_authenticated (auth_run sample_suite ''b'' [ConnectedTo ''a'', KeyRecorded ''a'' 7, Handshaken ''a'' True [1] 0,
     Response ''a'' (respondToChallenge sample_suite ''AQ=='' ''b'' 9), TimedOut ''a'' (arrayBufferToBase64 [1])]) = []"
  by (simp add: auth_run_def no_auth_def auth_defs jm_get_set jm_get_delete Let_def verifyResponse_def respondToChallenge_def
      base64_roundtrip)

text \<open>
  An answer to one challenger is an answer to another: payloads are the nonce followed by the challenger's id
  without a separator, so a peer whose id is the end of another's has the victim sign that peer's challenge, and passes the
  answer on.
\<close>

theorem challenge_is_relayed:
  assumes "\<And>m. ecdsa_verify cs vk (ecdsa_sign cs gk m) m" "victim_challenger = front @ attacker"
  shows "verifyResponse cs nonce victim_challenger (respondToChallenge cs (nonce @ front) attacker gk) vk"
  using assms by (simp add: verifyResponse_def respondToChallenge_def buildPayload_def base64_roundtrip)

lemma challenge_is_relayed_witness:
  "verifyResponse sample_suite ''n'' ''bob'' (respondToChallenge sample_suite ''nbo'' ''b'' 7) 7"
  using challenge_is_relayed [of sample_suite 7 7 "''bob''" "''bo''" "''b''" "''n''"] by simp

end
