(* ===== verification/Devices.thy ===== *)
theory Devices
  imports PeerSessions WorkspaceTypes
begin

section \<open>Devices of an identity\<close>

text \<open>
  \<open>identity/DeviceManager.ts\<close>: device proofs, the registry of devices per identity and the window of seen message ids;
  and what \<open>ChatController.ts\<close> does with an announcement: checking it, registering the device and sending
  the workspace's messages to every registered device.
\<close>

subsection \<open>Proofs\<close>

record device_proof =
  df_identityId :: string
  df_deviceId :: string
  df_timestamp :: time
  df_signature :: string

record announcement =
  an_identityId :: string
  an_device :: device_info
  an_proof :: device_proof

definition PROOF_MAX_AGE_MS :: int where
  "PROOF_MAX_AGE_MS = 5 * 60 * 1000"

definition proof_payload :: "string \<Rightarrow> string \<Rightarrow> time \<Rightarrow> bytes" where
  "proof_payload i d t = ascii_bytes (i @ CHR '':'' # d @ CHR '':'' # show_int t)"

definition createDeviceProof :: "('sk, 'pk, 'gk, 'vk) suite \<Rightarrow> string \<Rightarrow> string \<Rightarrow> 'gk \<Rightarrow> time \<Rightarrow> device_proof" where
  "createDeviceProof cs i d gk t =
     \<lparr>df_identityId = i, df_deviceId = d, df_timestamp = t,
      df_signature = arrayBufferToBase64 (ecdsa_sign cs gk (proof_payload i d t))\<rparr>"

text \<open>\<open>None\<close> is the exception of \<open>atob\<close>, outside the \<open>try\<close>.\<close>

definition verifyDeviceProof :: "('sk, 'pk, 'gk, 'vk) suite \<Rightarrow> time \<Rightarrow> device_proof \<Rightarrow> 'vk \<Rightarrow> unit result option" where
  "verifyDeviceProof cs now p vk =
     (let age = now - df_timestamp p
      in if age > PROOF_MAX_AGE_MS
         then Some (Inl (''Device proof expired ('' @ show_int ((age + 500) div 1000) @ ''s > 300s)''))
         else
           (case base64ToArrayBuffer (df_signature p) of
              None \<Rightarrow> None
            | Some sig \<Rightarrow>
                (if ecdsa_verify cs vk sig (proof_payload (df_identityId p) (df_deviceId p) (df_timestamp p))
                 then Some (Inr ())
                 else Some (Inl ''Invalid signature: device proof signature verification failed''))))"

definition createDeviceAnnouncement ::
    "('sk, 'pk, 'gk, 'vk) suite \<Rightarrow> string \<Rightarrow> string \<Rightarrow> string \<Rightarrow> 'gk \<Rightarrow> time \<Rightarrow> announcement" where
  "createDeviceAnnouncement cs i p label gk now =
     \<lparr>an_identityId = i, an_device = \<lparr>di_deviceId = p, di_peerId = p, di_deviceLabel = label, di_lastSeen = now\<rparr>,
      an_proof = createDeviceProof cs i p gk now\<rparr>"

subsection \<open>The registry\<close>

type_synonym registry = "(string, device_info list) jsmap"

text \<open>Replacing the device with the same id, or adding it at the end.\<close>

fun put_device :: "device_info \<Rightarrow> device_info list \<Rightarrow> device_info list" where
  "put_device d [] = [d]"
| "put_device d (e # es) = (if di_deviceId e = di_deviceId d then d # es else e # put_device d es)"

definition getDevices :: "string \<Rightarrow> registry \<Rightarrow> device_info list" where
  "getDevices i r = jm_get_or [] r i"

definition addDevice_registry :: "string \<Rightarrow> device_info \<Rightarrow> registry \<Rightarrow> registry" where
  "addDevice_registry i d r = jm_set i (put_device d (getDevices i r)) r"

definition removeDevice_registry :: "string \<Rightarrow> string \<Rightarrow> registry \<Rightarrow> registry" where
  "removeDevice_registry i d r = jm_set i (filter (\<lambda>e. di_deviceId e \<noteq> d) (getDevices i r)) r"

definition getAllPeerIds :: "string \<Rightarrow> registry \<Rightarrow> string list" where
  "getAllPeerIds i r = map di_peerId (getDevices i r)"

fun getIdentityForPeerId :: "string \<Rightarrow> registry \<Rightarrow> string option" where
  "getIdentityForPeerId p [] = None"
| "getIdentityForPeerId p ((i, ds) # r) = (if p \<in> set (map di_peerId ds) then Some i else getIdentityForPeerId p r)"

subsection \<open>Seen messages\<close>

record dedup =
  dd_seen :: "string list"
  dd_seenSet :: "string set"
  dd_maxSize :: nat

definition new_dedup :: "nat \<Rightarrow> dedup" where
  "new_dedup n = \<lparr>dd_seen = [], dd_seenSet = {}, dd_maxSize = n\<rparr>"

definition isDuplicate :: "string \<Rightarrow> dedup \<Rightarrow> bool" where
  "isDuplicate x d \<longleftrightarrow> x \<in> dd_seenSet d"

fun evict_seen :: "string list \<Rightarrow> string set \<Rightarrow> nat \<Rightarrow> string list \<times> string set" where
  "evict_seen [] S n = ([], S)"
| "evict_seen (x # xs) S n = (if length (x # xs) > n then evict_seen xs (S - {x}) n else (x # xs, S))"

definition markSeen :: "string \<Rightarrow> dedup \<Rightarrow> dedup" where
  "markSeen x d =
     (if x \<in> dd_seenSet d then d
      else (case evict_seen (dd_seen d @ [x]) (insert x (dd_seenSet d)) (dd_maxSize d) of
              (xs, S) \<Rightarrow> d\<lparr>dd_seen := xs, dd_seenSet := S\<rparr>))"

subsection \<open>Announcements\<close>

fun put_member_device :: "string \<Rightarrow> device_info \<Rightarrow> member list \<Rightarrow> member list" where
  "put_member_device i d [] = []"
| "put_member_device i d (m # ms) =
     (if wm_identityId m = Some i
      then m\<lparr>wm_devices := Some (put_device d (case wm_devices m of None \<Rightarrow> [] | Some ds \<Rightarrow> ds))\<rparr> # ms
      else m # put_member_device i d ms)"

text \<open>The new members and registry, and the acknowledgement sent, as identity and device id.\<close>

definition handleDeviceAnnounce ::
    "('sk, 'pk, 'gk, 'vk) suite \<Rightarrow> time \<Rightarrow> announcement \<Rightarrow> member list \<Rightarrow> registry \<Rightarrow> member list \<times> registry \<times> (string \<times> string) option" where
  "handleDeviceAnnounce cs now an ms r =
     (let i = an_identityId an; d = an_device an
      in if i = [] then (ms, r, None)
         else
           (case Option.bind (find (\<lambda>m. wm_identityId m = Some i) ms) (\<lambda>m. truthy_string (wm_signingPublicKey m)) of
              None \<Rightarrow> (ms, addDevice_registry i d r, None)
            | Some key \<Rightarrow>
                (case Option.bind (importSigningPublicKey cs key) (verifyDeviceProof cs now (an_proof an)) of
                   Some (Inr _) \<Rightarrow> (put_member_device i d ms, addDevice_registry i d r, Some (i, di_deviceId d))
                 | _ \<Rightarrow> (ms, r, None))))"

definition member_recipients :: "string \<Rightarrow> registry \<Rightarrow> member \<Rightarrow> string list" where
  "member_recipients me r m =
     wm_peerId m # filter (\<lambda>p. p \<noteq> me)
       ((case truthy_string (wm_identityId m) of None \<Rightarrow> [] | Some i \<Rightarrow> getAllPeerIds i r) @
        (case wm_devices m of None \<Rightarrow> [] | Some ds \<Rightarrow> map di_peerId ds))"

definition getWorkspaceRecipientPeerIds :: "string \<Rightarrow> registry \<Rightarrow> member list \<Rightarrow> string list" where
  "getWorkspaceRecipientPeerIds me r ms =
     fold (\<lambda>m acc. if wm_peerId m = me then acc else fold js_add (member_recipients me r m) acc) ms []"

subsection \<open>Who receives a workspace's messages\<close>

lemma recipients_set:
  "set (getWorkspaceRecipientPeerIds me r ms) = (\<Union>m \<in> {m \<in> set ms. wm_peerId m \<noteq> me}. set (member_recipients me r m))"
proof -
  have "set (fold (\<lambda>m acc. if wm_peerId m = me then acc else fold js_add (member_recipients me r m) acc) ms acc) =
      set acc \<union> (\<Union>m \<in> {m \<in> set ms. wm_peerId m \<noteq> me}. set (member_recipients me r m))" for acc
    by (induction ms arbitrary: acc) (auto simp: set_fold_js_add)
  then show ?thesis by (simp add: getWorkspaceRecipientPeerIds_def)
qed

lemma put_device_in: "d \<in> set (put_device d ds)"
  by (induction ds) auto

lemma put_member_find:
  "find (\<lambda>m. wm_identityId m = Some i) ms = Some m \<Longrightarrow>
   \<exists>ds. d \<in> set ds \<and> m\<lparr>wm_devices := Some ds\<rparr> \<in> set (put_member_device i d ms)"
  by (induction ms) (auto split: if_splits intro: put_device_in)

lemma fresh_proof:
  assumes "\<And>m. ecdsa_verify cs vk (ecdsa_sign cs gk m) m" "now - t \<le> PROOF_MAX_AGE_MS"
  shows "verifyDeviceProof cs now (createDeviceProof cs i d gk t) vk = Some (Inr ())"
  using assms by (simp add: verifyDeviceProof_def createDeviceProof_def base64_roundtrip)

text \<open>
  Property C32. The proof in an announcement is not tied to the device announced: a proof that an identity once made for any
  of its devices, dated at most five minutes ago or in the future, registers any device sent with it, and every message
  of the workspace then goes to that device's peer too.
\<close>

theorem captured_proof_adds_recipient:
  assumes "\<And>m. ecdsa_verify cs vk (ecdsa_sign cs gk m) m" "now - t \<le> PROOF_MAX_AGE_MS"
    and "find (\<lambda>m. wm_identityId m = Some i) ms = Some m" "wm_signingPublicKey m = Some key" "key \<noteq> []"
    and "importSigningPublicKey cs key = Some vk" "i \<noteq> []" "wm_peerId m \<noteq> me" "di_peerId d \<noteq> me"
    and "an = \<lparr>an_identityId = i, an_device = d, an_proof = createDeviceProof cs any_identity any_device gk t\<rparr>"
    and "handleDeviceAnnounce cs now an ms r = (ms', r', ack)"
  shows "di_peerId d \<in> set (getWorkspaceRecipientPeerIds me r' ms') \<and>
    ack = Some (i, di_deviceId d)"
proof (intro conjI)
  have "handleDeviceAnnounce cs now an ms r = (put_member_device i d ms, addDevice_registry i d r, Some (i, di_deviceId d))"
    using assms(3-7) fresh_proof [of cs vk gk now t, OF assms(1,2)]
    by (simp add: handleDeviceAnnounce_def assms(10) truthy_string_def)
  then have new: "ms' = put_member_device i d ms" "ack = Some (i, di_deviceId d)" using assms(11) by simp_all
  show "ack = Some (i, di_deviceId d)" by (rule new(2))
  obtain ds where ds: "d \<in> set ds" "m\<lparr>wm_devices := Some ds\<rparr> \<in> set ms'"
    using put_member_find [OF assms(3), of d] by (auto simp: new(1))
  have "di_peerId d \<in> set (member_recipients me r' (m\<lparr>wm_devices := Some ds\<rparr>))"
    using ds(1) assms(9) by (simp add: member_recipients_def)
  then show "di_peerId d \<in> set (getWorkspaceRecipientPeerIds me r' ms')"
    using ds(2) assms(8) by (force simp: recipients_set)
qed

definition sample_member :: member where
  "sample_member =
     \<lparr>wm_peerId = ''alice'', wm_alias = ''Alice'', wm_publicKey = [], wm_signingPublicKey = Some (exportVerifier sample_suite 7),
      wm_identityId = Some ''ida'', wm_devices = None, wm_joinedAt = 0, wm_role = Member, wm_isBot = None,
      wm_allowWorkspaceDMs = None, wm_addedBy = None\<rparr>"

definition stranger_device :: device_info where
  "stranger_device = \<lparr>di_deviceId = ''x'', di_peerId = ''mallory'', di_deviceLabel = [], di_lastSeen = 0\<rparr>"

lemma captured_proof_adds_recipient_witness:
  "''mallory'' \<in> set (getWorkspaceRecipientPeerIds ''me''
     (fst (snd (handleDeviceAnnounce sample_suite 10 \<lparr>an_identityId = ''ida'', an_device = stranger_device,
        an_proof = createDeviceProof sample_suite ''ida'' ''alices-phone'' 7 5\<rparr> [sample_member] [])))
     (fst (handleDeviceAnnounce sample_suite 10 \<lparr>an_identityId = ''ida'', an_device = stranger_device,
        an_proof = createDeviceProof sample_suite ''ida'' ''alices-phone'' 7 5\<rparr> [sample_member] [])))"
proof -
  let ?an = "\<lparr>an_identityId = ''ida'', an_device = stranger_device, an_proof = createDeviceProof sample_suite ''ida'' ''alices-phone'' 7 5\<rparr>"
  obtain ms' r' ack where run: "handleDeviceAnnounce sample_suite 10 ?an [sample_member] [] = (ms', r', ack)"
    by (cases "handleDeviceAnnounce sample_suite 10 ?an [sample_member] []") auto
  have import_it: "importSigningPublicKey sample_suite (exportVerifier sample_suite 7) = Some 7"
    by (rule import_verifier [OF sample_suite_sound(2)])
  then have "exportVerifier sample_suite 7 \<noteq> []" by (auto simp: sample_suite_def webcrypto.defs sample_crypto_def exportVerifier_def btoa_def binary_string_def)
  then have "di_peerId stranger_device \<in> set (getWorkspaceRecipientPeerIds ''me'' r' ms')"
    using conjunct1 [OF captured_proof_adds_recipient [of sample_suite 7 7 10 5 "''ida''" "[sample_member]" sample_member
        "exportVerifier sample_suite 7" "''me''" stranger_device ?an, OF _ _ _ _ _ import_it _ _ _ refl run]]
    by (simp add: sample_member_def PROOF_MAX_AGE_MS_def stranger_device_def)
  moreover have "di_peerId stranger_device = ''mallory''" by (simp add: stranger_device_def)
  ultimately show ?thesis by (simp only: run fst_conv snd_conv)
qed

subsection \<open>The window of seen messages\<close>

definition dedup_ok :: "dedup \<Rightarrow> bool" where
  "dedup_ok d \<longleftrightarrow> distinct (dd_seen d) \<and> dd_seenSet d = set (dd_seen d) \<and> length (dd_seen d) \<le> dd_maxSize d"

lemma evict_seen_drop:
  "distinct xs \<Longrightarrow> evict_seen xs (set xs) n = (drop (length xs - n) xs, set (drop (length xs - n) xs))"
proof (induction xs "set xs" n rule: evict_seen.induct)
  case (2 x xs n)
  show ?case
  proof (cases "length (x # xs) > n")
    case True
    then have "Suc (length xs) - n = Suc (length xs - n)" by simp
    moreover have "set (x # xs) - {x} = set xs" using "2.prems" by auto
    ultimately show ?thesis using 2 True by simp
  qed simp
qed simp

lemma mark_new:
  assumes "dedup_ok d" "\<not> isDuplicate x d"
  shows "dd_seen (markSeen x d) = drop (Suc (length (dd_seen d)) - dd_maxSize d) (dd_seen d @ [x])"
    "dd_seenSet (markSeen x d) = set (dd_seen (markSeen x d))"
proof -
  have "distinct (dd_seen d @ [x])" "insert x (dd_seenSet d) = set (dd_seen d @ [x])"
    using assms by (simp_all add: dedup_ok_def isDuplicate_def)
  then have "evict_seen (dd_seen d @ [x]) (insert x (dd_seenSet d)) (dd_maxSize d) =
      (drop (Suc (length (dd_seen d)) - dd_maxSize d) (dd_seen d @ [x]),
       set (drop (Suc (length (dd_seen d)) - dd_maxSize d) (dd_seen d @ [x])))"
    using evict_seen_drop [of "dd_seen d @ [x]" "dd_maxSize d"] by simp
  then show "dd_seen (markSeen x d) = drop (Suc (length (dd_seen d)) - dd_maxSize d) (dd_seen d @ [x])"
    "dd_seenSet (markSeen x d) = set (dd_seen (markSeen x d))"
    using assms(2) by (simp_all add: markSeen_def isDuplicate_def)
qed

lemma markSeen_max [simp]: "dd_maxSize (markSeen x d) = dd_maxSize d"
  by (simp add: markSeen_def split: prod.split)

lemma mark_ok: "dedup_ok d \<Longrightarrow> dedup_ok (markSeen x d)"
proof (cases "isDuplicate x d")
  case False
  assume d: "dedup_ok d"
  let ?l = "dd_seen d @ [x]" let ?n = "Suc (length (dd_seen d)) - dd_maxSize d"
  have "distinct ?l" using d False by (simp add: dedup_ok_def isDuplicate_def)
  then have "distinct (drop ?n ?l)" by (rule distinct_drop)
  moreover have "length (drop ?n ?l) \<le> dd_maxSize d" unfolding length_drop by simp
  ultimately show ?thesis unfolding dedup_ok_def markSeen_max mark_new [OF d False] by simp
qed (simp add: markSeen_def isDuplicate_def)

text \<open>An id that has at most \<open>k\<close> ids behind it in the window has at most \<open>k + 1\<close> after one more call.\<close>

definition behind :: "string \<Rightarrow> nat \<Rightarrow> dedup \<Rightarrow> bool" where
  "behind x k d \<longleftrightarrow> (\<exists>as bs. dd_seen d = as @ x # bs \<and> length bs \<le> k)"

lemma behind_mark:
  assumes "dedup_ok d" "behind x k d" "Suc k < dd_maxSize d"
  shows "behind x (Suc k) (markSeen y d)"
proof (cases "isDuplicate y d")
  case True
  then show ?thesis using assms(2) by (fastforce simp: markSeen_def isDuplicate_def behind_def)
next
  case False
  obtain as bs where s: "dd_seen d = as @ x # bs" "length bs \<le> k" using assms(2) by (auto simp: behind_def)
  let ?n = "Suc (length (dd_seen d)) - dd_maxSize d"
  have "?n \<le> length as" using s assms(3) by simp
  then have "dd_seen (markSeen y d) = drop ?n as @ x # (bs @ [y])" using mark_new(1) [OF assms(1) False] s(1) by simp
  then show ?thesis unfolding behind_def using s(2) by (intro exI [of _ "drop ?n as"] exI [of _ "bs @ [y]"]) simp
qed

text \<open>
  A message id is taken for a duplicate from the call that marks it on, until as many further calls as the
  window is wide, and the window never grows beyond its size.
\<close>

theorem dedup_window:
  assumes "dedup_ok d" "\<not> isDuplicate x d" "length ys < dd_maxSize d"
  shows "isDuplicate x (fold markSeen ys (markSeen x d)) \<and>
    dedup_ok (fold markSeen ys (markSeen x d))"
proof (intro conjI)
  have start: "behind x 0 (markSeen x d)"
  proof -
    have "Suc (length (dd_seen d)) - dd_maxSize d \<le> length (dd_seen d)" using assms(3) by simp
    then have "dd_seen (markSeen x d) = drop (Suc (length (dd_seen d)) - dd_maxSize d) (dd_seen d) @ [x]"
      using mark_new(1) [OF assms(1,2)] by simp
    then show ?thesis by (auto simp: behind_def)
  qed
  have "behind x (k + length zs) (fold markSeen zs e) \<and> dedup_ok (fold markSeen zs e)"
    if "dedup_ok e" "behind x k e" "k + length zs < dd_maxSize e" for zs k e
    using that
  proof (induction zs arbitrary: k e)
    case (Cons z zs)
    then show ?case using Cons.IH [of "markSeen z e" "Suc k"] behind_mark [of e x k z] mark_ok by simp
  qed simp
  from this [of "markSeen x d" 0 ys]
  have *: "behind x (length ys) (fold markSeen ys (markSeen x d))" "dedup_ok (fold markSeen ys (markSeen x d))"
    using start assms mark_ok by simp_all
  show "dedup_ok (fold markSeen ys (markSeen x d))" by (rule *)
  have "x \<in> set (dd_seen (fold markSeen ys (markSeen x d)))" using *(1) unfolding behind_def by (metis in_set_conv_decomp)
  then show "isDuplicate x (fold markSeen ys (markSeen x d))" using *(2) by (simp only: isDuplicate_def dedup_ok_def)
qed

lemma dedup_window_witness: "isDuplicate ''a'' (fold markSeen [''b'', ''a''] (markSeen ''a'' (new_dedup 3)))"
  by (rule conjunct1 [OF dedup_window]) (simp_all add: dedup_ok_def new_dedup_def isDuplicate_def)

end
