(* ===== verification/ClockSync.thy ===== *)
theory ClockSync
  imports JsText Complex_Main
begin

section \<open>Clock offsets between peers\<close>

text \<open>
  \<open>time/ClockSync.ts\<close>: requests and responses in the manner of NTP, the samples kept per peer, the weighted estimate
  of a peer's offset and the correction of times for display. Offsets are rationals where the code has doubles. The
  formatting of dates by the platform's locale is an argument of \<open>formatTime\<close>.
\<close>

record sync_request =
  rq_t1 :: time
  rq_seq :: int

record sync_response =
  rs_t1 :: time
  rs_t2 :: time
  rs_t3 :: time
  rs_seq :: int

datatype confidence = High | Medium | Low

record clock_info =
  ci_offsetMs :: int
  ci_rttMs :: int
  ci_samples :: nat
  ci_lastUpdated :: time
  ci_confidence :: confidence

record sync_sample =
  sm_offsetMs :: rat
  sm_rttMs :: int
  sm_timestamp :: time

record clock_sync =
  ck_peerClocks :: "(string, clock_info) jsmap"
  ck_samples :: "(string, sync_sample list) jsmap"
  ck_maxSamples :: nat
  ck_pending :: "(string, sync_request) jsmap"
  ck_seqCounter :: int

definition new_clock_sync :: "nat \<Rightarrow> clock_sync" where
  "new_clock_sync n = \<lparr>ck_peerClocks = [], ck_samples = [], ck_maxSamples = n, ck_pending = [], ck_seqCounter = 0\<rparr>"

definition request_key :: "string \<Rightarrow> int \<Rightarrow> string" where
  "request_key p seq = p @ CHR '':'' # show_int seq"

definition createRequest :: "time \<Rightarrow> string \<Rightarrow> clock_sync \<Rightarrow> sync_request \<times> clock_sync" where
  "createRequest now p c =
     (let seq = ck_seqCounter c + 1; q = \<lparr>rq_t1 = now, rq_seq = seq\<rparr>
      in (q, c\<lparr>ck_seqCounter := seq, ck_pending := jm_set (request_key p seq) q (ck_pending c)\<rparr>))"

text \<open>The two readings of the clock are the arguments \<open>t2\<close> and \<open>t3\<close>.\<close>

definition handleRequest :: "time \<Rightarrow> time \<Rightarrow> sync_request \<Rightarrow> sync_response" where
  "handleRequest t2 t3 q = \<lparr>rs_t1 = rq_t1 q, rs_t2 = t2, rs_t3 = t3, rs_seq = rq_seq q\<rparr>"

definition math_round :: "rat \<Rightarrow> int" where
  "math_round x = \<lfloor>x + 1 / 2\<rfloor>"

definition defaultClockInfo :: "time \<Rightarrow> clock_info" where
  "defaultClockInfo now = \<lparr>ci_offsetMs = 0, ci_rttMs = 0, ci_samples = 0, ci_lastUpdated = now, ci_confidence = Low\<rparr>"

definition sample_weight :: "sync_sample \<Rightarrow> rat" where
  "sample_weight s = 1 / of_int (max (sm_rttMs s) 1)"

definition computeEstimate :: "time \<Rightarrow> sync_sample list \<Rightarrow> clock_info" where
  "computeEstimate now ss =
     (if ss = [] then defaultClockInfo now
      else
        (let totalWeight = (\<Sum>s\<leftarrow>ss. sample_weight s);
             weightedOffset = (\<Sum>s\<leftarrow>ss. sm_offsetMs s * sample_weight s);
             totalRtt = (\<Sum>s\<leftarrow>ss. sm_rttMs s);
             avgRtt = math_round (of_int totalRtt / of_nat (length ss))
         in \<lparr>ci_offsetMs = math_round (weightedOffset / totalWeight), ci_rttMs = avgRtt, ci_samples = length ss,
             ci_lastUpdated = now,
             ci_confidence = (if length ss \<ge> 3 \<and> avgRtt < 100 then High
                              else if length ss \<ge> 2 \<and> avgRtt < 500 then Medium else Low)\<rparr>))"

definition getPeerClock :: "string \<Rightarrow> clock_sync \<Rightarrow> clock_info option" where
  "getPeerClock p c = jm_get (ck_peerClocks c) p"

definition clock_sample :: "time \<Rightarrow> time \<Rightarrow> time \<Rightarrow> time \<Rightarrow> sync_sample" where
  "clock_sample t1 t2 t3 t4 =
     \<lparr>sm_offsetMs = of_int ((t2 - t1) + (t3 - t4)) / 2, sm_rttMs = (t4 - t1) - (t3 - t2), sm_timestamp = t4\<rparr>"

definition handleResponse :: "time \<Rightarrow> string \<Rightarrow> sync_response \<Rightarrow> clock_sync \<Rightarrow> clock_info \<times> clock_sync" where
  "handleResponse t4 p r c =
     (let key = request_key p (rs_seq r)
      in case jm_get (ck_pending c) key of
           None \<Rightarrow> (case getPeerClock p c of Some i \<Rightarrow> i | None \<Rightarrow> defaultClockInfo t4, c)
         | Some q \<Rightarrow>
             (let old = jm_get_or [] (ck_samples c) p @ [clock_sample (rq_t1 q) (rs_t2 r) (rs_t3 r) t4];
                  ss = (if length old > ck_maxSamples c then tl old else old);
                  i = computeEstimate t4 ss
              in (i, c\<lparr>ck_pending := jm_delete key (ck_pending c), ck_samples := jm_set p ss (ck_samples c),
                        ck_peerClocks := jm_set p i (ck_peerClocks c)\<rparr>)))"

definition adjustTimestamp :: "string \<Rightarrow> time \<Rightarrow> clock_sync \<Rightarrow> time" where
  "adjustTimestamp p t c = (case jm_get (ck_peerClocks c) p of None \<Rightarrow> t | Some i \<Rightarrow> t - ci_offsetMs i)"

definition relativeTime :: "time \<Rightarrow> time \<Rightarrow> string" where
  "relativeTime now t =
     (let diff = now - t
      in if diff < 0 then ''just now''
         else if diff < 5000 then ''just now''
         else if diff < 60000 then show_int (diff div 1000) @ ''s ago''
         else if diff < 3600000 then show_int (diff div 60000) @ ''m ago''
         else if diff < 86400000 then show_int (diff div 3600000) @ ''h ago''
         else show_int (diff div 86400000) @ ''d ago'')"

record locale_format =
  lf_day :: "time \<Rightarrow> string"
  lf_time :: "time \<Rightarrow> string"
  lf_weekday :: "time \<Rightarrow> string"
  lf_date :: "time \<Rightarrow> string"

definition formatTime :: "locale_format \<Rightarrow> time \<Rightarrow> string option \<Rightarrow> time \<Rightarrow> clock_sync \<Rightarrow> string" where
  "formatTime f now p t c =
     (let adjusted = (case p of None \<Rightarrow> t | Some q \<Rightarrow> if q = [] then t else adjustTimestamp q t c); diff = now - adjusted
      in if diff < 3600000 then relativeTime now adjusted
         else if lf_day f adjusted = lf_day f now then lf_time f adjusted
         else if diff < 604800000 then lf_weekday f adjusted @ '' '' @ lf_time f adjusted
         else lf_date f adjusted @ '' '' @ lf_time f adjusted)"

definition removePeer_clock :: "string \<Rightarrow> clock_sync \<Rightarrow> clock_sync" where
  "removePeer_clock p c =
     c\<lparr>ck_peerClocks := jm_delete p (ck_peerClocks c), ck_samples := jm_delete p (ck_samples c),
       ck_pending := filter (\<lambda>(k, q). \<not> starts_with (p @ '':'') k) (ck_pending c)\<rparr>"

definition startSync :: "time \<Rightarrow> string \<Rightarrow> clock_sync \<Rightarrow> sync_request \<times> clock_sync" where
  "startSync now p c = createRequest now p c"

subsection \<open>The estimate\<close>

text \<open>
  A sample is honest for an offset \<open>d\<close> of the peer's clock if it comes from an exchange with some delays there and back,
  which together are at most \<open>R\<close>.
\<close>

definition honest :: "int \<Rightarrow> int \<Rightarrow> sync_sample \<Rightarrow> bool" where
  "honest d R s \<longleftrightarrow>
     (\<exists>there ret. 0 \<le> there \<and> 0 \<le> ret \<and> there + ret \<le> R \<and> sm_rttMs s = there + ret \<and>
        sm_offsetMs s = of_int d + of_int (there - ret) / 2)"

lemma exchange_honest:
  assumes "0 \<le> there" "0 \<le> ret" "there + ret \<le> R" "t2 = t1 + there + d" "t4 = t3 - d + ret"
  shows "honest d R (clock_sample t1 t2 t3 t4)"
  unfolding honest_def
proof (intro exI conjI)
  show "sm_offsetMs (clock_sample t1 t2 t3 t4) = of_int d + of_int (there - ret) / 2"
    using assms(4,5) by (simp add: clock_sample_def field_simps)
qed (use assms in \<open>simp_all add: clock_sample_def\<close>)

lemma honest_close: "honest d R s \<Longrightarrow> \<bar>sm_offsetMs s - of_int d\<bar> \<le> of_int R / 2"
proof -
  assume "honest d R s"
  then obtain there ret where h: "0 \<le> there" "0 \<le> ret" "there + ret \<le> R" "sm_offsetMs s - of_int d = of_int (there - ret) / 2"
    by (auto simp: honest_def)
  have "\<bar>there - ret\<bar> \<le> R" using h by linarith
  then have "\<bar>of_int (there - ret) :: rat\<bar> \<le> of_int R" by (metis of_int_abs of_int_le_iff)
  then show ?thesis unfolding h(4) by simp
qed

lemma weight_positive: "0 < sample_weight s"
  by (simp add: sample_weight_def)

lemma weighted_close:
  assumes "list_all (\<lambda>s. \<bar>f s - c\<bar> \<le> b) ss"
  shows "\<bar>(\<Sum>s\<leftarrow>ss. f s * sample_weight s) - c * (\<Sum>s\<leftarrow>ss. sample_weight s)\<bar> \<le> b * (\<Sum>s\<leftarrow>ss. sample_weight s)"
  using assms
proof (induction ss)
  case (Cons s ss)
  have "\<bar>(f s - c) * sample_weight s\<bar> = \<bar>f s - c\<bar> * sample_weight s" using weight_positive [of s] by (simp add: abs_mult)
  also have "\<dots> \<le> b * sample_weight s" using Cons.prems weight_positive [of s] by (simp add: mult_right_mono)
  finally have "\<bar>(f s - c) * sample_weight s\<bar> \<le> b * sample_weight s" .
  then show ?case using Cons by (simp add: algebra_simps)
qed simp

lemma total_weight_positive: "ss \<noteq> [] \<Longrightarrow> 0 < (\<Sum>s\<leftarrow>ss. sample_weight s)"
proof (cases ss)
  case (Cons s rest)
  have "0 \<le> (\<Sum>s\<leftarrow>rest. sample_weight s)" by (rule sum_list_nonneg) (auto simp: weight_positive less_imp_le)
  then show ?thesis using Cons weight_positive [of s] by simp
qed simp

lemma average_close:
  assumes "ss \<noteq> []" "list_all (\<lambda>s. \<bar>f s - c\<bar> \<le> b) ss"
  shows "\<bar>(\<Sum>s\<leftarrow>ss. f s * sample_weight s) / (\<Sum>s\<leftarrow>ss. sample_weight s) - c\<bar> \<le> b"
proof -
  let ?w = "\<Sum>s\<leftarrow>ss. sample_weight s" and ?x = "\<Sum>s\<leftarrow>ss. f s * sample_weight s"
  have w: "0 < ?w" by (rule total_weight_positive [OF assms(1)])
  have "?x / ?w - c = (?x - c * ?w) / ?w" using w by (simp add: field_simps)
  then have "\<bar>?x / ?w - c\<bar> = \<bar>?x - c * ?w\<bar> / ?w" using w by simp
  also have "\<dots> \<le> b * ?w / ?w" by (rule divide_right_mono [OF weighted_close [OF assms(2)]]) (use w in simp)
  finally show ?thesis using w by simp
qed

lemma round_close: "\<bar>of_int (math_round x) - x\<bar> \<le> 1 / 2"
  unfolding math_round_def by linarith

lemma rounded_close:
  assumes "\<bar>x - c\<bar> \<le> b / 2"
  shows "\<bar>of_int (math_round x) - c\<bar> \<le> (b + 1) / 2"
proof -
  have "\<bar>of_int (math_round x) - c\<bar> \<le> \<bar>of_int (math_round x) - x\<bar> + \<bar>x - c\<bar>"
    using abs_triangle_ineq [of "of_int (math_round x) - x" "x - c"] by simp
  also have "\<dots> \<le> 1 / 2 + b / 2" by (rule add_mono [OF round_close assms])
  also have "\<dots> = (b + 1) / 2" by (simp add: add_divide_distrib)
  finally show ?thesis .
qed

text \<open>
  Property C34. However many samples of whatever quality, the estimated offset is off by at most half the longest round
  trip, and half a millisecond of rounding, as long as the peer answers with its clock and that clock does not drift.
\<close>

theorem clock_estimate_is_close:
  assumes "jm_get (ck_pending c) (request_key p (rs_seq r)) = Some q" "0 < ck_maxSamples c"
    and "list_all (honest d R) (jm_get_or [] (ck_samples c) p)"
    and "0 \<le> there" "0 \<le> ret" "there + ret \<le> R" "rs_t2 r = rq_t1 q + there + d" "t4 = rs_t3 r - d + ret"
    and "handleResponse t4 p r c = (i, c')"
  shows "\<bar>of_int (ci_offsetMs i) - of_int d\<bar> \<le> (of_int R + 1) / (2 :: rat) \<and>
    list_all (honest d R) (jm_get_or [] (ck_samples c') p) \<and>
    jm_get (ck_peerClocks c') p = Some i"
proof (intro conjI)
  let ?old = "jm_get_or [] (ck_samples c) p @ [clock_sample (rq_t1 q) (rs_t2 r) (rs_t3 r) t4]"
  let ?ss = "if length ?old > ck_maxSamples c then tl ?old else ?old"
  have "honest d R (clock_sample (rq_t1 q) (rs_t2 r) (rs_t3 r) t4)" by (rule exchange_honest) (use assms(4-8) in simp_all)
  then have old: "list_all (honest d R) ?old" using assms(3) by simp
  then have "list_all (honest d R) (tl ?old)" by (cases ?old) simp_all
  then have honest: "list_all (honest d R) ?ss" using old by simp
  have ne: "?ss \<noteq> []" using assms(2) by (cases "jm_get_or [] (ck_samples c) p") auto
  have run: "i = computeEstimate t4 ?ss" "jm_get (ck_samples c') p = Some ?ss" "jm_get (ck_peerClocks c') p = Some i"
    using assms(1,9) by (auto simp: handleResponse_def Let_def jm_get_set)
  show "jm_get (ck_peerClocks c') p = Some i" by (rule run)
  show "list_all (honest d R) (jm_get_or [] (ck_samples c') p)" using honest run(2) by (simp add: jm_get_or_def)
  let ?x = "(\<Sum>s\<leftarrow>?ss. sm_offsetMs s * sample_weight s) / (\<Sum>s\<leftarrow>?ss. sample_weight s)"
  have "list_all (\<lambda>s. \<bar>sm_offsetMs s - of_int d\<bar> \<le> of_int R / 2) ?ss"
    using honest honest_close by (auto simp: list_all_iff)
  then have "\<bar>?x - of_int d\<bar> \<le> of_int R / 2" by (rule average_close [OF ne])
  then have "\<bar>of_int (math_round ?x) - of_int d\<bar> \<le> (of_int R + 1) / (2 :: rat)" by (rule rounded_close)
  moreover have "ci_offsetMs i = math_round ?x" unfolding run(1) computeEstimate_def Let_def using ne by (simp only: if_False clock_info.select_convs)
  ultimately show "\<bar>of_int (ci_offsetMs i) - of_int d\<bar> \<le> (of_int R + 1) / (2 :: rat)" by (simp only:)
qed

lemma clock_estimate_is_close_witness:
  "\<bar>of_int (ci_offsetMs (fst (handleResponse 130 ''p'' (handleRequest 1110 1120 (fst (createRequest 100 ''p'' (new_clock_sync 5))))
      (snd (createRequest 100 ''p'' (new_clock_sync 5)))))) - of_int 1000\<bar> \<le> (of_int 20 + 1) / (2 :: rat)"
  by (rule conjunct1 [OF clock_estimate_is_close [where there = 10 and ret = 10 and c = "snd (createRequest 100 ''p'' (new_clock_sync 5))"
        and p = "''p''" and ?t4.0 = 130 and q = "fst (createRequest 100 ''p'' (new_clock_sync 5))"]])
    (simp_all add: createRequest_def handleRequest_def new_clock_sync_def jm_get_set jm_get_or_def prod_eq_iff Let_def)

end
