(* ===== verification/PeerTransport.thy ===== *)
theory PeerTransport
  imports JsText "HOL-Library.Sublist"
begin

section \<open>Connections to peers\<close>

text \<open>
  \<open>decent-transport-webrtc/src/PeerTransport.ts\<close>: the connections of one client, one per remote peer. The links are
  PeerJS's data connections, which are numbered; what PeerJS does to a link (it opens, fails, closes, brings data) is an
  event, and so are the timers and the ends of the pauses in \<open>connect\<close>. The call of \<open>connect\<close> that is under way for a
  peer is kept with its place in the loops over servers and retries. Two choices of PeerJS are arguments: \<open>sy\<close> says
  whether closing an open link calls its close handler at once, \<open>dials\<close> for which servers a new link can be made.
  The callbacks and what is put on a link are recorded in a log. Signaling servers are in the theory \<open>Signaling\<close>.
\<close>

datatype conn_status = Connecting | Connected

record link =
  lk_peer :: string
  lk_server :: string
  lk_inbound :: bool
  lk_open :: bool
  lk_closed :: bool
  lk_listening :: bool

record active =
  ac_conn :: nat
  ac_status :: conn_status
  ac_server :: string
  ac_inbound :: bool

datatype phase = AwaitSignaling | Dialing nat nat nat bool | AwaitRace nat nat | Backoff nat nat

record attempt =
  ap_phase :: phase
  ap_lastError :: "string option"
  ap_byTimer :: bool

datatype packet = Ping time | Pong time | Payload string

datatype report = OnConnect string | OnDisconnect string | OnMessage string string | SentOn nat packet | RestartIce nat

record server =
  sr_url :: string
  sr_label :: string
  sr_connected :: bool

record transport =
  tp_myPeerId :: "string option"
  tp_signaling :: "server list"
  tp_maxRetries :: nat
  tp_links :: "link list"
  tp_connections :: "(string, active) jsmap"
  tp_connectingTo :: "(string, attempt) jsmap"
  tp_autoReconnect :: bool
  tp_manual :: "string list"
  tp_reconnectAttempts :: "(string, nat) jsmap"
  tp_reconnectTimers :: "(string, time \<times> nat) jsmap"
  tp_failures :: "(string, nat) jsmap"
  tp_quarantineUntil :: "(string, time) jsmap"
  tp_quarantineLevel :: "(string, nat) jsmap"
  tp_heartbeat :: bool
  tp_pingTimers :: "string list"
  tp_pongTimeouts :: "string list"
  tp_pendingPing :: "(string, time) jsmap"
  tp_missedPongs :: "(string, nat) jsmap"
  tp_lastRecovery :: "(string, time) jsmap"
  tp_queues :: "(string, nat) jsmap"
  tp_chains :: "(string \<times> string list) list"
  tp_log :: "report list"

definition new_transport :: "string \<Rightarrow> server list \<Rightarrow> nat \<Rightarrow> transport" where
  "new_transport me servers n =
     \<lparr>tp_myPeerId = Some me, tp_signaling = servers, tp_maxRetries = n, tp_links = [], tp_connections = [],
      tp_connectingTo = [], tp_autoReconnect = True, tp_manual = [], tp_reconnectAttempts = [], tp_reconnectTimers = [],
      tp_failures = [], tp_quarantineUntil = [], tp_quarantineLevel = [], tp_heartbeat = True, tp_pingTimers = [],
      tp_pongTimeouts = [], tp_pendingPing = [], tp_missedPongs = [], tp_lastRecovery = [], tp_queues = [], tp_chains = [],
      tp_log = []\<rparr>"

definition PEER_CONNECT_FAILURE_THRESHOLD :: nat where "PEER_CONNECT_FAILURE_THRESHOLD = 2"
definition PEER_CONNECT_QUARANTINE_BASE_MS :: int where "PEER_CONNECT_QUARANTINE_BASE_MS = 2 * 60000"
definition PEER_CONNECT_QUARANTINE_MAX_MS :: int where "PEER_CONNECT_QUARANTINE_MAX_MS = 30 * 60000"
definition HEARTBEAT_FAIL_THRESHOLD :: nat where "HEARTBEAT_FAIL_THRESHOLD = 2"
definition RECOVERY_COOLDOWN_MS :: int where "RECOVERY_COOLDOWN_MS = 30000"
definition reconnectDelays :: "int list" where "reconnectDelays = [5000, 15000, 30000, 60000, 120000]"

definition emit :: "report \<Rightarrow> transport \<Rightarrow> transport" where
  "emit e s = s\<lparr>tp_log := tp_log s @ [e]\<rparr>"

definition text_includes :: "string \<Rightarrow> string \<Rightarrow> bool" where
  "text_includes t s \<longleftrightarrow> sublist s t"

subsection \<open>Reconnecting and quarantine\<close>

definition cancelReconnect :: "string \<Rightarrow> transport \<Rightarrow> transport" where
  "cancelReconnect p s =
     s\<lparr>tp_reconnectTimers := jm_delete p (tp_reconnectTimers s), tp_reconnectAttempts := jm_delete p (tp_reconnectAttempts s)\<rparr>"

definition reconnect_delay :: "time \<Rightarrow> string \<Rightarrow> transport \<Rightarrow> int" where
  "reconnect_delay now p s =
     (let n = jm_get_or 0 (tp_reconnectAttempts s) p;
          base = reconnectDelays ! min n (length reconnectDelays - 1);
          til = jm_get_or 0 (tp_quarantineUntil s) p
      in max base (if til > now then til - now else 0))"

definition scheduleReconnect :: "time \<Rightarrow> string \<Rightarrow> transport \<Rightarrow> transport" where
  "scheduleReconnect now p s =
     (if \<not> tp_autoReconnect s then s
      else if p \<in> set (tp_manual s) then s
      else if jm_has (tp_reconnectTimers s) p then s
      else s\<lparr>tp_reconnectTimers := jm_set p (now + reconnect_delay now p s, jm_get_or 0 (tp_reconnectAttempts s) p)
               (tp_reconnectTimers s)\<rparr>)"

definition isPeerUnavailableError :: "string option \<Rightarrow> string \<Rightarrow> bool" where
  "isPeerUnavailableError e p =
     (case e of None \<Rightarrow> False
      | Some msg \<Rightarrow>
          msg \<noteq> [] \<and> (text_includes msg (''Could not connect to peer '' @ p) \<or> text_includes msg (''Failed to connect to '' @ p) \<or>
            text_includes msg (''Connection to '' @ p) \<or> text_includes msg ''peer-unavailable''))"

definition quarantine_ms :: "nat \<Rightarrow> int" where
  "quarantine_ms level = min (PEER_CONNECT_QUARANTINE_BASE_MS * 2 ^ (level - 1)) PEER_CONNECT_QUARANTINE_MAX_MS"

definition notePeerConnectFailure :: "time \<Rightarrow> string \<Rightarrow> string option \<Rightarrow> transport \<Rightarrow> transport" where
  "notePeerConnectFailure now p e s =
     (if \<not> isPeerUnavailableError e p then s
      else
        (let failures = jm_get_or 0 (tp_failures s) p + 1
         in if failures < PEER_CONNECT_FAILURE_THRESHOLD then s\<lparr>tp_failures := jm_set p failures (tp_failures s)\<rparr>
            else
              (let level = jm_get_or 0 (tp_quarantineLevel s) p + 1
               in s\<lparr>tp_quarantineLevel := jm_set p level (tp_quarantineLevel s), tp_failures := jm_set p 0 (tp_failures s),
                    tp_quarantineUntil := jm_set p (now + quarantine_ms level) (tp_quarantineUntil s)\<rparr>)))"

definition clearPeerConnectFailure :: "string \<Rightarrow> transport \<Rightarrow> transport" where
  "clearPeerConnectFailure p s =
     s\<lparr>tp_failures := jm_delete p (tp_failures s), tp_quarantineUntil := jm_delete p (tp_quarantineUntil s),
       tp_quarantineLevel := jm_delete p (tp_quarantineLevel s)\<rparr>"

subsection \<open>Heartbeat timers\<close>

definition startHeartbeat :: "string \<Rightarrow> transport \<Rightarrow> transport" where
  "startHeartbeat p s = (if tp_heartbeat s then s\<lparr>tp_pingTimers := js_add p (tp_pingTimers s)\<rparr> else s)"

definition stopHeartbeat :: "string \<Rightarrow> transport \<Rightarrow> transport" where
  "stopHeartbeat p s =
     s\<lparr>tp_pingTimers := js_remove p (tp_pingTimers s), tp_pongTimeouts := js_remove p (tp_pongTimeouts s),
       tp_pendingPing := jm_delete p (tp_pendingPing s), tp_missedPongs := jm_delete p (tp_missedPongs s),
       tp_lastRecovery := jm_delete p (tp_lastRecovery s)\<rparr>"

subsection \<open>Links\<close>

definition active_on :: "string \<Rightarrow> nat \<Rightarrow> transport \<Rightarrow> bool" where
  "active_on p c s \<longleftrightarrow> map_option ac_conn (jm_get (tp_connections s) p) = Some c"

definition drop_connection :: "string \<Rightarrow> transport \<Rightarrow> transport" where
  "drop_connection p s = s\<lparr>tp_connections := jm_delete p (tp_connections s)\<rparr>"

text \<open>The close handler of a link, and \<open>conn.close()\<close>.\<close>

definition on_close :: "time \<Rightarrow> nat \<Rightarrow> transport \<Rightarrow> transport" where
  "on_close now c s =
     (let p = lk_peer (tp_links s ! c)
      in if lk_listening (tp_links s ! c) \<and> active_on p c s
         then
           (let s1 = drop_connection p (stopHeartbeat p s)
            in scheduleReconnect now p (emit (OnDisconnect p) (s1\<lparr>tp_queues := jm_delete p (tp_queues s1)\<rparr>)))
         else s)"

definition conn_close :: "bool \<Rightarrow> time \<Rightarrow> nat \<Rightarrow> transport \<Rightarrow> transport" where
  "conn_close sy now c s =
     (let l = tp_links s ! c; s1 = s\<lparr>tp_links := (tp_links s)[c := l\<lparr>lk_open := False, lk_closed := True\<rparr>]\<rparr>
      in if sy \<and> lk_open l then on_close now c s1 else s1)"

definition markConnected :: "bool \<Rightarrow> time \<Rightarrow> nat \<Rightarrow> transport \<Rightarrow> transport" where
  "markConnected sy now c s =
     (let l = tp_links s ! c; p = lk_peer l;
          won = s\<lparr>tp_connections := jm_set p \<lparr>ac_conn = c, ac_status = Connected, ac_server = lk_server l, ac_inbound = lk_inbound l\<rparr>
                    (tp_connections s)\<rparr>
      in case jm_get (tp_connections s) p of
           Some a \<Rightarrow>
             if ac_conn a \<noteq> c \<and> ac_status a = Connected then conn_close sy now c s
             else emit (OnConnect p) (startHeartbeat p won)
         | None \<Rightarrow> emit (OnConnect p) (startHeartbeat p won))"

definition install :: "bool \<Rightarrow> time \<Rightarrow> nat \<Rightarrow> transport \<Rightarrow> transport" where
  "install sy now c s =
     (let l = tp_links s ! c; p = lk_peer l;
          s1 = (case jm_get (tp_connections s) p of Some a \<Rightarrow> conn_close sy now (ac_conn a) s | None \<Rightarrow> s);
          s2 = s1\<lparr>tp_connections := jm_set p \<lparr>ac_conn = c, ac_status = Connecting, ac_server = lk_server l,
                   ac_inbound = lk_inbound l\<rparr> (tp_connections s1),
                 tp_links := (tp_links s1)[c := (tp_links s1 ! c)\<lparr>lk_listening := True\<rparr>]\<rparr>
      in if lk_open l then markConnected sy now c s2 else s2)"

definition setupConnection :: "bool \<Rightarrow> time \<Rightarrow> nat \<Rightarrow> transport \<Rightarrow> transport" where
  "setupConnection sy now c s =
     (let l = tp_links s ! c; p = lk_peer l
      in case jm_get (tp_connections s) p of
           None \<Rightarrow> install sy now c s
         | Some a \<Rightarrow>
             (if ac_status a = Connected then conn_close sy now c s
              else
                (case tp_myPeerId s of
                   None \<Rightarrow> install sy now c s
                 | Some me \<Rightarrow>
                     (if me = [] then install sy now c s
                      else if ac_inbound a \<noteq> lk_inbound l
                      then
                        (if lk_inbound l \<and> me < p then conn_close sy now c s
                         else if \<not> lk_inbound l \<and> \<not> me < p then conn_close sy now c s
                         else install sy now c s)
                      else conn_close sy now c s))))"

definition new_link :: "string \<Rightarrow> string \<Rightarrow> bool \<Rightarrow> bool \<Rightarrow> transport \<Rightarrow> transport" where
  "new_link p url inbound opn s =
     s\<lparr>tp_links := tp_links s @ [\<lparr>lk_peer = p, lk_server = url, lk_inbound = inbound, lk_open = opn, lk_closed = False,
         lk_listening = False\<rparr>]\<rparr>"

subsection \<open>Sending\<close>

definition conn_open :: "nat \<Rightarrow> transport \<Rightarrow> bool" where
  "conn_open c s \<longleftrightarrow> lk_open (tp_links s ! c)"

definition markDisconnected :: "time \<Rightarrow> string \<Rightarrow> nat \<Rightarrow> transport \<Rightarrow> transport" where
  "markDisconnected now p c s =
     (if active_on p c s
      then scheduleReconnect now p (emit (OnDisconnect p) (drop_connection p (stopHeartbeat p s)))
      else s)"

text \<open>\<open>throws\<close> says whether the link's own \<open>send\<close> throws.\<close>

definition send :: "time \<Rightarrow> bool \<Rightarrow> string \<Rightarrow> packet \<Rightarrow> transport \<Rightarrow> bool \<times> transport" where
  "send now throws p d s =
     (case jm_get (tp_connections s) p of
        None \<Rightarrow> (False, s)
      | Some a \<Rightarrow>
          (if ac_status a \<noteq> Connected then (False, s)
           else if \<not> conn_open (ac_conn a) s then (False, markDisconnected now p (ac_conn a) s)
           else if throws then (False, markDisconnected now p (ac_conn a) s)
           else (True, emit (SentOn (ac_conn a) d) s)))"

definition getConnectedPeers :: "transport \<Rightarrow> string list" where
  "getConnectedPeers s = map fst (filter (\<lambda>(p, a). ac_status a = Connected) (tp_connections s))"

definition isConnectingToPeer :: "string \<Rightarrow> transport \<Rightarrow> bool" where
  "isConnectingToPeer p s \<longleftrightarrow> jm_has (tp_connectingTo s) p \<or> jm_has (tp_reconnectTimers s) p"

definition disconnect :: "bool \<Rightarrow> time \<Rightarrow> string \<Rightarrow> transport \<Rightarrow> transport" where
  "disconnect sy now p s =
     (let s1 = clearPeerConnectFailure p (stopHeartbeat p (cancelReconnect p (s\<lparr>tp_manual := js_add p (tp_manual s)\<rparr>)))
      in case jm_get (tp_connections s1) p of
           None \<Rightarrow> s1
         | Some a \<Rightarrow> emit (OnDisconnect p) (drop_connection p (conn_close sy now (ac_conn a) s1)))"

definition sendPing :: "time \<Rightarrow> bool \<Rightarrow> string \<Rightarrow> transport \<Rightarrow> transport" where
  "sendPing now throws p s =
     (case send now throws p (Ping now) s of
        (sent, s1) \<Rightarrow>
          if \<not> sent then s1
          else s1\<lparr>tp_pendingPing := jm_set p now (tp_pendingPing s1), tp_pongTimeouts := js_add p (tp_pongTimeouts s1)\<rparr>)"

definition handlePong :: "string \<Rightarrow> time \<Rightarrow> transport \<Rightarrow> transport" where
  "handlePong p ts s =
     (if jm_get (tp_pendingPing s) p \<noteq> Some ts then s
      else s\<lparr>tp_pendingPing := jm_delete p (tp_pendingPing s), tp_missedPongs := jm_set p 0 (tp_missedPongs s),
             tp_pongTimeouts := js_remove p (tp_pongTimeouts s)\<rparr>)"

text \<open>\<open>restarts\<close> says whether the link can restart ICE.\<close>

definition onPingTimeout :: "bool \<Rightarrow> bool \<Rightarrow> time \<Rightarrow> string \<Rightarrow> transport \<Rightarrow> transport" where
  "onPingTimeout sy restarts now p s =
     (let missed = jm_get_or 0 (tp_missedPongs s) p + 1; s1 = s\<lparr>tp_missedPongs := jm_set p missed (tp_missedPongs s)\<rparr>
      in if missed < HEARTBEAT_FAIL_THRESHOLD then s1
         else if now - jm_get_or 0 (tp_lastRecovery s1) p < RECOVERY_COOLDOWN_MS then s1
         else
           (let s2 = s1\<lparr>tp_lastRecovery := jm_set p now (tp_lastRecovery s1)\<rparr>
            in case jm_get (tp_connections s2) p of
                 None \<Rightarrow> s2
               | Some a \<Rightarrow> if restarts then emit (RestartIce (ac_conn a)) s2 else conn_close sy now (ac_conn a) s2))"

definition setHeartbeatEnabled :: "bool \<Rightarrow> transport \<Rightarrow> transport" where
  "setHeartbeatEnabled b s =
     (let s1 = s\<lparr>tp_heartbeat := b\<rparr>
      in if b then fold startHeartbeat (getConnectedPeers s1) s1 else fold stopHeartbeat (tp_pingTimers s1) s1)"

definition ping_one :: "time \<Rightarrow> bool \<Rightarrow> string \<Rightarrow> transport \<Rightarrow> transport" where
  "ping_one now throws p s =
     (case jm_get (tp_connections s) p of
        Some a \<Rightarrow> if ac_status a = Connected \<and> tp_heartbeat s then sendPing now throws p s else s
      | None \<Rightarrow> s)"

definition ping_all :: "time \<Rightarrow> (string \<Rightarrow> bool) \<Rightarrow> transport \<Rightarrow> transport" where
  "ping_all now throws s = fold (\<lambda>p. ping_one now (throws p) p) (jm_keys (tp_connections s)) s"

subsection \<open>Data\<close>

definition queue_message :: "string \<Rightarrow> string \<Rightarrow> transport \<Rightarrow> transport" where
  "queue_message p d s =
     (case jm_get (tp_queues s) p of
        Some i \<Rightarrow> s\<lparr>tp_chains := (tp_chains s)[i := (p, snd (tp_chains s ! i) @ [d])]\<rparr>
      | None \<Rightarrow> s\<lparr>tp_queues := jm_set p (length (tp_chains s)) (tp_queues s), tp_chains := tp_chains s @ [(p, [d])]\<rparr>)"

definition on_data :: "time \<Rightarrow> bool \<Rightarrow> nat \<Rightarrow> packet \<Rightarrow> transport \<Rightarrow> transport" where
  "on_data now throws c d s =
     (let p = lk_peer (tp_links s ! c)
      in if \<not> (lk_listening (tp_links s ! c) \<and> active_on p c s) then s
         else
           (let s1 = s\<lparr>tp_missedPongs := jm_set p 0 (tp_missedPongs s)\<rparr>
            in case d of
                 Ping ts \<Rightarrow> snd (send now throws p (Pong ts) s1)
               | Pong ts \<Rightarrow> handlePong p ts s1
               | Payload m \<Rightarrow> queue_message p m s1))"

definition run_chain :: "nat \<Rightarrow> transport \<Rightarrow> transport" where
  "run_chain i s =
     (case tp_chains s ! i of
        (p, []) \<Rightarrow> s
      | (p, d # ds) \<Rightarrow> emit (OnMessage p d) (s\<lparr>tp_chains := (tp_chains s)[i := (p, ds)]\<rparr>))"

subsection \<open>Connecting\<close>

definition set_phase :: "string \<Rightarrow> phase \<Rightarrow> transport \<Rightarrow> transport" where
  "set_phase p ph s =
     (case jm_get (tp_connectingTo s) p of
        None \<Rightarrow> s
      | Some at \<Rightarrow> s\<lparr>tp_connectingTo := jm_set p (at\<lparr>ap_phase := ph\<rparr>) (tp_connectingTo s)\<rparr>)"

definition set_lastError :: "string \<Rightarrow> string \<Rightarrow> transport \<Rightarrow> transport" where
  "set_lastError p e s =
     (case jm_get (tp_connectingTo s) p of
        None \<Rightarrow> s
      | Some at \<Rightarrow> s\<lparr>tp_connectingTo := jm_set p (at\<lparr>ap_lastError := Some e\<rparr>) (tp_connectingTo s)\<rparr>)"

text \<open>How a pending call ends, for its caller: the reconnect timer counts on after a failure and forgets after a success.\<close>

definition connect_resolves :: "string \<Rightarrow> transport \<Rightarrow> transport" where
  "connect_resolves p s =
     (case jm_get (tp_connectingTo s) p of
        None \<Rightarrow> s
      | Some at \<Rightarrow>
          (let s1 = s\<lparr>tp_connectingTo := jm_delete p (tp_connectingTo s)\<rparr>
           in if ap_byTimer at then s1\<lparr>tp_reconnectAttempts := jm_delete p (tp_reconnectAttempts s1)\<rparr> else s1))"

definition connect_rejects :: "time \<Rightarrow> string \<Rightarrow> transport \<Rightarrow> transport" where
  "connect_rejects now p s =
     (case jm_get (tp_connectingTo s) p of
        None \<Rightarrow> s
      | Some at \<Rightarrow>
          (let s1 = s\<lparr>tp_connectingTo := jm_delete p (tp_connectingTo s)\<rparr>
           in if ap_byTimer at then scheduleReconnect now p s1 else s1))"

definition give_up :: "time \<Rightarrow> string \<Rightarrow> transport \<Rightarrow> transport" where
  "give_up now p s =
     connect_rejects now p
       (notePeerConnectFailure now p (case jm_get (tp_connectingTo s) p of Some at \<Rightarrow> ap_lastError at | None \<Rightarrow> None) s)"

definition start_dial :: "bool \<Rightarrow> time \<Rightarrow> string \<Rightarrow> server \<Rightarrow> nat \<Rightarrow> nat \<Rightarrow> bool \<Rightarrow> transport \<Rightarrow> transport" where
  "start_dial sy now p sv k n retried s =
     (let c = length (tp_links s)
      in setupConnection sy now c (set_phase p (Dialing k n c retried) (new_link p (sr_url sv) False False s)))"

definition null_error :: "string \<Rightarrow> server \<Rightarrow> string" where
  "null_error p sv = ''Failed to create DataConnection to '' @ p @ '' via '' @ sr_label sv @ '' (peer.connect returned undefined)''"

definition server_race :: "string \<Rightarrow> bool" where
  "server_race msg \<longleftrightarrow> text_includes msg ''disconnecting from server'' \<or> text_includes msg ''disconnected from server''"

fun next_server :: "bool \<Rightarrow> (string \<Rightarrow> bool) \<Rightarrow> time \<Rightarrow> string \<Rightarrow> (nat \<times> server) list \<Rightarrow> transport \<Rightarrow> transport" where
  "next_server sy dials now p [] s = give_up now p s"
| "next_server sy dials now p ((k, sv) # rest) s =
     (if \<not> sr_connected sv then next_server sy dials now p rest s
      else if dials (sr_url sv) then start_dial sy now p sv k 0 False s
      else
        (let s1 = set_lastError p (null_error p sv) s
         in if server_race (null_error p sv) then set_phase p (AwaitRace k 0) s1
            else if 0 < tp_maxRetries s1 then set_phase p (Backoff k 0) s1
            else next_server sy dials now p rest s1))"

definition servers_from :: "nat \<Rightarrow> transport \<Rightarrow> (nat \<times> server) list" where
  "servers_from k s = drop k (enumerate 0 (tp_signaling s))"

text \<open>The \<open>catch\<close> block: a race with the server is waited out and tried once more, then come the retries, then the next server.\<close>

definition rejected ::
    "bool \<Rightarrow> (string \<Rightarrow> bool) \<Rightarrow> time \<Rightarrow> string \<Rightarrow> nat \<Rightarrow> nat \<Rightarrow> bool \<Rightarrow> string \<Rightarrow> transport \<Rightarrow> transport" where
  "rejected sy dials now p k n retried msg s =
     (let s1 = (if retried then s else set_lastError p msg s)
      in if \<not> retried \<and> server_race msg then set_phase p (AwaitRace k n) s1
         else if n < tp_maxRetries s1 then set_phase p (Backoff k n) s1
         else next_server sy dials now p (servers_from (Suc k) s1) s1)"

definition dial :: "bool \<Rightarrow> (string \<Rightarrow> bool) \<Rightarrow> time \<Rightarrow> string \<Rightarrow> nat \<Rightarrow> nat \<Rightarrow> bool \<Rightarrow> transport \<Rightarrow> transport" where
  "dial sy dials now p k n retried s =
     (let sv = tp_signaling s ! k
      in if dials (sr_url sv) then start_dial sy now p sv k n retried s
         else rejected sy dials now p k n retried (null_error p sv) s)"

definition quarantined :: "time \<Rightarrow> string \<Rightarrow> transport \<Rightarrow> bool" where
  "quarantined now p s \<longleftrightarrow> jm_get_or 0 (tp_quarantineUntil s) p > now"

datatype call = Rejected string | Resolved | Pending

definition ceil_seconds :: "int \<Rightarrow> int" where
  "ceil_seconds ms = (ms + 999) div 1000"

text \<open>In the message for a transport without servers a hyphen stands for the source's dash, which is no 8-bit character.\<close>

definition connect ::
    "bool \<Rightarrow> (string \<Rightarrow> bool) \<Rightarrow> time \<Rightarrow> bool \<Rightarrow> string \<Rightarrow> transport \<Rightarrow> call \<times> transport" where
  "connect sy dials now byTimer p s =
     (if quarantined now p s
      then (Rejected (''Peer '' @ p @ '' temporarily quarantined for '' @
              show_int (ceil_seconds (jm_get_or 0 (tp_quarantineUntil s) p - now)) @ ''s after repeated connect failures''), s)
      else
        (let s1 = s\<lparr>tp_manual := js_remove p (tp_manual s)\<rparr>
         in if tp_signaling s1 = [] then (Rejected ''PeerTransport not initialised - call init() first'', s1)
            else if jm_has (tp_connections s1) p then (Resolved, s1)
            else if jm_has (tp_connectingTo s1) p then (Resolved, s1)
            else
              (let s2 = s1\<lparr>tp_connectingTo := jm_set p \<lparr>ap_phase = AwaitSignaling, ap_lastError = None, ap_byTimer = byTimer\<rparr>
                          (tp_connectingTo s1)\<rparr>
               in (Pending, if \<exists>sv \<in> set (tp_signaling s2). sr_connected sv
                            then next_server sy dials now p (servers_from 0 s2) s2 else s2))))"

definition fire_reconnect :: "bool \<Rightarrow> (string \<Rightarrow> bool) \<Rightarrow> time \<Rightarrow> string \<Rightarrow> nat \<Rightarrow> transport \<Rightarrow> transport" where
  "fire_reconnect sy dials now p n s =
     (let s1 = s\<lparr>tp_reconnectTimers := jm_delete p (tp_reconnectTimers s)\<rparr>
      in if p \<in> set (tp_manual s1) then s1
         else if jm_has (tp_connections s1) p then s1
         else
           (case connect sy dials now True p (s1\<lparr>tp_reconnectAttempts := jm_set p (n + 1) (tp_reconnectAttempts s1)\<rparr>) of
              (Rejected e, s2) \<Rightarrow> scheduleReconnect now p s2
            | (Resolved, s2) \<Rightarrow> s2\<lparr>tp_reconnectAttempts := jm_delete p (tp_reconnectAttempts s2)\<rparr>
            | (Pending, s2) \<Rightarrow> s2))"

subsection \<open>The end of a transport\<close>

text \<open>What \<open>destroy\<close> leaves; the events that come to a destroyed transport are not modelled.\<close>

definition destroy :: "bool \<Rightarrow> time \<Rightarrow> transport \<Rightarrow> transport" where
  "destroy sy now s =
     (let s1 = s\<lparr>tp_reconnectTimers := [], tp_reconnectAttempts := [], tp_failures := [], tp_quarantineUntil := [],
                 tp_quarantineLevel := [], tp_manual := [], tp_pingTimers := [], tp_pongTimeouts := [], tp_pendingPing := [],
                 tp_missedPongs := [], tp_lastRecovery := []\<rparr>;
          s2 = fold (\<lambda>a. conn_close sy now (ac_conn a)) (jm_values (tp_connections s1)) s1
      in s2\<lparr>tp_connections := [], tp_queues := [], tp_connectingTo := [], tp_signaling := [], tp_myPeerId := None\<rparr>)"

subsection \<open>Events\<close>

datatype event =
    Connect string
  | Disconnect string
  | Send string packet bool
  | SetAutoReconnect bool
  | SetHeartbeat bool
  | Inbound string string bool
  | LinkOpens nat
  | LinkFails nat string
  | LinkCloses nat
  | LinkData nat packet bool
  | DialTimeout nat
  | SignalingBack string
  | SignalingTimeout string
  | RaceOver string
  | BackoffOver string
  | ReconnectTimer string
  | PingTimer string bool
  | PongTimeout string bool
  | Online "string \<Rightarrow> bool"
  | RunChain nat
  | ServerState nat bool
  | ServerAdded server

definition phase_of :: "string \<Rightarrow> transport \<Rightarrow> phase option" where
  "phase_of p s = map_option ap_phase (jm_get (tp_connectingTo s) p)"

definition pending_dial :: "nat \<Rightarrow> transport \<Rightarrow> (nat \<times> nat \<times> bool) option" where
  "pending_dial c s =
     (case phase_of (lk_peer (tp_links s ! c)) s of
        Some (Dialing k n c' r) \<Rightarrow> if c' = c then Some (k, n, r) else None
      | _ \<Rightarrow> None)"

text \<open>A new link opens: first its handler of connected peers runs, then the promise of the dialling call is resolved.\<close>

definition link_opens :: "bool \<Rightarrow> time \<Rightarrow> nat \<Rightarrow> transport \<Rightarrow> transport" where
  "link_opens sy now c s =
     (let l = tp_links s ! c; p = lk_peer l; s1 = s\<lparr>tp_links := (tp_links s)[c := l\<lparr>lk_open := True\<rparr>]\<rparr>;
          s2 = (if lk_listening l then markConnected sy now c s1 else s1)
      in case pending_dial c s2 of
           None \<Rightarrow> s2
         | Some d \<Rightarrow> connect_resolves p (clearPeerConnectFailure p s2))"

definition link_fails :: "bool \<Rightarrow> (string \<Rightarrow> bool) \<Rightarrow> time \<Rightarrow> nat \<Rightarrow> string \<Rightarrow> transport \<Rightarrow> transport" where
  "link_fails sy dials now c msg s =
     (let l = tp_links s ! c; p = lk_peer l;
          s1 = (case jm_get (tp_connections s) p of
                  Some a \<Rightarrow>
                    if lk_listening l \<and> ac_conn a = c
                    then
                      (let s' = drop_connection p (stopHeartbeat p s)
                       in scheduleReconnect now p (if ac_status a = Connected then emit (OnDisconnect p) s' else s'))
                    else s
                | None \<Rightarrow> s)
      in case pending_dial c s1 of
           None \<Rightarrow> s1
         | Some (k, n, r) \<Rightarrow> rejected sy dials now p k n r msg s1)"

definition link_closes :: "time \<Rightarrow> nat \<Rightarrow> transport \<Rightarrow> transport" where
  "link_closes now c s =
     on_close now c (s\<lparr>tp_links := (tp_links s)[c := (tp_links s ! c)\<lparr>lk_open := False, lk_closed := True\<rparr>]\<rparr>)"

definition timeout_error :: "string \<Rightarrow> server \<Rightarrow> string" where
  "timeout_error p sv = ''Connection to '' @ p @ '' via '' @ sr_label sv @ '' timed out''"

definition dial_timeout :: "bool \<Rightarrow> (string \<Rightarrow> bool) \<Rightarrow> time \<Rightarrow> nat \<Rightarrow> transport \<Rightarrow> transport" where
  "dial_timeout sy dials now c s =
     (let p = lk_peer (tp_links s ! c)
      in case pending_dial c s of
           None \<Rightarrow> s
         | Some (k, n, r) \<Rightarrow>
             rejected sy dials now p k n r (timeout_error p (tp_signaling s ! k)) (conn_close sy now c s))"

definition connected_now :: "string \<Rightarrow> transport \<Rightarrow> bool" where
  "connected_now p s \<longleftrightarrow> map_option ac_status (jm_get (tp_connections s) p) = Some Connected"

definition pause_over :: "bool \<Rightarrow> (string \<Rightarrow> bool) \<Rightarrow> time \<Rightarrow> string \<Rightarrow> transport \<Rightarrow> transport" where
  "pause_over sy dials now p s =
     (if connected_now p s then connect_resolves p s
      else
        (case phase_of p s of
           Some (AwaitRace k n) \<Rightarrow> dial sy dials now p k n True (drop_connection p s)
         | Some (Backoff k n) \<Rightarrow> dial sy dials now p k (Suc n) False (drop_connection p s)
         | _ \<Rightarrow> s))"

fun transport_step :: "bool \<Rightarrow> (string \<Rightarrow> bool) \<Rightarrow> time \<Rightarrow> event \<Rightarrow> transport \<Rightarrow> transport" where
  "transport_step sy dials now (Connect p) s = snd (connect sy dials now False p s)"
| "transport_step sy dials now (Disconnect p) s = disconnect sy now p s"
| "transport_step sy dials now (Send p d throws) s = snd (send now throws p d s)"
| "transport_step sy dials now (SetAutoReconnect b) s = s\<lparr>tp_autoReconnect := b\<rparr>"
| "transport_step sy dials now (SetHeartbeat b) s = setHeartbeatEnabled b s"
| "transport_step sy dials now (Inbound p url opn) s = setupConnection sy now (length (tp_links s)) (new_link p url True opn s)"
| "transport_step sy dials now (LinkOpens c) s = link_opens sy now c s"
| "transport_step sy dials now (LinkFails c msg) s = link_fails sy dials now c msg s"
| "transport_step sy dials now (LinkCloses c) s = link_closes now c s"
| "transport_step sy dials now (LinkData c d throws) s = on_data now throws c d s"
| "transport_step sy dials now (DialTimeout c) s = dial_timeout sy dials now c s"
| "transport_step sy dials now (SignalingBack p) s = next_server sy dials now p (servers_from 0 s) s"
| "transport_step sy dials now (SignalingTimeout p) s = connect_rejects now p s"
| "transport_step sy dials now (RaceOver p) s = pause_over sy dials now p s"
| "transport_step sy dials now (BackoffOver p) s = pause_over sy dials now p s"
| "transport_step sy dials now (ReconnectTimer p) s =
     (case jm_get (tp_reconnectTimers s) p of Some (due, n) \<Rightarrow> fire_reconnect sy dials now p n s | None \<Rightarrow> s)"
| "transport_step sy dials now (PingTimer p throws) s = sendPing now throws p s"
| "transport_step sy dials now (PongTimeout p restarts) s =
     onPingTimeout sy restarts now p (s\<lparr>tp_pongTimeouts := js_remove p (tp_pongTimeouts s)\<rparr>)"
| "transport_step sy dials now (Online throws) s = ping_all now throws s"
| "transport_step sy dials now (RunChain i) s = run_chain i s"
| "transport_step sy dials now (ServerState k b) s =
     s\<lparr>tp_signaling := (tp_signaling s)[k := (tp_signaling s ! k)\<lparr>sr_connected := b\<rparr>]\<rparr>"
| "transport_step sy dials now (ServerAdded sv) s = s\<lparr>tp_signaling := tp_signaling s @ [sv]\<rparr>"

text \<open>When an event can happen: links open once, timers are armed, a call pauses where it waits.\<close>

fun enabled :: "time \<Rightarrow> event \<Rightarrow> transport \<Rightarrow> bool" where
  "enabled now (LinkOpens c) s \<longleftrightarrow> c < length (tp_links s) \<and> \<not> lk_open (tp_links s ! c) \<and> \<not> lk_closed (tp_links s ! c)"
| "enabled now (LinkFails c msg) s \<longleftrightarrow> c < length (tp_links s) \<and> \<not> lk_closed (tp_links s ! c)"
| "enabled now (LinkCloses c) s \<longleftrightarrow> c < length (tp_links s)"
| "enabled now (LinkData c d throws) s \<longleftrightarrow> c < length (tp_links s) \<and> lk_open (tp_links s ! c)"
| "enabled now (DialTimeout c) s \<longleftrightarrow> c < length (tp_links s) \<and> pending_dial c s \<noteq> None"
| "enabled now (SignalingBack p) s \<longleftrightarrow> phase_of p s = Some AwaitSignaling \<and> (\<exists>sv \<in> set (tp_signaling s). sr_connected sv)"
| "enabled now (SignalingTimeout p) s \<longleftrightarrow> phase_of p s = Some AwaitSignaling"
| "enabled now (RaceOver p) s \<longleftrightarrow> (case phase_of p s of Some (AwaitRace k n) \<Rightarrow> True | _ \<Rightarrow> False)"
| "enabled now (BackoffOver p) s \<longleftrightarrow> (case phase_of p s of Some (Backoff k n) \<Rightarrow> True | _ \<Rightarrow> False)"
| "enabled now (ReconnectTimer p) s \<longleftrightarrow> (case jm_get (tp_reconnectTimers s) p of Some (due, n) \<Rightarrow> due \<le> now | None \<Rightarrow> False)"
| "enabled now (PingTimer p throws) s \<longleftrightarrow> p \<in> set (tp_pingTimers s)"
| "enabled now (PongTimeout p restarts) s \<longleftrightarrow> p \<in> set (tp_pongTimeouts s)"
| "enabled now (RunChain i) s \<longleftrightarrow> i < length (tp_chains s)"
| "enabled now (ServerState k b) s \<longleftrightarrow> k < length (tp_signaling s)"
| "enabled now e s \<longleftrightarrow> True"

inductive leads_to :: "bool \<Rightarrow> transport \<Rightarrow> (time \<times> event) list \<Rightarrow> transport \<Rightarrow> bool" for sy where
  start: "leads_to sy s [] s"
| step: "leads_to sy s es t \<Longrightarrow> enabled now e t \<Longrightarrow> leads_to sy s (es @ [(now, e)]) (transport_step sy dials now e t)"

end
