(* ===== verification/TransportSafety.thy ===== *)
theory TransportSafety
  imports PeerTransport
begin

section \<open>What the transport guarantees\<close>

text \<open>
  Properties of \<open>PeerTransport\<close> over every sequence of calls and events: the callbacks alternate and agree with the map of
  connections, heartbeats run exactly for the connected peers, and a peer that was disconnected is left alone; beside them
  the resolution of simultaneous connections, the bounds of the quarantine and two ways to lose a peer.
\<close>

subsection \<open>Callbacks and timers\<close>

fun neutral :: "report \<Rightarrow> bool" where
  "neutral (OnConnect q) = False"
| "neutral (OnDisconnect q) = False"
| "neutral e = True"

fun about :: "string \<Rightarrow> report \<Rightarrow> bool option" where
  "about p (OnConnect q) = (if q = p then Some True else None)"
| "about p (OnDisconnect q) = (if q = p then Some False else None)"
| "about p e = None"

text \<open>What the last callback about a peer said.\<close>

definition up :: "string \<Rightarrow> report list \<Rightarrow> bool" where
  "up p l = fold (\<lambda>e b. case about p e of None \<Rightarrow> b | Some b' \<Rightarrow> b') l False"

lemma up_simps [simp]:
  "up p [] = False" "up p (l @ [e]) = (case about p e of None \<Rightarrow> up p l | Some b \<Rightarrow> b)"
  by (simp_all add: up_def split: option.split)

text \<open>No peer is reported as connected twice in a row.\<close>

definition alternating :: "report list \<Rightarrow> bool" where
  "alternating l \<longleftrightarrow> (\<forall>i p. i < length l \<longrightarrow> l ! i = OnConnect p \<longrightarrow> \<not> up p (take i l))"

lemma alternating_snoc [simp]:
  "alternating [] = True" "alternating (l @ [e]) \<longleftrightarrow> alternating l \<and> (\<forall>p. e = OnConnect p \<longrightarrow> \<not> up p l)"
  by (auto simp: alternating_def nth_append less_Suc_eq)

definition linked :: "string \<Rightarrow> (string, active) jsmap \<Rightarrow> bool" where
  "linked p m \<longleftrightarrow> map_option ac_status (jm_get m p) = Some Connected"

abbreviation live :: "string \<Rightarrow> transport \<Rightarrow> bool" where
  "live p s \<equiv> linked p (tp_connections s)"

definition entry_ok :: "link list \<Rightarrow> string \<Rightarrow> active \<Rightarrow> bool" where
  "entry_ok ls p a \<longleftrightarrow> ac_conn a < length ls \<and> lk_peer (ls ! ac_conn a) = p \<and> lk_listening (ls ! ac_conn a) \<and>
     (ac_status a = Connected \<longrightarrow> lk_open (ls ! ac_conn a) \<or> lk_closed (ls ! ac_conn a))"

text \<open>Heartbeats run for connected peers only, and for all of them but those in \<open>X\<close>.\<close>

definition pace :: "bool \<Rightarrow> bool \<Rightarrow> bool \<Rightarrow> bool" where
  "pace pinged due exempt \<longleftrightarrow> (pinged \<longrightarrow> due) \<and> (due \<longrightarrow> pinged \<or> exempt)"

definition paced :: "string set \<Rightarrow> (string, active) jsmap \<Rightarrow> bool \<Rightarrow> string list \<Rightarrow> bool" where
  "paced X m hb ping \<longleftrightarrow> (\<forall>p. pace (p \<in> set ping) (hb \<and> linked p m) (p \<in> X))"

text \<open>The invariant of the fields it reads, with a set of peers whose heartbeat an operation has just stopped.\<close>

definition settled ::
    "string set \<Rightarrow> (string, active) jsmap \<Rightarrow> link list \<Rightarrow> report list \<Rightarrow> bool \<Rightarrow> string list \<Rightarrow> string list \<Rightarrow> string list
      \<Rightarrow> (string, time \<times> nat) jsmap \<Rightarrow> bool" where
  "settled X m ls l hb ping pong man tm \<longleftrightarrow>
     wf_map m \<and> alternating l \<and> (\<forall>p. up p l = linked p m) \<and> (\<forall>p a. jm_get m p = Some a \<longrightarrow> entry_ok ls p a) \<and>
     paced X m hb ping \<and> set pong \<subseteq> set ping \<and> (\<forall>p \<in> set man. jm_get tm p = None)"

abbreviation tidy :: "string set \<Rightarrow> transport \<Rightarrow> bool" where
  "tidy X s \<equiv> settled X (tp_connections s) (tp_links s) (tp_log s) (tp_heartbeat s) (tp_pingTimers s) (tp_pongTimeouts s)
     (tp_manual s) (tp_reconnectTimers s)"

lemma linked_set [simp]: "linked p (jm_set q a m) \<longleftrightarrow> (if p = q then ac_status a = Connected else linked p m)"
  by (simp add: linked_def jm_get_set)

lemma linked_delete [simp]: "linked p (jm_delete q m) \<longleftrightarrow> p \<noteq> q \<and> linked p m"
  by (simp add: linked_def jm_get_delete)

lemma paced_simps:
  "paced X m hb ping \<Longrightarrow> paced (insert p X) m hb (js_remove p ping)"
  "paced (insert p X) m hb ping \<Longrightarrow> p \<notin> set ping \<Longrightarrow> paced X (jm_delete p m) hb ping"
  "paced X m hb ping \<Longrightarrow> \<not> linked p m \<Longrightarrow> paced X (jm_delete p m) hb ping"
  "paced X m hb ping \<Longrightarrow> \<not> linked p m \<Longrightarrow> ac_status a \<noteq> Connected \<Longrightarrow> paced X (jm_set p a m) hb ping"
  "paced X m hb ping \<Longrightarrow> ac_status a = Connected \<Longrightarrow> paced X (jm_set p a m) hb (if hb then js_add p ping else ping)"
  "paced X m hb ping \<Longrightarrow> X \<subseteq> Y \<Longrightarrow> paced Y m hb ping"
  unfolding paced_def linked_set linked_delete pace_def by (simp; fail | erule all_forward; auto; fail)+

lemma settled_parts:
  assumes "settled X m ls l hb ping pong man tm"
  shows "wf_map m" "alternating l" "up p l = linked p m" "jm_get m p = Some a \<Longrightarrow> entry_ok ls p a"
    "paced X m hb ping" "set pong \<subseteq> set ping" "p \<in> set man \<Longrightarrow> jm_get tm p = None"
  using assms unfolding settled_def by blast+

lemma settled_log:
  "settled X m ls l hb ping pong man tm \<Longrightarrow> neutral e \<Longrightarrow> settled X m ls (l @ [e]) hb ping pong man tm"
  by (cases e) (auto simp: settled_def)

lemma settled_stop:
  "settled X m ls l hb ping pong man tm \<Longrightarrow>
   settled (insert p X) m ls l hb (js_remove p ping) (js_remove p pong) man tm"
  by (auto simp: settled_def paced_simps)

lemma settled_lose:
  "settled (insert p X) m ls l hb ping pong man tm \<Longrightarrow> p \<notin> set ping \<Longrightarrow>
   settled X (jm_delete p m) ls (l @ [OnDisconnect p]) hb ping pong man tm"
  by (auto simp: settled_def jm_get_delete wf_map_delete paced_simps split: if_splits)

lemma settled_drop:
  "settled X m ls l hb ping pong man tm \<Longrightarrow> \<not> linked p m \<Longrightarrow> settled X (jm_delete p m) ls l hb ping pong man tm"
  by (auto simp: settled_def jm_get_delete wf_map_delete paced_simps split: if_splits)

lemma settled_timer:
  "settled X m ls l hb ping pong man tm \<Longrightarrow> p \<notin> set man \<Longrightarrow> settled X m ls l hb ping pong man (jm_set p v tm)"
  by (auto simp: settled_def jm_get_set)

lemma settled_no_timer: "settled X m ls l hb ping pong man tm \<Longrightarrow> settled X m ls l hb ping pong man (jm_delete p tm)"
  by (auto simp: settled_def jm_get_delete)

lemma settled_pong:
  "settled X m ls l hb ping pong man tm \<Longrightarrow> settled X m ls l hb ping (js_remove p pong) man tm"
  "settled X m ls l hb ping pong man tm \<Longrightarrow> p \<in> set ping \<Longrightarrow> settled X m ls l hb ping (js_add p pong) man tm"
  by (auto simp: settled_def)

lemma settled_manual:
  "settled X m ls l hb ping pong man tm \<Longrightarrow> settled X m ls l hb ping pong (js_remove p man) tm"
  "settled X m ls l hb ping pong man tm \<Longrightarrow> settled X m ls l hb ping pong (js_add p man) (jm_delete p tm)"
  by (auto simp: settled_def jm_get_delete)

lemma settled_links:
  assumes "settled X m ls l hb ping pong man tm"
    and "\<And>p a. jm_get m p = Some a \<Longrightarrow> entry_ok ls p a \<Longrightarrow> entry_ok ls' p a"
  shows "settled X m ls' l hb ping pong man tm"
  using assms by (auto simp: settled_def)

lemma settled_connecting:
  assumes "settled X m ls l hb ping pong man tm" "\<not> linked p m" "entry_ok ls p a" "ac_status a = Connecting"
  shows "settled X (jm_set p a m) ls l hb ping pong man tm"
  using assms by (auto simp: settled_def jm_get_set paced_simps)

lemma settled_connected:
  assumes "settled X m ls l hb ping pong man tm" "\<not> linked p m" "entry_ok ls p a" "ac_status a = Connected"
  shows "settled X (jm_set p a m) ls (l @ [OnConnect p]) hb (if hb then js_add p ping else ping) pong man tm"
  using assms paced_simps(5) [of X m hb ping a p] by (auto simp: settled_def jm_get_set)

lemma settled_more: "settled X m ls l hb ping pong man tm \<Longrightarrow> X \<subseteq> Y \<Longrightarrow> settled Y m ls l hb ping pong man tm"
  by (auto simp: settled_def paced_simps)

subsection \<open>Every operation keeps the invariant\<close>

text \<open>What the operations on links leave alone.\<close>

lemma reconnect_fields [simp]:
  "tp_connections (scheduleReconnect now p s) = tp_connections s" "tp_links (scheduleReconnect now p s) = tp_links s"
  "tp_log (scheduleReconnect now p s) = tp_log s" "tp_heartbeat (scheduleReconnect now p s) = tp_heartbeat s"
  "tp_pingTimers (scheduleReconnect now p s) = tp_pingTimers s" "tp_pongTimeouts (scheduleReconnect now p s) = tp_pongTimeouts s"
  "tp_manual (scheduleReconnect now p s) = tp_manual s" "tp_myPeerId (scheduleReconnect now p s) = tp_myPeerId s"
  by (simp_all add: scheduleReconnect_def)

lemma tidy_if: "(P \<Longrightarrow> tidy X a) \<Longrightarrow> (\<not> P \<Longrightarrow> tidy X b) \<Longrightarrow> tidy X (if P then a else b)"
  by (cases P) simp_all

lemma tidy_schedule: "tidy X s \<Longrightarrow> tidy X (scheduleReconnect now p s)"
  by (cases "tp_autoReconnect s \<and> p \<notin> set (tp_manual s) \<and> \<not> jm_has (tp_reconnectTimers s) p")
    (auto simp: scheduleReconnect_def settled_timer)

lemma tidy_lose: "tidy X s \<Longrightarrow> tidy X (emit (OnDisconnect p) (drop_connection p (stopHeartbeat p s)))"
  using settled_lose [OF settled_stop, of X "tp_connections s" "tp_links s" "tp_log s" "tp_heartbeat s" "tp_pingTimers s"
      "tp_pongTimeouts s" "tp_manual s" "tp_reconnectTimers s" p]
  by (simp add: emit_def drop_connection_def stopHeartbeat_def)

lemma tidy_on_close:
  assumes "tidy X s"
  shows "tidy X (on_close now c s)"
proof -
  let ?p = "lk_peer (tp_links s ! c)"
  let ?s = "drop_connection ?p (stopHeartbeat ?p s)"
  have "tidy X (emit (OnDisconnect ?p) (?s\<lparr>tp_queues := jm_delete ?p (tp_queues ?s)\<rparr>))"
    using tidy_lose [OF assms, of ?p] by (simp add: emit_def)
  then have "tidy X (scheduleReconnect now ?p (emit (OnDisconnect ?p) (?s\<lparr>tp_queues := jm_delete ?p (tp_queues ?s)\<rparr>)))"
    by (rule tidy_schedule)
  then show ?thesis unfolding on_close_def Let_def using assms by (rule tidy_if)
qed

lemma on_close_fields [simp]:
  "tp_links (on_close now c s) = tp_links s" "tp_manual (on_close now c s) = tp_manual s"
  "tp_heartbeat (on_close now c s) = tp_heartbeat s" "tp_myPeerId (on_close now c s) = tp_myPeerId s"
  by (simp_all add: on_close_def Let_def emit_def drop_connection_def stopHeartbeat_def)

lemma on_close_less:
  "live q (on_close now c s) \<Longrightarrow> live q s" "set (tp_pingTimers (on_close now c s)) \<subseteq> set (tp_pingTimers s)"
  by (auto simp: on_close_def Let_def emit_def drop_connection_def stopHeartbeat_def split: if_splits)

definition closed_links :: "nat \<Rightarrow> link list \<Rightarrow> link list" where
  "closed_links c ls = ls[c := (ls ! c)\<lparr>lk_open := False, lk_closed := True\<rparr>]"

lemma entry_closed: "entry_ok ls p a \<Longrightarrow> entry_ok (closed_links c ls) p a"
  by (cases "c = ac_conn a") (auto simp: entry_ok_def closed_links_def)

lemma conn_close_alt:
  "conn_close sy now c s =
     (if sy \<and> lk_open (tp_links s ! c) then on_close now c (s\<lparr>tp_links := closed_links c (tp_links s)\<rparr>)
      else s\<lparr>tp_links := closed_links c (tp_links s)\<rparr>)"
  by (simp add: conn_close_def Let_def closed_links_def)

lemma tidy_closed: "tidy X s \<Longrightarrow> tidy X (s\<lparr>tp_links := closed_links c (tp_links s)\<rparr>)"
  by (auto intro: settled_links entry_closed)

lemma tidy_conn_close: "tidy X s \<Longrightarrow> tidy X (conn_close sy now c s)"
  unfolding conn_close_alt by (cases "sy \<and> lk_open (tp_links s ! c)") (simp_all only: if_True if_False simp_thms tidy_closed tidy_on_close)

lemma conn_close_fields [simp]:
  "tp_links (conn_close sy now c s) = closed_links c (tp_links s)" "tp_manual (conn_close sy now c s) = tp_manual s"
  "tp_heartbeat (conn_close sy now c s) = tp_heartbeat s" "tp_myPeerId (conn_close sy now c s) = tp_myPeerId s"
  by (simp_all add: conn_close_alt)

lemma conn_close_less:
  "live q (conn_close sy now c s) \<Longrightarrow> live q s" "set (tp_pingTimers (conn_close sy now c s)) \<subseteq> set (tp_pingTimers s)"
  using on_close_less(1) [of q now c "s\<lparr>tp_links := closed_links c (tp_links s)\<rparr>"]
    on_close_less(2) [of now c "s\<lparr>tp_links := closed_links c (tp_links s)\<rparr>"]
  by (auto simp: conn_close_alt split: if_splits)

lemma tidy_markConnected:
  assumes "tidy X s" "c < length (tp_links s)" "lk_listening (tp_links s ! c)" "lk_open (tp_links s ! c)"
    and "\<And>a. jm_get (tp_connections s) (lk_peer (tp_links s ! c)) = Some a \<Longrightarrow> ac_conn a = c \<Longrightarrow> ac_status a = Connecting"
  shows "tidy X (markConnected sy now c s)"
proof -
  let ?l = "tp_links s ! c" let ?p = "lk_peer ?l"
  let ?a = "\<lparr>ac_conn = c, ac_status = Connected, ac_server = lk_server ?l, ac_inbound = lk_inbound ?l\<rparr>"
  have ok: "entry_ok (tp_links s) ?p ?a" using assms(2-4) by (simp add: entry_ok_def)
  show ?thesis
  proof (cases "live ?p s")
    case True
    then obtain a where "jm_get (tp_connections s) ?p = Some a" "ac_status a = Connected" by (auto simp: linked_def)
    moreover then have "ac_conn a \<noteq> c" using assms(5) by fastforce
    ultimately show ?thesis using tidy_conn_close [OF assms(1)] by (simp add: markConnected_def Let_def)
  next
    case False
    then have "markConnected sy now c s = emit (OnConnect ?p) (startHeartbeat ?p (s\<lparr>tp_connections := jm_set ?p ?a (tp_connections s)\<rparr>))"
      by (auto simp: markConnected_def Let_def linked_def split: option.split)
    then show ?thesis
      using settled_connected [OF assms(1) False ok] by (simp add: emit_def startHeartbeat_def split: if_splits)
  qed
qed

lemma tidy_install:
  assumes "tidy X s" "c < length (tp_links s)" "\<not> live (lk_peer (tp_links s ! c)) s"
    and "\<And>a. jm_get (tp_connections s) (lk_peer (tp_links s ! c)) = Some a \<Longrightarrow> ac_conn a \<noteq> c"
  shows "tidy X (install sy now c s)"
proof -
  let ?l = "tp_links s ! c" let ?p = "lk_peer ?l"
  define s1 where "s1 = (case jm_get (tp_connections s) ?p of Some a \<Rightarrow> conn_close sy now (ac_conn a) s | None \<Rightarrow> s)"
  define ls where "ls = (tp_links s1)[c := (tp_links s1 ! c)\<lparr>lk_listening := True\<rparr>]"
  define a where "a = \<lparr>ac_conn = c, ac_status = Connecting, ac_server = lk_server ?l, ac_inbound = lk_inbound ?l\<rparr>"
  have s1: "tidy X s1"
    unfolding s1_def by (cases "jm_get (tp_connections s) ?p") (simp_all only: option.case assms(1) tidy_conn_close)
  have dead: "\<not> live ?p s1" using assms(3) conn_close_less(1) by (auto simp: s1_def split: option.splits)
  have link: "length (tp_links s1) = length (tp_links s)" "tp_links s1 ! c = ?l"
    using assms(4) by (auto simp: s1_def closed_links_def nth_list_update split: option.splits)
  have grow: "entry_ok (tp_links s1) q b \<Longrightarrow> entry_ok ls q b" for q b
    by (cases "c = ac_conn b") (auto simp: entry_ok_def ls_def)
  have ok: "entry_ok ls ?p a" using assms(2) link by (simp add: entry_ok_def ls_def a_def)
  define s2 where "s2 = s1\<lparr>tp_connections := jm_set ?p a (tp_connections s1), tp_links := ls\<rparr>"
  have s2: "tidy X s2"
    using settled_connecting [OF settled_links [OF s1 grow] dead ok] by (simp add: s2_def a_def)
  have eq: "install sy now c s = (if lk_open ?l then markConnected sy now c s2 else s2)"
    by (simp add: install_def Let_def s1_def s2_def ls_def a_def)
  have mark: "tidy X (markConnected sy now c s2)" if "lk_open ?l"
    by (rule tidy_markConnected [OF s2]) (use assms(2) link that in \<open>simp_all add: s2_def ls_def a_def jm_get_set\<close>)
  show ?thesis unfolding eq by (rule tidy_if) (rule mark, assumption, rule s2)
qed

lemma tidy_new_link:
  assumes "tidy X s"
  shows "tidy X (new_link p url b opn s)"
proof -
  let ?ls = "tp_links (new_link p url b opn s)"
  have "entry_ok (tp_links s) q a \<Longrightarrow> entry_ok ?ls q a" for q a by (auto simp: new_link_def entry_ok_def nth_append)
  then show ?thesis using settled_links [OF assms, of ?ls] by (simp add: new_link_def)
qed

lemma tidy_setup:
  assumes "tidy X s"
  shows "tidy X (setupConnection sy now (length (tp_links s)) (new_link p url b opn s))"
proof -
  let ?s = "new_link p url b opn s" let ?c = "length (tp_links s)"
  have t: "tidy X ?s" by (rule tidy_new_link [OF assms])
  have l: "?c < length (tp_links ?s)" "lk_peer (tp_links ?s ! ?c) = p" by (simp_all add: new_link_def)
  have new: "ac_conn a \<noteq> ?c" if "jm_get (tp_connections ?s) p = Some a" for a
    using settled_parts(4) [OF assms, of p a] that by (auto simp: new_link_def entry_ok_def)
  have inst: "tidy X (install sy now ?c ?s)" if "\<not> live p ?s"
    by (rule tidy_install [OF t l(1)]) (use that new l in simp_all)
  have close: "tidy X (conn_close sy now ?c ?s)" by (rule tidy_conn_close [OF t])
  show ?thesis
  proof (cases "live p ?s")
    case True
    then have "setupConnection sy now ?c ?s = conn_close sy now ?c ?s"
      by (auto simp: setupConnection_def Let_def l(2) linked_def)
    then show ?thesis using close by (simp only:)
  next
    case False
    then have "setupConnection sy now ?c ?s = install sy now ?c ?s \<or> setupConnection sy now ?c ?s = conn_close sy now ?c ?s"
      by (auto simp: setupConnection_def Let_def l(2) linked_def split: option.split)
    then show ?thesis using close inst [OF False] by (elim disjE) (simp_all only:)
  qed
qed

lemma tidy_neutral: "tidy X s \<Longrightarrow> neutral e \<Longrightarrow> tidy X (emit e s)"
  using settled_log [of X "tp_connections s" "tp_links s" "tp_log s" "tp_heartbeat s" "tp_pingTimers s" "tp_pongTimeouts s"
      "tp_manual s" "tp_reconnectTimers s" e] by (simp add: emit_def)

lemma tidy_markDisconnected: "tidy X s \<Longrightarrow> tidy X (markDisconnected now p c s)"
  unfolding markDisconnected_def by (rule tidy_if) (rule tidy_schedule, rule tidy_lose, assumption)

lemma tidy_send:
  assumes "tidy X s"
  shows "tidy X (snd (send now throws p d s))"
proof (cases "jm_get (tp_connections s) p")
  case None
  then show ?thesis using assms by (simp add: send_def)
next
  case (Some a)
  have "tidy X (markDisconnected now p (ac_conn a) s)" "tidy X (emit (SentOn (ac_conn a) d) s)"
    by (rule tidy_markDisconnected [OF assms]) (rule tidy_neutral [OF assms], simp)
  then show ?thesis using assms by (simp add: send_def Some)
qed

lemma send_sent: "send now throws p d s = (True, t) \<Longrightarrow> \<exists>c. t = emit (SentOn c d) s"
  by (auto simp: send_def split: option.splits if_splits)

lemma tidy_sendPing:
  assumes "tidy X s" "p \<in> set (tp_pingTimers s)"
  shows "tidy X (sendPing now throws p s)"
proof (cases "send now throws p (Ping now) s")
  case (Pair sent t)
  have t: "tidy X t" using tidy_send [OF assms(1), of now throws p "Ping now"] by (simp add: Pair)
  show ?thesis
  proof (cases sent)
    case True
    then have "tp_pingTimers t = tp_pingTimers s" using send_sent Pair by (fastforce simp: emit_def)
    then show ?thesis using settled_pong(2) [OF t, of p] assms(2) by (simp add: sendPing_def Pair True)
  qed (use t in \<open>simp add: sendPing_def Pair\<close>)
qed

lemma tidy_handlePong: "tidy X s \<Longrightarrow> tidy X (handlePong p ts s)"
  unfolding handlePong_def by (rule tidy_if) (simp_all add: settled_pong)

lemma tidy_onPingTimeout:
  assumes "tidy X s"
  shows "tidy X (onPingTimeout sy restarts now p s)"
proof -
  let ?s1 = "s\<lparr>tp_missedPongs := jm_set p (jm_get_or 0 (tp_missedPongs s) p + 1) (tp_missedPongs s)\<rparr>"
  let ?s2 = "?s1\<lparr>tp_lastRecovery := jm_set p now (tp_lastRecovery ?s1)\<rparr>"
  have s: "tidy X ?s1" "tidy X ?s2" using assms by simp_all
  have "tidy X (emit (RestartIce c) ?s2)" "tidy X (conn_close sy now c ?s2)" for c
    by (rule tidy_neutral [OF s(2)], simp) (rule tidy_conn_close [OF s(2)])
  then show ?thesis unfolding onPingTimeout_def Let_def
    by (intro tidy_if s) (cases "jm_get (tp_connections ?s2) p"; cases restarts; simp only: option.case if_True if_False s)
qed

lemma connected_peers: "wf_map (tp_connections s) \<Longrightarrow> set (getConnectedPeers s) = {p. live p s}"
  by (auto simp: getConnectedPeers_def linked_def jm_get_iff image_iff)

lemma start_all:
  "tp_heartbeat s \<Longrightarrow> fold startHeartbeat ps s = s\<lparr>tp_pingTimers := fold js_add ps (tp_pingTimers s)\<rparr>"
  by (induction ps arbitrary: s) (simp_all add: startHeartbeat_def)

lemma stop_all:
  "tp_connections (fold stopHeartbeat ps s) = tp_connections s \<and> tp_links (fold stopHeartbeat ps s) = tp_links s \<and>
   tp_log (fold stopHeartbeat ps s) = tp_log s \<and> tp_heartbeat (fold stopHeartbeat ps s) = tp_heartbeat s \<and>
   tp_manual (fold stopHeartbeat ps s) = tp_manual s \<and> tp_reconnectTimers (fold stopHeartbeat ps s) = tp_reconnectTimers s \<and>
   set (tp_pingTimers (fold stopHeartbeat ps s)) = set (tp_pingTimers s) - set ps \<and>
   set (tp_pongTimeouts (fold stopHeartbeat ps s)) = set (tp_pongTimeouts s) - set ps"
  by (induction ps arbitrary: s) (auto simp: stopHeartbeat_def)

lemma settled_heartbeat:
  assumes "settled X m ls l hb ping pong man tm" "set ping' = (if hb' then {p. linked p m} else {})" "set pong' \<subseteq> set ping'"
  shows "settled X m ls l hb' ping' pong' man tm"
proof -
  have "paced X m hb' ping'" unfolding paced_def pace_def using assms(2) by (cases hb') auto
  then show ?thesis using assms(1,3) unfolding settled_def by simp
qed

lemma settled_pinged: "settled X m ls l hb ping pong man tm \<Longrightarrow> p \<in> set ping \<Longrightarrow> linked p m"
  unfolding settled_def paced_def pace_def by blast

lemma tidy_setHeartbeat:
  assumes "tidy X s"
  shows "tidy X (setHeartbeatEnabled b s)"
proof (cases b)
  case True
  let ?t = "setHeartbeatEnabled True s" and ?s = "s\<lparr>tp_heartbeat := True\<rparr>"
  have t: "?t = ?s\<lparr>tp_pingTimers := fold js_add (getConnectedPeers ?s) (tp_pingTimers s)\<rparr>"
    by (simp add: setHeartbeatEnabled_def start_all Let_def)
  have "set (getConnectedPeers ?s) = {p. live p s}"
    using connected_peers [of ?s] settled_parts(1) [OF assms] by simp
  then have ping: "set (tp_pingTimers ?t) = {p. live p s}" using settled_pinged [OF assms] by (auto simp: t)
  have "set (tp_pongTimeouts s) \<subseteq> {p. live p s}" using settled_parts(6) [OF assms] settled_pinged [OF assms] by auto
  then have "settled X (tp_connections s) (tp_links s) (tp_log s) True (tp_pingTimers ?t) (tp_pongTimeouts s) (tp_manual s) (tp_reconnectTimers s)"
    using ping by (intro settled_heartbeat [OF assms]) simp_all
  then show ?thesis by (simp add: t True)
next
  case False
  let ?t = "fold stopHeartbeat (tp_pingTimers s) (s\<lparr>tp_heartbeat := False\<rparr>)"
  have "set (tp_pongTimeouts ?t) \<subseteq> set (tp_pingTimers ?t)" "set (tp_pingTimers ?t) = {}"
    using settled_parts(6) [OF assms] by (auto simp: stop_all)
  then have "settled X (tp_connections s) (tp_links s) (tp_log s) False (tp_pingTimers ?t) (tp_pongTimeouts ?t) (tp_manual s) (tp_reconnectTimers s)"
    by (intro settled_heartbeat [OF assms]) simp_all
  then show ?thesis by (simp add: setHeartbeatEnabled_def False stop_all Let_def)
qed

lemma tidy_ping_all:
  assumes "tidy {} s"
  shows "tidy {} (ping_all now throws s)"
proof -
  have one: "tidy {} (ping_one now (throws p) p t)" if t: "tidy {} t" for p t
  proof (cases "live p t \<and> tp_heartbeat t")
    case True
    then have "p \<in> set (tp_pingTimers t)"
      using settled_parts(5) [OF t] unfolding paced_def pace_def by blast
    moreover have "ping_one now (throws p) p t = sendPing now (throws p) p t" using True by (auto simp: ping_one_def linked_def)
    ultimately show ?thesis using tidy_sendPing [OF t] by (simp only:)
  next
    case False
    then have "ping_one now (throws p) p t = t" by (auto simp: ping_one_def linked_def split: option.split)
    then show ?thesis using t by (simp only:)
  qed
  have "tidy {} (fold (\<lambda>p. ping_one now (throws p) p) ps t)" if "tidy {} t" for ps t
    using that by (induction ps arbitrary: t) (simp_all only: fold_simps one)
  then show ?thesis unfolding ping_all_def using assms by blast
qed

lemma tidy_data:
  assumes "tidy X s"
  shows "tidy X (on_data now throws c d s)"
proof -
  let ?p = "lk_peer (tp_links s ! c)"
  let ?s = "s\<lparr>tp_missedPongs := jm_set ?p 0 (tp_missedPongs s)\<rparr>"
  have s: "tidy X ?s" using assms by simp
  have q: "tidy X (queue_message ?p m ?s)" for m using s by (simp add: queue_message_def split: option.split)
  show ?thesis
  proof (cases d)
    case (Ping ts)
    then show ?thesis unfolding on_data_def Let_def using assms tidy_send [OF s, of now throws ?p "Pong ts"]
      by (simp only: packet.case) (rule tidy_if)
  next
    case (Pong ts)
    then show ?thesis unfolding on_data_def Let_def using assms tidy_handlePong [OF s, of ?p ts]
      by (simp only: packet.case) (rule tidy_if)
  next
    case (Payload m)
    then show ?thesis unfolding on_data_def Let_def using assms q [of m]
      by (simp only: packet.case) (rule tidy_if)
  qed
qed

lemma tidy_chain: "tidy X s \<Longrightarrow> tidy X (run_chain i s)"
  using tidy_neutral [of X "s\<lparr>tp_chains := (tp_chains s)[i := (fst (tp_chains s ! i), tl (snd (tp_chains s ! i)))]\<rparr>"
      "OnMessage (fst (tp_chains s ! i)) (hd (snd (tp_chains s ! i)))"]
  by (auto simp: run_chain_def split: prod.split list.split)

text \<open>The bookkeeping of calls.\<close>

lemma tidy_calls:
  "tidy X s \<Longrightarrow> tidy X (set_phase p ph s)" "tidy X s \<Longrightarrow> tidy X (set_lastError p e s)"
  "tidy X s \<Longrightarrow> tidy X (connect_resolves p s)" "tidy X s \<Longrightarrow> tidy X (clearPeerConnectFailure p s)"
  "tidy X s \<Longrightarrow> tidy X (notePeerConnectFailure now p er s)"
  by (simp_all add: set_phase_def set_lastError_def connect_resolves_def clearPeerConnectFailure_def
      notePeerConnectFailure_def Let_def split: option.split)

lemma tidy_rejects:
  assumes "tidy X s"
  shows "tidy X (connect_rejects now p s)"
proof (cases "jm_get (tp_connectingTo s) p")
  case (Some at)
  have s: "tidy X (s\<lparr>tp_connectingTo := jm_delete p (tp_connectingTo s)\<rparr>)" using assms by simp
  show ?thesis unfolding connect_rejects_def Let_def Some option.case by (rule tidy_if) (rule tidy_schedule [OF s], rule s)
qed (use assms in \<open>simp add: connect_rejects_def\<close>)

lemma tidy_give_up: "tidy X s \<Longrightarrow> tidy X (give_up now p s)"
  unfolding give_up_def by (intro tidy_rejects tidy_calls)

lemma tidy_start_dial:
  assumes "tidy X s"
  shows "tidy X (start_dial sy now p sv k n r s)"
proof -
  let ?ph = "set_phase p (Dialing k n (length (tp_links s)) r) s"
  have "tp_links ?ph = tp_links s" by (simp add: set_phase_def split: option.split)
  moreover have "set_phase p ph (new_link p u b opn s) = new_link p u b opn (set_phase p ph s)" for ph u b opn
    by (simp add: set_phase_def new_link_def split: option.split)
  ultimately have "start_dial sy now p sv k n r s = setupConnection sy now (length (tp_links ?ph)) (new_link p (sr_url sv) False False ?ph)"
    by (simp only: start_dial_def Let_def)
  then show ?thesis using tidy_setup [OF tidy_calls(1) [OF assms]] by (simp only:)
qed

lemma tidy_next: "tidy X s \<Longrightarrow> tidy X (next_server sy dials now p svs s)"
proof (induction svs arbitrary: s)
  case Nil
  show ?case unfolding next_server.simps by (rule tidy_give_up [OF Nil])
next
  case (Cons x rest)
  obtain k sv where x: "x = (k, sv)" by (cases x)
  have e: "tidy X (set_lastError p (null_error p sv) s)" by (rule tidy_calls(2) [OF Cons.prems])
  show ?case unfolding x next_server.simps Let_def
    by (intro tidy_if Cons.IH Cons.prems e tidy_start_dial tidy_calls(1))
qed

lemma tidy_rejected: "tidy X s \<Longrightarrow> tidy X (rejected sy dials now p k n r msg s)"
  unfolding rejected_def Let_def by (intro tidy_if tidy_next tidy_calls(1,2)) assumption+

lemma tidy_dial: "tidy X s \<Longrightarrow> tidy X (dial sy dials now p k n r s)"
  unfolding dial_def Let_def by (intro tidy_if tidy_start_dial tidy_rejected)

lemma tidy_drop: "tidy X s \<Longrightarrow> \<not> live p s \<Longrightarrow> tidy X (drop_connection p s)"
  using settled_drop [of X "tp_connections s"] by (simp add: drop_connection_def)

lemma connected_linked: "connected_now p s = live p s"
  by (simp add: connected_now_def linked_def)

lemma tidy_pause:
  assumes "tidy X s"
  shows "tidy X (pause_over sy dials now p s)"
proof (cases "live p s")
  case True
  then have "pause_over sy dials now p s = connect_resolves p s" unfolding pause_over_def connected_linked by (simp only: if_True)
  then show ?thesis using tidy_calls(3) [OF assms] by (simp only:)
next
  case False
  note d = tidy_dial [OF tidy_drop [OF assms False]]
  have eq: "pause_over sy dials now p s =
      (case phase_of p s of
         Some (AwaitRace k n) \<Rightarrow> dial sy dials now p k n True (drop_connection p s)
       | Some (Backoff k n) \<Rightarrow> dial sy dials now p k (Suc n) False (drop_connection p s)
       | _ \<Rightarrow> s)"
    using False unfolding pause_over_def connected_linked by (simp only: if_False)
  show ?thesis
  proof (cases "phase_of p s")
    case (Some ph)
    then show ?thesis unfolding eq by (cases ph) (simp_all only: option.case phase.case d assms)
  qed (unfold eq, simp only: option.case assms)
qed

lemma tidy_connect:
  assumes "tidy X s"
  shows "tidy X (snd (connect sy dials now byTimer p s))"
proof -
  let ?s1 = "s\<lparr>tp_manual := js_remove p (tp_manual s)\<rparr>"
  let ?s2 = "?s1\<lparr>tp_connectingTo := jm_set p \<lparr>ap_phase = AwaitSignaling, ap_lastError = None, ap_byTimer = byTimer\<rparr>
                          (tp_connectingTo ?s1)\<rparr>"
  have s1: "tidy X ?s1" using settled_manual(1) [OF assms, of p] by simp
  then have s2: "tidy X ?s2" by simp
  show ?thesis unfolding connect_def Let_def if_distrib [of snd] snd_conv
    by (intro tidy_if assms s1 s2 tidy_next)
qed

lemma tidy_fire:
  assumes "tidy X s"
  shows "tidy X (fire_reconnect sy dials now p n s)"
proof -
  let ?s1 = "s\<lparr>tp_reconnectTimers := jm_delete p (tp_reconnectTimers s)\<rparr>"
  have s1: "tidy X ?s1" using settled_no_timer [OF assms, of p] by simp
  let ?s2 = "?s1\<lparr>tp_reconnectAttempts := jm_set p (n + 1) (tp_reconnectAttempts ?s1)\<rparr>"
  obtain r t where c: "connect sy dials now True p ?s2 = (r, t)" by (cases "connect sy dials now True p ?s2")
  have "tidy X ?s2" using s1 by simp
  from tidy_connect [OF this, of sy dials now True p] have t: "tidy X t" unfolding c by simp
  have "tidy X (case r of Rejected e \<Rightarrow> scheduleReconnect now p t
      | Resolved \<Rightarrow> t\<lparr>tp_reconnectAttempts := jm_delete p (tp_reconnectAttempts t)\<rparr> | Pending \<Rightarrow> t)"
    using t tidy_schedule [OF t, of now p] by (cases r) simp_all
  then show ?thesis unfolding fire_reconnect_def Let_def c prod.case by (intro tidy_if s1)
qed

lemma settled_quiet:
  "settled (insert p X) m ls l hb ping pong man tm \<Longrightarrow> p \<notin> set ping \<Longrightarrow> \<not> linked p m \<Longrightarrow>
   settled X (jm_delete p m) ls l hb ping pong man tm"
  by (auto simp: settled_def jm_get_delete wf_map_delete paced_simps split: if_splits)

lemma tidy_quiet: "tidy X s \<Longrightarrow> \<not> live p s \<Longrightarrow> tidy X (drop_connection p (stopHeartbeat p s))"
  using settled_quiet [OF settled_stop, of X "tp_connections s" "tp_links s" "tp_log s" "tp_heartbeat s" "tp_pingTimers s"
      "tp_pongTimeouts s" "tp_manual s" "tp_reconnectTimers s" p]
  by (simp add: drop_connection_def stopHeartbeat_def)

lemma tidy_opened:
  assumes "tidy X s" "c < length (tp_links s)" "\<not> lk_open (tp_links s ! c)" "\<not> lk_closed (tp_links s ! c)"
  shows "tidy X (link_opens sy now c s)"
proof -
  let ?l = "tp_links s ! c" let ?p = "lk_peer ?l"
  let ?s1 = "s\<lparr>tp_links := (tp_links s)[c := ?l\<lparr>lk_open := True\<rparr>]\<rparr>"
  have "entry_ok (tp_links s) q a \<Longrightarrow> entry_ok ((tp_links s)[c := ?l\<lparr>lk_open := True\<rparr>]) q a" for q a
    by (cases "c = ac_conn a") (auto simp: entry_ok_def)
  then have s1: "tidy X ?s1" using settled_links [OF assms(1)] by simp
  have mark: "tidy X (markConnected sy now c ?s1)" if "lk_listening ?l"
  proof (rule tidy_markConnected [OF s1])
    fix a assume "jm_get (tp_connections ?s1) (lk_peer (tp_links ?s1 ! c)) = Some a" "ac_conn a = c"
    then have "entry_ok (tp_links s) ?p a" "ac_conn a = c" using settled_parts(4) [OF assms(1)] assms(2) by auto
    then show "ac_status a = Connecting" using assms(3,4) by (cases "ac_status a") (auto simp: entry_ok_def)
  qed (use assms(2) that in simp_all)
  have s2: "tidy X (if lk_listening ?l then markConnected sy now c ?s1 else ?s1)" by (intro tidy_if mark s1)
  define s2 where "s2 = (if lk_listening ?l then markConnected sy now c ?s1 else ?s1)"
  have "tidy X (case pending_dial c s2 of None \<Rightarrow> s2 | Some d \<Rightarrow> connect_resolves ?p (clearPeerConnectFailure ?p s2))"
    using s2 [folded s2_def] by (cases "pending_dial c s2") (simp_all only: option.case tidy_calls(3,4))
  then show ?thesis unfolding link_opens_def Let_def s2_def .
qed

lemma tidy_failed:
  assumes "tidy X s"
  shows "tidy X (link_fails sy dials now c msg s)"
proof -
  let ?p = "lk_peer (tp_links s ! c)"
  let ?drop = "drop_connection ?p (stopHeartbeat ?p s)"
  define s1 where "s1 = (case jm_get (tp_connections s) ?p of
      Some a \<Rightarrow> if lk_listening (tp_links s ! c) \<and> ac_conn a = c
                then scheduleReconnect now ?p (if ac_status a = Connected then emit (OnDisconnect ?p) ?drop else ?drop) else s
    | None \<Rightarrow> s)"
  have s1: "tidy X s1"
  proof (cases "jm_get (tp_connections s) ?p")
    case (Some a)
    have d: "tidy X (if ac_status a = Connected then emit (OnDisconnect ?p) ?drop else ?drop)"
    proof (cases "ac_status a = Connected")
      case True
      show ?thesis unfolding if_P [OF True] by (rule tidy_lose [OF assms])
    next
      case False
      then have "\<not> live ?p s" by (simp add: linked_def Some)
      then show ?thesis unfolding if_not_P [OF False] by (rule tidy_quiet [OF assms])
    qed
    show ?thesis unfolding s1_def Some option.case by (rule tidy_if [OF tidy_schedule [OF d] assms])
  qed (use assms in \<open>simp add: s1_def\<close>)
  have "tidy X (case pending_dial c s1 of None \<Rightarrow> s1 | Some (k, n, r) \<Rightarrow> rejected sy dials now ?p k n r msg s1)"
    using s1 by (cases "pending_dial c s1") (auto simp only: option.case prod.case tidy_rejected split: prod.split)
  then show ?thesis unfolding link_fails_def Let_def s1_def .
qed

lemma tidy_link_closes: "tidy X s \<Longrightarrow> tidy X (link_closes now c s)"
  unfolding link_closes_def using tidy_on_close [OF tidy_closed, of X s now c c] unfolding closed_links_def .

lemma tidy_dial_timeout: "tidy X s \<Longrightarrow> tidy X (dial_timeout sy dials now c s)"
  unfolding dial_timeout_def Let_def
  by (cases "pending_dial c s") (auto simp only: option.case prod.case split: prod.split intro: tidy_rejected tidy_conn_close)

lemma tidy_disconnect:
  assumes "tidy X s"
  shows "tidy X (disconnect sy now p s)"
proof -
  let ?s1 = "clearPeerConnectFailure p (stopHeartbeat p (cancelReconnect p (s\<lparr>tp_manual := js_add p (tp_manual s)\<rparr>)))"
  have s1: "tidy (insert p X) ?s1"
    using settled_stop [OF settled_manual(2) [OF assms, of p], of p]
    by (simp add: clearPeerConnectFailure_def stopHeartbeat_def cancelReconnect_def)
  have off: "p \<notin> set (tp_pingTimers ?s1)" by (simp add: clearPeerConnectFailure_def stopHeartbeat_def)
  show ?thesis
  proof (cases "jm_get (tp_connections ?s1) p")
    case None
    moreover have "tp_connections ?s1 = tp_connections s" by (simp add: clearPeerConnectFailure_def stopHeartbeat_def cancelReconnect_def)
    ultimately have "\<not> linked p (tp_connections ?s1)" by (simp add: linked_def)
    then have "paced X (tp_connections ?s1) (tp_heartbeat ?s1) (tp_pingTimers ?s1)"
      using settled_parts(5) [OF s1] unfolding paced_def pace_def by blast
    then have "tidy X ?s1" using s1 unfolding settled_def by blast
    then show ?thesis unfolding disconnect_def Let_def None option.case .
  next
    case (Some a)
    let ?s2 = "conn_close sy now (ac_conn a) ?s1"
    have s2: "tidy (insert p X) ?s2" by (rule tidy_conn_close [OF s1])
    have "p \<notin> set (tp_pingTimers ?s2)" using off conn_close_less(2) by blast
    from settled_lose [OF s2 this] have "tidy X (emit (OnDisconnect p) (drop_connection p ?s2))"
      by (simp add: emit_def drop_connection_def)
    then show ?thesis unfolding disconnect_def Let_def Some option.case .
  qed
qed

lemma tidy_step:
  assumes "tidy {} s" "enabled now e s"
  shows "tidy {} (transport_step sy dials now e s)"
proof (cases e)
  case (ReconnectTimer p)
  then show ?thesis using assms(1) tidy_fire [OF assms(1)]
    by (cases "jm_get (tp_reconnectTimers s) p") (auto simp only: transport_step.simps option.case prod.case split: prod.split)
next
  case (PongTimeout p b)
  have "tidy {} (s\<lparr>tp_pongTimeouts := js_remove p (tp_pongTimeouts s)\<rparr>)" using settled_pong(1) [OF assms(1)] by simp
  from tidy_onPingTimeout [OF this] show ?thesis unfolding PongTimeout transport_step.simps .
next
  case (PingTimer p b)
  then have "p \<in> set (tp_pingTimers s)" using assms(2) by simp
  then show ?thesis unfolding PingTimer transport_step.simps by (rule tidy_sendPing [OF assms(1)])
next
  case (LinkOpens c)
  then have "c < length (tp_links s)" "\<not> lk_open (tp_links s ! c)" "\<not> lk_closed (tp_links s ! c)" using assms(2) by simp_all
  then show ?thesis unfolding LinkOpens transport_step.simps by (rule tidy_opened [OF assms(1)])
next
  case (SetAutoReconnect b)
  then show ?thesis using assms(1) by simp
next
  case (ServerState k b)
  then show ?thesis using assms(1) by simp
next
  case (ServerAdded sv)
  then show ?thesis using assms(1) by simp
qed (simp_all only: transport_step.simps tidy_connect tidy_disconnect tidy_send tidy_setHeartbeat tidy_setup tidy_failed
    tidy_link_closes tidy_data tidy_dial_timeout tidy_next tidy_rejects tidy_pause tidy_ping_all tidy_chain assms(1))

subsection \<open>Callbacks, heartbeats\<close>

lemma tidy_new: "tidy {} (new_transport me servers n)"
  by (simp add: settled_def new_transport_def wf_map_def jm_keys_def paced_def pace_def linked_def)

lemma tidy_reached: "leads_to sy s es t \<Longrightarrow> tidy {} s \<Longrightarrow> tidy {} t"
  by (induction rule: leads_to.induct) (simp_all only: tidy_step)

text \<open>
  Property C35. Whatever the order of calls and events, a peer is never reported as connected twice without a report of
  its loss in between, and at every moment the peers whose last report says connected are those \<open>getConnectedPeers\<close> lists.
\<close>

theorem connection_reports_alternate:
  assumes "leads_to sy (new_transport me servers n) es s"
  shows "alternating (tp_log s) \<and> {p. up p (tp_log s)} = set (getConnectedPeers s)"
  using tidy_reached [OF assms tidy_new] connected_peers [of s] unfolding settled_def by auto

definition sample_run :: transport where
  "sample_run = transport_step True (\<lambda>u. True) 1 (Inbound ''b'' ''u'' True) (new_transport ''a'' [] 1)"

lemma sample_run_reached: "leads_to True (new_transport ''a'' [] 1) [(1, Inbound ''b'' ''u'' True)] sample_run"
  using leads_to.step [OF leads_to.start, of 1 "Inbound ''b'' ''u'' True" "new_transport ''a'' [] 1" True "\<lambda>u. True"]
  by (simp add: sample_run_def)

lemma sample_run_connected: "jm_get (tp_connections sample_run) ''b'' = Some \<lparr>ac_conn = 0, ac_status = Connected, ac_server = ''u'', ac_inbound = True\<rparr>"
  by (simp add: sample_run_def setupConnection_def new_link_def new_transport_def install_def markConnected_def startHeartbeat_def
      emit_def Let_def jm_get_set)

lemma connection_reports_alternate_witness: "alternating (tp_log sample_run) \<and> {p. up p (tp_log sample_run)} = set (getConnectedPeers sample_run)"
  by (rule connection_reports_alternate [OF sample_run_reached])

text \<open>
  Property C36. Pings run for exactly the connected peers while heartbeats are enabled, and for nobody otherwise, and only
  a peer that is being pinged can be waited for.
\<close>

theorem heartbeats_follow_connections:
  assumes "leads_to sy (new_transport me servers n) es s"
  shows "set (tp_pingTimers s) = (if tp_heartbeat s then set (getConnectedPeers s) else {}) \<and>
    set (tp_pongTimeouts s) \<subseteq> set (tp_pingTimers s)"
proof -
  note t = tidy_reached [OF assms tidy_new]
  have "p \<in> set (tp_pingTimers s) \<longleftrightarrow> tp_heartbeat s \<and> live p s" for p
    using spec [OF settled_parts(5) [OF t, unfolded paced_def], of p] unfolding pace_def by blast
  then have "set (tp_pingTimers s) = (if tp_heartbeat s then {p. live p s} else {})" by (simp add: set_eq_iff)
  then show ?thesis unfolding connected_peers [OF settled_parts(1) [OF t]] by (rule conjI) (rule settled_parts(6) [OF t])
qed

lemma heartbeats_follow_connections_witness:
  "set (tp_pingTimers sample_run) = (if tp_heartbeat sample_run then set (getConnectedPeers sample_run) else {}) \<and>
    set (tp_pongTimeouts sample_run) \<subseteq> set (tp_pingTimers sample_run)"
  by (rule heartbeats_follow_connections [OF sample_run_reached])

subsection \<open>What is left alone\<close>

text \<open>The operations on links do not touch the calls under way, the servers, the quarantine or the peers of links.\<close>

definition ends :: "link list \<Rightarrow> (string \<times> bool) list" where
  "ends ls = map (\<lambda>l. (lk_peer l, lk_inbound l)) ls"

definition calls :: "transport \<Rightarrow> (string, attempt) jsmap \<times> string list \<times> (string, time) jsmap \<times> (string \<times> bool) list" where
  "calls s = (tp_connectingTo s, tp_manual s, tp_quarantineUntil s, ends (tp_links s))"

lemma ends_update: "lk_peer l = lk_peer (ls ! c) \<Longrightarrow> lk_inbound l = lk_inbound (ls ! c) \<Longrightarrow> ends (ls[c := l]) = ends ls"
  by (cases "c < length ls") (auto simp: ends_def nth_list_update intro!: nth_equalityI)

lemma calls_base [simp]:
  "calls (emit e s) = calls s" "calls (startHeartbeat p s) = calls s" "calls (stopHeartbeat p s) = calls s"
  "calls (drop_connection p s) = calls s" "calls (scheduleReconnect now p s) = calls s" "calls (queue_message p m s) = calls s"
  "calls (handlePong p ts s) = calls s" "calls (run_chain i s) = calls s"
  by (simp_all add: calls_def emit_def startHeartbeat_def stopHeartbeat_def drop_connection_def scheduleReconnect_def
      queue_message_def handlePong_def run_chain_def split: option.split prod.split list.split)

lemma calls_fields [simp]:
  "calls (s\<lparr>tp_connections := m\<rparr>) = calls s" "calls (s\<lparr>tp_queues := q\<rparr>) = calls s"
  "calls (s\<lparr>tp_missedPongs := x\<rparr>) = calls s" "calls (s\<lparr>tp_lastRecovery := r\<rparr>) = calls s"
  "calls (s\<lparr>tp_pendingPing := g\<rparr>) = calls s" "calls (s\<lparr>tp_pongTimeouts := o'\<rparr>) = calls s"
  "calls (s\<lparr>tp_heartbeat := b\<rparr>) = calls s" "calls (s\<lparr>tp_reconnectAttempts := ra\<rparr>) = calls s"
  "calls (s\<lparr>tp_reconnectTimers := rt\<rparr>) = calls s"
  by (simp_all add: calls_def)

lemma calls_links:
  "ends ls = ends (tp_links s) \<Longrightarrow> calls (s\<lparr>tp_links := ls\<rparr>) = calls s"
  "ends ls = ends (tp_links s) \<Longrightarrow> calls (s\<lparr>tp_connections := m, tp_links := ls\<rparr>) = calls s"
  by (simp_all add: calls_def)

lemma calls_on_close [simp]: "calls (on_close now c s) = calls s"
  by (simp add: on_close_def Let_def)

lemma calls_conn_close [simp]: "calls (conn_close sy now c s) = calls s"
  by (simp add: conn_close_alt closed_links_def calls_links ends_update)

lemma calls_markConnected [simp]: "calls (markConnected sy now c s) = calls s"
  by (simp add: markConnected_def Let_def split: option.split)

lemma calls_install [simp]: "calls (install sy now c s) = calls s"
  by (simp add: install_def Let_def calls_links ends_update split: option.split)

lemma calls_setup [simp]: "calls (setupConnection sy now c s) = calls s"
  by (simp add: setupConnection_def Let_def split: option.split)

lemma calls_markDisconnected [simp]: "calls (markDisconnected now p c s) = calls s"
  by (simp add: markDisconnected_def)

lemma calls_send [simp]: "calls (snd (send now throws p d s)) = calls s"
  by (simp add: send_def split: option.split)

lemma calls_sendPing [simp]: "calls (sendPing now throws p s) = calls s"
  using calls_send [of now throws p "Ping now" s] by (auto simp: sendPing_def split: prod.split simp del: calls_send)

lemma calls_timeout [simp]: "calls (onPingTimeout sy restarts now p s) = calls s"
  by (simp add: onPingTimeout_def Let_def split: option.split)

lemma calls_data [simp]: "calls (on_data now throws c d s) = calls s"
  by (simp add: on_data_def Let_def split: packet.split)

lemma calls_ping_all [simp]: "calls (ping_all now throws s) = calls s"
proof -
  have "calls (ping_one now (throws p) p s) = calls s" for p s by (simp add: ping_one_def split: option.split)
  then have "calls (fold (\<lambda>p. ping_one now (throws p) p) ps s) = calls s" for ps by (induction ps arbitrary: s) simp_all
  then show ?thesis by (simp add: ping_all_def)
qed

lemma calls_heartbeat [simp]: "calls (setHeartbeatEnabled b s) = calls s"
proof -
  have "calls (fold startHeartbeat ps t) = calls t" "calls (fold stopHeartbeat ps t) = calls t" for ps t
    by (induction ps arbitrary: t) simp_all
  then show ?thesis by (simp add: setHeartbeatEnabled_def Let_def)
qed

end
