(* ===== verification/TransportLimits.thy ===== *)
theory TransportLimits
  imports TransportSafety
begin

section \<open>Dialling\<close>

text \<open>
  Further properties of \<open>PeerTransport\<close>: the bound of a quarantine, what a disconnected peer is safe from and what it is
  not, the resolution of simultaneous connections, and a dial that leaves a peer blocked.
\<close>

subsection \<open>Quarantine\<close>

fun until_ok :: "time \<Rightarrow> 'a \<times> 'b \<times> (string, time) jsmap \<times> 'c \<Rightarrow> bool" where
  "until_ok b (c, m, q, e) \<longleftrightarrow> (\<forall>p u. jm_get q p = Some u \<longrightarrow> u \<le> b)"

abbreviation quarantine_within :: "time \<Rightarrow> transport \<Rightarrow> bool" where
  "quarantine_within b s \<equiv> until_ok b (calls s)"

lemma until_calls: "quarantine_within b s \<longleftrightarrow> (\<forall>p u. jm_get (tp_quarantineUntil s) p = Some u \<longrightarrow> u \<le> b)"
  by (simp add: calls_def)

lemma within_fields [simp]:
  "quarantine_within b (s\<lparr>tp_connectingTo := c\<rparr>) = quarantine_within b s"
  "quarantine_within b (s\<lparr>tp_manual := m\<rparr>) = quarantine_within b s"
  "quarantine_within b (s\<lparr>tp_links := ls\<rparr>) = quarantine_within b s"
  "quarantine_within b (s\<lparr>tp_signaling := sg\<rparr>) = quarantine_within b s"
  "quarantine_within b (s\<lparr>tp_autoReconnect := au\<rparr>) = quarantine_within b s"
  by (simp_all add: until_calls)

lemma quarantine_ms_bounds: "0 < quarantine_ms n" "quarantine_ms n \<le> PEER_CONNECT_QUARANTINE_MAX_MS"
  by (simp_all add: quarantine_ms_def PEER_CONNECT_QUARANTINE_BASE_MS_def PEER_CONNECT_QUARANTINE_MAX_MS_def)

lemma within_note:
  assumes "quarantine_within b s" "now + PEER_CONNECT_QUARANTINE_MAX_MS \<le> b"
  shows "quarantine_within b (notePeerConnectFailure now p e s)"
proof -
  have "now + quarantine_ms n \<le> b" for n using assms(2) quarantine_ms_bounds(2) [of n] by simp
  then show ?thesis using assms(1) by (auto simp: notePeerConnectFailure_def until_calls Let_def jm_get_set)
qed

lemma within_calls_of [simp]:
  "quarantine_within b (new_link p u i opn s) = quarantine_within b s"
  "quarantine_within b (set_phase p ph s) = quarantine_within b s"
  "quarantine_within b (set_lastError p msg s) = quarantine_within b s"
  "quarantine_within b (connect_resolves p s) = quarantine_within b s"
  "quarantine_within b (connect_rejects now p s) = quarantine_within b s"
  "quarantine_within b (cancelReconnect p s) = quarantine_within b s"
  by (simp_all add: new_link_def set_phase_def set_lastError_def connect_resolves_def
      connect_rejects_def cancelReconnect_def Let_def split: option.split)

lemma within_clear: "quarantine_within b s \<Longrightarrow> quarantine_within b (clearPeerConnectFailure p s)"
  by (simp add: clearPeerConnectFailure_def until_calls jm_get_delete)

lemma within_next:
  assumes "now + PEER_CONNECT_QUARANTINE_MAX_MS \<le> b"
  shows "quarantine_within b s \<Longrightarrow> quarantine_within b (next_server sy dials now p svs s)"
proof (induction svs arbitrary: s)
  case Nil
  then show ?case by (simp add: give_up_def within_note assms)
next
  case (Cons x svs)
  then show ?case by (cases x) (simp add: start_dial_def Let_def)
qed

lemma within_dial:
  assumes "now + PEER_CONNECT_QUARANTINE_MAX_MS \<le> b" "quarantine_within b s"
  shows "quarantine_within b (rejected sy dials now p k n r msg s)" "quarantine_within b (dial sy dials now p k n r s)"
proof -
  show *: "quarantine_within b (rejected sy dials now p k n r msg s)" for msg
    using assms by (simp add: rejected_def Let_def within_next)
  show "quarantine_within b (dial sy dials now p k n r s)"
    using assms(2) * by (simp add: dial_def Let_def start_dial_def)
qed

lemma within_connect:
  assumes "now + PEER_CONNECT_QUARANTINE_MAX_MS \<le> b" "quarantine_within b s"
  shows "quarantine_within b (snd (connect sy dials now t p s))"
  using assms by (simp add: connect_def Let_def within_next)

lemma within_step:
  assumes "now + PEER_CONNECT_QUARANTINE_MAX_MS \<le> b" "quarantine_within b s"
  shows "quarantine_within b (transport_step sy dials now e s)"
proof -
  have fire: "quarantine_within b (fire_reconnect sy dials now p n s)" for p n
    using within_connect [OF assms(1), of "s\<lparr>tp_reconnectTimers := jm_delete p (tp_reconnectTimers s), tp_reconnectAttempts := jm_set p (n + 1) (tp_reconnectAttempts s)\<rparr>" sy dials True p] assms(2)
    by (auto simp: fire_reconnect_def Let_def split: prod.split call.split)
  have opens: "quarantine_within b (link_opens sy now c s)" for c
    using assms(2) by (simp add: link_opens_def Let_def within_clear split: option.split)
  have fails: "quarantine_within b (link_fails sy dials now c msg s)" for c msg
    using assms by (simp add: link_fails_def Let_def within_dial split: option.split prod.split)
  have times_out: "quarantine_within b (dial_timeout sy dials now c s)" for c
    using assms by (simp add: dial_timeout_def Let_def within_dial split: option.split prod.split)
  have pause: "quarantine_within b (pause_over sy dials now p s)" for p
    using assms by (simp add: pause_over_def within_dial split: option.split phase.split)
  show ?thesis
    by (cases e)
      (use assms fire opens fails times_out pause in \<open>simp_all add: within_clear within_next within_connect
        link_closes_def disconnect_def Let_def split: option.split prod.split\<close>)
qed

text \<open>
  Property C37. A quarantine ends at most half an hour after the last event, however often connecting to the peer fails, and
  while it lasts \<open>connect\<close> refuses without dialling.
\<close>

theorem quarantine_is_bounded:
  assumes "leads_to sy (new_transport me servers n) es s" "\<forall>x \<in> set es. fst x \<le> now"
    and "jm_get (tp_quarantineUntil s) p = Some u"
  shows "u \<le> now + PEER_CONNECT_QUARANTINE_MAX_MS \<and> (\<forall>t<u. \<exists>e. connect sy dials t b p s = (Rejected e, s))"
proof -
  let ?b = "now + PEER_CONNECT_QUARANTINE_MAX_MS"
  have run: "quarantine_within ?b s" if "quarantine_within ?b s0" "leads_to sy s0 es s" for s0
    using that(2,1) assms(2) by (induction rule: leads_to.induct) (simp_all add: within_step)
  have "quarantine_within ?b (new_transport me servers n)" by (simp add: until_calls new_transport_def)
  then have "quarantine_within ?b s" using assms(1) by (rule run)
  then show ?thesis using assms(3) by (simp add: until_calls connect_def quarantined_def jm_get_or_def)
qed

definition dial_server :: server where
  "dial_server = \<lparr>sr_url = ''u'', sr_label = ''u'', sr_connected = True\<rparr>"

lemma unavailable_text: "\<not> server_race ''peer-unavailable''" "isPeerUnavailableError (Some ''peer-unavailable'') p"
  using sublist_length_le [of "''disconnecting from server''" "''peer-unavailable''"]
    sublist_length_le [of "''disconnected from server''" "''peer-unavailable''"]
  by (auto simp: server_race_def text_includes_def isPeerUnavailableError_def)

text \<open>Two dials that fail: the second puts the peer into quarantine for two minutes.\<close>

definition dialling :: "time \<Rightarrow> transport \<Rightarrow> transport" where
  "dialling now s = transport_step True (\<lambda>u. True) now (Connect ''b'') s"

definition dial_failed :: "time \<Rightarrow> nat \<Rightarrow> transport \<Rightarrow> transport" where
  "dial_failed now c s = transport_step True (\<lambda>u. True) now (LinkFails c ''peer-unavailable'') s"

definition after_one :: transport where
  "after_one = dial_failed 1 0 (dialling 1 (new_transport ''a'' [dial_server] 0))"

definition sample_link :: link where
  "sample_link = \<lparr>lk_peer = ''b'', lk_server = ''u'', lk_inbound = False, lk_open = False, lk_closed = False, lk_listening = True\<rparr>"

lemma dialling_value:
  assumes "tp_signaling s = [dial_server]" "jm_get (tp_connections s) ''b'' = None" "jm_get (tp_connectingTo s) ''b'' = None"
    "\<not> quarantined now ''b'' s"
  shows "dialling now s = s\<lparr>tp_manual := js_remove ''b'' (tp_manual s), tp_links := tp_links s @ [sample_link],
    tp_connections := jm_set ''b'' \<lparr>ac_conn = length (tp_links s), ac_status = Connecting, ac_server = ''u'', ac_inbound = False\<rparr> (tp_connections s),
    tp_connectingTo := jm_set ''b'' \<lparr>ap_phase = Dialing 0 0 (length (tp_links s)) False, ap_lastError = None, ap_byTimer = False\<rparr>
       (jm_set ''b'' \<lparr>ap_phase = AwaitSignaling, ap_lastError = None, ap_byTimer = False\<rparr> (tp_connectingTo s))\<rparr>"
  using assms
  by (simp add: dialling_def connect_def jm_has_def jm_get_set Let_def servers_from_def dial_server_def start_dial_def set_phase_def
      new_link_def setupConnection_def install_def sample_link_def)

lemma after_one_value:
  "tp_signaling after_one = [dial_server]" "jm_get (tp_connections after_one) ''b'' = None"
  "jm_get (tp_connectingTo after_one) ''b'' = None" "tp_quarantineUntil after_one = []" "tp_links after_one = [sample_link]"
  "tp_failures after_one = [(''b'', 1)]" "tp_quarantineLevel after_one = []" "tp_maxRetries after_one = 0"
  by (simp_all add: after_one_def dialling_value new_transport_def dial_failed_def link_fails_def sample_link_def jm_get_set
      jm_get_delete quarantined_def jm_get_or_def pending_dial_def phase_of_def rejected_def unavailable_text set_lastError_def
      servers_from_def give_up_def notePeerConnectFailure_def connect_rejects_def drop_connection_def stopHeartbeat_def
      scheduleReconnect_def jm_has_def Let_def jm_set_def PEER_CONNECT_FAILURE_THRESHOLD_def)

definition after_two :: transport where
  "after_two = dial_failed 2 1 (dialling 2 after_one)"

lemma after_two_value: "jm_get (tp_quarantineUntil after_two) ''b'' = Some 120002"
  using after_one_value
  by (simp add: after_two_def dialling_value dial_failed_def link_fails_def sample_link_def jm_get_set
      jm_get_delete quarantined_def jm_get_or_def pending_dial_def phase_of_def rejected_def unavailable_text set_lastError_def
      servers_from_def give_up_def notePeerConnectFailure_def connect_rejects_def drop_connection_def stopHeartbeat_def
      scheduleReconnect_def jm_has_def Let_def PEER_CONNECT_FAILURE_THRESHOLD_def quarantine_ms_def
      PEER_CONNECT_QUARANTINE_BASE_MS_def PEER_CONNECT_QUARANTINE_MAX_MS_def)

lemma after_two_reached:
  "leads_to True (new_transport ''a'' [dial_server] 0)
     ([] @ [(1, Connect ''b'')] @ [(1, LinkFails 0 ''peer-unavailable'')] @ [(2, Connect ''b'')] @ [(2, LinkFails 1 ''peer-unavailable'')]) after_two"
proof -
  let ?s = "new_transport ''a'' [dial_server] 0"
  have fresh: "\<not> quarantined 1 ''b'' ?s" "\<not> quarantined 2 ''b'' after_one"
    by (simp_all add: quarantined_def jm_get_or_def new_transport_def after_one_value)
  have "leads_to True ?s ([] @ [(1, Connect ''b'')]) (dialling 1 ?s)"
    unfolding dialling_def by (rule leads_to.step [OF leads_to.start]) simp
  then have "leads_to True ?s (([] @ [(1, Connect ''b'')]) @ [(1, LinkFails 0 ''peer-unavailable'')]) after_one"
    unfolding after_one_def dial_failed_def
    by (rule leads_to.step) (use fresh in \<open>simp add: dialling_value new_transport_def sample_link_def\<close>)
  then have "leads_to True ?s ((([] @ [(1, Connect ''b'')]) @ [(1, LinkFails 0 ''peer-unavailable'')]) @ [(2, Connect ''b'')]) (dialling 2 after_one)"
    unfolding dialling_def by (rule leads_to.step) simp
  then have "leads_to True ?s (((([] @ [(1, Connect ''b'')]) @ [(1, LinkFails 0 ''peer-unavailable'')]) @ [(2, Connect ''b'')]) @ [(2, LinkFails 1 ''peer-unavailable'')]) after_two"
    unfolding after_two_def dial_failed_def
    by (rule leads_to.step) (use fresh after_one_value in \<open>simp add: dialling_value sample_link_def\<close>)
  then show ?thesis by simp
qed

lemma quarantine_is_bounded_witness:
  "120002 \<le> 2 + PEER_CONNECT_QUARANTINE_MAX_MS \<and> (\<exists>e. connect True (\<lambda>u. True) 120001 False ''b'' after_two = (Rejected e, after_two))"
  using quarantine_is_bounded [OF after_two_reached _ after_two_value, of 2 "\<lambda>u. True" False] by simp

subsection \<open>Peers that were disconnected\<close>

fun alone :: "string \<Rightarrow> nat \<Rightarrow> (string, attempt) jsmap \<times> string list \<times> 'a \<times> (string \<times> bool) list \<Rightarrow> bool" where
  "alone p k (c, m, q, e) \<longleftrightarrow> jm_get c p = None \<and> p \<in> set m \<and> count_list e (p, False) = k"

text \<open>No call of \<open>connect\<close> for \<open>p\<close> is under way, it was disconnected, and \<open>k\<close> links were ever dialled to it.\<close>

abbreviation left_alone :: "string \<Rightarrow> nat \<Rightarrow> transport \<Rightarrow> bool" where
  "left_alone p k s \<equiv> alone p k (calls s)"

lemma alone_calls:
  "left_alone p k s \<longleftrightarrow> jm_get (tp_connectingTo s) p = None \<and> p \<in> set (tp_manual s) \<and> count_list (ends (tp_links s)) (p, False) = k"
  by (simp add: calls_def)

lemma alone_fields [simp]:
  "left_alone p k (s\<lparr>tp_signaling := sg\<rparr>) = left_alone p k s" "left_alone p k (s\<lparr>tp_autoReconnect := au\<rparr>) = left_alone p k s"
  by (simp_all add: alone_calls)

lemma alone_calls_of:
  assumes "left_alone p k s"
  shows "left_alone p k (set_phase q ph s)" "left_alone p k (set_lastError q msg s)" "left_alone p k (connect_resolves q s)"
    "left_alone p k (connect_rejects now q s)" "left_alone p k (cancelReconnect q s)" "left_alone p k (clearPeerConnectFailure q s)"
    "left_alone p k (notePeerConnectFailure now q e s)" "left_alone p k (new_link q u True opn s)"
    "q \<noteq> p \<Longrightarrow> left_alone p k (new_link q u i opn s)" "left_alone p k (s\<lparr>tp_manual := js_add q (tp_manual s)\<rparr>)"
    "q \<noteq> p \<Longrightarrow> left_alone p k (s\<lparr>tp_manual := js_remove q (tp_manual s)\<rparr>)"
    "q \<noteq> p \<Longrightarrow> left_alone p k (s\<lparr>tp_connectingTo := jm_set q at (tp_connectingTo s)\<rparr>)"
  using assms
  by (auto simp: alone_calls set_phase_def set_lastError_def connect_resolves_def connect_rejects_def cancelReconnect_def
      clearPeerConnectFailure_def notePeerConnectFailure_def new_link_def Let_def jm_get_set jm_get_delete ends_def
      scheduleReconnect_def split: option.split)

lemma alone_next:
  assumes "q \<noteq> p"
  shows "left_alone p k s \<Longrightarrow> left_alone p k (next_server sy dials now q svs s)"
proof (induction svs arbitrary: s)
  case Nil
  then show ?case by (simp add: give_up_def alone_calls_of)
next
  case (Cons x svs)
  then show ?case by (cases x) (simp add: start_dial_def Let_def alone_calls_of assms)
qed

lemma alone_dial:
  assumes "q \<noteq> p" "left_alone p k s"
  shows "left_alone p k (rejected sy dials now q j n r msg s)" "left_alone p k (dial sy dials now q j n r s)"
proof -
  show *: "left_alone p k (rejected sy dials now q j n r msg s)" for msg
    using assms by (simp add: rejected_def Let_def alone_next alone_calls_of)
  show "left_alone p k (dial sy dials now q j n r s)"
    using assms * by (simp add: dial_def Let_def start_dial_def alone_calls_of)
qed

lemma alone_if: "(P \<Longrightarrow> left_alone p k a) \<Longrightarrow> (\<not> P \<Longrightarrow> left_alone p k b) \<Longrightarrow> left_alone p k (if P then a else b)"
  by (cases P) simp_all

lemma alone_connect:
  assumes "q \<noteq> p" "left_alone p k s"
  shows "left_alone p k (snd (connect sy dials now t q s))"
proof -
  let ?s1 = "s\<lparr>tp_manual := js_remove q (tp_manual s)\<rparr>"
  let ?s2 = "?s1\<lparr>tp_connectingTo := jm_set q \<lparr>ap_phase = AwaitSignaling, ap_lastError = None, ap_byTimer = t\<rparr> (tp_connectingTo ?s1)\<rparr>"
  have s1: "left_alone p k ?s1" using assms by (simp add: alone_calls_of)
  have s2: "left_alone p k ?s2" by (rule alone_calls_of(12) [OF s1 assms(1)])
  show ?thesis unfolding connect_def Let_def if_distrib [of snd] snd_conv
    by (intro alone_if assms s1 s2 alone_next)
qed

lemma alone_phase: "left_alone p k s \<Longrightarrow> phase_of p s = None"
  by (simp add: alone_calls phase_of_def)

lemma alone_pending: "left_alone p k s \<Longrightarrow> lk_peer (tp_links s ! c) = p \<Longrightarrow> pending_dial c s = None"
  by (simp add: pending_dial_def alone_phase)

lemma alone_step:
  assumes "left_alone p k s" "tidy {} s" "enabled now e s" "e \<noteq> Connect p"
  shows "left_alone p k (transport_step sy dials now e s)"
proof -
  have timer: "jm_get (tp_reconnectTimers s) p = None"
    using settled_parts(7) [OF assms(2)] assms(1) by (simp add: alone_calls)
  have fire: "left_alone p k (fire_reconnect sy dials now q n s)" if "q \<noteq> p" for q n
    using alone_connect [of q p k "s\<lparr>tp_reconnectTimers := jm_delete q (tp_reconnectTimers s), tp_reconnectAttempts := jm_set q (n + 1) (tp_reconnectAttempts s)\<rparr>" sy dials now True] assms(1) that
    by (auto simp: fire_reconnect_def Let_def split: prod.split call.split)
  have peers: "lk_peer (tp_links t ! c) = lk_peer (tp_links s ! c)" if "calls t = calls s" "c < length (tp_links s)" for t c
  proof -
    have e: "ends (tp_links t) = ends (tp_links s)" using that(1) by (simp add: calls_def)
    have "length (tp_links t) = length (tp_links s)" using arg_cong [OF e, of length] by (simp add: ends_def)
    then show ?thesis using arg_cong [OF e, of "\<lambda>l. fst (l ! c)"] that(2) by (simp add: ends_def)
  qed
  have opens: "left_alone p k (link_opens sy now c s)" for c
    using assms(1) by (simp add: link_opens_def Let_def alone_calls_of calls_links ends_update split: option.split)
  have rej: "left_alone p k (case pending_dial c t of None \<Rightarrow> t | Some (j, n, r) \<Rightarrow> rejected sy dials now (lk_peer (tp_links s ! c)) j n r msg t)"
    if "calls t = calls s" "c < length (tp_links s)" for t c msg
  proof (cases "pending_dial c t")
    case None
    then show ?thesis using that(1) assms(1) by simp
  next
    case (Some d)
    obtain j n r where d: "d = (j, n, r)" by (cases d) auto
    have t: "left_alone p k t" using that(1) assms(1) by simp
    then have "lk_peer (tp_links s ! c) \<noteq> p" using alone_pending [OF t, of c] Some peers [OF that] by auto
    then show ?thesis unfolding Some d option.case prod.case by (rule alone_dial(1) [OF _ t])
  qed
  have pause: "left_alone p k (pause_over sy dials now q s)" if "phase_of q s \<noteq> None" for q
  proof -
    have "q \<noteq> p" using that alone_phase [OF assms(1)] by auto
    then show ?thesis using assms(1) by (simp add: pause_over_def alone_dial alone_calls_of split: option.split phase.split)
  qed
  show ?thesis
  proof (cases e)
    case (LinkFails c msg)
    then have c: "c < length (tp_links s)" using assms(3) by simp
    show ?thesis unfolding LinkFails transport_step.simps link_fails_def Let_def
      by (rule rej [OF _ c]) (simp split: option.split)
  next
    case (DialTimeout c)
    have "left_alone p k (conn_close sy now c s)" using assms(1) by simp
    moreover have "lk_peer (tp_links s ! c) \<noteq> p" if "pending_dial c s = Some d" for d using alone_pending [OF assms(1)] that by auto
    ultimately show ?thesis using assms(1)
      by (auto simp: DialTimeout dial_timeout_def Let_def alone_dial(1) split: option.split)
  next
    case (SignalingBack q)
    then have "q \<noteq> p" using assms(3) alone_phase [OF assms(1)] by auto
    then show ?thesis using assms(1) by (simp add: SignalingBack alone_next)
  next
    case (RaceOver q)
    then have "phase_of q s \<noteq> None" using assms(3) by (auto split: option.splits)
    then show ?thesis unfolding RaceOver transport_step.simps by (rule pause)
  next
    case (BackoffOver q)
    then have "phase_of q s \<noteq> None" using assms(3) by (auto split: option.splits)
    then show ?thesis unfolding BackoffOver transport_step.simps by (rule pause)
  next
    case (ReconnectTimer q)
    then have "q \<noteq> p" using assms(3) timer by auto
    then show ?thesis using assms(1) fire by (auto simp: ReconnectTimer split: option.split)
  next
    case (Connect q)
    then show ?thesis using assms(1,4) by (simp add: alone_connect)
  next
    case (Disconnect q)
    then show ?thesis using assms(1) by (simp add: disconnect_def Let_def alone_calls_of split: option.split)
  qed (use assms(1) opens in \<open>simp_all add: alone_calls_of link_closes_def calls_links ends_update\<close>)
qed

lemma alone_reached:
  "leads_to sy s es t \<Longrightarrow> left_alone p k s \<Longrightarrow> tidy {} s \<Longrightarrow> \<forall>now. (now, Connect p) \<notin> set es \<Longrightarrow> left_alone p k t \<and> tidy {} t"
proof (induction rule: leads_to.induct)
  case (step s es t now e dials)
  then have "left_alone p k t" "tidy {} t" "e \<noteq> Connect p" by auto
  then show ?case using alone_step tidy_step step.hyps(2) by blast
qed blast

text \<open>
  Property C38. After \<open>disconnect\<close>, unless a call of \<open>connect\<close> was under way, no timer, event or other call dials the peer
  until \<open>connect\<close> is called for it again.
\<close>

theorem disconnected_peer_is_not_dialled:
  assumes "leads_to sy (new_transport me servers n) es s" "jm_get (tp_connectingTo s) p = None" "p \<in> set (tp_manual s)"
    and "leads_to sy s es' t" "\<forall>now. (now, Connect p) \<notin> set es'"
  shows "jm_get (tp_connectingTo t) p = None \<and> p \<in> set (tp_manual t) \<and>
    count_list (ends (tp_links t)) (p, False) = count_list (ends (tp_links s)) (p, False)"
proof -
  have "left_alone p (count_list (ends (tp_links s)) (p, False)) s" using assms(2,3) by (simp add: alone_calls)
  from alone_reached [OF assms(4) this tidy_reached [OF assms(1) tidy_new] assms(5)] show ?thesis by (simp add: alone_calls)
qed

definition left_run :: transport where
  "left_run = disconnect True 2 ''b'' sample_run"

lemma left_run_reached: "leads_to True (new_transport ''a'' [] 1) ([(1, Inbound ''b'' ''u'' True)] @ [(2, Disconnect ''b'')]) left_run"
  using leads_to.step [OF sample_run_reached, of 2 "Disconnect ''b''" "\<lambda>u. True"] by (simp add: left_run_def)

lemma left_run_value: "jm_get (tp_connectingTo left_run) ''b'' = None" "''b'' \<in> set (tp_manual left_run)"
proof -
  have "tp_connectingTo sample_run = []" "ends (tp_links sample_run) = [(''b'', True)]"
    by (simp_all add: sample_run_def setupConnection_def new_link_def new_transport_def install_def markConnected_def
        startHeartbeat_def emit_def Let_def jm_get_set ends_def)
  then have "left_alone ''b'' 0 (sample_run\<lparr>tp_manual := js_add ''b'' (tp_manual sample_run)\<rparr>)" by (simp add: alone_calls)
  then have "left_alone ''b'' 0 left_run" by (simp add: left_run_def disconnect_def Let_def alone_calls_of split: option.split)
  then show "jm_get (tp_connectingTo left_run) ''b'' = None" "''b'' \<in> set (tp_manual left_run)" by (simp_all add: alone_calls)
qed

lemma disconnected_peer_is_not_dialled_witness:
  "jm_get (tp_connectingTo (transport_step True (\<lambda>u. True) 9 (Inbound ''b'' ''u'' False) left_run)) ''b'' = None \<and>
   ''b'' \<in> set (tp_manual (transport_step True (\<lambda>u. True) 9 (Inbound ''b'' ''u'' False) left_run)) \<and>
   count_list (ends (tp_links (transport_step True (\<lambda>u. True) 9 (Inbound ''b'' ''u'' False) left_run))) (''b'', False) =
     count_list (ends (tp_links left_run)) (''b'', False)"
  by (rule disconnected_peer_is_not_dialled [OF left_run_reached left_run_value leads_to.step [OF leads_to.start]]) simp_all

subsection \<open>A call of connect that overtakes disconnect\<close>

lemma fresh_dial:
  assumes "jm_get (tp_connections s) p = None" "phase_of p s \<noteq> None"
  shows "tp_links (start_dial sy now p sv k n r s) =
      tp_links s @ [\<lparr>lk_peer = p, lk_server = sr_url sv, lk_inbound = False, lk_open = False, lk_closed = False, lk_listening = True\<rparr>]"
    and "jm_get (tp_connections (start_dial sy now p sv k n r s)) p =
      Some \<lparr>ac_conn = length (tp_links s), ac_status = Connecting, ac_server = sr_url sv, ac_inbound = False\<rparr>"
    and "phase_of p (start_dial sy now p sv k n r s) = Some (Dialing k n (length (tp_links s)) r)"
    and "tp_manual (start_dial sy now p sv k n r s) = tp_manual s"
  using assms
  by (auto simp: start_dial_def set_phase_def phase_of_def new_link_def setupConnection_def install_def Let_def jm_get_set)

lemma manual_calls: "calls t = calls s \<Longrightarrow> tp_manual t = tp_manual s" "calls t = calls s \<Longrightarrow> phase_of p t = phase_of p s"
  "calls t = calls s \<Longrightarrow> length (tp_links t) = length (tp_links s)"
  by (auto simp: calls_def phase_of_def ends_def dest: map_eq_imp_length_eq)

lemma disconnected_state:
  "jm_get (tp_connections (disconnect sy now p s)) p = None" "phase_of q (disconnect sy now p s) = phase_of q s"
  "p \<in> set (tp_manual (disconnect sy now p s))" "length (tp_links (disconnect sy now p s)) = length (tp_links s)"
proof -
  let ?s1 = "clearPeerConnectFailure p (stopHeartbeat p (cancelReconnect p (s\<lparr>tp_manual := js_add p (tp_manual s)\<rparr>)))"
  have s1: "phase_of q ?s1 = phase_of q s" "p \<in> set (tp_manual ?s1)" "tp_links ?s1 = tp_links s"
    by (simp_all add: clearPeerConnectFailure_def stopHeartbeat_def cancelReconnect_def phase_of_def)
  have eq: "disconnect sy now p s = (case jm_get (tp_connections ?s1) p of None \<Rightarrow> ?s1
      | Some a \<Rightarrow> emit (OnDisconnect p) (drop_connection p (conn_close sy now (ac_conn a) ?s1)))"
    by (simp add: disconnect_def Let_def)
  have off: "phase_of q (emit e (drop_connection p t)) = phase_of q t" "tp_manual (emit e (drop_connection p t)) = tp_manual t"
    "tp_links (emit e (drop_connection p t)) = tp_links t" "jm_get (tp_connections (emit e (drop_connection p t))) p = None" for e t
    by (simp_all add: emit_def drop_connection_def phase_of_def jm_get_delete)
  show "jm_get (tp_connections (disconnect sy now p s)) p = None" "phase_of q (disconnect sy now p s) = phase_of q s"
    "p \<in> set (tp_manual (disconnect sy now p s))" "length (tp_links (disconnect sy now p s)) = length (tp_links s)"
    unfolding eq by (cases "jm_get (tp_connections ?s1) p";
        simp only: option.case s1 off manual_calls(2) [OF calls_conn_close] conn_close_fields closed_links_def length_list_update)+
qed

text \<open>
  A call of \<open>connect\<close> that waits for its next try is not ended by \<open>disconnect\<close>: it dials the peer when its
  pause is over, and the peer ends up connected although it was disconnected last.
\<close>

theorem disconnect_is_overtaken:
  assumes "phase_of p s = Some (Backoff k n)"
    and "s1 = transport_step sy dials t1 (Disconnect p) s" "s2 = transport_step sy (\<lambda>u. True) t2 (BackoffOver p) s1"
    and "s3 = transport_step sy dials' t3 (LinkOpens (length (tp_links s))) s2"
  shows "enabled t2 (BackoffOver p) s1 \<and> enabled t3 (LinkOpens (length (tp_links s))) s2 \<and>
    connected_now p s3 \<and> p \<in> set (tp_manual s3)"
proof (intro conjI)
  let ?c = "length (tp_links s)" let ?sv = "tp_signaling (drop_connection p s1) ! k"
  have s1: "jm_get (tp_connections s1) p = None" "phase_of p s1 = Some (Backoff k n)" "p \<in> set (tp_manual s1)" "length (tp_links s1) = ?c"
    using disconnected_state assms(1) by (simp_all add: assms(2))
  show "enabled t2 (BackoffOver p) s1" by (simp add: s1(2))
  have d: "jm_get (tp_connections (drop_connection p s1)) p = None" "phase_of p (drop_connection p s1) \<noteq> None"
    "length (tp_links (drop_connection p s1)) = ?c" "tp_manual (drop_connection p s1) = tp_manual s1"
    using s1 by (auto simp: drop_connection_def jm_get_delete phase_of_def)
  have "s2 = start_dial sy t2 p ?sv k (Suc n) False (drop_connection p s1)"
    using s1 by (simp add: assms(3) pause_over_def connected_now_def dial_def Let_def)
  note s2 = fresh_dial [OF d(1,2), of sy t2 ?sv k "Suc n" False, folded this, unfolded d(3,4)]
  have link: "tp_links s2 ! ?c = \<lparr>lk_peer = p, lk_server = sr_url ?sv, lk_inbound = False, lk_open = False, lk_closed = False, lk_listening = True\<rparr>"
    unfolding s2(1) using d(3) by (simp add: nth_append)
  show "enabled t3 (LinkOpens ?c) s2" using d(3) by (simp add: link) (simp add: s2(1))
  let ?o = "s2\<lparr>tp_links := (tp_links s2)[?c := (tp_links s2 ! ?c)\<lparr>lk_open := True\<rparr>]\<rparr>"
  let ?m = "markConnected sy t3 ?c ?o"
  have c: "?c < length (tp_links s2)" using d(3) by (simp add: s2(1))
  have "jm_get (tp_connections ?m) p = Some \<lparr>ac_conn = ?c, ac_status = Connected, ac_server = sr_url ?sv, ac_inbound = False\<rparr>"
    using c by (simp add: markConnected_def Let_def link s2(2) emit_def startHeartbeat_def jm_get_set)
  moreover have "tp_manual ?m = tp_manual s1"
    using manual_calls(1) [OF calls_markConnected, of sy t3 ?c ?o] by (simp add: s2(4))
  moreover have ends: "lk_peer (tp_links s2 ! ?c) = p" "lk_listening (tp_links s2 ! ?c) = True" by (simp_all add: link)
  have "s3 = (case pending_dial ?c ?m of None \<Rightarrow> ?m | Some d \<Rightarrow> connect_resolves p (clearPeerConnectFailure p ?m))"
    unfolding assms(4) transport_step.simps link_opens_def Let_def ends by simp
  moreover have "tp_connections (connect_resolves p (clearPeerConnectFailure p ?m)) = tp_connections ?m"
    "tp_manual (connect_resolves p (clearPeerConnectFailure p ?m)) = tp_manual ?m"
    by (simp_all add: connect_resolves_def clearPeerConnectFailure_def Let_def split: option.split)
  ultimately have "tp_connections s3 = tp_connections ?m" "tp_manual s3 = tp_manual s1"
    "jm_get (tp_connections ?m) p = Some \<lparr>ac_conn = ?c, ac_status = Connected, ac_server = sr_url ?sv, ac_inbound = False\<rparr>"
    by (simp_all split: option.split)
  then show "connected_now p s3" "p \<in> set (tp_manual s3)" using s1(3) by (simp_all add: connected_now_def)
qed

definition waiting_run :: transport where
  "waiting_run = dial_failed 1 0 (dialling 1 (new_transport ''a'' [dial_server] 1))"

lemma waiting_run_value: "phase_of ''b'' waiting_run = Some (Backoff 0 0)" "tp_links waiting_run = [sample_link]"
  by (simp_all add: waiting_run_def dialling_value new_transport_def dial_failed_def link_fails_def sample_link_def jm_get_set
      jm_get_delete quarantined_def jm_get_or_def pending_dial_def phase_of_def rejected_def unavailable_text set_lastError_def
      drop_connection_def stopHeartbeat_def scheduleReconnect_def jm_has_def Let_def set_phase_def)

lemma disconnect_is_overtaken_witness:
  "connected_now ''b'' (transport_step True (\<lambda>u. True) 9 (LinkOpens (length (tp_links waiting_run)))
     (transport_step True (\<lambda>u. True) 8 (BackoffOver ''b'') (transport_step True (\<lambda>u. True) 7 (Disconnect ''b'') waiting_run)))"
  using disconnect_is_overtaken [where sy = True and dials = "\<lambda>u. True" and dials' = "\<lambda>u. True" and ?t1.0 = 7 and ?t2.0 = 8 and ?t3.0 = 9,
      OF waiting_run_value(1) refl refl refl] by blast

subsection \<open>Two peers that dial each other\<close>

text \<open>A transport with a fresh link in each direction to one peer.\<close>

definition glare :: "string \<Rightarrow> string \<Rightarrow> nat \<Rightarrow> nat \<Rightarrow> transport \<Rightarrow> bool" where
  "glare me p ci co s \<longleftrightarrow> tp_myPeerId s = Some me \<and> me \<noteq> [] \<and> me \<noteq> p \<and> jm_get (tp_connections s) p = None \<and> ci \<noteq> co \<and>
     (\<forall>c \<in> {ci, co}. c < length (tp_links s) \<and> lk_peer (tp_links s ! c) = p \<and> \<not> lk_open (tp_links s ! c) \<and> \<not> lk_closed (tp_links s ! c)) \<and>
     lk_inbound (tp_links s ! ci) \<and> \<not> lk_inbound (tp_links s ! co)"

definition keeps :: "string \<Rightarrow> nat \<Rightarrow> nat \<Rightarrow> transport \<Rightarrow> bool" where
  "keeps p c d t \<longleftrightarrow> active_on p c t \<and> \<not> lk_closed (tp_links t ! c) \<and> lk_closed (tp_links t ! d)"

lemma glare_one_side:
  assumes "glare me p ci co s" "t = setupConnection sy now co (setupConnection sy now ci s) \<or> t = setupConnection sy now ci (setupConnection sy now co s)"
  shows "if me < p then keeps p co ci t else keeps p ci co t"
  using assms
  by (auto simp: glare_def keeps_def setupConnection_def install_def conn_close_alt closed_links_def active_on_def Let_def jm_get_set
      nth_list_update)

text \<open>
  Property C39. When two peers dial each other at once, both keep the link that the peer with the lower id dialled, and close
  the other one, in whatever order each of them meets the two links.
\<close>

theorem glare_is_resolved:
  assumes "glare a b ai ao s" "glare b a bi bo s'"
    and "t = setupConnection sy now ao (setupConnection sy now ai s) \<or> t = setupConnection sy now ai (setupConnection sy now ao s)"
    and "t' = setupConnection sy' now' bo (setupConnection sy' now' bi s') \<or> t' = setupConnection sy' now' bi (setupConnection sy' now' bo s')"
  shows "if a < b then keeps b ao ai t \<and> keeps a bi bo t' else keeps b ai ao t \<and> keeps a bo bi t'"
proof -
  have "a \<noteq> b" using assms(1) by (simp add: glare_def)
  then have "b < a \<longleftrightarrow> \<not> a < b" by (meson less_imp_not_less linorder_neqE)
  then show ?thesis using glare_one_side [OF assms(1,3)] glare_one_side [OF assms(2,4)] by (simp split: if_splits)
qed

definition glare_links :: "string \<Rightarrow> transport \<Rightarrow> transport" where
  "glare_links p s = new_link p ''u'' False False (new_link p ''u'' True False s)"

lemma glare_is_resolved_witness:
  "keeps ''b'' 1 0 (setupConnection True 5 0 (setupConnection True 5 1 (glare_links ''b'' (new_transport ''a'' [] 1)))) \<and>
   keeps ''a'' 0 1 (setupConnection True 5 0 (setupConnection True 5 1 (glare_links ''a'' (new_transport ''b'' [] 1))))"
proof -
  have "glare ''a'' ''b'' 0 1 (glare_links ''b'' (new_transport ''a'' [] 1))" "glare ''b'' ''a'' 0 1 (glare_links ''a'' (new_transport ''b'' [] 1))"
    by (simp_all add: glare_def glare_links_def new_link_def new_transport_def)
  from glare_is_resolved [where sy = True and now = 5 and sy' = True and now' = 5, OF this disjI2 [OF refl] disjI2 [OF refl]] show ?thesis by (simp add: less_char_def)
qed

subsection \<open>A dial that blocks its peer\<close>

text \<open>
  The last dial of a call that times out leaves its closed link in the map of connections. Unless PeerJS
  reports the closing of a link that never opened, every later call of \<open>connect\<close> for the peer then claims success
  without dialling.
\<close>

theorem stale_dial_blocks_peer:
  assumes "pending_dial c s = Some (k, n, r)" "lk_peer (tp_links s ! c) = p" "c < length (tp_links s)" "\<not> lk_open (tp_links s ! c)"
    and "jm_get (tp_connections s) p = Some a" "ac_conn a = c" "ac_status a = Connecting"
    and "tp_maxRetries s \<le> n" "\<not> server_race (timeout_error p (tp_signaling s ! k))" "\<forall>sv \<in> set (drop (Suc k) (tp_signaling s)). \<not> sr_connected sv"
    and "t = transport_step sy dials now (DialTimeout c) s" "\<not> quarantined now' p t" "tp_signaling s \<noteq> []"
  shows "lk_closed (tp_links t ! c) \<and> jm_get (tp_connectingTo t) p = None \<and>
    fst (connect sy dials' now' False p t) = Resolved \<and> tp_links (snd (connect sy dials' now' False p t)) = tp_links t \<and>
    \<not> connected_now p (snd (connect sy dials' now' False p t))"
proof -
  let ?s = "s\<lparr>tp_links := closed_links c (tp_links s)\<rparr>"
  have none: "next_server sy dials now p svs u = give_up now p u" if "\<forall>(i, sv) \<in> set svs. \<not> sr_connected sv" for svs u
    using that by (induction svs) auto
  obtain at where at: "jm_get (tp_connectingTo s) p = Some at" using assms(1,2) by (auto simp: pending_dial_def phase_of_def split: option.splits)
  have rest: "\<forall>(i, sv) \<in> set (servers_from (Suc k) u). \<not> sr_connected sv" if "tp_signaling u = tp_signaling s" for u
  proof -
    have "set (servers_from (Suc k) u) = set (zip (drop (Suc k) [0..<length (tp_signaling s)]) (drop (Suc k) (tp_signaling s)))"
      by (simp add: servers_from_def that enumerate_eq_zip drop_zip)
    then show ?thesis using assms(10) by (auto dest: set_zip_rightD)
  qed
  have closed: "conn_close sy now c s = ?s" using assms(4) by (simp add: conn_close_alt)
  define u where "u = (if r then ?s else set_lastError p (timeout_error p (tp_signaling s ! k)) ?s)"
  have u: "tp_connections u = tp_connections s" "tp_links u = closed_links c (tp_links s)" "tp_signaling u = tp_signaling s"
    "tp_maxRetries u = tp_maxRetries s" "jm_get (tp_connectingTo u) p \<noteq> None"
    by (auto simp: u_def set_lastError_def at jm_get_set)
  have "t = rejected sy dials now p k n r (timeout_error p (tp_signaling s ! k)) ?s"
    by (simp add: assms(1,2,11) dial_timeout_def Let_def closed)
  also have "\<dots> = give_up now p u"
    using assms(8,9) u none [OF rest [OF u(3)]] by (simp add: rejected_def Let_def flip: u_def)
  finally have t: "t = give_up now p u" .
  have g: "tp_signaling t = tp_signaling s" "tp_connections t = tp_connections s" "tp_links t = closed_links c (tp_links s)" "jm_get (tp_connectingTo t) p = None"
    using u by (auto simp: t give_up_def connect_rejects_def notePeerConnectFailure_def scheduleReconnect_def Let_def jm_get_delete
        split: option.split)
  have "lk_closed (tp_links t ! c)" using assms(3) by (simp add: g closed_links_def)
  then show ?thesis
    using g assms(5-7,12,13) by (auto simp: connect_def Let_def jm_has_def connected_now_def)
qed

definition lone_dial :: transport where
  "lone_dial = dialling 1 (new_transport ''a'' [dial_server] 0)"

lemma lone_dial_value:
  "pending_dial 0 lone_dial = Some (0, 0, False)" "tp_links lone_dial = [sample_link]" "tp_maxRetries lone_dial = 0"
  "tp_signaling lone_dial = [dial_server]" "tp_quarantineUntil lone_dial = []" "tp_failures lone_dial = []"
  "jm_get (tp_connections lone_dial) ''b'' = Some \<lparr>ac_conn = 0, ac_status = Connecting, ac_server = ''u'', ac_inbound = False\<rparr>"
  by (simp_all add: lone_dial_def dialling_value new_transport_def quarantined_def jm_get_or_def pending_dial_def phase_of_def
      sample_link_def jm_get_set)

lemma timeout_text: "\<not> server_race (timeout_error ''b'' dial_server)"
  by (simp add: server_race_def text_includes_def timeout_error_def dial_server_def sublist_Cons_right)

lemma lone_dial_free: "\<not> quarantined 5 ''b'' (transport_step True (\<lambda>u. True) 2 (DialTimeout 0) lone_dial)"
  using lone_dial_value timeout_text
  by (simp add: dial_timeout_def Let_def rejected_def conn_close_alt sample_link_def servers_from_def give_up_def
      connect_rejects_def notePeerConnectFailure_def PEER_CONNECT_FAILURE_THRESHOLD_def set_lastError_def quarantined_def
      jm_get_or_def scheduleReconnect_def split: option.split)

lemma stale_dial_blocks_peer_witness:
  "fst (connect True (\<lambda>u. True) 5 False ''b'' (transport_step True (\<lambda>u. True) 2 (DialTimeout 0) lone_dial)) = Resolved"
  using stale_dial_blocks_peer [where dials' = "\<lambda>u. True",
      OF lone_dial_value(1) _ _ _ lone_dial_value(7) _ _ _ _ _ refl lone_dial_free] timeout_text
  by (simp add: lone_dial_value sample_link_def)

end
