(* ===== verification/Signaling.thy ===== *)
theory Signaling
  imports PeerTransport
begin

section \<open>Signaling servers of a transport\<close>

text \<open>
  The part of \<open>PeerTransport.ts\<close> that keeps the client registered at its signaling servers: the resolution of the
  configuration, the events of a server's PeerJS client, the chain of reconnect timers with its back-off, and the periodic
  probe that revives it. \<open>peer.reconnect()\<close> is PeerJS's: an argument says for which servers it throws. The parsing of
  URLs is an argument too. The timers of the chain are kept by the server's URL, as in the code, and the retries after an
error by the server's index. The notification of the user interface is left out.
\<close>

subsection \<open>Configuration\<close>

datatype server_entry = ServerUrl string | ServerObject string "string option"

definition entry_server :: "server_entry \<Rightarrow> string \<times> string" where
  "entry_server e =
     (case e of ServerUrl u \<Rightarrow> (u, u)
      | ServerObject u l \<Rightarrow> (u, case l of None \<Rightarrow> u | Some t \<Rightarrow> if t = [] then u else t))"

definition resolveSignalingServers :: "server_entry list option \<Rightarrow> string option \<Rightarrow> (string \<times> string) list" where
  "resolveSignalingServers many single =
     (case many of
        Some (e # es) \<Rightarrow> map entry_server (e # es)
      | _ \<Rightarrow> (case single of None \<Rightarrow> [] | Some u \<Rightarrow> if u = [] then [] else [(u, u)]))"

record ice_server =
  ice_urls :: "string list"
  ice_username :: "string option"
  ice_credential :: "string option"

definition DEFAULT_ICE_SERVERS :: "ice_server list" where
  "DEFAULT_ICE_SERVERS =
     [\<lparr>ice_urls = [''stun:stun.l.google.com:19302'', ''stun:stun1.l.google.com:19302''], ice_username = None, ice_credential = None\<rparr>]"

definition DEFAULT_TURN_SERVERS :: "ice_server list" where
  "DEFAULT_TURN_SERVERS =
     [\<lparr>ice_urls = [''turn:openrelay.metered.ca:443'', ''turn:openrelay.metered.ca:443?transport=tcp''],
       ice_username = Some ''openrelayproject'', ice_credential = Some ''openrelayproject''\<rparr>]"

definition ICE_SERVERS_WITH_TURN :: "ice_server list" where
  "ICE_SERVERS_WITH_TURN = DEFAULT_ICE_SERVERS @ DEFAULT_TURN_SERVERS"

definition resolveIceServers ::
    "ice_server list option \<Rightarrow> bool option \<Rightarrow> ice_server list option \<Rightarrow> bool \<Rightarrow> ice_server list" where
  "resolveIceServers ice useTurn turn localhost =
     (case ice of
        Some l \<Rightarrow> l
      | None \<Rightarrow>
          (if localhost then []
           else if useTurn = Some False then DEFAULT_ICE_SERVERS
           else (case turn of Some (t # ts) \<Rightarrow> DEFAULT_ICE_SERVERS @ t # ts | _ \<Rightarrow> ICE_SERVERS_WITH_TURN)))"

record parsed_url =
  pu_protocol :: string
  pu_hostname :: string
  pu_port :: string
  pu_pathname :: string

record peerjs_server =
  pj_host :: string
  pj_port :: int
  pj_path :: string
  pj_secure :: bool

definition normalizePeerJsServer :: "parsed_url \<Rightarrow> peerjs_server" where
  "normalizePeerJsServer u =
     (let secure = (pu_protocol u = ''https:'' \<or> pu_protocol u = ''wss:'')
      in \<lparr>pj_host = pu_hostname u,
          pj_port = (if pu_port u \<noteq> [] then int (read_digits (pu_port u)) else if secure then 443 else 80),
          pj_path = (if pu_pathname u = [] then ''/'' else pu_pathname u), pj_secure = secure\<rparr>)"

subsection \<open>The reconnect chain\<close>

record instance_state =
  is_url :: string
  is_label :: string
  is_connected :: bool
  is_disconnected :: bool
  is_destroyed :: bool

record signaling =
  sg_instances :: "instance_state list"
  sg_timers :: "(string, time \<times> nat) jsmap"
  sg_attempts :: "(string, nat) jsmap"
  sg_retries :: "(nat \<times> time) list"
  sg_log :: "string list"

definition SIGNALING_RECONNECT_DELAYS :: "int list" where
  "SIGNALING_RECONNECT_DELAYS = [3000, 5000, 10000, 30000, 60000]"

definition SIGNALING_MAX_RETRIES :: nat where
  "SIGNALING_MAX_RETRIES = 50"

definition scheduleSignalingReconnect :: "time \<Rightarrow> instance_state \<Rightarrow> signaling \<Rightarrow> signaling" where
  "scheduleSignalingReconnect now i s =
     (if is_destroyed i then s
      else
        (let attempt = jm_get_or 0 (sg_attempts s) (is_url i)
         in if attempt \<ge> SIGNALING_MAX_RETRIES
            then s\<lparr>sg_attempts := jm_delete (is_url i) (sg_attempts s), sg_timers := jm_delete (is_url i) (sg_timers s)\<rparr>
            else s\<lparr>sg_timers := jm_set (is_url i)
                     (now + SIGNALING_RECONNECT_DELAYS ! min attempt (length SIGNALING_RECONNECT_DELAYS - 1), attempt) (sg_timers s)\<rparr>))"

definition cancelSignalingReconnect :: "string \<Rightarrow> signaling \<Rightarrow> signaling" where
  "cancelSignalingReconnect u s = s\<lparr>sg_timers := jm_delete u (sg_timers s), sg_attempts := jm_delete u (sg_attempts s)\<rparr>"

text \<open>A call of \<open>peer.reconnect()\<close> is recorded; what becomes of it is a later event of the server.\<close>

definition call_reconnect :: "string \<Rightarrow> signaling \<Rightarrow> signaling" where
  "call_reconnect u s = s\<lparr>sg_log := sg_log s @ [u]\<rparr>"

definition reconnect_timer :: "(string \<Rightarrow> bool) \<Rightarrow> time \<Rightarrow> instance_state \<Rightarrow> nat \<Rightarrow> signaling \<Rightarrow> signaling" where
  "reconnect_timer throws now i attempt s =
     (let u = is_url i; s1 = s\<lparr>sg_timers := jm_delete u (sg_timers s)\<rparr>
      in if is_destroyed i \<or> \<not> is_disconnected i then s1\<lparr>sg_attempts := jm_delete u (sg_attempts s1)\<rparr>
         else
           (let s2 = call_reconnect u (s1\<lparr>sg_attempts := jm_set u (attempt + 1) (sg_attempts s1)\<rparr>)
            in if throws u then scheduleSignalingReconnect now i s2 else s2))"

definition set_instance :: "nat \<Rightarrow> (instance_state \<Rightarrow> instance_state) \<Rightarrow> signaling \<Rightarrow> signaling" where
  "set_instance k f s = s\<lparr>sg_instances := (sg_instances s)[k := f (sg_instances s ! k)]\<rparr>"

definition server_opens :: "nat \<Rightarrow> signaling \<Rightarrow> signaling" where
  "server_opens k s =
     cancelSignalingReconnect (is_url (sg_instances s ! k))
       (set_instance k (\<lambda>i. i\<lparr>is_connected := True, is_disconnected := False\<rparr>) s)"

definition server_disconnects :: "time \<Rightarrow> nat \<Rightarrow> signaling \<Rightarrow> signaling" where
  "server_disconnects now k s =
     (let s1 = set_instance k (\<lambda>i. i\<lparr>is_connected := False, is_disconnected := True\<rparr>) s
      in scheduleSignalingReconnect now (sg_instances s1 ! k) s1)"

text \<open>What PeerJS says of its client when it closes, is in the event.\<close>

definition server_closes :: "time \<Rightarrow> bool \<Rightarrow> bool \<Rightarrow> nat \<Rightarrow> signaling \<Rightarrow> signaling" where
  "server_closes now disconnected destroyed k s =
     (let s1 = set_instance k (\<lambda>i. i\<lparr>is_connected := False, is_disconnected := disconnected, is_destroyed := destroyed\<rparr>) s
      in if is_destroyed (sg_instances s1 ! k) then s1 else scheduleSignalingReconnect now (sg_instances s1 ! k) s1)"

text \<open>An error after the start may have disconnected the client silently; then it is reconnected a second later.\<close>

definition server_error :: "time \<Rightarrow> bool \<Rightarrow> nat \<Rightarrow> signaling \<Rightarrow> signaling" where
  "server_error now flips k s =
     (let s1 = set_instance k (\<lambda>i. i\<lparr>is_disconnected := is_disconnected i \<or> flips\<rparr>) s; i = sg_instances s1 ! k
      in if is_disconnected i \<and> \<not> is_destroyed i then s1\<lparr>sg_retries := sg_retries s1 @ [(k, now + 1000)]\<rparr> else s1)"

definition error_retry :: "nat \<Rightarrow> signaling \<Rightarrow> signaling" where
  "error_retry j s =
     (let i = sg_instances s ! fst (sg_retries s ! j); s1 = s\<lparr>sg_retries := take j (sg_retries s) @ drop (Suc j) (sg_retries s)\<rparr>
      in if is_disconnected i \<and> \<not> is_destroyed i then call_reconnect (is_url i) s1 else s1)"

definition probeSignalingServers :: "signaling \<Rightarrow> signaling" where
  "probeSignalingServers s =
     fold (\<lambda>i s. if \<not> is_connected i \<and> \<not> is_destroyed i then call_reconnect (is_url i) s else s) (sg_instances s) s"

definition probe_instance :: "time \<Rightarrow> instance_state \<Rightarrow> signaling \<Rightarrow> signaling" where
  "probe_instance now i s =
     (if is_destroyed i then s
      else if is_connected i then s
      else
        (let s1 = s\<lparr>sg_attempts := jm_delete (is_url i) (sg_attempts s)\<rparr>;
             s2 = (if jm_has (sg_timers s1) (is_url i) then s1 else scheduleSignalingReconnect now i s1)
         in call_reconnect (is_url i) s2))"

definition periodicSignalingProbe :: "time \<Rightarrow> signaling \<Rightarrow> signaling" where
  "periodicSignalingProbe now s = fold (probe_instance now) (sg_instances s) s"

text \<open>\<open>opens\<close> says whether the new server's client opens before its timeout.\<close>

definition addSignalingServer :: "bool \<Rightarrow> string option \<Rightarrow> string \<Rightarrow> string option \<Rightarrow> signaling \<Rightarrow> bool \<times> signaling" where
  "addSignalingServer opens me url label s =
     (if me = None \<or> me = Some [] then (False, s)
      else if \<exists>i \<in> set (sg_instances s). is_url i = url then (True, s)
      else if opens
      then (True, s\<lparr>sg_instances := sg_instances s @ [\<lparr>is_url = url,
              is_label = (case label of None \<Rightarrow> url | Some l \<Rightarrow> if l = [] then url else l),
              is_connected = True, is_disconnected = False, is_destroyed = False\<rparr>]\<rparr>)
      else (False, s))"

definition getSignalingStatus :: "signaling \<Rightarrow> (string \<times> string \<times> bool) list" where
  "getSignalingStatus s = map (\<lambda>i. (is_url i, is_label i, is_connected i)) (sg_instances s)"

definition getConnectedServerCount :: "signaling \<Rightarrow> nat" where
  "getConnectedServerCount s = length (filter is_connected (sg_instances s))"

subsection \<open>The back-off of the initial registration\<close>

definition init_retry_delay :: "nat \<Rightarrow> int" where
  "init_retry_delay attempt = min (3000 * 2 ^ attempt) 30000"

definition init_retries :: "string \<Rightarrow> nat \<Rightarrow> bool" where
  "init_retries error_type attempt \<longleftrightarrow> error_type = ''unavailable-id'' \<and> attempt < 5"

subsection \<open>Events\<close>

datatype signaling_event =
    ServerOpens nat
  | ServerDisconnects nat
  | ServerCloses bool bool nat
  | ServerErrs bool nat
  | ErrorRetry nat
  | ChainTimer nat
  | Probe
  | GoesOnline
  | AddServer bool string "string option"

fun signaling_step :: "string option \<Rightarrow> (string \<Rightarrow> bool) \<Rightarrow> time \<Rightarrow> signaling_event \<Rightarrow> signaling \<Rightarrow> signaling" where
  "signaling_step me throws now (ServerOpens k) s = (if k < length (sg_instances s) then server_opens k s else s)"
| "signaling_step me throws now (ServerDisconnects k) s = (if k < length (sg_instances s) then server_disconnects now k s else s)"
| "signaling_step me throws now (ServerCloses f d k) s = (if k < length (sg_instances s) then server_closes now f d k s else s)"
| "signaling_step me throws now (ServerErrs f k) s = (if k < length (sg_instances s) then server_error now f k s else s)"
| "signaling_step me throws now (ErrorRetry j) s =
     (if j < length (sg_retries s) \<and> snd (sg_retries s ! j) \<le> now then error_retry j s else s)"
| "signaling_step me throws now (ChainTimer k) s =
     (if k < length (sg_instances s)
      then (case jm_get (sg_timers s) (is_url (sg_instances s ! k)) of
              Some (due, n) \<Rightarrow> if due \<le> now then reconnect_timer throws now (sg_instances s ! k) n s else s
            | None \<Rightarrow> s)
      else s)"
| "signaling_step me throws now Probe s = periodicSignalingProbe now s"
| "signaling_step me throws now GoesOnline s = probeSignalingServers s"
| "signaling_step me throws now (AddServer opens url label) s = snd (addSignalingServer opens me url label s)"

definition signaling_run ::
    "string option \<Rightarrow> (time \<times> (string \<Rightarrow> bool) \<times> signaling_event) list \<Rightarrow> signaling \<Rightarrow> signaling" where
  "signaling_run me es s = fold (\<lambda>(now, throws, e). signaling_step me throws now e) es s"

subsection \<open>The probe\<close>

text \<open>Every armed timer ends within the longest delay.\<close>

definition timers_within :: "time \<Rightarrow> signaling \<Rightarrow> bool" where
  "timers_within b s \<longleftrightarrow> jm.every (\<lambda>u t. fst t \<le> b) (sg_timers s)"

lemma delay_bound: "SIGNALING_RECONNECT_DELAYS ! min n (length SIGNALING_RECONNECT_DELAYS - 1) \<le> 60000"
proof -
  have "list_all (\<lambda>d. d \<le> 60000) SIGNALING_RECONNECT_DELAYS" by (simp add: SIGNALING_RECONNECT_DELAYS_def)
  moreover have "min n (length SIGNALING_RECONNECT_DELAYS - 1) < length SIGNALING_RECONNECT_DELAYS"
    by (simp add: SIGNALING_RECONNECT_DELAYS_def)
  ultimately show ?thesis by (simp add: list_all_length)
qed

lemma within_schedule:
  assumes "timers_within b s" "now + 60000 \<le> b"
  shows "timers_within b (scheduleSignalingReconnect now i s)"
proof -
  have "now + SIGNALING_RECONNECT_DELAYS ! min n (length SIGNALING_RECONNECT_DELAYS - 1) \<le> b" for n
    using delay_bound [of n] assms(2) by simp
  then show ?thesis using assms(1) by (auto simp: timers_within_def scheduleSignalingReconnect_def Let_def jm_every)
qed

lemma within_same [simp]:
  "timers_within b (s\<lparr>sg_attempts := at\<rparr>) = timers_within b s" "timers_within b (s\<lparr>sg_instances := ii\<rparr>) = timers_within b s"
  "timers_within b (s\<lparr>sg_retries := r\<rparr>) = timers_within b s" "timers_within b (call_reconnect u s) = timers_within b s"
  "timers_within b (set_instance k f s) = timers_within b s"
  by (simp_all add: timers_within_def call_reconnect_def set_instance_def)

lemma within_delete: "timers_within b s \<Longrightarrow> timers_within b (s\<lparr>sg_timers := jm_delete u (sg_timers s)\<rparr>)"
  by (simp add: timers_within_def jm_every)

lemma within_probe:
  assumes "now + 60000 \<le> b"
  shows "timers_within b s \<Longrightarrow> timers_within b (fold (probe_instance now) is s)"
proof (induction "is" arbitrary: s)
  case (Cons i "is")
  have "timers_within b (probe_instance now i s)"
    using Cons.prems assms by (simp add: probe_instance_def Let_def within_schedule)
  then show ?case using Cons.IH by simp
qed simp

lemma within_calls:
  "timers_within b (fold (\<lambda>i s. if \<not> is_connected i \<and> \<not> is_destroyed i then call_reconnect (is_url i) s else s) is s) =
   timers_within b s"
  by (induction "is" arbitrary: s) simp_all

lemma within_online: "timers_within b s \<Longrightarrow> timers_within b (probeSignalingServers s)"
  unfolding probeSignalingServers_def by (simp only: within_calls)

lemma within_signaling_step:
  assumes "timers_within b s" "now + 60000 \<le> b"
  shows "timers_within b (signaling_step me throws now e s)"
proof -
  have chain: "timers_within b (reconnect_timer throws now i n s)" for i n
    using assms by (simp add: reconnect_timer_def Let_def within_schedule within_delete)
  have cancel: "timers_within b (cancelSignalingReconnect u s)" if "timers_within b s" for u s
    using that by (simp add: cancelSignalingReconnect_def timers_within_def jm_every)
  show ?thesis
    by (cases e)
      (use assms chain cancel in \<open>auto simp: server_opens_def server_disconnects_def server_closes_def server_error_def error_retry_def
        periodicSignalingProbe_def within_probe within_online within_schedule addSignalingServer_def Let_def split: option.split\<close>)
qed

interpretation signaling_timers: machine "\<lambda>(now, throws, e). signaling_step me throws now e" "\<lambda>(now, throws, e) s. now + 60000 \<le> b" "timers_within b"
  for me b by unfold_locales (auto intro: within_signaling_step)

lemma within_run:
  assumes "timers_within (now + 60000) s" "\<forall>x \<in> set es. fst x \<le> now"
  shows "timers_within (now + 60000) (signaling_run me es s)"
  unfolding signaling_run_def
  by (rule signaling_timers.run_inv [OF assms(1)]) (use assms(2) in \<open>induction es arbitrary: s; auto\<close>)

lemma probe_keeps: "jm_has (sg_timers s) u \<Longrightarrow> jm_has (sg_timers (probe_instance now i s)) u"
  by (simp add: probe_instance_def Let_def scheduleSignalingReconnect_def call_reconnect_def jm_get_or_def jm_has_def
      jm_get_set jm_get_delete SIGNALING_MAX_RETRIES_def)

lemma probe_arms: "\<not> is_destroyed i \<Longrightarrow> \<not> is_connected i \<Longrightarrow> jm_has (sg_timers (probe_instance now i s)) (is_url i)"
  by (simp add: probe_instance_def Let_def scheduleSignalingReconnect_def call_reconnect_def jm_get_or_def jm_has_def
      jm_get_set jm_get_delete SIGNALING_MAX_RETRIES_def)

lemma probe_calls: "u \<in> set (sg_log s) \<Longrightarrow> u \<in> set (sg_log (probe_instance now i s))"
  by (simp add: probe_instance_def Let_def scheduleSignalingReconnect_def call_reconnect_def)

lemma probe_all:
  "(i \<in> set is \<and> \<not> is_destroyed i \<and> \<not> is_connected i) \<or> (jm_has (sg_timers s) (is_url i)) \<Longrightarrow>
   jm_has (sg_timers (fold (probe_instance now) is s)) (is_url i)"
proof (induction "is" arbitrary: s)
  case (Cons j "is")
  then show ?case using probe_keeps [of s "is_url i" now j] probe_arms [of j now s] by auto
qed simp

lemma probe_all_calls:
  "(i \<in> set is \<and> \<not> is_destroyed i \<and> \<not> is_connected i) \<or> is_url i \<in> set (sg_log s) \<Longrightarrow>
   is_url i \<in> set (sg_log (fold (probe_instance now) is s))"
proof (induction "is" arbitrary: s)
  case (Cons j "is")
  have "is_url j \<in> set (sg_log (probe_instance now j s))" if "\<not> is_destroyed j" "\<not> is_connected j"
    using that by (simp add: probe_instance_def Let_def call_reconnect_def)
  then show ?case using Cons probe_calls [of "is_url i" s now j] by auto
qed simp


definition sample_signaling :: signaling where
  "sample_signaling =
     \<lparr>sg_instances = [\<lparr>is_url = ''u'', is_label = ''u'', is_connected = True, is_disconnected = False, is_destroyed = False\<rparr>],
      sg_timers = [], sg_attempts = [], sg_retries = [], sg_log = []\<rparr>"


end
