(* ===== verification/Presence.thy ===== *)
theory Presence
  imports Complex_Main Workspace Paging
begin

section \<open>Presence messages\<close>

text \<open>
  Models \<open>decent-protocol/src/workspace/PresenceProtocol.ts\<close>: subscriptions, aggregated counts and pages of the peers
  of a channel with their status. \<open>lc\<close> is \<open>localeCompare\<close>; counts are rationals (not \<open>NaN\<close>), page sizes integers.
\<close>

datatype presence_status = PeerOnline | PeerAway | PeerOffline

record presence_slice =
  ps_peerId :: string
  ps_status :: presence_status
  ps_lastSeen :: "time option"
  ps_typing :: "bool option"

record presence_aggregate =
  pa_workspaceId :: string
  pa_onlineCount :: int
  pa_awayCount :: "int option"
  pa_activeChannelId :: "string option"
  pa_updatedAt :: time

record presence_page =
  pp_workspaceId :: string
  pp_channelId :: string
  pp_pageSize :: nat
  pp_cursor :: "string option"
  pp_nextCursor :: "string option"
  pp_peers :: "presence_slice list"
  pp_updatedAt :: time

datatype presence_message =
    PresenceSubscribe string string "string option" nat
  | PresenceUnsubscribe string string
  | PresenceAggregate string presence_aggregate
  | PresencePage presence_page

definition clampPresencePage :: "int option \<Rightarrow> nat" where
  "clampPresencePage pageSize = (case pageSize of None \<Rightarrow> 50 | Some n \<Rightarrow> if n \<le> 0 then 50 else min (nat n) 200)"

definition buildSubscribeMessage :: "string \<Rightarrow> string \<Rightarrow> string option \<Rightarrow> int option \<Rightarrow> presence_message" where
  "buildSubscribeMessage wid ch cursor pageSize = PresenceSubscribe wid ch cursor (clampPresencePage pageSize)"

definition buildUnsubscribeMessage :: "string \<Rightarrow> string \<Rightarrow> presence_message" where
  "buildUnsubscribeMessage wid ch = PresenceUnsubscribe wid ch"

definition buildAggregateMessage ::
    "time \<Rightarrow> string \<Rightarrow> rat \<Rightarrow> rat option \<Rightarrow> string option \<Rightarrow> time option \<Rightarrow> presence_message" where
  "buildAggregateMessage now wid onlineCount awayCount ch updatedAt =
     PresenceAggregate wid
       \<lparr>pa_workspaceId = wid, pa_onlineCount = max 0 \<lfloor>onlineCount\<rfloor>, pa_awayCount = map_option (\<lambda>n. max 0 \<lfloor>n\<rfloor>) awayCount,
        pa_activeChannelId = ch, pa_updatedAt = get_or now updatedAt\<rparr>"

text \<open>\<open>sorted.findIndex(peer => peer.peerId > c)\<close>, and the length when there is none.\<close>

fun first_peer_after :: "string \<Rightarrow> presence_slice list \<Rightarrow> nat" where
  "first_peer_after c [] = 0"
| "first_peer_after c (p # ps) = (if c < ps_peerId p then 0 else Suc (first_peer_after c ps))"

definition buildPageResponseMessage ::
    "(string \<Rightarrow> string \<Rightarrow> int) \<Rightarrow> time \<Rightarrow> string \<Rightarrow> string \<Rightarrow> presence_slice list \<Rightarrow> string option \<Rightarrow> int option \<Rightarrow> time option \<Rightarrow>
     presence_page" where
  "buildPageResponseMessage lc now wid ch peers cursor pageSizeOpt updatedAt =
     (let pageSize = clampPresencePage pageSizeOpt;
          sorted = js_sort (cmp_by ps_peerId lc) peers;
          startIndex = (case truthy_string cursor of None \<Rightarrow> 0 | Some c \<Rightarrow> first_peer_after c sorted);
          page = take pageSize (drop startIndex sorted);
          hasMore = startIndex + pageSize < length sorted
      in \<lparr>pp_workspaceId = wid, pp_channelId = ch, pp_pageSize = pageSize, pp_cursor = cursor,
          pp_nextCursor = (if hasMore \<and> page \<noteq> [] then Some (ps_peerId (last page)) else None),
          pp_peers = page, pp_updatedAt = get_or now updatedAt\<rparr>)"

subsection \<open>Walking the pages\<close>

interpretation presence: pager ps_peerId "(<)"
  by unfold_locales (rule less_not_sym)

definition fetch_presence ::
    "(string \<Rightarrow> string \<Rightarrow> int) \<Rightarrow> presence_slice list \<Rightarrow> int option \<Rightarrow> string option \<Rightarrow> presence_slice list \<times> string option" where
  "fetch_presence lc peers pageSize cursor =
     (let p = buildPageResponseMessage lc 0 [] [] peers cursor pageSize None in (pp_peers p, pp_nextCursor p))"

lemma drop_first_peer_after:
  "sorted (map ps_peerId ps) \<Longrightarrow> drop (first_peer_after c ps) ps = filter (\<lambda>p. c < ps_peerId p) ps"
proof (induction ps)
  case (Cons p ps)
  then have "c < ps_peerId p \<Longrightarrow> filter (\<lambda>p. c < ps_peerId p) ps = ps"
    by (intro filter_True) (auto intro: less_le_trans)
  with Cons show ?case by simp
qed simp

lemma clampPresencePage_pos: "0 < clampPresencePage n"
  by (auto simp: clampPresencePage_def split: option.split)

lemma presence_serves:
  assumes "sorted (map ps_peerId (js_sort (cmp_by ps_peerId lc) peers))" "[] \<notin> ps_peerId ` set peers"
  shows "presence.serves (fetch_presence lc peers n) (clampPresencePage n) (js_sort (cmp_by ps_peerId lc) peers)"
  unfolding presence.serves_def
proof (intro allI impI)
  fix c
  let ?ps = "js_sort (cmp_by ps_peerId lc) peers" and ?n = "clampPresencePage n"
  assume c: "c = None \<or> (\<exists>x \<in> set ?ps. c = Some (ps_peerId x))"
  let ?i = "case truthy_string c of None \<Rightarrow> 0 | Some k \<Rightarrow> first_peer_after k ?ps"
  have rest: "drop ?i ?ps = presence.after ?ps c"
  proof (cases c)
    case (Some k)
    then have "k \<noteq> []" using c assms(2) by force
    then show ?thesis using drop_first_peer_after [OF assms(1), of k] Some by (simp add: truthy_string_def presence.after_def)
  qed (simp add: truthy_string_def presence.after_def)
  have more: "?i + ?n < length ?ps \<longleftrightarrow> ?n < length (drop ?i ?ps)" by auto
  have page: "take ?n (drop ?i ?ps) \<noteq> []" if "?n < length (drop ?i ?ps)"
    using that clampPresencePage_pos [of n] by (cases "drop ?i ?ps") (auto simp: gr0_conv_Suc)
  show "fetch_presence lc peers n c = (take ?n (presence.after ?ps c),
      if ?n < length (presence.after ?ps c) then Some (ps_peerId (last (take ?n (presence.after ?ps c)))) else None)"
    using page unfolding rest [symmetric] more [symmetric]
    by (simp add: fetch_presence_def buildPageResponseMessage_def Let_def)
qed

text \<open>
  Following \<open>nextCursor\<close> from the first page shows every peer exactly once and in order, when peer ids are
  distinct and not empty, and \<open>localeCompare\<close>, which sorts them, agrees with the code units that find the cursor.
\<close>

theorem presence_pages_are_complete:
  assumes "comparator UNIV lc" "\<And>a b. a \<in> ps_peerId ` set peers \<Longrightarrow> b \<in> ps_peerId ` set peers \<Longrightarrow> lc a b \<le> 0 \<longleftrightarrow> a \<le> b"
    and "distinct (map ps_peerId peers)" "[] \<notin> ps_peerId ` set peers" "length peers < fuel"
  shows "mset (walk_pages (fetch_presence lc peers n) fuel None) = mset peers \<and>
    sorted (map ps_peerId (walk_pages (fetch_presence lc peers n) fuel None))"
proof -
  let ?ps = "js_sort (cmp_by ps_peerId lc) peers"
  have "in_order (cmp_by ps_peerId lc) ?ps"
    by (rule comparator.in_order_sort [OF comparator_by [OF assms(1)]]) simp
  then have "sorted_wrt (\<lambda>x y. ps_peerId x \<le> ps_peerId y) ?ps"
    by (rule sorted_wrt_mono_rel [rotated]) (use assms(2) in \<open>auto simp: cmp_by_def\<close>)
  then have sorted: "sorted (map ps_peerId ?ps)" by (simp add: sorted_wrt_map)
  moreover have "distinct (map ps_peerId ?ps)" using assms(3) by simp
  ultimately have strict: "sorted_wrt (\<lambda>x y. ps_peerId x < ps_peerId y) ?ps"
    by (simp add: strict_sorted_iff flip: sorted_wrt_map [of _ ps_peerId])
  from presence.walk_all [OF presence_serves [OF sorted assms(4)] this clampPresencePage_pos] assms(5)
  have "walk_pages (fetch_presence lc peers n) fuel None = ?ps" by simp
  with sorted show ?thesis by simp
qed

lemma presence_pages_are_complete_witness:
  "mset (walk_pages (fetch_presence str_cmp
      [\<lparr>ps_peerId = ''b'', ps_status = PeerAway, ps_lastSeen = None, ps_typing = None\<rparr>,
       \<lparr>ps_peerId = ''a'', ps_status = PeerOnline, ps_lastSeen = Some 3, ps_typing = None\<rparr>] (Some 1)) 9 None) =
   mset [\<lparr>ps_peerId = ''b'', ps_status = PeerAway, ps_lastSeen = None, ps_typing = None\<rparr>,
       \<lparr>ps_peerId = ''a'', ps_status = PeerOnline, ps_lastSeen = Some 3, ps_typing = None\<rparr>]"
  by (rule presence_pages_are_complete [THEN conjunct1]) (auto simp: str_cmp_le code_unit.comparator_axioms)

end
