(* ===== verification/Contacts.thy ===== *)
theory Contacts
  imports Prelude
begin

section \<open>Contacts and direct conversations\<close>

text \<open>
  Models the in-memory stores of \<open>decent-protocol/src/contacts/Contact.ts\<close> and \<open>DirectConversation.ts\<close>. The UUID of a new
  conversation and \<open>Date.now()\<close> are arguments.
\<close>

record contact =
  co_peerId :: string
  co_publicKey :: string
  co_displayName :: string
  co_signalingServers :: "string list"
  co_addedAt :: time
  co_lastSeen :: time

type_synonym contacts = "(string, contact) jsmap"

definition add_contact :: "contact \<Rightarrow> contacts \<Rightarrow> contacts" where
  "add_contact c s = jm_set (co_peerId c) c s"

definition remove_contact :: "string \<Rightarrow> contacts \<Rightarrow> contacts" where
  "remove_contact p s = jm_delete p s"

definition get_contact :: "string \<Rightarrow> contacts \<Rightarrow> contact option" where
  "get_contact p s = jm_get s p"

definition list_contacts :: "contacts \<Rightarrow> contact list" where
  "list_contacts s = jm_values s"

text \<open>The fields of \<open>Partial<Omit<Contact, 'peerId'>>\<close>.\<close>

record contact_update =
  cp_publicKey :: "string option"
  cp_displayName :: "string option"
  cp_signalingServers :: "string list option"
  cp_addedAt :: "time option"
  cp_lastSeen :: "time option"

definition merge_contact :: "contact_update \<Rightarrow> contact \<Rightarrow> contact" where
  "merge_contact u c =
     c\<lparr>co_publicKey := (case cp_publicKey u of None \<Rightarrow> co_publicKey c | Some k \<Rightarrow> k),
       co_displayName := (case cp_displayName u of None \<Rightarrow> co_displayName c | Some n \<Rightarrow> n),
       co_signalingServers := (case cp_signalingServers u of None \<Rightarrow> co_signalingServers c | Some ss \<Rightarrow> ss),
       co_addedAt := (case cp_addedAt u of None \<Rightarrow> co_addedAt c | Some t \<Rightarrow> t),
       co_lastSeen := (case cp_lastSeen u of None \<Rightarrow> co_lastSeen c | Some t \<Rightarrow> t)\<rparr>"

definition update_contact :: "string \<Rightarrow> contact_update \<Rightarrow> contacts \<Rightarrow> contacts" where
  "update_contact p u s = (case jm_get s p of None \<Rightarrow> s | Some c \<Rightarrow> jm_set p (merge_contact u c) s)"

record conversation =
  dc_id :: string
  dc_contactPeerId :: string
  dc_originWorkspaceId :: "string option"
  dc_createdAt :: time
  dc_lastMessageAt :: time

type_synonym conversations = "(string, conversation) jsmap"

definition conversation_with :: "string \<Rightarrow> conversations \<Rightarrow> conversation option" where
  "conversation_with p s = find (\<lambda>c. dc_contactPeerId c = p) (jm_values s)"

definition create_conversation ::
    "time \<Rightarrow> string \<Rightarrow> string \<Rightarrow> string option \<Rightarrow> conversations \<Rightarrow> conversation \<times> conversations" where
  "create_conversation now uuid p origin s =
     (case conversation_with p s of
        Some c \<Rightarrow> (c, s)
      | None \<Rightarrow>
          (let c = \<lparr>dc_id = uuid, dc_contactPeerId = p, dc_originWorkspaceId = origin, dc_createdAt = now, dc_lastMessageAt = 0\<rparr>
           in (c, jm_set uuid c s)))"

definition get_conversation :: "string \<Rightarrow> conversations \<Rightarrow> conversation option" where
  "get_conversation i s = jm_get s i"

definition list_conversations :: "conversations \<Rightarrow> conversation list" where
  "list_conversations s = js_sort (\<lambda>a b. dc_lastMessageAt b - dc_lastMessageAt a) (jm_values s)"

definition remove_conversation :: "string \<Rightarrow> conversations \<Rightarrow> conversations" where
  "remove_conversation i s = jm_delete i s"

definition update_last_message :: "string \<Rightarrow> time \<Rightarrow> conversations \<Rightarrow> conversations" where
  "update_last_message i t s = (case jm_get s i of None \<Rightarrow> s | Some c \<Rightarrow> jm_set i (c\<lparr>dc_lastMessageAt := t\<rparr>) s)"

subsection \<open>One conversation per contact\<close>

datatype conversation_call =
    CreateConversation time string string "string option"
  | RemoveConversation string
  | TouchConversation string time

fun conversation_step :: "conversation_call \<Rightarrow> conversations \<Rightarrow> conversations" where
  "conversation_step (CreateConversation now uuid p origin) s = snd (create_conversation now uuid p origin s)"
| "conversation_step (RemoveConversation i) s = remove_conversation i s"
| "conversation_step (TouchConversation i t) s = update_last_message i t s"

text \<open>A UUID is fresh.\<close>

definition fresh_call :: "conversation_call \<Rightarrow> conversations \<Rightarrow> bool" where
  "fresh_call c s \<longleftrightarrow> (case c of CreateConversation now uuid p origin \<Rightarrow> \<not> jm_has s uuid | _ \<Rightarrow> True)"

definition conversations_ok :: "conversations \<Rightarrow> bool" where
  "conversations_ok s \<longleftrightarrow> wf_map s \<and> (\<forall>i c. jm_get s i = Some c \<longrightarrow> dc_id c = i) \<and>
     (\<forall>i j c d. jm_get s i = Some c \<longrightarrow> jm_get s j = Some d \<longrightarrow> dc_contactPeerId c = dc_contactPeerId d \<longrightarrow> i = j)"

lemma conversation_with_iff:
  assumes "wf_map s"
  shows "conversation_with p s = None \<longleftrightarrow> (\<forall>i c. jm_get s i = Some c \<longrightarrow> dc_contactPeerId c \<noteq> p)"
    and "conversation_with p s = Some c \<Longrightarrow> (\<exists>i. jm_get s i = Some c) \<and> dc_contactPeerId c = p"
proof -
  show "conversation_with p s = None \<longleftrightarrow> (\<forall>i c. jm_get s i = Some c \<longrightarrow> dc_contactPeerId c \<noteq> p)"
    using set_jm_values [OF assms] by (auto simp: conversation_with_def find_None_iff)
  assume "conversation_with p s = Some c"
  then have "c \<in> set (jm_values s)" "dc_contactPeerId c = p" by (auto simp: conversation_with_def find_Some_iff)
  then show "(\<exists>i. jm_get s i = Some c) \<and> dc_contactPeerId c = p" using set_jm_values [OF assms] by auto
qed

lemma conversations_ok_create:
  assumes "conversations_ok s" "\<not> jm_has s uuid"
  shows "conversations_ok (snd (create_conversation now uuid p origin s))"
proof (cases "conversation_with p s")
  case None
  have wf: "wf_map s" using assms(1) by (simp add: conversations_ok_def)
  have other: "jm_get s i = Some c \<Longrightarrow> dc_contactPeerId c \<noteq> p" for i c
    using None conversation_with_iff(1) [OF wf] by blast
  have one: "jm_get s i = Some c \<Longrightarrow> dc_id c = i" for i c using assms(1) by (simp add: conversations_ok_def)
  have two: "jm_get s i = Some c \<Longrightarrow> jm_get s j = Some d \<Longrightarrow> dc_contactPeerId c = dc_contactPeerId d \<Longrightarrow> i = j" for i j c d
    using assms(1) unfolding conversations_ok_def by blast
  show ?thesis
    unfolding conversations_ok_def
  proof (intro conjI allI impI)
    show "wf_map (snd (create_conversation now uuid p origin s))" using wf None by (simp add: create_conversation_def Let_def)
    show "dc_id c = i" if "jm_get (snd (create_conversation now uuid p origin s)) i = Some c" for i c
      using that one None by (auto simp: create_conversation_def Let_def jm_get_set split: if_splits)
    show "i = j" if "jm_get (snd (create_conversation now uuid p origin s)) i = Some c"
      "jm_get (snd (create_conversation now uuid p origin s)) j = Some d" "dc_contactPeerId c = dc_contactPeerId d" for i j c d
      using that other [of i] other [of j] two [of i c j d] None
      by (fastforce simp: create_conversation_def Let_def jm_get_set split: if_splits)
  qed
qed (use assms(1) in \<open>simp add: create_conversation_def\<close>)

lemma conversations_ok_remove: "conversations_ok s \<Longrightarrow> conversations_ok (remove_conversation i s)"
  unfolding conversations_ok_def remove_conversation_def by (auto simp: jm_get_delete split: if_splits)

lemma conversations_ok_touch: "conversations_ok s \<Longrightarrow> conversations_ok (update_last_message i t s)"
  unfolding conversations_ok_def update_last_message_def
  by (auto simp: jm_get_set split: option.splits if_splits)

interpretation conversation_run: machine conversation_step fresh_call conversations_ok
proof
  show "conversations_ok (conversation_step c s)" if "conversations_ok s" "fresh_call c s" for c s
    using that by (cases c)
      (simp_all add: fresh_call_def conversations_ok_create conversations_ok_remove conversations_ok_touch)
qed

text \<open>
  However conversations are created, removed and written to, with fresh ids, a contact has at most one, and asking for one
  that exists gives it back.
\<close>

theorem one_conversation_per_contact:
  assumes "covered_run conversation_step fresh_call calls []"
  defines "s \<equiv> fold conversation_step calls []"
  shows "(get_conversation i s = Some c \<and> get_conversation j s = Some d \<and> dc_contactPeerId c = dc_contactPeerId d \<longrightarrow> i = j) \<and>
    (get_conversation i s = Some c \<longrightarrow> create_conversation now uuid (dc_contactPeerId c) origin s = (c, s))"
proof -
  have ok: "conversations_ok s"
    unfolding s_def by (rule conversation_run.run_inv [OF _ assms(1)]) (simp add: conversations_ok_def wf_map_def jm_keys_def jm_get_def)
  then have one: "jm_get s i = Some c \<Longrightarrow> jm_get s j = Some d \<Longrightarrow> dc_contactPeerId c = dc_contactPeerId d \<Longrightarrow> i = j" for i j c d
    unfolding conversations_ok_def by blast
  have wf: "wf_map s" using ok by (simp add: conversations_ok_def)
  have "conversation_with (dc_contactPeerId c) s = Some c" if c: "jm_get s i = Some c"
  proof -
    obtain d where d: "conversation_with (dc_contactPeerId c) s = Some d" using c conversation_with_iff(1) [OF wf] by blast
    then obtain k where "jm_get s k = Some d" "dc_contactPeerId d = dc_contactPeerId c" using conversation_with_iff(2) [OF wf] by blast
    then show ?thesis using one [of k d i c] c d by auto
  qed
  then show ?thesis using one by (auto simp: get_conversation_def create_conversation_def)
qed

lemma one_conversation_per_contact_witness:
  "fst (create_conversation 9 ''v'' ''bob'' None (fold conversation_step [CreateConversation 1 ''u'' ''bob'' None] [])) =
     \<lparr>dc_id = ''u'', dc_contactPeerId = ''bob'', dc_originWorkspaceId = None, dc_createdAt = 1, dc_lastMessageAt = 0\<rparr>"
proof -
  let ?c = "\<lparr>dc_id = ''u'', dc_contactPeerId = ''bob'', dc_originWorkspaceId = None, dc_createdAt = 1, dc_lastMessageAt = 0\<rparr>"
  have "get_conversation ''u'' (fold conversation_step [CreateConversation 1 ''u'' ''bob'' None] []) = Some ?c"
    by (simp add: get_conversation_def create_conversation_def conversation_with_def jm_values_def jm_get_set Let_def)
  moreover have "covered_run conversation_step fresh_call [CreateConversation 1 ''u'' ''bob'' None] []"
    by (simp add: fresh_call_def jm_has_def jm_get_def)
  ultimately show ?thesis
    using one_conversation_per_contact [of "[CreateConversation 1 ''u'' ''bob'' None]" "''u''" ?c "''u''" ?c 9 "''v''" None] by simp
qed

end
