(* ===== verification/ContactLinks.thy ===== *)
theory ContactLinks
  imports InviteLinks
begin

section \<open>Contact links\<close>

text \<open>
  Models \<open>decent-protocol/src/contacts/ContactURI.ts\<close>: the link a contact is shared by, written with
  \<open>URLSearchParams\<close> and read back. Texts are lists of UTF-16 code units.
\<close>

record contact_link =
  cn_publicKey :: js_text
  cn_displayName :: js_text
  cn_peerId :: "js_text option"
  cn_signalingServers :: "js_text list option"

definition encode_contact :: "contact_link \<Rightarrow> js_text" where
  "encode_contact d =
     (let ps = append_all ''sig'' (case cn_signalingServers d of None \<Rightarrow> [] | Some servers \<Rightarrow> servers)
                 (set_opt ''peer'' (cn_peerId d)
                 (p_set (lit ''name'') (cn_displayName d) (p_set (lit ''pub'') (cn_publicKey d) [])))
      in lit ''decent://contact?'' @ params_toString ps)"

definition decode_contact :: "js_text \<Rightarrow> contact_link result" where
  "decode_contact uri =
     (let trimmed = text_trim uri
      in if \<not> starts_with (lit ''decent://contact'') trimmed then Inl ''Invalid contact URI: must start with decent://contact''
         else if 63 \<notin> set trimmed then Inl ''Invalid contact URI: missing parameters''
         else
           (let ps = parse_params (tl (dropWhile (\<lambda>u. u \<noteq> 63) trimmed))
            in case param_text ''pub'' ps of
                 None \<Rightarrow> Inl ''Invalid contact URI: missing public key''
               | Some pub \<Rightarrow>
                   (case param_text ''name'' ps of
                      None \<Rightarrow> Inl ''Invalid contact URI: missing display name''
                    | Some shown \<Rightarrow>
                        Inr \<lparr>cn_publicKey = pub, cn_displayName = shown, cn_peerId = param_text ''peer'' ps,
                             cn_signalingServers = Some (filter (\<lambda>s. s \<noteq> []) (p_getAll (lit ''sig'') ps))\<rparr>)))"

definition isValid_contact :: "js_text \<Rightarrow> bool" where
  "isValid_contact uri = (case decode_contact uri of Inl e \<Rightarrow> False | Inr d \<Rightarrow> True)"

text \<open>A contact with a key and a name, all texts well-formed UTF-16.\<close>

definition wf_contact :: "contact_link \<Rightarrow> bool" where
  "wf_contact d \<longleftrightarrow> cn_publicKey d \<noteq> [] \<and> paired (cn_publicKey d) \<and> cn_displayName d \<noteq> [] \<and> paired (cn_displayName d) \<and>
     good_field (cn_peerId d) \<and> (case cn_signalingServers d of None \<Rightarrow> True | Some ss \<Rightarrow> list_all (\<lambda>s. s \<noteq> [] \<and> paired s) ss)"

text \<open>
  A contact link is read back: key, name and peer id are those written, and the servers are those written, in order, where
  no servers read as an empty list.
\<close>

theorem contact_link_roundtrip:
  assumes "wf_contact d"
  shows "decode_contact (encode_contact d) = Inr (d\<lparr>cn_signalingServers := Some (case cn_signalingServers d of None \<Rightarrow> [] | Some ss \<Rightarrow> ss)\<rparr>)"
proof -
  define servers where "servers = (case cn_signalingServers d of None \<Rightarrow> [] | Some ss \<Rightarrow> ss)"
  define ps where "ps = append_all ''sig'' servers (set_opt ''peer'' (cn_peerId d)
    (p_set (lit ''name'') (cn_displayName d) (p_set (lit ''pub'') (cn_publicKey d) [])))"
  have ss: "list_all paired servers" "filter (\<lambda>s. s \<noteq> []) servers = servers"
    using assms by (auto simp: wf_contact_def servers_def list_all_iff filter_id_conv split: option.splits)
  have "sendable []" by (simp add: sendable_def)
  then have ok: "sendable ps"
    unfolding ps_def using assms ss by (intro sendable_append_all sendable_opt sendable_set) (simp_all add: wf_contact_def)
  then have vis: "visible (params_toString ps)" using visible_parts(3) params_query by blast
  have link: "encode_contact d = lit ''decent://contact?'' @ params_toString ps"
    unfolding encode_contact_def servers_def ps_def Let_def ..
  then have trim: "text_trim (encode_contact d) = encode_contact d"
    using vis by (intro visible_trim) (simp add: lit_def)
  have start: "starts_with (lit ''decent://contact'') (encode_contact d)" "63 \<in> set (encode_contact d)"
    "tl (dropWhile (\<lambda>u. u \<noteq> 63) (encode_contact d)) = params_toString ps"
    by (simp_all add: link starts_with_def lit_def)
  have all: "p_getAll (lit ''pub'') ps = [cn_publicKey d]" "p_getAll (lit ''name'') ps = [cn_displayName d]"
    "p_getAll (lit ''peer'') ps = field (cn_peerId d)" "p_getAll (lit ''sig'') ps = servers"
    unfolding ps_def by (simp_all add: getAll_laws getAll_set del: p_set.simps)
  have "param_text ''pub'' ps = Some (cn_publicKey d)" "param_text ''name'' ps = Some (cn_displayName d)"
    using assms by (simp_all add: param_text_def get_first all wf_contact_def)
  moreover have "param_text ''peer'' ps = cn_peerId d"
    using assms by (auto simp: param_text_def get_first all field_def wf_contact_def good_field_def split: option.splits)
  ultimately show ?thesis
    by (simp add: decode_contact_def trim start params_roundtrip [OF ok] all ss flip: servers_def)
qed

lemma contact_link_roundtrip_witness:
  "decode_contact (encode_contact \<lparr>cn_publicKey = lit ''k+/='', cn_displayName = lit ''Al & Bo'', cn_peerId = None,
     cn_signalingServers = Some [lit ''wss://a/b?c'']\<rparr>) =
   Inr \<lparr>cn_publicKey = lit ''k+/='', cn_displayName = lit ''Al & Bo'', cn_peerId = None,
     cn_signalingServers = Some [lit ''wss://a/b?c'']\<rparr>"
  using contact_link_roundtrip [of "\<lparr>cn_publicKey = lit ''k+/='', cn_displayName = lit ''Al & Bo'', cn_peerId = None,
     cn_signalingServers = Some [lit ''wss://a/b?c'']\<rparr>"]
  by (simp add: wf_contact_def good_field_def paired_lit)

end
