(* ===== verification/Spec2Isabelle.thy ===== *)
theory Spec2Isabelle
  imports MessageCRDT MessageStore Receipts Workspace WorkspaceDelta Directory HistoryPages Negentropy SyncProtocol
    MessageGuard CustodyStore ManifestImport LocalPreKeys SeedPhrase InviteSignatures MediaDownload PeerTrust Devices
    ServerDiscovery ClockSync TransportLimits Signaling Presence Contacts ContactLinks
begin

text \<open>
  A verification library for DecentChat, a peer-to-peer chat written in TypeScript. Peers meet through signaling
  servers, connect by WebRTC, and replicate workspaces, channels and messages without a server.

  \<^bold>\<open>The program.\<close> \<open>decent-transport-webrtc\<close> keeps one connection per remote peer. Over it, \<open>MessageProtocol\<close>
  (\<open>decent-client-core\<close>) runs handshakes and encrypts with a double ratchet, or with the pre-keys of a peer that is away.
  Decrypted messages pass \<open>MessageGuard\<close> and its rate limiter, are linked by a hash chain and kept in \<open>MessageStore\<close> and
  the message CRDT. Workspaces change by deltas and by the sync protocol, which asks \<open>WorkspaceManager\<close> whether a change is
  allowed. Messages for absent peers wait in the offline queue or in the custody of other peers; manifests tell peers which
  parts of a workspace they lack, set reconciliation which messages. The core is \<open>decent-protocol/src\<close>; of the web client's
  \<open>ChatController.ts\<close> the handlers of media, devices, peer authentication and invites are modelled.

  \<^bold>\<open>Theories.\<close> Paths are below \<open>decent-protocol/src\<close> unless another package is named.
  \<^item> \<open>Prelude\<close>, \<open>Json\<close>, \<open>JsText\<close>, \<open>Base64\<close>, \<open>TextCoding\<close>, \<open>UrlParams\<close>: the part of JavaScript and the web platform the code
    uses (\<open>Map\<close>, \<open>Set\<close>, \<open>sort\<close>, strings, JSON values, base64, UTF-8, \<open>URLSearchParams\<close>), modelled, not assumed. \<open>Paging\<close>
    and \<open>Refinement\<close> hold two contracts that several components share.
  \<^item> \<open>MessageTypes\<close> (\<open>messages/types.ts\<close>, \<open>messageLimits.ts\<close>), \<open>VectorClock\<close> and \<open>MessageCRDT\<close> (\<open>crdt/\<close>), \<open>HashChain\<close>
    (\<open>crypto/HashChain.ts\<close>), \<open>MessageStore\<close>, \<open>Receipts\<close> (\<open>messages/\<close>): the records \<open>crdt\<close> and \<open>store\<close> have the fields of
    the classes, every method is a function on them.
  \<^item> \<open>WorkspaceTypes\<close>, \<open>Workspace\<close>, \<open>WorkspaceDelta\<close>, \<open>Directory\<close>, \<open>SyncProtocol\<close>, \<open>ServerDiscovery\<close>, \<open>Presence\<close> (\<open>workspace/\<close>),
    \<open>HistoryPages\<close> (\<open>history/\<close>), \<open>Negentropy\<close> (\<open>crdt/\<close>): records of workspaces, the manager's map, deltas with their buffer,
    pages of members and messages. \<open>SyncProtocol\<close> joins manager, stores and discovery; what it sends is a list of effects.
  \<^item> \<open>ManifestTypes\<close>, \<open>ManifestStore\<close>, \<open>ManifestSync\<close>, \<open>ManifestImport\<close> (\<open>sync/\<close>): versions, deltas and snapshots per domain,
    and what one exchange between two stores does.
  \<^item> \<open>Outbox\<close>, \<open>OfflineQueue\<close>, \<open>CustodyStore\<close> (\<open>messages/\<close>, \<open>storage/PersistentStore.ts\<close>): queues for absent peers.
  \<^item> \<open>RateLimiter\<close>, \<open>MessageGuard\<close>, \<open>PeerTrust\<close> (\<open>security/\<close>), \<open>Devices\<close> (\<open>identity/DeviceManager.ts\<close>).
  \<^item> \<open>DoubleRatchet\<close>, \<open>RatchetSession\<close>, \<open>RatchetCorrectness\<close>, \<open>PeerCrypto\<close> (\<open>crypto/\<close>), \<open>PreKeys\<close> (\<open>messages/PreKey*.ts\<close>),
    \<open>MessageProtocol\<close>, \<open>PeerSessions\<close>, \<open>LocalPreKeys\<close> (\<open>decent-client-core/src/messages/MessageProtocol.ts\<close>).
  \<^item> \<open>Wordlist\<close>, \<open>SeedPhrase\<close> (\<open>identity/\<close>), \<open>InviteURI\<close>, \<open>InviteLinks\<close>, \<open>InviteSignatures\<close> (\<open>invite/\<close>),
    \<open>MediaTransfer\<close>, \<open>MediaStore\<close> (\<open>media/\<close>), \<open>MediaDownload\<close> (the client's handlers of attachments), \<open>ClockSync\<close> (\<open>time/\<close>), \<open>Contacts\<close>, \<open>ContactLinks\<close> (\<open>contacts/\<close>).
  \<^item> \<open>PeerTransport\<close>, \<open>TransportSafety\<close>, \<open>TransportLimits\<close>, \<open>Signaling\<close> (\<open>decent-transport-webrtc/src/PeerTransport.ts\<close>):
    the record \<open>transport\<close> has the class's maps, calls, timers and what PeerJS does are the events of \<open>transport_step\<close>, and
    \<open>leads_to\<close> is the relation of the states they reach.

  \<^bold>\<open>Conventions.\<close> A class is a record, a method a function from the state to the state (and its answer), a thrown error an
  \<open>Inl\<close>. A \<open>Map\<close> is a list of pairs in insertion order. Where the code reads the clock there is an argument \<open>now\<close>; random ids,
  fresh keys and UUIDs are arguments. \<open>localeCompare\<close>, SHA-256, PBKDF2, HKDF, ECDH, ECDSA, AES-GCM, the \<open>URL\<close> class and
  PeerJS are not in the repository: they are arguments, with what the code relies on as hypotheses (a decryption that inverts
  the encryption under the same key; a total order that tells different strings apart, which for \<open>localeCompare\<close> leaves out
  strings that differ only in their Unicode normal form). Each such property has a witness with a
  concrete function; \<open>sample_crypto\<close> and \<open>sample_suite\<close> serve only there. A handler is one step: no other call runs between
  its awaits, where the text of a property does not say otherwise. Integers are those of the code: 32-bit words in
  the FNV hash and the bytes, unbounded elsewhere; averages and rates are rationals instead of doubles.

  \<^bold>\<open>What the lemmas show.\<close> The conditions of a property stand in its text. For messages: replicas that merged the same states
  agree, the store passes its own checks for batches without repetitions, chains are verified exactly, the order of
  receipts does not matter for the sets and the status. For workspaces, under the manager's own calls: which calls change a role, that a
  ban keeps a peer out, that members, bans and channels stay consistent; that a chain of deltas may arrive in any order;
  that posts are accepted only from members the channel allows. Other peers' deltas and announcements check less, and
  break these: they are findings. Manifests catch up in one exchange within the reply limit and survive export;
  reconciliation is exact where \<open>localeCompare\<close> orders ids as their code units do. For absent peers: the queue's delivery calls
  refine a mailbox per peer, retries end, envelopes stay pending under the custody store's own calls until they are acknowledged.
  For cryptography: both sides of an uninterrupted first handshake or a pre-key message hold one session, every message in flight
  decrypts within the limits, a one-time key is used once, seed phrases and plain invites are read back, a peer counts as
  authenticated only on stated grounds. For media, clocks and discovery: chunks assemble, a download ends with the bytes that were
  offered, quotas hold up to overstated sizes, list sizes hold, estimates are near. For the transport: callbacks alternate and agree with
  the connections, heartbeats follow them, a quarantine is bounded, simultaneous dials agree, a disconnected peer is not dialled
  unless a call was under way, the probe revives every server whose client is not destroyed.
  Properties of kind \<open>error\<close> state on the code as it is written what a peer can do that it should not.

  \<^bold>\<open>Interfaces.\<close> The locales \<open>keyed_store\<close>, \<open>comparator\<close>, \<open>string_order\<close>, \<open>machine\<close>, \<open>monotone_machine\<close>, \<open>merge_join\<close>
  (\<open>Prelude\<close>), \<open>pager\<close>, \<open>refinement\<close>, \<open>metered\<close> (\<open>RateLimiter\<close>) and \<open>mailbox_store\<close> (\<open>Outbox\<close>) state what clients rely on; each is
  interpreted on the model's operations, where they are defined, and the properties rest on the facts of the interpretations.

  \<^bold>\<open>Bounds and fuel.\<close> Reconciliation runs the code's 24 rounds, enough for \<open>256 * 16 ^ 23\<close> items. Walks over pages have as
  much fuel as there are elements, and every page but the last moves the cursor. The ratchet skips at most 100 keys at once and keeps
  at most 200. A manifest keeps 500 deltas per domain. All other recursions are over finite lists, or the measure is proved.

  \<^bold>\<open>Not modelled.\<close> User interfaces, the rest of \<open>ChatController.ts\<close>, the mobile client, huddles, the OpenClaw and Hermes
  peers, the company simulation, logging, thumbnails, migrations, encryption at rest and the key stores: input and output,
  rendering, or copies of modelled code. Of \<open>MessageProtocol\<close> overlapping awaits and failing databases are left out; of the
  transport the calls and events that reach an instance after \<open>destroy\<close>, and what PeerJS does inside \<open>reconnect\<close>, which shows as later
  events. Text is modelled up to Latin-1 where the code changes case or trims. ECDSA is a
  function of key and text, although browsers sign with random numbers.
\<close>

end
